(* ===== verification/Rust_Prelude.thy ===== *)
theory Rust_Prelude
  imports Main "HOL-Library.Word" "HOL-Library.List_Lexorder" "HOL-Library.Char_ord"
begin

text \<open>
  What the components use of Rust's standard library, and the hints they share.
  A Rust \<open>String\<close> is its UTF-8 byte sequence (\<open>string\<close>, one \<open>char\<close> per byte), so
  \<open>len\<close>, byte indices and the ordering of \<open>BTreeMap<String, _>\<close> keys are those of the
  list; \<open>str::trim\<close> recognises the encodings of the Unicode white space characters.
  A \<open>BTreeMap\<close> is its ascending association list. Fixed-width integers are words.
\<close>

named_theorems chud_defs \<open>unfolding rules for the small operations of the components\<close>
named_theorems chud_invar \<open>preservation of the components' invariants\<close>

section \<open>Integers\<close>

type_synonym u16 = "16 word"
type_synonym u32 = "32 word"
type_synonym u64 = "64 word"

text \<open>The target is a 64-bit one.\<close>

type_synonym usize = "64 word"

definition u32_max :: u32 where
  "u32_max = - 1"

definition u32_saturating_sub :: "u32 \<Rightarrow> u32 \<Rightarrow> u32" where
  "u32_saturating_sub a b = (if a < b then 0 else a - b)"

definition u32_saturating_pow :: "u32 \<Rightarrow> u32 \<Rightarrow> u32" where
  "u32_saturating_pow b e = (if unat b ^ unat e < 2 ^ 32 then b ^ unat e else u32_max)"

definition u64_saturating_add :: "u64 \<Rightarrow> u64 \<Rightarrow> u64" where
  "u64_saturating_add a b = (if unat a + unat b < 2 ^ 64 then a + b else - 1)"

lemma unat_u32_max: "unat u32_max = 2 ^ 32 - 1"
  by (simp add: u32_max_def unsigned_minus_1_eq_mask mask_eq_exp_minus_1)

lemma unat_u32_bound: "unat (x :: u32) < 2 ^ 32"
  using unsigned_less [of x] by simp

lemma unat_u32_saturating_sub: "unat (u32_saturating_sub a b) = unat a - unat b"
  by (auto simp: u32_saturating_sub_def unat_sub word_le_nat_alt word_less_nat_alt not_less)

lemma unat_power_small: "unat (b :: 'a :: len word) ^ n < 2 ^ LENGTH('a) \<Longrightarrow> unat (b ^ n) = unat b ^ n"
proof (induction n)
  case 0
  then show ?case by simp
next
  case (Suc n)
  show ?case
  proof (cases "unat b = 0")
    case True
    then have "b = 0" by (simp add: unat_eq_0)
    then show ?thesis by simp
  next
    case False
    then have "unat b ^ n \<le> unat b ^ Suc n" by simp
    with Suc.prems have "unat b ^ n < 2 ^ LENGTH('a)" by (rule le_less_trans [rotated])
    with Suc have "unat (b ^ n) = unat b ^ n" by blast
    with Suc.prems show ?thesis by (simp add: unat_word_ariths)
  qed
qed

lemma unat_u32_saturating_pow:
  "unat (u32_saturating_pow b e) = min (unat b ^ unat e) (2 ^ 32 - 1)"
  using unat_power_small [of b "unat e"]
  by (auto simp: u32_saturating_pow_def unat_u32_max min_def)

section \<open>Durations\<close>

text \<open>
  A \<open>std::time::Duration\<close> counts nanoseconds, up to \<open>u64::MAX\<close> seconds and
  999999999 nanoseconds; \<open>saturating_mul\<close> stops at that maximum.
\<close>

type_synonym duration = nat

definition duration_max :: duration where
  "duration_max = (2 ^ 64 - 1) * 1000000000 + 999999999"

definition duration_from_secs :: "nat \<Rightarrow> duration" where
  "duration_from_secs s = s * 1000000000"

definition duration_from_millis :: "nat \<Rightarrow> duration" where
  "duration_from_millis ms = ms * 1000000"

definition duration_saturating_mul :: "duration \<Rightarrow> u32 \<Rightarrow> duration" where
  "duration_saturating_mul d f = min (d * unat f) duration_max"

lemma duration_saturating_mul_mono:
  "d \<le> d' \<Longrightarrow> f \<le> g \<Longrightarrow> duration_saturating_mul d f \<le> duration_saturating_mul d' g"
  unfolding duration_saturating_mul_def word_le_nat_alt
  by (rule min.mono) (auto intro: mult_le_mono)

section \<open>Strings as UTF-8 bytes\<close>

text \<open>The encodings of the characters with the Unicode property White_Space.\<close>

definition byte :: "nat \<Rightarrow> char" where
  "byte n = char_of n"

definition utf8_spaces :: "string list" where
  "utf8_spaces =
     map (\<lambda>n. [byte n]) [9, 10, 11, 12, 13, 32]
     @ map (map byte) [[0xC2, 0x85], [0xC2, 0xA0], [0xE1, 0x9A, 0x80]]
     @ map (\<lambda>n. map byte [0xE2, 0x80, n]) [0x80 ..< 0x8B]
     @ map (map byte) [[0xE2, 0x80, 0xA8], [0xE2, 0x80, 0xA9], [0xE2, 0x80, 0xAF],
         [0xE2, 0x81, 0x9F], [0xE3, 0x80, 0x80]]"

definition starts_with :: "string \<Rightarrow> string \<Rightarrow> bool" where
  "starts_with s p \<longleftrightarrow> take (length p) s = p"

definition leading_space :: "string list \<Rightarrow> string \<Rightarrow> nat" where
  "leading_space ws s = (case List.find (starts_with s) ws of None \<Rightarrow> 0 | Some w \<Rightarrow> length w)"

function trim_with :: "string list \<Rightarrow> string \<Rightarrow> string" where
  "trim_with ws s =
     (let n = leading_space ws s in if n = 0 \<or> s = [] then s else trim_with ws (drop n s))"
  by pat_completeness auto
termination
  by (relation "measure (\<lambda>(ws, s). length s)") auto

declare trim_with.simps [simp del]

definition trim_start :: "string \<Rightarrow> string" where
  "trim_start s = trim_with utf8_spaces s"

definition trim_end :: "string \<Rightarrow> string" where
  "trim_end s = rev (trim_with (map rev utf8_spaces) (rev s))"

definition str_trim :: "string \<Rightarrow> string" where
  "str_trim s = trim_end (trim_start s)"

definition ascii_lower :: "char \<Rightarrow> char" where
  "ascii_lower c = (let n = of_char c :: nat in if 65 \<le> n \<and> n \<le> 90 then byte (n + 32) else c)"

definition to_ascii_lowercase :: "string \<Rightarrow> string" where
  "to_ascii_lowercase s = map ascii_lower s"

definition is_ascii_digit :: "char \<Rightarrow> bool" where
  "is_ascii_digit c \<longleftrightarrow> (let n = of_char c :: nat in 48 \<le> n \<and> n \<le> 57)"

definition is_ascii_lowercase :: "char \<Rightarrow> bool" where
  "is_ascii_lowercase c \<longleftrightarrow> (let n = of_char c :: nat in 97 \<le> n \<and> n \<le> 122)"

definition is_ascii_uppercase :: "char \<Rightarrow> bool" where
  "is_ascii_uppercase c \<longleftrightarrow> (let n = of_char c :: nat in 65 \<le> n \<and> n \<le> 90)"

definition is_ascii_alphanumeric :: "char \<Rightarrow> bool" where
  "is_ascii_alphanumeric c \<longleftrightarrow> is_ascii_digit c \<or> is_ascii_lowercase c \<or> is_ascii_uppercase c"

definition is_ascii_char :: "char \<Rightarrow> bool" where
  "is_ascii_char c \<longleftrightarrow> (of_char c :: nat) < 128"

text \<open>A continuation byte of UTF-8 does not start a character.\<close>

definition is_continuation_byte :: "char \<Rightarrow> bool" where
  "is_continuation_byte c \<longleftrightarrow> (let n = of_char c :: nat in 128 \<le> n \<and> n < 192)"

definition char_count :: "string \<Rightarrow> nat" where
  "char_count s = length (filter (\<lambda>c. \<not> is_continuation_byte c) s)"

fun str_join :: "string \<Rightarrow> string list \<Rightarrow> string" where
  "str_join sep [] = []"
| "str_join sep [x] = x"
| "str_join sep (x # y # ys) = x @ sep @ str_join sep (y # ys)"

fun dec_digits :: "nat \<Rightarrow> string" where
  "dec_digits n = (if n < 10 then [byte (48 + n)] else dec_digits (n div 10) @ [byte (48 + n mod 10)])"

declare dec_digits.simps [simp del]

definition dec_int :: "int \<Rightarrow> string" where
  "dec_int i = (if i < 0 then ''-'' @ dec_digits (nat (- i)) else dec_digits (nat i))"

definition strip_prefix :: "string \<Rightarrow> string \<Rightarrow> string option" where
  "strip_prefix p s = (if starts_with s p then Some (drop (length p) s) else None)"

definition strip_suffix :: "string \<Rightarrow> string \<Rightarrow> string option" where
  "strip_suffix p s = map_option rev (strip_prefix (rev p) (rev s))"

definition split_once :: "char \<Rightarrow> string \<Rightarrow> (string \<times> string) option" where
  "split_once c s =
     (if c \<in> set s then Some (takeWhile (\<lambda>x. x \<noteq> c) s, tl (dropWhile (\<lambda>x. x \<noteq> c) s)) else None)"

text \<open>The control characters (category Cc) are U+0000 to U+001F and U+007F to U+009F.\<close>

fun has_control_char :: "string \<Rightarrow> bool" where
  "has_control_char [] = False"
| "has_control_char (c # s) =
     (let n = of_char c :: nat in
      n < 32 \<or> n = 127
      \<or> (n = 194 \<and> (case s of [] \<Rightarrow> False | d # _ \<Rightarrow> 128 \<le> (of_char d :: nat) \<and> (of_char d :: nat) < 160))
      \<or> has_control_char s)"

fun str_contains :: "string \<Rightarrow> string \<Rightarrow> bool" where
  "str_contains [] p = (p = [])"
| "str_contains (c # s) p = (starts_with (c # s) p \<or> str_contains s p)"

fun or_else :: "'a option \<Rightarrow> 'a option \<Rightarrow> 'a option" where
  "or_else None y = y"
| "or_else (Some x) _ = Some x"

fun unwrap_or :: "'a option \<Rightarrow> 'a \<Rightarrow> 'a" where
  "unwrap_or None y = y"
| "unwrap_or (Some x) _ = x"

lemma strip_prefix_append [simp]: "strip_prefix p (p @ s) = Some s"
  by (simp add: strip_prefix_def starts_with_def)

lemma strip_prefix_Some: "strip_prefix p s = Some r \<longleftrightarrow> s = p @ r"
  by (auto simp: strip_prefix_def starts_with_def) (metis append_take_drop_id)

lemma strip_suffix_Some: "strip_suffix p s = Some r \<longleftrightarrow> s = r @ p"
  by (auto simp: strip_suffix_def strip_prefix_Some) (metis rev_append rev_rev_ident)+

lemma split_once_append:
  "c \<notin> set a \<Longrightarrow> split_once c (a @ c # b) = Some (a, b)"
  by (simp add: split_once_def dropWhile_append takeWhile_append)

lemma split_once_Some: "split_once c s = Some (a, b) \<Longrightarrow> s = a @ c # b \<and> c \<notin> set a"
  by (auto simp: split_once_def split: if_splits dest: set_takeWhileD)
    (metis (mono_tags, lifting) dropWhile_eq_Nil_conv hd_dropWhile list.collapse takeWhile_dropWhile_id)

lemma char_count_append [simp]: "char_count (a @ b) = char_count a + char_count b"
  by (simp add: char_count_def)

lemma char_count_Nil [simp]: "char_count [] = 0"
  by (simp add: char_count_def)

lemma char_count_le_length: "char_count s \<le> length s"
  by (simp add: char_count_def)

lemma str_join_empty_sep [simp]: "str_join [] xs = concat xs"
proof (induction xs)
  case Nil
  then show ?case by simp
next
  case (Cons x xs)
  then show ?case by (cases xs) auto
qed

lemma of_char_byte [simp]: "n < 256 \<Longrightarrow> (of_char (byte n) :: nat) = n"
  by (simp add: byte_def)

lemma ascii_lower_idem [simp]: "ascii_lower (ascii_lower c) = ascii_lower c"
  by (simp add: ascii_lower_def Let_def)

lemma to_ascii_lowercase_idem [simp]:
  "to_ascii_lowercase (to_ascii_lowercase s) = to_ascii_lowercase s"
  by (simp add: to_ascii_lowercase_def)

section \<open>BTreeMap as an ascending association list\<close>

type_synonym ('k, 'v) btree_map = "('k \<times> 'v) list"

fun btm_insert :: "'k :: linorder \<Rightarrow> 'v \<Rightarrow> ('k, 'v) btree_map \<Rightarrow> ('k, 'v) btree_map" where
  "btm_insert k v [] = [(k, v)]"
| "btm_insert k v (e # m) =
     (if fst e < k then e # btm_insert k v m
      else if fst e = k then (k, v) # m
      else (k, v) # e # m)"

definition btm_get :: "('k, 'v) btree_map \<Rightarrow> 'k \<Rightarrow> 'v option" where
  "btm_get m k = map_of m k"

definition btm_contains :: "('k, 'v) btree_map \<Rightarrow> 'k \<Rightarrow> bool" where
  "btm_contains m k \<longleftrightarrow> k \<in> fst ` set m"

definition btm_invar :: "('k :: linorder, 'v) btree_map \<Rightarrow> bool" where
  "btm_invar m \<longleftrightarrow> sorted_wrt (<) (map fst m)"

definition btm_of_list :: "('k :: linorder \<times> 'v) list \<Rightarrow> ('k, 'v) btree_map" where
  "btm_of_list kvs = fold (\<lambda>(k, v). btm_insert k v) kvs []"

text \<open>
  The contract of an ordered map that the clients rely on: a lookup after an insert, the
  empty map, and an invariant every insert keeps.
\<close>

locale ordered_map =
  fixes empty :: 'm
    and lookup :: "'m \<Rightarrow> 'k \<Rightarrow> 'v option"
    and insert_at :: "'k \<Rightarrow> 'v \<Rightarrow> 'm \<Rightarrow> 'm"
    and invar :: "'m \<Rightarrow> bool"
  assumes lookup_empty: "lookup empty k = None"
    and lookup_insert: "invar m \<Longrightarrow> lookup (insert_at k v m) = (lookup m)(k \<mapsto> v)"
    and invar_empty: "invar empty"
    and invar_insert: "invar m \<Longrightarrow> invar (insert_at k v m)"
begin

text \<open>Inserting a whole list: the last entry for a key wins.\<close>

lemma invar_fold_insert: "invar m \<Longrightarrow> invar (fold (\<lambda>(k, v). insert_at k v) kvs m)"
  by (induction kvs arbitrary: m) (auto intro: invar_insert)

lemma lookup_fold_insert:
  "invar m \<Longrightarrow>
   lookup (fold (\<lambda>(k, v). insert_at k v) kvs m) = lookup m ++ map_of (rev kvs)"
  by (induction kvs arbitrary: m) (auto simp: lookup_insert invar_insert)

text \<open>Inserting only what is absent: the first entry for a key wins.\<close>

definition insert_new :: "'k \<times> 'v \<Rightarrow> 'm \<Rightarrow> 'm" where
  "insert_new e m = (if lookup m (fst e) \<noteq> None then m else insert_at (fst e) (snd e) m)"

lemma invar_insert_new: "invar m \<Longrightarrow> invar (insert_new e m)"
  by (simp add: insert_new_def invar_insert)

lemma invar_fold_insert_new: "invar m \<Longrightarrow> invar (fold insert_new kvs m)"
  by (induction kvs arbitrary: m) (auto intro: invar_insert_new)

lemma lookup_fold_insert_new:
  "invar m \<Longrightarrow> lookup (fold insert_new kvs m) = map_of kvs ++ lookup m"
proof (induction kvs arbitrary: m)
  case Nil
  then show ?case by simp
next
  case (Cons e kvs)
  have "lookup (insert_new e m) = Map.empty (fst e \<mapsto> snd e) ++ lookup m"
    using Cons.prems
    by (auto simp: insert_new_def lookup_insert fun_eq_iff map_add_def split: option.splits)
  with Cons.IH [OF invar_insert_new [OF Cons.prems]] show ?case
    by (cases e) (auto simp: fun_eq_iff map_add_def split: option.splits)
qed

end

lemma btm_insert_keys: "fst ` set (btm_insert k v m) = insert k (fst ` set m)"
  by (induction m) auto

lemma btm_insert_invar [chud_invar]: "btm_invar m \<Longrightarrow> btm_invar (btm_insert k v m)"
proof (induction m)
  case Nil
  then show ?case by (simp add: btm_invar_def)
next
  case (Cons e m)
  then show ?case
    using btm_insert_keys [of k v m]
    by (fastforce simp: btm_invar_def)
qed

lemma btm_get_insert: "btm_invar m \<Longrightarrow> btm_get (btm_insert k v m) = (btm_get m)(k \<mapsto> v)"
proof (induction m)
  case Nil
  then show ?case by (simp add: btm_get_def fun_eq_iff)
next
  case (Cons e m)
  have "btm_invar m" using Cons.prems by (simp add: btm_invar_def)
  with Cons.IH show ?case
    by (cases e) (auto simp: btm_get_def fun_eq_iff)
qed

lemma btm_get_empty [simp]: "btm_get [] k = None"
  by (simp add: btm_get_def)

lemma btm_invar_empty [simp]: "btm_invar []"
  by (simp add: btm_invar_def)

interpretation btm: ordered_map "[]" btm_get btm_insert btm_invar
  by unfold_locales
    (simp_all add: btm_get_insert btm_insert_invar btm_get_empty btm_invar_empty)

lemma btm_contains_iff: "btm_contains m k \<longleftrightarrow> btm_get m k \<noteq> None"
  by (auto simp: btm_contains_def btm_get_def map_of_eq_None_iff)

lemma btm_get_in_set: "btm_invar m \<Longrightarrow> btm_get m k = Some v \<longleftrightarrow> (k, v) \<in> set m"
  unfolding btm_get_def btm_invar_def
  by (metis map_of_eq_Some_iff strict_sorted_iff)

lemma btm_filter_invar [chud_invar]: "btm_invar m \<Longrightarrow> btm_invar (filter P m)"
  by (induction m) (auto simp: btm_invar_def)

lemma btm_filter_get:
  "btm_invar m \<Longrightarrow> btm_get (filter (\<lambda>(k, v). P k) m) k = (if P k then btm_get m k else None)"
  by (induction m) (auto simp: btm_get_def btm_invar_def map_of_eq_None_iff)

lemma btm_of_list_invar [chud_invar]: "btm_invar (btm_of_list kvs)"
  by (simp add: btm_of_list_def btm.invar_fold_insert btm.invar_empty)

lemma btm_of_list_get: "btm_get (btm_of_list kvs) = map_of (rev kvs)"
  by (simp add: btm_of_list_def btm.lookup_fold_insert btm.invar_empty map_add_def fun_eq_iff split: option.splits)

section \<open>BTreeSet as an ascending list\<close>

type_synonym 'a btree_set = "'a list"

definition bts_of_list :: "'a :: linorder list \<Rightarrow> 'a btree_set" where
  "bts_of_list xs = sorted_list_of_set (set xs)"

lemma set_bts_of_list [simp]: "set (bts_of_list xs) = set xs"
  by (simp add: bts_of_list_def)

lemma strict_sorted_bts_of_list: "sorted_wrt (<) (bts_of_list xs)"
  by (simp add: bts_of_list_def)

section \<open>Results\<close>

text \<open>
  A Rust \<open>Result<T, E>\<close> is \<open>'e + 'a\<close>, \<open>Inl\<close> for \<open>Err\<close>. \<open>try_map\<close> is
  the loop that applies a fallible function to each element and stops at the first error.
\<close>

fun try_fold :: "('s \<Rightarrow> 'a \<Rightarrow> 'e + 's) \<Rightarrow> 's \<Rightarrow> 'a list \<Rightarrow> 'e + 's" where
  "try_fold f s [] = Inr s"
| "try_fold f s (x # xs) = (case f s x of Inl e \<Rightarrow> Inl e | Inr s' \<Rightarrow> try_fold f s' xs)"

fun try_map :: "('a \<Rightarrow> 'e + 'b) \<Rightarrow> 'a list \<Rightarrow> 'e + 'b list" where
  "try_map f [] = Inr []"
| "try_map f (x # xs) =
     (case f x of Inl e \<Rightarrow> Inl e
      | Inr y \<Rightarrow> (case try_map f xs of Inl e \<Rightarrow> Inl e | Inr ys \<Rightarrow> Inr (y # ys)))"

lemma try_fold_append:
  "try_fold f s (xs @ ys) =
     (case try_fold f s xs of Inl e \<Rightarrow> Inl e | Inr s' \<Rightarrow> try_fold f s' ys)"
  by (induction xs arbitrary: s) (auto split: sum.splits)

text \<open>An invariant every successful step keeps holds of the result.\<close>

lemma try_fold_invariant:
  assumes "try_fold f s xs = Inr t" and "P s"
    and "\<And>s x s'. P s \<Longrightarrow> f s x = Inr s' \<Longrightarrow> P s'"
  shows "P t"
  using assms(1,2)
  by (induction xs arbitrary: s) (auto split: sum.splits intro: assms(3))

end
