(* ===== verification/Rust_Decimal.thy ===== *)
theory Rust_Decimal
  imports Rust_Prelude
begin

text \<open>
  \<open>u64::from_str\<close> and its inverse, the decimal digits of \<open>Display\<close>.
\<close>

definition digit_value :: "char \<Rightarrow> nat" where
  "digit_value c = of_char c - 48"

definition parse_digits :: "string \<Rightarrow> nat option" where
  "parse_digits s =
     (if s \<noteq> [] \<and> list_all is_ascii_digit s then Some (foldl (\<lambda>n c. 10 * n + digit_value c) 0 s) else None)"

text \<open>A leading plus sign is accepted; a value past the range is an error.\<close>

definition parse_u64 :: "string \<Rightarrow> u64 option" where
  "parse_u64 s =
     (case parse_digits (case strip_prefix ''+'' s of None \<Rightarrow> s | Some r \<Rightarrow> r) of
        None \<Rightarrow> None
      | Some n \<Rightarrow> if n < 2 ^ 64 then Some (of_nat n) else None)"

definition parse_i32 :: "string \<Rightarrow> int option" where
  "parse_i32 s =
     (case (case s of c # r \<Rightarrow> if c = CHR ''-'' then map_option (\<lambda>n. - int n) (parse_digits r)
                              else if c = CHR ''+'' then map_option int (parse_digits r)
                              else map_option int (parse_digits s)
            | [] \<Rightarrow> None) of
        None \<Rightarrow> None
      | Some n \<Rightarrow> if - (2 ^ 31) \<le> n \<and> n < 2 ^ 31 then Some n else None)"

lemma dec_digits_small: "n < 10 \<Longrightarrow> dec_digits n = [byte (48 + n)]"
  by (simp add: dec_digits.simps)

lemma dec_digits_step: "\<not> n < 10 \<Longrightarrow> dec_digits n = dec_digits (n div 10) @ [byte (48 + n mod 10)]"
  by (simp add: dec_digits.simps [of n])

lemma dec_digits_digits: "dec_digits n \<noteq> [] \<and> list_all is_ascii_digit (dec_digits n)"
proof (induction n rule: dec_digits.induct)
  case (1 n)
  show ?case
  proof (cases "n < 10")
    case True
    then show ?thesis by (simp add: dec_digits_small is_ascii_digit_def)
  next
    case False
    moreover have "n mod 10 < 10" by simp
    then have "is_ascii_digit (byte (48 + n mod 10))" by (simp add: is_ascii_digit_def Let_def)
    ultimately show ?thesis using "1.IH" by (simp add: dec_digits_step)
  qed
qed

lemma dec_digits_value: "foldl (\<lambda>n c. 10 * n + digit_value c) 0 (dec_digits n) = n"
proof (induction n rule: dec_digits.induct)
  case (1 n)
  show ?case
  proof (cases "n < 10")
    case True
    then show ?thesis by (simp add: dec_digits_small digit_value_def)
  next
    case False
    have "n mod 10 < 10" by simp
    then have "digit_value (byte (48 + n mod 10)) = n mod 10" by (simp add: digit_value_def)
    with False "1.IH" show ?thesis by (simp add: dec_digits_step)
  qed
qed

lemma dec_digits_inj: "dec_digits m = dec_digits n \<longleftrightarrow> m = n"
  by (metis dec_digits_value)

lemma parse_digits_dec: "parse_digits (dec_digits n) = Some n"
  using dec_digits_digits [of n] by (simp add: parse_digits_def dec_digits_value)

lemma parse_u64_dec: "parse_u64 (dec_digits (unat x)) = Some x"
proof -
  have "strip_prefix ''+'' (dec_digits n) = None" for n
  proof (cases "strip_prefix ''+'' (dec_digits n)")
    case (Some r)
    then have "dec_digits n = CHR ''+'' # r" by (simp add: strip_prefix_Some)
    then show ?thesis using dec_digits_digits [of n] by (simp add: is_ascii_digit_def)
  qed
  moreover have "unat x < 2 ^ 64" using unsigned_less [of x] by simp
  ultimately show ?thesis by (simp add: parse_u64_def parse_digits_dec)
qed

end
