(* ===== verification/Json_Value.thy ===== *)
theory Json_Value
  imports Rust_Decimal
begin

text \<open>
  \<open>serde_json::Value\<close> as the crates use it: the build enables \<open>arbitrary_precision\<close>
  (a number is its literal) and not \<open>preserve_order\<close> (an object is a \<open>BTreeMap\<close>), and
  the accessors the sources call. Parsing and printing of JSON text belong to the
  \<open>serde_json\<close> package and are parameters of the definitions that use them.
\<close>

datatype json =
    JNull
  | JBool bool
  | JNumber string
  | JString string
  | JArray "json list"
  | JObject "(string \<times> json) list"

fun json_get :: "json \<Rightarrow> string \<Rightarrow> json option" where
  "json_get (JObject m) k = btm_get m k"
| "json_get _ k = None"

fun json_as_bool :: "json \<Rightarrow> bool option" where
  "json_as_bool (JBool b) = Some b"
| "json_as_bool _ = None"

fun json_as_str :: "json \<Rightarrow> string option" where
  "json_as_str (JString s) = Some s"
| "json_as_str _ = None"

fun json_as_object :: "json \<Rightarrow> (string, json) btree_map option" where
  "json_as_object (JObject m) = Some m"
| "json_as_object _ = None"

fun json_as_array :: "json \<Rightarrow> json list option" where
  "json_as_array (JArray vs) = Some vs"
| "json_as_array _ = None"

text \<open>A number is its literal, so an integer accessor parses it.\<close>

fun json_as_u64 :: "json \<Rightarrow> u64 option" where
  "json_as_u64 (JNumber n) = parse_u64 n"
| "json_as_u64 _ = None"

fun json_is_null :: "json \<Rightarrow> bool" where
  "json_is_null JNull = True"
| "json_is_null _ = False"

definition json_u64 :: "u64 \<Rightarrow> json" where
  "json_u64 n = JNumber (dec_digits (unat n))"

definition json_object :: "(string \<times> json) list \<Rightarrow> json" where
  "json_object kvs = JObject (btm_of_list kvs)"

text \<open>Objects at every depth have ascending, distinct keys.\<close>

fun json_invar :: "json \<Rightarrow> bool" where
  "json_invar (JArray xs) = list_all json_invar xs"
| "json_invar (JObject m) = (btm_invar m \<and> list_all (\<lambda>e. json_invar (snd e)) m)"
| "json_invar _ = True"

lemma json_as_u64_u64 [simp]: "json_as_u64 (json_u64 n) = Some n"
  by (simp add: json_u64_def parse_u64_dec)

lemma json_get_object: "json_get (json_object kvs) k = map_of (rev kvs) k"
  by (simp add: json_object_def btm_of_list_get)

end
