(* ===== verification/Api_Media.thy ===== *)
theory Api_Media
  imports Json_Value
begin

text \<open>
  \<open>chudbot-api/src/media/reference.rs\<close>: media categories, stored-media URIs and media
  handles. A handle (\<open>Box<dyn MediaRef>\<close>) is its metadata; what a backend answers to
  \<open>public_url\<close> and \<open>embedded_base64\<close> is a parameter of the definitions that ask.
\<close>

datatype media_category = Image | Video | Audio | Avatar | GuildIcon | Other string

type_synonym media_uri = string

record media_metadata =
  mm_category :: media_category
  mm_name :: string
  mm_uri :: media_uri
  mm_mime_type :: string
  mm_size_bytes :: u64

record stored_media_uri_parts =
  smu_category :: media_category
  smu_name :: string

datatype media_error =
    UnsupportedCategory string
  | UnsupportedUri string
  | UnsafeName string
  | NoPublicUrl media_uri
  | BytesUnavailable media_uri
  | Io string

datatype media_ref = MediaRef media_metadata

fun media_metadata_of :: "media_ref \<Rightarrow> media_metadata" where
  "media_metadata_of (MediaRef m) = m"

fun category_prefix :: "media_category \<Rightarrow> string" where
  "category_prefix Image = ''images''"
| "category_prefix Video = ''videos''"
| "category_prefix Audio = ''audio''"
| "category_prefix Avatar = ''avatars''"
| "category_prefix GuildIcon = ''guild-icons''"
| "category_prefix (Other prefix) = prefix"

definition category_from_prefix :: "string \<Rightarrow> media_category option" where
  "category_from_prefix prefix =
     (if prefix = ''images'' then Some Image
      else if prefix = ''videos'' then Some Video
      else if prefix = ''audio'' then Some Audio
      else if prefix = ''avatars'' then Some Avatar
      else if prefix = ''guild-icons'' then Some GuildIcon
      else None)"

definition stored_media_scheme :: string where
  "stored_media_scheme = ''media://''"

definition legacy_file_media_scheme :: string where
  "legacy_file_media_scheme = ''file://''"

definition stored_media_uri :: "media_category \<Rightarrow> string \<Rightarrow> media_uri" where
  "stored_media_uri category name =
     stored_media_scheme @ category_prefix category @ ''/'' @ name"

definition is_stored_media_uri :: "string \<Rightarrow> bool" where
  "is_stored_media_uri v \<longleftrightarrow>
     starts_with v stored_media_scheme \<or> starts_with v legacy_file_media_scheme"

definition stored_media_path :: "string \<Rightarrow> string option" where
  "stored_media_path v =
     (case strip_prefix stored_media_scheme v of
        Some p \<Rightarrow> Some p
      | None \<Rightarrow> strip_prefix legacy_file_media_scheme v)"

definition stored_media_name_is_safe :: "string \<Rightarrow> bool" where
  "stored_media_name_is_safe name \<longleftrightarrow>
     name \<noteq> [] \<and> CHR ''/'' \<notin> set name \<and> CHR 0x5C \<notin> set name
     \<and> name \<noteq> ''.'' \<and> name \<noteq> ''..'' \<and> \<not> has_control_char name"

definition parse_stored_media_uri :: "media_uri \<Rightarrow> media_error + stored_media_uri_parts" where
  "parse_stored_media_uri uri =
     (case stored_media_path uri of
        None \<Rightarrow> Inl (UnsupportedUri uri)
      | Some path \<Rightarrow>
          (case split_once (CHR ''/'') path of
             None \<Rightarrow> Inl (UnsupportedUri uri)
           | Some (prefix, name) \<Rightarrow>
               if \<not> stored_media_name_is_safe name then Inl (UnsupportedUri uri)
               else (case category_from_prefix prefix of
                       None \<Rightarrow> Inl (UnsupportedUri uri)
                     | Some category \<Rightarrow> Inr \<lparr>smu_category = category, smu_name = name\<rparr>)))"

definition canonical_stored_media_uri :: "media_uri \<Rightarrow> media_error + media_uri" where
  "canonical_stored_media_uri uri =
     (case parse_stored_media_uri uri of
        Inl e \<Rightarrow> Inl e
      | Inr parsed \<Rightarrow> Inr (stored_media_uri (smu_category parsed) (smu_name parsed)))"

definition stored_media_served_path :: "media_uri \<Rightarrow> media_error + string" where
  "stored_media_served_path uri =
     (case parse_stored_media_uri uri of
        Inl e \<Rightarrow> Inl e
      | Inr parsed \<Rightarrow> Inr (category_prefix (smu_category parsed) @ ''/'' @ smu_name parsed))"

section \<open>Lemmas\<close>

fun builtin_category :: "media_category \<Rightarrow> bool" where
  "builtin_category (Other _) = False"
| "builtin_category _ = True"

lemma category_from_prefix_Some:
  "category_from_prefix p = Some c \<longleftrightarrow> builtin_category c \<and> p = category_prefix c"
  by (cases c) (auto simp: category_from_prefix_def)

lemma category_from_builtin [simp]:
  "builtin_category c \<Longrightarrow> category_from_prefix (category_prefix c) = Some c"
  by (simp add: category_from_prefix_Some)

lemma builtin_prefix_no_slash: "builtin_category c \<Longrightarrow> CHR ''/'' \<notin> set (category_prefix c)"
  by (cases c) auto

lemma stored_media_path_cases:
  "stored_media_path v = Some p \<longleftrightarrow>
   v = stored_media_scheme @ p \<or>
   v = legacy_file_media_scheme @ p"
  by (auto simp: stored_media_path_def strip_prefix_Some stored_media_scheme_def
      legacy_file_media_scheme_def split: option.splits)
    (auto simp: strip_prefix_def starts_with_def)

lemma parse_stored_media_uri_Inr:
  "parse_stored_media_uri uri = Inr parts \<longleftrightarrow>
   builtin_category (smu_category parts) \<and> stored_media_name_is_safe (smu_name parts) \<and>
   (uri = stored_media_uri (smu_category parts) (smu_name parts) \<or>
    uri = legacy_file_media_scheme @ category_prefix (smu_category parts) @ ''/'' @ smu_name parts)"
  (is "?l \<longleftrightarrow> ?r")
proof
  assume ?l
  then obtain path prefix where
    path: "stored_media_path uri = Some path" and
    split: "split_once (CHR ''/'') path = Some (prefix, smu_name parts)" and
    safe: "stored_media_name_is_safe (smu_name parts)" and
    cat: "category_from_prefix prefix = Some (smu_category parts)"
    by (auto simp: parse_stored_media_uri_def split: option.splits prod.splits if_splits)
  from split_once_Some [OF split] cat have "path = category_prefix (smu_category parts) @ ''/'' @ smu_name parts"
    by (simp add: category_from_prefix_Some)
  with path cat safe show ?r
    by (auto simp: stored_media_path_cases category_from_prefix_Some stored_media_uri_def)
next
  assume ?r
  then have path: "stored_media_path uri =
      Some (category_prefix (smu_category parts) @ CHR ''/'' # smu_name parts)"
    by (auto simp: stored_media_path_cases stored_media_uri_def)
  from \<open>?r\<close> show ?l
    by (simp add: parse_stored_media_uri_def path split_once_append builtin_prefix_no_slash)
qed

section \<open>Properties\<close>

text \<open>
  Stored-media URIs round-trip. Printing and parsing gives back the category and name exactly when
  the category is one of the built-in ones and the name is safe. A URI that is accepted, with either
  scheme, has a canonical form that uses the current scheme, denotes the same media and is its own
  canonical form; a URI that is rejected is rejected as unsupported.
\<close>

theorem stored_media_uri_roundtrip:
  "(parse_stored_media_uri (stored_media_uri c name) = Inr \<lparr>smu_category = c, smu_name = name\<rparr>
      \<longleftrightarrow> builtin_category c \<and> stored_media_name_is_safe name)
   \<and> (case canonical_stored_media_uri uri of
        Inl e \<Rightarrow> e = UnsupportedUri uri
      | Inr u \<Rightarrow> starts_with u stored_media_scheme \<and> parse_stored_media_uri u = parse_stored_media_uri uri
          \<and> canonical_stored_media_uri u = Inr u)"
proof (intro conjI)
  show "parse_stored_media_uri (stored_media_uri c name) = Inr \<lparr>smu_category = c, smu_name = name\<rparr>
      \<longleftrightarrow> builtin_category c \<and> stored_media_name_is_safe name"
    by (simp add: parse_stored_media_uri_Inr)
next
  show "case canonical_stored_media_uri uri of
        Inl e \<Rightarrow> e = UnsupportedUri uri
      | Inr u \<Rightarrow> starts_with u stored_media_scheme \<and> parse_stored_media_uri u = parse_stored_media_uri uri
          \<and> canonical_stored_media_uri u = Inr u"
  proof (cases "parse_stored_media_uri uri")
    case (Inl e)
    then have "e = UnsupportedUri uri"
      by (auto simp: parse_stored_media_uri_def split: option.splits prod.splits if_splits)
    with Inl show ?thesis by (simp add: canonical_stored_media_uri_def)
  next
    case (Inr parts)
    let ?u = "stored_media_uri (smu_category parts) (smu_name parts)"
    from Inr have "parse_stored_media_uri ?u = Inr parts"
      by (simp add: parse_stored_media_uri_Inr)
    moreover have "starts_with ?u stored_media_scheme"
      by (simp add: stored_media_uri_def starts_with_def)
    ultimately show ?thesis using Inr by (simp add: canonical_stored_media_uri_def)
  qed
qed

text \<open>
  Serving stored media cannot leave the media directory. A served path is a known category
  directory, one slash, and a single file name that is not empty, not a dot segment, and free of
  separators and control characters.
\<close>

theorem served_path_stays_inside:
  "case stored_media_served_path uri of
     Inl e \<Rightarrow> e = UnsupportedUri uri
   | Inr path \<Rightarrow> (\<exists>dir name. path = dir @ ''/'' @ name
       \<and> dir \<in> {''images'', ''videos'', ''audio'', ''avatars'', ''guild-icons''}
       \<and> name \<notin> {'''', ''.'', ''..''} \<and> set name \<inter> {CHR ''/'', CHR 0x5C} = {}
       \<and> has_control_char name = False)"
proof (cases "parse_stored_media_uri uri")
  case (Inl e)
  then have "e = UnsupportedUri uri"
    by (auto simp: parse_stored_media_uri_def split: option.splits prod.splits if_splits)
  with Inl show ?thesis by (simp add: stored_media_served_path_def)
next
  case (Inr parts)
  then have "builtin_category (smu_category parts)" "stored_media_name_is_safe (smu_name parts)"
    by (simp_all add: parse_stored_media_uri_Inr)
  moreover from this have "category_prefix (smu_category parts)
      \<in> {''images'', ''videos'', ''audio'', ''avatars'', ''guild-icons''}"
    by (cases "smu_category parts") simp_all
  ultimately show ?thesis
    using Inr by (auto simp: stored_media_served_path_def stored_media_name_is_safe_def)
qed

end
