(* ===== verification/Api_Tool.thy ===== *)
theory Api_Tool
  imports Api_Media
begin

text \<open>
  \<open>chudbot-api/src/usage.rs\<close> and \<open>tool.rs\<close>: usage records, the provider-neutral
  tool protocol (specifications, calls, outputs, results and traces), and the executor
  interface \<open>ClientToolExecutor\<close> with its contract as a locale. Identifiers are the
  transparent string wrappers of \<open>ids.rs\<close>.
\<close>

type_synonym provider_name = string
type_synonym model_id = string
type_synonym tool_name = string
type_synonym tool_use_id = string

section \<open>Usage records\<close>

datatype usage_subject =
    ModelStep
  | ServerTool tool_name
  | ClientTool tool_name
  | SubAgent tool_name
  | ImageGeneration
  | VideoGeneration
  | AudioTranscription

record cost_amount =
  ca_amount :: string
  ca_unit :: string
  ca_estimated :: bool

record usage_record =
  ur_provider :: provider_name
  ur_model :: "model_id option"
  ur_subject :: usage_subject
  ur_input_tokens :: "u64 option"
  ur_cached_input_tokens :: "u64 option"
  ur_output_tokens :: "u64 option"
  ur_reasoning_tokens :: "u64 option"
  ur_total_tokens :: "u64 option"
  ur_cost :: "cost_amount option"
  ur_raw :: "json option"

definition usage_record_new :: "provider_name \<Rightarrow> usage_subject \<Rightarrow> usage_record" where
  "usage_record_new provider subject =
     \<lparr>ur_provider = provider, ur_model = None, ur_subject = subject, ur_input_tokens = None,
      ur_cached_input_tokens = None, ur_output_tokens = None, ur_reasoning_tokens = None,
      ur_total_tokens = None, ur_cost = None, ur_raw = None\<rparr>"

section \<open>Tool input schemas\<close>

datatype tool_input_value_type = StringType | IntegerType | NumberType | BooleanType | ArrayType

datatype tool_input_value_schema =
    ToolInputValueSchema
      (tis_kind: tool_input_value_kind)
      (tis_description: "string option")
      (tis_enum_values: "string list")
      (tis_default: "json option")
      (tis_minimum: "json option")
      (tis_maximum: "json option")
      (tis_exclusive_minimum: "json option")
      (tis_min_length: "nat option")
      (tis_max_length: "nat option")
      (tis_min_items: "nat option")
      (tis_max_items: "nat option")
and tool_input_value_kind =
    Typed tool_input_value_type "tool_input_value_schema option"
  | AnyOf "tool_input_value_schema list"

record tool_input_field =
  tif_name :: string
  tif_schema :: tool_input_value_schema
  tif_required :: bool

record tool_input_schema =
  ts_properties :: "(string, tool_input_value_schema) btree_map"
  ts_required :: "string list"
  ts_additional_properties :: bool

definition value_schema_new :: "tool_input_value_kind \<Rightarrow> tool_input_value_schema" where
  "value_schema_new kind =
     ToolInputValueSchema kind None [] None None None None None None None None"

definition schema_object_step ::
  "(string, tool_input_value_schema) btree_map \<times> string list \<Rightarrow> tool_input_field
    \<Rightarrow> (string, tool_input_value_schema) btree_map \<times> string list" where
  "schema_object_step acc field =
     (btm_insert (tif_name field) (tif_schema field) (fst acc),
      if tif_required field then snd acc @ [tif_name field] else snd acc)"

definition schema_object :: "tool_input_field list \<Rightarrow> tool_input_schema" where
  "schema_object fs =
     (let (properties, required) = foldl schema_object_step ([], []) fs
      in \<lparr>ts_properties = properties, ts_required = required, ts_additional_properties = False\<rparr>)"

section \<open>Calls, outputs, results and traces\<close>

record client_tool_spec =
  cts_description :: string
  cts_input_schema :: tool_input_schema

record client_tool_definition =
  ctd_name :: tool_name
  ctd_spec :: client_tool_spec

record client_tool_call =
  ctc_id :: tool_use_id
  ctc_name :: tool_name
  ctc_input :: json

datatype client_tool_result_content = ResultJson json | ResultText string

record client_tool_output =
  cto_result :: client_tool_result_content
  cto_media :: "media_ref list"
  cto_is_error :: bool
  cto_trace_response :: json
  cto_usage :: "usage_record list"

record client_tool_result =
  ctr_tool_use_id :: tool_use_id
  ctr_content :: client_tool_result_content
  ctr_is_error :: bool

record client_tool_trace =
  ctt_call :: client_tool_call
  ctt_result :: client_tool_result
  ctt_trace_response :: json
  ctt_usage :: "usage_record list"

record server_tool_use =
  stu_provider :: provider_name
  stu_name :: tool_name
  stu_id :: "string option"
  stu_status :: "string option"
  stu_raw :: json
  stu_usage :: "usage_record list"

record grounding_metadata =
  gm_provider :: provider_name
  gm_raw :: json

datatype tool_trace =
    TraceClient client_tool_trace
  | TraceServer server_tool_use
  | TraceGrounding grounding_metadata

section \<open>Executors\<close>

datatype 'e client_tool_executor_error = UnknownTool tool_name | Execution 'e

fun is_unknown :: "'e client_tool_executor_error \<Rightarrow> bool" where
  "is_unknown (UnknownTool _) = True"
| "is_unknown (Execution _) = False"

fun executor_error_message :: "('e \<Rightarrow> string) \<Rightarrow> 'e client_tool_executor_error \<Rightarrow> string" where
  "executor_error_message show_e (UnknownTool name) = ''unknown tool `'' @ name @ ''`''"
| "executor_error_message show_e (Execution source) = ''execution failed: '' @ show_e source"

text \<open>
  An executor advertises definitions and executes calls. Its answer may depend on the
  world, so a call also carries a \<^emph>\<open>moment\<close>: the step and the position at which the
  agent issues it.
\<close>

type_synonym moment = "nat \<times> nat"

record 'e client_tool_executor =
  tools :: "client_tool_definition list"
  execute :: "moment \<Rightarrow> client_tool_call \<Rightarrow> 'e client_tool_executor_error + client_tool_output"

text \<open>
  The contract of the trait: a name the executor does not advertise is answered with the
  unknown-tool sentinel naming it.
\<close>

locale tool_executor_contract =
  fixes advertised :: "client_tool_definition list"
    and run_call :: "moment \<Rightarrow> client_tool_call \<Rightarrow> 'e client_tool_executor_error + client_tool_output"
  assumes unadvertised_unknown:
    "ctc_name call \<notin> ctd_name ` set advertised \<Longrightarrow> run_call m call = Inl (UnknownTool (ctc_name call))"
begin

lemma success_advertised: "run_call m call = Inr out \<Longrightarrow> ctc_name call \<in> ctd_name ` set advertised"
  using unadvertised_unknown [of call m] by (metis Inl_Inr_False)

lemma execution_error_advertised:
  "run_call m call = Inl (Execution e) \<Longrightarrow> ctc_name call \<in> ctd_name ` set advertised"
  using unadvertised_unknown [of call m] by fastforce

end

definition no_client_tools :: "'e client_tool_executor" where
  "no_client_tools =
     \<lparr>tools = [], execute = (\<lambda>m call. Inl (UnknownTool (ctc_name call)))\<rparr>"

interpretation no_tools: tool_executor_contract "tools no_client_tools" "execute no_client_tools"
  by unfold_locales (simp add: no_client_tools_def)

end
