(* ===== verification/Api_Transcript.thy ===== *)
theory Api_Transcript
  imports Api_Tool
begin

text \<open>
  \<open>chudbot-api/src/transcript.rs\<close>: the provider-neutral transcript, its turns and content
  blocks, and the extraction of the leading system turns providers hoist.
\<close>

datatype turn_role = User | Assistant | System

record provider_continuation =
  pc_provider :: provider_name
  pc_data :: json

datatype content_block =
    BlockText string
  | BlockMedia media_ref
  | BlockClientToolCall client_tool_call
  | BlockClientToolResult client_tool_result
  | BlockContinuation provider_continuation

record transcript_turn =
  tt_role :: turn_role
  tt_blocks :: "content_block list"
  tt_metadata :: json

record transcript =
  t_id :: "string option"
  t_turns :: "transcript_turn list"

definition transcript_new :: transcript where
  "transcript_new = \<lparr>t_id = None, t_turns = []\<rparr>"

definition turn_text :: "turn_role \<Rightarrow> string \<Rightarrow> transcript_turn" where
  "turn_text role text = \<lparr>tt_role = role, tt_blocks = [BlockText text], tt_metadata = JNull\<rparr>"

definition transcript_push :: "transcript \<Rightarrow> transcript_turn \<Rightarrow> transcript" where
  "transcript_push t turn = t\<lparr>t_turns := t_turns t @ [turn]\<rparr>"

definition from_user_text :: "string \<Rightarrow> transcript" where
  "from_user_text text = transcript_push transcript_new (turn_text User text)"

text \<open>The module's own marker test looks at the metadata only.\<close>

definition is_agent_instruction_turn :: "transcript_turn \<Rightarrow> bool" where
  "is_agent_instruction_turn turn =
     (case Option.bind (json_get (tt_metadata turn) ''agent_instructions'') json_as_bool of
        None \<Rightarrow> False | Some b \<Rightarrow> b)"

definition leading_system_turn :: "transcript \<Rightarrow> transcript_turn option" where
  "leading_system_turn t =
     (case t_turns t of
        [] \<Rightarrow> None
      | turn # _ \<Rightarrow> if tt_role turn = System then Some turn else None)"

definition leading_system_turn_count :: "transcript \<Rightarrow> nat" where
  "leading_system_turn_count t =
     (case leading_system_turn t of
        None \<Rightarrow> 0
      | Some first \<Rightarrow>
          if is_agent_instruction_turn first
          then length (takeWhile (\<lambda>turn. tt_role turn = System \<and> is_agent_instruction_turn turn) (t_turns t))
          else 1)"

fun nonempty_block_text :: "content_block \<Rightarrow> string option" where
  "nonempty_block_text (BlockText text) = (if text = [] then None else Some text)"
| "nonempty_block_text _ = None"

definition leading_system_text :: "transcript \<Rightarrow> string option" where
  "leading_system_text t =
     (let count = leading_system_turn_count t
      in if count = 0 then None
         else (let text = str_join [CHR 0x0A, CHR 0x0A]
                 (concat (map (\<lambda>turn. List.map_filter nonempty_block_text (tt_blocks turn))
                    (take count (t_turns t))))
               in if text = [] then None else Some text))"

section \<open>Lemmas\<close>

lemma t_turns_push [simp]: "t_turns (transcript_push t turn) = t_turns t @ [turn]"
  by (simp add: transcript_push_def)

lemma t_id_push [simp]: "t_id (transcript_push t turn) = t_id t"
  by (simp add: transcript_push_def)

lemma leading_system_turn_count_le: "leading_system_turn_count t \<le> length (t_turns t)"
  by (auto simp: leading_system_turn_count_def leading_system_turn_def length_takeWhile_le
      split: option.splits list.splits if_splits)

text \<open>Every turn that is hoisted is a system turn.\<close>

lemma hoisted_turns_system:
  "turn \<in> set (take (leading_system_turn_count t) (t_turns t)) \<Longrightarrow> tt_role turn = System"
  by (auto simp: leading_system_turn_count_def leading_system_turn_def takeWhile_eq_take [symmetric]
      dest!: set_takeWhileD split: option.splits list.splits if_splits)

end
