(* ===== verification/Api_Llm.thy ===== *)
theory Api_Llm
  imports Api_Transcript
begin

text \<open>
  \<open>chudbot-api/src/llm.rs\<close>, with the step kinds of \<open>storage.rs\<close> and the reasoning item
  types of \<open>reasoning.rs\<close>: what one provider round trip receives, the events it streams
  and the collected output the agent loop folds.
\<close>

section \<open>Collected output\<close>

datatype model_step_kind = Final | Continue | ClientTools

fun model_step_kind_label :: "model_step_kind \<Rightarrow> string" where
  "model_step_kind_label Final = ''final''"
| "model_step_kind_label Continue = ''continue''"
| "model_step_kind_label ClientTools = ''client_tools''"

record reasoning_summary =
  rs_kind :: "string option"
  rs_text :: string

record reasoning_item =
  ri_provider :: provider_name
  ri_model :: "model_id option"
  ri_id :: "string option"
  ri_status :: "string option"
  ri_summary :: "reasoning_summary list"

datatype model_output_block =
    OutText string
  | OutClientToolCall client_tool_call
  | OutContinuation provider_continuation

datatype model_step_item =
    OutputBlock model_output_block
  | Reasoning reasoning_item
  | ItemServerToolUse server_tool_use
  | ItemGrounding grounding_metadata

record model_step_output =
  mso_model_id :: model_id
  mso_items :: "model_step_item list"
  mso_usage :: "usage_record list"

record model_step =
  ms_kind :: model_step_kind
  ms_output :: model_step_output

definition model_step_output_new :: "model_id \<Rightarrow> model_step_output" where
  "model_step_output_new model_id = \<lparr>mso_model_id = model_id, mso_items = [], mso_usage = []\<rparr>"

fun into_content_block :: "model_output_block \<Rightarrow> content_block" where
  "into_content_block (OutText text) = BlockText text"
| "into_content_block (OutClientToolCall call) = BlockClientToolCall call"
| "into_content_block (OutContinuation continuation) = BlockContinuation continuation"

fun item_output_block :: "model_step_item \<Rightarrow> model_output_block option" where
  "item_output_block (OutputBlock block) = Some block"
| "item_output_block _ = None"

definition output_blocks :: "model_step_output \<Rightarrow> model_output_block list" where
  "output_blocks out = List.map_filter item_output_block (mso_items out)"

definition transcript_blocks :: "model_step_output \<Rightarrow> content_block list" where
  "transcript_blocks out = map into_content_block (output_blocks out)"

fun answer_block :: "model_output_block \<Rightarrow> content_block option" where
  "answer_block (OutText text) = Some (into_content_block (OutText text))"
| "answer_block _ = None"

definition answer_blocks :: "model_step_output \<Rightarrow> content_block list" where
  "answer_blocks out = List.map_filter answer_block (output_blocks out)"

fun block_tool_call :: "model_output_block \<Rightarrow> client_tool_call option" where
  "block_tool_call (OutClientToolCall call) = Some call"
| "block_tool_call _ = None"

definition client_tool_calls :: "model_step_output \<Rightarrow> client_tool_call list" where
  "client_tool_calls out = List.map_filter block_tool_call (output_blocks out)"

fun item_reasoning :: "model_step_item \<Rightarrow> reasoning_item option" where
  "item_reasoning (Reasoning r) = Some r"
| "item_reasoning _ = None"

definition reasoning_of :: "model_step_output \<Rightarrow> reasoning_item list" where
  "reasoning_of out = List.map_filter item_reasoning (mso_items out)"

fun item_server_tool_use :: "model_step_item \<Rightarrow> server_tool_use option" where
  "item_server_tool_use (ItemServerToolUse tool) = Some tool"
| "item_server_tool_use _ = None"

definition server_tool_uses :: "model_step_output \<Rightarrow> server_tool_use list" where
  "server_tool_uses out = List.map_filter item_server_tool_use (mso_items out)"

fun item_grounding :: "model_step_item \<Rightarrow> grounding_metadata option" where
  "item_grounding (ItemGrounding metadata) = Some metadata"
| "item_grounding _ = None"

definition grounding_of :: "model_step_output \<Rightarrow> grounding_metadata list" where
  "grounding_of out = List.map_filter item_grounding (mso_items out)"

fun block_continuation :: "model_output_block \<Rightarrow> provider_continuation option" where
  "block_continuation (OutContinuation continuation) = Some continuation"
| "block_continuation _ = None"

definition last_opt :: "'a list \<Rightarrow> 'a option" where
  "last_opt xs = (if xs = [] then None else Some (last xs))"

definition continuation_of :: "model_step_output \<Rightarrow> provider_continuation option" where
  "continuation_of out = last_opt (List.map_filter block_continuation (output_blocks out))"

fun block_text :: "model_output_block \<Rightarrow> string" where
  "block_text (OutText text) = text"
| "block_text _ = []"

definition answer_text :: "model_step_output \<Rightarrow> string" where
  "answer_text out = concat (map block_text (output_blocks out))"

section \<open>Events\<close>

datatype model_step_delta =
    DeltaText string string
  | DeltaReasoningSummary string provider_name "string option" string
  | DeltaClientToolCall string tool_use_id "tool_name option" string

datatype model_step_event =
    Delta model_step_delta
  | EvContinuation provider_continuation
  | EvServerToolUse server_tool_use
  | EvGrounding grounding_metadata
  | EvUsage usage_record
  | Finished model_step_kind model_id

fun summary_delta_events :: "string \<Rightarrow> provider_name \<Rightarrow> reasoning_summary list \<Rightarrow> model_step_event list" where
  "summary_delta_events item_id provider [] = []"
| "summary_delta_events item_id provider (s # ss) =
     (if rs_text s = [] then summary_delta_events item_id provider ss
      else Delta (DeltaReasoningSummary item_id provider (rs_kind s) (rs_text s))
             # summary_delta_events item_id provider ss)"

fun reasoning_items_to_delta_events_from ::
  "nat \<Rightarrow> reasoning_item list \<Rightarrow> string \<Rightarrow> model_step_event list" where
  "reasoning_items_to_delta_events_from item_index [] fallback_prefix = []"
| "reasoning_items_to_delta_events_from item_index (item # rest) fallback_prefix =
     (let item_id = (case ri_id item of Some i \<Rightarrow> i
                     | None \<Rightarrow> fallback_prefix @ '':'' @ dec_digits item_index)
      in summary_delta_events item_id (ri_provider item) (ri_summary item)
         @ reasoning_items_to_delta_events_from (Suc item_index) rest fallback_prefix)"

definition reasoning_items_to_delta_events :: "reasoning_item list \<Rightarrow> string \<Rightarrow> model_step_event list" where
  "reasoning_items_to_delta_events xs fallback_prefix =
     reasoning_items_to_delta_events_from 0 xs fallback_prefix"

section \<open>Requests\<close>

text \<open>
  A sampling number keeps its literal; \<open>parse\<close> is \<open>serde_json::from_str\<close>.
\<close>

type_synonym sampling_number = string

datatype 'je sampling_number_error = NotNumber | InvalidJson 'je

definition sampling_number_from_literal ::
  "(string \<Rightarrow> 'je + json) \<Rightarrow> string \<Rightarrow> 'je sampling_number_error + sampling_number" where
  "sampling_number_from_literal parse raw =
     (let raw = str_trim raw
      in case parse raw of
           Inl e \<Rightarrow> Inl (InvalidJson e)
         | Inr (JNumber _) \<Rightarrow> Inr raw
         | Inr _ \<Rightarrow> Inl NotNumber)"

record sampling_options =
  so_max_output_tokens :: "u32 option"
  so_temperature :: "sampling_number option"
  so_top_p :: "sampling_number option"

datatype image_encoding = PublicUrl | EmbeddedBase64 | Disabled

type_synonym server_tool_set = "string btree_set"

record model_spec =
  msp_id :: model_id
  msp_server_tools :: server_tool_set
  msp_sampling :: sampling_options
  msp_image_encoding :: image_encoding
  msp_provider_options :: "json option"

record model_step_request =
  req_model :: model_id
  req_transcript :: transcript
  req_client_tools :: "(tool_name, client_tool_spec) btree_map"
  req_server_tools :: server_tool_set
  req_sampling :: sampling_options
  req_image_encoding :: image_encoding
  req_provider_options :: "json option"

section \<open>Image references\<close>

record embedded_media_base64 =
  emb_mime_type :: string
  emb_base64 :: string

definition data_url :: "embedded_media_base64 \<Rightarrow> string" where
  "data_url d = ''data:'' @ emb_mime_type d @ '';base64,'' @ emb_base64 d"

datatype model_image_reference = RefPublicUrl string | RefEmbeddedBase64 embedded_media_base64

datatype 'me image_reference_error =
    ImagesDisabled media_uri
  | EmbeddedBase64Unavailable media_uri 'me 'me
  | PublicUrlUnavailable media_uri 'me 'me

fun as_url_or_data_url :: "model_image_reference \<Rightarrow> string" where
  "as_url_or_data_url (RefPublicUrl url) = url"
| "as_url_or_data_url (RefEmbeddedBase64 data) = data_url data"

definition resolve_image_reference ::
  "(media_ref \<Rightarrow> 'me + embedded_media_base64) \<Rightarrow> (media_ref \<Rightarrow> 'me + string)
    \<Rightarrow> media_ref \<Rightarrow> image_encoding \<Rightarrow> 'me image_reference_error + model_image_reference" where
  "resolve_image_reference embedded_base64 public_url media encoding =
     (let uri = mm_uri (media_metadata_of media) in
      case encoding of
        EmbeddedBase64 \<Rightarrow>
          (case embedded_base64 media of
             Inr data \<Rightarrow> Inr (RefEmbeddedBase64 data)
           | Inl encode_error \<Rightarrow>
               (case public_url media of
                  Inr url \<Rightarrow> Inr (RefPublicUrl url)
                | Inl public_error \<Rightarrow> Inl (EmbeddedBase64Unavailable uri encode_error public_error)))
      | PublicUrl \<Rightarrow>
          (case public_url media of
             Inr url \<Rightarrow> Inr (RefPublicUrl url)
           | Inl public_error \<Rightarrow>
               (case embedded_base64 media of
                  Inr data \<Rightarrow> Inr (RefEmbeddedBase64 data)
                | Inl encode_error \<Rightarrow> Inl (PublicUrlUnavailable uri public_error encode_error)))
      | Disabled \<Rightarrow> Inl (ImagesDisabled uri))"

section \<open>Lemmas\<close>

lemma map_filter_append [simp]:
  "List.map_filter f (xs @ ys) = List.map_filter f xs @ List.map_filter f ys"
  by (simp add: List.map_filter_def)

lemma map_filter_Nil [simp]: "List.map_filter f [] = []"
  by (simp add: List.map_filter_def)

lemma map_filter_Cons [simp]:
  "List.map_filter f (x # xs) =
     (case f x of None \<Rightarrow> List.map_filter f xs | Some y \<Rightarrow> y # List.map_filter f xs)"
  by (simp add: List.map_filter_def split: option.splits)

lemma answer_text_blocks:
  "answer_text out = concat (List.map_filter (\<lambda>b. case b of BlockText t \<Rightarrow> Some t | _ \<Rightarrow> None) (answer_blocks out))"
proof -
  have "concat (map block_text bs) =
      concat (List.map_filter (\<lambda>b. case b of BlockText t \<Rightarrow> Some t | _ \<Rightarrow> None)
        (List.map_filter answer_block bs))" for bs
  proof (induction bs)
    case Nil
    then show ?case by simp
  next
    case (Cons b bs)
    then show ?case by (cases b) simp_all
  qed
  then show ?thesis by (simp add: answer_text_def answer_blocks_def)
qed

lemma calls_in_transcript_blocks:
  "List.map_filter (\<lambda>b. case b of BlockClientToolCall c \<Rightarrow> Some c | _ \<Rightarrow> None) (transcript_blocks out) =
   client_tool_calls out"
proof -
  have "List.map_filter (\<lambda>b. case b of BlockClientToolCall c \<Rightarrow> Some c | _ \<Rightarrow> None)
      (map into_content_block bs) = List.map_filter block_tool_call bs" for bs
  proof (induction bs)
    case Nil
    then show ?case by simp
  next
    case (Cons b bs)
    then show ?case by (cases b) simp_all
  qed
  then show ?thesis by (simp add: transcript_blocks_def client_tool_calls_def)
qed

end
