(* ===== verification/Api_Collector.thy ===== *)
theory Api_Collector
  imports Api_Llm
begin

text \<open>
  \<open>chudbot-api/src/collector.rs\<close>: the incremental reducer that folds the events of one
  provider step into a collected \<open>model_step\<close>. A failed \<open>expect\<close> of the source is the
  separate failure \<open>Panic\<close>; the invariant \<open>collector_invar\<close> shows it is not reached.
  \<open>parse\<close> is \<open>serde_json::from_str\<close> on accumulated tool arguments.
\<close>

section \<open>State\<close>

datatype 'je model_step_reducer_error =
    MissingFinished
  | DuplicateFinished
  | EventAfterFinished
  | InconsistentItemId string
  | InconsistentReasoningProvider string provider_name provider_name
  | InconsistentToolUseId string tool_use_id tool_use_id
  | InconsistentToolName string tool_name tool_name
  | MissingToolName string
  | InvalidToolArguments tool_use_id string 'je

datatype 'je collector_failure = Reducer "'je model_step_reducer_error" | Panic

datatype ('je, 'se) model_step_collection_error =
    Stream 'se
  | Collector "'je collector_failure"

datatype pending_kind = PkText | PkReasoning | PkClientToolCall

record pending_reasoning_summary =
  prs_kind :: "string option"
  prs_text :: string

datatype pending_item =
    PendingText string string
  | PendingReasoning string provider_name "pending_reasoning_summary list"
  | PendingClientToolCall string tool_use_id "tool_name option" string

datatype output_slot =
    Collected model_step_item
  | UsageSlot usage_record
  | Pending pending_item

record model_step_collector =
  slots :: "output_slot list"
  ids :: "(string, pending_kind) btree_map"
  finished :: "(model_step_kind \<times> model_id) option"

definition collector_default :: model_step_collector where
  "collector_default = \<lparr>slots = [], ids = [], finished = None\<rparr>"

fun pending_new :: "string \<Rightarrow> pending_kind \<Rightarrow> pending_item" where
  "pending_new item_id PkText = PendingText item_id []"
| "pending_new item_id PkReasoning = PendingReasoning item_id [] []"
| "pending_new item_id PkClientToolCall = PendingClientToolCall item_id [] None []"

fun pending_item_id :: "pending_item \<Rightarrow> string" where
  "pending_item_id (PendingText item_id _) = item_id"
| "pending_item_id (PendingReasoning item_id _ _) = item_id"
| "pending_item_id (PendingClientToolCall item_id _ _ _) = item_id"

section \<open>Pushing events\<close>

text \<open>
  \<open>pending_slot\<close> returns a mutable reference into \<open>slots\<close>: here the collector with the
  slot's position and its current content.
\<close>

fun find_pending :: "string \<Rightarrow> output_slot list \<Rightarrow> (nat \<times> pending_item) option" where
  "find_pending key [] = None"
| "find_pending key (slot # rest) =
     (case slot of
        Pending p \<Rightarrow> if pending_item_id p = key then Some (0, p)
                     else map_option (\<lambda>(i, q). (Suc i, q)) (find_pending key rest)
      | _ \<Rightarrow> map_option (\<lambda>(i, q). (Suc i, q)) (find_pending key rest))"

definition pending_slot ::
  "model_step_collector \<Rightarrow> string \<Rightarrow> pending_kind
    \<Rightarrow> 'je collector_failure + model_step_collector \<times> nat \<times> pending_item" where
  "pending_slot c key kind =
     (case btm_get (ids c) key of
        Some existing_kind \<Rightarrow>
          if existing_kind \<noteq> kind then Inl (Reducer (InconsistentItemId key))
          else (case find_pending key (slots c) of
                  None \<Rightarrow> Inl Panic
                | Some (i, p) \<Rightarrow> Inr (c, i, p))
      | None \<Rightarrow>
          (let p = pending_new key kind
           in Inr (c\<lparr>ids := btm_insert key kind (ids c), slots := slots c @ [Pending p]\<rparr>,
                   length (slots c), p)))"

fun append_summary ::
  "pending_reasoning_summary list \<Rightarrow> string option \<Rightarrow> string \<Rightarrow> pending_reasoning_summary list" where
  "append_summary summaries kind delta =
     (if summaries \<noteq> [] \<and> prs_kind (last summaries) = kind
      then butlast summaries @ [(last summaries)\<lparr>prs_text := prs_text (last summaries) @ delta\<rparr>]
      else summaries @ [\<lparr>prs_kind = kind, prs_text = delta\<rparr>])"

text \<open>The update one delta makes to the slot it addresses.\<close>

fun apply_delta :: "model_step_delta \<Rightarrow> pending_item \<Rightarrow> 'je model_step_reducer_error + pending_item" where
  "apply_delta (DeltaText item_id delta) (PendingText i text) = Inr (PendingText i (text @ delta))"
| "apply_delta (DeltaText item_id delta) _ = Inl (InconsistentItemId item_id)"
| "apply_delta (DeltaReasoningSummary item_id provider kind delta)
     (PendingReasoning i existing_provider summaries) =
     (if existing_provider = []
      then Inr (PendingReasoning i provider (append_summary summaries kind delta))
      else if existing_provider \<noteq> provider
      then Inl (InconsistentReasoningProvider i existing_provider provider)
      else Inr (PendingReasoning i existing_provider (append_summary summaries kind delta)))"
| "apply_delta (DeltaReasoningSummary item_id provider kind delta) _ = Inl (InconsistentItemId item_id)"
| "apply_delta (DeltaClientToolCall item_id use_id name arguments_delta)
     (PendingClientToolCall i existing_id existing_name arguments) =
     (if existing_id \<noteq> [] \<and> existing_id \<noteq> use_id
      then Inl (InconsistentToolUseId i existing_id use_id)
      else (let new_id = (if existing_id = [] then use_id else existing_id)
            in case name of
                 None \<Rightarrow> Inr (PendingClientToolCall i new_id existing_name (arguments @ arguments_delta))
               | Some nm \<Rightarrow>
                   (case existing_name of
                      Some previous \<Rightarrow>
                        if previous \<noteq> nm then Inl (InconsistentToolName i previous nm)
                        else Inr (PendingClientToolCall i new_id (Some previous) (arguments @ arguments_delta))
                    | None \<Rightarrow> Inr (PendingClientToolCall i new_id (Some nm) (arguments @ arguments_delta)))))"
| "apply_delta (DeltaClientToolCall item_id use_id name arguments_delta) _ = Inl (InconsistentItemId item_id)"

fun delta_item_id :: "model_step_delta \<Rightarrow> string" where
  "delta_item_id (DeltaText item_id _) = item_id"
| "delta_item_id (DeltaReasoningSummary item_id _ _ _) = item_id"
| "delta_item_id (DeltaClientToolCall item_id _ _ _) = item_id"

fun delta_kind :: "model_step_delta \<Rightarrow> pending_kind" where
  "delta_kind (DeltaText _ _) = PkText"
| "delta_kind (DeltaReasoningSummary _ _ _ _) = PkReasoning"
| "delta_kind (DeltaClientToolCall _ _ _ _) = PkClientToolCall"

definition push_delta ::
  "model_step_collector \<Rightarrow> model_step_delta \<Rightarrow> 'je collector_failure + model_step_collector" where
  "push_delta c delta =
     (case pending_slot c (delta_item_id delta) (delta_kind delta) of
        Inl e \<Rightarrow> Inl e
      | Inr (c', i, p) \<Rightarrow>
          (case apply_delta delta p of
             Inl e \<Rightarrow> Inl (Reducer e)
           | Inr p' \<Rightarrow> Inr (c'\<lparr>slots := (slots c')[i := Pending p']\<rparr>)))"

fun is_finished_event :: "model_step_event \<Rightarrow> bool" where
  "is_finished_event (Finished _ _) = True"
| "is_finished_event _ = False"

definition push_slot :: "model_step_collector \<Rightarrow> output_slot \<Rightarrow> model_step_collector" where
  "push_slot c slot = c\<lparr>slots := slots c @ [slot]\<rparr>"

definition collector_push ::
  "model_step_collector \<Rightarrow> model_step_event \<Rightarrow> 'je collector_failure + model_step_collector" where
  "collector_push c event =
     (if finished c \<noteq> None \<and> \<not> is_finished_event event then Inl (Reducer EventAfterFinished)
      else case event of
        Delta delta \<Rightarrow> push_delta c delta
      | EvContinuation continuation \<Rightarrow>
          Inr (push_slot c (Collected (OutputBlock (OutContinuation continuation))))
      | EvServerToolUse tool \<Rightarrow> Inr (push_slot c (Collected (ItemServerToolUse tool)))
      | EvGrounding metadata \<Rightarrow> Inr (push_slot c (Collected (ItemGrounding metadata)))
      | EvUsage usage \<Rightarrow> Inr (push_slot c (UsageSlot usage))
      | Finished kind model_id \<Rightarrow>
          if finished c \<noteq> None then Inl (Reducer DuplicateFinished)
          else Inr (c\<lparr>finished := Some (kind, model_id)\<rparr>))"

section \<open>Finishing\<close>

fun pending_finish ::
  "(string \<Rightarrow> 'je + json) \<Rightarrow> model_id \<Rightarrow> pending_item \<Rightarrow> 'je model_step_reducer_error + model_step_item" where
  "pending_finish parse model_id (PendingText _ text) = Inr (OutputBlock (OutText text))"
| "pending_finish parse model_id (PendingReasoning item_id provider summaries) =
     Inr (Reasoning \<lparr>ri_provider = provider, ri_model = Some model_id, ri_id = Some item_id,
       ri_status = None,
       ri_summary = map (\<lambda>s. \<lparr>rs_kind = prs_kind s, rs_text = prs_text s\<rparr>) summaries\<rparr>)"
| "pending_finish parse model_id (PendingClientToolCall item_id use_id name arguments) =
     (case name of
        None \<Rightarrow> Inl (MissingToolName item_id)
      | Some nm \<Rightarrow>
          (if str_trim arguments = []
           then Inr (OutputBlock (OutClientToolCall \<lparr>ctc_id = use_id, ctc_name = nm, ctc_input = JObject []\<rparr>))
           else (case parse arguments of
                   Inl source \<Rightarrow> Inl (InvalidToolArguments use_id arguments source)
                 | Inr input \<Rightarrow>
                     Inr (OutputBlock (OutClientToolCall
                       \<lparr>ctc_id = use_id, ctc_name = nm, ctc_input = input\<rparr>)))))"

fun finish_slot ::
  "(string \<Rightarrow> 'je + json) \<Rightarrow> model_step_output \<Rightarrow> output_slot
    \<Rightarrow> 'je model_step_reducer_error + model_step_output" where
  "finish_slot parse out (Collected item) = Inr (out\<lparr>mso_items := mso_items out @ [item]\<rparr>)"
| "finish_slot parse out (UsageSlot usage) = Inr (out\<lparr>mso_usage := mso_usage out @ [usage]\<rparr>)"
| "finish_slot parse out (Pending pending) =
     (case pending_finish parse (mso_model_id out) pending of
        Inl e \<Rightarrow> Inl e
      | Inr item \<Rightarrow> Inr (out\<lparr>mso_items := mso_items out @ [item]\<rparr>))"

definition collector_finish ::
  "(string \<Rightarrow> 'je + json) \<Rightarrow> model_step_collector \<Rightarrow> 'je model_step_reducer_error + model_step" where
  "collector_finish parse c =
     (case finished c of
        None \<Rightarrow> Inl MissingFinished
      | Some (kind, model_id) \<Rightarrow>
          (case try_fold (finish_slot parse) (model_step_output_new model_id) (slots c) of
             Inl e \<Rightarrow> Inl e
           | Inr out \<Rightarrow> Inr \<lparr>ms_kind = kind, ms_output = out\<rparr>))"

text \<open>\<open>collect_model_step\<close> over the results a provider stream yields before it ends.\<close>

fun collect_events ::
  "model_step_collector \<Rightarrow> ('se + model_step_event) list
    \<Rightarrow> ('je, 'se) model_step_collection_error + model_step_collector" where
  "collect_events c [] = Inr c"
| "collect_events c (Inl e # rest) = Inl (Stream e)"
| "collect_events c (Inr event # rest) =
     (case collector_push c event of
        Inl e \<Rightarrow> Inl (Collector e)
      | Inr c' \<Rightarrow> collect_events c' rest)"

definition collect_model_step ::
  "(string \<Rightarrow> 'je + json) \<Rightarrow> ('se + model_step_event) list
    \<Rightarrow> ('je, 'se) model_step_collection_error + model_step" where
  "collect_model_step parse events =
     (case collect_events collector_default events of
        Inl e \<Rightarrow> Inl e
      | Inr c \<Rightarrow>
          (case collector_finish parse c of
             Inl e \<Rightarrow> Inl (Collector (Reducer e))
           | Inr step \<Rightarrow> Inr step))"

section \<open>The collector invariant\<close>

fun pending_kind_of :: "pending_item \<Rightarrow> pending_kind" where
  "pending_kind_of (PendingText _ _) = PkText"
| "pending_kind_of (PendingReasoning _ _ _) = PkReasoning"
| "pending_kind_of (PendingClientToolCall _ _ _ _) = PkClientToolCall"

fun slot_key :: "output_slot \<Rightarrow> (string \<times> pending_kind) option" where
  "slot_key (Pending p) = Some (pending_item_id p, pending_kind_of p)"
| "slot_key _ = None"

definition slot_keys :: "output_slot list \<Rightarrow> (string \<times> pending_kind) list" where
  "slot_keys xs = List.map_filter slot_key xs"

text \<open>
  The id map and the pending slots agree: each id has exactly one pending slot, of the kind
  the map records, so the lookup behind \<open>expect\<close> always finds one.
\<close>

definition collector_invar :: "model_step_collector \<Rightarrow> bool" where
  "collector_invar c \<longleftrightarrow>
     btm_invar (ids c) \<and> distinct (map fst (slot_keys (slots c)))
     \<and> btm_get (ids c) = map_of (slot_keys (slots c))"

lemma slot_keys_simps [simp]:
  "slot_keys [] = []"
  "slot_keys (s # ss) = (case slot_key s of None \<Rightarrow> slot_keys ss | Some k \<Rightarrow> k # slot_keys ss)"
  "slot_keys (xs @ ys) = slot_keys xs @ slot_keys ys"
  by (simp_all add: slot_keys_def split: option.splits)

lemma slot_keys_update:
  "i < length xs \<Longrightarrow> slot_key (xs ! i) = slot_key s \<Longrightarrow> slot_keys (xs[i := s]) = slot_keys xs"
proof (induction xs arbitrary: i)
  case Nil
  then show ?case by simp
next
  case (Cons x xs)
  then show ?case by (cases i) (simp_all split: option.splits)
qed

lemma find_pending_Some:
  "find_pending key xs = Some (i, p) \<Longrightarrow>
   i < length xs \<and> xs ! i = Pending p \<and> pending_item_id p = key"
  by (induction xs arbitrary: i) (auto split: output_slot.splits if_splits)

lemma find_pending_None: "find_pending key xs = None \<longleftrightarrow> key \<notin> fst ` set (slot_keys xs)"
  by (induction xs) (auto split: output_slot.splits)

lemma pending_new_simps [simp]:
  "pending_item_id (pending_new key kind) = key"
  "pending_kind_of (pending_new key kind) = kind"
  by (cases kind; simp)+

lemma apply_delta_key:
  "apply_delta d p = Inr p' \<Longrightarrow>
   pending_item_id p' = pending_item_id p \<and> pending_kind_of p' = pending_kind_of p"
  by (cases d; cases p) (auto simp: Let_def split: if_splits option.splits)

lemma apply_delta_kind: "apply_delta d p = Inr p' \<Longrightarrow> delta_kind d = pending_kind_of p"
  by (cases d; cases p) auto

lemma collector_invar_default [chud_invar]: "collector_invar collector_default"
  by (simp add: collector_invar_def collector_default_def fun_eq_iff)

lemma collector_invar_push_slot [chud_invar]:
  "collector_invar c \<Longrightarrow> slot_key s = None \<Longrightarrow> collector_invar (push_slot c s)"
  by (simp add: collector_invar_def push_slot_def)

lemma pending_slot_cases:
  assumes "collector_invar c"
  shows "(pending_slot c key kind :: 'je collector_failure + _) = Inl (Reducer (InconsistentItemId key)) \<or>
    (\<exists>c' i p. (pending_slot c key kind :: 'je collector_failure + _) = Inr (c', i, p) \<and> collector_invar c' \<and> i < length (slots c')
      \<and> slots c' ! i = Pending p \<and> pending_item_id p = key \<and> pending_kind_of p = kind
      \<and> finished c' = finished c)"
proof (cases "btm_get (ids c) key")
  case None
  with assms have "key \<notin> fst ` set (slot_keys (slots c))"
    by (simp add: collector_invar_def map_of_eq_None_iff)
  with None assms show ?thesis
    by (auto simp: pending_slot_def Let_def collector_invar_def btm_insert_invar btm_get_insert
        fun_eq_iff map_add_def split: option.splits)
next
  case (Some existing)
  with assms have key: "map_of (slot_keys (slots c)) key = Some existing"
    by (simp add: collector_invar_def)
  then have "find_pending key (slots c) \<noteq> None"
    by (metis find_pending_None fst_conv image_eqI map_of_SomeD)
  then obtain i p where find: "find_pending key (slots c) = Some (i, p)" by fastforce
  note at = find_pending_Some [OF find]
  then have "slot_key (Pending p) \<in> slot_key ` set (slots c)" by (metis imageI nth_mem)
  then have "(key, pending_kind_of p) \<in> set (slot_keys (slots c))"
    using at by (auto simp: slot_keys_def List.map_filter_def image_iff) (metis option.sel)
  with key assms have "pending_kind_of p = existing"
    by (auto simp: collector_invar_def dest: map_of_eq_Some_iff [THEN iffD2])
  with Some find at assms show ?thesis by (auto simp: pending_slot_def)
qed

lemma push_delta_invar:
  assumes "collector_invar c"
  shows "(push_delta c d :: 'je collector_failure + _) \<noteq> Inl Panic"
    and "(push_delta c d :: 'je collector_failure + _) = Inr c' \<Longrightarrow> collector_invar c' \<and> finished c' = finished c"
proof -
  note cases = pending_slot_cases [where 'je = 'je, OF assms, of "delta_item_id d" "delta_kind d"]
  from cases show "(push_delta c d :: 'je collector_failure + _) \<noteq> Inl Panic"
    by (auto simp: push_delta_def split: sum.splits)
  assume "(push_delta c d :: 'je collector_failure + _) = Inr c'"
  with cases obtain c'' i p p' where
    "collector_invar c''" "finished c'' = finished c" "i < length (slots c'')"
    "slots c'' ! i = Pending p"
    "(apply_delta d p :: 'je model_step_reducer_error + _) = Inr p'"
    "c' = c''\<lparr>slots := (slots c'')[i := Pending p']\<rparr>"
    by (auto simp: push_delta_def split: sum.splits)
  then show "collector_invar c' \<and> finished c' = finished c"
    by (simp add: collector_invar_def slot_keys_update apply_delta_key)
qed

lemma collector_push_invar [chud_invar]:
  assumes "collector_invar c" "(collector_push c ev :: 'je collector_failure + _) = Inr c'"
  shows "collector_invar c'"
proof (cases ev)
  case (Delta d)
  with assms push_delta_invar(2) [where 'je = 'je, OF assms(1), of d c'] show ?thesis
    by (simp add: collector_push_def split: if_splits)
qed (use assms in \<open>auto simp: collector_push_def collector_invar_push_slot collector_invar_def
        push_slot_def split: if_splits\<close>)

lemma collector_push_no_panic:
  "collector_invar c \<Longrightarrow> (collector_push c ev :: 'je collector_failure + _) \<noteq> Inl Panic"
  using push_delta_invar(1) [where 'je = 'je, of c]
  by (cases ev) (auto simp: collector_push_def split: if_splits)

section \<open>The reference: grouping by item id\<close>

text \<open>
  The specification of the reducer: the deltas of one item id, wherever they occur in the
  stream, are applied in order to one fresh item, which stands where the id first occurred.
  \<open>None\<close> is a stream whose deltas disagree.
\<close>

fun apply_deltas :: "pending_item \<Rightarrow> model_step_delta list \<Rightarrow> pending_item option" where
  "apply_deltas p [] = Some p"
| "apply_deltas p (d # ds) =
     (case (apply_delta d p :: unit model_step_reducer_error + pending_item) of
        Inl _ \<Rightarrow> None | Inr p' \<Rightarrow> apply_deltas p' ds)"

fun event_delta :: "model_step_event \<Rightarrow> model_step_delta option" where
  "event_delta (Delta d) = Some d"
| "event_delta _ = None"

definition has_item_id :: "string \<Rightarrow> model_step_event \<Rightarrow> bool" where
  "has_item_id key ev = (case event_delta ev of None \<Rightarrow> False | Some d \<Rightarrow> delta_item_id d = key)"

definition group_of :: "string \<Rightarrow> model_step_event list \<Rightarrow> model_step_delta list" where
  "group_of key evs = filter (\<lambda>d. delta_item_id d = key) (List.map_filter event_delta evs)"

fun event_slot :: "model_step_event \<Rightarrow> output_slot option" where
  "event_slot (EvContinuation k) = Some (Collected (OutputBlock (OutContinuation k)))"
| "event_slot (EvServerToolUse tool) = Some (Collected (ItemServerToolUse tool))"
| "event_slot (EvGrounding metadata) = Some (Collected (ItemGrounding metadata))"
| "event_slot (EvUsage usage) = Some (UsageSlot usage)"
| "event_slot _ = None"

function ref_slots :: "model_step_event list \<Rightarrow> output_slot list option" where
  "ref_slots [] = Some []"
| "ref_slots (ev # evs) =
     (case event_delta ev of
        Some d \<Rightarrow>
          (case apply_deltas (pending_new (delta_item_id d) (delta_kind d)) (d # group_of (delta_item_id d) evs) of
             None \<Rightarrow> None
           | Some p \<Rightarrow> map_option (Cons (Pending p))
               (ref_slots (filter (\<lambda>e. \<not> has_item_id (delta_item_id d) e) evs)))
      | None \<Rightarrow>
          (case event_slot ev of
             None \<Rightarrow> ref_slots evs
           | Some s \<Rightarrow> map_option (Cons s) (ref_slots evs)))"
  by pat_completeness auto
termination
  by (relation "measure length") (auto simp: le_imp_less_Suc)

text \<open>One more delta, on the list of slots.\<close>

fun add_delta :: "model_step_delta \<Rightarrow> output_slot list \<Rightarrow> output_slot list option" where
  "add_delta d [] = map_option (\<lambda>p. [Pending p]) (apply_deltas (pending_new (delta_item_id d) (delta_kind d)) [d])"
| "add_delta d (s # ss) =
     (case s of
        Pending p \<Rightarrow>
          if pending_item_id p = delta_item_id d
          then map_option (\<lambda>p'. Pending p' # ss) (apply_deltas p [d])
          else map_option (Cons s) (add_delta d ss)
      | _ \<Rightarrow> map_option (Cons s) (add_delta d ss))"

lemma apply_deltas_append:
  "apply_deltas p (xs @ ys) = Option.bind (apply_deltas p xs) (\<lambda>p'. apply_deltas p' ys)"
  by (induction xs arbitrary: p) (auto split: sum.splits)

lemma apply_deltas_key: "apply_deltas p ds = Some p' \<Longrightarrow> pending_item_id p' = pending_item_id p"
  by (induction ds arbitrary: p) (auto split: sum.splits dest!: apply_delta_key)

declare apply_deltas.simps(2) [simp del]

lemma group_of_append: "group_of key (xs @ ys) = group_of key xs @ group_of key ys"
  by (simp add: group_of_def)

lemma group_of_single [simp]:
  "group_of key [Delta d] = (if delta_item_id d = key then [d] else [])"
  by (simp add: group_of_def)

lemma event_slot_not_pending: "event_slot ev = Some s \<Longrightarrow> slot_key s = None"
  by (cases ev) auto

lemma add_delta_skip: "slot_key s = None \<Longrightarrow> add_delta d (s # ss) = map_option (Cons s) (add_delta d ss)"
  by (cases s) auto

lemma ref_slots_snoc_delta:
  "ref_slots (evs @ [Delta d]) = Option.bind (ref_slots evs) (add_delta d)"
proof (induction evs rule: ref_slots.induct)
  case 1
  show ?case by (simp add: group_of_def split: option.splits)
next
  case (2 ev evs)
  show ?case
  proof (cases "event_delta ev")
    case None
    show ?thesis
    proof (cases "event_slot ev")
      case None
      with \<open>event_delta ev = None\<close> 2 show ?thesis by simp
    next
      case (Some s)
      with \<open>event_delta ev = None\<close> 2 event_slot_not_pending [OF Some] show ?thesis
        by (cases "ref_slots evs") (simp_all add: add_delta_skip del: add_delta.simps)
    qed
  next
    case (Some d0)
    let ?k = "delta_item_id d0"
    let ?p0 = "pending_new ?k (delta_kind d0)"
    show ?thesis
    proof (cases "apply_deltas ?p0 (d0 # group_of ?k evs)")
      case None
      then have "apply_deltas ?p0 (d0 # group_of ?k evs @ ds) = None" for ds
        using apply_deltas_append [of ?p0 "d0 # group_of ?k evs" ds] by simp
      with None Some show ?thesis by (simp add: group_of_append)
    next
      case p: (Some p)
      then have "pending_item_id p = ?k" using apply_deltas_key [OF p] by simp
      moreover have "apply_deltas ?p0 (d0 # group_of ?k evs @ ds) = apply_deltas p ds" for ds
        using p apply_deltas_append [of ?p0 "d0 # group_of ?k evs" ds] by simp
      moreover have "filter (\<lambda>e. \<not> has_item_id ?k e) (evs @ [Delta d]) =
          (if delta_item_id d = ?k then filter (\<lambda>e. \<not> has_item_id ?k e) evs
           else filter (\<lambda>e. \<not> has_item_id ?k e) evs @ [Delta d])"
        by (simp add: has_item_id_def)
      moreover note 2(3) [OF Some p]
      ultimately show ?thesis
        using Some p
        by (cases "delta_item_id d = ?k";
            cases "ref_slots (filter (\<lambda>e. \<not> has_item_id ?k e) evs)";
            cases "apply_deltas p [d]")
          (simp_all add: group_of_append option.map_comp comp_def del: filter_append)
    qed
  qed
qed

lemma ref_slots_snoc_slot:
  assumes "event_delta ev = None"
  shows "ref_slots (evs @ [ev]) =
    map_option (\<lambda>ss. ss @ (case event_slot ev of None \<Rightarrow> [] | Some s \<Rightarrow> [s])) (ref_slots evs)"
proof (induction evs rule: ref_slots.induct)
  case 1
  with assms show ?case by (simp split: option.splits)
next
  case (2 e evs)
  have "group_of key (evs @ [ev]) = group_of key evs" for key
    using assms by (simp add: group_of_def)
  moreover have "\<not> has_item_id key ev" for key
    using assms by (simp add: has_item_id_def)
  ultimately show ?case
    using 2 by (auto simp: option.map_comp comp_def split: option.splits)
qed

text \<open>One push is one step of the reference, as long as the step is not finished.\<close>

lemma find_pending_add_delta:
  "find_pending (delta_item_id d) xs = Some (i, p) \<Longrightarrow>
   add_delta d xs = map_option (\<lambda>p'. xs[i := Pending p']) (apply_deltas p [d])"
  by (induction xs arbitrary: i)
    (auto simp: option.map_comp comp_def
      split: output_slot.splits if_splits)

lemma add_delta_new:
  "find_pending (delta_item_id d) xs = None \<Longrightarrow>
   add_delta d xs = map_option (\<lambda>p. xs @ [Pending p])
     (apply_deltas (pending_new (delta_item_id d) (delta_kind d)) [d])"
  by (induction xs)
    (auto simp: option.map_comp comp_def
      split: output_slot.splits if_splits)

definition ok_result :: "'e + 'a \<Rightarrow> 'a option" where
  "ok_result r = (case r of Inl _ \<Rightarrow> None | Inr x \<Rightarrow> Some x)"

lemma ok_result_simps [simp]: "ok_result (Inl e) = None" "ok_result (Inr x) = Some x"
  by (simp_all add: ok_result_def)

lemma apply_delta_ok:
  "ok_result (apply_delta d p :: 'je model_step_reducer_error + _) = apply_deltas p [d]"
  by (cases d; cases p) (auto simp: Let_def apply_deltas.simps(2) split: option.splits)

lemma apply_deltas_wrong_kind: "pending_kind_of p \<noteq> delta_kind d \<Longrightarrow> apply_deltas p [d] = None"
  by (auto simp: apply_deltas.simps(2) split: sum.splits dest: apply_delta_kind)

lemma find_pending_kind:
  assumes "collector_invar c" "find_pending key (slots c) = Some (i, p)"
  shows "btm_get (ids c) key = Some (pending_kind_of p)"
proof -
  from find_pending_Some [OF assms(2)] have "(key, pending_kind_of p) \<in> set (slot_keys (slots c))"
    by (force simp: slot_keys_def List.map_filter_def image_iff dest: nth_mem)
  with assms(1) show ?thesis by (simp add: collector_invar_def)
qed

lemma push_delta_slots:
  assumes "collector_invar c"
  shows "map_option slots (ok_result (push_delta c d :: 'je collector_failure + _)) = add_delta d (slots c)"
proof (cases "find_pending (delta_item_id d) (slots c)")
  case None
  then have "btm_get (ids c) (delta_item_id d) = None"
    using assms by (simp add: find_pending_None collector_invar_def map_of_eq_None_iff)
  with None show ?thesis
    by (simp add: add_delta_new push_delta_def pending_slot_def Let_def
        apply_delta_ok [where 'je = 'je, symmetric] split: sum.splits)
next
  case (Some ip)
  then obtain i p where find: "find_pending (delta_item_id d) (slots c) = Some (i, p)" by (cases ip) auto
  note kind = find_pending_kind [OF assms find]
  show ?thesis
  proof (cases "pending_kind_of p = delta_kind d")
    case True
    with kind find show ?thesis
      by (simp add: find_pending_add_delta push_delta_def pending_slot_def
          apply_delta_ok [where 'je = 'je, symmetric] split: sum.splits)
  next
    case False
    with kind find show ?thesis
      by (simp add: find_pending_add_delta push_delta_def pending_slot_def
          apply_deltas_wrong_kind)
  qed
qed

section \<open>The reducer implements the grouping\<close>

definition push_all :: "model_step_event list \<Rightarrow> 'je collector_failure + model_step_collector" where
  "push_all evs = try_fold collector_push collector_default evs"

definition well_terminated :: "model_step_event list \<Rightarrow> bool" where
  "well_terminated evs \<longleftrightarrow> list_all (\<lambda>e. \<not> is_finished_event e) (butlast evs)"

definition finished_of :: "model_step_event list \<Rightarrow> (model_step_kind \<times> model_id) option" where
  "finished_of evs =
     (case last_opt evs of Some (Finished kind model_id) \<Rightarrow> Some (kind, model_id) | _ \<Rightarrow> None)"

definition ref_collect ::
  "model_step_event list \<Rightarrow> (output_slot list \<times> (model_step_kind \<times> model_id) option) option" where
  "ref_collect evs =
     (if well_terminated evs then map_option (\<lambda>ss. (ss, finished_of evs)) (ref_slots evs) else None)"

lemma push_all_snoc:
  "push_all (evs @ [e]) =
     (case push_all evs of Inl err \<Rightarrow> Inl err | Inr c \<Rightarrow> collector_push c e)"
  by (simp add: push_all_def try_fold_append split: sum.splits)

lemma push_all_invar [chud_invar]: "push_all evs = Inr c \<Longrightarrow> collector_invar c"
  unfolding push_all_def
  by (erule try_fold_invariant [where P = collector_invar])
    (auto intro: collector_invar_default collector_push_invar)

lemma well_terminated_snoc:
  "well_terminated (evs @ [e]) \<longleftrightarrow> well_terminated evs \<and> finished_of evs = None"
  by (cases evs rule: rev_cases)
    (auto simp: well_terminated_def finished_of_def last_opt_def butlast_append
      split: model_step_event.splits)

lemma collector_push_unfinished:
  assumes "collector_invar c" "finished c = None"
  shows "map_option (\<lambda>c'. (slots c', finished c')) (ok_result (collector_push c e :: 'je collector_failure + _)) =
    (case e of
       Delta d \<Rightarrow> map_option (\<lambda>ss. (ss, None)) (add_delta d (slots c))
     | Finished kind model_id \<Rightarrow> Some (slots c, Some (kind, model_id))
     | _ \<Rightarrow> Some (slots c @ (case event_slot e of None \<Rightarrow> [] | Some s \<Rightarrow> [s]), None))"
proof (cases e)
  case (Delta d)
  have "finished c' = None" if "push_delta c d = (Inr c' :: 'je collector_failure + _)" for c'
    using push_delta_invar(2) [OF assms(1) that] assms(2) by simp
  with Delta assms push_delta_slots [where 'je = 'je, OF assms(1), of d] show ?thesis
    by (cases "push_delta c d :: 'je collector_failure + _") (auto simp: collector_push_def dest: sym)
qed (use assms in \<open>auto simp: collector_push_def push_slot_def\<close>)

lemma push_all_ref:
  "map_option (\<lambda>c. (slots c, finished c)) (ok_result (push_all evs :: 'je collector_failure + _)) =
   ref_collect evs"
proof (induction evs rule: rev_induct)
  case Nil
  show ?case by (simp add: push_all_def collector_default_def ref_collect_def well_terminated_def
        finished_of_def last_opt_def)
next
  case (snoc e evs)
  show ?case
  proof (cases "push_all evs :: 'je collector_failure + _")
    case (Inl err)
    with snoc.IH have "ref_collect evs = None" by simp
    then have "ref_collect (evs @ [e]) = None"
      by (cases "event_delta e")
        (auto simp: ref_collect_def well_terminated_snoc ref_slots_snoc_slot ref_slots_snoc_delta
          split: if_splits elim: event_delta.elims)
    with Inl show ?thesis by (simp add: push_all_snoc)
  next
    case (Inr c)
    from snoc.IH Inr have ref: "well_terminated evs" "ref_slots evs = Some (slots c)" "finished_of evs = finished c"
      by (cases "ref_slots evs"; auto simp: ref_collect_def split: if_splits)+
    show ?thesis
    proof (cases "finished c")
      case None
      with Inr ref collector_push_unfinished [where 'je = 'je, OF push_all_invar [OF Inr] None, of e]
      show ?thesis
        by (cases e)
          (simp_all add: push_all_snoc ref_collect_def well_terminated_snoc ref_slots_snoc_slot
            ref_slots_snoc_delta finished_of_def last_opt_def comp_def option.map_comp)
    next
      case (Some km)
      with Inr ref show ?thesis
        by (cases e) (auto simp: push_all_snoc ref_collect_def well_terminated_snoc collector_push_def)
    qed
  qed
qed

section \<open>Collected steps\<close>

fun slot_usage :: "output_slot \<Rightarrow> usage_record option" where
  "slot_usage (UsageSlot u) = Some u"
| "slot_usage _ = None"

fun event_usage :: "model_step_event \<Rightarrow> usage_record option" where
  "event_usage (EvUsage u) = Some u"
| "event_usage _ = None"

lemma add_delta_usage:
  "add_delta d xs = Some ys \<Longrightarrow> List.map_filter slot_usage ys = List.map_filter slot_usage xs"
  by (induction xs arbitrary: ys) (auto split: output_slot.splits if_splits)

lemma collector_push_usage:
  assumes "collector_invar c" "(collector_push c e :: 'je collector_failure + _) = Inr c'"
  shows "List.map_filter slot_usage (slots c') =
    List.map_filter slot_usage (slots c) @ List.map_filter event_usage [e]"
proof (cases e)
  case (Delta d)
  with assms push_delta_slots [where 'je = 'je, OF assms(1), of d] show ?thesis
    by (auto simp: collector_push_def split: if_splits dest!: sym [of "Some _"] dest: add_delta_usage)
qed (use assms in \<open>auto simp: collector_push_def push_slot_def split: if_splits\<close>)

lemma push_all_usage:
  "(push_all evs :: 'je collector_failure + _) = Inr c \<Longrightarrow>
   List.map_filter slot_usage (slots c) = List.map_filter event_usage evs"
proof (induction evs arbitrary: c rule: rev_induct)
  case Nil
  then show ?case by (auto simp: push_all_def collector_default_def)
next
  case (snoc e evs)
  from snoc.prems obtain c0 where c0: "(push_all evs :: 'je collector_failure + _) = Inr c0"
    and push: "(collector_push c0 e :: 'je collector_failure + _) = Inr c"
    by (auto simp: push_all_snoc split: sum.splits)
  from collector_push_usage [OF push_all_invar [OF c0] push] snoc.IH [OF c0] show ?case by simp
qed

lemma finish_slots_usage:
  "try_fold (finish_slot parse) out ss = Inr out' \<Longrightarrow>
   mso_usage out' = mso_usage out @ List.map_filter slot_usage ss"
proof (induction ss arbitrary: out)
  case Nil
  then show ?case by simp
next
  case (Cons s ss)
  then show ?case by (cases s) (fastforce split: sum.splits)+
qed

text \<open>A collected step reports exactly the usage events of its stream, in order.\<close>

lemma collected_usage:
  assumes "(push_all evs :: 'je collector_failure + _) = Inr c" "collector_finish parse c = Inr step"
  shows "mso_usage (ms_output step) = List.map_filter event_usage evs"
  using assms push_all_usage [OF assms(1)]
  by (auto simp: collector_finish_def model_step_output_new_def dest!: finish_slots_usage
      split: option.splits sum.splits)

lemma collect_events_Inr:
  "collect_events c (map Inr evs) =
     (case try_fold collector_push c evs of Inl e \<Rightarrow> Inl (Collector e) | Inr c' \<Rightarrow> Inr c')"
  by (induction evs arbitrary: c) (auto split: sum.splits)

text \<open>The reference on whole steps.\<close>

definition ref_step :: "(string \<Rightarrow> 'je + json) \<Rightarrow> model_step_event list \<Rightarrow> model_step option" where
  "ref_step parse evs =
     Option.bind (ref_collect evs)
       (\<lambda>(ss, fin). case fin of
          None \<Rightarrow> None
        | Some (kind, model_id) \<Rightarrow>
            map_option (\<lambda>out. \<lparr>ms_kind = kind, ms_output = out\<rparr>)
              (ok_result (try_fold (finish_slot parse) (model_step_output_new model_id) ss)))"

text \<open>
  C1: The incremental reducer implements the grouping specification. For every list of
  provider events, collecting succeeds exactly when the events are well terminated (only the
  last may be the finished event) and the deltas of each item id agree, and then the collected
  step is the one the specification builds: the deltas of one id applied in order to one item
  placed where the id first occurred, everything else in stream order.
\<close>

theorem collector_implements_grouping:
  "ok_result (collect_model_step parse (map Inr evs)
      :: ('je, 'se) model_step_collection_error + model_step) = ref_step parse evs"
proof (cases "push_all evs :: 'je collector_failure + model_step_collector")
  case (Inl e)
  with push_all_ref [where 'je = 'je, of evs] show ?thesis
    by (simp add: ref_step_def collect_model_step_def collect_events_Inr push_all_def)
next
  case (Inr c)
  with push_all_ref [where 'je = 'je, of evs] have "ref_collect evs = Some (slots c, finished c)"
    by simp
  with Inr show ?thesis
    by (auto simp: ref_step_def collect_model_step_def collect_events_Inr push_all_def
        collector_finish_def split: sum.splits option.splits)
qed

text \<open>
  Reducing a stream never panics: no sequence of events drives the collector into the
  state where its id map names a slot that does not exist.
\<close>

theorem collector_never_panics:
  "(collect_model_step parse events :: ('je, 'se) model_step_collection_error + model_step)
     \<noteq> Inl (Collector Panic)"
proof -
  have "(collect_events c events :: ('je, 'se) model_step_collection_error + _) \<noteq> Inl (Collector Panic)"
    if "collector_invar c" for c
    using that
  proof (induction events arbitrary: c)
    case Nil
    then show ?case by simp
  next
    case (Cons item rest)
    show ?case
    proof (cases item)
      case (Inr event)
      with Cons collector_push_no_panic [where 'je = 'je, of c event] show ?thesis
        by (auto split: sum.splits dest: collector_push_invar)
    qed simp
  qed
  with collector_invar_default show ?thesis
    by (auto simp: collect_model_step_def split: sum.splits)
qed

section \<open>Chunking\<close>

lemma collect_text_fragments:
  "collect_events \<lparr>slots = [Pending (PendingText k t)], ids = [(k, PkText)], finished = None\<rparr>
     (map (\<lambda>f. Inr (Delta (DeltaText k f))) fs @ rest) =
   collect_events \<lparr>slots = [Pending (PendingText k (t @ concat fs))], ids = [(k, PkText)], finished = None\<rparr> rest"
  by (induction fs arbitrary: t)
    (simp_all add: collector_push_def push_delta_def pending_slot_def btm_get_def)

lemma collect_call_fragments:
  "collect_events \<lparr>slots = [Pending (PendingClientToolCall k u (Some n) a)],
       ids = [(k, PkClientToolCall)], finished = None\<rparr>
     (map (\<lambda>f. Inr (Delta (DeltaClientToolCall k u (Some n) f))) fs @ rest) =
   collect_events \<lparr>slots = [Pending (PendingClientToolCall k u (Some n) (a @ concat fs))],
       ids = [(k, PkClientToolCall)], finished = None\<rparr> rest"
  by (induction fs arbitrary: a)
    (simp_all add: collector_push_def push_delta_def pending_slot_def btm_get_def)

text \<open>
  The way a provider cuts one tool call into argument fragments does not matter: any
  fragmentation of the argument text collects to the same step (or the same error) as
  the whole text in one delta.
\<close>

theorem tool_call_chunking:
  "collect_model_step parse
     (map (\<lambda>f. Inr (Delta (DeltaClientToolCall k u (Some n) f))) (f # fs) @ [Inr (Finished kind m)]) =
   collect_model_step parse
     [Inr (Delta (DeltaClientToolCall k u (Some n) (f @ concat fs))), Inr (Finished kind m)]"
  by (simp add: collect_call_fragments collect_model_step_def collector_default_def collector_push_def push_delta_def
      pending_slot_def Let_def)

text \<open>
  A streamed answer is delivered unchanged: a step that streams one text item in any
  number of fragments collects, and its answer text is the concatenation of the fragments.
\<close>

theorem text_stream_roundtrip:
  "\<exists>step. collect_model_step parse
       (map (\<lambda>f. Inr (Delta (DeltaText k f))) fs @ [Inr (Finished kind m)]) = Inr step
     \<and> answer_text (ms_output step) = concat fs \<and> ms_kind step = kind"
proof (cases fs)
  case Nil
  then show ?thesis
    by (simp add: collect_model_step_def collector_default_def collector_push_def
        collector_finish_def model_step_output_new_def answer_text_def output_blocks_def)
next
  case (Cons f fs')
  then show ?thesis
    by (simp add: collect_text_fragments collect_model_step_def collector_default_def collector_push_def push_delta_def
        pending_slot_def Let_def collector_finish_def model_step_output_new_def answer_text_def
        output_blocks_def)
qed

end
