(* ===== verification/Api_Agent.thy ===== *)
theory Api_Agent
  imports Api_Collector
begin

text \<open>
  \<open>chudbot-api/src/agent.rs\<close>, first part: the static agent data, the instruction turns,
  the tool surfaces of a run, and the execution of the client tools one step requests.
  The loop itself is in \<open>Api_Agent_Run\<close>.
\<close>

section \<open>Agent specification\<close>

record agent_instruction_part =
  aip_key :: string
  aip_ordinal :: int
  aip_text :: string

record agent_limits =
  max_iterations :: u32
  max_model_step_output_tokens :: u32
  text_generation_timeout_seconds :: u64

record agent_spec =
  as_agent_instruction_parts :: "agent_instruction_part list"
  as_server_tools :: "server_tool_set option"
  as_client_tools :: "tool_name list option"
  as_limits :: agent_limits

definition default_agent_limits :: agent_limits where
  "default_agent_limits =
     \<lparr>max_iterations = 8, max_model_step_output_tokens = 4096, text_generation_timeout_seconds = 120\<rparr>"

definition text_generation_timeout :: "agent_limits \<Rightarrow> duration option" where
  "text_generation_timeout limits =
     (if text_generation_timeout_seconds limits > 0
      then Some (duration_from_secs (unat (text_generation_timeout_seconds limits))) else None)"

definition agent_spec_new :: "agent_instruction_part list \<Rightarrow> agent_spec" where
  "agent_spec_new parts =
     \<lparr>as_agent_instruction_parts = parts, as_server_tools = None, as_client_tools = None,
      as_limits = default_agent_limits\<rparr>"

definition from_legacy_prompt_text :: "string \<Rightarrow> agent_spec" where
  "from_legacy_prompt_text prompt_text =
     agent_spec_new
       (if prompt_text \<noteq> []
        then [\<lparr>aip_key = ''legacy'', aip_ordinal = 0, aip_text = prompt_text\<rparr>] else [])"

section \<open>Instruction turns\<close>

definition agent_instructions_turn :: "string option \<Rightarrow> string \<Rightarrow> transcript_turn" where
  "agent_instructions_turn transcript_id instructions =
     \<lparr>tt_role = System, tt_blocks = [BlockText instructions],
      tt_metadata = json_object
        ((''agent_instructions'', JBool True)
         # (case transcript_id of None \<Rightarrow> []
            | Some i \<Rightarrow> [(''id'', JString (''chudbot_conversation_'' @ i @ ''_system''))]))\<rparr>"

definition agent_instruction_part_turn ::
  "string option \<Rightarrow> string \<Rightarrow> int \<Rightarrow> string \<Rightarrow> transcript_turn" where
  "agent_instruction_part_turn transcript_id key ordinal text =
     \<lparr>tt_role = System, tt_blocks = [BlockText text],
      tt_metadata = json_object
        ([(''agent_instructions'', JBool True),
          (''agent_instruction_part'', JBool True),
          (''agent_instruction_part_key'', JString key),
          (''agent_instruction_part_ordinal'', JNumber (dec_int ordinal))]
         @ (case transcript_id of None \<Rightarrow> []
            | Some i \<Rightarrow> [(''id'', JString (''chudbot_conversation_'' @ i @ ''_system_'' @ key))]))\<rparr>"

definition is_agent_instructions_turn :: "transcript_turn \<Rightarrow> bool" where
  "is_agent_instructions_turn turn \<longleftrightarrow>
     tt_role turn = System
     \<and> (case Option.bind (json_get (tt_metadata turn) ''agent_instructions'') json_as_bool of
          None \<Rightarrow> False | Some b \<Rightarrow> b)"

text \<open>
  The first lines of \<open>Agent::run\<close>: a transcript without instruction markers gets the
  non-empty parts of the specification, in stable ordinal order, in front of its turns.
\<close>

definition prompt_turns :: "agent_spec \<Rightarrow> string option \<Rightarrow> transcript_turn list" where
  "prompt_turns spec tid =
     map (\<lambda>part. agent_instruction_part_turn tid (aip_key part) (aip_ordinal part) (aip_text part))
       (filter (\<lambda>part. aip_text part \<noteq> [])
         (sort_key aip_ordinal (as_agent_instruction_parts spec)))"

definition prepare_transcript :: "agent_spec \<Rightarrow> transcript \<Rightarrow> transcript" where
  "prepare_transcript spec t =
     (if list_ex is_agent_instructions_turn (t_turns t) then t
      else t\<lparr>t_turns := prompt_turns spec (t_id t) @ t_turns t\<rparr>)"

section \<open>Tool surfaces\<close>

definition tool_spec_step ::
  "(tool_name, client_tool_spec) btree_map \<Rightarrow> client_tool_definition
    \<Rightarrow> (tool_name, client_tool_spec) btree_map" where
  "tool_spec_step specs d =
     (if btm_contains specs (ctd_name d) then specs
      else btm_insert (ctd_name d) (ctd_spec d) specs)"

definition tool_specs :: "client_tool_definition list \<Rightarrow> (tool_name, client_tool_spec) btree_map" where
  "tool_specs ds = foldl tool_spec_step [] ds"

definition enabled_tool_specs ::
  "agent_spec \<Rightarrow> 'e client_tool_executor \<Rightarrow> (tool_name, client_tool_spec) btree_map" where
  "enabled_tool_specs spec ex =
     (let specs = tool_specs (tools ex)
      in case as_client_tools spec of
           None \<Rightarrow> specs
         | Some enabled \<Rightarrow>
             filter (\<lambda>(name, _). list_ex (\<lambda>enabled_name. enabled_name = name) enabled) specs)"

definition normalize_server_tool :: "string \<Rightarrow> string option" where
  "normalize_server_tool tool =
     (let tool = str_trim tool in if tool \<noteq> [] then Some (to_ascii_lowercase tool) else None)"

definition normalized_server_tools :: "server_tool_set \<Rightarrow> server_tool_set" where
  "normalized_server_tools ts = bts_of_list (List.map_filter normalize_server_tool ts)"

definition enabled_server_tools :: "server_tool_set \<Rightarrow> server_tool_set option \<Rightarrow> server_tool_set" where
  "enabled_server_tools model_tools agent_tools =
     (let model_tools = normalized_server_tools model_tools
      in case agent_tools of
           None \<Rightarrow> model_tools
         | Some ats \<Rightarrow>
             (let ats = normalized_server_tools ats
              in filter (\<lambda>tool. tool \<in> set ats) model_tools))"

definition sampling_with_agent_limits :: "sampling_options \<Rightarrow> agent_limits \<Rightarrow> sampling_options" where
  "sampling_with_agent_limits sampling limits =
     (let limit = max_model_step_output_tokens limits
      in sampling\<lparr>so_max_output_tokens :=
           Some (case so_max_output_tokens sampling of None \<Rightarrow> limit
                 | Some configured \<Rightarrow> min configured limit)\<rparr>)"

section \<open>Client tool calls\<close>

definition call_client_tool ::
  "(tool_name, client_tool_spec) btree_map \<Rightarrow> 'e client_tool_executor \<Rightarrow> moment \<Rightarrow> client_tool_call
    \<Rightarrow> 'e client_tool_executor_error + client_tool_output" where
  "call_client_tool enabled_tools ex m call =
     (if \<not> btm_contains enabled_tools (ctc_name call) then Inl (UnknownTool (ctc_name call))
      else execute ex m call)"

text \<open>What the loop makes of the outcome of one call; an error becomes a result.\<close>

definition tool_failure_output ::
  "('e \<Rightarrow> string) \<Rightarrow> client_tool_call \<Rightarrow> 'e client_tool_executor_error \<Rightarrow> client_tool_output" where
  "tool_failure_output show_e call err =
     (let message = executor_error_message show_e err
      in \<lparr>cto_result = ResultText (''tool `'' @ ctc_name call @ ''` failed: '' @ message),
          cto_media = [], cto_is_error = True,
          cto_trace_response = json_object [(''error'', JString message)], cto_usage = []\<rparr>)"

type_synonym tool_completion = "client_tool_result \<times> client_tool_trace \<times> media_ref list"

definition complete_call :: "client_tool_call \<Rightarrow> client_tool_output \<Rightarrow> tool_completion" where
  "complete_call call out =
     (let result = \<lparr>ctr_tool_use_id = ctc_id call, ctr_content = cto_result out,
                     ctr_is_error = cto_is_error out\<rparr>
      in (result,
          \<lparr>ctt_call = call, ctt_result = result, ctt_trace_response = cto_trace_response out,
           ctt_usage = cto_usage out\<rparr>,
          cto_media out))"

text \<open>
  The calls run concurrently; \<open>FuturesOrdered\<close> hands the completions back in call order.
  The moment of a call is its step and its position in the step.
\<close>

definition execute_client_tool_calls ::
  "('e \<Rightarrow> string) \<Rightarrow> (tool_name, client_tool_spec) btree_map \<Rightarrow> 'e client_tool_executor \<Rightarrow> nat
    \<Rightarrow> client_tool_call list \<Rightarrow> tool_completion list" where
  "execute_client_tool_calls show_e enabled_tools ex iteration calls =
     map (\<lambda>(position, call).
        complete_call call
          (case call_client_tool enabled_tools ex (iteration, position) call of
             Inr out \<Rightarrow> out
           | Inl err \<Rightarrow> tool_failure_output show_e call err))
       (List.enumerate 0 calls)"

section \<open>Final answers\<close>

record assistant_answer =
  aa_text :: string
  aa_blocks :: "content_block list"

fun text_of_block :: "content_block \<Rightarrow> string option" where
  "text_of_block (BlockText text) = Some text"
| "text_of_block _ = None"

definition answer_from_content :: "content_block list \<Rightarrow> assistant_answer" where
  "answer_from_content content =
     \<lparr>aa_text = str_join [] (List.map_filter text_of_block content), aa_blocks = content\<rparr>"

section \<open>Lemmas\<close>

lemma tool_specs_snoc: "tool_specs (ds @ [d]) = tool_spec_step (tool_specs ds) d"
  by (simp add: tool_specs_def)

lemma tool_specs_fold_new:
  "tool_specs ds = fold btm.insert_new (map (\<lambda>d. (ctd_name d, ctd_spec d)) ds) []"
proof (induction ds rule: rev_induct)
  case Nil
  then show ?case by (simp add: tool_specs_def)
next
  case (snoc d ds)
  then show ?case
    by (simp add: tool_specs_snoc tool_spec_step_def btm.insert_new_def btm_contains_iff)
qed

lemma tool_specs_invar [chud_invar]: "btm_invar (tool_specs ds)"
  by (simp add: tool_specs_fold_new btm.invar_fold_insert_new)

text \<open>The first definition of a name wins.\<close>

lemma tool_specs_get: "btm_get (tool_specs ds) = map_of (map (\<lambda>d. (ctd_name d, ctd_spec d)) ds)"
  by (simp add: tool_specs_fold_new btm.lookup_fold_insert_new fun_eq_iff map_add_def
      split: option.splits)

lemma tool_specs_contains: "btm_contains (tool_specs ds) name \<longleftrightarrow> name \<in> ctd_name ` set ds"
  by (auto simp: btm_contains_iff tool_specs_get map_of_eq_None_iff image_iff)

lemma enabled_tool_specs_invar [chud_invar]: "btm_invar (enabled_tool_specs spec ex)"
  by (simp add: enabled_tool_specs_def Let_def tool_specs_invar btm_filter_invar split: option.splits)

lemma enabled_tool_specs_get:
  "btm_get (enabled_tool_specs spec ex) name =
   (if (case as_client_tools spec of None \<Rightarrow> True | Some enabled \<Rightarrow> name \<in> set enabled)
    then btm_get (tool_specs (tools ex)) name else None)"
proof (cases "as_client_tools spec")
  case None
  then show ?thesis by (simp add: enabled_tool_specs_def)
next
  case (Some enabled)
  have "btm_get (filter (\<lambda>(k, v). list_ex (\<lambda>e. e = k) enabled) (tool_specs (tools ex))) name =
      (if list_ex (\<lambda>e. e = name) enabled then btm_get (tool_specs (tools ex)) name else None)"
    by (rule btm_filter_get) (rule tool_specs_invar)
  with Some show ?thesis by (simp add: enabled_tool_specs_def list_ex_iff)
qed

lemma prompt_turns_marked: "turn \<in> set (prompt_turns spec tid) \<Longrightarrow> is_agent_instructions_turn turn"
  by (auto simp: prompt_turns_def agent_instruction_part_turn_def is_agent_instructions_turn_def
      json_get_object split: option.splits)

lemma execute_client_tool_calls_length [simp]:
  "length (execute_client_tool_calls show_e en ex it calls) = length calls"
  by (simp add: execute_client_tool_calls_def)

lemma execute_client_tool_calls_ids:
  "map (\<lambda>(r, _, _). ctr_tool_use_id r) (execute_client_tool_calls show_e en ex it calls) = map ctc_id calls"
  by (auto simp: execute_client_tool_calls_def complete_call_def Let_def comp_def split_beta
      intro!: nth_equalityI simp: nth_enumerate_eq)

text \<open>Only calls of enabled tools reach the executor.\<close>

lemma execute_client_tool_calls_cong:
  assumes "\<And>m call. btm_contains en (ctc_name call) \<Longrightarrow> execute ex m call = execute ex' m call"
  shows "execute_client_tool_calls show_e en ex it calls = execute_client_tool_calls show_e en ex' it calls"
proof -
  have "call_client_tool en ex m call = call_client_tool en ex' m call" for m call
    by (simp add: call_client_tool_def assms)
  then show ?thesis by (simp add: execute_client_tool_calls_def)
qed

end
