(* ===== verification/Api_Agent_Run.thy ===== *)
theory Api_Agent_Run
  imports Api_Agent
begin

text \<open>
  \<open>chudbot-api/src/agent.rs\<close>, second part: \<open>Agent::run\<close> as the list of events it
  yields and the way the stream ends, and \<open>collect_agent_run\<close>.

  The environment is a parameter. A backend answers the request of step \<open>i\<close> with a stream:
  the results it yields, each with the instant at which waiting for it ends, and the instant
  at which it ends, or \<open>None\<close> when it never does. \<open>instant_max\<close> is the last instant the
  platform's clock can represent (\<open>Instant::checked_add\<close> fails past it).
\<close>

section \<open>Events and results\<close>

datatype agent_error = AgentErrorModel string | AgentErrorToolLoop string

fun agent_error_text :: "agent_error \<Rightarrow> string" where
  "agent_error_text (AgentErrorModel message) = ''model error: '' @ message"
| "agent_error_text (AgentErrorToolLoop message) = ''tool loop error: '' @ message"

datatype agent_outcome =
    Completed assistant_answer
  | Failed agent_error "assistant_answer option"
  | IterationLimit u32
  | Cancelled string

record model_step_trace =
  mst_ordinal :: int
  mst_kind :: model_step_kind
  mst_provider :: provider_name
  mst_model :: model_id
  mst_continuation :: "provider_continuation option"

record agent_run =
  ar_outcome :: agent_outcome
  ar_transcript :: transcript
  ar_trace :: "tool_trace list"
  ar_model_steps :: "model_step_trace list"
  ar_last_model_id :: "model_id option"
  ar_final_continuation :: "provider_continuation option"
  ar_usage :: "usage_record list"

fun trace_usage :: "tool_trace \<Rightarrow> usage_record list" where
  "trace_usage (TraceClient tr) = ctt_usage tr"
| "trace_usage (TraceServer tool) = stu_usage tool"
| "trace_usage (TraceGrounding _) = []"

definition all_usage :: "agent_run \<Rightarrow> usage_record list" where
  "all_usage run = foldl (\<lambda>usage tr. usage @ trace_usage tr) (ar_usage run) (ar_trace run)"

datatype agent_run_event =
    RunStarted
  | ModelStepStarted nat
  | ModelEvent nat model_step_event
  | ClientToolStarted client_tool_call
  | ClientToolFinished client_tool_result client_tool_trace "media_ref list"
  | RunFinished agent_run

datatype ('be, 'je) agent_run_error =
    Model 'be
  | ModelStepError "'je collector_failure"
  | RunStreamEnded
  | DuplicateRunFinished

text \<open>How the stream of a run ends: normally, with a last error item, or never.\<close>

datatype ('be, 'je) stream_end =
    StreamDone
  | StreamErr "('be, 'je) agent_run_error"
  | StreamHangs

type_synonym ('be, 'je) run_stream = "agent_run_event list \<times> ('be, 'je) stream_end"

section \<open>Environment\<close>

type_synonym instant = nat

record 'be step_stream =
  st_items :: "(instant \<times> ('be + model_step_event)) list"
  st_end :: "instant option"

record 'be llm_backend =
  backend_name :: provider_name
  backend_step :: "nat \<Rightarrow> model_step_request \<Rightarrow> 'be step_stream"

record ('be, 'te, 'je) agent =
  ag_backend :: "'be llm_backend"
  ag_model :: model_spec
  ag_spec :: agent_spec
  ag_executor :: "'te client_tool_executor"
  ag_show_tool_error :: "'te \<Rightarrow> string"
  ag_parse :: "string \<Rightarrow> 'je + json"
  ag_instant_max :: instant

fun text_generation_started :: "model_step_event \<Rightarrow> bool" where
  "text_generation_started (Delta _) = True"
| "text_generation_started _ = False"

definition text_generation_deadline_from :: "instant \<Rightarrow> instant \<Rightarrow> duration \<Rightarrow> instant" where
  "text_generation_deadline_from instant_max now timeout =
     (if now + timeout \<le> instant_max then now + timeout else now)"

section \<open>One model step\<close>

datatype ('be, 'je) step_end =
    StepCollected model_step
  | StepTimedOut
  | StepFailed "('be, 'je) agent_run_error"
  | StepHangs

text \<open>
  The inner loop: waits for the next event, under the deadline once there is one, pushes it
  into the collector and yields it.
\<close>

definition past_deadline :: "instant option \<Rightarrow> instant \<Rightarrow> bool" where
  "past_deadline deadline t = (case deadline of None \<Rightarrow> False | Some d \<Rightarrow> d < t)"

definition next_deadline ::
  "('be, 'te, 'je) agent \<Rightarrow> instant \<Rightarrow> instant option \<Rightarrow> model_step_event \<Rightarrow> instant option" where
  "next_deadline ag now deadline event =
     (if deadline = None \<and> text_generation_started event
      then map_option (text_generation_deadline_from (ag_instant_max ag) now)
             (text_generation_timeout (as_limits (ag_spec ag)))
      else deadline)"

fun consume_step ::
  "('be, 'te, 'je) agent \<Rightarrow> nat \<Rightarrow> instant option \<Rightarrow> model_step_collector
    \<Rightarrow> (instant \<times> ('be + model_step_event)) list \<Rightarrow> instant option
    \<Rightarrow> agent_run_event list \<times> ('be, 'je) step_end" where
  "consume_step ag iteration deadline collector [] stream_end =
     (case stream_end of
        None \<Rightarrow> ([], if deadline = None then StepHangs else StepTimedOut)
      | Some t \<Rightarrow>
          if past_deadline deadline t then ([], StepTimedOut)
          else ([], case collector_finish (ag_parse ag) collector of
                      Inl e \<Rightarrow> StepFailed (ModelStepError (Reducer e))
                    | Inr step \<Rightarrow> StepCollected step))"
| "consume_step ag iteration deadline collector ((t, item) # rest) stream_end =
     (if past_deadline deadline t then ([], StepTimedOut)
      else case item of
        Inl err \<Rightarrow> ([], StepFailed (Model err))
      | Inr event \<Rightarrow>
          (let deadline' = next_deadline ag t deadline event
           in case collector_push collector event of
                Inl e \<Rightarrow> ([], StepFailed (ModelStepError e))
              | Inr collector' \<Rightarrow>
                  (let (events, ending) = consume_step ag iteration deadline' collector' rest stream_end
                   in (ModelEvent iteration event # events, ending))))"

section \<open>Folding a step\<close>

record run_state =
  run_transcript :: transcript
  run_trace :: "tool_trace list"
  run_model_steps :: "model_step_trace list"
  run_usage :: "usage_record list"
  run_last_model_id :: "model_id option"
  run_final_continuation :: "provider_continuation option"

definition finish_run :: "agent_outcome \<Rightarrow> run_state \<Rightarrow> agent_run" where
  "finish_run outcome st =
     \<lparr>ar_outcome = outcome, ar_transcript = run_transcript st, ar_trace = run_trace st,
      ar_model_steps = run_model_steps st, ar_last_model_id = run_last_model_id st,
      ar_final_continuation = run_final_continuation st, ar_usage = run_usage st\<rparr>"

definition model_step_trace_of ::
  "nat \<Rightarrow> model_step_kind \<Rightarrow> provider_name \<Rightarrow> model_step_output \<Rightarrow> model_step_trace" where
  "model_step_trace_of iteration kind provider out =
     \<lparr>mst_ordinal = (if int iteration \<le> 2 ^ 31 - 1 then int iteration else 2 ^ 31 - 1),
      mst_kind = kind, mst_provider = provider, mst_model = mso_model_id out,
      mst_continuation = continuation_of out\<rparr>"

definition append_step_trace :: "tool_trace list \<Rightarrow> model_step_output \<Rightarrow> tool_trace list" where
  "append_step_trace tr out =
     tr @ map TraceServer (server_tool_uses out) @ map TraceGrounding (grounding_of out)"

definition append_assistant_step :: "transcript \<Rightarrow> model_step_output \<Rightarrow> transcript" where
  "append_assistant_step t out =
     (let blocks = transcript_blocks out
      in if blocks \<noteq> []
         then transcript_push t \<lparr>tt_role = Assistant, tt_blocks = blocks, tt_metadata = JNull\<rparr>
         else t)"

text \<open>What every step records, whatever its kind.\<close>

definition record_step ::
  "provider_name \<Rightarrow> nat \<Rightarrow> model_step_kind \<Rightarrow> model_step_output \<Rightarrow> run_state \<Rightarrow> run_state" where
  "record_step provider iteration kind out st =
     st\<lparr>run_model_steps := run_model_steps st @ [model_step_trace_of iteration kind provider out],
        run_trace := append_step_trace (run_trace st) out,
        run_usage := run_usage st @ mso_usage out,
        run_last_model_id := Some (mso_model_id out),
        run_final_continuation := continuation_of out\<rparr>"

definition final_step ::
  "provider_name \<Rightarrow> nat \<Rightarrow> model_step_output \<Rightarrow> run_state \<Rightarrow> assistant_answer \<times> run_state" where
  "final_step provider iteration out st =
     (let blocks = answer_blocks out;
          st' = record_step provider iteration Final out st
      in (answer_from_content blocks,
          st'\<lparr>run_transcript := transcript_push (run_transcript st')
                \<lparr>tt_role = Assistant, tt_blocks = blocks, tt_metadata = JNull\<rparr>\<rparr>))"

definition continue_step ::
  "provider_name \<Rightarrow> nat \<Rightarrow> model_step_output \<Rightarrow> run_state \<Rightarrow> run_state" where
  "continue_step provider iteration out st =
     (let st' = record_step provider iteration Continue out st
      in st'\<lparr>run_transcript := append_assistant_step (run_transcript st') out\<rparr>)"

fun completion_event :: "tool_completion \<Rightarrow> agent_run_event" where
  "completion_event (result, tr, media) = ClientToolFinished result tr media"

fun completion_blocks :: "tool_completion \<Rightarrow> content_block list" where
  "completion_blocks (result, tr, media) = BlockClientToolResult result # map BlockMedia media"

fun completion_trace :: "tool_completion \<Rightarrow> tool_trace" where
  "completion_trace (result, tr, media) = TraceClient tr"

definition client_tools_step ::
  "('be, 'te, 'je) agent \<Rightarrow> (tool_name, client_tool_spec) btree_map \<Rightarrow> nat \<Rightarrow> model_step_output
    \<Rightarrow> run_state \<Rightarrow> agent_run_event list \<times> run_state" where
  "client_tools_step ag enabled iteration out st =
     (let st1 = record_step (backend_name (ag_backend ag)) iteration ClientTools out st;
          calls = client_tool_calls out;
          t1 = append_assistant_step (run_transcript st1) out;
          completions = execute_client_tool_calls (ag_show_tool_error ag) enabled (ag_executor ag)
            iteration calls;
          t2 = transcript_push t1
            \<lparr>tt_role = User, tt_blocks = concat (map completion_blocks completions), tt_metadata = JNull\<rparr>
      in (map ClientToolStarted calls @ map completion_event completions,
          st1\<lparr>run_transcript := t2, run_trace := run_trace st1 @ map completion_trace completions\<rparr>))"

section \<open>The run\<close>

definition step_request ::
  "('be, 'te, 'je) agent \<Rightarrow> (tool_name, client_tool_spec) btree_map \<Rightarrow> server_tool_set \<Rightarrow> transcript
    \<Rightarrow> model_step_request" where
  "step_request ag enabled server t =
     \<lparr>req_model = msp_id (ag_model ag), req_transcript = t, req_client_tools = enabled,
      req_server_tools = server,
      req_sampling = sampling_with_agent_limits (msp_sampling (ag_model ag)) (as_limits (ag_spec ag)),
      req_image_encoding = msp_image_encoding (ag_model ag),
      req_provider_options = msp_provider_options (ag_model ag)\<rparr>"

definition timeout_message :: "agent_limits \<Rightarrow> string" where
  "timeout_message limits =
     ''model text generation exceeded timeout (''
     @ dec_digits (unat (text_generation_timeout_seconds limits)) @ ''s)''"

text \<open>The loop over iterations; \<open>remaining\<close> is the distance to \<open>max_iterations\<close>.\<close>

fun run_iterations ::
  "('be, 'te, 'je) agent \<Rightarrow> (tool_name, client_tool_spec) btree_map \<Rightarrow> server_tool_set
    \<Rightarrow> nat \<Rightarrow> nat \<Rightarrow> run_state \<Rightarrow> ('be, 'je) run_stream" where
  "run_iterations ag enabled server 0 iteration st =
     ([RunFinished (finish_run (IterationLimit (max_iterations (as_limits (ag_spec ag)))) st)], StreamDone)"
| "run_iterations ag enabled server (Suc remaining) iteration st =
     (let stream = backend_step (ag_backend ag) iteration
            (step_request ag enabled server (run_transcript st));
          (events, ending) = consume_step ag iteration None collector_default (st_items stream) (st_end stream);
          events = ModelStepStarted iteration # events;
          provider = backend_name (ag_backend ag)
      in case ending of
           StepHangs \<Rightarrow> (events, StreamHangs)
         | StepFailed e \<Rightarrow> (events, StreamErr e)
         | StepTimedOut \<Rightarrow>
             (events @ [RunFinished (finish_run
                (Failed (AgentErrorModel (timeout_message (as_limits (ag_spec ag)))) None) st)], StreamDone)
         | StepCollected step \<Rightarrow>
             (case ms_kind step of
                Final \<Rightarrow>
                  (let (answer, st') = final_step provider iteration (ms_output step) st
                   in (events @ [RunFinished (finish_run (Completed answer) st')], StreamDone))
              | Continue \<Rightarrow>
                  (let (rest, end') = run_iterations ag enabled server remaining (Suc iteration)
                         (continue_step provider iteration (ms_output step) st)
                   in (events @ rest, end'))
              | ClientTools \<Rightarrow>
                  (let (tool_events, st') = client_tools_step ag enabled iteration (ms_output step) st;
                       (rest, end') = run_iterations ag enabled server remaining (Suc iteration) st'
                   in (events @ tool_events @ rest, end'))))"

definition initial_run_state :: "('be, 'te, 'je) agent \<Rightarrow> transcript \<Rightarrow> run_state" where
  "initial_run_state ag t =
     \<lparr>run_transcript = prepare_transcript (ag_spec ag) t, run_trace = [], run_model_steps = [],
      run_usage = [], run_last_model_id = None, run_final_continuation = None\<rparr>"

definition agent_run_stream :: "('be, 'te, 'je) agent \<Rightarrow> transcript \<Rightarrow> ('be, 'je) run_stream" where
  "agent_run_stream ag t =
     (let enabled = enabled_tool_specs (ag_spec ag) (ag_executor ag);
          server = enabled_server_tools (msp_server_tools (ag_model ag)) (as_server_tools (ag_spec ag));
          (events, ending) = run_iterations ag enabled server
            (unat (max_iterations (as_limits (ag_spec ag)))) 0 (initial_run_state ag t)
      in (RunStarted # events, ending))"

section \<open>Collecting a run\<close>

text \<open>\<open>None\<close> is a stream that never ends; the collector then never returns either.\<close>

fun collect_agent_run ::
  "agent_run option \<Rightarrow> agent_run_event list \<Rightarrow> ('be, 'je) stream_end
    \<Rightarrow> (('be, 'je) agent_run_error + agent_run) option" where
  "collect_agent_run done [] ending =
     (case ending of
        StreamDone \<Rightarrow> Some (case done of None \<Rightarrow> Inl RunStreamEnded | Some run \<Rightarrow> Inr run)
      | StreamErr e \<Rightarrow> Some (Inl e)
      | StreamHangs \<Rightarrow> None)"
| "collect_agent_run done (event # events) ending =
     (case event of
        RunFinished run \<Rightarrow>
          if done \<noteq> None then Some (Inl DuplicateRunFinished)
          else collect_agent_run (Some run) events ending
      | _ \<Rightarrow> collect_agent_run done events ending)"

section \<open>The run as a state machine\<close>

text \<open>
  The abstract view of the loop: a configuration is the number of completed steps, the events
  yielded for them and the accumulated state. \<open>run_reaches\<close> holds of the configurations at the
  head of the loop, \<open>run_halts\<close> of the event lists of the runs that end normally.
\<close>

definition step_outcome ::
  "('be, 'te, 'je) agent \<Rightarrow> (tool_name, client_tool_spec) btree_map \<Rightarrow> server_tool_set
    \<Rightarrow> nat \<Rightarrow> run_state \<Rightarrow> agent_run_event list \<times> ('be, 'je) step_end" where
  "step_outcome ag enabled server i st =
     (let stream = backend_step (ag_backend ag) i (step_request ag enabled server (run_transcript st))
      in consume_step ag i None collector_default (st_items stream) (st_end stream))"

inductive run_reaches ::
  "('be, 'te, 'je) agent \<Rightarrow> (tool_name, client_tool_spec) btree_map \<Rightarrow> server_tool_set
    \<Rightarrow> run_state \<Rightarrow> nat \<Rightarrow> agent_run_event list \<Rightarrow> run_state \<Rightarrow> bool"
  for ag enabled server st0 where
  start: "run_reaches ag enabled server st0 0 [] st0"
| continue: "run_reaches ag enabled server st0 i evs st \<Longrightarrow>
     step_outcome ag enabled server i st = (sevs, StepCollected step) \<Longrightarrow> ms_kind step = Continue \<Longrightarrow>
     run_reaches ag enabled server st0 (Suc i) (evs @ ModelStepStarted i # sevs)
       (continue_step (backend_name (ag_backend ag)) i (ms_output step) st)"
| client_tools: "run_reaches ag enabled server st0 i evs st \<Longrightarrow>
     step_outcome ag enabled server i st = (sevs, StepCollected step) \<Longrightarrow> ms_kind step = ClientTools \<Longrightarrow>
     client_tools_step ag enabled i (ms_output step) st = (tevs, st') \<Longrightarrow>
     run_reaches ag enabled server st0 (Suc i) (evs @ ModelStepStarted i # sevs @ tevs) st'"

inductive run_halts ::
  "('be, 'te, 'je) agent \<Rightarrow> (tool_name, client_tool_spec) btree_map \<Rightarrow> server_tool_set
    \<Rightarrow> nat \<Rightarrow> agent_run_event list \<Rightarrow> run_state \<Rightarrow> agent_run_event list \<Rightarrow> agent_run \<Rightarrow> bool"
  for ag enabled server i evs st where
  limit: "i = unat (max_iterations (as_limits (ag_spec ag))) \<Longrightarrow> run_halts ag enabled server i evs st evs
     (finish_run (IterationLimit (max_iterations (as_limits (ag_spec ag)))) st)"
| final: "i < unat (max_iterations (as_limits (ag_spec ag))) \<Longrightarrow> step_outcome ag enabled server i st = (sevs, StepCollected step) \<Longrightarrow> ms_kind step = Final \<Longrightarrow>
     final_step (backend_name (ag_backend ag)) i (ms_output step) st = (answer, st') \<Longrightarrow>
     run_halts ag enabled server i evs st (evs @ ModelStepStarted i # sevs) (finish_run (Completed answer) st')"
| timeout: "i < unat (max_iterations (as_limits (ag_spec ag))) \<Longrightarrow> step_outcome ag enabled server i st = (sevs, StepTimedOut) \<Longrightarrow>
     run_halts ag enabled server i evs st (evs @ ModelStepStarted i # sevs)
       (finish_run (Failed (AgentErrorModel (timeout_message (as_limits (ag_spec ag)))) None) st)"

lemma run_iterations_Suc:
  "run_iterations ag enabled server (Suc n) i st =
     (let (sevs, ending) = step_outcome ag enabled server i st;
          events = ModelStepStarted i # sevs
      in case ending of
           StepHangs \<Rightarrow> (events, StreamHangs)
         | StepFailed e \<Rightarrow> (events, StreamErr e)
         | StepTimedOut \<Rightarrow>
             (events @ [RunFinished (finish_run
                (Failed (AgentErrorModel (timeout_message (as_limits (ag_spec ag)))) None) st)], StreamDone)
         | StepCollected step \<Rightarrow>
             (case ms_kind step of
                Final \<Rightarrow>
                  (let (answer, st') = final_step (backend_name (ag_backend ag)) i (ms_output step) st
                   in (events @ [RunFinished (finish_run (Completed answer) st')], StreamDone))
              | Continue \<Rightarrow>
                  (let (rest, end') = run_iterations ag enabled server n (Suc i)
                         (continue_step (backend_name (ag_backend ag)) i (ms_output step) st)
                   in (events @ rest, end'))
              | ClientTools \<Rightarrow>
                  (let (tevs, st') = client_tools_step ag enabled i (ms_output step) st;
                       (rest, end') = run_iterations ag enabled server n (Suc i) st'
                   in (events @ tevs @ rest, end'))))"
  by (simp add: step_outcome_def Let_def split_beta split: step_end.splits model_step_kind.splits)

declare run_iterations.simps(2) [simp del]

text \<open>Every normal end of the loop is a halting configuration reached within the bound.\<close>

lemma run_iterations_done:
  assumes "run_iterations ag enabled server n i st = (evs, StreamDone)"
    and "run_reaches ag enabled server st0 i pre st"
    and "i + n = unat (max_iterations (as_limits (ag_spec ag)))"
  shows "\<exists>j mid st' all run. run_reaches ag enabled server st0 j mid st'
    \<and> run_halts ag enabled server j mid st' all run \<and> pre @ evs = all @ [RunFinished run]"
  using assms
proof (induction n arbitrary: i st pre evs)
  case 0
  then show ?case using run_halts.limit [of i ag enabled server pre st] by fastforce
next
  case (Suc n)
  obtain sevs ending where out: "step_outcome ag enabled server i st = (sevs, ending)" by force
  show ?case
  proof (cases ending)
    case (StepCollected step)
    note out = out [unfolded StepCollected]
    show ?thesis
    proof (cases "ms_kind step")
      case Final
      obtain answer st' where fin: "final_step (backend_name (ag_backend ag)) i (ms_output step) st = (answer, st')"
        by force
      from Suc.prems(1) have "evs = ModelStepStarted i # sevs @ [RunFinished (finish_run (Completed answer) st')]"
        by (simp add: run_iterations_Suc out Final fin)
      with run_halts.final [OF _ out Final fin, of pre] Suc.prems(2,3) show ?thesis by fastforce
    next
      case Continue
      let ?st = "continue_step (backend_name (ag_backend ag)) i (ms_output step) st"
      obtain rest where rest: "run_iterations ag enabled server n (Suc i) ?st = (rest, StreamDone)"
        and evs: "evs = ModelStepStarted i # sevs @ rest"
        using Suc.prems(1) by (auto simp: run_iterations_Suc out Continue split: prod.splits)
      from Suc.IH [OF rest run_reaches.continue [OF Suc.prems(2) out Continue]]
        Suc.prems(3) show ?thesis by (simp add: evs)
    next
      case ClientTools
      obtain tevs st' where cts: "client_tools_step ag enabled i (ms_output step) st = (tevs, st')" by force
      obtain rest where rest: "run_iterations ag enabled server n (Suc i) st' = (rest, StreamDone)"
        and evs: "evs = ModelStepStarted i # sevs @ tevs @ rest"
        using Suc.prems(1) by (auto simp: run_iterations_Suc out ClientTools cts split: prod.splits)
      from Suc.IH [OF rest run_reaches.client_tools [OF Suc.prems(2) out ClientTools cts]]
        Suc.prems(3) show ?thesis by (simp add: evs)
    qed
  next
    case StepTimedOut
    with Suc.prems out run_halts.timeout [OF _ out [unfolded StepTimedOut], of pre] show ?thesis
      by (fastforce simp: run_iterations_Suc)
  qed (use Suc.prems out in \<open>simp_all add: run_iterations_Suc\<close>)
qed

abbreviation run_enabled :: "('be, 'te, 'je) agent \<Rightarrow> (tool_name, client_tool_spec) btree_map" where
  "run_enabled ag \<equiv> enabled_tool_specs (ag_spec ag) (ag_executor ag)"

abbreviation run_server_tools :: "('be, 'te, 'je) agent \<Rightarrow> server_tool_set" where
  "run_server_tools ag \<equiv>
     enabled_server_tools (msp_server_tools (ag_model ag)) (as_server_tools (ag_spec ag))"

lemma agent_run_stream_done:
  assumes "agent_run_stream ag t = (evs, StreamDone)"
  obtains j mid st all run where
    "run_reaches ag (run_enabled ag) (run_server_tools ag) (initial_run_state ag t) j mid st"
    "run_halts ag (run_enabled ag) (run_server_tools ag) j mid st all run"
    "evs = RunStarted # all @ [RunFinished run]"
  using assms run_iterations_done [OF _ run_reaches.start]
  unfolding agent_run_stream_def Let_def by (fastforce split: prod.splits)

section \<open>What one step consumes\<close>

text \<open>
  The events of a step are a prefix of the stream, pushed one after the other; a step that
  is collected has consumed the whole stream.
\<close>

lemma consume_step_Cons:
  fixes ag :: "('be, 'te, 'je) agent"
  assumes "consume_step ag i dl c ((t, item) # rest) fin = (sevs, oc)"
  obtains (late) "past_deadline dl t" "sevs = []" "oc = StepTimedOut"
  | (backend) err where "item = Inl err" "sevs = []" "oc = StepFailed (Model err)"
  | (reducer) ev e where "item = Inr ev" "collector_push c ev = Inl e" "sevs = []"
      "oc = StepFailed (ModelStepError e)"
  | (event) ev c1 sevs1 where "\<not> past_deadline dl t" "item = Inr ev"
      "collector_push c ev = (Inr c1 :: 'je collector_failure + _)"
      "consume_step ag i (next_deadline ag t dl ev) c1 rest fin = (sevs1, oc)"
      "sevs = ModelEvent i ev # sevs1"
  using assms
  by (cases item; cases "past_deadline dl t")
    (auto simp: Let_def split: sum.splits prod.splits)

lemma consume_step_events:
  fixes ag :: "('be, 'te, 'je) agent"
  shows "consume_step ag i dl c items fin = (sevs, ending) \<Longrightarrow>
   \<exists>evs c'. sevs = map (ModelEvent i) evs \<and> (try_fold collector_push c evs :: 'je collector_failure + _) = Inr c'
     \<and> (\<forall>step. ending = StepCollected step \<longrightarrow>
          collector_finish (ag_parse ag) c' = Inr step \<and> map snd items = map Inr evs)"
proof (induction items arbitrary: dl c sevs)
  case Nil
  then have "sevs = [] \<and> (\<forall>step. ending = StepCollected step \<longrightarrow> collector_finish (ag_parse ag) c = Inr step)"
    by (auto split: option.splits if_splits sum.splits)
  then show ?case by (intro exI [of _ "[]"]) simp
next
  case (Cons it rest)
  obtain t item where it: "it = (t, item)" by force
  from Cons.prems [unfolded it] show ?case
  proof (cases rule: consume_step_Cons)
    case (event ev c1 sevs1)
    from Cons.IH [OF event(4)] obtain evs c' where
      "sevs1 = map (ModelEvent i) evs" "try_fold collector_push c1 evs = (Inr c' :: 'je collector_failure + _)"
      "\<forall>step. ending = StepCollected step \<longrightarrow>
         collector_finish (ag_parse ag) c' = Inr step \<and> map snd rest = map Inr evs"
      by blast
    with event it show ?thesis
      by (intro exI [of _ "ev # evs"] exI [of _ c']) simp
  qed (auto intro: exI [of _ "[]"])
qed

lemma step_outcome_collected:
  fixes ag :: "('be, 'te, 'je) agent"
  assumes "step_outcome ag enabled server i st = (sevs, StepCollected step)"
  obtains evs c where "sevs = map (ModelEvent i) evs"
    "push_all evs = (Inr c :: 'je collector_failure + _)" "collector_finish (ag_parse ag) c = Inr step"
  using assms unfolding step_outcome_def push_all_def Let_def
  by (blast dest: consume_step_events)

text \<open>The errors of a step are the backend's or the reducer's, never a panic.\<close>

lemma consume_step_error:
  fixes ag :: "('be, 'te, 'je) agent"
  shows "consume_step ag i dl c items fin = (sevs, StepFailed e) \<Longrightarrow> collector_invar c \<Longrightarrow>
    (\<exists>err. e = Model err) \<or> (\<exists>err. e = ModelStepError (Reducer err))"
proof (induction items arbitrary: dl c sevs)
  case Nil
  then show ?case by (auto split: option.splits if_splits sum.splits)
next
  case (Cons it rest)
  obtain t item where it: "it = (t, item)" by force
  from Cons.prems(1) [unfolded it] show ?case
  proof (cases rule: consume_step_Cons)
    case (reducer ev r)
    with collector_push_no_panic [where 'je = 'je, OF Cons.prems(2), of ev] show ?thesis
      by (cases r) simp_all
  next
    case (event ev c1 sevs1)
    from Cons.IH [OF event(4)] collector_push_invar [OF Cons.prems(2) event(3)] show ?thesis by blast
  qed simp_all
qed

text \<open>A step times out only under a deadline, and a deadline comes from the configured timeout.\<close>

lemma consume_step_timeout:
  "consume_step ag i dl c items fin = (sevs, StepTimedOut) \<Longrightarrow>
   dl \<noteq> None \<or> text_generation_timeout (as_limits (ag_spec ag)) \<noteq> None"
proof (induction items arbitrary: dl c sevs)
  case Nil
  then show ?case by (auto simp: past_deadline_def split: option.splits if_splits sum.splits)
next
  case (Cons it rest)
  obtain t item where it: "it = (t, item)" by force
  from Cons.prems [unfolded it] show ?case
  proof (cases rule: consume_step_Cons)
    case (event ev c1 sevs1)
    from Cons.IH [OF event(4)] show ?thesis by (auto simp: next_deadline_def split: if_splits)
  qed (auto simp: past_deadline_def split: option.splits)
qed

lemma run_iterations_stuck:
  assumes "run_iterations ag enabled server n i st = (evs, ending)" "ending \<noteq> StreamDone"
    and "run_reaches ag enabled server st0 i pre st"
  shows "\<exists>j mid st' sevs oc. run_reaches ag enabled server st0 j mid st' \<and> j < i + n
    \<and> step_outcome ag enabled server j st' = (sevs, oc) \<and> pre @ evs = mid @ ModelStepStarted j # sevs
    \<and> (oc = StepHangs \<and> ending = StreamHangs \<or> (\<exists>e. oc = StepFailed e \<and> ending = StreamErr e))"
  using assms
proof (induction n arbitrary: i st pre evs)
  case 0
  then show ?case by simp
next
  case (Suc n)
  obtain sevs oc where out: "step_outcome ag enabled server i st = (sevs, oc)" by force
  show ?case
  proof (cases "\<exists>step. oc = StepCollected step \<and> ms_kind step \<noteq> Final")
    case True
    then obtain step where oc: "oc = StepCollected step" and kind: "ms_kind step \<noteq> Final" by blast
    note out = out [unfolded oc]
    show ?thesis
    proof (cases "ms_kind step")
      case Continue
      let ?st = "continue_step (backend_name (ag_backend ag)) i (ms_output step) st"
      obtain rest where rest: "run_iterations ag enabled server n (Suc i) ?st = (rest, ending)"
        and evs: "evs = ModelStepStarted i # sevs @ rest"
        using Suc.prems(1) by (auto simp: run_iterations_Suc out Continue split: prod.splits)
      from Suc.IH [OF rest Suc.prems(2) run_reaches.continue [OF Suc.prems(3) out Continue]] show ?thesis
        by (simp add: evs)
    next
      case ClientTools
      obtain tevs st' where cts: "client_tools_step ag enabled i (ms_output step) st = (tevs, st')" by force
      obtain rest where rest: "run_iterations ag enabled server n (Suc i) st' = (rest, ending)"
        and evs: "evs = ModelStepStarted i # sevs @ tevs @ rest"
        using Suc.prems(1) by (auto simp: run_iterations_Suc out ClientTools cts split: prod.splits)
      from Suc.IH [OF rest Suc.prems(2) run_reaches.client_tools [OF Suc.prems(3) out ClientTools cts]] show ?thesis
        by (simp add: evs)
    qed (use kind in simp)
  next
    case False
    with Suc.prems(1,2) out
    have "evs = ModelStepStarted i # sevs
      \<and> (oc = StepHangs \<and> ending = StreamHangs \<or> (\<exists>e. oc = StepFailed e \<and> ending = StreamErr e))"
      by (cases oc) (auto simp: run_iterations_Suc split: prod.splits)
    with Suc.prems(3) out show ?thesis by fastforce
  qed
qed

lemma agent_run_stream_stuck:
  assumes "agent_run_stream ag t = (evs, ending)" "ending \<noteq> StreamDone"
  obtains j mid st sevs oc where
    "run_reaches ag (run_enabled ag) (run_server_tools ag) (initial_run_state ag t) j mid st"
    "j < unat (max_iterations (as_limits (ag_spec ag)))"
    "step_outcome ag (run_enabled ag) (run_server_tools ag) j st = (sevs, oc)"
    "evs = RunStarted # mid @ ModelStepStarted j # sevs"
    "oc = StepHangs \<and> ending = StreamHangs \<or> (\<exists>e. oc = StepFailed e \<and> ending = StreamErr e)"
proof -
  obtain evs' where run: "run_iterations ag (run_enabled ag) (run_server_tools ag)
      (unat (max_iterations (as_limits (ag_spec ag)))) 0 (initial_run_state ag t) = (evs', ending)"
    and evs: "evs = RunStarted # evs'"
    using assms(1) by (auto simp: agent_run_stream_def Let_def split: prod.splits)
  from run_iterations_stuck [OF run assms(2) run_reaches.start] obtain j mid st sevs oc where
    "run_reaches ag (run_enabled ag) (run_server_tools ag) (initial_run_state ag t) j mid st"
    "j < 0 + unat (max_iterations (as_limits (ag_spec ag)))"
    "step_outcome ag (run_enabled ag) (run_server_tools ag) j st = (sevs, oc)"
    "[] @ evs' = mid @ ModelStepStarted j # sevs"
    "oc = StepHangs \<and> ending = StreamHangs \<or> (\<exists>e. oc = StepFailed e \<and> ending = StreamErr e)"
    by metis
  then show thesis using that [of j mid st sevs oc] evs by simp
qed

end
