(* ===== verification/Rust_Trim.thy ===== *)
theory Rust_Trim
  imports Rust_Prelude
begin

text \<open>
  Facts about \<open>str::trim\<close> of \<open>Rust_Prelude\<close>: the result has no white space at either end, trimming
  twice is trimming once, and lower-casing ASCII letters does not create white space.
\<close>

lemma starts_with_iff: "starts_with s p \<longleftrightarrow> (\<exists>r. s = p @ r)"
  unfolding starts_with_def by (metis append_eq_conv_conj)

lemma utf8_spaces_nonempty: "[] \<notin> set utf8_spaces" "[] \<notin> set (map rev utf8_spaces)"
  by (simp_all add: utf8_spaces_def upt_rec image_iff)

lemma leading_space_0:
  assumes "[] \<notin> set ws"
  shows "leading_space ws s = 0 \<longleftrightarrow> (\<forall>w\<in>set ws. \<not> starts_with s w)"
proof (cases "List.find (starts_with s) ws")
  case None
  then show ?thesis by (simp add: leading_space_def) (simp add: find_None_iff)
next
  case (Some w)
  then have "w \<in> set ws" "starts_with s w" by (auto simp: find_Some_iff)
  with Some assms show ?thesis by (auto simp: leading_space_def)
qed

lemma trim_with_no_space: "[] \<notin> set ws \<Longrightarrow> leading_space ws (trim_with ws s) = 0"
proof (induction ws s rule: trim_with.induct)
  case (1 ws s)
  have "leading_space ws [] = 0"
    using 1 by (subst leading_space_0) (auto simp: starts_with_def)
  with 1 show ?case by (subst trim_with.simps) (simp add: Let_def)
qed

lemma trim_with_fix: "leading_space ws s = 0 \<Longrightarrow> trim_with ws s = s"
  by (subst trim_with.simps) simp

lemma trim_with_suffix: "\<exists>p. s = p @ trim_with ws s"
proof (induction ws s rule: trim_with.induct)
  case (1 ws s)
  show ?case
  proof (cases "leading_space ws s = 0 \<or> s = []")
    case True
    then show ?thesis by (subst trim_with.simps) simp
  next
    case False
    then obtain p where "drop (leading_space ws s) s = p @ trim_with ws (drop (leading_space ws s) s)"
      using 1 by blast
    then have "s = (take (leading_space ws s) s @ p) @ trim_with ws (drop (leading_space ws s) s)"
      by (metis append.assoc append_take_drop_id)
    moreover from False have "trim_with ws s = trim_with ws (drop (leading_space ws s) s)"
      by (subst trim_with.simps) (simp add: Let_def)
    ultimately show ?thesis by metis
  qed
qed

definition trimmed :: "string \<Rightarrow> bool" where
  "trimmed s \<longleftrightarrow> (\<forall>w\<in>set utf8_spaces. \<not> starts_with s w \<and> \<not> starts_with (rev s) (rev w))"

lemma trim_end_prefix: "\<exists>q. s = trim_end s @ q"
  using trim_with_suffix [of "rev s" "map rev utf8_spaces"] unfolding trim_end_def
  by (metis rev_append rev_rev_ident)

lemma str_trim_trimmed: "trimmed (str_trim s)"
proof -
  have start: "\<not> starts_with (trim_start s) w" if "w \<in> set utf8_spaces" for w
    using trim_with_no_space [OF utf8_spaces_nonempty(1), of s] that
    by (simp add: leading_space_0 [OF utf8_spaces_nonempty(1)] trim_start_def)
  have "\<not> starts_with (str_trim s) w" if "w \<in> set utf8_spaces" for w
    using trim_end_prefix [of "trim_start s"] start [OF that]
    unfolding str_trim_def starts_with_iff by (metis append.assoc)
  moreover have "\<not> starts_with (rev (str_trim s)) (rev w)" if "w \<in> set utf8_spaces" for w
    using trim_with_no_space [OF utf8_spaces_nonempty(2), of "rev (trim_start s)"] that
    by (simp add: leading_space_0 [OF utf8_spaces_nonempty(2), unfolded set_map] str_trim_def trim_end_def)
  ultimately show ?thesis by (simp add: trimmed_def)
qed

lemma trimmed_str_trim: "trimmed s \<Longrightarrow> str_trim s = s"
proof -
  assume s: "trimmed s"
  then have "leading_space utf8_spaces s = 0"
    by (simp add: leading_space_0 [OF utf8_spaces_nonempty(1)] trimmed_def)
  then have "trim_start s = s" by (simp add: trim_start_def trim_with_fix)
  moreover from s have "leading_space (map rev utf8_spaces) (rev s) = 0"
    by (simp add: leading_space_0 [OF utf8_spaces_nonempty(2), unfolded set_map] trimmed_def)
  ultimately show "str_trim s = s" by (simp add: str_trim_def trim_end_def trim_with_fix)
qed

lemma str_trim_idem [simp]: "str_trim (str_trim s) = str_trim s"
  by (rule trimmed_str_trim) (rule str_trim_trimmed)

text \<open>No byte of white space is an ASCII letter.\<close>

lemma utf8_space_not_letter:
  "w \<in> set utf8_spaces \<Longrightarrow> c \<in> set w \<Longrightarrow> ascii_lower d = c \<Longrightarrow> d = c"
proof -
  assume "w \<in> set utf8_spaces" "c \<in> set w" and d: "ascii_lower d = c"
  then have "\<not> (97 \<le> (of_char c :: nat) \<and> (of_char c :: nat) \<le> 122)"
    by (auto simp: utf8_spaces_def upt_rec)
  with d show "d = c" by (auto simp: ascii_lower_def Let_def split: if_splits)
qed

lemma map_lower_space:
  assumes "\<forall>c\<in>set w. \<forall>d. ascii_lower d = c \<longrightarrow> d = c" "starts_with (map ascii_lower s) w"
  shows "starts_with s w"
proof -
  from assms(2) obtain r where r: "map ascii_lower s = w @ r" by (auto simp: starts_with_iff)
  then obtain u v where "s = u @ v" "map ascii_lower u = w" by (auto simp: map_eq_append_conv)
  moreover have "u = w" using calculation(2) assms(1)
    by (metis (no_types, lifting) in_set_conv_nth length_map nth_equalityI nth_map)
  ultimately show ?thesis by (auto simp: starts_with_iff)
qed

lemma trimmed_lowercase: "trimmed s \<Longrightarrow> trimmed (to_ascii_lowercase s)"
  unfolding trimmed_def to_ascii_lowercase_def
  using map_lower_space [of _ s] map_lower_space [of _ "rev s"] utf8_space_not_letter
  by (metis rev_map set_rev)

text \<open>A string whose ends no white space shares is trimmed.\<close>

lemma trimmed_ends:
  assumes "s \<noteq> []" and "list_all (\<lambda>w. w \<noteq> [] \<and> hd w \<noteq> hd s \<and> last w \<noteq> last s) utf8_spaces"
  shows "str_trim s = s"
proof (rule trimmed_str_trim)
  have "\<not> starts_with s w \<and> \<not> starts_with (rev s) (rev w)" if "w \<in> set utf8_spaces" for w
  proof -
    have w: "w \<noteq> []" "hd w \<noteq> hd s" "last w \<noteq> last s" using assms(2) that by (auto simp: list_all_iff)
    have "hd (rev w) \<noteq> hd (rev s)" using w assms(1) by (simp add: hd_rev)
    moreover have "hd a = hd b" if "starts_with a b" "b \<noteq> []" for a b
      using that by (auto simp: starts_with_iff)
    ultimately show ?thesis using w by (metis rev_is_Nil_conv)
  qed
  then show "trimmed s" by (simp add: trimmed_def)
qed

end
