(* ===== verification/Api_Agent_Props.thy ===== *)
theory Api_Agent_Props
  imports Api_Agent_Run Rust_Trim
begin

text \<open>
  The properties of \<open>Agent::run\<close> (\<open>chudbot-api/src/agent.rs\<close>): what its event stream looks
  like, how it ends, and what the returned run says about the steps that were taken. They are
  invariants of \<open>run_reaches\<close>, lifted to the whole stream.
\<close>

section \<open>Views of an event list\<close>

fun event_finished_run :: "agent_run_event \<Rightarrow> agent_run option" where
  "event_finished_run (RunFinished run) = Some run"
| "event_finished_run _ = None"

fun event_started_step :: "agent_run_event \<Rightarrow> nat option" where
  "event_started_step (ModelStepStarted i) = Some i"
| "event_started_step _ = None"

fun event_model :: "agent_run_event \<Rightarrow> (nat \<times> model_step_event) option" where
  "event_model (ModelEvent i ev) = Some (i, ev)"
| "event_model _ = None"

fun event_tool_started :: "agent_run_event \<Rightarrow> client_tool_call option" where
  "event_tool_started (ClientToolStarted call) = Some call"
| "event_tool_started _ = None"

fun event_tool_trace :: "agent_run_event \<Rightarrow> client_tool_trace option" where
  "event_tool_trace (ClientToolFinished _ tr _) = Some tr"
| "event_tool_trace _ = None"

definition finished_runs :: "agent_run_event list \<Rightarrow> agent_run list" where
  "finished_runs = List.map_filter event_finished_run"

definition started_steps :: "agent_run_event list \<Rightarrow> nat list" where
  "started_steps = List.map_filter event_started_step"

text \<open>The usage records the model reported in the steps before step \<open>k\<close>.\<close>

definition usage_before :: "nat \<Rightarrow> agent_run_event list \<Rightarrow> usage_record list" where
  "usage_before k evs =
     List.map_filter (\<lambda>(i, ev). if i < k then event_usage ev else None) (List.map_filter event_model evs)"

text \<open>Every model event carries the ordinal of the step that was started last.\<close>

fun tagged :: "nat option \<Rightarrow> agent_run_event list \<Rightarrow> bool" where
  "tagged cur [] = True"
| "tagged cur (ev # evs) =
     (case ev of
        ModelStepStarted i \<Rightarrow> tagged (Some i) evs
      | ModelEvent i _ \<Rightarrow> cur = Some i \<and> tagged cur evs
      | _ \<Rightarrow> tagged cur evs)"

section \<open>Events of reachable configurations\<close>

lemma consume_step_model_events:
  "consume_step ag i dl c items fin = (sevs, oc) \<Longrightarrow> \<exists>evs. sevs = map (ModelEvent i) evs"
  using consume_step_events by fast

lemma step_outcome_events:
  "step_outcome ag enabled server i st = (sevs, oc) \<Longrightarrow> \<exists>evs. sevs = map (ModelEvent i) evs"
  unfolding step_outcome_def Let_def by (rule consume_step_model_events)

lemma client_tools_step_events:
  "client_tools_step ag enabled i out st = (tevs, st') \<Longrightarrow>
   tevs = map ClientToolStarted (client_tool_calls out)
     @ map completion_event (execute_client_tool_calls (ag_show_tool_error ag) enabled (ag_executor ag) i
         (client_tool_calls out))"
  by (auto simp: client_tools_step_def Let_def)

lemma map_filter_map_None [simp]: "(\<And>x. f (g x) = None) \<Longrightarrow> List.map_filter f (map g xs) = []"
  by (induction xs) simp_all

lemma map_filter_map_Some [simp]: "(\<And>x. f (g x) = Some (h x)) \<Longrightarrow> List.map_filter f (map g xs) = map h xs"
  by (induction xs) simp_all

lemma completion_event_views [simp]:
  "event_finished_run (completion_event c) = None"
  "event_started_step (completion_event c) = None"
  "event_model (completion_event c) = None"
  "event_tool_started (completion_event c) = None"
  by (cases c; simp)+

lemma reaches_finished_runs:
  "run_reaches ag enabled server st0 j evs st \<Longrightarrow> finished_runs evs = []"
proof (induction rule: run_reaches.induct)
  case (continue i evs st sevs step)
  then show ?case by (auto simp: finished_runs_def dest!: step_outcome_events)
next
  case (client_tools i evs st sevs step tevs st')
  then show ?case by (auto simp: finished_runs_def dest!: step_outcome_events client_tools_step_events)
qed (simp add: finished_runs_def)

lemma reaches_started_steps:
  "run_reaches ag enabled server st0 j evs st \<Longrightarrow> started_steps evs = [0..<j]"
proof (induction rule: run_reaches.induct)
  case (continue i evs st sevs step)
  then show ?case by (auto simp: started_steps_def dest!: step_outcome_events)
next
  case (client_tools i evs st sevs step tevs st')
  then show ?case by (auto simp: started_steps_def dest!: step_outcome_events client_tools_step_events)
qed (simp add: started_steps_def)

lemma halts_events:
  assumes "run_halts ag enabled server j mid st all run"
  shows "all = mid \<or> (\<exists>evs. all = mid @ ModelStepStarted j # map (ModelEvent j) evs)"
  using assms by (cases rule: run_halts.cases) (auto dest!: step_outcome_events)

lemma halts_bound:
  "run_halts ag enabled server j mid st all run \<Longrightarrow>
   j \<le> unat (max_iterations (as_limits (ag_spec ag)))
   \<and> (j < unat (max_iterations (as_limits (ag_spec ag))) \<longleftrightarrow> all \<noteq> mid)"
  by (erule run_halts.cases) auto

section \<open>How a run ends\<close>

lemma collect_unfinished:
  "finished_runs evs = [] \<Longrightarrow> collect_agent_run d (evs @ rest) ending = collect_agent_run d rest ending"
proof (induction evs)
  case (Cons ev evs)
  then show ?case by (cases ev) (auto simp: finished_runs_def)
qed simp

lemma finished_runs_simps [simp]:
  "finished_runs [] = []"
  "finished_runs (ev # evs) = (case event_finished_run ev of None \<Rightarrow> [] | Some r \<Rightarrow> [r]) @ finished_runs evs"
  "finished_runs (xs @ ys) = finished_runs xs @ finished_runs ys"
  by (simp_all add: finished_runs_def split: option.splits)

lemma finished_runs_model [simp]: "finished_runs (map (ModelEvent i) evs) = []"
  by (simp add: finished_runs_def)

lemma stream_done_finished_runs:
  assumes "agent_run_stream ag t = (evs, StreamDone)"
  obtains mid run where "evs = RunStarted # mid @ [RunFinished run]" "finished_runs mid = []"
proof -
  obtain j mid st all run where *:
    "run_reaches ag (run_enabled ag) (run_server_tools ag) (initial_run_state ag t) j mid st"
    "run_halts ag (run_enabled ag) (run_server_tools ag) j mid st all run"
    "evs = RunStarted # all @ [RunFinished run]"
    using agent_run_stream_done [OF assms] by metis
  from halts_events [OF *(2)] reaches_finished_runs [OF *(1)] have "finished_runs all = []" by auto
  with *(3) show thesis by (rule that)
qed

lemma initial_invar: "collector_invar collector_default"
  by (rule collector_invar_default)

lemma stream_stuck_finished_runs:
  fixes ag :: "('be, 'te, 'je) agent"
  assumes "agent_run_stream ag t = (evs, ending)" "ending \<noteq> StreamDone"
  shows "finished_runs evs = [] \<and>
    (ending = StreamHangs \<or> (\<exists>e. ending = StreamErr (Model e)) \<or> (\<exists>e. ending = StreamErr (ModelStepError (Reducer e))))"
proof -
  obtain j mid st sevs oc where *:
    "run_reaches ag (run_enabled ag) (run_server_tools ag) (initial_run_state ag t) j mid st"
    "step_outcome ag (run_enabled ag) (run_server_tools ag) j st = (sevs, oc)"
    "evs = RunStarted # mid @ ModelStepStarted j # sevs"
    "oc = StepHangs \<and> ending = StreamHangs \<or> (\<exists>e. oc = StepFailed e \<and> ending = StreamErr e)"
    using agent_run_stream_stuck [OF assms] by metis
  have "finished_runs evs = []"
    using *(3) reaches_finished_runs [OF *(1)] step_outcome_events [OF *(2)] by auto
  moreover have "(\<exists>err. e = Model err) \<or> (\<exists>err. e = ModelStepError (Reducer err))" if "oc = StepFailed e" for e
    using consume_step_error [OF *(2) [unfolded step_outcome_def Let_def that] initial_invar] .
  ultimately show ?thesis using *(4) by blast
qed

text \<open>
  C2: A consumer of the run never sees the protocol errors of \<open>collect_agent_run\<close>. A stream that
  ends normally starts with \<open>RunStarted\<close>, has exactly one \<open>RunFinished\<close>, as its last event, and
  collecting it returns that run. Any other stream has no \<open>RunFinished\<close>: it ends with an error of
  the backend or of the event reducer, which collecting returns unchanged, or it never ends.
\<close>

theorem agent_run_stream_shape:
  fixes ag :: "('be, 'te, 'je) agent"
  shows "case agent_run_stream ag t of (evs, ending) \<Rightarrow>
    hd evs = RunStarted \<and>
    (case ending of
       StreamDone \<Rightarrow> \<exists>mid run. evs = RunStarted # mid @ [RunFinished run] \<and> finished_runs evs = [run]
          \<and> collect_agent_run None evs ending = Some (Inr run)
     | StreamErr e \<Rightarrow> finished_runs evs = [] \<and> collect_agent_run None evs ending = Some (Inl e)
          \<and> e \<in> range Model \<union> range (\<lambda>r. ModelStepError (Reducer r))
     | StreamHangs \<Rightarrow> finished_runs evs = [] \<and> collect_agent_run None evs ending = None)"
proof -
  obtain evs ending where run: "agent_run_stream ag t = (evs, ending)" by force
  have hd: "hd evs = RunStarted"
    using run by (auto simp: agent_run_stream_def Let_def split: prod.splits)
  show ?thesis
  proof (cases "ending = StreamDone")
    case True
    from stream_done_finished_runs [OF run [unfolded True]] obtain mid run' where
      *: "evs = RunStarted # mid @ [RunFinished run']" "finished_runs mid = []" .
    have "collect_agent_run None evs StreamDone = Some (Inr run' :: ('be, 'je) agent_run_error + _)"
      using collect_unfinished [of "RunStarted # mid" None "[RunFinished run']" StreamDone] * by simp
    with * run True show ?thesis by simp
  next
    case False
    have none: "collect_agent_run None evs ending = collect_agent_run None [] ending"
      using collect_unfinished [of evs None "[]" ending] stream_stuck_finished_runs [OF run False] by simp
    show ?thesis
      using stream_stuck_finished_runs [OF run False] False run hd none by (cases ending) auto
  qed
qed

section \<open>Every stream is a reachable configuration and at most one more step\<close>

lemma agent_run_stream_events:
  assumes "agent_run_stream ag t = (evs, ending)"
  obtains j mid st sevs fin where
    "run_reaches ag (run_enabled ag) (run_server_tools ag) (initial_run_state ag t) j mid st"
    "evs = RunStarted # mid @ fin \<and> j \<le> unat (max_iterations (as_limits (ag_spec ag)))
     \<or> evs = RunStarted # mid @ ModelStepStarted j # map (ModelEvent j) sevs @ fin
       \<and> j < unat (max_iterations (as_limits (ag_spec ag)))"
    "fin = [] \<or> (\<exists>run. fin = [RunFinished run])"
proof (cases "ending = StreamDone")
  case True
  obtain j mid st all run where *:
    "run_reaches ag (run_enabled ag) (run_server_tools ag) (initial_run_state ag t) j mid st"
    "run_halts ag (run_enabled ag) (run_server_tools ag) j mid st all run"
    "evs = RunStarted # all @ [RunFinished run]"
    using agent_run_stream_done [OF assms [unfolded True]] by metis
  note bound = halts_bound [OF *(2)]
  show thesis
  proof (cases "all = mid")
    case True
    with * bound show thesis by (intro that [OF *(1), of "[RunFinished run]" "[]"]) simp_all
  next
    case False
    with halts_events [OF *(2)] obtain sevs where "all = mid @ ModelStepStarted j # map (ModelEvent j) sevs"
      by blast
    with * bound False show thesis by (intro that [OF *(1), of "[RunFinished run]" sevs]) auto
  qed
next
  case False
  obtain j mid st sevs oc where *:
    "run_reaches ag (run_enabled ag) (run_server_tools ag) (initial_run_state ag t) j mid st"
    "j < unat (max_iterations (as_limits (ag_spec ag)))"
    "step_outcome ag (run_enabled ag) (run_server_tools ag) j st = (sevs, oc)"
    "evs = RunStarted # mid @ ModelStepStarted j # sevs"
    using agent_run_stream_stuck [OF assms False] by metis
  from step_outcome_events [OF *(3)] obtain ms where "sevs = map (ModelEvent j) ms" by blast
  with * show thesis by (intro that [OF *(1), of "[]" ms]) auto
qed

lemma tagged_append:
  "tagged cur (xs @ ys) \<longleftrightarrow> tagged cur xs \<and>
     tagged (case started_steps xs of [] \<Rightarrow> cur | ss \<Rightarrow> Some (last ss)) ys"
proof (induction xs arbitrary: cur)
  case Nil
  then show ?case by (simp add: started_steps_def)
next
  case (Cons x xs)
  show ?case
    by (cases x; cases "started_steps xs")
      (simp_all add: Cons started_steps_def)
qed

lemma tagged_map_model [simp]: "tagged cur (map (ModelEvent i) evs) \<longleftrightarrow> evs = [] \<or> cur = Some i"
  by (induction evs) auto

lemma tagged_tool_events [simp]:
  "tagged cur (map ClientToolStarted calls)" "tagged cur (map completion_event cs)"
  by (induction calls, simp_all) (induction cs, auto)

lemma reaches_tagged:
  "run_reaches ag enabled server st0 j evs st \<Longrightarrow> tagged None evs"
proof (induction rule: run_reaches.induct)
  case (continue i evs st sevs step)
  then show ?case by (auto simp: tagged_append dest!: step_outcome_events)
next
  case (client_tools i evs st sevs step tevs st')
  from step_outcome_events [OF client_tools.hyps(2)] client_tools_step_events [OF client_tools.hyps(4)]
    client_tools.IH
  show ?case by (auto simp: tagged_append)
qed simp

lemma started_steps_simps [simp]:
  "started_steps [] = []"
  "started_steps (ev # evs) = (case event_started_step ev of None \<Rightarrow> [] | Some r \<Rightarrow> [r]) @ started_steps evs"
  "started_steps (xs @ ys) = started_steps xs @ started_steps ys"
  by (simp_all add: started_steps_def split: option.splits)

lemma started_steps_model [simp]: "started_steps (map (ModelEvent i) evs) = []"
  by (simp add: started_steps_def)

text \<open>
  C7: The loop is bounded and its ordinals are right: whatever the backend does, the steps that
  are started are \<open>0, 1, ..., k - 1\<close> for some \<open>k\<close> of at most \<open>max_iterations\<close>, and every model event
  is reported under the ordinal of the step that was started last.
\<close>

theorem agent_run_bounded:
  "\<exists>k. started_steps (fst (agent_run_stream ag t)) = [0..<k]
     \<and> k \<le> unat (max_iterations (as_limits (ag_spec ag)))
     \<and> tagged None (fst (agent_run_stream ag t))"
proof -
  obtain evs ending where run: "agent_run_stream ag t = (evs, ending)" by force
  obtain j mid st sevs fin where *:
    "run_reaches ag (run_enabled ag) (run_server_tools ag) (initial_run_state ag t) j mid st"
    "evs = RunStarted # mid @ fin \<and> j \<le> unat (max_iterations (as_limits (ag_spec ag)))
     \<or> evs = RunStarted # mid @ ModelStepStarted j # map (ModelEvent j) sevs @ fin
       \<and> j < unat (max_iterations (as_limits (ag_spec ag)))"
    "fin = [] \<or> (\<exists>run. fin = [RunFinished run])"
    using agent_run_stream_events [OF run] .
  have fin: "started_steps fin = []" "tagged cur fin" for cur using *(3) by auto
  note reach = reaches_started_steps [OF *(1)] reaches_tagged [OF *(1)]
  from *(2) show ?thesis
  proof
    assume "evs = RunStarted # mid @ fin \<and> j \<le> unat (max_iterations (as_limits (ag_spec ag)))"
    with run reach fin show ?thesis by (intro exI [of _ j]) (simp add: tagged_append)
  next
    assume "evs = RunStarted # mid @ ModelStepStarted j # map (ModelEvent j) sevs @ fin
       \<and> j < unat (max_iterations (as_limits (ag_spec ag)))"
    with run reach fin show ?thesis by (intro exI [of _ "Suc j"]) (simp add: tagged_append)
  qed
qed

section \<open>What a configuration records\<close>

lemma record_step_simps [simp]:
  "run_transcript (record_step p i k out st) = run_transcript st"
  "run_trace (record_step p i k out st) = append_step_trace (run_trace st) out"
  "run_model_steps (record_step p i k out st) = run_model_steps st @ [model_step_trace_of i k p out]"
  "run_usage (record_step p i k out st) = run_usage st @ mso_usage out"
  "run_last_model_id (record_step p i k out st) = Some (mso_model_id out)"
  "run_final_continuation (record_step p i k out st) = continuation_of out"
  by (simp_all add: record_step_def)

lemma continue_step_simps [simp]:
  "run_transcript (continue_step p i out st) = append_assistant_step (run_transcript st) out"
  "run_trace (continue_step p i out st) = append_step_trace (run_trace st) out"
  "run_model_steps (continue_step p i out st) = run_model_steps st @ [model_step_trace_of i Continue p out]"
  "run_usage (continue_step p i out st) = run_usage st @ mso_usage out"
  by (simp_all add: continue_step_def Let_def)

lemma client_tools_step_state:
  assumes "client_tools_step ag enabled i out st = (tevs, st')"
  shows "run_transcript st' = transcript_push (append_assistant_step (run_transcript st) out)
      \<lparr>tt_role = User, tt_blocks = concat (map completion_blocks (execute_client_tool_calls
         (ag_show_tool_error ag) enabled (ag_executor ag) i (client_tool_calls out))), tt_metadata = JNull\<rparr>"
    "run_trace st' = append_step_trace (run_trace st) out @ map completion_trace
       (execute_client_tool_calls (ag_show_tool_error ag) enabled (ag_executor ag) i (client_tool_calls out))"
    "run_model_steps st' = run_model_steps st
       @ [model_step_trace_of i ClientTools (backend_name (ag_backend ag)) out]"
    "run_usage st' = run_usage st @ mso_usage out"
  using assms by (auto simp: client_tools_step_def Let_def)

lemma final_step_state:
  assumes "final_step p i out st = (answer, st')"
  shows "run_transcript st' = transcript_push (run_transcript st)
      \<lparr>tt_role = Assistant, tt_blocks = answer_blocks out, tt_metadata = JNull\<rparr>"
    "answer = answer_from_content (answer_blocks out)"
    "run_trace st' = append_step_trace (run_trace st) out"
    "run_model_steps st' = run_model_steps st @ [model_step_trace_of i Final p out]"
    "run_usage st' = run_usage st @ mso_usage out"
  using assms by (auto simp: final_step_def Let_def)

lemma initial_run_state_simps [simp]:
  "run_transcript (initial_run_state ag t) = prepare_transcript (ag_spec ag) t"
  "run_trace (initial_run_state ag t) = []" "run_model_steps (initial_run_state ag t) = []"
  "run_usage (initial_run_state ag t) = []"
  by (simp_all add: initial_run_state_def)

lemma finish_run_simps [simp]:
  "ar_outcome (finish_run oc st) = oc" "ar_transcript (finish_run oc st) = run_transcript st"
  "ar_trace (finish_run oc st) = run_trace st" "ar_model_steps (finish_run oc st) = run_model_steps st"
  "ar_usage (finish_run oc st) = run_usage st"
  by (simp_all add: finish_run_def)

definition step_ordinal :: "nat \<Rightarrow> int" where
  "step_ordinal i = min (int i) (2 ^ 31 - 1)"

lemma model_step_trace_of_simps [simp]:
  "mst_ordinal (model_step_trace_of i k p out) = step_ordinal i"
  "mst_kind (model_step_trace_of i k p out) = k"
  "mst_provider (model_step_trace_of i k p out) = p"
  by (simp_all add: model_step_trace_of_def step_ordinal_def)

lemma reaches_model_steps:
  assumes "run_reaches ag enabled server st0 j evs st" "run_model_steps st0 = []"
  shows "map mst_ordinal (run_model_steps st) = map step_ordinal [0..<j]
    \<and> Final \<notin> mst_kind ` set (run_model_steps st)"
  using assms
proof (induction rule: run_reaches.induct)
  case (client_tools i evs st sevs step tevs st')
  then show ?case by (simp add: client_tools_step_state [OF client_tools.hyps(4)])
qed simp_all

text \<open>The usage of the steps that were recorded.\<close>

lemma usage_before_append: "usage_before k (xs @ ys) = usage_before k xs @ usage_before k ys"
  by (simp add: usage_before_def)

lemma usage_before_model:
  "usage_before k (map (ModelEvent i) evs) = (if i < k then List.map_filter event_usage evs else [])"
  by (induction evs) (auto simp: usage_before_def split: option.splits)

lemma usage_before_simps [simp]:
  "usage_before k [] = []" "usage_before k (ModelStepStarted i # evs) = usage_before k evs"
  "usage_before k (RunStarted # evs) = usage_before k evs"
  "usage_before k (RunFinished run # evs) = usage_before k evs"
  "usage_before k (map ClientToolStarted calls) = []" "usage_before k (map completion_event cs) = []"
  by (simp_all add: usage_before_def)

lemma step_outcome_usage:
  fixes ag :: "('be, 'te, 'je) agent"
  assumes "step_outcome ag enabled server i st = (sevs, StepCollected step)"
  shows "usage_before k sevs = (if i < k then mso_usage (ms_output step) else [])"
proof -
  from step_outcome_collected [OF assms] obtain evs c where "sevs = map (ModelEvent i) evs"
    "push_all evs = (Inr c :: 'je collector_failure + _)" "collector_finish (ag_parse ag) c = Inr step" .
  then show ?thesis by (simp add: usage_before_model collected_usage)
qed

lemma reaches_usage:
  assumes "run_reaches ag enabled server st0 j evs st" "run_usage st0 = []" "j \<le> k"
  shows "run_usage st = usage_before k evs"
  using assms
proof (induction rule: run_reaches.induct)
  case (continue i evs st sevs step)
  then show ?case by (simp add: usage_before_append step_outcome_usage [OF continue.hyps(2)])
next
  case (client_tools i evs st sevs step tevs st')
  then show ?case
    by (simp add: usage_before_append step_outcome_usage [OF client_tools.hyps(2)]
        client_tools_step_state [OF client_tools.hyps(4)] client_tools_step_events [OF client_tools.hyps(4)])
qed simp

lemma agent_run_finished:
  assumes "run \<in> set (finished_runs (fst (agent_run_stream ag t)))"
  obtains j mid st all where
    "run_reaches ag (run_enabled ag) (run_server_tools ag) (initial_run_state ag t) j mid st"
    "run_halts ag (run_enabled ag) (run_server_tools ag) j mid st all run"
    "fst (agent_run_stream ag t) = RunStarted # all @ [RunFinished run]"
proof -
  obtain evs ending where run: "agent_run_stream ag t = (evs, ending)" by force
  with assms stream_stuck_finished_runs [OF run] have ending: "ending = StreamDone" by force
  obtain j mid st all run' where *:
    "run_reaches ag (run_enabled ag) (run_server_tools ag) (initial_run_state ag t) j mid st"
    "run_halts ag (run_enabled ag) (run_server_tools ag) j mid st all run'"
    "evs = RunStarted # all @ [RunFinished run']"
    using agent_run_stream_done [OF run [unfolded ending]] by metis
  have "finished_runs all = []"
    using halts_events [OF *(2)] reaches_finished_runs [OF *(1)] by auto
  with assms run *(3) have "run' = run" by auto
  with * run show thesis by (intro that [of j mid st all]) simp_all
qed

definition last_kind_final :: "model_step_trace list \<Rightarrow> bool" where
  "last_kind_final steps \<longleftrightarrow> steps \<noteq> [] \<and> mst_kind (last steps) = Final"

lemma step_outcome_deadline_timeout:
  "step_outcome ag enabled server i st = (sevs, StepTimedOut) \<Longrightarrow>
   text_generation_timeout (as_limits (ag_spec ag)) \<noteq> None"
  unfolding step_outcome_def Let_def using consume_step_timeout by blast

text \<open>
  C3: The outcome of a finished run agrees with its audit trail. The recorded steps have the ordinals
  0, 1, ... (clamped to the range of \<open>i32\<close>), and only the last one can be final. \<open>Completed\<close> means
  that the last started step was recorded as final and its answer is the last turn of the transcript;
  \<open>IterationLimit\<close> that exactly \<open>max_iterations\<close> steps were taken, none of them final; \<open>Failed\<close> is the
  text generation timeout, during a further step that is not recorded. A run never ends as \<open>Cancelled\<close>.
\<close>

theorem agent_run_outcome:
  "list_all (\<lambda>run.
     map mst_ordinal (ar_model_steps run) = map step_ordinal [0..<length (ar_model_steps run)]
     \<and> Final \<notin> mst_kind ` set (butlast (ar_model_steps run))
     \<and> (case ar_outcome run of
          Completed answer \<Rightarrow>
            last_kind_final (ar_model_steps run)
            \<and> length (started_steps (fst (agent_run_stream ag t))) = length (ar_model_steps run)
            \<and> answer = answer_from_content (aa_blocks answer)
            \<and> last (t_turns (ar_transcript run))
                = \<lparr>tt_role = Assistant, tt_blocks = aa_blocks answer, tt_metadata = JNull\<rparr>
        | IterationLimit n \<Rightarrow>
            \<not> last_kind_final (ar_model_steps run) \<and> n = max_iterations (as_limits (ag_spec ag))
            \<and> length (ar_model_steps run) = unat n
            \<and> length (started_steps (fst (agent_run_stream ag t))) = unat n
        | Failed err partial \<Rightarrow>
            \<not> last_kind_final (ar_model_steps run) \<and> partial = None
            \<and> err = AgentErrorModel (timeout_message (as_limits (ag_spec ag)))
            \<and> text_generation_timeout (as_limits (ag_spec ag)) \<noteq> None
            \<and> length (started_steps (fst (agent_run_stream ag t))) = Suc (length (ar_model_steps run))
        | Cancelled _ \<Rightarrow> False))
   (finished_runs (fst (agent_run_stream ag t)))"
  (is "list_all ?P _")
  unfolding list_all_iff
proof (intro ballI)
  fix run
  assume run: "run \<in> set (finished_runs (fst (agent_run_stream ag t)))"
  obtain j mid st all where reach:
    "run_reaches ag (run_enabled ag) (run_server_tools ag) (initial_run_state ag t) j mid st"
    and halts: "run_halts ag (run_enabled ag) (run_server_tools ag) j mid st all run"
    and evs: "fst (agent_run_stream ag t) = RunStarted # all @ [RunFinished run]"
    using agent_run_finished [OF run] .
  have steps: "map mst_ordinal (run_model_steps st) = map step_ordinal [0..<j]"
    "Final \<notin> mst_kind ` set (run_model_steps st)"
    using reaches_model_steps [OF reach] by simp_all
  from steps(1) have len: "length (run_model_steps st) = j" by (metis length_map diff_zero length_upt)
  from steps(2) have nofinal: "\<not> last_kind_final (run_model_steps st)"
    unfolding last_kind_final_def by (metis image_eqI last_in_set)
  have started: "started_steps mid = [0..<j]" by (rule reaches_started_steps [OF reach])
  have butl: "Final \<notin> mst_kind ` set (butlast (run_model_steps st))"
    using steps(2) by (auto dest: in_set_butlastD)
  show "?P run"
    using halts
  proof (cases rule: run_halts.cases)
    case limit
    then show ?thesis using steps(1) len nofinal butl evs started by simp
  next
    case (final sevs step answer st')
    from step_outcome_events [OF final(4)] have "started_steps sevs = []" by auto
    then show ?thesis
      using final steps len evs started
      by (simp add: final_step_state [OF final(6)] last_kind_final_def answer_from_content_def)
  next
    case (timeout sevs)
    from step_outcome_events [OF timeout(4)] have "started_steps sevs = []" by auto
    then show ?thesis
      using timeout steps len nofinal butl evs started step_outcome_deadline_timeout [OF timeout(4)] by simp
  qed
qed

text \<open>
  Usage is accounted for exactly once. The usage of a finished run is, in order, the usage records
  streamed in its recorded steps: all of those the stream reported, unless the run timed out, when the
  records of the unfinished last step are left out.
\<close>

theorem agent_run_usage:
  "list_all (\<lambda>run. ar_usage run = usage_before (length (ar_model_steps run)) (fst (agent_run_stream ag t)))
     (finished_runs (fst (agent_run_stream ag t)))"
  unfolding list_all_iff
proof (intro ballI)
  fix run
  assume run: "run \<in> set (finished_runs (fst (agent_run_stream ag t)))"
  obtain j mid st all where reach:
    "run_reaches ag (run_enabled ag) (run_server_tools ag) (initial_run_state ag t) j mid st"
    and halts: "run_halts ag (run_enabled ag) (run_server_tools ag) j mid st all run"
    and evs: "fst (agent_run_stream ag t) = RunStarted # all @ [RunFinished run]"
    using agent_run_finished [OF run] .
  have "map mst_ordinal (run_model_steps st) = map step_ordinal [0..<j]"
    using reaches_model_steps [OF reach] by simp
  then have len: "length (run_model_steps st) = j" by (metis length_map diff_zero length_upt)
  have usage: "run_usage st = usage_before k mid" if "j \<le> k" for k
    using reaches_usage [OF reach _ that] by simp
  show "ar_usage run = usage_before (length (ar_model_steps run)) (fst (agent_run_stream ag t))"
    using halts
  proof (cases rule: run_halts.cases)
    case limit
    then show ?thesis using usage len evs by (simp add: usage_before_append)
  next
    case (final sevs step answer st')
    then show ?thesis
      using usage [of "Suc j"] len evs step_outcome_usage [OF final(4), of "Suc j"]
      by (simp add: usage_before_append final_step_state [OF final(6)])
  next
    case (timeout sevs)
    from step_outcome_events [OF timeout(4)] obtain ms where "sevs = map (ModelEvent j) ms" by blast
    then show ?thesis using usage len evs timeout by (simp add: usage_before_append usage_before_model)
  qed
qed

section \<open>The transcript\<close>

definition turn_calls :: "transcript_turn \<Rightarrow> string list" where
  "turn_calls turn = List.map_filter
     (\<lambda>b. case b of BlockClientToolCall c \<Rightarrow> Some (ctc_id c) | _ \<Rightarrow> None) (tt_blocks turn)"

definition turn_results :: "transcript_turn \<Rightarrow> string list" where
  "turn_results turn = List.map_filter
     (\<lambda>b. case b of BlockClientToolResult r \<Rightarrow> Some (ctr_tool_use_id r) | _ \<Rightarrow> None) (tt_blocks turn)"

text \<open>
  The turns a run appends after the turn \<open>prev\<close>: model turns carry no results, and the results
  of a user turn answer the calls of the turn before it, one for one and in order.
\<close>

fun answered_turns :: "transcript_turn option \<Rightarrow> transcript_turn list \<Rightarrow> bool" where
  "answered_turns prev [] = True"
| "answered_turns prev (turn # turns) =
     ((case tt_role turn of
         Assistant \<Rightarrow> turn_results turn = []
       | User \<Rightarrow> turn_calls turn = []
           \<and> (turn_results turn = [] \<or> (case prev of None \<Rightarrow> False | Some p \<Rightarrow>
                tt_role p = Assistant \<and> turn_results turn = turn_calls p))
       | _ \<Rightarrow> False)
      \<and> answered_turns (Some turn) turns)"

lemma answered_turns_append:
  "answered_turns prev (xs @ ys) \<longleftrightarrow>
   answered_turns prev xs \<and> answered_turns (if xs = [] then prev else Some (last xs)) ys"
  by (induction prev xs rule: answered_turns.induct) auto

lemma map_filter_calls:
  "List.map_filter (\<lambda>b. case b of BlockClientToolCall c \<Rightarrow> Some (ctc_id c) | _ \<Rightarrow> None) bs
   = map ctc_id (List.map_filter (\<lambda>b. case b of BlockClientToolCall c \<Rightarrow> Some c | _ \<Rightarrow> None) bs)"
proof (induction bs)
  case (Cons b bs)
  then show ?case by (cases b) simp_all
qed simp

lemma turn_calls_step:
  "turn_calls \<lparr>tt_role = r, tt_blocks = transcript_blocks out, tt_metadata = m\<rparr>
   = map ctc_id (client_tool_calls out)"
  by (simp add: turn_calls_def map_filter_calls calls_in_transcript_blocks)

lemma turn_results_step:
  "turn_results \<lparr>tt_role = r, tt_blocks = transcript_blocks out, tt_metadata = m\<rparr> = []"
proof -
  have "List.map_filter (\<lambda>b. case b of BlockClientToolResult r \<Rightarrow> Some (ctr_tool_use_id r) | _ \<Rightarrow> None)
      (map into_content_block bs) = []" for bs
  proof (induction bs)
    case (Cons b bs)
    then show ?case by (cases b) simp_all
  qed simp
  then show ?thesis by (simp add: turn_results_def transcript_blocks_def)
qed

lemma turn_results_answer:
  "turn_results \<lparr>tt_role = r, tt_blocks = answer_blocks out, tt_metadata = m\<rparr> = []"
proof -
  have "List.map_filter (\<lambda>b. case b of BlockClientToolResult r \<Rightarrow> Some (ctr_tool_use_id r) | _ \<Rightarrow> None)
      (List.map_filter answer_block bs) = []" for bs
  proof (induction bs)
    case (Cons b bs)
    then show ?case by (cases b) simp_all
  qed simp
  then show ?thesis by (simp add: turn_results_def answer_blocks_def)
qed

lemma turn_of_completions:
  "turn_results \<lparr>tt_role = r, tt_blocks = concat (map completion_blocks cs), tt_metadata = m\<rparr>
     = map (\<lambda>(res, _, _). ctr_tool_use_id res) cs"
  "turn_calls \<lparr>tt_role = r, tt_blocks = concat (map completion_blocks cs), tt_metadata = m\<rparr> = []"
  by (induction cs) (auto simp: turn_results_def turn_calls_def)

lemma calls_empty: "transcript_blocks out = [] \<Longrightarrow> client_tool_calls out = []"
  by (metis calls_in_transcript_blocks map_filter_Nil)

text \<open>\<open>extends base t\<close>: \<open>t\<close> is \<open>base\<close> with answered turns appended.\<close>

definition extends :: "transcript \<Rightarrow> transcript \<Rightarrow> bool" where
  "extends base t \<longleftrightarrow> t_id t = t_id base
     \<and> take (length (t_turns base)) (t_turns t) = t_turns base
     \<and> answered_turns None (drop (length (t_turns base)) (t_turns t))"

lemma extendsI:
  "t_id t = t_id base \<Longrightarrow> t_turns t = t_turns base @ added \<Longrightarrow> answered_turns None added \<Longrightarrow> extends base t"
  by (simp add: extends_def)

lemma extendsE:
  assumes "extends base t"
  obtains added where "t_id t = t_id base" "t_turns t = t_turns base @ added" "answered_turns None added"
  using assms unfolding extends_def by (metis append_take_drop_id)

lemma extends_refl [simp]: "extends base base"
  by (rule extendsI [of _ _ "[]"]) simp_all

lemma extends_push:
  assumes "extends base t" and "\<And>prev. answered_turns prev [turn]"
  shows "extends base (transcript_push t turn)"
proof -
  from assms(1) obtain added where
    "t_id t = t_id base" "t_turns t = t_turns base @ added" "answered_turns None added" by (rule extendsE)
  with assms(2) show ?thesis
    by (intro extendsI [of _ _ "added @ [turn]"]) (simp_all add: answered_turns_append)
qed

lemma extends_assistant_step:
  "extends base t \<Longrightarrow> extends base (append_assistant_step t out)"
  by (auto simp: append_assistant_step_def Let_def turn_results_step intro!: extends_push)

lemma extends_client_tools:
  assumes "extends base t" "map (\<lambda>(res, _, _). ctr_tool_use_id res) cs = map ctc_id (client_tool_calls out)"
  shows "extends base (transcript_push (append_assistant_step t out)
     \<lparr>tt_role = User, tt_blocks = concat (map completion_blocks cs), tt_metadata = JNull\<rparr>)"
proof (cases "transcript_blocks out = []")
  case True
  with assms show ?thesis
    by (auto simp: append_assistant_step_def calls_empty turn_results_def turn_calls_def intro!: extends_push)
next
  case False
  from assms(1) obtain added where *:
    "t_id t = t_id base" "t_turns t = t_turns base @ added" "answered_turns None added" by (rule extendsE)
  let ?a = "\<lparr>tt_role = Assistant, tt_blocks = transcript_blocks out, tt_metadata = JNull\<rparr>"
  let ?u = "\<lparr>tt_role = User, tt_blocks = concat (map completion_blocks cs), tt_metadata = JNull\<rparr>"
  from False * have "t_turns (transcript_push (append_assistant_step t out) ?u) = t_turns base @ (added @ [?a, ?u])"
    by (simp add: append_assistant_step_def)
  moreover have "answered_turns None (added @ [?a, ?u])"
    by (simp add: answered_turns_append * turn_results_step turn_calls_step turn_of_completions assms(2))
  moreover have "t_id (transcript_push (append_assistant_step t out) ?u) = t_id base"
    using * by (simp add: append_assistant_step_def Let_def)
  ultimately show ?thesis by (intro extendsI)
qed

lemma reaches_extends:
  "run_reaches ag enabled server st0 j evs st \<Longrightarrow> extends (run_transcript st0) (run_transcript st)"
proof (induction rule: run_reaches.induct)
  case (continue i evs st sevs step)
  then show ?case by (simp add: extends_assistant_step)
next
  case (client_tools i evs st sevs step tevs st')
  then show ?case
    by (simp add: client_tools_step_state [OF client_tools.hyps(4)] extends_client_tools
        execute_client_tool_calls_ids)
qed simp

lemma finished_extends:
  assumes "run \<in> set (finished_runs (fst (agent_run_stream ag t)))"
  shows "extends (prepare_transcript (ag_spec ag) t) (ar_transcript run)"
proof -
  obtain j mid st all where reach:
    "run_reaches ag (run_enabled ag) (run_server_tools ag) (initial_run_state ag t) j mid st"
    and halts: "run_halts ag (run_enabled ag) (run_server_tools ag) j mid st all run"
    using agent_run_finished [OF assms] .
  have st: "extends (prepare_transcript (ag_spec ag) t) (run_transcript st)"
    using reaches_extends [OF reach] by simp
  show ?thesis
    using halts
  proof (cases rule: run_halts.cases)
    case (final sevs step answer st')
    with st show ?thesis
      by (auto simp: final_step_state [OF final(6)] turn_results_answer intro!: extends_push)
  qed (use st in simp_all)
qed


lemma answered_turns_unmarked:
  "answered_turns prev turns \<Longrightarrow> \<not> list_ex is_agent_instructions_turn turns"
  by (induction prev turns rule: answered_turns.induct)
    (auto simp: is_agent_instructions_turn_def split: turn_role.splits)

lemma prepare_marked:
  "list_ex is_agent_instructions_turn (t_turns t) \<Longrightarrow> prepare_transcript spec t = t"
  by (simp add: prepare_transcript_def)

lemma prepare_prepared:
  "list_ex is_agent_instructions_turn (t_turns (prepare_transcript spec t)) \<or> prompt_turns spec (t_id t) = []"
  using prompt_turns_marked [of _ spec "t_id t"]
  by (cases "prompt_turns spec (t_id t)") (auto simp: prepare_transcript_def)


section \<open>Client tools\<close>

definition tool_allowed :: "agent_spec \<Rightarrow> 'e client_tool_executor \<Rightarrow> tool_name \<Rightarrow> bool" where
  "tool_allowed spec ex name \<longleftrightarrow>
     name \<in> ctd_name ` set (tools ex)
     \<and> (case as_client_tools spec of None \<Rightarrow> True | Some enabled \<Rightarrow> name \<in> set enabled)"

lemma tool_allowed_iff: "btm_contains (enabled_tool_specs spec ex) name \<longleftrightarrow> tool_allowed spec ex name"
  using tool_specs_contains [of "tools ex" name]
  by (auto simp: btm_contains_iff enabled_tool_specs_get tool_allowed_def split: if_splits)

text \<open>The executor that answers tools outside the allowed ones in any way one likes.\<close>

definition override_disallowed ::
  "agent_spec \<Rightarrow> (moment \<Rightarrow> client_tool_call \<Rightarrow> 'e client_tool_executor_error + client_tool_output)
    \<Rightarrow> 'e client_tool_executor \<Rightarrow> 'e client_tool_executor" where
  "override_disallowed spec other ex =
     ex\<lparr>execute := \<lambda>m call. if tool_allowed spec ex (ctc_name call) then execute ex m call else other m call\<rparr>"

lemma consume_step_executor:
  "consume_step (ag\<lparr>ag_executor := ex\<rparr>) i dl c items fin = consume_step ag i dl c items fin"
proof (induction items arbitrary: dl c)
  case Nil
  then show ?case by (simp split: option.splits sum.splits)
next
  case (Cons it rest)
  have "next_deadline (ag\<lparr>ag_executor := ex\<rparr>) = next_deadline ag" by (simp add: next_deadline_def fun_eq_iff)
  with Cons show ?case by (cases it) (simp add: Let_def split: sum.splits)
qed

lemma run_iterations_executor:
  assumes "\<And>m call. btm_contains en (ctc_name call) \<Longrightarrow> execute ex m call = execute (ag_executor ag) m call"
  shows "run_iterations (ag\<lparr>ag_executor := ex\<rparr>) en server n i st = run_iterations ag en server n i st"
proof -
  have tools: "client_tools_step (ag\<lparr>ag_executor := ex\<rparr>) en = client_tools_step ag en"
    using execute_client_tool_calls_cong [of en ex "ag_executor ag"] assms
    by (simp add: client_tools_step_def fun_eq_iff Let_def)
  have outcome: "step_outcome (ag\<lparr>ag_executor := ex\<rparr>) = step_outcome ag"
    by (simp add: step_outcome_def fun_eq_iff consume_step_executor step_request_def)
  show ?thesis
  proof (induction n arbitrary: i st)
    case (Suc n)
    have "run_iterations (ag\<lparr>ag_executor := ex\<rparr>) en server n = run_iterations ag en server n"
      using Suc by (simp add: fun_eq_iff)
    moreover have "ag_spec (ag\<lparr>ag_executor := ex\<rparr>) = ag_spec ag"
      "ag_backend (ag\<lparr>ag_executor := ex\<rparr>) = ag_backend ag" by simp_all
    ultimately show ?case by (simp only: run_iterations_Suc tools outcome)
  qed simp
qed

text \<open>
  C6: A disabled tool is never executed. A run behaves the same, event for event, whatever the executor
  would do with a call to a tool that the executor does not declare or that the agent's specification
  does not enable: such a call never reaches it.
\<close>

theorem agent_run_disallowed_tools:
  "agent_run_stream (ag\<lparr>ag_executor := override_disallowed (ag_spec ag) other (ag_executor ag)\<rparr>) t
   = agent_run_stream ag t"
proof -
  let ?ex = "override_disallowed (ag_spec ag) other (ag_executor ag)"
  have en: "enabled_tool_specs (ag_spec ag) ?ex = run_enabled ag"
    by (simp add: enabled_tool_specs_def override_disallowed_def)
  have "run_iterations (ag\<lparr>ag_executor := ?ex\<rparr>) (run_enabled ag) server n i st
      = run_iterations ag (run_enabled ag) server n i st" for server n i st
    by (rule run_iterations_executor) (simp add: override_disallowed_def tool_allowed_iff)
  then show ?thesis
    by (simp add: agent_run_stream_def en initial_run_state_def)
qed

definition client_traces :: "tool_trace list \<Rightarrow> client_tool_trace list" where
  "client_traces = List.map_filter (\<lambda>tr. case tr of TraceClient c \<Rightarrow> Some c | _ \<Rightarrow> None)"

definition turns_tool_results :: "transcript_turn list \<Rightarrow> client_tool_result list" where
  "turns_tool_results turns = List.map_filter
     (\<lambda>b. case b of BlockClientToolResult r \<Rightarrow> Some r | _ \<Rightarrow> None) (concat (map tt_blocks turns))"

lemma client_traces_append: "client_traces (xs @ ys) = client_traces xs @ client_traces ys"
  by (simp add: client_traces_def)

lemma client_traces_step: "client_traces (append_step_trace tr out) = client_traces tr"
  by (simp add: append_step_trace_def client_traces_def)

lemma client_traces_completions:
  "client_traces (map completion_trace cs) = map (\<lambda>(_, tr, _). tr) cs"
  by (induction cs) (auto simp: client_traces_def)

lemma turns_tool_results_append:
  "turns_tool_results (xs @ ys) = turns_tool_results xs @ turns_tool_results ys"
  by (simp add: turns_tool_results_def)

lemma tool_results_no_calls:
  "List.map_filter (\<lambda>b. case b of BlockClientToolResult r \<Rightarrow> Some r | _ \<Rightarrow> None) (map into_content_block bs) = []"
  "List.map_filter (\<lambda>b. case b of BlockClientToolResult r \<Rightarrow> Some r | _ \<Rightarrow> None)
     (List.map_filter answer_block bs) = []"
proof -
  show "List.map_filter (\<lambda>b. case b of BlockClientToolResult r \<Rightarrow> Some r | _ \<Rightarrow> None)
      (map into_content_block bs) = []"
  proof (induction bs)
    case (Cons b bs)
    then show ?case by (cases b) simp_all
  qed simp
  show "List.map_filter (\<lambda>b. case b of BlockClientToolResult r \<Rightarrow> Some r | _ \<Rightarrow> None)
     (List.map_filter answer_block bs) = []"
  proof (induction bs)
    case (Cons b bs)
    then show ?case by (cases b) simp_all
  qed simp
qed

lemma turns_tool_results_step:
  "turns_tool_results (t_turns (append_assistant_step t out)) = turns_tool_results (t_turns t)"
  by (auto simp: append_assistant_step_def Let_def turns_tool_results_def transcript_blocks_def
      tool_results_no_calls)

lemma turns_tool_results_completions:
  "turns_tool_results [\<lparr>tt_role = r, tt_blocks = concat (map completion_blocks cs), tt_metadata = m\<rparr>]
   = map (\<lambda>(res, _, _). res) cs"
  by (induction cs) (auto simp: turns_tool_results_def)

lemma execute_client_tool_calls_trace:
  "map (\<lambda>(_, tr, _). ctt_call tr) (execute_client_tool_calls show_e en ex it calls) = calls"
  "map (\<lambda>(_, tr, _). ctt_result tr) (execute_client_tool_calls show_e en ex it calls)
   = map (\<lambda>(res, _, _). res) (execute_client_tool_calls show_e en ex it calls)"
  by (auto simp: execute_client_tool_calls_def complete_call_def Let_def comp_def split_beta
      intro!: nth_equalityI simp: nth_enumerate_eq)

text \<open>Started calls, audit records and transcript results move together.\<close>

definition tools_agree :: "agent_run_event list \<Rightarrow> tool_trace list \<Rightarrow> bool" where
  "tools_agree evs trace \<longleftrightarrow>
     List.map_filter event_tool_trace evs = client_traces trace
     \<and> List.map_filter event_tool_started evs = map ctt_call (client_traces trace)"

lemma tool_events_views:
  "List.map_filter event_tool_trace (map completion_event cs) = map (\<lambda>(_, tr, _). tr) cs"
  "List.map_filter event_tool_started (map completion_event cs) = []"
  "List.map_filter event_tool_trace (map ClientToolStarted calls) = []"
  "List.map_filter event_tool_started (map ClientToolStarted calls) = calls"
  by (induction cs) (auto simp: map_idI)

lemma tools_agree_simps [simp]:
  "tools_agree [] []"
  "tools_agree (evs @ ModelStepStarted i # map (ModelEvent i) ms) tr = tools_agree evs tr"
  "tools_agree evs (append_step_trace tr out) = tools_agree evs tr"
  by (simp_all add: tools_agree_def client_traces_step)
    (simp add: client_traces_def)

lemma tools_agree_calls:
  assumes "tools_agree evs tr" "map (\<lambda>(_, t, _). ctt_call t) cs = calls"
  shows "tools_agree (evs @ ModelStepStarted i # map (ModelEvent i) ms @ map ClientToolStarted calls
      @ map completion_event cs) (append_step_trace tr out @ map completion_trace cs)"
  using assms
  by (auto simp: tools_agree_def tool_events_views client_traces_append client_traces_step
      client_traces_completions split_beta)

lemma reaches_tools:
  assumes "run_reaches ag enabled server st0 j evs st" "run_trace st0 = []"
  shows "tools_agree evs (run_trace st)
    \<and> turns_tool_results (t_turns (run_transcript st))
      = turns_tool_results (t_turns (run_transcript st0)) @ map ctt_result (client_traces (run_trace st))"
  using assms
proof (induction rule: run_reaches.induct)
  case (continue i evs st sevs step)
  then show ?case
    by (auto simp: client_traces_step turns_tool_results_step dest!: step_outcome_events)
next
  case (client_tools i evs st sevs step tevs st')
  let ?cs = "execute_client_tool_calls (ag_show_tool_error ag) enabled (ag_executor ag) i
    (client_tool_calls (ms_output step))"
  from step_outcome_events [OF client_tools.hyps(2)] obtain ms where ms: "sevs = map (ModelEvent i) ms" by blast
  note calls = execute_client_tool_calls_trace [of "ag_show_tool_error ag" enabled "ag_executor ag" i
      "client_tool_calls (ms_output step)"]
  have "tools_agree (evs @ ModelStepStarted i # sevs @ tevs) (run_trace st')"
    using tools_agree_calls [OF _ calls(1)] client_tools.IH client_tools.prems
    by (simp add: ms client_tools_step_state [OF client_tools.hyps(4)]
        client_tools_step_events [OF client_tools.hyps(4)])
  moreover have "turns_tool_results (t_turns (run_transcript st'))
      = turns_tool_results (t_turns (run_transcript st0)) @ map ctt_result (client_traces (run_trace st'))"
    using client_tools.IH client_tools.prems calls(2)
    by (simp add: client_tools_step_state [OF client_tools.hyps(4)] turns_tool_results_append
        turns_tool_results_step turns_tool_results_completions client_traces_append client_traces_step
        client_traces_completions split_beta comp_def)
  ultimately show ?case by blast
qed (simp add: client_traces_def)

text \<open>
  C5: Tool calls are audited completely. In a finished run the client traces are those of the
  \<open>ClientToolFinished\<close> events, in order; each is for the call of the corresponding
  \<open>ClientToolStarted\<close> event, so every started call finished; and the tool results that the run
  added to the transcript are the results in these traces, no more and no fewer.
\<close>

theorem agent_run_tool_audit:
  "list_all (\<lambda>run.
      List.map_filter event_tool_trace (fst (agent_run_stream ag t)) = client_traces (ar_trace run)
      \<and> List.map_filter event_tool_started (fst (agent_run_stream ag t))
         = map ctt_call (client_traces (ar_trace run))
      \<and> turns_tool_results (t_turns (ar_transcript run))
         = turns_tool_results (t_turns (prepare_transcript (ag_spec ag) t))
           @ map ctt_result (client_traces (ar_trace run)))
     (finished_runs (fst (agent_run_stream ag t)))"
  (is "list_all ?P _")
  unfolding list_all_iff
proof (intro ballI)
  fix run
  assume run: "run \<in> set (finished_runs (fst (agent_run_stream ag t)))"
  obtain j mid st all where reach:
    "run_reaches ag (run_enabled ag) (run_server_tools ag) (initial_run_state ag t) j mid st"
    and halts: "run_halts ag (run_enabled ag) (run_server_tools ag) j mid st all run"
    and evs: "fst (agent_run_stream ag t) = RunStarted # all @ [RunFinished run]"
    using agent_run_finished [OF run] .
  note st = reaches_tools [OF reach, simplified]
  show "?P run"
    using halts
  proof (cases rule: run_halts.cases)
    case limit
    then show ?thesis using st evs by (simp add: tools_agree_def)
  next
    case (final sevs step answer st')
    from step_outcome_events [OF final(4)] obtain ms where "sevs = map (ModelEvent j) ms" by blast
    then show ?thesis
      using st evs final
      by (simp add: tools_agree_def final_step_state [OF final(6)] client_traces_step
          turns_tool_results_append)
        (simp add: turns_tool_results_def answer_blocks_def tool_results_no_calls)
  next
    case (timeout sevs)
    from step_outcome_events [OF timeout(4)] obtain ms where "sevs = map (ModelEvent j) ms" by blast
    then show ?thesis using st evs timeout by (simp add: tools_agree_def)
  qed
qed

section \<open>The text generation deadline\<close>

lemma consume_step_deadline:
  assumes "consume_step ag i (Some d) c items fin = (sevs, oc)"
  shows "oc \<noteq> StepHangs \<and> length sevs \<le> length items
    \<and> list_all (\<lambda>(t, _). t \<le> d) (take (length sevs) items)"
  using assms
proof (induction items arbitrary: c sevs)
  case Nil
  then show ?case by (auto split: option.splits if_splits sum.splits)
next
  case (Cons it rest)
  obtain t item where it: "it = (t, item)" by force
  from Cons.prems [unfolded it] show ?case
  proof (cases rule: consume_step_Cons)
    case (event ev c1 sevs1)
    then have "consume_step ag i (Some d) c1 rest fin = (sevs1, oc)"
      by (simp add: next_deadline_def)
    from Cons.IH [OF this] event it show ?thesis by (simp add: past_deadline_def)
  qed auto
qed

text \<open>
  C8: Generation is bounded in time. Once a step has accepted its first generated delta, at the
  instant \<open>t0\<close>, and a timeout is configured, the step cannot hang any more, and every event it accepts
  after that arrived by the deadline \<open>t0 + timeout\<close>; later deltas do not move the deadline. (Past the
  end of the clock's range the deadline is \<open>t0\<close> itself.)
\<close>

theorem step_deadline:
  assumes "consume_step ag i None c items fin = (sevs, oc)"
    and "text_generation_timeout (as_limits (ag_spec ag)) = Some timeout"
    and "items = before @ (t0, Inr ev) # after"
    and "list_all (\<lambda>(_, item). case item of Inr e \<Rightarrow> \<not> text_generation_started e | Inl _ \<Rightarrow> True) before"
    and "text_generation_started ev" and "length before < length sevs"
  shows "oc \<noteq> StepHangs
    \<and> list_all (\<lambda>(t, _). t \<le> (if t0 + timeout \<le> ag_instant_max ag then t0 + timeout else t0))
        (take (length sevs - Suc (length before)) after)"
  using assms
proof (induction before arbitrary: c items sevs)
  case Nil
  let ?d = "text_generation_deadline_from (ag_instant_max ag) t0 timeout"
  from Nil.prems(1) [unfolded Nil.prems(3) append_Nil] show ?case
  proof (cases rule: consume_step_Cons)
    case (event ev' c1 sevs1)
    with Nil.prems have "consume_step ag i (Some ?d) c1 after fin = (sevs1, oc)"
      by (simp add: next_deadline_def)
    from consume_step_deadline [OF this] event show ?thesis
      by (simp add: text_generation_deadline_from_def)
  qed (use Nil.prems in simp_all)
next
  case (Cons b before)
  obtain t item where b: "b = (t, item)" by force
  from Cons.prems(1) [unfolded Cons.prems(3) b append_Cons] show ?case
  proof (cases rule: consume_step_Cons)
    case (event ev' c1 sevs1)
    with Cons.prems b have "consume_step ag i None c1 (before @ (t0, Inr ev) # after) fin = (sevs1, oc)"
      by (simp add: next_deadline_def)
    from Cons.IH [OF this Cons.prems(2) refl _ Cons.prems(5)] event Cons.prems(4,6) b show ?thesis by simp
  qed (use Cons.prems in simp_all)
qed

text \<open>A sample agent: one backend step that streams text, then stalls past its deadline.\<close>

definition sample_spec :: agent_spec where
  "sample_spec = (agent_spec_new [])\<lparr>as_limits := default_agent_limits\<lparr>text_generation_timeout_seconds := 1\<rparr>\<rparr>"

definition sample_items :: "(instant \<times> (string + model_step_event)) list" where
  "sample_items = [(5, Inr (Delta (DeltaText ''a'' ''x''))), (7, Inr (Delta (DeltaText ''a'' ''y''))),
     (1000000006, Inr (Finished Final ''m''))]"

definition sample_agent :: "(string, string, string) agent" where
  "sample_agent = \<lparr>ag_backend = \<lparr>backend_name = ''p'', backend_step = \<lambda>_ _. \<lparr>st_items = sample_items, st_end = None\<rparr>\<rparr>,
     ag_model = \<lparr>msp_id = ''m'', msp_server_tools = [], msp_sampling =
        \<lparr>so_max_output_tokens = None, so_temperature = None, so_top_p = None\<rparr>,
        msp_image_encoding = PublicUrl, msp_provider_options = None\<rparr>,
     ag_spec = sample_spec, ag_executor = \<lparr>tools = [], execute = \<lambda>_ c. Inl (UnknownTool (ctc_name c))\<rparr>,
     ag_show_tool_error = id, ag_parse = \<lambda>_. Inr JNull, ag_instant_max = 10 ^ 30\<rparr>"

lemma sample_timeout: "text_generation_timeout (as_limits (ag_spec sample_agent)) = Some (10 ^ 9)"
  by (simp add: sample_agent_def sample_spec_def text_generation_timeout_def duration_from_secs_def
      agent_spec_new_def default_agent_limits_def)

definition sample_collector :: "string \<Rightarrow> model_step_collector" where
  "sample_collector text = \<lparr>slots = [Pending (PendingText ''a'' text)], ids = [(''a'', PkText)], finished = None\<rparr>"

lemma sample_pushes:
  "(collector_push collector_default (Delta (DeltaText ''a'' ''x'')) :: string collector_failure + _)
     = Inr (sample_collector ''x'')"
  "(collector_push (sample_collector ''x'') (Delta (DeltaText ''a'' ''y'')) :: string collector_failure + _)
     = Inr (sample_collector ''xy'')"
  by (simp_all add: sample_collector_def collector_push_def push_delta_def collector_default_def
      pending_slot_def btm_get_def Let_def)

lemma sample_run:
  "consume_step sample_agent 0 None collector_default sample_items None
   = ([ModelEvent 0 (Delta (DeltaText ''a'' ''x'')), ModelEvent 0 (Delta (DeltaText ''a'' ''y''))], StepTimedOut)"
proof -
  have max: "ag_instant_max sample_agent = 10 ^ 30" by (simp add: sample_agent_def)
  show ?thesis
    by (simp add: sample_items_def sample_pushes next_deadline_def past_deadline_def sample_timeout
        text_generation_deadline_from_def max)
qed

lemma step_deadline_witness:
  "snd (consume_step sample_agent 0 None collector_default sample_items None) = StepTimedOut
   \<and> list_all (\<lambda>(t, _). t \<le> 1000000005) (take 1 (tl sample_items))"
  using step_deadline [OF sample_run sample_timeout, of "[]" 5 "Delta (DeltaText ''a'' ''x'')" "tl sample_items"]
  by (simp add: sample_run) (simp add: sample_items_def sample_agent_def)

lemma consume_step_hang:
  "consume_step ag i None c items fin = (sevs, StepHangs) \<Longrightarrow>
   text_generation_timeout (as_limits (ag_spec ag)) \<noteq> None \<Longrightarrow>
   fin = None \<and> (\<exists>ms. sevs = map (ModelEvent i) ms \<and> list_all (\<lambda>e. \<not> text_generation_started e) ms)"
proof (induction items arbitrary: c sevs)
  case Nil
  then show ?case by (auto split: option.splits if_splits sum.splits)
next
  case (Cons it rest)
  obtain t item where it: "it = (t, item)" by force
  from Cons.prems(1) [unfolded it] show ?case
  proof (cases rule: consume_step_Cons)
    case (event ev c1 sevs1)
    show ?thesis
    proof (cases "next_deadline ag t None ev")
      case None
      with Cons.prems(2) have "\<not> text_generation_started ev" by (auto simp: next_deadline_def split: if_splits)
      moreover from Cons.IH [OF event(4) [unfolded None] Cons.prems(2)] obtain ms where
        "fin = None" "sevs1 = map (ModelEvent i) ms" "list_all (\<lambda>e. \<not> text_generation_started e) ms" by blast
      ultimately show ?thesis using event(5) by (intro conjI exI [of _ "ev # ms"]) simp_all
    next
      case (Some d)
      from consume_step_deadline [OF event(4) [unfolded Some]] show ?thesis by simp
    qed
  qed simp_all
qed

text \<open>
  With a timeout configured, a run can only hang in front of a silent backend: the stream of the
  step it hangs in never ends, and nothing generated (no delta) has been accepted from it.
\<close>

theorem agent_run_hang:
  assumes "agent_run_stream ag t = (evs, StreamHangs)"
    and "text_generation_timeout (as_limits (ag_spec ag)) \<noteq> None"
  shows "\<exists>before j req ms. evs = before @ ModelStepStarted j # map (ModelEvent j) ms
    \<and> list_all (\<lambda>e. \<not> text_generation_started e) ms
    \<and> st_end (backend_step (ag_backend ag) j req) = None"
proof -
  obtain j mid st sevs oc where *:
    "step_outcome ag (run_enabled ag) (run_server_tools ag) j st = (sevs, oc)"
    "evs = RunStarted # mid @ ModelStepStarted j # sevs"
    "oc = StepHangs \<and> StreamHangs = (StreamHangs :: ('a, 'c) stream_end)
     \<or> (\<exists>e. oc = StepFailed e \<and> StreamHangs = StreamErr e)"
    using agent_run_stream_stuck [OF assms(1)] by (metis stream_end.distinct(3))
  let ?req = "step_request ag (run_enabled ag) (run_server_tools ag) (run_transcript st)"
  from * have "consume_step ag j None collector_default (st_items (backend_step (ag_backend ag) j ?req))
      (st_end (backend_step (ag_backend ag) j ?req)) = (sevs, StepHangs)"
    by (simp add: step_outcome_def Let_def)
  from consume_step_hang [OF this assms(2)] obtain ms where
    "st_end (backend_step (ag_backend ag) j ?req) = None" "sevs = map (ModelEvent j) ms"
    "list_all (\<lambda>e. \<not> text_generation_started e) ms" by blast
  with *(2) show ?thesis
    by (intro exI [of _ "RunStarted # mid"] exI [of _ j] exI [of _ ?req] exI [of _ ms]) simp
qed

definition silent_agent :: "(string, string, string) agent" where
  "silent_agent = sample_agent\<lparr>ag_backend :=
     \<lparr>backend_name = ''p'', backend_step = \<lambda>_ _. \<lparr>st_items = [], st_end = None\<rparr>\<rparr>\<rparr>"

lemma silent_run: "agent_run_stream silent_agent t = ([RunStarted, ModelStepStarted 0], StreamHangs)"
proof -
  obtain m where n: "unat (max_iterations (as_limits (ag_spec silent_agent))) = Suc m"
    by (simp add: silent_agent_def sample_agent_def sample_spec_def default_agent_limits_def)
  have "step_outcome silent_agent en server 0 st = ([], StepHangs)" for en server st
    by (simp add: step_outcome_def silent_agent_def)
  then show ?thesis unfolding agent_run_stream_def n Let_def by (simp add: run_iterations_Suc)
qed

lemma agent_run_hang_witness:
  "\<exists>before j req ms. [RunStarted, ModelStepStarted 0] = before @ ModelStepStarted j # map (ModelEvent j) ms
    \<and> list_all (\<lambda>e. \<not> text_generation_started e) ms
    \<and> st_end (backend_step (ag_backend silent_agent) j req) = None"
proof -
  have "text_generation_timeout (as_limits (ag_spec silent_agent)) \<noteq> None"
    using sample_timeout by (simp add: silent_agent_def)
  then show ?thesis using agent_run_hang [OF silent_run] by simp
qed

section \<open>Server tools\<close>

lemma enabled_server_tools_set:
  "set (enabled_server_tools m a) = {x \<in> set (normalized_server_tools m).
     case a of None \<Rightarrow> True | Some ts \<Rightarrow> x \<in> set (normalized_server_tools ts)}"
  by (auto simp: enabled_server_tools_def Let_def split: option.splits)

definition normal_server_tool :: "string \<Rightarrow> bool" where
  "normal_server_tool tool \<longleftrightarrow> tool \<noteq> [] \<and> trimmed tool \<and> to_ascii_lowercase tool = tool"

lemma to_ascii_lowercase_Nil [simp]: "to_ascii_lowercase s = [] \<longleftrightarrow> s = []"
  by (simp add: to_ascii_lowercase_def)

lemma normalize_server_tool_normal: "normalize_server_tool s = Some tool \<Longrightarrow> normal_server_tool tool"
  by (auto simp: normalize_server_tool_def normal_server_tool_def Let_def str_trim_trimmed trimmed_lowercase
      split: if_splits)

lemma normalize_normal: "normal_server_tool tool \<Longrightarrow> normalize_server_tool tool = Some tool"
  by (simp add: normalize_server_tool_def normal_server_tool_def Let_def trimmed_str_trim)

lemma normalized_all: "tool \<in> set (normalized_server_tools ts) \<Longrightarrow> normal_server_tool tool"
  by (auto simp: normalized_server_tools_def map_filter_def dest: normalize_server_tool_normal)

lemma enabled_server_tools_sorted: "sorted_wrt (<) (enabled_server_tools m a)"
  by (simp add: enabled_server_tools_def normalized_server_tools_def strict_sorted_bts_of_list
      sorted_wrt_filter Let_def split: option.splits)

lemma sorted_bts_of_list: "sorted_wrt (<) xs \<Longrightarrow> bts_of_list xs = xs"
  by (metis bts_of_list_def sorted_list_of_set.idem_if_sorted_distinct strict_sorted_iff)

lemma normalized_fix:
  assumes "sorted_wrt (<) xs" "\<forall>tool\<in>set xs. normal_server_tool tool"
  shows "normalized_server_tools xs = xs"
proof -
  have "List.map_filter normalize_server_tool xs = xs"
    using assms(2) by (induction xs) (simp_all add: normalize_normal)
  with assms(1) show ?thesis by (simp add: normalized_server_tools_def sorted_bts_of_list)
qed

text \<open>
  The server tools of a run are the model's tools that the agent also enables (all of them when
  the agent names none), compared by trimmed, lower-cased name. The result is a strictly ascending list
  of non-empty trimmed lower-case names, and computing it again from itself changes nothing.
\<close>

theorem enabled_server_tools_correct:
  "set (enabled_server_tools m a) = {x \<in> set (List.map_filter normalize_server_tool m).
     case a of None \<Rightarrow> True | Some ts \<Rightarrow> x \<in> set (List.map_filter normalize_server_tool ts)}
   \<and> sorted_wrt (<) (enabled_server_tools m a)
   \<and> list_all normal_server_tool (enabled_server_tools m a)
   \<and> enabled_server_tools (enabled_server_tools m a) a = enabled_server_tools m a"
proof (intro conjI)
  have all: "\<forall>tool\<in>set (enabled_server_tools m a). normal_server_tool tool"
    by (auto simp: enabled_server_tools_set dest: normalized_all)
  then show "list_all normal_server_tool (enabled_server_tools m a)" by (simp add: list_all_iff)
  show "sorted_wrt (<) (enabled_server_tools m a)" by (rule enabled_server_tools_sorted)
  show "set (enabled_server_tools m a) = {x \<in> set (List.map_filter normalize_server_tool m).
     case a of None \<Rightarrow> True | Some ts \<Rightarrow> x \<in> set (List.map_filter normalize_server_tool ts)}"
    by (simp add: enabled_server_tools_set normalized_server_tools_def cong: option.case_cong)
  have "enabled_server_tools xs a = xs" if "xs = enabled_server_tools m a" for xs
  proof -
    have "normalized_server_tools xs = xs"
      using that all enabled_server_tools_sorted by (simp add: normalized_fix)
    moreover have "filter (\<lambda>tool. tool \<in> set (normalized_server_tools ts)) xs = xs" if "a = Some ts" for ts
      using that \<open>xs = enabled_server_tools m a\<close> by (auto simp: filter_id_conv enabled_server_tools_set)
    ultimately show ?thesis by (auto simp: enabled_server_tools_def [of xs] split: option.splits)
  qed
  then show "enabled_server_tools (enabled_server_tools m a) a = enabled_server_tools m a" by simp
qed

end
