(* ===== verification/Api_Retry.thy ===== *)
theory Api_Retry
  imports Rust_Prelude
begin

text \<open>
  \<open>chudbot-api/src/retry.rs\<close>: the shared retry loop with capped exponential backoff.
  The operation is a function of the number of calls made before (it is called afresh for
  every attempt), the classification of its errors a parameter, and the loop returns the
  result together with the delays it slept, in order.
\<close>

section \<open>Policy\<close>

datatype error_class = ServerTransient | Network | Permanent

record retry_policy =
  max_attempts :: u32
  base_delay :: duration
  max_delay :: duration
  retry_network :: bool

definition default_retry_policy :: retry_policy where
  "default_retry_policy =
     \<lparr>max_attempts = 3, base_delay = duration_from_millis 500,
      max_delay = duration_from_secs 4, retry_network = True\<rparr>"

fun should_retry :: "retry_policy \<Rightarrow> error_class \<Rightarrow> bool" where
  "should_retry p ServerTransient = True"
| "should_retry p Network = retry_network p"
| "should_retry p Permanent = False"

definition backoff :: "retry_policy \<Rightarrow> u32 \<Rightarrow> duration" where
  "backoff p retry =
     (let factor = u32_saturating_pow 2 (u32_saturating_sub retry 1)
      in min (duration_saturating_mul (base_delay p) factor) (max_delay p))"

section \<open>The loop\<close>

text \<open>
  \<open>retry_after_error\<close>: \<open>None\<close> when the loop gives up, otherwise the delay slept and the
  increased attempt counter.
\<close>

definition retry_after_error :: "retry_policy \<Rightarrow> u32 \<Rightarrow> error_class \<Rightarrow> (duration \<times> u32) option" where
  "retry_after_error p attempt cls =
     (if attempt \<ge> max_attempts p \<or> \<not> should_retry p cls then None
      else Some (backoff p attempt, attempt + 1))"

lemma retry_after_error_Some:
  "retry_after_error p attempt cls = Some (d, attempt') \<longleftrightarrow>
   attempt < max_attempts p \<and> should_retry p cls \<and> d = backoff p attempt \<and> attempt' = attempt + 1"
  by (auto simp: retry_after_error_def not_le)

text \<open>The counter never wraps: it is below the maximum when it is increased.\<close>

lemma retry_after_error_unat:
  assumes "retry_after_error p attempt cls = Some (d, attempt')"
  shows "unat attempt' = Suc (unat attempt)" "unat attempt' \<le> unat (max_attempts p)"
proof -
  from assms have lt: "unat attempt < unat (max_attempts p)" and eq: "attempt' = attempt + 1"
    by (auto simp: retry_after_error_Some word_less_nat_alt)
  from lt have "Suc (unat attempt) < 2 ^ 32"
    using unat_u32_bound [of "max_attempts p"] by linarith
  then show "unat attempt' = Suc (unat attempt)"
    by (simp add: eq unat_word_ariths)
  with lt show "unat attempt' \<le> unat (max_attempts p)" by simp
qed

function with_retry_from ::
  "retry_policy \<Rightarrow> ('e \<Rightarrow> error_class) \<Rightarrow> (nat \<Rightarrow> 'e + 'a) \<Rightarrow> nat \<Rightarrow> u32 \<Rightarrow> ('e + 'a) \<times> duration list"
where
  "with_retry_from p error_class op calls attempt =
     (case op calls of
        Inr value \<Rightarrow> (Inr value, [])
      | Inl err \<Rightarrow>
          (case retry_after_error p attempt (error_class err) of
             None \<Rightarrow> (Inl err, [])
           | Some (delay, attempt') \<Rightarrow>
               (let (result, sleeps) = with_retry_from p error_class op (Suc calls) attempt'
                in (result, delay # sleeps))))"
  by pat_completeness auto
termination
  by (relation "measure (\<lambda>(p, c, op, calls, attempt). unat (max_attempts p) - unat attempt)")
    (use retry_after_error_unat in fastforce)+

declare with_retry_from.simps [simp del]

definition with_retry ::
  "retry_policy \<Rightarrow> ('e \<Rightarrow> error_class) \<Rightarrow> (nat \<Rightarrow> 'e + 'a) \<Rightarrow> ('e + 'a) \<times> duration list" where
  "with_retry p error_class op = with_retry_from p error_class op 0 1"

section \<open>Properties\<close>

text \<open>The attempt after which the loop stops: a success, or an error it does not retry.\<close>

definition retry_stops :: "retry_policy \<Rightarrow> ('e \<Rightarrow> error_class) \<Rightarrow> (nat \<Rightarrow> 'e + 'a) \<Rightarrow> nat \<Rightarrow> bool" where
  "retry_stops p error_class op k =
     (case op k of
        Inr _ \<Rightarrow> True
      | Inl err \<Rightarrow> \<not> should_retry p (error_class err) \<or> unat (max_attempts p) \<le> Suc k)"

lemma retry_stops_last: "retry_stops p ec op (unat (max_attempts p) - 1)"
  by (auto simp: retry_stops_def split: sum.splits)

definition retry_stop :: "retry_policy \<Rightarrow> ('e \<Rightarrow> error_class) \<Rightarrow> (nat \<Rightarrow> 'e + 'a) \<Rightarrow> nat" where
  "retry_stop p ec op = (LEAST k. retry_stops p ec op k)"

lemma retry_stop_stops: "retry_stops p ec op (retry_stop p ec op)"
  unfolding retry_stop_def by (rule LeastI) (rule retry_stops_last)

lemma retry_stop_bound: "retry_stop p ec op \<le> unat (max_attempts p) - 1"
  unfolding retry_stop_def by (rule Least_le) (rule retry_stops_last)

lemma unat_of_nat_u32: "n < 2 ^ 32 \<Longrightarrow> unat (of_nat n :: u32) = n"
  by (simp add: unat_of_nat)

lemma with_retry_from_stop:
  assumes "k \<le> n" "retry_stops p ec op n" "\<And>i. k \<le> i \<Longrightarrow> i < n \<Longrightarrow> \<not> retry_stops p ec op i"
    and "Suc n \<le> max 1 (unat (max_attempts p))"
  shows "with_retry_from p ec op k (of_nat (Suc k)) =
     (op n, map (\<lambda>i. backoff p (of_nat (Suc i))) [k ..< n])"
  using assms(1,3)
proof (induction "n - k" arbitrary: k)
  case 0
  then have "k = n" by simp
  have bound: "Suc n < 2 ^ 32" if "unat (max_attempts p) \<noteq> 0"
    using assms(4) unat_u32_bound [of "max_attempts p"] that by simp
  have "retry_after_error p (of_nat (Suc n)) (ec err) = None" if "op n = Inl err" for err
  proof (cases "unat (max_attempts p) = 0")
    case True
    then have "max_attempts p = 0" by (simp add: unat_eq_0)
    then show ?thesis by (simp add: retry_after_error_def)
  next
    case False
    with that assms(2) show ?thesis
      by (auto simp: retry_after_error_def retry_stops_def word_le_nat_alt unat_of_nat_u32 [OF bound]
          simp del: of_nat_Suc)
  qed
  with \<open>k = n\<close> show ?case
    by (subst with_retry_from.simps) (simp split: sum.splits)
next
  case (Suc d)
  then have lt: "k < n" by simp
  with assms(4) unat_u32_bound [of "max_attempts p"]
  have bound: "Suc k < unat (max_attempts p)" "Suc k < 2 ^ 32" by simp_all
  from Suc.prems(2) [OF order.refl lt] obtain err where op: "op k = Inl err"
    and retry: "should_retry p (ec err)"
    by (auto simp: retry_stops_def split: sum.splits)
  have "retry_after_error p (of_nat (Suc k)) (ec err)
      = Some (backoff p (of_nat (Suc k)), of_nat (Suc (Suc k)))"
    using retry bound unat_of_nat_u32 [OF bound(2)]
    by (simp add: retry_after_error_Some word_less_nat_alt del: of_nat_Suc) simp
  moreover have "with_retry_from p ec op (Suc k) (of_nat (Suc (Suc k)))
      = (op n, map (\<lambda>i. backoff p (of_nat (Suc i))) [Suc k ..< n])"
    using Suc lt by (intro Suc.hyps(1)) auto
  ultimately show ?case
    using lt by (subst with_retry_from.simps) (simp add: op upt_conv_Cons del: of_nat_Suc)
qed

lemma with_retry_stop:
  "with_retry p ec op =
     (op (retry_stop p ec op), map (\<lambda>i. backoff p (of_nat (Suc i))) [0 ..< retry_stop p ec op])"
proof -
  have stop: "\<not> retry_stops p ec op i" if "i < retry_stop p ec op" for i
    using that unfolding retry_stop_def by (rule not_less_Least)
  have bound: "Suc (retry_stop p ec op) \<le> max 1 (unat (max_attempts p))"
    using retry_stop_bound [of p ec op] by simp
  from with_retry_from_stop [OF le0 retry_stop_stops stop bound]
  show ?thesis by (simp add: with_retry_def)
qed

text \<open>
  C10: \<open>with_retry\<close> makes the attempts its policy allows and no more. It runs the operation until the
  first attempt that succeeds, or fails with an error the policy does not retry, or is the last of
  \<open>max 1 max_attempts\<close>; it returns the result of that attempt unchanged, and before the retry
  number \<open>i\<close> it has slept exactly \<open>backoff i\<close>. The counter never wraps.
\<close>

theorem with_retry_correct:
  "with_retry p ec op =
     (op (retry_stop p ec op), map (\<lambda>i. backoff p (of_nat (Suc i))) [0 ..< retry_stop p ec op])
   \<and> retry_stops p ec op (retry_stop p ec op)
   \<and> retry_stop p ec op < max 1 (unat (max_attempts p))"
  using retry_stop_bound [of p ec op] by (auto simp: with_retry_stop retry_stop_stops)

text \<open>
  The total time \<open>with_retry\<close> sleeps is at most \<open>max_attempts - 1\<close> times the maximal delay.
\<close>

theorem with_retry_total_delay:
  "sum_list (snd (with_retry p ec op)) \<le> (unat (max_attempts p) - 1) * max_delay p"
proof -
  have "backoff p r \<le> max_delay p" for r by (simp add: backoff_def Let_def)
  then have "sum_list (map (\<lambda>i. backoff p (of_nat (Suc i))) [0 ..< n]) \<le> n * max_delay p" for n
    by (induction n) (simp_all add: add.commute add_mono del: of_nat_Suc)
  moreover have "snd (with_retry p ec op) = map (\<lambda>i. backoff p (of_nat (Suc i))) [0 ..< retry_stop p ec op]"
    by (simp only: with_retry_stop snd_conv)
  ultimately have "sum_list (snd (with_retry p ec op)) \<le> retry_stop p ec op * max_delay p" by metis
  also have "\<dots> \<le> (unat (max_attempts p) - 1) * max_delay p"
    by (intro mult_le_mono1 retry_stop_bound)
  finally show ?thesis .
qed

lemma backoff_closed:
  assumes "1 \<le> unat r" "unat r \<le> 32" "max_delay p \<le> duration_max"
  shows "backoff p r = min (base_delay p * 2 ^ (unat r - 1)) (max_delay p)"
proof -
  have "(2 :: nat) ^ (unat r - 1) \<le> 2 ^ 31" using assms(2) by (intro power_increasing) simp_all
  then have "unat (u32_saturating_pow 2 (u32_saturating_sub r 1)) = 2 ^ (unat r - 1)"
    by (simp add: unat_u32_saturating_pow unat_u32_saturating_sub)
  with assms(3) show ?thesis
    by (simp add: backoff_def Let_def duration_saturating_mul_def)
qed

text \<open>
  The backoff is exponential and capped: the delay before the first retry is the base delay, each
  later one (up to the 32nd) is twice the one before, all cut off at the maximal delay, which is never
  exceeded; and the saturating arithmetic keeps the delays from ever decreasing, for all counters.
\<close>

theorem backoff_exponential:
  assumes "max_delay p \<le> duration_max" and "1 \<le> r" "r < 32"
  shows "backoff p 1 = min (base_delay p) (max_delay p)
    \<and> backoff p (r + 1) = min (2 * backoff p r) (max_delay p)
    \<and> mono (backoff p) \<and> range (backoff p) \<subseteq> {..max_delay p}"
proof (intro conjI)
  have r: "1 \<le> unat r" "unat r < 32"
    using assms(2,3) by (simp_all add: word_le_nat_alt word_less_nat_alt)
  then have r1: "unat (r + 1) = Suc (unat r)"
    by (simp add: unat_word_ariths)
  show "backoff p 1 = min (base_delay p) (max_delay p)"
    using backoff_closed [of 1 p] assms(1) by simp
  obtain k where k: "unat r = Suc k" using r(1) by (cases "unat r") simp_all
  have closed: "backoff p (r + 1) = min (base_delay p * 2 ^ unat r) (max_delay p)"
    "backoff p r = min (base_delay p * 2 ^ (unat r - 1)) (max_delay p)"
    using backoff_closed [of "r + 1" p] backoff_closed [of r p] r r1 assms(1) by simp_all
  show "backoff p (r + 1) = min (2 * backoff p r) (max_delay p)"
    unfolding closed k by (simp add: min_def)
  show "range (backoff p) \<subseteq> {..max_delay p}" by (auto simp: backoff_def Let_def)
  show "mono (backoff p)"
  proof (rule monoI)
    fix a b :: u32
    assume "a \<le> b"
    then have "unat (u32_saturating_sub a 1) \<le> unat (u32_saturating_sub b 1)"
      by (simp add: unat_u32_saturating_sub word_le_nat_alt)
    then have "(2 :: nat) ^ unat (u32_saturating_sub a 1) \<le> 2 ^ unat (u32_saturating_sub b 1)"
      by (intro power_increasing) simp_all
    then have "u32_saturating_pow 2 (u32_saturating_sub a 1) \<le> u32_saturating_pow 2 (u32_saturating_sub b 1)"
      unfolding word_le_nat_alt unat_u32_saturating_pow by (intro min.mono) simp_all
    then show "backoff p a \<le> backoff p b"
      unfolding backoff_def Let_def
      by (intro min.mono duration_saturating_mul_mono) simp_all
  qed
qed

lemma backoff_exponential_witness:
  "backoff default_retry_policy 1 = 500000000 \<and> backoff default_retry_policy (3 + 1) = 4000000000
   \<and> mono (backoff default_retry_policy)"
proof -
  have p: "max_delay default_retry_policy \<le> duration_max"
    by (simp add: default_retry_policy_def duration_max_def duration_from_secs_def)
  have "backoff default_retry_policy 3 = 2000000000"
    using backoff_closed [of 3 default_retry_policy] p
    by (simp add: default_retry_policy_def duration_from_secs_def duration_from_millis_def)
  then show ?thesis
    using backoff_exponential [OF p, of 3]
    by (simp add: default_retry_policy_def duration_from_secs_def duration_from_millis_def)
qed

end
