(* ===== verification/Web_Capacity.thy ===== *)
theory Web_Capacity
  imports Rust_Prelude
begin

text \<open>
  The connection counters of \<open>chudbot-web/src/vibe_rooms.rs\<close>: an \<open>AtomicUsize\<close> that is reserved
  below a maximum and released by a wrapping subtraction. The locale states what the hubs rely
  on, for a counter that tracks how many threads of a list hold a reservation.
\<close>

definition reserve_capacity :: "usize \<Rightarrow> usize \<Rightarrow> usize option" where
  "reserve_capacity counter maximum = (if counter < maximum then Some (counter + 1) else None)"

definition release_capacity :: "usize \<Rightarrow> usize" where
  "release_capacity counter = counter - 1"

section \<open>Counting the holders in a list\<close>

definition holders :: "('a \<Rightarrow> bool) \<Rightarrow> 'a list \<Rightarrow> nat" where
  "holders P xs = length (filter P xs)"

lemma holders_simps [simp]:
  "holders P [] = 0" "holders P (x # xs) = (if P x then Suc (holders P xs) else holders P xs)"
  "holders P (xs @ ys) = holders P xs + holders P ys"
  by (simp_all add: holders_def)

lemma holders_pos: "x \<in> set xs \<Longrightarrow> P x \<Longrightarrow> 0 < holders P xs"
  unfolding holders_def by (metis filter_empty_conv length_greater_0_conv)

lemma holders_0: "holders P xs = 0 \<longleftrightarrow> (\<forall>x\<in>set xs. \<not> P x)"
  by (simp add: holders_def filter_empty_conv)

lemma holders_update:
  "i < length xs \<Longrightarrow> holders P (xs[i := y]) + (if P (xs ! i) then 1 else 0)
     = holders P xs + (if P y then 1 else 0)"
proof (induction xs arbitrary: i)
  case (Cons x xs)
  then show ?case by (cases i) fastforce+
qed simp

lemma holders_mono: "(\<And>x. x \<in> set xs \<Longrightarrow> P x \<Longrightarrow> Q x) \<Longrightarrow> holders P xs \<le> holders Q xs"
  by (induction xs) (auto simp: le_SucI)

section \<open>The contract of a capacity counter\<close>

locale capacity_counter =
  fixes reserve :: "'c \<Rightarrow> 'm \<Rightarrow> 'c option"
    and release :: "'c \<Rightarrow> 'c"
    and level :: "'c \<Rightarrow> nat"
    and bound :: "'m \<Rightarrow> nat"
  assumes reserve_level: "reserve c m = Some c' \<Longrightarrow> level c' = Suc (level c)"
    and reserve_bound: "reserve c m = Some c' \<Longrightarrow> level c' \<le> bound m"
    and reserve_free: "level c < bound m \<Longrightarrow> reserve c m \<noteq> None"
    and release_level: "0 < level c \<Longrightarrow> level (release c) = level c - 1"
begin

definition tracks :: "('a \<Rightarrow> bool) \<Rightarrow> 'a list \<Rightarrow> 'c \<Rightarrow> bool" where
  "tracks P xs c \<longleftrightarrow> level c = holders P xs"

lemma tracks_same:
  "tracks P xs c \<Longrightarrow> i < length xs \<Longrightarrow> P (xs ! i) = P y \<Longrightarrow> tracks P (xs[i := y]) c"
  using holders_update [of i xs P y] by (auto simp: tracks_def split: if_splits)

lemma tracks_reserve:
  "tracks P xs c \<Longrightarrow> i < length xs \<Longrightarrow> \<not> P (xs ! i) \<Longrightarrow> P y \<Longrightarrow> reserve c m = Some c' \<Longrightarrow>
   tracks P (xs[i := y]) c'"
  using holders_update [of i xs P y] by (auto simp: tracks_def dest: reserve_level)

lemma tracks_release:
  "tracks P xs c \<Longrightarrow> i < length xs \<Longrightarrow> P (xs ! i) \<Longrightarrow> \<not> P y \<Longrightarrow> tracks P (xs[i := y]) (release c)"
  using holders_update [of i xs P y] holders_pos [of "xs ! i" xs P]
  by (auto simp: tracks_def release_level)

lemma tracks_held: "tracks P xs c \<Longrightarrow> x \<in> set xs \<Longrightarrow> P x \<Longrightarrow> 0 < level c"
  by (simp add: tracks_def holders_pos)

end

lemma unat_usize_inc: "c < m \<Longrightarrow> unat (c + 1 :: usize) = Suc (unat c)"
proof -
  assume "c < m"
  then have "Suc (unat c) < 2 ^ 64"
    using unsigned_less [of m, where 'a = nat] by (simp add: word_less_nat_alt)
  then show ?thesis by (simp add: unat_word_ariths)
qed

interpretation capacity: capacity_counter reserve_capacity release_capacity unat unat
proof unfold_locales
  fix c m c' :: usize
  assume "reserve_capacity c m = Some c'"
  then have lt: "c < m" and c': "c' = c + 1" by (auto simp: reserve_capacity_def split: if_splits)
  show "unat c' = Suc (unat c)" using unat_usize_inc [OF lt] c' by simp
  with lt show "unat c' \<le> unat m" by (simp add: word_less_nat_alt)
next
  fix c m :: usize
  assume "unat c < unat m"
  then show "reserve_capacity c m \<noteq> None" by (simp add: reserve_capacity_def word_less_nat_alt)
next
  fix c :: usize
  assume "0 < unat c"
  then show "unat (release_capacity c) = unat c - 1"
    by (simp add: release_capacity_def unat_minus_one unat_gt_0)
qed

end
