(* ===== verification/Web_Rooms.thy ===== *)
theory Web_Rooms
  imports Web_Capacity Json_Value
begin

text \<open>
  \<open>chudbot-web/src/vibe_rooms.rs\<close>: the hub of chat rooms. \<open>Arc\<close>s are addresses into stores, so that
  the pointer comparisons of the code can be written; hash maps are kept in key order, and no result
  depends on that order. Each definition up to \<open>hub_leave\<close> is one critical section of the code or a
  sequence of them. \<open>Web_Rooms_Concurrent\<close> interleaves the sections of many connections.
  A text message is kept as the JSON value it prints.
\<close>

section \<open>State\<close>

type_synonym site_id = nat
type_synonym conn_id = nat
type_synonym site_addr = nat
type_synonym room_addr = nat

record room_user =
  ru_id :: string
  ru_username :: "string option"
  ru_display_name :: string
  ru_avatar_url :: "string option"
  ru_anonymous :: bool
  ru_states :: "(string, json) btree_map"

record room_user_entry =
  rue_user :: room_user
  rue_connections :: "conn_id list"

record room_client =
  rc_user_id :: string
  rc_outbound :: "json list"
  rc_cancelled :: bool

record room_state =
  rs_users :: "(string, room_user_entry) btree_map"
  rs_clients :: "(conn_id, room_client) btree_map"
  rs_closed :: bool

record site_rooms =
  sr_rooms :: "(string, room_addr) btree_map"
  sr_room_count :: usize
  sr_connections :: usize

record room_limits =
  max_rooms_per_site :: usize
  max_connections_per_room :: usize
  max_connections_per_site :: usize
  max_connections :: usize
  max_user_states :: usize
  max_user_state_bytes :: usize
  outbound_queue :: usize

record room_hub =
  h_sites :: "(site_id, site_addr) btree_map"
  h_connections :: usize
  h_site_store :: "site_addr \<Rightarrow> site_rooms"
  h_room_store :: "room_addr \<Rightarrow> room_state"
  h_next_site :: site_addr
  h_next_room :: room_addr

record room_error =
  re_code :: string
  re_message :: string

definition room_state_default :: room_state where
  "room_state_default = \<lparr>rs_users = [], rs_clients = [], rs_closed = False\<rparr>"

definition site_rooms_default :: site_rooms where
  "site_rooms_default = \<lparr>sr_rooms = [], sr_room_count = 0, sr_connections = 0\<rparr>"

definition hub_new :: room_hub where
  "hub_new = \<lparr>h_sites = [], h_connections = 0, h_site_store = \<lambda>_. site_rooms_default,
     h_room_store = \<lambda>_. room_state_default, h_next_site = 0, h_next_room = 0\<rparr>"

record vibe_room_limits =
  cfg_rooms_per_site :: u16
  cfg_room_connections :: u16
  cfg_room_connections_per_site :: u16
  cfg_room_connections_total :: usize
  cfg_room_user_states :: u16
  cfg_room_user_state_bytes :: usize
  cfg_room_outbound_queue :: u16

definition room_limits_from :: "vibe_room_limits \<Rightarrow> room_limits" where
  "room_limits_from v =
     \<lparr>max_rooms_per_site = ucast (cfg_rooms_per_site v),
      max_connections_per_room = ucast (cfg_room_connections v),
      max_connections_per_site = ucast (cfg_room_connections_per_site v),
      max_connections = cfg_room_connections_total v,
      max_user_states = ucast (cfg_room_user_states v),
      max_user_state_bytes = cfg_room_user_state_bytes v,
      outbound_queue = ucast (cfg_room_outbound_queue v)\<rparr>"

section \<open>Errors and messages\<close>

definition not_joined :: room_error where
  "not_joined = \<lparr>re_code = ''not_connected'',
     re_message = ''The Vibe room connection is no longer active.''\<rparr>"

fun json_opt_string :: "string option \<Rightarrow> json" where
  "json_opt_string None = JNull"
| "json_opt_string (Some s) = JString s"

definition room_error_message :: "room_error \<Rightarrow> string option \<Rightarrow> json" where
  "room_error_message e i = json_object
     [(''type'', JString ''error''), (''id'', json_opt_string i), (''code'', JString (re_code e)),
      (''message'', JString (re_message e))]"

definition user_json :: "room_user \<Rightarrow> json" where
  "user_json u = json_object
     ([(''id'', JString (ru_id u))]
      @ (case ru_username u of None \<Rightarrow> [] | Some name \<Rightarrow> [(''username'', JString name)])
      @ [(''displayName'', JString (ru_display_name u)), (''avatarUrl'', json_opt_string (ru_avatar_url u)),
         (''anonymous'', JBool (ru_anonymous u)), (''states'', JObject (ru_states u))])"

definition welcome_message :: "string \<Rightarrow> room_state \<Rightarrow> json" where
  "welcome_message self room = json_object
     [(''type'', JString ''welcome''), (''selfId'', JString self),
      (''users'', JArray (map (\<lambda>e. user_json (rue_user (snd e))) (rs_users room)))]"

definition user_message :: "string \<Rightarrow> room_user \<Rightarrow> json" where
  "user_message kind u = json_object [(''type'', JString kind), (''user'', user_json u)]"

definition event_message :: "string \<Rightarrow> json \<Rightarrow> room_user \<Rightarrow> json" where
  "event_message label event u = json_object
     [(''type'', JString ''event''), (''label'', JString label), (''event'', event), (''user'', user_json u)]"

definition state_message :: "string \<Rightarrow> room_user \<Rightarrow> json option \<Rightarrow> json \<Rightarrow> json" where
  "state_message key u before value = json_object
     [(''type'', JString ''user:state''), (''key'', JString key), (''user'', user_json u),
      (''beforePresent'', JBool (before \<noteq> None)),
      (''before'', case before of None \<Rightarrow> JNull | Some b \<Rightarrow> b), (''after'', value)]"

section \<open>Sending\<close>

text \<open>\<open>try_send\<close> on the bounded queue; a full queue cancels the slow connection.\<close>

definition try_send :: "usize \<Rightarrow> json \<Rightarrow> room_client \<Rightarrow> room_client" where
  "try_send queue message client =
     (if length (rc_outbound client) < unat queue
      then client\<lparr>rc_outbound := rc_outbound client @ [message]\<rparr>
      else client\<lparr>rc_cancelled := True\<rparr>)"

definition send_room :: "usize \<Rightarrow> room_state \<Rightarrow> json \<Rightarrow> conn_id option \<Rightarrow> room_state" where
  "send_room queue room message except =
     room\<lparr>rs_clients := map (\<lambda>(i, client).
        (i, if Some i = except then client else try_send queue message client)) (rs_clients room)\<rparr>"

section \<open>Names\<close>

definition MAX_NAME_BYTES :: nat where
  "MAX_NAME_BYTES = 64"

definition validate_token :: "string \<Rightarrow> string \<Rightarrow> string \<Rightarrow> room_error + unit" where
  "validate_token v code message =
     (if v = [] \<or> length v > MAX_NAME_BYTES
         \<or> \<not> list_all (\<lambda>c. is_ascii_alphanumeric c \<or> c \<in> {CHR '':'', CHR ''_'', CHR ''-''}) v
      then Inl \<lparr>re_code = code, re_message = message\<rparr> else Inr ())"

definition validate_event_label :: "string \<Rightarrow> room_error + unit" where
  "validate_event_label label =
     (case validate_token label ''invalid_event_label'' ''The event label is invalid.'' of
        Inl e \<Rightarrow> Inl e
      | Inr _ \<Rightarrow>
          if starts_with label ''user:''
          then Inl \<lparr>re_code = ''reserved_event_label'',
            re_message = ''Event labels beginning with user: are reserved.''\<rparr>
          else Inr ())"

section \<open>Critical sections of a join\<close>

definition busy_error :: room_error where
  "busy_error = \<lparr>re_code = ''rooms_busy'',
     re_message = ''Vibe rooms are at their deployment-wide connection limit.''\<rparr>"

definition site_busy_error :: room_error where
  "site_busy_error = \<lparr>re_code = ''site_rooms_busy'',
     re_message = ''This site has reached its Vibe room connection limit.''\<rparr>"

definition too_many_rooms_error :: room_error where
  "too_many_rooms_error = \<lparr>re_code = ''too_many_rooms'',
     re_message = ''This site has reached its active room limit.''\<rparr>"

definition room_full_error :: room_error where
  "room_full_error = \<lparr>re_code = ''room_full'',
     re_message = ''This Vibe room has reached its connection limit.''\<rparr>"

definition join_total :: "room_limits \<Rightarrow> room_hub \<Rightarrow> room_hub option" where
  "join_total limits hub =
     map_option (\<lambda>c. hub\<lparr>h_connections := c\<rparr>)
       (reserve_capacity (h_connections hub) (max_connections limits))"

text \<open>
  \<open>sites.entry(site)\<close>, under its shard lock. In the vacant arm the outcome of the reservation
  is only asserted. The result is the site's address, or \<open>None\<close> when the site is full.
\<close>

definition join_site :: "room_limits \<Rightarrow> site_id \<Rightarrow> room_hub \<Rightarrow> site_addr option \<times> room_hub" where
  "join_site limits site hub =
     (case btm_get (h_sites hub) site of
        Some sa \<Rightarrow>
          (case reserve_capacity (sr_connections (h_site_store hub sa)) (max_connections_per_site limits) of
             None \<Rightarrow> (None, hub)
           | Some c \<Rightarrow> (Some sa, hub\<lparr>h_site_store := (h_site_store hub)
                (sa := (h_site_store hub sa)\<lparr>sr_connections := c\<rparr>)\<rparr>))
      | None \<Rightarrow>
          (let sa = h_next_site hub;
               fresh = site_rooms_default;
               rooms = (case reserve_capacity (sr_connections fresh) (max_connections_per_site limits) of
                          None \<Rightarrow> fresh | Some c \<Rightarrow> fresh\<lparr>sr_connections := c\<rparr>)
           in (Some sa, hub\<lparr>h_site_store := (h_site_store hub)(sa := rooms),
                 h_sites := btm_insert site sa (h_sites hub), h_next_site := Suc sa\<rparr>)))"

text \<open>\<open>site_rooms.rooms.entry(name)\<close>, under its shard lock.\<close>

definition join_room :: "room_limits \<Rightarrow> site_addr \<Rightarrow> string \<Rightarrow> room_hub \<Rightarrow> room_addr option \<times> room_hub" where
  "join_room limits sa name hub =
     (let rooms = h_site_store hub sa in
      case btm_get (sr_rooms rooms) name of
        Some ra \<Rightarrow> (Some ra, hub)
      | None \<Rightarrow>
          (case reserve_capacity (sr_room_count rooms) (max_rooms_per_site limits) of
             None \<Rightarrow> (None, hub)
           | Some c \<Rightarrow>
               (let ra = h_next_room hub
                in (Some ra, hub\<lparr>h_room_store := (h_room_store hub)(ra := room_state_default),
                      h_site_store := (h_site_store hub)
                        (sa := rooms\<lparr>sr_rooms := btm_insert name ra (sr_rooms rooms), sr_room_count := c\<rparr>),
                      h_next_room := Suc ra\<rparr>))))"

datatype enter_result = EnterClosed | EnterFull | Entered room_state json

text \<open>The section under the room's lock.\<close>

definition enter_user :: "conn_id \<Rightarrow> room_user \<Rightarrow> room_state \<Rightarrow> room_state" where
  "enter_user conn user room =
     room\<lparr>rs_users := btm_insert (ru_id user)
       (case btm_get (rs_users room) (ru_id user) of
          Some entry \<Rightarrow> entry\<lparr>rue_connections := List.insert conn (rue_connections entry)\<rparr>
        | None \<Rightarrow> \<lparr>rue_user = user, rue_connections = [conn]\<rparr>) (rs_users room)\<rparr>"

definition enter_room :: "room_limits \<Rightarrow> conn_id \<Rightarrow> room_user \<Rightarrow> room_state \<Rightarrow> enter_result" where
  "enter_room limits conn user room =
     (if rs_closed room then EnterClosed
      else if length (rs_clients room) \<ge> unat (max_connections_per_room limits) then EnterFull
      else (let is_new_user = \<not> btm_contains (rs_users room) (ru_id user);
                room1 = enter_user conn user room;
                welcome = welcome_message (ru_id user) room1;
                room2 = (if is_new_user
                         then send_room (outbound_queue limits) room1 (user_message ''user:join'' user) None
                         else room1)
            in Entered (room2\<lparr>rs_clients := btm_insert conn
                  \<lparr>rc_user_id = ru_id user, rc_outbound = [], rc_cancelled = False\<rparr> (rs_clients room2)\<rparr>)
                 welcome))"

definition release_site :: "site_addr \<Rightarrow> room_hub \<Rightarrow> room_hub" where
  "release_site sa hub = hub\<lparr>h_site_store := (h_site_store hub)
     (sa := (h_site_store hub sa)\<lparr>sr_connections := release_capacity (sr_connections (h_site_store hub sa))\<rparr>)\<rparr>"

definition release_total :: "room_hub \<Rightarrow> room_hub" where
  "release_total hub = hub\<lparr>h_connections := release_capacity (h_connections hub)\<rparr>"

section \<open>Joining\<close>

record joined_room =
  jr_connection :: conn_id
  jr_user_id :: string
  jr_welcome :: json

text \<open>
  \<open>JoinSpins\<close> is the loop that retries on a closed room: nobody else runs, so it would retry for ever.
\<close>

datatype join_result = JoinErr room_error | Joined joined_room | JoinSpins

definition hub_join ::
  "room_limits \<Rightarrow> site_id \<Rightarrow> string \<Rightarrow> room_user \<Rightarrow> conn_id \<Rightarrow> room_hub \<Rightarrow> join_result \<times> room_hub" where
  "hub_join limits site name user conn hub =
     (case join_total limits hub of
        None \<Rightarrow> (JoinErr busy_error, hub)
      | Some hub1 \<Rightarrow>
          (case join_site limits site hub1 of
             (None, hub2) \<Rightarrow> (JoinErr site_busy_error, release_total hub2)
           | (Some sa, hub2) \<Rightarrow>
               (case join_room limits sa name hub2 of
                  (None, hub3) \<Rightarrow> (JoinErr too_many_rooms_error, release_total (release_site sa hub3))
                | (Some ra, hub3) \<Rightarrow>
                    (case enter_room limits conn user (h_room_store hub3 ra) of
                       EnterClosed \<Rightarrow> (JoinSpins, hub3)
                     | EnterFull \<Rightarrow> (JoinErr room_full_error, release_total (release_site sa hub3))
                     | Entered room welcome \<Rightarrow>
                         (Joined \<lparr>jr_connection = conn, jr_user_id = ru_id user, jr_welcome = welcome\<rparr>,
                          hub3\<lparr>h_room_store := (h_room_store hub3)(ra := room)\<rparr>)))))"

section \<open>Room lookup, broadcast and user state\<close>

definition hub_room :: "site_id \<Rightarrow> string \<Rightarrow> room_hub \<Rightarrow> room_addr option" where
  "hub_room site name hub =
     Option.bind (btm_get (h_sites hub) site) (\<lambda>sa. btm_get (sr_rooms (h_site_store hub sa)) name)"

definition room_broadcast ::
  "room_limits \<Rightarrow> conn_id \<Rightarrow> string \<Rightarrow> json \<Rightarrow> room_state \<Rightarrow> room_error + room_state" where
  "room_broadcast limits conn label event room =
     (case btm_get (rs_clients room) conn of
        None \<Rightarrow> Inl not_joined
      | Some client \<Rightarrow>
          (case btm_get (rs_users room) (rc_user_id client) of
             None \<Rightarrow> Inl not_joined
           | Some entry \<Rightarrow>
               Inr (send_room (outbound_queue limits) room (event_message label event (rue_user entry)) None)))"

definition update_room :: "room_addr \<Rightarrow> (room_state \<Rightarrow> room_error + room_state) \<Rightarrow> room_hub
    \<Rightarrow> room_error + room_hub" where
  "update_room ra f hub =
     (case f (h_room_store hub ra) of
        Inl e \<Rightarrow> Inl e
      | Inr room \<Rightarrow> Inr (hub\<lparr>h_room_store := (h_room_store hub)(ra := room)\<rparr>))"

definition hub_broadcast ::
  "room_limits \<Rightarrow> site_id \<Rightarrow> string \<Rightarrow> conn_id \<Rightarrow> string \<Rightarrow> json \<Rightarrow> room_hub \<Rightarrow> room_error + room_hub" where
  "hub_broadcast limits site name conn label event hub =
     (case validate_event_label label of
        Inl e \<Rightarrow> Inl e
      | Inr _ \<Rightarrow>
          (case hub_room site name hub of
             None \<Rightarrow> Inl not_joined
           | Some ra \<Rightarrow> update_room ra (room_broadcast limits conn label event) hub))"

text \<open>\<open>ser\<close> is \<open>Value::to_string\<close>.\<close>

definition usize_saturating_sum :: "nat \<Rightarrow> nat \<Rightarrow> nat" where
  "usize_saturating_sum a b = min (a + b) (2 ^ 64 - 1)"

definition state_bytes :: "(json \<Rightarrow> string) \<Rightarrow> string \<Rightarrow> json \<Rightarrow> (string, json) btree_map \<Rightarrow> nat" where
  "state_bytes ser key v states =
     usize_saturating_sum
       (usize_saturating_sum
         (sum_list (map (\<lambda>(k, x). length k + length (ser x)) (filter (\<lambda>(k, x). k \<noteq> key) states)))
         (length key))
       (length (ser v))"

definition room_set_state ::
  "(json \<Rightarrow> string) \<Rightarrow> room_limits \<Rightarrow> conn_id \<Rightarrow> string \<Rightarrow> json \<Rightarrow> room_state \<Rightarrow> room_error + room_state" where
  "room_set_state ser limits conn key v room =
     (case btm_get (rs_clients room) conn of
        None \<Rightarrow> Inl not_joined
      | Some client \<Rightarrow>
          (case btm_get (rs_users room) (rc_user_id client) of
             None \<Rightarrow> Inl not_joined
           | Some entry \<Rightarrow>
               (let states = ru_states (rue_user entry) in
                if \<not> btm_contains states key \<and> length states \<ge> unat (max_user_states limits)
                then Inl \<lparr>re_code = ''too_many_user_states'',
                       re_message = ''This user has reached the state-key limit for the room.''\<rparr>
                else if state_bytes ser key v states > unat (max_user_state_bytes limits)
                then Inl \<lparr>re_code = ''user_state_too_large'',
                       re_message = ''This user'' @ [CHR 0x27] @ ''s room state exceeds the byte limit.''\<rparr>
                else (let before = btm_get states key;
                          user = (rue_user entry)\<lparr>ru_states := btm_insert key v states\<rparr>;
                          room1 = room\<lparr>rs_users := btm_insert (rc_user_id client)
                            (entry\<lparr>rue_user := user\<rparr>) (rs_users room)\<rparr>
                      in Inr (send_room (outbound_queue limits) room1 (state_message key user before v) None)))))"

definition hub_set_state ::
  "(json \<Rightarrow> string) \<Rightarrow> room_limits \<Rightarrow> site_id \<Rightarrow> string \<Rightarrow> conn_id \<Rightarrow> string \<Rightarrow> json \<Rightarrow> room_hub
    \<Rightarrow> room_error + room_hub" where
  "hub_set_state ser limits site name conn key v hub =
     (case validate_token key ''invalid_state_key'' ''The user-state key is invalid.'' of
        Inl e \<Rightarrow> Inl e
      | Inr _ \<Rightarrow>
          (case hub_room site name hub of
             None \<Rightarrow> Inl not_joined
           | Some ra \<Rightarrow> update_room ra (room_set_state ser limits conn key v) hub))"

section \<open>Leaving\<close>

definition btm_remove :: "'k \<Rightarrow> ('k, 'v) btree_map \<Rightarrow> ('k, 'v) btree_map" where
  "btm_remove k m = filter (\<lambda>(k', _). k' \<noteq> k) m"

text \<open>The section under the room's lock: \<open>None\<close> when the connection is not in the room.\<close>

definition leave_room :: "room_limits \<Rightarrow> conn_id \<Rightarrow> room_state \<Rightarrow> room_state option" where
  "leave_room limits conn room =
     (case btm_get (rs_clients room) conn of
        None \<Rightarrow> None
      | Some client \<Rightarrow>
          (let room1 = room\<lparr>rs_clients := btm_remove conn (rs_clients room)\<rparr> in
           case btm_get (rs_users room1) (rc_user_id client) of
             None \<Rightarrow> Some room1
           | Some entry \<Rightarrow>
               (let rest = removeAll conn (rue_connections entry) in
                if rest = []
                then Some (send_room (outbound_queue limits)
                       (room1\<lparr>rs_users := btm_remove (rc_user_id client) (rs_users room1)\<rparr>)
                       (user_message ''user:quit'' (rue_user entry)) None)
                else Some (room1\<lparr>rs_users := btm_insert (rc_user_id client)
                       (entry\<lparr>rue_connections := rest\<rparr>) (rs_users room1)\<rparr>))))"

text \<open>\<open>remove_empty_room\<close> up to the removal of the entry; the flag says whether it was removed.\<close>

definition detach_room :: "site_addr \<Rightarrow> string \<Rightarrow> room_addr \<Rightarrow> room_hub \<Rightarrow> bool \<times> room_hub" where
  "detach_room sa name expected hub =
     (case btm_get (sr_rooms (h_site_store hub sa)) name of
        None \<Rightarrow> (False, hub)
      | Some ra \<Rightarrow>
          if ra \<noteq> expected then (False, hub)
          else if rs_clients (h_room_store hub ra) \<noteq> [] then (False, hub)
          else (True, hub\<lparr>h_room_store := (h_room_store hub)
                            (ra := (h_room_store hub ra)\<lparr>rs_closed := True\<rparr>),
                          h_site_store := (h_site_store hub)
                            (sa := (h_site_store hub sa)\<lparr>sr_rooms :=
                               btm_remove name (sr_rooms (h_site_store hub sa))\<rparr>)\<rparr>))"

definition release_room_count :: "site_addr \<Rightarrow> room_hub \<Rightarrow> room_hub" where
  "release_room_count sa hub = hub\<lparr>h_site_store := (h_site_store hub)
     (sa := (h_site_store hub sa)\<lparr>sr_room_count := release_capacity (sr_room_count (h_site_store hub sa))\<rparr>)\<rparr>"

definition remove_empty_room :: "site_addr \<Rightarrow> string \<Rightarrow> room_addr \<Rightarrow> room_hub \<Rightarrow> room_hub" where
  "remove_empty_room sa name expected hub =
     (case detach_room sa name expected hub of
        (True, hub') \<Rightarrow> release_room_count sa hub'
      | (False, hub') \<Rightarrow> hub')"

definition remove_empty_site :: "site_id \<Rightarrow> site_addr \<Rightarrow> room_hub \<Rightarrow> room_hub" where
  "remove_empty_site site expected hub =
     (case btm_get (h_sites hub) site of
        None \<Rightarrow> hub
      | Some sa \<Rightarrow>
          if sa = expected \<and> sr_connections (h_site_store hub sa) = 0 \<and> sr_room_count (h_site_store hub sa) = 0
          then hub\<lparr>h_sites := btm_remove site (h_sites hub)\<rparr> else hub)"

definition hub_leave :: "room_limits \<Rightarrow> site_id \<Rightarrow> string \<Rightarrow> conn_id \<Rightarrow> room_hub \<Rightarrow> room_hub" where
  "hub_leave limits site name conn hub =
     (case btm_get (h_sites hub) site of
        None \<Rightarrow> hub
      | Some sa \<Rightarrow>
          (case btm_get (sr_rooms (h_site_store hub sa)) name of
             None \<Rightarrow> hub
           | Some ra \<Rightarrow>
               (case leave_room limits conn (h_room_store hub ra) of
                  None \<Rightarrow> hub
                | Some room \<Rightarrow>
                    remove_empty_site site sa
                      (remove_empty_room sa name ra
                        (release_total (release_site sa
                          (hub\<lparr>h_room_store := (h_room_store hub)(ra := room)\<rparr>)))))))"

section \<open>The command rate\<close>

type_synonym instant = nat

record command_rate =
  cr_window_started :: instant
  cr_commands :: u16
  cr_maximum :: u16

definition command_rate_new :: "instant \<Rightarrow> u16 \<Rightarrow> command_rate" where
  "command_rate_new now maximum = \<lparr>cr_window_started = now, cr_commands = 0, cr_maximum = maximum\<rparr>"

definition admit :: "instant \<Rightarrow> command_rate \<Rightarrow> bool \<times> command_rate" where
  "admit now r =
     (let r1 = (if now - cr_window_started r \<ge> duration_from_secs 1
                then r\<lparr>cr_window_started := now, cr_commands := 0\<rparr> else r)
      in if cr_commands r1 \<ge> cr_maximum r1 then (False, r1)
         else (True, r1\<lparr>cr_commands := cr_commands r1 + 1\<rparr>))"

section \<open>Client messages\<close>

datatype client_message =
    ClientJoin string "string option"
  | ClientBroadcast string string json
  | ClientSetState string string json

fun command_id :: "client_message \<Rightarrow> string option" where
  "command_id (ClientJoin _ _) = None"
| "command_id (ClientBroadcast i _ _) = Some i"
| "command_id (ClientSetState i _ _) = Some i"

definition ack_message :: "string \<Rightarrow> json" where
  "ack_message i = json_object [(''type'', JString ''ack''), (''id'', JString i)]"

text \<open>
  \<open>decode\<close> is \<open>serde_json::from_str::<ClientMessage>\<close>. The response is always a message; the hub
  and the rate are returned updated.
\<close>

definition handle_message ::
  "(string \<Rightarrow> client_message option) \<Rightarrow> (json \<Rightarrow> string) \<Rightarrow> room_limits \<Rightarrow> site_id \<Rightarrow> string \<Rightarrow> conn_id
    \<Rightarrow> string \<Rightarrow> usize \<Rightarrow> instant \<Rightarrow> command_rate \<Rightarrow> room_hub \<Rightarrow> json \<times> command_rate \<times> room_hub" where
  "handle_message decode ser limits site room conn text max_message_bytes now rate hub =
     (if length text > unat max_message_bytes
      then (room_error_message \<lparr>re_code = ''message_too_large'',
              re_message = ''The Vibe room message is too large.''\<rparr> None, rate, hub)
      else case decode text of
        None \<Rightarrow> (room_error_message \<lparr>re_code = ''invalid_message'',
                  re_message = ''The Vibe room message is invalid.''\<rparr> None, rate, hub)
      | Some parsed \<Rightarrow>
          (let cid = command_id parsed;
               (admitted, rate') = admit now rate
           in if \<not> admitted
              then (room_error_message \<lparr>re_code = ''rate_limited'',
                      re_message = ''This connection is sending Vibe room commands too quickly.''\<rparr> cid,
                    rate', hub)
              else (let result =
                      (case parsed of
                         ClientJoin _ _ \<Rightarrow> Inl \<lparr>re_code = ''already_joined'',
                           re_message = ''This connection already joined a Vibe room.''\<rparr>
                       | ClientBroadcast _ label event \<Rightarrow> hub_broadcast limits site room conn label event hub
                       | ClientSetState _ key v \<Rightarrow> hub_set_state ser limits site room conn key v hub)
                    in case result of
                         Inl e \<Rightarrow> (room_error_message e cid, rate', hub)
                       | Inr hub' \<Rightarrow> (ack_message (case cid of Some i \<Rightarrow> i | None \<Rightarrow> []), rate', hub'))))"

section \<open>Identities and the join request\<close>

record vibe_membership =
  vm_user_id :: string
  vm_username :: string
  vm_display_name :: string
  vm_avatar_url :: "string option"
  vm_guild_id :: string
  vm_guild_display_name :: string

datatype pending_identity = Protected vibe_membership | Anonymous

definition protected_user :: "vibe_membership \<Rightarrow> room_user" where
  "protected_user m =
     \<lparr>ru_id = vm_user_id m, ru_username = Some (vm_username m), ru_display_name = vm_display_name m,
      ru_avatar_url = vm_avatar_url m, ru_anonymous = False, ru_states = []\<rparr>"

text \<open>What the code uses of the \<open>uuid\<close> package.\<close>

record 'u uuid_library =
  uuid_try_parse :: "string \<Rightarrow> 'u option"
  uuid_version :: "'u \<Rightarrow> nat"
  uuid_display :: "'u \<Rightarrow> string"
  uuid_simple :: "'u \<Rightarrow> string"

definition anonymous_user :: "'u uuid_library \<Rightarrow> string option \<Rightarrow> room_error + room_user" where
  "anonymous_user lib i =
     (case Option.bind i (uuid_try_parse lib) of
        Some u \<Rightarrow>
          if uuid_version lib u = 4
          then Inr \<lparr>ru_id = ''anonymous:'' @ uuid_display lib u, ru_username = None,
                 ru_display_name = ''Guest '' @ take 6 (uuid_simple lib u), ru_avatar_url = None,
                 ru_anonymous = True, ru_states = []\<rparr>
          else Inl \<lparr>re_code = ''invalid_anonymous_id'',
                 re_message = ''The anonymous browser identifier is invalid.''\<rparr>
      | None \<Rightarrow> Inl \<lparr>re_code = ''invalid_anonymous_id'',
                 re_message = ''The anonymous browser identifier is invalid.''\<rparr>)"

text \<open>What waiting for the first message of a socket gives.\<close>

datatype first_message = FirstText string | FirstOther | FirstClosed | FirstTimeout

definition invalid_join :: "string \<Rightarrow> room_error" where
  "invalid_join message = \<lparr>re_code = ''invalid_join'', re_message = message\<rparr>"

definition receive_join ::
  "(string \<Rightarrow> client_message option) \<Rightarrow> 'u uuid_library \<Rightarrow> first_message \<Rightarrow> pending_identity \<Rightarrow> usize
    \<Rightarrow> room_error + string \<times> room_user" where
  "receive_join decode lib first identity max_message_bytes =
     (case (case first of
              FirstText text \<Rightarrow>
                if length text \<le> unat max_message_bytes then Inr text
                else Inl (invalid_join ''The first room message must be a JSON join request.'')
            | FirstOther \<Rightarrow> Inl (invalid_join ''The first room message must be a JSON join request.'')
            | FirstClosed \<Rightarrow> Inl \<lparr>re_code = ''connection_closed'',
                re_message = ''The Vibe room connection closed before joining.''\<rparr>
            | FirstTimeout \<Rightarrow> Inl \<lparr>re_code = ''join_timeout'', re_message = ''The Vibe room join timed out.''\<rparr>) of
        Inl e \<Rightarrow> Inl e
      | Inr text \<Rightarrow>
          (case decode text of
             None \<Rightarrow> Inl (invalid_join ''The first room message must be a valid join request.'')
           | Some (ClientJoin room anonymous_id) \<Rightarrow>
               (case validate_token room ''invalid_room'' ''The Vibe room name is invalid.'' of
                  Inl e \<Rightarrow> Inl e
                | Inr _ \<Rightarrow>
                    (case identity of
                       Protected m \<Rightarrow> Inr (room, protected_user m)
                     | Anonymous \<Rightarrow>
                         (case anonymous_user lib anonymous_id of
                            Inl e \<Rightarrow> Inl e
                          | Inr user \<Rightarrow> Inr (room, user))))
           | Some _ \<Rightarrow> Inl (invalid_join ''The first room message must be a join request.'')))"

section \<open>Maps\<close>

lemma btm_remove_get [simp]: "btm_get (btm_remove k m) k' = (if k' = k then None else btm_get m k')"
  by (induction m) (auto simp: btm_remove_def btm_get_def)

lemma btm_remove_invar [chud_invar]: "btm_invar m \<Longrightarrow> btm_invar (btm_remove k m)"
  by (simp add: btm_remove_def btm_filter_invar)

lemma btm_remove_length: "btm_invar m \<Longrightarrow> btm_get m k \<noteq> None \<Longrightarrow> length m = Suc (length (btm_remove k m))"
proof (induction m)
  case (Cons e m)
  show ?case
  proof (cases "fst e = k")
    case True
    with Cons.prems have "\<forall>x\<in>set m. fst x \<noteq> k" by (auto simp: btm_invar_def)
    with True show ?thesis by (auto simp: btm_remove_def split_beta filter_id_conv)
  next
    case False
    with Cons show ?thesis by (auto simp: btm_remove_def btm_get_def btm_invar_def split_beta)
  qed
qed (simp add: btm_get_def)

lemma btm_remove_length_le: "length (btm_remove k m) \<le> length m"
  by (simp add: btm_remove_def)

lemma btm_insert_length:
  "btm_invar m \<Longrightarrow> length (btm_insert k v m) = (if btm_get m k = None then Suc (length m) else length m)"
proof (induction m)
  case (Cons e m)
  have inv: "btm_invar m" "\<forall>x\<in>set m. fst e < fst x" using Cons.prems by (auto simp: btm_invar_def)
  have none: "k < fst e \<Longrightarrow> btm_get m k = None"
    using inv(2) by (force simp: btm_get_def map_of_eq_None_iff)
  show ?case
    using Cons.IH [OF inv(1)] none by (cases e) (auto simp: btm_get_def)
qed (simp add: btm_get_def)

lemma btm_map_get: "btm_get (map (\<lambda>(i, c). (i, f i c)) m) k = map_option (f k) (btm_get m k)"
  by (induction m) (auto simp: btm_get_def)

lemma btm_map_invar [chud_invar]: "btm_invar m \<Longrightarrow> btm_invar (map (\<lambda>(i, c). (i, f i c)) m)"
  by (simp add: btm_invar_def comp_def split_beta)

lemma btm_Nil_iff: "m = [] \<longleftrightarrow> (\<forall>k. btm_get m k = None)"
  by (cases m) (auto simp: btm_get_def split: if_splits)

section \<open>The invariant of a room\<close>

text \<open>\<open>member\<close> is the user a connection is joined as.\<close>

definition member :: "room_state \<Rightarrow> conn_id \<Rightarrow> string option" where
  "member room c = map_option rc_user_id (btm_get (rs_clients room) c)"

definition entry_ok :: "room_limits \<Rightarrow> room_state \<Rightarrow> string \<Rightarrow> room_user_entry \<Rightarrow> bool" where
  "entry_ok limits room uid entry \<longleftrightarrow>
     ru_id (rue_user entry) = uid
     \<and> set (rue_connections entry) = {c. member room c = Some uid} \<and> rue_connections entry \<noteq> []
     \<and> btm_invar (ru_states (rue_user entry))
     \<and> length (ru_states (rue_user entry)) \<le> unat (max_user_states limits)"

definition room_ok :: "room_limits \<Rightarrow> room_state \<Rightarrow> bool" where
  "room_ok limits room \<longleftrightarrow>
     btm_invar (rs_users room) \<and> btm_invar (rs_clients room)
     \<and> length (rs_clients room) \<le> unat (max_connections_per_room limits)
     \<and> (rs_closed room \<longrightarrow> rs_clients room = [])
     \<and> (\<forall>c uid. member room c = Some uid \<longrightarrow> btm_contains (rs_users room) uid)
     \<and> (\<forall>uid entry. btm_get (rs_users room) uid = Some entry \<longrightarrow> entry_ok limits room uid entry)
     \<and> (\<forall>c client. btm_get (rs_clients room) c = Some client \<longrightarrow>
          length (rc_outbound client) \<le> unat (outbound_queue limits))"

lemma room_ok_default [chud_invar]: "room_ok limits room_state_default"
  by (simp add: room_ok_def room_state_default_def member_def)

lemma try_send_user [simp]: "rc_user_id (try_send q m c) = rc_user_id c"
  by (simp add: try_send_def)

lemma try_send_queue: "length (rc_outbound c) \<le> unat q \<Longrightarrow> length (rc_outbound (try_send q m c)) \<le> unat q"
  by (simp add: try_send_def)

lemma send_room_fields [simp]:
  "rs_users (send_room q room m ex) = rs_users room" "rs_closed (send_room q room m ex) = rs_closed room"
  "length (rs_clients (send_room q room m ex)) = length (rs_clients room)"
  by (simp_all add: send_room_def)

lemma send_room_get:
  "btm_get (rs_clients (send_room q room m ex)) c =
   map_option (\<lambda>client. if Some c = ex then client else try_send q m client) (btm_get (rs_clients room) c)"
  by (simp add: send_room_def btm_map_get)

lemma send_room_member [simp]: "member (send_room q room m ex) = member room"
proof
  fix c
  show "member (send_room q room m ex) c = member room c"
    by (cases "btm_get (rs_clients room) c") (simp_all add: member_def send_room_get)
qed

lemma send_room_ok [chud_invar]: "room_ok limits room \<Longrightarrow> room_ok limits (send_room (outbound_queue limits) room m ex)"
  unfolding room_ok_def entry_ok_def
  by (auto simp: send_room_get try_send_queue btm_Nil_iff split: if_splits)
    (auto simp: send_room_def intro: btm_map_invar)

lemma member_insert:
  "btm_invar (rs_clients room) \<Longrightarrow>
   member (room\<lparr>rs_clients := btm_insert c cl (rs_clients room)\<rparr>) = (member room)(c \<mapsto> rc_user_id cl)"
  by (auto simp: member_def btm_get_insert fun_eq_iff)

lemma member_remove:
  "member (room\<lparr>rs_clients := btm_remove c (rs_clients room)\<rparr>) = (member room)(c := None)"
  by (auto simp: member_def fun_eq_iff)

lemma member_users [simp]: "member (room\<lparr>rs_users := us\<rparr>) = member room"
  by (simp add: member_def fun_eq_iff)

section \<open>Every section keeps the invariant\<close>

lemma room_ok_entry:
  "room_ok limits room \<Longrightarrow> btm_get (rs_users room) uid = Some entry \<Longrightarrow> entry_ok limits room uid entry"
  by (simp add: room_ok_def)

lemma enter_user_get:
  "room_ok limits room \<Longrightarrow> btm_get (rs_users (enter_user conn user room)) =
     (btm_get (rs_users room))(ru_id user \<mapsto>
        (case btm_get (rs_users room) (ru_id user) of
           Some entry \<Rightarrow> entry\<lparr>rue_connections := List.insert conn (rue_connections entry)\<rparr>
         | None \<Rightarrow> \<lparr>rue_user = user, rue_connections = [conn]\<rparr>))"
  by (simp add: enter_user_def room_ok_def btm_get_insert)

lemma enter_user_fields [simp]:
  "rs_clients (enter_user conn user room) = rs_clients room"
  "rs_closed (enter_user conn user room) = rs_closed room"
  by (simp_all add: enter_user_def)

definition add_client :: "conn_id \<Rightarrow> string \<Rightarrow> room_state \<Rightarrow> room_state" where
  "add_client conn uid room = room\<lparr>rs_clients :=
     btm_insert conn \<lparr>rc_user_id = uid, rc_outbound = [], rc_cancelled = False\<rparr> (rs_clients room)\<rparr>"

lemma enter_room_add_client:
  "enter_room limits conn user room = Entered room' welcome \<Longrightarrow>
   room' = add_client conn (ru_id user)
     (if btm_contains (rs_users room) (ru_id user) then enter_user conn user room
      else send_room (outbound_queue limits) (enter_user conn user room) (user_message ''user:join'' user) None)
   \<and> welcome = welcome_message (ru_id user) (enter_user conn user room)
   \<and> \<not> rs_closed room \<and> length (rs_clients room) < unat (max_connections_per_room limits)"
  by (auto simp: enter_room_def add_client_def Let_def split: if_splits)

lemma add_client_ok:
  assumes ok: "room_ok limits room" and fresh: "member room conn = None" and user: "ru_states user = []"
    and open_room: "\<not> rs_closed room" and space: "length (rs_clients room) < unat (max_connections_per_room limits)"
    and users: "rs_users room2 = rs_users (enter_user conn user room)"
    and closed: "rs_closed room2 = rs_closed room"
    and mem: "member room2 = member room" and len: "length (rs_clients room2) = length (rs_clients room)"
    and inv: "btm_invar (rs_clients room2)"
    and queue: "\<forall>c client. btm_get (rs_clients room2) c = Some client \<longrightarrow>
      length (rc_outbound client) \<le> unat (outbound_queue limits)"
  shows "room_ok limits (add_client conn (ru_id user) room2)
    \<and> member (add_client conn (ru_id user) room2) = (member room)(conn \<mapsto> ru_id user)"
proof -
  let ?r = "add_client conn (ru_id user) room2"
  have m: "member ?r = (member room)(conn \<mapsto> ru_id user)"
    by (simp add: add_client_def member_insert inv mem)
  have none: "btm_get (rs_clients room2) conn = None"
    using fresh mem by (metis member_def option.map_disc_iff)
  have us: "btm_invar (rs_users room)" using ok by (simp add: room_ok_def)
  have entries: "entry_ok limits ?r uid entry" if get: "btm_get (rs_users ?r) uid = Some entry" for uid entry
  proof (cases "uid = ru_id user")
    case False
    with get have old: "btm_get (rs_users room) uid = Some entry"
      by (simp add: add_client_def users enter_user_get [OF ok])
    from room_ok_entry [OF ok old] False fresh show ?thesis
      by (auto simp: entry_ok_def m)
  next
    case True
    show ?thesis
    proof (cases "btm_get (rs_users room) uid")
      case None
      with ok have "member room c \<noteq> Some uid" for c
        unfolding room_ok_def btm_contains_iff by metis
      moreover from None get True have "entry = \<lparr>rue_user = user, rue_connections = [conn]\<rparr>"
        by (simp add: add_client_def users enter_user_get [OF ok])
      ultimately show ?thesis using True user by (auto simp: entry_ok_def m)
    next
      case (Some old)
      with get True have "entry = old\<lparr>rue_connections := List.insert conn (rue_connections old)\<rparr>"
        by (simp add: add_client_def users enter_user_get [OF ok])
      with room_ok_entry [OF ok Some] True show ?thesis
        by (auto simp: entry_ok_def m List.insert_def)
    qed
  qed
  have "btm_contains (rs_users ?r) uid" if "member ?r c = Some uid" for c uid
  proof -
    have "uid = ru_id user \<or> btm_get (rs_users room) uid \<noteq> None"
      using that ok by (auto simp: m room_ok_def btm_contains_iff split: if_splits)
    then show ?thesis by (auto simp: add_client_def users enter_user_get [OF ok] btm_contains_iff)
  qed
  moreover have "btm_invar (rs_users ?r)"
    using us by (simp add: add_client_def users enter_user_def btm_insert_invar)
  moreover have "length (rs_clients ?r) \<le> unat (max_connections_per_room limits)"
    using space len by (simp add: add_client_def btm_insert_length inv)
  moreover have "btm_invar (rs_clients ?r)" by (simp add: add_client_def btm_insert_invar inv)
  moreover have "\<not> rs_closed ?r" using open_room closed by (simp add: add_client_def)
  moreover have "length (rc_outbound client) \<le> unat (outbound_queue limits)"
    if "btm_get (rs_clients ?r) c = Some client" for c client
    using that queue by (auto simp: add_client_def btm_get_insert inv split: if_splits)
  ultimately show ?thesis using entries m by (simp add: room_ok_def)
qed

lemma enter_room_ok:
  assumes "enter_room limits conn user room = Entered room' welcome" "room_ok limits room"
    and "member room conn = None" "ru_states user = []"
  shows "room_ok limits room' \<and> member room' = (member room)(conn \<mapsto> ru_id user)"
proof -
  obtain room2 where room': "room' = add_client conn (ru_id user) room2"
    and r2: "room2 = enter_user conn user room
      \<or> room2 = send_room (outbound_queue limits) (enter_user conn user room) (user_message ''user:join'' user) None"
    and open_room: "\<not> rs_closed room" and space: "length (rs_clients room) < unat (max_connections_per_room limits)"
    using enter_room_add_client [OF assms(1)] by (auto split: if_splits)
  have inv: "btm_invar (rs_clients room)"
    and queue: "\<forall>c client. btm_get (rs_clients room) c = Some client \<longrightarrow>
      length (rc_outbound client) \<le> unat (outbound_queue limits)"
    using assms(2) by (auto simp: room_ok_def)
  have m: "member (enter_user conn user room) = member room" by (simp add: enter_user_def)
  have "rs_users room2 = rs_users (enter_user conn user room) \<and> rs_closed room2 = rs_closed room
    \<and> member room2 = member room \<and> length (rs_clients room2) = length (rs_clients room)
    \<and> btm_invar (rs_clients room2)
    \<and> (\<forall>c client. btm_get (rs_clients room2) c = Some client \<longrightarrow>
         length (rc_outbound client) \<le> unat (outbound_queue limits))"
    using r2
  proof
    assume "room2 = enter_user conn user room"
    then show ?thesis using inv queue m by simp
  next
    assume "room2 = send_room (outbound_queue limits) (enter_user conn user room) (user_message ''user:join'' user) None"
    then show ?thesis using inv queue m
      by (auto simp: send_room_get try_send_queue) (auto simp: send_room_def intro: btm_map_invar)
  qed
  then show ?thesis
    unfolding room' by (intro add_client_ok [OF assms(2,3,4) open_room space]) auto
qed

lemma room_broadcast_cases:
  assumes "room_broadcast limits conn label event room = Inr room'"
  obtains client entry where "btm_get (rs_clients room) conn = Some client"
    "btm_get (rs_users room) (rc_user_id client) = Some entry"
    "room' = send_room (outbound_queue limits) room (event_message label event (rue_user entry)) None"
  using assms by (auto simp: room_broadcast_def split: option.splits)

lemma room_broadcast_ok:
  assumes "room_broadcast limits conn label event room = Inr room'" "room_ok limits room"
  shows "room_ok limits room' \<and> member room' = member room"
  using assms(1)
proof (rule room_broadcast_cases)
  fix client :: room_client and entry :: room_user_entry
  assume "room' = send_room (outbound_queue limits) room (event_message label event (rue_user entry)) None"
  with assms(2) show ?thesis by (simp add: send_room_ok)
qed

lemma room_set_state_cases:
  assumes "room_set_state ser limits conn key v room = Inr room'"
  obtains client entry where "btm_get (rs_clients room) conn = Some client"
    "btm_get (rs_users room) (rc_user_id client) = Some entry"
    "btm_contains (ru_states (rue_user entry)) key \<or> length (ru_states (rue_user entry)) < unat (max_user_states limits)"
    "state_bytes ser key v (ru_states (rue_user entry)) \<le> unat (max_user_state_bytes limits)"
    "room' = send_room (outbound_queue limits)
       (room\<lparr>rs_users := btm_insert (rc_user_id client)
          (entry\<lparr>rue_user := (rue_user entry)\<lparr>ru_states := btm_insert key v (ru_states (rue_user entry))\<rparr>\<rparr>) (rs_users room)\<rparr>)
       (state_message key ((rue_user entry)\<lparr>ru_states := btm_insert key v (ru_states (rue_user entry))\<rparr>)
         (btm_get (ru_states (rue_user entry)) key) v) None"
  using assms by (auto simp: room_set_state_def Let_def not_le not_less split: option.splits if_splits)

text \<open>Replacing the entry of one user by a good one.\<close>

lemma room_ok_update_user:
  assumes "room_ok limits room" "btm_get (rs_users room) uid = Some old" "entry_ok limits room uid new"
  shows "room_ok limits (room\<lparr>rs_users := btm_insert uid new (rs_users room)\<rparr>)"
proof -
  have inv: "btm_invar (rs_users room)" using assms(1) by (simp add: room_ok_def)
  have "entry_ok limits (room\<lparr>rs_users := us\<rparr>) = entry_ok limits room" for us
    by (simp add: entry_ok_def fun_eq_iff)
  then show ?thesis
    using assms inv by (auto simp: room_ok_def btm_get_insert btm_insert_invar btm_contains_iff)
qed

lemma room_set_state_ok:
  assumes "room_set_state ser limits conn key v room = Inr room'" "room_ok limits room"
  shows "room_ok limits room' \<and> member room' = member room"
  using assms(1)
proof (rule room_set_state_cases)
  fix client :: room_client and entry :: room_user_entry
  let ?entry = "entry\<lparr>rue_user := (rue_user entry)\<lparr>ru_states := btm_insert key v (ru_states (rue_user entry))\<rparr>\<rparr>"
  assume get: "btm_get (rs_users room) (rc_user_id client) = Some entry"
    and space: "btm_contains (ru_states (rue_user entry)) key
      \<or> length (ru_states (rue_user entry)) < unat (max_user_states limits)"
    and room': "room' = send_room (outbound_queue limits)
       (room\<lparr>rs_users := btm_insert (rc_user_id client) ?entry (rs_users room)\<rparr>)
       (state_message key ((rue_user entry)\<lparr>ru_states := btm_insert key v (ru_states (rue_user entry))\<rparr>)
         (btm_get (ru_states (rue_user entry)) key) v) None"
  have old: "entry_ok limits room (rc_user_id client) entry" by (rule room_ok_entry [OF assms(2) get])
  with space have "entry_ok limits room (rc_user_id client) ?entry"
    by (auto simp: entry_ok_def btm_insert_invar btm_insert_length btm_contains_iff)
  from room_ok_update_user [OF assms(2) get this] show ?thesis
    unfolding room' by (simp add: send_room_ok)
qed

lemma leave_room_cases:
  assumes "leave_room limits conn room = Some room'" "room_ok limits room"
  obtains client entry where "btm_get (rs_clients room) conn = Some client"
    "btm_get (rs_users room) (rc_user_id client) = Some entry"
    "removeAll conn (rue_connections entry) = []"
    "room' = send_room (outbound_queue limits)
       (room\<lparr>rs_clients := btm_remove conn (rs_clients room), rs_users := btm_remove (rc_user_id client) (rs_users room)\<rparr>)
       (user_message ''user:quit'' (rue_user entry)) None"
  | client entry where "btm_get (rs_clients room) conn = Some client"
    "btm_get (rs_users room) (rc_user_id client) = Some entry"
    "removeAll conn (rue_connections entry) \<noteq> []"
    "room' = room\<lparr>rs_clients := btm_remove conn (rs_clients room), rs_users := btm_insert (rc_user_id client)
       (entry\<lparr>rue_connections := removeAll conn (rue_connections entry)\<rparr>) (rs_users room)\<rparr>"
proof -
  obtain client where client: "btm_get (rs_clients room) conn = Some client"
    using assms(1) by (auto simp: leave_room_def split: option.splits)
  then have "member room conn = Some (rc_user_id client)" by (simp add: member_def)
  with assms(2) obtain entry where entry: "btm_get (rs_users room) (rc_user_id client) = Some entry"
    unfolding room_ok_def btm_contains_iff by blast
  show thesis
    using assms(1) that client entry
    by (cases "removeAll conn (rue_connections entry) = []") (auto simp: leave_room_def Let_def)
qed

lemma room_ok_remove:
  assumes ok: "room_ok limits room" and users: "btm_invar us"
    and mem: "\<And>c u. c \<noteq> conn \<Longrightarrow> member room c = Some u \<Longrightarrow> btm_contains us u"
    and entries: "\<And>u e. btm_get us u = Some e \<Longrightarrow>
      entry_ok limits (room\<lparr>rs_clients := btm_remove conn (rs_clients room)\<rparr>) u e"
  shows "room_ok limits (room\<lparr>rs_clients := btm_remove conn (rs_clients room), rs_users := us\<rparr>)"
proof -
  let ?r = "room\<lparr>rs_clients := btm_remove conn (rs_clients room), rs_users := us\<rparr>"
  have m: "member ?r = (member room)(conn := None)"
    by (simp add: member_def fun_eq_iff)
  then have e: "entry_ok limits ?r = entry_ok limits (room\<lparr>rs_clients := btm_remove conn (rs_clients room)\<rparr>)"
    by (simp add: entry_ok_def fun_eq_iff member_remove)
  have "length (rs_clients ?r) \<le> unat (max_connections_per_room limits)"
    using ok btm_remove_length_le [of conn "rs_clients room"] by (simp add: room_ok_def)
  moreover have "btm_invar (rs_clients room)" "rs_closed room \<longrightarrow> rs_clients room = []"
    "\<forall>c client. btm_get (rs_clients room) c = Some client \<longrightarrow>
       length (rc_outbound client) \<le> unat (outbound_queue limits)"
    using ok by (simp_all add: room_ok_def)
  ultimately show ?thesis
    using users mem entries unfolding room_ok_def m e
    by (simp add: btm_remove_invar) (simp add: btm_remove_def)
qed

lemma leave_room_ok:
  assumes "leave_room limits conn room = Some room'" "room_ok limits room"
  shows "room_ok limits room' \<and> member room' = (member room)(conn := None)
    \<and> rs_closed room' = rs_closed room"
  using assms
proof (cases rule: leave_room_cases)
  case (1 client entry)
  have mem: "member room conn = Some (rc_user_id client)" using 1 by (simp add: member_def)
  have inv: "btm_invar (rs_users room)" using assms(2) by (simp add: room_ok_def)
  have only: "c = conn" if "member room c = Some (rc_user_id client)" for c
    using room_ok_entry [OF assms(2) 1(2)] that 1(3) by (auto simp: entry_ok_def removeAll_filter_not_eq filter_empty_conv)
  have "room_ok limits (room\<lparr>rs_clients := btm_remove conn (rs_clients room),
      rs_users := btm_remove (rc_user_id client) (rs_users room)\<rparr>)"
  proof (rule room_ok_remove [OF assms(2) btm_remove_invar [OF inv]])
    fix c u
    assume "c \<noteq> conn" "member room c = Some u"
    with only assms(2) show "btm_contains (btm_remove (rc_user_id client) (rs_users room)) u"
      by (auto simp: btm_contains_iff room_ok_def)
  next
    fix u e
    assume get: "btm_get (btm_remove (rc_user_id client) (rs_users room)) u = Some e"
    then have "btm_get (rs_users room) u = Some e" "u \<noteq> rc_user_id client" by (auto split: if_splits)
    with room_ok_entry [OF assms(2)] mem
    show "entry_ok limits (room\<lparr>rs_clients := btm_remove conn (rs_clients room)\<rparr>) u e"
      by (fastforce simp: entry_ok_def member_remove)
  qed
  then show ?thesis
    unfolding 1(4) by (simp add: send_room_ok member_def fun_eq_iff)
next
  case (2 client entry)
  have mem: "member room conn = Some (rc_user_id client)" using 2 by (simp add: member_def)
  have inv: "btm_invar (rs_users room)" using assms(2) by (simp add: room_ok_def)
  have "room_ok limits room'"
    unfolding 2(4)
  proof (rule room_ok_remove [OF assms(2) btm_insert_invar [OF inv]])
    fix c u
    assume "member room c = Some u"
    with assms(2) inv show "btm_contains (btm_insert (rc_user_id client)
        (entry\<lparr>rue_connections := removeAll conn (rue_connections entry)\<rparr>) (rs_users room)) u"
      by (auto simp: btm_contains_iff room_ok_def btm_get_insert)
  next
    fix u e
    assume get: "btm_get (btm_insert (rc_user_id client)
        (entry\<lparr>rue_connections := removeAll conn (rue_connections entry)\<rparr>) (rs_users room)) u = Some e"
    show "entry_ok limits (room\<lparr>rs_clients := btm_remove conn (rs_clients room)\<rparr>) u e"
    proof (cases "u = rc_user_id client")
      case True
      with get inv have "e = entry\<lparr>rue_connections := removeAll conn (rue_connections entry)\<rparr>"
        by (simp add: btm_get_insert)
      with room_ok_entry [OF assms(2) 2(2)] 2(3) True show ?thesis
        by (auto simp: entry_ok_def member_remove)
    next
      case False
      with get inv have "btm_get (rs_users room) u = Some e" by (simp add: btm_get_insert)
      with room_ok_entry [OF assms(2)] mem False show ?thesis
        by (fastforce simp: entry_ok_def member_remove)
    qed
  qed
  then show ?thesis by (simp add: 2(4)) (simp add: member_def fun_eq_iff)
qed

end
