(* ===== verification/Web_Rooms_Concurrent.thy ===== *)
theory Web_Rooms_Concurrent
  imports Web_Rooms
begin

text \<open>
  \<open>chudbot-web/src/vibe_rooms.rs\<close>, the room hub under concurrency: every WebSocket connection is a
  thread that joins, may send commands, and leaves; one step is one critical section (a shard lock of a
  map, the lock of a room, or one atomic operation on a counter). The connection id of a thread is its
  index, as \<open>Uuid::new_v4\<close> does not repeat. The addresses that \<open>Active\<close> and \<open>LSiteFound\<close> carry before
  the code has looked them up are ghosts that record where the connection was entered.
\<close>

section \<open>Threads\<close>

datatype rooms_pc =
    JTotal site_id string room_user
  | JSite site_id string room_user
  | JRoom site_id site_addr string room_user
  | JEnter site_id site_addr room_addr string room_user
  | JFailSite site_addr room_error
  | JFailTotal room_error
  | Active site_id site_addr room_addr string
  | LSiteFound site_id site_addr room_addr string
  | LRoomFound site_id site_addr room_addr string
  | LSite site_id site_addr room_addr string
  | LTotal site_id site_addr room_addr string
  | LRoom site_id site_addr room_addr string
  | LCount site_id site_addr
  | LDrop site_id site_addr
  | Done

text \<open>The next section of connection \<open>i\<close>; an active connection leaves.\<close>

fun thread_step :: "room_limits \<Rightarrow> conn_id \<Rightarrow> rooms_pc \<Rightarrow> room_hub \<Rightarrow> rooms_pc \<times> room_hub" where
  "thread_step limits i (JTotal site name user) hub =
     (case join_total limits hub of
        None \<Rightarrow> (Done, hub)
      | Some hub' \<Rightarrow> (JSite site name user, hub'))"
| "thread_step limits i (JSite site name user) hub =
     (case join_site limits site hub of
        (None, hub') \<Rightarrow> (JFailTotal site_busy_error, hub')
      | (Some sa, hub') \<Rightarrow> (JRoom site sa name user, hub'))"
| "thread_step limits i (JRoom site sa name user) hub =
     (case join_room limits sa name hub of
        (None, hub') \<Rightarrow> (JFailSite sa too_many_rooms_error, hub')
      | (Some ra, hub') \<Rightarrow> (JEnter site sa ra name user, hub'))"
| "thread_step limits i (JEnter site sa ra name user) hub =
     (case enter_room limits i user (h_room_store hub ra) of
        EnterClosed \<Rightarrow> (JRoom site sa name user, hub)
      | EnterFull \<Rightarrow> (JFailSite sa room_full_error, hub)
      | Entered room _ \<Rightarrow>
          (Active site sa ra name, hub\<lparr>h_room_store := (h_room_store hub)(ra := room)\<rparr>))"
| "thread_step limits i (JFailSite sa e) hub = (JFailTotal e, release_site sa hub)"
| "thread_step limits i (JFailTotal e) hub = (Done, release_total hub)"
| "thread_step limits i (Active site sa ra name) hub =
     (case btm_get (h_sites hub) site of
        None \<Rightarrow> (Done, hub)
      | Some sa' \<Rightarrow> (LSiteFound site sa' ra name, hub))"
| "thread_step limits i (LSiteFound site sa ra name) hub =
     (case btm_get (sr_rooms (h_site_store hub sa)) name of
        None \<Rightarrow> (Done, hub)
      | Some ra' \<Rightarrow> (LRoomFound site sa ra' name, hub))"
| "thread_step limits i (LRoomFound site sa ra name) hub =
     (case leave_room limits i (h_room_store hub ra) of
        None \<Rightarrow> (Done, hub)
      | Some room \<Rightarrow>
          (LSite site sa ra name, hub\<lparr>h_room_store := (h_room_store hub)(ra := room)\<rparr>))"
| "thread_step limits i (LSite site sa ra name) hub = (LTotal site sa ra name, release_site sa hub)"
| "thread_step limits i (LTotal site sa ra name) hub = (LRoom site sa ra name, release_total hub)"
| "thread_step limits i (LRoom site sa ra name) hub =
     (case detach_room sa name ra hub of
        (True, hub') \<Rightarrow> (LCount site sa, hub')
      | (False, hub') \<Rightarrow> (LDrop site sa, hub'))"
| "thread_step limits i (LCount site sa) hub = (LDrop site sa, release_room_count sa hub)"
| "thread_step limits i (LDrop site sa) hub = (Done, remove_empty_site site sa hub)"
| "thread_step limits i Done hub = (Done, hub)"

text \<open>What else changes a room: the commands of active connections, and the delivery of messages.\<close>

definition deliver :: "conn_id \<Rightarrow> room_state \<Rightarrow> room_state" where
  "deliver conn room = room\<lparr>rs_clients := map (\<lambda>(i, client).
     (i, if i = conn then client\<lparr>rc_outbound := tl (rc_outbound client)\<rparr> else client)) (rs_clients room)\<rparr>"

definition respond :: "room_limits \<Rightarrow> conn_id \<Rightarrow> json \<Rightarrow> room_state \<Rightarrow> room_state" where
  "respond limits conn message room = room\<lparr>rs_clients := map (\<lambda>(i, client).
     (i, if i = conn \<and> length (rc_outbound client) < unat (outbound_queue limits)
         then client\<lparr>rc_outbound := rc_outbound client @ [message]\<rparr> else client)) (rs_clients room)\<rparr>"

inductive rooms_step ::
  "(json \<Rightarrow> string) \<Rightarrow> room_limits \<Rightarrow> room_hub \<times> rooms_pc list \<Rightarrow> room_hub \<times> rooms_pc list \<Rightarrow> bool"
  for ser limits where
  spawn: "ru_states user = [] \<Longrightarrow>
     rooms_step ser limits (hub, ts) (hub, ts @ [JTotal site name user])"
| run: "i < length ts \<Longrightarrow> thread_step limits i (ts ! i) hub = (pc, hub') \<Longrightarrow>
     rooms_step ser limits (hub, ts) (hub', ts[i := pc])"
| broadcast: "i < length ts \<Longrightarrow> ts ! i = Active site sa ra name \<Longrightarrow>
     hub_broadcast limits site name i label event hub = Inr hub' \<Longrightarrow>
     rooms_step ser limits (hub, ts) (hub', ts)"
| set_state: "i < length ts \<Longrightarrow> ts ! i = Active site sa ra name \<Longrightarrow>
     hub_set_state ser limits site name i key v hub = Inr hub' \<Longrightarrow>
     rooms_step ser limits (hub, ts) (hub', ts)"
| deliver: "i < length ts \<Longrightarrow> ts ! i = Active site sa ra name \<Longrightarrow>
     rooms_step ser limits (hub, ts)
       (hub\<lparr>h_room_store := (h_room_store hub)(ra := deliver i (h_room_store hub ra))\<rparr>, ts)"
| respond: "i < length ts \<Longrightarrow> ts ! i = Active site sa ra name \<Longrightarrow>
     rooms_step ser limits (hub, ts)
       (hub\<lparr>h_room_store := (h_room_store hub)(ra := respond limits i message (h_room_store hub ra))\<rparr>, ts)"

inductive rooms_reachable :: "(json \<Rightarrow> string) \<Rightarrow> room_limits \<Rightarrow> room_hub \<Rightarrow> rooms_pc list \<Rightarrow> bool"
  for ser limits where
  start: "rooms_reachable ser limits hub_new []"
| step: "rooms_reachable ser limits hub ts \<Longrightarrow> rooms_step ser limits (hub, ts) (hub', ts') \<Longrightarrow>
     rooms_reachable ser limits hub' ts'"

section \<open>The invariant\<close>

abbreviation sites :: "room_hub \<Rightarrow> site_id \<Rightarrow> site_addr option" where
  "sites hub \<equiv> btm_get (h_sites hub)"

abbreviation rooms :: "room_hub \<Rightarrow> site_addr \<Rightarrow> string \<Rightarrow> room_addr option" where
  "rooms hub sa \<equiv> btm_get (sr_rooms (h_site_store hub sa))"

abbreviation members :: "room_hub \<Rightarrow> room_addr \<Rightarrow> conn_id \<Rightarrow> string option" where
  "members hub ra \<equiv> member (h_room_store hub ra)"

fun holds_total :: "rooms_pc \<Rightarrow> bool" where
  "holds_total (JTotal _ _ _) = False"
| "holds_total (LRoom _ _ _ _) = False"
| "holds_total (LCount _ _) = False"
| "holds_total (LDrop _ _) = False"
| "holds_total Done = False"
| "holds_total _ = True"

fun holds_site :: "site_addr \<Rightarrow> rooms_pc \<Rightarrow> bool" where
  "holds_site a (JRoom _ sa _ _) = (sa = a)"
| "holds_site a (JEnter _ sa _ _ _) = (sa = a)"
| "holds_site a (JFailSite sa _) = (sa = a)"
| "holds_site a (Active _ sa _ _) = (sa = a)"
| "holds_site a (LSiteFound _ sa _ _) = (sa = a)"
| "holds_site a (LRoomFound _ sa _ _) = (sa = a)"
| "holds_site a (LSite _ sa _ _) = (sa = a)"
| "holds_site a _ = False"

fun holds_room_count :: "site_addr \<Rightarrow> rooms_pc \<Rightarrow> bool" where
  "holds_room_count a (LCount _ sa) = (sa = a)"
| "holds_room_count a _ = False"

fun in_room :: "room_addr \<Rightarrow> rooms_pc \<Rightarrow> bool" where
  "in_room r (Active _ _ ra _) = (ra = r)"
| "in_room r (LSiteFound _ _ ra _) = (ra = r)"
| "in_room r (LRoomFound _ _ ra _) = (ra = r)"
| "in_room r _ = False"

text \<open>Threads that will look at a room again before they end.\<close>

fun attends :: "site_addr \<Rightarrow> string \<Rightarrow> room_addr \<Rightarrow> rooms_pc \<Rightarrow> bool" where
  "attends a n r (JEnter _ sa ra name _) = (sa = a \<and> name = n \<and> ra = r)"
| "attends a n r (LSite _ sa ra name) = (sa = a \<and> name = n \<and> ra = r)"
| "attends a n r (LTotal _ sa ra name) = (sa = a \<and> name = n \<and> ra = r)"
| "attends a n r (LRoom _ sa ra name) = (sa = a \<and> name = n \<and> ra = r)"
| "attends a n r _ = False"

fun pc_ok :: "room_hub \<Rightarrow> conn_id \<Rightarrow> rooms_pc \<Rightarrow> bool" where
  "pc_ok hub i (JTotal site name user) = (ru_states user = [])"
| "pc_ok hub i (JSite site name user) = (ru_states user = [])"
| "pc_ok hub i (JRoom site sa name user) = (ru_states user = [] \<and> sites hub site = Some sa)"
| "pc_ok hub i (JEnter site sa ra name user) =
     (ru_states user = [] \<and> sites hub site = Some sa \<and> ra < h_next_room hub
      \<and> (rs_closed (h_room_store hub ra) \<or> rooms hub sa name = Some ra))"
| "pc_ok hub i (JFailSite sa e) = (sa < h_next_site hub)"
| "pc_ok hub i (Active site sa ra name) =
     (sites hub site = Some sa \<and> rooms hub sa name = Some ra \<and> members hub ra i \<noteq> None)"
| "pc_ok hub i (LSiteFound site sa ra name) =
     (sites hub site = Some sa \<and> rooms hub sa name = Some ra \<and> members hub ra i \<noteq> None)"
| "pc_ok hub i (LRoomFound site sa ra name) =
     (sites hub site = Some sa \<and> rooms hub sa name = Some ra \<and> members hub ra i \<noteq> None)"
| "pc_ok hub i (LSite site sa ra name) = (sites hub site = Some sa)"
| "pc_ok hub i (LTotal site sa ra name) = (sa < h_next_site hub)"
| "pc_ok hub i (LRoom site sa ra name) = (sa < h_next_site hub)"
| "pc_ok hub i (LCount site sa) = (sa < h_next_site hub)"
| "pc_ok hub i _ = True"

definition total_ok :: "room_limits \<Rightarrow> room_hub \<Rightarrow> rooms_pc list \<Rightarrow> bool" where
  "total_ok limits hub ts \<longleftrightarrow>
     capacity.tracks holds_total ts (h_connections hub)
     \<and> unat (h_connections hub) \<le> unat (max_connections limits)"

definition site_ok :: "room_limits \<Rightarrow> site_rooms \<Rightarrow> site_addr \<Rightarrow> rooms_pc list \<Rightarrow> bool" where
  "site_ok limits sr sa ts \<longleftrightarrow>
     capacity.tracks (holds_site sa) ts (sr_connections sr)
     \<and> unat (sr_connections sr) \<le> unat (max_connections_per_site limits)
     \<and> btm_invar (sr_rooms sr)
     \<and> unat (sr_room_count sr) = length (sr_rooms sr) + holders (holds_room_count sa) ts
     \<and> unat (sr_room_count sr) \<le> unat (max_rooms_per_site limits)"

definition heap_ok :: "room_limits \<Rightarrow> room_hub \<Rightarrow> bool" where
  "heap_ok limits hub \<longleftrightarrow>
     btm_invar (h_sites hub)
     \<and> (\<forall>site sa. sites hub site = Some sa \<longrightarrow> sa < h_next_site hub)
     \<and> (\<forall>sa name ra. rooms hub sa name = Some ra \<longrightarrow> ra < h_next_room hub \<and> \<not> rs_closed (h_room_store hub ra))
     \<and> (\<forall>sa name sa' name' ra. rooms hub sa name = Some ra \<longrightarrow> rooms hub sa' name' = Some ra \<longrightarrow>
          sa' = sa \<and> name' = name)
     \<and> (\<forall>ra. room_ok limits (h_room_store hub ra))"

definition members_ok :: "room_hub \<Rightarrow> rooms_pc list \<Rightarrow> bool" where
  "members_ok hub ts \<longleftrightarrow>
     (\<forall>ra c. members hub ra c \<noteq> None \<longrightarrow> c < length ts \<and> in_room ra (ts ! c))"

definition attended :: "room_hub \<Rightarrow> rooms_pc list \<Rightarrow> bool" where
  "attended hub ts \<longleftrightarrow>
     (\<forall>sa name ra. rooms hub sa name = Some ra \<longrightarrow> rs_clients (h_room_store hub ra) = [] \<longrightarrow>
        (\<exists>pc\<in>set ts. attends sa name ra pc))"

definition rooms_inv :: "room_limits \<Rightarrow> room_hub \<Rightarrow> rooms_pc list \<Rightarrow> bool" where
  "rooms_inv limits hub ts \<longleftrightarrow>
     total_ok limits hub ts \<and> (\<forall>sa. site_ok limits (h_site_store hub sa) sa ts) \<and> heap_ok limits hub
     \<and> members_ok hub ts \<and> attended hub ts \<and> (\<forall>i<length ts. pc_ok hub i (ts ! i))"

section \<open>Frames\<close>

fun pc_site :: "rooms_pc \<Rightarrow> (site_id \<times> site_addr) option" where
  "pc_site (JRoom site sa _ _) = Some (site, sa)"
| "pc_site (JEnter site sa _ _ _) = Some (site, sa)"
| "pc_site (Active site sa _ _) = Some (site, sa)"
| "pc_site (LSiteFound site sa _ _) = Some (site, sa)"
| "pc_site (LRoomFound site sa _ _) = Some (site, sa)"
| "pc_site (LSite site sa _ _) = Some (site, sa)"
| "pc_site _ = None"

lemma pc_ok_frame:
  assumes "pc_ok hub i pc"
    and "\<And>site sa. pc_site pc = Some (site, sa) \<Longrightarrow> sites hub site = Some sa \<Longrightarrow> sites hub' site = Some sa"
    and "\<And>sa name ra. rooms hub sa name = Some ra \<Longrightarrow> members hub ra i \<noteq> None \<Longrightarrow>
      sa < h_next_site hub \<Longrightarrow> rooms hub' sa name = Some ra \<and> members hub' ra i \<noteq> None"
    and "\<And>sa name ra. ra < h_next_room hub \<Longrightarrow> sa < h_next_site hub \<Longrightarrow>
      rs_closed (h_room_store hub ra) \<or> rooms hub sa name = Some ra \<Longrightarrow>
      rs_closed (h_room_store hub' ra) \<or> rooms hub' sa name = Some ra"
    and "\<And>site sa. sites hub site = Some sa \<Longrightarrow> sa < h_next_site hub"
    and "h_next_site hub \<le> h_next_site hub'" "h_next_room hub \<le> h_next_room hub'"
  shows "pc_ok hub' i pc"
  using assms by (cases pc) (simp_all, blast+)

lemma pcs_update:
  assumes "\<forall>j<length ts. pc_ok hub j (ts ! j)"
    and "\<And>j. j < length ts \<Longrightarrow> j \<noteq> i \<Longrightarrow> pc_ok hub j (ts ! j) \<Longrightarrow> pc_ok hub' j (ts ! j)"
    and "pc_ok hub' i pc"
  shows "\<forall>j<length (ts[i := pc]). pc_ok hub' j (ts[i := pc] ! j)"
proof (intro allI impI)
  fix j
  assume "j < length (ts[i := pc])"
  with assms show "pc_ok hub' j (ts[i := pc] ! j)" by (cases "j = i") simp_all
qed

lemma members_update:
  assumes "members_ok hub ts" "i < length ts"
    and "\<And>ra c. c \<noteq> i \<Longrightarrow> members hub' ra c \<noteq> None \<Longrightarrow> members hub ra c \<noteq> None"
    and "\<And>ra. members hub' ra i \<noteq> None \<Longrightarrow> in_room ra pc"
  shows "members_ok hub' (ts[i := pc])"
  unfolding members_ok_def
proof (intro allI impI)
  fix ra c
  assume m: "members hub' ra c \<noteq> None"
  show "c < length (ts[i := pc]) \<and> in_room ra (ts[i := pc] ! c)"
  proof (cases "c = i")
    case True
    with m assms(2,4) show ?thesis by simp
  next
    case False
    from assms(3) [OF False m] assms(1) have "c < length ts \<and> in_room ra (ts ! c)"
      unfolding members_ok_def by blast
    with False show ?thesis by simp
  qed
qed

lemma attended_update:
  assumes att: "attended hub ts" and i: "i < length ts"
    and step: "\<And>sa name ra. rooms hub' sa name = Some ra \<Longrightarrow> rs_clients (h_room_store hub' ra) = [] \<Longrightarrow>
      (rooms hub sa name = Some ra \<and> rs_clients (h_room_store hub ra) = []
        \<and> (attends sa name ra (ts ! i) \<longrightarrow> attends sa name ra pc)) \<or> attends sa name ra pc"
  shows "attended hub' (ts[i := pc])"
  unfolding attended_def
proof (intro allI impI)
  fix sa name ra
  assume new: "rooms hub' sa name = Some ra" "rs_clients (h_room_store hub' ra) = []"
  have pc: "pc \<in> set (ts[i := pc])" using i by (simp add: set_update_memI)
  show "\<exists>pc'\<in>set (ts[i := pc]). attends sa name ra pc'"
  proof (cases "attends sa name ra pc")
    case True
    with pc show ?thesis by blast
  next
    case False
    with step [OF new] att obtain pc' where pc': "pc' \<in> set ts" "attends sa name ra pc'" "pc' \<noteq> ts ! i"
      unfolding attended_def by blast
    then obtain j where "j < length ts" "ts ! j = pc'" "j \<noteq> i" by (auto simp: in_set_conv_nth)
    then have "pc' \<in> set (ts[i := pc])" by (metis length_list_update nth_list_update_neq nth_mem)
    with pc' show ?thesis by blast
  qed
qed

lemma site_ok_same:
  assumes "site_ok limits sr sa ts" "i < length ts" "holds_site sa (ts ! i) = holds_site sa pc"
    and "holds_room_count sa (ts ! i) = holds_room_count sa pc"
  shows "site_ok limits sr sa (ts[i := pc])"
  using assms holders_update [OF assms(2), of "holds_room_count sa" pc]
  by (auto simp: site_ok_def capacity.tracks_same split: if_splits)

lemma total_ok_same:
  "total_ok limits hub ts \<Longrightarrow> i < length ts \<Longrightarrow> holds_total (ts ! i) = holds_total pc \<Longrightarrow>
   h_connections hub' = h_connections hub \<Longrightarrow> total_ok limits hub' (ts[i := pc])"
  by (simp add: total_ok_def capacity.tracks_same)

lemma rooms_invD:
  assumes "rooms_inv limits hub ts"
  shows "total_ok limits hub ts" "site_ok limits (h_site_store hub sa) sa ts" "heap_ok limits hub"
    "members_ok hub ts" "attended hub ts" "\<forall>i<length ts. pc_ok hub i (ts ! i)"
  using assms by (simp_all add: rooms_inv_def)

lemma heap_okD:
  assumes "heap_ok limits hub"
  shows "btm_invar (h_sites hub)" "sites hub site = Some sa \<Longrightarrow> sa < h_next_site hub"
    "rooms hub a name = Some ra \<Longrightarrow> ra < h_next_room hub \<and> \<not> rs_closed (h_room_store hub ra)"
    "rooms hub a name = Some ra \<Longrightarrow> rooms hub a' name' = Some ra \<Longrightarrow> a' = a \<and> name' = name"
    "room_ok limits (h_room_store hub ra)"
  using assms unfolding heap_ok_def by blast+

text \<open>A step that changes no map and no room.\<close>

definition same_shape :: "room_hub \<Rightarrow> room_hub \<Rightarrow> bool" where
  "same_shape hub hub' \<longleftrightarrow> h_sites hub' = h_sites hub \<and> h_room_store hub' = h_room_store hub
     \<and> (\<forall>sa. sr_rooms (h_site_store hub' sa) = sr_rooms (h_site_store hub sa))
     \<and> h_next_site hub' = h_next_site hub \<and> h_next_room hub' = h_next_room hub"

lemma same_shape_pc_ok: "same_shape hub hub' \<Longrightarrow> pc_ok hub' i pc = pc_ok hub i pc"
  by (cases pc) (simp_all add: same_shape_def)

lemma inv_same_shape:
  assumes inv: "rooms_inv limits hub ts" and i: "i < length ts" and same: "same_shape hub hub'"
    and total: "total_ok limits hub' (ts[i := pc])"
    and site: "\<And>sa. site_ok limits (h_site_store hub' sa) sa (ts[i := pc])"
    and pc: "pc_ok hub i pc"
    and rooms: "\<And>ra. in_room ra (ts ! i) \<Longrightarrow> in_room ra pc"
    and att: "\<And>sa name ra. attends sa name ra (ts ! i) \<Longrightarrow> rooms hub sa name = Some ra \<Longrightarrow>
      rs_clients (h_room_store hub ra) = [] \<Longrightarrow> attends sa name ra pc"
  shows "rooms_inv limits hub' (ts[i := pc])"
proof -
  note shape = same [unfolded same_shape_def]
  have "heap_ok limits hub'" using rooms_invD(3) [OF inv] shape by (simp add: heap_ok_def)
  moreover have "members_ok hub' (ts[i := pc])"
  proof (rule members_update [OF rooms_invD(4) [OF inv] i])
    fix ra
    assume "members hub' ra i \<noteq> None"
    then have "members hub ra i \<noteq> None" using shape by simp
    then show "in_room ra pc" using rooms_invD(4) [OF inv] rooms by (auto simp: members_ok_def)
  qed (use shape in simp)
  moreover have "attended hub' (ts[i := pc])"
    by (rule attended_update [OF rooms_invD(5) [OF inv] i]) (use shape att in auto)
  moreover have "\<forall>j<length (ts[i := pc]). pc_ok hub' j (ts[i := pc] ! j)"
    by (rule pcs_update [OF rooms_invD(6) [OF inv]]) (use pc in \<open>simp_all add: same_shape_pc_ok [OF same]\<close>)
  ultimately show ?thesis using total site by (simp add: rooms_inv_def)
qed

lemma same_shape_refl [simp]: "same_shape hub hub"
  by (simp add: same_shape_def)

lemma same_shape_counters [simp]:
  "same_shape hub (hub\<lparr>h_connections := c\<rparr>)" "same_shape hub (release_total hub)"
  "same_shape hub (release_site sa hub)" "same_shape hub (release_room_count sa hub)"
  by (simp_all add: same_shape_def release_total_def release_site_def release_room_count_def)

section \<open>Steps on the counters\<close>

lemma total_ok_reserve:
  assumes "total_ok limits hub ts" "i < length ts" "\<not> holds_total (ts ! i)" "holds_total pc"
    and "reserve_capacity (h_connections hub) (max_connections limits) = Some c"
  shows "total_ok limits (hub\<lparr>h_connections := c\<rparr>) (ts[i := pc])"
  using assms capacity.reserve_bound [OF assms(5)]
    capacity.tracks_reserve [OF _ assms(2-5)] by (simp add: total_ok_def)

lemma total_ok_release:
  assumes "total_ok limits hub ts" "i < length ts" "holds_total (ts ! i)" "\<not> holds_total pc"
  shows "total_ok limits (release_total hub) (ts[i := pc])"
proof -
  have "0 < unat (h_connections hub)"
    using assms(1,3) capacity.tracks_held [OF _ nth_mem [OF assms(2)]] unfolding total_ok_def by blast
  with assms show ?thesis
    by (simp add: total_ok_def release_total_def capacity.tracks_release capacity.release_level) linarith
qed

lemma site_ok_reserve:
  assumes "site_ok limits sr sa ts" "i < length ts" "\<not> holds_site sa (ts ! i)" "holds_site sa pc"
    and "holds_room_count sa (ts ! i) = holds_room_count sa pc"
    and "reserve_capacity (sr_connections sr) (max_connections_per_site limits) = Some c"
  shows "site_ok limits (sr\<lparr>sr_connections := c\<rparr>) sa (ts[i := pc])"
  using assms capacity.reserve_bound [OF assms(6)] holders_update [OF assms(2), of "holds_room_count sa" pc]
    capacity.tracks_reserve [OF _ assms(2,3,4,6)]
  by (auto simp: site_ok_def split: if_splits)

lemma site_ok_release:
  assumes "site_ok limits sr sa ts" "i < length ts" "holds_site sa (ts ! i)" "\<not> holds_site sa pc"
    and "holds_room_count sa (ts ! i) = holds_room_count sa pc"
  shows "site_ok limits (sr\<lparr>sr_connections := release_capacity (sr_connections sr)\<rparr>) sa (ts[i := pc])"
proof -
  have "0 < unat (sr_connections sr)"
    using assms(1,3) capacity.tracks_held [OF _ nth_mem [OF assms(2)]] unfolding site_ok_def by blast
  with assms holders_update [OF assms(2), of "holds_room_count sa" pc] show ?thesis
    by (auto simp: site_ok_def capacity.tracks_release capacity.release_level split: if_splits)
qed

lemma site_ok_release_count:
  assumes "site_ok limits sr sa ts" "i < length ts" "holds_site sa (ts ! i) = holds_site sa pc"
    and "holds_room_count sa (ts ! i)" "\<not> holds_room_count sa pc"
  shows "site_ok limits (sr\<lparr>sr_room_count := release_capacity (sr_room_count sr)\<rparr>) sa (ts[i := pc])"
proof -
  have pos: "0 < holders (holds_room_count sa) ts"
    using assms(2,4) nth_mem by (metis holders_pos)
  then have "0 < unat (sr_room_count sr)" using assms(1) by (simp add: site_ok_def)
  with assms pos holders_update [OF assms(2), of "holds_room_count sa" pc] show ?thesis
    by (auto simp: site_ok_def capacity.tracks_same capacity.release_level)
qed

lemma holds_flags:
  "holds_site sa (JTotal s n u) = False" "holds_site sa (JSite s n u) = False"
  by simp_all

text \<open>A step of thread \<open>i\<close> that only moves its program counter.\<close>

lemma inv_goto:
  assumes "rooms_inv limits hub ts" "i < length ts" "holds_total (ts ! i) = holds_total pc"
    and "\<And>sa. holds_site sa (ts ! i) = holds_site sa pc"
    and "\<And>sa. holds_room_count sa (ts ! i) = holds_room_count sa pc"
    and "pc_ok hub i pc" "\<And>ra. in_room ra (ts ! i) \<Longrightarrow> in_room ra pc"
    and "\<And>sa name ra. attends sa name ra (ts ! i) \<Longrightarrow> rooms hub sa name = Some ra \<Longrightarrow>
      rs_clients (h_room_store hub ra) = [] \<Longrightarrow> attends sa name ra pc"
  shows "rooms_inv limits hub (ts[i := pc])"
  by (rule inv_same_shape [OF assms(1,2) same_shape_refl
        total_ok_same [OF rooms_invD(1) [OF assms(1)] assms(2,3) refl]
        site_ok_same [OF rooms_invD(2) [OF assms(1)] assms(2,4,5)] assms(6,7,8)])

lemma inv_release_total:
  assumes "rooms_inv limits hub ts" "i < length ts" "holds_total (ts ! i)" "\<not> holds_total pc"
    and "\<And>sa. holds_site sa (ts ! i) = holds_site sa pc"
    and "\<And>sa. holds_room_count sa (ts ! i) = holds_room_count sa pc"
    and "pc_ok hub i pc" "\<And>ra. in_room ra (ts ! i) \<Longrightarrow> in_room ra pc"
    and "\<And>sa name ra. attends sa name ra (ts ! i) \<Longrightarrow> attends sa name ra pc"
  shows "rooms_inv limits (release_total hub) (ts[i := pc])"
proof (rule inv_same_shape [OF assms(1,2) same_shape_counters(2)
      total_ok_release [OF rooms_invD(1) [OF assms(1)] assms(2-4)] _ assms(7,8)])
  fix sa
  show "site_ok limits (h_site_store (release_total hub) sa) sa (ts[i := pc])"
    using site_ok_same [OF rooms_invD(2) [OF assms(1)] assms(2,5,6)] by (simp add: release_total_def)
qed (assumption | erule assms(9))+

lemma inv_release_site:
  assumes "rooms_inv limits hub ts" "i < length ts" "holds_total (ts ! i) = holds_total pc"
    and "\<And>sb. holds_site sb (ts ! i) \<longleftrightarrow> sb = sa" "\<And>sb. \<not> holds_site sb pc"
    and "\<And>sb. holds_room_count sb (ts ! i) = holds_room_count sb pc"
    and "pc_ok hub i pc" "\<And>ra. in_room ra (ts ! i) \<Longrightarrow> in_room ra pc"
    and "\<And>sa name ra. attends sa name ra (ts ! i) \<Longrightarrow> attends sa name ra pc"
  shows "rooms_inv limits (release_site sa hub) (ts[i := pc])"
proof (rule inv_same_shape [OF assms(1,2) same_shape_counters(3) _ _ assms(7,8)])
  show "total_ok limits (release_site sa hub) (ts[i := pc])"
    by (rule total_ok_same [OF rooms_invD(1) [OF assms(1)] assms(2,3)]) (simp add: release_site_def)
next
  fix sb
  show "site_ok limits (h_site_store (release_site sa hub) sb) sb (ts[i := pc])"
  proof (cases "sb = sa")
    case True
    with site_ok_release [OF rooms_invD(2) [OF assms(1)] assms(2), of sa pc] assms(4,5,6)
    show ?thesis by (simp add: release_site_def)
  next
    case False
    with site_ok_same [OF rooms_invD(2) [OF assms(1)] assms(2), of sb pc] assms(4,5,6)
    show ?thesis by (simp add: release_site_def)
  qed
qed (assumption | erule assms(9))+

lemma inv_release_room_count:
  assumes "rooms_inv limits hub ts" "i < length ts" "ts ! i = LCount site sa"
  shows "rooms_inv limits (release_room_count sa hub) (ts[i := LDrop site sa])"
proof (rule inv_same_shape [OF assms(1,2) same_shape_counters(4)])
  show "total_ok limits (release_room_count sa hub) (ts[i := LDrop site sa])"
    by (rule total_ok_same [OF rooms_invD(1) [OF assms(1)] assms(2)])
      (simp_all add: assms(3) release_room_count_def)
next
  fix sb
  show "site_ok limits (h_site_store (release_room_count sa hub) sb) sb (ts[i := LDrop site sa])"
  proof (cases "sb = sa")
    case True
    with site_ok_release_count [OF rooms_invD(2) [OF assms(1)] assms(2), of sa "LDrop site sa"] assms(3)
    show ?thesis by (simp add: release_room_count_def)
  next
    case False
    with site_ok_same [OF rooms_invD(2) [OF assms(1)] assms(2), of sb "LDrop site sa"] assms(3)
    show ?thesis by (simp add: release_room_count_def)
  qed
qed (simp_all add: assms(3))

lemma inv_pc_ok: "rooms_inv limits hub ts \<Longrightarrow> i < length ts \<Longrightarrow> pc_ok hub i (ts ! i)"
  by (simp add: rooms_inv_def)

lemma inv_join_total:
  assumes inv: "rooms_inv limits hub ts" and i: "i < length ts" and pc: "ts ! i = JTotal site name user"
    and step: "thread_step limits i (ts ! i) hub = (pc', hub')"
  shows "rooms_inv limits hub' (ts[i := pc'])"
proof (cases "join_total limits hub")
  case None
  with step pc have *: "pc' = Done" "hub' = hub" by simp_all
  show ?thesis unfolding * by (rule inv_goto [OF inv i]) (simp_all add: pc)
next
  case (Some h)
  then obtain c where c: "reserve_capacity (h_connections hub) (max_connections limits) = Some c"
    and h: "h = hub\<lparr>h_connections := c\<rparr>" by (auto simp: join_total_def)
  from Some step pc h have *: "pc' = JSite site name user" "hub' = hub\<lparr>h_connections := c\<rparr>" by simp_all
  show ?thesis
    unfolding *
  proof (rule inv_same_shape [OF inv i same_shape_counters(1)])
    show "total_ok limits (hub\<lparr>h_connections := c\<rparr>) (ts[i := JSite site name user])"
      by (rule total_ok_reserve [OF rooms_invD(1) [OF inv] i _ _ c]) (simp_all add: pc)
    show "site_ok limits (h_site_store (hub\<lparr>h_connections := c\<rparr>) sa) sa (ts[i := JSite site name user])" for sa
      using site_ok_same [OF rooms_invD(2) [OF inv] i, of sa "JSite site name user"] by (simp add: pc)
  qed (use inv_pc_ok [OF inv i] pc in simp_all)
qed

section \<open>Steps on the maps\<close>

text \<open>The parts of the configuration's validation that the hub relies on.\<close>

definition limits_positive :: "room_limits \<Rightarrow> bool" where
  "limits_positive limits \<longleftrightarrow> max_connections_per_site limits \<noteq> 0 \<and> max_connections_per_room limits \<noteq> 0"

lemma held_site_lt:
  assumes "heap_ok limits hub" "pc_ok hub i pc"
  shows "holds_site sa pc \<or> holds_room_count sa pc \<Longrightarrow> sa < h_next_site hub"
  using assms heap_okD(2) [OF assms(1)] by (cases pc) auto

lemma fresh_site_holders:
  assumes "rooms_inv limits hub ts"
  shows "holders (holds_site (h_next_site hub)) ts = 0" "holders (holds_room_count (h_next_site hub)) ts = 0"
  using held_site_lt [OF rooms_invD(3) [OF assms]] rooms_invD(6) [OF assms]
  by (force simp: holders_0 in_set_conv_nth)+

lemma not_in_room_not_member:
  "rooms_inv limits hub ts \<Longrightarrow> \<not> in_room ra (ts ! i) \<Longrightarrow> members hub ra i = None"
  using rooms_invD(4) [of limits hub ts] unfolding members_ok_def by blast

lemma inv_join_site_vacant:
  assumes inv: "rooms_inv limits hub ts" and i: "i < length ts" and pc: "ts ! i = JSite site name user"
    and lim: "limits_positive limits" and vacant: "sites hub site = None"
  defines "sa \<equiv> h_next_site hub"
  defines "hub' \<equiv> hub\<lparr>h_site_store := (h_site_store hub)(sa := site_rooms_default\<lparr>sr_connections := 1\<rparr>),
    h_sites := btm_insert site sa (h_sites hub), h_next_site := Suc sa\<rparr>"
  shows "rooms_inv limits hub' (ts[i := JRoom site sa name user])"
proof -
  note heap = rooms_invD(3) [OF inv]
  let ?pc = "JRoom site sa name user"
  have sites': "sites hub' = (sites hub)(site \<mapsto> sa)"
    using heap_okD(1) [OF heap] by (simp add: hub'_def btm_get_insert)
  have rooms': "rooms hub' sb = (if sb = sa then Map.empty else rooms hub sb)" for sb
    by (simp add: hub'_def site_rooms_default_def fun_eq_iff)
  have store: "h_room_store hub' = h_room_store hub" "h_next_room hub' = h_next_room hub"
    "h_next_site hub' = Suc sa" by (simp_all add: hub'_def)
  have "total_ok limits hub' (ts[i := ?pc])"
    by (rule total_ok_same [OF rooms_invD(1) [OF inv] i]) (simp_all add: pc hub'_def)
  moreover have "site_ok limits (h_site_store hub' sb) sb (ts[i := ?pc])" for sb
  proof (cases "sb = sa")
    case True
    have one: "reserve_capacity 0 (max_connections_per_site limits) = Some 1"
      using lim by (simp add: reserve_capacity_def limits_positive_def word_gt_0)
    have "site_ok limits site_rooms_default sa ts"
      using fresh_site_holders [OF inv] by (simp add: site_ok_def site_rooms_default_def capacity.tracks_def sa_def)
    moreover have "\<not> holds_site sa (ts ! i)" by (simp add: pc)
    ultimately have "site_ok limits (site_rooms_default\<lparr>sr_connections := 1\<rparr>) sa (ts[i := ?pc])"
      using i one by (intro site_ok_reserve) (simp_all add: pc site_rooms_default_def)
    with True show ?thesis by (simp add: hub'_def)
  next
    case False
    then show ?thesis
      using site_ok_same [OF rooms_invD(2) [OF inv] i, of sb ?pc] by (simp add: hub'_def pc)
  qed
  moreover have "heap_ok limits hub'"
    unfolding heap_ok_def sites' rooms' store
  proof (intro conjI allI impI)
    show "btm_invar (h_sites hub')" using heap_okD(1) [OF heap] by (simp add: hub'_def btm_insert_invar)
  next
    fix s b
    assume "((sites hub)(site \<mapsto> sa)) s = Some b"
    then show "b < Suc sa" using heap_okD(2) [OF heap, of s b] by (auto simp: sa_def split: if_splits)
  qed (use heap_okD(3-5) [OF heap] in \<open>auto split: if_splits\<close>)
  moreover have "members_ok hub' (ts[i := ?pc])"
    by (rule members_update [OF rooms_invD(4) [OF inv] i])
      (use not_in_room_not_member [OF inv] in \<open>simp_all add: store pc\<close>)
  moreover have "attended hub' (ts[i := ?pc])"
    by (rule attended_update [OF rooms_invD(5) [OF inv] i]) (simp_all add: rooms' store pc split: if_splits)
  moreover have "\<forall>j<length (ts[i := ?pc]). pc_ok hub' j (ts[i := ?pc] ! j)"
  proof (rule pcs_update [OF rooms_invD(6) [OF inv]])
    fix j
    assume "pc_ok hub j (ts ! j)"
    then show "pc_ok hub' j (ts ! j)"
      by (rule pc_ok_frame)
        (use vacant heap_okD(2) [OF heap] in \<open>auto simp: sites' rooms' store sa_def\<close>)
  next
    show "pc_ok hub' i ?pc" using inv_pc_ok [OF inv i] by (simp add: pc sites')
  qed
  ultimately show ?thesis by (simp add: rooms_inv_def)
qed

lemma inv_join_site:
  assumes inv: "rooms_inv limits hub ts" and i: "i < length ts" and pc: "ts ! i = JSite site name user"
    and lim: "limits_positive limits" and step: "thread_step limits i (ts ! i) hub = (pc', hub')"
  shows "rooms_inv limits hub' (ts[i := pc'])"
proof (cases "sites hub site")
  case None
  have "reserve_capacity 0 (max_connections_per_site limits) = Some 1"
    using lim by (simp add: reserve_capacity_def limits_positive_def word_gt_0)
  with None step pc have "pc' = JRoom site (h_next_site hub) name user"
    "hub' = hub\<lparr>h_site_store := (h_site_store hub)(h_next_site hub := site_rooms_default\<lparr>sr_connections := 1\<rparr>),
      h_sites := btm_insert site (h_next_site hub) (h_sites hub), h_next_site := Suc (h_next_site hub)\<rparr>"
    by (auto simp: join_site_def Let_def site_rooms_default_def)
  with inv_join_site_vacant [OF inv i pc lim None] show ?thesis by simp
next
  case (Some sa)
  show ?thesis
  proof (cases "reserve_capacity (sr_connections (h_site_store hub sa)) (max_connections_per_site limits)")
    case None
    with Some step pc have *: "pc' = JFailTotal site_busy_error" "hub' = hub" by (simp_all add: join_site_def)
    show ?thesis unfolding * by (rule inv_goto [OF inv i]) (simp_all add: pc)
  next
    case (Some c)
    let ?sr = "(h_site_store hub sa)\<lparr>sr_connections := c\<rparr>"
    let ?pc = "JRoom site sa name user"
    from \<open>sites hub site = Some sa\<close> Some step pc
    have *: "pc' = ?pc" "hub' = hub\<lparr>h_site_store := (h_site_store hub)(sa := ?sr)\<rparr>"
      by (simp_all add: join_site_def)
    show ?thesis
      unfolding *
    proof (rule inv_same_shape [OF inv i])
      show "same_shape hub (hub\<lparr>h_site_store := (h_site_store hub)(sa := ?sr)\<rparr>)" by (simp add: same_shape_def)
      show "total_ok limits (hub\<lparr>h_site_store := (h_site_store hub)(sa := ?sr)\<rparr>) (ts[i := ?pc])"
        by (rule total_ok_same [OF rooms_invD(1) [OF inv] i]) (simp_all add: pc)
    next
      fix sb
      show "site_ok limits (h_site_store (hub\<lparr>h_site_store := (h_site_store hub)(sa := ?sr)\<rparr>) sb) sb (ts[i := ?pc])"
        using site_ok_reserve [OF rooms_invD(2) [OF inv] i _ _ _ Some, of ?pc]
          site_ok_same [OF rooms_invD(2) [OF inv] i, of sb ?pc] by (cases "sb = sa") (simp_all add: pc)
    qed (use inv_pc_ok [OF inv i] \<open>sites hub site = Some sa\<close> pc in simp_all)
  qed
qed

lemma fresh_room_members:
  assumes "rooms_inv limits hub ts"
  shows "members hub (h_next_room hub) = Map.empty"
proof
  fix c
  show "members hub (h_next_room hub) c = None"
  proof (rule ccontr)
    assume "members hub (h_next_room hub) c \<noteq> None"
    with rooms_invD(4) [OF assms] have "c < length ts" "in_room (h_next_room hub) (ts ! c)"
      unfolding members_ok_def by blast+
    with rooms_invD(6) [OF assms] heap_okD(3) [OF rooms_invD(3) [OF assms]] show False
      by (cases "ts ! c") force+
  qed
qed

lemma inv_join_room_new:
  assumes inv: "rooms_inv limits hub ts" and i: "i < length ts" and pc: "ts ! i = JRoom site sa name user"
    and none: "rooms hub sa name = None"
    and cap: "reserve_capacity (sr_room_count (h_site_store hub sa)) (max_rooms_per_site limits) = Some c"
  defines "ra \<equiv> h_next_room hub"
  defines "hub' \<equiv> hub\<lparr>h_room_store := (h_room_store hub)(ra := room_state_default),
    h_site_store := (h_site_store hub)(sa := (h_site_store hub sa)
      \<lparr>sr_rooms := btm_insert name ra (sr_rooms (h_site_store hub sa)), sr_room_count := c\<rparr>),
    h_next_room := Suc ra\<rparr>"
  shows "rooms_inv limits hub' (ts[i := JEnter site sa ra name user])"
proof -
  note heap = rooms_invD(3) [OF inv]
  let ?pc = "JEnter site sa ra name user"
  have sinv: "btm_invar (sr_rooms (h_site_store hub sa))"
    using rooms_invD(2) [OF inv, of sa] by (simp add: site_ok_def)
  have rooms': "rooms hub' sb n = (if sb = sa \<and> n = name then Some ra else rooms hub sb n)" for sb n
    using sinv by (simp add: hub'_def btm_get_insert)
  have store: "h_sites hub' = h_sites hub" "h_next_room hub' = Suc ra" "h_next_site hub' = h_next_site hub"
    "h_room_store hub' = (h_room_store hub)(ra := room_state_default)" by (simp_all add: hub'_def)
  have members': "members hub' r = members hub r" for r
    using fresh_room_members [OF inv] by (simp add: store ra_def room_state_default_def member_def fun_eq_iff)
  have fresh: "rooms hub sb n \<noteq> Some ra" for sb n
    using heap_okD(3) [OF heap, of sb n ra] by (auto simp: ra_def)
  have "total_ok limits hub' (ts[i := ?pc])"
    by (rule total_ok_same [OF rooms_invD(1) [OF inv] i]) (simp_all add: pc hub'_def)
  moreover have "site_ok limits (h_site_store hub' sb) sb (ts[i := ?pc])" for sb
  proof (cases "sb = sa")
    case True
    have "site_ok limits (h_site_store hub sa) sa (ts[i := ?pc])"
      using site_ok_same [OF rooms_invD(2) [OF inv] i, of sa ?pc] by (simp add: pc)
    with True sinv none capacity.reserve_level [OF cap] capacity.reserve_bound [OF cap] show ?thesis
      by (simp add: site_ok_def hub'_def btm_insert_invar btm_insert_length)
  next
    case False
    then show ?thesis
      using site_ok_same [OF rooms_invD(2) [OF inv] i, of sb ?pc] by (simp add: hub'_def pc)
  qed
  moreover have "heap_ok limits hub'"
    unfolding heap_ok_def rooms' store
  proof (intro conjI allI impI)
    show "btm_invar (h_sites hub)" by (rule heap_okD(1) [OF heap])
  next
    fix sb n r
    assume get: "(if sb = sa \<and> n = name then Some ra else rooms hub sb n) = Some r"
    then show "r < Suc ra"
      using heap_okD(3) [OF heap, of sb n r] by (auto simp: ra_def split: if_splits)
    show "\<not> rs_closed (((h_room_store hub)(ra := room_state_default)) r)"
      using get heap_okD(3) [OF heap, of sb n r] by (auto simp: room_state_default_def split: if_splits)
  next
    fix sb n sb' n' r
    assume "(if sb = sa \<and> n = name then Some ra else rooms hub sb n) = Some r"
      "(if sb' = sa \<and> n' = name then Some ra else rooms hub sb' n') = Some r"
    then show "sb' = sb" "n' = n"
      using heap_okD(4) [OF heap, of sb n r sb' n'] fresh by (auto split: if_splits)
  qed (use heap_okD(2,5) [OF heap] in \<open>auto simp: room_ok_default\<close>)
  moreover have "members_ok hub' (ts[i := ?pc])"
    by (rule members_update [OF rooms_invD(4) [OF inv] i])
      (use not_in_room_not_member [OF inv, of _ i] in \<open>simp_all add: members' pc\<close>)
  moreover have "attended hub' (ts[i := ?pc])"
    by (rule attended_update [OF rooms_invD(5) [OF inv] i])
      (use fresh in \<open>auto simp: rooms' store pc split: if_splits\<close>)
  moreover have "\<forall>j<length (ts[i := ?pc]). pc_ok hub' j (ts[i := ?pc] ! j)"
  proof (rule pcs_update [OF rooms_invD(6) [OF inv]])
    fix j
    assume "pc_ok hub j (ts ! j)"
    then show "pc_ok hub' j (ts ! j)"
      by (rule pc_ok_frame)
        (use none heap_okD(2) [OF heap] fresh [unfolded ra_def] in \<open>auto simp: members' rooms' store ra_def\<close>)
  next
    show "pc_ok hub' i ?pc" using inv_pc_ok [OF inv i] by (simp add: pc store rooms')
  qed
  ultimately show ?thesis by (simp add: rooms_inv_def)
qed

lemma inv_join_room:
  assumes inv: "rooms_inv limits hub ts" and i: "i < length ts" and pc: "ts ! i = JRoom site sa name user"
    and step: "thread_step limits i (ts ! i) hub = (pc', hub')"
  shows "rooms_inv limits hub' (ts[i := pc'])"
proof (cases "rooms hub sa name")
  case (Some ra)
  with step pc have *: "pc' = JEnter site sa ra name user" "hub' = hub" by (simp_all add: join_room_def Let_def)
  show ?thesis
    unfolding *
    by (rule inv_goto [OF inv i])
      (use inv_pc_ok [OF inv i] heap_okD(3) [OF rooms_invD(3) [OF inv] Some] in \<open>simp_all add: pc Some\<close>)
next
  case None
  show ?thesis
  proof (cases "reserve_capacity (sr_room_count (h_site_store hub sa)) (max_rooms_per_site limits)")
    case None
    with \<open>rooms hub sa name = None\<close> step pc
    have *: "pc' = JFailSite sa too_many_rooms_error" "hub' = hub" by (simp_all add: join_room_def Let_def)
    show ?thesis
      unfolding *
      by (rule inv_goto [OF inv i])
        (use inv_pc_ok [OF inv i] heap_okD(2) [OF rooms_invD(3) [OF inv]] in \<open>auto simp: pc\<close>)
  next
    case (Some c)
    from step pc None Some have "pc' = JEnter site sa (h_next_room hub) name user"
      "hub' = hub\<lparr>h_room_store := (h_room_store hub)(h_next_room hub := room_state_default),
        h_site_store := (h_site_store hub)(sa := (h_site_store hub sa)
          \<lparr>sr_rooms := btm_insert name (h_next_room hub) (sr_rooms (h_site_store hub sa)), sr_room_count := c\<rparr>),
        h_next_room := Suc (h_next_room hub)\<rparr>"
      by (simp_all add: join_room_def Let_def)
    with inv_join_room_new [OF inv i pc None Some] show ?thesis by simp
  qed
qed

section \<open>Steps on a room\<close>

lemma inv_room_update:
  assumes inv: "rooms_inv limits hub ts" and i: "i < length ts"
    and ok: "room_ok limits room" and closed: "rs_closed room = rs_closed (h_room_store hub ra)"
    and mem: "\<And>c. c \<noteq> i \<Longrightarrow> member room c = members hub ra c"
    and flags: "holds_total (ts ! i) = holds_total pc" "\<And>sa. holds_site sa (ts ! i) = holds_site sa pc"
      "\<And>sa. holds_room_count sa (ts ! i) = holds_room_count sa pc"
    and here: "member room i \<noteq> None \<Longrightarrow> in_room ra pc"
    and elsewhere: "\<And>r. r \<noteq> ra \<Longrightarrow> in_room r (ts ! i) \<Longrightarrow> in_room r pc"
    and att: "\<And>sa name. rooms hub sa name = Some ra \<Longrightarrow> rs_clients room = [] \<Longrightarrow>
      attends sa name ra pc \<or> rs_clients (h_room_store hub ra) = []
        \<and> (attends sa name ra (ts ! i) \<longrightarrow> attends sa name ra pc)"
    and att_other: "\<And>sa name r. r \<noteq> ra \<Longrightarrow> attends sa name r (ts ! i) \<Longrightarrow> attends sa name r pc"
  defines "hub' \<equiv> hub\<lparr>h_room_store := (h_room_store hub)(ra := room)\<rparr>"
  assumes pc: "pc_ok hub' i pc"
  shows "rooms_inv limits hub' (ts[i := pc])"
proof -
  note heap = rooms_invD(3) [OF inv]
  have store: "h_sites hub' = h_sites hub" "h_next_room hub' = h_next_room hub" "h_next_site hub' = h_next_site hub"
    "h_site_store hub' = h_site_store hub" "h_room_store hub' = (h_room_store hub)(ra := room)"
    by (simp_all add: hub'_def)
  have "total_ok limits hub' (ts[i := pc])"
    by (rule total_ok_same [OF rooms_invD(1) [OF inv] i flags(1)]) (simp add: hub'_def)
  moreover have "site_ok limits (h_site_store hub' sb) sb (ts[i := pc])" for sb
    using site_ok_same [OF rooms_invD(2) [OF inv] i flags(2,3)] by (simp add: store)
  moreover have "heap_ok limits hub'"
    unfolding heap_ok_def store
    using heap_okD(1,2,5) [OF heap] heap_okD(3) [OF heap] heap_okD(4) [OF heap] ok closed
    by auto
  moreover have "members_ok hub' (ts[i := pc])"
  proof (rule members_update [OF rooms_invD(4) [OF inv] i])
    fix r c
    assume "c \<noteq> i" "members hub' r c \<noteq> None"
    then show "members hub r c \<noteq> None" using mem by (auto simp: store split: if_splits)
  next
    fix r
    assume "members hub' r i \<noteq> None"
    then have m: "if r = ra then member room i \<noteq> None else members hub r i \<noteq> None"
      by (simp add: store split: if_splits)
    show "in_room r pc"
    proof (cases "r = ra")
      case True
      with m here show ?thesis by simp
    next
      case False
      with m not_in_room_not_member [OF inv, of r i] have "in_room r (ts ! i)" by metis
      with False show ?thesis by (rule elsewhere)
    qed
  qed
  moreover have "attended hub' (ts[i := pc])"
    by (rule attended_update [OF rooms_invD(5) [OF inv] i])
      (use att att_other in \<open>auto simp: store split: if_splits\<close>)
  moreover have "\<forall>j<length (ts[i := pc]). pc_ok hub' j (ts[i := pc] ! j)"
  proof (rule pcs_update [OF rooms_invD(6) [OF inv] _ pc])
    fix j
    assume "pc_ok hub j (ts ! j)" "j \<noteq> i"
    moreover have "members hub' r j = members hub r j" for r
      using mem [OF \<open>j \<noteq> i\<close>] by (simp add: store)
    moreover have "rs_closed (h_room_store hub' r) = rs_closed (h_room_store hub r)" for r
      using closed by (simp add: store)
    moreover have "h_sites hub' = h_sites hub" "h_site_store hub' = h_site_store hub"
      "h_next_site hub' = h_next_site hub" "h_next_room hub' = h_next_room hub" by (simp_all add: store)
    ultimately show "pc_ok hub' j (ts ! j)"
      by (intro pc_ok_frame [of hub j "ts ! j" hub']) (simp_all add: heap_okD(2) [OF heap])
  qed
  ultimately show ?thesis by (simp add: rooms_inv_def)
qed

lemma clients_empty_iff: "rs_clients room = [] \<longleftrightarrow> member room = Map.empty"
  by (auto simp: member_def fun_eq_iff btm_Nil_iff)

lemma inv_enter:
  assumes inv: "rooms_inv limits hub ts" and i: "i < length ts" and pc: "ts ! i = JEnter site sa ra name user"
    and lim: "limits_positive limits" and step: "thread_step limits i (ts ! i) hub = (pc', hub')"
  shows "rooms_inv limits hub' (ts[i := pc'])"
proof (cases "enter_room limits i user (h_room_store hub ra)")
  case EnterClosed
  with step pc have *: "pc' = JRoom site sa name user" "hub' = hub" by simp_all
  from EnterClosed have "rs_closed (h_room_store hub ra)" by (auto simp: enter_room_def Let_def split: if_splits)
  then have "rooms hub a n \<noteq> Some ra" for a n using heap_okD(3) [OF rooms_invD(3) [OF inv], of a n ra] by blast
  then show ?thesis
    unfolding * by (intro inv_goto [OF inv i]) (use inv_pc_ok [OF inv i] in \<open>auto simp: pc\<close>)
next
  case EnterFull
  with step pc have *: "pc' = JFailSite sa room_full_error" "hub' = hub" by simp_all
  from EnterFull lim have full: "rs_clients (h_room_store hub ra) \<noteq> []"
    by (auto simp: enter_room_def Let_def limits_positive_def unat_eq_0 split: if_splits)
  show ?thesis
    unfolding *
    by (intro inv_goto [OF inv i])
      (use inv_pc_ok [OF inv i] full heap_okD(2) [OF rooms_invD(3) [OF inv]] in \<open>auto simp: pc\<close>)
next
  case (Entered room w)
  have out: "members hub ra i = None" by (rule not_in_room_not_member [OF inv]) (simp add: pc)
  have user: "ru_states user = []" using inv_pc_ok [OF inv i] by (simp add: pc)
  from enter_room_ok [OF Entered heap_okD(5) [OF rooms_invD(3) [OF inv]] out user]
  have ok: "room_ok limits room" and mem: "member room = (members hub ra)(i \<mapsto> ru_id user)" by simp_all
  from Entered have open_room: "\<not> rs_closed (h_room_store hub ra)" and closed: "\<not> rs_closed room"
    by (auto simp: enter_room_def Let_def split: if_splits)
  from step pc Entered have *: "pc' = Active site sa ra name"
    "hub' = hub\<lparr>h_room_store := (h_room_store hub)(ra := room)\<rparr>" by simp_all
  have here: "rooms hub sa name = Some ra" "sites hub site = Some sa"
    using inv_pc_ok [OF inv i] open_room by (simp_all add: pc)
  show ?thesis
    unfolding *
  proof (rule inv_room_update [OF inv i ok])
    show "pc_ok (hub\<lparr>h_room_store := (h_room_store hub)(ra := room)\<rparr>) i (Active site sa ra name)"
      using here by (simp add: mem)
    fix a n
    assume "rs_clients room = []"
    then show "attends a n ra (Active site sa ra name) \<or> rs_clients (h_room_store hub ra) = []
        \<and> (attends a n ra (ts ! i) \<longrightarrow> attends a n ra (Active site sa ra name))"
      by (simp add: clients_empty_iff mem)
  qed (use open_room closed in \<open>auto simp: pc mem\<close>)
qed

lemma leave_room_None: "leave_room limits c room = None \<longleftrightarrow> member room c = None"
proof (cases "btm_get (rs_clients room) c")
  case (Some client)
  then show ?thesis
    by (cases "btm_get (rs_users room) (rc_user_id client)") (simp_all add: leave_room_def member_def Let_def)
qed (simp add: leave_room_def member_def)

lemma inv_leave_room:
  assumes inv: "rooms_inv limits hub ts" and i: "i < length ts" and pc: "ts ! i = LRoomFound site sa ra name"
    and step: "thread_step limits i (ts ! i) hub = (pc', hub')"
  shows "rooms_inv limits hub' (ts[i := pc'])"
proof -
  have found: "sites hub site = Some sa" "rooms hub sa name = Some ra" "members hub ra i \<noteq> None"
    using inv_pc_ok [OF inv i] by (simp_all add: pc)
  then obtain room where room: "leave_room limits i (h_room_store hub ra) = Some room"
    using leave_room_None [of limits i "h_room_store hub ra"] by fastforce
  from leave_room_ok [OF room heap_okD(5) [OF rooms_invD(3) [OF inv]]]
  have ok: "room_ok limits room" and mem: "member room = (members hub ra)(i := None)"
    and closed: "rs_closed room = rs_closed (h_room_store hub ra)" by simp_all
  from step pc room have *: "pc' = LSite site sa ra name"
    "hub' = hub\<lparr>h_room_store := (h_room_store hub)(ra := room)\<rparr>" by simp_all
  show ?thesis
    unfolding *
  proof (rule inv_room_update [OF inv i ok closed])
    fix a n
    assume "rooms hub a n = Some ra"
    with heap_okD(4) [OF rooms_invD(3) [OF inv] found(2)] have "a = sa" "n = name" by simp_all
    then show "attends a n ra (LSite site sa ra name) \<or> rs_clients (h_room_store hub ra) = []
        \<and> (attends a n ra (ts ! i) \<longrightarrow> attends a n ra (LSite site sa ra name))" by simp
  qed (use found in \<open>simp_all add: pc mem\<close>)
qed

text \<open>\<open>remove_empty_room\<close> takes a room out of its site's map and closes it.\<close>

lemma inv_detach:
  assumes inv: "rooms_inv limits hub ts" and i: "i < length ts" and pc: "ts ! i = LRoom site sa ra name"
    and here: "rooms hub sa name = Some ra" and empty: "rs_clients (h_room_store hub ra) = []"
  defines "hub' \<equiv> hub\<lparr>h_room_store := (h_room_store hub)(ra := (h_room_store hub ra)\<lparr>rs_closed := True\<rparr>),
    h_site_store := (h_site_store hub)(sa := (h_site_store hub sa)
      \<lparr>sr_rooms := btm_remove name (sr_rooms (h_site_store hub sa))\<rparr>)\<rparr>"
  shows "rooms_inv limits hub' (ts[i := LCount site sa])"
proof -
  note heap = rooms_invD(3) [OF inv]
  let ?pc = "LCount site sa"
  have sinv: "btm_invar (sr_rooms (h_site_store hub sa))"
    using rooms_invD(2) [OF inv, of sa] by (simp add: site_ok_def)
  have rooms': "rooms hub' sb n = (if sb = sa \<and> n = name then None else rooms hub sb n)" for sb n
    by (simp add: hub'_def)
  have store: "h_sites hub' = h_sites hub" "h_next_room hub' = h_next_room hub" "h_next_site hub' = h_next_site hub"
    by (simp_all add: hub'_def)
  have mem: "members hub' r = members hub r" for r by (simp add: hub'_def member_def fun_eq_iff)
  have closed: "rs_closed (h_room_store hub' r) \<longleftrightarrow> r = ra \<or> rs_closed (h_room_store hub r)" for r
    by (simp add: hub'_def)
  have clients: "rs_clients (h_room_store hub' r) = rs_clients (h_room_store hub r)" for r by (simp add: hub'_def)
  have only: "sb = sa \<and> n = name" if "rooms hub sb n = Some ra" for sb n
    using heap_okD(4) [OF heap here that] .
  have nobody: "members hub ra c = None" for c using empty by (simp add: clients_empty_iff)
  have "total_ok limits hub' (ts[i := ?pc])"
    by (rule total_ok_same [OF rooms_invD(1) [OF inv] i]) (simp_all add: pc hub'_def)
  moreover have "site_ok limits (h_site_store hub' sb) sb (ts[i := ?pc])" for sb
  proof (cases "sb = sa")
    case True
    have old: "site_ok limits (h_site_store hub sa) sa ts" by (rule rooms_invD(2) [OF inv])
    have "length (sr_rooms (h_site_store hub sa)) = Suc (length (btm_remove name (sr_rooms (h_site_store hub sa))))"
      using here by (intro btm_remove_length [OF sinv]) simp
    moreover have "holders (holds_room_count sa) (ts[i := ?pc]) = Suc (holders (holds_room_count sa) ts)"
      using holders_update [OF i, of "holds_room_count sa" ?pc] by (simp add: pc)
    ultimately show ?thesis
      using old True i by (simp add: site_ok_def hub'_def btm_remove_invar capacity.tracks_same pc)
  next
    case False
    then show ?thesis
      using site_ok_same [OF rooms_invD(2) [OF inv] i, of sb ?pc] by (simp add: hub'_def pc)
  qed
  moreover have "room_ok limits (h_room_store hub' r)" for r
    using heap_okD(5) [OF heap, of r] empty by (auto simp: hub'_def room_ok_def entry_ok_def member_def)
  then have "heap_ok limits hub'"
    unfolding heap_ok_def rooms' store closed
    using heap_okD(1,2) [OF heap] heap_okD(3) [OF heap] heap_okD(4) [OF heap] only
    by (auto split: if_splits)
  moreover have "members_ok hub' (ts[i := ?pc])"
    by (rule members_update [OF rooms_invD(4) [OF inv] i])
      (use not_in_room_not_member [OF inv, of _ i] in \<open>simp_all add: mem pc\<close>)
  moreover have "attended hub' (ts[i := ?pc])"
    by (rule attended_update [OF rooms_invD(5) [OF inv] i])
      (auto simp: rooms' clients pc split: if_splits)
  moreover have "\<forall>j<length (ts[i := ?pc]). pc_ok hub' j (ts[i := ?pc] ! j)"
  proof (rule pcs_update [OF rooms_invD(6) [OF inv]])
    fix j
    assume "pc_ok hub j (ts ! j)"
    then show "pc_ok hub' j (ts ! j)"
      by (rule pc_ok_frame)
        (use heap_okD(2) [OF heap] nobody here in \<open>auto simp: store mem closed rooms'\<close>)
  next
    show "pc_ok hub' i ?pc" using inv_pc_ok [OF inv i] by (simp add: pc store)
  qed
  ultimately show ?thesis by (simp add: rooms_inv_def)
qed

lemma inv_remove_room:
  assumes inv: "rooms_inv limits hub ts" and i: "i < length ts" and pc: "ts ! i = LRoom site sa ra name"
    and step: "thread_step limits i (ts ! i) hub = (pc', hub')"
  shows "rooms_inv limits hub' (ts[i := pc'])"
proof (cases "rooms hub sa name = Some ra \<and> rs_clients (h_room_store hub ra) = []")
  case True
  with step pc inv_detach [OF inv i pc] show ?thesis by (auto simp: detach_room_def)
next
  case False
  with step pc have *: "pc' = LDrop site sa" "hub' = hub"
    by (auto simp: detach_room_def split: option.splits if_splits)
  show ?thesis unfolding * by (rule inv_goto [OF inv i]) (use False in \<open>auto simp: pc\<close>)
qed

lemma inv_drop_site:
  assumes inv: "rooms_inv limits hub ts" and i: "i < length ts" and pc: "ts ! i = LDrop site sa"
    and step: "thread_step limits i (ts ! i) hub = (pc', hub')"
  shows "rooms_inv limits hub' (ts[i := pc'])"
proof (cases "sites hub site = Some sa \<and> sr_connections (h_site_store hub sa) = 0
    \<and> sr_room_count (h_site_store hub sa) = 0")
  case False
  with step pc have *: "pc' = Done" "hub' = hub"
    by (auto simp: remove_empty_site_def split: option.splits if_splits)
  show ?thesis unfolding * by (rule inv_goto [OF inv i]) (simp_all add: pc)
next
  case True
  let ?hub = "hub\<lparr>h_sites := btm_remove site (h_sites hub)\<rparr>"
  from True step pc have *: "pc' = Done" "hub' = ?hub" by (simp_all add: remove_empty_site_def)
  note heap = rooms_invD(3) [OF inv]
  have "holders (holds_site sa) ts = 0"
    using True rooms_invD(2) [OF inv, of sa] by (simp add: site_ok_def capacity.tracks_def)
  then have free: "\<not> holds_site sa (ts ! j)" if "j < length ts" for j
    using that by (simp add: holders_0)
  have "total_ok limits ?hub (ts[i := Done])"
    by (rule total_ok_same [OF rooms_invD(1) [OF inv] i]) (simp_all add: pc)
  moreover have "site_ok limits (h_site_store ?hub sb) sb (ts[i := Done])" for sb
    using site_ok_same [OF rooms_invD(2) [OF inv] i, of sb Done] by (simp add: pc)
  moreover have "heap_ok limits ?hub"
    using heap unfolding heap_ok_def by (auto simp: btm_remove_invar split: if_splits)
  moreover have "members_ok ?hub (ts[i := Done])"
    by (rule members_update [OF rooms_invD(4) [OF inv] i])
      (use not_in_room_not_member [OF inv, of _ i] in \<open>simp_all add: pc\<close>)
  moreover have "attended ?hub (ts[i := Done])"
    by (rule attended_update [OF rooms_invD(5) [OF inv] i]) (simp_all add: pc)
  moreover have "\<forall>j<length (ts[i := Done]). pc_ok ?hub j (ts[i := Done] ! j)"
  proof (rule pcs_update [OF rooms_invD(6) [OF inv]])
    fix j
    assume j: "j < length ts" and ok: "pc_ok hub j (ts ! j)"
    show "pc_ok ?hub j (ts ! j)"
      by (rule pc_ok_frame [OF ok])
        (use True free [OF j] heap_okD(2) [OF heap] in \<open>cases "ts ! j"; auto split: if_splits\<close>)+
  qed simp
  ultimately show ?thesis unfolding * by (simp add: rooms_inv_def)
qed

lemma inv_room_same:
  assumes inv: "rooms_inv limits hub ts" and i: "i < length ts"
    and ok: "room_ok limits room" and closed: "rs_closed room = rs_closed (h_room_store hub ra)"
    and mem: "member room = members hub ra"
  shows "rooms_inv limits (hub\<lparr>h_room_store := (h_room_store hub)(ra := room)\<rparr>) ts"
proof -
  have "rooms_inv limits (hub\<lparr>h_room_store := (h_room_store hub)(ra := room)\<rparr>) (ts[i := ts ! i])"
  proof (rule inv_room_update [OF inv i ok closed])
    show "member room i \<noteq> None \<Longrightarrow> in_room ra (ts ! i)"
      using not_in_room_not_member [OF inv, of ra i] mem by metis
    show "pc_ok (hub\<lparr>h_room_store := (h_room_store hub)(ra := room)\<rparr>) i (ts ! i)"
      by (rule pc_ok_frame [OF inv_pc_ok [OF inv i]])
        (use mem closed heap_okD(2) [OF rooms_invD(3) [OF inv]] in \<open>auto split: if_splits\<close>)
  qed (use mem in \<open>simp_all add: clients_empty_iff\<close>)
  then show ?thesis by simp
qed

lemma map_clients_ok:
  assumes "room_ok limits room" and "\<And>c client. rc_user_id (f c client) = rc_user_id client"
    and "\<And>c client. length (rc_outbound client) \<le> unat (outbound_queue limits) \<Longrightarrow>
      length (rc_outbound (f c client)) \<le> unat (outbound_queue limits)"
  shows "room_ok limits (room\<lparr>rs_clients := map (\<lambda>(c, client). (c, f c client)) (rs_clients room)\<rparr>)
    \<and> member (room\<lparr>rs_clients := map (\<lambda>(c, client). (c, f c client)) (rs_clients room)\<rparr>) = member room"
proof -
  let ?r = "room\<lparr>rs_clients := map (\<lambda>(c, client). (c, f c client)) (rs_clients room)\<rparr>"
  have mem: "member ?r = member room"
  proof
    fix c
    show "member ?r c = member room c"
      using assms(2) by (cases "btm_get (rs_clients room) c") (simp_all add: member_def btm_map_get)
  qed
  then have e: "entry_ok limits ?r = entry_ok limits room" by (simp add: entry_ok_def fun_eq_iff)
  have "length (rc_outbound client) \<le> unat (outbound_queue limits)"
    if "btm_get (rs_clients ?r) c = Some client" for c client
    using that assms(1,3) by (auto simp: btm_map_get room_ok_def)
  with assms(1) mem show ?thesis
    unfolding room_ok_def mem e by (simp add: btm_map_invar)
qed

lemma update_room_Inr:
  "update_room ra f hub = Inr hub' \<longleftrightarrow>
   (\<exists>room. f (h_room_store hub ra) = Inr room \<and> hub' = hub\<lparr>h_room_store := (h_room_store hub)(ra := room)\<rparr>)"
  by (auto simp: update_room_def split: sum.splits)

lemma inv_spawn:
  assumes inv: "rooms_inv limits hub ts" and user: "ru_states user = []"
  shows "rooms_inv limits hub (ts @ [JTotal site name user])"
proof -
  have "pc_ok hub i ((ts @ [JTotal site name user]) ! i)" if "i < Suc (length ts)" for i
    using that rooms_invD(6) [OF inv] user by (cases "i = length ts") (simp_all add: nth_append)
  moreover have "members_ok hub (ts @ [JTotal site name user])"
    using rooms_invD(4) [OF inv] unfolding members_ok_def by (simp add: nth_append less_Suc_eq)
  moreover have "attended hub (ts @ [JTotal site name user])"
    using rooms_invD(5) [OF inv] unfolding attended_def by simp
  moreover have "site_ok limits (h_site_store hub sa) sa (ts @ [JTotal site name user])" for sa
    using rooms_invD(2) [OF inv, of sa] by (simp add: site_ok_def capacity.tracks_def)
  moreover have "total_ok limits hub (ts @ [JTotal site name user])"
    using rooms_invD(1) [OF inv] by (simp add: total_ok_def capacity.tracks_def)
  ultimately show ?thesis using rooms_invD(3) [OF inv] by (simp add: rooms_inv_def)
qed

lemma inv_thread_step:
  assumes inv: "rooms_inv limits hub ts" and lim: "limits_positive limits" and i: "i < length ts"
    and step: "thread_step limits i (ts ! i) hub = (pc', hub')"
  shows "rooms_inv limits hub' (ts[i := pc'])"
proof (cases "ts ! i")
  case (JTotal site name user)
  from inv_join_total [OF inv i this step] show ?thesis .
next
  case (JSite site name user)
  from inv_join_site [OF inv i this lim step] show ?thesis .
next
  case (JRoom site sa name user)
  from inv_join_room [OF inv i this step] show ?thesis .
next
  case (JEnter site sa ra name user)
  from inv_enter [OF inv i this lim step] show ?thesis .
next
  case (JFailSite sa e)
  with step have "pc' = JFailTotal e" "hub' = release_site sa hub" by simp_all
  with inv_release_site [OF inv i, of "JFailTotal e" sa] JFailSite show ?thesis by auto
next
  case (JFailTotal e)
  with step have "pc' = Done" "hub' = release_total hub" by simp_all
  with inv_release_total [OF inv i, of Done] JFailTotal show ?thesis by auto
next
  case (Active site sa ra name)
  with inv_pc_ok [OF inv i] step have "pc' = LSiteFound site sa ra name" "hub' = hub" by auto
  with inv_goto [OF inv i, of "LSiteFound site sa ra name"] inv_pc_ok [OF inv i] Active show ?thesis by auto
next
  case (LSiteFound site sa ra name)
  with inv_pc_ok [OF inv i] step have "pc' = LRoomFound site sa ra name" "hub' = hub" by auto
  with inv_goto [OF inv i, of "LRoomFound site sa ra name"] inv_pc_ok [OF inv i] LSiteFound show ?thesis by auto
next
  case (LRoomFound site sa ra name)
  from inv_leave_room [OF inv i this step] show ?thesis .
next
  case (LSite site sa ra name)
  with step have "pc' = LTotal site sa ra name" "hub' = release_site sa hub" by simp_all
  moreover have "sa < h_next_site hub"
    using inv_pc_ok [OF inv i] LSite heap_okD(2) [OF rooms_invD(3) [OF inv]] by simp
  ultimately show ?thesis using inv_release_site [OF inv i, of "LTotal site sa ra name" sa] LSite by auto
next
  case (LTotal site sa ra name)
  with step have "pc' = LRoom site sa ra name" "hub' = release_total hub" by simp_all
  with inv_release_total [OF inv i, of "LRoom site sa ra name"] inv_pc_ok [OF inv i] LTotal
  show ?thesis by auto
next
  case (LRoom site sa ra name)
  from inv_remove_room [OF inv i this step] show ?thesis .
next
  case (LCount site sa)
  with step inv_release_room_count [OF inv i LCount] show ?thesis by simp
next
  case (LDrop site sa)
  from inv_drop_site [OF inv i this step] show ?thesis .
next
  case Done
  with step have "pc' = ts ! i" "hub' = hub" by simp_all
  with inv show ?thesis by simp
qed

lemma rooms_step_inv:
  assumes "rooms_step ser limits (hub, ts) (hub', ts')" "rooms_inv limits hub ts" "limits_positive limits"
  shows "rooms_inv limits hub' ts'"
  using assms(1)
proof (cases rule: rooms_step.cases)
  case (spawn user site name)
  with inv_spawn [OF assms(2)] show ?thesis by simp
next
  case (run i pc)
  with inv_thread_step [OF assms(2,3)] show ?thesis by simp
next
  case (broadcast i site sa ra name label event)
  then obtain r room where "room_broadcast limits i label event (h_room_store hub r) = Inr room"
    "hub' = hub\<lparr>h_room_store := (h_room_store hub)(r := room)\<rparr>"
    by (auto simp: hub_broadcast_def update_room_Inr split: sum.splits option.splits)
  moreover from this(1) have "rs_closed room = rs_closed (h_room_store hub r)"
    by (rule room_broadcast_cases) simp
  ultimately show ?thesis
    using inv_room_same [OF assms(2) broadcast(2), of room r] broadcast(1)
      room_broadcast_ok [OF _ heap_okD(5) [OF rooms_invD(3) [OF assms(2)]]] by blast
next
  case (set_state i site sa ra name key v)
  then obtain r room where "room_set_state ser limits i key v (h_room_store hub r) = Inr room"
    "hub' = hub\<lparr>h_room_store := (h_room_store hub)(r := room)\<rparr>"
    by (auto simp: hub_set_state_def update_room_Inr split: sum.splits option.splits)
  moreover from this(1) have "rs_closed room = rs_closed (h_room_store hub r)"
    by (rule room_set_state_cases) simp
  ultimately show ?thesis
    using inv_room_same [OF assms(2) set_state(2), of room r] set_state(1)
      room_set_state_ok [OF _ heap_okD(5) [OF rooms_invD(3) [OF assms(2)]]] by blast
next
  case (deliver i site sa ra name)
  let ?f = "\<lambda>c client. if c = i then client\<lparr>rc_outbound := tl (rc_outbound client)\<rparr> else client"
  have "room_ok limits (deliver i (h_room_store hub ra)) \<and> member (deliver i (h_room_store hub ra)) = members hub ra"
    unfolding deliver_def
    by (rule map_clients_ok [OF heap_okD(5) [OF rooms_invD(3) [OF assms(2)]], of ?f]) auto
  with deliver inv_room_same [OF assms(2)] show ?thesis by (simp add: deliver_def)
next
  case (respond i site sa ra name message)
  let ?f = "\<lambda>c client. if c = i \<and> length (rc_outbound client) < unat (outbound_queue limits)
    then client\<lparr>rc_outbound := rc_outbound client @ [message]\<rparr> else client"
  have "room_ok limits (respond limits i message (h_room_store hub ra))
    \<and> member (respond limits i message (h_room_store hub ra)) = members hub ra"
    unfolding respond_def
    by (rule map_clients_ok [OF heap_okD(5) [OF rooms_invD(3) [OF assms(2)]], of ?f]) auto
  with respond inv_room_same [OF assms(2)] show ?thesis by (simp add: respond_def)
qed

lemma rooms_inv_start: "rooms_inv limits hub_new []"
  by (auto simp: rooms_inv_def total_ok_def site_ok_def heap_ok_def members_ok_def attended_def hub_new_def
      capacity.tracks_def site_rooms_default_def room_ok_default)
    (simp add: room_state_default_def member_def)

lemma rooms_reachable_inv:
  "rooms_reachable ser limits hub ts \<Longrightarrow> limits_positive limits \<Longrightarrow> rooms_inv limits hub ts"
  by (induction rule: rooms_reachable.induct) (blast intro: rooms_inv_start rooms_step_inv)+

section \<open>Properties\<close>

text \<open>A sample: one connection joins a room under the default limits.\<close>

definition default_room_limits :: room_limits where
  "default_room_limits = room_limits_from \<lparr>cfg_rooms_per_site = 32, cfg_room_connections = 64,
     cfg_room_connections_per_site = 256, cfg_room_connections_total = 1024, cfg_room_user_states = 16,
     cfg_room_user_state_bytes = 65536, cfg_room_outbound_queue = 64\<rparr>"

definition sample_user :: room_user where
  "sample_user = \<lparr>ru_id = ''7'', ru_username = Some ''ada'', ru_display_name = ''Ada'', ru_avatar_url = None,
     ru_anonymous = False, ru_states = []\<rparr>"

fun run_thread :: "room_limits \<Rightarrow> nat \<Rightarrow> nat \<Rightarrow> room_hub \<times> rooms_pc list \<Rightarrow> room_hub \<times> rooms_pc list" where
  "run_thread limits i 0 s = s"
| "run_thread limits i (Suc n) (hub, ts) =
     (let (pc, hub') = thread_step limits i (ts ! i) hub in run_thread limits i n (hub', ts[i := pc]))"

lemma run_thread_reachable:
  "rooms_reachable ser limits hub ts \<Longrightarrow> i < length ts \<Longrightarrow> run_thread limits i n (hub, ts) = (hub', ts') \<Longrightarrow>
   rooms_reachable ser limits hub' ts'"
proof (induction n arbitrary: hub ts)
  case (Suc n)
  obtain pc h where step: "thread_step limits i (ts ! i) hub = (pc, h)" by force
  have "rooms_reachable ser limits h (ts[i := pc])"
    using Suc.prems(1) rooms_step.run [OF Suc.prems(2) step] by (rule rooms_reachable.step)
  with Suc.IH [of h "ts[i := pc]"] Suc.prems(2,3) step show ?case by simp
qed simp

definition sample_state :: "room_hub \<times> rooms_pc list" where
  "sample_state = run_thread default_room_limits 0 (Suc (Suc (Suc (Suc 0)))) (hub_new, [JTotal 3 ''lobby'' sample_user])"

lemma default_limits_positive: "limits_positive default_room_limits"
  by (simp add: limits_positive_def default_room_limits_def room_limits_from_def)

lemma sample_reachable: "rooms_reachable ser default_room_limits (fst sample_state) (snd sample_state)"
proof (rule run_thread_reachable [of _ _ hub_new "[JTotal 3 ''lobby'' sample_user]" 0 "Suc (Suc (Suc (Suc 0)))"])
  have "rooms_step ser default_room_limits (hub_new, []) (hub_new, [] @ [JTotal 3 ''lobby'' sample_user])"
    by (rule rooms_step.spawn) (simp add: sample_user_def)
  with rooms_reachable.start show "rooms_reachable ser default_room_limits hub_new [JTotal 3 ''lobby'' sample_user]"
    by (metis append_Nil rooms_reachable.step)
qed (simp_all add: sample_state_def)

lemma default_limits_values:
  "max_connections default_room_limits = 1024" "max_connections_per_site default_room_limits = 256"
  "max_rooms_per_site default_room_limits = 32" "max_connections_per_room default_room_limits = 64"
  by (simp_all add: default_room_limits_def room_limits_from_def)

lemma sample_active: "snd sample_state = [Active 3 0 0 ''lobby'']"
  by (simp add: sample_state_def join_total_def join_site_def join_room_def enter_room_def
      reserve_capacity_def default_limits_values hub_new_def site_rooms_default_def room_state_default_def
      Let_def btm_get_def)

fun is_active :: "rooms_pc \<Rightarrow> bool" where
  "is_active (Active _ _ _ _) = True"
| "is_active _ = False"

text \<open>
  C16: Under every interleaving of joins, commands and leaves, the counters are exact and the limits
  hold. The deployment-wide counter is the number of connections that hold a place, each site's counter
  the number of connections that hold a place in the site, neither above its maximum (so no more than
  \<open>max_connections\<close> connections are active); no site has more than \<open>max_rooms_per_site\<close> rooms and no
  room more than \<open>max_connections_per_room\<close> clients. In particular no release ever wraps a counter.
\<close>

theorem rooms_capacity:
  assumes "rooms_reachable ser limits hub ts" and "limits_positive limits"
  shows "unat (h_connections hub) = holders holds_total ts
    \<and> holders is_active ts \<le> unat (max_connections limits)
    \<and> (\<forall>sa. unat (sr_connections (h_site_store hub sa)) = holders (holds_site sa) ts
         \<and> unat (sr_connections (h_site_store hub sa)) \<le> unat (max_connections_per_site limits)
         \<and> length (sr_rooms (h_site_store hub sa)) \<le> unat (max_rooms_per_site limits))
    \<and> (\<forall>ra. length (rs_clients (h_room_store hub ra)) \<le> unat (max_connections_per_room limits))"
proof -
  have inv: "rooms_inv limits hub ts" by (rule rooms_reachable_inv [OF assms])
  have "holders is_active ts \<le> holders holds_total ts"
  proof (rule holders_mono)
    fix pc
    assume "is_active pc"
    then show "holds_total pc" by (cases pc) simp_all
  qed
  then have "holders is_active ts \<le> unat (max_connections limits)"
    using rooms_invD(1) [OF inv] by (simp add: total_ok_def capacity.tracks_def)
  moreover have "unat (h_connections hub) = holders holds_total ts"
    using rooms_invD(1) [OF inv] by (simp add: total_ok_def capacity.tracks_def)
  moreover have "length (rs_clients (h_room_store hub ra)) \<le> unat (max_connections_per_room limits)" for ra
    using heap_okD(5) [OF rooms_invD(3) [OF inv], of ra] by (simp add: room_ok_def)
  moreover have "unat (sr_connections (h_site_store hub sa)) = holders (holds_site sa) ts
      \<and> unat (sr_connections (h_site_store hub sa)) \<le> unat (max_connections_per_site limits)
      \<and> length (sr_rooms (h_site_store hub sa)) \<le> unat (max_rooms_per_site limits)" for sa
    using rooms_invD(2) [OF inv, of sa] by (auto simp: site_ok_def capacity.tracks_def)
  ultimately show ?thesis by blast
qed

lemma rooms_capacity_witness:
  "unat (h_connections (fst sample_state)) = 1
   \<and> length (sr_rooms (h_site_store (fst sample_state) 0)) \<le> 32"
  using rooms_capacity [OF sample_reachable [of "\<lambda>_. []"] default_limits_positive]
  by (simp add: sample_active default_limits_values)

text \<open>
  C17: An active connection is never lost. Whatever other connections do, the site and the room it joined
  are still in the hub's maps, the room is the one it entered, open, and lists it as a client under a
  user; so a broadcast with a valid label succeeds, and leaving finds the room to leave.
\<close>

theorem active_connection_found:
  assumes "rooms_reachable ser limits hub ts" and "limits_positive limits"
    and "i < length ts" "ts ! i = Active site sa ra name" and "validate_event_label label = Inr ()"
  shows "hub_room site name hub = Some ra \<and> \<not> rs_closed (h_room_store hub ra)
    \<and> (\<exists>uid entry. member (h_room_store hub ra) i = Some uid
         \<and> btm_get (rs_users (h_room_store hub ra)) uid = Some entry \<and> i \<in> set (rue_connections entry))
    \<and> (\<exists>hub'. hub_broadcast limits site name i label event hub = Inr hub')
    \<and> (\<exists>room'. leave_room limits i (h_room_store hub ra) = Some room')"
proof -
  have inv: "rooms_inv limits hub ts" by (rule rooms_reachable_inv [OF assms(1,2)])
  have pc: "sites hub site = Some sa" "rooms hub sa name = Some ra" "members hub ra i \<noteq> None"
    using inv_pc_ok [OF inv assms(3)] assms(4) by simp_all
  have room: "room_ok limits (h_room_store hub ra)" by (rule heap_okD(5) [OF rooms_invD(3) [OF inv]])
  obtain client where client: "btm_get (rs_clients (h_room_store hub ra)) i = Some client"
    using pc(3) by (auto simp: member_def)
  then have mem: "members hub ra i = Some (rc_user_id client)" by (simp add: member_def)
  with room obtain entry where entry: "btm_get (rs_users (h_room_store hub ra)) (rc_user_id client) = Some entry"
    unfolding room_ok_def btm_contains_iff by blast
  have found: "hub_room site name hub = Some ra" using pc by (simp add: hub_room_def)
  moreover have "i \<in> set (rue_connections entry)"
    using room_ok_entry [OF room entry] mem by (simp add: entry_ok_def)
  moreover have "\<exists>hub'. hub_broadcast limits site name i label event hub = Inr hub'"
    using found client entry assms(5)
    by (simp add: hub_broadcast_def update_room_def room_broadcast_def)
  moreover have "\<exists>room'. leave_room limits i (h_room_store hub ra) = Some room'"
    using leave_room_None [of limits i "h_room_store hub ra"] mem by auto
  ultimately show ?thesis
    using heap_okD(3) [OF rooms_invD(3) [OF inv] pc(2)] mem entry by blast
qed

lemma active_connection_found_witness:
  "hub_room 3 ''lobby'' (fst sample_state) = Some 0
   \<and> (\<exists>hub'. hub_broadcast default_room_limits 3 ''lobby'' 0 ''move'' JNull (fst sample_state) = Inr hub')"
proof -
  have "validate_event_label ''move'' = Inr ()"
    by (simp add: validate_event_label_def validate_token_def MAX_NAME_BYTES_def is_ascii_alphanumeric_def
        is_ascii_lowercase_def starts_with_def)
  with active_connection_found [OF sample_reachable [of "\<lambda>_. []"] default_limits_positive, of 0 3 0 0 "''lobby''"
      "''move''" JNull]
  show ?thesis by (simp add: sample_active)
qed

text \<open>
  C18: Presence is exact. In every reachable state the clients of a room are the connections that are
  active in it (or just about to leave it), and a user is listed exactly while at least one connection of
  that user is a client, with exactly those connections.
\<close>

theorem room_presence:
  assumes "rooms_reachable ser limits hub ts" and "limits_positive limits"
  shows "(member (h_room_store hub ra) i \<noteq> None) = (i < length ts \<and> in_room ra (ts ! i))
    \<and> map_option (\<lambda>entry. set (rue_connections entry)) (btm_get (rs_users (h_room_store hub ra)) uid)
      = (if \<exists>c. member (h_room_store hub ra) c = Some uid
         then Some {c. member (h_room_store hub ra) c = Some uid} else None)"
proof (intro conjI)
  have inv: "rooms_inv limits hub ts" by (rule rooms_reachable_inv [OF assms])
  show "(members hub ra i \<noteq> None) = (i < length ts \<and> in_room ra (ts ! i))"
  proof
    assume "members hub ra i \<noteq> None"
    with rooms_invD(4) [OF inv] show "i < length ts \<and> in_room ra (ts ! i)"
      unfolding members_ok_def by blast
  next
    assume "i < length ts \<and> in_room ra (ts ! i)"
    with inv_pc_ok [OF inv, of i] show "members hub ra i \<noteq> None" by (cases "ts ! i") auto
  qed
  have room: "room_ok limits (h_room_store hub ra)" by (rule heap_okD(5) [OF rooms_invD(3) [OF inv]])
  show "map_option (\<lambda>entry. set (rue_connections entry)) (btm_get (rs_users (h_room_store hub ra)) uid)
      = (if \<exists>c. members hub ra c = Some uid then Some {c. members hub ra c = Some uid} else None)"
  proof (cases "btm_get (rs_users (h_room_store hub ra)) uid")
    case None
    with room have "members hub ra c \<noteq> Some uid" for c
      unfolding room_ok_def btm_contains_iff by metis
    with None show ?thesis by simp
  next
    case (Some entry)
    from room_ok_entry [OF room Some]
    have conns: "set (rue_connections entry) = {c. members hub ra c = Some uid}"
      and "rue_connections entry \<noteq> []" by (simp_all add: entry_ok_def)
    then have "{c. members hub ra c = Some uid} \<noteq> {}" by (metis set_empty2)
    then have "\<exists>c. members hub ra c = Some uid" by blast
    with Some conns show ?thesis by simp
  qed
qed

lemma room_presence_witness:
  "member (h_room_store (fst sample_state) 0) 0 \<noteq> None"
  using room_presence [OF sample_reachable [of "\<lambda>_. []"] default_limits_positive, of 0 0] by (simp add: sample_active)

text \<open>
  C19: Nothing leaks. When every connection has finished, all places have been given back: the
  deployment-wide counter and every site's counters are zero, and no site has a room left.
\<close>

theorem rooms_quiescent:
  assumes "rooms_reachable ser limits hub ts" and "limits_positive limits" and "set ts \<subseteq> {Done}"
  shows "h_connections hub = 0 \<and> (\<forall>sa. sr_connections (h_site_store hub sa) = 0
    \<and> sr_room_count (h_site_store hub sa) = 0 \<and> sr_rooms (h_site_store hub sa) = [])"
proof (intro conjI allI)
  have inv: "rooms_inv limits hub ts" by (rule rooms_reachable_inv [OF assms(1,2)])
  have finished: "pc = Done" if "pc \<in> set ts" for pc using that assms(3) by blast
  have none: "holders P ts = 0" if "\<not> P Done" for P using that finished by (auto simp: holders_0)
  show "h_connections hub = 0"
    using rooms_invD(1) [OF inv] by (simp add: total_ok_def capacity.tracks_def none unat_eq_0)
  fix sa
  show "sr_connections (h_site_store hub sa) = 0"
    using rooms_invD(2) [OF inv, of sa] by (simp add: site_ok_def capacity.tracks_def none unat_eq_0)
  have no_room: "rooms hub sa name = None" for name
  proof (rule ccontr)
    assume "rooms hub sa name \<noteq> None"
    then obtain ra where ra: "rooms hub sa name = Some ra" by blast
    have "members hub ra c = None" for c
      using not_in_room_not_member [OF inv, of ra c] rooms_invD(4) [OF inv] finished
      unfolding members_ok_def by (metis in_room.simps(15) nth_mem)
    then have "rs_clients (h_room_store hub ra) = []" by (simp add: clients_empty_iff fun_eq_iff)
    with rooms_invD(5) [OF inv] ra obtain pc where "pc \<in> set ts" "attends sa name ra pc"
      unfolding attended_def by blast
    with finished show False by fastforce
  qed
  then show rooms: "sr_rooms (h_site_store hub sa) = []" by (simp add: btm_Nil_iff)
  show "sr_room_count (h_site_store hub sa) = 0"
    using rooms_invD(2) [OF inv, of sa] rooms by (simp add: site_ok_def none unat_eq_0)
qed

definition sample_end :: "room_hub \<times> rooms_pc list" where
  "sample_end = run_thread default_room_limits 0
     (Suc (Suc (Suc (Suc (Suc (Suc (Suc (Suc 0)))))))) sample_state"

lemma sample_end_done: "snd sample_end = [Done]"
  by (simp add: sample_end_def sample_state_def join_total_def join_site_def join_room_def enter_room_def
      enter_user_def send_room_def sample_user_def
      reserve_capacity_def default_limits_values hub_new_def site_rooms_default_def room_state_default_def
      Let_def btm_get_def btm_contains_def leave_room_def release_site_def release_total_def detach_room_def
      release_room_count_def remove_empty_site_def btm_remove_def release_capacity_def)

lemma rooms_quiescent_witness:
  "h_connections (fst sample_end) = 0 \<and> sr_rooms (h_site_store (fst sample_end) 0) = []"
proof -
  have "rooms_reachable (\<lambda>_. []) default_room_limits (fst sample_end) (snd sample_end)"
    by (rule run_thread_reachable [OF sample_reachable, of 0 "Suc (Suc (Suc (Suc (Suc (Suc (Suc (Suc 0)))))))"])
      (simp add: sample_active, simp only: prod.collapse sample_end_def)
  from rooms_quiescent [OF this default_limits_positive] show ?thesis by (simp add: sample_end_done)
qed

end
