(* ===== verification/Web_Rooms_Props.thy ===== *)
theory Web_Rooms_Props
  imports Web_Rooms
begin

text \<open>
  The properties of single room operations of \<open>chudbot-web/src/vibe_rooms.rs\<close>: delivery of broadcasts,
  user state, command rate, message handling and identities. The properties that quantify over
  interleavings are in \<open>Web_Rooms_Concurrent\<close>.
\<close>

section \<open>Broadcast\<close>

text \<open>
  A broadcast is all or nothing. If it is refused, the code says why and no state changes. If it
  succeeds, the sender is a client of the room, and every client of that room (the sender included)
  gets the event exactly once at the end of its queue, with the sender's user as the code keeps it, or,
  when its queue is full, is cancelled with its queue left alone; no other room is touched.
\<close>

theorem broadcast_delivery:
  "case hub_broadcast limits site name conn label event hub of
     Inl e \<Rightarrow> re_code e \<in> {''invalid_event_label'', ''reserved_event_label'', ''not_connected''}
   | Inr hub' \<Rightarrow> \<exists>ra sender entry.
       hub_room site name hub = Some ra
       \<and> btm_get (rs_clients (h_room_store hub ra)) conn = Some sender
       \<and> btm_get (rs_users (h_room_store hub ra)) (rc_user_id sender) = Some entry
       \<and> rs_users (h_room_store hub' ra) = rs_users (h_room_store hub ra)
       \<and> (\<forall>c. btm_get (rs_clients (h_room_store hub' ra)) c =
            map_option (\<lambda>client.
                if length (rc_outbound client) < unat (outbound_queue limits)
                then client\<lparr>rc_outbound := rc_outbound client @ [event_message label event (rue_user entry)]\<rparr>
                else client\<lparr>rc_cancelled := True\<rparr>)
              (btm_get (rs_clients (h_room_store hub ra)) c))
       \<and> hub' = hub\<lparr>h_room_store := (h_room_store hub)(ra := h_room_store hub' ra)\<rparr>"
proof (cases "hub_broadcast limits site name conn label event hub")
  case (Inl e)
  then have "re_code e \<in> {''invalid_event_label'', ''reserved_event_label'', ''not_connected''}"
    by (auto simp: hub_broadcast_def validate_event_label_def validate_token_def update_room_def
        room_broadcast_def not_joined_def split: option.splits if_splits sum.splits)
  with Inl show ?thesis by simp
next
  case (Inr hub')
  then obtain ra room where ra: "hub_room site name hub = Some ra"
    and room: "room_broadcast limits conn label event (h_room_store hub ra) = Inr room"
    and hub': "hub' = hub\<lparr>h_room_store := (h_room_store hub)(ra := room)\<rparr>"
    by (auto simp: hub_broadcast_def update_room_def split: option.splits sum.splits)
  obtain sender entry where
    s: "btm_get (rs_clients (h_room_store hub ra)) conn = Some sender"
    and e: "btm_get (rs_users (h_room_store hub ra)) (rc_user_id sender) = Some entry"
    and r: "room = send_room (outbound_queue limits) (h_room_store hub ra)
      (event_message label event (rue_user entry)) None"
    using room by (rule room_broadcast_cases)
  have "btm_get (rs_clients room) c = map_option (\<lambda>client.
                if length (rc_outbound client) < unat (outbound_queue limits)
                then client\<lparr>rc_outbound := rc_outbound client @ [event_message label event (rue_user entry)]\<rparr>
                else client\<lparr>rc_cancelled := True\<rparr>) (btm_get (rs_clients (h_room_store hub ra)) c)" for c
    unfolding r send_room_get by (simp add: try_send_def cong: if_cong)
  moreover have "rs_users room = rs_users (h_room_store hub ra)" by (simp add: r)
  ultimately show ?thesis
    using Inr ra s e hub' by (intro sum.case_eq_if [THEN iffD2] | simp)+
qed

section \<open>The command rate\<close>

fun admitted :: "command_rate \<Rightarrow> instant list \<Rightarrow> nat" where
  "admitted r [] = 0"
| "admitted r (t # ts) = (let (ok, r') = admit t r in (if ok then 1 else 0) + admitted r' ts)"

lemma admit_maximum [simp]: "cr_maximum (snd (admit t r)) = cr_maximum r"
  by (simp add: admit_def Let_def)

lemma u16_inc: "c < m \<Longrightarrow> unat (c + 1 :: u16) = Suc (unat c)"
proof -
  assume "c < m"
  then have "Suc (unat c) < 2 ^ 16"
    using unsigned_less [of m, where 'a = nat] by (simp add: word_less_nat_alt)
  then show ?thesis by (simp add: unat_word_ariths)
qed

text \<open>Inside a window only the rest of its budget is admitted.\<close>

lemma admitted_in_window:
  "\<forall>t\<in>set ts. t - cr_window_started r < duration_from_secs 1 \<Longrightarrow>
   admitted r ts \<le> unat (cr_maximum r) - unat (cr_commands r)"
proof (induction ts arbitrary: r)
  case (Cons t ts)
  have now: "t - cr_window_started r < duration_from_secs 1" using Cons.prems by simp
  show ?case
  proof (cases "cr_commands r < cr_maximum r")
    case True
    let ?r = "r\<lparr>cr_commands := cr_commands r + 1\<rparr>"
    have "admit t r = (True, ?r)" using now True by (simp add: admit_def Let_def not_le)
    moreover have "admitted ?r ts \<le> unat (cr_maximum r) - Suc (unat (cr_commands r))"
      using Cons.IH [of ?r] Cons.prems u16_inc [OF True] by simp
    moreover have "unat (cr_commands r) < unat (cr_maximum r)" using True by (simp add: word_less_nat_alt)
    ultimately show ?thesis by simp
  next
    case False
    then have "admit t r = (False, r)" using now by (simp add: admit_def Let_def)
    then show ?thesis using Cons by simp
  qed
qed simp

text \<open>Instants that lie within one second can open at most one new window.\<close>

lemma admitted_second:
  assumes "sorted ts" "\<forall>t\<in>set ts. lo \<le> t \<and> t < lo + duration_from_secs 1"
  shows "admitted r ts \<le> (unat (cr_maximum r) - unat (cr_commands r)) + unat (cr_maximum r)"
  using assms
proof (induction ts arbitrary: r)
  case (Cons t ts)
  show ?case
  proof (cases "t - cr_window_started r < duration_from_secs 1")
    case now: True
    show ?thesis
    proof (cases "cr_commands r < cr_maximum r")
      case True
      let ?r = "r\<lparr>cr_commands := cr_commands r + 1\<rparr>"
      have "admit t r = (True, ?r)" using now True by (simp add: admit_def Let_def not_le)
      moreover have "admitted ?r ts \<le> (unat (cr_maximum r) - Suc (unat (cr_commands r))) + unat (cr_maximum r)"
        using Cons.IH [of ?r] Cons.prems u16_inc [OF True] by simp
      moreover have "unat (cr_commands r) < unat (cr_maximum r)" using True by (simp add: word_less_nat_alt)
      ultimately show ?thesis by simp
    next
      case False
      then have "admit t r = (False, r)" using now by (simp add: admit_def Let_def)
      then show ?thesis using Cons by simp
    qed
  next
    case False
    let ?r0 = "r\<lparr>cr_window_started := t, cr_commands := 0\<rparr>"
    have in_window: "\<forall>u\<in>set (t # ts). u - cr_window_started ?r0 < duration_from_secs 1"
      using Cons.prems by (auto simp: duration_from_secs_def)
    have "admit t r = admit t ?r0"
      using False by (simp add: admit_def Let_def duration_from_secs_def)
    then have "admitted r (t # ts) = admitted ?r0 (t # ts)" by simp
    also have "\<dots> \<le> unat (cr_maximum r)" using admitted_in_window [OF in_window] by simp
    finally show ?thesis by simp
  qed
qed simp

text \<open>
  The command rate is bounded. Whatever the window and the count are, the commands admitted at
  instants that lie within one second number at most twice the configured maximum (the rest of one
  window and all of the next), and at most the maximum when a fresh limiter starts with them.
\<close>

theorem command_rate_bound:
  assumes "sorted ts" and "\<forall>t\<in>set ts. lo \<le> t \<and> t < lo + duration_from_secs 1"
  shows "admitted r ts \<le> 2 * unat (cr_maximum r) \<and> admitted (command_rate_new lo maximum) ts \<le> unat maximum"
proof
  show "admitted r ts \<le> 2 * unat (cr_maximum r)" using admitted_second [OF assms, of r] by simp
  have "\<forall>t\<in>set ts. t - cr_window_started (command_rate_new lo maximum) < duration_from_secs 1"
    using assms(2) by (auto simp: command_rate_new_def duration_from_secs_def)
  from admitted_in_window [OF this] show "admitted (command_rate_new lo maximum) ts \<le> unat maximum"
    by (simp add: command_rate_new_def)
qed

lemma command_rate_bound_witness:
  "admitted (command_rate_new 0 1) [5, 6, 1000000000] \<le> 2
   \<and> sorted [5, 6, 1000000000 :: nat]"
  using command_rate_bound [of "[5, 6, 1000000000]" 5 "command_rate_new 0 1" 1]
  by (simp add: duration_from_secs_def command_rate_new_def)

section \<open>Messages\<close>

lemma error_message_get:
  "json_get (room_error_message e i) ''type'' = Some (JString ''error'')"
  "json_get (room_error_message e i) ''id'' = Some (json_opt_string i)"
  by (simp_all add: room_error_message_def json_get_object)

lemma ack_message_get:
  "json_get (ack_message i) ''type'' = Some (JString ''ack'')" "json_get (ack_message i) ''id'' = Some (JString i)"
  by (simp_all add: ack_message_def json_get_object)

text \<open>
  Every text message of a joined connection gets exactly one answer, an acknowledgement or an error,
  that repeats the command's id when the message parsed; and a message that is not acknowledged (too
  large, unreadable, over the rate, a second join, or refused by the hub) leaves the hub unchanged.
\<close>

theorem handle_message_answers:
  "case handle_message decode ser limits site room conn text max_message_bytes now rate hub of
     (answer, rate', hub') \<Rightarrow>
       json_get answer ''type'' = Some (JString ''ack'')
         \<and> json_get answer ''id'' = map_option JString (Option.bind (decode text) command_id)
         \<and> length text \<le> unat max_message_bytes \<and> fst (admit now rate)
       \<or> json_get answer ''type'' = Some (JString ''error'') \<and> hub' = hub
         \<and> json_get answer ''id'' = Some (if length text \<le> unat max_message_bytes
              then json_opt_string (Option.bind (decode text) command_id) else JNull)"
  by (auto simp: handle_message_def Let_def error_message_get ack_message_get
      split: option.splits prod.splits sum.splits client_message.splits)

section \<open>Identities\<close>

text \<open>
  The identity of a room user cannot be chosen by the client. A connection with a guild membership
  joins as that member whatever it sends; one without joins under an id that starts with
  \<open>anonymous:\<close> and is marked anonymous. In both cases the room name is a valid token and the user starts
  without state.
\<close>

theorem join_identity:
  "case receive_join decode lib first identity max_message_bytes of
     Inl e \<Rightarrow> True
   | Inr (room, user) \<Rightarrow>
       validate_token room ''invalid_room'' ''The Vibe room name is invalid.'' = Inr () \<and> ru_states user = []
       \<and> (case identity of
            Protected m \<Rightarrow> user = protected_user m \<and> ru_anonymous user = False
          | Anonymous \<Rightarrow> starts_with (ru_id user) ''anonymous:'' \<and> ru_anonymous user \<and> ru_username user = None)"
  by (auto simp: receive_join_def protected_user_def anonymous_user_def starts_with_def
      split: sum.splits option.splits first_message.splits client_message.splits pending_identity.splits if_splits)

section \<open>User state\<close>

lemma sum_list_btm_insert:
  "btm_invar m \<Longrightarrow> sum_list (map g (btm_insert k v m)) = g (k, v) + sum_list (map g (filter (\<lambda>(k', _). k' \<noteq> k) m))"
  for g :: "_ \<Rightarrow> nat"
proof (induction m)
  case (Cons e m)
  then have inv: "btm_invar m" "\<forall>x\<in>set m. fst e < fst x" by (auto simp: btm_invar_def)
  show ?case
  proof (cases "fst e < k")
    case True
    with Cons.IH [OF inv(1)] show ?thesis by (cases e) auto
  next
    case False
    with inv(2) have "filter (\<lambda>(k', _). k' \<noteq> k) m = m" by (auto simp: filter_id_conv)
    with False show ?thesis by (cases e) auto
  qed
qed simp

text \<open>
  \<open>set_state\<close> sets exactly one key of exactly one user. On success the sender is a client; only the
  entry of its user changes, only at the key, whose new value is the given one; afterwards the user has
  at most \<open>max_user_states\<close> keys and the keys and serialised values together take at most
  \<open>max_user_state_bytes\<close> bytes; and the room is as well-formed as before. A refusal has one of the three codes.
\<close>

theorem set_state_bounded:
  assumes "room_ok limits room" and "unat (max_user_state_bytes limits) < 2 ^ 64 - 1"
  shows "case room_set_state ser limits conn key v room of
     Inl e \<Rightarrow> re_code e \<in> {''not_connected'', ''too_many_user_states'', ''user_state_too_large''}
   | Inr room' \<Rightarrow> \<exists>uid old new.
       member room conn = Some uid \<and> btm_get (rs_users room) uid = Some old
       \<and> btm_get (rs_users room') = (btm_get (rs_users room))(uid \<mapsto> new)
       \<and> rue_connections new = rue_connections old
       \<and> btm_get (ru_states (rue_user new)) = (btm_get (ru_states (rue_user old)))(key \<mapsto> v)
       \<and> length (ru_states (rue_user new)) \<le> unat (max_user_states limits)
       \<and> sum_list (map (\<lambda>(k, x). length k + length (ser x)) (ru_states (rue_user new)))
           \<le> unat (max_user_state_bytes limits)
       \<and> member room' = member room \<and> room_ok limits room'"
proof (cases "room_set_state ser limits conn key v room")
  case (Inl e)
  then have "re_code e \<in> {''not_connected'', ''too_many_user_states'', ''user_state_too_large''}"
    by (auto simp: room_set_state_def Let_def not_joined_def split: option.splits if_splits)
  with Inl show ?thesis by simp
next
  case (Inr room')
  obtain client entry where client: "btm_get (rs_clients room) conn = Some client"
    and entry: "btm_get (rs_users room) (rc_user_id client) = Some entry"
    and space: "btm_contains (ru_states (rue_user entry)) key
      \<or> length (ru_states (rue_user entry)) < unat (max_user_states limits)"
    and bytes: "state_bytes ser key v (ru_states (rue_user entry)) \<le> unat (max_user_state_bytes limits)"
    and room': "room' = send_room (outbound_queue limits)
       (room\<lparr>rs_users := btm_insert (rc_user_id client)
          (entry\<lparr>rue_user := (rue_user entry)\<lparr>ru_states := btm_insert key v (ru_states (rue_user entry))\<rparr>\<rparr>) (rs_users room)\<rparr>)
       (state_message key ((rue_user entry)\<lparr>ru_states := btm_insert key v (ru_states (rue_user entry))\<rparr>)
         (btm_get (ru_states (rue_user entry)) key) v) None"
    using Inr by (rule room_set_state_cases)
  let ?new = "entry\<lparr>rue_user := (rue_user entry)\<lparr>ru_states := btm_insert key v (ru_states (rue_user entry))\<rparr>\<rparr>"
  have inv: "btm_invar (ru_states (rue_user entry))" "btm_invar (rs_users room)"
    "length (ru_states (rue_user entry)) \<le> unat (max_user_states limits)"
    using room_ok_entry [OF assms(1) entry] assms(1) by (simp_all add: entry_ok_def room_ok_def)
  have "sum_list (map (\<lambda>(k, x). length k + length (ser x)) (btm_insert key v (ru_states (rue_user entry))))
      \<le> unat (max_user_state_bytes limits)"
    using bytes assms(2)
    by (simp add: sum_list_btm_insert [OF inv(1)] state_bytes_def usize_saturating_sum_def min_def split: if_splits)
  moreover have "length (btm_insert key v (ru_states (rue_user entry))) \<le> unat (max_user_states limits)"
    using space inv by (auto simp: btm_insert_length btm_contains_iff)
  moreover have "member room conn = Some (rc_user_id client)" using client by (simp add: member_def)
  moreover have "btm_get (rs_users room') = (btm_get (rs_users room))(rc_user_id client \<mapsto> ?new)"
    unfolding room' by (simp add: btm_get_insert inv)
  moreover have "btm_get (ru_states (rue_user ?new)) = (btm_get (ru_states (rue_user entry)))(key \<mapsto> v)"
    by (simp add: btm_get_insert inv)
  moreover note room_set_state_ok [OF Inr assms(1)] entry
  ultimately show ?thesis
    unfolding Inr sum.case
    by (intro exI [of _ "rc_user_id client"] exI [of _ entry] exI [of _ ?new]) simp
qed

definition sample_room :: room_state where
  "sample_room = \<lparr>rs_users = [(''7'', \<lparr>rue_user = \<lparr>ru_id = ''7'', ru_username = None, ru_display_name = ''Ada'',
       ru_avatar_url = None, ru_anonymous = False, ru_states = []\<rparr>, rue_connections = [0]\<rparr>)],
     rs_clients = [(0, \<lparr>rc_user_id = ''7'', rc_outbound = [], rc_cancelled = False\<rparr>)], rs_closed = False\<rparr>"

definition sample_limits :: room_limits where
  "sample_limits = \<lparr>max_rooms_per_site = 1, max_connections_per_room = 1, max_connections_per_site = 1,
     max_connections = 1, max_user_states = 1, max_user_state_bytes = 8, outbound_queue = 1\<rparr>"

lemma sample_room_ok: "room_ok sample_limits sample_room"
proof -
  have "member sample_room = [0 \<mapsto> ''7'']"
    by (simp add: member_def sample_room_def btm_get_def fun_eq_iff)
  then show ?thesis
    by (auto simp: room_ok_def entry_ok_def sample_limits_def) 
      (auto simp: sample_room_def btm_get_def btm_contains_def btm_invar_def split: if_splits)
qed

lemma set_state_bounded_witness:
  "case room_set_state (\<lambda>_. ''null'') sample_limits 0 ''pos'' JNull sample_room of
     Inl e \<Rightarrow> False
   | Inr room' \<Rightarrow> room_ok sample_limits room'"
proof -
  have "unat (max_user_state_bytes sample_limits) < 2 ^ 64 - 1" by (simp add: sample_limits_def)
  note * = set_state_bounded [OF sample_room_ok this, where ser = "\<lambda>_. ''null''" and conn = 0 and key = "''pos''" and v = JNull]
  obtain room' where "room_set_state (\<lambda>_. ''null'') sample_limits 0 ''pos'' JNull sample_room = Inr room'"
    by (simp add: room_set_state_def sample_room_def sample_limits_def btm_get_def state_bytes_def
        usize_saturating_sum_def Let_def)
  with * show ?thesis by auto
qed

end
