(* ===== verification/Web_Collections.thy ===== *)
theory Web_Collections
  imports Web_Rooms
begin

text \<open>
  \<open>chudbot-web/src/vibe_collections.rs\<close>: WebSocket watches of the documents of a site's collection.
  The hub is modelled between operations, each of which runs alone: the values behind the \<open>Arc\<close>s are
  kept in the maps themselves, and the pointer comparisons of the code hold trivially.
\<close>

section \<open>Documents and filters\<close>

fun is_json_scalar :: "json \<Rightarrow> bool" where
  "is_json_scalar (JArray _) = False"
| "is_json_scalar (JObject _) = False"
| "is_json_scalar _ = True"

fun valid_filter :: "json \<Rightarrow> bool" where
  "valid_filter (JArray vs) = list_all is_json_scalar vs"
| "valid_filter v = is_json_scalar v"

definition filter_accepts :: "json \<Rightarrow> json \<Rightarrow> bool" where
  "filter_accepts expected actual =
     (case expected of JArray vs \<Rightarrow> list_ex (\<lambda>v. v = actual) vs | v \<Rightarrow> v = actual)"

definition document_matches :: "json option \<Rightarrow> (string, json) btree_map \<Rightarrow> bool" where
  "document_matches document filters =
     (case Option.bind document json_as_object of
        None \<Rightarrow> False
      | Some fields_of \<Rightarrow>
          list_all (\<lambda>(column, expected).
            case btm_get fields_of column of
              None \<Rightarrow> False
            | Some actual \<Rightarrow> is_json_scalar actual \<and> filter_accepts expected actual) filters)"

datatype change_kind = ChangeInsert | ChangeUpdate | ChangeDelete

record collection_change =
  cc_kind :: change_kind
  cc_before :: "json option"
  cc_after :: "json option"

fun change_kind_json :: "change_kind \<Rightarrow> json" where
  "change_kind_json ChangeInsert = JString ''insert''"
| "change_kind_json ChangeUpdate = JString ''update''"
| "change_kind_json ChangeDelete = JString ''delete''"

fun json_option :: "json option \<Rightarrow> json" where
  "json_option None = JNull"
| "json_option (Some v) = v"

definition change_message :: "(string, json) btree_map \<Rightarrow> collection_change \<Rightarrow> json" where
  "change_message filters change = json_object
     [(''type'', JString ''change''), (''changeType'', change_kind_json (cc_kind change)),
      (''document'', json_option (case cc_after change of Some d \<Rightarrow> Some d | None \<Rightarrow> cc_before change)),
      (''before'', json_option (cc_before change)), (''after'', json_option (cc_after change)),
      (''matchesBefore'', JBool (document_matches (cc_before change) filters)),
      (''matchesAfter'', JBool (document_matches (cc_after change) filters))]"

section \<open>State\<close>

record watch_client =
  wc_filters :: "(string, json) btree_map"
  wc_outbound :: "json list"
  wc_cancelled :: bool

record collection_watches =
  cw_clients :: "(conn_id, watch_client) btree_map"
  cw_closed :: bool

record site_watches =
  sw_collections :: "(string, collection_watches) btree_map"
  sw_connections :: usize

record collection_watch_hub =
  wh_sites :: "(site_id, site_watches) btree_map"
  wh_connections :: usize
  wh_max_connections :: usize
  wh_max_connections_per_site :: usize
  wh_outbound_queue :: usize

record watch_error =
  we_code :: string
  we_message :: string

definition watch_hub_new :: "vibe_room_limits \<Rightarrow> collection_watch_hub" where
  "watch_hub_new limits =
     \<lparr>wh_sites = [], wh_connections = 0, wh_max_connections = cfg_room_connections_total limits,
      wh_max_connections_per_site = ucast (cfg_room_connections_per_site limits),
      wh_outbound_queue = ucast (cfg_room_outbound_queue limits)\<rparr>"

definition collection_watches_default :: collection_watches where
  "collection_watches_default = \<lparr>cw_clients = [], cw_closed = False\<rparr>"

definition site_watches_default :: site_watches where
  "site_watches_default = \<lparr>sw_collections = [], sw_connections = 0\<rparr>"

section \<open>Joining\<close>

datatype watch_join_result = WatchErr watch_error | WatchJoined conn_id | WatchSpins

text \<open>The site with a place reserved, or \<open>None\<close>; the vacant arm only asserts the reservation.\<close>

definition watch_site :: "collection_watch_hub \<Rightarrow> site_id \<Rightarrow> site_watches option" where
  "watch_site hub site =
     (case btm_get (wh_sites hub) site of
        Some sw \<Rightarrow> map_option (\<lambda>c. sw\<lparr>sw_connections := c\<rparr>)
          (reserve_capacity (sw_connections sw) (wh_max_connections_per_site hub))
      | None \<Rightarrow>
          Some (case reserve_capacity 0 (wh_max_connections_per_site hub) of
                  None \<Rightarrow> site_watches_default
                | Some c \<Rightarrow> site_watches_default\<lparr>sw_connections := c\<rparr>))"

definition watch_join ::
  "site_id \<Rightarrow> string \<Rightarrow> (string, json) btree_map \<Rightarrow> conn_id \<Rightarrow> collection_watch_hub
    \<Rightarrow> watch_join_result \<times> collection_watch_hub" where
  "watch_join site collection filters conn hub =
     (case reserve_capacity (wh_connections hub) (wh_max_connections hub) of
        None \<Rightarrow> (WatchErr \<lparr>we_code = ''watches_busy'',
            we_message = ''Vibe collection watches are at their deployment-wide connection limit.''\<rparr>, hub)
      | Some count \<Rightarrow>
          (case watch_site hub site of
             None \<Rightarrow> (WatchErr \<lparr>we_code = ''site_watches_busy'',
                 we_message = ''This site has reached its Vibe collection watch limit.''\<rparr>,
               hub\<lparr>wh_connections := release_capacity count\<rparr>)
           | Some sw \<Rightarrow>
               (let cw = (case btm_get (sw_collections sw) collection of
                            None \<Rightarrow> collection_watches_default | Some cw \<Rightarrow> cw)
                in if cw_closed cw then (WatchSpins, hub\<lparr>wh_connections := count,
                        wh_sites := btm_insert site sw (wh_sites hub)\<rparr>)
                   else (WatchJoined conn, hub\<lparr>wh_connections := count,
                        wh_sites := btm_insert site (sw\<lparr>sw_collections := btm_insert collection
                          (cw\<lparr>cw_clients := btm_insert conn
                             \<lparr>wc_filters = filters, wc_outbound = [], wc_cancelled = False\<rparr> (cw_clients cw)\<rparr>)
                          (sw_collections sw)\<rparr>) (wh_sites hub)\<rparr>))))"

section \<open>Leaving\<close>

definition drop_empty_collection :: "string \<Rightarrow> site_watches \<Rightarrow> site_watches" where
  "drop_empty_collection collection sw =
     (case btm_get (sw_collections sw) collection of
        None \<Rightarrow> sw
      | Some cw \<Rightarrow>
          if cw_clients cw \<noteq> [] then sw
          else sw\<lparr>sw_collections := btm_remove collection (sw_collections sw)\<rparr>)"

definition drop_empty_watch_site :: "site_id \<Rightarrow> collection_watch_hub \<Rightarrow> collection_watch_hub" where
  "drop_empty_watch_site site hub =
     (case btm_get (wh_sites hub) site of
        None \<Rightarrow> hub
      | Some sw \<Rightarrow>
          if sw_connections sw = 0 \<and> sw_collections sw = []
          then hub\<lparr>wh_sites := btm_remove site (wh_sites hub)\<rparr> else hub)"

definition watch_leave :: "site_id \<Rightarrow> string \<Rightarrow> conn_id \<Rightarrow> collection_watch_hub \<Rightarrow> collection_watch_hub" where
  "watch_leave site collection conn hub =
     (case btm_get (wh_sites hub) site of
        None \<Rightarrow> hub
      | Some sw \<Rightarrow>
          (case btm_get (sw_collections sw) collection of
             None \<Rightarrow> hub
           | Some cw \<Rightarrow>
               (if btm_get (cw_clients cw) conn = None then hub
                else (let cw' = cw\<lparr>cw_clients := btm_remove conn (cw_clients cw)\<rparr>;
                          sw' = drop_empty_collection collection
                            (sw\<lparr>sw_collections := btm_insert collection cw' (sw_collections sw),
                                sw_connections := release_capacity (sw_connections sw)\<rparr>)
                      in drop_empty_watch_site site
                           (hub\<lparr>wh_connections := release_capacity (wh_connections hub),
                                wh_sites := btm_insert site sw' (wh_sites hub)\<rparr>)))))"

section \<open>Publishing\<close>

text \<open>The inner loop over the changes; it breaks off at a full queue.\<close>

fun publish_to :: "usize \<Rightarrow> collection_change list \<Rightarrow> watch_client \<Rightarrow> watch_client" where
  "publish_to queue [] client = client"
| "publish_to queue (change # changes) client =
     (let matches_before = document_matches (cc_before change) (wc_filters client);
          matches_after = document_matches (cc_after change) (wc_filters client)
      in if \<not> matches_before \<and> \<not> matches_after then publish_to queue changes client
         else if length (wc_outbound client) < unat queue
         then publish_to queue changes
                (client\<lparr>wc_outbound := wc_outbound client @ [change_message (wc_filters client) change]\<rparr>)
         else client\<lparr>wc_cancelled := True\<rparr>)"

definition publish :: "site_id \<Rightarrow> string \<Rightarrow> collection_change list \<Rightarrow> collection_watch_hub \<Rightarrow> collection_watch_hub" where
  "publish site collection changes hub =
     (if changes = [] then hub
      else case btm_get (wh_sites hub) site of
        None \<Rightarrow> hub
      | Some sw \<Rightarrow>
          (case btm_get (sw_collections sw) collection of
             None \<Rightarrow> hub
           | Some cw \<Rightarrow>
               hub\<lparr>wh_sites := btm_insert site (sw\<lparr>sw_collections := btm_insert collection
                 (cw\<lparr>cw_clients := map (\<lambda>(c, client).
                    (c, publish_to (wh_outbound_queue hub) changes client)) (cw_clients cw)\<rparr>)
                 (sw_collections sw)\<rparr>) (wh_sites hub)\<rparr>))"

section \<open>Subscriptions\<close>

definition MAX_FILTERS :: nat where
  "MAX_FILTERS = 64"

record subscribe_message =
  sm_kind :: string
  sm_filters :: "(string, json) btree_map"

definition invalid_watch :: "string \<Rightarrow> watch_error" where
  "invalid_watch message = \<lparr>we_code = ''invalid_watch'', we_message = message\<rparr>"

text \<open>\<open>decode\<close> is \<open>serde_json::from_str::<SubscribeMessage>\<close>.\<close>

definition receive_subscription ::
  "(string \<Rightarrow> subscribe_message option) \<Rightarrow> first_message \<Rightarrow> usize \<Rightarrow> watch_error + (string, json) btree_map" where
  "receive_subscription decode first max_message_bytes =
     (case (case first of
              FirstText text \<Rightarrow>
                if length text \<le> unat max_message_bytes then Inr text
                else Inl (invalid_watch ''The first watch message must be a JSON subscription.'')
            | FirstOther \<Rightarrow> Inl (invalid_watch ''The first watch message must be a JSON subscription.'')
            | FirstClosed \<Rightarrow> Inl \<lparr>we_code = ''connection_closed'',
                we_message = ''The collection watch closed before subscribing.''\<rparr>
            | FirstTimeout \<Rightarrow> Inl \<lparr>we_code = ''subscribe_timeout'',
                we_message = ''The collection watch timed out before subscribing.''\<rparr>) of
        Inl e \<Rightarrow> Inl e
      | Inr text \<Rightarrow>
          (case decode text of
             None \<Rightarrow> Inl (invalid_watch ''The collection watch subscription is invalid.'')
           | Some request \<Rightarrow>
               if sm_kind request \<noteq> ''watch'' \<or> length (sm_filters request) > MAX_FILTERS
                  \<or> \<not> list_all (\<lambda>e. valid_filter (snd e)) (sm_filters request)
               then Inl (invalid_watch ''The collection watch subscription is invalid.'')
               else Inr (sm_filters request)))"

section \<open>Maps as canonical lists\<close>

lemma btm_eqI: "btm_invar m \<Longrightarrow> btm_invar m' \<Longrightarrow> btm_get m = btm_get m' \<Longrightarrow> m = m'"
proof -
  assume inv: "btm_invar m" "btm_invar m'" and eq: "btm_get m = btm_get m'"
  have "set m = set m'"
    using eq btm_get_in_set [OF inv(1)] btm_get_in_set [OF inv(2)] by (metis (no_types) prod.exhaust subsetI subset_antisym)
  moreover have "sorted_wrt (\<lambda>a b. fst a < fst b) m" "sorted_wrt (\<lambda>a b. fst a < fst b) m'"
    using inv by (simp_all add: btm_invar_def sorted_wrt_map)
  then have "sorted (map fst m)" "distinct (map fst m)" "sorted (map fst m')" "distinct (map fst m')"
    using inv by (simp_all add: btm_invar_def strict_sorted_iff)
  ultimately show "m = m'" using map_sorted_distinct_set_unique [of fst m m']
    by (metis distinct_map inj_on_Un set_append sup.idem)
qed

lemma btm_insert_remove: "btm_invar m \<Longrightarrow> btm_get m k = None \<Longrightarrow> btm_remove k (btm_insert k v m) = m"
  by (rule btm_eqI) (auto simp: btm_remove_invar btm_insert_invar btm_get_insert fun_eq_iff)

lemma btm_insert_insert: "btm_invar m \<Longrightarrow> btm_insert k v (btm_insert k v' m) = btm_insert k v m"
  by (rule btm_eqI) (auto simp: btm_insert_invar btm_get_insert fun_eq_iff)

lemma btm_insert_same: "btm_invar m \<Longrightarrow> btm_get m k = Some v \<Longrightarrow> btm_insert k v m = m"
  by (rule btm_eqI) (auto simp: btm_insert_invar btm_get_insert fun_eq_iff)

lemma btm_remove_insert: "btm_invar m \<Longrightarrow> btm_remove k (btm_insert k v m) = btm_remove k m"
  by (rule btm_eqI) (auto simp: btm_remove_invar btm_insert_invar btm_get_insert fun_eq_iff)

definition btm_sum :: "('v \<Rightarrow> nat) \<Rightarrow> ('k, 'v) btree_map \<Rightarrow> nat" where
  "btm_sum g m = sum_list (map (\<lambda>e. g (snd e)) m)"

lemma btm_sum_insert:
  "btm_invar m \<Longrightarrow> btm_sum g (btm_insert k v m) + (case btm_get m k of None \<Rightarrow> 0 | Some old \<Rightarrow> g old)
     = btm_sum g m + g v"
proof (induction m)
  case (Cons e m)
  then have inv: "btm_invar m" "\<forall>x\<in>set m. fst e < fst x" by (auto simp: btm_invar_def)
  have none: "k < fst e \<Longrightarrow> btm_get m k = None"
    using inv(2) by (force simp: btm_get_def map_of_eq_None_iff)
  show ?case using Cons.IH [OF inv(1)] none by (cases e) (auto simp: btm_sum_def btm_get_def)
qed (simp add: btm_sum_def btm_get_def)

lemma btm_sum_remove:
  "btm_invar m \<Longrightarrow> btm_sum g (btm_remove k m) + (case btm_get m k of None \<Rightarrow> 0 | Some old \<Rightarrow> g old) = btm_sum g m"
proof (induction m)
  case (Cons e m)
  then have inv: "btm_invar m" "\<forall>x\<in>set m. fst e < fst x" by (auto simp: btm_invar_def)
  have none: "btm_get m (fst e) = None" using inv(2) by (force simp: btm_get_def map_of_eq_None_iff)
  have "btm_remove (fst e) m = m" using inv(2) by (auto simp: btm_remove_def filter_id_conv)
  with Cons.IH [OF inv(1)] none show ?case
    by (cases e) (auto simp: btm_sum_def btm_get_def btm_remove_def)
qed (simp add: btm_sum_def btm_get_def btm_remove_def)

lemma btm_sum_ge: "btm_get m k = Some v \<Longrightarrow> g v \<le> btm_sum g m"
  by (induction m) (auto simp: btm_sum_def btm_get_def split: if_splits intro: trans_le_add2)

section \<open>The invariant\<close>

definition collection_ok :: "collection_watches \<Rightarrow> bool" where
  "collection_ok cw \<longleftrightarrow> btm_invar (cw_clients cw) \<and> cw_clients cw \<noteq> [] \<and> \<not> cw_closed cw"

abbreviation watchers :: "collection_watches \<Rightarrow> nat" where
  "watchers cw \<equiv> length (cw_clients cw)"

definition site_watch_ok :: "usize \<Rightarrow> site_watches \<Rightarrow> bool" where
  "site_watch_ok maximum sw \<longleftrightarrow>
     btm_invar (sw_collections sw)
     \<and> (\<forall>c cw. btm_get (sw_collections sw) c = Some cw \<longrightarrow> collection_ok cw)
     \<and> unat (sw_connections sw) = btm_sum watchers (sw_collections sw)
     \<and> sw_collections sw \<noteq> [] \<and> unat (sw_connections sw) \<le> unat maximum"

definition watch_ok :: "collection_watch_hub \<Rightarrow> bool" where
  "watch_ok hub \<longleftrightarrow>
     btm_invar (wh_sites hub)
     \<and> (\<forall>site sw. btm_get (wh_sites hub) site = Some sw \<longrightarrow> site_watch_ok (wh_max_connections_per_site hub) sw)
     \<and> unat (wh_connections hub) = btm_sum (\<lambda>sw. unat (sw_connections sw)) (wh_sites hub)
     \<and> unat (wh_connections hub) \<le> unat (wh_max_connections hub)
     \<and> wh_max_connections_per_site hub \<noteq> 0"

definition watching :: "collection_watch_hub \<Rightarrow> site_id \<Rightarrow> string \<Rightarrow> conn_id \<Rightarrow> watch_client option" where
  "watching hub site collection conn =
     Option.bind (btm_get (wh_sites hub) site) (\<lambda>sw.
       Option.bind (btm_get (sw_collections sw) collection) (\<lambda>cw. btm_get (cw_clients cw) conn))"

lemma reserve_Some: "reserve_capacity c m = Some c' \<longleftrightarrow> c < m \<and> c' = c + 1"
  by (auto simp: reserve_capacity_def)

lemma release_reserved [simp]: "release_capacity (c + 1) = c"
  by (simp add: release_capacity_def)

text \<open>The site after a reservation, as a value; a new site has no collections yet.\<close>

definition current_site :: "collection_watch_hub \<Rightarrow> site_id \<Rightarrow> site_watches" where
  "current_site hub site = (case btm_get (wh_sites hub) site of None \<Rightarrow> site_watches_default | Some sw \<Rightarrow> sw)"

definition current_collection :: "site_watches \<Rightarrow> string \<Rightarrow> collection_watches" where
  "current_collection sw collection =
     (case btm_get (sw_collections sw) collection of None \<Rightarrow> collection_watches_default | Some cw \<Rightarrow> cw)"

lemma watch_site_Some:
  assumes "watch_ok hub" "watch_site hub site = Some sw"
  shows "sw = (current_site hub site)\<lparr>sw_connections := sw_connections (current_site hub site) + 1\<rparr>
    \<and> sw_connections (current_site hub site) < wh_max_connections_per_site hub"
  using assms
  by (auto simp: watch_site_def current_site_def reserve_Some watch_ok_def site_watches_default_def word_gt_0
      reserve_capacity_def split: option.splits if_splits)

lemma current_site_ok:
  assumes "watch_ok hub"
  shows "btm_invar (sw_collections (current_site hub site))"
    "btm_get (sw_collections (current_site hub site)) c = Some cw \<Longrightarrow> collection_ok cw"
    "unat (sw_connections (current_site hub site)) = btm_sum watchers (sw_collections (current_site hub site))"
  using assms by (auto simp: current_site_def watch_ok_def site_watch_ok_def site_watches_default_def btm_sum_def
      split: option.splits)

lemma current_collection_ok:
  assumes "watch_ok hub"
  shows "btm_invar (cw_clients (current_collection (current_site hub site) c))"
    "\<not> cw_closed (current_collection (current_site hub site) c)"
  using current_site_ok(2) [OF assms, of site c]
  by (auto simp: current_collection_def collection_watches_default_def collection_ok_def split: option.splits)

definition with_client :: "conn_id \<Rightarrow> (string, json) btree_map \<Rightarrow> collection_watches \<Rightarrow> collection_watches" where
  "with_client conn filters cw = cw\<lparr>cw_clients := btm_insert conn
     \<lparr>wc_filters = filters, wc_outbound = [], wc_cancelled = False\<rparr> (cw_clients cw)\<rparr>"

definition with_watch ::
  "site_id \<Rightarrow> string \<Rightarrow> conn_id \<Rightarrow> (string, json) btree_map \<Rightarrow> collection_watch_hub \<Rightarrow> collection_watch_hub" where
  "with_watch site collection conn filters hub =
     (let sw = current_site hub site in
      hub\<lparr>wh_connections := wh_connections hub + 1,
          wh_sites := btm_insert site (sw\<lparr>sw_connections := sw_connections sw + 1,
            sw_collections := btm_insert collection (with_client conn filters (current_collection sw collection))
              (sw_collections sw)\<rparr>) (wh_sites hub)\<rparr>)"

lemma watch_join_cases:
  assumes "watch_ok hub"
  shows "(\<exists>e. watch_join site collection filters conn hub = (WatchErr e, hub)
      \<and> (we_code e = ''watches_busy'' \<and> wh_connections hub \<ge> wh_max_connections hub
         \<or> we_code e = ''site_watches_busy'' \<and> sw_connections (current_site hub site) \<ge> wh_max_connections_per_site hub))
    \<or> (watch_join site collection filters conn hub = (WatchJoined conn, with_watch site collection conn filters hub)
       \<and> wh_connections hub < wh_max_connections hub
       \<and> sw_connections (current_site hub site) < wh_max_connections_per_site hub)"
proof (cases "wh_connections hub < wh_max_connections hub")
  case False
  then have "reserve_capacity (wh_connections hub) (wh_max_connections hub) = None"
    by (simp add: reserve_capacity_def)
  with False show ?thesis by (simp add: watch_join_def not_less)
next
  case True
  then have res: "reserve_capacity (wh_connections hub) (wh_max_connections hub) = Some (wh_connections hub + 1)"
    by (simp add: reserve_capacity_def)
  show ?thesis
  proof (cases "watch_site hub site")
    case None
    then have "sw_connections (current_site hub site) \<ge> wh_max_connections_per_site hub"
      by (auto simp: watch_site_def current_site_def reserve_capacity_def split: option.splits if_splits)
    with res None show ?thesis by (simp add: watch_join_def)
  next
    case (Some sw)
    note sw = watch_site_Some [OF assms Some]
    note open_cw = current_collection_ok(2) [OF assms, of site collection, unfolded current_collection_def]
    show ?thesis
      using res Some True sw open_cw
      by (simp add: watch_join_def current_collection_def with_watch_def with_client_def Let_def)
  qed
qed

lemma with_watch_ok:
  assumes ok: "watch_ok hub" and fresh: "watching hub site collection conn = None"
    and room: "wh_connections hub < wh_max_connections hub"
    and site_room: "sw_connections (current_site hub site) < wh_max_connections_per_site hub"
  shows "watch_ok (with_watch site collection conn filters hub)"
proof -
  let ?sw = "current_site hub site"
  let ?cw = "current_collection ?sw collection"
  let ?cw' = "with_client conn filters ?cw"
  let ?sw' = "?sw\<lparr>sw_connections := sw_connections ?sw + 1, sw_collections := btm_insert collection ?cw' (sw_collections ?sw)\<rparr>"
  have inv: "btm_invar (wh_sites hub)" using ok by (simp add: watch_ok_def)
  note sinv = current_site_ok(1) [OF ok, of site]
  note cinv = current_collection_ok(1) [OF ok, of site collection]
  have none: "btm_get (cw_clients ?cw) conn = None"
    using fresh by (auto simp: watching_def current_site_def current_collection_def site_watches_default_def
        collection_watches_default_def split: option.splits)
  have len: "watchers ?cw' = Suc (watchers ?cw)"
    using none by (simp add: with_client_def btm_insert_length cinv)
  have cw': "collection_ok ?cw'"
    using current_collection_ok [OF ok, of site collection] len
    by (auto simp: collection_ok_def with_client_def btm_insert_invar)
  have old: "(case btm_get (sw_collections ?sw) collection of None \<Rightarrow> 0 | Some old \<Rightarrow> watchers old) = watchers ?cw"
    by (simp add: current_collection_def collection_watches_default_def split: option.splits)
  have inc: "unat (sw_connections ?sw + 1) = Suc (unat (sw_connections ?sw))"
    by (rule unat_usize_inc [OF site_room])
  have sw': "site_watch_ok (wh_max_connections_per_site hub) ?sw'"
    unfolding site_watch_ok_def
  proof (intro conjI allI impI)
    show "btm_invar (sw_collections ?sw')" by (simp add: btm_insert_invar sinv)
    show "unat (sw_connections ?sw') = btm_sum watchers (sw_collections ?sw')"
      using btm_sum_insert [OF sinv, of watchers collection ?cw'] old len inc current_site_ok(3) [OF ok, of site] by simp
    show "sw_collections ?sw' \<noteq> []"
      using btm_insert_length [OF sinv, of collection ?cw'] by (auto simp: btm_get_def split: if_splits)
    show "unat (sw_connections ?sw') \<le> unat (wh_max_connections_per_site hub)"
      using site_room inc by (simp add: word_less_nat_alt)
  next
    fix c cw
    assume "btm_get (sw_collections ?sw') c = Some cw"
    then show "collection_ok cw"
      using cw' current_site_ok(2) [OF ok, of site c cw] by (auto simp: btm_get_insert sinv split: if_splits)
  qed
  have old_site: "(case btm_get (wh_sites hub) site of None \<Rightarrow> 0 | Some old \<Rightarrow> unat (sw_connections old))
      = unat (sw_connections ?sw)"
    by (simp add: current_site_def site_watches_default_def split: option.splits)
  have "unat (wh_connections hub + 1) = btm_sum (\<lambda>sw. unat (sw_connections sw)) (btm_insert site ?sw' (wh_sites hub))"
    using btm_sum_insert [OF inv, of "\<lambda>sw. unat (sw_connections sw)" site ?sw'] old_site inc ok
      unat_usize_inc [OF room] by (simp add: watch_ok_def)
  moreover have "unat (wh_connections hub + 1) \<le> unat (wh_max_connections hub)"
    using room unat_usize_inc [OF room] by (simp add: word_less_nat_alt)
  ultimately show ?thesis
    using ok sw' inv by (auto simp: watch_ok_def with_watch_def Let_def btm_insert_invar btm_get_insert split: if_splits)
qed

text \<open>What a connection that leaves its collection leaves behind.\<close>

definition without_client :: "conn_id \<Rightarrow> string \<Rightarrow> collection_watches \<Rightarrow> site_watches \<Rightarrow> site_watches" where
  "without_client conn collection cw sw =
     sw\<lparr>sw_connections := release_capacity (sw_connections sw),
        sw_collections := (if btm_remove conn (cw_clients cw) = [] then btm_remove collection (sw_collections sw)
          else btm_insert collection (cw\<lparr>cw_clients := btm_remove conn (cw_clients cw)\<rparr>) (sw_collections sw))\<rparr>"

lemma drop_empty_collection_insert:
  assumes "btm_invar (sw_collections sw)"
  shows "drop_empty_collection collection (sw\<lparr>sw_collections := btm_insert collection
      (cw\<lparr>cw_clients := btm_remove conn (cw_clients cw)\<rparr>) (sw_collections sw),
      sw_connections := release_capacity (sw_connections sw)\<rparr>) = without_client conn collection cw sw"
  using assms by (simp add: drop_empty_collection_def without_client_def btm_get_insert btm_remove_insert)

lemma watch_leave_eq:
  assumes ok: "watch_ok hub" and site: "btm_get (wh_sites hub) site = Some sw"
    and coll: "btm_get (sw_collections sw) collection = Some cw" and client: "btm_get (cw_clients cw) conn \<noteq> None"
  shows "watch_leave site collection conn hub =
    (let sw' = without_client conn collection cw sw
     in hub\<lparr>wh_connections := release_capacity (wh_connections hub),
            wh_sites := (if sw_connections sw' = 0 \<and> sw_collections sw' = [] then btm_remove site (wh_sites hub)
                         else btm_insert site sw' (wh_sites hub))\<rparr>)"
proof -
  have inv: "btm_invar (wh_sites hub)" "btm_invar (sw_collections sw)"
    using ok site by (auto simp: watch_ok_def site_watch_ok_def)
  show ?thesis
    using client
    by (auto simp: watch_leave_def site coll drop_empty_collection_insert [OF inv(2)] Let_def
        drop_empty_watch_site_def btm_get_insert inv(1) btm_remove_insert)
qed

lemma watch_leave_other:
  "watching hub site collection conn = None \<Longrightarrow> watch_leave site collection conn hub = hub"
  by (auto simp: watching_def watch_leave_def split: option.splits)

lemma without_client_ok:
  assumes ok: "site_watch_ok m sw" and coll: "btm_get (sw_collections sw) collection = Some cw"
    and client: "btm_get (cw_clients cw) conn \<noteq> None"
  shows "unat (sw_connections sw) = Suc (unat (sw_connections (without_client conn collection cw sw)))"
    and "unat (sw_connections (without_client conn collection cw sw)) =
      btm_sum watchers (sw_collections (without_client conn collection cw sw))"
    and "btm_invar (sw_collections (without_client conn collection cw sw))"
    and "btm_get (sw_collections (without_client conn collection cw sw)) c = Some cw' \<Longrightarrow> collection_ok cw'"
proof -
  have sinv: "btm_invar (sw_collections sw)" and cok: "collection_ok cw"
    and sum: "unat (sw_connections sw) = btm_sum watchers (sw_collections sw)"
    using ok coll by (auto simp: site_watch_ok_def)
  have cinv: "btm_invar (cw_clients cw)" using cok by (simp add: collection_ok_def)
  have len: "watchers cw = Suc (length (btm_remove conn (cw_clients cw)))"
    by (rule btm_remove_length [OF cinv client])
  have pos: "0 < unat (sw_connections sw)"
    using btm_sum_ge [OF coll, of watchers] len sum by simp
  show dec: "unat (sw_connections sw) = Suc (unat (sw_connections (without_client conn collection cw sw)))"
    using pos capacity.release_level [OF pos] by (simp add: without_client_def)
  let ?cw = "cw\<lparr>cw_clients := btm_remove conn (cw_clients cw)\<rparr>"
  have ins: "btm_sum watchers (btm_insert collection ?cw (sw_collections sw)) + watchers cw
      = btm_sum watchers (sw_collections sw) + length (btm_remove conn (cw_clients cw))"
    using btm_sum_insert [OF sinv, of watchers collection ?cw] coll by simp
  have rem: "btm_sum watchers (btm_remove collection (sw_collections sw)) + watchers cw
      = btm_sum watchers (sw_collections sw)"
    using btm_sum_remove [OF sinv, of watchers collection] coll by simp
  show "unat (sw_connections (without_client conn collection cw sw)) =
      btm_sum watchers (sw_collections (without_client conn collection cw sw))"
    using dec sum ins rem len by (auto simp: without_client_def)
  show "btm_invar (sw_collections (without_client conn collection cw sw))"
    by (simp add: without_client_def btm_remove_invar btm_insert_invar sinv)
  show "btm_get (sw_collections (without_client conn collection cw sw)) c = Some cw' \<Longrightarrow> collection_ok cw'"
    using ok cok by (auto simp: without_client_def btm_get_insert sinv site_watch_ok_def collection_ok_def
        btm_remove_invar split: if_splits)
qed

lemma btm_sum_Nil:
  assumes pos: "\<And>k v. btm_get m k = Some v \<Longrightarrow> 0 < g v" and "btm_sum g m = 0"
  shows "m = []"
proof (cases m)
  case (Cons e m')
  obtain k v where e: "e = (k, v)" by (cases e)
  have "btm_get m k = Some v" by (simp add: Cons e btm_get_def)
  then have "0 < g v" by (rule pos)
  with assms(2) show ?thesis by (simp add: Cons e btm_sum_def)
qed

lemma watch_leave_ok:
  assumes "watch_ok hub"
  shows "watch_ok (watch_leave site collection conn hub)"
proof (cases "watching hub site collection conn")
  case None
  with watch_leave_other assms show ?thesis by simp
next
  case (Some client)
  then obtain sw cw where site: "btm_get (wh_sites hub) site = Some sw"
    and coll: "btm_get (sw_collections sw) collection = Some cw" and client: "btm_get (cw_clients cw) conn \<noteq> None"
    by (auto simp: watching_def bind_eq_Some_conv)
  let ?sw = "without_client conn collection cw sw"
  have inv: "btm_invar (wh_sites hub)"
    and sok: "site_watch_ok (wh_max_connections_per_site hub) sw"
    and sum: "unat (wh_connections hub) = btm_sum (\<lambda>sw. unat (sw_connections sw)) (wh_sites hub)"
    using assms site by (auto simp: watch_ok_def)
  note w = without_client_ok [OF sok coll client]
  have pos: "0 < unat (wh_connections hub)"
    using btm_sum_ge [OF site, of "\<lambda>sw. unat (sw_connections sw)"] w(1) sum by simp
  note dec = capacity.release_level [OF pos]
  have empty: "sw_connections ?sw = 0 \<longleftrightarrow> sw_collections ?sw = []"
  proof
    assume "sw_connections ?sw = 0"
    then have "btm_sum watchers (sw_collections ?sw) = 0" using w(2) by simp
    then show "sw_collections ?sw = []"
      by (rule btm_sum_Nil [rotated]) (use w(4) in \<open>auto simp: collection_ok_def\<close>)
  next
    assume "sw_collections ?sw = []"
    then show "sw_connections ?sw = 0" using w(2) by (simp add: btm_sum_def unat_eq_0)
  qed
  show ?thesis
  proof (cases "sw_collections ?sw = []")
    case True
    then have "watch_leave site collection conn hub = hub\<lparr>wh_connections := release_capacity (wh_connections hub),
        wh_sites := btm_remove site (wh_sites hub)\<rparr>"
      using watch_leave_eq [OF assms site coll client] empty by (simp add: Let_def)
    moreover have "unat (sw_connections ?sw) = 0" using True empty by simp
    then have "btm_sum (\<lambda>sw. unat (sw_connections sw)) (btm_remove site (wh_sites hub)) = unat (wh_connections hub) - 1"
      using btm_sum_remove [OF inv, of "\<lambda>sw. unat (sw_connections sw)" site] site w(1) sum by simp
    ultimately show ?thesis
      using assms dec by (auto simp: watch_ok_def btm_remove_invar split: if_splits)
  next
    case False
    then have "watch_leave site collection conn hub = hub\<lparr>wh_connections := release_capacity (wh_connections hub),
        wh_sites := btm_insert site ?sw (wh_sites hub)\<rparr>"
      using watch_leave_eq [OF assms site coll client] empty by (simp add: Let_def)
    moreover have "btm_sum (\<lambda>sw. unat (sw_connections sw)) (btm_insert site ?sw (wh_sites hub)) = unat (wh_connections hub) - 1"
      using btm_sum_insert [OF inv, of "\<lambda>sw. unat (sw_connections sw)" site ?sw] site w(1) sum by simp
    moreover have "site_watch_ok (wh_max_connections_per_site hub) ?sw"
      using w sok False by (auto simp: site_watch_ok_def)
    ultimately show ?thesis
      using assms dec inv by (auto simp: watch_ok_def btm_insert_invar btm_get_insert split: if_splits)
  qed
qed

section \<open>Connections\<close>

text \<open>The loop of \<open>serve_collection_watch\<close>: the arms its \<open>select!\<close> can take, each with what the socket's
  send returns. \<open>TookOutbound None\<close> is the queue closed by its sender, \<open>TookIncoming None\<close> the end of the
  stream or an error of it.\<close>

datatype ws_message = WsText string | WsBinary "8 word list" | WsPing "8 word list" | WsPong "8 word list" | WsClose

datatype watch_arm =
    TookShutdown
  | TookCancel
  | TookOutbound "json option" bool
  | TookIncoming "ws_message option" bool
  | TookTick bool

datatype ws_frame = FrameJson json | FramePing | FramePong "8 word list"

definition watch_error_json :: "watch_error \<Rightarrow> json" where
  "watch_error_json e = json_object
     [(''type'', JString ''error''), (''code'', JString (we_code e)), (''message'', JString (we_message e))]"

definition already_subscribed :: watch_error where
  "already_subscribed = \<lparr>we_code = ''already_subscribed'',
     we_message = ''This collection watch is already subscribed.''\<rparr>"

text \<open>The frame an arm hands to the socket, and whether the loop goes on.\<close>

fun watch_arm_step :: "watch_arm \<Rightarrow> ws_frame list \<times> bool" where
  "watch_arm_step TookShutdown = ([], False)"
| "watch_arm_step TookCancel = ([], False)"
| "watch_arm_step (TookOutbound None _) = ([], False)"
| "watch_arm_step (TookOutbound (Some m) sent) = ([FrameJson m], sent)"
| "watch_arm_step (TookIncoming None _) = ([], False)"
| "watch_arm_step (TookIncoming (Some m) sent) =
     (case m of
        WsClose \<Rightarrow> ([], False)
      | WsPing payload \<Rightarrow> ([FramePong payload], sent)
      | WsPong _ \<Rightarrow> ([], True)
      | _ \<Rightarrow> ([FrameJson (watch_error_json already_subscribed)], sent))"
| "watch_arm_step (TookTick sent) = ([FramePing], sent)"

text \<open>The frames of a run of arms, and whether the loop broke off within it.\<close>

fun watch_loop :: "watch_arm list \<Rightarrow> ws_frame list \<times> bool" where
  "watch_loop [] = ([], False)"
| "watch_loop (arm # arms) =
     (case watch_arm_step arm of
        (frames, going) \<Rightarrow>
          if going then (case watch_loop arms of (rest, left) \<Rightarrow> (frames @ rest, left))
          else (frames, True))"

datatype hub_call = CallJoin "(string, json) btree_map" | CallLeave conn_id

definition ready_message :: json where
  "ready_message = json_object [(''type'', JString ''ready'')]"

text \<open>\<open>join\<close> is the hub's answer to the join, \<open>ready_sent\<close> whether the socket took the ready message;
  the result is the frames, the calls of the hub and whether the connection is over.\<close>

definition serve_collection_watch ::
  "(string \<Rightarrow> subscribe_message option) \<Rightarrow> first_message \<Rightarrow> usize
    \<Rightarrow> ((string, json) btree_map \<Rightarrow> watch_error + conn_id) \<Rightarrow> bool \<Rightarrow> watch_arm list
    \<Rightarrow> ws_frame list \<times> hub_call list \<times> bool" where
  "serve_collection_watch decode first max_message_bytes join ready_sent arms =
     (case receive_subscription decode first max_message_bytes of
        Inl e \<Rightarrow> ([FrameJson (watch_error_json e)], [], True)
      | Inr filters \<Rightarrow>
          (case join filters of
             Inl e \<Rightarrow> ([FrameJson (watch_error_json e)], [CallJoin filters], True)
           | Inr conn \<Rightarrow>
               if \<not> ready_sent then ([FrameJson ready_message], [CallJoin filters, CallLeave conn], True)
               else (case watch_loop arms of
                 (frames, left) \<Rightarrow>
                   (FrameJson ready_message # frames,
                    CallJoin filters # (if left then [CallLeave conn] else []), left))))"

section \<open>Properties\<close>

text \<open>
  A watch subscription is accepted exactly when it is a text message within the size limit that
  decodes to a \<open>watch
\<close> request with at most 64 filters, each a JSON scalar or an array of scalars.\<close>

theorem receive_subscription_correct:
  fixes decode :: "string \<Rightarrow> subscribe_message option"
  shows "receive_subscription decode first max_message_bytes = Inr filters \<longleftrightarrow>
    (\<exists>text request. first = FirstText text \<and> length text \<le> unat max_message_bytes
       \<and> decode text = Some request \<and> sm_kind request = ''watch'' \<and> filters = sm_filters request
       \<and> length filters \<le> 64
       \<and> list_all (\<lambda>(column, v).
            is_json_scalar v \<or> (\<exists>vs. v = JArray vs \<and> list_all is_json_scalar vs)) filters)"
proof -
  have valid: "valid_filter v \<longleftrightarrow> is_json_scalar v \<or> (\<exists>vs. v = JArray vs \<and> list_all is_json_scalar vs)" for v
    by (cases v) auto
  have valid_all: "list_all (\<lambda>e. valid_filter (snd e)) = list_all (\<lambda>(column, v).
      is_json_scalar v \<or> (\<exists>vs. v = JArray vs \<and> list_all is_json_scalar vs))"
    by (simp add: valid split_beta')
  show ?thesis
    by (auto simp: receive_subscription_def MAX_FILTERS_def valid_all not_less
        split: first_message.splits option.splits)
qed

text \<open>The messages a run of changes sends to a client, when its queue takes them all.\<close>

definition matching_messages :: "(string, json) btree_map \<Rightarrow> collection_change list \<Rightarrow> json list" where
  "matching_messages filters changes = map (change_message filters)
     (filter (\<lambda>c. document_matches (cc_before c) filters \<or> document_matches (cc_after c) filters) changes)"

lemma publish_to_eq:
  assumes "length (wc_outbound client) \<le> unat queue"
  shows "publish_to queue changes client =
    client\<lparr>wc_outbound := take (unat queue) (wc_outbound client @ matching_messages (wc_filters client) changes),
      wc_cancelled := wc_cancelled client
        \<or> unat queue < length (wc_outbound client) + length (matching_messages (wc_filters client) changes)\<rparr>"
  using assms
proof (induction changes arbitrary: client)
  case (Cons c changes)
  let ?sent = "client\<lparr>wc_outbound := wc_outbound client @ [change_message (wc_filters client) c]\<rparr>"
  show ?case
  proof (cases "length (wc_outbound client) < unat queue")
    case True
    then show ?thesis
      using Cons.IH [of client] Cons.IH [of ?sent] by (simp add: Let_def matching_messages_def)
  next
    case False
    then show ?thesis
      using Cons.prems Cons.IH [of client] by (simp add: Let_def matching_messages_def)
  qed
qed (simp add: matching_messages_def)

subsection \<open>What the operations do to a watch\<close>

lemma watching_with_watch:
  assumes "watch_ok hub"
  shows "watching (with_watch site collection conn filters hub) s c k =
    (if s = site \<and> c = collection \<and> k = conn
     then Some \<lparr>wc_filters = filters, wc_outbound = [], wc_cancelled = False\<rparr> else watching hub s c k)"
proof -
  have inv: "btm_invar (wh_sites hub)" using assms by (simp add: watch_ok_def)
  have "watching hub site c k = Option.bind (btm_get (sw_collections (current_site hub site)) c) (\<lambda>cw. btm_get (cw_clients cw) k)"
    by (simp add: watching_def current_site_def site_watches_default_def split: option.splits)
  moreover have "Option.bind (btm_get (sw_collections (current_site hub site)) collection) (\<lambda>cw. btm_get (cw_clients cw) k)
      = btm_get (cw_clients (current_collection (current_site hub site) collection)) k"
    by (simp add: current_collection_def collection_watches_default_def split: option.splits)
  moreover have "s \<noteq> site \<Longrightarrow> watching (with_watch site collection conn filters hub) s c k = watching hub s c k"
    by (simp add: watching_def with_watch_def Let_def btm_get_insert inv)
  ultimately show ?thesis
    using inv current_site_ok(1) [OF assms, of site] current_collection_ok(1) [OF assms, of site collection]
    by (cases "s = site"; cases "c = collection")
       (simp_all add: watching_def with_watch_def with_client_def Let_def btm_get_insert)
qed

lemma watching_leave:
  assumes ok: "watch_ok hub"
  shows "watching (watch_leave site collection conn hub) s c k =
    (if s = site \<and> c = collection \<and> k = conn then None else watching hub s c k)"
proof (cases "watching hub site collection conn")
  case None
  then show ?thesis by (simp add: watch_leave_other)
next
  case (Some client)
  then obtain sw cw where site: "btm_get (wh_sites hub) site = Some sw"
    and coll: "btm_get (sw_collections sw) collection = Some cw" and client: "btm_get (cw_clients cw) conn \<noteq> None"
    by (auto simp: watching_def bind_eq_Some_conv)
  have inv: "btm_invar (wh_sites hub)" "btm_invar (sw_collections sw)" "btm_invar (cw_clients cw)"
    using ok site coll by (auto simp: watch_ok_def site_watch_ok_def collection_ok_def)
  let ?sw = "without_client conn collection cw sw"
  have in_site: "Option.bind (btm_get (sw_collections ?sw) c) (\<lambda>cw. btm_get (cw_clients cw) k) =
      (if c = collection \<and> k = conn then None
       else Option.bind (btm_get (sw_collections sw) c) (\<lambda>cw. btm_get (cw_clients cw) k))" for c k
  proof -
    have got: "btm_get (btm_remove conn (cw_clients cw)) k = (if k = conn then None else btm_get (cw_clients cw) k)"
      by (simp add: btm_remove_get)
    then have "btm_remove conn (cw_clients cw) = [] \<Longrightarrow> k \<noteq> conn \<Longrightarrow> btm_get (cw_clients cw) k = None"
      by (metis btm_get_empty)
    with got show ?thesis
      by (auto simp: without_client_def btm_get_insert btm_remove_get inv coll)
  qed
  have at_site: "watching (watch_leave site collection conn hub) site c k =
      Option.bind (btm_get (sw_collections ?sw) c) (\<lambda>cw. btm_get (cw_clients cw) k)" for c k
    using inv by (auto simp: watching_def watch_leave_eq [OF ok site coll client] Let_def btm_get_insert btm_remove_get)
  show ?thesis
  proof (cases "s = site")
    case True
    have "watching hub site c k = Option.bind (btm_get (sw_collections sw) c) (\<lambda>cw. btm_get (cw_clients cw) k)"
      by (simp add: watching_def site)
    then show ?thesis using True at_site in_site by simp
  next
    case False
    then show ?thesis
      using inv by (auto simp: watching_def watch_leave_eq [OF ok site coll client] Let_def btm_get_insert btm_remove_get)
  qed
qed

lemma btm_get_map: "btm_get (map (\<lambda>(k, v). (k, f v)) m) k = map_option f (btm_get m k)"
  by (induction m) (auto simp: btm_get_def)

lemma btm_map_entries_invar: "btm_invar m \<Longrightarrow> btm_invar (map (\<lambda>(k, v). (k, f k v)) m)"
  by (simp add: btm_invar_def comp_def case_prod_beta)

text \<open>Publishing and receiving change the watches of one collection and nothing else.\<close>

definition with_clients ::
  "site_id \<Rightarrow> string \<Rightarrow> ((conn_id, watch_client) btree_map \<Rightarrow> (conn_id, watch_client) btree_map)
    \<Rightarrow> collection_watch_hub \<Rightarrow> collection_watch_hub" where
  "with_clients site collection f hub =
     (case btm_get (wh_sites hub) site of
        None \<Rightarrow> hub
      | Some sw \<Rightarrow>
          (case btm_get (sw_collections sw) collection of
             None \<Rightarrow> hub
           | Some cw \<Rightarrow>
               hub\<lparr>wh_sites := btm_insert site (sw\<lparr>sw_collections := btm_insert collection
                 (cw\<lparr>cw_clients := f (cw_clients cw)\<rparr>) (sw_collections sw)\<rparr>) (wh_sites hub)\<rparr>))"

lemma publish_with_clients:
  "publish site collection changes hub = (if changes = [] then hub else
     with_clients site collection
       (map (\<lambda>(c, client). (c, publish_to (wh_outbound_queue hub) changes client))) hub)"
  by (simp add: publish_def with_clients_def)

lemma with_clients_ok:
  assumes ok: "watch_ok hub" and len: "\<And>m. length (f m) = length m"
    and inv: "\<And>m. btm_invar m \<Longrightarrow> btm_invar (f m)"
  shows "watch_ok (with_clients site collection f hub)"
proof (cases "Option.bind (btm_get (wh_sites hub) site) (\<lambda>sw. btm_get (sw_collections sw) collection)")
  case None
  then show ?thesis using ok by (auto simp: with_clients_def bind_eq_None_conv split: option.splits)
next
  case (Some cw)
  then obtain sw where site: "btm_get (wh_sites hub) site = Some sw"
    and coll: "btm_get (sw_collections sw) collection = Some cw" by (auto simp: bind_eq_Some_conv)
  let ?cw = "cw\<lparr>cw_clients := f (cw_clients cw)\<rparr>"
  let ?sw = "sw\<lparr>sw_collections := btm_insert collection ?cw (sw_collections sw)\<rparr>"
  have hinv: "btm_invar (wh_sites hub)" and sok: "site_watch_ok (wh_max_connections_per_site hub) sw"
    using ok site by (auto simp: watch_ok_def)
  have sinv: "btm_invar (sw_collections sw)" and cok: "collection_ok cw"
    using sok coll by (auto simp: site_watch_ok_def)
  have cok': "collection_ok ?cw"
    using cok inv len [of "cw_clients cw"] by (auto simp: collection_ok_def)
  have "btm_sum watchers (btm_insert collection ?cw (sw_collections sw)) = btm_sum watchers (sw_collections sw)"
    using btm_sum_insert [OF sinv, of watchers collection ?cw] coll len by simp
  moreover have "btm_insert collection ?cw (sw_collections sw) \<noteq> []"
    by (metis btm_get_empty btm_get_insert fun_upd_same option.distinct(1) sinv)
  ultimately have sok': "site_watch_ok (wh_max_connections_per_site hub) ?sw"
    using sok cok' by (auto simp: site_watch_ok_def btm_insert_invar btm_get_insert split: if_splits)
  have "btm_sum (\<lambda>sw. unat (sw_connections sw)) (btm_insert site ?sw (wh_sites hub))
      = btm_sum (\<lambda>sw. unat (sw_connections sw)) (wh_sites hub)"
    using btm_sum_insert [OF hinv, of "\<lambda>sw. unat (sw_connections sw)" site ?sw] site by simp
  with ok sok' show ?thesis
    by (auto simp: with_clients_def site coll watch_ok_def btm_insert_invar btm_get_insert split: if_splits)
qed

lemma watching_with_clients:
  assumes ok: "watch_ok hub" and get: "\<And>m k. btm_invar m \<Longrightarrow> btm_get (f m) k = map_option (g k) (btm_get m k)"
  shows "watching (with_clients site collection f hub) s c k =
    (if s = site \<and> c = collection then map_option (g k) (watching hub s c k) else watching hub s c k)"
proof (cases "Option.bind (btm_get (wh_sites hub) site) (\<lambda>sw. btm_get (sw_collections sw) collection)")
  case None
  then show ?thesis by (auto simp: with_clients_def watching_def bind_eq_None_conv split: option.splits)
next
  case (Some cw)
  then obtain sw where site: "btm_get (wh_sites hub) site = Some sw"
    and coll: "btm_get (sw_collections sw) collection = Some cw" by (auto simp: bind_eq_Some_conv)
  then have "btm_invar (wh_sites hub)" "btm_invar (sw_collections sw)" "btm_invar (cw_clients cw)"
    using ok by (auto simp: watch_ok_def site_watch_ok_def collection_ok_def)
  then show ?thesis
    by (auto simp: with_clients_def watching_def site coll btm_get_insert get)
qed

text \<open>\<open>outbound.recv()\<close>: the receiving end of a watch takes its oldest message.\<close>

definition take_outbound :: "site_id \<Rightarrow> string \<Rightarrow> conn_id \<Rightarrow> collection_watch_hub \<Rightarrow> collection_watch_hub" where
  "take_outbound site collection conn =
     with_clients site collection (map (\<lambda>(c, client).
       (c, if c = conn then client\<lparr>wc_outbound := tl (wc_outbound client)\<rparr> else client)))"

subsection \<open>Runs of the hub\<close>

datatype watch_op =
    OpJoin site_id string "(string, json) btree_map" conn_id
  | OpLeave site_id string conn_id
  | OpPublish site_id string "collection_change list"
  | OpTake site_id string conn_id

fun watch_op_step :: "watch_op \<Rightarrow> collection_watch_hub \<Rightarrow> collection_watch_hub" where
  "watch_op_step (OpJoin site collection filters conn) hub = snd (watch_join site collection filters conn hub)"
| "watch_op_step (OpLeave site collection conn) hub = watch_leave site collection conn hub"
| "watch_op_step (OpPublish site collection changes) hub = publish site collection changes hub"
| "watch_op_step (OpTake site collection conn) hub = take_outbound site collection conn hub"

definition watch_run :: "watch_op list \<Rightarrow> collection_watch_hub \<Rightarrow> collection_watch_hub" where
  "watch_run ops hub = fold watch_op_step ops hub"

text \<open>The ids of the joins, each of which is a fresh UUID.\<close>

fun joined_ids :: "watch_op list \<Rightarrow> conn_id list" where
  "joined_ids [] = []"
| "joined_ids (OpJoin _ _ _ conn # ops) = conn # joined_ids ops"
| "joined_ids (_ # ops) = joined_ids ops"

lemma publish_ok: "watch_ok hub \<Longrightarrow> watch_ok (publish site collection changes hub)"
  by (simp add: publish_with_clients with_clients_ok btm_map_entries_invar)

lemma take_outbound_ok: "watch_ok hub \<Longrightarrow> watch_ok (take_outbound site collection conn hub)"
  unfolding take_outbound_def
  by (rule with_clients_ok, assumption, simp, erule btm_map_entries_invar)

lemma watching_publish:
  assumes "watch_ok hub"
  shows "watching (publish site collection changes hub) s c k =
    (if s = site \<and> c = collection then map_option (publish_to (wh_outbound_queue hub) changes) (watching hub s c k)
     else watching hub s c k)"
proof (cases "changes = []")
  case True
  then show ?thesis by (simp add: publish_def publish_to.simps(1) [abs_def] option.map_ident)
next
  case False
  then show ?thesis
    by (simp only: publish_with_clients if_False)
       (rule watching_with_clients [OF assms, where g = "\<lambda>_. publish_to (wh_outbound_queue hub) changes"],
        rule btm_get_map)
qed

lemma watching_take:
  assumes "watch_ok hub"
  shows "watching (take_outbound site collection conn hub) s c k =
    (if s = site \<and> c = collection \<and> k = conn
     then map_option (\<lambda>w. w\<lparr>wc_outbound := tl (wc_outbound w)\<rparr>) (watching hub s c k) else watching hub s c k)"
proof -
  have "btm_get (map (\<lambda>(c, client). (c, if c = conn then client\<lparr>wc_outbound := tl (wc_outbound client)\<rparr> else client)) m) k
      = map_option (\<lambda>w. if k = conn then w\<lparr>wc_outbound := tl (wc_outbound w)\<rparr> else w) (btm_get m k)" for m k
    by (induction m) (auto simp: btm_get_def)
  from watching_with_clients [OF assms this, of site collection s c k] show ?thesis
    by (auto simp: take_outbound_def option.map_ident)
qed

lemma limits_stable:
  "wh_max_connections (watch_op_step op hub) = wh_max_connections hub
   \<and> wh_max_connections_per_site (watch_op_step op hub) = wh_max_connections_per_site hub
   \<and> wh_outbound_queue (watch_op_step op hub) = wh_outbound_queue hub"
proof (cases op)
  case (OpJoin site collection filters conn)
  then show ?thesis by (auto simp: watch_join_def Let_def split: option.splits)
next
  case (OpLeave site collection conn)
  then show ?thesis by (auto simp: watch_leave_def drop_empty_watch_site_def Let_def split: option.splits)
next
  case (OpPublish site collection changes)
  then show ?thesis by (auto simp: publish_def split: option.splits)
next
  case (OpTake site collection conn)
  then show ?thesis by (auto simp: take_outbound_def with_clients_def split: option.splits)
qed

definition queue_ok :: "collection_watch_hub \<Rightarrow> conn_id set \<Rightarrow> bool" where
  "queue_ok hub ids \<longleftrightarrow> (\<forall>s c k w. watching hub s c k = Some w \<longrightarrow>
     k \<in> ids \<and> length (wc_outbound w) \<le> unat (wh_outbound_queue hub))"

lemma watch_op_step_ok:
  assumes ok: "watch_ok hub" and queue: "queue_ok hub ids" and fresh: "set (joined_ids [op]) \<inter> ids = {}"
  shows "watch_ok (watch_op_step op hub) \<and> queue_ok (watch_op_step op hub) (ids \<union> set (joined_ids [op]))"
proof (cases op)
  case (OpJoin site collection filters conn)
  have none: "watching hub site collection conn = None"
    using fresh queue OpJoin by (auto simp: queue_ok_def simp del: not_None_eq split: option.splits) (metis option.exhaust)
  from watch_join_cases [OF ok, of site collection filters conn] show ?thesis
  proof
    assume "\<exists>e. watch_join site collection filters conn hub = (WatchErr e, hub)
      \<and> (we_code e = ''watches_busy'' \<and> wh_connections hub \<ge> wh_max_connections hub
         \<or> we_code e = ''site_watches_busy'' \<and> sw_connections (current_site hub site) \<ge> wh_max_connections_per_site hub)"
    then have "watch_op_step op hub = hub" using OpJoin by auto
    then show ?thesis using ok queue by (auto simp: queue_ok_def)
  next
    assume joined: "watch_join site collection filters conn hub = (WatchJoined conn, with_watch site collection conn filters hub)
       \<and> wh_connections hub < wh_max_connections hub
       \<and> sw_connections (current_site hub site) < wh_max_connections_per_site hub"
    then have hub': "watch_op_step op hub = with_watch site collection conn filters hub" using OpJoin by auto
    have "wh_outbound_queue (with_watch site collection conn filters hub) = wh_outbound_queue hub"
      using limits_stable [of op hub] hub' by simp
    then show ?thesis
      using with_watch_ok [OF ok none] joined queue OpJoin
      by (auto simp: hub' queue_ok_def watching_with_watch [OF ok] split: if_splits)
  qed
next
  case (OpLeave site collection conn)
  then show ?thesis
    using watch_leave_ok [OF ok] queue limits_stable [of op hub]
    by (auto simp: queue_ok_def watching_leave [OF ok] split: if_splits)
next
  case (OpPublish site collection changes)
  have "length (wc_outbound (publish_to (wh_outbound_queue hub) changes w)) \<le> unat (wh_outbound_queue hub)"
    "\<exists>s c k. watching hub s c k = Some w" if "watching hub s c k = Some w" for s c k w
    using that queue by (fastforce simp: queue_ok_def publish_to_eq)+
  then show ?thesis
    using publish_ok [OF ok] queue limits_stable [of op hub] OpPublish
    by (auto simp: queue_ok_def watching_publish [OF ok] split: if_splits)
next
  case (OpTake site collection conn)
  then show ?thesis
    using take_outbound_ok [OF ok] queue limits_stable [of op hub]
    by (fastforce simp: queue_ok_def watching_take [OF ok] split: if_splits)
qed

lemma watch_run_ok:
  assumes "watch_ok hub" "queue_ok hub ids" "distinct (joined_ids ops)" "set (joined_ids ops) \<inter> ids = {}"
  shows "watch_ok (watch_run ops hub) \<and> queue_ok (watch_run ops hub) (ids \<union> set (joined_ids ops))"
  using assms
proof (induction ops arbitrary: hub ids)
  case (Cons op ops)
  have split: "joined_ids (op # ops) = joined_ids [op] @ joined_ids ops" by (cases op) auto
  have "set (joined_ids [op]) \<inter> ids = {}" using Cons.prems(4) split by auto
  from watch_op_step_ok [OF Cons.prems(1,2) this]
  have "watch_ok (watch_op_step op hub)" "queue_ok (watch_op_step op hub) (ids \<union> set (joined_ids [op]))" by auto
  from Cons.IH [OF this] Cons.prems(3,4) split show ?case
    by (auto simp: watch_run_def Un_assoc)
qed (simp add: watch_run_def)

lemma watch_hub_new_ok:
  assumes "0 < wh_max_connections_per_site (watch_hub_new limits)"
  shows "watch_ok (watch_hub_new limits)" "queue_ok (watch_hub_new limits) {}"
  using assms by (auto simp: watch_ok_def queue_ok_def watching_def watch_hub_new_def btm_sum_def word_gt_0)

text \<open>A small hub for the witnesses.\<close>

definition example_watch_limits :: vibe_room_limits where
  "example_watch_limits = \<lparr>cfg_rooms_per_site = 1, cfg_room_connections = 1, cfg_room_connections_per_site = 2,
     cfg_room_connections_total = 3, cfg_room_user_states = 1, cfg_room_user_state_bytes = 16,
     cfg_room_outbound_queue = 1\<rparr>"

definition example_change :: collection_change where
  "example_change = \<lparr>cc_kind = ChangeInsert, cc_before = None, cc_after = Some (JObject [(''a'', JBool True)])\<rparr>"

definition example_watch_ops :: "watch_op list" where
  "example_watch_ops = [OpJoin 7 ''notes'' [(''a'', JBool True)] 1, OpJoin 7 ''notes'' [] 2,
     OpPublish 7 ''notes'' [example_change], OpTake 7 ''notes'' 2, OpLeave 7 ''notes'' 2]"

lemmas watch_eval = example_watch_limits_def example_change_def example_watch_ops_def watch_run_def watch_hub_new_def
  watch_join_def watch_leave_def watch_site_def publish_def take_outbound_def with_clients_def
  drop_empty_collection_def drop_empty_watch_site_def reserve_capacity_def release_capacity_def
  site_watches_default_def collection_watches_default_def document_matches_def change_message_def
  watching_def filter_accepts_def btm_get_def btm_remove_def

text \<open>
  C20: Whatever joins, leaves, publications and receives a hub goes through, its count of connections
  is the number of the watches it keeps, within the deployment's and each site's limit; it keeps no site
  without a collection and no collection without a watch; and no watch's queue outgrows its capacity.
\<close>

theorem watch_hub_invariant:
  assumes "0 < wh_max_connections_per_site (watch_hub_new limits)" and "distinct (joined_ids ops)"
  shows "let hub = watch_run ops (watch_hub_new limits) in
    unat (wh_connections hub) = sum_list (map (\<lambda>(_, sw). sum_list (map (\<lambda>(_, cw). watchers cw) (sw_collections sw)))
      (wh_sites hub))
    \<and> unat (wh_connections hub) \<le> unat (wh_max_connections hub)
    \<and> (\<forall>site sw. btm_get (wh_sites hub) site = Some sw \<longrightarrow>
         unat (sw_connections sw) = sum_list (map (\<lambda>(_, cw). watchers cw) (sw_collections sw))
         \<and> unat (sw_connections sw) \<le> unat (wh_max_connections_per_site hub) \<and> sw_collections sw \<noteq> []
         \<and> (\<forall>c cw. btm_get (sw_collections sw) c = Some cw \<longrightarrow> cw_clients cw \<noteq> [] \<and> \<not> cw_closed cw))
    \<and> (\<forall>s c k w. watching hub s c k = Some w \<longrightarrow> length (wc_outbound w) \<le> unat (wh_outbound_queue hub))"
proof -
  let ?hub = "watch_run ops (watch_hub_new limits)"
  note run = watch_run_ok [OF watch_hub_new_ok [OF assms(1)] assms(2)]
  then have ok: "watch_ok ?hub" and queue: "queue_ok ?hub (set (joined_ids ops))" by auto
  have sums: "sum_list (map (\<lambda>(_, cw). watchers cw) m) = btm_sum watchers m" for m :: "(string, collection_watches) btree_map"
    by (simp add: btm_sum_def split_beta')
  have inv: "btm_invar (wh_sites ?hub)" using ok by (simp add: watch_ok_def)
  have "unat (sw_connections sw) = btm_sum watchers (sw_collections sw)" if "(site, sw) \<in> set (wh_sites ?hub)" for site sw
    using that ok by (auto simp: watch_ok_def site_watch_ok_def btm_get_in_set [OF inv])
  then have "btm_sum (\<lambda>sw. unat (sw_connections sw)) (wh_sites ?hub)
      = sum_list (map (\<lambda>(_, sw). btm_sum watchers (sw_collections sw)) (wh_sites ?hub))"
    unfolding btm_sum_def [of "\<lambda>sw. unat (sw_connections sw)"]
    by (intro arg_cong [where f = sum_list] map_cong refl) auto
  with ok have total: "unat (wh_connections ?hub)
      = sum_list (map (\<lambda>(_, sw). btm_sum watchers (sw_collections sw)) (wh_sites ?hub))"
    "unat (wh_connections ?hub) \<le> unat (wh_max_connections ?hub)"
    by (simp_all add: watch_ok_def)
  have site: "site_watch_ok (wh_max_connections_per_site ?hub) sw" if "btm_get (wh_sites ?hub) site = Some sw" for site sw
    using that ok by (auto simp: watch_ok_def)
  show ?thesis
    unfolding Let_def sums
  proof (intro conjI allI impI)
    fix site sw assume "btm_get (wh_sites ?hub) site = Some sw"
    note sw = site [OF this, unfolded site_watch_ok_def]
    from sw show "unat (sw_connections sw) = btm_sum watchers (sw_collections sw)"
      "unat (sw_connections sw) \<le> unat (wh_max_connections_per_site ?hub)" "sw_collections sw \<noteq> []"
      by blast+
    fix c cw assume "btm_get (sw_collections sw) c = Some cw"
    with sw show "cw_clients cw \<noteq> []" "\<not> cw_closed cw" by (auto simp: collection_ok_def)
  qed (use total queue in \<open>auto simp: queue_ok_def\<close>)
qed

theorem watch_hub_invariant_witness:
  "let hub = watch_run example_watch_ops (watch_hub_new example_watch_limits) in
     wh_connections hub = 1 \<and> (\<exists>sw. btm_get (wh_sites hub) 7 = Some sw \<and> sw_connections sw = 1
       \<and> (case watching hub 7 ''notes'' 1 of None \<Rightarrow> False | Some w \<Rightarrow> length (wc_outbound w) = 1)
       \<and> unat (sw_connections sw) \<le> unat (wh_max_connections_per_site hub))"
proof -
  have limit: "0 < wh_max_connections_per_site (watch_hub_new example_watch_limits)"
    and fresh: "distinct (joined_ids example_watch_ops)"
    by (simp_all add: example_watch_limits_def watch_hub_new_def example_watch_ops_def)
  have "\<exists>sw. btm_get (wh_sites (watch_run example_watch_ops (watch_hub_new example_watch_limits))) 7 = Some sw"
    by (simp add: watch_eval Let_def)
  then show ?thesis
    using watch_hub_invariant [OF limit fresh] by (auto simp: watch_eval Let_def)
qed

lemma watch_leave_join:
  assumes ok: "watch_ok hub" and fresh: "watching hub site collection conn = None"
    and room: "wh_connections hub < wh_max_connections hub"
    and site_room: "sw_connections (current_site hub site) < wh_max_connections_per_site hub"
  shows "watch_leave site collection conn (with_watch site collection conn filters hub) = hub"
proof -
  let ?sw = "current_site hub site"
  let ?cw = "current_collection ?sw collection"
  let ?cw' = "with_client conn filters ?cw"
  let ?sw' = "?sw\<lparr>sw_connections := sw_connections ?sw + 1, sw_collections := btm_insert collection ?cw' (sw_collections ?sw)\<rparr>"
  let ?hub' = "with_watch site collection conn filters hub"
  have inv: "btm_invar (wh_sites hub)" using ok by (simp add: watch_ok_def)
  note sinv = current_site_ok(1) [OF ok, of site]
  note cinv = current_collection_ok(1) [OF ok, of site collection]
  have none: "btm_get (cw_clients ?cw) conn = None"
    using fresh by (auto simp: watching_def current_site_def current_collection_def site_watches_default_def
        collection_watches_default_def split: option.splits)
  have site': "btm_get (wh_sites ?hub') site = Some ?sw'" by (simp add: with_watch_def Let_def btm_get_insert inv)
  have coll': "btm_get (sw_collections ?sw') collection = Some ?cw'" by (simp add: btm_get_insert sinv)
  have client': "btm_get (cw_clients ?cw') conn \<noteq> None" by (simp add: with_client_def btm_get_insert cinv)
  have clients: "btm_remove conn (cw_clients ?cw') = cw_clients ?cw"
    by (simp add: with_client_def btm_insert_remove cinv none)
  have restored: "without_client conn collection ?cw' ?sw' = ?sw"
  proof (cases "btm_get (sw_collections ?sw) collection")
    case None
    then have "cw_clients ?cw = []" by (simp add: current_collection_def collection_watches_default_def)
    then show ?thesis
      using None clients by (simp add: without_client_def btm_insert_remove sinv)
  next
    case (Some cw)
    then have "?cw = cw" by (simp add: current_collection_def)
    moreover have "cw_clients cw \<noteq> []" using current_site_ok(2) [OF ok Some] by (simp add: collection_ok_def)
    ultimately show ?thesis
      using Some clients by (simp add: without_client_def with_client_def btm_insert_insert btm_insert_same sinv)
  qed
  have "watch_leave site collection conn ?hub' = (let sw' = ?sw in
      ?hub'\<lparr>wh_connections := release_capacity (wh_connections ?hub'),
        wh_sites := (if sw_connections sw' = 0 \<and> sw_collections sw' = [] then btm_remove site (wh_sites ?hub')
                     else btm_insert site sw' (wh_sites ?hub'))\<rparr>)"
    using watch_leave_eq [OF with_watch_ok [OF ok fresh room site_room] site' coll' client'] unfolding restored .
  moreover have "(if sw_connections ?sw = 0 \<and> sw_collections ?sw = [] then btm_remove site (wh_sites ?hub')
                     else btm_insert site ?sw (wh_sites ?hub')) = wh_sites hub"
  proof (cases "btm_get (wh_sites hub) site")
    case None
    then have "?sw = site_watches_default" by (simp add: current_site_def)
    then show ?thesis
      using None by (simp add: site_watches_default_def with_watch_def Let_def btm_insert_remove inv)
  next
    case (Some sw)
    then have sw: "?sw = sw" by (simp add: current_site_def)
    have "sw_collections sw \<noteq> []" using ok Some by (auto simp: watch_ok_def site_watch_ok_def)
    then show ?thesis
      using Some sw by (simp add: with_watch_def Let_def btm_insert_insert btm_insert_same inv)
  qed
  moreover have "?hub'\<lparr>wh_connections := release_capacity (wh_connections ?hub'), wh_sites := wh_sites hub\<rparr> = hub"
    by (simp add: with_watch_def Let_def)
  ultimately show ?thesis by (simp only: Let_def)
qed

text \<open>
  A join either takes one place and adds the watch, with an empty queue, or a limit is reached, it
  says which, and the hub is unchanged; a connection that joins and leaves leaves the hub as it was.
\<close>

theorem watch_join_leave:
  assumes "watch_ok hub" and "watching hub site collection conn = None"
  shows "(case watch_join site collection filters conn hub of
      (WatchErr e, hub') \<Rightarrow> hub' = hub
        \<and> (we_code e = ''watches_busy'' \<and> wh_connections hub \<ge> wh_max_connections hub
           \<or> we_code e = ''site_watches_busy''
             \<and> sw_connections (current_site hub site) \<ge> wh_max_connections_per_site hub)
    | (WatchJoined k, hub') \<Rightarrow>
        k = conn \<and> watch_ok hub' \<and> unat (wh_connections hub') = Suc (unat (wh_connections hub))
        \<and> watching hub' site collection conn = Some \<lparr>wc_filters = filters, wc_outbound = [], wc_cancelled = False\<rparr>
        \<and> watch_leave site collection conn hub' = hub
    | (WatchSpins, _) \<Rightarrow> False)"
  using watch_join_cases [OF assms(1), of site collection filters conn]
proof (elim disjE exE conjE)
  assume eq: "watch_join site collection filters conn hub = (WatchJoined conn, with_watch site collection conn filters hub)"
    and room: "wh_connections hub < wh_max_connections hub"
      "sw_connections (current_site hub site) < wh_max_connections_per_site hub"
  have "wh_connections (with_watch site collection conn filters hub) = wh_connections hub + 1"
    by (simp add: with_watch_def Let_def)
  with eq room show ?thesis
    by (simp add: with_watch_ok [OF assms] watching_with_watch [OF assms(1)] watch_leave_join [OF assms]
        unat_usize_inc [OF room(1)])
qed simp_all

text \<open>
  C21: Publishing hands every watch of that site and collection exactly the messages of the changes that
  match its filters before or after, in order, as far as its queue has room; a watch whose queue has no room
  for all of them is cancelled, and no other watch is touched.
\<close>

theorem publish_delivery:
  assumes "watch_ok hub" and "watching hub s c k = Some w" and "length (wc_outbound w) \<le> unat (wh_outbound_queue hub)"
  shows "watching (publish site collection changes hub) s c k = Some
    (if s = site \<and> c = collection
     then w\<lparr>wc_outbound := take (unat (wh_outbound_queue hub))
                (wc_outbound w @ matching_messages (wc_filters w) changes),
            wc_cancelled := wc_cancelled w \<or>
              unat (wh_outbound_queue hub) < length (wc_outbound w) + length (matching_messages (wc_filters w) changes)\<rparr>
     else w)"
proof (cases "s = site \<and> c = collection")
  case True
  then show ?thesis
    using assms(2) by (simp add: watching_publish [OF assms(1)] publish_to_eq [OF assms(3)])
next
  case False
  then show ?thesis using assms(2) by (auto simp: watching_publish [OF assms(1)])
qed

lemma watch_loop_break:
  "snd (watch_loop arms) \<longleftrightarrow> (\<exists>arm\<in>set arms. \<not> snd (watch_arm_step arm))"
  by (induction arms) (auto split: prod.splits)

text \<open>
  A watch connection joins the hub at most once, only after a valid subscription, and every join that
  succeeded is followed by one leave of that connection as soon as it is over, whichever way it ends; it is
  over at the first shutdown, cancellation, closed queue, close frame, end of the stream or failed send.
\<close>

theorem watch_connection_leaves:
  fixes decode :: "string \<Rightarrow> subscribe_message option"
  shows "serve_collection_watch decode first max_message_bytes join ready_sent arms = (frames, calls, over) \<Longrightarrow>
    over = (case receive_subscription decode first max_message_bytes of
        Inl _ \<Rightarrow> True
      | Inr filters \<Rightarrow> (case join filters of Inl _ \<Rightarrow> True
          | Inr conn \<Rightarrow> \<not> ready_sent \<or> (\<exists>arm\<in>set arms. \<not> snd (watch_arm_step arm))))
    \<and> calls = (case receive_subscription decode first max_message_bytes of
        Inl _ \<Rightarrow> []
      | Inr filters \<Rightarrow> CallJoin filters # (case join filters of Inl _ \<Rightarrow> []
          | Inr conn \<Rightarrow> if over then [CallLeave conn] else []))"
  using watch_loop_break [of arms]
  by (auto simp: serve_collection_watch_def split: sum.splits if_splits prod.splits)

theorem watch_join_leave_witness:
  "watch_leave 7 ''notes'' 1 (snd (watch_join 7 ''notes'' [] 1 (watch_hub_new example_watch_limits)))
     = watch_hub_new example_watch_limits"
proof -
  have ok: "watch_ok (watch_hub_new example_watch_limits)"
    by (rule watch_hub_new_ok) (simp add: example_watch_limits_def watch_hub_new_def)
  have fresh: "watching (watch_hub_new example_watch_limits) 7 ''notes'' 1 = None" by (simp add: watch_eval)
  have "\<exists>hub'. watch_join 7 ''notes'' [] 1 (watch_hub_new example_watch_limits) = (WatchJoined 1, hub')"
    by (simp add: watch_eval Let_def)
  then show ?thesis using watch_join_leave [OF ok fresh, of "[]"] by auto
qed

theorem publish_delivery_witness:
  "map_option wc_cancelled (watching (publish 7 ''notes'' [example_change, example_change]
     (watch_run [OpJoin 7 ''notes'' [] 3] (watch_hub_new example_watch_limits))) 7 ''notes'' 3) = Some True"
proof -
  let ?hub = "watch_run [OpJoin 7 ''notes'' [] 3] (watch_hub_new example_watch_limits)"
  have limit: "0 < wh_max_connections_per_site (watch_hub_new example_watch_limits)"
    by (simp add: example_watch_limits_def watch_hub_new_def)
  have ok: "watch_ok ?hub" using watch_run_ok [OF watch_hub_new_ok [OF limit], of "[OpJoin 7 ''notes'' [] 3]"] by simp
  let ?w = "\<lparr>wc_filters = [], wc_outbound = [], wc_cancelled = False\<rparr>"
  have w: "watching ?hub 7 ''notes'' 3 = Some ?w" by (simp add: watch_eval Let_def)
  have queue: "wh_outbound_queue ?hub = 1" by (simp add: watch_eval Let_def)
  have "watching (publish 7 ''notes'' [example_change, example_change] ?hub) 7 ''notes'' 3 = Some
    (?w\<lparr>wc_outbound := [change_message [] example_change], wc_cancelled := True\<rparr>)"
    using publish_delivery [OF ok w, of 7 "''notes''" "[example_change, example_change]"]
    by (simp add: queue matching_messages_def document_matches_def example_change_def)
  then show ?thesis by simp
qed

theorem watch_connection_leaves_witness:
  "fst (snd (serve_collection_watch (\<lambda>_. Some \<lparr>sm_kind = ''watch'', sm_filters = []\<rparr>) (FirstText ''{}'') 16
     (\<lambda>_. Inr 3) True [TookTick True, TookOutbound (Some JNull) True, TookCancel])) = [CallJoin [], CallLeave 3]"
proof -
  let ?decode = "\<lambda>_. Some \<lparr>sm_kind = ''watch'', sm_filters = []\<rparr>"
  let ?arms = "[TookTick True, TookOutbound (Some JNull) True, TookCancel]"
  have r: "receive_subscription ?decode (FirstText ''{}'') 16 = Inr []"
    by (simp add: receive_subscription_def)
  obtain frames calls over where eq: "serve_collection_watch ?decode (FirstText ''{}'') 16 (\<lambda>_. Inr 3) True ?arms
      = (frames, calls, over)"
    by (metis prod.exhaust)
  from watch_connection_leaves [OF eq] r have "calls = [CallJoin [], CallLeave 3]" by simp
  then show ?thesis by (simp add: eq)
qed

end
