(* ===== verification/Api_Reasoning.thy ===== *)
theory Api_Reasoning
  imports Api_Agent_Run "HOL-Library.Product_Lexorder" "HOL-Library.Option_ord"
begin

text \<open>
  \<open>chudbot-api/src/reasoning.rs\<close>: the reasoning summaries and the reasoning token counts a trace viewer
  may see, extracted from the opaque continuations of the providers and from usage records. The theorems
  show what cannot leak and what is counted. The \<open>u64\<close> sums wrap, as in a release build.
\<close>

section \<open>Items\<close>

definition reasoning_summary_text :: "string option \<Rightarrow> string \<Rightarrow> reasoning_summary" where
  "reasoning_summary_text kind text = \<lparr>rs_kind = kind, rs_text = text\<rparr>"

fun reasoning_summary_from_entry :: "json \<Rightarrow> reasoning_summary option" where
  "reasoning_summary_from_entry (JString text) = Some (reasoning_summary_text None text)"
| "reasoning_summary_from_entry (JObject m) =
     map_option (\<lambda>text. reasoning_summary_text (Option.bind (btm_get m ''type'') json_as_str) text)
       (Option.bind (btm_get m ''text'') json_as_str)"
| "reasoning_summary_from_entry _ = None"

fun reasoning_summaries_from_value :: "json option \<Rightarrow> reasoning_summary list" where
  "reasoning_summaries_from_value (Some (JArray entries)) = List.map_filter reasoning_summary_from_entry entries"
| "reasoning_summaries_from_value (Some v) = List.map_filter reasoning_summary_from_entry [v]"
| "reasoning_summaries_from_value None = []"

definition anthropic_thinking_summaries :: "(string, json) btree_map \<Rightarrow> reasoning_summary list" where
  "anthropic_thinking_summaries m =
     (case Option.bind (btm_get m ''thinking'') json_as_str of
        Some text \<Rightarrow>
          if str_trim text \<noteq> [] then [reasoning_summary_text (Some ''thinking'') text]
          else if btm_contains m ''signature''
          then [reasoning_summary_text (Some ''thinking_omitted'') ''Thinking content omitted by provider.'']
          else []
      | None \<Rightarrow>
          if btm_contains m ''signature''
          then [reasoning_summary_text (Some ''thinking_omitted'') ''Thinking content omitted by provider.'']
          else [])"

definition reasoning_item_from_value ::
  "provider_name \<Rightarrow> model_id option \<Rightarrow> json \<Rightarrow> reasoning_item option" where
  "reasoning_item_from_value provider model item =
     (case json_as_object item of
        None \<Rightarrow> None
      | Some m \<Rightarrow>
          (let item_type = Option.bind (btm_get m ''type'') json_as_str;
               summary =
                 (if item_type = Some ''reasoning'' then reasoning_summaries_from_value (btm_get m ''summary'')
                  else if item_type = Some ''thinking'' then anthropic_thinking_summaries m
                  else if item_type = Some ''redacted_thinking''
                  then [reasoning_summary_text (Some ''redacted_thinking'') ''Thinking content redacted by provider.'']
                  else []);
               summary = filter (\<lambda>s. str_trim (rs_text s) \<noteq> []) summary
           in if summary = [] then None
              else Some \<lparr>ri_provider = provider, ri_model = model,
                ri_id = Option.bind (btm_get m ''id'') json_as_str,
                ri_status = Option.bind (btm_get m ''status'') json_as_str, ri_summary = summary\<rparr>))"

definition reasoning_items_from_continuation ::
  "provider_continuation \<Rightarrow> model_id option \<Rightarrow> reasoning_item list" where
  "reasoning_items_from_continuation continuation model =
     (case pc_data continuation of
        JArray xs \<Rightarrow> List.map_filter (reasoning_item_from_value (pc_provider continuation) model) xs
      | item \<Rightarrow> List.map_filter (reasoning_item_from_value (pc_provider continuation) model) [item])"

section \<open>Usage\<close>

record reasoning_usage =
  ru_provider :: provider_name
  ru_model :: "model_id option"
  ru_tokens :: u64

definition reasoning_key_tokens :: "usage_record \<Rightarrow> ((provider_name \<times> model_id option) \<times> u64) option" where
  "reasoning_key_tokens r =
     (if ur_subject r \<noteq> ModelStep then None
      else case ur_reasoning_tokens r of
        None \<Rightarrow> None
      | Some tokens \<Rightarrow> if tokens = 0 then None else Some ((ur_provider r, ur_model r), tokens))"

definition add_reasoning_tokens ::
  "(provider_name \<times> model_id option) \<times> u64 \<Rightarrow> (provider_name \<times> model_id option, u64) btree_map
    \<Rightarrow> (provider_name \<times> model_id option, u64) btree_map" where
  "add_reasoning_tokens e m =
     btm_insert (fst e) ((case btm_get m (fst e) of None \<Rightarrow> 0 | Some t \<Rightarrow> t) + snd e) m"

definition reasoning_usage_from_records :: "usage_record list \<Rightarrow> reasoning_usage list" where
  "reasoning_usage_from_records records =
     map (\<lambda>((provider, model), tokens). \<lparr>ru_provider = provider, ru_model = model, ru_tokens = tokens\<rparr>)
       (fold add_reasoning_tokens (List.map_filter reasoning_key_tokens records) [])"

section \<open>Whole turns\<close>

record turn_reasoning =
  tr_items :: "reasoning_item list"
  tr_usage :: "reasoning_usage list"

definition from_model_steps_and_usage :: "model_step_trace list \<Rightarrow> usage_record list \<Rightarrow> turn_reasoning" where
  "from_model_steps_and_usage steps usage =
     \<lparr>tr_items = concat (List.map_filter (\<lambda>step. map_option (\<lambda>continuation.
          reasoning_items_from_continuation continuation (Some (mst_model step))) (mst_continuation step)) steps),
      tr_usage = reasoning_usage_from_records usage\<rparr>"

definition from_continuation_and_usage ::
  "provider_continuation option \<Rightarrow> model_id option \<Rightarrow> usage_record list \<Rightarrow> turn_reasoning" where
  "from_continuation_and_usage continuation model usage =
     \<lparr>tr_items = (case continuation of None \<Rightarrow> [] | Some c \<Rightarrow> reasoning_items_from_continuation c model),
      tr_usage = reasoning_usage_from_records usage\<rparr>"

section \<open>Properties\<close>

text \<open>The fields of a provider item a viewer may see; of a signature only its presence.\<close>

definition viewer_fields :: "string list" where
  "viewer_fields = [''type'', ''id'', ''status'', ''summary'', ''thinking'']"

definition same_view :: "json \<Rightarrow> json \<Rightarrow> bool" where
  "same_view a b \<longleftrightarrow>
     (case (json_as_object a, json_as_object b) of
        (Some m, Some m') \<Rightarrow>
          list_all (\<lambda>k. btm_get m k = btm_get m' k) viewer_fields
          \<and> (btm_contains m ''signature'' \<longleftrightarrow> btm_contains m' ''signature'')
      | (None, None) \<Rightarrow> True
      | _ \<Rightarrow> False)"

lemma same_view_item: "same_view a b \<Longrightarrow> reasoning_item_from_value p m a = reasoning_item_from_value p m b"
  by (cases "json_as_object a"; cases "json_as_object b")
     (simp_all add: same_view_def viewer_fields_def reasoning_item_from_value_def anthropic_thinking_summaries_def
       Let_def cong: option.case_cong if_cong)

text \<open>
  What a trace shows of a provider's reasoning depends on the type, id, status, summary and thinking
  fields only, and on the presence of a signature, not on its value: two continuations that agree on these
  (whatever their encrypted contents, signatures, tool payloads or messages) give the same view.
\<close>

theorem reasoning_hides_opaque_state:
  assumes "list_all2 same_view xs ys"
  shows "from_continuation_and_usage (Some \<lparr>pc_provider = p, pc_data = JArray xs\<rparr>) model usage
       = from_continuation_and_usage (Some \<lparr>pc_provider = p, pc_data = JArray ys\<rparr>) model usage"
  using assms
proof (induction rule: list_all2_induct)
  case (Cons x xs y ys)
  then show ?case
    using same_view_item [OF Cons.hyps(1)]
    by (simp add: from_continuation_and_usage_def reasoning_items_from_continuation_def map_filter_Cons
        split: option.split)
qed simp

theorem reasoning_hides_opaque_state_witness:
  "from_continuation_and_usage (Some \<lparr>pc_provider = ''xai'', pc_data = JArray
      [JObject [(''encrypted_content'', JString ''SECRET''), (''summary'', JArray [JString ''s'']),
                (''type'', JString ''reasoning'')]]\<rparr>) None []
   = from_continuation_and_usage (Some \<lparr>pc_provider = ''xai'', pc_data = JArray
      [JObject [(''summary'', JArray [JString ''s'']), (''type'', JString ''reasoning'')]]\<rparr>) None []"
  by (rule reasoning_hides_opaque_state)
     (simp add: same_view_def viewer_fields_def btm_get_def btm_contains_def)

lemma item_summaries_visible:
  "reasoning_item_from_value p m v = Some item \<Longrightarrow>
    ri_summary item \<noteq> [] \<and> list_all (\<lambda>s. str_trim (rs_text s) \<noteq> []) (ri_summary item)
    \<and> ri_provider item = p \<and> ri_model item = m"
  by (auto simp: reasoning_item_from_value_def Let_def list_all_iff split: option.splits if_splits)

lemma map_filter_mem: "x \<in> set (List.map_filter f xs) \<longleftrightarrow> (\<exists>y\<in>set xs. f y = Some x)"
  by (induction xs) (auto simp: map_filter_Cons split: option.splits)

text \<open>
  No empty reasoning is shown: every item extracted from a continuation has at least one summary, none
  of its summaries is blank, and it carries the provider of the continuation and the model asked for.
\<close>

theorem reasoning_items_visible:
  assumes "item \<in> set (tr_items (from_continuation_and_usage (Some c) model usage))"
  shows "ri_summary item \<noteq> [] \<and> list_all (\<lambda>s. str_trim (rs_text s) \<noteq> []) (ri_summary item)
    \<and> ri_provider item = pc_provider c \<and> ri_model item = model"
proof -
  have "\<exists>v. reasoning_item_from_value (pc_provider c) model v = Some item"
    using assms
    by (cases "pc_data c") (auto simp: from_continuation_and_usage_def reasoning_items_from_continuation_def map_filter_mem
        split: option.splits)
  then show ?thesis using item_summaries_visible by blast
qed

text \<open>The reasoning tokens of a provider and model among the records, as a word.\<close>

definition reasoning_tokens_of :: "provider_name \<Rightarrow> model_id option \<Rightarrow> usage_record list \<Rightarrow> u64" where
  "reasoning_tokens_of provider model records =
     sum_list (map (\<lambda>r. case ur_reasoning_tokens r of None \<Rightarrow> 0 | Some t \<Rightarrow> t)
       (filter (\<lambda>r. ur_subject r = ModelStep \<and> ur_provider r = provider \<and> ur_model r = model) records))"

lemma add_reasoning_tokens_invar: "btm_invar m \<Longrightarrow> btm_invar (add_reasoning_tokens e m)"
  by (simp add: add_reasoning_tokens_def btm_insert_invar)

lemma fold_tokens_invar: "btm_invar m \<Longrightarrow> btm_invar (fold add_reasoning_tokens es m)"
  by (induction es arbitrary: m) (auto intro: add_reasoning_tokens_invar)

lemma fold_tokens_get:
  "btm_invar m \<Longrightarrow> (case btm_get (fold add_reasoning_tokens es m) k of None \<Rightarrow> 0 | Some t \<Rightarrow> t)
     = (case btm_get m k of None \<Rightarrow> 0 | Some t \<Rightarrow> t) + sum_list (map snd (filter (\<lambda>e. fst e = k) es))"
proof (induction es arbitrary: m)
  case (Cons e es)
  then show ?case
    using Cons.IH [OF add_reasoning_tokens_invar [OF Cons.prems, of e]]
    by (auto simp: add_reasoning_tokens_def btm_get_insert ac_simps split: option.splits)
qed simp

lemma fold_tokens_dom:
  "btm_invar m \<Longrightarrow> btm_get (fold add_reasoning_tokens es m) k \<noteq> None
     \<longleftrightarrow> btm_get m k \<noteq> None \<or> k \<in> fst ` set es"
proof (induction es arbitrary: m)
  case (Cons e es)
  then show ?case
    using Cons.IH [OF add_reasoning_tokens_invar [OF Cons.prems, of e]]
    by (auto simp: add_reasoning_tokens_def btm_get_insert)
qed simp

lemma key_tokens_iff:
  "reasoning_key_tokens r = Some (k, t) \<longleftrightarrow>
    ur_subject r = ModelStep \<and> k = (ur_provider r, ur_model r) \<and> ur_reasoning_tokens r = Some t \<and> t \<noteq> 0"
  by (auto simp: reasoning_key_tokens_def split: option.splits)

lemma key_tokens_keys:
  "k \<in> fst ` set (List.map_filter reasoning_key_tokens records) \<longleftrightarrow>
    (\<exists>r\<in>set records. ur_subject r = ModelStep \<and> k = (ur_provider r, ur_model r)
      \<and> ur_reasoning_tokens r \<noteq> None \<and> ur_reasoning_tokens r \<noteq> Some 0)"
proof -
  have "k \<in> fst ` set (List.map_filter reasoning_key_tokens records) \<longleftrightarrow>
      (\<exists>t. \<exists>r\<in>set records. reasoning_key_tokens r = Some (k, t))"
    by (force simp: map_filter_mem)
  then show ?thesis by (auto simp: key_tokens_iff)
qed

lemma key_tokens_sum:
  "sum_list (map snd (filter (\<lambda>e. fst e = (provider, model)) (List.map_filter reasoning_key_tokens records)))
     = reasoning_tokens_of provider model records"
  by (induction records)
     (auto simp: reasoning_tokens_of_def map_filter_Cons reasoning_key_tokens_def split: option.splits)

text \<open>
  The reasoning usage of a turn has one row per provider and model, in ascending order; a pair has a row
  exactly if a model step reported a positive count for it, and the row holds the sum of the model steps'
  counts, whatever else (tools, media, sub-agents) reported tokens.
\<close>

theorem reasoning_usage_exact:
  "sorted_wrt (<) (map (\<lambda>u. (ru_provider u, ru_model u)) (reasoning_usage_from_records records))
   \<and> (\<forall>provider model. (provider, model) \<in> (\<lambda>u. (ru_provider u, ru_model u)) ` set (reasoning_usage_from_records records)
        \<longleftrightarrow> (\<exists>r\<in>set records. ur_subject r = ModelStep \<and> ur_provider r = provider \<and> ur_model r = model
              \<and> ur_reasoning_tokens r \<noteq> None \<and> ur_reasoning_tokens r \<noteq> Some 0))
   \<and> (\<forall>u\<in>set (reasoning_usage_from_records records).
        ru_tokens u = reasoning_tokens_of (ru_provider u) (ru_model u) records)"
proof (intro conjI allI ballI)
  let ?es = "List.map_filter reasoning_key_tokens records"
  let ?m = "fold add_reasoning_tokens ?es []"
  have inv: "btm_invar ?m" by (rule fold_tokens_invar) simp
  have keys: "map (\<lambda>u. (ru_provider u, ru_model u)) (reasoning_usage_from_records records) = map fst ?m"
    by (simp add: reasoning_usage_from_records_def comp_def case_prod_beta)
  then show "sorted_wrt (<) (map (\<lambda>u. (ru_provider u, ru_model u)) (reasoning_usage_from_records records))"
    using inv by (simp add: btm_invar_def)
  show "(provider, model) \<in> (\<lambda>u. (ru_provider u, ru_model u)) ` set (reasoning_usage_from_records records)
      \<longleftrightarrow> (\<exists>r\<in>set records. ur_subject r = ModelStep \<and> ur_provider r = provider \<and> ur_model r = model
            \<and> ur_reasoning_tokens r \<noteq> None \<and> ur_reasoning_tokens r \<noteq> Some 0)" for provider model
  proof -
    have "(provider, model) \<in> (\<lambda>u. (ru_provider u, ru_model u)) ` set (reasoning_usage_from_records records)
        \<longleftrightarrow> (provider, model) \<in> fst ` set ?m"
      by (metis keys list.set_map)
    also have "\<dots> \<longleftrightarrow> (provider, model) \<in> fst ` set ?es"
    proof -
      have "(provider, model) \<in> fst ` set ?m \<longleftrightarrow> btm_get ?m (provider, model) \<noteq> None"
        by (simp add: btm_get_def map_of_eq_None_iff)
      then show ?thesis using fold_tokens_dom [of "[]" ?es "(provider, model)"] by simp
    qed
    also have "\<dots> \<longleftrightarrow> (\<exists>r\<in>set records. ur_subject r = ModelStep \<and> ur_provider r = provider \<and> ur_model r = model
            \<and> ur_reasoning_tokens r \<noteq> None \<and> ur_reasoning_tokens r \<noteq> Some 0)"
      by (auto simp: key_tokens_keys)
    finally show ?thesis .
  qed
  fix u assume "u \<in> set (reasoning_usage_from_records records)"
  then obtain provider model tokens where e: "((provider, model), tokens) \<in> set ?m"
    and u: "u = \<lparr>ru_provider = provider, ru_model = model, ru_tokens = tokens\<rparr>"
    by (auto simp: reasoning_usage_from_records_def)
  have "btm_get ?m (provider, model) = Some tokens" using e btm_get_in_set [OF inv] by blast
  then show "ru_tokens u = reasoning_tokens_of (ru_provider u) (ru_model u) records"
    using fold_tokens_get [of "[]" ?es "(provider, model)"] key_tokens_sum by (simp add: u)
qed

definition sample_usage :: "usage_record list" where
  "sample_usage =
     [\<lparr>ur_provider = ''b'', ur_model = Some ''m'', ur_subject = ModelStep, ur_input_tokens = None,
       ur_cached_input_tokens = None, ur_output_tokens = None, ur_reasoning_tokens = Some 5, ur_total_tokens = None,
       ur_cost = None, ur_raw = None\<rparr>,
      \<lparr>ur_provider = ''a'', ur_model = None, ur_subject = ModelStep, ur_input_tokens = None,
       ur_cached_input_tokens = None, ur_output_tokens = None, ur_reasoning_tokens = Some 0, ur_total_tokens = None,
       ur_cost = None, ur_raw = None\<rparr>,
      \<lparr>ur_provider = ''b'', ur_model = Some ''m'', ur_subject = ModelStep, ur_input_tokens = None,
       ur_cached_input_tokens = None, ur_output_tokens = None, ur_reasoning_tokens = Some 2, ur_total_tokens = None,
       ur_cost = None, ur_raw = None\<rparr>]"

lemma sample_usage_rows:
  "reasoning_usage_from_records sample_usage = [\<lparr>ru_provider = ''b'', ru_model = Some ''m'', ru_tokens = 7\<rparr>]"
  by code_simp

theorem reasoning_usage_exact_witness:
  "reasoning_usage_from_records sample_usage = [\<lparr>ru_provider = ''b'', ru_model = Some ''m'', ru_tokens = 7\<rparr>]
   \<and> reasoning_tokens_of ''b'' (Some ''m'') sample_usage = 7"
  using reasoning_usage_exact [of sample_usage] sample_usage_rows by simp

end
