(* ===== verification/Rust_Utf8.thy ===== *)
theory Rust_Utf8
  imports Rust_Prelude
begin

text \<open>
  \<open>std::str::from_utf8\<close> as a test of well-formedness (the table of the Unicode standard, which the
  standard library follows), and \<open>str::lines\<close>. Strings are their bytes.
\<close>

section \<open>Well-formed UTF-8\<close>

definition cont_byte :: "nat \<Rightarrow> bool" where
  "cont_byte b \<longleftrightarrow> 0x80 \<le> b \<and> b \<le> 0xBF"

text \<open>The number of bytes of the first character, 0 if it is ill-formed or missing.\<close>

fun utf8_bytes_len :: "nat list \<Rightarrow> nat" where
  "utf8_bytes_len [] = 0"
| "utf8_bytes_len (b0 # bs) =
     (if b0 < 0x80 then 1
      else if 0xC2 \<le> b0 \<and> b0 \<le> 0xDF then
        (case bs of b1 # _ \<Rightarrow> if cont_byte b1 then 2 else 0 | _ \<Rightarrow> 0)
      else if 0xE0 \<le> b0 \<and> b0 \<le> 0xEF then
        (case bs of
           b1 # b2 # _ \<Rightarrow>
             if cont_byte b1 \<and> (b0 = 0xE0 \<longrightarrow> 0xA0 \<le> b1) \<and> (b0 = 0xED \<longrightarrow> b1 \<le> 0x9F) \<and> cont_byte b2
             then 3 else 0
         | _ \<Rightarrow> 0)
      else if 0xF0 \<le> b0 \<and> b0 \<le> 0xF4 then
        (case bs of
           b1 # b2 # b3 # _ \<Rightarrow>
             if cont_byte b1 \<and> (b0 = 0xF0 \<longrightarrow> 0x90 \<le> b1) \<and> (b0 = 0xF4 \<longrightarrow> b1 \<le> 0x8F)
                \<and> cont_byte b2 \<and> cont_byte b3
             then 4 else 0
         | _ \<Rightarrow> 0)
      else 0)"

definition utf8_char_len :: "string \<Rightarrow> nat" where
  "utf8_char_len s = utf8_bytes_len (map of_char s)"

function utf8_valid :: "string \<Rightarrow> bool" where
  "utf8_valid s =
     (if s = [] then True
      else if utf8_char_len s = 0 then False
      else utf8_valid (drop (utf8_char_len s) s))"
  by pat_completeness auto
termination
  by (relation "measure length") (auto simp: utf8_char_len_def)

declare utf8_valid.simps [simp del]

lemma four_bytes_cases:
  obtains "bs = []" | b0 where "bs = [b0]" | b0 b1 where "bs = [b0, b1]"
    | b0 b1 b2 where "bs = [b0, b1, b2]" | b0 b1 b2 b3 rest where "bs = b0 # b1 # b2 # b3 # rest"
  by (metis list.exhaust)

lemma utf8_bytes_len_le: "utf8_bytes_len bs \<le> length bs"
  by (cases bs rule: four_bytes_cases) simp_all

lemma utf8_char_len_le: "utf8_char_len s \<le> length s"
  using utf8_bytes_len_le [of "map of_char s"] by (simp add: utf8_char_len_def)

lemma utf8_bytes_len_append: "utf8_bytes_len bs \<noteq> 0 \<Longrightarrow> utf8_bytes_len (bs @ bs') = utf8_bytes_len bs"
  by (cases bs rule: four_bytes_cases) (auto split: if_splits)

lemma utf8_char_len_append: "utf8_char_len s \<noteq> 0 \<Longrightarrow> utf8_char_len (s @ t) = utf8_char_len s"
  by (simp add: utf8_char_len_def utf8_bytes_len_append)

lemma utf8_valid_Nil [simp]: "utf8_valid []"
  by (simp add: utf8_valid.simps)

lemma utf8_valid_append: "utf8_valid s \<Longrightarrow> utf8_valid (s @ t) = utf8_valid t"
proof (induction s rule: utf8_valid.induct)
  case (1 s)
  show ?case
  proof (cases "s = []")
    case False
    then have len: "utf8_char_len s \<noteq> 0" and rest: "utf8_valid (drop (utf8_char_len s) s)"
      using "1.prems" by (simp_all add: utf8_valid.simps [of s] split: if_splits)
    have "utf8_valid (s @ t) = utf8_valid (drop (utf8_char_len s) (s @ t))"
      using False len by (subst utf8_valid.simps) (simp add: utf8_char_len_append)
    then show ?thesis
      using "1.IH" [OF False len] rest utf8_char_len_le [of s] by simp
  qed simp
qed

lemma ascii_len: "is_ascii_char c \<Longrightarrow> utf8_char_len (c # s) = 1"
  by (simp add: utf8_char_len_def is_ascii_char_def)

lemma utf8_valid_ascii_Cons [simp]: "is_ascii_char c \<Longrightarrow> utf8_valid (c # s) = utf8_valid s"
  by (subst utf8_valid.simps) (simp add: ascii_len)

lemma utf8_bytes_len_ascii:
  "bs \<noteq> [] \<Longrightarrow> b < 0x80 \<Longrightarrow> utf8_bytes_len (bs @ b # bs') = utf8_bytes_len bs"
  by (cases bs rule: four_bytes_cases) (simp_all add: cont_byte_def split: list.split)

text \<open>An ASCII byte never lies inside a character.\<close>

lemma utf8_valid_split:
  "is_ascii_char c \<Longrightarrow> utf8_valid (s @ c # t) \<Longrightarrow> utf8_valid s \<and> utf8_valid t"
proof (induction s rule: utf8_valid.induct)
  case (1 s)
  show ?case
  proof (cases "s = []")
    case True
    then show ?thesis using "1.prems" by simp
  next
    case False
    then have same: "utf8_char_len (s @ c # t) = utf8_char_len s"
      using "1.prems"(1) by (simp add: utf8_char_len_def is_ascii_char_def utf8_bytes_len_ascii)
    have len: "utf8_char_len s \<noteq> 0" and rest: "utf8_valid (drop (utf8_char_len s) (s @ c # t))"
      using "1.prems"(2) False by (simp_all add: utf8_valid.simps [of "s @ c # t"] same split: if_splits)
    have "drop (utf8_char_len s) (s @ c # t) = drop (utf8_char_len s) s @ c # t"
      using utf8_char_len_le [of s] by simp
    with rest have "utf8_valid (drop (utf8_char_len s) s) \<and> utf8_valid t"
      using "1.IH" [OF False len "1.prems"(1)] by simp
    then show ?thesis using len False by (subst utf8_valid.simps) simp
  qed
qed

section \<open>Character boundaries\<close>

text \<open>\<open>str::is_char_boundary\<close>; a slice that ends elsewhere panics.\<close>

definition is_char_boundary :: "string \<Rightarrow> nat \<Rightarrow> bool" where
  "is_char_boundary s n \<longleftrightarrow> n = length s \<or> (n < length s \<and> \<not> is_continuation_byte (s ! n))"

text \<open>\<open>s.split_at(n)\<close> as two slices.\<close>

definition slice_at :: "string \<Rightarrow> nat \<Rightarrow> (string \<times> string) option" where
  "slice_at s n = (if is_char_boundary s n then Some (take n s, drop n s) else None)"

lemma utf8_bytes_len_le_4: "utf8_bytes_len bs \<le> 4"
  by (cases bs rule: four_bytes_cases) simp_all

lemma utf8_bytes_len_cont:
  assumes "0 < i" "i < utf8_bytes_len bs" shows "cont_byte (bs ! i)"
proof -
  have "i = 1 \<or> i = 2 \<or> i = 3" using assms utf8_bytes_len_le_4 [of bs] by arith
  then show ?thesis
    using assms(2)
    by (cases bs rule: four_bytes_cases; elim disjE) (simp_all split: if_splits)
qed

lemma cont_byte_char: "cont_byte (of_char c) = is_continuation_byte c"
  by (auto simp: cont_byte_def is_continuation_byte_def Let_def)

lemma utf8_char_len_cont:
  assumes "0 < i" "i < utf8_char_len s" shows "is_continuation_byte (s ! i)"
proof -
  have "i < length s" using assms(2) utf8_char_len_le [of s] by simp
  with utf8_bytes_len_cont [of i "map of_char s"] assms show ?thesis
    by (simp add: utf8_char_len_def cont_byte_char)
qed

lemma utf8_char_len_first: "is_continuation_byte c \<Longrightarrow> utf8_char_len (c # s) = 0"
  by (auto simp: utf8_char_len_def is_continuation_byte_def Let_def)

lemma utf8_valid_Cons_start: "utf8_valid (c # s) \<Longrightarrow> \<not> is_continuation_byte c"
  using utf8_char_len_first [of c s] by (auto simp: utf8_valid.simps [of "c # s"])

lemma utf8_bytes_len_take:
  "utf8_bytes_len bs \<noteq> 0 \<Longrightarrow> utf8_bytes_len bs \<le> n \<Longrightarrow> utf8_bytes_len (take n bs) = utf8_bytes_len bs"
proof -
  assume len: "utf8_bytes_len bs \<noteq> 0" "utf8_bytes_len bs \<le> n"
  show ?thesis
  proof (cases "4 \<le> n")
    case True
    then show ?thesis
      by (cases bs rule: four_bytes_cases) (simp_all add: take_Cons' split: if_splits)
  next
    case False
    then have "n = 1 \<or> n = 2 \<or> n = 3" using len by arith
    then show ?thesis
      using len by (cases bs rule: four_bytes_cases; elim disjE) (simp_all add: take_Cons' split: if_splits)
  qed
qed

lemma utf8_char_len_take: "utf8_char_len s \<noteq> 0 \<Longrightarrow> utf8_char_len s \<le> n \<Longrightarrow> utf8_char_len (take n s) = utf8_char_len s"
  by (simp add: utf8_char_len_def take_map [symmetric] utf8_bytes_len_take)

text \<open>Both sides of a boundary are well formed.\<close>

lemma utf8_valid_boundary:
  "utf8_valid s \<Longrightarrow> is_char_boundary s n \<Longrightarrow> utf8_valid (take n s) \<and> utf8_valid (drop n s)"
proof (induction s arbitrary: n rule: utf8_valid.induct)
  case (1 s)
  show ?case
  proof (cases "s = [] \<or> n = 0")
    case True
    then show ?thesis using "1.prems" by auto
  next
    case False
    let ?k = "utf8_char_len s"
    from False have len: "?k \<noteq> 0" and rest: "utf8_valid (drop ?k s)"
      using "1.prems"(1) by (simp_all add: utf8_valid.simps [of s] split: if_splits)
    have le: "?k \<le> n"
      using utf8_char_len_cont [of n s] utf8_char_len_le [of s] False "1.prems"(2)
      by (cases "?k \<le> n") (auto simp: is_char_boundary_def)
    have "is_char_boundary (drop ?k s) (n - ?k)"
      using "1.prems"(2) le by (auto simp: is_char_boundary_def)
    then have "utf8_valid (take (n - ?k) (drop ?k s)) \<and> utf8_valid (drop (n - ?k) (drop ?k s))"
      using "1.IH" [OF _ len rest] False by blast
    moreover have "drop ?k (take n s) = take (n - ?k) (drop ?k s)"
      by (simp add: drop_take)
    ultimately show ?thesis
      using le len False by (subst utf8_valid.simps) (simp add: utf8_char_len_take)
  qed
qed

section \<open>Lines\<close>

abbreviation NL :: char where "NL \<equiv> CHR 0x0A"
abbreviation CR :: char where "CR \<equiv> CHR 0x0D"

text \<open>\<open>str::lines\<close>: a line that ends in a line feed loses it and a carriage return before it.\<close>

definition strip_cr :: "string \<Rightarrow> string" where
  "strip_cr s = (case strip_suffix [CR] s of None \<Rightarrow> s | Some r \<Rightarrow> r)"

function str_lines :: "string \<Rightarrow> string list" where
  "str_lines s =
     (if s = [] then []
      else case split_once NL s of
        None \<Rightarrow> [s]
      | Some (line, rest) \<Rightarrow> strip_cr line # str_lines rest)"
  by pat_completeness auto
termination
  by (relation "measure length") (auto dest!: split_once_Some)

declare str_lines.simps [simp del]

lemma strip_cr_id: "CR \<notin> set s \<Longrightarrow> strip_cr s = s"
  by (auto simp: strip_cr_def strip_suffix_Some split: option.splits)

lemma str_lines_Nil [simp]: "str_lines [] = []"
  by (simp add: str_lines.simps)

lemma str_lines_Cons: "NL \<notin> set line \<Longrightarrow> str_lines (line @ NL # rest) = strip_cr line # str_lines rest"
  by (subst str_lines.simps) (simp add: split_once_append)

text \<open>\<open>chars().take(n)\<close>: the first characters, whole.\<close>

function take_chars :: "nat \<Rightarrow> string \<Rightarrow> string" where
  "take_chars n s =
     (if n = 0 \<or> s = [] then []
      else let k = max 1 (utf8_char_len s) in take k s @ take_chars (n - 1) (drop k s))"
  by pat_completeness auto
termination
  by (relation "measure fst") auto

declare take_chars.simps [simp del]

end
