(* ===== verification/Api_Sse.thy ===== *)
theory Api_Sse
  imports Rust_Utf8
begin

text \<open>
  \<open>chudbot-api/src/sse.rs\<close>: the incremental decoder of server-sent events that every streaming provider
  adapter feeds with the byte chunks of its transport. The decoder's state is its byte buffer. The
  theorems show that the chunking of the transport is irrelevant and that well-formed events survive.
\<close>

section \<open>The decoder\<close>

record server_sent_event =
  sse_event :: "string option"
  sse_data :: string

datatype sse_decode_error = SseUtf8

text \<open>The index and the length of the first event boundary.\<close>

fun find_event_boundary :: "string \<Rightarrow> (nat \<times> nat) option" where
  "find_event_boundary [] = None"
| "find_event_boundary (c # s) =
     (if take 2 (c # s) = [NL, NL] then Some (0, 2)
      else if take 4 (c # s) = [CR, NL, CR, NL] then Some (0, 4)
      else map_option (\<lambda>(index, len). (Suc index, len)) (find_event_boundary s))"

text \<open>One line of an event: the event name and the data lines so far.\<close>

definition parse_line :: "string \<Rightarrow> string option \<times> string list \<Rightarrow> string option \<times> string list" where
  "parse_line raw_line acc =
     (let line = (case strip_suffix [CR] raw_line of None \<Rightarrow> raw_line | Some l \<Rightarrow> l) in
      if line = [] \<or> starts_with line '':'' then acc
      else let (field, v) = (case split_once CHR '':'' line of None \<Rightarrow> (line, []) | Some fv \<Rightarrow> fv);
               v = (case strip_prefix '' '' v of None \<Rightarrow> v | Some v' \<Rightarrow> v')
           in if field = ''event'' then (Some v, snd acc)
              else if field = ''data'' then (fst acc, snd acc @ [v])
              else acc)"

definition parse_event :: "string \<Rightarrow> sse_decode_error + server_sent_event option" where
  "parse_event bytes =
     (if \<not> utf8_valid bytes then Inl SseUtf8
      else let (event, data) = fold parse_line (str_lines bytes) (None, [])
           in if event = None \<and> data = [] then Inr None
              else Inr (Some \<lparr>sse_event = event, sse_data = str_join [NL] data\<rparr>))"

lemma find_event_boundary_bound: "find_event_boundary s = Some (i, n) \<Longrightarrow> 0 < n \<and> i + n \<le> length s"
proof (induction s arbitrary: i)
  case (Cons c s)
  have two: "take 2 (c # s) = [NL, NL] \<Longrightarrow> 2 \<le> length (c # s)"
    by (drule arg_cong [where f = length]) simp
  have four: "take 4 (c # s) = [CR, NL, CR, NL] \<Longrightarrow> 4 \<le> length (c # s)"
    by (drule arg_cong [where f = length]) simp
  show ?case using Cons two four by (auto split: if_splits)
qed simp

text \<open>The loop of \<open>push\<close>: the events, and the buffer that is left. An error loses the events before it.\<close>

function sse_drain :: "string \<Rightarrow> (sse_decode_error + server_sent_event list) \<times> string" where
  "sse_drain buffer =
     (case find_event_boundary buffer of
        None \<Rightarrow> (Inr [], buffer)
      | Some (index, boundary_len) \<Rightarrow>
          (let rest = drop (index + boundary_len) buffer
           in case parse_event (take index buffer) of
                Inl e \<Rightarrow> (Inl e, rest)
              | Inr ev \<Rightarrow>
                  (case sse_drain rest of
                     (Inl e, left) \<Rightarrow> (Inl e, left)
                   | (Inr events, left) \<Rightarrow>
                       (Inr ((case ev of None \<Rightarrow> [] | Some ev \<Rightarrow> [ev]) @ events), left))))"
  by pat_completeness auto
termination
  by (relation "measure length") (auto dest: find_event_boundary_bound)

declare sse_drain.simps [simp del]

definition sse_push :: "string \<Rightarrow> string \<Rightarrow> (sse_decode_error + server_sent_event list) \<times> string" where
  "sse_push chunk buffer = sse_drain (buffer @ chunk)"

definition sse_finish :: "string \<Rightarrow> (sse_decode_error + server_sent_event option) \<times> string" where
  "sse_finish buffer = (if buffer = [] then (Inr None, []) else (parse_event buffer, []))"

text \<open>How the adapters use it: push every chunk, then finish; the first error ends the stream.\<close>

fun sse_run :: "string list \<Rightarrow> string \<Rightarrow> sse_decode_error + server_sent_event list" where
  "sse_run [] buffer =
     (case fst (sse_finish buffer) of Inl e \<Rightarrow> Inl e | Inr None \<Rightarrow> Inr [] | Inr (Some ev) \<Rightarrow> Inr [ev])"
| "sse_run (chunk # chunks) buffer =
     (case sse_push chunk buffer of
        (Inl e, _) \<Rightarrow> Inl e
      | (Inr events, buffer') \<Rightarrow> map_sum id (\<lambda>more. events @ more) (sse_run chunks buffer'))"

definition sse_decode :: "string list \<Rightarrow> sse_decode_error + server_sent_event list" where
  "sse_decode chunks = sse_run chunks []"

section \<open>Chunks\<close>

lemma take_prefix_eq: "take n xs = ys \<Longrightarrow> length ys = n \<Longrightarrow> take n (xs @ zs) = ys"
  by (drule sym) simp

lemma find_event_boundary_append:
  "find_event_boundary a = Some r \<Longrightarrow> find_event_boundary (a @ b) = Some r"
proof (induction a arbitrary: r)
  case (Cons c s)
  show ?case
  proof (cases "take 2 (c # s) = [NL, NL] \<or> take 4 (c # s) = [CR, NL, CR, NL]")
    case True
    then show ?thesis
      using Cons.prems take_prefix_eq [of 2 "c # s" "[NL, NL]" b] take_prefix_eq [of 4 "c # s" "[CR, NL, CR, NL]" b]
      by auto
  next
    case False
    then obtain r' where r': "find_event_boundary s = Some r'" and r: "r = (Suc (fst r'), snd r')"
      using Cons.prems by (auto split: if_splits)
    have len: "2 \<le> length s"
      using r' by (cases s rule: find_event_boundary.cases; cases "tl s") (auto split: if_splits)
    have two: "take 2 (c # s @ b) \<noteq> [NL, NL]"
      using False len by (cases s) auto
    have four: "take 4 (c # s @ b) \<noteq> [CR, NL, CR, NL]"
    proof (cases "length s = 2")
      case True
      then obtain x y where "s = [x, y]" by (auto simp: numeral_2_eq_2 length_Suc_conv)
      then show ?thesis using r' by (auto split: if_splits)
    next
      case False
      with len have "3 \<le> length s" by simp
      then have "take 4 (c # s @ b) = take 4 (c # s)" by simp
      with \<open>\<not> (take 2 (c # s) = [NL, NL] \<or> take 4 (c # s) = [CR, NL, CR, NL])\<close> show ?thesis by metis
    qed
    show ?thesis using Cons.IH [OF r'] r two four by (simp add: case_prod_beta)
  qed
qed simp

lemma sse_drain_append:
  "fst (sse_drain a) = Inr events \<Longrightarrow>
    sse_drain (a @ b) = (case sse_drain (snd (sse_drain a) @ b) of
      (Inl e, left) \<Rightarrow> (Inl e, left) | (Inr later, left) \<Rightarrow> (Inr (events @ later), left))"
proof (induction a arbitrary: events rule: sse_drain.induct)
  case (1 a)
  show ?case
  proof (cases "find_event_boundary a")
    case None
    then show ?thesis
      using "1.prems" by (auto simp: sse_drain.simps [of a] split: prod.splits sum.splits)
  next
    case (Some r)
    obtain i n where r: "r = (i, n)" by (cases r)
    have bound: "i + n \<le> length a" using find_event_boundary_bound Some r by blast
    obtain ev where ev: "parse_event (take i a) = Inr ev"
      using "1.prems" Some r by (auto simp: sse_drain.simps [of a] Let_def split: sum.splits)
    obtain later where later: "fst (sse_drain (drop (i + n) a)) = Inr later"
      and events: "events = (case ev of None \<Rightarrow> [] | Some ev \<Rightarrow> [ev]) @ later"
      and left: "snd (sse_drain a) = snd (sse_drain (drop (i + n) a))"
      using "1.prems" Some r ev by (auto simp: sse_drain.simps [of a] Let_def split: sum.splits prod.splits)
    have "sse_drain (a @ b) = (case sse_drain (drop (i + n) a @ b) of
        (Inl e, left) \<Rightarrow> (Inl e, left)
      | (Inr later, left) \<Rightarrow> (Inr ((case ev of None \<Rightarrow> [] | Some ev \<Rightarrow> [ev]) @ later), left))"
      using find_event_boundary_append [OF Some, of b] r bound ev
      by (simp add: sse_drain.simps [of "a @ b"] Let_def)
    then show ?thesis
      using "1.IH" [OF Some r [symmetric] refl ev later] left events
      by (auto split: prod.splits sum.splits)
  qed
qed

lemma sse_drain_append_error:
  "fst (sse_drain a) = Inl e \<Longrightarrow> fst (sse_drain (a @ b)) = Inl e"
proof (induction a rule: sse_drain.induct)
  case (1 a)
  then obtain i n where boundary: "find_event_boundary a = Some (i, n)"
    by (auto simp: sse_drain.simps [of a] split: option.splits)
  then have bound: "i + n \<le> length a" and boundary': "find_event_boundary (a @ b) = Some (i, n)"
    using find_event_boundary_bound find_event_boundary_append by blast+
  show ?case
  proof (cases "parse_event (take i a)")
    case (Inl e')
    then show ?thesis
      using "1.prems" boundary boundary' bound by (simp add: sse_drain.simps [of a] sse_drain.simps [of "a @ b"] Let_def)
  next
    case (Inr ev)
    then have "fst (sse_drain (drop (i + n) a)) = Inl e"
      using "1.prems" boundary by (auto simp: sse_drain.simps [of a] Let_def split: sum.splits prod.splits)
    from "1.IH" [OF boundary refl refl Inr this] show ?thesis
      using boundary' bound Inr by (auto simp: sse_drain.simps [of "a @ b"] Let_def split: sum.splits prod.splits)
  qed
qed

lemma sse_drain_left: "find_event_boundary (snd (sse_drain a)) = None \<or> (\<exists>e. fst (sse_drain a) = Inl e)"
proof (induction a rule: sse_drain.induct)
  case (1 a)
  show ?case
  proof (cases "find_event_boundary a")
    case None
    then show ?thesis by (simp add: sse_drain.simps [of a])
  next
    case (Some r)
    obtain i n where r: "r = (i, n)" by (cases r)
    show ?thesis
    proof (cases "parse_event (take i a)")
      case (Inl e)
      then show ?thesis using Some r by (simp add: sse_drain.simps [of a] Let_def)
    next
      case (Inr ev)
      from "1.IH" [OF Some r [symmetric] refl Inr] show ?thesis
        using Some r Inr by (auto simp: sse_drain.simps [of a] Let_def split: sum.splits prod.splits)
    qed
  qed
qed

lemma sse_drain_no_boundary: "find_event_boundary buffer = None \<Longrightarrow> sse_drain buffer = (Inr [], buffer)"
  by (simp add: sse_drain.simps)

lemma map_sum_append: "map_sum id ((@) a) (map_sum id ((@) b) r) = map_sum id ((@) (a @ b)) r"
  by (cases r) auto

lemma map_sum_append_Nil: "map_sum id ((@) []) r = r"
  by (cases r) auto

lemma sse_run_concat:
  "find_event_boundary buffer = None \<Longrightarrow> sse_run chunks buffer = sse_run [concat chunks] buffer"
proof (induction chunks arbitrary: buffer)
  case Nil
  then show ?case by (simp add: sse_push_def sse_drain_no_boundary map_sum_append_Nil)
next
  case (Cons chunk chunks)
  obtain r left where drained: "sse_drain (buffer @ chunk) = (r, left)" by (cases "sse_drain (buffer @ chunk)")
  show ?case
  proof (cases r)
    case (Inl e)
    then have "fst (sse_drain ((buffer @ chunk) @ concat chunks)) = Inl e"
      using sse_drain_append_error [of "buffer @ chunk" e] drained Inl by simp
    then show ?thesis using Inl drained by (auto simp: sse_push_def split: prod.splits sum.splits)
  next
    case (Inr events)
    have "find_event_boundary left = None" using sse_drain_left [of "buffer @ chunk"] drained Inr by auto
    from Cons.IH [OF this] have "sse_run (chunk # chunks) buffer = map_sum id ((@) events) (sse_run [concat chunks] left)"
      using drained Inr by (simp add: sse_push_def)
    also have "\<dots> = sse_run [chunk @ concat chunks] buffer"
      using sse_drain_append [of "buffer @ chunk" events "concat chunks"] drained Inr
      by (auto simp: sse_push_def map_sum_append split: prod.splits sum.splits)
    finally show ?thesis by simp
  qed
qed

section \<open>Events on the wire\<close>

text \<open>How a server writes an event: one \<open>data\<close> line per line of the data.\<close>

function data_lines :: "string \<Rightarrow> string list" where
  "data_lines s = (case split_once NL s of None \<Rightarrow> [s] | Some (line, rest) \<Rightarrow> line # data_lines rest)"
  by pat_completeness auto
termination
  by (relation "measure length") (auto dest!: split_once_Some)

declare data_lines.simps [simp del]

definition render_event :: "server_sent_event \<Rightarrow> string" where
  "render_event ev =
     (case sse_event ev of None \<Rightarrow> [] | Some name \<Rightarrow> ''event: '' @ name @ [NL])
     @ concat (map (\<lambda>line. ''data: '' @ line @ [NL]) (data_lines (sse_data ev))) @ [NL]"

text \<open>What the format can carry: UTF-8 without carriage returns, and a name of one line.\<close>

definition wire_event :: "server_sent_event \<Rightarrow> bool" where
  "wire_event ev \<longleftrightarrow>
     (case sse_event ev of None \<Rightarrow> True | Some name \<Rightarrow> utf8_valid name \<and> NL \<notin> set name \<and> CR \<notin> set name)
     \<and> utf8_valid (sse_data ev) \<and> CR \<notin> set (sse_data ev)"

lemma split_once_NoneD: "split_once c s = None \<Longrightarrow> c \<notin> set s"
  by (auto simp: split_once_def split: if_splits)

lemma data_lines_nonempty: "data_lines s \<noteq> []"
  by (simp add: data_lines.simps [of s] split: option.split)

lemma data_lines_join: "str_join [NL] (data_lines s) = s"
proof (induction s rule: data_lines.induct)
  case (1 s)
  show ?case
  proof (cases "split_once NL s")
    case None
    then show ?thesis by (simp add: data_lines.simps)
  next
    case (Some p)
    obtain line rest where p: "p = (line, rest)" by (cases p)
    have s: "s = line @ NL # rest" using Some p split_once_Some by blast
    obtain l ls where ls: "data_lines rest = l # ls"
      using data_lines_nonempty by (metis list.exhaust)
    have "str_join [NL] (data_lines rest) = rest" using "1.IH" [OF Some p [symmetric]] by simp
    moreover have "data_lines s = line # data_lines rest" using Some p by (simp add: data_lines.simps [of s])
    ultimately show ?thesis using s ls by simp
  qed
qed

lemma data_lines_set: "line \<in> set (data_lines s) \<Longrightarrow> NL \<notin> set line \<and> set line \<subseteq> set s"
proof (induction s rule: data_lines.induct)
  case (1 s)
  show ?case
  proof (cases "split_once NL s")
    case None
    with "1.prems" split_once_NoneD [OF None] show ?thesis by (simp add: data_lines.simps [of s])
  next
    case (Some p)
    obtain first rest where p: "p = (first, rest)" by (cases p)
    have s: "s = first @ NL # rest" "NL \<notin> set first" using Some p split_once_Some by blast+
    have "data_lines s = first # data_lines rest" using Some p by (simp add: data_lines.simps [of s])
    then show ?thesis
      using "1.IH" [OF Some p [symmetric]] "1.prems" s by auto
  qed
qed

lemma data_lines_utf8: "utf8_valid s \<Longrightarrow> line \<in> set (data_lines s) \<Longrightarrow> utf8_valid line"
proof (induction s rule: data_lines.induct)
  case (1 s)
  show ?case
  proof (cases "split_once NL s")
    case None
    with "1.prems" show ?thesis by (simp add: data_lines.simps [of s])
  next
    case (Some p)
    obtain first rest where p: "p = (first, rest)" by (cases p)
    have "s = first @ NL # rest" using Some p split_once_Some by blast
    then have "utf8_valid first \<and> utf8_valid rest"
      using "1.prems"(1) by (intro utf8_valid_split [of NL]) (simp_all add: is_ascii_char_def)
    then show ?thesis
      using "1.IH" [OF Some p [symmetric]] "1.prems"(2) Some p by (auto simp: data_lines.simps [of s])
  qed
qed

text \<open>The body of an event, without the empty line that ends it, is a list of lines.\<close>

definition event_lines :: "server_sent_event \<Rightarrow> string list" where
  "event_lines ev = (case sse_event ev of None \<Rightarrow> [] | Some name \<Rightarrow> [''event: '' @ name])
     @ map (\<lambda>line. ''data: '' @ line) (data_lines (sse_data ev))"

definition terminated :: "string list \<Rightarrow> string" where
  "terminated ls = concat (map (\<lambda>line. line @ [NL]) ls)"

lemma render_event_lines: "render_event ev = terminated (event_lines ev) @ [NL]"
  by (auto simp: render_event_def event_lines_def terminated_def comp_def split: option.splits)

definition plain_line :: "string \<Rightarrow> bool" where
  "plain_line line \<longleftrightarrow> line \<noteq> [] \<and> NL \<notin> set line \<and> CR \<notin> set line"

lemma event_lines_plain: "wire_event ev \<Longrightarrow> list_all plain_line (event_lines ev)"
  using data_lines_set [of _ "sse_data ev"]
  by (auto simp: wire_event_def event_lines_def plain_line_def list_all_iff split: option.splits)

lemma event_lines_nonempty: "event_lines ev \<noteq> []"
  by (simp add: event_lines_def data_lines_nonempty)

lemma terminated_utf8: "list_all utf8_valid ls \<Longrightarrow> utf8_valid (terminated ls)"
  by (induction ls) (auto simp: terminated_def utf8_valid_append is_ascii_char_def)

lemma event_lines_utf8: "wire_event ev \<Longrightarrow> list_all utf8_valid (event_lines ev)"
  using data_lines_utf8 [of "sse_data ev"]
  by (auto simp: wire_event_def event_lines_def list_all_iff is_ascii_char_def split: option.splits)

lemma str_lines_terminated: "list_all plain_line ls \<Longrightarrow> str_lines (terminated ls) = ls"
  by (induction ls) (simp_all add: terminated_def str_lines_Cons plain_line_def strip_cr_id)

text \<open>The boundary is found at the last line feed of the last line, not before.\<close>

lemma boundary_line:
  assumes "NL \<notin> set line" "CR \<notin> set line"
  shows "find_event_boundary (line @ s) = map_option (\<lambda>(i, n). (length line + i, n)) (find_event_boundary s)"
  using assms
proof (induction line)
  case (Cons c line)
  then show ?case
    by (cases "find_event_boundary s") auto
qed (simp add: option.map_id [unfolded id_def] case_prod_beta option.map_id)

lemma boundary_terminated:
  assumes "list_all plain_line ls" "ls \<noteq> []"
  shows "find_event_boundary (terminated ls @ NL # s) = Some (length (terminated ls) - 1, 2)"
  using assms
proof (induction ls)
  case (Cons line ls)
  then have line: "NL \<notin> set line" "CR \<notin> set line" "line \<noteq> []" by (auto simp: plain_line_def)
  show ?case
  proof (cases ls)
    case Nil
    then show ?thesis using line by (simp add: terminated_def boundary_line)
  next
    case (Cons line' ls')
    then obtain c cs where c: "line' = c # cs" "c \<noteq> NL"
      using Cons.prems by (auto simp: plain_line_def neq_Nil_conv)
    have tail: "find_event_boundary (terminated ls @ NL # s) = Some (length (terminated ls) - 1, 2)"
      using Cons.IH Cons.prems Cons by simp
    have "0 < length (terminated ls)" using Cons by (simp add: terminated_def)
    then show ?thesis
      using line tail c Cons by (simp add: terminated_def boundary_line)
  qed
qed simp

lemma terminated_join: "ls \<noteq> [] \<Longrightarrow> terminated ls = str_join [NL] ls @ [NL]"
  by (induction "[NL]" ls rule: str_join.induct) (auto simp: terminated_def)

lemma str_lines_join: "list_all plain_line ls \<Longrightarrow> ls \<noteq> [] \<Longrightarrow> str_lines (str_join [NL] ls) = ls"
proof (induction "[NL]" ls rule: str_join.induct)
  case (2 x)
  then show ?case by (subst str_lines.simps) (auto simp: plain_line_def split_once_def)
next
  case (3 x y ys)
  then show ?case by (simp add: str_lines_Cons plain_line_def strip_cr_id)
qed simp

lemma no_cr: "CR \<notin> set s \<Longrightarrow> strip_suffix [CR] s = None"
  by (cases "strip_suffix [CR] s") (auto simp: strip_suffix_Some)

lemma parse_event_name: "CR \<notin> set name \<Longrightarrow> parse_line (''event: '' @ name) (e, ls) = (Some name, ls)"
  by (simp add: parse_line_def no_cr starts_with_def split_once_def strip_prefix_def)

lemma parse_data_line: "CR \<notin> set line \<Longrightarrow> parse_line (''data: '' @ line) (e, ls) = (e, ls @ [line])"
  by (simp add: parse_line_def no_cr starts_with_def split_once_def strip_prefix_def)

lemma parse_data_lines:
  "\<forall>line\<in>set ls. CR \<notin> set line \<Longrightarrow> fold parse_line (map (\<lambda>line. ''data: '' @ line) ls) (e, acc) = (e, acc @ ls)"
  by (induction ls arbitrary: acc) (simp_all add: parse_data_line del: append.simps(2))

lemma parse_event_lines:
  assumes "wire_event ev"
  shows "parse_event (str_join [NL] (event_lines ev)) = Inr (Some ev)"
proof -
  have "utf8_valid (str_join [NL] (event_lines ev) @ NL # [])"
    using terminated_utf8 [OF event_lines_utf8 [OF assms]] terminated_join [OF event_lines_nonempty] by simp
  then have utf8: "utf8_valid (str_join [NL] (event_lines ev))"
    by (rule utf8_valid_split [THEN conjunct1, rotated]) (simp add: is_ascii_char_def)
  have lines: "str_lines (str_join [NL] (event_lines ev)) = event_lines ev"
    by (rule str_lines_join [OF event_lines_plain [OF assms] event_lines_nonempty])
  have "fold parse_line (event_lines ev) (None, []) = (sse_event ev, data_lines (sse_data ev))"
    using assms parse_data_lines [of "data_lines (sse_data ev)" _ "[]"] data_lines_set [of _ "sse_data ev"]
    by (fastforce simp: event_lines_def wire_event_def parse_event_name
        simp del: append.simps(2) split: option.splits)
  then show ?thesis
    using utf8 lines by (simp add: parse_event_def data_lines_nonempty data_lines_join)
qed

lemma sse_drain_render:
  assumes "wire_event ev"
  shows "sse_drain (render_event ev @ s) = (case sse_drain s of
    (Inl e, left) \<Rightarrow> (Inl e, left) | (Inr events, left) \<Rightarrow> (Inr (ev # events), left))"
proof -
  let ?body = "str_join [NL] (event_lines ev)"
  have wire: "render_event ev @ s = ?body @ NL # NL # s"
    by (simp add: render_event_lines terminated_join event_lines_nonempty)
  have "find_event_boundary (?body @ NL # NL # s) = Some (length ?body, 2)"
    using boundary_terminated [OF event_lines_plain [OF assms] event_lines_nonempty, of s]
    by (simp add: render_event_lines terminated_join event_lines_nonempty)
  then show ?thesis
    using parse_event_lines [OF assms]
    by (simp add: sse_drain.simps [of "?body @ NL # NL # s"] wire Let_def split: prod.split sum.split)
qed

section \<open>Properties\<close>


lemma sse_decode_rendered:
  assumes "list_all wire_event events" and "concat chunks = concat (map render_event events)"
  shows "sse_decode chunks = Inr events"
proof -
  have "sse_drain (concat (map render_event events)) = (Inr events, [])"
    using assms(1)
    by (induction events) (simp_all add: sse_drain_render sse_drain_no_boundary)
  moreover have "sse_decode chunks = sse_decode [concat chunks]"
    unfolding sse_decode_def by (rule sse_run_concat) simp
  ultimately show ?thesis
    using assms(2) by (simp add: sse_decode_def sse_push_def sse_finish_def)
qed

text \<open>
  What a server writes is what the adapter sees: if the chunks are together the rendering of a list of
  events (UTF-8 without carriage returns, names of one line), decoding gives exactly these events, whatever
  the chunks are, data with several lines and empty data included.
\<close>

theorem sse_roundtrip:
  assumes "list_all wire_event events" and "concat chunks = concat (map render_event events)"
  shows "sse_decode chunks = Inr events"
  using assms by (rule sse_decode_rendered)

theorem sse_roundtrip_witness:
  "sse_decode [''event: a'' @ [NL] @ ''da'', ''ta: x'' @ [NL] @ ''data:  y'' @ [NL], [NL]]
     = Inr [\<lparr>sse_event = Some ''a'', sse_data = ''x'' @ [NL] @ '' y''\<rparr>]"
proof -
  let ?ev = "\<lparr>sse_event = Some ''a'', sse_data = ''x'' @ [NL] @ '' y''\<rparr>"
  have lines: "data_lines (''x'' @ [NL] @ '' y'') = [''x'', '' y'']"
    by (subst data_lines.simps, subst data_lines.simps) (simp add: split_once_def)
  have "wire_event ?ev" by (simp add: wire_event_def is_ascii_char_def)
  moreover have "concat [''event: a'' @ [NL] @ ''da'', ''ta: x'' @ [NL] @ ''data:  y'' @ [NL], [NL]]
      = concat (map render_event [?ev])"
    using lines by (simp add: render_event_def)
  ultimately show ?thesis using sse_roundtrip [of "[?ev]"] by simp
qed

end
