(* ===== verification/Provider_Common.thy ===== *)
theory Provider_Common
  imports Api_Reasoning Api_Retry Api_Sse
begin

text \<open>
  What the provider adapter crates share: the error type and its classification for the retry loop, the
  classification of errors reported inside a stream, the trimming of response bodies and the redaction of
  logged payloads. The five crates declare identical error enums, so they are one type here.
\<close>

section \<open>Errors\<close>

datatype provider_error =
    TransportError string
  | ApiError u16 string
  | DecodeError string
  | ReferenceError string

definition transient_status :: "u16 \<Rightarrow> bool" where
  "transient_status status \<longleftrightarrow> status = 429 \<or> (500 \<le> status \<and> status \<le> 599)"

text \<open>Anthropic, OpenAI, xAI and OpenAI-compatible.\<close>

fun provider_error_class :: "provider_error \<Rightarrow> error_class" where
  "provider_error_class (ApiError status _) = (if transient_status status then ServerTransient else Permanent)"
| "provider_error_class (TransportError _) = Network"
| "provider_error_class (DecodeError _) = Permanent"
| "provider_error_class (ReferenceError _) = Permanent"

fun gemini_error_class :: "provider_error \<Rightarrow> error_class" where
  "gemini_error_class (TransportError _) = Network"
| "gemini_error_class (ApiError status _) = (if status = 429 \<or> 500 \<le> status then ServerTransient else Permanent)"
| "gemini_error_class (DecodeError _) = Permanent"
| "gemini_error_class (ReferenceError _) = Permanent"

section \<open>Errors reported in the stream\<close>

definition json_str_field :: "json \<Rightarrow> string \<Rightarrow> string option" where
  "json_str_field v field = Option.bind (json_get v field) json_as_str"

definition stream_error_message :: "json \<Rightarrow> string \<Rightarrow> string" where
  "stream_error_message v fallback =
     unwrap_or (or_else
       (Option.bind (Option.bind (json_get v ''error'') (\<lambda>err. or_else (json_get err ''message'') (json_get err ''type'')))
          json_as_str)
       (json_str_field v ''message'')) fallback"

text \<open>The first of the status fields that holds a 16-bit number, of the event or of its error object.\<close>

definition status_field :: "json \<Rightarrow> string \<Rightarrow> u16 option" where
  "status_field v field =
     Option.bind (Option.bind (or_else (json_get v field)
         (Option.bind (json_get v ''error'') (\<lambda>err. json_get err field))) json_as_u64)
       (\<lambda>n. if unat n < 2 ^ 16 then Some (ucast n) else None)"

definition stream_error_marker :: "json \<Rightarrow> string \<Rightarrow> string" where
  "stream_error_marker v message =
     (let code = unwrap_or (Option.bind (or_else
            (Option.bind (json_get v ''error'') (\<lambda>err. or_else (json_get err ''code'') (json_get err ''type'')))
            (or_else (json_get v ''code'') (json_get v ''type''))) json_as_str) []
      in to_ascii_lowercase (code @ '' '' @ message))"

text \<open>The status an overloaded or unavailable provider counts as: 529 for Anthropic, 503 for the others.\<close>

definition stream_error_status :: "u16 \<Rightarrow> json \<Rightarrow> string \<Rightarrow> u16 option" where
  "stream_error_status unavailable v message =
     (case or_else (status_field v ''status'') (or_else (status_field v ''status_code'') (status_field v ''http_status'')) of
        Some status \<Rightarrow> Some status
      | None \<Rightarrow>
          (let marker = stream_error_marker v message in
           if str_contains marker ''rate_limit'' \<or> str_contains marker ''rate limit'' then Some 429
           else if str_contains marker ''temporarily unavailable'' \<or> str_contains marker ''temporary unavailable''
             \<or> str_contains marker ''service_unavailable'' \<or> str_contains marker ''service unavailable''
             \<or> str_contains marker ''overloaded'' \<or> str_contains marker ''overloaded_error''
           then Some unavailable
           else None))"

definition stream_error :: "u16 \<Rightarrow> json \<Rightarrow> string \<Rightarrow> provider_error" where
  "stream_error unavailable v fallback =
     (let message = stream_error_message v fallback in
      case stream_error_status unavailable v message of
        Some status \<Rightarrow> ApiError status message
      | None \<Rightarrow> DecodeError message)"

text \<open>The type of an event: its own field, else the name of the server-sent event.\<close>

definition event_type_of :: "json \<Rightarrow> server_sent_event \<Rightarrow> string" where
  "event_type_of v event = unwrap_or (or_else (json_str_field v ''type'') (sse_event event)) []"

section \<open>Response bodies\<close>

text \<open>
  \<open>String::truncate\<close> panics when the new length is not a character boundary; \<open>None\<close> is that panic.
\<close>

definition truncate_body :: "string \<Rightarrow> nat \<Rightarrow> string option" where
  "truncate_body body max_len =
     (if length body > max_len
      then (if is_char_boundary body max_len then Some (take max_len body) else None)
      else Some body)"

section \<open>Redaction\<close>

definition looks_like_base64 :: "string \<Rightarrow> bool" where
  "looks_like_base64 text \<longleftrightarrow> 256 \<le> length text
     \<and> list_all (\<lambda>b. is_ascii_alphanumeric b \<or> b \<in> set (''+/=-_'' @ [CR, NL])) text"

text \<open>\<open>split_once\<close> with a string separator.\<close>

fun split_once_str :: "string \<Rightarrow> string \<Rightarrow> (string \<times> string) option" where
  "split_once_str sep [] = (if sep = [] then Some ([], []) else None)"
| "split_once_str sep (c # s) =
     (if starts_with (c # s) sep then Some ([], drop (length sep) (c # s))
      else map_option (\<lambda>(a, b). (c # a, b)) (split_once_str sep s))"

definition redact_data_uri :: "string \<Rightarrow> string option" where
  "redact_data_uri text =
     (case split_once_str '';base64,'' text of
        None \<Rightarrow> None
      | Some (prefix, payload) \<Rightarrow>
          if \<not> starts_with prefix ''data:'' then None
          else Some (prefix @ '';base64,[redacted base64 data; chars='' @ dec_digits (char_count payload) @ '']''))"

definition redact_string :: "string option \<Rightarrow> string \<Rightarrow> string" where
  "redact_string key text =
     (case redact_data_uri text of
        Some redacted \<Rightarrow> redacted
      | None \<Rightarrow>
          if key = Some ''b64_json'' \<or> key = Some ''encrypted_content''
             \<or> (key = Some ''data'' \<and> looks_like_base64 text)
          then ''[redacted base64-like string; chars='' @ dec_digits (char_count text) @ '']''
          else text)"

fun redact_json :: "json \<Rightarrow> string option \<Rightarrow> json" where
  "redact_json (JArray xs) key = JArray (map (\<lambda>v. redact_json v None) xs)"
| "redact_json (JObject m) key = JObject (map (\<lambda>(k, v). (k, redact_json v (Some k))) m)"
| "redact_json (JString text) key = JString (redact_string key text)"
| "redact_json v key = v"

definition redact_text_body :: "string \<Rightarrow> string option" where
  "redact_text_body body =
     (if looks_like_base64 body
      then Some (''[redacted base64-like body; chars='' @ dec_digits (char_count body) @ '']'')
      else truncate_body body 4000)"

end
