(* ===== verification/Provider_Stream.thy ===== *)
theory Provider_Stream
  imports Provider_Common
begin

text \<open>
  The streaming loop that the Anthropic, OpenAI, xAI and Gemini adapters have in common (the \<open>step\<close>
  functions of their \<open>llm.rs\<close>): post the request, decode server-sent events from the chunks, hand each
  event to the provider's state machine, yield what it produces, and start over on a retryable error as
  long as nothing has been yielded. The loop is written once over a \<open>stream_adapter\<close>, the provider's
  state machine; the theories of the providers instantiate it. The transport is the list of what the
  response body yields, one list per connection attempt.
\<close>

section \<open>Adapters\<close>

text \<open>
  \<open>sa_event\<close> handles one server-sent event; its flag says that the step is finished. \<open>sa_end\<close> is what
  happens at the end of the body when no event has finished the step.
\<close>

record 'st stream_adapter =
  sa_init :: 'st
  sa_event :: "server_sent_event \<Rightarrow> 'st \<Rightarrow> provider_error + (model_step_event list \<times> bool \<times> 'st)"
  sa_end :: "'st \<Rightarrow> provider_error + model_step_event list"

text \<open>The events of one push of the decoder, up to the one that finishes the step.\<close>

datatype 'st adapt_result = AdaptFinished | AdaptFailed provider_error | AdaptMore 'st

fun adapt_events ::
  "'st stream_adapter \<Rightarrow> server_sent_event list \<Rightarrow> 'st \<Rightarrow> model_step_event list \<times> 'st adapt_result" where
  "adapt_events ad [] st = ([], AdaptMore st)"
| "adapt_events ad (ev # evs) st =
     (case sa_event ad ev st of
        Inl e \<Rightarrow> ([], AdaptFailed e)
      | Inr (out, done_now, st') \<Rightarrow>
          if done_now then (out, AdaptFinished)
          else (case adapt_events ad evs st' of (more_out, res) \<Rightarrow> (out @ more_out, res)))"

text \<open>One attempt: what is yielded, and the error that ends it, if any.\<close>

fun attempt_chunks ::
  "'st stream_adapter \<Rightarrow> (string + string) list \<Rightarrow> string \<Rightarrow> 'st \<Rightarrow> model_step_event list \<times> provider_error option" where
  "attempt_chunks ad [] buffer st =
     (case fst (sse_finish buffer) of
        Inl _ \<Rightarrow> ([], Some (DecodeError ''SSE event was not valid UTF-8''))
      | Inr final_event \<Rightarrow>
          (case adapt_events ad (case final_event of None \<Rightarrow> [] | Some ev \<Rightarrow> [ev]) st of
             (out, AdaptFinished) \<Rightarrow> (out, None)
           | (out, AdaptFailed e) \<Rightarrow> (out, Some e)
           | (out, AdaptMore st') \<Rightarrow>
               (case sa_end ad st' of
                  Inl e \<Rightarrow> (out, Some e)
                | Inr last_out \<Rightarrow> (out @ last_out, None))))"
| "attempt_chunks ad (Inl message # chunks) buffer st = ([], Some (TransportError message))"
| "attempt_chunks ad (Inr chunk # chunks) buffer st =
     (case sse_push chunk buffer of
        (Inl _, _) \<Rightarrow> ([], Some (DecodeError ''SSE event was not valid UTF-8''))
      | (Inr events, buffer') \<Rightarrow>
          (case adapt_events ad events st of
             (out, AdaptFinished) \<Rightarrow> (out, None)
           | (out, AdaptFailed e) \<Rightarrow> (out, Some e)
           | (out, AdaptMore st') \<Rightarrow>
               (case attempt_chunks ad chunks buffer' st' of (more_out, res) \<Rightarrow> (out @ more_out, res))))"

definition run_attempt ::
  "'st stream_adapter \<Rightarrow> (string + string) list \<Rightarrow> model_step_event list \<times> provider_error option" where
  "run_attempt ad chunks = attempt_chunks ad chunks [] (sa_init ad)"

section \<open>The retry loop\<close>

text \<open>
  \<open>connect n\<close> is the answer to the request of the attempt numbered \<open>n\<close>, after the retries of
  \<open>post_json_stream\<close> itself. The result: the yielded events, the final error if any, the delays slept.
\<close>

function step_attempts ::
  "retry_policy \<Rightarrow> (provider_error \<Rightarrow> error_class) \<Rightarrow> 'st stream_adapter
    \<Rightarrow> (nat \<Rightarrow> provider_error + (string + string) list) \<Rightarrow> nat \<Rightarrow> u32
    \<Rightarrow> model_step_event list \<times> provider_error option \<times> duration list" where
  "step_attempts policy cls ad connect n attempt =
     (case connect n of
        Inl e \<Rightarrow> ([], Some e, [])
      | Inr chunks \<Rightarrow>
          (case run_attempt ad chunks of
             (out, None) \<Rightarrow> (out, None, [])
           | (out, Some e) \<Rightarrow>
               (if out \<noteq> [] then (out, Some e, [])
                else case retry_after_error policy attempt (cls e) of
                  None \<Rightarrow> (out, Some e, [])
                | Some (delay, attempt') \<Rightarrow>
                    (case step_attempts policy cls ad connect (Suc n) attempt' of
                       (out', res, sleeps) \<Rightarrow> (out', res, delay # sleeps)))))"
  by pat_completeness auto
termination
  by (relation "measure (\<lambda>(p, cls, ad, connect, n, attempt). unat (max_attempts p) - unat attempt)")
    (use retry_after_error_unat in fastforce)+

declare step_attempts.simps [simp del]

definition stream_step ::
  "(provider_error \<Rightarrow> error_class) \<Rightarrow> 'st stream_adapter \<Rightarrow> (nat \<Rightarrow> provider_error + (string + string) list)
    \<Rightarrow> model_step_event list \<times> provider_error option \<times> duration list" where
  "stream_step cls ad connect = step_attempts default_retry_policy cls ad connect 0 1"

section \<open>The attempts\<close>

text \<open>What the loop has done when it returns: attempts that failed early and retryably, and the last one.\<close>

definition retried_attempt ::
  "retry_policy \<Rightarrow> (provider_error \<Rightarrow> error_class) \<Rightarrow> 'st stream_adapter
    \<Rightarrow> (nat \<Rightarrow> provider_error + (string + string) list) \<Rightarrow> nat \<Rightarrow> bool" where
  "retried_attempt policy cls ad connect i \<longleftrightarrow>
     (\<exists>chunks e. connect i = Inr chunks \<and> run_attempt ad chunks = ([], Some e) \<and> should_retry policy (cls e))"

definition last_attempt ::
  "'st stream_adapter \<Rightarrow> (nat \<Rightarrow> provider_error + (string + string) list) \<Rightarrow> nat
    \<Rightarrow> model_step_event list \<times> provider_error option" where
  "last_attempt ad connect i = (case connect i of Inl e \<Rightarrow> ([], Some e) | Inr chunks \<Rightarrow> run_attempt ad chunks)"

lemma step_attempts_spec:
  "step_attempts policy cls ad connect n attempt = (out, res, sleeps) \<Longrightarrow>
    (\<forall>i < length sleeps. retried_attempt policy cls ad connect (n + i))
    \<and> last_attempt ad connect (n + length sleeps) = (out, res)
    \<and> unat attempt + length sleeps \<le> max (unat attempt) (unat (max_attempts policy))
    \<and> (retried_attempt policy cls ad connect (n + length sleeps)
        \<longrightarrow> unat (max_attempts policy) \<le> unat attempt + length sleeps)"
proof (induction policy cls ad connect n attempt arbitrary: out res sleeps rule: step_attempts.induct)
  case (1 policy cls ad connect n attempt)
  show ?case
  proof (cases "connect n")
    case (Inl e)
    then show ?thesis
      using "1.prems" by (simp add: step_attempts.simps last_attempt_def retried_attempt_def)
  next
    case (Inr chunks)
    obtain out1 res1 where run: "run_attempt ad chunks = (out1, res1)" by (cases "run_attempt ad chunks")
    show ?thesis
    proof (cases "\<exists>e delay attempt'. res1 = Some e \<and> out1 = [] \<and>
        retry_after_error policy attempt (cls e) = Some (delay, attempt')")
      case False
      then have stop: "(out, res, sleeps) = (out1, res1, [])"
        using "1.prems" Inr run by (auto simp: step_attempts.simps split: option.splits if_splits)
      have "unat (max_attempts policy) \<le> unat attempt" if "retried_attempt policy cls ad connect n"
        using that False Inr run
        by (auto simp: retried_attempt_def retry_after_error_def word_le_nat_alt split: if_splits)
      then show ?thesis using stop Inr run by (simp add: last_attempt_def)
    next
      case True
      then obtain e delay attempt' where r: "res1 = Some e" "out1 = []"
        and retry: "retry_after_error policy attempt (cls e) = Some (delay, attempt')" by blast
      obtain sleeps' where rest: "step_attempts policy cls ad connect (Suc n) attempt' = (out, res, sleeps')"
        and sleeps: "sleeps = delay # sleeps'"
        using "1.prems" Inr run r retry by (auto simp: step_attempts.simps [of policy cls ad connect n] split: prod.splits)
      note ih = "1.IH" [OF Inr run [symmetric] r(1) _ retry refl rest] 
      have now: "retried_attempt policy cls ad connect n"
        using Inr run r retry by (auto simp: retried_attempt_def retry_after_error_Some)
      have next_attempt: "unat attempt' = Suc (unat attempt)" "unat attempt' \<le> unat (max_attempts policy)"
        using retry_after_error_unat [OF retry] by auto
      have "(\<forall>i<length sleeps. retried_attempt policy cls ad connect (n + i))"
        using ih now r(2) by (auto simp: sleeps less_Suc_eq_0_disj)
      then show ?thesis
        using ih r(2) next_attempt by (simp add: sleeps)
    qed
  qed
qed

lemma default_max_attempts: "unat (max_attempts default_retry_policy) = 3"
  by (simp add: default_retry_policy_def)

text \<open>
  C27: No event is yielded twice. Whatever the connections deliver, what a streamed step yields is what its
  last attempt yields; every attempt before failed with a retryable error having yielded nothing; and there
  are at most three attempts, exactly three if the last one could have been retried too.
\<close>

theorem stream_step_no_replay:
  assumes "stream_step cls ad connect = (out, res, sleeps)"
  shows "(\<forall>i < length sleeps. retried_attempt default_retry_policy cls ad connect i)
    \<and> last_attempt ad connect (length sleeps) = (out, res) \<and> length sleeps \<le> 2
    \<and> (retried_attempt default_retry_policy cls ad connect (length sleeps) \<longrightarrow> length sleeps = 2)"
  using step_attempts_spec [OF assms [unfolded stream_step_def]] default_max_attempts by auto

text \<open>A connection that is reset at once and one that answers.\<close>

definition sample_adapter :: "unit stream_adapter" where
  "sample_adapter = \<lparr>sa_init = (), sa_event = (\<lambda>ev _. Inr ([Delta (DeltaText ''t'' (sse_data ev))], True, ())),
     sa_end = (\<lambda>_. Inl (DecodeError ''ended''))\<rparr>"

definition sample_connect :: "nat \<Rightarrow> provider_error + (string + string) list" where
  "sample_connect n = (if n = 0 then Inr [Inl ''reset''] else Inr [Inr (''data: a'' @ [CHR 0x0A, CHR 0x0A])])"

lemma sample_push:
  "sse_push (''data: a'' @ [CHR 0x0A, CHR 0x0A]) [] = (Inr [\<lparr>sse_event = None, sse_data = ''a''\<rparr>], [])"
  by code_simp

lemma sample_stream:
  "stream_step provider_error_class sample_adapter sample_connect
     = ([Delta (DeltaText ''t'' ''a'')], None, [backoff default_retry_policy 1])"
  by (simp add: stream_step_def step_attempts.simps sample_connect_def run_attempt_def sample_adapter_def
      retry_after_error_def default_retry_policy_def word_le_nat_alt sample_push [simplified])

theorem stream_step_no_replay_witness:
  "retried_attempt default_retry_policy provider_error_class sample_adapter sample_connect 0
   \<and> last_attempt sample_adapter sample_connect 1 = ([Delta (DeltaText ''t'' ''a'')], None)"
  using stream_step_no_replay [OF sample_stream] by simp

section \<open>Chunks and events\<close>

text \<open>An attempt over the decoded events.\<close>

definition run_events ::
  "'st stream_adapter \<Rightarrow> server_sent_event list \<Rightarrow> 'st \<Rightarrow> model_step_event list \<times> provider_error option" where
  "run_events ad events st =
     (case adapt_events ad events st of
        (out, AdaptFinished) \<Rightarrow> (out, None)
      | (out, AdaptFailed e) \<Rightarrow> (out, Some e)
      | (out, AdaptMore st') \<Rightarrow>
          (case sa_end ad st' of Inl e \<Rightarrow> (out, Some e) | Inr last_out \<Rightarrow> (out @ last_out, None)))"

lemma adapt_events_append:
  "adapt_events ad (xs @ ys) st =
     (case adapt_events ad xs st of
        (out, AdaptMore st') \<Rightarrow> (case adapt_events ad ys st' of (out', res) \<Rightarrow> (out @ out', res))
      | stopped \<Rightarrow> stopped)"
  by (induction xs arbitrary: st) (auto split: sum.splits prod.splits adapt_result.splits)

lemma run_events_append:
  "run_events ad (xs @ ys) st =
     (case adapt_events ad xs st of
        (out, AdaptFinished) \<Rightarrow> (out, None)
      | (out, AdaptFailed e) \<Rightarrow> (out, Some e)
      | (out, AdaptMore st') \<Rightarrow> (case run_events ad ys st' of (out', res) \<Rightarrow> (out @ out', res)))"
  by (auto simp: run_events_def adapt_events_append split: prod.splits adapt_result.splits sum.splits)

lemma attempt_chunks_decoded:
  "sse_run chunks buffer = Inr events \<Longrightarrow> attempt_chunks ad (map Inr chunks) buffer st = run_events ad events st"
proof (induction chunks arbitrary: buffer st events)
  case Nil
  then show ?case
    by (auto simp: run_events_def split: sum.splits option.splits prod.splits adapt_result.splits)
next
  case (Cons chunk chunks)
  then obtain now buffer' later where push: "sse_push chunk buffer = (Inr now, buffer')"
    and rest: "sse_run chunks buffer' = Inr later" and events: "events = now @ later"
    by (auto split: sum.splits prod.splits) (metis map_sum.simps(1,2) obj_sumE sum.inject(2) Inl_Inr_False)
  show ?case
    using push events by (auto simp: run_events_append Cons.IH [OF rest] split: prod.splits adapt_result.splits)
qed

text \<open>
  The adapters see server-sent events, not chunks: if the body decodes, an attempt yields what the state
  machine yields on the decoded events, however the transport cuts the body into chunks.
\<close>

theorem attempt_chunking:
  assumes "sse_decode chunks = Inr events"
  shows "run_attempt ad (map Inr chunks) = run_events ad events (sa_init ad)"
  using assms unfolding run_attempt_def sse_decode_def by (rule attempt_chunks_decoded)

end
