(* ===== verification/Api_Collector_Typing.thy ===== *)
theory Api_Collector_Typing
  imports Api_Collector
begin

text \<open>
  A type discipline for the deltas of a step, and its soundness: a stream that gives every item id one type
  never gets stuck in the collector of \<open>collector.rs\<close>, and the collected items have these types.
\<close>

datatype item_type = TyText | TyReasoning provider_name | TyTool tool_use_id tool_name

type_synonym item_env = "string \<Rightarrow> item_type option"

fun type_kind :: "item_type \<Rightarrow> pending_kind" where
  "type_kind TyText = PkText"
| "type_kind (TyReasoning _) = PkReasoning"
| "type_kind (TyTool _ _) = PkClientToolCall"

fun wt_delta :: "item_env \<Rightarrow> model_step_delta \<Rightarrow> bool" where
  "wt_delta \<Gamma> (DeltaText i _) \<longleftrightarrow> \<Gamma> i = Some TyText"
| "wt_delta \<Gamma> (DeltaReasoningSummary i p _ _) \<longleftrightarrow> \<Gamma> i = Some (TyReasoning p)"
| "wt_delta \<Gamma> (DeltaClientToolCall i u n _) \<longleftrightarrow> (\<exists>nm. n = Some nm \<and> \<Gamma> i = Some (TyTool u nm))"

fun wt_event :: "item_env \<Rightarrow> model_step_event \<Rightarrow> bool" where
  "wt_event \<Gamma> (Delta d) = wt_delta \<Gamma> d"
| "wt_event \<Gamma> _ = True"

text \<open>A pending item that has received a delta; a fresh one has no tool id, name or provider yet.\<close>

fun wt_item :: "item_env \<Rightarrow> pending_item \<Rightarrow> bool" where
  "wt_item \<Gamma> (PendingText i _) \<longleftrightarrow> \<Gamma> i = Some TyText"
| "wt_item \<Gamma> (PendingReasoning i p _) \<longleftrightarrow> \<Gamma> i = Some (TyReasoning p)"
| "wt_item \<Gamma> (PendingClientToolCall i u n _) \<longleftrightarrow> (\<exists>nm. n = Some nm \<and> \<Gamma> i = Some (TyTool u nm))"

fun wt_slot :: "item_env \<Rightarrow> output_slot \<Rightarrow> bool" where
  "wt_slot \<Gamma> (Pending p) = wt_item \<Gamma> p"
| "wt_slot \<Gamma> _ = True"

definition wt_collector :: "item_env \<Rightarrow> model_step_collector \<Rightarrow> bool" where
  "wt_collector \<Gamma> c \<longleftrightarrow> collector_invar c \<and> list_all (wt_slot \<Gamma>) (slots c)"

lemma wt_item_kind: "wt_item \<Gamma> p \<Longrightarrow> map_option type_kind (\<Gamma> (pending_item_id p)) = Some (pending_kind_of p)"
  by (cases p) auto

lemma wt_delta_kind: "wt_delta \<Gamma> d \<Longrightarrow> map_option type_kind (\<Gamma> (delta_item_id d)) = Some (delta_kind d)"
  by (cases d) auto

text \<open>Progress and preservation for one delta on a typed item, and on a fresh one.\<close>

lemma apply_delta_typed:
  assumes "wt_delta \<Gamma> d" "wt_item \<Gamma> p" "pending_item_id p = delta_item_id d"
  shows "\<exists>p'. (apply_delta d p :: 'je model_step_reducer_error + pending_item) = Inr p' \<and> wt_item \<Gamma> p'"
  using assms by (cases d; cases p) (auto simp: Let_def split: option.splits)

lemma apply_delta_fresh:
  assumes "wt_delta \<Gamma> d"
  shows "\<exists>p'. (apply_delta d (pending_new (delta_item_id d) (delta_kind d)) :: 'je model_step_reducer_error + pending_item)
      = Inr p' \<and> wt_item \<Gamma> p'"
  using assms by (cases d) (auto simp: Let_def)

lemma push_delta_typed:
  assumes "wt_delta \<Gamma> d" "wt_collector \<Gamma> c"
  shows "\<exists>c'. (push_delta c d :: 'je collector_failure + model_step_collector) = Inr c'
    \<and> wt_collector \<Gamma> c' \<and> finished c' = finished c"
proof (cases "btm_get (ids c) (delta_item_id d)")
  case None
  obtain p' where "(apply_delta d (pending_new (delta_item_id d) (delta_kind d))
      :: 'je model_step_reducer_error + pending_item) = Inr p'" "wt_item \<Gamma> p'"
    using apply_delta_fresh [OF assms(1)] by blast
  with None obtain c' where push: "(push_delta c d :: 'je collector_failure + model_step_collector) = Inr c'"
    and slots: "slots c' = slots c @ [Pending p']"
    by (auto simp: push_delta_def pending_slot_def Let_def)
  then show ?thesis
    using \<open>wt_item \<Gamma> p'\<close> assms(2) push_delta_invar(2) [OF _ push]
    by (auto simp: wt_collector_def)
next
  case (Some kind)
  have inv: "collector_invar c" using assms(2) by (simp add: wt_collector_def)
  obtain i p where find: "find_pending (delta_item_id d) (slots c) = Some (i, p)"
  proof (cases "find_pending (delta_item_id d) (slots c)")
    case None
    with Some inv show ?thesis
      by (metis collector_invar_def find_pending_None map_of_eq_None_iff option.distinct(1))
  qed auto
  note at = find_pending_Some [OF find]
  then have typed: "wt_item \<Gamma> p"
    using assms(2) by (metis list_all_length wt_collector_def wt_slot.simps(1))
  have "pending_kind_of p = delta_kind d"
    using wt_item_kind [OF typed] wt_delta_kind [OF assms(1)] at by simp
  then have kind: "kind = delta_kind d" using find_pending_kind [OF inv find] Some by simp
  obtain p' where applied: "(apply_delta d p :: 'je model_step_reducer_error + pending_item) = Inr p'" "wt_item \<Gamma> p'"
    using apply_delta_typed [OF assms(1) typed] at by blast
  then have push: "(push_delta c d :: 'je collector_failure + model_step_collector) = Inr (c\<lparr>slots := (slots c)[i := Pending p']\<rparr>)"
    using Some kind find by (simp add: push_delta_def pending_slot_def)
  then show ?thesis
    using applied(2) assms(2) push_delta_invar(2) [OF inv push] at
    by (auto simp: wt_collector_def list_all_length nth_list_update)
qed

lemma collector_push_typed:
  assumes "wt_event \<Gamma> ev" "wt_collector \<Gamma> c" "finished c = None"
  shows "\<exists>c'. (collector_push c ev :: 'je collector_failure + model_step_collector) = Inr c'
    \<and> wt_collector \<Gamma> c' \<and> (\<not> is_finished_event ev \<longrightarrow> finished c' = None)"
proof (cases ev)
  case (Delta d)
  then show ?thesis using push_delta_typed [of \<Gamma> d c] assms by (auto simp: collector_push_def)
qed (use assms in \<open>auto simp: collector_push_def push_slot_def wt_collector_def collector_invar_def\<close>)

lemma try_fold_typed:
  assumes "list_all (wt_event \<Gamma>) evs" "list_all (\<lambda>e. \<not> is_finished_event e) evs"
    and "wt_collector \<Gamma> c" "finished c = None"
  shows "\<exists>c'. (try_fold collector_push c evs :: 'je collector_failure + model_step_collector) = Inr c'
    \<and> wt_collector \<Gamma> c' \<and> finished c' = None"
  using assms
proof (induction evs arbitrary: c)
  case (Cons ev evs)
  then obtain c1 where "(collector_push c ev :: 'je collector_failure + model_step_collector) = Inr c1"
    "wt_collector \<Gamma> c1" "finished c1 = None"
    using collector_push_typed [of \<Gamma> ev c] by auto
  with Cons.IH [of c1] Cons.prems show ?case by simp
qed simp

text \<open>The only way a typed item fails to finish is that the arguments of a tool call are not JSON.\<close>

lemma finish_slots_typed:
  assumes "list_all (wt_slot \<Gamma>) ss" "try_fold (finish_slot parse) out ss = Inl e"
  shows "\<exists>u a source. e = InvalidToolArguments u a source \<and> parse a = Inl source"
  using assms
proof (induction ss arbitrary: out)
  case (Cons s ss)
  show ?case
  proof (cases "finish_slot parse out s")
    case (Inl e')
    moreover obtain p where "s = Pending p" using Inl by (cases s) auto
    ultimately show ?thesis
      using Cons.prems by (cases p) (auto split: option.splits if_splits sum.splits)
  next
    case (Inr out')
    with Cons show ?thesis by simp
  qed
qed simp

definition finishes :: "model_step_event list \<Rightarrow> bool" where
  "finishes evs \<longleftrightarrow> (\<exists>pre kind model_id. evs = pre @ [Finished kind model_id] \<and> list_all (\<lambda>e. \<not> is_finished_event e) pre)"

definition unfinished :: "model_step_event list \<Rightarrow> bool" where
  "unfinished evs \<longleftrightarrow> list_all (\<lambda>e. \<not> is_finished_event e) evs"

lemma finishes_append: "unfinished xs \<Longrightarrow> finishes ys \<Longrightarrow> finishes (xs @ ys)"
  by (auto simp: finishes_def unfinished_def)

lemma unfinished_append [simp]: "unfinished (xs @ ys) \<longleftrightarrow> unfinished xs \<and> unfinished ys"
  by (simp add: unfinished_def)

lemma unfinished_simps [simp]: "unfinished []" "unfinished (e # es) \<longleftrightarrow> \<not> is_finished_event e \<and> unfinished es"
  by (simp_all add: unfinished_def)

lemma finishes_not_unfinished: "finishes evs \<Longrightarrow> \<not> unfinished evs"
  by (auto simp: finishes_def unfinished_def)

lemma finishes_snoc: "unfinished evs \<Longrightarrow> finishes (evs @ [Finished kind model_id])"
  by (auto simp: finishes_def unfinished_def)

text \<open>
  C29: Well-typed streams never get stuck. If a stream ends with its only finished event and gives every item
  id one type (a text, a reasoning of one provider, or a tool call with one id and name), the collector
  accepts it; the step can be refused only because the accumulated arguments of a tool call are not JSON.
\<close>

theorem well_typed_step_collects:
  assumes "finishes evs" and "list_all (wt_event \<Gamma>) evs"
  shows "(\<exists>step. collect_model_step parse (map Inr evs) = Inr step)
    \<or> (\<exists>u a source. (collect_model_step parse (map Inr evs) :: ('je, 'se) model_step_collection_error + model_step)
          = Inl (Collector (Reducer (InvalidToolArguments u a source))) \<and> parse a = Inl source)"
proof -
  obtain pre kind model_id where evs: "evs = pre @ [Finished kind model_id]"
    and pre: "list_all (\<lambda>e. \<not> is_finished_event e) pre"
    using assms(1) by (auto simp: finishes_def)
  have "wt_collector \<Gamma> collector_default" "finished collector_default = None"
    using collector_invar_default by (auto simp: wt_collector_def collector_default_def)
  then obtain c where c: "(try_fold collector_push collector_default pre :: 'je collector_failure + _) = Inr c"
    "wt_collector \<Gamma> c" "finished c = None"
    using try_fold_typed [of \<Gamma> pre] assms(2) pre by (auto simp: evs)
  let ?c = "c\<lparr>finished := Some (kind, model_id)\<rparr>"
  have "(try_fold collector_push collector_default evs :: 'je collector_failure + _) = Inr ?c"
    using c by (simp add: evs try_fold_append collector_push_def)
  then have collected: "collect_model_step parse (map Inr evs) = (case collector_finish parse ?c of
      Inl e \<Rightarrow> Inl (Collector (Reducer e)) | Inr step \<Rightarrow> Inr step)"
    by (simp add: collect_model_step_def collect_events_Inr)
  show ?thesis
  proof (cases "try_fold (finish_slot parse) (model_step_output_new model_id) (slots c)")
    case (Inl e)
    have "list_all (wt_slot \<Gamma>) (slots c)" using c(2) by (simp add: wt_collector_def)
    then obtain u a source where "e = InvalidToolArguments u a source" "parse a = Inl source"
      using finish_slots_typed [OF _ Inl, of \<Gamma>] by blast
    with Inl show ?thesis by (simp add: collected collector_finish_def)
  next
    case (Inr out)
    then show ?thesis by (simp add: collected collector_finish_def)
  qed
qed

theorem well_typed_step_collects_witness:
  "\<exists>step. collect_model_step (\<lambda>_. Inr JNull :: unit + json)
     (map Inr [Delta (DeltaText ''t'' ''a''), Delta (DeltaClientToolCall ''c'' ''u'' (Some ''n'') ''{''),
       Delta (DeltaText ''t'' ''b''), Finished ClientTools ''m'']) = (Inr step :: (unit, unit) model_step_collection_error + _)"
proof -
  let ?evs = "[Delta (DeltaText ''t'' ''a''), Delta (DeltaClientToolCall ''c'' ''u'' (Some ''n'') ''{''),
       Delta (DeltaText ''t'' ''b''), Finished ClientTools ''m'']"
  let ?env = "[''t'' \<mapsto> TyText, ''c'' \<mapsto> TyTool ''u'' ''n'']"
  have "finishes ?evs" by (auto simp: finishes_def intro: exI [of _ "butlast ?evs"])
  moreover have "list_all (wt_event ?env) ?evs" by simp
  ultimately show ?thesis
    using well_typed_step_collects [of ?evs ?env "\<lambda>_. Inr JNull :: unit + json"] by auto
qed

end
