(* ===== verification/Provider_Contract.thy ===== *)
theory Provider_Contract
  imports Provider_Stream Api_Collector_Typing
begin

text \<open>
  What the streaming loop relies on from a provider's state machine, and what it gives the collector for it:
  a step that ends normally has yielded exactly one finished event, as its last, and a step that fails none.
\<close>

locale stream_contract =
  fixes ad :: "'st stream_adapter"
  assumes event_shape: "sa_event ad ev st = Inr (out, fin, st') \<Longrightarrow> if fin then finishes out else unfinished out"
    and end_shape: "sa_end ad st = Inr out \<Longrightarrow> finishes out"
begin

lemma adapt_shape:
  "adapt_events ad evs st = (out, res) \<Longrightarrow> if res = AdaptFinished then finishes out else unfinished out"
proof (induction evs arbitrary: st out res)
  case (Cons ev evs)
  show ?case
  proof (cases "sa_event ad ev st")
    case (Inl e)
    with Cons.prems show ?thesis by auto
  next
    case (Inr r)
    obtain now fin st' where r: "r = (now, fin, st')" by (cases r)
    note shape = event_shape [OF Inr [unfolded r]]
    obtain later res' where rest: "adapt_events ad evs st' = (later, res')" by fastforce
    show ?thesis
      using Cons.prems Cons.IH [OF rest] Inr r rest shape by (auto split: if_splits intro: finishes_append)
  qed
qed auto

lemma attempt_shape:
  "attempt_chunks ad chunks buffer st = (out, res) \<Longrightarrow> if res = None then finishes out else unfinished out"
proof (induction chunks arbitrary: buffer st out res)
  case Nil
  show ?case
  proof (cases "fst (sse_finish buffer)")
    case (Inl e)
    with Nil show ?thesis by auto
  next
    case (Inr final_event)
    obtain now r where now: "adapt_events ad (case final_event of None \<Rightarrow> [] | Some ev \<Rightarrow> [ev]) st = (now, r)"
      by fastforce
    show ?thesis
      using Nil Inr now adapt_shape [OF now] end_shape
      by (cases r) (auto split: sum.splits intro: finishes_append)
  qed
next
  case (Cons chunk chunks)
  show ?case
  proof (cases chunk)
    case (Inl message)
    with Cons.prems show ?thesis by auto
  next
    case (Inr bytes)
    obtain pushed buffer' where push: "sse_push bytes buffer = (pushed, buffer')" by fastforce
    show ?thesis
    proof (cases pushed)
      case (Inl e)
      with Cons.prems Inr push show ?thesis using \<open>chunk = Inr bytes\<close> by auto
    next
      case (Inr events)
      obtain now r where now: "adapt_events ad events st = (now, r)" by fastforce
      note here = Cons.prems \<open>chunk = Inr bytes\<close> push Inr now adapt_shape [OF now]
      show ?thesis
      proof (cases r)
        case (AdaptMore st')
        obtain later res' where rest: "attempt_chunks ad chunks buffer' st' = (later, res')" by fastforce
        show ?thesis using here AdaptMore rest Cons.IH [OF rest] by (auto intro: finishes_append)
      qed (use here in auto)
    qed
  qed
qed

lemma step_shape:
  assumes "stream_step cls ad connect = (out, res, sleeps)"
  shows "if res = None then finishes out else unfinished out"
proof -
  have "last_attempt ad connect (length sleeps) = (out, res)"
    using step_attempts_spec [OF assms [unfolded stream_step_def]] by simp
  then show ?thesis
    using attempt_shape [of _ "[]" "sa_init ad"]
    by (auto simp: last_attempt_def run_attempt_def split: sum.splits)
qed

end

section \<open>Shapes\<close>

lemma unfinished_map [simp]:
  "unfinished (map EvServerToolUse us)" "unfinished (map EvGrounding gs)" "unfinished (map EvUsage rs)"
  "unfinished (map (\<lambda>x. Delta (f x)) xs)"
  by (simp_all add: unfinished_def list_all_iff)

lemma unfinished_summaries [simp]: "unfinished (summary_delta_events item_id provider ss)"
  by (induction ss) auto

lemma unfinished_reasoning [simp]: "unfinished (reasoning_items_to_delta_events xs prefix)"
proof -
  have "unfinished (reasoning_items_to_delta_events_from n xs prefix)" for n
    by (induction xs arbitrary: n) (simp_all add: Let_def)
  then show ?thesis by (simp add: reasoning_items_to_delta_events_def)
qed

lemma finishes_singleton [simp]: "finishes [Finished kind model_id]"
  using finishes_snoc [of "[]"] by simp

section \<open>Segments\<close>

text \<open>
  The deltas of one item that arrive together: a fresh id opens a slot at the end, and the later deltas
  accumulate in it.
\<close>

lemma push_delta_segment_step:
  assumes "collector_invar c" and "slots c = ss @ [Pending p]" and "pending_item_id p = delta_item_id d"
    and "pending_kind_of p = delta_kind d" and "(apply_delta d p :: 'je model_step_reducer_error + _) = Inr p'" and "finished c = None"
  shows "(collector_push c (Delta d) :: 'je collector_failure + _) = Inr (c\<lparr>slots := ss @ [Pending p']\<rparr>)"
proof -
  let ?i = "delta_item_id d"
  have keys: "slot_keys (slots c) = slot_keys ss @ [(?i, delta_kind d)]"
    using assms(2-4) by simp
  then have notin: "?i \<notin> fst ` set (slot_keys ss)"
    using assms(1) by (simp add: collector_invar_def)
  then have "find_pending ?i ss = None" by (simp add: find_pending_None)
  then have find: "find_pending ?i (ss @ [Pending p]) = Some (length ss, p)"
    using assms(3) by (induction ss) (auto split: output_slot.splits if_splits option.splits)
  have "btm_get (ids c) ?i = Some (delta_kind d)"
    using assms(1) notin by (force simp: collector_invar_def keys map_add_def map_of_eq_None_iff split: option.splits)
  with find assms(2,5,6) show ?thesis
    by (simp add: collector_push_def push_delta_def pending_slot_def)
qed

lemma push_delta_segment_more:
  assumes "list_all (\<lambda>d. delta_item_id d = k \<and> delta_kind d = kind) ds"
    and "collector_invar c" "slots c = ss @ [Pending p]" "pending_item_id p = k" "pending_kind_of p = kind"
    and "finished c = None" and "try_fold (\<lambda>p d. apply_delta d p) p ds = (Inr p' :: 'je model_step_reducer_error + _)"
  shows "(try_fold collector_push c (map Delta ds) :: 'je collector_failure + _) = Inr (c\<lparr>slots := ss @ [Pending p']\<rparr>)"
  using assms
proof (induction ds arbitrary: c p)
  case Nil
  then have "c\<lparr>slots := ss @ [Pending p']\<rparr> = c" by simp
  then show ?case by simp
next
  case (Cons d ds)
  obtain p1 where p1: "(apply_delta d p :: 'je model_step_reducer_error + _) = Inr p1"
    and rest: "try_fold (\<lambda>p d. apply_delta d p) p1 ds = (Inr p' :: 'je model_step_reducer_error + _)"
    using Cons.prems(7) by (auto split: sum.splits)
  note key = apply_delta_key [OF p1]
  have push: "(collector_push c (Delta d) :: 'je collector_failure + _) = Inr (c\<lparr>slots := ss @ [Pending p1]\<rparr>)"
    using push_delta_segment_step [OF _ _ _ _ p1] Cons.prems by simp
  have "collector_invar (c\<lparr>slots := ss @ [Pending p1]\<rparr>)"
    using Cons.prems key by (auto simp: collector_invar_def)
  then show ?case
    using Cons.IH [of "c\<lparr>slots := ss @ [Pending p1]\<rparr>" p1] Cons.prems key push rest by simp
qed

lemma push_delta_segment:
  assumes "list_all (\<lambda>d. delta_item_id d = k \<and> delta_kind d = kind) ds" and "ds \<noteq> []"
    and "collector_invar c" "finished c = None" "btm_get (ids c) k = None"
    and "try_fold (\<lambda>p d. apply_delta d p) (pending_new k kind) ds = (Inr p :: 'je model_step_reducer_error + _)"
  shows "(try_fold collector_push c (map Delta ds) :: 'je collector_failure + _)
    = Inr (c\<lparr>ids := btm_insert k kind (ids c), slots := slots c @ [Pending p]\<rparr>)"
proof -
  obtain d ds' where ds: "ds = d # ds'" using assms(2) by (cases ds) auto
  obtain p1 where p1: "(apply_delta d (pending_new k kind) :: 'je model_step_reducer_error + _) = Inr p1"
    and rest: "try_fold (\<lambda>p d. apply_delta d p) p1 ds' = (Inr p :: 'je model_step_reducer_error + _)"
    using assms(6) by (auto simp: ds split: sum.splits)
  let ?c = "c\<lparr>ids := btm_insert k kind (ids c), slots := slots c @ [Pending p1]\<rparr>"
  have push: "(push_delta c d :: 'je collector_failure + _) = Inr ?c"
    using assms(1,5) p1 by (simp add: ds push_delta_def pending_slot_def Let_def)
  note key = apply_delta_key [OF p1]
  have "(try_fold collector_push ?c (map Delta ds') :: 'je collector_failure + _)
      = Inr (?c\<lparr>slots := slots c @ [Pending p]\<rparr>)"
    by (rule push_delta_segment_more [of k kind _ _ "slots c" p1])
      (use assms key rest push_delta_invar(2) [OF assms(3) push] in \<open>simp_all add: ds\<close>)
  then show ?thesis
    using push assms(4) by (simp add: ds collector_push_def)
qed

section \<open>Kinds that the deltas back\<close>

text \<open>
  The agent loop branches on the kind of a step: a final one is answered, one with client tools is executed.
  Deltas of the matching sort in the stream guarantee that the collected step has something to answer or run.
\<close>

fun text_slot :: "output_slot \<Rightarrow> bool" where
  "text_slot (Pending (PendingText _ t)) = (t \<noteq> [])"
| "text_slot _ = False"

fun call_slot :: "output_slot \<Rightarrow> bool" where
  "call_slot (Pending (PendingClientToolCall _ _ _ _)) = True"
| "call_slot _ = False"

fun text_event :: "model_step_event \<Rightarrow> bool" where
  "text_event (Delta (DeltaText _ t)) = (t \<noteq> [])"
| "text_event _ = False"

fun call_event :: "model_step_event \<Rightarrow> bool" where
  "call_event (Delta (DeltaClientToolCall _ _ _ _)) = True"
| "call_event _ = False"

definition delta_stable :: "(output_slot \<Rightarrow> bool) \<Rightarrow> bool" where
  "delta_stable Q \<longleftrightarrow> (\<forall>d p p'. (apply_delta d p :: unit model_step_reducer_error + _) = Inr p'
     \<longrightarrow> Q (Pending p) \<longrightarrow> Q (Pending p'))"

lemma apply_delta_result: "(apply_delta d p :: 'je model_step_reducer_error + _) = Inr p'
    \<Longrightarrow> (apply_delta d p :: unit model_step_reducer_error + _) = Inr p'"
  by (cases d; cases p) (auto simp: Let_def split: option.splits if_splits)

lemma text_slot_stable: "delta_stable text_slot"
proof -
  have "(apply_delta d p :: unit model_step_reducer_error + _) = Inr p' \<Longrightarrow> text_slot (Pending p) \<Longrightarrow> text_slot (Pending p')"
    for d p p' by (cases d; cases p) auto
  then show ?thesis unfolding delta_stable_def by blast
qed

lemma call_slot_stable: "delta_stable call_slot"
proof -
  have "(apply_delta d p :: unit model_step_reducer_error + _) = Inr p' \<Longrightarrow> call_slot (Pending p) \<Longrightarrow> call_slot (Pending p')"
    for d p p' by (cases d; cases p) (auto simp: Let_def split: option.splits if_splits)
  then show ?thesis unfolding delta_stable_def by blast
qed

text \<open>What pushing a delta does to the slots: one pending item changes, all others stay.\<close>

lemma push_delta_change:
  assumes "collector_invar c" and "(push_delta c d :: 'je collector_failure + _) = Inr c'"
  shows "\<exists>ss i p p'. i < length ss \<and> ss ! i = Pending p \<and> (\<exists>rest. ss = slots c @ rest)
    \<and> (apply_delta d p :: unit model_step_reducer_error + _) = Inr p' \<and> slots c' = ss[i := Pending p']"
proof -
  note at = pending_slot_cases [where 'je = 'je, OF assms(1), of "delta_item_id d" "delta_kind d"]
  obtain c1 i p where slot: "(pending_slot c (delta_item_id d) (delta_kind d) :: 'je collector_failure + _) = Inr (c1, i, p)"
    using assms(2) by (auto simp: push_delta_def split: sum.splits)
  with at have "i < length (slots c1)" "slots c1 ! i = Pending p" by auto
  moreover have "\<exists>rest. slots c1 = slots c @ rest"
    using slot by (auto simp: pending_slot_def Let_def split: option.splits if_splits prod.splits)
  moreover obtain p' where "(apply_delta d p :: 'je model_step_reducer_error + _) = Inr p'"
    "slots c' = (slots c1)[i := Pending p']"
    using assms(2) slot by (auto simp: push_delta_def split: sum.splits)
  ultimately show ?thesis by (blast dest: apply_delta_result)
qed

lemma collector_push_keeps:
  assumes "delta_stable Q" "collector_invar c" "(collector_push c ev :: 'je collector_failure + _) = Inr c'"
    and "\<exists>s \<in> set (slots c). Q s"
  shows "\<exists>s \<in> set (slots c'). Q s"
proof (cases ev)
  case (Delta d)
  then have push: "(push_delta c d :: 'je collector_failure + _) = Inr c'"
    using assms(3) by (auto simp: collector_push_def split: if_splits)
  obtain ss i p p' rest where ss: "i < length ss" "ss ! i = Pending p" "ss = slots c @ rest"
    "(apply_delta d p :: unit model_step_reducer_error + _) = Inr p'" "slots c' = ss[i := Pending p']"
    using push_delta_change [OF assms(2) push] by blast
  obtain s j where s: "Q s" "j < length ss" "ss ! j = s"
    using assms(4) ss(3) by (metis Un_iff in_set_conv_nth set_append)
  show ?thesis
  proof (cases "i = j")
    case True
    then have "Q (Pending p')" using s ss assms(1) unfolding delta_stable_def by metis
    then show ?thesis using ss(1,5) set_update_memI by metis
  next
    case False
    then have "s \<in> set (slots c')" using s ss(1,5) by (metis length_list_update nth_list_update_neq nth_mem)
    then show ?thesis using s(1) by blast
  qed
qed (use assms in \<open>auto simp: collector_push_def push_slot_def split: if_splits\<close>)

lemma collector_push_opens:
  assumes "collector_invar c" "(collector_push c ev :: 'je collector_failure + _) = Inr c'"
  shows "text_event ev \<Longrightarrow> \<exists>s \<in> set (slots c'). text_slot s" and "call_event ev \<Longrightarrow> \<exists>s \<in> set (slots c'). call_slot s"
proof -
  have *: "\<exists>s \<in> set (slots c'). Q s"
    if "ev = Delta d" "\<And>p p'. (apply_delta d p :: unit model_step_reducer_error + _) = Inr p' \<Longrightarrow> Q (Pending p')" for d Q
  proof -
    have push: "(push_delta c d :: 'je collector_failure + _) = Inr c'"
      using assms(2) that(1) by (auto simp: collector_push_def split: if_splits)
    show ?thesis using push_delta_change [OF assms(1) push] that(2) set_update_memI by metis
  qed
  show "\<exists>s \<in> set (slots c'). text_slot s" if "text_event ev"
  proof -
    obtain i t where ev: "ev = Delta (DeltaText i t)" "t \<noteq> []" using \<open>text_event ev\<close> by (cases ev rule: text_event.cases) auto
    have "text_slot (Pending p')" if "(apply_delta (DeltaText i t) p :: unit model_step_reducer_error + _) = Inr p'" for p p'
      using that ev(2) by (cases p) auto
    then show ?thesis using * [OF ev(1)] by blast
  qed
  show "\<exists>s \<in> set (slots c'). call_slot s" if "call_event ev"
  proof -
    obtain i u n a where ev: "ev = Delta (DeltaClientToolCall i u n a)"
      using \<open>call_event ev\<close> by (cases ev rule: call_event.cases) auto
    have "call_slot (Pending p')" if "(apply_delta (DeltaClientToolCall i u n a) p :: unit model_step_reducer_error + _) = Inr p'" for p p'
      using that by (cases p) (auto simp: Let_def split: option.splits if_splits)
    then show ?thesis using * [OF ev] by blast
  qed
qed

lemma push_all_backs:
  assumes "(push_all evs :: 'je collector_failure + _) = Inr c"
  shows "(list_ex text_event evs \<longrightarrow> (\<exists>s \<in> set (slots c). text_slot s))
    \<and> (list_ex call_event evs \<longrightarrow> (\<exists>s \<in> set (slots c). call_slot s))"
  using assms
proof (induction evs arbitrary: c rule: rev_induct)
  case (snoc ev evs)
  then obtain c1 where c1: "(push_all evs :: 'je collector_failure + _) = Inr c1"
    and push: "(collector_push c1 ev :: 'je collector_failure + _) = Inr c"
    by (auto simp: push_all_snoc split: sum.splits)
  note invar = push_all_invar [OF c1]
  show ?case
    using snoc.IH [OF c1] collector_push_opens [OF invar push]
      collector_push_keeps [OF text_slot_stable invar push] collector_push_keeps [OF call_slot_stable invar push]
    by auto
qed simp

lemma finish_slots_back:
  assumes "try_fold (finish_slot parse) out ss = Inr out'"
  shows "(answer_text out \<noteq> [] \<or> (\<exists>s \<in> set ss. text_slot s) \<longrightarrow> answer_text out' \<noteq> [])
    \<and> (client_tool_calls out \<noteq> [] \<or> (\<exists>s \<in> set ss. call_slot s) \<longrightarrow> client_tool_calls out' \<noteq> [])"
  using assms
proof (induction ss arbitrary: out)
  case (Cons s ss)
  obtain out1 where out1: "finish_slot parse out s = Inr out1" "try_fold (finish_slot parse) out1 ss = Inr out'"
    using Cons.prems by (auto split: sum.splits)
  have "(answer_text out \<noteq> [] \<or> text_slot s \<longrightarrow> answer_text out1 \<noteq> [])
      \<and> (client_tool_calls out \<noteq> [] \<or> call_slot s \<longrightarrow> client_tool_calls out1 \<noteq> [])"
  proof (cases s)
    case (Pending p)
    with out1(1) show ?thesis
      by (cases p) (auto simp: answer_text_def client_tool_calls_def output_blocks_def
          split: sum.splits option.splits if_splits)
  qed (use out1(1) in \<open>auto simp: answer_text_def client_tool_calls_def output_blocks_def split: option.splits\<close>)
  with Cons.IH [OF out1(2)] show ?case by auto
qed simp

definition backed :: "model_step_event list \<Rightarrow> bool" where
  "backed evs \<longleftrightarrow> (case last_opt evs of
      Some (Finished Final _) \<Rightarrow> list_ex text_event evs
    | Some (Finished ClientTools _) \<Rightarrow> list_ex call_event evs
    | _ \<Rightarrow> True)"

lemma collected_backed:
  assumes "collect_model_step parse (map Inr evs) = (Inr step :: ('je, 'se) model_step_collection_error + _)"
    and "finishes evs" and "backed evs"
  shows "(ms_kind step = Final \<longrightarrow> answer_text (ms_output step) \<noteq> [])
    \<and> (ms_kind step = ClientTools \<longrightarrow> client_tool_calls (ms_output step) \<noteq> [])"
proof -
  obtain c where c: "(push_all evs :: 'je collector_failure + _) = Inr c" and step: "collector_finish parse c = Inr step"
    using assms(1) by (auto simp: collect_model_step_def collect_events_Inr push_all_def split: sum.splits)
  obtain pre kind model_id where evs: "evs = pre @ [Finished kind model_id]"
    using assms(2) by (auto simp: finishes_def)
  have finished: "finished c = Some (kind, model_id)"
    using c by (auto simp: evs push_all_snoc collector_push_def split: sum.splits if_splits)
  obtain out where out: "try_fold (finish_slot parse) (model_step_output_new model_id) (slots c) = Inr out"
    and step_eq: "step = \<lparr>ms_kind = kind, ms_output = out\<rparr>"
    using step by (auto simp: collector_finish_def finished split: sum.splits)
  have "(kind = Final \<longrightarrow> list_ex text_event evs) \<and> (kind = ClientTools \<longrightarrow> list_ex call_event evs)"
    using assms(3) by (cases kind) (auto simp: backed_def evs last_opt_def)
  with push_all_backs [OF c] finish_slots_back [OF out] show ?thesis
    by (auto simp: step_eq)
qed

section \<open>State machines that back their kinds\<close>

text \<open>
  \<open>track st pre\<close> says what the state \<open>st\<close> remembers of the events \<open>pre\<close> yielded so far. A state machine whose
  memory is right backs the kind it finishes with.
\<close>

locale backing_contract = stream_contract ad for ad :: "'st stream_adapter" +
  fixes track :: "'st \<Rightarrow> model_step_event list \<Rightarrow> bool"
  assumes track_init: "track (sa_init ad) []"
    and track_event: "track st pre \<Longrightarrow> sa_event ad ev st = Inr (out, False, st') \<Longrightarrow> track st' (pre @ out)"
    and backed_event: "track st pre \<Longrightarrow> sa_event ad ev st = Inr (out, True, st') \<Longrightarrow> backed (pre @ out)"
    and backed_end: "track st pre \<Longrightarrow> sa_end ad st = Inr out \<Longrightarrow> backed (pre @ out)"
begin

lemma adapt_tracks:
  "adapt_events ad evs st = (out, res) \<Longrightarrow> track st pre \<Longrightarrow>
     (case res of AdaptFinished \<Rightarrow> backed (pre @ out) | AdaptFailed _ \<Rightarrow> True | AdaptMore st' \<Rightarrow> track st' (pre @ out))"
proof (induction evs arbitrary: st pre out res)
  case (Cons ev evs)
  show ?case
  proof (cases "sa_event ad ev st")
    case (Inl e)
    with Cons.prems show ?thesis by auto
  next
    case (Inr r)
    obtain now fin st' where r: "r = (now, fin, st')" by (cases r)
    show ?thesis
    proof (cases fin)
      case True
      then show ?thesis using Cons.prems Inr r backed_event by auto
    next
      case False
      obtain later res' where rest: "adapt_events ad evs st' = (later, res')" by fastforce
      have "track st' (pre @ now)" using track_event [OF Cons.prems(2), of ev now st'] Inr r False by simp
      with Cons.IH [OF rest, of "pre @ now"] Cons.prems(1) Inr r False rest show ?thesis by (auto split: adapt_result.splits)
    qed
  qed
qed auto

lemma attempt_backed:
  "attempt_chunks ad chunks buffer st = (out, None) \<Longrightarrow> track st pre \<Longrightarrow> backed (pre @ out)"
proof (induction chunks arbitrary: buffer st pre out)
  case Nil
  then obtain final_event where final: "fst (sse_finish buffer) = Inr final_event"
    by (auto split: sum.splits)
  obtain now r where now: "adapt_events ad (case final_event of None \<Rightarrow> [] | Some ev \<Rightarrow> [ev]) st = (now, r)"
    by fastforce
  show ?case
  proof (cases r)
    case (AdaptMore st')
    then have "track st' (pre @ now)" using adapt_tracks [OF now Nil.prems(2)] by simp
    then show ?thesis
      using Nil.prems(1) final now AdaptMore backed_end by (fastforce split: sum.splits)
  qed (use Nil.prems final now adapt_tracks [OF now Nil.prems(2)] in auto)
next
  case (Cons chunk chunks)
  then obtain bytes where chunk: "chunk = Inr bytes" by (cases chunk) auto
  obtain events buffer' where push: "sse_push bytes buffer = (Inr events, buffer')"
    using Cons.prems(1) chunk by (auto split: sum.splits prod.splits)
  obtain now r where now: "adapt_events ad events st = (now, r)" by fastforce
  note tracked = adapt_tracks [OF now Cons.prems(2)]
  show ?case
  proof (cases r)
    case (AdaptMore st')
    obtain later where rest: "attempt_chunks ad chunks buffer' st' = (later, None)" and out: "out = now @ later"
      using Cons.prems(1) chunk push now AdaptMore by (auto split: prod.splits)
    show ?thesis using Cons.IH [OF rest, of "pre @ now"] tracked AdaptMore by (simp add: out)
  qed (use Cons.prems(1) chunk push now tracked in auto)
qed

lemma step_backed:
  assumes "stream_step cls ad connect = (out, None, sleeps)"
    and "collect_model_step parse (map Inr out) = (Inr step :: ('je, 'se) model_step_collection_error + _)"
  shows "(ms_kind step = Final \<longrightarrow> answer_text (ms_output step) \<noteq> [])
    \<and> (ms_kind step = ClientTools \<longrightarrow> client_tool_calls (ms_output step) \<noteq> [])"
proof -
  have "last_attempt ad connect (length sleeps) = (out, None)"
    using step_attempts_spec [OF assms(1) [unfolded stream_step_def]] by simp
  then obtain chunks where "attempt_chunks ad chunks [] (sa_init ad) = (out, None)"
    by (auto simp: last_attempt_def run_attempt_def split: sum.splits)
  then have "backed out" using attempt_backed [of chunks "[]" "sa_init ad" out "[]"] track_init by simp
  moreover have "finishes out" using step_shape [OF assms(1)] by simp
  ultimately show ?thesis using collected_backed [OF assms(2)] by blast
qed

end

text \<open>The step the agent loop sees: the yielded events, collected.\<close>

definition collected_step ::
  "(string \<Rightarrow> string + json) \<Rightarrow> (provider_error \<Rightarrow> error_class) \<Rightarrow> 'st stream_adapter
    \<Rightarrow> (nat \<Rightarrow> provider_error + (string + string) list) \<Rightarrow> model_step option" where
  "collected_step parse cls ad connect =
     (case stream_step cls ad connect of
        (out, None, _) \<Rightarrow>
          ok_result (collect_model_step parse (map Inr out) :: (string, unit) model_step_collection_error + _)
      | _ \<Rightarrow> None)"

definition step_actionable :: "model_step \<Rightarrow> bool" where
  "step_actionable step \<longleftrightarrow>
     (ms_kind step = Final \<longrightarrow> answer_text (ms_output step) \<noteq> [])
     \<and> (ms_kind step = ClientTools \<longrightarrow> client_tool_calls (ms_output step) \<noteq> [])"

lemma collected_step_Some:
  assumes "collected_step parse cls ad connect = Some step"
  obtains out sleeps where "stream_step cls ad connect = (out, None, sleeps)"
    and "(collect_model_step parse (map Inr out) :: (string, unit) model_step_collection_error + _) = Inr step"
  using assms by (auto simp: collected_step_def ok_result_def split: prod.splits option.splits sum.splits)

context backing_contract
begin

lemma collected_actionable: "collected_step parse cls ad connect = Some step \<Longrightarrow> step_actionable step"
  unfolding step_actionable_def by (erule collected_step_Some, drule (1) step_backed, blast)

end

end
