(* ===== verification/Provider_Anthropic.thy ===== *)
theory Provider_Anthropic
  imports Provider_Contract
begin

text \<open>
  The stream side of \<open>chudbot-anthropic/src/llm.rs\<close>: the state machine that turns Anthropic's server-sent
  events into model step events, and the events it derives from the finished message. \<open>parse\<close> and \<open>print\<close>
  are \<open>serde_json\<close> on text (an error is its message), \<open>estimate\<close> the token price table in floating point.
\<close>

section \<open>Usage\<close>

text \<open>A token count with \<open>serde(default)\<close>: an absent field is zero, anything but an unsigned integer an error.\<close>

definition u64_field :: "(string, json) btree_map \<Rightarrow> string \<Rightarrow> u64 option" where
  "u64_field m k = (case btm_get m k of None \<Rightarrow> Some 0 | Some v \<Rightarrow> json_as_u64 v)"

record cache_creation_usage =
  ccu_ephemeral_5m_input_tokens :: u64
  ccu_ephemeral_1h_input_tokens :: u64

record anthropic_usage =
  au_input_tokens :: u64
  au_cache_creation_input_tokens :: u64
  au_cache_creation :: cache_creation_usage
  au_cache_read_input_tokens :: u64
  au_output_tokens :: u64
  au_inference_geo :: "string option"

text \<open>\<open>serde_json::from_value\<close> on the derives; a struct may also come as the array of its fields.\<close>

definition cache_creation_from_value :: "json option \<Rightarrow> cache_creation_usage option" where
  "cache_creation_from_value v =
     (case v of
        None \<Rightarrow> Some \<lparr>ccu_ephemeral_5m_input_tokens = 0, ccu_ephemeral_1h_input_tokens = 0\<rparr>
      | Some (JObject m) \<Rightarrow>
          Option.bind (u64_field m ''ephemeral_5m_input_tokens'') (\<lambda>a.
          map_option (\<lambda>b. \<lparr>ccu_ephemeral_5m_input_tokens = a, ccu_ephemeral_1h_input_tokens = b\<rparr>)
            (u64_field m ''ephemeral_1h_input_tokens''))
      | Some (JArray []) \<Rightarrow> Some \<lparr>ccu_ephemeral_5m_input_tokens = 0, ccu_ephemeral_1h_input_tokens = 0\<rparr>
      | Some (JArray [a]) \<Rightarrow>
          map_option (\<lambda>a. \<lparr>ccu_ephemeral_5m_input_tokens = a, ccu_ephemeral_1h_input_tokens = 0\<rparr>) (json_as_u64 a)
      | Some (JArray [a, b]) \<Rightarrow>
          Option.bind (json_as_u64 a) (\<lambda>a.
          map_option (\<lambda>b. \<lparr>ccu_ephemeral_5m_input_tokens = a, ccu_ephemeral_1h_input_tokens = b\<rparr>) (json_as_u64 b))
      | _ \<Rightarrow> None)"

definition opt_str_field :: "(string, json) btree_map \<Rightarrow> string \<Rightarrow> string option option" where
  "opt_str_field m k =
     (case btm_get m k of
        None \<Rightarrow> Some None
      | Some JNull \<Rightarrow> Some None
      | Some (JString s) \<Rightarrow> Some (Some s)
      | Some _ \<Rightarrow> None)"

text \<open>The merged usage is an object, so the array form does not arise for it.\<close>

definition anthropic_usage_from_value :: "json \<Rightarrow> anthropic_usage option" where
  "anthropic_usage_from_value v =
     (case v of
        JObject m \<Rightarrow>
          Option.bind (u64_field m ''input_tokens'') (\<lambda>input.
          Option.bind (u64_field m ''cache_creation_input_tokens'') (\<lambda>creation.
          Option.bind (cache_creation_from_value (btm_get m ''cache_creation'')) (\<lambda>detail.
          Option.bind (u64_field m ''cache_read_input_tokens'') (\<lambda>cache_read.
          Option.bind (u64_field m ''output_tokens'') (\<lambda>output.
          map_option (\<lambda>geo. \<lparr>au_input_tokens = input, au_cache_creation_input_tokens = creation,
              au_cache_creation = detail, au_cache_read_input_tokens = cache_read, au_output_tokens = output,
              au_inference_geo = geo\<rparr>)
            (opt_str_field m ''inference_geo''))))))
      | _ \<Rightarrow> None)"

definition total_input_tokens :: "cache_creation_usage \<Rightarrow> u64" where
  "total_input_tokens u = u64_saturating_add (ccu_ephemeral_5m_input_tokens u) (ccu_ephemeral_1h_input_tokens u)"

definition cache_creation_input_tokens :: "anthropic_usage \<Rightarrow> u64" where
  "cache_creation_input_tokens u = max (au_cache_creation_input_tokens u) (total_input_tokens (au_cache_creation u))"

definition cache_creation_5m_input_tokens :: "anthropic_usage \<Rightarrow> u64" where
  "cache_creation_5m_input_tokens u =
     (if total_input_tokens (au_cache_creation u) = 0 then au_cache_creation_input_tokens u
      else ccu_ephemeral_5m_input_tokens (au_cache_creation u))"

definition cache_creation_1h_input_tokens :: "anthropic_usage \<Rightarrow> u64" where
  "cache_creation_1h_input_tokens u = ccu_ephemeral_1h_input_tokens (au_cache_creation u)"

record anthropic_token_usage =
  atu_input_tokens :: u64
  atu_cache_creation_5m_input_tokens :: u64
  atu_cache_creation_1h_input_tokens :: u64
  atu_cache_read_input_tokens :: u64
  atu_output_tokens :: u64
  atu_inference_geo :: "string option"

type_synonym estimate = "model_id option \<Rightarrow> anthropic_token_usage \<Rightarrow> cost_amount option"

text \<open>The prompt-side sum saturates; the total is an unchecked addition, which wraps in a release build.\<close>

definition usage_from_anthropic ::
  "estimate \<Rightarrow> provider_name \<Rightarrow> model_id option \<Rightarrow> usage_subject \<Rightarrow> json option \<Rightarrow> usage_record option" where
  "usage_from_anthropic estimate provider model subject usage =
     Option.bind usage (\<lambda>raw. map_option (\<lambda>parsed.
       let input = u64_saturating_add (u64_saturating_add (au_input_tokens parsed) (cache_creation_input_tokens parsed))
             (au_cache_read_input_tokens parsed);
           cost = estimate model \<lparr>atu_input_tokens = au_input_tokens parsed,
             atu_cache_creation_5m_input_tokens = cache_creation_5m_input_tokens parsed,
             atu_cache_creation_1h_input_tokens = cache_creation_1h_input_tokens parsed,
             atu_cache_read_input_tokens = au_cache_read_input_tokens parsed,
             atu_output_tokens = au_output_tokens parsed,
             atu_inference_geo = au_inference_geo parsed\<rparr>
       in \<lparr>ur_provider = provider, ur_model = model, ur_subject = subject, ur_input_tokens = Some input,
           ur_cached_input_tokens = Some (au_cache_read_input_tokens parsed),
           ur_output_tokens = Some (au_output_tokens parsed), ur_reasoning_tokens = None,
           ur_total_tokens = Some (input + au_output_tokens parsed), ur_cost = cost, ur_raw = Some raw\<rparr>)
       (anthropic_usage_from_value raw))"

section \<open>The finished message\<close>

definition web_search_tool_name :: string where
  "web_search_tool_name = ''web_search''"

definition server_tool_use_from_pair :: "provider_name \<Rightarrow> json \<Rightarrow> json \<Rightarrow> server_tool_use" where
  "server_tool_use_from_pair provider request response =
     \<lparr>stu_provider = provider, stu_name = unwrap_or (json_str_field request ''name'') web_search_tool_name,
      stu_id = or_else (json_str_field request ''id'') (json_str_field response ''tool_use_id''),
      stu_status = json_str_field response ''status'',
      stu_raw = json_object [(''request'', request), (''response'', response)], stu_usage = []\<rparr>"

definition server_tool_use_from_request :: "provider_name \<Rightarrow> json \<Rightarrow> server_tool_use" where
  "server_tool_use_from_request provider request =
     \<lparr>stu_provider = provider, stu_name = unwrap_or (json_str_field request ''name'') ''server_tool'',
      stu_id = json_str_field request ''id'', stu_status = json_str_field request ''status'',
      stu_raw = request, stu_usage = []\<rparr>"

definition server_tool_use_orphan :: "provider_name \<Rightarrow> json \<Rightarrow> server_tool_use" where
  "server_tool_use_orphan provider block =
     (let use_id = unwrap_or (json_str_field block ''tool_use_id'') [] in
      \<lparr>stu_provider = provider, stu_name = web_search_tool_name,
       stu_id = (if use_id = [] then None else Some use_id), stu_status = json_str_field block ''status'',
       stu_raw = block, stu_usage = []\<rparr>)"

record block_walk =
  bw_text :: string
  bw_pending :: "(string, json) btree_map"
  bw_server_uses :: "server_tool_use list"
  bw_client_uses :: "client_tool_call list"
  bw_grounding :: "grounding_metadata list"

definition block_type :: "json \<Rightarrow> string" where
  "block_type block = unwrap_or (json_str_field block ''type'') []"

text \<open>\<open>pending_server_uses\<close> is a hash map; its final sweep is taken in key order.\<close>

definition btm_remove :: "'k \<Rightarrow> ('k, 'v) btree_map \<Rightarrow> ('k, 'v) btree_map" where
  "btm_remove k m = filter (\<lambda>e. fst e \<noteq> k) m"

definition walk_block :: "provider_name \<Rightarrow> json \<Rightarrow> block_walk \<Rightarrow> block_walk" where
  "walk_block provider block w =
     (if block_type block = ''text'' then
        w\<lparr>bw_text := bw_text w @ unwrap_or (json_str_field block ''text'') [],
          bw_grounding := bw_grounding w @
            (case json_get block ''citations'' of
               None \<Rightarrow> []
             | Some citations \<Rightarrow>
                 if json_is_null citations then [] else [\<lparr>gm_provider = provider, gm_raw = citations\<rparr>])\<rparr>
      else if block_type block = ''server_tool_use'' then
        w\<lparr>bw_pending := btm_insert (unwrap_or (json_str_field block ''id'') []) block (bw_pending w)\<rparr>
      else if block_type block = ''web_search_tool_result'' then
        (let use_id = unwrap_or (json_str_field block ''tool_use_id'') [] in
         case btm_get (bw_pending w) use_id of
           Some request \<Rightarrow>
             w\<lparr>bw_pending := btm_remove use_id (bw_pending w),
               bw_server_uses := bw_server_uses w @ [server_tool_use_from_pair provider request block]\<rparr>
         | None \<Rightarrow> w\<lparr>bw_server_uses := bw_server_uses w @ [server_tool_use_orphan provider block]\<rparr>)
      else if block_type block = ''tool_use'' then
        w\<lparr>bw_client_uses := bw_client_uses w @
            [\<lparr>ctc_id = unwrap_or (json_str_field block ''id'') [],
              ctc_name = unwrap_or (json_str_field block ''name'') [],
              ctc_input = unwrap_or (json_get block ''input'') JNull\<rparr>]\<rparr>
      else w)"

definition walk_start :: block_walk where
  "walk_start = \<lparr>bw_text = [], bw_pending = [], bw_server_uses = [], bw_client_uses = [], bw_grounding = []\<rparr>"

definition walk_blocks :: "json list \<Rightarrow> provider_name \<Rightarrow> block_walk" where
  "walk_blocks blocks provider =
     (let w = fold (walk_block provider) blocks walk_start in
      w\<lparr>bw_pending := [],
        bw_server_uses := bw_server_uses w @ map (\<lambda>e. server_tool_use_from_request provider (snd e)) (bw_pending w)\<rparr>)"

definition continuation_from_content :: "provider_name \<Rightarrow> json list \<Rightarrow> provider_continuation option" where
  "continuation_from_content provider content =
     (if content = [] then None else Some \<lparr>pc_provider = provider, pc_data = JArray content\<rparr>)"

section \<open>The stream\<close>

record anthropic_stream_block =
  asb_raw :: json
  asb_input_json :: string
  asb_emitted_client_delta :: bool

record anthropic_stream_state =
  ass_model_id :: "model_id option"
  ass_stop_reason :: "string option"
  ass_start_usage :: "json option"
  ass_latest_usage :: "json option"
  ass_blocks :: "(u64, anthropic_stream_block) btree_map"
  ass_emitted_text_delta :: bool
  ass_emitted_reasoning_delta :: bool

definition anthropic_stream_state_default :: anthropic_stream_state where
  "anthropic_stream_state_default =
     \<lparr>ass_model_id = None, ass_stop_reason = None, ass_start_usage = None, ass_latest_usage = None,
      ass_blocks = [], ass_emitted_text_delta = False, ass_emitted_reasoning_delta = False\<rparr>"

definition anthropic_block_new :: "json \<Rightarrow> anthropic_stream_block" where
  "anthropic_block_new raw = \<lparr>asb_raw = raw, asb_input_json = [], asb_emitted_client_delta = False\<rparr>"

definition json_unknown_block :: json where
  "json_unknown_block = json_object [(''type'', JString ''unknown'')]"

fun append_string_field :: "json \<Rightarrow> string \<Rightarrow> string \<Rightarrow> json" where
  "append_string_field (JObject m) field delta =
     JObject (case btm_get m field of
       None \<Rightarrow> btm_insert field (JString delta) m
     | Some (JString text) \<Rightarrow> btm_insert field (JString (text @ delta)) m
     | Some _ \<Rightarrow> m)"
| "append_string_field v field delta = v"

fun set_field :: "json \<Rightarrow> string \<Rightarrow> json \<Rightarrow> json" where
  "set_field (JObject m) field v = JObject (btm_insert field v m)"
| "set_field w field v = w"

definition merged_anthropic_usage :: "anthropic_stream_state \<Rightarrow> json option" where
  "merged_anthropic_usage st =
     (let usage = unwrap_or (ass_start_usage st) (JObject []);
          usage = (case (usage, Option.bind (ass_latest_usage st) json_as_object) of
            (JObject target, Some source) \<Rightarrow> JObject (fold (\<lambda>(k, v). btm_insert k v) source target)
          | _ \<Rightarrow> usage)
      in case usage of JObject m \<Rightarrow> if m = [] then None else Some (JObject m) | _ \<Rightarrow> None)"

text \<open>An index is an optional \<open>u64\<close>; on a 64-bit target it always fits a \<open>usize\<close>.\<close>

definition stream_index :: "json \<Rightarrow> u64 option" where
  "stream_index v = Option.bind (json_get v ''index'') json_as_u64"

definition indexed_id :: "string \<Rightarrow> u64 \<Rightarrow> string" where
  "indexed_id prefix index = prefix @ '':'' @ dec_digits (unat index)"

definition tool_delta :: "u64 \<Rightarrow> json \<Rightarrow> string \<Rightarrow> model_step_event" where
  "tool_delta index raw arguments =
     Delta (DeltaClientToolCall (indexed_id ''anthropic_tool'' index) (unwrap_or (json_str_field raw ''id'') [])
       (json_str_field raw ''name'') arguments)"

definition finish_anthropic_block ::
  "(string \<Rightarrow> string + json) \<Rightarrow> (json \<Rightarrow> string) \<Rightarrow> u64 \<Rightarrow> anthropic_stream_block
    \<Rightarrow> provider_error + model_step_event list \<times> anthropic_stream_block" where
  "finish_anthropic_block parse print index block =
     (case (if str_trim (asb_input_json block) = [] then Inr block
            else case parse (asb_input_json block) of
              Inl error \<Rightarrow> Inl (DecodeError (''failed to decode Anthropic input JSON delta for block ''
                @ dec_digits (unat index) @ '': '' @ error))
            | Inr input \<Rightarrow> Inr (block\<lparr>asb_raw := set_field (asb_raw block) ''input'' input\<rparr>)) of
        Inl e \<Rightarrow> Inl e
      | Inr block \<Rightarrow>
          Inr (if json_str_field (asb_raw block) ''type'' = Some ''tool_use'' \<and> \<not> asb_emitted_client_delta block
               then [tool_delta index (asb_raw block)
                 (print (unwrap_or (json_get (asb_raw block) ''input'') (JObject [])))]
               else [], block))"

definition anthropic_terminal_events ::
  "estimate \<Rightarrow> provider_name \<Rightarrow> model_id \<Rightarrow> anthropic_stream_state \<Rightarrow> model_step_event list" where
  "anthropic_terminal_events estimate provider requested_model st =
     (let model_id = unwrap_or (ass_model_id st) requested_model;
          usage = usage_from_anthropic estimate provider (Some model_id) ModelStep (merged_anthropic_usage st);
          content = map (\<lambda>e. asb_raw (snd e)) (ass_blocks st);
          w = walk_blocks content provider;
          kind = (if bw_client_uses w \<noteq> [] then ClientTools
                  else if ass_stop_reason st = Some ''pause_turn'' \<or> bw_text w = [] then Continue
                  else Final);
          continuation = continuation_from_content provider content
      in (if \<not> ass_emitted_text_delta st \<and> bw_text w \<noteq> []
          then [Delta (DeltaText ''anthropic_text:terminal'' (bw_text w))] else [])
         @ (if ass_emitted_reasoning_delta st then []
            else case continuation of
              None \<Rightarrow> []
            | Some c \<Rightarrow> reasoning_items_to_delta_events
                (tr_items (from_continuation_and_usage (Some c) (Some model_id) [])) ''anthropic_reasoning'')
         @ (case continuation of None \<Rightarrow> [] | Some c \<Rightarrow> [EvContinuation c])
         @ map EvServerToolUse (bw_server_uses w) @ map EvGrounding (bw_grounding w)
         @ (case usage of None \<Rightarrow> [] | Some u \<Rightarrow> [EvUsage u])
         @ [Finished kind model_id])"

text \<open>The arms of \<open>content_block_start\<close> and \<open>content_block_delta\<close>.\<close>

definition anthropic_block_start ::
  "json \<Rightarrow> u64 \<Rightarrow> anthropic_stream_state \<Rightarrow> model_step_event list \<times> anthropic_stream_state" where
  "anthropic_block_start v index st =
     (let raw = unwrap_or (json_get v ''content_block'') json_unknown_block;
          text = (if json_str_field raw ''type'' = Some ''text'' then unwrap_or (json_str_field raw ''text'') [] else [])
      in ((if text = [] then [] else [Delta (DeltaText (indexed_id ''anthropic_text'' index) text)]),
          st\<lparr>ass_emitted_text_delta := ass_emitted_text_delta st \<or> text \<noteq> [],
             ass_blocks := btm_insert index (anthropic_block_new raw) (ass_blocks st)\<rparr>))"

text \<open>A delta of a block: its events, the block after, and which kinds of delta have been emitted.\<close>

definition anthropic_delta ::
  "provider_name \<Rightarrow> u64 \<Rightarrow> json \<Rightarrow> anthropic_stream_block
    \<Rightarrow> model_step_event list \<times> anthropic_stream_block \<times> bool \<times> bool" where
  "anthropic_delta provider index delta block =
     (let delta_type = block_type delta in
      if delta_type = ''text_delta'' then
        (case unwrap_or (json_str_field delta ''text'') [] of
           [] \<Rightarrow> ([], block, False, False)
         | text \<Rightarrow> ([Delta (DeltaText (indexed_id ''anthropic_text'' index) text)],
             block\<lparr>asb_raw := append_string_field (asb_raw block) ''text'' text\<rparr>, True, False))
      else if delta_type = ''input_json_delta'' then
        (case unwrap_or (json_str_field delta ''partial_json'') [] of
           [] \<Rightarrow> ([], block, False, False)
         | partial \<Rightarrow>
             (let block = block\<lparr>asb_input_json := asb_input_json block @ partial\<rparr> in
              if json_str_field (asb_raw block) ''type'' = Some ''tool_use''
              then ([tool_delta index (asb_raw block) partial], block\<lparr>asb_emitted_client_delta := True\<rparr>, False, False)
              else ([], block, False, False)))
      else if delta_type = ''thinking_delta'' then
        (case unwrap_or (json_str_field delta ''thinking'') [] of
           [] \<Rightarrow> ([], block, False, False)
         | thinking \<Rightarrow>
             ([Delta (DeltaReasoningSummary (indexed_id ''anthropic_reasoning'' index) provider
                 (Some ''thinking'') thinking)],
              block\<lparr>asb_raw := append_string_field (asb_raw block) ''thinking'' thinking\<rparr>, False, True))
      else if delta_type = ''signature_delta'' then
        (case json_str_field delta ''signature'' of
           None \<Rightarrow> ([], block, False, False)
         | Some signature \<Rightarrow>
             ([], block\<lparr>asb_raw := set_field (asb_raw block) ''signature'' (JString signature)\<rparr>, False, False))
      else ([], block, False, False))"

definition anthropic_block_delta ::
  "provider_name \<Rightarrow> json \<Rightarrow> u64 \<Rightarrow> anthropic_stream_state \<Rightarrow> model_step_event list \<times> anthropic_stream_state" where
  "anthropic_block_delta provider v index st =
     (case json_get v ''delta'' of
        None \<Rightarrow> ([], st)
      | Some delta \<Rightarrow>
          (let block = unwrap_or (btm_get (ass_blocks st) index) (anthropic_block_new json_unknown_block) in
           case anthropic_delta provider index delta block of
             (events, block, text, reasoning) \<Rightarrow>
               (events, st\<lparr>ass_blocks := btm_insert index block (ass_blocks st),
                 ass_emitted_text_delta := ass_emitted_text_delta st \<or> text,
                 ass_emitted_reasoning_delta := ass_emitted_reasoning_delta st \<or> reasoning\<rparr>)))"

definition anthropic_block_stop ::
  "(string \<Rightarrow> string + json) \<Rightarrow> (json \<Rightarrow> string) \<Rightarrow> u64 \<Rightarrow> anthropic_stream_state
    \<Rightarrow> provider_error + model_step_event list \<times> anthropic_stream_state" where
  "anthropic_block_stop parse print index st =
     (case btm_get (ass_blocks st) index of
        None \<Rightarrow> Inr ([], st)
      | Some block \<Rightarrow>
          (case finish_anthropic_block parse print index block of
             Inl e \<Rightarrow> Inl e
           | Inr (events, block) \<Rightarrow> Inr (events, st\<lparr>ass_blocks := btm_insert index block (ass_blocks st)\<rparr>)))"

definition anthropic_message_start :: "json \<Rightarrow> anthropic_stream_state \<Rightarrow> anthropic_stream_state" where
  "anthropic_message_start v st =
     (case json_get v ''message'' of
        None \<Rightarrow> st
      | Some message \<Rightarrow>
          st\<lparr>ass_model_id := or_else (json_str_field message ''model'') (ass_model_id st),
             ass_start_usage :=
               (case json_get message ''usage'' of
                  None \<Rightarrow> ass_start_usage st
                | Some usage \<Rightarrow> if json_is_null usage then ass_start_usage st else Some usage)\<rparr>)"

definition anthropic_message_delta :: "json \<Rightarrow> anthropic_stream_state \<Rightarrow> anthropic_stream_state" where
  "anthropic_message_delta v st =
     st\<lparr>ass_stop_reason :=
          or_else (Option.bind (json_get v ''delta'') (\<lambda>delta. json_str_field delta ''stop_reason'')) (ass_stop_reason st),
        ass_latest_usage :=
          (case json_get v ''usage'' of
             None \<Rightarrow> ass_latest_usage st
           | Some usage \<Rightarrow> if json_is_null usage then ass_latest_usage st else Some usage)\<rparr>"

definition anthropic_stream_event ::
  "(string \<Rightarrow> string + json) \<Rightarrow> (json \<Rightarrow> string) \<Rightarrow> estimate \<Rightarrow> provider_name \<Rightarrow> model_id
    \<Rightarrow> server_sent_event \<Rightarrow> anthropic_stream_state
    \<Rightarrow> provider_error + model_step_event list \<times> bool \<times> anthropic_stream_state" where
  "anthropic_stream_event parse print estimate provider requested_model event st =
     (case parse (sse_data event) of
        Inl error \<Rightarrow> Inl (DecodeError (''failed to decode Anthropic SSE event: '' @ error))
      | Inr v \<Rightarrow>
          (let event_type = event_type_of v event in
           if event_type = ''message_start'' then Inr ([], False, anthropic_message_start v st)
           else if event_type = ''content_block_start'' then
             (case stream_index v of
                None \<Rightarrow> Inr ([], False, st)
              | Some index \<Rightarrow> (case anthropic_block_start v index st of (events, st') \<Rightarrow> Inr (events, False, st')))
           else if event_type = ''content_block_delta'' then
             (case stream_index v of
                None \<Rightarrow> Inr ([], False, st)
              | Some index \<Rightarrow>
                  (case anthropic_block_delta provider v index st of (events, st') \<Rightarrow> Inr (events, False, st')))
           else if event_type = ''content_block_stop'' then
             (case stream_index v of
                None \<Rightarrow> Inr ([], False, st)
              | Some index \<Rightarrow>
                  (case anthropic_block_stop parse print index st of
                     Inl e \<Rightarrow> Inl e
                   | Inr (events, st') \<Rightarrow> Inr (events, False, st')))
           else if event_type = ''message_delta'' then Inr ([], False, anthropic_message_delta v st)
           else if event_type = ''message_stop'' then
             Inr (anthropic_terminal_events estimate provider requested_model st, True, st)
           else if event_type = ''error'' then
             Inl (stream_error 529 v ''Anthropic stream returned an error event'')
           else Inr ([], False, st)))"

definition anthropic_adapter ::
  "(string \<Rightarrow> string + json) \<Rightarrow> (json \<Rightarrow> string) \<Rightarrow> estimate \<Rightarrow> provider_name \<Rightarrow> model_id
    \<Rightarrow> anthropic_stream_state stream_adapter" where
  "anthropic_adapter parse print estimate provider requested_model =
     \<lparr>sa_init = anthropic_stream_state_default,
      sa_event = anthropic_stream_event parse print estimate provider requested_model,
      sa_end = (\<lambda>_. Inl (DecodeError ''Anthropic stream ended without message_stop''))\<rparr>"

section \<open>The contract of the streaming loop\<close>

lemma anthropic_block_start_unfinished: "anthropic_block_start v index st = (out, st') \<Longrightarrow> unfinished out"
  by (auto simp: anthropic_block_start_def Let_def split: if_splits)

lemma anthropic_delta_unfinished: "anthropic_delta provider index delta block = (out, rest) \<Longrightarrow> unfinished out"
  by (auto simp: anthropic_delta_def tool_delta_def Let_def split: if_splits option.splits list.splits)

lemma anthropic_block_delta_unfinished: "anthropic_block_delta provider v index st = (out, st') \<Longrightarrow> unfinished out"
  by (auto simp: anthropic_block_delta_def Let_def split: option.splits prod.splits dest: anthropic_delta_unfinished)

lemma anthropic_block_stop_unfinished:
  "anthropic_block_stop parse print index st = Inr (out, st') \<Longrightarrow> unfinished out"
  by (auto simp: anthropic_block_stop_def finish_anthropic_block_def tool_delta_def
      split: option.splits sum.splits if_splits)

lemma anthropic_terminal_finishes: "finishes (anthropic_terminal_events estimate provider model st)"
  unfolding anthropic_terminal_events_def Let_def append_assoc [symmetric]
  by (rule finishes_snoc) (auto split: option.splits)

interpretation anthropic: stream_contract "anthropic_adapter parse print estimate provider requested_model"
proof unfold_locales
  fix ev st out fin st'
  assume "sa_event (anthropic_adapter parse print estimate provider requested_model) ev st = Inr (out, fin, st')"
  then show "if fin then finishes out else unfinished out"
    by (auto simp: anthropic_adapter_def anthropic_stream_event_def Let_def
        dest: anthropic_block_start_unfinished anthropic_block_delta_unfinished anthropic_block_stop_unfinished
        intro: anthropic_terminal_finishes split: sum.splits option.splits prod.splits if_splits)
qed (simp add: anthropic_adapter_def)

end
