(* ===== verification/Provider_Anthropic_Message.thy ===== *)
theory Provider_Anthropic_Message
  imports Provider_Anthropic
begin

text \<open>
  A whole Anthropic message through the adapter and the collector: the event stream the API documents for a
  message, whatever its fragmentation into deltas, and the model step that comes out of it.
\<close>

section \<open>Messages and their streams\<close>

text \<open>
  The content blocks of a message, as the fragments in which they are streamed; a tool call carries the input
  its fragments spell.
\<close>

datatype message_content =
    ContentText "string list"
  | ContentThinking "string list" string
  | ContentToolUse tool_use_id tool_name "string list" json

fun content_start :: "message_content \<Rightarrow> json" where
  "content_start (ContentText _) = JObject [(''text'', JString []), (''type'', JString ''text'')]"
| "content_start (ContentThinking _ _) = JObject [(''thinking'', JString []), (''type'', JString ''thinking'')]"
| "content_start (ContentToolUse use_id name _ _) =
     JObject [(''id'', JString use_id), (''input'', JObject []), (''name'', JString name),
       (''type'', JString ''tool_use'')]"

fun content_fragments :: "message_content \<Rightarrow> json list" where
  "content_fragments (ContentText ps) =
     map (\<lambda>p. JObject [(''text'', JString p), (''type'', JString ''text_delta'')]) ps"
| "content_fragments (ContentThinking ps signature) =
     map (\<lambda>p. JObject [(''thinking'', JString p), (''type'', JString ''thinking_delta'')]) ps
     @ [JObject [(''signature'', JString signature), (''type'', JString ''signature_delta'')]]"
| "content_fragments (ContentToolUse _ _ ps _) =
     map (\<lambda>p. JObject [(''partial_json'', JString p), (''type'', JString ''input_json_delta'')]) ps"

definition start_value :: "u64 \<Rightarrow> json \<Rightarrow> json" where
  "start_value i block =
     JObject [(''content_block'', block), (''index'', json_u64 i), (''type'', JString ''content_block_start'')]"

definition fragment_value :: "u64 \<Rightarrow> json \<Rightarrow> json" where
  "fragment_value i delta =
     JObject [(''delta'', delta), (''index'', json_u64 i), (''type'', JString ''content_block_delta'')]"

definition stop_value :: "u64 \<Rightarrow> json" where
  "stop_value i = JObject [(''index'', json_u64 i), (''type'', JString ''content_block_stop'')]"

definition content_values :: "u64 \<Rightarrow> message_content \<Rightarrow> json list" where
  "content_values i b =
     start_value i (content_start b) # map (fragment_value i) (content_fragments b) @ [stop_value i]"

fun contents_values :: "nat \<Rightarrow> message_content list \<Rightarrow> json list" where
  "contents_values n [] = []"
| "contents_values n (b # bs) = content_values (of_nat n) b @ contents_values (Suc n) bs"

definition message_values :: "model_id \<Rightarrow> message_content list \<Rightarrow> string \<Rightarrow> json list" where
  "message_values model_id bs stop_reason =
     [JObject [(''message'', JObject [(''model'', JString model_id)]), (''type'', JString ''message_start'')]]
     @ contents_values 0 bs
     @ [JObject [(''delta'', JObject [(''stop_reason'', JString stop_reason)]), (''type'', JString ''message_delta'')],
        JObject [(''type'', JString ''message_stop'')]]"

text \<open>What becomes of a block: its final raw form, its deltas and its collected items.\<close>

fun content_raw :: "message_content \<Rightarrow> json" where
  "content_raw (ContentText ps) = JObject [(''text'', JString (concat ps)), (''type'', JString ''text'')]"
| "content_raw (ContentThinking ps signature) =
     JObject [(''signature'', JString signature), (''thinking'', JString (concat ps)), (''type'', JString ''thinking'')]"
| "content_raw (ContentToolUse use_id name _ input) =
     JObject [(''id'', JString use_id), (''input'', input), (''name'', JString name), (''type'', JString ''tool_use'')]"

definition nonempty_pieces :: "string list \<Rightarrow> string list" where
  "nonempty_pieces ps = filter (\<lambda>p. p \<noteq> []) ps"

fun content_deltas :: "(json \<Rightarrow> string) \<Rightarrow> provider_name \<Rightarrow> u64 \<Rightarrow> message_content \<Rightarrow> model_step_delta list" where
  "content_deltas print provider i (ContentText ps) =
     map (DeltaText (indexed_id ''anthropic_text'' i)) (nonempty_pieces ps)"
| "content_deltas print provider i (ContentThinking ps _) =
     map (DeltaReasoningSummary (indexed_id ''anthropic_reasoning'' i) provider (Some ''thinking'')) (nonempty_pieces ps)"
| "content_deltas print provider i (ContentToolUse use_id name ps _) =
     map (DeltaClientToolCall (indexed_id ''anthropic_tool'' i) use_id (Some name))
       (if concat ps = [] then [print (JObject [])] else nonempty_pieces ps)"

fun content_items :: "provider_name \<Rightarrow> model_id \<Rightarrow> u64 \<Rightarrow> message_content \<Rightarrow> model_step_item list" where
  "content_items provider model_id i (ContentText ps) =
     (if concat ps = [] then [] else [OutputBlock (OutText (concat ps))])"
| "content_items provider model_id i (ContentThinking ps _) =
     [Reasoning \<lparr>ri_provider = provider, ri_model = Some model_id,
        ri_id = Some (indexed_id ''anthropic_reasoning'' i), ri_status = None,
        ri_summary = [\<lparr>rs_kind = Some ''thinking'', rs_text = concat ps\<rparr>]\<rparr>]"
| "content_items provider model_id i (ContentToolUse use_id name _ input) =
     [OutputBlock (OutClientToolCall \<lparr>ctc_id = use_id, ctc_name = name, ctc_input = input\<rparr>)]"

fun contents_items :: "provider_name \<Rightarrow> model_id \<Rightarrow> nat \<Rightarrow> message_content list \<Rightarrow> model_step_item list" where
  "contents_items provider model_id n [] = []"
| "contents_items provider model_id n (b # bs) =
     content_items provider model_id (of_nat n) b @ contents_items provider model_id (Suc n) bs"

fun content_text :: "message_content \<Rightarrow> string" where
  "content_text (ContentText ps) = concat ps"
| "content_text _ = []"

fun is_tool_use :: "message_content \<Rightarrow> bool" where
  "is_tool_use (ContentToolUse _ _ _ _) = True"
| "is_tool_use _ = False"

text \<open>A streamed thinking block is not empty; the fragments of a tool call spell its input.\<close>

fun content_ok :: "(string \<Rightarrow> string + json) \<Rightarrow> message_content \<Rightarrow> bool" where
  "content_ok parse (ContentText _) = True"
| "content_ok parse (ContentThinking ps _) = (concat ps \<noteq> [])"
| "content_ok parse (ContentToolUse _ _ ps input) =
     (if str_trim (concat ps) = [] then input = JObject [] else parse (concat ps) = Inr input)"

lemma concat_nonempty_pieces [simp]: "concat (nonempty_pieces ps) = concat ps"
  by (induction ps) (auto simp: nonempty_pieces_def)

lemma nonempty_pieces_Nil [simp]: "nonempty_pieces ps = [] \<longleftrightarrow> concat ps = []"
  by (auto simp: nonempty_pieces_def filter_empty_conv)

lemma nonempty_pieces_Cons [simp]:
  "nonempty_pieces [] = []" "nonempty_pieces (p # ps) = (if p = [] then nonempty_pieces ps else p # nonempty_pieces ps)"
  by (simp_all add: nonempty_pieces_def)

section \<open>Values through the state machine\<close>

text \<open>The events whose data parse to the given values.\<close>

definition carries :: "(string \<Rightarrow> string + json) \<Rightarrow> server_sent_event list \<Rightarrow> json list \<Rightarrow> bool" where
  "carries parse events values \<longleftrightarrow> map (\<lambda>ev. parse (sse_data ev)) events = map Inr values"

lemma carries_simps [simp]:
  "carries parse events [] \<longleftrightarrow> events = []"
  "carries parse events (v # vs) \<longleftrightarrow> (\<exists>ev evs. events = ev # evs \<and> parse (sse_data ev) = Inr v \<and> carries parse evs vs)"
  by (auto simp: carries_def)

lemma carries_append [simp]:
  "carries parse events (vs @ ws) \<longleftrightarrow> (\<exists>evs evs'. events = evs @ evs' \<and> carries parse evs vs \<and> carries parse evs' ws)"
  unfolding carries_def by (auto simp: map_eq_append_conv) metis+

lemma json_str_field_simps [simp]:
  "json_str_field (JObject ((k, v) # m)) k' = (if k = k' then json_as_str v else json_str_field (JObject m) k')"
  "json_str_field (JObject []) k' = None"
  by (auto simp: json_str_field_def btm_get_def)

lemma btm_get_Cons [simp]: "btm_get ((k, v) # m) k' = (if k = k' then Some v else btm_get m k')"
  by (simp add: btm_get_def)

text \<open>The deltas of one block, on the block alone.\<close>

fun block_deltas ::
  "provider_name \<Rightarrow> u64 \<Rightarrow> json list \<Rightarrow> anthropic_stream_block
    \<Rightarrow> model_step_event list \<times> anthropic_stream_block \<times> bool \<times> bool" where
  "block_deltas provider i [] block = ([], block, False, False)"
| "block_deltas provider i (d # ds) block =
     (case anthropic_delta provider i d block of
        (now, block', t, r) \<Rightarrow>
          (case block_deltas provider i ds block' of
             (later, block'', t', r') \<Rightarrow> (now @ later, block'', t \<or> t', r \<or> r')))"

lemma btm_insert_twice [simp]: "btm_insert k v (btm_insert k w m) = btm_insert k v m"
  by (induction m) auto

definition with_block ::
  "u64 \<Rightarrow> anthropic_stream_block \<Rightarrow> bool \<Rightarrow> bool \<Rightarrow> anthropic_stream_state \<Rightarrow> anthropic_stream_state" where
  "with_block i block text reasoning st =
     st\<lparr>ass_blocks := btm_insert i block (ass_blocks st),
        ass_emitted_text_delta := ass_emitted_text_delta st \<or> text,
        ass_emitted_reasoning_delta := ass_emitted_reasoning_delta st \<or> reasoning\<rparr>"

lemma adapt_carried_fragments:
  assumes "carries parse events (map (fragment_value i) ds)" and "btm_invar (ass_blocks st)"
    and "block_deltas provider i ds block = (out, block', t', r')"
  shows "adapt_events (anthropic_adapter parse print estimate provider requested) events (with_block i block t r st)
    = (out, AdaptMore (with_block i block' (t \<or> t') (r \<or> r') st))"
  using assms
proof (induction ds arbitrary: events block out block' t' r' t r)
  case (Cons d ds)
  then obtain ev evs where events: "events = ev # evs" "parse (sse_data ev) = Inr (fragment_value i d)"
    "carries parse evs (map (fragment_value i) ds)" by auto
  obtain now block1 t1 r1 where now: "anthropic_delta provider i d block = (now, block1, t1, r1)"
    by (cases "anthropic_delta provider i d block")
  obtain later t2 r2 where later: "block_deltas provider i ds block1 = (later, block', t2, r2)"
    and out: "out = now @ later" "t' = (t1 \<or> t2)" "r' = (r1 \<or> r2)"
    using Cons.prems(3) now by (auto split: prod.splits)
  have here: "btm_get (btm_insert i block (ass_blocks st)) i = Some block"
    using Cons.prems(2) by (simp add: btm_get_insert)
  have "sa_event (anthropic_adapter parse print estimate provider requested) ev (with_block i block t r st) = Inr (now, False, with_block i block1 (t \<or> t1) (r \<or> r1) st)"
    using events(2) now here
    by (simp add: anthropic_adapter_def anthropic_stream_event_def event_type_of_def fragment_value_def
        stream_index_def anthropic_block_delta_def with_block_def Let_def disj_ac)
  with Cons.IH [OF events(3) Cons.prems(2) later, of "t \<or> t1" "r \<or> r1"] show ?case
    by (simp add: events(1) out disj_ac)
qed simp

text \<open>The blocks after their last delta.\<close>

definition last_block :: "message_content \<Rightarrow> anthropic_stream_block" where
  "last_block b = \<lparr>asb_raw = content_raw b,
     asb_input_json = (case b of ContentToolUse _ _ ps _ \<Rightarrow> concat ps | _ \<Rightarrow> []),
     asb_emitted_client_delta = (case b of ContentToolUse _ _ ps _ \<Rightarrow> concat ps \<noteq> [] | _ \<Rightarrow> False)\<rparr>"

lemma text_deltas:
  "block_deltas provider i (content_fragments (ContentText ps))
      \<lparr>asb_raw = JObject [(''text'', JString t), (''type'', JString ''text'')], asb_input_json = [],
       asb_emitted_client_delta = False\<rparr> =
     (map Delta (content_deltas print provider i (ContentText ps)),
      \<lparr>asb_raw = JObject [(''text'', JString (t @ concat ps)), (''type'', JString ''text'')], asb_input_json = [],
       asb_emitted_client_delta = False\<rparr>, concat ps \<noteq> [], False)"
proof (induction ps arbitrary: t)
  case (Cons p ps)
  then show ?case
    by (cases p) (simp_all add: anthropic_delta_def block_type_def Let_def)
qed simp

lemma tool_deltas:
  "block_deltas provider i (content_fragments (ContentToolUse use_id name ps input))
      \<lparr>asb_raw = content_start (ContentToolUse use_id name ps input), asb_input_json = a,
       asb_emitted_client_delta = b\<rparr> =
     (map (\<lambda>p. Delta (DeltaClientToolCall (indexed_id ''anthropic_tool'' i) use_id (Some name) p)) (nonempty_pieces ps),
      \<lparr>asb_raw = content_start (ContentToolUse use_id name ps input), asb_input_json = a @ concat ps,
       asb_emitted_client_delta = (b \<or> concat ps \<noteq> [])\<rparr>, False, False)"
proof (induction ps arbitrary: a b)
  case (Cons p ps)
  then show ?case
    by (cases p) (simp_all add: anthropic_delta_def block_type_def tool_delta_def Let_def)
qed simp

lemma block_deltas_append:
  "block_deltas provider i (xs @ ys) block =
     (case block_deltas provider i xs block of (now, block', t, r) \<Rightarrow>
       (case block_deltas provider i ys block' of (later, block'', t', r') \<Rightarrow> (now @ later, block'', t \<or> t', r \<or> r')))"
  by (induction xs arbitrary: block) (auto split: prod.splits)

lemma thinking_piece_deltas:
  "block_deltas provider i (map (\<lambda>p. JObject [(''thinking'', JString p), (''type'', JString ''thinking_delta'')]) ps)
      \<lparr>asb_raw = JObject [(''thinking'', JString t), (''type'', JString ''thinking'')], asb_input_json = [],
       asb_emitted_client_delta = False\<rparr> =
     (map Delta (content_deltas print provider i (ContentThinking ps signature)),
      \<lparr>asb_raw = JObject [(''thinking'', JString (t @ concat ps)), (''type'', JString ''thinking'')], asb_input_json = [],
       asb_emitted_client_delta = False\<rparr>, False, concat ps \<noteq> [])"
proof (induction ps arbitrary: t)
  case (Cons p ps)
  then show ?case
    by (cases p) (simp_all add: anthropic_delta_def block_type_def Let_def)
qed simp

lemma thinking_deltas:
  "block_deltas provider i (content_fragments (ContentThinking ps signature))
      (anthropic_block_new (content_start (ContentThinking ps signature))) =
     (map Delta (content_deltas print provider i (ContentThinking ps signature)),
      last_block (ContentThinking ps signature), False, concat ps \<noteq> [])"
  using thinking_piece_deltas [of provider i ps "[]" print signature]
  by (simp add: block_deltas_append anthropic_block_new_def last_block_def anthropic_delta_def block_type_def Let_def)

text \<open>One block: its start, its deltas and its stop.\<close>

definition is_thinking :: "message_content \<Rightarrow> bool" where
  "is_thinking b = (case b of ContentThinking _ _ \<Rightarrow> True | _ \<Rightarrow> False)"

text \<open>The block before its stop: the input of a tool call is still the one of its start.\<close>

definition open_block :: "message_content \<Rightarrow> anthropic_stream_block" where
  "open_block b = (last_block b)\<lparr>asb_raw := if is_tool_use b then content_start b else content_raw b\<rparr>"

definition open_deltas :: "provider_name \<Rightarrow> u64 \<Rightarrow> message_content \<Rightarrow> model_step_event list" where
  "open_deltas provider i b =
     (case b of ContentToolUse use_id name ps _ \<Rightarrow>
        map (\<lambda>p. Delta (DeltaClientToolCall (indexed_id ''anthropic_tool'' i) use_id (Some name) p)) (nonempty_pieces ps)
      | _ \<Rightarrow> map Delta (content_deltas (\<lambda>_. []) provider i b))"

lemma content_block_deltas:
  assumes "content_ok parse b"
  shows "block_deltas provider i (content_fragments b) (anthropic_block_new (content_start b)) =
    (open_deltas provider i b, open_block b, content_text b \<noteq> [], is_thinking b)"
proof (cases b)
  case (ContentText ps)
  then show ?thesis
    using text_deltas [of provider i ps "[]" "\<lambda>_. []"]
    by (simp add: open_deltas_def open_block_def last_block_def is_thinking_def anthropic_block_new_def)
next
  case (ContentThinking ps signature)
  then show ?thesis
    using thinking_deltas [of provider i ps signature "\<lambda>_. []"] assms
    by (simp add: open_deltas_def open_block_def last_block_def is_thinking_def)
next
  case (ContentToolUse use_id name ps input)
  then show ?thesis
    using tool_deltas [of provider i use_id name ps input "[]" False]
    by (simp add: open_deltas_def open_block_def last_block_def is_thinking_def anthropic_block_new_def)
qed

lemma str_trim_Nil [simp]: "str_trim [] = []"
  by (simp add: str_trim_def trim_start_def trim_end_def trim_with.simps)

lemma content_block_finish:
  assumes "content_ok parse b"
  shows "\<exists>out. finish_anthropic_block parse print i (open_block b) = Inr (out, last_block b)
    \<and> open_deltas provider i b @ out = map Delta (content_deltas print provider i b)"
proof (cases b)
  case (ContentToolUse use_id name ps input)
  have "str_trim (concat ps) = []" if "concat ps = []"
    using that by (simp only: str_trim_Nil)
  with ContentToolUse assms show ?thesis
    by (cases "concat ps = []")
      (auto simp: finish_anthropic_block_def open_block_def last_block_def open_deltas_def tool_delta_def
        simp del: concat_eq_Nil_conv)
qed (simp_all add: finish_anthropic_block_def open_block_def last_block_def open_deltas_def)

lemma adapt_carried_content:
  assumes "carries parse events (content_values i b)" and "content_ok parse b" and "btm_invar (ass_blocks st)"
  shows "adapt_events (anthropic_adapter parse print estimate provider requested) events st
    = (map Delta (content_deltas print provider i b),
       AdaptMore (with_block i (last_block b) (content_text b \<noteq> []) (is_thinking b) st))"
proof -
  obtain ev evs ev' where events: "events = ev # evs @ [ev']"
    and ev: "parse (sse_data ev) = Inr (start_value i (content_start b))"
    and evs: "carries parse evs (map (fragment_value i) (content_fragments b))"
    and ev': "parse (sse_data ev') = Inr (stop_value i)"
    using assms(1) by (auto simp: content_values_def)
  let ?ad = "anthropic_adapter parse print estimate provider requested"
  have block_start: "anthropic_block_start (start_value i (content_start b)) i st
      = ([], with_block i (anthropic_block_new (content_start b)) False False st)"
    unfolding anthropic_block_start_def Let_def
    by (simp only: start_value_def json_get.simps btm_get_Cons) (cases b; simp add: with_block_def)
  have start: "sa_event ?ad ev st = Inr ([], False, with_block i (anthropic_block_new (content_start b)) False False st)"
    using ev block_start
    by (simp add: anthropic_adapter_def anthropic_stream_event_def event_type_of_def stream_index_def
        start_value_def Let_def)
  note deltas = adapt_carried_fragments [OF evs assms(3) content_block_deltas [OF assms(2)],
      where t = False and r = False and print = print and estimate = estimate and requested = requested]
  obtain out where finish: "finish_anthropic_block parse print i (open_block b) = Inr (out, last_block b)"
    and out: "open_deltas provider i b @ out = map Delta (content_deltas print provider i b)"
    using content_block_finish [OF assms(2)] by blast
  let ?st = "with_block i (open_block b) (content_text b \<noteq> []) (is_thinking b) st"
  have "btm_get (ass_blocks ?st) i = Some (open_block b)"
    using assms(3) by (simp add: with_block_def btm_get_insert)
  then have "anthropic_block_stop parse print i ?st
      = Inr (out, with_block i (last_block b) (content_text b \<noteq> []) (is_thinking b) st)"
    using finish by (simp add: anthropic_block_stop_def with_block_def)
  then have stop: "sa_event ?ad ev' ?st
      = Inr (out, False, with_block i (last_block b) (content_text b \<noteq> []) (is_thinking b) st)"
    using ev' by (simp add: anthropic_adapter_def anthropic_stream_event_def event_type_of_def stream_index_def
        stop_value_def Let_def)
  show ?thesis
    using start deltas stop out by (simp add: events adapt_events_append)
qed

section \<open>All blocks\<close>

fun contents_blocks :: "nat \<Rightarrow> message_content list \<Rightarrow> (u64, anthropic_stream_block) btree_map" where
  "contents_blocks n [] = []"
| "contents_blocks n (b # bs) = (of_nat n, last_block b) # contents_blocks (Suc n) bs"

fun contents_deltas :: "(json \<Rightarrow> string) \<Rightarrow> provider_name \<Rightarrow> nat \<Rightarrow> message_content list \<Rightarrow> model_step_delta list" where
  "contents_deltas print provider n [] = []"
| "contents_deltas print provider n (b # bs) =
     content_deltas print provider (of_nat n) b @ contents_deltas print provider (Suc n) bs"

definition with_blocks :: "nat \<Rightarrow> message_content list \<Rightarrow> anthropic_stream_state \<Rightarrow> anthropic_stream_state" where
  "with_blocks n bs st =
     st\<lparr>ass_blocks := ass_blocks st @ contents_blocks n bs,
        ass_emitted_text_delta := ass_emitted_text_delta st \<or> concat (map content_text bs) \<noteq> [],
        ass_emitted_reasoning_delta := ass_emitted_reasoning_delta st \<or> list_ex is_thinking bs\<rparr>"

lemma btm_insert_last: "\<forall>e \<in> set m. fst e < k \<Longrightarrow> btm_insert k v m = m @ [(k, v)]"
  by (induction m) auto

lemma unat_of_nat_index: "n < 2 ^ 64 \<Longrightarrow> unat (of_nat n :: u64) = n"
  by (simp add: unat_of_nat take_bit_nat_eq_self)

lemma adapt_carried_contents:
  assumes "carries parse events (contents_values n bs)" and "list_all (content_ok parse) bs"
    and "btm_invar (ass_blocks st)" and "\<forall>e \<in> set (ass_blocks st). unat (fst e) < n" and "n + length bs \<le> 2 ^ 64"
  shows "adapt_events (anthropic_adapter parse print estimate provider requested) events st
    = (map Delta (contents_deltas print provider n bs), AdaptMore (with_blocks n bs st))"
  using assms
proof (induction bs arbitrary: events n st)
  case Nil
  then show ?case by (simp add: with_blocks_def)
next
  case (Cons b bs)
  obtain evs evs' where events: "events = evs @ evs'" "carries parse evs (content_values (of_nat n) b)"
    "carries parse evs' (contents_values (Suc n) bs)" using Cons.prems(1) by auto
  have n: "unat (of_nat n :: u64) = n" using Cons.prems(5) by (simp add: unat_of_nat_index)
  let ?st = "with_block (of_nat n) (last_block b) (content_text b \<noteq> []) (is_thinking b) st"
  have below: "\<forall>e \<in> set (ass_blocks st). fst e < (of_nat n :: u64)"
    using Cons.prems(4) n by (simp add: word_less_nat_alt)
  then have blocks: "ass_blocks ?st = ass_blocks st @ [(of_nat n, last_block b)]"
    by (simp add: with_block_def btm_insert_last)
  have "adapt_events (anthropic_adapter parse print estimate provider requested) evs' ?st
      = (map Delta (contents_deltas print provider (Suc n) bs), AdaptMore (with_blocks (Suc n) bs ?st))"
  proof (rule Cons.IH [OF events(3)])
    show "btm_invar (ass_blocks ?st)" using Cons.prems(3) by (simp add: with_block_def btm_insert_invar)
    show "\<forall>e \<in> set (ass_blocks ?st). unat (fst e) < Suc n" using Cons.prems(4) n by (auto simp: blocks)
  qed (use Cons.prems in auto)
  moreover have "with_blocks (Suc n) bs ?st = with_blocks n (b # bs) st"
    using blocks by (simp add: with_blocks_def) (simp add: with_block_def)
  ultimately show ?case
    using adapt_carried_content [OF events(2) _ Cons.prems(3)] Cons.prems(2)
    by (simp add: events(1) adapt_events_append)
qed

section \<open>The finished message\<close>

fun content_call :: "message_content \<Rightarrow> client_tool_call option" where
  "content_call (ContentToolUse use_id name _ input) = Some \<lparr>ctc_id = use_id, ctc_name = name, ctc_input = input\<rparr>"
| "content_call _ = None"

lemma walk_content:
  "walk_block provider (content_raw b) w =
     w\<lparr>bw_text := bw_text w @ content_text b,
       bw_client_uses := bw_client_uses w @ (case content_call b of None \<Rightarrow> [] | Some c \<Rightarrow> [c])\<rparr>"
  by (cases b) (simp_all add: walk_block_def block_type_def)

lemma walk_contents:
  "fold (walk_block provider) (map content_raw bs) w =
     w\<lparr>bw_text := bw_text w @ concat (map content_text bs),
       bw_client_uses := bw_client_uses w @ List.map_filter content_call bs\<rparr>"
  by (induction bs arbitrary: w) (auto simp: walk_content split: option.splits)

lemma content_call_None: "List.map_filter content_call bs = [] \<longleftrightarrow> \<not> list_ex is_tool_use bs"
proof (induction bs)
  case (Cons b bs)
  then show ?case by (cases b) auto
qed simp

lemma no_thinking_no_reasoning:
  "\<not> list_ex is_thinking bs \<Longrightarrow> List.map_filter (reasoning_item_from_value provider model) (map content_raw bs) = []"
proof (induction bs)
  case (Cons b bs)
  then show ?case
    by (cases b) (auto simp: is_thinking_def reasoning_item_from_value_def Let_def)
qed simp

definition message_kind :: "message_content list \<Rightarrow> string \<Rightarrow> model_step_kind" where
  "message_kind bs stop_reason =
     (if list_ex is_tool_use bs then ClientTools
      else if stop_reason = ''pause_turn'' \<or> concat (map content_text bs) = [] then Continue
      else Final)"

definition message_continuation :: "provider_name \<Rightarrow> message_content list \<Rightarrow> provider_continuation list" where
  "message_continuation provider bs =
     (if bs = [] then [] else [\<lparr>pc_provider = provider, pc_data = JArray (map content_raw bs)\<rparr>])"

lemma contents_blocks_raw: "map (\<lambda>e. asb_raw (snd e)) (contents_blocks n bs) = map content_raw bs"
  by (induction bs arbitrary: n) (simp_all add: last_block_def)

lemma terminal_of_contents:
  assumes "ass_blocks st = contents_blocks 0 bs" and "ass_model_id st = Some model_id"
    and "ass_stop_reason st = Some stop_reason" and "ass_start_usage st = None" "ass_latest_usage st = None"
    and "ass_emitted_text_delta st \<longleftrightarrow> concat (map content_text bs) \<noteq> []"
    and "ass_emitted_reasoning_delta st \<longleftrightarrow> list_ex is_thinking bs"
  shows "anthropic_terminal_events estimate provider requested st
    = map EvContinuation (message_continuation provider bs) @ [Finished (message_kind bs stop_reason) model_id]"
  using assms(4-7)
  by (auto simp: anthropic_terminal_events_def Let_def assms(1-3) contents_blocks_raw walk_blocks_def walk_contents
      walk_start_def content_call_None message_kind_def message_continuation_def continuation_from_content_def
      from_continuation_and_usage_def reasoning_items_from_continuation_def no_thinking_no_reasoning
      reasoning_items_to_delta_events_def usage_from_anthropic_def merged_anthropic_usage_def split: if_splits)

section \<open>Through the collector\<close>

lemma apply_texts:
  "try_fold (\<lambda>p d. apply_delta d p) (PendingText k t) (map (DeltaText k) ps)
    = (Inr (PendingText k (t @ concat ps)) :: 'je model_step_reducer_error + _)"
  by (induction ps arbitrary: t) auto

lemma apply_thoughts:
  "try_fold (\<lambda>p d. apply_delta d p) (PendingReasoning k provider [\<lparr>prs_kind = kind, prs_text = t\<rparr>])
      (map (DeltaReasoningSummary k provider kind) ps)
    = (Inr (PendingReasoning k provider [\<lparr>prs_kind = kind, prs_text = t @ concat ps\<rparr>]) :: 'je model_step_reducer_error + _)"
  by (induction ps arbitrary: t) auto

lemma apply_tools:
  "try_fold (\<lambda>p d. apply_delta d p) (PendingClientToolCall k use_id (Some name) a)
      (map (DeltaClientToolCall k use_id (Some name)) ps)
    = (Inr (PendingClientToolCall k use_id (Some name) (a @ concat ps)) :: 'je model_step_reducer_error + _)"
  by (induction ps arbitrary: a) auto

fun content_pending :: "(json \<Rightarrow> string) \<Rightarrow> provider_name \<Rightarrow> u64 \<Rightarrow> message_content \<Rightarrow> pending_item" where
  "content_pending print provider i (ContentText ps) = PendingText (indexed_id ''anthropic_text'' i) (concat ps)"
| "content_pending print provider i (ContentThinking ps _) =
     PendingReasoning (indexed_id ''anthropic_reasoning'' i) provider [\<lparr>prs_kind = Some ''thinking'', prs_text = concat ps\<rparr>]"
| "content_pending print provider i (ContentToolUse use_id name ps _) =
     PendingClientToolCall (indexed_id ''anthropic_tool'' i) use_id (Some name)
       (if concat ps = [] then print (JObject []) else concat ps)"

lemma apply_content:
  assumes "content_deltas print provider i b \<noteq> []"
  shows "try_fold (\<lambda>p d. apply_delta d p)
      (pending_new (pending_item_id (content_pending print provider i b)) (pending_kind_of (content_pending print provider i b)))
      (content_deltas print provider i b)
    = (Inr (content_pending print provider i b) :: 'je model_step_reducer_error + _)"
proof (cases b)
  case (ContentText ps)
  then show ?thesis by (simp add: apply_texts)
next
  case (ContentThinking ps signature)
  then obtain q qs where "nonempty_pieces ps = q # qs"
    using assms by (cases "nonempty_pieces ps") auto
  moreover then have "concat ps = q @ concat qs" by (metis concat.simps(2) concat_nonempty_pieces)
  ultimately show ?thesis using ContentThinking by (simp add: apply_thoughts)
next
  case (ContentToolUse use_id name ps input)
  define qs where "qs = (if concat ps = [] then [print (JObject [])] else nonempty_pieces ps)"
  then have "qs \<noteq> []" by (simp del: concat_eq_Nil_conv)
  then obtain q rest where q: "qs = q # rest" by (cases qs) auto
  have "concat qs = (if concat ps = [] then print (JObject []) else concat ps)" by (simp add: qs_def)
  then show ?thesis
    using ContentToolUse q by (simp add: qs_def [symmetric] apply_tools del: concat_eq_Nil_conv)
qed

lemma content_deltas_key:
  "list_all (\<lambda>d. delta_item_id d = pending_item_id (content_pending print provider i b)
      \<and> delta_kind d = pending_kind_of (content_pending print provider i b)) (content_deltas print provider i b)"
  by (cases b) (simp_all add: list_all_iff)

definition item_prefixes :: "string list" where
  "item_prefixes = [''anthropic_text'', ''anthropic_reasoning'', ''anthropic_tool'']"

text \<open>No item of a block numbered \<open>n\<close> or higher has been opened.\<close>

definition fresh_from :: "nat \<Rightarrow> model_step_collector \<Rightarrow> bool" where
  "fresh_from n c \<longleftrightarrow> collector_invar c \<and> finished c = None \<and>
     (\<forall>j pre. n \<le> j \<and> j < 2 ^ 64 \<and> pre \<in> set item_prefixes \<longrightarrow> btm_get (ids c) (indexed_id pre (of_nat j)) = None)"

lemma content_pending_id: "\<exists>pre \<in> set item_prefixes. pending_item_id (content_pending print provider i b) = indexed_id pre i"
  by (cases b) (auto simp: item_prefixes_def)

lemma indexed_id_inj:
  assumes "pre \<in> set item_prefixes" "pre' \<in> set item_prefixes" "indexed_id pre i = indexed_id pre' j"
  shows "i = j"
proof -
  have "pre = pre' \<and> dec_digits (unat i) = dec_digits (unat j)"
    using assms by (auto simp: item_prefixes_def indexed_id_def)
  then show ?thesis by (simp add: dec_digits_inj word_unat_eq_iff)
qed

definition content_slots :: "(json \<Rightarrow> string) \<Rightarrow> provider_name \<Rightarrow> u64 \<Rightarrow> message_content \<Rightarrow> output_slot list" where
  "content_slots print provider i b =
     (if content_deltas print provider i b = [] then [] else [Pending (content_pending print provider i b)])"

lemma collect_content:
  assumes "fresh_from n c" and "n < 2 ^ 64"
  shows "\<exists>c'. (try_fold collector_push c (map Delta (content_deltas print provider (of_nat n) b))
        :: 'je collector_failure + _) = Inr c'
    \<and> fresh_from (Suc n) c' \<and> slots c' = slots c @ content_slots print provider (of_nat n) b"
proof (cases "content_deltas print provider (of_nat n) b = []")
  case True
  then show ?thesis using assms by (auto simp: content_slots_def fresh_from_def)
next
  case False
  let ?p = "content_pending print provider (of_nat n) b"
  let ?c = "c\<lparr>ids := btm_insert (pending_item_id ?p) (pending_kind_of ?p) (ids c), slots := slots c @ [Pending ?p]\<rparr>"
  obtain pre where pre: "pre \<in> set item_prefixes" "pending_item_id ?p = indexed_id pre (of_nat n)"
    using content_pending_id by blast
  have fresh: "collector_invar c" "finished c = None" "btm_get (ids c) (pending_item_id ?p) = None"
    using assms pre by (auto simp: fresh_from_def)
  have push: "(try_fold collector_push c (map Delta (content_deltas print provider (of_nat n) b))
      :: 'je collector_failure + _) = Inr ?c"
    by (rule push_delta_segment [OF content_deltas_key False fresh apply_content [OF False]])
  have "collector_invar ?c"
    using try_fold_invariant [OF push, where P = collector_invar] fresh(1) by (blast intro: collector_push_invar)
  moreover have "btm_get (ids ?c) (indexed_id pre' (of_nat j)) = None"
    if "Suc n \<le> j" "j < 2 ^ 64" "pre' \<in> set item_prefixes" for pre' j
  proof -
    have "(of_nat j :: u64) \<noteq> of_nat n"
      using that assms(2) unat_of_nat_index by (metis not_less_eq_eq order_refl)
    then have "indexed_id pre' (of_nat j) \<noteq> pending_item_id ?p"
      using indexed_id_inj that pre by metis
    moreover have "btm_get (ids c) (indexed_id pre' (of_nat j)) = None"
      using that assms(1) unfolding fresh_from_def by simp
    moreover have "btm_invar (ids c)" using fresh(1) by (simp add: collector_invar_def)
    ultimately show ?thesis by (simp add: btm_get_insert)
  qed
  ultimately show ?thesis
    using push fresh False by (auto simp: fresh_from_def content_slots_def)
qed

fun contents_slots :: "(json \<Rightarrow> string) \<Rightarrow> provider_name \<Rightarrow> nat \<Rightarrow> message_content list \<Rightarrow> output_slot list" where
  "contents_slots print provider n [] = []"
| "contents_slots print provider n (b # bs) =
     content_slots print provider (of_nat n) b @ contents_slots print provider (Suc n) bs"

lemma collect_contents:
  assumes "fresh_from n c" and "n + length bs \<le> 2 ^ 64"
  shows "\<exists>c'. (try_fold collector_push c (map Delta (contents_deltas print provider n bs))
        :: 'je collector_failure + _) = Inr c'
    \<and> collector_invar c' \<and> finished c' = None \<and> slots c' = slots c @ contents_slots print provider n bs"
  using assms
proof (induction bs arbitrary: n c)
  case Nil
  then show ?case by (simp add: fresh_from_def)
next
  case (Cons b bs)
  obtain c1 where c1: "(try_fold collector_push c (map Delta (content_deltas print provider (of_nat n) b))
        :: 'je collector_failure + _) = Inr c1" "fresh_from (Suc n) c1"
    "slots c1 = slots c @ content_slots print provider (of_nat n) b"
    using collect_content [OF Cons.prems(1)] Cons.prems(2) by fastforce
  with Cons.IH [OF c1(2)] Cons.prems(2) show ?case by (auto simp: try_fold_append)
qed

lemma finish_content:
  assumes "content_ok parse b" and "parse (print (JObject [])) = Inr (JObject [])"
  shows "try_fold (finish_slot parse) out (content_slots print provider i b)
    = Inr (out\<lparr>mso_items := mso_items out @ content_items provider (mso_model_id out) i b\<rparr>)"
proof (cases b)
  case (ContentToolUse use_id name ps input)
  have "str_trim (concat ps) = []" if "concat ps = []" using that by (simp only: str_trim_Nil)
  with ContentToolUse assms show ?thesis
    by (cases "concat ps = []") (auto simp: content_slots_def simp del: concat_eq_Nil_conv)
qed (use assms in \<open>auto simp: content_slots_def\<close>)

lemma finish_contents:
  assumes "list_all (content_ok parse) bs" and "parse (print (JObject [])) = Inr (JObject [])"
  shows "try_fold (finish_slot parse) out (contents_slots print provider n bs)
    = Inr (out\<lparr>mso_items := mso_items out @ contents_items provider (mso_model_id out) n bs\<rparr>)"
  using assms(1)
proof (induction bs arbitrary: n out)
  case (Cons b bs)
  then show ?case
    using finish_content [where parse = parse and print = print, OF _ assms(2)] by (simp add: try_fold_append)
qed simp


text \<open>A message with a text in two pieces and a tool call, under a table that stands for the JSON parser.\<close>

definition sample_message :: "message_content list" where
  "sample_message = [ContentText [''He'', ''y''], ContentToolUse ''u'' ''f'' [''['', '']''] (JArray [])]"

definition sample_names :: "string list" where
  "sample_names = [''e0'', ''e1'', ''e2'', ''e3'', ''e4'', ''e5'', ''e6'', ''e7'', ''e8'', ''e9'', ''e10'']"

definition sample_parse :: "string \<Rightarrow> string + json" where
  "sample_parse s =
     (case map_of (zip sample_names (message_values ''m'' sample_message ''tool_use'')
         @ [(''[]'', JArray []), (''{}'', JObject [])]) s of
        None \<Rightarrow> Inl ''unexpected'' | Some v \<Rightarrow> Inr v)"

definition sample_events :: "server_sent_event list" where
  "sample_events = map (\<lambda>d. \<lparr>sse_event = None, sse_data = d\<rparr>) sample_names"


end
