(* ===== verification/Provider_Responses.thy ===== *)
theory Provider_Responses
  imports Provider_Contract
begin

text \<open>
  The stream side of the Responses API adapters, \<open>chudbot-openai/src/llm.rs\<close> and \<open>chudbot-xai/src/llm.rs\<close>.
  The two share their state machine up to the name in the item ids and messages; xAI adds a chat completion
  fallback and decodes the terminal response differently, so its state extends the shared one. \<open>parse\<close> and
  \<open>print\<close> are \<open>serde_json\<close> on text, \<open>estimate\<close> the price table in floating point.
\<close>

section \<open>Strings\<close>

function trim_start_matches :: "string \<Rightarrow> string \<Rightarrow> string" where
  "trim_start_matches p s =
     (if p = [] then s
      else case strip_prefix p s of None \<Rightarrow> s | Some r \<Rightarrow> trim_start_matches p r)"
  by pat_completeness auto
termination
  by (relation "measure (\<lambda>(p, s). length s)") (auto simp: strip_prefix_Some)

function trim_end_matches :: "string \<Rightarrow> string \<Rightarrow> string" where
  "trim_end_matches p s =
     (if p = [] then s
      else case strip_suffix p s of None \<Rightarrow> s | Some r \<Rightarrow> trim_end_matches p r)"
  by pat_completeness auto
termination
  by (relation "measure (\<lambda>(p, s). length s)") (auto simp: strip_suffix_Some)

declare trim_start_matches.simps [simp del] trim_end_matches.simps [simp del]

definition ends_with :: "string \<Rightarrow> string \<Rightarrow> bool" where
  "ends_with s p \<longleftrightarrow> strip_suffix p s \<noteq> None"

definition nonempty_str :: "string option \<Rightarrow> string option" where
  "nonempty_str s = (if s = Some [] then None else s)"

section \<open>Decoding structs\<close>

text \<open>
  \<open>serde_json::from_value\<close> for a derived struct, as the values of its fields in order: from an object by the
  names of each field (two names of one field are an error), from an array by position.
\<close>

definition object_field :: "(string, json) btree_map \<Rightarrow> string list \<Rightarrow> json option option" where
  "object_field m names =
     (case List.map_filter (btm_get m) names of [] \<Rightarrow> Some None | [v] \<Rightarrow> Some (Some v) | _ \<Rightarrow> None)"

fun collect_opts :: "'a option list \<Rightarrow> 'a list option" where
  "collect_opts [] = Some []"
| "collect_opts (x # xs) = Option.bind x (\<lambda>v. map_option (\<lambda>vs. v # vs) (collect_opts xs))"

fun struct_values :: "string list list \<Rightarrow> json \<Rightarrow> json option list option" where
  "struct_values names (JObject m) = collect_opts (map (object_field m) names)"
| "struct_values names (JArray vs) =
     (if length vs \<le> length names then Some (map Some vs @ replicate (length names - length vs) None) else None)"
| "struct_values names v = None"

definition default_u64 :: "json option \<Rightarrow> u64 option" where
  "default_u64 v = (case v of None \<Rightarrow> Some 0 | Some v \<Rightarrow> json_as_u64 v)"

definition default_string :: "json option \<Rightarrow> string option option" where
  "default_string v =
     (case v of None \<Rightarrow> Some None | Some JNull \<Rightarrow> Some None | Some (JString s) \<Rightarrow> Some (Some s) | Some _ \<Rightarrow> None)"

definition default_array :: "json option \<Rightarrow> json list option" where
  "default_array v = (case v of None \<Rightarrow> Some [] | Some v \<Rightarrow> json_as_array v)"

definition default_value :: "json option \<Rightarrow> json option" where
  "default_value v = (case v of Some JNull \<Rightarrow> None | _ \<Rightarrow> v)"

section \<open>Items of a response\<close>

record output_walk =
  ow_text :: string
  ow_client_calls :: "client_tool_call list"
  ow_server_uses :: "server_tool_use list"
  ow_citations :: "json list"

definition walk_message_block :: "json \<Rightarrow> output_walk \<Rightarrow> output_walk" where
  "walk_message_block block w =
     (let kind = unwrap_or (json_str_field block ''type'') [] in
      w\<lparr>ow_text := ow_text w
          @ (if kind = ''output_text'' \<or> kind = ''text'' then unwrap_or (json_str_field block ''text'') [] else []),
        ow_citations := ow_citations w
          @ filter (\<lambda>a. json_str_field a ''type'' = Some ''url_citation'')
              (unwrap_or (Option.bind (json_get block ''annotations'') json_as_array) [])\<rparr>)"

definition function_call_of :: "(string \<Rightarrow> string + json) \<Rightarrow> json \<Rightarrow> client_tool_call" where
  "function_call_of parse item =
     \<lparr>ctc_id = unwrap_or (or_else (json_str_field item ''call_id'') (json_str_field item ''id'')) [],
      ctc_name = unwrap_or (json_str_field item ''name'') [],
      ctc_input = (case parse (unwrap_or (json_str_field item ''arguments'') ''{}'') of Inl _ \<Rightarrow> JNull | Inr v \<Rightarrow> v)\<rparr>"

definition hosted_call_of :: "provider_name \<Rightarrow> string \<Rightarrow> json \<Rightarrow> server_tool_use" where
  "hosted_call_of provider kind item =
     \<lparr>stu_provider = provider, stu_name = trim_end_matches ''_call'' kind,
      stu_id = or_else (json_str_field item ''id'') (json_str_field item ''call_id''),
      stu_status = json_str_field item ''status'', stu_raw = item, stu_usage = []\<rparr>"

definition walk_item ::
  "(string \<Rightarrow> string + json) \<Rightarrow> provider_name \<Rightarrow> json \<Rightarrow> output_walk \<Rightarrow> output_walk" where
  "walk_item parse provider item w =
     (let kind = unwrap_or (json_str_field item ''type'') [] in
      if kind = ''message'' then
        (case Option.bind (json_get item ''content'') json_as_array of
           Some blocks \<Rightarrow> fold walk_message_block blocks w
         | None \<Rightarrow> w\<lparr>ow_text := ow_text w @ unwrap_or (json_str_field item ''content'') []\<rparr>)
      else if kind = ''function_call'' then
        w\<lparr>ow_client_calls := ow_client_calls w @ [function_call_of parse item]\<rparr>
      else if ends_with kind ''_call'' then
        w\<lparr>ow_server_uses := ow_server_uses w @ [hosted_call_of provider kind item]\<rparr>
      else w)"

definition walk_output ::
  "(string \<Rightarrow> string + json) \<Rightarrow> json list \<Rightarrow> provider_name \<Rightarrow> output_walk" where
  "walk_output parse output provider =
     fold (walk_item parse provider) output
       \<lparr>ow_text = [], ow_client_calls = [], ow_server_uses = [], ow_citations = []\<rparr>"

definition annotation_grounding :: "provider_name \<Rightarrow> output_walk \<Rightarrow> grounding_metadata list" where
  "annotation_grounding provider w =
     (if ow_citations w = [] then []
      else [\<lparr>gm_provider = provider, gm_raw = json_object [(''annotations'', JArray (ow_citations w))]\<rparr>])"

section \<open>The stream\<close>

record streaming_function_call =
  sfc_id :: tool_use_id
  sfc_name :: "tool_name option"

record responses_stream_state =
  rss_emitted_text_delta :: bool
  rss_emitted_reasoning_delta :: bool
  rss_function_calls :: "(string, streaming_function_call) btree_map"
  rss_streamed_tool_ids :: "tool_use_id btree_set"

definition stream_item_id :: "json \<Rightarrow> string \<Rightarrow> string" where
  "stream_item_id v fallback =
     unwrap_or (or_else
       (nonempty_str (or_else (json_str_field v ''item_id'')
          (Option.bind (Option.bind (json_get v ''item'') (\<lambda>item. json_get item ''id'')) json_as_str)))
       (map_option (\<lambda>index. fallback @ '':'' @ dec_digits (unat index))
          (Option.bind (json_get v ''output_index'') json_as_u64)))
       fallback"

definition streaming_function_call_of :: "string \<Rightarrow> json \<Rightarrow> (string \<times> streaming_function_call) option" where
  "streaming_function_call_of name v =
     (let item = unwrap_or (json_get v ''item'') v in
      if json_str_field item ''type'' \<noteq> Some ''function_call'' then None
      else map_option (\<lambda>use_id. (stream_item_id v (name @ ''_function_call''),
             \<lparr>sfc_id = use_id, sfc_name = nonempty_str (json_str_field item ''name'')\<rparr>))
           (nonempty_str (or_else (json_str_field item ''call_id'') (json_str_field item ''id''))))"

type_synonym 'x outcome = "model_step_event list \<times> bool \<times> 'x responses_stream_state_scheme"

definition responses_text_delta :: "string \<Rightarrow> json \<Rightarrow> 'x responses_stream_state_scheme \<Rightarrow> 'x outcome" where
  "responses_text_delta name v st =
     (case nonempty_str (json_str_field v ''delta'') of
        None \<Rightarrow> ([], False, st)
      | Some delta \<Rightarrow>
          ([Delta (DeltaText (stream_item_id v (name @ ''_text'')) delta)], False, st\<lparr>rss_emitted_text_delta := True\<rparr>))"

definition responses_reasoning_delta ::
  "string \<Rightarrow> provider_name \<Rightarrow> string \<Rightarrow> json \<Rightarrow> 'x responses_stream_state_scheme \<Rightarrow> 'x outcome" where
  "responses_reasoning_delta name provider event_type v st =
     (case nonempty_str (json_str_field v ''delta'') of
        None \<Rightarrow> ([], False, st)
      | Some delta \<Rightarrow>
          ([Delta (DeltaReasoningSummary (stream_item_id v (name @ ''_reasoning'')) provider
              (Some (trim_start_matches ''response.'' event_type)) delta)], False,
           st\<lparr>rss_emitted_reasoning_delta := True\<rparr>))"

definition responses_item_event :: "string \<Rightarrow> json \<Rightarrow> 'x responses_stream_state_scheme \<Rightarrow> 'x outcome" where
  "responses_item_event name v st =
     (case streaming_function_call_of name v of
        None \<Rightarrow> ([], False, st)
      | Some (key, call) \<Rightarrow> ([], False, st\<lparr>rss_function_calls := btm_insert key call (rss_function_calls st)\<rparr>))"

definition responses_arguments_delta :: "string \<Rightarrow> json \<Rightarrow> 'x responses_stream_state_scheme \<Rightarrow> 'x outcome" where
  "responses_arguments_delta name v st =
     (case nonempty_str (json_str_field v ''delta'') of
        None \<Rightarrow> ([], False, st)
      | Some delta \<Rightarrow>
          (let key = stream_item_id v (name @ ''_function_call'') in
           case btm_get (rss_function_calls st) key of
             None \<Rightarrow> ([], False, st)
           | Some call \<Rightarrow>
               ([Delta (DeltaClientToolCall key (sfc_id call) (sfc_name call) delta)], False,
                st\<lparr>rss_streamed_tool_ids := bts_of_list (sfc_id call # rss_streamed_tool_ids st)\<rparr>)))"

section \<open>The end of a response\<close>

text \<open>The calls of the response that have not been streamed, numbered.\<close>

definition unstreamed_calls :: "'x responses_stream_state_scheme \<Rightarrow> client_tool_call list \<Rightarrow> client_tool_call list" where
  "unstreamed_calls st calls = filter (\<lambda>call. ctc_id call \<notin> set (rss_streamed_tool_ids st)) calls"

definition call_delta :: "string \<Rightarrow> (json \<Rightarrow> string) \<Rightarrow> nat \<times> client_tool_call \<Rightarrow> model_step_event" where
  "call_delta name print e =
     Delta (DeltaClientToolCall (name @ ''_tool:'' @ dec_digits (fst e)) (ctc_id (snd e)) (Some (ctc_name (snd e)))
       (print (ctc_input (snd e))))"

definition response_kind :: "output_walk \<Rightarrow> model_step_kind" where
  "response_kind w =
     (if ow_client_calls w \<noteq> [] then ClientTools else if ow_text w = [] then Continue else Final)"

definition responses_terminal_events ::
  "string \<Rightarrow> (json \<Rightarrow> string) \<Rightarrow> 'x responses_stream_state_scheme \<Rightarrow> model_id \<Rightarrow> output_walk
    \<Rightarrow> usage_record option \<Rightarrow> provider_continuation option \<Rightarrow> grounding_metadata list \<Rightarrow> model_step_event list" where
  "responses_terminal_events name print st model_id w usage continuation grounding =
     (if \<not> rss_emitted_text_delta st \<and> ow_text w \<noteq> []
      then [Delta (DeltaText (name @ ''_text:terminal'') (ow_text w))] else [])
     @ map (call_delta name print) (List.enumerate 0 (unstreamed_calls st (ow_client_calls w)))
     @ (if rss_emitted_reasoning_delta st then []
        else case continuation of
          None \<Rightarrow> []
        | Some c \<Rightarrow> reasoning_items_to_delta_events
            (tr_items (from_continuation_and_usage (Some c) (Some model_id) [])) (name @ ''_reasoning''))
     @ (case continuation of None \<Rightarrow> [] | Some c \<Rightarrow> [EvContinuation c])
     @ map EvServerToolUse (ow_server_uses w) @ map EvGrounding grounding
     @ (case usage of None \<Rightarrow> [] | Some u \<Rightarrow> [EvUsage u])
     @ [Finished (response_kind w) model_id]"

text \<open>The \<open>match\<close> on the event type; \<open>terminal\<close> decodes the finished response.\<close>

definition responses_event ::
  "string \<Rightarrow> string \<Rightarrow> (json \<Rightarrow> 'x responses_stream_state_scheme \<Rightarrow> provider_error + model_step_event list)
    \<Rightarrow> provider_name \<Rightarrow> string \<Rightarrow> json \<Rightarrow> 'x responses_stream_state_scheme \<Rightarrow> provider_error + 'x outcome" where
  "responses_event name label terminal provider event_type v st =
     (if event_type = ''response.output_text.delta'' then Inr (responses_text_delta name v st)
      else if event_type = ''response.reasoning_summary_text.delta'' \<or> event_type = ''response.reasoning_text.delta''
      then Inr (responses_reasoning_delta name provider event_type v st)
      else if event_type = ''response.output_item.added'' \<or> event_type = ''response.output_item.done''
      then Inr (responses_item_event name v st)
      else if event_type = ''response.function_call_arguments.delta'' then Inr (responses_arguments_delta name v st)
      else if event_type = ''response.completed'' \<or> event_type = ''response.incomplete'' then
        (case terminal (unwrap_or (json_get v ''response'') v) st of
           Inl e \<Rightarrow> Inl e
         | Inr events \<Rightarrow> Inr (events, True, st))
      else if event_type = ''response.failed''
      then Inl (stream_error 503 (unwrap_or (json_get v ''response'') v) (label @ '' stream failed''))
      else if event_type = ''error'' then Inl (stream_error 503 v (label @ '' stream returned an error event''))
      else Inr ([], False, st))"

section \<open>OpenAI\<close>

record openai_token_details =
  otd_cached_tokens :: u64
  otd_cache_write_tokens :: u64
  otd_reasoning_tokens :: u64

record openai_usage =
  ou_input_tokens :: u64
  ou_input_tokens_details :: openai_token_details
  ou_output_tokens :: u64
  ou_output_tokens_details :: openai_token_details
  ou_total_tokens :: u64

definition openai_details_from_value :: "json option \<Rightarrow> openai_token_details option" where
  "openai_details_from_value v =
     Option.bind (struct_values [[''cached_tokens''], [''cache_write_tokens''], [''reasoning_tokens'']]
         (unwrap_or v (JObject []))) (\<lambda>vs.
     Option.bind (default_u64 (vs ! 0)) (\<lambda>a. Option.bind (default_u64 (vs ! 1)) (\<lambda>b.
     map_option (\<lambda>c. \<lparr>otd_cached_tokens = a, otd_cache_write_tokens = b, otd_reasoning_tokens = c\<rparr>)
       (default_u64 (vs ! 2)))))"

definition openai_usage_from_value :: "json \<Rightarrow> openai_usage option" where
  "openai_usage_from_value v =
     Option.bind (struct_values [[''input_tokens''], [''input_tokens_details''], [''output_tokens''],
         [''output_tokens_details''], [''total_tokens'']] v) (\<lambda>vs.
     Option.bind (default_u64 (vs ! 0)) (\<lambda>input. Option.bind (openai_details_from_value (vs ! 1)) (\<lambda>input_details.
     Option.bind (default_u64 (vs ! 2)) (\<lambda>output. Option.bind (openai_details_from_value (vs ! 3)) (\<lambda>output_details.
     map_option (\<lambda>sum. \<lparr>ou_input_tokens = input, ou_input_tokens_details = input_details, ou_output_tokens = output,
         ou_output_tokens_details = output_details, ou_total_tokens = sum\<rparr>)
       (default_u64 (vs ! 4)))))))"

type_synonym openai_estimate = "model_id option \<Rightarrow> u64 \<Rightarrow> u64 \<Rightarrow> u64 \<Rightarrow> u64 \<Rightarrow> cost_amount option"

definition usage_from_openai ::
  "openai_estimate \<Rightarrow> provider_name \<Rightarrow> model_id option \<Rightarrow> usage_subject \<Rightarrow> json option \<Rightarrow> usage_record option" where
  "usage_from_openai estimate provider model subject usage =
     Option.bind usage (\<lambda>raw. map_option (\<lambda>parsed.
       \<lparr>ur_provider = provider, ur_model = model, ur_subject = subject,
        ur_input_tokens = Some (ou_input_tokens parsed),
        ur_cached_input_tokens = Some (otd_cached_tokens (ou_input_tokens_details parsed)),
        ur_output_tokens = Some (ou_output_tokens parsed),
        ur_reasoning_tokens = Some (otd_reasoning_tokens (ou_output_tokens_details parsed)),
        ur_total_tokens = Some (ou_total_tokens parsed),
        ur_cost = estimate model (ou_input_tokens parsed) (otd_cached_tokens (ou_input_tokens_details parsed))
          (otd_cache_write_tokens (ou_input_tokens_details parsed)) (ou_output_tokens parsed),
        ur_raw = Some raw\<rparr>)
       (openai_usage_from_value raw))"

record responses_response =
  rr_output :: "json list"
  rr_citations :: "json option"
  rr_model :: "string option"
  rr_usage :: "json option"

definition openai_response_from_value :: "json \<Rightarrow> responses_response option" where
  "openai_response_from_value v =
     Option.bind (struct_values [[''output''], [''model''], [''usage'']] v) (\<lambda>vs.
     Option.bind (default_array (vs ! 0)) (\<lambda>output.
     map_option (\<lambda>model. \<lparr>rr_output = output, rr_citations = None, rr_model = model,
         rr_usage = default_value (vs ! 2)\<rparr>) (default_string (vs ! 1))))"

text \<open>What \<open>serde\<close> says of a response that does not decode is a parameter, \<open>why\<close>.\<close>

definition openai_terminal_events ::
  "(string \<Rightarrow> string + json) \<Rightarrow> (json \<Rightarrow> string) \<Rightarrow> (json \<Rightarrow> string) \<Rightarrow> openai_estimate \<Rightarrow> provider_name \<Rightarrow> model_id
    \<Rightarrow> json \<Rightarrow> 'x responses_stream_state_scheme \<Rightarrow> provider_error + model_step_event list" where
  "openai_terminal_events parse print why estimate provider requested_model response st =
     (case openai_response_from_value response of
        None \<Rightarrow> Inl (DecodeError (''failed to decode terminal OpenAI response: '' @ why response))
      | Some parsed \<Rightarrow>
          (let model_id = unwrap_or (rr_model parsed) requested_model;
               usage = usage_from_openai estimate provider (Some model_id) ModelStep (rr_usage parsed);
               w = walk_output parse (rr_output parsed) provider;
               continuation = (if rr_output parsed = [] then None
                 else Some \<lparr>pc_provider = provider, pc_data = JArray (rr_output parsed)\<rparr>)
           in Inr (responses_terminal_events ''openai'' print st model_id w usage continuation
                (annotation_grounding provider w))))"

definition openai_stream_event ::
  "(string \<Rightarrow> string + json) \<Rightarrow> (json \<Rightarrow> string) \<Rightarrow> (json \<Rightarrow> string) \<Rightarrow> openai_estimate \<Rightarrow> provider_name \<Rightarrow> model_id
    \<Rightarrow> server_sent_event \<Rightarrow> responses_stream_state \<Rightarrow> provider_error + unit outcome" where
  "openai_stream_event parse print why estimate provider requested_model event st =
     (if str_trim (sse_data event) = ''[DONE]'' then Inr ([], False, st)
      else case parse (sse_data event) of
        Inl error \<Rightarrow> Inl (DecodeError (''failed to decode OpenAI SSE event: '' @ error))
      | Inr v \<Rightarrow> responses_event ''openai'' ''OpenAI''
          (openai_terminal_events parse print why estimate provider requested_model) provider (event_type_of v event) v st)"

definition responses_stream_state_default :: responses_stream_state where
  "responses_stream_state_default =
     \<lparr>rss_emitted_text_delta = False, rss_emitted_reasoning_delta = False, rss_function_calls = [],
      rss_streamed_tool_ids = []\<rparr>"

definition openai_adapter ::
  "(string \<Rightarrow> string + json) \<Rightarrow> (json \<Rightarrow> string) \<Rightarrow> (json \<Rightarrow> string) \<Rightarrow> openai_estimate \<Rightarrow> provider_name \<Rightarrow> model_id
    \<Rightarrow> responses_stream_state stream_adapter" where
  "openai_adapter parse print why estimate provider requested_model =
     \<lparr>sa_init = responses_stream_state_default,
      sa_event = openai_stream_event parse print why estimate provider requested_model,
      sa_end = (\<lambda>_. Inl (DecodeError ''OpenAI stream ended without a terminal response event''))\<rparr>"

section \<open>The contracts of the streaming loop\<close>

lemma call_deltas_unfinished [simp]: "unfinished (map (call_delta name print) es)"
  by (simp add: unfinished_def list_all_iff call_delta_def)

lemma responses_terminal_finishes:
  "finishes (responses_terminal_events name print st model_id w usage continuation grounding)"
  unfolding responses_terminal_events_def append_assoc [symmetric]
  by (rule finishes_snoc) (auto split: option.splits)

lemma responses_event_cases:
  assumes "responses_event name label terminal provider event_type v st = Inr r"
  shows "r = responses_text_delta name v st \<or> r = responses_reasoning_delta name provider event_type v st
    \<or> r = responses_item_event name v st \<or> r = responses_arguments_delta name v st
    \<or> (\<exists>response events. terminal response st = Inr events \<and> r = (events, True, st)) \<or> r = ([], False, st)"
proof -
  have chain: "r = w \<or> r = x \<or> r = y \<or> r = z \<or> (\<exists>events. t = Inr events \<and> r = (events, True, st)) \<or> r = l"
    if "(if a then Inr w else if b then Inr x else if d then Inr y else if f then Inr z
      else if g then (case t of Inl e \<Rightarrow> Inl e | Inr events \<Rightarrow> Inr (events, True, st))
      else if h then Inl i else if j then Inl k else Inr l) = Inr r"
    for a b d f g h j i k w x y z l and t :: "provider_error + model_step_event list"
    using that by (cases t) (simp_all split: if_splits)
  show ?thesis using chain [OF assms [unfolded responses_event_def]] by blast
qed

lemma responses_event_shape:
  assumes "responses_event name label terminal provider event_type v st = Inr (out, fin, st')"
    and "\<And>response events. terminal response st = Inr events \<Longrightarrow> finishes events"
  shows "if fin then finishes out else unfinished out"
  using responses_event_cases [OF assms(1)] assms(2)
  by (elim disjE)
    (auto simp: responses_text_delta_def responses_reasoning_delta_def responses_item_event_def
      responses_arguments_delta_def Let_def split: option.splits prod.splits)

text \<open>The state remembers that a text was emitted, and of which tool calls a fragment was.\<close>

definition responses_track :: "'x responses_stream_state_scheme \<Rightarrow> model_step_event list \<Rightarrow> bool" where
  "responses_track st pre \<longleftrightarrow>
     (rss_emitted_text_delta st \<longrightarrow> list_ex text_event pre) \<and> (rss_streamed_tool_ids st \<noteq> [] \<longrightarrow> list_ex call_event pre)"

lemma nonempty_str_Some [simp]: "nonempty_str s = Some t \<longleftrightarrow> s = Some t \<and> t \<noteq> []"
  by (auto simp: nonempty_str_def)

lemma bts_of_list_nonempty [simp]: "bts_of_list (x # xs) \<noteq> []"
  by (metis empty_iff list.set_intros(1) set_bts_of_list set_empty)

lemma responses_text_tracks:
  "responses_text_delta name v st = (out, fin, st') \<Longrightarrow> responses_track st pre \<Longrightarrow> \<not> fin \<and> responses_track st' (pre @ out)"
  by (auto simp: responses_text_delta_def responses_track_def split: option.splits)

lemma responses_reasoning_tracks:
  "responses_reasoning_delta name provider event_type v st = (out, fin, st') \<Longrightarrow> responses_track st pre
    \<Longrightarrow> \<not> fin \<and> responses_track st' (pre @ out)"
  by (auto simp: responses_reasoning_delta_def responses_track_def split: option.splits)

lemma responses_item_tracks:
  "responses_item_event name v st = (out, fin, st') \<Longrightarrow> responses_track st pre \<Longrightarrow> \<not> fin \<and> responses_track st' (pre @ out)"
  by (auto simp: responses_item_event_def responses_track_def split: option.splits)

lemma responses_arguments_tracks:
  "responses_arguments_delta name v st = (out, fin, st') \<Longrightarrow> responses_track st pre
    \<Longrightarrow> \<not> fin \<and> responses_track st' (pre @ out)"
  by (auto simp: responses_arguments_delta_def responses_track_def Let_def split: option.splits)

lemmas responses_tracks =
  responses_text_tracks responses_reasoning_tracks responses_item_tracks responses_arguments_tracks

lemma responses_event_tracks:
  assumes "responses_event name label terminal provider event_type v st = Inr (out, False, st')"
    and "responses_track st pre"
  shows "responses_track st' (pre @ out)"
  using responses_event_cases [OF assms(1)] assms(2)
  by (elim disjE) (auto dest: responses_tracks [OF sym])

text \<open>Only a terminal event finishes the step.\<close>

lemma responses_event_finished:
  assumes "responses_event name label terminal provider event_type v st = Inr (out, True, st')"
  shows "\<exists>response. terminal response st = Inr out"
proof -
  have "responses_track st [Delta (DeltaText [] ''x''), Delta (DeltaClientToolCall [] [] None [])]"
    by (simp add: responses_track_def)
  note never = responses_tracks [OF sym this]
  show ?thesis
    using responses_event_cases [OF assms] by (elim disjE) (auto dest: never)
qed

lemma responses_terminal_backed:
  assumes "responses_track st pre"
  shows "backed (pre @ responses_terminal_events name print st model_id w usage continuation grounding)"
proof -
  let ?out = "responses_terminal_events name print st model_id w usage continuation grounding"
  have last: "last_opt (pre @ ?out) = Some (Finished (response_kind w) model_id)"
    by (simp add: last_opt_def responses_terminal_events_def)
  have texts: "list_ex text_event (pre @ ?out)" if "ow_text w \<noteq> []"
    using that assms by (auto simp: responses_terminal_events_def responses_track_def)
  have calls: "list_ex call_event (pre @ ?out)" if "ow_client_calls w \<noteq> []"
  proof (cases "unstreamed_calls st (ow_client_calls w) = []")
    case True
    then have "rss_streamed_tool_ids st \<noteq> []"
      using that by (cases "ow_client_calls w") (auto simp: unstreamed_calls_def)
    then show ?thesis using assms by (simp add: responses_track_def)
  next
    case False
    then obtain c cs where "unstreamed_calls st (ow_client_calls w) = c # cs" by (cases "unstreamed_calls st (ow_client_calls w)") auto
    then show ?thesis
      by (auto simp: responses_terminal_events_def call_delta_def enumerate_simps)
  qed
  show ?thesis
    using texts calls by (cases "response_kind w") (auto simp: backed_def last response_kind_def split: if_splits)
qed

interpretation openai: backing_contract "openai_adapter parse print why estimate provider requested_model" responses_track
proof unfold_locales
  show "responses_track (sa_init (openai_adapter parse print why estimate provider requested_model)) []"
    by (simp add: openai_adapter_def responses_track_def responses_stream_state_default_def)
next
  fix ev st out fin st'
  assume "sa_event (openai_adapter parse print why estimate provider requested_model) ev st = Inr (out, fin, st')"
  then show "if fin then finishes out else unfinished out"
    by (auto simp: openai_adapter_def openai_stream_event_def openai_terminal_events_def Let_def
        intro: responses_terminal_finishes dest!: responses_event_shape
        split: if_splits sum.splits option.splits)
next
  fix st :: responses_stream_state and pre ev out st'
  assume track: "responses_track st pre"
    and event: "sa_event (openai_adapter parse print why estimate provider requested_model) ev st = Inr (out, False, st')"
  then show "responses_track st' (pre @ out)"
    using responses_event_tracks [OF _ track]
    by (auto simp: openai_adapter_def openai_stream_event_def split: if_splits sum.splits)
next
  fix st :: responses_stream_state and pre ev out st'
  assume track: "responses_track st pre"
    and event: "sa_event (openai_adapter parse print why estimate provider requested_model) ev st = Inr (out, True, st')"
  then obtain response where
    "openai_terminal_events parse print why estimate provider requested_model response st = Inr out"
    by (auto simp: openai_adapter_def openai_stream_event_def dest: responses_event_finished split: if_splits sum.splits)
  then show "backed (pre @ out)"
    using responses_terminal_backed [OF track] by (auto simp: openai_terminal_events_def Let_def split: option.splits)
qed (simp_all add: openai_adapter_def)

end
