(* ===== verification/Api_Tool_Schema.thy ===== *)
theory Api_Tool_Schema
  imports Api_Tool
begin

text \<open>
  The provider-neutral JSON Schema of a tool's input: the \<open>Serialize\<close> derives of \<open>chudbot-api/src/tool.rs\<close>.
  Absent options and empty lists are skipped as the attributes say, and the flattened kind contributes its
  own members.
\<close>

definition opt_field :: "string \<Rightarrow> ('a \<Rightarrow> json) \<Rightarrow> 'a option \<Rightarrow> (string \<times> json) list" where
  "opt_field k f x = (case x of None \<Rightarrow> [] | Some v \<Rightarrow> [(k, f v)])"

definition list_field :: "string \<Rightarrow> ('a \<Rightarrow> json) \<Rightarrow> 'a list \<Rightarrow> (string \<times> json) list" where
  "list_field k f xs = (if xs = [] then [] else [(k, JArray (map f xs))])"

definition json_usize :: "nat \<Rightarrow> json" where
  "json_usize n = JNumber (dec_digits n)"

fun value_type_name :: "tool_input_value_type \<Rightarrow> string" where
  "value_type_name StringType = ''string''"
| "value_type_name IntegerType = ''integer''"
| "value_type_name NumberType = ''number''"
| "value_type_name BooleanType = ''boolean''"
| "value_type_name ArrayType = ''array''"

fun value_schema_json :: "tool_input_value_schema \<Rightarrow> json"
  and value_kind_members :: "tool_input_value_kind \<Rightarrow> (string \<times> json) list" where
  "value_schema_json (ToolInputValueSchema kind description enum_values dflt minimum maximum exclusive_minimum
       min_length max_length min_items max_items) =
     json_object (value_kind_members kind
       @ opt_field ''description'' JString description @ list_field ''enum'' JString enum_values
       @ opt_field ''default'' (\<lambda>v. v) dflt @ opt_field ''minimum'' (\<lambda>v. v) minimum
       @ opt_field ''maximum'' (\<lambda>v. v) maximum @ opt_field ''exclusiveMinimum'' (\<lambda>v. v) exclusive_minimum
       @ opt_field ''minLength'' json_usize min_length @ opt_field ''maxLength'' json_usize max_length
       @ opt_field ''minItems'' json_usize min_items @ opt_field ''maxItems'' json_usize max_items)"
| "value_kind_members (Typed schema_type None) = [(''type'', JString (value_type_name schema_type))]"
| "value_kind_members (Typed schema_type (Some items)) =
     [(''type'', JString (value_type_name schema_type)), (''items'', value_schema_json items)]"
| "value_kind_members (AnyOf any_of) = [(''anyOf'', JArray (map value_schema_json any_of))]"

definition tool_input_json_schema :: "tool_input_schema \<Rightarrow> json" where
  "tool_input_json_schema s =
     json_object ([(''type'', JString ''object''),
       (''properties'', JObject (map (\<lambda>(k, v). (k, value_schema_json v)) (ts_properties s)))]
       @ list_field ''required'' JString (ts_required s)
       @ [(''additionalProperties'', JBool (ts_additional_properties s))])"

lemma json_get_json_object_append:
  "json_get (json_object (xs @ ys)) k = (case json_get (json_object ys) k of None \<Rightarrow> json_get (json_object xs) k | v \<Rightarrow> v)"
  by (auto simp: json_get_object map_add_def split: option.splits)

text \<open>The advertised schema is that of a strict object whose required members are those of its fields.\<close>

lemma schema_object_fields:
  "foldl schema_object_step acc fs =
     (fold (\<lambda>f. btm_insert (tif_name f) (tif_schema f)) fs (fst acc),
      snd acc @ map tif_name (filter tif_required fs))"
  by (induction fs arbitrary: acc) (auto simp: schema_object_step_def)

lemma strict_schema_json:
  "json_get (tool_input_json_schema (schema_object fs)) ''additionalProperties'' = Some (JBool False)
   \<and> json_get (tool_input_json_schema (schema_object fs)) ''required'' =
       (if filter tif_required fs = [] then None
        else Some (JArray (map (\<lambda>f. JString (tif_name f)) (filter tif_required fs))))"
  by (simp add: tool_input_json_schema_def schema_object_def schema_object_fields json_get_object list_field_def
      filter_empty_conv)

end
