(* ===== verification/Provider_Request.thy ===== *)
theory Provider_Request
  imports Provider_Responses Api_Tool_Schema
begin

text \<open>
  What the adapters share when they render a request: image references with their errors, tool results as
  text, objects without null members, and the token limits of model listings.
\<close>

section \<open>Images\<close>

text \<open>A media backend is its two answers; errors are their messages.\<close>

record media_backend =
  mb_embedded :: "media_ref \<Rightarrow> string + embedded_media_base64"
  mb_public_url :: "media_ref \<Rightarrow> string + string"

definition no_media :: media_backend where
  "no_media = \<lparr>mb_embedded = (\<lambda>_. Inl ''no bytes''), mb_public_url = (\<lambda>_. Inl ''no URL'')\<rparr>"

fun image_reference_error_message :: "string image_reference_error \<Rightarrow> string" where
  "image_reference_error_message (ImagesDisabled uri) = ''image inputs are disabled for media `'' @ uri @ ''`''"
| "image_reference_error_message (EmbeddedBase64Unavailable uri encode_error public_error) =
     ''media `'' @ uri @ ''` could not be base64-encoded ('' @ encode_error @ '') and has no public URL ('' @ public_error @ '')''"
| "image_reference_error_message (PublicUrlUnavailable uri public_error encode_error) =
     ''media `'' @ uri @ ''` has no public URL ('' @ public_error @ '') and could not be base64-encoded ('' @ encode_error @ '')''"

definition image_reference ::
  "media_backend \<Rightarrow> media_ref \<Rightarrow> image_encoding \<Rightarrow> provider_error + model_image_reference" where
  "image_reference mb media encoding =
     (case resolve_image_reference (mb_embedded mb) (mb_public_url mb) media encoding of
        Inl e \<Rightarrow> Inl (ReferenceError (image_reference_error_message e))
      | Inr r \<Rightarrow> Inr r)"

definition media_mime :: "media_ref \<Rightarrow> string" where
  "media_mime media = mm_mime_type (media_metadata_of media)"

definition media_uri_of :: "media_ref \<Rightarrow> string" where
  "media_uri_of media = mm_uri (media_metadata_of media)"

section \<open>JSON\<close>

definition json_strip_nulls :: "json \<Rightarrow> json" where
  "json_strip_nulls v = (case v of JObject m \<Rightarrow> JObject (filter (\<lambda>e. \<not> json_is_null (snd e)) m) | _ \<Rightarrow> v)"

definition json_opt :: "('a \<Rightarrow> json) \<Rightarrow> 'a option \<Rightarrow> json" where
  "json_opt f x = (case x of None \<Rightarrow> JNull | Some v \<Rightarrow> f v)"

definition merge_extra_body :: "json \<Rightarrow> (string, json) btree_map \<Rightarrow> json" where
  "merge_extra_body body extra =
     (case body of JObject m \<Rightarrow> JObject (fold (\<lambda>(k, v). btm_insert k v) extra m) | _ \<Rightarrow> body)"

definition client_tool_result_as_string :: "(json \<Rightarrow> string) \<Rightarrow> client_tool_result \<Rightarrow> string" where
  "client_tool_result_as_string print result =
     (case ctr_content result of ResultJson v \<Rightarrow> print v | ResultText text \<Rightarrow> text)"

section \<open>Model listings\<close>

record model_info =
  mi_id :: model_id
  mi_context_window_tokens :: "u64 option"
  mi_max_output_tokens :: "u64 option"
  mi_raw :: "json option"

fun value_as_u64 :: "json \<Rightarrow> u64 option" where
  "value_as_u64 (JNumber n) = parse_u64 n"
| "value_as_u64 (JString text) = parse_u64 text"
| "value_as_u64 _ = None"

fun find_map :: "('a \<Rightarrow> 'b option) \<Rightarrow> 'a list \<Rightarrow> 'b option" where
  "find_map f [] = None"
| "find_map f (x # xs) = (case f x of None \<Rightarrow> find_map f xs | Some y \<Rightarrow> Some y)"

text \<open>The first of the names, here or in a nested object, in key order.\<close>

fun find_u64_field :: "string list \<Rightarrow> json \<Rightarrow> u64 option"
  and find_u64_members :: "string list \<Rightarrow> (string \<times> json) list \<Rightarrow> u64 option" where
  "find_u64_field names (JObject m) =
     (case find_map (\<lambda>name. Option.bind (btm_get m name) value_as_u64) names of
        Some n \<Rightarrow> Some n
      | None \<Rightarrow> find_u64_members names m)"
| "find_u64_field names _ = None"
| "find_u64_members names [] = None"
| "find_u64_members names ((k, v) # m) =
     (case find_u64_field names v of Some n \<Rightarrow> Some n | None \<Rightarrow> find_u64_members names m)"

definition model_info_from_limits :: "string list \<Rightarrow> string list \<Rightarrow> model_id \<Rightarrow> json \<Rightarrow> model_info option" where
  "model_info_from_limits context_fields output_fields requested_model raw =
     (let context_window = find_u64_field context_fields raw; max_output = find_u64_field output_fields raw in
      if context_window = None \<and> max_output = None then None
      else Some \<lparr>mi_id = unwrap_or (nonempty_str (json_str_field raw ''id'')) requested_model,
        mi_context_window_tokens = context_window, mi_max_output_tokens = max_output, mi_raw = Some raw\<rparr>)"

definition openai_context_fields :: "string list" where
  "openai_context_fields = [''context_window_tokens'', ''context_window'', ''context_length'', ''max_context_length'',
     ''max_context_len'', ''max_input_tokens'', ''input_token_limit'', ''max_model_len'']"

definition openai_output_fields :: "string list" where
  "openai_output_fields = [''max_output_tokens'', ''max_completion_tokens'', ''output_token_limit'', ''max_tokens'']"

definition model_info_from_openai_model :: "model_id \<Rightarrow> json \<Rightarrow> model_info option" where
  "model_info_from_openai_model = model_info_from_limits openai_context_fields openai_output_fields"

definition xai_context_fields :: "string list" where
  "xai_context_fields = [''context_window_tokens'', ''context_window'', ''context_length'', ''max_context_length'',
     ''max_context_len'', ''max_model_len'', ''max_sequence_length'', ''max_position_embeddings'']"

definition model_id_matches :: "json \<Rightarrow> model_id \<Rightarrow> bool" where
  "model_id_matches v requested_model \<longleftrightarrow> json_str_field v ''id'' = Some requested_model"

definition model_entry_from_models_response :: "model_id \<Rightarrow> json \<Rightarrow> json option" where
  "model_entry_from_models_response requested_model raw =
     (if model_id_matches raw requested_model then Some raw
      else Option.bind (Option.bind (json_get raw ''data'') json_as_array) (\<lambda>entries.
        or_else (List.find (\<lambda>entry. model_id_matches entry requested_model) entries)
          (case entries of [entry] \<Rightarrow> Some entry | _ \<Rightarrow> None)))"

definition xai_model_info_from_models_response :: "model_id \<Rightarrow> json \<Rightarrow> model_info option" where
  "xai_model_info_from_models_response requested_model raw =
     Option.bind (model_entry_from_models_response requested_model raw)
       (model_info_from_limits xai_context_fields openai_output_fields requested_model)"

definition compat_model_info_from_models_response :: "model_id \<Rightarrow> json \<Rightarrow> model_info option" where
  "compat_model_info_from_models_response requested_model raw =
     Option.bind (model_entry_from_models_response requested_model raw)
       (model_info_from_limits (xai_context_fields @ [''n_ctx'']) openai_output_fields requested_model)"

definition model_info_from_anthropic_model :: "model_id \<Rightarrow> json \<Rightarrow> model_info" where
  "model_info_from_anthropic_model requested_model raw =
     \<lparr>mi_id = unwrap_or (nonempty_str (json_str_field raw ''id'')) requested_model,
      mi_context_window_tokens = Option.bind (json_get raw ''max_input_tokens'') value_as_u64,
      mi_max_output_tokens = Option.bind (json_get raw ''max_tokens'') value_as_u64, mi_raw = Some raw\<rparr>"

end
