(* ===== verification/Provider_Anthropic_Request.thy ===== *)
theory Provider_Anthropic_Request
  imports Provider_Anthropic Provider_Request "HOL-Library.Multiset"
begin

text \<open>
  The request side of \<open>chudbot-anthropic/src/llm.rs\<close>: the transcript as Messages API input with the placement
  of mid-conversation system turns, the tool declarations and the request body.
\<close>

section \<open>Blocks\<close>

definition anthropic_media_source :: "media_backend \<Rightarrow> media_ref \<Rightarrow> image_encoding \<Rightarrow> provider_error + json" where
  "anthropic_media_source mb media encoding =
     (if \<not> starts_with (media_mime media) ''image/''
      then Inl (ReferenceError (''media `'' @ media_uri_of media @ ''` has MIME type `'' @ media_mime media
        @ ''`, but Anthropic Messages accepts image media here''))
      else case image_reference mb media encoding of
        Inl e \<Rightarrow> Inl e
      | Inr (RefEmbeddedBase64 d) \<Rightarrow>
          Inr (json_object [(''type'', JString ''base64''), (''media_type'', JString (emb_mime_type d)),
            (''data'', JString (emb_base64 d))])
      | Inr (RefPublicUrl url) \<Rightarrow> Inr (json_object [(''type'', JString ''url''), (''url'', JString url)]))"

definition tool_result_block :: "(json \<Rightarrow> string) \<Rightarrow> client_tool_result \<Rightarrow> json" where
  "tool_result_block print result =
     json_object ([(''type'', JString ''tool_result''), (''tool_use_id'', JString (ctr_tool_use_id result)),
       (''content'', JString (client_tool_result_as_string print result))]
       @ (if ctr_is_error result then [(''is_error'', JBool True)] else []))"

fun continuation_items :: "provider_name \<Rightarrow> content_block \<Rightarrow> json list" where
  "continuation_items provider (BlockContinuation c) =
     (if pc_provider c = provider then (case pc_data c of JArray items \<Rightarrow> items | v \<Rightarrow> [v]) else [])"
| "continuation_items provider _ = []"

definition provider_continuation_content :: "transcript_turn \<Rightarrow> provider_name \<Rightarrow> json list" where
  "provider_continuation_content turn provider = concat (map (continuation_items provider) (tt_blocks turn))"

fun anthropic_block ::
  "(json \<Rightarrow> string) \<Rightarrow> media_backend \<Rightarrow> image_encoding \<Rightarrow> content_block \<Rightarrow> provider_error + json list" where
  "anthropic_block print mb encoding (BlockText text) =
     Inr (if text = [] then [] else [json_object [(''type'', JString ''text''), (''text'', JString text)]])"
| "anthropic_block print mb encoding (BlockMedia media) =
     (case anthropic_media_source mb media encoding of
        Inl e \<Rightarrow> Inl e
      | Inr source \<Rightarrow> Inr [json_object [(''type'', JString ''image''), (''source'', source)]])"
| "anthropic_block print mb encoding (BlockClientToolCall call) =
     Inr [json_object [(''type'', JString ''tool_use''), (''id'', JString (ctc_id call)), (''name'', JString (ctc_name call)),
       (''input'', ctc_input call)]]"
| "anthropic_block print mb encoding (BlockClientToolResult result) = Inr [tool_result_block print result]"
| "anthropic_block print mb encoding (BlockContinuation _) = Inr []"

definition anthropic_content_for_turn ::
  "(json \<Rightarrow> string) \<Rightarrow> media_backend \<Rightarrow> provider_name \<Rightarrow> image_encoding \<Rightarrow> transcript_turn
    \<Rightarrow> provider_error + json list" where
  "anthropic_content_for_turn print mb provider encoding turn =
     (let content = provider_continuation_content turn provider in
      if content \<noteq> [] then Inr content
      else case try_map (anthropic_block print mb encoding) (tt_blocks turn) of
        Inl e \<Rightarrow> Inl e
      | Inr blocks \<Rightarrow> Inr (concat blocks))"

section \<open>Messages\<close>

definition anthropic_message :: "string \<Rightarrow> json list \<Rightarrow> json" where
  "anthropic_message role content = json_object [(''role'', JString role), (''content'', JArray content)]"

definition strip_compact_date_suffix :: "string \<Rightarrow> string option" where
  "strip_compact_date_suffix model =
     (if length model < 9 then None
      else let start = length model - 9 in
        if \<not> is_char_boundary model start then None
        else let suffix = drop start model in
          if hd suffix = CHR ''-'' \<and> list_all is_ascii_digit (tl suffix) then Some (take start model) else None)"

definition supports_native_mid_conversation_system :: "model_id \<Rightarrow> bool" where
  "supports_native_mid_conversation_system model \<longleftrightarrow>
     unwrap_or (strip_compact_date_suffix model) model
       \<in> {''claude-opus-4-8'', ''claude-opus-4.8'', ''opus-4-8'', ''opus-4.8''}"

definition assistant_message_ends_with_server_tool_use :: "json \<Rightarrow> bool" where
  "assistant_message_ends_with_server_tool_use message \<longleftrightarrow>
     Option.bind (Option.bind (Option.bind (json_get message ''content'') json_as_array) last_opt)
       (\<lambda>block. json_str_field block ''type'') = Some ''server_tool_use''"

definition can_append_anthropic_system_message :: "json list \<Rightarrow> bool" where
  "can_append_anthropic_system_message messages =
     (case last_opt messages of
        None \<Rightarrow> False
      | Some previous \<Rightarrow>
          (case json_str_field previous ''role'' of
             None \<Rightarrow> False
           | Some role \<Rightarrow>
               if role = ''user'' then True
               else if role = ''assistant'' then assistant_message_ends_with_server_tool_use previous
               else False))"

definition flush_anthropic_system_content :: "json list \<times> json list \<Rightarrow> json list \<times> json list" where
  "flush_anthropic_system_content acc =
     (case acc of (messages, pending) \<Rightarrow>
        if pending = [] then (messages, pending)
        else (messages @ [anthropic_message
          (if can_append_anthropic_system_message messages then ''system'' else ''user'') pending], []))"

text \<open>One turn with its rendered content: messages and the system content that waits for its place.\<close>

definition place_anthropic_turn ::
  "bool \<Rightarrow> turn_role \<Rightarrow> json list \<Rightarrow> json list \<times> json list \<Rightarrow> json list \<times> json list" where
  "place_anthropic_turn native role content acc =
     (if content = [] then acc
      else case role of
        System \<Rightarrow>
          if native then (fst acc, snd acc @ content)
          else (fst acc @ [anthropic_message ''user'' content], snd acc)
      | User \<Rightarrow> (fst acc @ [anthropic_message ''user'' content], snd acc)
      | Assistant \<Rightarrow>
          (let acc = (if native then flush_anthropic_system_content acc else acc) in
           (fst acc @ [anthropic_message ''assistant'' content], snd acc)))"

definition anthropic_turn ::
  "(json \<Rightarrow> string) \<Rightarrow> media_backend \<Rightarrow> provider_name \<Rightarrow> image_encoding \<Rightarrow> bool
    \<Rightarrow> json list \<times> json list \<Rightarrow> transcript_turn \<Rightarrow> provider_error + json list \<times> json list" where
  "anthropic_turn print mb provider encoding native acc turn =
     (case anthropic_content_for_turn print mb provider encoding turn of
        Inl e \<Rightarrow> Inl e
      | Inr content \<Rightarrow> Inr (place_anthropic_turn native (tt_role turn) content acc))"

definition to_anthropic_messages ::
  "(json \<Rightarrow> string) \<Rightarrow> media_backend \<Rightarrow> transcript \<Rightarrow> provider_name \<Rightarrow> model_id \<Rightarrow> image_encoding
    \<Rightarrow> provider_error + json option \<times> json list" where
  "to_anthropic_messages print mb t provider model encoding =
     (let native = supports_native_mid_conversation_system model;
          system = map_option (\<lambda>instructions. JArray [json_object [(''type'', JString ''text''),
            (''text'', JString instructions),
            (''cache_control'', json_object [(''type'', JString ''ephemeral'')])]]) (leading_system_text t)
      in case try_fold (anthropic_turn print mb provider encoding native) ([], [])
           (drop (leading_system_turn_count t) (t_turns t)) of
        Inl e \<Rightarrow> Inl e
      | Inr acc \<Rightarrow> Inr (system, fst (if native then flush_anthropic_system_content acc else acc)))"

section \<open>The request body\<close>

definition build_messages_tools ::
  "(tool_name, client_tool_spec) btree_map \<Rightarrow> server_tool_set \<Rightarrow> json list" where
  "build_messages_tools client_tools server_tools =
     map (\<lambda>(name, tool). json_object [(''name'', JString name), (''description'', JString (cts_description tool)),
         (''input_schema'', tool_input_json_schema (cts_input_schema tool))]) client_tools
     @ (if ''web_search'' \<in> set server_tools
        then [json_object [(''type'', JString ''web_search_20250305''), (''name'', JString web_search_tool_name),
          (''max_uses'', JNumber ''5'')]]
        else [])"

record anthropic_options =
  ao_thinking :: "json option"
  ao_effort :: "string option"

text \<open>Options that do not decode are ignored.\<close>

definition anthropic_options_from_request :: "model_step_request \<Rightarrow> anthropic_options" where
  "anthropic_options_from_request request =
     unwrap_or (Option.bind (req_provider_options request) (\<lambda>v.
       Option.bind (struct_values [[''thinking''], [''effort'']] v) (\<lambda>vs.
       map_option (\<lambda>effort. \<lparr>ao_thinking = default_value (vs ! 0), ao_effort = effort\<rparr>) (default_string (vs ! 1)))))
     \<lparr>ao_thinking = None, ao_effort = None\<rparr>"

definition mark_last_block_ephemeral :: "json list \<Rightarrow> json list" where
  "mark_last_block_ephemeral messages =
     (case last_opt messages of
        Some (JObject message) \<Rightarrow>
          (case btm_get message ''content'' of
             Some (JArray content) \<Rightarrow>
               (case last_opt content of
                  Some (JObject block) \<Rightarrow>
                    butlast messages @ [JObject (btm_insert ''content'' (JArray (butlast content
                      @ [JObject (btm_insert ''cache_control'' (json_object [(''type'', JString ''ephemeral'')]) block)]))
                      message)]
                | _ \<Rightarrow> messages)
           | _ \<Rightarrow> messages)
      | _ \<Rightarrow> messages)"

definition json_u32 :: "u32 \<Rightarrow> json" where
  "json_u32 n = JNumber (dec_digits (unat n))"

definition anthropic_request ::
  "model_step_request \<Rightarrow> json option \<Rightarrow> json list \<Rightarrow> json list \<Rightarrow> anthropic_options \<Rightarrow> json" where
  "anthropic_request request system messages declared options =
     json_object ([(''model'', JString (req_model request)),
         (''max_tokens'', json_u32 (unwrap_or (so_max_output_tokens (req_sampling request)) 4096)),
         (''messages'', JArray messages)]
       @ opt_field ''system'' (\<lambda>v. v) system @ list_field ''tools'' (\<lambda>v. v) declared
       @ opt_field ''temperature'' JNumber (so_temperature (req_sampling request))
       @ opt_field ''top_p'' JNumber (so_top_p (req_sampling request))
       @ opt_field ''thinking'' (\<lambda>v. v) (ao_thinking options) @ opt_field ''effort'' JString (ao_effort options)
       @ [(''stream'', JBool True)])"

definition anthropic_step_body ::
  "(json \<Rightarrow> string) \<Rightarrow> media_backend \<Rightarrow> provider_name \<Rightarrow> model_step_request \<Rightarrow> provider_error + json" where
  "anthropic_step_body print mb provider request =
     (case to_anthropic_messages print mb (req_transcript request) provider (req_model request) (req_image_encoding request) of
        Inl e \<Rightarrow> Inl e
      | Inr (system, messages) \<Rightarrow>
          Inr (anthropic_request request system (mark_last_block_ephemeral messages)
            (build_messages_tools (req_client_tools request) (req_server_tools request))
            (anthropic_options_from_request request)))"

section \<open>Placement\<close>

definition message_role :: "json \<Rightarrow> string" where
  "message_role m = unwrap_or (json_str_field m ''role'') []"

definition message_blocks :: "json \<Rightarrow> json list" where
  "message_blocks m = unwrap_or (Option.bind (json_get m ''content'') json_as_array) []"

lemma anthropic_message_simps [simp]:
  "json_str_field (anthropic_message role content) ''role'' = Some role"
  "message_role (anthropic_message role content) = role"
  "message_blocks (anthropic_message role content) = content"
  by (simp_all add: anthropic_message_def message_role_def message_blocks_def json_str_field_def json_get_object)

text \<open>
  Where the API accepts a system message: after a user message, or after an assistant message that ends with a
  server tool use; and what follows it is an assistant message.
\<close>

definition may_precede_system :: "json list \<Rightarrow> bool" where
  "may_precede_system before \<longleftrightarrow> before \<noteq> [] \<and>
     (message_role (last before) = ''user''
      \<or> (message_role (last before) = ''assistant'' \<and> assistant_message_ends_with_server_tool_use (last before)))"

definition system_placed :: "json list \<Rightarrow> bool" where
  "system_placed messages \<longleftrightarrow>
     (\<forall>before m after. messages = before @ m # after \<and> message_role m = ''system'' \<longrightarrow>
        may_precede_system before \<and> (after = [] \<or> message_role (hd after) = ''assistant''))"

lemma may_append_iff: "can_append_anthropic_system_message messages \<Longrightarrow> may_precede_system messages"
  by (auto simp: can_append_anthropic_system_message_def may_precede_system_def message_role_def last_opt_def
      split: option.splits if_splits)

lemma system_placed_Nil [simp]: "system_placed []"
  by (simp add: system_placed_def)

lemma system_placed_snoc:
  assumes "system_placed messages"
    and "message_role m = ''system'' \<Longrightarrow> may_precede_system messages"
    and "message_role m = ''assistant'' \<or> messages = [] \<or> message_role (last messages) \<noteq> ''system''"
  shows "system_placed (messages @ [m])"
  unfolding system_placed_def
proof (intro allI impI)
  fix before x after
  assume split: "messages @ [m] = before @ x # after \<and> message_role x = ''system''"
  show "may_precede_system before \<and> (after = [] \<or> message_role (hd after) = ''assistant'')"
  proof (cases after rule: rev_cases)
    case Nil
    with split assms(2) show ?thesis by auto
  next
    case (snoc ys y)
    then have messages: "messages = before @ x # ys" and y: "y = m" using split by auto
    then have placed: "may_precede_system before" "ys = [] \<or> message_role (hd ys) = ''assistant''"
      using assms(1) split unfolding system_placed_def by blast+
    show ?thesis
    proof (cases ys)
      case Nil
      then show ?thesis using placed(1) assms(3) split messages snoc y by auto
    qed (use placed snoc in auto)
  qed
qed

text \<open>The accumulator: placed messages that end with no system message while content is waiting or not.\<close>

definition placing :: "json list \<times> json list \<Rightarrow> bool" where
  "placing acc \<longleftrightarrow> system_placed (fst acc) \<and> (fst acc = [] \<or> message_role (last (fst acc)) \<noteq> ''system'')"

lemma flush_placed:
  assumes "placing acc"
  shows "system_placed (fst (flush_anthropic_system_content acc))"
  using assms
  by (cases acc)
    (auto simp: flush_anthropic_system_content_def placing_def intro!: system_placed_snoc dest: may_append_iff)

lemma place_turn_placing:
  assumes "placing acc"
  shows "placing (place_anthropic_turn native role content acc)"
proof -
  have user: "placing (fst acc @ [anthropic_message ''user'' content], pending)" for pending
    using assms by (auto simp: placing_def intro!: system_placed_snoc)
  have assistant: "placing (fst acc' @ [anthropic_message ''assistant'' content], pending)"
    if "system_placed (fst acc')" for acc' pending
    using that by (auto simp: placing_def intro!: system_placed_snoc)
  have waiting: "placing (fst acc, pending)" for pending
    using assms by (simp add: placing_def)
  show ?thesis
    using assms user waiting assistant [of acc] assistant [OF flush_placed [OF assms]]
    by (cases role) (auto simp: place_anthropic_turn_def Let_def placing_def)
qed

lemma anthropic_turns_placing:
  assumes "try_fold (anthropic_turn print mb provider encoding native) acc turns = Inr acc'" and "placing acc"
  shows "placing acc'"
proof (rule try_fold_invariant [where P = placing, OF assms])
  fix acc turn acc'
  assume "placing acc" "anthropic_turn print mb provider encoding native acc turn = Inr acc'"
  then show "placing acc'"
    using place_turn_placing [of acc native "tt_role turn"] by (simp add: anthropic_turn_def split: sum.splits) blast
qed

text \<open>
  Mid-conversation system messages are where the API accepts them. Whatever the transcript, each system
  message of a rendered request follows a user message (or an assistant message that ends with a server tool
  use) and is followed by an assistant message or ends the request.
\<close>

theorem anthropic_system_messages_placed:
  assumes "to_anthropic_messages print mb t provider model encoding = Inr (system, messages)"
  shows "system_placed messages"
proof -
  let ?native = "supports_native_mid_conversation_system model"
  obtain acc where acc: "try_fold (anthropic_turn print mb provider encoding ?native) ([], [])
      (drop (leading_system_turn_count t) (t_turns t)) = Inr acc"
    and messages: "messages = fst (if ?native then flush_anthropic_system_content acc else acc)"
    using assms by (auto simp: to_anthropic_messages_def Let_def split: sum.splits)
  have "placing acc" using anthropic_turns_placing [OF acc] by (simp add: placing_def)
  then show ?thesis using flush_placed by (auto simp: messages placing_def)
qed

section \<open>Conservation\<close>

definition placed_blocks :: "json list \<times> json list \<Rightarrow> json list" where
  "placed_blocks acc = concat (map message_blocks (fst acc)) @ snd acc"

definition assistant_contents :: "json list \<Rightarrow> json list list" where
  "assistant_contents messages = map message_blocks (filter (\<lambda>m. message_role m = ''assistant'') messages)"

lemma flush_blocks:
  "placed_blocks (flush_anthropic_system_content acc) = placed_blocks acc"
  "snd (flush_anthropic_system_content acc) = []"
  "assistant_contents (fst (flush_anthropic_system_content acc)) = assistant_contents (fst acc)"
  by (cases acc; simp add: flush_anthropic_system_content_def placed_blocks_def assistant_contents_def)+

lemma place_turn_blocks:
  "mset (placed_blocks (place_anthropic_turn native role content acc)) = mset (placed_blocks acc) + mset content"
  "assistant_contents (fst (place_anthropic_turn native role content acc)) = assistant_contents (fst acc)
     @ (if role = Assistant \<and> content \<noteq> [] then [content] else [])"
  "\<not> native \<and> snd acc = [] \<longrightarrow> snd (place_anthropic_turn native role content acc) = []"
  using flush_blocks [of acc]
  by (cases role; auto simp: place_anthropic_turn_def placed_blocks_def assistant_contents_def Let_def)+

definition turn_assistant_contents :: "(transcript_turn \<times> json list) list \<Rightarrow> json list list" where
  "turn_assistant_contents rendered =
     filter (\<lambda>content. content \<noteq> []) (map snd (filter (\<lambda>e. tt_role (fst e) = Assistant) rendered))"

lemma turns_conserved:
  assumes "try_fold (anthropic_turn print mb provider encoding native) acc turns = Inr acc'"
  shows "\<exists>contents. try_map (anthropic_content_for_turn print mb provider encoding) turns = Inr contents
    \<and> mset (placed_blocks acc') = mset (placed_blocks acc) + mset (concat contents)
    \<and> assistant_contents (fst acc') = assistant_contents (fst acc) @ turn_assistant_contents (zip turns contents)
    \<and> (\<not> native \<and> snd acc = [] \<longrightarrow> snd acc' = [])"
  using assms
proof (induction turns arbitrary: acc)
  case (Cons turn turns)
  obtain acc1 where step: "anthropic_turn print mb provider encoding native acc turn = Inr acc1"
    and rest1: "try_fold (anthropic_turn print mb provider encoding native) acc1 turns = Inr acc'"
    using Cons.prems by (auto split: sum.splits)
  then obtain content where content: "anthropic_content_for_turn print mb provider encoding turn = Inr content"
    and acc1: "acc1 = place_anthropic_turn native (tt_role turn) content acc"
    by (auto simp: anthropic_turn_def split: sum.splits)
  note rest = rest1 [unfolded acc1]
  obtain contents where "try_map (anthropic_content_for_turn print mb provider encoding) turns = Inr contents"
    "mset (placed_blocks acc') = mset (placed_blocks acc) + mset content + mset (concat contents)"
    "assistant_contents (fst acc') = assistant_contents (fst acc)
      @ (if tt_role turn = Assistant \<and> content \<noteq> [] then [content] else [])
      @ turn_assistant_contents (zip turns contents)"
    "\<not> native \<and> snd acc = [] \<longrightarrow> snd acc' = []"
    using Cons.IH [OF rest] place_turn_blocks [where native = native and role = "tt_role turn" and content = content and acc = acc]
    by (force simp del: not_ex)
  then show ?case
    using content by (intro exI [of _ "content # contents"]) (auto simp: turn_assistant_contents_def)
qed (simp add: turn_assistant_contents_def)

text \<open>
  Rendering loses and invents nothing. The blocks of the rendered messages are, counted, those of the turns
  after the hoisted ones (only waiting system content changes its position), and the assistant messages carry
  the contents of the assistant turns, in transcript order and unmerged.
\<close>

theorem anthropic_messages_conserve_blocks:
  assumes "to_anthropic_messages print mb t provider model encoding = Inr (system, messages)"
  shows "\<exists>contents. try_map (anthropic_content_for_turn print mb provider encoding)
        (drop (leading_system_turn_count t) (t_turns t)) = Inr contents
    \<and> mset (concat (map message_blocks messages)) = mset (concat contents)
    \<and> assistant_contents messages
      = turn_assistant_contents (zip (drop (leading_system_turn_count t) (t_turns t)) contents)"
proof -
  let ?native = "supports_native_mid_conversation_system model"
  obtain acc where acc: "try_fold (anthropic_turn print mb provider encoding ?native) ([], [])
      (drop (leading_system_turn_count t) (t_turns t)) = Inr acc"
    and messages: "messages = fst (if ?native then flush_anthropic_system_content acc else acc)"
    using assms by (auto simp: to_anthropic_messages_def Let_def split: sum.splits)
  obtain contents where contents: "try_map (anthropic_content_for_turn print mb provider encoding)
      (drop (leading_system_turn_count t) (t_turns t)) = Inr contents"
    "mset (placed_blocks acc) = mset (concat contents)"
    "assistant_contents (fst acc)
      = turn_assistant_contents (zip (drop (leading_system_turn_count t) (t_turns t)) contents)"
    "\<not> ?native \<longrightarrow> snd acc = []"
    using turns_conserved [OF acc] by (auto simp: placed_blocks_def assistant_contents_def)
  have "concat (map message_blocks messages) = placed_blocks acc"
    using flush_blocks(1,2) [of acc] contents(4) by (auto simp: messages placed_blocks_def)
  moreover have "assistant_contents messages = assistant_contents (fst acc)"
    using flush_blocks(3) [of acc] by (simp add: messages)
  ultimately show ?thesis using contents by auto
qed

definition sample_transcript :: transcript where
  "sample_transcript = \<lparr>t_id = None, t_turns = [turn_text User ''hi'', turn_text System ''note'',
     turn_text User ''go'', turn_text Assistant ''ok'']\<rparr>"

definition sample_rendered :: "json list" where
  "sample_rendered = [anthropic_message ''user'' [json_object [(''type'', JString ''text''), (''text'', JString ''hi'')]],
     anthropic_message ''user'' [json_object [(''type'', JString ''text''), (''text'', JString ''go'')]],
     anthropic_message ''system'' [json_object [(''type'', JString ''text''), (''text'', JString ''note'')]],
     anthropic_message ''assistant'' [json_object [(''type'', JString ''text''), (''text'', JString ''ok'')]]]"

lemma sample_renders:
  "to_anthropic_messages (\<lambda>_. []) mb sample_transcript ''anthropic'' ''opus-4-8'' Disabled = Inr (None, sample_rendered)"
proof -
  have "supports_native_mid_conversation_system ''opus-4-8''"
    by (simp add: supports_native_mid_conversation_system_def strip_compact_date_suffix_def)
  then show ?thesis
    by (simp add: to_anthropic_messages_def sample_transcript_def sample_rendered_def turn_text_def
        leading_system_turn_count_def leading_system_turn_def leading_system_text_def anthropic_turn_def
        anthropic_content_for_turn_def provider_continuation_content_def place_anthropic_turn_def
        flush_anthropic_system_content_def can_append_anthropic_system_message_def last_opt_def Let_def)
qed

theorem anthropic_system_messages_placed_witness: "system_placed sample_rendered"
  by (rule anthropic_system_messages_placed [OF sample_renders [of no_media]])

theorem anthropic_messages_conserve_blocks_witness:
  "assistant_contents sample_rendered = [[json_object [(''type'', JString ''text''), (''text'', JString ''ok'')]]]"
  using anthropic_messages_conserve_blocks [OF sample_renders [of no_media]]
  by (auto simp: sample_transcript_def turn_assistant_contents_def leading_system_turn_count_def leading_system_turn_def
      anthropic_content_for_turn_def provider_continuation_content_def turn_text_def Let_def)

end
