(* ===== verification/Provider_Xai.thy ===== *)
theory Provider_Xai
  imports Provider_Responses
begin

text \<open>
  The stream side of \<open>chudbot-xai/src/llm.rs\<close> where it differs from the OpenAI adapter: the chat completion
  fallback, the terminal response with its citations and reported cost, and the filter on the continuation
  items that can be replayed.
\<close>

section \<open>Usage\<close>

record xai_token_details =
  xtd_cached_tokens :: u64
  xtd_reasoning_tokens :: u64

record xai_usage =
  xu_input_tokens :: u64
  xu_input_tokens_details :: xai_token_details
  xu_output_tokens :: u64
  xu_output_tokens_details :: xai_token_details
  xu_total_tokens :: u64
  xu_cost_in_usd_ticks :: u64

definition xai_details_from_value :: "json option \<Rightarrow> xai_token_details option" where
  "xai_details_from_value v =
     Option.bind (struct_values [[''cached_tokens''], [''reasoning_tokens'']] (unwrap_or v (JObject []))) (\<lambda>vs.
     Option.bind (default_u64 (vs ! 0)) (\<lambda>a.
     map_option (\<lambda>b. \<lparr>xtd_cached_tokens = a, xtd_reasoning_tokens = b\<rparr>) (default_u64 (vs ! 1))))"

text \<open>Each field has the alias of the chat completion format; both names at once are a decode error.\<close>

definition xai_usage_from_value :: "json \<Rightarrow> xai_usage option" where
  "xai_usage_from_value v =
     Option.bind (struct_values [[''input_tokens'', ''prompt_tokens''], [''input_tokens_details'', ''prompt_tokens_details''],
         [''output_tokens'', ''completion_tokens''], [''output_tokens_details'', ''completion_tokens_details''],
         [''total_tokens''], [''cost_in_usd_ticks'']] v) (\<lambda>vs.
     Option.bind (default_u64 (vs ! 0)) (\<lambda>input. Option.bind (xai_details_from_value (vs ! 1)) (\<lambda>input_details.
     Option.bind (default_u64 (vs ! 2)) (\<lambda>output. Option.bind (xai_details_from_value (vs ! 3)) (\<lambda>output_details.
     Option.bind (default_u64 (vs ! 4)) (\<lambda>sum.
     map_option (\<lambda>ticks. \<lparr>xu_input_tokens = input, xu_input_tokens_details = input_details, xu_output_tokens = output,
         xu_output_tokens_details = output_details, xu_total_tokens = sum, xu_cost_in_usd_ticks = ticks\<rparr>)
       (default_u64 (vs ! 5))))))))"

definition usage_from_xai ::
  "provider_name \<Rightarrow> model_id option \<Rightarrow> usage_subject \<Rightarrow> json option \<Rightarrow> usage_record option" where
  "usage_from_xai provider model subject usage =
     Option.bind usage (\<lambda>raw. map_option (\<lambda>parsed.
       \<lparr>ur_provider = provider, ur_model = model, ur_subject = subject,
        ur_input_tokens = Some (xu_input_tokens parsed),
        ur_cached_input_tokens = Some (xtd_cached_tokens (xu_input_tokens_details parsed)),
        ur_output_tokens = Some (xu_output_tokens parsed),
        ur_reasoning_tokens = Some (xtd_reasoning_tokens (xu_output_tokens_details parsed)),
        ur_total_tokens = Some (xu_total_tokens parsed),
        ur_cost = (if xu_cost_in_usd_ticks parsed = 0 then None
          else Some \<lparr>ca_amount = dec_digits (unat (xu_cost_in_usd_ticks parsed)), ca_unit = ''usd_ticks'',
            ca_estimated = False\<rparr>),
        ur_raw = Some raw\<rparr>)
       (xai_usage_from_value raw))"

section \<open>Continuations\<close>

definition is_replayable_encrypted_content :: "string \<Rightarrow> bool" where
  "is_replayable_encrypted_content text \<longleftrightarrow>
     text \<noteq> [] \<and> list_all (\<lambda>b. is_ascii_alphanumeric b \<or> b \<in> set (''+/=-_'' @ [CR, NL])) text"

definition replayable_continuation_item :: "json \<Rightarrow> json option" where
  "replayable_continuation_item item =
     (case json_get item ''encrypted_content'' of
        None \<Rightarrow> Some item
      | Some encrypted \<Rightarrow>
          (case json_as_str encrypted of
             Some text \<Rightarrow> if is_replayable_encrypted_content text then Some item else None
           | None \<Rightarrow> None))"

definition replayable_continuation_items :: "json list \<Rightarrow> json list" where
  "replayable_continuation_items items = List.map_filter replayable_continuation_item items"

definition continuation_from_output :: "provider_name \<Rightarrow> json list \<Rightarrow> provider_continuation option" where
  "continuation_from_output provider output =
     (let items = replayable_continuation_items output in
      if items = [] then None else Some \<lparr>pc_provider = provider, pc_data = JArray items\<rparr>)"

section \<open>The stream\<close>

record xai_stream_state = responses_stream_state +
  xss_chat_seen :: bool
  xss_chat_model :: "model_id option"
  xss_chat_usage :: "json option"

definition xai_stream_state_default :: xai_stream_state where
  "xai_stream_state_default =
     \<lparr>rss_emitted_text_delta = False, rss_emitted_reasoning_delta = False, rss_function_calls = [],
      rss_streamed_tool_ids = [], xss_chat_seen = False, xss_chat_model = None, xss_chat_usage = None\<rparr>"

definition xai_chat_terminal_events :: "provider_name \<Rightarrow> model_id \<Rightarrow> xai_stream_state \<Rightarrow> model_step_event list" where
  "xai_chat_terminal_events provider requested_model st =
     (let model_id = unwrap_or (xss_chat_model st) requested_model in
      (case usage_from_xai provider (Some model_id) ModelStep (xss_chat_usage st) of None \<Rightarrow> [] | Some u \<Rightarrow> [EvUsage u])
      @ [Finished (if rss_emitted_text_delta st then Final else Continue) model_id])"

text \<open>One choice of a chunk: its text and reasoning deltas, and whether it carries a finish reason.\<close>

definition xai_chat_choice ::
  "provider_name \<Rightarrow> json \<Rightarrow> model_step_event list \<times> bool \<times> xai_stream_state
    \<Rightarrow> model_step_event list \<times> bool \<times> xai_stream_state" where
  "xai_chat_choice provider choice acc =
     (case acc of (events, fin, st) \<Rightarrow>
       (let delta = unwrap_or (json_get choice ''delta'') JNull;
            text = nonempty_str (json_str_field delta ''content'');
            reasoning = nonempty_str (Option.bind
              (or_else (json_get delta ''reasoning_content'') (json_get delta ''reasoning'')) json_as_str)
        in (events
              @ (case text of None \<Rightarrow> [] | Some t \<Rightarrow> [Delta (DeltaText ''xai_chat_text'' t)])
              @ (case reasoning of None \<Rightarrow> []
                 | Some t \<Rightarrow> [Delta (DeltaReasoningSummary ''xai_chat_reasoning'' provider (Some ''reasoning_content'') t)]),
            fin \<or> (case json_get choice ''finish_reason'' of None \<Rightarrow> False | Some r \<Rightarrow> \<not> json_is_null r),
            st\<lparr>rss_emitted_text_delta := rss_emitted_text_delta st \<or> text \<noteq> None,
               rss_emitted_reasoning_delta := rss_emitted_reasoning_delta st \<or> reasoning \<noteq> None\<rparr>)))"

definition xai_chat_stream_event ::
  "provider_name \<Rightarrow> model_id \<Rightarrow> json \<Rightarrow> xai_stream_state \<Rightarrow> model_step_event list \<times> bool \<times> xai_stream_state" where
  "xai_chat_stream_event provider requested_model v st =
     (let st = st\<lparr>xss_chat_seen := True, xss_chat_model := or_else (json_str_field v ''model'') (xss_chat_model st),
            xss_chat_usage := (case json_get v ''usage'' of
               None \<Rightarrow> xss_chat_usage st
             | Some usage \<Rightarrow> if json_is_null usage then xss_chat_usage st else Some usage)\<rparr>
      in case fold (xai_chat_choice provider) (unwrap_or (Option.bind (json_get v ''choices'') json_as_array) [])
           ([], False, st) of
        (events, fin, st) \<Rightarrow>
          (events @ (if fin then xai_chat_terminal_events provider requested_model st else []), fin, st))"

definition xai_response_from_value :: "json \<Rightarrow> responses_response option" where
  "xai_response_from_value v =
     Option.bind (struct_values [[''output''], [''citations''], [''model''], [''usage'']] v) (\<lambda>vs.
     Option.bind (default_array (vs ! 0)) (\<lambda>output.
     map_option (\<lambda>model. \<lparr>rr_output = output, rr_citations = default_value (vs ! 1), rr_model = model,
         rr_usage = default_value (vs ! 3)\<rparr>) (default_string (vs ! 2))))"

text \<open>The walk over the items is that of OpenAI without the citations of message blocks.\<close>

definition xai_walk_output :: "(string \<Rightarrow> string + json) \<Rightarrow> json list \<Rightarrow> provider_name \<Rightarrow> output_walk" where
  "xai_walk_output parse output provider = (walk_output parse output provider)\<lparr>ow_citations := []\<rparr>"

definition xai_terminal_events ::
  "(string \<Rightarrow> string + json) \<Rightarrow> (json \<Rightarrow> string) \<Rightarrow> (json \<Rightarrow> string) \<Rightarrow> provider_name \<Rightarrow> model_id
    \<Rightarrow> json \<Rightarrow> xai_stream_state \<Rightarrow> provider_error + model_step_event list" where
  "xai_terminal_events parse print why provider requested_model response st =
     (case xai_response_from_value response of
        None \<Rightarrow> Inl (DecodeError (''failed to decode terminal xAI response: '' @ why response))
      | Some parsed \<Rightarrow>
          (let model_id = unwrap_or (rr_model parsed) requested_model;
               usage = usage_from_xai provider (Some model_id) ModelStep (rr_usage parsed);
               w = xai_walk_output parse (rr_output parsed) provider;
               grounding = (case rr_citations parsed of None \<Rightarrow> [] | Some raw \<Rightarrow> [\<lparr>gm_provider = provider, gm_raw = raw\<rparr>])
           in Inr (responses_terminal_events ''xai'' print st model_id w usage
                (continuation_from_output provider (rr_output parsed)) grounding)))"

definition xai_stream_event ::
  "(string \<Rightarrow> string + json) \<Rightarrow> (json \<Rightarrow> string) \<Rightarrow> (json \<Rightarrow> string) \<Rightarrow> provider_name \<Rightarrow> model_id
    \<Rightarrow> server_sent_event \<Rightarrow> xai_stream_state
    \<Rightarrow> provider_error + model_step_event list \<times> bool \<times> xai_stream_state" where
  "xai_stream_event parse print why provider requested_model event st =
     (if str_trim (sse_data event) = ''[DONE]'' then
        (if xss_chat_seen st then Inr (xai_chat_terminal_events provider requested_model st, True, st)
         else Inr ([], False, st))
      else case parse (sse_data event) of
        Inl error \<Rightarrow> Inl (DecodeError (''failed to decode xAI SSE event: '' @ error))
      | Inr v \<Rightarrow>
          if json_str_field v ''object'' = Some ''chat.completion.chunk''
          then Inr (xai_chat_stream_event provider requested_model v st)
          else responses_event ''xai'' ''xAI'' (xai_terminal_events parse print why provider requested_model)
            provider (event_type_of v event) v st)"

definition xai_adapter ::
  "(string \<Rightarrow> string + json) \<Rightarrow> (json \<Rightarrow> string) \<Rightarrow> (json \<Rightarrow> string) \<Rightarrow> provider_name \<Rightarrow> model_id
    \<Rightarrow> xai_stream_state stream_adapter" where
  "xai_adapter parse print why provider requested_model =
     \<lparr>sa_init = xai_stream_state_default,
      sa_event = xai_stream_event parse print why provider requested_model,
      sa_end = (\<lambda>_. Inl (DecodeError ''xAI stream ended without a terminal response event''))\<rparr>"

section \<open>The contracts of the streaming loop\<close>

lemma xai_chat_terminal_shape: "finishes (xai_chat_terminal_events provider model st)"
  unfolding xai_chat_terminal_events_def Let_def by (rule finishes_snoc) (auto split: option.splits)

lemma xai_choices_shape:
  assumes "fold (xai_chat_choice provider) choices acc = (events, fin, st')"
    and "unfinished (fst acc)"
  shows "unfinished events"
  using assms
  by (induction choices arbitrary: acc)
    (fastforce simp: xai_chat_choice_def Let_def split: prod.splits option.splits)+

lemma xai_choice_tracks:
  assumes "responses_track (snd (snd acc)) (pre @ fst acc)"
  shows "responses_track (snd (snd (xai_chat_choice provider choice acc))) (pre @ fst (xai_chat_choice provider choice acc))"
  using assms
  by (cases acc) (auto simp: xai_chat_choice_def responses_track_def nonempty_str_def Let_def split: option.splits if_splits)

lemma xai_choices_track:
  assumes "fold (xai_chat_choice provider) choices acc = (events, fin, st')"
    and "responses_track (snd (snd acc)) (pre @ fst acc)"
  shows "responses_track st' (pre @ events)"
  using assms
proof (induction choices arbitrary: acc)
  case (Cons choice choices)
  then show ?case using xai_choice_tracks [OF Cons.prems(2)] by simp
qed simp

lemma xai_chat_terminal_backed:
  "responses_track st pre \<Longrightarrow> backed (pre @ xai_chat_terminal_events provider model st)"
  by (auto simp: backed_def xai_chat_terminal_events_def responses_track_def last_opt_def Let_def split: option.splits)

lemma xai_chat_shape:
  assumes "xai_chat_stream_event provider model v st = (out, fin, st')"
  shows "if fin then finishes out else unfinished out"
  using assms xai_choices_shape xai_chat_terminal_shape
  by (auto simp: xai_chat_stream_event_def Let_def intro!: finishes_append split: prod.splits if_splits)

interpretation xai: backing_contract "xai_adapter parse print why provider requested_model" responses_track
proof unfold_locales
  show "responses_track (sa_init (xai_adapter parse print why provider requested_model)) []"
    by (simp add: xai_adapter_def responses_track_def xai_stream_state_default_def)
next
  fix ev and st :: xai_stream_state and out fin st'
  assume "sa_event (xai_adapter parse print why provider requested_model) ev st = Inr (out, fin, st')"
  then show "if fin then finishes out else unfinished out"
    by (auto simp: xai_adapter_def xai_stream_event_def xai_terminal_events_def Let_def xai_chat_terminal_shape
        intro: responses_terminal_finishes dest!: responses_event_shape xai_chat_shape
        split: if_splits sum.splits option.splits)
next
  fix st :: xai_stream_state and pre ev out st'
  assume track: "responses_track st pre"
    and event: "sa_event (xai_adapter parse print why provider requested_model) ev st = Inr (out, False, st')"
  have chat: "responses_track st' (pre @ out)"
    if "xai_chat_stream_event provider requested_model v st = (out, False, st')" for v
    using that xai_choices_track [where pre = pre] track
    by (fastforce simp: xai_chat_stream_event_def responses_track_def Let_def split: prod.splits)
  show "responses_track st' (pre @ out)"
    using event chat responses_event_tracks [OF _ track] track
    by (auto simp: xai_adapter_def xai_stream_event_def split: if_splits sum.splits)
next
  fix st :: xai_stream_state and pre ev out st'
  assume track: "responses_track st pre"
    and event: "sa_event (xai_adapter parse print why provider requested_model) ev st = Inr (out, True, st')"
  have chat: "backed (pre @ out)"
    if chat: "xai_chat_stream_event provider requested_model v st = (out, True, st')" for v
  proof -
    define st0 where "st0 = st\<lparr>xss_chat_seen := True, xss_chat_model := or_else (json_str_field v ''model'') (xss_chat_model st),
            xss_chat_usage := (case json_get v ''usage'' of
               None \<Rightarrow> xss_chat_usage st
             | Some usage \<Rightarrow> if json_is_null usage then xss_chat_usage st else Some usage)\<rparr>"
    obtain events where choices: "fold (xai_chat_choice provider)
        (unwrap_or (Option.bind (json_get v ''choices'') json_as_array) []) ([], False, st0) = (events, True, st')"
      and out: "out = events @ xai_chat_terminal_events provider requested_model st'"
      using chat by (auto simp: xai_chat_stream_event_def st0_def Let_def split: prod.splits)
    have "responses_track st0 pre" using track by (simp add: st0_def responses_track_def)
    then have "responses_track st' (pre @ events)" using xai_choices_track [OF choices, of pre] by simp
    then show ?thesis using xai_chat_terminal_backed by (metis append.assoc out)
  qed
  have response: "backed (pre @ out)"
    if "xai_terminal_events parse print why provider requested_model response st = Inr out" for response
    using that responses_terminal_backed [OF track]
    by (auto simp: xai_terminal_events_def Let_def split: option.splits)
  show "backed (pre @ out)"
    using event chat response xai_chat_terminal_backed [OF track]
    by (auto simp: xai_adapter_def xai_stream_event_def dest: responses_event_finished split: if_splits sum.splits)
qed (simp_all add: xai_adapter_def)

end
