(* ===== verification/Provider_Responses_Request.thy ===== *)
theory Provider_Responses_Request
  imports Provider_Request Provider_Xai
begin

text \<open>
  The request side of the Responses API adapters: the transcript as input items, replayed continuations, tool
  declarations and the body, for \<open>chudbot-openai/src/llm.rs\<close> and \<open>chudbot-xai/src/llm.rs\<close>. What differs is the
  role of system turns, the message ids and the filter on replayed items.
\<close>

section \<open>Input items\<close>

text \<open>
  The adapter's differences: the name of the system role, the id a message of a turn carries, and what remains
  of a stored continuation item.
\<close>

record responses_dialect =
  rd_system_role :: string
  rd_message_id :: "transcript_turn \<Rightarrow> string option"
  rd_replay :: "json \<Rightarrow> json option"

definition openai_dialect :: responses_dialect where
  "openai_dialect = \<lparr>rd_system_role = ''developer'', rd_message_id = (\<lambda>_. None), rd_replay = Some\<rparr>"

definition transcript_turn_message_id :: "transcript_turn \<Rightarrow> string option" where
  "transcript_turn_message_id turn = json_str_field (tt_metadata turn) ''id''"

definition xai_dialect :: responses_dialect where
  "xai_dialect = \<lparr>rd_system_role = ''system'', rd_message_id = transcript_turn_message_id,
     rd_replay = replayable_continuation_item\<rparr>"

text \<open>The items rendered so far and the text and media waiting for their message.\<close>

record input_builder =
  ib_input :: "json list"
  ib_text :: string
  ib_media :: "string list"

definition role_content :: "string option \<Rightarrow> string \<Rightarrow> json \<Rightarrow> json" where
  "role_content message_id role content =
     json_object (opt_field ''id'' JString message_id @ [(''role'', JString role), (''content'', content)])"

definition push_responses_message :: "string option \<Rightarrow> string \<Rightarrow> input_builder \<Rightarrow> input_builder" where
  "push_responses_message message_id role b =
     (if ib_media b = [] then
        (if ib_text b = [] then b
         else b\<lparr>ib_input := ib_input b @ [role_content message_id role (JString (ib_text b))], ib_text := []\<rparr>)
      else b\<lparr>ib_input := ib_input b @ [role_content message_id role (JArray
            ((if ib_text b = [] then []
              else [json_object [(''type'', JString ''input_text''), (''text'', JString (ib_text b))]])
             @ map (\<lambda>url. json_object [(''type'', JString ''input_image''), (''image_url'', JString url)]) (ib_media b)))],
          ib_text := [], ib_media := []\<rparr>)"

definition function_call_item :: "(json \<Rightarrow> string) \<Rightarrow> client_tool_call \<Rightarrow> json" where
  "function_call_item print call =
     json_object [(''type'', JString ''function_call''), (''call_id'', JString (ctc_id call)),
       (''name'', JString (ctc_name call)), (''arguments'', JString (print (ctc_input call)))]"

definition function_output_item :: "(json \<Rightarrow> string) \<Rightarrow> client_tool_result \<Rightarrow> json" where
  "function_output_item print result =
     json_object [(''type'', JString ''function_call_output''), (''call_id'', JString (ctr_tool_use_id result)),
       (''output'', JString (client_tool_result_as_string print result))]"

fun responses_block ::
  "(json \<Rightarrow> string) \<Rightarrow> media_backend \<Rightarrow> image_encoding \<Rightarrow> string option \<Rightarrow> string
    \<Rightarrow> input_builder \<Rightarrow> content_block \<Rightarrow> provider_error + input_builder" where
  "responses_block print mb encoding message_id role b (BlockText t) = Inr (b\<lparr>ib_text := ib_text b @ t\<rparr>)"
| "responses_block print mb encoding message_id role b (BlockMedia media) =
     (case image_reference mb media encoding of
        Inl e \<Rightarrow> Inl e
      | Inr reference \<Rightarrow> Inr (b\<lparr>ib_media := ib_media b @ [as_url_or_data_url reference]\<rparr>))"
| "responses_block print mb encoding message_id role b (BlockContinuation _) = Inr b"
| "responses_block print mb encoding message_id role b (BlockClientToolCall call) =
     (let b = push_responses_message message_id role b in
      Inr (b\<lparr>ib_input := ib_input b @ [function_call_item print call]\<rparr>))"
| "responses_block print mb encoding message_id role b (BlockClientToolResult result) =
     (let b = push_responses_message message_id role b in
      Inr (b\<lparr>ib_input := ib_input b @ [function_output_item print result]\<rparr>))"

fun echo_items :: "responses_dialect \<Rightarrow> provider_name \<Rightarrow> content_block \<Rightarrow> json list" where
  "echo_items d provider (BlockContinuation c) =
     (if pc_provider c = provider
      then List.map_filter (rd_replay d) (case pc_data c of JArray items \<Rightarrow> items | v \<Rightarrow> [v]) else [])"
| "echo_items d provider _ = []"

definition turn_echo :: "responses_dialect \<Rightarrow> provider_name \<Rightarrow> transcript_turn \<Rightarrow> json list" where
  "turn_echo d provider turn = concat (map (echo_items d provider) (tt_blocks turn))"

definition full_echo :: "json list \<Rightarrow> bool" where
  "full_echo echo \<longleftrightarrow> list_ex (\<lambda>item. json_str_field item ''type'' \<noteq> Some ''reasoning'') echo"

definition responses_role :: "responses_dialect \<Rightarrow> turn_role \<Rightarrow> string" where
  "responses_role d role = (case role of Assistant \<Rightarrow> ''assistant'' | User \<Rightarrow> ''user'' | System \<Rightarrow> rd_system_role d)"

definition responses_turn ::
  "(json \<Rightarrow> string) \<Rightarrow> media_backend \<Rightarrow> image_encoding \<Rightarrow> responses_dialect \<Rightarrow> provider_name
    \<Rightarrow> json list \<Rightarrow> transcript_turn \<Rightarrow> provider_error + json list" where
  "responses_turn print mb encoding d provider input turn =
     (let echo = turn_echo d provider turn; role = responses_role d (tt_role turn) in
      if full_echo echo then Inr (input @ echo)
      else case try_fold (responses_block print mb encoding (rd_message_id d turn) role)
          \<lparr>ib_input = input @ echo, ib_text = [], ib_media = []\<rparr> (tt_blocks turn) of
        Inl e \<Rightarrow> Inl e
      | Inr b \<Rightarrow> Inr (ib_input (push_responses_message (rd_message_id d turn) role b)))"

definition to_responses_input ::
  "(json \<Rightarrow> string) \<Rightarrow> media_backend \<Rightarrow> image_encoding \<Rightarrow> responses_dialect \<Rightarrow> provider_name \<Rightarrow> transcript
    \<Rightarrow> provider_error + json list" where
  "to_responses_input print mb encoding d provider t =
     try_fold (responses_turn print mb encoding d provider) [] (t_turns t)"

section \<open>The body\<close>

definition responses_function_tool :: "tool_name \<times> client_tool_spec \<Rightarrow> json" where
  "responses_function_tool e =
     json_object [(''type'', JString ''function''), (''name'', JString (fst e)),
       (''description'', JString (cts_description (snd e))),
       (''parameters'', tool_input_json_schema (cts_input_schema (snd e)))]"

definition hosted_tool :: "string \<Rightarrow> server_tool_set \<Rightarrow> json list" where
  "hosted_tool name server_tools = (if name \<in> set server_tools then [json_object [(''type'', JString name)]] else [])"

definition openai_responses_tools :: "(tool_name, client_tool_spec) btree_map \<Rightarrow> server_tool_set \<Rightarrow> json list" where
  "openai_responses_tools client_tools server_tools =
     map responses_function_tool client_tools @ hosted_tool ''web_search'' server_tools"

definition xai_responses_tools :: "(tool_name, client_tool_spec) btree_map \<Rightarrow> server_tool_set \<Rightarrow> json list" where
  "xai_responses_tools client_tools server_tools =
     map responses_function_tool client_tools @ hosted_tool ''web_search'' server_tools
     @ hosted_tool ''x_search'' server_tools"

definition model_supports_sampling :: "string \<Rightarrow> bool" where
  "model_supports_sampling model =
     (let model = to_ascii_lowercase model in
      \<not> (starts_with model ''o1'' \<or> starts_with model ''o3'' \<or> starts_with model ''o4''
        \<or> (starts_with model ''gpt-5'' \<and> \<not> str_contains model ''chat'')))"

record openai_options =
  oo_reasoning_effort :: "string option"
  oo_reasoning_summary :: "string option"
  oo_text_verbosity :: "string option"

definition openai_options_from_request :: "model_step_request \<Rightarrow> openai_options" where
  "openai_options_from_request request =
     unwrap_or (Option.bind (req_provider_options request) (\<lambda>v.
       Option.bind (struct_values [[''reasoning_effort''], [''reasoning_summary''], [''text_verbosity'']] v) (\<lambda>vs.
       Option.bind (default_string (vs ! 0)) (\<lambda>effort. Option.bind (default_string (vs ! 1)) (\<lambda>summary.
       map_option (\<lambda>verbosity. \<lparr>oo_reasoning_effort = effort, oo_reasoning_summary = summary,
           oo_text_verbosity = verbosity\<rparr>) (default_string (vs ! 2)))))))
     \<lparr>oo_reasoning_effort = None, oo_reasoning_summary = None, oo_text_verbosity = None\<rparr>"

definition nonempty_object :: "(string \<times> json) list \<Rightarrow> json option" where
  "nonempty_object kvs = (if kvs = [] then None else Some (json_object kvs))"

definition build_reasoning_options :: "openai_options \<Rightarrow> json option" where
  "build_reasoning_options options =
     nonempty_object (opt_field ''effort'' JString (oo_reasoning_effort options)
       @ opt_field ''summary'' JString (oo_reasoning_summary options))"

definition build_text_options :: "openai_options \<Rightarrow> json option" where
  "build_text_options options = nonempty_object (opt_field ''verbosity'' JString (oo_text_verbosity options))"

text \<open>Null members are stripped from the body, so an absent option is no member.\<close>

definition responses_body ::
  "model_step_request \<Rightarrow> json list \<Rightarrow> json list \<Rightarrow> bool \<Rightarrow> json option \<Rightarrow> json option \<Rightarrow> json" where
  "responses_body request input declared sampling reasoning text_options =
     json_strip_nulls (json_object
       [(''model'', JString (req_model request)), (''input'', JArray input),
        (''tools'', if declared = [] then JNull else JArray declared),
        (''parallel_tool_calls'', if declared = [] then JNull else JBool True),
        (''max_output_tokens'', json_opt (\<lambda>n. JNumber (dec_digits (unat n))) (so_max_output_tokens (req_sampling request))),
        (''temperature'', if sampling then json_opt JNumber (so_temperature (req_sampling request)) else JNull),
        (''top_p'', if sampling then json_opt JNumber (so_top_p (req_sampling request)) else JNull),
        (''reasoning'', json_opt (\<lambda>v. v) reasoning), (''text'', json_opt (\<lambda>v. v) text_options),
        (''prompt_cache_key'', json_opt JString (t_id (req_transcript request))),
        (''include'', JArray [JString ''reasoning.encrypted_content'']),
        (''store'', JBool False), (''stream'', JBool True)])"

definition openai_body_from_input :: "model_step_request \<Rightarrow> json list \<Rightarrow> json" where
  "openai_body_from_input request input =
     (let options = openai_options_from_request request in
      responses_body request input (openai_responses_tools (req_client_tools request) (req_server_tools request))
        (model_supports_sampling (req_model request)) (build_reasoning_options options) (build_text_options options))"

definition xai_options_effort :: "model_step_request \<Rightarrow> string option" where
  "xai_options_effort request =
     unwrap_or (Option.bind (req_provider_options request) (\<lambda>v.
       Option.bind (struct_values [[''reasoning_effort'']] v) (\<lambda>vs. default_string (vs ! 0)))) None"

definition xai_body_from_input :: "model_step_request \<Rightarrow> json list \<Rightarrow> json" where
  "xai_body_from_input request input =
     responses_body request input (xai_responses_tools (req_client_tools request) (req_server_tools request)) True
       (map_option (\<lambda>effort. json_object [(''effort'', JString effort)]) (xai_options_effort request)) None"

section \<open>Tool events keep their order\<close>

definition is_tool_item :: "json \<Rightarrow> bool" where
  "is_tool_item item \<longleftrightarrow> json_str_field item ''type'' \<in> {Some ''function_call'', Some ''function_call_output''}"

fun block_tool_item :: "(json \<Rightarrow> string) \<Rightarrow> content_block \<Rightarrow> json option" where
  "block_tool_item print (BlockClientToolCall call) = Some (function_call_item print call)"
| "block_tool_item print (BlockClientToolResult result) = Some (function_output_item print result)"
| "block_tool_item print _ = None"

text \<open>The tool items a turn stands for: those of its stored response, or its calls and results.\<close>

definition turn_tool_items :: "(json \<Rightarrow> string) \<Rightarrow> responses_dialect \<Rightarrow> provider_name \<Rightarrow> transcript_turn \<Rightarrow> json list" where
  "turn_tool_items print d provider turn =
     (if full_echo (turn_echo d provider turn) then filter is_tool_item (turn_echo d provider turn)
      else List.map_filter (block_tool_item print) (tt_blocks turn))"

lemma tool_item_simps [simp]:
  "is_tool_item (function_call_item print call)" "is_tool_item (function_output_item print result)"
  "\<not> is_tool_item (role_content message_id role content)"
  by (auto simp: is_tool_item_def function_call_item_def function_output_item_def role_content_def opt_field_def
      json_str_field_def json_get_object split: option.splits)

lemma push_message_tool_items [simp]:
  "filter is_tool_item (ib_input (push_responses_message message_id role b)) = filter is_tool_item (ib_input b)"
  by (simp add: push_responses_message_def)

lemma responses_blocks_tool_items:
  assumes "try_fold (responses_block print mb encoding message_id role) b blocks = Inr b'"
  shows "filter is_tool_item (ib_input b')
    = filter is_tool_item (ib_input b) @ List.map_filter (block_tool_item print) blocks"
  using assms
proof (induction blocks arbitrary: b)
  case (Cons block blocks)
  obtain b1 where b1: "responses_block print mb encoding message_id role b block = Inr b1"
    and rest: "try_fold (responses_block print mb encoding message_id role) b1 blocks = Inr b'"
    using Cons.prems by (auto split: sum.splits)
  have "filter is_tool_item (ib_input b1)
      = filter is_tool_item (ib_input b) @ (case block_tool_item print block of None \<Rightarrow> [] | Some i \<Rightarrow> [i])"
    using b1 by (cases block) (auto simp: Let_def split: sum.splits)
  with Cons.IH [OF rest] show ?case by (simp split: option.splits)
qed simp

lemma partial_echo_no_tools: "\<not> full_echo echo \<Longrightarrow> filter is_tool_item echo = []"
  by (auto simp: full_echo_def is_tool_item_def list_ex_iff filter_empty_conv)

lemma responses_turn_tool_items:
  assumes "responses_turn print mb encoding d provider input turn = Inr input'"
  shows "filter is_tool_item input' = filter is_tool_item input @ turn_tool_items print d provider turn"
proof (cases "full_echo (turn_echo d provider turn)")
  case True
  with assms show ?thesis by (auto simp: responses_turn_def turn_tool_items_def Let_def)
next
  case False
  with assms obtain b where b: "try_fold (responses_block print mb encoding (rd_message_id d turn) (responses_role d (tt_role turn)))
        \<lparr>ib_input = input @ turn_echo d provider turn, ib_text = [], ib_media = []\<rparr> (tt_blocks turn) = Inr b"
    and input': "input' = ib_input (push_responses_message (rd_message_id d turn) (responses_role d (tt_role turn)) b)"
    by (auto simp: responses_turn_def Let_def split: sum.splits)
  show ?thesis
    using responses_blocks_tool_items [OF b] partial_echo_no_tools [OF False] False
    by (simp add: input' turn_tool_items_def)
qed

text \<open>
  The tool events of a conversation reach the Responses API completely and in order. For both adapters,
  the function calls and function outputs of a rendered input are, in transcript order, those of each turn:
  the items of its replayed response, or else its calls and results.
\<close>

theorem responses_input_tool_events:
  assumes "to_responses_input print mb encoding d provider t = Inr input"
  shows "filter is_tool_item input = concat (map (turn_tool_items print d provider) (t_turns t))"
proof -
  have "filter is_tool_item input' = filter is_tool_item input0 @ concat (map (turn_tool_items print d provider) turns)"
    if "try_fold (responses_turn print mb encoding d provider) input0 turns = Inr input'" for input0 input' turns
    using that
  proof (induction turns arbitrary: input0)
    case (Cons turn turns)
    obtain input1 where "responses_turn print mb encoding d provider input0 turn = Inr input1"
      and rest: "try_fold (responses_turn print mb encoding d provider) input1 turns = Inr input'"
      using Cons.prems by (auto split: sum.splits)
    with Cons.IH [OF rest] show ?case by (simp add: responses_turn_tool_items)
  qed simp
  from this [OF assms [unfolded to_responses_input_def]] show ?thesis by simp
qed

definition sample_tool_transcript :: transcript where
  "sample_tool_transcript = \<lparr>t_id = None, t_turns =
     [\<lparr>tt_role = Assistant, tt_blocks = [BlockText ''x'', BlockClientToolCall \<lparr>ctc_id = ''c'', ctc_name = ''f'', ctc_input = JNull\<rparr>],
       tt_metadata = JNull\<rparr>,
      \<lparr>tt_role = User, tt_blocks = [BlockClientToolResult \<lparr>ctr_tool_use_id = ''c'', ctr_content = ResultText ''ok'',
         ctr_is_error = False\<rparr>], tt_metadata = JNull\<rparr>]\<rparr>"

theorem responses_input_tool_events_witness:
  "\<exists>input. to_responses_input (\<lambda>_. ''null'') no_media Disabled openai_dialect ''openai'' sample_tool_transcript = Inr input
    \<and> length (filter is_tool_item input) = 2"
proof -
  obtain input where input: "to_responses_input (\<lambda>_. ''null'') no_media Disabled openai_dialect ''openai'' sample_tool_transcript
      = Inr input"
    by (simp add: to_responses_input_def sample_tool_transcript_def responses_turn_def turn_echo_def full_echo_def
        openai_dialect_def responses_role_def Let_def)
  then show ?thesis
    using responses_input_tool_events [OF input]
    by (simp add: sample_tool_transcript_def turn_tool_items_def turn_echo_def full_echo_def)
qed

end
