(* ===== verification/Provider_Gemini.thy ===== *)
theory Provider_Gemini
  imports Provider_Responses
begin

text \<open>
  The stream side of \<open>chudbot-gemini/src/llm.rs\<close>: the state folded over the response chunks, the events of a
  chunk and those at the end of the stream. Gemini has no terminal event, the body simply ends.
\<close>

section \<open>Chunks\<close>

definition get_field :: "json \<Rightarrow> string \<Rightarrow> string \<Rightarrow> json option" where
  "get_field v camel snake = or_else (json_get v camel) (json_get v snake)"

definition default_opt_u64 :: "json option \<Rightarrow> u64 option option" where
  "default_opt_u64 v =
     (case v of None \<Rightarrow> Some None | Some JNull \<Rightarrow> Some None | Some v \<Rightarrow> map_option Some (json_as_u64 v))"

record usage_metadata =
  um_prompt_token_count :: u64
  um_cached_content_token_count :: "u64 option"
  um_candidates_token_count :: u64
  um_thoughts_token_count :: "u64 option"
  um_total_token_count :: u64

definition usage_metadata_from_value :: "json \<Rightarrow> usage_metadata option" where
  "usage_metadata_from_value v =
     Option.bind (struct_values [[''prompt_token_count'', ''promptTokenCount''],
         [''cached_content_token_count'', ''cachedContentTokenCount''],
         [''candidates_token_count'', ''candidatesTokenCount''],
         [''thoughts_token_count'', ''thoughtsTokenCount''], [''total_token_count'', ''totalTokenCount'']] v) (\<lambda>vs.
     Option.bind (default_u64 (vs ! 0)) (\<lambda>prompt. Option.bind (default_opt_u64 (vs ! 1)) (\<lambda>cached.
     Option.bind (default_u64 (vs ! 2)) (\<lambda>candidates. Option.bind (default_opt_u64 (vs ! 3)) (\<lambda>thoughts.
     map_option (\<lambda>sum. \<lparr>um_prompt_token_count = prompt, um_cached_content_token_count = cached,
         um_candidates_token_count = candidates, um_thoughts_token_count = thoughts, um_total_token_count = sum\<rparr>)
       (default_u64 (vs ! 4)))))))"

definition usage_from_gemini ::
  "provider_name \<Rightarrow> model_id option \<Rightarrow> usage_subject \<Rightarrow> json option \<Rightarrow> usage_record option" where
  "usage_from_gemini provider model subject usage =
     Option.bind usage (\<lambda>raw. map_option (\<lambda>parsed.
       \<lparr>ur_provider = provider, ur_model = model, ur_subject = subject,
        ur_input_tokens = Some (um_prompt_token_count parsed),
        ur_cached_input_tokens = um_cached_content_token_count parsed,
        ur_output_tokens = Some (um_candidates_token_count parsed),
        ur_reasoning_tokens = um_thoughts_token_count parsed,
        ur_total_tokens = Some (um_total_token_count parsed), ur_cost = None, ur_raw = Some raw\<rparr>)
       (usage_metadata_from_value raw))"

record content_walk =
  cw_text :: string
  cw_client_calls :: "client_tool_call list"
  cw_server_uses :: "server_tool_use list"
  cw_grounding :: "grounding_metadata list"

definition client_tool_call_from_part :: "json \<Rightarrow> client_tool_call" where
  "client_tool_call_from_part function_call =
     \<lparr>ctc_id = unwrap_or (or_else (json_str_field function_call ''id'') (json_str_field function_call ''name'')) [],
      ctc_name = unwrap_or (json_str_field function_call ''name'') [],
      ctc_input = unwrap_or (json_get function_call ''args'') (JObject [])\<rparr>"

definition code_execution_use :: "provider_name \<Rightarrow> string option \<Rightarrow> json \<Rightarrow> server_tool_use" where
  "code_execution_use provider status raw =
     \<lparr>stu_provider = provider, stu_name = ''code_execution'', stu_id = None, stu_status = status, stu_raw = raw,
      stu_usage = []\<rparr>"

definition opt_list :: "'a option \<Rightarrow> 'a list" where
  "opt_list x = (case x of None \<Rightarrow> [] | Some v \<Rightarrow> [v])"

definition walk_part :: "provider_name \<Rightarrow> json \<Rightarrow> content_walk \<Rightarrow> content_walk" where
  "walk_part provider part w =
     (let thought = unwrap_or (Option.bind (get_field part ''thought'' ''thought'') json_as_bool) False in
      w\<lparr>cw_text := cw_text w @ (if thought then [] else unwrap_or (json_str_field part ''text'') []),
        cw_client_calls := cw_client_calls w
          @ map client_tool_call_from_part (opt_list (get_field part ''functionCall'' ''function_call'')),
        cw_server_uses := cw_server_uses w
          @ map (code_execution_use provider None) (opt_list (get_field part ''executableCode'' ''executable_code''))
          @ map (\<lambda>r. code_execution_use provider
                (Option.bind (get_field r ''outcome'' ''outcome'') json_as_str) r)
              (opt_list (get_field part ''codeExecutionResult'' ''code_execution_result'')),
        cw_grounding := cw_grounding w
          @ map (\<lambda>m. \<lparr>gm_provider = provider, gm_raw = m\<rparr>)
              (opt_list (get_field part ''groundingMetadata'' ''grounding_metadata''))\<rparr>)"

definition walk_content :: "json \<Rightarrow> provider_name \<Rightarrow> content_walk" where
  "walk_content content provider =
     fold (walk_part provider) (unwrap_or (Option.bind (json_get content ''parts'') json_as_array) [])
       \<lparr>cw_text = [], cw_client_calls = [], cw_server_uses = [], cw_grounding = []\<rparr>"

section \<open>The stream\<close>

record gemini_stream_state =
  gss_model_id :: "model_id option"
  gss_saw_candidate :: bool
  gss_saw_answer_text :: bool
  gss_saw_client_tool_call :: bool
  gss_content_role :: "string option"
  gss_content_parts :: "json list"
  gss_latest_usage :: "usage_record option"

definition gemini_stream_state_default :: gemini_stream_state where
  "gemini_stream_state_default =
     \<lparr>gss_model_id = None, gss_saw_candidate = False, gss_saw_answer_text = False, gss_saw_client_tool_call = False,
      gss_content_role = None, gss_content_parts = [], gss_latest_usage = None\<rparr>"

definition append_content :: "json \<Rightarrow> gemini_stream_state \<Rightarrow> gemini_stream_state" where
  "append_content content st =
     st\<lparr>gss_content_role := or_else (gss_content_role st) (json_str_field content ''role''),
        gss_content_parts := gss_content_parts st
          @ unwrap_or (Option.bind (json_get content ''parts'') json_as_array) []\<rparr>"

text \<open>The calls of one chunk are numbered from zero in every chunk.\<close>

definition gemini_call_delta :: "(json \<Rightarrow> string) \<Rightarrow> nat \<times> client_tool_call \<Rightarrow> model_step_event" where
  "gemini_call_delta print e =
     Delta (DeltaClientToolCall (''gemini_tool:'' @ dec_digits (fst e)) (ctc_id (snd e)) (Some (ctc_name (snd e)))
       (print (ctc_input (snd e))))"

definition observe_content ::
  "(json \<Rightarrow> string) \<Rightarrow> provider_name \<Rightarrow> json \<Rightarrow> gemini_stream_state \<Rightarrow> model_step_event list \<times> gemini_stream_state" where
  "observe_content print provider content st =
     (let st = append_content content st; w = walk_content content provider in
      ((if cw_text w = [] then [] else [Delta (DeltaText ''gemini_text'' (cw_text w))])
       @ map (gemini_call_delta print) (List.enumerate 0 (cw_client_calls w))
       @ map EvServerToolUse (cw_server_uses w) @ map EvGrounding (cw_grounding w),
       st\<lparr>gss_saw_answer_text := gss_saw_answer_text st \<or> cw_text w \<noteq> [],
          gss_saw_client_tool_call := gss_saw_client_tool_call st \<or> cw_client_calls w \<noteq> []\<rparr>))"

definition invocation_use :: "provider_name \<Rightarrow> json \<Rightarrow> server_tool_use" where
  "invocation_use provider raw =
     \<lparr>stu_provider = provider, stu_name = ''web_search'', stu_id = json_str_field raw ''id'',
      stu_status = json_str_field raw ''status'', stu_raw = raw, stu_usage = []\<rparr>"

definition observe_response ::
  "(json \<Rightarrow> string) \<Rightarrow> provider_name \<Rightarrow> model_id \<Rightarrow> json \<Rightarrow> gemini_stream_state
    \<Rightarrow> model_step_event list \<times> gemini_stream_state" where
  "observe_response print provider requested_model v st =
     (let st = st\<lparr>gss_model_id := or_else (Option.bind (get_field v ''modelVersion'' ''model_version'') json_as_str)
            (gss_model_id st)\<rparr>;
          st = st\<lparr>gss_latest_usage := or_else (usage_from_gemini provider
            (Some (unwrap_or (gss_model_id st) requested_model)) ModelStep
            (get_field v ''usageMetadata'' ''usage_metadata'')) (gss_latest_usage st)\<rparr>
      in case Option.bind (json_get v ''candidates'') json_as_array of
        Some (candidate # _) \<Rightarrow>
          (let st = st\<lparr>gss_saw_candidate := True\<rparr>;
               (events, st) = (case json_get candidate ''content'' of
                  None \<Rightarrow> ([], st)
                | Some content \<Rightarrow> observe_content print provider content st)
           in (events
               @ map (\<lambda>m. EvGrounding \<lparr>gm_provider = provider, gm_raw = m\<rparr>)
                   (opt_list (get_field candidate ''groundingMetadata'' ''grounding_metadata''))
               @ map (\<lambda>raw. EvServerToolUse (invocation_use provider raw))
                   (unwrap_or (Option.bind (get_field candidate ''serverSideToolInvocations''
                      ''server_side_tool_invocations'') json_as_array) []), st))
      | _ \<Rightarrow> ([], st))"

definition gemini_stream_event ::
  "(string \<Rightarrow> string + json) \<Rightarrow> (json \<Rightarrow> string) \<Rightarrow> provider_name \<Rightarrow> model_id
    \<Rightarrow> server_sent_event \<Rightarrow> gemini_stream_state
    \<Rightarrow> provider_error + model_step_event list \<times> bool \<times> gemini_stream_state" where
  "gemini_stream_event parse print provider requested_model event st =
     (let data = str_trim (sse_data event) in
      if data = [] \<or> data = ''[DONE]'' then Inr ([], False, st)
      else case parse data of
        Inl error \<Rightarrow> Inl (DecodeError (''failed to decode Gemini stream event: '' @ error))
      | Inr v \<Rightarrow> (case observe_response print provider requested_model v st of (events, st) \<Rightarrow> Inr (events, False, st)))"

definition gemini_continuation :: "provider_name \<Rightarrow> gemini_stream_state \<Rightarrow> provider_continuation option" where
  "gemini_continuation provider st =
     (if gss_content_parts st = [] then None
      else Some \<lparr>pc_provider = provider,
        pc_data = json_object [(''role'', JString (unwrap_or (gss_content_role st) ''model'')),
          (''parts'', JArray (gss_content_parts st))]\<rparr>)"

definition gemini_finish ::
  "provider_name \<Rightarrow> model_id \<Rightarrow> gemini_stream_state \<Rightarrow> provider_error + model_step_event list" where
  "gemini_finish provider requested_model st =
     (if \<not> gss_saw_candidate st then Inl (DecodeError ''Gemini stream ended without candidates'')
      else Inr (map EvContinuation (opt_list (gemini_continuation provider st))
        @ map EvUsage (opt_list (gss_latest_usage st))
        @ [Finished (if gss_saw_client_tool_call st then ClientTools else if gss_saw_answer_text st then Final else Continue)
             (unwrap_or (gss_model_id st) requested_model)]))"

definition gemini_adapter ::
  "(string \<Rightarrow> string + json) \<Rightarrow> (json \<Rightarrow> string) \<Rightarrow> provider_name \<Rightarrow> model_id \<Rightarrow> gemini_stream_state stream_adapter" where
  "gemini_adapter parse print provider requested_model =
     \<lparr>sa_init = gemini_stream_state_default,
      sa_event = gemini_stream_event parse print provider requested_model,
      sa_end = gemini_finish provider requested_model\<rparr>"

section \<open>The contracts of the streaming loop\<close>

lemma gemini_calls_unfinished [simp]: "unfinished (map (gemini_call_delta print) es)"
  by (simp add: unfinished_def list_all_iff gemini_call_delta_def)

lemma continuations_unfinished [simp]: "unfinished (map EvContinuation cs)"
  by (simp add: unfinished_def list_all_iff)

lemma map_unfinished [simp]:
  "unfinished (map (\<lambda>m. EvGrounding (f m)) ms)" "unfinished (map (\<lambda>m. EvServerToolUse (g m)) us)"
  by (simp_all add: unfinished_def list_all_iff)

lemma observe_response_unfinished: "observe_response print provider model v st = (out, st') \<Longrightarrow> unfinished out"
  by (auto simp: observe_response_def observe_content_def Let_def split: option.splits list.splits prod.splits)

definition gemini_track :: "gemini_stream_state \<Rightarrow> model_step_event list \<Rightarrow> bool" where
  "gemini_track st pre \<longleftrightarrow>
     (gss_saw_answer_text st \<longrightarrow> list_ex text_event pre) \<and> (gss_saw_client_tool_call st \<longrightarrow> list_ex call_event pre)"

lemma observe_content_tracks:
  assumes "observe_content print provider content st = (out, st')" and "gemini_track st pre"
  shows "gemini_track st' (pre @ out)"
proof -
  have "list_ex call_event (map (gemini_call_delta print) (List.enumerate n cs))" if "cs \<noteq> []" for n cs
    using that by (cases cs) (auto simp: gemini_call_delta_def enumerate_simps)
  then show ?thesis
    using assms by (auto simp: observe_content_def append_content_def gemini_track_def Let_def)
qed

lemma gemini_track_append: "gemini_track st pre \<Longrightarrow> gemini_track st (pre @ out)"
  by (auto simp: gemini_track_def)

lemma observe_response_tracks:
  assumes "observe_response print provider model v st = (out, st')" and "gemini_track st pre"
  shows "gemini_track st' (pre @ out)"
proof -
  have same: "gemini_track (st\<lparr>gss_model_id := a, gss_latest_usage := b\<rparr>) pre" for a b
    using assms(2) by (simp add: gemini_track_def)
  then have seen: "gemini_track (st\<lparr>gss_model_id := a, gss_latest_usage := b, gss_saw_candidate := True\<rparr>) pre" for a b
    by (simp add: gemini_track_def)
  show ?thesis
    using assms(1) same seen
    by (auto simp: observe_response_def Let_def gemini_track_append
        dest!: observe_content_tracks [OF _ seen] intro: gemini_track_append
        split: option.splits list.splits prod.splits simp flip: append_assoc)
qed

interpretation gemini: backing_contract "gemini_adapter parse print provider requested_model" gemini_track
proof unfold_locales
  show "gemini_track (sa_init (gemini_adapter parse print provider requested_model)) []"
    by (simp add: gemini_adapter_def gemini_track_def gemini_stream_state_default_def)
next
  fix ev and st :: gemini_stream_state and out fin st'
  assume "sa_event (gemini_adapter parse print provider requested_model) ev st = Inr (out, fin, st')"
  then show "if fin then finishes out else unfinished out"
    by (auto simp: gemini_adapter_def gemini_stream_event_def Let_def dest: observe_response_unfinished
        split: if_splits sum.splits prod.splits)
next
  fix st :: gemini_stream_state and out
  assume "sa_end (gemini_adapter parse print provider requested_model) st = Inr out"
  then show "finishes out"
    by (auto simp: gemini_adapter_def gemini_finish_def simp flip: append_assoc intro!: finishes_snoc split: if_splits)
next
  fix st :: gemini_stream_state and pre ev out st'
  assume "gemini_track st pre"
    and "sa_event (gemini_adapter parse print provider requested_model) ev st = Inr (out, False, st')"
  then show "gemini_track st' (pre @ out)"
    by (auto simp: gemini_adapter_def gemini_stream_event_def Let_def dest: observe_response_tracks
        split: if_splits sum.splits prod.splits)
next
  fix st :: gemini_stream_state and pre ev out st'
  assume "sa_event (gemini_adapter parse print provider requested_model) ev st = Inr (out, True, st')"
  then show "backed (pre @ out)"
    by (auto simp: gemini_adapter_def gemini_stream_event_def Let_def split: if_splits sum.splits prod.splits)
next
  fix st :: gemini_stream_state and pre out
  assume "gemini_track st pre" and "sa_end (gemini_adapter parse print provider requested_model) st = Inr out"
  then show "backed (pre @ out)"
    by (auto simp: gemini_adapter_def gemini_finish_def backed_def gemini_track_def last_opt_def split: if_splits)
qed

end
