(* ===== verification/Provider_Gemini_Request.thy ===== *)
theory Provider_Gemini_Request
  imports Provider_Request Provider_Gemini
begin

text \<open>
  The request side of \<open>chudbot-gemini/src/llm.rs\<close>: the transcript as contents, with the index from call ids to
  function names that function responses need, and the body.
\<close>

section \<open>Contents\<close>

definition gemini_media_part :: "media_backend \<Rightarrow> media_ref \<Rightarrow> image_encoding \<Rightarrow> provider_error + json" where
  "gemini_media_part mb media encoding =
     (case (case encoding of
         PublicUrl \<Rightarrow>
           (case image_reference mb media PublicUrl of
              Inl e \<Rightarrow> Inl e
            | Inr (RefPublicUrl _) \<Rightarrow> image_reference mb media EmbeddedBase64
            | Inr embedded \<Rightarrow> Inr embedded)
       | _ \<Rightarrow> image_reference mb media encoding) of
        Inl e \<Rightarrow> Inl e
      | Inr (RefEmbeddedBase64 d) \<Rightarrow>
          Inr (json_object [(''inlineData'', json_object [(''mimeType'', JString (emb_mime_type d)),
            (''data'', JString (emb_base64 d))])])
      | Inr (RefPublicUrl url) \<Rightarrow>
          Inl (ReferenceError (''Gemini generateContent does not support direct public URL image input for media `''
            @ media_uri_of media @ ''` (`'' @ url
            @ ''`); use loadable media for embedded base64 or upload through the Gemini Files API'')))"

definition function_call_part :: "client_tool_call \<Rightarrow> json" where
  "function_call_part call =
     json_object [(''functionCall'', json_object [(''id'', JString (ctc_id call)), (''name'', JString (ctc_name call)),
       (''args'', ctc_input call)])]"

definition tool_result_response :: "client_tool_result \<Rightarrow> json" where
  "tool_result_response result =
     (case ctr_content result of
        ResultJson v \<Rightarrow>
          if ctr_is_error result then json_object [(''error'', v)]
          else (case json_as_object v of Some m \<Rightarrow> JObject m | None \<Rightarrow> json_object [(''result'', v)])
      | ResultText text \<Rightarrow> json_object [(if ctr_is_error result then ''error'' else ''result'', JString text)])"

definition function_response_part :: "client_tool_result \<Rightarrow> string \<Rightarrow> json" where
  "function_response_part result name =
     json_object [(''functionResponse'', json_object [(''id'', JString (ctr_tool_use_id result)), (''name'', JString name),
       (''response'', tool_result_response result)])]"

text \<open>The first continuation of the provider, with the role it may lack.\<close>

fun gemini_continuation_data :: "provider_name \<Rightarrow> content_block list \<Rightarrow> json option" where
  "gemini_continuation_data provider [] = None"
| "gemini_continuation_data provider (BlockContinuation c # blocks) =
     (if pc_provider c \<noteq> provider then gemini_continuation_data provider blocks
      else Some (case pc_data c of
          JObject m \<Rightarrow> if btm_get m ''role'' = None then JObject (btm_insert ''role'' (JString ''model'') m) else JObject m
        | v \<Rightarrow> v))"
| "gemini_continuation_data provider (_ # blocks) = gemini_continuation_data provider blocks"

definition index_function_call :: "json \<Rightarrow> (string, string) btree_map \<Rightarrow> (string, string) btree_map" where
  "index_function_call part call_names =
     (case get_field part ''functionCall'' ''function_call'' of
        None \<Rightarrow> call_names
      | Some call \<Rightarrow>
          (case (json_str_field call ''id'', json_str_field call ''name'') of
             (Some use_id, Some name) \<Rightarrow> btm_insert use_id name call_names
           | _ \<Rightarrow> call_names))"

definition index_function_calls :: "json \<Rightarrow> (string, string) btree_map \<Rightarrow> (string, string) btree_map" where
  "index_function_calls content call_names =
     fold index_function_call (unwrap_or (Option.bind (json_get content ''parts'') json_as_array) []) call_names"

fun gemini_block ::
  "media_backend \<Rightarrow> image_encoding \<Rightarrow> (string, string) btree_map \<times> json list \<Rightarrow> content_block
    \<Rightarrow> provider_error + (string, string) btree_map \<times> json list" where
  "gemini_block mb encoding (call_names, parts) (BlockText text) =
     Inr (call_names, if text = [] then parts else parts @ [json_object [(''text'', JString text)]])"
| "gemini_block mb encoding (call_names, parts) (BlockMedia media) =
     (case gemini_media_part mb media encoding of
        Inl e \<Rightarrow> Inl e
      | Inr part \<Rightarrow> Inr (call_names, parts @ [part]))"
| "gemini_block mb encoding (call_names, parts) (BlockClientToolCall call) =
     Inr (btm_insert (ctc_id call) (ctc_name call) call_names, parts @ [function_call_part call])"
| "gemini_block mb encoding (call_names, parts) (BlockClientToolResult result) =
     Inr (call_names, parts @ [function_response_part result
       (unwrap_or (btm_get call_names (ctr_tool_use_id result)) ''tool_result'')])"
| "gemini_block mb encoding (call_names, parts) (BlockContinuation _) = Inr (call_names, parts)"

definition gemini_role :: "turn_role \<Rightarrow> string" where
  "gemini_role role = (case role of Assistant \<Rightarrow> ''model'' | User \<Rightarrow> ''user'' | System \<Rightarrow> ''user'')"

definition gemini_turn ::
  "media_backend \<Rightarrow> provider_name \<Rightarrow> image_encoding \<Rightarrow> (string, string) btree_map \<times> json list \<Rightarrow> transcript_turn
    \<Rightarrow> provider_error + (string, string) btree_map \<times> json list" where
  "gemini_turn mb provider encoding acc turn =
     (case acc of (call_names, contents) \<Rightarrow>
        (case gemini_continuation_data provider (tt_blocks turn) of
           Some continuation \<Rightarrow> Inr (index_function_calls continuation call_names, contents @ [continuation])
         | None \<Rightarrow>
             (case try_fold (gemini_block mb encoding) (call_names, []) (tt_blocks turn) of
                Inl e \<Rightarrow> Inl e
              | Inr (call_names', parts) \<Rightarrow>
                  Inr (call_names', if parts = [] then contents
                    else contents @ [json_object [(''role'', JString (gemini_role (tt_role turn))), (''parts'', JArray parts)]]))))"

definition to_gemini_contents ::
  "media_backend \<Rightarrow> transcript \<Rightarrow> provider_name \<Rightarrow> image_encoding \<Rightarrow> provider_error + json list" where
  "to_gemini_contents mb t provider encoding =
     (case try_fold (gemini_turn mb provider encoding) ([], []) (drop (leading_system_turn_count t) (t_turns t)) of
        Inl e \<Rightarrow> Inl e
      | Inr (_, contents) \<Rightarrow> Inr contents)"

section \<open>The body\<close>

definition system_instruction :: "transcript \<Rightarrow> json option" where
  "system_instruction t =
     map_option (\<lambda>instructions. json_object [(''parts'', JArray [json_object [(''text'', JString instructions)]])])
       (leading_system_text t)"

definition gemini_tools :: "(tool_name, client_tool_spec) btree_map \<Rightarrow> server_tool_set \<Rightarrow> json list" where
  "gemini_tools client_tools server_tools =
     (if client_tools = [] then []
      else [json_object [(''functionDeclarations'', JArray (map (\<lambda>(name, tool). json_object [(''name'', JString name),
        (''description'', JString (cts_description tool)),
        (''parameters'', tool_input_json_schema (cts_input_schema tool))]) client_tools))]])
     @ (if ''web_search'' \<in> set server_tools then [json_object [(''googleSearch'', JObject [])]] else [])"

record gemini_options =
  go_thinking_level :: "string option"
  go_thinking_budget :: "int option"
  go_include_thoughts :: "bool option"
  go_extra_body :: "json option"

definition gemini_thinking_config :: "gemini_options \<Rightarrow> json option" where
  "gemini_thinking_config options =
     (let members = opt_field ''thinkingLevel'' JString (go_thinking_level options)
            @ opt_field ''thinkingBudget'' (\<lambda>n. JNumber (dec_int n)) (go_thinking_budget options)
            @ opt_field ''includeThoughts'' JBool (go_include_thoughts options)
      in if members = [] then None else Some (json_object members))"

definition gemini_generation_config :: "model_step_request \<Rightarrow> gemini_options \<Rightarrow> json option" where
  "gemini_generation_config request options =
     (let members = opt_field ''maxOutputTokens'' (\<lambda>n. JNumber (dec_digits (unat n))) (so_max_output_tokens (req_sampling request))
            @ opt_field ''temperature'' JNumber (so_temperature (req_sampling request))
            @ opt_field ''topP'' JNumber (so_top_p (req_sampling request))
            @ opt_field ''thinkingConfig'' (\<lambda>v. v) (gemini_thinking_config options)
      in if members = [] then None else Some (json_object members))"

text \<open>The decoded options are a parameter: unknown fields and 32-bit integers are \<open>serde\<close>'s business.\<close>

definition gemini_step_body ::
  "media_backend \<Rightarrow> provider_name \<Rightarrow> gemini_options \<Rightarrow> model_step_request \<Rightarrow> provider_error + json" where
  "gemini_step_body mb provider options request =
     (case to_gemini_contents mb (req_transcript request) provider (req_image_encoding request) of
        Inl e \<Rightarrow> Inl e
      | Inr contents \<Rightarrow>
          (let declared = gemini_tools (req_client_tools request) (req_server_tools request) in
           Inr (merge_extra_body (json_strip_nulls (json_object
             [(''contents'', JArray contents),
              (''systemInstruction'', json_opt (\<lambda>v. v) (system_instruction (req_transcript request))),
              (''tools'', if declared = [] then JNull else JArray declared),
              (''toolConfig'', if ''web_search'' \<in> set (req_server_tools request)
                 then json_object [(''includeServerSideToolInvocations'', JBool True)] else JNull),
              (''generationConfig'', json_opt (\<lambda>v. v) (gemini_generation_config request options))]))
             (case go_extra_body options of Some (JObject m) \<Rightarrow> m | _ \<Rightarrow> []))))"

section \<open>Names of function responses\<close>

text \<open>A model turn as the agent loop stores it (the echoed content and its call), and the turn that answers it.\<close>

definition call_content :: "json \<Rightarrow> string option \<Rightarrow> string \<Rightarrow> json" where
  "call_content args use_id name =
     JObject [(''parts'', JArray [JObject [(''functionCall'',
       JObject ((''args'', args) # (case use_id of None \<Rightarrow> [] | Some i \<Rightarrow> [(''id'', JString i)]) @ [(''name'', JString name)]))]]),
       (''role'', JString ''model'')]"

definition call_of_content :: "json \<Rightarrow> string option \<Rightarrow> string \<Rightarrow> client_tool_call" where
  "call_of_content args use_id name = \<lparr>ctc_id = unwrap_or use_id name, ctc_name = name, ctc_input = args\<rparr>"

lemma call_of_content_walked:
  "cw_client_calls (walk_content (call_content args use_id name) provider) = [call_of_content args use_id name]"
  by (auto simp: walk_content_def call_content_def walk_part_def get_field_def opt_list_def call_of_content_def
      client_tool_call_from_part_def json_str_field_def btm_get_def split: option.splits)

definition answered_transcript ::
  "provider_name \<Rightarrow> json \<Rightarrow> string option \<Rightarrow> string \<Rightarrow> client_tool_result_content \<Rightarrow> transcript" where
  "answered_transcript provider args use_id name content =
     (let call = call_of_content args use_id name in
      \<lparr>t_id = None, t_turns =
        [\<lparr>tt_role = Assistant, tt_blocks = [BlockClientToolCall call,
            BlockContinuation \<lparr>pc_provider = provider, pc_data = call_content args use_id name\<rparr>], tt_metadata = JNull\<rparr>,
         \<lparr>tt_role = User, tt_blocks = [BlockClientToolResult \<lparr>ctr_tool_use_id = ctc_id call, ctr_content = content,
            ctr_is_error = False\<rparr>], tt_metadata = JNull\<rparr>]\<rparr>)"

text \<open>
  A function response names its function only if Gemini gave the call an id. The adapter takes the name as
  the id of a call without one, but the index behind the echoed content skips such calls, so the response goes
  back under the name \<open>tool_result\<close>, which no function has.
\<close>

theorem gemini_response_name:
  "to_gemini_contents mb (answered_transcript provider args use_id name content) provider encoding = Inr
     [call_content args use_id name,
      json_object [(''role'', JString ''user''), (''parts'', JArray [function_response_part
        \<lparr>ctr_tool_use_id = unwrap_or use_id name, ctr_content = content, ctr_is_error = False\<rparr>
        (if use_id = None then ''tool_result'' else name)])]]"
  by (cases use_id)
    (simp_all add: to_gemini_contents_def answered_transcript_def gemini_turn_def call_of_content_def call_content_def
      leading_system_turn_count_def leading_system_turn_def index_function_calls_def index_function_call_def
      get_field_def json_str_field_def btm_get_def gemini_role_def Let_def)

end
