(* ===== verification/Provider_Props.thy ===== *)
theory Provider_Props
  imports Provider_Anthropic Provider_Xai Provider_Gemini
begin

text \<open>
  Properties of the streamed steps of all providers: the shape of what is yielded, the kinds the collected
  steps carry, and what happens when Gemini sends function calls in separate chunks.
\<close>

section \<open>Shape\<close>

definition step_is_whole :: "model_step_event list \<times> provider_error option \<times> duration list \<Rightarrow> bool" where
  "step_is_whole r = (case r of (out, res, _) \<Rightarrow> if res = None then finishes out else unfinished out)"

text \<open>
  C25: A streamed step of any provider ends in exactly one way: without an error, and then its last event, and
  only it, is the finished event; or with an error, and then it has yielded no finished event, whatever the
  connections deliver and however often the step was retried.
\<close>

theorem streamed_steps_are_whole:
  "step_is_whole (stream_step provider_error_class (anthropic_adapter parse print estimate provider model) connect)
   \<and> step_is_whole (stream_step provider_error_class (openai_adapter parse print why openai_estimate provider model) connect)
   \<and> step_is_whole (stream_step provider_error_class (xai_adapter parse print why provider model) connect)
   \<and> step_is_whole (stream_step gemini_error_class (gemini_adapter parse print provider model) connect)"
  unfolding step_is_whole_def
  using anthropic.step_shape openai.step_shape xai.step_shape gemini.step_shape
  by (auto split: prod.splits)

section \<open>Kinds\<close>

text \<open>
  C26: The agent loop never branches into a void. For OpenAI, xAI and Gemini, whatever the server sends, a step
  that is collected as final has a non-empty answer, and one collected as a request for client tools has a
  tool call.
\<close>

theorem collected_steps_actionable:
  assumes "collected_step parse provider_error_class (openai_adapter parse print why openai_estimate provider model) connect
        = Some step
      \<or> collected_step parse provider_error_class (xai_adapter parse print why provider model) connect = Some step
      \<or> collected_step parse gemini_error_class (gemini_adapter parse print provider model) connect = Some step"
  shows "step_actionable step"
  using assms
  by (elim disjE) (rule openai.collected_actionable xai.collected_actionable gemini.collected_actionable; assumption)+

section \<open>Function calls in separate chunks\<close>

definition gemini_call_chunk :: "tool_use_id \<Rightarrow> tool_name \<Rightarrow> json \<Rightarrow> json" where
  "gemini_call_chunk use_id name args =
     JObject [(''candidates'', JArray [JObject [(''content'', JObject [(''parts'', JArray [JObject [(''functionCall'',
       JObject [(''args'', args), (''id'', JString use_id), (''name'', JString name)])]])])]])]"

lemma dec_digits_0: "dec_digits 0 = ''0''"
  by code_simp

lemma gemini_chunk_event:
  assumes "parse (str_trim (sse_data ev)) = Inr (gemini_call_chunk use_id name args)"
    and "str_trim (sse_data ev) \<notin> {[], ''[DONE]''}"
  shows "\<exists>st'. sa_event (gemini_adapter parse print provider model) ev st
    = Inr ([Delta (DeltaClientToolCall ''gemini_tool:0'' use_id (Some name) (print args))], False, st')
    \<and> gss_saw_candidate st'"
  using assms
  by (simp add: gemini_adapter_def gemini_stream_event_def gemini_call_chunk_def observe_response_def observe_content_def
      walk_content_def walk_part_def get_field_def opt_list_def gemini_call_delta_def client_tool_call_from_part_def
      json_str_field_def btm_get_def append_content_def enumerate_simps dec_digits_0 Let_def)

text \<open>
  Gemini's calls collide across chunks. If a response brings two function calls with different ids in two
  chunks, the adapter gives both the item id \<open>gemini_tool:0\<close>, and the collector rejects the step.
\<close>

theorem gemini_split_calls_rejected:
  assumes "sse_decode chunks = Inr [ev1, ev2]"
    and "parse (str_trim (sse_data ev1)) = Inr (gemini_call_chunk id1 name1 args1)"
    and "parse (str_trim (sse_data ev2)) = Inr (gemini_call_chunk id2 name2 args2)"
    and "str_trim (sse_data ev1) \<notin> {[], ''[DONE]''}" and "str_trim (sse_data ev2) \<notin> {[], ''[DONE]''}"
    and "id1 \<noteq> []" and "id1 \<noteq> id2"
  shows "\<exists>out. run_attempt (gemini_adapter parse print provider model) (map Inr chunks) = (out, None)
    \<and> (collect_model_step parse (map Inr out) :: (string, unit) model_step_collection_error + _)
      = Inl (Collector (Reducer (InconsistentToolUseId ''gemini_tool:0'' id1 id2)))"
proof -
  let ?ad = "gemini_adapter parse print provider model"
  let ?d = "\<lambda>use_id name args. Delta (DeltaClientToolCall ''gemini_tool:0'' use_id (Some name) (print args))"
  obtain st1 where first: "sa_event ?ad ev1 gemini_stream_state_default = Inr ([?d id1 name1 args1], False, st1)"
    using gemini_chunk_event [where parse = parse, OF assms(2,4)] by blast
  obtain st2 where second: "sa_event ?ad ev2 st1 = Inr ([?d id2 name2 args2], False, st2)" "gss_saw_candidate st2"
    using gemini_chunk_event [where parse = parse, OF assms(3,5)] by blast
  obtain last_out where last_out: "gemini_finish provider model st2 = Inr last_out"
    using second(2) by (simp add: gemini_finish_def)
  have init: "sa_init ?ad = gemini_stream_state_default" "sa_end ?ad = gemini_finish provider model"
    by (simp_all add: gemini_adapter_def)
  have "run_attempt ?ad (map Inr chunks) = ([?d id1 name1 args1, ?d id2 name2 args2] @ last_out, None)"
    using attempt_chunks_decoded [OF assms(1) [unfolded sse_decode_def], of ?ad] first second(1) last_out
    by (simp add: run_attempt_def run_events_def init)
  moreover have "(collect_model_step parse (map Inr ([?d id1 name1 args1, ?d id2 name2 args2] @ last_out))
      :: (string, unit) model_step_collection_error + _)
      = Inl (Collector (Reducer (InconsistentToolUseId ''gemini_tool:0'' id1 id2)))"
    using assms(6,7)
    by (simp add: collect_model_step_def collector_push_def push_delta_def pending_slot_def collector_default_def btm_get_def Let_def)
  ultimately show ?thesis by blast
qed

section \<open>Witnesses\<close>

definition table_parse :: "(string \<times> json) list \<Rightarrow> string \<Rightarrow> string + json" where
  "table_parse table s = (case map_of table s of None \<Rightarrow> Inl ''unexpected'' | Some v \<Rightarrow> Inr v)"

definition plain_event :: "string \<Rightarrow> server_sent_event" where
  "plain_event d = \<lparr>sse_event = None, sse_data = d\<rparr>"

lemma sse_decode_plain:
  assumes "list_all (\<lambda>d. wire_event (plain_event d)) ds"
  shows "sse_decode [concat (map render_event (map plain_event ds))] = Inr (map plain_event ds)"
  by (rule sse_decode_rendered) (use assms in \<open>simp_all add: list_all_iff\<close>)

lemma trim_samples: "str_trim ''a'' = ''a''" "str_trim ''b'' = ''b''"
  by code_simp+

lemma wire_samples: "list_all (\<lambda>d. wire_event (plain_event d)) [''a'', ''b'']"
  by (simp add: plain_event_def wire_event_def is_ascii_char_def)

definition sample_calls :: "string \<Rightarrow> string + json" where
  "sample_calls = table_parse [(''a'', gemini_call_chunk ''x'' ''f'' JNull), (''b'', gemini_call_chunk ''y'' ''g'' JNull),
     (''null'', JNull)]"

theorem gemini_split_calls_rejected_witness:
  "\<exists>out. run_attempt (gemini_adapter sample_calls (\<lambda>_. ''null'') ''gemini'' ''m'')
      (map Inr [concat (map render_event (map plain_event [''a'', ''b'']))]) = (out, None)
    \<and> (collect_model_step sample_calls (map Inr out) :: (string, unit) model_step_collection_error + _)
      = Inl (Collector (Reducer (InconsistentToolUseId ''gemini_tool:0'' ''x'' ''y'')))"
proof -
  have "sse_decode [concat (map render_event (map plain_event [''a'', ''b'']))] = Inr [plain_event ''a'', plain_event ''b'']"
    using sse_decode_plain [OF wire_samples] by simp
  then show ?thesis
    by (rule gemini_split_calls_rejected
        [where ?name1.0 = "''f''" and ?name2.0 = "''g''" and ?args1.0 = JNull and ?args2.0 = JNull])
      (simp_all add: plain_event_def trim_samples table_parse_def sample_calls_def)
qed

text \<open>An OpenAI response with one text delta.\<close>

definition sample_delta :: json where
  "sample_delta = JObject [(''delta'', JString ''hi''), (''item_id'', JString ''i''),
     (''type'', JString ''response.output_text.delta'')]"

definition sample_completed :: json where
  "sample_completed = JObject [(''response'', JObject [(''output'', JArray [JObject [(''content'', JString ''hi''),
     (''type'', JString ''message'')]])]), (''type'', JString ''response.completed'')]"

definition sample_openai :: "responses_stream_state stream_adapter" where
  "sample_openai = openai_adapter (table_parse [(''a'', sample_delta), (''b'', sample_completed)]) (\<lambda>_. [])
     (\<lambda>_. []) (\<lambda>_ _ _ _ _. None) ''openai'' ''m''"

theorem collected_steps_actionable_witness:
  "\<exists>step. collected_step (table_parse [(''a'', sample_delta), (''b'', sample_completed)]) provider_error_class sample_openai
      (\<lambda>_. Inr [Inr (concat (map render_event (map plain_event [''a'', ''b''])))]) = Some step
    \<and> ms_kind step = Final \<and> step_actionable step"
proof -
  let ?parse = "table_parse [(''a'', sample_delta), (''b'', sample_completed)]"
  let ?connect = "\<lambda>_ :: nat. Inr [Inr (concat (map render_event (map plain_event [''a'', ''b''])))]
    :: provider_error + (string + string) list"
  let ?cont = "\<lparr>pc_provider = ''openai'', pc_data = JArray [JObject [(''content'', JString ''hi''), (''type'', JString ''message'')]]\<rparr>"
  let ?out = "[Delta (DeltaText ''i'' ''hi''), EvContinuation ?cont, Finished Final ''m'']"
  have decode: "sse_decode [concat (map render_event (map plain_event [''a'', ''b'']))] = Inr [plain_event ''a'', plain_event ''b'']"
    using sse_decode_plain [OF wire_samples] by simp
  have "run_events sample_openai [plain_event ''a'', plain_event ''b''] (sa_init sample_openai) = (?out, None)"
    by (simp add: run_events_def sample_openai_def openai_adapter_def openai_stream_event_def trim_samples plain_event_def
        table_parse_def sample_delta_def sample_completed_def responses_event_def event_type_of_def json_str_field_def
        btm_get_def responses_text_delta_def stream_item_id_def nonempty_str_def responses_stream_state_default_def
        openai_terminal_events_def openai_response_from_value_def object_field_def default_array_def default_string_def
        default_value_def usage_from_openai_def walk_output_def walk_item_def responses_terminal_events_def
        response_kind_def unstreamed_calls_def reasoning_items_to_delta_events_def from_continuation_and_usage_def
        reasoning_items_from_continuation_def reasoning_item_from_value_def annotation_grounding_def Let_def)
  then have "run_attempt sample_openai (map Inr [concat (map render_event (map plain_event [''a'', ''b'']))]) = (?out, None)"
    using attempt_chunks_decoded [OF decode [unfolded sse_decode_def], of sample_openai "sa_init sample_openai"]
    by (simp add: run_attempt_def)
  then have "stream_step provider_error_class sample_openai ?connect = (?out, None, [])"
    by (simp add: stream_step_def step_attempts.simps)
  moreover have "(collect_model_step ?parse (map Inr ?out) :: (string, unit) model_step_collection_error + _)
      = Inr \<lparr>ms_kind = Final, ms_output = \<lparr>mso_model_id = ''m'',
        mso_items = [OutputBlock (OutText ''hi''), OutputBlock (OutContinuation ?cont)], mso_usage = []\<rparr>\<rparr>"
    by (simp add: collect_model_step_def collector_push_def push_delta_def pending_slot_def collector_default_def btm_get_def
        push_slot_def collector_finish_def model_step_output_new_def Let_def)
  ultimately obtain step where step: "collected_step ?parse provider_error_class sample_openai ?connect = Some step"
    and kind: "ms_kind step = Final" by (simp add: collected_step_def)
  moreover have "step_actionable step"
    by (rule collected_steps_actionable [OF disjI1]) (use step in \<open>simp add: sample_openai_def\<close>)
  ultimately show ?thesis by blast
qed

end
