(* ===== verification/Discord_Split.thy ===== *)
theory Discord_Split
  imports Rust_Utf8
begin

text \<open>
  Splitting of long answers in \<open>chudbot-discord/src/lib.rs\<close>: a message is cut into markdown segments (plain
  text and code fences), each segment into pieces of at most 2000 characters, and the pieces are packed into
  messages. The loops of the code that cut a text are partial functions here: \<open>None\<close> is a loop that does
  not end or a slice off a character boundary, which panics.
\<close>

section \<open>String operations\<close>

fun str_rfind :: "string \<Rightarrow> string \<Rightarrow> nat option" where
  "str_rfind [] p = (if p = [] then Some 0 else None)"
| "str_rfind (c # s) p =
     (case str_rfind s p of
        Some n \<Rightarrow> Some (Suc n)
      | None \<Rightarrow> if starts_with (c # s) p then Some 0 else None)"

fun byte_index_after_chars :: "string \<Rightarrow> nat \<Rightarrow> nat" where
  "byte_index_after_chars [] max_chars = 0"
| "byte_index_after_chars (c # s) max_chars =
     (if is_continuation_byte c then Suc (byte_index_after_chars s max_chars)
      else case max_chars of 0 \<Rightarrow> 0 | Suc n \<Rightarrow> Suc (byte_index_after_chars s n))"

definition next_line_end :: "string \<Rightarrow> nat" where
  "next_line_end rest =
     (if NL \<in> set rest then Suc (length (takeWhile (\<lambda>c. c \<noteq> NL) rest)) else length rest)"

definition trim_line_ending :: "string \<Rightarrow> string" where
  "trim_line_ending line =
     (let line = (case strip_suffix [NL] line of None \<Rightarrow> line | Some l \<Rightarrow> l)
      in case strip_suffix [CR] line of None \<Rightarrow> line | Some l \<Rightarrow> l)"

section \<open>Code fences\<close>

definition DISCORD_MESSAGE_LIMIT :: nat where
  "DISCORD_MESSAGE_LIMIT = 2000"

definition CODE_FENCE_MIN_WIDTH :: nat where
  "CODE_FENCE_MIN_WIDTH = 3"

record code_fence =
  cf_marker :: char
  cf_width :: nat

definition code_fence_marker :: "string \<Rightarrow> code_fence option" where
  "code_fence_marker line =
     (case trim_start line of
        [] \<Rightarrow> None
      | marker # rest \<Rightarrow>
          (if marker \<noteq> CHR ''`'' \<and> marker \<noteq> CHR ''~'' then None
           else (let width = length (takeWhile (\<lambda>ch. ch = marker) (marker # rest)) in
             if CODE_FENCE_MIN_WIDTH \<le> width then Some \<lparr>cf_marker = marker, cf_width = width\<rparr> else None)))"

definition fence_closes :: "code_fence \<Rightarrow> string \<Rightarrow> bool" where
  "fence_closes fence line =
     (case code_fence_marker line of
        None \<Rightarrow> False
      | Some candidate \<Rightarrow> cf_marker candidate = cf_marker fence \<and> cf_width fence \<le> cf_width candidate)"

definition closing_line :: "code_fence \<Rightarrow> string" where
  "closing_line fence = replicate (cf_width fence) (cf_marker fence)"

datatype markdown_segment = SegText string | SegCodeFence string

fun segment_text :: "markdown_segment \<Rightarrow> string" where
  "segment_text (SegText t) = t"
| "segment_text (SegCodeFence t) = t"

lemma takeWhile_before: "c \<in> set s \<Longrightarrow> length (takeWhile (\<lambda>x. x \<noteq> c) s) < length s"
  by (induction s) auto

lemma next_line_end_bounds: "rest \<noteq> [] \<Longrightarrow> 0 < next_line_end rest" "next_line_end rest \<le> length rest"
  using takeWhile_before [of NL rest] by (auto simp: next_line_end_def)

text \<open>
  The scan of \<open>markdown_segments\<close>: the rest of the content, the text since \<open>text_start\<close>, and the active
  fence with what it holds so far.
\<close>

function markdown_scan :: "string \<Rightarrow> string \<Rightarrow> (code_fence \<times> string) option \<Rightarrow> markdown_segment list" where
  "markdown_scan rest pending active =
     (if rest = [] then
        (case active of
           Some (_, held) \<Rightarrow> [SegCodeFence held]
         | None \<Rightarrow> if pending = [] then [] else [SegText pending])
      else
        (let line_end = next_line_end rest; line = take line_end rest; rest' = drop line_end rest;
             bare = trim_line_ending line
         in case active of
              Some (marker, held) \<Rightarrow>
                if fence_closes marker bare then SegCodeFence (held @ line) # markdown_scan rest' [] None
                else markdown_scan rest' pending (Some (marker, held @ line))
            | None \<Rightarrow>
                (case code_fence_marker bare of
                   Some marker \<Rightarrow>
                     (if pending = [] then [] else [SegText pending]) @ markdown_scan rest' [] (Some (marker, line))
                 | None \<Rightarrow> markdown_scan rest' (pending @ line) None)))"
  by pat_completeness auto
termination
  by (relation "measure (\<lambda>(rest, _, _). length rest)") (use next_line_end_bounds in auto)

declare markdown_scan.simps [simp del]

definition markdown_segments :: "string \<Rightarrow> markdown_segment list" where
  "markdown_segments content = markdown_scan content [] None"

section \<open>Cutting\<close>

fun first_separator :: "string list \<Rightarrow> string \<Rightarrow> nat option" where
  "first_separator [] candidate = None"
| "first_separator (separator # separators) candidate =
     (case str_rfind candidate separator of
        None \<Rightarrow> first_separator separators candidate
      | Some position \<Rightarrow>
          (if 0 < position + length separator then Some (position + length separator)
           else first_separator separators candidate))"

definition split_point :: "string list \<Rightarrow> string \<Rightarrow> nat \<Rightarrow> nat" where
  "split_point separators s max_chars =
     (let limit = byte_index_after_chars s max_chars
      in case first_separator separators (take limit s) of None \<Rightarrow> limit | Some split_at \<Rightarrow> split_at)"

definition text_separators :: "string list" where
  "text_separators = [[NL, NL], [NL], ''. '', ''! '', ''? '', ''; '', '', '', '': '', '' '']"

definition code_separators :: "string list" where
  "code_separators = [[NL], '' '', '','', '';'', '':'']"

definition find_text_split_point :: "string \<Rightarrow> nat \<Rightarrow> nat" where
  "find_text_split_point = split_point text_separators"

definition find_code_split_point :: "string \<Rightarrow> nat \<Rightarrow> nat" where
  "find_code_split_point = split_point code_separators"

text \<open>The loop of \<open>split_text_segment\<close> and \<open>split_code_body\<close>.\<close>

partial_function (option) split_loop :: "(string \<Rightarrow> nat \<Rightarrow> nat) \<Rightarrow> nat \<Rightarrow> string \<Rightarrow> string list option" where
  "split_loop point max_chars remaining =
     (if max_chars < char_count remaining
      then Option.bind (slice_at remaining (point remaining max_chars)) (\<lambda>halves.
        Option.bind (split_loop point max_chars (snd halves)) (\<lambda>chunks. Some (fst halves # chunks)))
      else Some (if remaining = [] then [] else [remaining]))"

definition split_text_segment :: "string \<Rightarrow> nat \<Rightarrow> string list option" where
  "split_text_segment s max_chars =
     (if char_count s \<le> max_chars then Some [s] else split_loop find_text_split_point max_chars s)"

definition split_code_body :: "string \<Rightarrow> nat \<Rightarrow> string list option" where
  "split_code_body body max_chars =
     (if char_count body \<le> max_chars then Some [body] else split_loop find_code_split_point max_chars body)"

text \<open>The lines of a fence up to the one that closes it.\<close>

function fence_body :: "code_fence \<Rightarrow> string \<Rightarrow> string" where
  "fence_body marker rest =
     (if rest = [] then []
      else (let line_end = next_line_end rest; line = take line_end rest in
        if fence_closes marker (trim_line_ending line) then [] else line @ fence_body marker (drop line_end rest)))"
  by pat_completeness auto
termination
  by (relation "measure (\<lambda>(_, rest). length rest)") (use next_line_end_bounds in auto)

declare fence_body.simps [simp del]

definition code_fence_parts :: "string \<Rightarrow> (string \<times> string \<times> code_fence) option" where
  "code_fence_parts segment =
     (let opening_end = next_line_end segment; opening = take opening_end segment in
      map_option (\<lambda>marker. (opening, fence_body marker (drop opening_end segment), marker))
        (code_fence_marker (trim_line_ending opening)))"

definition balanced_code_chunk :: "string \<Rightarrow> string \<Rightarrow> string \<Rightarrow> string" where
  "balanced_code_chunk opening body closing =
     (let chunk = opening @ body in
      (if chunk \<noteq> [] \<and> last chunk = NL then chunk else chunk @ [NL]) @ closing)"

definition split_code_fence_segment :: "string \<Rightarrow> string list option" where
  "split_code_fence_segment segment =
     (if char_count segment \<le> DISCORD_MESSAGE_LIMIT then Some [segment]
      else case code_fence_parts segment of
        None \<Rightarrow> split_text_segment segment DISCORD_MESSAGE_LIMIT
      | Some (opening, body, marker) \<Rightarrow>
          (let closing = closing_line marker; overhead = char_count opening + char_count closing + 1 in
           if DISCORD_MESSAGE_LIMIT \<le> overhead then split_text_segment segment DISCORD_MESSAGE_LIMIT
           else map_option (map (\<lambda>body. balanced_code_chunk opening body closing))
             (split_code_body body (DISCORD_MESSAGE_LIMIT - overhead))))"

section \<open>Packing\<close>

definition append_discord_chunk :: "string list \<times> string \<Rightarrow> string \<Rightarrow> (string list \<times> string) option" where
  "append_discord_chunk acc piece =
     (case acc of (chunks, current) \<Rightarrow>
        if piece = [] then Some (chunks, current)
        else if char_count current + char_count piece \<le> DISCORD_MESSAGE_LIMIT then Some (chunks, current @ piece)
        else
          (let chunks = (if current = [] then chunks else chunks @ [current]) in
           if char_count piece \<le> DISCORD_MESSAGE_LIMIT then Some (chunks, piece)
           else map_option (\<lambda>pieces. (chunks @ filter (\<lambda>c. char_count c \<le> DISCORD_MESSAGE_LIMIT) pieces, []))
             (split_text_segment piece DISCORD_MESSAGE_LIMIT)))"

fun try_all :: "('a \<Rightarrow> 'b \<Rightarrow> 'b option) \<Rightarrow> 'a list \<Rightarrow> 'b \<Rightarrow> 'b option" where
  "try_all f [] acc = Some acc"
| "try_all f (x # xs) acc = Option.bind (f x acc) (try_all f xs)"

fun segment_pieces :: "markdown_segment \<Rightarrow> string list option" where
  "segment_pieces (SegText t) = split_text_segment t DISCORD_MESSAGE_LIMIT"
| "segment_pieces (SegCodeFence t) = split_code_fence_segment t"

definition append_segment :: "markdown_segment \<Rightarrow> string list \<times> string \<Rightarrow> (string list \<times> string) option" where
  "append_segment segment acc =
     Option.bind (segment_pieces segment) (\<lambda>pieces. try_all (\<lambda>piece acc. append_discord_chunk acc piece) pieces acc)"

definition split_discord_content :: "string \<Rightarrow> string list option" where
  "split_discord_content content =
     (if content = [] then Some [[]]
      else map_option (\<lambda>(chunks, current).
          let chunks = (if current = [] then chunks else chunks @ [current])
          in if chunks = [] then [[]] else chunks)
        (try_all append_segment (markdown_segments content) ([], [])))"

section \<open>Where a text is cut\<close>

lemma byte_index_le: "byte_index_after_chars s n \<le> length s"
  by (induction s n rule: byte_index_after_chars.induct) (auto split: nat.splits)

lemma byte_index_pos: "0 < n \<Longrightarrow> s \<noteq> [] \<Longrightarrow> 0 < byte_index_after_chars s n"
  by (cases s; cases n) auto

lemma byte_index_boundary: "is_char_boundary s (byte_index_after_chars s n)"
  by (induction s n rule: byte_index_after_chars.induct) (auto simp: is_char_boundary_def split: nat.splits)

lemma byte_index_count: "char_count (take (byte_index_after_chars s n) s) \<le> n"
  by (induction s n rule: byte_index_after_chars.induct) (auto simp: char_count_def split: nat.splits)

lemma str_rfind_Some: "str_rfind s p = Some n \<Longrightarrow> \<exists>a b. s = a @ p @ b \<and> length a = n"
proof (induction s arbitrary: n)
  case Nil
  then show ?case by (auto split: if_splits)
next
  case (Cons c s)
  show ?case
  proof (cases "str_rfind s p")
    case None
    with Cons.prems have "take (length p) (c # s) = p" "n = 0"
      by (auto simp: starts_with_def split: if_splits)
    then have "c # s = [] @ p @ drop (length p) (c # s)" by (metis append_Nil append_take_drop_id)
    with \<open>n = 0\<close> show ?thesis by (metis list.size(3))
  next
    case (Some k)
    then obtain a b where "s = a @ p @ b" "length a = k" using Cons.IH by blast
    with Some Cons.prems show ?thesis by (intro exI [of _ "c # a"] exI [of _ b]) auto
  qed
qed

definition ascii_separator :: "string \<Rightarrow> bool" where
  "ascii_separator p \<longleftrightarrow> p \<noteq> [] \<and> is_ascii_char (last p)"

lemma first_separator_Some:
  "first_separator separators s = Some n \<Longrightarrow> \<exists>p\<in>set separators. \<exists>a b. s = a @ p @ b \<and> n = length (a @ p)"
proof (induction separators)
  case (Cons p separators)
  show ?case
  proof (cases "first_separator separators s = Some n")
    case True
    then show ?thesis using Cons.IH by (auto simp del: first_separator.simps)
  next
    case False
    then obtain k where "str_rfind s p = Some k" "n = k + length p"
      using Cons.prems by (auto split: option.splits if_splits)
    then show ?thesis using str_rfind_Some [of s p k] by force
  qed
qed simp

lemma after_ascii_boundary:
  assumes "utf8_valid (a @ p @ b)" "ascii_separator p"
  shows "is_char_boundary (a @ p @ b) (length (a @ p))"
proof -
  obtain q c where p: "p = q @ [c]" "is_ascii_char c"
    using assms(2) by (metis ascii_separator_def append_butlast_last_id)
  have "utf8_valid b"
    using utf8_valid_split [of c "a @ q" b] assms(1) p by simp
  then show ?thesis
    by (cases b) (auto simp: is_char_boundary_def nth_append dest: utf8_valid_Cons_start)
qed

lemma char_count_take_mono: "m \<le> n \<Longrightarrow> char_count (take m s) \<le> char_count (take n s)"
  by (metis char_count_append le_add1 le_add_diff_inverse take_add)

lemma split_point_cuts:
  assumes "list_all ascii_separator separators" "utf8_valid s" "0 < m" "m < char_count s"
  defines "n \<equiv> split_point separators s m"
  shows "0 < n \<and> is_char_boundary s n \<and> char_count (take n s) \<le> m"
proof (cases "first_separator separators (take (byte_index_after_chars s m) s)")
  case None
  have "s \<noteq> []" using assms(4) by auto
  with None assms(3) show ?thesis
    by (simp add: n_def split_point_def Let_def byte_index_pos byte_index_boundary byte_index_count)
next
  case (Some k)
  let ?limit = "byte_index_after_chars s m"
  obtain p a b where p: "p \<in> set separators" "take ?limit s = a @ p @ b" "k = length (a @ p)"
    using first_separator_Some [OF Some] by blast
  then have sep: "ascii_separator p" using assms(1) by (simp add: list_all_iff)
  have s: "s = a @ p @ (b @ drop ?limit s)" using p(2) by (metis append.assoc append_take_drop_id)
  then have "is_char_boundary s k"
    using after_ascii_boundary [of a p "b @ drop ?limit s"] assms(2) sep p(3) by metis
  moreover have "k \<le> ?limit" using arg_cong [OF p(2), of length] p(3) by simp
  then have "char_count (take k s) \<le> m"
    using char_count_take_mono [of k ?limit s] byte_index_count [of s m] by simp
  moreover have "0 < k" using sep p(3) by (simp add: ascii_separator_def)
  moreover have "n = k" using Some by (simp add: n_def split_point_def Let_def)
  ultimately show ?thesis by simp
qed

text \<open>What the cutting loop relies on.\<close>

locale cutter =
  fixes point :: "string \<Rightarrow> nat \<Rightarrow> nat"
  assumes cuts: "utf8_valid s \<Longrightarrow> 0 < m \<Longrightarrow> m < char_count s \<Longrightarrow>
    0 < point s m \<and> is_char_boundary s (point s m) \<and> char_count (take (point s m) s) \<le> m"
begin

text \<open>The loop ends without a panic, and its chunks are valid, short enough and together the text.\<close>

lemma loop_cuts:
  assumes "0 < m"
  shows "utf8_valid s \<Longrightarrow>
    \<exists>chunks. split_loop point m s = Some chunks \<and> concat chunks = s
      \<and> (\<forall>c\<in>set chunks. utf8_valid c \<and> char_count c \<le> m)"
proof (induction s rule: measure_induct_rule [where f = length])
  case (less s)
  show ?case
  proof (cases "m < char_count s")
    case False
    then show ?thesis using less.prems by (subst split_loop.simps) simp
  next
    case True
    let ?n = "point s m"
    note cut = cuts [OF less.prems assms True]
    then have valid: "utf8_valid (take ?n s)" "utf8_valid (drop ?n s)"
      using utf8_valid_boundary [OF less.prems] by auto
    have "s \<noteq> []" using True by auto
    then have "length (drop ?n s) < length s" using cut by simp
    with less.IH valid(2) obtain chunks where "split_loop point m (drop ?n s) = Some chunks"
      "concat chunks = drop ?n s" "\<forall>c\<in>set chunks. utf8_valid c \<and> char_count c \<le> m" by blast
    then show ?thesis
      using True cut valid by (subst split_loop.simps) (simp add: slice_at_def)
  qed
qed

end

lemma separators_ascii: "list_all ascii_separator text_separators" "list_all ascii_separator code_separators"
  by (simp_all add: text_separators_def code_separators_def ascii_separator_def is_ascii_char_def)

interpretation text_cutter: cutter find_text_split_point
  by unfold_locales (use split_point_cuts [OF separators_ascii(1)] in \<open>simp add: find_text_split_point_def\<close>)

interpretation code_cutter: cutter find_code_split_point
  by unfold_locales (use split_point_cuts [OF separators_ascii(2)] in \<open>simp add: find_code_split_point_def\<close>)

section \<open>Pieces\<close>

definition good_chunk :: "string \<Rightarrow> bool" where
  "good_chunk c \<longleftrightarrow> utf8_valid c \<and> char_count c \<le> DISCORD_MESSAGE_LIMIT"

lemma limit_pos [simp]: "0 < DISCORD_MESSAGE_LIMIT"
  by (simp add: DISCORD_MESSAGE_LIMIT_def)

lemma text_pieces:
  assumes "utf8_valid s"
  obtains pieces where "split_text_segment s DISCORD_MESSAGE_LIMIT = Some pieces" "concat pieces = s"
    "list_all good_chunk pieces"
proof (cases "char_count s \<le> DISCORD_MESSAGE_LIMIT")
  case True
  then show thesis using that [of "[s]"] assms by (simp add: split_text_segment_def good_chunk_def)
next
  case False
  then show thesis
    using text_cutter.loop_cuts [OF limit_pos assms] that
    by (auto simp: split_text_segment_def good_chunk_def list_all_iff)
qed

lemma body_pieces:
  assumes "utf8_valid s" "0 < m"
  obtains pieces where "split_code_body s m = Some pieces" "concat pieces = s"
    "\<forall>c\<in>set pieces. utf8_valid c \<and> char_count c \<le> m"
proof (cases "char_count s \<le> m")
  case True
  then show thesis using that [of "[s]"] assms by (simp add: split_code_body_def)
next
  case False
  then show thesis
    using code_cutter.loop_cuts [OF assms(2,1)] that by (auto simp: split_code_body_def)
qed

lemma next_line_cases:
  assumes "rest \<noteq> []"
  obtains (ended) a b where "rest = a @ NL # b" "NL \<notin> set a" "take (next_line_end rest) rest = a @ [NL]"
      "drop (next_line_end rest) rest = b"
    | (last_line) "NL \<notin> set rest" "take (next_line_end rest) rest = rest" "drop (next_line_end rest) rest = []"
proof (cases "NL \<in> set rest")
  case True
  then obtain a b where "rest = a @ NL # b" "NL \<notin> set a" by (metis split_list_first)
  moreover from this have "next_line_end rest = length (a @ [NL])"
    by (simp add: next_line_end_def takeWhile_append)
  ultimately show thesis using ended by simp
next
  case False
  then show thesis using last_line by (simp add: next_line_end_def)
qed

lemma NL_ascii: "is_ascii_char NL"
  by (simp add: is_ascii_char_def)

lemma next_line_valid:
  "utf8_valid rest \<Longrightarrow> utf8_valid (take (next_line_end rest) rest) \<and> utf8_valid (drop (next_line_end rest) rest)"
proof (cases "rest = []")
  case False
  assume valid: "utf8_valid rest"
  from False show ?thesis
  proof (cases rule: next_line_cases)
    case (ended a b)
    then show ?thesis
      using utf8_valid_split [OF NL_ascii, of a b] valid NL_ascii by (simp add: utf8_valid_append)
  qed (use valid in simp_all)
qed simp

lemma fence_body_valid: "utf8_valid rest \<Longrightarrow> utf8_valid (fence_body marker rest)"
proof (induction marker rest rule: fence_body.induct)
  case (1 marker rest)
  then show ?case
    using next_line_valid [of rest]
    by (subst fence_body.simps) (simp add: Let_def utf8_valid_append)
qed

lemma code_fence_marker_Some:
  "code_fence_marker line = Some m \<Longrightarrow> cf_marker m \<in> {CHR ''`'', CHR ''~''}"
  by (auto simp: code_fence_marker_def Let_def split: list.splits if_splits)

lemma closing_line_chars:
  assumes "cf_marker m \<in> {CHR ''`'', CHR ''~''}"
  shows "utf8_valid (closing_line m)" "char_count (closing_line m) = cf_width m"
proof -
  have "is_ascii_char (cf_marker m)" "\<not> is_continuation_byte (cf_marker m)"
    using assms by (auto simp: is_ascii_char_def is_continuation_byte_def)
  moreover have "utf8_valid (replicate k c)" if "is_ascii_char c" for k c
    using that by (induction k) simp_all
  ultimately show "utf8_valid (closing_line m)" "char_count (closing_line m) = cf_width m"
    by (simp_all add: closing_line_def char_count_def)
qed

lemma balanced_chunk_good:
  assumes "utf8_valid opening" "utf8_valid body" "utf8_valid closing"
    and "char_count opening + char_count body + char_count closing + 1 \<le> DISCORD_MESSAGE_LIMIT"
  shows "good_chunk (balanced_code_chunk opening body closing)"
proof -
  have "char_count [NL] = 1" by (simp add: char_count_def is_continuation_byte_def)
  then show ?thesis
    using assms by (auto simp: good_chunk_def balanced_code_chunk_def Let_def utf8_valid_append NL_ascii)
qed

text \<open>An over-long fence: what every piece is, and that the bodies are the body.\<close>

lemma fence_pieces:
  assumes "utf8_valid s" "DISCORD_MESSAGE_LIMIT < char_count s"
    and "code_fence_parts s = Some (opening, body, marker)"
    and "char_count opening + char_count (closing_line marker) + 1 < DISCORD_MESSAGE_LIMIT"
  obtains bodies where "split_code_fence_segment s
      = Some (map (\<lambda>b. balanced_code_chunk opening b (closing_line marker)) bodies)"
    "concat bodies = body"
    "list_all good_chunk (map (\<lambda>b. balanced_code_chunk opening b (closing_line marker)) bodies)"
proof -
  let ?m = "DISCORD_MESSAGE_LIMIT - (char_count opening + char_count (closing_line marker) + 1)"
  have start: "opening = take (next_line_end s) s" and body: "body = fence_body marker (drop (next_line_end s) s)"
    and marker: "cf_marker marker \<in> {CHR ''`'', CHR ''~''}"
    using assms(3) code_fence_marker_Some by (auto simp: code_fence_parts_def Let_def)
  have valid: "utf8_valid opening" "utf8_valid body" "utf8_valid (closing_line marker)"
    using next_line_valid [OF assms(1)] closing_line_chars(1) [OF marker] fence_body_valid
    by (auto simp: start body)
  have "0 < ?m" using assms(4) by simp
  from body_pieces [OF valid(2) this] obtain bodies where bodies: "split_code_body body ?m = Some bodies"
    "concat bodies = body" "\<forall>b\<in>set bodies. utf8_valid b \<and> char_count b \<le> ?m"
    by blast
  moreover have "list_all good_chunk (map (\<lambda>b. balanced_code_chunk opening b (closing_line marker)) bodies)"
    using bodies(3) assms(4) balanced_chunk_good [OF valid(1) _ valid(3)] by (fastforce simp: list_all_iff)
  ultimately show thesis
    using that assms by (simp add: split_code_fence_segment_def Let_def)
qed

lemma segment_pieces_good:
  assumes "utf8_valid (segment_text seg)"
  obtains pieces where "segment_pieces seg = Some pieces" "list_all good_chunk pieces"
    "(\<exists>t. seg = SegText t) \<or> char_count (segment_text seg) \<le> DISCORD_MESSAGE_LIMIT \<Longrightarrow> concat pieces = segment_text seg"
proof (cases seg)
  case (SegText t)
  then show thesis using text_pieces [of t] assms that by auto
next
  case (SegCodeFence t)
  show thesis
  proof (cases "char_count t \<le> DISCORD_MESSAGE_LIMIT")
    case True
    then show thesis
      using that [of "[t]"] SegCodeFence assms by (simp add: split_code_fence_segment_def good_chunk_def)
  next
    case long: False
    show thesis
    proof (cases "\<exists>opening body marker. code_fence_parts t = Some (opening, body, marker)
        \<and> char_count opening + char_count (closing_line marker) + 1 < DISCORD_MESSAGE_LIMIT")
      case True
      then show thesis
        using fence_pieces [of t] assms long that SegCodeFence by (metis not_le segment_pieces.simps(2) segment_text.simps(2) markdown_segment.distinct(1))
    next
      case False
      then have "split_code_fence_segment t = split_text_segment t DISCORD_MESSAGE_LIMIT"
        using long by (auto simp: split_code_fence_segment_def Let_def split: option.splits)
      then show thesis using text_pieces [of t] assms that SegCodeFence by auto
    qed
  qed
qed

section \<open>Segments\<close>

lemma markdown_scan_text:
  "(\<forall>m held. active = Some (m, held) \<longrightarrow> pending = []) \<Longrightarrow>
    concat (map segment_text (markdown_scan rest pending active))
      = (case active of None \<Rightarrow> pending | Some (_, held) \<Rightarrow> held) @ rest"
proof (induction rest pending active rule: markdown_scan.induct)
  case (1 rest pending active)
  show ?case
  proof (cases "rest = []")
    case True
    then show ?thesis by (subst markdown_scan.simps) (auto split: option.splits)
  next
    case False
    have line: "take (next_line_end rest) rest @ drop (next_line_end rest) rest = rest" by simp
    show ?thesis
      using 1 False
      by (subst markdown_scan.simps) (auto simp: Let_def line split: option.splits)
  qed
qed

lemma markdown_scan_valid:
  "utf8_valid rest \<Longrightarrow> utf8_valid pending \<Longrightarrow> (\<forall>m held. active = Some (m, held) \<longrightarrow> utf8_valid held) \<Longrightarrow>
    list_all (\<lambda>seg. utf8_valid (segment_text seg)) (markdown_scan rest pending active)"
proof (induction rest pending active rule: markdown_scan.induct)
  case (1 rest pending active)
  show ?case
  proof (cases "rest = []")
    case True
    then show ?thesis using "1.prems" by (subst markdown_scan.simps) (auto split: option.splits)
  next
    case False
    show ?thesis
      using 1 False next_line_valid [of rest]
      by (subst markdown_scan.simps) (auto simp: Let_def utf8_valid_append split: option.splits)
  qed
qed

section \<open>Messages\<close>

definition packed :: "string list \<times> string \<Rightarrow> bool" where
  "packed acc \<longleftrightarrow> list_all good_chunk (fst acc) \<and> good_chunk (snd acc)"

definition packed_text :: "string list \<times> string \<Rightarrow> string" where
  "packed_text acc = concat (fst acc) @ snd acc"

lemma append_packed:
  assumes "packed acc" "good_chunk piece"
  shows "\<exists>acc'. append_discord_chunk acc piece = Some acc' \<and> packed acc'
    \<and> packed_text acc' = packed_text acc @ piece"
  using assms
  by (cases acc) (auto simp: append_discord_chunk_def packed_def packed_text_def good_chunk_def Let_def utf8_valid_append)

lemma pieces_packed:
  assumes "list_all good_chunk pieces"
  shows "packed acc \<Longrightarrow> \<exists>acc'. try_all (\<lambda>piece acc. append_discord_chunk acc piece) pieces acc = Some acc'
    \<and> packed acc' \<and> packed_text acc' = packed_text acc @ concat pieces"
  using assms
proof (induction pieces arbitrary: acc)
  case (Cons piece pieces)
  then have "packed acc" "good_chunk piece" by auto
  from append_packed [OF this] obtain acc1 where "append_discord_chunk acc piece = Some acc1" "packed acc1"
    "packed_text acc1 = packed_text acc @ piece"
    by blast
  with Cons show ?case by fastforce
qed simp

fun short_fence :: "markdown_segment \<Rightarrow> bool" where
  "short_fence (SegText t) = True"
| "short_fence (SegCodeFence t) \<longleftrightarrow> char_count t \<le> DISCORD_MESSAGE_LIMIT"

lemma short_fence_cases:
  "short_fence seg \<Longrightarrow> (\<exists>t. seg = SegText t) \<or> char_count (segment_text seg) \<le> DISCORD_MESSAGE_LIMIT"
  by (cases seg) auto

lemma segment_packed:
  assumes "packed acc" "utf8_valid (segment_text seg)"
  shows "\<exists>acc'. append_segment seg acc = Some acc' \<and> packed acc'
    \<and> (short_fence seg \<longrightarrow> packed_text acc' = packed_text acc @ segment_text seg)"
proof -
  obtain pieces where pieces: "segment_pieces seg = Some pieces" "list_all good_chunk pieces"
    "short_fence seg \<longrightarrow> concat pieces = segment_text seg"
    using segment_pieces_good [OF assms(2)] short_fence_cases by metis
  then show ?thesis
    using pieces_packed [OF pieces(2) assms(1)] by (auto simp: append_segment_def)
qed

lemma segments_packed:
  assumes "list_all (\<lambda>seg. utf8_valid (segment_text seg)) segs"
  shows "packed acc \<Longrightarrow> \<exists>acc'. try_all append_segment segs acc = Some acc' \<and> packed acc'
    \<and> (list_all short_fence segs \<longrightarrow> packed_text acc' = packed_text acc @ concat (map segment_text segs))"
  using assms
proof (induction segs arbitrary: acc)
  case (Cons seg segs)
  then have "packed acc" "utf8_valid (segment_text seg)" by auto
  from segment_packed [OF this] obtain acc1 where acc1: "append_segment seg acc = Some acc1" "packed acc1"
    "short_fence seg \<longrightarrow> packed_text acc1 = packed_text acc @ segment_text seg"
    by blast
  then obtain acc2 where "try_all append_segment segs acc1 = Some acc2" "packed acc2"
    "list_all short_fence segs \<longrightarrow> packed_text acc2 = packed_text acc1 @ concat (map segment_text segs)"
    using Cons.IH [OF acc1(2)] Cons.prems(2) by auto
  with acc1 show ?case by auto
qed simp

lemma split_discord_spec:
  assumes "utf8_valid content"
  shows "\<exists>chunks. split_discord_content content = Some chunks \<and> chunks \<noteq> [] \<and> list_all good_chunk chunks
    \<and> (list_all short_fence (markdown_segments content) \<longrightarrow> concat chunks = content)"
proof (cases "content = []")
  case True
  then show ?thesis by (simp add: split_discord_content_def good_chunk_def)
next
  case False
  let ?segs = "markdown_segments content"
  have whole: "concat (map segment_text ?segs) = content"
    by (simp add: markdown_segments_def markdown_scan_text)
  have "list_all (\<lambda>seg. utf8_valid (segment_text seg)) ?segs"
    unfolding markdown_segments_def by (rule markdown_scan_valid) (simp_all add: assms)
  then obtain chunks current where "try_all append_segment ?segs ([], []) = Some (chunks, current)"
    and "packed (chunks, current)"
    and "list_all short_fence ?segs \<longrightarrow> packed_text (chunks, current) = content"
    using segments_packed [of ?segs "([], [])"] by (auto simp: whole packed_def packed_text_def good_chunk_def)
  then show ?thesis
    using False by (auto simp: split_discord_content_def packed_def packed_text_def Let_def good_chunk_def)
qed

text \<open>
  C30: Splitting always returns: for every text of an answer the loops end, no slice panics, and there is at least
  one message; every message is well-formed and has at most the 2000 characters Discord accepts.
\<close>

theorem split_discord_returns:
  assumes "utf8_valid content"
  shows "\<exists>chunks. split_discord_content content = Some chunks \<and> chunks \<noteq> []
    \<and> list_all (\<lambda>c. utf8_valid c \<and> char_count c \<le> 2000) chunks"
  using split_discord_spec [OF assms]
  by (auto simp: good_chunk_def DISCORD_MESSAGE_LIMIT_def list_all_iff)

lemma utf8_valid_replicate: "is_ascii_char c \<Longrightarrow> utf8_valid (replicate n c)"
  by (induction n) simp_all

theorem split_discord_returns_witness:
  "\<exists>chunks. split_discord_content (replicate 2003 (CHR ''a'')) = Some chunks
    \<and> list_all (\<lambda>c. utf8_valid c \<and> char_count c \<le> 2000) chunks"
  using split_discord_returns [OF utf8_valid_replicate, of "CHR ''a''" 2003] by (auto simp: is_ascii_char_def)

text \<open>
  C31: Nothing is lost or added in the split: unless a single code fence is longer than a message, the messages
  put together are the answer.
\<close>

theorem split_discord_lossless:
  assumes "utf8_valid content" "list_all short_fence (markdown_segments content)"
    and "split_discord_content content = Some chunks"
  shows "concat chunks = content"
  using split_discord_spec [OF assms(1)] assms(2,3) by auto

definition sample_answer :: string where
  "sample_answer = ''hi'' @ [NL] @ ''```'' @ [NL] @ ''x'' @ [NL] @ ''```''"

lemma sample_split:
  "markdown_segments sample_answer = [SegText (''hi'' @ [NL]), SegCodeFence (drop 3 sample_answer)]"
  "utf8_valid sample_answer"
  by code_simp+

theorem split_discord_lossless_witness:
  "split_discord_content sample_answer = Some [sample_answer] \<and> concat [sample_answer] = sample_answer"
proof -
  have "try_all append_segment (markdown_segments sample_answer) ([], []) = Some ([], sample_answer)"
    unfolding sample_split(1)
    by (simp add: append_segment_def split_text_segment_def split_code_fence_segment_def append_discord_chunk_def
        DISCORD_MESSAGE_LIMIT_def char_count_def is_continuation_byte_def sample_answer_def)
  then have split: "split_discord_content sample_answer = Some [sample_answer]"
    by (simp add: split_discord_content_def sample_answer_def)
  have "list_all short_fence (markdown_segments sample_answer)"
    unfolding sample_split(1)
    by (simp add: DISCORD_MESSAGE_LIMIT_def char_count_def is_continuation_byte_def sample_answer_def)
  from split_discord_lossless [OF sample_split(2) this split] split show ?thesis by simp
qed

end
