(* ===== verification/Discord_Send.thy ===== *)
theory Discord_Send
  imports Discord_Split Rust_Decimal
begin

text \<open>
  Posting in \<open>chudbot-discord/src/lib.rs\<close>: identifiers, attachments in batches of ten, \<open>send_message\<close> with
  its thread, and the reconnect delays of the gateway loop. Discord's REST interface is a parameter: what it
  answers to a thread, a direct-message channel and the n-th message; a send records the calls it makes.
\<close>

section \<open>Identifiers\<close>

type_synonym external_id = string

record channel_ref =
  ch_platform :: string
  ch_guild_id :: "external_id option"
  ch_channel_id :: external_id

record message_ref =
  mr_platform :: string
  mr_guild_id :: "external_id option"
  mr_channel_id :: external_id
  mr_message_id :: external_id

datatype discord_error =
    DiscordHttp string
  | InvalidId string external_id
  | NoPostedMessage

definition parse_id :: "string \<Rightarrow> external_id \<Rightarrow> discord_error + u64" where
  "parse_id kind x =
     (case parse_u64 x of
        None \<Rightarrow> Inl (InvalidId kind x)
      | Some n \<Rightarrow> if n = 0 then Inl (InvalidId kind x) else Inr n)"

definition external_id_of :: "u64 \<Rightarrow> external_id" where
  "external_id_of x = dec_digits (unat x)"

definition message_ref_from_ids :: "string \<Rightarrow> external_id option \<Rightarrow> u64 \<Rightarrow> u64 \<Rightarrow> message_ref" where
  "message_ref_from_ids platform guild_id channel_id message_id =
     \<lparr>mr_platform = platform, mr_guild_id = guild_id, mr_channel_id = external_id_of channel_id,
      mr_message_id = external_id_of message_id\<rparr>"

datatype reaction_kind = ReactionUnicode string | ReactionCustom external_id "string option"

text \<open>Discord's own form of a reaction: a Unicode emoji or the id of a custom one.\<close>

datatype request_reaction_type = RequestUnicode string | RequestCustom u64 "string option"

fun request_reaction :: "reaction_kind \<Rightarrow> discord_error + request_reaction_type" where
  "request_reaction (ReactionUnicode name) = Inr (RequestUnicode name)"
| "request_reaction (ReactionCustom emoji name) =
     (case parse_id ''emoji'' emoji of Inl e \<Rightarrow> Inl e | Inr n \<Rightarrow> Inr (RequestCustom n name))"

fun reaction_kind_of :: "request_reaction_type \<Rightarrow> reaction_kind" where
  "reaction_kind_of (RequestUnicode name) = ReactionUnicode name"
| "reaction_kind_of (RequestCustom n name) = ReactionCustom (external_id_of n) name"

lemma parse_external_id: "n \<noteq> 0 \<Longrightarrow> parse_id kind (external_id_of n) = Inr n"
  by (simp add: parse_id_def external_id_of_def parse_u64_dec)

section \<open>Attachments\<close>

record outgoing_attachment =
  oa_filename :: string
  oa_content_type :: string
  oa_bytes :: string

record http_attachment =
  ha_filename :: string
  ha_bytes :: string
  ha_number :: u64

record attachment_candidate =
  ac_filename :: string
  ac_content_type :: string
  ac_size_bytes :: u64

record attachment_preflight =
  ap_candidate :: attachment_candidate
  ap_direct_upload :: bool
  ap_reason :: "string option"

definition DISCORD_ATTACHMENT_LIMIT :: nat where
  "DISCORD_ATTACHMENT_LIMIT = 10"

definition DISCORD_ATTACHMENT_MAX_BYTES :: u64 where
  "DISCORD_ATTACHMENT_MAX_BYTES = 10 * 1024 * 1024"

definition http_attachments :: "outgoing_attachment list \<Rightarrow> http_attachment list" where
  "http_attachments attachments =
     map (\<lambda>(index, a). \<lparr>ha_filename = oa_filename a, ha_bytes = oa_bytes a,
         ha_number = (if index < 2 ^ 64 then of_nat index else - 1)\<rparr>) (List.enumerate 0 attachments)"

text \<open>\<open>slice::chunks\<close>.\<close>

function slice_chunks :: "nat \<Rightarrow> 'a list \<Rightarrow> 'a list list" where
  "slice_chunks n xs = (if xs = [] \<or> n = 0 then [] else take n xs # slice_chunks n (drop n xs))"
  by pat_completeness auto
termination
  by (relation "measure (\<lambda>(n, xs). length xs)") auto

declare slice_chunks.simps [simp del]

definition discord_attachment_batches :: "outgoing_attachment list \<Rightarrow> http_attachment list list" where
  "discord_attachment_batches attachments = map http_attachments (slice_chunks DISCORD_ATTACHMENT_LIMIT attachments)"

text \<open>\<open>show_bytes\<close> is \<open>format_bytes\<close>, which prints a floating-point number of mebibytes.\<close>

definition discord_attachment_preflight :: "(u64 \<Rightarrow> string) \<Rightarrow> attachment_candidate \<Rightarrow> attachment_preflight" where
  "discord_attachment_preflight show_bytes candidate =
     (if DISCORD_ATTACHMENT_MAX_BYTES < ac_size_bytes candidate
      then \<lparr>ap_candidate = candidate, ap_direct_upload = False,
        ap_reason = Some (''`'' @ ac_filename candidate @ ''` is '' @ show_bytes (ac_size_bytes candidate)
          @ '' and exceeds Discord'' @ [CHR 0x27] @ ''s '' @ show_bytes DISCORD_ATTACHMENT_MAX_BYTES @ '' direct-upload limit'')\<rparr>
      else \<lparr>ap_candidate = candidate, ap_direct_upload = True, ap_reason = None\<rparr>)"

section \<open>Sending\<close>

record create_message =
  cm_channel :: u64
  cm_content :: string
  cm_suppress_embeds :: bool
  cm_reply_to :: "u64 option"
  cm_attachments :: "http_attachment list"

datatype discord_call =
    CreateThread u64 u64 string
  | JoinThread u64
  | CreateDirectChannel u64
  | CreateMessage create_message

record discord_http =
  dh_thread :: "u64 \<Rightarrow> u64 \<Rightarrow> string \<Rightarrow> string + u64"
  dh_direct :: "u64 \<Rightarrow> string + u64"
  dh_message :: "nat \<Rightarrow> create_message \<Rightarrow> string + u64"

record send_request =
  sr_channel :: channel_ref
  sr_reply_to :: "message_ref option"
  sr_content :: string
  sr_attachments :: "outgoing_attachment list"
  sr_suppress_embeds :: bool
  sr_open_thread :: "string option"

record posted_message =
  pm_id :: message_ref
  pm_channel :: channel_ref
  pm_extra_messages :: "message_ref list"

text \<open>Where the reply goes and what it replies to; opening a thread uses the reply target up.\<close>

definition open_reply_thread ::
  "discord_http \<Rightarrow> u64 \<Rightarrow> u64 option \<Rightarrow> string option \<Rightarrow> discord_call list \<times> (discord_error + u64 \<times> u64 option)" where
  "open_reply_thread http source reply_to title =
     (case (title, reply_to) of
        (Some title, Some message) \<Rightarrow>
          (case dh_thread http source message title of
             Inl e \<Rightarrow> ([CreateThread source message title], Inl (DiscordHttp e))
           | Inr thread \<Rightarrow> ([CreateThread source message title, JoinThread thread], Inr (thread, None)))
      | _ \<Rightarrow> ([], Inr (source, reply_to)))"

definition chunk_message ::
  "u64 \<Rightarrow> bool \<Rightarrow> u64 option \<Rightarrow> http_attachment list list \<Rightarrow> nat \<Rightarrow> nat \<times> string \<Rightarrow> create_message" where
  "chunk_message target suppress reply_to batches chunks e =
     \<lparr>cm_channel = target, cm_content = snd e, cm_suppress_embeds = suppress,
      cm_reply_to = (if fst e = 0 then reply_to else None),
      cm_attachments = (if fst e + 1 = chunks then (case batches of [] \<Rightarrow> [] | batch # _ \<Rightarrow> batch) else [])\<rparr>"

definition batch_message :: "u64 \<Rightarrow> bool \<Rightarrow> http_attachment list \<Rightarrow> create_message" where
  "batch_message target suppress attachments =
     \<lparr>cm_channel = target, cm_content = [], cm_suppress_embeds = suppress, cm_reply_to = None,
      cm_attachments = attachments\<rparr>"

text \<open>The messages of one send, in the order they are posted.\<close>

definition planned_messages ::
  "u64 \<Rightarrow> bool \<Rightarrow> u64 option \<Rightarrow> http_attachment list list \<Rightarrow> string list \<Rightarrow> create_message list" where
  "planned_messages target suppress reply_to batches chunks =
     map (chunk_message target suppress reply_to batches (length chunks)) (List.enumerate 0 chunks)
     @ map (batch_message target suppress) (drop 1 batches)"

fun post_all :: "discord_http \<Rightarrow> nat \<Rightarrow> create_message list \<Rightarrow> discord_call list \<times> (discord_error + u64 list)" where
  "post_all http n [] = ([], Inr [])"
| "post_all http n (message # messages) =
     (case dh_message http n message of
        Inl e \<Rightarrow> ([CreateMessage message], Inl (DiscordHttp e))
      | Inr posted \<Rightarrow>
          (case post_all http (Suc n) messages of
             (calls, res) \<Rightarrow> (CreateMessage message # calls, case res of Inl e \<Rightarrow> Inl e | Inr ids \<Rightarrow> Inr (posted # ids))))"

definition posted_of :: "string \<Rightarrow> external_id option \<Rightarrow> u64 \<Rightarrow> u64 list \<Rightarrow> discord_error + posted_message" where
  "posted_of platform guild target ids =
     (case map (message_ref_from_ids platform guild target) ids of
        [] \<Rightarrow> Inl NoPostedMessage
      | first # extra \<Rightarrow> Inr \<lparr>pm_id = first,
          pm_channel = \<lparr>ch_platform = platform, ch_guild_id = guild, ch_channel_id = external_id_of target\<rparr>,
          pm_extra_messages = extra\<rparr>)"

text \<open>\<open>None\<close>: the split of the content does not return or panics.\<close>

definition send_message ::
  "string \<Rightarrow> discord_http \<Rightarrow> send_request \<Rightarrow> (discord_call list \<times> (discord_error + posted_message)) option" where
  "send_message platform http request =
     (case parse_id ''channel'' (ch_channel_id (sr_channel request)) of
        Inl e \<Rightarrow> Some ([], Inl e)
      | Inr source \<Rightarrow>
          (case (case sr_reply_to request of
                   None \<Rightarrow> Inr None
                 | Some m \<Rightarrow> (case parse_id ''message'' (mr_message_id m) of Inl e \<Rightarrow> Inl e | Inr n \<Rightarrow> Inr (Some n))) of
             Inl e \<Rightarrow> Some ([], Inl e)
           | Inr reply_to \<Rightarrow>
               (case open_reply_thread http source reply_to (sr_open_thread request) of
                  (calls, Inl e) \<Rightarrow> Some (calls, Inl e)
                | (calls, Inr (target, reply_to)) \<Rightarrow>
                    map_option (\<lambda>chunks.
                        case post_all http 0 (planned_messages target (sr_suppress_embeds request) reply_to
                               (discord_attachment_batches (sr_attachments request)) chunks) of
                          (posts, Inl e) \<Rightarrow> (calls @ posts, Inl e)
                        | (posts, Inr ids) \<Rightarrow> (calls @ posts,
                            posted_of platform (ch_guild_id (sr_channel request)) target ids))
                      (split_discord_content (sr_content request)))))"

definition send_direct_message ::
  "string \<Rightarrow> discord_http \<Rightarrow> external_id \<Rightarrow> string \<Rightarrow> (discord_call list \<times> (discord_error + posted_message)) option" where
  "send_direct_message platform http recipient content =
     (case parse_id ''user'' recipient of
        Inl e \<Rightarrow> Some ([], Inl e)
      | Inr user \<Rightarrow>
          (case dh_direct http user of
             Inl e \<Rightarrow> Some ([CreateDirectChannel user], Inl (DiscordHttp e))
           | Inr channel \<Rightarrow>
               map_option (\<lambda>(calls, res). (CreateDirectChannel user # calls, res))
                 (send_message platform http \<lparr>sr_channel = \<lparr>ch_platform = platform, ch_guild_id = None,
                    ch_channel_id = external_id_of channel\<rparr>, sr_reply_to = None, sr_content = content,
                    sr_attachments = [], sr_suppress_embeds = True, sr_open_thread = None\<rparr>)))"

section \<open>The gateway\<close>

definition GATEWAY_RECONNECT_BASE_DELAY :: duration where
  "GATEWAY_RECONNECT_BASE_DELAY = duration_from_secs 5"

definition GATEWAY_RECONNECT_MAX_DELAY :: duration where
  "GATEWAY_RECONNECT_MAX_DELAY = duration_from_secs 60"

definition next_reconnect_delay :: "duration \<Rightarrow> duration" where
  "next_reconnect_delay delay =
     min (if delay * 2 \<le> duration_max then delay * 2 else GATEWAY_RECONNECT_MAX_DELAY) GATEWAY_RECONNECT_MAX_DELAY"

text \<open>
  What one round of \<open>next_gateway_event\<close> meets: the shutdown token, an event, or the end or an error of the
  stream, after which the wait is cut short by the shutdown or not. \<open>convert\<close> is what the platform makes of an
  event; \<open>None\<close> is an event it ignores.
\<close>

datatype 'e gateway_round = RoundShutdown | RoundEvent 'e | RoundFailed bool

datatype 'p gateway_result = GatewayShutdown | GatewayEvent 'p

fun gateway_rounds ::
  "('e \<Rightarrow> 'p option) \<Rightarrow> duration \<Rightarrow> 'e gateway_round list \<Rightarrow> duration list \<times> 'p gateway_result option" where
  "gateway_rounds convert delay [] = ([], None)"
| "gateway_rounds convert delay (RoundShutdown # rounds) = ([], Some GatewayShutdown)"
| "gateway_rounds convert delay (RoundEvent event # rounds) =
     (case convert event of
        Some e \<Rightarrow> ([], Some (GatewayEvent e))
      | None \<Rightarrow> gateway_rounds convert GATEWAY_RECONNECT_BASE_DELAY rounds)"
| "gateway_rounds convert delay (RoundFailed reconnected # rounds) =
     (if reconnected
      then (case gateway_rounds convert (next_reconnect_delay delay) rounds of (delays, res) \<Rightarrow> (delay # delays, res))
      else ([delay], Some GatewayShutdown))"

definition next_gateway_event ::
  "('e \<Rightarrow> 'p option) \<Rightarrow> 'e gateway_round list \<Rightarrow> duration list \<times> 'p gateway_result option" where
  "next_gateway_event convert rounds = gateway_rounds convert GATEWAY_RECONNECT_BASE_DELAY rounds"

section \<open>What is posted\<close>

definition created :: "discord_call list \<Rightarrow> create_message list" where
  "created calls = List.map_filter (\<lambda>c. case c of CreateMessage m \<Rightarrow> Some m | _ \<Rightarrow> None) calls"

lemma created_simps [simp]:
  "created [] = []" "created (CreateMessage m # calls) = m # created calls"
  "created (CreateThread a b c # calls) = created calls" "created (JoinThread a # calls) = created calls"
  "created (CreateDirectChannel a # calls) = created calls"
  by (simp_all add: created_def map_filter_def)

lemma created_map [simp]: "created (map CreateMessage ms) = ms"
  by (induction ms) simp_all

lemma created_append [simp]: "created (a @ b) = created a @ created b"
  by (simp add: created_def map_filter_def)

lemma post_all_Inr:
  "post_all http n ms = (calls, Inr ids) \<Longrightarrow> calls = map CreateMessage ms \<and> length ids = length ms"
proof (induction http n ms arbitrary: calls ids rule: post_all.induct)
  case (2 http n m ms)
  then show ?case by (auto split: sum.splits prod.splits)
qed simp

lemma post_all_error: "post_all http n ms = (calls, Inl e) \<Longrightarrow> e \<noteq> NoPostedMessage"
proof (induction http n ms arbitrary: calls rule: post_all.induct)
  case (2 http n m ms)
  then show ?case by (auto split: sum.splits prod.splits)
qed simp

lemma slice_chunks_facts:
  "0 < n \<Longrightarrow> concat (slice_chunks n xs) = xs \<and> (\<forall>c\<in>set (slice_chunks n xs). length c \<le> n)"
proof (induction n xs rule: slice_chunks.induct)
  case (1 n xs)
  show ?case
  proof (cases "xs = []")
    case True
    then show ?thesis by (simp add: slice_chunks.simps)
  next
    case False
    then show ?thesis using 1 by (simp add: slice_chunks.simps [of n xs])
  qed
qed

definition sent_file :: "http_attachment \<Rightarrow> string \<times> string" where
  "sent_file a = (ha_filename a, ha_bytes a)"

definition given_file :: "outgoing_attachment \<Rightarrow> string \<times> string" where
  "given_file a = (oa_filename a, oa_bytes a)"

lemma http_attachments_files: "map sent_file (http_attachments xs) = map given_file xs"
proof -
  have "map (sent_file \<circ> (\<lambda>(index, a). \<lparr>ha_filename = oa_filename a, ha_bytes = oa_bytes a, ha_number = num index\<rparr>))
      (List.enumerate k xs) = map given_file xs" for k and num :: "nat \<Rightarrow> u64"
    by (induction xs arbitrary: k) (simp_all add: sent_file_def given_file_def)
  then show ?thesis by (simp add: http_attachments_def)
qed

lemma batches_files:
  "map sent_file (concat (discord_attachment_batches xs)) = map given_file xs"
  "batch \<in> set (discord_attachment_batches xs) \<Longrightarrow> length batch \<le> DISCORD_ATTACHMENT_LIMIT"
proof -
  have "map sent_file (concat (map http_attachments xss)) = map given_file (concat xss)" for xss
    by (induction xss) (simp_all add: http_attachments_files)
  moreover have limit: "0 < DISCORD_ATTACHMENT_LIMIT" by (simp add: DISCORD_ATTACHMENT_LIMIT_def)
  ultimately show "map sent_file (concat (discord_attachment_batches xs)) = map given_file xs"
    by (simp add: discord_attachment_batches_def slice_chunks_facts)
  have "length (http_attachments ys) = length ys" for ys by (simp add: http_attachments_def)
  then show "batch \<in> set (discord_attachment_batches xs) \<Longrightarrow> length batch \<le> DISCORD_ATTACHMENT_LIMIT"
    using slice_chunks_facts [OF limit, of xs] by (auto simp: discord_attachment_batches_def)
qed

lemma chunk_messages:
  assumes "chunks \<noteq> []"
  shows "concat (map (\<lambda>e. cm_attachments (chunk_message t s r batches (length chunks) e)) (List.enumerate 0 chunks))
    = concat (take 1 batches)"
proof -
  obtain cs c where chunks: "chunks = cs @ [c]" using assms by (metis rev_exhaust)
  have none: "cm_attachments (chunk_message t s r batches (length chunks) e) = []" if "e \<in> set (List.enumerate 0 cs)" for e
    using that by (auto simp: chunk_message_def chunks in_set_enumerate_eq)
  have "concat (map (\<lambda>e. cm_attachments (chunk_message t s r batches (length chunks) e)) (List.enumerate 0 cs)) = []"
    by (rule concat_eq_Nil_conv [THEN iffD2]) (use none in auto)
  moreover have "List.enumerate 0 chunks = List.enumerate 0 cs @ [(length cs, c)]"
    by (simp add: chunks enumerate_append_eq)
  moreover have "cm_attachments (chunk_message t s r batches (length chunks) (length cs, c)) = concat (take 1 batches)"
    by (cases batches) (simp_all add: chunk_message_def chunks)
  ultimately show ?thesis by (simp only: map_append concat_append) simp
qed

definition messages_ok :: "create_message list \<Rightarrow> bool" where
  "messages_ok ms \<longleftrightarrow> (\<forall>m\<in>set ms. char_count (cm_content m) \<le> DISCORD_MESSAGE_LIMIT
      \<and> length (cm_attachments m) \<le> DISCORD_ATTACHMENT_LIMIT)
    \<and> (\<forall>m\<in>set (tl ms). cm_reply_to m = None)"

lemma planned_facts:
  assumes "chunks \<noteq> []" "list_all (\<lambda>c. char_count c \<le> DISCORD_MESSAGE_LIMIT) chunks"
    and ms_def: "ms = planned_messages t s r (discord_attachment_batches attachments) chunks"
  shows "concat (map cm_content ms) = concat chunks"
    and "map sent_file (concat (map cm_attachments ms)) = map given_file attachments"
    and "messages_ok ms" and "ms \<noteq> []"
proof -
  let ?batches = "discord_attachment_batches attachments"
  have contents: "map cm_content ms = chunks @ map (\<lambda>_. []) (drop 1 ?batches)"
    by (simp add: ms_def planned_messages_def chunk_message_def batch_message_def comp_def snd_def [symmetric])
  then show "concat (map cm_content ms) = concat chunks" by simp
  have "concat (map cm_attachments ms) = concat (take 1 ?batches) @ concat (drop 1 ?batches)"
    using chunk_messages [OF assms(1), of t s r ?batches]
    by (simp add: ms_def planned_messages_def comp_def batch_message_def)
  then have "concat (map cm_attachments ms) = concat ?batches"
    by (metis append_take_drop_id concat_append)
  then show "map sent_file (concat (map cm_attachments ms)) = map given_file attachments"
    by (simp add: batches_files(1))
  show "ms \<noteq> []" using assms(1) by (cases chunks) (simp_all add: ms_def planned_messages_def)
  have first: "length (case ?batches of [] \<Rightarrow> [] | b # _ \<Rightarrow> b) \<le> DISCORD_ATTACHMENT_LIMIT"
    using batches_files(2) [of _ attachments] by (cases ?batches) auto
  have "char_count (cm_content m) \<le> DISCORD_MESSAGE_LIMIT \<and> length (cm_attachments m) \<le> DISCORD_ATTACHMENT_LIMIT"
    if "m \<in> set ms" for m
    using that first assms(2) batches_files(2) [of _ attachments]
    by (auto simp: ms_def planned_messages_def chunk_message_def batch_message_def list_all_iff in_set_enumerate_eq
        dest: in_set_dropD)
  moreover have "cm_reply_to m = None" if "m \<in> set (tl ms)" for m
    using that assms(1)
    by (cases chunks) (auto simp: ms_def planned_messages_def chunk_message_def batch_message_def in_set_enumerate_eq)
  ultimately show "messages_ok ms" by (auto simp: messages_ok_def)
qed

lemma posted_of_ids:
  "ids \<noteq> [] \<Longrightarrow> \<exists>posted. posted_of platform guild target ids = Inr posted \<and> length ids = Suc (length (pm_extra_messages posted))"
  by (cases ids) (simp_all add: posted_of_def)

lemma open_reply_thread_created: "open_reply_thread http source r title = (calls, res) \<Longrightarrow> created calls = []"
  by (auto simp: open_reply_thread_def split: option.splits sum.splits)

lemma open_reply_thread_error: "open_reply_thread http source r title = (calls, Inl e) \<Longrightarrow> e \<noteq> NoPostedMessage"
  by (auto simp: open_reply_thread_def split: option.splits sum.splits)

lemma parse_id_error: "parse_id kind x = Inl e \<Longrightarrow> e \<noteq> NoPostedMessage"
  by (auto simp: parse_id_def split: option.splits if_splits)

definition delivered :: "send_request \<Rightarrow> string list \<Rightarrow> discord_call list \<Rightarrow> posted_message \<Rightarrow> bool" where
  "delivered request chunks calls posted \<longleftrightarrow>
     concat (map cm_content (created calls)) = concat chunks
     \<and> map sent_file (concat (map cm_attachments (created calls))) = map given_file (sr_attachments request)
     \<and> messages_ok (created calls)
     \<and> length (created calls) = Suc (length (pm_extra_messages posted))"

lemma post_planned:
  assumes "chunks \<noteq> []" "list_all good_chunk chunks"
    and "post_all http 0 (planned_messages t s r (discord_attachment_batches (sr_attachments request)) chunks) = (posts, Inr ids)"
    and "created calls = []"
  shows "\<exists>posted. posted_of platform guild t ids = Inr posted \<and> delivered request chunks (calls @ posts) posted"
proof -
  let ?ms = "planned_messages t s r (discord_attachment_batches (sr_attachments request)) chunks"
  have posts: "posts = map CreateMessage ?ms" "length ids = length ?ms"
    using post_all_Inr [OF assms(3)] by auto
  have "list_all (\<lambda>c. char_count c \<le> DISCORD_MESSAGE_LIMIT) chunks"
    using assms(2) by (auto simp: list_all_iff good_chunk_def)
  note facts = planned_facts [OF assms(1) this refl, of t s r "sr_attachments request"]
  from posts(2) facts(4) have "ids \<noteq> []" by (metis length_0_conv)
  from posted_of_ids [OF this, of platform guild t] obtain posted
    where "posted_of platform guild t ids = Inr posted" "length ids = Suc (length (pm_extra_messages posted))"
    by blast
  then show ?thesis
    using facts posts assms(4) by (auto simp: delivered_def)
qed

lemma send_message_cases:
  assumes "utf8_valid (sr_content request)"
  obtains (failed) calls e where "send_message platform http request = Some (calls, Inl e)" "e \<noteq> NoPostedMessage"
    | (sent) calls chunks posted where "send_message platform http request = Some (calls, Inr posted)"
        "split_discord_content (sr_content request) = Some chunks" "delivered request chunks calls posted"
proof -
  obtain chunks where chunks: "split_discord_content (sr_content request) = Some chunks" "chunks \<noteq> []"
    "list_all good_chunk chunks"
    using split_discord_spec [OF assms] by blast
  let ?guild = "ch_guild_id (sr_channel request)"
  show thesis
  proof (cases "parse_id ''channel'' (ch_channel_id (sr_channel request))")
    case (Inl e)
    then show thesis using failed parse_id_error by (simp add: send_message_def)
  next
    case source: (Inr source)
    define target where "target = (case sr_reply_to request of
                   None \<Rightarrow> Inr None
                 | Some m \<Rightarrow> (case parse_id ''message'' (mr_message_id m) of Inl e \<Rightarrow> Inl e | Inr n \<Rightarrow> Inr (Some n)))"
    show thesis
    proof (cases target)
      case (Inl e)
      then have "e \<noteq> NoPostedMessage"
        using parse_id_error by (auto simp: target_def split: option.splits sum.splits)
      then show thesis using failed source Inl by (simp add: send_message_def target_def [symmetric])
    next
      case reply: (Inr reply_to)
      obtain calls res where thread: "open_reply_thread http source reply_to (sr_open_thread request) = (calls, res)"
        by fastforce
      show thesis
      proof (cases res)
        case (Inl e)
        then show thesis
          using failed open_reply_thread_error thread source reply by (simp add: send_message_def target_def [symmetric])
      next
        case target: (Inr tr)
        obtain t r where tr: "tr = (t, r)" by fastforce
        let ?ms = "planned_messages t (sr_suppress_embeds request) r
            (discord_attachment_batches (sr_attachments request)) chunks"
        obtain posts out where posts: "post_all http 0 ?ms = (posts, out)" by fastforce
        have sends: "send_message platform http request = Some (case out of
            Inl e \<Rightarrow> (calls @ posts, Inl e) | Inr ids \<Rightarrow> (calls @ posts, posted_of platform ?guild t ids))"
          using source reply thread [unfolded target tr] chunks(1) posts
          by (cases out) (simp_all add: send_message_def target_def [symmetric])
        show thesis
        proof (cases out)
          case (Inl e)
          then show thesis using failed sends posts post_all_error by simp
        next
          case (Inr ids)
          from post_planned [OF chunks(2,3) posts [unfolded Inr] open_reply_thread_created [OF thread]]
          show thesis using sent sends Inr chunks(1) by fastforce
        qed
      qed
    qed
  qed
qed


text \<open>
  A send always returns, and it never reports that nothing was posted: it either succeeds or fails with the
  error of an identifier or of the call that failed.
\<close>

theorem send_message_returns:
  assumes "utf8_valid (sr_content request)"
  shows "\<exists>calls res. send_message platform http request = Some (calls, res) \<and> res \<noteq> Inl NoPostedMessage"
  by (cases rule: send_message_cases [where platform = platform and http = http, OF assms]) auto

definition sample_request :: send_request where
  "sample_request = \<lparr>sr_channel = \<lparr>ch_platform = ''discord'', ch_guild_id = None, ch_channel_id = ''7''\<rparr>,
     sr_reply_to = None, sr_content = replicate 2003 (CHR ''a''),
     sr_attachments = replicate 11 \<lparr>oa_filename = ''f'', oa_content_type = ''t'', oa_bytes = []\<rparr>,
     sr_suppress_embeds = False, sr_open_thread = None\<rparr>"

definition sample_http :: discord_http where
  "sample_http = \<lparr>dh_thread = (\<lambda>_ _ _. Inl ''no''), dh_direct = (\<lambda>_. Inl ''no''), dh_message = (\<lambda>n _. Inr (of_nat n + 1))\<rparr>"

lemma sample_posts: "\<exists>calls ids. post_all sample_http n ms = (calls, Inr ids)"
proof (induction ms arbitrary: n)
  case (Cons m ms)
  obtain calls ids where "post_all sample_http (Suc n) ms = (calls, Inr ids)" using Cons by blast
  moreover have "dh_message sample_http n m = Inr (of_nat n + 1)" by (simp add: sample_http_def)
  ultimately show ?case by simp
qed simp

lemma sample_fields:
  "ch_channel_id (sr_channel sample_request) = ''7''" "sr_reply_to sample_request = None"
  "sr_open_thread sample_request = None" "length (sr_attachments sample_request) = 11"
  by (simp_all add: sample_request_def)

lemma sample_valid: "utf8_valid (sr_content sample_request)"
proof -
  have "utf8_valid (replicate n (CHR ''a''))" for n
    by (rule utf8_valid_replicate) (simp add: is_ascii_char_def)
  then show ?thesis unfolding sample_request_def by (simp only: send_request.select_convs)
qed

theorem send_message_returns_witness:
  "\<exists>r. send_message ''discord'' sample_http sample_request = Some r \<and> snd r \<noteq> Inl NoPostedMessage"
  using send_message_returns [OF sample_valid, of "''discord''" sample_http] by auto

lemma sample_source: "parse_id ''channel'' ''7'' = Inr 7"
  by (simp add: parse_id_def parse_u64_def parse_digits_def is_ascii_digit_def digit_value_def strip_prefix_def starts_with_def)

lemma sample_sends: "\<exists>calls posted. send_message ''discord'' sample_http sample_request = Some (calls, Inr posted)"
proof -
  obtain chunks where chunks: "split_discord_content (sr_content sample_request) = Some chunks" "chunks \<noteq> []"
    "list_all good_chunk chunks"
    using split_discord_spec [OF sample_valid] by blast
  obtain posts ids where posts: "post_all sample_http 0 (planned_messages 7 (sr_suppress_embeds sample_request) None
      (discord_attachment_batches (sr_attachments sample_request)) chunks) = (posts, Inr ids)"
    using sample_posts by blast
  from post_planned [OF chunks(2,3) posts created_simps(1)] show ?thesis
    using chunks(1) posts sample_source
    by (auto simp: send_message_def open_reply_thread_def sample_fields)
qed


section \<open>Reconnecting\<close>

text \<open>
  Consecutive failures wait 5, 10, 20, 40 and then always 60 seconds, and any event resets the delay.
\<close>

lemma reconnect_delay_steps:
  "next_reconnect_delay (min (2 ^ k * GATEWAY_RECONNECT_BASE_DELAY) GATEWAY_RECONNECT_MAX_DELAY)
     = min (2 ^ Suc k * GATEWAY_RECONNECT_BASE_DELAY) GATEWAY_RECONNECT_MAX_DELAY"
proof -
  have "min (2 ^ k * GATEWAY_RECONNECT_BASE_DELAY) GATEWAY_RECONNECT_MAX_DELAY * 2 \<le> duration_max"
    by (rule order_trans [of _ "GATEWAY_RECONNECT_MAX_DELAY * 2"])
      (simp_all add: GATEWAY_RECONNECT_MAX_DELAY_def duration_max_def duration_from_secs_def)
  then show ?thesis by (simp add: next_reconnect_delay_def min_def)
qed

theorem gateway_backoff:
  "fst (gateway_rounds convert (min (2 ^ k * GATEWAY_RECONNECT_BASE_DELAY) GATEWAY_RECONNECT_MAX_DELAY)
     (replicate n (RoundFailed True)))
   = map (\<lambda>i. min (2 ^ (k + i) * GATEWAY_RECONNECT_BASE_DELAY) GATEWAY_RECONNECT_MAX_DELAY) [0..<n]"
proof (induction n arbitrary: k)
  case (Suc n)
  show ?case
    using Suc [of "Suc k"] reconnect_delay_steps [of k]
    by (auto simp: upt_conv_Cons map_Suc_upt [symmetric] comp_def split: prod.splits simp del: upt_Suc)
qed simp

end
