(* ===== verification/Bot_Replay.thy ===== *)
theory Bot_Replay
  imports Api_Agent_Run Rust_Trim "HOL-Library.Product_Lexorder"
begin

text \<open>
  \<open>chudbot-bot/src/transcript.rs\<close>, first part: how the bot rebuilds the model-facing transcript of a
  conversation from its stored turns. The media store is a parameter, what it answers to a URI; logging is left
  out. Ordinals are integers, identifiers their text.
\<close>

section \<open>Stored turns\<close>

datatype turn_status = TurnPending | TurnCompleted | TurnFailed | TurnCancelled

record stored_turn =
  tn_id :: string
  tn_ordinal :: int
  tn_history_cutoff :: "int option"
  tn_response_ordinal :: "int option"
  tn_user_display_name :: string
  tn_user_content :: string
  tn_assistant_content :: "string option"
  tn_status :: turn_status

record context_item =
  ci_source :: string
  ci_role :: string
  ci_content :: string

record turn_asset =
  ta_uri :: media_uri
  ta_source :: string

record instruction_part_snapshot =
  ips_key :: string
  ips_ordinal :: int
  ips_text :: string

datatype agent_instruction_snapshot =
    LegacyInstructions string
  | InstructionParts "instruction_part_snapshot list"

record turn_snapshot =
  ts_turn :: stored_turn
  ts_agent_instructions :: "agent_instruction_snapshot option"
  ts_context :: "context_item list"
  ts_tool_trace :: "tool_trace list"
  ts_model_steps :: "model_step_trace list"
  ts_replay_assets :: "turn_asset list"

record conversation_snapshot =
  cs_conversation_id :: string
  cs_turns :: "turn_snapshot list"

section \<open>Message identifiers\<close>

definition transcript_message_metadata :: "string \<Rightarrow> json" where
  "transcript_message_metadata x = json_object [(''id'', JString x)]"

definition turn_transcript_message_id :: "string \<Rightarrow> string \<Rightarrow> string" where
  "turn_transcript_message_id turn_id role = ''chudbot_turn_'' @ turn_id @ ''_'' @ role"

definition turn_agent_instruction_message_id :: "string \<Rightarrow> string option \<Rightarrow> string" where
  "turn_agent_instruction_message_id turn_id part_key =
     (case part_key of
        Some key \<Rightarrow> ''chudbot_turn_'' @ turn_id @ ''_system_'' @ key
      | None \<Rightarrow> ''chudbot_turn_'' @ turn_id @ ''_system'')"

definition set_transcript_message_id :: "transcript_turn \<Rightarrow> string \<Rightarrow> transcript_turn" where
  "set_transcript_message_id turn x =
     (case tt_metadata turn of
        JObject m \<Rightarrow> turn\<lparr>tt_metadata := JObject (btm_insert ''id'' (JString x) m)\<rparr>
      | _ \<Rightarrow> turn)"

section \<open>Media of a transcript\<close>

definition MODEL_TRANSCRIPT_IMAGE_MIME_TYPES :: "string list" where
  "MODEL_TRANSCRIPT_IMAGE_MIME_TYPES =
     [''image/jpeg'', ''image/jpg'', ''image/png'', ''image/webp'', ''image/x-icon'', ''image/vnd.microsoft.icon'']"

definition media_essence :: "string \<Rightarrow> string" where
  "media_essence mime_type = str_trim (takeWhile (\<lambda>c. c \<noteq> CHR '';'') mime_type)"

definition model_transcript_supports_image_mime_type :: "string \<Rightarrow> bool" where
  "model_transcript_supports_image_mime_type mime_type \<longleftrightarrow>
     to_ascii_lowercase (media_essence mime_type) \<in> set (map to_ascii_lowercase MODEL_TRANSCRIPT_IMAGE_MIME_TYPES)"

definition model_transcript_supports_media :: "media_ref \<Rightarrow> bool" where
  "model_transcript_supports_media media \<longleftrightarrow>
     mm_category (media_metadata_of media) \<in> {Image, Avatar, GuildIcon}
     \<and> model_transcript_supports_image_mime_type (mm_mime_type (media_metadata_of media))"

definition replay_asset_belongs_to_user_turn :: "turn_asset \<Rightarrow> bool" where
  "replay_asset_belongs_to_user_turn asset \<longleftrightarrow> starts_with (ta_source asset) ''platform:''"

type_synonym media_lookup = "media_uri \<Rightarrow> string + media_ref"

definition context_block :: "media_lookup \<Rightarrow> context_item \<Rightarrow> content_block option" where
  "context_block store item =
     (if is_stored_media_uri (ci_content item)
      then (case store (ci_content item) of
              Inr media \<Rightarrow> if model_transcript_supports_media media then Some (BlockMedia media) else None
            | Inl _ \<Rightarrow> None)
      else Some (BlockText (ci_content item)))"

definition context_blocks_from_items :: "media_lookup \<Rightarrow> context_item list \<Rightarrow> content_block list" where
  "context_blocks_from_items store items = List.map_filter (context_block store) items"

text \<open>The turns of a context: the system turn, if any, and the user turn, which is always there.\<close>

definition transcript_turns_from_context ::
  "media_lookup \<Rightarrow> string \<Rightarrow> context_item list \<Rightarrow> transcript_turn list \<times> transcript_turn" where
  "transcript_turns_from_context store turn_id items =
     (let system_blocks = context_blocks_from_items store (filter (\<lambda>i. ci_role i = ''system'') items);
          blocks = context_blocks_from_items store (filter (\<lambda>i. ci_role i \<noteq> ''system'') items)
      in (if system_blocks = [] then []
          else [\<lparr>tt_role = System, tt_blocks = system_blocks,
                 tt_metadata = transcript_message_metadata (turn_transcript_message_id turn_id ''system'')\<rparr>],
          \<lparr>tt_role = User, tt_blocks = (if blocks = [] then [BlockText ''(no message content)''] else blocks),
           tt_metadata = transcript_message_metadata (turn_transcript_message_id turn_id ''user'')\<rparr>))"

section \<open>Prompt changes\<close>

datatype replayed_instructions =
    ReplayedNone
  | ReplayedLegacy string
  | ReplayedParts "(string, instruction_part_snapshot) btree_map"

definition join_agent_instruction_part_snapshots :: "instruction_part_snapshot list \<Rightarrow> string" where
  "join_agent_instruction_part_snapshots parts = concat (map ips_text (filter (\<lambda>p. ips_text p \<noteq> []) parts))"

fun part_changed :: "replayed_instructions \<Rightarrow> instruction_part_snapshot list \<Rightarrow> instruction_part_snapshot \<Rightarrow> bool" where
  "part_changed (ReplayedParts previous_parts) current_parts part \<longleftrightarrow>
     map_option ips_text (btm_get previous_parts (ips_key part)) \<noteq> Some (ips_text part)"
| "part_changed (ReplayedLegacy previous_text) current_parts part \<longleftrightarrow>
     previous_text \<noteq> join_agent_instruction_part_snapshots current_parts \<and> ips_text part \<noteq> []"
| "part_changed ReplayedNone current_parts part \<longleftrightarrow> ips_text part \<noteq> []"

definition instruction_part_changes ::
  "string option \<Rightarrow> string \<Rightarrow> instruction_part_snapshot list \<Rightarrow> replayed_instructions \<Rightarrow> transcript_turn list" where
  "instruction_part_changes transcript_id turn_id current_parts replayed =
     map (\<lambda>part.
         (let prompt_turn = agent_instruction_part_turn transcript_id (ips_key part) (ips_ordinal part) (ips_text part) in
          if replayed \<noteq> ReplayedNone
          then set_transcript_message_id prompt_turn (turn_agent_instruction_message_id turn_id (Some (ips_key part)))
          else prompt_turn))
       (sort_key ips_ordinal (filter (part_changed replayed current_parts) current_parts))"

definition instruction_changes ::
  "string option \<Rightarrow> turn_snapshot \<Rightarrow> replayed_instructions \<Rightarrow> transcript_turn list \<times> replayed_instructions" where
  "instruction_changes transcript_id snap replayed =
     (case ts_agent_instructions snap of
        Some (InstructionParts parts) \<Rightarrow>
          (instruction_part_changes transcript_id (tn_id (ts_turn snap)) parts replayed,
           ReplayedParts (btm_of_list (map (\<lambda>p. (ips_key p, p)) parts)))
      | Some (LegacyInstructions t) \<Rightarrow>
          ((if replayed = ReplayedLegacy t then []
            else (let prompt_turn = agent_instructions_turn transcript_id t in
              [if replayed \<noteq> ReplayedNone
               then set_transcript_message_id prompt_turn (turn_agent_instruction_message_id (tn_id (ts_turn snap)) None)
               else prompt_turn])),
           ReplayedLegacy t)
      | None \<Rightarrow> ([], replayed))"

section \<open>Model steps\<close>

fun collect_provider_client_tool_call_ids :: "json \<Rightarrow> string list \<Rightarrow> string list"
  and collect_item_call_ids :: "json list \<Rightarrow> string list \<Rightarrow> string list" where
  "collect_provider_client_tool_call_ids (JArray items) out = collect_item_call_ids items out"
| "collect_provider_client_tool_call_ids (JObject m) out =
     (let kind = Option.bind (btm_get m ''type'') json_as_str;
          call_id =
            (if kind = Some ''function_call''
             then Option.bind (case btm_get m ''call_id'' of Some v \<Rightarrow> Some v | None \<Rightarrow> btm_get m ''id'') json_as_str
             else if kind = Some ''tool_use'' then Option.bind (btm_get m ''id'') json_as_str
             else None)
      in case call_id of None \<Rightarrow> out | Some x \<Rightarrow> if x \<in> set out then out else out @ [x])"
| "collect_provider_client_tool_call_ids v out = out"
| "collect_item_call_ids [] out = out"
| "collect_item_call_ids (item # items) out =
     collect_item_call_ids items (collect_provider_client_tool_call_ids item out)"

definition provider_client_tool_call_ids :: "provider_continuation \<Rightarrow> string list" where
  "provider_client_tool_call_ids continuation = collect_provider_client_tool_call_ids (pc_data continuation) []"

fun client_trace_of :: "tool_trace \<Rightarrow> client_tool_trace option" where
  "client_trace_of (TraceClient trace) = Some trace"
| "client_trace_of _ = None"

definition client_tool_results_by_id :: "tool_trace list \<Rightarrow> (string, client_tool_result) btree_map" where
  "client_tool_results_by_id traces =
     btm_of_list (map (\<lambda>trace. (ctr_tool_use_id (ctt_result trace), ctt_result trace)) (List.map_filter client_trace_of traces))"

fun take_results ::
  "(string, client_tool_result) btree_map \<Rightarrow> string list \<Rightarrow> string set \<Rightarrow> client_tool_result list \<times> string set" where
  "take_results results [] consumed = ([], consumed)"
| "take_results results (call_id # wanted) consumed =
     (if call_id \<in> consumed then take_results results wanted consumed
      else case btm_get results call_id of
        None \<Rightarrow> take_results results wanted consumed
      | Some result \<Rightarrow>
          (case take_results results wanted (insert call_id consumed) of
             (taken, consumed') \<Rightarrow> (result # taken, consumed')))"

definition replay_step_blocks :: "model_step_trace \<Rightarrow> bool \<Rightarrow> string option \<Rightarrow> content_block list" where
  "replay_step_blocks step is_final_step assistant_content =
     (case mst_continuation step of None \<Rightarrow> [] | Some c \<Rightarrow> [BlockContinuation c])
     @ (case assistant_content of
          Some answer \<Rightarrow> if is_final_step \<and> answer \<noteq> [] then [BlockText answer] else []
        | None \<Rightarrow> [])"

definition replay_step_results ::
  "(string, client_tool_result) btree_map \<Rightarrow> model_step_trace \<Rightarrow> string set \<Rightarrow> client_tool_result list \<times> string set" where
  "replay_step_results results step consumed =
     (case take_results results
             (case mst_continuation step of None \<Rightarrow> [] | Some c \<Rightarrow> provider_client_tool_call_ids c) consumed of
        (taken, consumed') \<Rightarrow>
          (if mst_kind step = ClientTools \<and> mst_continuation step = None \<and> taken = []
           then (map snd (filter (\<lambda>e. fst e \<notin> consumed') results), consumed' \<union> fst ` set results)
           else (taken, consumed')))"

definition plain_turn :: "turn_role \<Rightarrow> content_block list \<Rightarrow> transcript_turn list" where
  "plain_turn role blocks = (if blocks = [] then [] else [\<lparr>tt_role = role, tt_blocks = blocks, tt_metadata = JNull\<rparr>])"

fun replay_steps ::
  "(string, client_tool_result) btree_map \<Rightarrow> string option \<Rightarrow> model_step_trace list \<Rightarrow> string set \<Rightarrow> transcript_turn list" where
  "replay_steps results assistant_content [] consumed = []"
| "replay_steps results assistant_content (step # steps) consumed =
     (case replay_step_results results step consumed of
        (taken, consumed') \<Rightarrow>
          plain_turn Assistant (replay_step_blocks step (steps = []) assistant_content)
          @ plain_turn User (map BlockClientToolResult taken)
          @ replay_steps results assistant_content steps consumed')"

text \<open>\<open>None\<close>: there are no model steps to replay.\<close>

definition model_step_replay ::
  "model_step_trace list \<Rightarrow> tool_trace list \<Rightarrow> string option \<Rightarrow> transcript_turn list option" where
  "model_step_replay model_steps traces assistant_content =
     (if model_steps = [] then None
      else Some (replay_steps (client_tool_results_by_id traces) assistant_content model_steps {}))"

definition client_tool_replay :: "tool_trace list \<Rightarrow> transcript_turn list" where
  "client_tool_replay traces =
     (let client_traces = List.map_filter client_trace_of traces in
      if client_traces = [] then []
      else [\<lparr>tt_role = Assistant, tt_blocks = map (\<lambda>t. BlockClientToolCall (ctt_call t)) client_traces, tt_metadata = JNull\<rparr>,
            \<lparr>tt_role = User, tt_blocks = map (\<lambda>t. BlockClientToolResult (ctt_result t)) client_traces, tt_metadata = JNull\<rparr>])"

section \<open>Generated media\<close>

definition generated_media_text :: "string list \<Rightarrow> string" where
  "generated_media_text media_refs =
     ''Generated media attached to the previous assistant reply.''
     @ (if media_refs = [] then []
        else '' Image reference URIs available for tool calls: '' @ str_join '', '' media_refs
          @ ''. Use these exact URIs in generate_image.reference_images when the user asks to ''
          @ ''edit, restyle, transform, or make a variation of the images.'')"

definition generated_media_replay :: "string \<Rightarrow> string list \<Rightarrow> content_block list \<Rightarrow> transcript_turn list" where
  "generated_media_replay turn_id media_refs media_blocks =
     (if media_blocks = [] then []
      else [\<lparr>tt_role = User, tt_blocks = BlockText (generated_media_text media_refs) # media_blocks,
             tt_metadata = transcript_message_metadata (turn_transcript_message_id turn_id ''assistant_media'')\<rparr>])"

definition canonical_or_same :: "media_uri \<Rightarrow> media_uri" where
  "canonical_or_same uri = (case canonical_stored_media_uri uri of Inl _ \<Rightarrow> uri | Inr c \<Rightarrow> c)"

record replayed_assets =
  ras_seen :: "media_uri list"
  ras_user_blocks :: "content_block list"
  ras_refs :: "string list"
  ras_generated :: "content_block list"

definition replay_asset :: "media_lookup \<Rightarrow> turn_asset \<Rightarrow> replayed_assets \<Rightarrow> replayed_assets" where
  "replay_asset store asset acc =
     (let uri = canonical_or_same (ta_uri asset) in
      if uri \<in> set (ras_seen acc) then acc
      else case store uri of
        Inl _ \<Rightarrow> acc
      | Inr media \<Rightarrow>
          (if \<not> model_transcript_supports_media media then acc
           else if replay_asset_belongs_to_user_turn asset
           then acc\<lparr>ras_seen := ras_seen acc @ [uri], ras_user_blocks := ras_user_blocks acc @ [BlockMedia media]\<rparr>
           else acc\<lparr>ras_seen := ras_seen acc @ [uri], ras_refs := ras_refs acc @ [uri],
                    ras_generated := ras_generated acc @ [BlockMedia media]\<rparr>))"

section \<open>The replay of a conversation\<close>

definition display_turn :: "stored_turn \<Rightarrow> transcript_turn" where
  "display_turn turn =
     \<lparr>tt_role = User, tt_blocks = [BlockText (''['' @ tn_user_display_name turn @ '']: '' @ tn_user_content turn)],
      tt_metadata = transcript_message_metadata (turn_transcript_message_id (tn_id turn) ''user'')\<rparr>"

definition replay_turn ::
  "media_lookup \<Rightarrow> string option \<Rightarrow> turn_snapshot \<Rightarrow> replayed_instructions \<Rightarrow> transcript_turn list \<times> replayed_instructions" where
  "replay_turn store transcript_id snap replayed =
     (let turn = ts_turn snap;
          (prompts, replayed') = instruction_changes transcript_id snap replayed;
          (systems, user_turn) = (if ts_context snap = [] then ([], display_turn turn)
            else transcript_turns_from_context store (tn_id turn) (ts_context snap));
          assets = fold (replay_asset store) (ts_replay_assets snap)
            \<lparr>ras_seen = map (\<lambda>i. canonical_or_same (ci_content i)) (filter (\<lambda>i. is_stored_media_uri (ci_content i)) (ts_context snap)),
             ras_user_blocks = [], ras_refs = [], ras_generated = []\<rparr>;
          answers = (case model_step_replay (ts_model_steps snap) (ts_tool_trace snap) (tn_assistant_content turn) of
              Some turns \<Rightarrow> turns
            | None \<Rightarrow> client_tool_replay (ts_tool_trace snap)
                @ (case tn_assistant_content turn of
                     None \<Rightarrow> []
                   | Some answer \<Rightarrow> [\<lparr>tt_role = Assistant, tt_blocks = [BlockText answer],
                       tt_metadata = transcript_message_metadata (turn_transcript_message_id (tn_id turn) ''assistant'')\<rparr>]))
      in (prompts @ systems @ [user_turn\<lparr>tt_blocks := tt_blocks user_turn @ ras_user_blocks assets\<rparr>]
            @ answers @ generated_media_replay (tn_id turn) (ras_refs assets) (ras_generated assets),
          replayed'))"

fun replay_all ::
  "media_lookup \<Rightarrow> string option \<Rightarrow> turn_snapshot list \<Rightarrow> replayed_instructions \<Rightarrow> transcript_turn list" where
  "replay_all store transcript_id [] replayed = []"
| "replay_all store transcript_id (snap # snaps) replayed =
     (case replay_turn store transcript_id snap replayed of
        (turns, replayed') \<Rightarrow> turns @ replay_all store transcript_id snaps replayed')"

text \<open>The turns the next call may see, in the order of their responses.\<close>

definition i64_max :: int where
  "i64_max = 2 ^ 63 - 1"

definition replayable :: "int option \<Rightarrow> turn_snapshot \<Rightarrow> bool" where
  "replayable history_cutoff snap \<longleftrightarrow>
     tn_status (ts_turn snap) = TurnCompleted
     \<and> (case (history_cutoff, tn_response_ordinal (ts_turn snap)) of
          (Some cutoff, Some ordinal) \<Rightarrow> ordinal \<le> cutoff
        | _ \<Rightarrow> False)"

definition response_order :: "turn_snapshot \<Rightarrow> int \<times> int" where
  "response_order snap =
     ((case tn_response_ordinal (ts_turn snap) of None \<Rightarrow> i64_max | Some ordinal \<Rightarrow> ordinal), tn_ordinal (ts_turn snap))"

definition replay_order :: "conversation_snapshot \<Rightarrow> int option \<Rightarrow> turn_snapshot list" where
  "replay_order snapshot history_cutoff =
     sort_key response_order (filter (replayable history_cutoff) (cs_turns snapshot))"

definition transcript_from_snapshot ::
  "media_lookup \<Rightarrow> conversation_snapshot \<Rightarrow> int option \<Rightarrow> transcript" where
  "transcript_from_snapshot store snapshot history_cutoff =
     \<lparr>t_id = Some (cs_conversation_id snapshot),
      t_turns = replay_all store (Some (cs_conversation_id snapshot)) (replay_order snapshot history_cutoff) ReplayedNone\<rparr>"

definition transcript_for_turn ::
  "media_lookup \<Rightarrow> conversation_snapshot \<Rightarrow> stored_turn \<Rightarrow> context_item list \<Rightarrow> transcript" where
  "transcript_for_turn store snapshot turn items =
     (let t = transcript_from_snapshot store snapshot (tn_history_cutoff turn);
          (systems, user_turn) = transcript_turns_from_context store (tn_id turn) items
      in t\<lparr>t_turns := t_turns t @ systems @ [user_turn]\<rparr>)"

definition transcript_for_retry ::
  "media_lookup \<Rightarrow> conversation_snapshot \<Rightarrow> turn_snapshot \<Rightarrow> context_item list \<Rightarrow> bool \<Rightarrow> transcript" where
  "transcript_for_retry store snapshot retry_turn items has_stored_context =
     (let turn = ts_turn retry_turn; t = transcript_from_snapshot store snapshot (tn_history_cutoff turn) in
      if has_stored_context
      then (case transcript_turns_from_context store (tn_id turn) items of
              (systems, user_turn) \<Rightarrow> t\<lparr>t_turns := t_turns t @ systems @ [user_turn]\<rparr>)
      else t\<lparr>t_turns := t_turns t @ [(display_turn turn)\<lparr>tt_blocks :=
             tt_blocks (display_turn turn) @ context_blocks_from_items store items\<rparr>]\<rparr>)"

end
