(* ===== verification/Provider_Compat.thy ===== *)
theory Provider_Compat
  imports Provider_Request Rust_Trim
begin

text \<open>
  \<open>chudbot-openai-compat/src/llm.rs\<close>: the Chat Completions adapter for compatible gateways. It makes one
  request, not a stream: the transcript becomes chat messages, and the decoded response the events of a step.
\<close>

section \<open>Messages\<close>

definition chat_message :: "string \<Rightarrow> json \<Rightarrow> json" where
  "chat_message role content = json_object [(''role'', JString role), (''content'', content)]"

definition push_chat_user_message :: "json list \<times> string \<times> string list \<Rightarrow> json list \<times> string \<times> string list" where
  "push_chat_user_message acc =
     (case acc of (messages, text, urls) \<Rightarrow>
        if text = [] \<and> urls = [] then acc
        else if urls = [] then (messages @ [chat_message ''user'' (JString text)], [], urls)
        else (messages @ [chat_message ''user'' (JArray
            ((if text = [] then [] else [json_object [(''type'', JString ''text''), (''text'', JString text)]])
             @ map (\<lambda>url. json_object [(''type'', JString ''image_url''),
                 (''image_url'', json_object [(''url'', JString url)])]) urls))], [], []))"

definition chat_tool_call :: "(json \<Rightarrow> string) \<Rightarrow> client_tool_call \<Rightarrow> json" where
  "chat_tool_call print call =
     json_object [(''id'', JString (ctc_id call)), (''type'', JString ''function''),
       (''function'', json_object [(''name'', JString (ctc_name call)), (''arguments'', JString (print (ctc_input call)))])]"

definition chat_tool_result :: "(json \<Rightarrow> string) \<Rightarrow> client_tool_result \<Rightarrow> json" where
  "chat_tool_result print result =
     json_object [(''role'', JString ''tool''), (''tool_call_id'', JString (ctr_tool_use_id result)),
       (''content'', JString (client_tool_result_as_string print result))]"

fun block_text_of :: "content_block \<Rightarrow> string" where
  "block_text_of (BlockText t) = t"
| "block_text_of _ = []"

fun block_call_of :: "content_block \<Rightarrow> client_tool_call option" where
  "block_call_of (BlockClientToolCall call) = Some call"
| "block_call_of _ = None"

definition chat_system_messages :: "content_block list \<Rightarrow> json list" where
  "chat_system_messages blocks =
     (let text = concat (map block_text_of blocks) in
      if text = [] then [] else [chat_message ''system'' (JString text)])"

definition chat_assistant_messages :: "(json \<Rightarrow> string) \<Rightarrow> content_block list \<Rightarrow> json list" where
  "chat_assistant_messages print blocks =
     (let text = concat (map block_text_of blocks);
          tool_calls = map (chat_tool_call print) (List.map_filter block_call_of blocks)
      in if text = [] \<and> tool_calls = [] then []
         else [json_object ([(''role'', JString ''assistant''),
             (''content'', if tool_calls = [] \<or> text \<noteq> [] then JString text else JNull)]
           @ (if tool_calls = [] then [] else [(''tool_calls'', JArray tool_calls)]))])"

fun chat_user_block ::
  "(json \<Rightarrow> string) \<Rightarrow> media_backend \<Rightarrow> image_encoding \<Rightarrow> json list \<times> string \<times> string list \<Rightarrow> content_block
    \<Rightarrow> provider_error + json list \<times> string \<times> string list" where
  "chat_user_block print mb encoding (messages, text, urls) (BlockText t) = Inr (messages, text @ t, urls)"
| "chat_user_block print mb encoding (messages, text, urls) (BlockMedia media) =
     (case image_reference mb media encoding of
        Inl e \<Rightarrow> Inl e
      | Inr reference \<Rightarrow> Inr (messages, text, urls @ [as_url_or_data_url reference]))"
| "chat_user_block print mb encoding (messages, text, urls) (BlockClientToolResult result) =
     (case push_chat_user_message (messages, text, urls) of
        (messages, text, urls) \<Rightarrow> Inr (messages @ [chat_tool_result print result], text, urls))"
| "chat_user_block print mb encoding acc _ = Inr acc"

definition chat_turn ::
  "(json \<Rightarrow> string) \<Rightarrow> media_backend \<Rightarrow> image_encoding \<Rightarrow> json list \<Rightarrow> transcript_turn
    \<Rightarrow> provider_error + json list" where
  "chat_turn print mb encoding messages turn =
     (case tt_role turn of
        System \<Rightarrow> Inr (messages @ chat_system_messages (tt_blocks turn))
      | Assistant \<Rightarrow> Inr (messages @ chat_assistant_messages print (tt_blocks turn))
      | User \<Rightarrow>
          (case try_fold (chat_user_block print mb encoding) (messages, [], []) (tt_blocks turn) of
             Inl e \<Rightarrow> Inl e
           | Inr acc \<Rightarrow> Inr (fst (push_chat_user_message acc))))"

definition to_chat_messages ::
  "(json \<Rightarrow> string) \<Rightarrow> media_backend \<Rightarrow> transcript \<Rightarrow> image_encoding \<Rightarrow> provider_error + json list" where
  "to_chat_messages print mb t encoding = try_fold (chat_turn print mb encoding) [] (t_turns t)"

section \<open>The request\<close>

record compat_options =
  co_tool_choice :: "json option"
  co_parallel_tool_calls :: "bool option"
  co_extra_body :: "(string, json) btree_map"

definition default_bool :: "json option \<Rightarrow> bool option option" where
  "default_bool v =
     (case v of None \<Rightarrow> Some None | Some JNull \<Rightarrow> Some None | Some (JBool b) \<Rightarrow> Some (Some b) | Some _ \<Rightarrow> None)"

definition default_object :: "json option \<Rightarrow> (string, json) btree_map option" where
  "default_object v = (case v of None \<Rightarrow> Some [] | Some v \<Rightarrow> json_as_object v)"

definition compat_options_from_request :: "model_step_request \<Rightarrow> compat_options" where
  "compat_options_from_request request =
     unwrap_or (Option.bind (req_provider_options request) (\<lambda>v.
       Option.bind (struct_values [[''tool_choice''], [''parallel_tool_calls''], [''extra_body'']] v) (\<lambda>vs.
       Option.bind (default_bool (vs ! 1)) (\<lambda>parallel.
       map_option (\<lambda>extra. \<lparr>co_tool_choice = default_value (vs ! 0), co_parallel_tool_calls = parallel,
           co_extra_body = extra\<rparr>) (default_object (vs ! 2))))))
     \<lparr>co_tool_choice = None, co_parallel_tool_calls = None, co_extra_body = []\<rparr>"

definition build_chat_tools :: "(tool_name, client_tool_spec) btree_map \<Rightarrow> json list" where
  "build_chat_tools client_tools =
     map (\<lambda>(name, tool). json_object
       [(''type'', JString ''function''),
        (''function'', json_object [(''name'', JString name), (''description'', JString (cts_description tool)),
           (''parameters'', tool_input_json_schema (cts_input_schema tool))])]) client_tools"

definition compat_step_body ::
  "(json \<Rightarrow> string) \<Rightarrow> media_backend \<Rightarrow> model_step_request \<Rightarrow> provider_error + json" where
  "compat_step_body print mb request =
     (let options = compat_options_from_request request in
      case to_chat_messages print mb (req_transcript request) (req_image_encoding request) of
        Inl e \<Rightarrow> Inl e
      | Inr messages \<Rightarrow>
          (let declared = build_chat_tools (req_client_tools request) in
           Inr (merge_extra_body (json_strip_nulls (json_object
             [(''model'', JString (req_model request)),
              (''messages'', JArray messages),
              (''tools'', if declared = [] then JNull else JArray declared),
              (''tool_choice'', if declared = [] then JNull
                 else unwrap_or (co_tool_choice options) (JString ''auto'')),
              (''parallel_tool_calls'', json_opt JBool (co_parallel_tool_calls options)),
              (''max_tokens'', json_opt (\<lambda>n. JNumber (dec_digits (unat n))) (so_max_output_tokens (req_sampling request))),
              (''temperature'', json_opt JNumber (so_temperature (req_sampling request))),
              (''top_p'', json_opt JNumber (so_top_p (req_sampling request)))]))
             (co_extra_body options))))"

section \<open>The response\<close>

record tool_call_function =
  tcf_name :: string
  tcf_arguments :: string

record chat_tool_call_entry =
  tce_id :: string
  tce_function :: tool_call_function

record response_message =
  rm_content :: "json option"
  rm_reasoning_content :: "string option"
  rm_tool_calls :: "chat_tool_call_entry list"
  rm_function_call :: "tool_call_function option"

record chat_response =
  chr_choices :: "response_message list"
  chr_model :: "string option"
  chr_usage :: "json option"

definition parse_arguments :: "(string \<Rightarrow> string + json) \<Rightarrow> string \<Rightarrow> json" where
  "parse_arguments parse arguments = (case parse arguments of Inl _ \<Rightarrow> JNull | Inr v \<Rightarrow> v)"

definition parse_tool_calls ::
  "(string \<Rightarrow> string + json) \<Rightarrow> chat_tool_call_entry list \<Rightarrow> tool_call_function option \<Rightarrow> client_tool_call list" where
  "parse_tool_calls parse entries deprecated =
     (if entries \<noteq> [] then
        map (\<lambda>(idx, e). \<lparr>ctc_id = (if tce_id e = [] then ''tool_call_'' @ dec_digits idx else tce_id e),
            ctc_name = tcf_name (tce_function e), ctc_input = parse_arguments parse (tcf_arguments (tce_function e))\<rparr>)
          (List.enumerate 0 entries)
      else case deprecated of
        None \<Rightarrow> []
      | Some f \<Rightarrow> [\<lparr>ctc_id = ''function_call_'' @ tcf_name f, ctc_name = tcf_name f,
          ctc_input = parse_arguments parse (tcf_arguments f)\<rparr>])"

definition content_part_text :: "json \<Rightarrow> string" where
  "content_part_text part =
     (if json_str_field part ''type'' = Some ''text'' then unwrap_or (json_str_field part ''text'') [] else [])
     @ unwrap_or (json_str_field part ''refusal'') []"

definition content_to_text :: "json option \<Rightarrow> string" where
  "content_to_text content =
     (case content of
        Some (JString text) \<Rightarrow> text
      | Some (JArray parts) \<Rightarrow> concat (map content_part_text parts)
      | _ \<Rightarrow> [])"

definition continuation_from_reasoning_content :: "provider_name \<Rightarrow> string option \<Rightarrow> provider_continuation option" where
  "continuation_from_reasoning_content provider reasoning =
     (case reasoning of
        None \<Rightarrow> None
      | Some raw \<Rightarrow>
          (let text = str_trim raw in
           if text = [] then None
           else Some \<lparr>pc_provider = provider, pc_data = json_object [(''type'', JString ''reasoning''),
             (''summary'', JArray [json_object [(''type'', JString ''reasoning_content''), (''text'', JString text)]])]\<rparr>))"

record compat_usage =
  cu_prompt_tokens :: u64
  cu_cached_tokens :: u64
  cu_completion_tokens :: u64
  cu_reasoning_tokens :: u64
  cu_total_tokens :: u64

text \<open>The details are a struct of two counters; which of them a section uses is its position.\<close>

definition compat_details :: "json option \<Rightarrow> (u64 \<times> u64) option" where
  "compat_details v =
     Option.bind (struct_values [[''cached_tokens''], [''reasoning_tokens'']] (unwrap_or v (JObject []))) (\<lambda>vs.
     Option.bind (default_u64 (vs ! 0)) (\<lambda>cached. map_option (\<lambda>reasoning. (cached, reasoning)) (default_u64 (vs ! 1))))"

definition compat_usage_from_value :: "json \<Rightarrow> compat_usage option" where
  "compat_usage_from_value v =
     Option.bind (struct_values [[''prompt_tokens''], [''prompt_tokens_details''], [''completion_tokens''],
         [''completion_tokens_details''], [''total_tokens'']] v) (\<lambda>vs.
     Option.bind (default_u64 (vs ! 0)) (\<lambda>prompt. Option.bind (compat_details (vs ! 1)) (\<lambda>prompt_details.
     Option.bind (default_u64 (vs ! 2)) (\<lambda>completion. Option.bind (compat_details (vs ! 3)) (\<lambda>completion_details.
     map_option (\<lambda>sum. \<lparr>cu_prompt_tokens = prompt, cu_cached_tokens = fst prompt_details,
         cu_completion_tokens = completion, cu_reasoning_tokens = snd completion_details, cu_total_tokens = sum\<rparr>)
       (default_u64 (vs ! 4)))))))"

definition usage_from_compat ::
  "provider_name \<Rightarrow> model_id option \<Rightarrow> usage_subject \<Rightarrow> json option \<Rightarrow> usage_record option" where
  "usage_from_compat provider model subject usage =
     Option.bind usage (\<lambda>raw. map_option (\<lambda>parsed.
       \<lparr>ur_provider = provider, ur_model = model, ur_subject = subject,
        ur_input_tokens = Some (cu_prompt_tokens parsed), ur_cached_input_tokens = Some (cu_cached_tokens parsed),
        ur_output_tokens = Some (cu_completion_tokens parsed), ur_reasoning_tokens = Some (cu_reasoning_tokens parsed),
        ur_total_tokens = Some (cu_total_tokens parsed), ur_cost = None, ur_raw = Some raw\<rparr>)
       (compat_usage_from_value raw))"

record compat_output =
  cso_model_id :: model_id
  cso_kind :: model_step_kind
  cso_text :: string
  cso_client_tool_calls :: "client_tool_call list"
  cso_continuation :: "provider_continuation option"
  cso_usage :: "usage_record list"

text \<open>\<open>step_output\<close> after the response has been decoded.\<close>

definition compat_step_output ::
  "(string \<Rightarrow> string + json) \<Rightarrow> provider_name \<Rightarrow> model_id \<Rightarrow> chat_response \<Rightarrow> provider_error + compat_output" where
  "compat_step_output parse provider requested_model response =
     (let model_id = unwrap_or (chr_model response) requested_model;
          usage = usage_from_compat provider (Some model_id) ModelStep (chr_usage response)
      in case chr_choices response of
        [] \<Rightarrow> Inl (DecodeError ''response had no choices'')
      | message # _ \<Rightarrow>
          (let tool_calls = parse_tool_calls parse (rm_tool_calls message) (rm_function_call message) in
           Inr \<lparr>cso_model_id = model_id, cso_kind = (if tool_calls = [] then Final else ClientTools),
             cso_text = content_to_text (rm_content message), cso_client_tool_calls = tool_calls,
             cso_continuation = continuation_from_reasoning_content provider (rm_reasoning_content message),
             cso_usage = (case usage of None \<Rightarrow> [] | Some u \<Rightarrow> [u])\<rparr>))"

definition compat_call_event :: "(json \<Rightarrow> string) \<Rightarrow> nat \<times> client_tool_call \<Rightarrow> model_step_event" where
  "compat_call_event print e =
     Delta (DeltaClientToolCall (''openai_compat_tool:'' @ dec_digits (fst e)) (ctc_id (snd e)) (Some (ctc_name (snd e)))
       (print (ctc_input (snd e))))"

definition compat_step_events :: "(json \<Rightarrow> string) \<Rightarrow> compat_output \<Rightarrow> model_step_event list" where
  "compat_step_events print out =
     (if cso_text out = [] then [] else [Delta (DeltaText ''openai_compat_text:0'' (cso_text out))])
     @ map (compat_call_event print) (List.enumerate 0 (cso_client_tool_calls out))
     @ (case cso_continuation out of
          None \<Rightarrow> []
        | Some c \<Rightarrow> reasoning_items_to_delta_events
              (tr_items (from_continuation_and_usage (Some c) (Some (cso_model_id out)) [])) ''openai_compat_reasoning''
            @ [EvContinuation c])
     @ map EvUsage (cso_usage out)
     @ [Finished (cso_kind out) (cso_model_id out)]"

section \<open>The step that is collected\<close>

definition compat_call_id :: "nat \<Rightarrow> string" where
  "compat_call_id n = ''openai_compat_tool:'' @ dec_digits n"

definition compat_call_slot :: "(json \<Rightarrow> string) \<Rightarrow> nat \<times> client_tool_call \<Rightarrow> output_slot" where
  "compat_call_slot print e =
     Pending (PendingClientToolCall (compat_call_id (fst e)) (ctc_id (snd e)) (Some (ctc_name (snd e))) (print (ctc_input (snd e))))"

text \<open>No call numbered \<open>n\<close> or higher has been opened, and the key is not open.\<close>

definition calls_fresh :: "nat \<Rightarrow> string \<Rightarrow> model_step_collector \<Rightarrow> bool" where
  "calls_fresh n key c \<longleftrightarrow> collector_invar c \<and> finished c = None \<and> btm_get (ids c) key = None
     \<and> (\<forall>j \<ge> n. btm_get (ids c) (compat_call_id j) = None)"

lemma compat_call_id_inj [simp]: "compat_call_id i = compat_call_id j \<longleftrightarrow> i = j"
  by (simp add: compat_call_id_def dec_digits_inj)

lemma compat_call_event_id:
  "compat_call_event print (n, call) = Delta (DeltaClientToolCall (compat_call_id n) (ctc_id call) (Some (ctc_name call))
     (print (ctc_input call)))"
  by (simp add: compat_call_event_def compat_call_id_def)

lemma collect_compat_call:
  assumes "calls_fresh n key c" and "key \<notin> range compat_call_id"
  shows "\<exists>c'. (collector_push c (compat_call_event print (n, call)) :: 'je collector_failure + _) = Inr c'
    \<and> calls_fresh (Suc n) key c' \<and> slots c' = slots c @ [compat_call_slot print (n, call)]"
proof -
  let ?d = "DeltaClientToolCall (compat_call_id n) (ctc_id call) (Some (ctc_name call)) (print (ctc_input call))"
  let ?p = "PendingClientToolCall (compat_call_id n) (ctc_id call) (Some (ctc_name call)) (print (ctc_input call))"
  let ?c = "c\<lparr>ids := btm_insert (compat_call_id n) PkClientToolCall (ids c), slots := slots c @ [Pending ?p]\<rparr>"
  have invar: "collector_invar c" "finished c = None" "btm_get (ids c) (compat_call_id n) = None" "btm_invar (ids c)"
    using assms(1) by (auto simp: calls_fresh_def collector_invar_def)
  have "(try_fold collector_push c (map Delta [?d]) :: 'je collector_failure + _) = Inr ?c"
    by (rule push_delta_segment [OF _ _ invar(1-3)]) simp_all
  then have push: "(collector_push c (Delta ?d) :: 'je collector_failure + _) = Inr ?c" by (simp split: sum.splits)
  have "calls_fresh (Suc n) key ?c"
    using assms invar collector_push_invar [OF invar(1) push]
    by (auto simp: calls_fresh_def btm_get_insert)
  with push show ?thesis
    by (auto simp: compat_call_event_id compat_call_slot_def)
qed

lemma collect_compat_calls:
  assumes "calls_fresh n key c" and "key \<notin> range compat_call_id"
  shows "\<exists>c'. (try_fold collector_push c (map (compat_call_event print) (List.enumerate n calls)) :: 'je collector_failure + _)
      = Inr c' \<and> collector_invar c' \<and> finished c' = None \<and> btm_get (ids c') key = None
    \<and> slots c' = slots c @ map (compat_call_slot print) (List.enumerate n calls)"
  using assms(1)
proof (induction calls arbitrary: n c)
  case Nil
  then show ?case by (simp add: calls_fresh_def)
next
  case (Cons call calls)
  obtain c1 where "(collector_push c (compat_call_event print (n, call)) :: 'je collector_failure + _) = Inr c1"
    "calls_fresh (Suc n) key c1" "slots c1 = slots c @ [compat_call_slot print (n, call)]"
    using collect_compat_call [OF Cons.prems assms(2)] by blast
  with Cons.IH [of "Suc n" c1] show ?case by (auto simp: enumerate_simps)
qed

lemma finish_compat_calls:
  assumes "\<forall>call \<in> set calls. parse (print (ctc_input call)) = Inr (ctc_input call) \<and> str_trim (print (ctc_input call)) \<noteq> []"
  shows "try_fold (finish_slot parse) out (map (compat_call_slot print) (List.enumerate n calls))
    = Inr (out\<lparr>mso_items := mso_items out @ map (\<lambda>call. OutputBlock (OutClientToolCall call)) calls\<rparr>)"
  using assms
proof (induction calls arbitrary: n out)
  case (Cons call calls)
  then show ?case by (simp add: enumerate_simps compat_call_slot_def)
qed simp

text \<open>What the continuation of a response contributes: its reasoning, under an id, and itself.\<close>

definition compat_items :: "compat_output \<Rightarrow> model_step_item list" where
  "compat_items out =
     (if cso_text out = [] then [] else [OutputBlock (OutText (cso_text out))])
     @ map (\<lambda>call. OutputBlock (OutClientToolCall call)) (cso_client_tool_calls out)
     @ (case cso_continuation out of
          None \<Rightarrow> []
        | Some c \<Rightarrow> map (\<lambda>r. Reasoning (r\<lparr>ri_id := Some ''openai_compat_reasoning:0''\<rparr>))
              (tr_items (from_continuation_and_usage (Some c) (Some (cso_model_id out)) []))
            @ [OutputBlock (OutContinuation c)])"

lemma dec_digits_zero: "dec_digits 0 = ''0''"
  by code_simp

lemma compat_reasoning:
  assumes "continuation_from_reasoning_content provider reasoning = Some c"
  obtains shown where
    "tr_items (from_continuation_and_usage (Some c) (Some model_id) []) = [\<lparr>ri_provider = provider, ri_model = Some model_id,
       ri_id = None, ri_status = None, ri_summary = [\<lparr>rs_kind = Some ''reasoning_content'', rs_text = shown\<rparr>]\<rparr>]"
    and "shown \<noteq> []"
  using assms
  by (auto simp: continuation_from_reasoning_content_def Let_def from_continuation_and_usage_def json_object_def
      btm_of_list_def reasoning_items_from_continuation_def reasoning_item_from_value_def btm_get_def
      reasoning_summary_text_def split: if_splits option.splits)

text \<open>
  A compatible gateway's answer reaches the agent loop as it was decoded: its text, its tool calls in
  order with their inputs, its trimmed reasoning, its continuation and its usage, nothing else, provided the
  JSON printer and parser agree on the inputs of the calls.
\<close>

theorem compat_response_collects:
  assumes "compat_step_output parse provider requested response = Inr out"
    and "\<forall>call \<in> set (cso_client_tool_calls out).
      parse (print (ctc_input call)) = Inr (ctc_input call) \<and> str_trim (print (ctc_input call)) \<noteq> []"
  shows "(collect_model_step parse (map Inr (compat_step_events print out)) :: (string, unit) model_step_collection_error + _)
    = Inr \<lparr>ms_kind = cso_kind out,
        ms_output = \<lparr>mso_model_id = cso_model_id out, mso_items = compat_items out, mso_usage = cso_usage out\<rparr>\<rparr>"
proof -
  let ?key = "''openai_compat_reasoning:0''"
  let ?text = "if cso_text out = [] then [] else [Delta (DeltaText ''openai_compat_text:0'' (cso_text out))]"
  have key: "?key \<notin> range compat_call_id" and text_key: "''openai_compat_text:0'' \<notin> range compat_call_id"
    by (auto simp: compat_call_id_def)
  define c0 where "c0 = (if cso_text out = [] then collector_default
    else \<lparr>slots = [Pending (PendingText ''openai_compat_text:0'' (cso_text out))], ids = [(''openai_compat_text:0'', PkText)],
      finished = None\<rparr>)"
  have c0: "(try_fold collector_push collector_default ?text :: string collector_failure + _) = Inr c0"
    by (simp add: c0_def collector_push_def push_delta_def pending_slot_def collector_default_def Let_def)
  have slots0: "slots c0 = (if cso_text out = [] then [] else [Pending (PendingText ''openai_compat_text:0'' (cso_text out))])"
    by (simp add: c0_def collector_default_def)
  have "collector_invar c0"
    using try_fold_invariant [OF c0, where P = collector_invar] collector_invar_default collector_push_invar by blast
  moreover have "btm_get (ids c0) k = None" if "k \<noteq> ''openai_compat_text:0''" for k
    using that by (simp add: c0_def collector_default_def btm_get_def)
  moreover have "compat_call_id j \<noteq> ''openai_compat_text:0''" for j using text_key by (metis rangeI)
  moreover have "finished c0 = None" by (simp add: c0_def collector_default_def)
  ultimately have fresh: "calls_fresh 0 ?key c0" by (simp add: calls_fresh_def)
  obtain c1 where c1: "(try_fold collector_push c0 (map (compat_call_event print) (List.enumerate 0 (cso_client_tool_calls out)))
      :: string collector_failure + _) = Inr c1"
    "collector_invar c1" "finished c1 = None" "btm_get (ids c1) ?key = None"
    "slots c1 = slots c0 @ map (compat_call_slot print) (List.enumerate 0 (cso_client_tool_calls out))"
    using collect_compat_calls [OF fresh key] by blast
  have usages: "(try_fold collector_push c (map EvUsage us) :: string collector_failure + _)
      = Inr (c\<lparr>slots := slots c @ map UsageSlot us\<rparr>)" if "finished c = None" for c us
    using that by (induction us arbitrary: c) (simp_all add: collector_push_def push_slot_def)
  have finish_usages: "try_fold (finish_slot parse) o' (map UsageSlot us) = Inr (o'\<lparr>mso_usage := mso_usage o' @ us\<rparr>)" for o' us
    by (induction us arbitrary: o') simp_all
  have items: "try_fold (finish_slot parse) o' (slots c1)
      = Inr (o'\<lparr>mso_items := mso_items o' @ (if cso_text out = [] then [] else [OutputBlock (OutText (cso_text out))])
          @ map (\<lambda>call. OutputBlock (OutClientToolCall call)) (cso_client_tool_calls out)\<rparr>)" for o'
    using finish_compat_calls [where parse = parse and print = print, OF assms(2)]
    by (simp add: c1(5) slots0 try_fold_append)
  obtain rest where rest: "(try_fold collector_push c1 (case cso_continuation out of
        None \<Rightarrow> []
      | Some c \<Rightarrow> reasoning_items_to_delta_events
            (tr_items (from_continuation_and_usage (Some c) (Some (cso_model_id out)) [])) ''openai_compat_reasoning''
          @ [EvContinuation c]) :: string collector_failure + _) = Inr (c1\<lparr>ids := fst rest, slots := slots c1 @ snd rest\<rparr>)"
    and finish_rest: "\<And>o'. mso_model_id o' = cso_model_id out \<Longrightarrow> try_fold (finish_slot parse) o' (snd rest)
      = Inr (o'\<lparr>mso_items := mso_items o' @ (case cso_continuation out of
          None \<Rightarrow> []
        | Some c \<Rightarrow> map (\<lambda>r. Reasoning (r\<lparr>ri_id := Some ?key\<rparr>))
              (tr_items (from_continuation_and_usage (Some c) (Some (cso_model_id out)) []))
            @ [OutputBlock (OutContinuation c)])\<rparr>)"
  proof (cases "cso_continuation out")
    case None
    then show thesis using that [of "(ids c1, [])"] by simp
  next
    case (Some c)
    then obtain reasoning where "continuation_from_reasoning_content provider reasoning = Some c"
      using assms(1) by (auto simp: compat_step_output_def Let_def split: list.splits)
    then obtain shown where shown: "tr_items (from_continuation_and_usage (Some c) (Some (cso_model_id out)) [])
        = [\<lparr>ri_provider = provider, ri_model = Some (cso_model_id out), ri_id = None, ri_status = None,
            ri_summary = [\<lparr>rs_kind = Some ''reasoning_content'', rs_text = shown\<rparr>]\<rparr>]" "shown \<noteq> []"
      by (rule compat_reasoning)
    let ?p = "PendingReasoning ?key provider [\<lparr>prs_kind = Some ''reasoning_content'', prs_text = shown\<rparr>]"
    show thesis
      using that [of "(btm_insert ?key PkReasoning (ids c1), [Pending ?p, Collected (OutputBlock (OutContinuation c))])"]
        Some shown c1(3,4)
      by (simp add: reasoning_items_to_delta_events_def dec_digits_zero collector_push_def push_delta_def
          pending_slot_def push_slot_def Let_def)
  qed
  let ?c2 = "c1\<lparr>ids := fst rest, slots := slots c1 @ snd rest\<rparr>"
  let ?c3 = "?c2\<lparr>slots := slots ?c2 @ map UsageSlot (cso_usage out)\<rparr>"
  have "(try_fold collector_push collector_default (compat_step_events print out) :: string collector_failure + _)
      = Inr (?c3\<lparr>finished := Some (cso_kind out, cso_model_id out)\<rparr>)"
    using c0 c1(1,3) rest usages [of ?c2 "cso_usage out"]
    by (simp add: compat_step_events_def try_fold_append collector_push_def)
  then show ?thesis
    using items finish_rest finish_usages
    by (simp add: collect_model_step_def collect_events_Inr collector_finish_def try_fold_append
        model_step_output_new_def compat_items_def)
qed

definition sample_chat :: chat_response where
  "sample_chat = \<lparr>chr_choices = [\<lparr>rm_content = Some (JString ''hi''), rm_reasoning_content = None,
      rm_tool_calls = [\<lparr>tce_id = [], tce_function = \<lparr>tcf_name = ''f'', tcf_arguments = ''[]''\<rparr>\<rparr>],
      rm_function_call = None\<rparr>], chr_model = None, chr_usage = None\<rparr>"

theorem compat_response_collects_witness:
  "\<exists>out. compat_step_output (\<lambda>_. Inr (JArray [])) ''local'' ''m'' sample_chat = Inr out
    \<and> (collect_model_step (\<lambda>_. Inr (JArray [])) (map Inr (compat_step_events (\<lambda>_. ''[]'') out))
        :: (string, unit) model_step_collection_error + _)
      = Inr \<lparr>ms_kind = ClientTools, ms_output = \<lparr>mso_model_id = ''m'',
          mso_items = [OutputBlock (OutText ''hi''), OutputBlock (OutClientToolCall
            \<lparr>ctc_id = ''tool_call_0'', ctc_name = ''f'', ctc_input = JArray []\<rparr>)], mso_usage = []\<rparr>\<rparr>"
proof -
  let ?calls = "[\<lparr>ctc_id = ''tool_call_0'', ctc_name = ''f'', ctc_input = JArray []\<rparr>]"
  let ?out = "\<lparr>cso_model_id = ''m'', cso_kind = ClientTools, cso_text = ''hi'', cso_client_tool_calls = ?calls,
    cso_continuation = None, cso_usage = []\<rparr>"
  have out: "compat_step_output (\<lambda>_. Inr (JArray [])) ''local'' ''m'' sample_chat = Inr ?out"
    by (simp add: compat_step_output_def sample_chat_def usage_from_compat_def parse_tool_calls_def enumerate_simps
        parse_arguments_def dec_digits_zero content_to_text_def continuation_from_reasoning_content_def Let_def)
  have "str_trim ''[]'' = ''[]''" by code_simp
  then have "(collect_model_step (\<lambda>_. Inr (JArray [])) (map Inr (compat_step_events (\<lambda>_. ''[]'') ?out))
      :: (string, unit) model_step_collection_error + _)
      = Inr \<lparr>ms_kind = cso_kind ?out, ms_output = \<lparr>mso_model_id = cso_model_id ?out, mso_items = compat_items ?out,
          mso_usage = cso_usage ?out\<rparr>\<rparr>"
    by (intro compat_response_collects [OF out]) simp_all
  with out show ?thesis by (simp add: compat_items_def)
qed

end
