(* ===== verification/Bot_Replay_Props.thy ===== *)
theory Bot_Replay_Props
  imports Bot_Replay Provider_Gemini Provider_Compat
begin

text \<open>
  What the replay of a conversation guarantees: histories that only grow, tool results that appear once, and what
  happens to the tool calls of providers whose continuations do not name them.
\<close>

section \<open>Histories\<close>

lemma filter_prefix_takeWhile:
  assumes "sorted (map f xs)" "\<And>x y. x \<in> set xs \<Longrightarrow> y \<in> set xs \<Longrightarrow> f x \<le> f y \<Longrightarrow> P y \<Longrightarrow> P x"
  shows "filter P xs = takeWhile P xs"
  using assms
proof (induction xs)
  case (Cons x xs)
  note down = Cons.prems(2)
  show ?case
  proof (cases "P x")
    case True
    have "filter P xs = takeWhile P xs"
    proof (rule Cons.IH)
      show "sorted (map f xs)" using Cons.prems(1) by simp
      fix u v assume "u \<in> set xs" "v \<in> set xs" "f u \<le> f v" "P v"
      then show "P u" using down [of u v] by simp
    qed
    with True show ?thesis by simp
  next
    case False
    have "\<not> P y" if y: "y \<in> set xs" for y
    proof
      assume "P y"
      moreover have "f x \<le> f y" using y Cons.prems(1) by simp
      ultimately show False using down [of x y] y False by simp
    qed
    with False show ?thesis by (simp add: filter_empty_conv)
  qed
qed simp

lemma replay_order_prefix:
  assumes "c1 \<le> c2"
  shows "replay_order snapshot (Some c1) = takeWhile (replayable (Some c1)) (replay_order snapshot (Some c2))"
proof -
  let ?later = "replay_order snapshot (Some c2)"
  have mono: "replayable (Some c1) s \<Longrightarrow> replayable (Some c2) s" for s
    using assms by (auto simp: replayable_def split: option.splits)
  have "filter (replayable (Some c1)) (filter (replayable (Some c2)) xs) = filter (replayable (Some c1)) xs" for xs
    by (auto simp: mono intro: filter_cong)
  then have "replay_order snapshot (Some c1) = filter (replayable (Some c1)) ?later"
    by (simp add: replay_order_def filter_sort)
  also have "\<dots> = takeWhile (replayable (Some c1)) ?later"
  proof (rule filter_prefix_takeWhile)
    show "sorted (map response_order ?later)" by (simp add: replay_order_def)
    fix x y assume "x \<in> set ?later" "y \<in> set ?later" "response_order x \<le> response_order y" "replayable (Some c1) y"
    then show "replayable (Some c1) x"
      by (auto simp: replay_order_def replayable_def response_order_def less_eq_prod_def split: option.splits)
  qed
  finally show ?thesis .
qed

lemma replay_all_append:
  "\<exists>replayed'. replay_all store tid (xs @ ys) replayed = replay_all store tid xs replayed @ replay_all store tid ys replayed'"
  by (induction xs arbitrary: replayed) (auto split: prod.splits)

text \<open>
  C33: The history a model sees only grows: what is replayed up to a response is a prefix of what is replayed up to a
  later one, so earlier messages, prompt changes included, never change between calls.
\<close>

theorem replayed_history_grows:
  assumes "c1 \<le> c2"
  shows "\<exists>later. t_turns (transcript_from_snapshot store snapshot (Some c2))
    = t_turns (transcript_from_snapshot store snapshot (Some c1)) @ later"
proof -
  let ?P = "replayable (Some c1)" and ?xs = "replay_order snapshot (Some c2)"
  obtain replayed' where "replay_all store (Some (cs_conversation_id snapshot)) (takeWhile ?P ?xs @ dropWhile ?P ?xs) ReplayedNone
      = replay_all store (Some (cs_conversation_id snapshot)) (takeWhile ?P ?xs) ReplayedNone
        @ replay_all store (Some (cs_conversation_id snapshot)) (dropWhile ?P ?xs) replayed'"
    using replay_all_append by blast
  then show ?thesis
    by (auto simp: transcript_from_snapshot_def replay_order_prefix [OF assms])
qed

section \<open>Tool results\<close>

definition turn_results :: "transcript_turn list \<Rightarrow> client_tool_result list" where
  "turn_results turns = List.map_filter (\<lambda>b. case b of BlockClientToolResult r \<Rightarrow> Some r | _ \<Rightarrow> None) (concat (map tt_blocks turns))"

lemma turn_results_simps [simp]:
  "turn_results [] = []" "turn_results (xs @ ys) = turn_results xs @ turn_results ys"
  "turn_results (plain_turn User (map BlockClientToolResult rs)) = rs"
  "turn_results (plain_turn Assistant (replay_step_blocks step fin answer)) = []"
proof -
  have "List.map_filter (\<lambda>b. case b of BlockClientToolResult r \<Rightarrow> Some r | _ \<Rightarrow> None) (map BlockClientToolResult rs) = rs"
    by (induction rs) (simp_all add: map_filter_simps)
  then show "turn_results (plain_turn User (map BlockClientToolResult rs)) = rs"
    by (simp add: turn_results_def plain_turn_def map_filter_simps)
qed (auto simp: turn_results_def plain_turn_def replay_step_blocks_def map_filter_def split: option.splits)

definition keyed_results :: "(string, client_tool_result) btree_map \<Rightarrow> bool" where
  "keyed_results results \<longleftrightarrow> btm_invar results \<and> (\<forall>(k, r)\<in>set results. ctr_tool_use_id r = k)"

lemma keyed_get: "keyed_results results \<Longrightarrow> btm_get results k = Some r \<Longrightarrow> ctr_tool_use_id r = k"
  by (auto simp: keyed_results_def btm_get_def dest: map_of_SomeD)

lemma take_results_facts:
  assumes "keyed_results results"
  shows "take_results results wanted consumed = (taken, consumed') \<Longrightarrow>
    consumed' = consumed \<union> ctr_tool_use_id ` set taken
    \<and> distinct (map ctr_tool_use_id taken) \<and> ctr_tool_use_id ` set taken \<inter> consumed = {}
    \<and> set taken \<subseteq> snd ` set results
    \<and> (\<forall>x\<in>set wanted. btm_contains results x \<longrightarrow> x \<in> consumed')"
proof (induction wanted arbitrary: consumed taken consumed')
  case (Cons x wanted)
  show ?case
  proof (cases "x \<in> consumed \<or> btm_get results x = None")
    case True
    then have "take_results results wanted consumed = (taken, consumed')"
      using Cons.prems by (cases "x \<in> consumed") auto
    from Cons.IH [OF this] True show ?thesis
      by (auto simp: btm_contains_def btm_get_def map_of_eq_None_iff)
  next
    case False
    then obtain r rest where r: "btm_get results x = Some r" "taken = r # rest"
      "take_results results wanted (insert x consumed) = (rest, consumed')"
      using Cons.prems by (auto split: prod.splits)
    have "r \<in> snd ` set results" using r(1) by (force simp: btm_get_def dest: map_of_SomeD)
    moreover have "ctr_tool_use_id r = x" by (rule keyed_get [OF assms r(1)])
    ultimately show ?thesis using Cons.IH [OF r(3)] False unfolding r(2) by (simp; blast)
  qed
qed simp

lemma replay_step_results_facts:
  assumes "keyed_results results" "replay_step_results results step consumed = (taken, consumed')"
  shows "consumed' = consumed \<union> ctr_tool_use_id ` set taken \<union> (consumed' \<inter> ctr_tool_use_id ` set taken)
    \<or> mst_continuation step = None"
    and "distinct (map ctr_tool_use_id taken)" "ctr_tool_use_id ` set taken \<inter> consumed = {}"
    "ctr_tool_use_id ` set taken \<subseteq> consumed'" "consumed \<subseteq> consumed'" "set taken \<subseteq> snd ` set results"
    "mst_continuation step = Some c \<Longrightarrow> x \<in> set (provider_client_tool_call_ids c) \<Longrightarrow> btm_contains results x \<Longrightarrow> x \<in> consumed'"
    "consumed' \<subseteq> consumed \<union> ctr_tool_use_id ` set taken"
proof -
  let ?wanted = "case mst_continuation step of None \<Rightarrow> [] | Some c \<Rightarrow> provider_client_tool_call_ids c"
  obtain taken1 consumed1 where first: "take_results results ?wanted consumed = (taken1, consumed1)" by fastforce
  note facts = take_results_facts [OF assms(1) first]
  have all: "distinct (map ctr_tool_use_id taken) \<and> ctr_tool_use_id ` set taken \<inter> consumed = {}
    \<and> consumed' = consumed \<union> ctr_tool_use_id ` set taken \<and> set taken \<subseteq> snd ` set results
    \<and> (\<forall>x\<in>set ?wanted. btm_contains results x \<longrightarrow> x \<in> consumed')"
  proof (cases "mst_kind step = ClientTools \<and> mst_continuation step = None \<and> taken1 = []")
    case True
    then have taken: "taken = map snd (filter (\<lambda>e. fst e \<notin> consumed) results)"
      and consumed: "consumed' = consumed \<union> fst ` set results"
      using assms(2) first facts by (auto simp: replay_step_results_def)
    have keys: "map ctr_tool_use_id taken = map fst (filter (\<lambda>e. fst e \<notin> consumed) results)"
      using assms(1) by (auto simp: keyed_results_def taken)
    have "distinct (map ctr_tool_use_id taken)"
      unfolding keys using assms(1) by (auto simp: keyed_results_def btm_invar_def strict_sorted_iff distinct_map_filter)
    moreover have "set (map ctr_tool_use_id taken) = fst ` set results - consumed"
      unfolding keys by auto
    then have "ctr_tool_use_id ` set taken = fst ` set results - consumed" by simp
    moreover have "set taken \<subseteq> snd ` set results" by (auto simp: taken)
    ultimately show ?thesis using True consumed by auto
  next
    case False
    then have eq: "taken = taken1" "consumed' = consumed1" using assms(2) first by (auto simp: replay_step_results_def)
    show ?thesis unfolding eq using facts by blast
  qed
  then show "distinct (map ctr_tool_use_id taken)" "ctr_tool_use_id ` set taken \<inter> consumed = {}"
    "ctr_tool_use_id ` set taken \<subseteq> consumed'" "consumed \<subseteq> consumed'" "set taken \<subseteq> snd ` set results"
    "mst_continuation step = Some c \<Longrightarrow> x \<in> set (provider_client_tool_call_ids c) \<Longrightarrow> btm_contains results x \<Longrightarrow> x \<in> consumed'"
    "consumed' \<subseteq> consumed \<union> ctr_tool_use_id ` set taken"
    "consumed' = consumed \<union> ctr_tool_use_id ` set taken \<union> (consumed' \<inter> ctr_tool_use_id ` set taken)
      \<or> mst_continuation step = None"
    by auto
qed

lemma replay_steps_results:
  assumes "keyed_results results"
  shows "distinct (map ctr_tool_use_id (turn_results (replay_steps results answer steps consumed)))
    \<and> ctr_tool_use_id ` set (turn_results (replay_steps results answer steps consumed)) \<inter> consumed = {}
    \<and> set (turn_results (replay_steps results answer steps consumed)) \<subseteq> snd ` set results
    \<and> (\<forall>step\<in>set steps. \<forall>c x. mst_continuation step = Some c \<longrightarrow> x \<in> set (provider_client_tool_call_ids c) \<longrightarrow>
        btm_contains results x \<longrightarrow>
        x \<in> consumed \<union> ctr_tool_use_id ` set (turn_results (replay_steps results answer steps consumed)))"
proof (induction steps arbitrary: consumed)
  case (Cons step steps)
  obtain taken consumed' where step: "replay_step_results results step consumed = (taken, consumed')" by fastforce
  note facts = replay_step_results_facts [OF assms step]
  have cons: "consumed' = consumed \<union> ctr_tool_use_id ` set taken" using facts(4,5,8) by blast
  have results: "turn_results (replay_steps results answer (step # steps) consumed)
      = taken @ turn_results (replay_steps results answer steps consumed')"
    by (simp add: step)
  let ?R = "turn_results (replay_steps results answer steps consumed')"
  note IH = Cons.IH [of consumed']
  have "distinct (map ctr_tool_use_id (taken @ ?R))"
    using facts(2) IH cons by auto
  moreover have "ctr_tool_use_id ` set (taken @ ?R) \<inter> consumed = {}"
    using facts(3) IH cons by (auto simp: image_Un)
  moreover have "set (taken @ ?R) \<subseteq> snd ` set results" using facts(6) IH by simp
  moreover have "x \<in> consumed \<union> ctr_tool_use_id ` set (taken @ ?R)"
    if "s \<in> set (step # steps)" "mst_continuation s = Some c" "x \<in> set (provider_client_tool_call_ids c)"
      "btm_contains results x" for s c x
  proof -
    have "x \<in> consumed' \<union> ctr_tool_use_id ` set ?R"
    proof (cases "s = step")
      case True
      then show ?thesis using that(2-4) facts(7) [of c x] by simp
    next
      case False
      then have "s \<in> set steps" using that(1) by simp
      then show ?thesis using that(2-4) IH by blast
    qed
    then show ?thesis unfolding cons by auto
  qed
  ultimately show ?case unfolding results by blast
qed simp

lemma btm_insert_subset: "set (btm_insert k v m) \<subseteq> insert (k, v) (set m)"
  by (induction m) auto

lemma btm_fold_subset: "set (fold (\<lambda>(k, v). btm_insert k v) kvs m) \<subseteq> set kvs \<union> set m"
proof (induction kvs arbitrary: m)
  case (Cons e kvs)
  then show ?case using btm_insert_subset [of "fst e" "snd e" m] by (cases e) fastforce
qed simp

lemma results_by_id:
  "keyed_results (client_tool_results_by_id traces)"
  "(k, r) \<in> set (client_tool_results_by_id traces) \<Longrightarrow> \<exists>t. TraceClient t \<in> set traces \<and> r = ctt_result t"
  "TraceClient t \<in> set traces \<Longrightarrow> btm_contains (client_tool_results_by_id traces) (ctr_tool_use_id (ctt_result t))"
proof -
  let ?kvs = "map (\<lambda>trace. (ctr_tool_use_id (ctt_result trace), ctt_result trace)) (List.map_filter client_trace_of traces)"
  have traces: "t \<in> set (List.map_filter client_trace_of traces) \<longleftrightarrow> TraceClient t \<in> set traces" for t
    by (induction traces) (auto simp: map_filter_simps split: option.splits elim!: client_trace_of.elims)
  have subset: "set (client_tool_results_by_id traces) \<subseteq> set ?kvs"
    using btm_fold_subset [of ?kvs "[]"] by (simp add: client_tool_results_by_id_def btm_of_list_def)
  then show "(k, r) \<in> set (client_tool_results_by_id traces) \<Longrightarrow> \<exists>t. TraceClient t \<in> set traces \<and> r = ctt_result t"
    using traces by auto
  have "btm_invar (client_tool_results_by_id traces)"
    by (simp add: client_tool_results_by_id_def btm_of_list_invar)
  with subset show "keyed_results (client_tool_results_by_id traces)"
    by (auto simp: keyed_results_def)
  have "btm_get (client_tool_results_by_id traces) = map_of (rev ?kvs)"
    by (simp add: client_tool_results_by_id_def btm_of_list_get fun_eq_iff)
  moreover have "map_of (rev ?kvs) (ctr_tool_use_id (ctt_result t)) \<noteq> None" if "TraceClient t \<in> set traces"
    unfolding map_of_eq_None_iff using that traces [of t] by force
  ultimately have "btm_get (client_tool_results_by_id traces) (ctr_tool_use_id (ctt_result t)) \<noteq> None"
    if "TraceClient t \<in> set traces"
    using that by (simp only:) auto
  then show "TraceClient t \<in> set traces \<Longrightarrow> btm_contains (client_tool_results_by_id traces) (ctr_tool_use_id (ctt_result t))"
    unfolding btm_contains_def btm_get_def map_of_eq_None_iff by blast
qed

text \<open>
  C34: Replayed tool results match replayed tool calls: over all model steps of a stored turn, no result appears
  twice, every result was recorded in the turn's trace, and every recorded result whose call a continuation names
  is replayed.
\<close>

theorem replayed_results_once:
  assumes "model_step_replay steps traces answer = Some turns"
  shows "distinct (map ctr_tool_use_id (turn_results turns))
    \<and> (\<forall>r\<in>set (turn_results turns). \<exists>t. TraceClient t \<in> set traces \<and> r = ctt_result t)
    \<and> (\<forall>step\<in>set steps. \<forall>c. mst_continuation step = Some c \<longrightarrow>
        (\<forall>t. TraceClient t \<in> set traces \<longrightarrow> ctr_tool_use_id (ctt_result t) \<in> set (provider_client_tool_call_ids c) \<longrightarrow>
          ctr_tool_use_id (ctt_result t) \<in> ctr_tool_use_id ` set (turn_results turns)))"
proof -
  have turns: "turns = replay_steps (client_tool_results_by_id traces) answer steps {}"
    using assms by (simp add: model_step_replay_def split: if_splits)
  have facts: "distinct (map ctr_tool_use_id (turn_results turns))"
    "set (turn_results turns) \<subseteq> snd ` set (client_tool_results_by_id traces)"
    "\<And>step c x. step \<in> set steps \<Longrightarrow> mst_continuation step = Some c \<Longrightarrow> x \<in> set (provider_client_tool_call_ids c) \<Longrightarrow>
      btm_contains (client_tool_results_by_id traces) x \<Longrightarrow> x \<in> ctr_tool_use_id ` set (turn_results turns)"
    unfolding turns using replay_steps_results [OF results_by_id(1), of traces answer steps "{}"] by blast+
  have "\<exists>t. TraceClient t \<in> set traces \<and> r = ctt_result t" if "r \<in> set (turn_results turns)" for r
    using facts(2) that results_by_id(2) by fastforce
  then show ?thesis using facts(1,3) results_by_id(3) by blast
qed

section \<open>Providers whose continuations name no calls\<close>

lemma gemini_names_no_calls:
  "gemini_continuation provider st = Some c \<Longrightarrow> provider_client_tool_call_ids c = []"
  by (auto simp: gemini_continuation_def provider_client_tool_call_ids_def json_object_def btm_of_list_get
      split: if_splits)

text \<open>
  A conversation that used a tool cannot be continued on Gemini. Its continuation carries the function call, but
  the replay finds no call id in it, so the stored result is left out: the next request has a call without a
  response, whatever the trace holds.
\<close>

theorem gemini_replay_loses_results:
  assumes "gemini_continuation provider st = Some c"
  shows "model_step_replay [\<lparr>mst_ordinal = 0, mst_kind = ClientTools, mst_provider = provider, mst_model = model,
      mst_continuation = Some c\<rparr>] traces answer
    = Some [\<lparr>tt_role = Assistant, tt_blocks = BlockContinuation c #
        (case answer of Some a \<Rightarrow> if a \<noteq> [] then [BlockText a] else [] | None \<Rightarrow> []), tt_metadata = JNull\<rparr>]"
  by (auto simp: model_step_replay_def replay_step_results_def replay_step_blocks_def plain_turn_def
      gemini_names_no_calls [OF assms] split: option.splits)

text \<open>
  A conversation that used a tool is continued on a compatible gateway with an answer to a call that is not there.
  Without a continuation the replay keeps the result of the call but not the call, so the chat messages have a
  tool message that follows no tool call.
\<close>

definition plain_step :: "nat \<Rightarrow> model_step_kind \<Rightarrow> model_step_trace" where
  "plain_step n kind = \<lparr>mst_ordinal = int n, mst_kind = kind, mst_provider = ''local'', mst_model = ''m'',
     mst_continuation = None\<rparr>"

theorem compat_replay_orphans_results:
  "\<exists>turns. model_step_replay [plain_step 0 ClientTools, plain_step 1 Final] [TraceClient trace] (Some ''ok'') = Some turns
    \<and> to_chat_messages print mb \<lparr>t_id = None, t_turns = turns\<rparr> encoding
      = Inr [chat_tool_result print (ctt_result trace), chat_message ''assistant'' (JString ''ok'')]"
proof -
  let ?turns = "[\<lparr>tt_role = User, tt_blocks = [BlockClientToolResult (ctt_result trace)], tt_metadata = JNull\<rparr>,
    \<lparr>tt_role = Assistant, tt_blocks = [BlockText ''ok''], tt_metadata = JNull\<rparr>]"
  have "client_tool_results_by_id [TraceClient trace] = [(ctr_tool_use_id (ctt_result trace), ctt_result trace)]"
    by (simp add: client_tool_results_by_id_def btm_of_list_def map_filter_simps)
  then have "model_step_replay [plain_step 0 ClientTools, plain_step 1 Final] [TraceClient trace] (Some ''ok'') = Some ?turns"
    by (simp add: model_step_replay_def replay_step_results_def replay_step_blocks_def plain_turn_def plain_step_def)
  moreover have "to_chat_messages print mb \<lparr>t_id = None, t_turns = ?turns\<rparr> encoding
      = Inr [chat_tool_result print (ctt_result trace), chat_message ''assistant'' (JString ''ok'')]"
    by (simp add: to_chat_messages_def chat_turn_def push_chat_user_message_def chat_assistant_messages_def chat_message_def
        map_filter_simps)
  ultimately show ?thesis by blast
qed

section \<open>Witnesses\<close>

definition sample_stored_turn :: "int \<Rightarrow> turn_snapshot" where
  "sample_stored_turn n = \<lparr>ts_turn = \<lparr>tn_id = dec_int n, tn_ordinal = n, tn_history_cutoff = None,
     tn_response_ordinal = Some n, tn_user_display_name = ''u'', tn_user_content = ''hi'',
     tn_assistant_content = Some ''ok'', tn_status = TurnCompleted\<rparr>, ts_agent_instructions = None, ts_context = [],
     ts_tool_trace = [], ts_model_steps = [], ts_replay_assets = []\<rparr>"

theorem replayed_history_grows_witness:
  "\<exists>later. t_turns (transcript_from_snapshot (\<lambda>_. Inl ''none'') \<lparr>cs_conversation_id = ''c'',
       cs_turns = [sample_stored_turn 2, sample_stored_turn 1]\<rparr> (Some 2))
    = t_turns (transcript_from_snapshot (\<lambda>_. Inl ''none'') \<lparr>cs_conversation_id = ''c'',
       cs_turns = [sample_stored_turn 2, sample_stored_turn 1]\<rparr> (Some 1)) @ later"
  by (rule replayed_history_grows) simp

definition sample_called :: provider_continuation where
  "sample_called = \<lparr>pc_provider = ''openai'', pc_data = JArray [JObject [(''call_id'', JString ''u''),
     (''type'', JString ''function_call'')]]\<rparr>"

definition sample_trace :: client_tool_trace where
  "sample_trace = \<lparr>ctt_call = \<lparr>ctc_id = ''u'', ctc_name = ''f'', ctc_input = JNull\<rparr>,
     ctt_result = \<lparr>ctr_tool_use_id = ''u'', ctr_content = ResultText ''42'', ctr_is_error = False\<rparr>,
     ctt_trace_response = JNull, ctt_usage = []\<rparr>"

definition sample_steps :: "model_step_trace list" where
  "sample_steps = [(plain_step 0 ClientTools)\<lparr>mst_continuation := Some sample_called\<rparr>, plain_step 1 Final]"

theorem replayed_results_once_witness:
  "\<exists>turns. model_step_replay sample_steps [TraceClient sample_trace] (Some ''ok'') = Some turns
    \<and> ''u'' \<in> ctr_tool_use_id ` set (turn_results turns)"
proof -
  have step: "(plain_step 0 ClientTools)\<lparr>mst_continuation := Some sample_called\<rparr> \<in> set sample_steps"
    "mst_continuation ((plain_step 0 ClientTools)\<lparr>mst_continuation := Some sample_called\<rparr>) = Some sample_called"
    by (simp_all add: sample_steps_def)
  have named: "provider_client_tool_call_ids sample_called = [''u'']"
    by (simp add: provider_client_tool_call_ids_def sample_called_def btm_get_def)
  obtain turns where turns: "model_step_replay sample_steps [TraceClient sample_trace] (Some ''ok'') = Some turns"
    by (simp add: model_step_replay_def sample_steps_def)
  from replayed_results_once [OF turns] step named
  have "ctr_tool_use_id (ctt_result sample_trace) \<in> ctr_tool_use_id ` set (turn_results turns)"
    by (metis (no_types, lifting) client_tool_trace.select_convs(2) client_tool_result.select_convs(1) list.set_intros(1) sample_trace_def)
  then show ?thesis using turns by (auto simp: sample_trace_def)
qed

definition sample_gemini :: gemini_stream_state where
  "sample_gemini = gemini_stream_state_default\<lparr>gss_content_parts :=
     [json_object [(''functionCall'', json_object [(''id'', JString ''u''), (''name'', JString ''f'')])]]\<rparr>"

theorem gemini_replay_loses_results_witness:
  "\<exists>c. gemini_continuation ''gemini'' sample_gemini = Some c
    \<and> model_step_replay [\<lparr>mst_ordinal = 0, mst_kind = ClientTools, mst_provider = ''gemini'', mst_model = ''m'',
        mst_continuation = Some c\<rparr>] [TraceClient sample_trace] None
      = Some [\<lparr>tt_role = Assistant, tt_blocks = [BlockContinuation c], tt_metadata = JNull\<rparr>]"
proof -
  obtain c where c: "gemini_continuation ''gemini'' sample_gemini = Some c"
    by (simp add: gemini_continuation_def sample_gemini_def)
  then show ?thesis
    using gemini_replay_loses_results [OF c, of "''m''" "[TraceClient sample_trace]" None] by simp
qed

end
