(* ===== verification/Rust_Path.thy ===== *)
theory Rust_Path
  imports Rust_Trim Rust_Utf8
begin

text \<open>
  The parts of \<open>std::path\<close> the program uses, on Unix paths kept as byte strings: the components of a path,
  joining, the file name and the extension; and \<open>str::split\<close> on one character.
\<close>

section \<open>Splitting\<close>

fun str_split :: "char \<Rightarrow> string \<Rightarrow> string list" where
  "str_split c [] = [[]]"
| "str_split c (x # s) =
     (if x = c then [] # str_split c s
      else (case str_split c s of [] \<Rightarrow> [[x]] | seg # segs \<Rightarrow> (x # seg) # segs))"

lemma str_split_nonempty [simp]: "str_split c s \<noteq> []"
  by (cases s) (auto split: list.splits)

lemma str_split_plain: "c \<notin> set s \<Longrightarrow> str_split c s = [s]"
  by (induction s) auto

lemma str_split_append: "str_split c (s @ c # t) = str_split c s @ str_split c t"
proof (induction s)
  case (Cons x s)
  then show ?case by (cases "str_split c s") auto
qed simp

lemma str_split_join:
  "segs \<noteq> [] \<Longrightarrow> list_all (\<lambda>seg. c \<notin> set seg) segs \<Longrightarrow> str_split c (str_join [c] segs) = segs"
  by (induction "[c]" segs rule: str_join.induct) (auto simp: str_split_plain str_split_append)

lemma str_join_split: "str_join [c] (str_split c s) = s"
proof (induction s)
  case (Cons x s)
  obtain seg segs where split: "str_split c s = seg # segs" by (cases "str_split c s") auto
  then show ?case using Cons by (cases segs) auto
qed simp

lemma str_split_segments: "seg \<in> set (str_split c s) \<Longrightarrow> c \<notin> set seg \<and> set seg \<subseteq> set s"
proof (induction s arbitrary: seg)
  case (Cons x s)
  obtain first segs where split: "str_split c s = first # segs" by (cases "str_split c s") auto
  from Cons.prems consider "seg = []" | "x \<noteq> c" "seg = x # first" | "seg \<in> set (str_split c s)"
    using split by (auto split: if_splits)
  then show ?case
  proof cases
    case 2
    then show ?thesis using Cons.IH [of first] split by auto
  next
    case 3
    then show ?thesis using Cons.IH by auto
  qed simp
qed simp

section \<open>Paths\<close>

datatype path_component = RootDir | CurDir | ParentDir | NormalComp string

definition is_absolute :: "string \<Rightarrow> bool" where
  "is_absolute path \<longleftrightarrow> starts_with path ''/''"

definition component_of :: "string \<Rightarrow> path_component" where
  "component_of seg = (if seg = ''..'' then ParentDir else NormalComp seg)"

text \<open>Empty segments and \<open>.\<close> are dropped, except a leading \<open>.\<close> of a relative path.\<close>

definition path_components :: "string \<Rightarrow> path_component list" where
  "path_components path =
     (if is_absolute path then [RootDir] else if hd (str_split CHR ''/'' path) = ''.'' then [CurDir] else [])
     @ map component_of (filter (\<lambda>seg. seg \<noteq> [] \<and> seg \<noteq> ''.'') (str_split CHR ''/'' path))"

definition path_join :: "string \<Rightarrow> string \<Rightarrow> string" where
  "path_join base rel =
     (if is_absolute rel then rel
      else if base = [] \<or> last base = CHR ''/'' then base @ rel
      else base @ CHR ''/'' # rel)"

definition same_path :: "string \<Rightarrow> string \<Rightarrow> bool" where
  "same_path a b \<longleftrightarrow> path_components a = path_components b"

definition path_file_name :: "string \<Rightarrow> string option" where
  "path_file_name path =
     (case rev (path_components path) of NormalComp name # _ \<Rightarrow> Some name | _ \<Rightarrow> None)"

text \<open>The extension: what follows the last dot of a file name that does not start with its only dot.\<close>

definition name_extension :: "string \<Rightarrow> string option" where
  "name_extension name =
     (case rev (str_split CHR ''.'' name) of
        ext # stem # rest \<Rightarrow> if stem = [] \<and> rest = [] then None else Some ext
      | _ \<Rightarrow> None)"

definition path_extension :: "string \<Rightarrow> string option" where
  "path_extension path = Option.bind (path_file_name path) name_extension"

text \<open>The components that \<open>strip_prefix\<close> leaves.\<close>

fun strip_components :: "path_component list \<Rightarrow> path_component list \<Rightarrow> path_component list option" where
  "strip_components [] cs = Some cs"
| "strip_components (p # ps) (c # cs) = (if p = c then strip_components ps cs else None)"
| "strip_components (p # ps) [] = None"

text \<open>A path of plain names stays below the directory it is joined to.\<close>

definition plain_name :: "string \<Rightarrow> bool" where
  "plain_name seg \<longleftrightarrow> seg \<noteq> [] \<and> seg \<noteq> ''.'' \<and> seg \<noteq> ''..'' \<and> CHR ''/'' \<notin> set seg"

definition plain_path :: "string \<Rightarrow> bool" where
  "plain_path path \<longleftrightarrow> list_all plain_name (str_split CHR ''/'' path)"

lemma plain_path_join: "segs \<noteq> [] \<Longrightarrow> list_all plain_name segs \<Longrightarrow> plain_path (str_join ''/'' segs)"
  by (simp add: plain_path_def str_split_join list_all_iff plain_name_def)

lemma plain_path_relative: "plain_path path \<Longrightarrow> \<not> is_absolute path \<and> path \<noteq> []"
  by (cases path) (auto simp: plain_path_def is_absolute_def starts_with_def plain_name_def split: list.splits)

lemma plain_path_components:
  assumes "plain_path path"
  shows "path_components path = map NormalComp (str_split CHR ''/'' path)"
proof -
  have "hd (str_split CHR ''/'' path) \<in> set (str_split CHR ''/'' path)" by simp
  then have "hd (str_split CHR ''/'' path) \<noteq> ''.''"
    using assms by (auto simp: plain_path_def list_all_iff plain_name_def)
  moreover have "filter (\<lambda>seg. seg \<noteq> [] \<and> seg \<noteq> ''.'') (str_split CHR ''/'' path) = str_split CHR ''/'' path"
    using assms by (auto simp: plain_path_def list_all_iff plain_name_def filter_id_conv)
  moreover have "map component_of (str_split CHR ''/'' path) = map NormalComp (str_split CHR ''/'' path)"
    using assms by (auto simp: plain_path_def list_all_iff plain_name_def component_of_def)
  ultimately show ?thesis
    using plain_path_relative [OF assms] by (simp add: path_components_def)
qed

text \<open>Pushing a plain name adds a segment.\<close>

lemma path_join_push:
  assumes "path = [] \<or> plain_path path" and "plain_name part"
  shows "str_split CHR ''/'' (path_join path part) = (if path = [] then [part] else str_split CHR ''/'' path @ [part])"
    and "plain_path (path_join path part)"
proof -
  have part: "str_split CHR ''/'' part = [part]" "\<not> is_absolute part" "part \<noteq> []"
    using assms(2) str_split_plain [of "CHR ''/''" part]
    by (auto simp: plain_name_def is_absolute_def starts_with_def) (cases part; simp)+
  have "last path \<noteq> CHR ''/''" if "path \<noteq> []"
  proof
    assume "last path = CHR ''/''"
    then have "path = butlast path @ CHR ''/'' # []" using that by (metis append_butlast_last_id)
    then have "[] \<in> set (str_split CHR ''/'' path)"
      using str_split_append [of "CHR ''/''" "butlast path" "[]"] by simp
    then show False using assms(1) that by (auto simp: plain_path_def list_all_iff plain_name_def)
  qed
  then show split: "str_split CHR ''/'' (path_join path part) = (if path = [] then [part] else str_split CHR ''/'' path @ [part])"
    using part by (simp add: path_join_def str_split_append)
  show "plain_path (path_join path part)"
    unfolding plain_path_def split using assms by (auto simp: plain_path_def)
qed

lemma component_plain: "NormalComp seg \<in> set (path_components path) \<Longrightarrow> plain_name seg"
  using str_split_segments [of seg "CHR ''/''" path]
  by (auto simp: path_components_def component_of_def plain_name_def split: if_splits)

section \<open>Relative paths of a URL\<close>

text \<open>The loop that keeps the normal components and skips \<open>.\<close>, failing on any other.\<close>

fun push_normal :: "string \<Rightarrow> path_component list \<Rightarrow> string option" where
  "push_normal path [] = Some path"
| "push_normal path (NormalComp part # comps) = push_normal (path_join path part) comps"
| "push_normal path (CurDir # comps) = push_normal path comps"
| "push_normal path (_ # comps) = None"

lemma push_normal_plain:
  "push_normal path comps = Some p \<Longrightarrow> path = [] \<or> plain_path path \<Longrightarrow>
     (\<And>seg. NormalComp seg \<in> set comps \<Longrightarrow> plain_name seg) \<Longrightarrow> p = [] \<or> plain_path p"
  by (induction path comps rule: push_normal.induct) (auto simp: path_join_push)

end
