(* ===== verification/Vibe_Access.thy ===== *)
theory Vibe_Access
  imports Rust_Utf8 Json_Value
begin

text \<open>
  Who may do what with a Vibe site, and which names a site may have: \<open>chudbot-vibe/src/access.rs\<close> and
  \<open>names.rs\<close>, with the actors, sites and roles of \<open>chudbot-api/src/vibe.rs\<close>.
\<close>

section \<open>Actors, sites and roles\<close>

record vibe_actor =
  va_platform :: string
  va_guild_id :: "string option"
  va_user_id :: string
  va_conversation_id :: string
  va_turn_id :: string
  va_is_admin :: bool

datatype vibe_site_status = SiteCreating | SiteActive | SiteArchived

datatype vibe_site_access = SiteProtected | SitePublic

fun vibe_site_access_str :: "vibe_site_access \<Rightarrow> string" where
  "vibe_site_access_str SiteProtected = ''protected''"
| "vibe_site_access_str SitePublic = ''public''"

datatype vibe_role = RoleMember | RoleEditor | RoleOwner | RoleAdmin

record vibe_site =
  vs_id :: string
  vs_name :: string
  vs_platform :: string
  vs_guild_id :: string
  vs_owner_user_id :: string
  vs_description :: string
  vs_status :: vibe_site_status
  vs_access :: vibe_site_access
  vs_active_revision_id :: "string option"
  vs_running_job_id :: "string option"

record vibe_revision =
  rv_id :: string
  rv_site_id :: string
  rv_ordinal :: int
  rv_parent_revision_id :: "string option"
  rv_commit_oid :: string
  rv_image_id :: string
  rv_message :: string
  rv_build_log :: string
  rv_actor_user_id :: string
  rv_conversation_id :: string
  rv_turn_id :: string
  rv_job_id :: string
  rv_created_at :: json

datatype vibe_action = ActionCreate | ActionEdit

datatype vibe_job_state =
    JobQueued
  | JobCoding
  | JobBuilding
  | JobRepair
  | JobCommitting
  | JobDone
  | JobNoChanges
  | JobFailed
  | JobCancelled
  | JobTimedOut

record vibe_job =
  vj_id :: string
  vj_site_id :: "string option"
  vj_site_name :: string
  vj_action :: vibe_action
  vj_actor_user_id :: string
  vj_platform :: string
  vj_guild_id :: string
  vj_conversation_id :: string
  vj_turn_id :: string
  vj_tool_use_id :: string
  vj_state :: vibe_job_state
  vj_error :: "string option"

section \<open>Access\<close>

datatype vibe_operation = OpView | OpCreate | OpEdit | OpManage | OpPurge

datatype vibe_access_error =
    VibeDisabled
  | VibeDirectMessage
  | VibeGuildNotAllowed
  | VibeNotMember
  | VibeWrongGuild
  | VibeForbidden

record vibe_allowed_guild =
  vg_platform :: string
  vg_guild_id :: string

record vibe_access =
  vx_enabled :: bool
  vx_admins_only :: bool
  vx_allowed_guilds :: "vibe_allowed_guild list"

definition check_rollout :: "vibe_access \<Rightarrow> vibe_actor \<Rightarrow> vibe_operation \<Rightarrow> vibe_access_error + unit" where
  "check_rollout access actor operation =
     (if \<not> vx_enabled access then Inl VibeDisabled
      else case va_guild_id actor of
        None \<Rightarrow> Inl VibeDirectMessage
      | Some guild_id \<Rightarrow>
          (if vx_allowed_guilds access \<noteq> []
              \<and> \<not> list_ex (\<lambda>a. vg_platform a = va_platform actor \<and> vg_guild_id a = guild_id) (vx_allowed_guilds access)
           then Inl VibeGuildNotAllowed
           else if vx_admins_only access \<and> operation \<in> {OpCreate, OpEdit} \<and> \<not> va_is_admin actor
           then Inl VibeForbidden
           else Inr ()))"

fun role_allows :: "vibe_role \<Rightarrow> vibe_operation \<Rightarrow> bool" where
  "role_allows role OpView = True"
| "role_allows role OpCreate = False"
| "role_allows role OpEdit = (role \<in> {RoleEditor, RoleOwner, RoleAdmin})"
| "role_allows role OpManage = (role \<in> {RoleOwner, RoleAdmin})"
| "role_allows role OpPurge = (role = RoleAdmin)"

definition check_site ::
  "vibe_access \<Rightarrow> vibe_actor \<Rightarrow> vibe_site \<Rightarrow> vibe_role \<Rightarrow> vibe_operation \<Rightarrow> bool \<Rightarrow> vibe_access_error + unit" where
  "check_site access actor site role operation current_member =
     (case check_rollout access actor operation of
        Inl e \<Rightarrow> Inl e
      | Inr _ \<Rightarrow>
          (if \<not> current_member then Inl VibeNotMember
           else if va_platform actor \<noteq> vs_platform site \<or> va_guild_id actor \<noteq> Some (vs_guild_id site)
           then Inl VibeWrongGuild
           else if role_allows role operation then Inr () else Inl VibeForbidden))"

lemma check_rollout_granted:
  "check_rollout access actor operation = Inr () \<longleftrightarrow>
     vx_enabled access
     \<and> (\<exists>guild_id. va_guild_id actor = Some guild_id
          \<and> (vx_allowed_guilds access = []
             \<or> \<lparr>vg_platform = va_platform actor, vg_guild_id = guild_id\<rparr> \<in> set (vx_allowed_guilds access)))
     \<and> (vx_admins_only access \<and> operation \<in> {OpCreate, OpEdit} \<longrightarrow> va_is_admin actor)"
proof -
  have allowed: "list_ex (\<lambda>a. vg_platform a = p \<and> vg_guild_id a = g) gs
      \<longleftrightarrow> \<lparr>vg_platform = p, vg_guild_id = g\<rparr> \<in> set gs" for p g gs
    by (induction gs) auto
  show ?thesis by (auto simp: check_rollout_def allowed split: option.split)
qed

lemma check_rollout_cases: "check_rollout access actor operation \<noteq> Inr () \<Longrightarrow> \<exists>e. check_rollout access actor operation = Inl e"
  by (cases "check_rollout access actor operation") auto

definition role_rank :: "vibe_role \<Rightarrow> nat" where
  "role_rank role = (case role of RoleMember \<Rightarrow> 0 | RoleEditor \<Rightarrow> 1 | RoleOwner \<Rightarrow> 2 | RoleAdmin \<Rightarrow> 3)"

definition required_rank :: "vibe_operation \<Rightarrow> nat option" where
  "required_rank operation =
     (case operation of OpView \<Rightarrow> Some 0 | OpCreate \<Rightarrow> None | OpEdit \<Rightarrow> Some 1 | OpManage \<Rightarrow> Some 2 | OpPurge \<Rightarrow> Some 3)"

lemma role_allows_rank:
  "role_allows role operation \<longleftrightarrow> (\<exists>r. required_rank operation = Some r \<and> r \<le> role_rank role)"
  by (cases operation; cases role) (auto simp: required_rank_def role_rank_def)

text \<open>Access to a site is decided by membership of the site's own guild, the rollout and the rank of the role.\<close>

lemma check_site_granted:
  "check_site access actor site role operation current_member = Inr () \<longleftrightarrow>
     vx_enabled access \<and> current_member
     \<and> va_platform actor = vs_platform site \<and> va_guild_id actor = Some (vs_guild_id site)
     \<and> (vx_allowed_guilds access = []
        \<or> \<lparr>vg_platform = vs_platform site, vg_guild_id = vs_guild_id site\<rparr> \<in> set (vx_allowed_guilds access))
     \<and> (vx_admins_only access \<and> operation = OpEdit \<longrightarrow> va_is_admin actor)
     \<and> (\<exists>r. required_rank operation = Some r \<and> r \<le> role_rank role)"
proof -
  have create: "role_allows role operation \<Longrightarrow> operation \<noteq> OpCreate" by auto
  have "check_site access actor site role operation current_member = Inr () \<longleftrightarrow>
      check_rollout access actor operation = Inr () \<and> current_member
      \<and> va_platform actor = vs_platform site \<and> va_guild_id actor = Some (vs_guild_id site)
      \<and> role_allows role operation"
    by (auto simp: check_site_def split: sum.split)
  then show ?thesis using create by (auto simp: check_rollout_granted role_allows_rank [symmetric])
qed

section \<open>Names\<close>

definition BUILTIN_RESERVED :: "string list" where
  "BUILTIN_RESERVED = [''src'', ''www'', ''api'', ''admin'', ''static'', ''status'', ''mail'']"

datatype name_availability = NameAvailable | NameUnavailable | NameInvalid

record name_check =
  nc_name :: string
  nc_availability :: name_availability

datatype name_error =
    NameLength
  | NameNotLowercaseAscii
  | NameInternationalized
  | NameReserved
  | NameEdge
  | NameCharacters

definition vibe_names_new :: "string list \<Rightarrow> string set" where
  "vibe_names_new configured = set BUILTIN_RESERVED \<union> to_ascii_lowercase ` set configured"

definition name_char :: "char \<Rightarrow> bool" where
  "name_char c \<longleftrightarrow> is_ascii_lowercase c \<or> is_ascii_digit c \<or> c = CHR ''-''"

definition validate_name :: "string set \<Rightarrow> string \<Rightarrow> name_error + unit" where
  "validate_name reserved name =
     (if \<not> (3 \<le> length name \<and> length name \<le> 63) then Inl NameLength
      else if \<not> list_all is_ascii_char name \<or> name \<noteq> to_ascii_lowercase name then Inl NameNotLowercaseAscii
      else if starts_with name ''xn--'' then Inl NameInternationalized
      else if name \<in> reserved then Inl NameReserved
      else if \<not> is_ascii_alphanumeric (name ! 0) \<or> \<not> is_ascii_alphanumeric (name ! (length name - 1)) then Inl NameEdge
      else if \<not> list_all name_char name then Inl NameCharacters
      else Inr ())"

definition check_name :: "string set \<Rightarrow> string set \<Rightarrow> string \<Rightarrow> name_check" where
  "check_name reserved unavailable name =
     \<lparr>nc_name = name,
      nc_availability = (case validate_name reserved name of
          Inl _ \<Rightarrow> NameInvalid
        | Inr _ \<Rightarrow> if name \<in> unavailable then NameUnavailable else NameAvailable)\<rparr>"

definition check_batch :: "string set \<Rightarrow> string list \<Rightarrow> string set \<Rightarrow> string + name_check list" where
  "check_batch reserved candidates unavailable =
     (if 8 < length candidates then Inl ''at most 8 names may be checked at once''
      else Inr (map (check_name reserved unavailable) candidates))"

text \<open>A DNS label: 1 to 63 letters, digits and hyphens, with no hyphen at either end.\<close>

definition dns_label :: "string \<Rightarrow> bool" where
  "dns_label s \<longleftrightarrow> s \<noteq> [] \<and> length s \<le> 63 \<and> list_all name_char s \<and> hd s \<noteq> CHR ''-'' \<and> last s \<noteq> CHR ''-''"

lemma name_char_ascii: "name_char c \<Longrightarrow> is_ascii_char c \<and> ascii_lower c = c"
  by (auto simp: name_char_def is_ascii_lowercase_def is_ascii_digit_def is_ascii_char_def ascii_lower_def Let_def)

lemma name_char_alphanumeric: "name_char c \<Longrightarrow> is_ascii_alphanumeric c \<longleftrightarrow> c \<noteq> CHR ''-''"
  by (auto simp: name_char_def is_ascii_alphanumeric_def is_ascii_lowercase_def is_ascii_digit_def
      is_ascii_uppercase_def)

lemma validate_name_iff:
  "validate_name reserved name = Inr () \<longleftrightarrow>
     dns_label name \<and> 3 \<le> length name \<and> \<not> starts_with name ''xn--'' \<and> name \<notin> reserved"
proof (cases "list_all name_char name")
  case True
  then have lower: "list_all is_ascii_char name" "to_ascii_lowercase name = name"
    using name_char_ascii by (auto simp: list_all_iff to_ascii_lowercase_def map_idI)
  have ends: "is_ascii_alphanumeric (name ! 0) \<and> is_ascii_alphanumeric (name ! (length name - 1))
      \<longleftrightarrow> hd name \<noteq> CHR ''-'' \<and> last name \<noteq> CHR ''-''" if "name \<noteq> []"
  proof -
    have "name_char (hd name)" "name_char (last name)"
      using True that by (auto simp: list_all_iff)
    then show ?thesis using that name_char_alphanumeric by (auto simp: hd_conv_nth last_conv_nth)
  qed
  show ?thesis
  proof (cases "name = []")
    case False
    then show ?thesis using True lower ends by (auto simp: validate_name_def dns_label_def)
  qed (simp add: validate_name_def)
next
  case False
  then show ?thesis by (simp add: validate_name_def dns_label_def)
qed

text \<open>A name that is accepted is a DNS label of its own, so a site can be served under it.\<close>

lemma batch_reports_availability:
  assumes "check_batch reserved candidates unavailable = Inr checks"
  shows "map nc_name checks = candidates \<and> length checks \<le> 8
    \<and> (\<forall>check \<in> set checks. nc_availability check = NameAvailable \<longleftrightarrow>
         dns_label (nc_name check) \<and> 3 \<le> length (nc_name check) \<and> \<not> starts_with (nc_name check) ''xn--''
         \<and> nc_name check \<notin> reserved \<union> unavailable)"
proof -
  have available: "nc_availability (check_name reserved unavailable name) = NameAvailable \<longleftrightarrow>
      validate_name reserved name = Inr () \<and> name \<notin> unavailable" for name
    by (auto simp: check_name_def split: sum.split)
  have "checks = map (check_name reserved unavailable) candidates" "length candidates \<le> 8"
    using assms by (auto simp: check_batch_def split: if_splits)
  moreover have "nc_name (check_name reserved unavailable name) = name" for name
    by (simp add: check_name_def)
  ultimately show ?thesis using available by (auto simp: validate_name_iff comp_def)
qed

end
