(* ===== verification/Vibe_Export.thy ===== *)
theory Vibe_Export
  imports Rust_Path Json_Value Vibe_Access
begin

text \<open>
  How the source tree of a Vibe site leaves its workspace, and how a built artifact is published:
  \<open>chudbot-vibe/src/export.rs\<close>. A directory is the list of its entries in the order \<open>read_dir\<close> gives them;
  the file system may fail any call, so \<open>io\<close> says which calls fail. A walk records the files it copies.
\<close>

section \<open>The file system\<close>

datatype fs_node =
    FsFile string u64
  | FsDir "(string \<times> fs_node) list"
  | FsSymlink string
  | FsSpecial

type_synonym fs_entry = "string \<times> fs_node"

datatype fs_call =
    CallCreateDir string
  | CallReadDir string
  | CallMetadata string
  | CallCopy string
  | CallExists string
  | CallRead string
  | CallWrite string
  | CallRemoveFile string

type_synonym faults = "fs_call \<Rightarrow> string option"

text \<open>The causes of \<open>VibeError::InvalidSource\<close> are kept apart; \<open>VibeIo\<close> is a failed call.
  A git or sandbox error names its operation.\<close>

datatype vibe_error =
    VibeIo string
  | EmptyPath
  | PathNotUtf8
  | ForbiddenCharacter
  | InvalidPath string
  | ReservedPath string
  | SymlinkNotAllowed string
  | SpecialFile string
  | HardLink string
  | FileTooLarge string
  | SourceSizeOverflow
  | TooManyFiles
  | TreeTooLarge
  | ForbiddenConfig string
  | PackageMissing string
  | PackageInvalid
  | DependencyNotVersion string
  | DependencyForbidden string
  | NoIndexHtml
  | EmptyBuild
  | ArtifactSpecialFile
  | ArtifactTooLarge
  | AccessDenied vibe_access_error
  | GitError string string
  | SandboxError string string
  | VibeTimedOut

definition io_call :: "faults \<Rightarrow> fs_call \<Rightarrow> vibe_error + unit" where
  "io_call io call = (case io call of Some message \<Rightarrow> Inl (VibeIo message) | None \<Rightarrow> Inr ())"

definition then_do :: "'e + 'a \<Rightarrow> ('a \<Rightarrow> 'e + 'b) \<Rightarrow> 'e + 'b" where
  "then_do r f = (case r of Inl e \<Rightarrow> Inl e | Inr x \<Rightarrow> f x)"

definition require_that :: "bool \<Rightarrow> 'e \<Rightarrow> 'e + unit" where
  "require_that ok e = (if ok then Inr () else Inl e)"

lemma then_do_Inr [simp]: "then_do (Inr x) f = f x"
  by (simp add: then_do_def)

lemma then_do_Inl [simp]: "then_do (Inl e) f = Inl e"
  by (simp add: then_do_def)

lemma then_do_eq_Inr: "then_do r f = Inr y \<longleftrightarrow> (\<exists>x. r = Inr x \<and> f x = Inr y)"
  by (cases r) auto

lemma require_that_Inr [simp]: "require_that ok e = Inr u \<longleftrightarrow> ok"
  by (cases u) (simp add: require_that_def)

lemma io_call_Inr [simp]: "io_call io call = Inr u \<longleftrightarrow> io call = None"
  by (cases u) (simp add: io_call_def split: option.split)

section \<open>Paths\<close>

definition validate_relative_path :: "string \<Rightarrow> vibe_error + unit" where
  "validate_relative_path path =
     (if path = [] then Inl EmptyPath
      else if \<not> utf8_valid path then Inl PathNotUtf8
      else if CHR 0x00 \<in> set path \<or> CHR 0x5C \<in> set path then Inl ForbiddenCharacter
      else if list_ex (\<lambda>seg. seg = [] \<or> seg = ''.'' \<or> seg = ''..'') (str_split CHR ''/'' path) then Inl (InvalidPath path)
      else if list_ex (\<lambda>c. case c of NormalComp seg \<Rightarrow> seg = [] \<or> seg = ''..'' | _ \<Rightarrow> True) (path_components path)
      then Inl (InvalidPath path)
      else Inr ())"

lemma validate_relative_path_iff:
  "validate_relative_path path = Inr () \<longleftrightarrow>
     plain_path path \<and> utf8_valid path \<and> CHR 0x00 \<notin> set path \<and> CHR 0x5C \<notin> set path"
proof -
  have plain: "plain_path path \<longleftrightarrow> \<not> list_ex (\<lambda>seg. seg = [] \<or> seg = ''.'' \<or> seg = ''..'') (str_split CHR ''/'' path)"
    using str_split_segments by (auto simp: plain_path_def list_all_iff list_ex_iff plain_name_def)
  have comps: "\<not> list_ex (\<lambda>c. case c of NormalComp seg \<Rightarrow> seg = [] \<or> seg = ''..'' | _ \<Rightarrow> True) (path_components path)"
    if "plain_path path"
    using that by (auto simp: plain_path_components list_ex_iff plain_path_def list_all_iff plain_name_def)
  have "plain_path path \<Longrightarrow> path \<noteq> []" using plain_path_relative by blast
  then show ?thesis using plain comps by (auto simp: validate_relative_path_def)
qed

definition SDK_TYPESCRIPT_PATH :: string where
  "SDK_TYPESCRIPT_PATH = ''src/vibe.d.ts''"

definition ends_with :: "string \<Rightarrow> string \<Rightarrow> bool" where
  "ends_with s p \<longleftrightarrow> starts_with (rev s) (rev p)"

section \<open>Copying a tree\<close>

record export_limits =
  el_max_files :: usize
  el_max_file_bytes :: u64
  el_max_tree_bytes :: u64

text \<open>The directories left to read, the next one first, and what has been copied.\<close>

record walk =
  wk_pending :: "(string \<times> fs_entry list) list"
  wk_files :: usize
  wk_bytes :: u64
  wk_copied :: "(string \<times> string) list"
  wk_dirs :: "string list"

definition file_len :: "string \<Rightarrow> u64" where
  "file_len data = of_nat (length data)"

definition u64_checked_add :: "u64 \<Rightarrow> u64 \<Rightarrow> u64 option" where
  "u64_checked_add a b = (if unat a + unat b < 2 ^ 64 then Some (a + b) else None)"

definition some_or :: "'a option \<Rightarrow> 'e \<Rightarrow> 'e + 'a" where
  "some_or x e = (case x of None \<Rightarrow> Inl e | Some y \<Rightarrow> Inr y)"

lemma some_or_Inr [simp]: "some_or x e = Inr y \<longleftrightarrow> x = Some y"
  by (simp add: some_or_def split: option.split)

definition push_dir :: "string \<Rightarrow> fs_entry list \<Rightarrow> walk \<Rightarrow> walk" where
  "push_dir path entries st = st\<lparr>wk_pending := (path, entries) # wk_pending st, wk_dirs := wk_dirs st @ [path]\<rparr>"

definition copy_file :: "faults \<Rightarrow> string \<Rightarrow> string \<Rightarrow> walk \<Rightarrow> vibe_error + walk" where
  "copy_file io path data st =
     then_do (io_call io (CallCopy path)) (\<lambda>_. Inr (st\<lparr>wk_copied := wk_copied st @ [(path, data)]\<rparr>))"

definition enter_dir :: "faults \<Rightarrow> string \<Rightarrow> fs_entry list \<Rightarrow> walk \<Rightarrow> vibe_error + walk" where
  "enter_dir io path entries st =
     then_do (io_call io (CallCreateDir path)) (\<lambda>_. Inr (push_dir path entries st))"

text \<open>The names \<open>copy_tree\<close> leaves out, and those it refuses.\<close>

definition skipped_name :: "string \<Rightarrow> string \<Rightarrow> bool" where
  "skipped_name relative name \<longleftrightarrow>
     name = ''.git'' \<and> relative = []
     \<or> name = ''node_modules'' \<or> name = ''dist'' \<or> ends_with name ''.tsbuildinfo''"

definition reserved_name :: "string \<Rightarrow> string \<Rightarrow> bool" where
  "reserved_name relative name \<longleftrightarrow> name = ''.git'' \<or> name = ''.gitmodules'' \<or> relative = [] \<and> name = ''__vibe''"

definition count_file :: "export_limits \<Rightarrow> string \<Rightarrow> walk \<Rightarrow> vibe_error + walk" where
  "count_file limits data st =
     then_do (some_or (u64_checked_add (wk_files st) 1) SourceSizeOverflow) (\<lambda>files.
     then_do (some_or (u64_checked_add (wk_bytes st) (file_len data)) SourceSizeOverflow) (\<lambda>bytes.
     then_do (require_that (files \<le> el_max_files limits) TooManyFiles) (\<lambda>_.
     then_do (require_that (bytes \<le> el_max_tree_bytes limits) TreeTooLarge) (\<lambda>_.
     Inr (st\<lparr>wk_files := files, wk_bytes := bytes\<rparr>)))))"

definition source_entry :: "faults \<Rightarrow> export_limits \<Rightarrow> string \<Rightarrow> walk \<Rightarrow> fs_entry \<Rightarrow> vibe_error + walk" where
  "source_entry io limits relative st entry =
     (case entry of (name, node) \<Rightarrow>
      then_do (require_that (utf8_valid name) PathNotUtf8) (\<lambda>_.
      if skipped_name relative name then Inr st
      else then_do (require_that (\<not> reserved_name relative name) (ReservedPath name)) (\<lambda>_.
        let child = path_join relative name in
        then_do (validate_relative_path child) (\<lambda>_.
        if same_path child SDK_TYPESCRIPT_PATH then Inr st
        else then_do (io_call io (CallMetadata child)) (\<lambda>_.
          case node of
            FsSymlink _ \<Rightarrow> Inl (SymlinkNotAllowed child)
          | FsDir entries \<Rightarrow> enter_dir io child entries st
          | FsSpecial \<Rightarrow> Inl (SpecialFile child)
          | FsFile data links \<Rightarrow>
              then_do (require_that (links = 1) (HardLink child)) (\<lambda>_.
              then_do (require_that (file_len data \<le> el_max_file_bytes limits) (FileTooLarge child)) (\<lambda>_.
              then_do (count_file limits data st) (copy_file io child data))))))))"

text \<open>The two walks of the file share their loop: directories are read until none is pending.\<close>

primrec node_weight :: "fs_node \<Rightarrow> nat" where
  "node_weight (FsFile _ _) = 1"
| "node_weight (FsDir entries) = Suc (sum_list (map snd (map (map_prod id node_weight) entries)))"
| "node_weight (FsSymlink _) = 1"
| "node_weight FsSpecial = 1"

definition entries_weight :: "fs_entry list \<Rightarrow> nat" where
  "entries_weight entries = sum_list (map (\<lambda>e. node_weight (snd e)) entries)"

definition pending_weight :: "(string \<times> fs_entry list) list \<Rightarrow> nat" where
  "pending_weight pending = sum_list (map (\<lambda>d. Suc (entries_weight (snd d))) pending)"

lemma node_weight_dir [simp]: "node_weight (FsDir entries) = Suc (entries_weight entries)"
  by (simp add: entries_weight_def comp_def case_prod_beta)

declare node_weight.simps(2) [simp del]

partial_function (option) walk_dirs ::
  "faults \<Rightarrow> (string \<Rightarrow> walk \<Rightarrow> fs_entry \<Rightarrow> vibe_error + walk) \<Rightarrow> walk \<Rightarrow> (vibe_error + walk) option" where
  "walk_dirs io visit st =
     (case wk_pending st of
        [] \<Rightarrow> Some (Inr st)
      | dir # pending \<Rightarrow>
          (case then_do (io_call io (CallReadDir (fst dir)))
                  (\<lambda>_. try_fold (visit (fst dir)) (st\<lparr>wk_pending := pending\<rparr>) (snd dir)) of
             Inl e \<Rightarrow> Some (Inl e)
           | Inr st' \<Rightarrow> walk_dirs io visit st'))"

definition walk_from :: "fs_entry list \<Rightarrow> walk" where
  "walk_from entries = \<lparr>wk_pending = [([], entries)], wk_files = 0, wk_bytes = 0, wk_copied = [], wk_dirs = []\<rparr>"

definition copy_tree :: "faults \<Rightarrow> export_limits \<Rightarrow> fs_entry list \<Rightarrow> (vibe_error + walk) option" where
  "copy_tree io limits source = walk_dirs io (source_entry io limits) (walk_from source)"

section \<open>The built artifact\<close>

definition artifact_entry :: "faults \<Rightarrow> export_limits \<Rightarrow> string \<Rightarrow> walk \<Rightarrow> fs_entry \<Rightarrow> vibe_error + walk" where
  "artifact_entry io limits relative st entry =
     (case entry of (name, node) \<Rightarrow>
      let child = path_join relative name in
      then_do (validate_relative_path child) (\<lambda>_.
      then_do (io_call io (CallMetadata child)) (\<lambda>_.
      case node of
        FsSymlink _ \<Rightarrow> Inl ArtifactSpecialFile
      | FsSpecial \<Rightarrow> Inl ArtifactSpecialFile
      | FsDir entries \<Rightarrow> enter_dir io child entries st
      | FsFile data _ \<Rightarrow>
          then_do (some_or (u64_checked_add (wk_bytes st) (file_len data)) SourceSizeOverflow) (\<lambda>bytes.
          then_do (require_that (file_len data \<le> el_max_file_bytes limits \<and> bytes \<le> el_max_tree_bytes limits)
            ArtifactTooLarge) (\<lambda>_.
          copy_file io child data (st\<lparr>wk_files := wk_files st + 1, wk_bytes := bytes\<rparr>))))))"

definition copy_artifact_tree :: "faults \<Rightarrow> export_limits \<Rightarrow> fs_entry list \<Rightarrow> (vibe_error + walk) option" where
  "copy_artifact_tree io limits source = walk_dirs io (artifact_entry io limits) (walk_from source)"

section \<open>The finished export\<close>

text \<open>What a walk left at its destination.\<close>

definition copied_exists :: "walk \<Rightarrow> string \<Rightarrow> bool" where
  "copied_exists st path \<longleftrightarrow> path \<in> fst ` set (wk_copied st) \<or> path \<in> set (wk_dirs st)"

definition read_copied :: "faults \<Rightarrow> walk \<Rightarrow> string \<Rightarrow> string + string" where
  "read_copied io st path =
     (case io (CallRead path) of
        Some message \<Rightarrow> Inl message
      | None \<Rightarrow> (case map_of (rev (wk_copied st)) path of Some data \<Rightarrow> Inr data | None \<Rightarrow> Inl ''not a file''))"

definition forbidden_source :: "string \<Rightarrow> bool" where
  "forbidden_source source \<longleftrightarrow>
     (let lower = to_ascii_lowercase source in
      list_ex (starts_with lower)
        [''git'', ''ssh:'', ''github:'', ''gitlab:'', ''bitbucket:'', ''http:'', ''https:'', ''file:'', ''link:'']
      \<or> str_contains lower ''github.com/'')"

fun check_dependency :: "unit \<Rightarrow> string \<times> json \<Rightarrow> vibe_error + unit" where
  "check_dependency _ (name, JString source) =
     (if forbidden_source source then Inl (DependencyForbidden name) else Inr ())"
| "check_dependency _ (name, _) = Inl (DependencyNotVersion name)"

definition dependency_sections :: "string list" where
  "dependency_sections = [''dependencies'', ''devDependencies'', ''optionalDependencies'', ''peerDependencies'']"

definition check_section :: "json \<Rightarrow> unit \<Rightarrow> string \<Rightarrow> vibe_error + unit" where
  "check_section package _ section_name =
     (case Option.bind (json_get package section_name) json_as_object of
        None \<Rightarrow> Inr ()
      | Some dependencies \<Rightarrow> try_fold check_dependency () dependencies)"

definition check_forbidden :: "faults \<Rightarrow> walk \<Rightarrow> unit \<Rightarrow> string \<Rightarrow> vibe_error + unit" where
  "check_forbidden io st _ name =
     then_do (io_call io (CallExists name)) (\<lambda>_. require_that (\<not> copied_exists st name) (ForbiddenConfig name))"

definition validate_dependencies :: "faults \<Rightarrow> (string \<Rightarrow> json option) \<Rightarrow> walk \<Rightarrow> vibe_error + unit" where
  "validate_dependencies io parse st =
     then_do (try_fold (check_forbidden io st) () [''.npmrc'', ''bunfig.toml'']) (\<lambda>_.
     case read_copied io st ''package.json'' of
       Inl message \<Rightarrow> Inl (PackageMissing message)
     | Inr bytes \<Rightarrow>
         then_do (some_or (parse bytes) PackageInvalid) (\<lambda>package. try_fold (check_section package) () dependency_sections))"

text \<open>The result, and what is left at the destination; \<open>None\<close> once it has been removed.\<close>

definition validate_and_export ::
  "faults \<Rightarrow> (string \<Rightarrow> json option) \<Rightarrow> export_limits \<Rightarrow> fs_entry list \<Rightarrow> ((vibe_error + walk) \<times> walk option) option" where
  "validate_and_export io parse limits source =
     (case io_call io (CallCreateDir []) of
        Inl e \<Rightarrow> Some (Inl e, None)
      | Inr _ \<Rightarrow>
          map_option (\<lambda>r. case r of
              Inl e \<Rightarrow> (Inl e, None)
            | Inr st \<Rightarrow> (then_do (validate_dependencies io parse st) (\<lambda>_. Inr st), Some st))
            (copy_tree io limits source))"

section \<open>The SDK in the page\<close>

definition SDK_TAG :: string where
  "SDK_TAG = ''<script src='' @ [CHR 0x22] @ ''/__vibe/sdk/v1/vibe.js'' @ [CHR 0x22] @ ''></script>''"

definition SDK_DEFERRED_TAG :: string where
  "SDK_DEFERRED_TAG = ''<script defer src='' @ [CHR 0x22] @ ''/__vibe/sdk/v1/vibe.js'' @ [CHR 0x22] @ ''></script>''"

text \<open>\<open>s.replace(pattern, "")\<close> for a pattern that is not empty.\<close>

function str_remove :: "string \<Rightarrow> string \<Rightarrow> string" where
  "str_remove p [] = []"
| "str_remove p (c # s) =
     (if p \<noteq> [] \<and> starts_with (c # s) p then str_remove p (drop (length p) (c # s)) else c # str_remove p s)"
  by pat_completeness auto
termination
  by (relation "measure (\<lambda>(_, s). length s)") auto

fun find_ascii_case_insensitive :: "string \<Rightarrow> string \<Rightarrow> nat option" where
  "find_ascii_case_insensitive [] needle = (if needle = [] then Some 0 else None)"
| "find_ascii_case_insensitive (c # s) needle =
     (if length needle \<le> length (c # s)
         \<and> to_ascii_lowercase (take (length needle) (c # s)) = to_ascii_lowercase needle
      then Some 0
      else map_option Suc (find_ascii_case_insensitive s needle))"

definition sdk_position :: "string \<Rightarrow> nat" where
  "sdk_position html =
     (case find_ascii_case_insensitive html ''<script'' of
        Some position \<Rightarrow> position
      | None \<Rightarrow>
          (case find_ascii_case_insensitive html ''</body>'' of Some position \<Rightarrow> position | None \<Rightarrow> length html))"

definition inject_sdk_html :: "string \<Rightarrow> string option" where
  "inject_sdk_html html =
     (let html = str_remove SDK_TAG (str_remove SDK_DEFERRED_TAG html) in
      map_option (\<lambda>halves. fst halves @ SDK_TAG @ [CHR 0x0A] @ snd halves) (slice_at html (sdk_position html)))"

definition inject_sdk :: "faults \<Rightarrow> walk \<Rightarrow> (vibe_error + walk) option" where
  "inject_sdk io st =
     (case read_copied io st ''index.html'' of
        Inl message \<Rightarrow> Some (Inl (VibeIo message))
      | Inr html \<Rightarrow>
          (if \<not> utf8_valid html then Some (Inl (VibeIo ''stream did not contain valid UTF-8''))
           else map_option (\<lambda>updated.
               then_do (io_call io (CallWrite ''index.html''))
                 (\<lambda>_. Inr (st\<lparr>wk_copied := wk_copied st @ [(''index.html'', updated)]\<rparr>)))
               (inject_sdk_html html)))"

text \<open>\<open>try_exists\<close> follows a symbolic link: \<open>resolves\<close> says whether its target exists.\<close>

definition source_exists :: "(string \<Rightarrow> bool) \<Rightarrow> fs_entry list \<Rightarrow> string \<Rightarrow> bool" where
  "source_exists resolves source name =
     (case map_of source name of
        None \<Rightarrow> False
      | Some (FsSymlink target) \<Rightarrow> resolves target
      | Some _ \<Rightarrow> True)"

definition copy_built_artifact ::
  "faults \<Rightarrow> (string \<Rightarrow> bool) \<Rightarrow> u64 \<Rightarrow> fs_entry list \<Rightarrow> (vibe_error + u64 \<times> walk) option" where
  "copy_built_artifact io resolves max_bytes source =
     (case io_call io (CallExists ''index.html'') of
        Inl e \<Rightarrow> Some (Inl e)
      | Inr _ \<Rightarrow>
          (if \<not> source_exists resolves source ''index.html'' then Some (Inl NoIndexHtml)
           else case io_call io (CallCreateDir []) of
             Inl e \<Rightarrow> Some (Inl e)
           | Inr _ \<Rightarrow>
               Option.bind (copy_artifact_tree io
                   \<lparr>el_max_files = - 1, el_max_file_bytes = max_bytes, el_max_tree_bytes = max_bytes\<rparr> source)
                 (\<lambda>r. case r of
                    Inl e \<Rightarrow> Some (Inl e)
                  | Inr st \<Rightarrow>
                      (if wk_files st = 0 then Some (Inl EmptyBuild)
                       else map_option (\<lambda>r. then_do r (\<lambda>published. Inr (wk_bytes st, published))) (inject_sdk io st)))))"

end
