(* ===== verification/Vibe_Sandbox.thy ===== *)
theory Vibe_Sandbox
  imports Vibe_Export
begin

text \<open>
  The containers of a Vibe job: \<open>chudbot-vibe/src/sandbox.rs\<close>. Docker is a parameter: what the n-th command
  answers, and whether it outlasts the time it is given. Every operation records the commands it runs.
\<close>

section \<open>Lossy decoding\<close>

text \<open>The length of the invalid sequence at the start: a maximal part of a character, at least one byte.\<close>

definition second_byte_ok :: "nat \<Rightarrow> nat \<Rightarrow> bool" where
  "second_byte_ok b0 b1 \<longleftrightarrow>
     (if b0 = 0xE0 then 0xA0 \<le> b1 \<and> b1 \<le> 0xBF
      else if b0 = 0xED then 0x80 \<le> b1 \<and> b1 \<le> 0x9F
      else if b0 = 0xF0 then 0x90 \<le> b1 \<and> b1 \<le> 0xBF
      else if b0 = 0xF4 then 0x80 \<le> b1 \<and> b1 \<le> 0x8F
      else cont_byte b1)"

fun invalid_len :: "nat list \<Rightarrow> nat" where
  "invalid_len (b0 # b1 # b2 # _) =
     (if 0xE0 \<le> b0 \<and> b0 \<le> 0xEF \<and> second_byte_ok b0 b1 then 2
      else if 0xF0 \<le> b0 \<and> b0 \<le> 0xF4 \<and> second_byte_ok b0 b1 then (if cont_byte b2 then 3 else 2)
      else 1)"
| "invalid_len [b0, b1] = (if 0xE0 \<le> b0 \<and> b0 \<le> 0xF4 \<and> second_byte_ok b0 b1 then 2 else 1)"
| "invalid_len _ = 1"

lemma invalid_len_pos: "0 < invalid_len bs"
  by (cases bs rule: invalid_len.cases) auto

definition replacement_char :: string where
  "replacement_char = map byte [0xEF, 0xBF, 0xBD]"

function utf8_lossy :: "string \<Rightarrow> string" where
  "utf8_lossy s =
     (if s = [] then []
      else let n = utf8_char_len s in
        if n \<noteq> 0 then take n s @ utf8_lossy (drop n s)
        else replacement_char @ utf8_lossy (drop (invalid_len (map of_char s)) s))"
  by pat_completeness auto
termination
  by (relation "measure length") (auto simp: invalid_len_pos)

declare utf8_lossy.simps [simp del]

lemma utf8_lossy_valid: "utf8_valid s \<Longrightarrow> utf8_lossy s = s"
proof (induction s rule: utf8_lossy.induct)
  case (1 s)
  then show ?case
    by (subst utf8_lossy.simps, subst (asm) (2) utf8_valid.simps) (auto simp: Let_def split: if_splits)
qed

section \<open>Docker\<close>

record process_output =
  po_exit_code :: "int option"
  po_stdout :: string
  po_stderr :: string

definition po_success :: "process_output \<Rightarrow> bool" where
  "po_success output \<longleftrightarrow> po_exit_code output = Some 0"

record docker =
  dk_answer :: "nat \<Rightarrow> string list \<Rightarrow> string \<Rightarrow> string + process_output"
  dk_slow :: "nat \<Rightarrow> bool"

text \<open>The commands run so far, each with what is written to its standard input.\<close>

type_synonym docker_log = "(string list \<times> string) list"

record sandbox_config =
  sb_docker_socket :: string
  sb_image :: string
  sb_command_timeout :: u64
  sb_build_timeout :: u64
  sb_memory_mebibytes :: u32
  sb_cpus :: u16
  sb_pids :: u32

definition VIBE_DOCKER_NETWORK :: string where
  "VIBE_DOCKER_NETWORK = ''chudbot-sandbox''"

definition MAX_COMMAND_OUTPUT :: nat where
  "MAX_COMMAND_OUTPUT = 64 * 1024"

definition MAX_FILE_TOOL_REQUEST :: nat where
  "MAX_FILE_TOOL_REQUEST = 4 * 1024 * 1024"

definition docker_args :: "sandbox_config \<Rightarrow> string list \<Rightarrow> string list" where
  "docker_args config args = [''--host'', ''unix://'' @ sb_docker_socket config] @ args"

definition run_docker_with ::
  "docker \<Rightarrow> sandbox_config \<Rightarrow> string list \<Rightarrow> string \<Rightarrow> docker_log \<Rightarrow> (vibe_error + process_output) \<times> docker_log" where
  "run_docker_with dk config args stdin log =
     (let command = docker_args config args in
      (case dk_answer dk (length log) command stdin of Inl message \<Rightarrow> Inl (VibeIo message) | Inr output \<Rightarrow> Inr output,
       log @ [(command, stdin)]))"

definition run_docker ::
  "docker \<Rightarrow> sandbox_config \<Rightarrow> string list \<Rightarrow> docker_log \<Rightarrow> (vibe_error + process_output) \<times> docker_log" where
  "run_docker dk config args = run_docker_with dk config args []"

text \<open>\<open>None\<close>: the command was still running when its time was over.\<close>

definition run_docker_timeout ::
  "docker \<Rightarrow> sandbox_config \<Rightarrow> string list \<Rightarrow> string \<Rightarrow> docker_log \<Rightarrow> (vibe_error + process_output) option \<times> docker_log" where
  "run_docker_timeout dk config args stdin log =
     (case run_docker_with dk config args stdin log of
        (answer, log') \<Rightarrow> (if dk_slow dk (length log) then None else Some answer, log'))"

definition ensure_docker :: "string \<Rightarrow> process_output \<Rightarrow> vibe_error + string" where
  "ensure_docker operation output =
     (if po_success output then Inr (utf8_lossy (po_stdout output))
      else Inl (SandboxError operation ''Docker rejected the sandbox operation; inspect the host Docker logs''))"

definition bounded_text :: "string \<Rightarrow> string \<times> bool" where
  "bounded_text bytes =
     (let truncated = MAX_COMMAND_OUTPUT < length bytes;
          body = utf8_lossy (take (min (length bytes) MAX_COMMAND_OUTPUT) bytes)
      in (if truncated then body @ [NL] @ ''[output truncated]'' else body, truncated))"

definition bounded_combined_output :: "process_output \<Rightarrow> string" where
  "bounded_combined_output output = fst (bounded_text (po_stdout output @ po_stderr output))"

record sandbox_command_output =
  sc_stdout :: string
  sc_stderr :: string
  sc_exit_code :: "int option"
  sc_timed_out :: bool
  sc_truncated :: bool

definition command_output :: "process_output \<Rightarrow> sandbox_command_output" where
  "command_output output =
     (let (out, out_truncated) = bounded_text (po_stdout output); (err, err_truncated) = bounded_text (po_stderr output)
      in \<lparr>sc_stdout = out, sc_stderr = err, sc_exit_code = po_exit_code output, sc_timed_out = False,
          sc_truncated = out_truncated \<or> err_truncated\<rparr>)"

definition force_remove :: "docker \<Rightarrow> sandbox_config \<Rightarrow> string \<Rightarrow> docker_log \<Rightarrow> (vibe_error + unit) \<times> docker_log" where
  "force_remove dk config name log =
     (case run_docker dk config [''rm'', ''--force'', name] log of
        (Inl e, log') \<Rightarrow> (Inl e, log')
      | (Inr output, log') \<Rightarrow>
          (if po_success output \<or> str_contains (utf8_lossy (po_stderr output)) ''No such container''
           then (Inr (), log')
           else (Inl (SandboxError ''remove container'' ''container cleanup failed''), log')))"

definition base_create :: "sandbox_config \<Rightarrow> string \<Rightarrow> string \<Rightarrow> string list" where
  "base_create config name workspace =
     [''create'', ''--name'', name, ''--network'', VIBE_DOCKER_NETWORK, ''--read-only'', ''--cap-drop'', ''ALL'',
      ''--security-opt'', ''no-new-privileges:true'', ''--user'', ''1000:1000'', ''--workdir'', ''/workspace'',
      ''--env'', ''BUN_INSTALL_CACHE_DIR=/tmp/bun-cache'', ''--env'', ''XDG_CACHE_HOME=/tmp/cache'',
      ''--pids-limit'', dec_digits (unat (sb_pids config)), ''--cpus'', dec_digits (unat (sb_cpus config)),
      ''--memory'', dec_digits (unat (sb_memory_mebibytes config)) @ ''m'',
      ''--tmpfs'', ''/tmp:rw,nosuid,nodev,size=256m'',
      ''--mount'', ''type=bind,src='' @ workspace @ '',dst=/workspace'']"

definition check_available :: "docker \<Rightarrow> sandbox_config \<Rightarrow> docker_log \<Rightarrow> (vibe_error + string) \<times> docker_log" where
  "check_available dk config log =
     (case run_docker dk config [''image'', ''inspect'', ''--format'', ''{{.Id}}'', sb_image config] log of
        (Inl e, log) \<Rightarrow> (Inl e, log)
      | (Inr output, log) \<Rightarrow>
          (case ensure_docker ''inspect image'' output of
             Inl e \<Rightarrow> (Inl e, log)
           | Inr image_id \<Rightarrow>
               (case run_docker dk config [''network'', ''inspect'', VIBE_DOCKER_NETWORK] log of
                  (Inl e, log) \<Rightarrow> (Inl e, log)
                | (Inr output, log) \<Rightarrow>
                    (then_do (ensure_docker ''inspect sandbox network'' output) (\<lambda>_. Inr image_id), log))))"

section \<open>The coding container\<close>

definition coding_name :: "string \<Rightarrow> string" where
  "coding_name job = ''chudbot-vibe-'' @ job @ ''-coding''"

definition build_name :: "string \<Rightarrow> string" where
  "build_name job = ''chudbot-vibe-'' @ job @ ''-build''"

record coding_container =
  co_name :: string
  co_workspace :: string
  co_removed :: bool

definition start_coding ::
  "docker \<Rightarrow> sandbox_config \<Rightarrow> string \<Rightarrow> string \<Rightarrow> docker_log \<Rightarrow> (vibe_error + coding_container) \<times> docker_log" where
  "start_coding dk config job workspace log =
     (let name = coding_name job; (_, log) = force_remove dk config name log in
      case run_docker dk config
             (base_create config name workspace @ [sb_image config, ''/bin/bash'', ''-lc'', ''exec sleep infinity'']) log of
        (Inl e, log) \<Rightarrow> (Inl e, log)
      | (Inr output, log) \<Rightarrow>
          (case ensure_docker ''create coding container'' output of
             Inl e \<Rightarrow> (Inl e, snd (force_remove dk config name log))
           | Inr _ \<Rightarrow>
               (case run_docker dk config [''start'', name] log of
                  (Inl e, log) \<Rightarrow> (Inl e, log)
                | (Inr output, log) \<Rightarrow>
                    (case ensure_docker ''start coding container'' output of
                       Inl e \<Rightarrow> (Inl e, snd (force_remove dk config name log))
                     | Inr _ \<Rightarrow> (Inr \<lparr>co_name = name, co_workspace = workspace, co_removed = False\<rparr>, log)))))"

definition timed_out_output :: sandbox_command_output where
  "timed_out_output =
     \<lparr>sc_stdout = [], sc_stderr = ''command timed out; the sandbox was stopped'', sc_exit_code = None,
      sc_timed_out = True, sc_truncated = False\<rparr>"

definition container_shell ::
  "docker \<Rightarrow> sandbox_config \<Rightarrow> coding_container \<Rightarrow> string \<Rightarrow> docker_log
     \<Rightarrow> (vibe_error + sandbox_command_output) \<times> coding_container \<times> docker_log" where
  "container_shell dk config container command_text log =
     (case run_docker_timeout dk config [''exec'', co_name container, ''/bin/bash'', ''-lc'', command_text] [] log of
        (Some (Inl e), log) \<Rightarrow> (Inl e, container, log)
      | (Some (Inr output), log) \<Rightarrow> (Inr (command_output output), container, log)
      | (None, log) \<Rightarrow>
          (case force_remove dk config (co_name container) log of
             (Inl e, log) \<Rightarrow> (Inl e, container, log)
           | (Inr _, log) \<Rightarrow> (Inr timed_out_output, container\<lparr>co_removed := True\<rparr>, log)))"

text \<open>The request is written to the helper's input; \<open>helper\<close> is the script it runs.\<close>

definition container_file_tool ::
  "docker \<Rightarrow> sandbox_config \<Rightarrow> string \<Rightarrow> (json \<Rightarrow> string) \<Rightarrow> (string \<Rightarrow> json option) \<Rightarrow> coding_container \<Rightarrow> json
     \<Rightarrow> docker_log \<Rightarrow> (vibe_error + json) \<times> coding_container \<times> docker_log" where
  "container_file_tool dk config helper print parse container request log =
     (if MAX_FILE_TOOL_REQUEST < length (print request)
      then (Inl (SandboxError ''coding file request'' ''request exceeds the file tool size limit''), container, log)
      else case run_docker_timeout dk config
             [''exec'', ''--interactive'', co_name container, ''/usr/local/bin/node'', ''--input-type=module'', ''--eval'',
              helper] (print request) log of
        (Some (Inl e), log) \<Rightarrow> (Inl e, container, log)
      | (Some (Inr output), log) \<Rightarrow>
          (if \<not> po_success output
           then (Inl (SandboxError ''coding file request'' ''sandbox file helper failed''), container, log)
           else (some_or (parse (po_stdout output))
                   (SandboxError ''decode coding file response'' ''sandbox file helper returned an invalid response''),
                 container, log))
      | (None, log) \<Rightarrow>
          (case force_remove dk config (co_name container) log of
             (Inl e, log) \<Rightarrow> (Inl e, container, log)
           | (Inr _, log) \<Rightarrow> (Inl VibeTimedOut, container\<lparr>co_removed := True\<rparr>, log)))"

definition container_remove :: "docker \<Rightarrow> sandbox_config \<Rightarrow> coding_container \<Rightarrow> docker_log \<Rightarrow> (vibe_error + unit) \<times> docker_log" where
  "container_remove dk config container log =
     (if co_removed container then (Inr (), log) else force_remove dk config (co_name container) log)"

definition cleanup_job :: "docker \<Rightarrow> sandbox_config \<Rightarrow> string \<Rightarrow> docker_log \<Rightarrow> (vibe_error + unit) \<times> docker_log" where
  "cleanup_job dk config job log =
     (case force_remove dk config (coding_name job) log of
        (Inl e, log) \<Rightarrow> (Inl e, log)
      | (Inr _, log) \<Rightarrow> force_remove dk config (build_name job) log)"

definition vibe_container_name :: "string \<Rightarrow> bool" where
  "vibe_container_name name \<longleftrightarrow>
     starts_with name ''chudbot-vibe-'' \<and> list_all (\<lambda>c. is_ascii_alphanumeric c \<or> c = CHR ''-'') name"

fun remove_orphans :: "docker \<Rightarrow> sandbox_config \<Rightarrow> string list \<Rightarrow> nat \<Rightarrow> docker_log \<Rightarrow> (vibe_error + nat) \<times> docker_log" where
  "remove_orphans dk config [] removed log = (Inr removed, log)"
| "remove_orphans dk config (name # names) removed log =
     (case force_remove dk config name log of
        (Inl e, log) \<Rightarrow> (Inl e, log)
      | (Inr _, log) \<Rightarrow> remove_orphans dk config names (Suc removed) log)"

definition cleanup_orphaned_containers :: "docker \<Rightarrow> sandbox_config \<Rightarrow> docker_log \<Rightarrow> (vibe_error + nat) \<times> docker_log" where
  "cleanup_orphaned_containers dk config log =
     (case run_docker dk config
             [''ps'', ''--all'', ''--filter'', ''name=^/chudbot-vibe-'', ''--format'', ''{{.Names}}''] log of
        (Inl e, log) \<Rightarrow> (Inl e, log)
      | (Inr output, log) \<Rightarrow>
          (case ensure_docker ''list Vibe containers'' output of
             Inl e \<Rightarrow> (Inl e, log)
           | Inr names \<Rightarrow> remove_orphans dk config (filter vibe_container_name (str_lines names)) 0 log))"

section \<open>The clean build\<close>

record build_output =
  bo_image_id :: string
  bo_log :: string
  bo_artifact_bytes :: u64

text \<open>
  \<open>dist\<close> is what the build leaves in the source tree. The second component is the artifact directory afterwards,
  \<open>None\<close> when there is none; the outer \<open>None\<close> would be a copy that never ends.
\<close>

type_synonym build_result = "((vibe_error + build_output) \<times> walk option \<times> docker_log) option"

definition build_command :: "sandbox_config \<Rightarrow> string \<Rightarrow> string \<Rightarrow> string list" where
  "build_command config job source =
     base_create config (build_name job) source
     @ [sb_image config, ''/bin/bash'', ''-lc'', ''bun install --frozen-lockfile && bun run build'']"

definition collect_build ::
  "docker \<Rightarrow> sandbox_config \<Rightarrow> faults \<Rightarrow> (string \<Rightarrow> bool) \<Rightarrow> u64 \<Rightarrow> fs_entry list \<Rightarrow> string \<Rightarrow> docker_log
     \<Rightarrow> ((vibe_error + build_output \<times> walk) \<times> docker_log) option" where
  "collect_build dk config io resolves max_artifact_bytes dist build_log log =
     (case check_available dk config log of
        (Inl e, log) \<Rightarrow> Some (Inl e, log)
      | (Inr image_id, log) \<Rightarrow>
          map_option (\<lambda>r. (case r of
                Inl e \<Rightarrow> Inl e
              | Inr (bytes, artifact) \<Rightarrow>
                  Inr (\<lparr>bo_image_id = str_trim image_id, bo_log = build_log, bo_artifact_bytes = bytes\<rparr>, artifact), log))
            (copy_built_artifact io resolves max_artifact_bytes dist))"

text \<open>A build that is given up removes its container.\<close>

definition abandon_build :: "docker \<Rightarrow> sandbox_config \<Rightarrow> string \<Rightarrow> vibe_error \<Rightarrow> docker_log \<Rightarrow> build_result" where
  "abandon_build dk config name e log = Some (Inl e, None, snd (force_remove dk config name log))"

text \<open>The end of a build that ran: its output is collected, the container is removed either way.\<close>

definition finish_build ::
  "docker \<Rightarrow> sandbox_config \<Rightarrow> faults \<Rightarrow> (string \<Rightarrow> bool) \<Rightarrow> string \<Rightarrow> u64 \<Rightarrow> fs_entry list \<Rightarrow> string \<Rightarrow> docker_log \<Rightarrow> build_result" where
  "finish_build dk config io resolves name max_artifact_bytes dist build_log log =
     map_option (\<lambda>(result, log).
         case force_remove dk config name log of (cleanup, log) \<Rightarrow>
           (then_do cleanup (\<lambda>_. map_sum id fst result),
            (case result of Inl _ \<Rightarrow> None | Inr (_, artifact) \<Rightarrow> Some artifact), log))
       (collect_build dk config io resolves max_artifact_bytes dist build_log log)"

definition attach_build ::
  "docker \<Rightarrow> sandbox_config \<Rightarrow> faults \<Rightarrow> (string \<Rightarrow> bool) \<Rightarrow> string \<Rightarrow> u64 \<Rightarrow> fs_entry list \<Rightarrow> docker_log \<Rightarrow> build_result" where
  "attach_build dk config io resolves name max_artifact_bytes dist log =
     (case run_docker_timeout dk config [''start'', ''--attach'', name] [] log of
        (Some (Inl e), log) \<Rightarrow> abandon_build dk config name e log
      | (None, log) \<Rightarrow> abandon_build dk config name VibeTimedOut log
      | (Some (Inr output), log) \<Rightarrow>
          (if \<not> po_success output
           then abandon_build dk config name (SandboxError ''clean build'' (bounded_combined_output output)) log
           else finish_build dk config io resolves name max_artifact_bytes dist (bounded_combined_output output) log))"

definition clean_build_with_bindings ::
  "docker \<Rightarrow> sandbox_config \<Rightarrow> faults \<Rightarrow> (string \<Rightarrow> bool) \<Rightarrow> string \<Rightarrow> string \<Rightarrow> u64 \<Rightarrow> fs_entry list \<Rightarrow> docker_log \<Rightarrow> build_result" where
  "clean_build_with_bindings dk config io resolves job source max_artifact_bytes dist log =
     (let name = build_name job in
      case run_docker dk config (build_command config job source) (snd (force_remove dk config name log)) of
        (Inl e, log) \<Rightarrow> Some (Inl e, None, log)
      | (Inr output, log) \<Rightarrow>
          (case ensure_docker ''create build container'' output of
             Inl e \<Rightarrow> abandon_build dk config name e log
           | Inr _ \<Rightarrow> attach_build dk config io resolves name max_artifact_bytes dist log))"

definition clean_build ::
  "docker \<Rightarrow> sandbox_config \<Rightarrow> faults \<Rightarrow> (string \<Rightarrow> bool) \<Rightarrow> string \<Rightarrow> string \<Rightarrow> u64 \<Rightarrow> fs_entry list \<Rightarrow> docker_log \<Rightarrow> build_result" where
  "clean_build dk config io resolves job source max_artifact_bytes dist log =
     (case then_do (io_call io (CallCreateDir ''src'')) (\<lambda>_. io_call io (CallWrite SDK_TYPESCRIPT_PATH)) of
        Inl e \<Rightarrow> Some (Inl e, None, log)
      | Inr _ \<Rightarrow>
          map_option (\<lambda>(result, artifact, log).
              case (io_call io (CallRemoveFile SDK_TYPESCRIPT_PATH), result) of
                (Inl e, Inr _) \<Rightarrow> (Inl e, None, log)
              | _ \<Rightarrow> (result, artifact, log))
            (clean_build_with_bindings dk config io resolves job source max_artifact_bytes dist log))"

section \<open>Nothing of a build outlives it\<close>

lemma run_docker_log: "snd (run_docker dk config args log) = log @ [(docker_args config args, [])]"
  by (simp add: run_docker_def run_docker_with_def Let_def)

lemma run_docker_with_log: "snd (run_docker_with dk config args stdin log) = log @ [(docker_args config args, stdin)]"
  by (simp add: run_docker_with_def Let_def)

lemma run_docker_timeout_log: "snd (run_docker_timeout dk config args stdin log) = log @ [(docker_args config args, stdin)]"
  by (simp add: run_docker_timeout_def run_docker_with_def Let_def)

lemma force_remove_log:
  "snd (force_remove dk config name log) = log @ [(docker_args config [''rm'', ''--force'', name], [])]"
  by (auto simp: force_remove_def run_docker_def run_docker_with_def Let_def split: sum.split)

end
