(* ===== verification/Vibe_Export_Props.thy ===== *)
theory Vibe_Export_Props
  imports Vibe_Export "HOL-Library.Multiset"
begin

text \<open>
  What the two walks of \<open>export.rs\<close> copy. The contract of one visited entry is a locale; under it the loop
  ends and copies exactly the files a recursive reading of the tree names. The source walk and the artifact
  walk are its two instances.
\<close>

section \<open>The recursive reading of a tree\<close>

type_synonym choice = "string \<Rightarrow> fs_entry \<Rightarrow> bool"

lemma entries_weight_simps [simp]:
  "entries_weight [] = 0"
  "entries_weight (e # es) = node_weight (snd e) + entries_weight es"
  by (simp_all add: entries_weight_def)

lemma node_weight_pos [simp]: "0 < node_weight node"
  by (cases node) auto

function files_below :: "choice \<Rightarrow> string \<Rightarrow> fs_entry list \<Rightarrow> (string \<times> string) list" where
  "files_below chosen rel [] = []"
| "files_below chosen rel (e # es) =
     (if chosen rel e
      then (case snd e of
          FsFile data _ \<Rightarrow> [(path_join rel (fst e), data)]
        | FsDir sub \<Rightarrow> files_below chosen (path_join rel (fst e)) sub
        | _ \<Rightarrow> [])
      else []) @ files_below chosen rel es"
  by pat_completeness auto
termination
  by (relation "measure (\<lambda>(_, _, es). entries_weight es)") auto

function all_below :: "choice \<Rightarrow> choice \<Rightarrow> string \<Rightarrow> fs_entry list \<Rightarrow> bool" where
  "all_below chosen sound rel [] = True"
| "all_below chosen sound rel (e # es) =
     (sound rel e
      \<and> (if chosen rel e then (case snd e of FsDir sub \<Rightarrow> all_below chosen sound (path_join rel (fst e)) sub | _ \<Rightarrow> True) else True)
      \<and> all_below chosen sound rel es)"
  by pat_completeness auto
termination
  by (relation "measure (\<lambda>(_, _, _, es). entries_weight es)") auto

text \<open>The entries of one directory: its files, and its directories.\<close>

fun files_here :: "choice \<Rightarrow> string \<Rightarrow> fs_entry list \<Rightarrow> (string \<times> string) list" where
  "files_here chosen rel [] = []"
| "files_here chosen rel (e # es) =
     (if chosen rel e then (case snd e of FsFile data _ \<Rightarrow> [(path_join rel (fst e), data)] | _ \<Rightarrow> []) else [])
     @ files_here chosen rel es"

fun dirs_here :: "choice \<Rightarrow> string \<Rightarrow> fs_entry list \<Rightarrow> (string \<times> fs_entry list) list" where
  "dirs_here chosen rel [] = []"
| "dirs_here chosen rel (e # es) =
     (if chosen rel e then (case snd e of FsDir sub \<Rightarrow> [(path_join rel (fst e), sub)] | _ \<Rightarrow> []) else [])
     @ dirs_here chosen rel es"

definition pending_files :: "choice \<Rightarrow> (string \<times> fs_entry list) list \<Rightarrow> (string \<times> string) multiset" where
  "pending_files chosen pending = sum_list (map (\<lambda>d. mset (files_below chosen (fst d) (snd d))) pending)"

definition pending_sound :: "choice \<Rightarrow> choice \<Rightarrow> (string \<times> fs_entry list) list \<Rightarrow> bool" where
  "pending_sound chosen sound pending \<longleftrightarrow> list_all (\<lambda>d. all_below chosen sound (fst d) (snd d)) pending"

lemma pending_simps [simp]:
  "pending_files chosen [] = {#}"
  "pending_files chosen (d # ds) = mset (files_below chosen (fst d) (snd d)) + pending_files chosen ds"
  "pending_files chosen (ds @ ds') = pending_files chosen ds + pending_files chosen ds'"
  "pending_sound chosen sound []"
  "pending_sound chosen sound (d # ds) \<longleftrightarrow> all_below chosen sound (fst d) (snd d) \<and> pending_sound chosen sound ds"
  "pending_sound chosen sound (ds @ ds') \<longleftrightarrow> pending_sound chosen sound ds \<and> pending_sound chosen sound ds'"
  "pending_weight [] = 0"
  "pending_weight (d # ds) = Suc (entries_weight (snd d)) + pending_weight ds"
  "pending_weight (ds @ ds') = pending_weight ds + pending_weight ds'"
  by (simp_all add: pending_files_def pending_sound_def pending_weight_def)

lemma pending_rev [simp]:
  "pending_files chosen (rev ds) = pending_files chosen ds"
  "pending_sound chosen sound (rev ds) = pending_sound chosen sound ds"
  "pending_weight (rev ds) = pending_weight ds"
  by (induction ds) (auto simp: ac_simps)

lemma files_below_here:
  "mset (files_below chosen rel es) = mset (files_here chosen rel es) + pending_files chosen (dirs_here chosen rel es)"
  by (induction es) (auto split: fs_node.split)

lemma all_below_here:
  "all_below chosen sound rel es \<longleftrightarrow> list_all (sound rel) es \<and> pending_sound chosen sound (dirs_here chosen rel es)"
  by (induction es) (auto split: fs_node.split)

lemma dirs_here_weight: "pending_weight (dirs_here chosen rel es) \<le> entries_weight es"
  by (induction es) (auto split: fs_node.split)

section \<open>The walk\<close>

definition visited :: "choice \<Rightarrow> string \<Rightarrow> fs_entry \<Rightarrow> walk \<Rightarrow> walk \<Rightarrow> bool" where
  "visited chosen rel e st st' \<longleftrightarrow>
     wk_copied st' = wk_copied st @ files_here chosen rel [e]
     \<and> wk_pending st' = dirs_here chosen rel [e] @ wk_pending st"

locale tree_walk =
  fixes io :: faults
    and visit :: "string \<Rightarrow> walk \<Rightarrow> fs_entry \<Rightarrow> vibe_error + walk"
    and chosen :: choice
    and sound :: choice
    and counted :: "walk \<Rightarrow> bool"
    and fits :: "(string \<times> string) multiset \<Rightarrow> bool"
  assumes visit_ok: "counted st \<Longrightarrow> visit rel st e = Inr st' \<Longrightarrow> sound rel e \<and> visited chosen rel e st st' \<and> counted st'"
    and visit_error: "counted st \<Longrightarrow> visit rel st e = Inl err \<Longrightarrow> io = (\<lambda>_. None) \<Longrightarrow>
      \<not> sound rel e \<or> \<not> fits (mset (wk_copied st @ files_here chosen rel [e]))"
    and fits_part: "fits (xs + ys) \<Longrightarrow> fits xs"
    and counted_dir: "counted (st\<lparr>wk_pending := pending\<rparr>) = counted st"
begin

lemma read_dir_ok:
  "counted st \<Longrightarrow> try_fold (visit rel) st es = Inr st' \<Longrightarrow>
     counted st' \<and> list_all (sound rel) es
     \<and> wk_copied st' = wk_copied st @ files_here chosen rel es
     \<and> wk_pending st' = rev (dirs_here chosen rel es) @ wk_pending st"
proof (induction es arbitrary: st)
  case (Cons e es)
  obtain st1 where first: "visit rel st e = Inr st1" and rest: "try_fold (visit rel) st1 es = Inr st'"
    using Cons.prems(2) by (auto split: sum.splits)
  note seen = visit_ok [OF Cons.prems(1) first]
  then show ?case
    using Cons.IH [OF _ rest] by (auto simp: visited_def split: fs_node.splits)
qed simp

lemma read_dir_error:
  "counted st \<Longrightarrow> try_fold (visit rel) st es = Inl err \<Longrightarrow> io = (\<lambda>_. None) \<Longrightarrow>
     \<not> list_all (sound rel) es \<or> \<not> fits (mset (wk_copied st @ files_here chosen rel es))"
proof (induction es arbitrary: st)
  case (Cons e es)
  show ?case
  proof (cases "visit rel st e")
    case (Inl err')
    have "mset (wk_copied st @ files_here chosen rel (e # es))
        = mset (wk_copied st @ files_here chosen rel [e]) + mset (files_here chosen rel es)" by simp
    then show ?thesis
      using visit_error [OF Cons.prems(1) Inl Cons.prems(3)] fits_part by (metis list.pred_inject(2))
  next
    case (Inr st1)
    note seen = visit_ok [OF Cons.prems(1) Inr]
    then have "wk_copied st1 @ files_here chosen rel es = wk_copied st @ files_here chosen rel (e # es)"
      by (simp add: visited_def)
    then show ?thesis
      using Cons.IH [of st1] Cons.prems Inr seen by (metis list.pred_inject(2) sum.case(2) try_fold.simps(2))
  qed
qed simp

lemma walk_ends:
  "counted st \<Longrightarrow> \<exists>r. walk_dirs io visit st = Some r
     \<and> (case r of
          Inr st' \<Rightarrow> wk_pending st' = [] \<and> counted st' \<and> pending_sound chosen sound (wk_pending st)
            \<and> mset (wk_copied st') = mset (wk_copied st) + pending_files chosen (wk_pending st)
        | Inl _ \<Rightarrow> io = (\<lambda>_. None) \<longrightarrow>
            \<not> (pending_sound chosen sound (wk_pending st)
               \<and> fits (mset (wk_copied st) + pending_files chosen (wk_pending st))))"
proof (induction "pending_weight (wk_pending st)" arbitrary: st rule: less_induct)
  case less
  show ?case
  proof (cases "wk_pending st")
    case Nil
    then show ?thesis using less.prems by (simp add: walk_dirs.simps)
  next
    case (Cons d pending)
    let ?rel = "fst d" and ?es = "snd d" and ?st = "st\<lparr>wk_pending := pending\<rparr>"
    have counted: "counted ?st" using less.prems by (simp add: counted_dir)
    consider (unread) "io (CallReadDir ?rel) \<noteq> None"
      | (failed) err where "io (CallReadDir ?rel) = None" "try_fold (visit ?rel) ?st ?es = Inl err"
      | (readable) st' where "io (CallReadDir ?rel) = None" "try_fold (visit ?rel) ?st ?es = Inr st'"
      by (cases "try_fold (visit ?rel) ?st ?es") auto
    then show ?thesis
    proof cases
      case unread
      then show ?thesis using Cons by (auto simp: walk_dirs.simps [of io visit st] io_call_def)
    next
      case failed
      have "\<not> (pending_sound chosen sound (wk_pending st)
          \<and> fits (mset (wk_copied st) + pending_files chosen (wk_pending st)))" if "io = (\<lambda>_. None)"
      proof
        assume good: "pending_sound chosen sound (wk_pending st)
          \<and> fits (mset (wk_copied st) + pending_files chosen (wk_pending st))"
        have "mset (wk_copied st) + pending_files chosen (wk_pending st)
            = mset (wk_copied ?st @ files_here chosen ?rel ?es)
              + (pending_files chosen (dirs_here chosen ?rel ?es) + pending_files chosen pending)"
          using Cons by (simp add: files_below_here ac_simps)
        then have "fits (mset (wk_copied ?st @ files_here chosen ?rel ?es))"
          using good fits_part by metis
        moreover have "list_all (sound ?rel) ?es" using good Cons by (simp add: all_below_here)
        ultimately show False using read_dir_error [OF counted failed(2) that] by blast
      qed
      then show ?thesis using Cons failed by (simp add: walk_dirs.simps [of io visit st] io_call_def)
    next
      case readable
      note read = read_dir_ok [OF counted readable(2)]
      then have smaller: "pending_weight (wk_pending st') < pending_weight (wk_pending st)"
        using Cons dirs_here_weight [of chosen ?rel ?es] by simp
      have step: "walk_dirs io visit st = walk_dirs io visit st'"
        using Cons readable by (simp add: walk_dirs.simps [of io visit st] io_call_def)
      have sound: "pending_sound chosen sound (wk_pending st) = pending_sound chosen sound (wk_pending st')"
        using Cons read by (simp add: all_below_here)
      have files: "mset (wk_copied st') + pending_files chosen (wk_pending st')
          = mset (wk_copied st) + pending_files chosen (wk_pending st)"
        using Cons read by (simp add: files_below_here ac_simps)
      show ?thesis using less.hyps [OF smaller conjunct1 [OF read]] by (simp only: step sound files)
    qed
  qed
qed

end

section \<open>The source tree\<close>

definition source_chosen :: choice where
  "source_chosen rel e \<longleftrightarrow>
     \<not> skipped_name rel (fst e) \<and> \<not> same_path (path_join rel (fst e)) SDK_TYPESCRIPT_PATH"

definition source_sound :: "export_limits \<Rightarrow> choice" where
  "source_sound limits rel e \<longleftrightarrow>
     utf8_valid (fst e)
     \<and> (skipped_name rel (fst e)
        \<or> \<not> reserved_name rel (fst e) \<and> validate_relative_path (path_join rel (fst e)) = Inr ()
          \<and> (same_path (path_join rel (fst e)) SDK_TYPESCRIPT_PATH
             \<or> (case snd e of
                  FsFile data links \<Rightarrow> links = 1 \<and> file_len data \<le> el_max_file_bytes limits
                | FsDir _ \<Rightarrow> True
                | _ \<Rightarrow> False)))"

definition total_bytes :: "(string \<times> string) multiset \<Rightarrow> nat" where
  "total_bytes files = (\<Sum>f\<in>#files. unat (file_len (snd f)))"

definition counted_copies :: "walk \<Rightarrow> bool" where
  "counted_copies st \<longleftrightarrow>
     unat (wk_files st) = length (wk_copied st) \<and> unat (wk_bytes st) = total_bytes (mset (wk_copied st))"

definition source_fits :: "export_limits \<Rightarrow> (string \<times> string) multiset \<Rightarrow> bool" where
  "source_fits limits files \<longleftrightarrow>
     size files \<le> unat (el_max_files limits) \<and> total_bytes files \<le> unat (el_max_tree_bytes limits)"

definition source_counted :: "export_limits \<Rightarrow> walk \<Rightarrow> bool" where
  "source_counted limits st \<longleftrightarrow> counted_copies st \<and> source_fits limits (mset (wk_copied st))"

lemma total_bytes_simps [simp]:
  "total_bytes {#} = 0"
  "total_bytes (add_mset f fs) = unat (file_len (snd f)) + total_bytes fs"
  "total_bytes (fs + gs) = total_bytes fs + total_bytes gs"
  by (simp_all add: total_bytes_def)

lemma u64_checked_add_Some:
  "u64_checked_add a b = Some c \<longleftrightarrow> unat a + unat b < 2 ^ 64 \<and> c = a + b"
  by (auto simp: u64_checked_add_def)

lemma u64_sum: "unat a + unat b < 2 ^ 64 \<Longrightarrow> unat (a + b :: u64) = unat a + unat b"
  using unat_add_lem [of a b] by simp

lemma count_file_Inr:
  assumes "counted_copies st"
  shows "count_file limits data st = Inr st' \<longleftrightarrow>
     length (wk_copied st) + 1 \<le> unat (el_max_files limits)
     \<and> total_bytes (mset (wk_copied st)) + unat (file_len data) \<le> unat (el_max_tree_bytes limits)
     \<and> st' = st\<lparr>wk_files := wk_files st + 1, wk_bytes := wk_bytes st + file_len data\<rparr>"
proof -
  have small: "unat (x :: u64) < 2 ^ 64" for x using unsigned_less [of x] by simp
  have files: "unat (wk_files st) + unat (1 :: u64) < 2 ^ 64 \<and> wk_files st + 1 \<le> el_max_files limits
      \<longleftrightarrow> length (wk_copied st) + 1 \<le> unat (el_max_files limits)"
    using assms u64_sum [of "wk_files st" 1] small [of "el_max_files limits"]
    by (auto simp: counted_copies_def word_le_nat_alt)
  have bytes: "unat (wk_bytes st) + unat (file_len data) < 2 ^ 64 \<and> wk_bytes st + file_len data \<le> el_max_tree_bytes limits
      \<longleftrightarrow> total_bytes (mset (wk_copied st)) + unat (file_len data) \<le> unat (el_max_tree_bytes limits)"
    using assms u64_sum [of "wk_bytes st" "file_len data"] small [of "el_max_tree_bytes limits"]
    by (auto simp: counted_copies_def word_le_nat_alt)
  show ?thesis
    unfolding files [symmetric] bytes [symmetric]
    by (auto simp: count_file_def then_do_eq_Inr u64_checked_add_Some)
qed

lemma copy_file_Inr:
  "copy_file io path data st = Inr st' \<longleftrightarrow>
     io (CallCopy path) = None \<and> st' = st\<lparr>wk_copied := wk_copied st @ [(path, data)]\<rparr>"
  by (auto simp: copy_file_def then_do_eq_Inr)

lemma enter_dir_Inr:
  "enter_dir io path entries st = Inr st' \<longleftrightarrow> io (CallCreateDir path) = None \<and> st' = push_dir path entries st"
  by (auto simp: enter_dir_def then_do_eq_Inr)

lemma source_entry_Inr:
  "source_entry io limits rel st (name, node) = Inr st' \<longleftrightarrow>
     utf8_valid name
     \<and> (skipped_name rel name \<and> st' = st
        \<or> \<not> skipped_name rel name \<and> \<not> reserved_name rel name
          \<and> validate_relative_path (path_join rel name) = Inr ()
          \<and> (same_path (path_join rel name) SDK_TYPESCRIPT_PATH \<and> st' = st
             \<or> \<not> same_path (path_join rel name) SDK_TYPESCRIPT_PATH
               \<and> io (CallMetadata (path_join rel name)) = None
               \<and> (case node of
                    FsFile data links \<Rightarrow> links = 1 \<and> file_len data \<le> el_max_file_bytes limits
                      \<and> (\<exists>st1. count_file limits data st = Inr st1 \<and> copy_file io (path_join rel name) data st1 = Inr st')
                  | FsDir entries \<Rightarrow> enter_dir io (path_join rel name) entries st = Inr st'
                  | _ \<Rightarrow> False)))"
  by (cases node) (auto simp: source_entry_def then_do_eq_Inr Let_def)

lemma not_Inr_Inl: "r = Inl e \<Longrightarrow> r \<noteq> Inr x"
  by simp

lemma source_entry_ok:
  assumes "source_counted limits st" and "source_entry io limits rel st e = Inr st'"
  shows "source_sound limits rel e \<and> visited source_chosen rel e st st' \<and> source_counted limits st'"
proof -
  obtain name node where e: "e = (name, node)" by (cases e)
  note run = assms(2) [unfolded e source_entry_Inr]
  consider (left_out) "st' = st" "\<not> source_chosen rel e" "source_sound limits rel e"
    | (chosen) "source_chosen rel e" "\<not> skipped_name rel name" "\<not> reserved_name rel name" "utf8_valid name"
        "validate_relative_path (path_join rel name) = Inr ()"
        "case node of
            FsFile data links \<Rightarrow> links = 1 \<and> file_len data \<le> el_max_file_bytes limits
              \<and> (\<exists>st1. count_file limits data st = Inr st1 \<and> copy_file io (path_join rel name) data st1 = Inr st')
          | FsDir entries \<Rightarrow> enter_dir io (path_join rel name) entries st = Inr st'
          | _ \<Rightarrow> False"
    using run by (auto simp: source_chosen_def source_sound_def e)
  then show ?thesis
  proof cases
    case left_out
    then show ?thesis using assms(1) by (simp add: visited_def)
  next
    case chosen
    have counts: "counted_copies st" using assms(1) by (simp add: source_counted_def)
    show ?thesis
    proof (cases node)
      case (FsFile data links)
      with chosen(6) obtain st1 where run: "count_file limits data st = Inr st1"
        "copy_file io (path_join rel name) data st1 = Inr st'" and links: "links = 1" "file_len data \<le> el_max_file_bytes limits"
        by auto
      note grown = run(1) [unfolded count_file_Inr [OF counts]]
      have small: "unat (x :: u64) < 2 ^ 64" for x using unsigned_less [of x] by simp
      have "unat (wk_files st + 1) = length (wk_copied st) + 1"
        "unat (wk_bytes st + file_len data) = total_bytes (mset (wk_copied st)) + unat (file_len data)"
        using counts grown u64_sum [of "wk_files st" 1] u64_sum [of "wk_bytes st" "file_len data"]
          small [of "el_max_files limits"] small [of "el_max_tree_bytes limits"]
        by (auto simp: counted_copies_def)
      then show ?thesis
        using grown run(2) links chosen FsFile
        by (simp add: e visited_def copy_file_Inr source_sound_def source_counted_def counted_copies_def source_fits_def)
    next
      case (FsDir entries)
      then show ?thesis
        using assms(1) chosen
        by (simp add: e visited_def enter_dir_Inr push_dir_def source_sound_def source_counted_def counted_copies_def)
    qed (use chosen in simp_all)
  qed
qed

lemma source_entry_error:
  assumes "source_counted limits st" and "source_entry io limits rel st e = Inl err" and io: "io = (\<lambda>_. None)"
  shows "\<not> source_sound limits rel e \<or> \<not> source_fits limits (mset (wk_copied st @ files_here source_chosen rel [e]))"
proof (rule ccontr)
  assume "\<not> ?thesis"
  then have good: "source_sound limits rel e" "source_fits limits (mset (wk_copied st @ files_here source_chosen rel [e]))"
    by auto
  obtain name node where e: "e = (name, node)" by (cases e)
  have counts: "counted_copies st" using assms(1) by (simp add: source_counted_def)
  have "\<exists>st'. source_entry io limits rel st e = Inr st'"
  proof (cases "source_chosen rel e")
    case True
    then show ?thesis
      using good
      by (cases node)
        (auto simp: e io source_entry_Inr source_sound_def source_chosen_def count_file_Inr [OF counts]
          copy_file_Inr enter_dir_Inr source_fits_def)
  next
    case False
    then show ?thesis using good by (auto simp: e source_entry_Inr source_sound_def source_chosen_def)
  qed
  then show False using assms(2) by simp
qed

lemma source_fits_part: "source_fits limits (xs + ys) \<Longrightarrow> source_fits limits xs"
  by (simp add: source_fits_def)

lemma source_counted_dir: "source_counted limits (st\<lparr>wk_pending := pending\<rparr>) = source_counted limits st"
  by (simp add: source_counted_def counted_copies_def)

interpretation source_walk:
  tree_walk io "source_entry io limits" source_chosen "source_sound limits" "source_counted limits" "source_fits limits"
  for io limits
  by unfold_locales
    (fact source_entry_ok source_entry_error source_fits_part source_counted_dir)+

section \<open>The built artifact\<close>

definition artifact_chosen :: choice where
  "artifact_chosen rel e \<longleftrightarrow> True"

definition artifact_sound :: "export_limits \<Rightarrow> choice" where
  "artifact_sound limits rel e \<longleftrightarrow>
     validate_relative_path (path_join rel (fst e)) = Inr ()
     \<and> (case snd e of FsFile data _ \<Rightarrow> file_len data \<le> el_max_file_bytes limits | FsDir _ \<Rightarrow> True | _ \<Rightarrow> False)"

definition artifact_fits :: "export_limits \<Rightarrow> (string \<times> string) multiset \<Rightarrow> bool" where
  "artifact_fits limits files \<longleftrightarrow> total_bytes files \<le> unat (el_max_tree_bytes limits)"

definition artifact_counted :: "export_limits \<Rightarrow> walk \<Rightarrow> bool" where
  "artifact_counted limits st \<longleftrightarrow>
     wk_files st = of_nat (length (wk_copied st)) \<and> unat (wk_bytes st) = total_bytes (mset (wk_copied st))
     \<and> artifact_fits limits (mset (wk_copied st))"

lemma artifact_bytes:
  assumes "unat (wk_bytes st) = total_bytes (mset (wk_copied st))"
  shows "u64_checked_add (wk_bytes st) (file_len data) = Some bytes \<and> bytes \<le> el_max_tree_bytes limits \<longleftrightarrow>
     bytes = wk_bytes st + file_len data \<and> unat bytes = total_bytes (mset (wk_copied st)) + unat (file_len data)
     \<and> total_bytes (mset (wk_copied st)) + unat (file_len data) \<le> unat (el_max_tree_bytes limits)"
proof -
  have small: "unat (x :: u64) < 2 ^ 64" for x using unsigned_less [of x] by simp
  show ?thesis
    using assms u64_sum [of "wk_bytes st" "file_len data"] small [of "el_max_tree_bytes limits"] small [of bytes]
    by (auto simp: u64_checked_add_Some word_le_nat_alt)
qed

lemma artifact_entry_Inr:
  assumes "unat (wk_bytes st) = total_bytes (mset (wk_copied st))"
  shows "artifact_entry io limits rel st (name, node) = Inr st' \<longleftrightarrow>
     validate_relative_path (path_join rel name) = Inr () \<and> io (CallMetadata (path_join rel name)) = None
     \<and> (case node of
          FsDir entries \<Rightarrow> enter_dir io (path_join rel name) entries st = Inr st'
        | FsFile data _ \<Rightarrow>
            file_len data \<le> el_max_file_bytes limits
            \<and> unat (wk_bytes st + file_len data) = total_bytes (mset (wk_copied st)) + unat (file_len data)
            \<and> total_bytes (mset (wk_copied st)) + unat (file_len data) \<le> unat (el_max_tree_bytes limits)
            \<and> copy_file io (path_join rel name) data
                (st\<lparr>wk_files := wk_files st + 1, wk_bytes := wk_bytes st + file_len data\<rparr>) = Inr st'
        | _ \<Rightarrow> False)"
proof (cases node)
  case (FsFile data links)
  have "artifact_entry io limits rel st (name, FsFile data links) = Inr st' \<longleftrightarrow>
     validate_relative_path (path_join rel name) = Inr () \<and> io (CallMetadata (path_join rel name)) = None
     \<and> file_len data \<le> el_max_file_bytes limits
     \<and> (\<exists>bytes. (u64_checked_add (wk_bytes st) (file_len data) = Some bytes \<and> bytes \<le> el_max_tree_bytes limits)
        \<and> copy_file io (path_join rel name) data (st\<lparr>wk_files := wk_files st + 1, wk_bytes := bytes\<rparr>) = Inr st')"
    by (auto simp: artifact_entry_def then_do_eq_Inr Let_def)
  then show ?thesis unfolding artifact_bytes [OF assms] FsFile by auto
qed (auto simp: artifact_entry_def then_do_eq_Inr Let_def)

lemma artifact_entry_ok:
  assumes "artifact_counted limits st" and "artifact_entry io limits rel st e = Inr st'"
  shows "artifact_sound limits rel e \<and> visited artifact_chosen rel e st st' \<and> artifact_counted limits st'"
proof -
  obtain name node where e: "e = (name, node)" by (cases e)
  have counts: "unat (wk_bytes st) = total_bytes (mset (wk_copied st))" using assms(1) by (simp add: artifact_counted_def)
  note run = assms(2) [unfolded e artifact_entry_Inr [OF counts]]
  show ?thesis
    using run assms(1)
    by (cases node)
      (auto simp: e visited_def copy_file_Inr enter_dir_Inr push_dir_def artifact_sound_def artifact_counted_def
        artifact_fits_def artifact_chosen_def add.commute)
qed

lemma artifact_entry_error:
  assumes "artifact_counted limits st" and "artifact_entry io limits rel st e = Inl err" and io: "io = (\<lambda>_. None)"
  shows "\<not> artifact_sound limits rel e \<or> \<not> artifact_fits limits (mset (wk_copied st @ files_here artifact_chosen rel [e]))"
proof (rule ccontr)
  assume "\<not> ?thesis"
  then have good: "artifact_sound limits rel e" "artifact_fits limits (mset (wk_copied st @ files_here artifact_chosen rel [e]))"
    by auto
  obtain name node where e: "e = (name, node)" by (cases e)
  have counts: "unat (wk_bytes st) = total_bytes (mset (wk_copied st))" using assms(1) by (simp add: artifact_counted_def)
  have small: "unat (x :: u64) < 2 ^ 64" for x using unsigned_less [of x] by simp
  have "\<exists>st'. artifact_entry io limits rel st e = Inr st'"
  proof (cases node)
    case (FsFile data links)
    then have "unat (wk_bytes st + file_len data) = total_bytes (mset (wk_copied st)) + unat (file_len data)"
      using good counts u64_sum [of "wk_bytes st" "file_len data"] small [of "el_max_tree_bytes limits"]
      by (simp add: e artifact_fits_def artifact_chosen_def)
    then show ?thesis
      using good FsFile
      by (simp add: e io artifact_entry_Inr [OF counts] artifact_sound_def artifact_fits_def artifact_chosen_def copy_file_Inr)
  qed (use good in \<open>auto simp: e io artifact_entry_Inr [OF counts] artifact_sound_def enter_dir_Inr\<close>)
  then show False using assms(2) by simp
qed

lemma artifact_fits_part: "artifact_fits limits (xs + ys) \<Longrightarrow> artifact_fits limits xs"
  by (simp add: artifact_fits_def)

lemma artifact_counted_dir: "artifact_counted limits (st\<lparr>wk_pending := pending\<rparr>) = artifact_counted limits st"
  by (simp add: artifact_counted_def)

interpretation artifact_walk:
  tree_walk io "artifact_entry io limits" artifact_chosen "artifact_sound limits" "artifact_counted limits" "artifact_fits limits"
  for io limits
  by unfold_locales
    (fact artifact_entry_ok artifact_entry_error artifact_fits_part artifact_counted_dir)+

section \<open>The exported files\<close>

lemma below_valid:
  "(\<And>rel e. chosen rel e \<Longrightarrow> sound rel e \<Longrightarrow> validate_relative_path (path_join rel (fst e)) = Inr ()) \<Longrightarrow>
     all_below chosen sound rel es \<Longrightarrow> f \<in> set (files_below chosen rel es) \<Longrightarrow> validate_relative_path (fst f) = Inr ()"
proof (induction chosen rel es rule: files_below.induct)
  case (2 chosen rel e es)
  then show ?case by (cases e; cases "snd e") (auto split: if_splits)
qed simp

lemma source_valid:
  "source_chosen rel e \<Longrightarrow> source_sound limits rel e \<Longrightarrow> validate_relative_path (path_join rel (fst e)) = Inr ()"
  by (auto simp: source_chosen_def source_sound_def)

lemma artifact_valid:
  "artifact_chosen rel e \<Longrightarrow> artifact_sound limits rel e \<Longrightarrow> validate_relative_path (path_join rel (fst e)) = Inr ()"
  by (auto simp: artifact_sound_def)

lemma walk_from_simps [simp]:
  "wk_pending (walk_from source) = [([], source)]" "wk_copied (walk_from source) = []"
  "wk_files (walk_from source) = 0" "wk_bytes (walk_from source) = 0"
  by (simp_all add: walk_from_def)

definition inside_limits :: "export_limits \<Rightarrow> fs_entry list \<Rightarrow> bool" where
  "inside_limits limits source \<longleftrightarrow>
     all_below source_chosen (source_sound limits) [] source
     \<and> source_fits limits (mset (files_below source_chosen [] source))"

text \<open>
  C35: The export of a source tree ends whatever the file system does, and copies exactly the regular files of the
  tree that are not left out: when it succeeds, the copied files are the files of the recursive reading, each
  once, under plain relative paths that cannot leave the destination, its counts are exact and within the limits,
  and no symlink, hard link, special file or reserved name was met. With no failing call it is refused only when
  one of these is violated.
\<close>

theorem source_export_exact:
  "\<exists>r. copy_tree io limits source = Some r
     \<and> (case r of
          Inr st \<Rightarrow>
            mset (wk_copied st) = mset (files_below source_chosen [] source)
            \<and> unat (wk_files st) = length (wk_copied st)
            \<and> unat (wk_bytes st) = total_bytes (mset (wk_copied st))
            \<and> inside_limits limits source
            \<and> list_all (\<lambda>f. plain_path (fst f)) (wk_copied st)
        | Inl _ \<Rightarrow> io = (\<lambda>_. None) \<longrightarrow> \<not> inside_limits limits source)"
proof -
  have start: "source_counted limits (walk_from source)"
    by (simp add: source_counted_def counted_copies_def source_fits_def)
  obtain r where r: "copy_tree io limits source = Some r"
    and spec: "case r of
        Inr st \<Rightarrow> wk_pending st = [] \<and> source_counted limits st
          \<and> pending_sound source_chosen (source_sound limits) (wk_pending (walk_from source))
          \<and> mset (wk_copied st) = mset (wk_copied (walk_from source)) + pending_files source_chosen (wk_pending (walk_from source))
      | Inl _ \<Rightarrow> io = (\<lambda>_. None) \<longrightarrow>
          \<not> (pending_sound source_chosen (source_sound limits) (wk_pending (walk_from source))
             \<and> source_fits limits (mset (wk_copied (walk_from source)) + pending_files source_chosen (wk_pending (walk_from source))))"
    using source_walk.walk_ends [OF start, of io] unfolding copy_tree_def by blast
  show ?thesis
  proof (cases r)
    case (Inl e)
    then show ?thesis using r spec by (simp add: inside_limits_def)
  next
    case (Inr st)
    then have st: "source_counted limits st" "all_below source_chosen (source_sound limits) [] source"
      "mset (wk_copied st) = mset (files_below source_chosen [] source)"
      using spec by simp_all
    have "validate_relative_path (fst f) = Inr ()" if "f \<in> set (wk_copied st)" for f
      using below_valid [of source_chosen "source_sound limits" "[]" source f] source_valid st(2) that st(3) by (metis set_mset_mset)
    then show ?thesis
      using r Inr st
      by (auto simp: inside_limits_def source_counted_def counted_copies_def list_all_iff validate_relative_path_iff)
  qed
qed

section \<open>The page of a built site\<close>

definition matches_at :: "string \<Rightarrow> string \<Rightarrow> nat \<Rightarrow> bool" where
  "matches_at s needle i \<longleftrightarrow>
     i + length needle \<le> length s \<and> (\<forall>k < length needle. ascii_lower (s ! (i + k)) = ascii_lower (needle ! k))"

lemma lower_eq_nth:
  "to_ascii_lowercase a = to_ascii_lowercase b \<longleftrightarrow>
     length a = length b \<and> (\<forall>k < length b. ascii_lower (a ! k) = ascii_lower (b ! k))"
  by (auto simp: to_ascii_lowercase_def list_eq_iff_nth_eq)

lemma matches_0:
  "matches_at (c # s) needle 0 \<longleftrightarrow>
     length needle \<le> length (c # s) \<and> to_ascii_lowercase (take (length needle) (c # s)) = to_ascii_lowercase needle"
  unfolding lower_eq_nth matches_at_def by auto

lemma matches_Suc: "matches_at (c # s) needle (Suc i) = matches_at s needle i"
  by (simp add: matches_at_def)

lemma find_ci_iff:
  "needle \<noteq> [] \<Longrightarrow> find_ascii_case_insensitive s needle = Some i \<longleftrightarrow> matches_at s needle i \<and> (\<forall>j < i. \<not> matches_at s needle j)"
proof (induction s arbitrary: i)
  case Nil
  then show ?case by (simp add: matches_at_def)
next
  case (Cons c s)
  show ?case
  proof (cases i)
    case 0
    then show ?thesis using Cons.prems by (simp add: matches_0)
  next
    case (Suc i')
    have "(\<forall>j < Suc i'. \<not> matches_at (c # s) needle j) \<longleftrightarrow>
        \<not> matches_at (c # s) needle 0 \<and> (\<forall>j < i'. \<not> matches_at s needle j)"
      by (auto simp: matches_Suc less_Suc_eq_0_disj)
    then show ?thesis using Cons Suc by (auto simp: matches_0 matches_Suc)
  qed
qed

lemma find_ci_None:
  assumes "needle \<noteq> []" and "find_ascii_case_insensitive s needle = None"
  shows "\<not> matches_at s needle i"
proof
  assume found: "matches_at s needle i"
  define first where "first = (LEAST i. matches_at s needle i)"
  have "matches_at s needle first" "\<And>j. j < first \<Longrightarrow> \<not> matches_at s needle j"
    unfolding first_def using LeastI [of "matches_at s needle", OF found] by (auto dest: not_less_Least)
  then have "find_ascii_case_insensitive s needle = Some first"
    using find_ci_iff [OF assms(1)] by blast
  then show False using assms(2) by simp
qed

lemma ascii_lower_angle: "ascii_lower c = CHR ''<'' \<longleftrightarrow> c = CHR ''<''"
proof
  assume "ascii_lower c = CHR ''<''"
  then show "c = CHR ''<''"
    by (auto simp: ascii_lower_def Let_def byte_def split: if_splits dest: arg_cong [where f = "of_char :: char \<Rightarrow> nat"])
qed (simp add: ascii_lower_def)

lemma sdk_position_cut:
  "is_char_boundary html (sdk_position html) \<and> sdk_position html \<le> length html
     \<and> (\<forall>j < sdk_position html. \<not> matches_at html ''<script'' j)"
proof -
  have cut: "is_char_boundary html i \<and> i \<le> length html"
    if "matches_at html needle i" "needle \<noteq> []" "hd needle = CHR ''<''" for needle i
  proof -
    have "ascii_lower (html ! (i + 0)) = ascii_lower (needle ! 0)" "i < length html"
      using that unfolding matches_at_def by (auto simp: neq_Nil_conv)
    then have "html ! i = CHR ''<''"
      using that ascii_lower_angle by (simp add: hd_conv_nth) (metis ascii_lower_angle)
    then show ?thesis using \<open>i < length html\<close> by (simp add: is_char_boundary_def is_continuation_byte_def)
  qed
  show ?thesis
  proof (cases "find_ascii_case_insensitive html ''<script''")
    case (Some i)
    then show ?thesis using find_ci_iff [of "''<script''" html i] cut [of "''<script''" i] by (simp add: sdk_position_def)
  next
    case None
    note no_script = find_ci_None [OF _ None, simplified]
    show ?thesis
    proof (cases "find_ascii_case_insensitive html ''</body>''")
      case (Some i)
      then show ?thesis
        using find_ci_iff [of "''</body>''" html i] cut [of "''</body>''" i] no_script None by (simp add: sdk_position_def)
    next
      case no_body: None
      then show ?thesis using None no_script by (simp add: sdk_position_def is_char_boundary_def)
    qed
  qed
qed

lemma matches_append: "i + length needle \<le> length a \<Longrightarrow> matches_at (a @ b) needle i = matches_at a needle i"
  by (auto simp: matches_at_def nth_append)

lemma matches_shift: "matches_at (a @ s) needle (length a + i) = matches_at s needle i"
  by (simp add: matches_at_def nth_append add.assoc)

lemma matches_start: "matches_at (needle @ s) needle 0"
  by (simp add: matches_at_def nth_append)

lemma script_nth: "0 < k \<Longrightarrow> k < 7 \<Longrightarrow> ''<script'' ! k \<noteq> CHR ''<''"
proof -
  assume "0 < k" "k < 7"
  then have "k \<in> {1, 2, 3, 4, 5, 6}" by auto
  then show ?thesis by auto
qed

text \<open>A script tag put where no script starts before it is the first one.\<close>

lemma inserted_script_first:
  assumes "\<And>j. j < length before \<Longrightarrow> \<not> matches_at (before @ after) ''<script'' j"
  shows "find_ascii_case_insensitive (before @ ''<script'' @ rest) ''<script'' = Some (length before)"
proof -
  have "\<not> matches_at (before @ ''<script'' @ rest) ''<script'' j" if "j < length before" for j
  proof
    assume found: "matches_at (before @ ''<script'' @ rest) ''<script'' j"
    show False
    proof (cases "j + 7 \<le> length before")
      case True
      then have "matches_at before ''<script'' j" "matches_at (before @ after) ''<script'' j = matches_at before ''<script'' j"
        using found matches_append [of j "''<script''" before] by simp_all
      then show False using assms [OF that] by simp
    next
      case False
      define k where "k = length before - j"
      have k: "0 < k" "k < 7" "j + k = length before" using False that by (simp_all add: k_def)
      have "\<forall>k < length ''<script''. ascii_lower ((before @ ''<script'' @ rest) ! (j + k)) = ascii_lower (''<script'' ! k)"
        using found unfolding matches_at_def by blast
      then have "ascii_lower ((before @ ''<script'' @ rest) ! (j + k)) = ascii_lower (''<script'' ! k)"
        using k(2) by simp
      moreover have "(before @ ''<script'' @ rest) ! (j + k) = CHR ''<''"
        unfolding k(3) by (simp add: nth_append)
      ultimately have "ascii_lower (''<script'' ! k) = CHR ''<''"
        using ascii_lower_angle [of "CHR ''<''"] by metis
      then show False using script_nth [OF k(1,2)] ascii_lower_angle by blast
    qed
  qed
  moreover have "matches_at (before @ ''<script'' @ rest) ''<script'' (length before)"
    using matches_shift [of before "''<script'' @ rest" "''<script''" 0] by (simp only: matches_start add_0_right)
  ultimately show ?thesis by (simp add: find_ci_iff)
qed

lemma SDK_TAG_start: "SDK_TAG = ''<script'' @ drop 7 SDK_TAG"
  by (simp add: SDK_TAG_def)

lemma inject_sdk_first:
  "\<exists>before after. inject_sdk_html html = Some (before @ SDK_TAG @ [CHR 0x0A] @ after)
     \<and> before @ after = str_remove SDK_TAG (str_remove SDK_DEFERRED_TAG html)
     \<and> find_ascii_case_insensitive (before @ SDK_TAG @ [CHR 0x0A] @ after) ''<script'' = Some (length before)"
proof -
  define page where "page = str_remove SDK_TAG (str_remove SDK_DEFERRED_TAG html)"
  define before after where "before = take (sdk_position page) page" and "after = drop (sdk_position page) page"
  note cut = sdk_position_cut [of page]
  have whole: "before @ after = page" and len: "length before = sdk_position page"
    using cut by (simp_all add: before_def after_def)
  have "find_ascii_case_insensitive (before @ ''<script'' @ drop 7 SDK_TAG @ [CHR 0x0A] @ after) ''<script'' = Some (length before)"
  proof (rule inserted_script_first [of before after])
    show "\<not> matches_at (before @ after) ''<script'' j" if "j < length before" for j
      using cut that unfolding whole len by blast
  qed
  moreover have "inject_sdk_html html = Some (before @ SDK_TAG @ [CHR 0x0A] @ after)"
    unfolding inject_sdk_html_def page_def [symmetric] Let_def slice_at_def before_def after_def
    using cut by simp
  ultimately show ?thesis using whole SDK_TAG_start page_def by (metis append_assoc)
qed

lemma artifact_walk_ends:
  "\<exists>r. copy_artifact_tree io limits source = Some r
     \<and> (case r of
          Inr st \<Rightarrow> mset (wk_copied st) = mset (files_below artifact_chosen [] source)
            \<and> unat (wk_bytes st) = total_bytes (mset (wk_copied st))
            \<and> total_bytes (mset (wk_copied st)) \<le> unat (el_max_tree_bytes limits)
            \<and> list_all (\<lambda>f. plain_path (fst f)) (wk_copied st)
        | Inl _ \<Rightarrow> True)"
proof -
  have start: "artifact_counted limits (walk_from source)"
    by (simp add: artifact_counted_def artifact_fits_def)
  obtain r where r: "copy_artifact_tree io limits source = Some r"
    and spec: "case r of
        Inr st \<Rightarrow> wk_pending st = [] \<and> artifact_counted limits st
          \<and> pending_sound artifact_chosen (artifact_sound limits) (wk_pending (walk_from source))
          \<and> mset (wk_copied st) = mset (wk_copied (walk_from source)) + pending_files artifact_chosen (wk_pending (walk_from source))
      | Inl _ \<Rightarrow> io = (\<lambda>_. None) \<longrightarrow>
          \<not> (pending_sound artifact_chosen (artifact_sound limits) (wk_pending (walk_from source))
             \<and> artifact_fits limits (mset (wk_copied (walk_from source)) + pending_files artifact_chosen (wk_pending (walk_from source))))"
    using artifact_walk.walk_ends [OF start, of io] unfolding copy_artifact_tree_def by blast
  show ?thesis
  proof (cases r)
    case (Inl e)
    then show ?thesis using r by simp
  next
    case (Inr st)
    then have st: "artifact_counted limits st" "all_below artifact_chosen (artifact_sound limits) [] source"
      "mset (wk_copied st) = mset (files_below artifact_chosen [] source)"
      using spec by simp_all
    have "validate_relative_path (fst f) = Inr ()" if "f \<in> set (wk_copied st)" for f
      using below_valid [of artifact_chosen "artifact_sound limits" "[]" source f] artifact_valid st(2) that st(3)
      by (metis set_mset_mset)
    then show ?thesis
      using r Inr st
      by (auto simp: artifact_counted_def artifact_fits_def list_all_iff validate_relative_path_iff)
  qed
qed

lemma inject_sdk_page:
  "inject_sdk io st \<noteq> None
   \<and> (inject_sdk io st = Some (Inr st') \<longrightarrow>
        (\<exists>before after. wk_copied st' = wk_copied st @ [(''index.html'', before @ SDK_TAG @ [CHR 0x0A] @ after)]
           \<and> find_ascii_case_insensitive (before @ SDK_TAG @ [CHR 0x0A] @ after) ''<script'' = Some (length before)))"
proof (cases "read_copied io st ''index.html''")
  case (Inr html)
  obtain before after where page: "inject_sdk_html html = Some (before @ SDK_TAG @ [CHR 0x0A] @ after)"
    "find_ascii_case_insensitive (before @ SDK_TAG @ [CHR 0x0A] @ after) ''<script'' = Some (length before)"
    using inject_sdk_first by blast
  show ?thesis
  proof (intro conjI impI)
    assume run: "inject_sdk io st = Some (Inr st')"
    have "st' = st\<lparr>wk_copied := wk_copied st @ [(''index.html'', before @ SDK_TAG @ [CHR 0x0A] @ after)]\<rparr>"
      using run page(1) unfolding inject_sdk_def Inr by (auto simp: then_do_eq_Inr split: if_splits)
    then show "\<exists>before after. wk_copied st' = wk_copied st @ [(''index.html'', before @ SDK_TAG @ [CHR 0x0A] @ after)]
        \<and> find_ascii_case_insensitive (before @ SDK_TAG @ [CHR 0x0A] @ after) ''<script'' = Some (length before)"
      using page(2) by (intro exI conjI) simp_all
  qed (simp add: inject_sdk_def Inr page(1))
qed (simp add: inject_sdk_def)

lemma copy_built_artifact_Inr:
  "copy_built_artifact io resolves max_bytes source = Some (Inr (bytes, st')) \<Longrightarrow>
     \<exists>st. copy_artifact_tree io \<lparr>el_max_files = - 1, el_max_file_bytes = max_bytes, el_max_tree_bytes = max_bytes\<rparr> source
            = Some (Inr st)
       \<and> wk_files st \<noteq> 0 \<and> bytes = wk_bytes st \<and> inject_sdk io st = Some (Inr st')"
proof -
  let ?walk = "copy_artifact_tree io \<lparr>el_max_files = - 1, el_max_file_bytes = max_bytes, el_max_tree_bytes = max_bytes\<rparr> source"
  assume run: "copy_built_artifact io resolves max_bytes source = Some (Inr (bytes, st'))"
  obtain r where walk: "?walk = Some r" using artifact_walk_ends by blast
  show ?thesis
    using run unfolding copy_built_artifact_def walk
    by (cases r) (auto simp: then_do_eq_Inr split: sum.splits if_splits)
qed

lemma copy_built_artifact_returns: "copy_built_artifact io resolves max_bytes source \<noteq> None"
proof -
  obtain r where r: "copy_artifact_tree io \<lparr>el_max_files = - 1, el_max_file_bytes = max_bytes, el_max_tree_bytes = max_bytes\<rparr>
      source = Some r"
    using artifact_walk_ends by blast
  show ?thesis using inject_sdk_page unfolding copy_built_artifact_def r by (auto split: sum.split)
qed


text \<open>An example: a site with a symlink-free tree, its dependencies folder left out.\<close>

definition sample_tree :: "fs_entry list" where
  "sample_tree =
     [(''.git'', FsDir [(''HEAD'', FsFile ''ref'' 1)]),
      (''package.json'', FsFile ''{}'' 1),
      (''node_modules'', FsDir [(''x'', FsSymlink ''/etc'')]),
      (''src'', FsDir [(''vibe.d.ts'', FsFile ''old'' 1), (''App.tsx'', FsFile ''app'' 1)])]"

definition sample_limits :: export_limits where
  "sample_limits = \<lparr>el_max_files = 2, el_max_file_bytes = 3, el_max_tree_bytes = 5\<rparr>"

lemma sample_inside: "inside_limits sample_limits sample_tree" by code_simp

lemma sample_files: "files_below source_chosen [] sample_tree = [(''package.json'', ''{}''), (''src/App.tsx'', ''app'')]"
  by code_simp

theorem source_export_exact_witness:
  "\<exists>st. copy_tree (\<lambda>_. None) sample_limits sample_tree = Some (Inr st)
     \<and> set (wk_copied st) = {(''package.json'', ''{}''), (''src/App.tsx'', ''app'')} \<and> unat (wk_files st) = 2"
proof -
  have "\<exists>st. copy_tree (\<lambda>_. None) sample_limits sample_tree = Some (Inr st)
      \<and> mset (wk_copied st) = mset (files_below source_chosen [] sample_tree)
      \<and> unat (wk_files st) = length (wk_copied st)"
    using source_export_exact [of "\<lambda>_. None" sample_limits sample_tree] sample_inside
    by (auto split: sum.splits) (metis obj_sumE)
  then obtain st where st: "copy_tree (\<lambda>_. None) sample_limits sample_tree = Some (Inr st)"
    "mset (wk_copied st) = mset [(''package.json'', ''{}''), (''src/App.tsx'', ''app'')]"
    "unat (wk_files st) = length (wk_copied st)"
    unfolding sample_files by blast
  show ?thesis
    using st(1,3) mset_eq_setD [OF st(2)] mset_eq_length [OF st(2)] by simp
qed

end
