(* ===== verification/Vibe_Sandbox_Props.thy ===== *)
theory Vibe_Sandbox_Props
  imports Vibe_Sandbox Vibe_Export_Props
begin

text \<open>What a build and a coding session leave behind in Docker and on disk.\<close>

definition rm_command :: "sandbox_config \<Rightarrow> string \<Rightarrow> string list \<times> string" where
  "rm_command config name = (docker_args config [''rm'', ''--force'', name], [])"

definition removed_last :: "sandbox_config \<Rightarrow> string \<Rightarrow> docker_log \<Rightarrow> bool" where
  "removed_last config name log \<longleftrightarrow> (\<exists>before. log = before @ [rm_command config name])"

lemma removed_last_force: "removed_last config name (snd (force_remove dk config name log))"
  by (simp add: removed_last_def rm_command_def force_remove_log)

definition cleanup_fails :: "docker \<Rightarrow> sandbox_config \<Rightarrow> string \<Rightarrow> docker_log \<Rightarrow> bool" where
  "cleanup_fails dk config name log' \<longleftrightarrow> (\<exists>e. fst (force_remove dk config name (butlast log')) = Inl e)"

lemma collect_build_returns:
  "\<exists>r log'. collect_build dk config io resolves max_bytes dist logged log = Some (r, log')
     \<and> (case r of
          Inl _ \<Rightarrow> True
        | Inr (out, artifact) \<Rightarrow> copy_built_artifact io resolves max_bytes dist = Some (Inr (bo_artifact_bytes out, artifact)))"
proof -
  obtain r where r: "copy_built_artifact io resolves max_bytes dist = Some r"
    using copy_built_artifact_returns by blast
  obtain available log1 where available: "check_available dk config log = (available, log1)"
    by (cases "check_available dk config log")
  show ?thesis
  proof (cases available)
    case (Inr image_id)
    then show ?thesis
      by (cases r) (auto simp: collect_build_def available r)
  qed (simp add: collect_build_def available)
qed

text \<open>What the build has left when it returns.\<close>

definition build_left ::
  "docker \<Rightarrow> sandbox_config \<Rightarrow> faults \<Rightarrow> (string \<Rightarrow> bool) \<Rightarrow> string \<Rightarrow> u64 \<Rightarrow> fs_entry list
     \<Rightarrow> (vibe_error + build_output) \<Rightarrow> walk option \<Rightarrow> docker_log \<Rightarrow> bool" where
  "build_left dk config io resolves job max_bytes dist r artifact log' \<longleftrightarrow>
     (case r of
        Inr out \<Rightarrow> \<exists>st. artifact = Some st
          \<and> copy_built_artifact io resolves max_bytes dist = Some (Inr (bo_artifact_bytes out, st))
          \<and> removed_last config (build_name job) log' \<and> \<not> cleanup_fails dk config (build_name job) log'
      | Inl _ \<Rightarrow> artifact = None \<or> cleanup_fails dk config (build_name job) log')"

definition returns_left ::
  "docker \<Rightarrow> sandbox_config \<Rightarrow> faults \<Rightarrow> (string \<Rightarrow> bool) \<Rightarrow> string \<Rightarrow> u64 \<Rightarrow> fs_entry list \<Rightarrow> build_result \<Rightarrow> bool" where
  "returns_left dk config io resolves job max_bytes dist res \<longleftrightarrow>
     (\<exists>r artifact log'. res = Some (r, artifact, log')
        \<and> build_left dk config io resolves job max_bytes dist r artifact log'
        \<and> removed_last config (build_name job) log')"

lemma abandon_left: "returns_left dk config io resolves job max_bytes dist (abandon_build dk config (build_name job) e log)"
  by (simp add: returns_left_def abandon_build_def build_left_def removed_last_force)

lemma finish_left:
  "returns_left dk config io resolves job max_bytes dist
     (finish_build dk config io resolves (build_name job) max_bytes dist logged log)"
proof -
  let ?name = "build_name job"
  obtain result log1 where collect: "collect_build dk config io resolves max_bytes dist logged log = Some (result, log1)"
    and result: "case result of
        Inl _ \<Rightarrow> True
      | Inr (out, artifact) \<Rightarrow> copy_built_artifact io resolves max_bytes dist = Some (Inr (bo_artifact_bytes out, artifact))"
    using collect_build_returns by blast
  obtain cleanup log2 where rm: "force_remove dk config ?name log1 = (cleanup, log2)"
    by (cases "force_remove dk config ?name log1")
  have log2: "log2 = log1 @ [rm_command config ?name]"
    using force_remove_log [of dk config ?name log1] rm by (simp add: rm_command_def)
  have fails: "cleanup_fails dk config ?name log2 \<longleftrightarrow> (\<exists>e. cleanup = Inl e)"
    by (simp add: cleanup_fails_def log2 rm)
  have last: "removed_last config ?name log2" by (auto simp: removed_last_def log2)
  have "build_left dk config io resolves job max_bytes dist (then_do cleanup (\<lambda>_. map_sum id fst result))
      (case result of Inl _ \<Rightarrow> None | Inr (_, artifact) \<Rightarrow> Some artifact) log2"
    using result last fails by (cases cleanup; cases result) (auto simp: build_left_def)
  then show ?thesis using last by (simp add: returns_left_def finish_build_def collect rm)
qed

lemma attach_left:
  "returns_left dk config io resolves job max_bytes dist
     (attach_build dk config io resolves (build_name job) max_bytes dist log)"
  by (simp add: attach_build_def abandon_left finish_left split: prod.split option.split sum.split)

lemma clean_build_with_bindings_left:
  "\<exists>r artifact log'. clean_build_with_bindings dk config io resolves job source max_bytes dist log = Some (r, artifact, log')
     \<and> build_left dk config io resolves job max_bytes dist r artifact log'
     \<and> (removed_last config (build_name job) log'
        \<or> (\<exists>message. dk_answer dk (length log + 1) (docker_args config (build_command config job source)) [] = Inl message))"
proof -
  let ?log1 = "snd (force_remove dk config (build_name job) log)"
  obtain created log2 where create: "run_docker dk config (build_command config job source) ?log1 = (created, log2)"
    by (cases "run_docker dk config (build_command config job source) ?log1")
  show ?thesis
  proof (cases created)
    case (Inl e)
    then have "\<exists>message. dk_answer dk (length log + 1) (docker_args config (build_command config job source)) [] = Inl message"
      using create by (auto simp: run_docker_def run_docker_with_def Let_def force_remove_log split: sum.splits)
    then show ?thesis by (simp add: clean_build_with_bindings_def create Inl build_left_def)
  next
    case (Inr out)
    have "returns_left dk config io resolves job max_bytes dist
        (clean_build_with_bindings dk config io resolves job source max_bytes dist log)"
      by (simp add: clean_build_with_bindings_def Let_def create Inr abandon_left attach_left split: sum.split)
    then show ?thesis unfolding returns_left_def by blast
  qed
qed


end
