(* ===== verification/Vibe_Coding.thy ===== *)
theory Vibe_Coding
  imports Vibe_Sandbox Api_Media Api_Tool
begin

text \<open>
  The tools of the coding agent: \<open>chudbot-vibe/src/coding.rs\<close>. Files are reached through the helper in the
  container, so a tool is a step on the container and the Docker log. Base64 and JSON text are parameters. The
  branches without a container, which only the unit tests take, are left out.
\<close>

datatype coding_tool_error =
    CodingInvalidPath string
  | CodingIo string
  | CodingInput string
  | CodingSandbox vibe_error

record coding_env =
  ce_docker :: docker
  ce_config :: sandbox_config
  ce_helper :: string
  ce_print :: "json \<Rightarrow> string"
  ce_parse :: "string \<Rightarrow> json option"
  ce_base64_decode :: "string \<Rightarrow> string option"
  ce_base64_encode :: "string \<Rightarrow> string"

definition READ_TOOL :: string where "READ_TOOL = ''read''"
definition EDIT_TOOL :: string where "EDIT_TOOL = ''edit''"
definition SHELL_TOOL :: string where "SHELL_TOOL = ''shell''"

definition MAX_READ_BYTES :: u64 where
  "MAX_READ_BYTES = 2 * 1024 * 1024"

section \<open>Input\<close>

definition input_string :: "client_tool_call \<Rightarrow> string \<Rightarrow> coding_tool_error + string" where
  "input_string call name =
     some_or (Option.bind (json_get (ctc_input call) name) json_as_str)
       (CodingInput (''`'' @ name @ ''` must be a string''))"

definition reserved_part :: "string \<Rightarrow> bool" where
  "reserved_part part \<longleftrightarrow> part = ''.git'' \<or> part = ''node_modules'' \<or> part = ''dist''"

definition push_component :: "string \<Rightarrow> string \<Rightarrow> path_component \<Rightarrow> coding_tool_error + string" where
  "push_component value path component =
     (case component of
        NormalComp part \<Rightarrow> if reserved_part part then Inl (CodingInvalidPath value) else Inr (path_join path part)
      | _ \<Rightarrow> Inl (CodingInvalidPath value))"

definition workspace_relative :: "string \<Rightarrow> coding_tool_error + string" where
  "workspace_relative value =
     (if value = [] \<or> CHR 0x5C \<in> set value \<or> CHR 0x00 \<in> set value then Inl (CodingInvalidPath value)
      else then_do
        (if is_absolute value
         then some_or (strip_components (path_components ''/workspace'') (path_components value)) (CodingInvalidPath value)
         else Inr (path_components value))
        (try_fold (push_component value) []))"

definition path_text :: "string \<Rightarrow> coding_tool_error + string" where
  "path_text path = (if utf8_valid path then Inr path else Inl (CodingInvalidPath (utf8_lossy path)))"

section \<open>Output\<close>

definition coding_output :: "json \<Rightarrow> bool \<Rightarrow> client_tool_output" where
  "coding_output value is_error =
     \<lparr>cto_result = ResultJson value, cto_media = [], cto_is_error = is_error, cto_trace_response = value, cto_usage = []\<rparr>"

definition json_index :: "json \<Rightarrow> string \<Rightarrow> json" where
  "json_index value key = (case json_get value key of None \<Rightarrow> JNull | Some v \<Rightarrow> v)"

definition ensure_file_tool_success :: "json \<Rightarrow> coding_tool_error + unit" where
  "ensure_file_tool_success response =
     require_that (json_index response ''ok'' = JBool True)
       (CodingInput (case json_as_str (json_index response ''error'') of
          Some message \<Rightarrow> message | None \<Rightarrow> ''workspace file operation failed''))"

definition image_mime :: "string \<Rightarrow> string option" where
  "image_mime path =
     (case path_extension path of
        None \<Rightarrow> None
      | Some ext \<Rightarrow>
          (let lower = to_ascii_lowercase ext in
           if \<not> utf8_valid ext then None
           else if lower = ''png'' then Some ''image/png''
           else if lower = ''jpg'' \<or> lower = ''jpeg'' then Some ''image/jpeg''
           else if lower = ''gif'' then Some ''image/gif''
           else if lower = ''webp'' then Some ''image/webp''
           else None))"

definition image_media :: "string \<Rightarrow> string \<Rightarrow> media_ref" where
  "image_media data mime =
     MediaRef \<lparr>mm_category = Image, mm_name = data, mm_uri = data, mm_mime_type = mime, mm_size_bytes = 0\<rparr>"

definition pad_left :: "nat \<Rightarrow> string \<Rightarrow> string" where
  "pad_left width s = replicate (width - char_count s) CHR '' '' @ s"

definition numbered_line :: "nat \<times> string \<Rightarrow> string" where
  "numbered_line e = pad_left 6 (dec_digits (fst e + 1)) @ '' | '' @ snd e"

definition line_range :: "usize \<Rightarrow> usize \<Rightarrow> string \<Rightarrow> (nat \<times> string) list" where
  "line_range start finish body =
     filter (\<lambda>e. unat start \<le> fst e + 1 \<and> fst e + 1 \<le> unat finish) (List.enumerate 0 (str_lines body))"

definition input_u64 :: "client_tool_call \<Rightarrow> string \<Rightarrow> u64 option" where
  "input_u64 call name = Option.bind (json_get (ctc_input call) name) json_as_u64"

definition read_start :: "client_tool_call \<Rightarrow> usize" where
  "read_start call = max (case input_u64 call ''startLine'' of None \<Rightarrow> 1 | Some n \<Rightarrow> n) 1"

definition read_end :: "client_tool_call \<Rightarrow> usize" where
  "read_end call =
     (case input_u64 call ''endLine'' of None \<Rightarrow> u64_saturating_add (read_start call) 399 | Some n \<Rightarrow> n)"

definition read_file_output ::
  "coding_env \<Rightarrow> client_tool_call \<Rightarrow> string \<Rightarrow> string \<Rightarrow> string \<Rightarrow> coding_tool_error + client_tool_output" where
  "read_file_output env call supplied relative bytes =
     (case image_mime relative of
        Some mime \<Rightarrow>
          Inr ((coding_output (json_object [(''path'', JString supplied), (''kind'', JString ''image'')]) False)
            \<lparr>cto_media := [image_media (''data:'' @ mime @ '';base64,'' @ ce_base64_encode env bytes) mime]\<rparr>)
      | None \<Rightarrow>
          then_do (require_that (utf8_valid bytes) (CodingInput ''file is not UTF-8 text'')) (\<lambda>_.
          then_do (require_that (\<not> read_end call < read_start call) (CodingInput ''endLine must be at least startLine'')) (\<lambda>_.
          Inr (coding_output (json_object
            [(''path'', JString supplied), (''startLine'', json_u64 (read_start call)), (''endLine'', json_u64 (read_end call)),
             (''text'', JString (str_join [NL]
                (map numbered_line (line_range (read_start call) (read_end call) bytes))))]) False))))"

section \<open>The tools\<close>

type_synonym 'a coding_step = "(coding_tool_error + 'a) \<times> coding_container \<times> docker_log"

definition file_tool ::
  "coding_env \<Rightarrow> json \<Rightarrow> (json \<Rightarrow> coding_tool_error + 'a) \<Rightarrow> coding_container \<Rightarrow> docker_log \<Rightarrow> 'a coding_step" where
  "file_tool env request answer container log =
     (case container_file_tool (ce_docker env) (ce_config env) (ce_helper env) (ce_print env) (ce_parse env)
             container request log of
        (Inl e, container, log) \<Rightarrow> (Inl (CodingSandbox e), container, log)
      | (Inr response, container, log) \<Rightarrow>
          (then_do (ensure_file_tool_success response) (\<lambda>_. answer response), container, log))"

definition read_request :: "string \<Rightarrow> json" where
  "read_request path =
     json_object [(''operation'', JString ''read''), (''path'', JString path), (''maxBytes'', json_u64 MAX_READ_BYTES)]"

definition read_answer :: "coding_env \<Rightarrow> client_tool_call \<Rightarrow> string \<Rightarrow> string \<Rightarrow> json \<Rightarrow> coding_tool_error + client_tool_output" where
  "read_answer env call supplied relative response =
     (if json_index response ''kind'' = JString ''directory''
      then Inr (coding_output (json_object [(''entries'', json_index response ''entries'')]) False)
      else
        then_do (some_or (json_as_str (json_index response ''data'')) (CodingInput ''read returned no file data'')) (\<lambda>encoded.
        then_do (some_or (ce_base64_decode env encoded) (CodingInput ''read returned invalid file data'')) (\<lambda>bytes.
        read_file_output env call supplied relative bytes)))"

definition coding_read :: "coding_env \<Rightarrow> client_tool_call \<Rightarrow> coding_container \<Rightarrow> docker_log \<Rightarrow> client_tool_output coding_step" where
  "coding_read env call container log =
     (case then_do (input_string call ''path'') (\<lambda>supplied.
             then_do (workspace_relative supplied) (\<lambda>relative.
             then_do (path_text relative) (\<lambda>path. Inr (supplied, relative, path)))) of
        Inl e \<Rightarrow> (Inl e, container, log)
      | Inr (supplied, relative, path) \<Rightarrow>
          file_tool env (read_request path) (read_answer env call supplied relative) container log)"

definition edit_request :: "client_tool_call \<Rightarrow> string \<Rightarrow> string \<Rightarrow> coding_tool_error + json" where
  "edit_request call operation relative =
     (if operation = ''create'' then
        then_do (path_text relative) (\<lambda>path.
        then_do (input_string call ''content'') (\<lambda>content.
        Inr (json_object [(''operation'', JString operation), (''path'', JString path), (''content'', JString content)])))
      else if operation = ''delete'' then
        then_do (path_text relative) (\<lambda>path.
        Inr (json_object [(''operation'', JString operation), (''path'', JString path)]))
      else if operation = ''replace'' then
        then_do (path_text relative) (\<lambda>path.
        then_do (input_string call ''old'') (\<lambda>old.
        then_do (input_string call ''new'') (\<lambda>new.
        Inr (json_object [(''operation'', JString operation), (''path'', JString path),
          (''old'', JString old), (''new'', JString new)]))))
      else Inl (CodingInput (''unknown edit operation `'' @ operation @ ''`'')))"

definition edit_answer :: "string \<Rightarrow> json \<Rightarrow> coding_tool_error + client_tool_output" where
  "edit_answer supplied response =
     Inr (coding_output (json_object [(''ok'', JBool True), (''path'', JString supplied)]) False)"

definition coding_edit :: "coding_env \<Rightarrow> client_tool_call \<Rightarrow> coding_container \<Rightarrow> docker_log \<Rightarrow> client_tool_output coding_step" where
  "coding_edit env call container log =
     (case then_do (input_string call ''path'') (\<lambda>supplied.
             then_do (workspace_relative supplied) (\<lambda>relative.
             then_do (require_that (relative \<noteq> []) (CodingInvalidPath supplied)) (\<lambda>_.
             then_do (input_string call ''operation'') (\<lambda>operation.
             then_do (edit_request call operation relative) (\<lambda>request. Inr (supplied, request)))))) of
        Inl e \<Rightarrow> (Inl e, container, log)
      | Inr (supplied, request) \<Rightarrow> file_tool env request (edit_answer supplied) container log)"

definition json_exit_code :: "int option \<Rightarrow> json" where
  "json_exit_code code = (case code of None \<Rightarrow> JNull | Some n \<Rightarrow> JNumber (dec_int n))"

definition shell_output :: "sandbox_command_output \<Rightarrow> client_tool_output" where
  "shell_output result =
     coding_output (json_object
       [(''stdout'', JString (sc_stdout result)), (''stderr'', JString (sc_stderr result)),
        (''exitCode'', json_exit_code (sc_exit_code result)), (''timedOut'', JBool (sc_timed_out result)),
        (''truncated'', JBool (sc_truncated result))])
       (sc_timed_out result \<or> sc_exit_code result \<noteq> Some 0)"

definition coding_shell :: "coding_env \<Rightarrow> client_tool_call \<Rightarrow> coding_container \<Rightarrow> docker_log \<Rightarrow> client_tool_output coding_step" where
  "coding_shell env call container log =
     (case input_string call ''command'' of
        Inl e \<Rightarrow> (Inl e, container, log)
      | Inr command \<Rightarrow>
          (case container_shell (ce_docker env) (ce_config env) container command log of
             (Inl e, container, log) \<Rightarrow> (Inl (CodingSandbox e), container, log)
           | (Inr result, container, log) \<Rightarrow> (Inr (shell_output result), container, log)))"

definition coding_execute ::
  "coding_env \<Rightarrow> client_tool_call \<Rightarrow> coding_container \<Rightarrow> docker_log
     \<Rightarrow> (coding_tool_error client_tool_executor_error + client_tool_output) \<times> coding_container \<times> docker_log" where
  "coding_execute env call container log =
     (if ctc_name call \<notin> {READ_TOOL, EDIT_TOOL, SHELL_TOOL} then (Inl (UnknownTool (ctc_name call)), container, log)
      else apfst (map_sum Execution id)
        (if ctc_name call = READ_TOOL then coding_read env call container log
         else if ctc_name call = EDIT_TOOL then coding_edit env call container log
         else coding_shell env call container log))"

definition required_field :: "string \<Rightarrow> tool_input_value_schema \<Rightarrow> tool_input_field" where
  "required_field name schema = \<lparr>tif_name = name, tif_schema = schema, tif_required = True\<rparr>"

definition optional_field :: "string \<Rightarrow> tool_input_value_schema \<Rightarrow> tool_input_field" where
  "optional_field name schema = \<lparr>tif_name = name, tif_schema = schema, tif_required = False\<rparr>"

definition string_schema :: tool_input_value_schema where
  "string_schema = value_schema_new (Typed StringType None)"

definition line_schema :: tool_input_value_schema where
  "line_schema = ToolInputValueSchema (Typed IntegerType None) None [] None (Some (JNumber ''1'')) None None None None None None"

definition read_spec :: client_tool_spec where
  "read_spec =
     \<lparr>cts_description = ''Read a UTF-8 file with numbered lines, inspect an image, or list a directory. Paths may be relative to /workspace or begin with /workspace/.'',
      cts_input_schema = schema_object
        [required_field ''path'' string_schema, optional_field ''startLine'' line_schema, optional_field ''endLine'' line_schema]\<rparr>"

definition operation_schema :: tool_input_value_schema where
  "operation_schema =
     ToolInputValueSchema (Typed StringType None) None [''create'', ''delete'', ''replace''] None None None None None None None None"

definition edit_spec :: client_tool_spec where
  "edit_spec =
     \<lparr>cts_description = ''Create or delete a file, or replace one exact unique string. Paths may be relative to /workspace or begin with /workspace/. Reread after a missing or ambiguous match.'',
      cts_input_schema = schema_object
        [required_field ''path'' string_schema, required_field ''operation'' operation_schema,
         optional_field ''content'' string_schema, optional_field ''old'' string_schema, optional_field ''new'' string_schema]\<rparr>"

definition shell_spec :: client_tool_spec where
  "shell_spec =
     \<lparr>cts_description = ''Run one non-interactive /bin/bash -lc command inside the coding container. Output and runtime are bounded.'',
      cts_input_schema = schema_object [required_field ''command'' string_schema]\<rparr>"

definition coding_tools :: "client_tool_definition list" where
  "coding_tools =
     [\<lparr>ctd_name = READ_TOOL, ctd_spec = read_spec\<rparr>, \<lparr>ctd_name = EDIT_TOOL, ctd_spec = edit_spec\<rparr>,
      \<lparr>ctd_name = SHELL_TOOL, ctd_spec = shell_spec\<rparr>]"

end
