(* ===== verification/Vibe_Coding_Props.thy ===== *)
theory Vibe_Coding_Props
  imports Vibe_Coding Vibe_Sandbox_Props
begin

text \<open>What the coding tools can reach: every path they send to the container stays in the workspace.\<close>

definition workspace_path :: "string \<Rightarrow> bool" where
  "workspace_path path \<longleftrightarrow>
     path = [] \<or> list_all (\<lambda>seg. plain_name seg \<and> \<not> reserved_part seg) (str_split CHR ''/'' path)"

lemma workspace_path_plain: "workspace_path path \<Longrightarrow> path = [] \<or> plain_path path"
  by (auto simp: workspace_path_def plain_path_def list_all_iff)

lemma push_component_Inr:
  assumes "push_component value path component = Inr path'" and "workspace_path path"
    and "\<And>seg. component = NormalComp seg \<Longrightarrow> plain_name seg"
  shows "workspace_path path'"
proof -
  obtain part where part: "component = NormalComp part" "\<not> reserved_part part" "path' = path_join path part"
    using assms(1) by (auto simp: push_component_def split: path_component.splits if_splits)
  then show ?thesis
    using path_join_push(1) [OF workspace_path_plain [OF assms(2)] assms(3)] assms(2,3)
    by (auto simp: workspace_path_def)
qed

lemma push_components_Inr:
  "try_fold (push_component value) path comps = Inr path' \<Longrightarrow> workspace_path path \<Longrightarrow>
     (\<And>seg. NormalComp seg \<in> set comps \<Longrightarrow> plain_name seg) \<Longrightarrow> workspace_path path'"
proof (induction comps arbitrary: path)
  case (Cons c comps)
  obtain path1 where step: "push_component value path c = Inr path1" "try_fold (push_component value) path1 comps = Inr path'"
    using Cons.prems(1) by (auto split: sum.splits)
  have "workspace_path path1"
    using push_component_Inr [OF step(1) Cons.prems(2)] Cons.prems(3) by auto
  then show ?case using Cons.IH [OF step(2)] Cons.prems(3) by simp
qed simp

lemma strip_components_subset: "strip_components ps cs = Some ds \<Longrightarrow> set ds \<subseteq> set cs"
  by (induction ps cs rule: strip_components.induct) (auto split: if_splits)

lemma workspace_relative_confined:
  assumes "workspace_relative value = Inr path"
  shows "workspace_path path"
proof -
  have "\<exists>comps. set comps \<subseteq> set (path_components value) \<and> try_fold (push_component value) [] comps = Inr path"
  proof (cases "is_absolute value")
    case True
    then obtain comps where "strip_components (path_components ''/workspace'') (path_components value) = Some comps"
      "try_fold (push_component value) [] comps = Inr path"
      using assms by (auto simp: workspace_relative_def then_do_eq_Inr split: if_splits)
    then show ?thesis using strip_components_subset by blast
  next
    case False
    then show ?thesis using assms by (auto simp: workspace_relative_def then_do_eq_Inr split: if_splits)
  qed
  then obtain comps where comps: "set comps \<subseteq> set (path_components value)" "try_fold (push_component value) [] comps = Inr path"
    by blast
  then show ?thesis
    using push_components_Inr [OF comps(2)] component_plain by (auto simp: workspace_path_def)
qed

section \<open>What a tool sends to the container\<close>

definition confined_request :: "coding_env \<Rightarrow> string \<Rightarrow> bool" where
  "confined_request env stdin \<longleftrightarrow>
     (\<exists>request path. stdin = ce_print env request \<and> json_get request ''path'' = Some (JString path) \<and> workspace_path path)"

definition extends_log :: "docker_log \<Rightarrow> docker_log \<Rightarrow> (string \<Rightarrow> bool) \<Rightarrow> bool" where
  "extends_log log log' ok \<longleftrightarrow> (\<exists>added. log' = log @ added \<and> list_all (\<lambda>e. snd e = [] \<or> ok (snd e)) added)"

lemma extends_log_refl: "extends_log log log ok"
  by (simp add: extends_log_def)

lemma extends_log_add: "extends_log log log1 ok \<Longrightarrow> snd e = [] \<or> ok (snd e) \<Longrightarrow> extends_log log (log1 @ [e]) ok"
  by (auto simp: extends_log_def)

lemma force_remove_extends: "extends_log log log1 ok \<Longrightarrow> extends_log log (snd (force_remove dk config name log1)) ok"
  by (simp add: force_remove_log extends_log_add)

lemma docker_timeout_extends:
  "run_docker_timeout dk config args stdin log = (r, log1) \<Longrightarrow> stdin = [] \<or> ok stdin \<Longrightarrow> extends_log log log1 ok"
  using run_docker_timeout_log [of dk config args stdin log] by (simp add: extends_log_add extends_log_refl)

lemma container_shell_extends: "extends_log log (snd (snd (container_shell dk config container command log))) ok"
proof -
  obtain r log1 where run: "run_docker_timeout dk config [''exec'', co_name container, ''/bin/bash'', ''-lc'', command] [] log = (r, log1)"
    by (cases "run_docker_timeout dk config [''exec'', co_name container, ''/bin/bash'', ''-lc'', command] [] log")
  have first: "extends_log log log1 ok" by (rule docker_timeout_extends [OF run]) simp
  then show ?thesis
    using force_remove_extends [OF first, of dk config "co_name container"]
    by (auto simp: container_shell_def run split: option.split sum.split prod.split)
qed

lemma container_file_tool_extends:
  assumes "ok (print request)"
  shows "extends_log log (snd (snd (container_file_tool dk config helper print parse container request log))) ok"
proof -
  let ?args = "[''exec'', ''--interactive'', co_name container, ''/usr/local/bin/node'', ''--input-type=module'', ''--eval'', helper]"
  obtain r log1 where run: "run_docker_timeout dk config ?args (print request) log = (r, log1)"
    by (cases "run_docker_timeout dk config ?args (print request) log")
  have first: "extends_log log log1 ok" by (rule docker_timeout_extends [OF run]) (simp add: assms)
  then show ?thesis
    using force_remove_extends [OF first, of dk config "co_name container"]
    by (auto simp: container_file_tool_def run extends_log_refl split: option.split sum.split prod.split)
qed

lemma file_tool_extends:
  assumes "confined_request env (ce_print env request)"
  shows "extends_log log (snd (snd (file_tool env request answer container log))) (confined_request env)"
  using container_file_tool_extends [of "confined_request env" "ce_print env" request log "ce_docker env" "ce_config env"
      "ce_helper env" "ce_parse env" container] assms
  by (auto simp: file_tool_def split: prod.split sum.split)

lemma path_text_Inr [simp]: "path_text path = Inr p \<longleftrightarrow> utf8_valid path \<and> p = path"
  by (auto simp: path_text_def)

lemma request_confined:
  assumes "workspace_path path" and "json_get request ''path'' = Some (JString path)"
  shows "confined_request env (ce_print env request)"
  using assms unfolding confined_request_def by blast

lemma coding_read_extends: "extends_log log (snd (snd (coding_read env call container log))) (confined_request env)"
proof -
  have "confined_request env (ce_print env (read_request path))" if "workspace_relative supplied = Inr path" for supplied path
    by (rule request_confined [OF workspace_relative_confined [OF that]]) (simp add: read_request_def json_get_object)
  then show ?thesis
    unfolding coding_read_def
    by (auto simp: then_do_eq_Inr extends_log_refl split: sum.split intro!: file_tool_extends)
qed

lemma edit_request_path: "edit_request call operation path = Inr request \<Longrightarrow> json_get request ''path'' = Some (JString path)"
  by (auto simp: edit_request_def then_do_eq_Inr json_get_object split: if_splits)

lemma coding_edit_extends: "extends_log log (snd (snd (coding_edit env call container log))) (confined_request env)"
proof -
  have "confined_request env (ce_print env request)"
    if "workspace_relative supplied = Inr path" "edit_request call operation path = Inr request" for supplied path operation request
    by (rule request_confined [OF workspace_relative_confined [OF that(1)] edit_request_path [OF that(2)]])
  then show ?thesis
    unfolding coding_edit_def
    by (auto simp: then_do_eq_Inr extends_log_refl split: sum.split intro!: file_tool_extends)
qed

lemma coding_shell_extends: "extends_log log (snd (snd (coding_shell env call container log))) ok"
  using container_shell_extends [of log "ce_docker env" "ce_config env" container]
  by (auto simp: coding_shell_def extends_log_refl split: sum.split prod.split) (metis snd_conv)+

text \<open>
  C38: Whatever path the model gives the read and edit tools, the container is only asked about paths inside the
  workspace: every request that is written to the file helper names a path of plain segments, without a parent
  step, an absolute start, or a \<open>.git\<close>, \<open>node_modules\<close> or \<open>dist\<close> segment. Every other command gets no input.
\<close>

theorem coding_paths_confined:
  "\<exists>added. snd (snd (coding_execute env call container log)) = log @ added
     \<and> list_all (\<lambda>e. snd e = []
         \<or> (\<exists>request path. snd e = ce_print env request \<and> json_get request ''path'' = Some (JString path)
              \<and> workspace_path path)) added"
proof -
  have "extends_log log (snd (snd (coding_execute env call container log))) (confined_request env)"
    using coding_read_extends coding_edit_extends coding_shell_extends extends_log_refl
    by (auto simp: coding_execute_def apfst_def map_prod_def split_beta)
  then show ?thesis by (simp add: extends_log_def confined_request_def)
qed

end
