(* ===== verification/Vibe_Git.thy ===== *)
theory Vibe_Git
  imports Vibe_Sandbox
begin

text \<open>
  The source store of Vibe sites: \<open>chudbot-vibe/src/git.rs\<close>. Git is a parameter: what the n-th command answers.
  An operation records its commands, each with the index file it is given.
\<close>

section \<open>Paths\<close>

record vibe_disk_store =
  ds_root :: string
  ds_template :: string

definition repo_path :: "vibe_disk_store \<Rightarrow> string \<Rightarrow> string" where
  "repo_path store site = path_join (path_join (ds_root store) ''repos'') (site @ ''.git'')"

definition workspace_dir :: "vibe_disk_store \<Rightarrow> string \<Rightarrow> string" where
  "workspace_dir store job = path_join (path_join (ds_root store) ''workspaces'') job"

definition artifact_path :: "vibe_disk_store \<Rightarrow> string \<Rightarrow> string \<Rightarrow> string" where
  "artifact_path store site revision = path_join (path_join (path_join (ds_root store) ''artifacts'') site) revision"

definition source_path_is_visible :: "string \<Rightarrow> bool" where
  "source_path_is_visible path \<longleftrightarrow>
     path \<noteq> SDK_TYPESCRIPT_PATH
     \<and> \<not> list_ex (\<lambda>segment. segment = ''node_modules'' \<or> segment = ''dist'') (str_split CHR ''/'' path)
     \<and> \<not> ends_with (last (str_split CHR ''/'' path)) ''.tsbuildinfo''"

definition is_ascii_hexdigit :: "char \<Rightarrow> bool" where
  "is_ascii_hexdigit c \<longleftrightarrow>
     is_ascii_digit c \<or> (let n = of_char c :: nat in 65 \<le> n \<and> n \<le> 70 \<or> 97 \<le> n \<and> n \<le> 102)"

definition validate_oid :: "string \<Rightarrow> vibe_error + unit" where
  "validate_oid oid =
     require_that (40 \<le> length oid \<and> length oid \<le> 64 \<and> list_all is_ascii_hexdigit oid)
       (GitError ''validate'' ''invalid object id'')"

section \<open>Commands\<close>

record git_command =
  gc_git_dir :: string
  gc_work_tree :: "string option"
  gc_env :: "(string \<times> string) list"
  gc_args :: "string list"

type_synonym git = "nat \<Rightarrow> git_command \<Rightarrow> string + process_output"
type_synonym git_log = "git_command list"
type_synonym 'a git_step = "(vibe_error + 'a) \<times> git_log"

definition ensure_git :: "process_output \<Rightarrow> string \<Rightarrow> vibe_error + string" where
  "ensure_git output operation =
     (if po_success output
      then (if utf8_valid (po_stdout output) then Inr (po_stdout output)
            else Inl (GitError operation ''git returned non-UTF-8 output''))
      else Inl (GitError operation (take_chars 2000 (utf8_lossy (po_stderr output)))))"

definition run_git :: "git \<Rightarrow> git_command \<Rightarrow> git_log \<Rightarrow> process_output git_step" where
  "run_git git command log =
     (case git (length log) command of Inl message \<Rightarrow> Inl (VibeIo message) | Inr output \<Rightarrow> Inr output, log @ [command])"

definition git_then :: "'a git_step \<Rightarrow> ('a \<Rightarrow> git_log \<Rightarrow> 'b git_step) \<Rightarrow> 'b git_step" where
  "git_then step f = (case step of (Inl e, log) \<Rightarrow> (Inl e, log) | (Inr x, log) \<Rightarrow> f x log)"

definition git_return :: "(vibe_error + 'a) \<Rightarrow> git_log \<Rightarrow> 'a git_step" where
  "git_return r log = (r, log)"

definition git_text :: "git \<Rightarrow> git_command \<Rightarrow> string \<Rightarrow> git_log \<Rightarrow> string git_step" where
  "git_text git command operation log =
     git_then (run_git git command log) (\<lambda>output. git_return (ensure_git output operation))"

definition git_in :: "string \<Rightarrow> string option \<Rightarrow> string list \<Rightarrow> git_command" where
  "git_in repo work args = \<lparr>gc_git_dir = repo, gc_work_tree = work, gc_env = [], gc_args = args\<rparr>"

definition git_with_index :: "string \<Rightarrow> string \<Rightarrow> string \<Rightarrow> string list \<Rightarrow> git_command" where
  "git_with_index repo work index args =
     \<lparr>gc_git_dir = repo, gc_work_tree = Some work, gc_env = [(''GIT_INDEX_FILE'', index)], gc_args = args\<rparr>"

definition checked_oid :: "string \<Rightarrow> git_log \<Rightarrow> string git_step" where
  "checked_oid oid = git_return (then_do (validate_oid oid) (\<lambda>_. Inr oid))"

section \<open>Reading a commit\<close>

definition list_files :: "git \<Rightarrow> vibe_disk_store \<Rightarrow> string \<Rightarrow> string \<Rightarrow> git_log \<Rightarrow> string list git_step" where
  "list_files git store site oid log =
     git_then (checked_oid oid log) (\<lambda>_ log.
     git_then (git_text git (git_in (repo_path store site) None [''ls-tree'', ''-r'', ''--name-only'', oid, ''--'']) ''ls-tree'' log)
       (\<lambda>output. git_return (Inr (filter source_path_is_visible (str_lines output)))))"

definition read_source_file :: "git \<Rightarrow> vibe_disk_store \<Rightarrow> string \<Rightarrow> string \<Rightarrow> string \<Rightarrow> git_log \<Rightarrow> string git_step" where
  "read_source_file git store site oid path log =
     git_then (checked_oid oid log) (\<lambda>_ log.
     git_then (git_return (validate_relative_path path) log) (\<lambda>_ log.
     if \<not> source_path_is_visible path then (Inl (InvalidPath path), log)
     else git_then (git_text git (git_in (repo_path store site) None [''show'', oid @ '':'' @ path]) ''show'' log)
       (\<lambda>output. git_return (Inr (take_chars (1024 * 1024) output)))))"

definition diff_args :: "string \<Rightarrow> string \<Rightarrow> string list" where
  "diff_args from_oid to_oid =
     [''diff'', ''--no-ext-diff'', ''--no-textconv'', from_oid, to_oid, ''--'', ''.'',
      '':(glob,exclude)**/node_modules/**'', '':(glob,exclude)**/dist/**'',
      '':(glob,exclude)**/*.tsbuildinfo'', '':(exclude)src/vibe.d.ts'']"

definition diff_commits :: "git \<Rightarrow> vibe_disk_store \<Rightarrow> string \<Rightarrow> string \<Rightarrow> string \<Rightarrow> git_log \<Rightarrow> string git_step" where
  "diff_commits git store site from_oid to_oid log =
     git_then (checked_oid from_oid log) (\<lambda>_ log.
     git_then (checked_oid to_oid log) (\<lambda>_ log.
     git_then (git_text git (git_in (repo_path store site) None (diff_args from_oid to_oid)) ''diff'' log)
       (\<lambda>output. git_return (Inr (take_chars (2 * 1024 * 1024) output)))))"

definition commit_tree_oid :: "git \<Rightarrow> vibe_disk_store \<Rightarrow> string \<Rightarrow> string \<Rightarrow> git_log \<Rightarrow> string git_step" where
  "commit_tree_oid git store site commit log =
     git_then (checked_oid commit log) (\<lambda>_ log.
     git_then (git_text git (git_in (repo_path store site) None [''rev-parse'', commit @ ''^{tree}'']) ''rev-parse'' log)
       (\<lambda>tree. checked_oid (str_trim tree)))"

definition activate_main :: "git \<Rightarrow> vibe_disk_store \<Rightarrow> string \<Rightarrow> string \<Rightarrow> git_log \<Rightarrow> unit git_step" where
  "activate_main git store site oid log =
     git_then (checked_oid oid log) (\<lambda>_ log.
     git_then (git_text git (git_in (repo_path store site) None [''update-ref'', ''refs/heads/main'', oid]) ''update-ref'' log)
       (\<lambda>_. git_return (Inr ())))"

definition main_oid :: "git \<Rightarrow> vibe_disk_store \<Rightarrow> string \<Rightarrow> git_log \<Rightarrow> string option git_step" where
  "main_oid git store site log =
     git_then (run_git git (git_in (repo_path store site) None [''rev-parse'', ''--verify'', ''refs/heads/main'']) log)
       (\<lambda>output log.
          if \<not> po_success output then (Inr None, log)
          else if \<not> utf8_valid (po_stdout output) then (Inl (GitError ''rev-parse'' ''git returned non-UTF-8 output''), log)
          else git_then (checked_oid (str_trim (po_stdout output)) log) (\<lambda>oid. git_return (Inr (Some oid))))"

section \<open>Committing\<close>

text \<open>\<open>index\<close> is the fresh index file; \<open>known\<close> says whether the repository is there already.\<close>

definition ensure_repository :: "git \<Rightarrow> vibe_disk_store \<Rightarrow> bool \<Rightarrow> string \<Rightarrow> git_log \<Rightarrow> unit git_step" where
  "ensure_repository git store known site log =
     (if known then (Inr (), log)
      else git_then (git_text git (git_in [] None
              [''init'', ''--bare'', ''--initial-branch=main'', repo_path store site]) ''init'' log)
            (\<lambda>_. git_return (Inr ())))"

definition write_tree :: "git \<Rightarrow> string \<Rightarrow> string \<Rightarrow> string \<Rightarrow> git_log \<Rightarrow> string git_step" where
  "write_tree git repo source index log =
     git_then (git_text git (git_with_index repo source index [''add'', ''--all'', ''--'', ''.'']) ''add'' log) (\<lambda>_ log.
     git_then (git_text git (git_with_index repo source index [''write-tree'']) ''write-tree'' log)
       (\<lambda>tree. checked_oid (str_trim tree)))"

definition source_tree_oid :: "git \<Rightarrow> vibe_disk_store \<Rightarrow> bool \<Rightarrow> string \<Rightarrow> string \<Rightarrow> string \<Rightarrow> git_log \<Rightarrow> string git_step" where
  "source_tree_oid git store known site source index log =
     git_then (ensure_repository git store known site log)
       (\<lambda>_. write_tree git (repo_path store site) source index)"

definition read_parent :: "git \<Rightarrow> string \<Rightarrow> string \<Rightarrow> string \<Rightarrow> string option \<Rightarrow> git_log \<Rightarrow> unit git_step" where
  "read_parent git repo source index parent log =
     (case parent of
        None \<Rightarrow> (Inr (), log)
      | Some oid \<Rightarrow>
          git_then (git_text git (git_with_index repo source index [''read-tree'', oid]) ''read-tree'' log)
            (\<lambda>_. git_return (Inr ())))"

definition commit_tree_args :: "string \<Rightarrow> string option \<Rightarrow> string \<Rightarrow> string list" where
  "commit_tree_args tree parent message =
     [''commit-tree'', tree] @ (case parent of None \<Rightarrow> [] | Some oid \<Rightarrow> [''-p'', oid]) @ [''-m'', message]"

definition author_env :: "string \<Rightarrow> (string \<times> string) list" where
  "author_env user_id =
     [(''GIT_AUTHOR_NAME'', ''Discord user''), (''GIT_AUTHOR_EMAIL'', user_id @ ''@users.noreply.discord.invalid''),
      (''GIT_COMMITTER_NAME'', ''Chudbot''), (''GIT_COMMITTER_EMAIL'', ''chudbot@localhost.invalid'')]"

definition commit_tree ::
  "git \<Rightarrow> vibe_disk_store \<Rightarrow> bool \<Rightarrow> string \<Rightarrow> string \<Rightarrow> string \<Rightarrow> string option \<Rightarrow> string \<Rightarrow> string \<Rightarrow> git_log \<Rightarrow> string git_step" where
  "commit_tree git store known site source index parent user_id message log =
     (let repo = repo_path store site in
      git_then (ensure_repository git store known site log) (\<lambda>_ log.
      git_then (case parent of None \<Rightarrow> (Inr (), log) | Some oid \<Rightarrow> git_return (validate_oid oid) log) (\<lambda>_ log.
      git_then (read_parent git repo source index parent log) (\<lambda>_ log.
      git_then (write_tree git repo source index log) (\<lambda>tree log.
      git_then (git_text git ((git_in repo (Some source) (commit_tree_args tree parent message))\<lparr>gc_env := author_env user_id\<rparr>) ''commit-tree'' log)
        (\<lambda>oid. checked_oid (str_trim oid)))))))"

section \<open>The ignore file\<close>

definition GENERATED_GITIGNORE_RULES :: "string list" where
  "GENERATED_GITIGNORE_RULES = [''node_modules/'', ''dist/'', ''*.tsbuildinfo'']"

definition has_rule :: "string \<Rightarrow> string \<Rightarrow> bool" where
  "has_rule contents rule \<longleftrightarrow> list_ex (\<lambda>line. str_trim line = rule) (str_lines contents)"

definition generated_gitignore :: "string \<Rightarrow> string" where
  "generated_gitignore contents =
     (let missing = filter (\<lambda>rule. \<not> has_rule contents rule) GENERATED_GITIGNORE_RULES in
      if missing = [] then contents
      else (if contents \<noteq> [] \<and> last contents \<noteq> NL then contents @ [NL] else contents)
           @ concat (map (\<lambda>rule. rule @ [NL]) missing))"

section \<open>The rules are there\<close>

lemma str_lines_split: "last a = NL \<or> a = [] \<Longrightarrow> str_lines (a @ b) = str_lines a @ str_lines b"
proof (induction "length a" arbitrary: a rule: less_induct)
  case less
  show ?case
  proof (cases "a = []")
    case False
    then have "NL \<in> set a" using less.prems by (metis last_in_set)
    then obtain line rest where a: "a = line @ NL # rest" "NL \<notin> set line" by (meson split_list_first)
    have "last rest = NL \<or> rest = []" using less.prems a(1) by (cases rest) auto
    then have "str_lines (rest @ b) = str_lines rest @ str_lines b"
      using less.hyps [of rest] a(1) by simp
    then show ?thesis using a by (simp add: str_lines_Cons)
  qed simp
qed

lemma str_lines_last: "a \<noteq> [] \<Longrightarrow> NL \<notin> set a \<Longrightarrow> str_lines a = [a]"
  by (simp add: str_lines.simps split_once_def)

lemma leading_CR_only:
  assumes "[CR] \<in> set ws" and only: "list_all (\<lambda>w. w \<noteq> [] \<and> (hd w = CR \<longrightarrow> w = [CR])) ws"
  shows "leading_space ws (CR # s) = 1"
proof (cases "List.find (starts_with (CR # s)) ws")
  case None
  then have "\<not> starts_with (CR # s) [CR]" using assms(1) by (auto simp: find_None_iff)
  then show ?thesis by (simp add: starts_with_def)
next
  case (Some w)
  then have w: "w \<in> set ws" "starts_with (CR # s) w" by (auto simp: find_Some_iff)
  then have "w \<noteq> []" "hd w = CR \<longrightarrow> w = [CR]" using only by (auto simp: list_all_iff)
  moreover have "hd w = CR" using w(2) \<open>w \<noteq> []\<close> by (cases w) (auto simp: starts_with_iff)
  ultimately show ?thesis using Some by (simp add: leading_space_def)
qed

lemma leading_CR: "leading_space (map rev utf8_spaces) (CR # s) = 1"
proof (rule leading_CR_only)
  show "[CR] \<in> set (map rev utf8_spaces)" by code_simp
  show "list_all (\<lambda>w. w \<noteq> [] \<and> (hd w = CR \<longrightarrow> w = [CR])) (map rev utf8_spaces)" by code_simp
qed

lemma trim_end_CR: "trim_end (s @ [CR]) = trim_end s"
  by (simp add: trim_end_def trim_with.simps [of _ "CR # rev s"] leading_CR)

lemma no_inner_CR: "w \<in> set utf8_spaces \<Longrightarrow> CR \<in> set w \<Longrightarrow> w = [CR]"
proof -
  have "list_all (\<lambda>w. CR \<in> set w \<longrightarrow> w = [CR]) utf8_spaces" by code_simp
  then show "w \<in> set utf8_spaces \<Longrightarrow> CR \<in> set w \<Longrightarrow> w = [CR]" by (auto simp: list_all_iff)
qed

lemma leading_space_snoc: "s \<noteq> [] \<Longrightarrow> leading_space utf8_spaces (s @ [CR]) = leading_space utf8_spaces s"
proof -
  assume "s \<noteq> []"
  have "starts_with (s @ [CR]) w = starts_with s w" if w: "w \<in> set utf8_spaces" for w
  proof
    assume "starts_with (s @ [CR]) w"
    then obtain r where r: "s @ [CR] = w @ r" by (auto simp: starts_with_iff)
    show "starts_with s w"
    proof (cases r rule: rev_cases)
      case Nil
      then have "CR \<in> set w" using r by (metis append_Nil2 in_set_conv_decomp)
      then show ?thesis using no_inner_CR [OF w] r Nil \<open>s \<noteq> []\<close> by simp
    next
      case (snoc r' c)
      then show ?thesis using r by (auto simp: starts_with_iff)
    qed
  qed (auto simp: starts_with_iff)
  then have "List.find (starts_with (s @ [CR])) utf8_spaces = List.find (starts_with s) utf8_spaces"
    by (intro find_cong) auto
  then show ?thesis by (simp add: leading_space_def)
qed

lemma leading_CR_start: "leading_space utf8_spaces [CR] = 1"
  by code_simp

lemma leading_space_len: "leading_space ws s \<le> length s"
  by (auto simp: leading_space_def find_Some_iff starts_with_iff split: option.split)

lemma trim_start_CR:
  "trim_with utf8_spaces (s @ [CR]) = trim_with utf8_spaces s @ [CR]
   \<or> trim_with utf8_spaces s = [] \<and> trim_with utf8_spaces (s @ [CR]) = []"
proof (induction "length s" arbitrary: s rule: less_induct)
  case less
  let ?n = "leading_space utf8_spaces s"
  show ?case
  proof (cases "s = []")
    case True
    then show ?thesis
      by (simp add: trim_with.simps [of _ "[CR]"] trim_with.simps [of _ "[]"] leading_CR_start)
  next
    case False
    show ?thesis
    proof (cases "?n = 0")
      case True
      then show ?thesis using False leading_space_snoc [OF False]
        by (simp add: trim_with.simps [of _ s] trim_with.simps [of _ "s @ [CR]"])
    next
      case n: False
      have "drop ?n (s @ [CR]) = drop ?n s @ [CR]" using leading_space_len [of utf8_spaces s] by simp
      then show ?thesis
        using False n leading_space_snoc [OF False] less.hyps [of "drop ?n s"]
        by (simp add: trim_with.simps [of _ s] trim_with.simps [of _ "s @ [CR]"])
    qed
  qed
qed

lemma str_trim_CR: "str_trim (s @ [CR]) = str_trim s"
  using trim_start_CR [of s] trim_end_CR [of "trim_start s"] by (auto simp: str_trim_def trim_start_def)

lemma str_trim_strip_cr: "str_trim (strip_cr s) = str_trim s"
  using str_trim_CR by (auto simp: strip_cr_def strip_suffix_Some split: option.split)

text \<open>A line feed at the end, or further lines after it, keep every rule.\<close>

lemma has_rule_newline:
  assumes nonempty: "contents \<noteq> []" "last contents \<noteq> NL"
  shows "has_rule (contents @ [NL]) rule = has_rule contents rule"
proof -
  obtain a b where contents: "contents = a @ b" "last a = NL \<or> a = []" "b \<noteq> []" "NL \<notin> set b"
  proof (cases "NL \<in> set contents")
    case True
    then obtain a b where split: "contents = a @ NL # b" "NL \<notin> set b" by (meson split_list_last)
    then have "b \<noteq> []" using nonempty(2) by (cases b) auto
    then show ?thesis using split by (intro that [of "a @ [NL]" b]) auto
  next
    case False
    then show ?thesis using nonempty(1) by (intro that [of "[]" contents]) auto
  qed
  have "str_lines (b @ [NL]) = [strip_cr b]" using str_lines_Cons [OF contents(4), of "[]"] by simp
  then show ?thesis
    using str_lines_split [OF contents(2)] str_lines_last [OF contents(3,4)]
    by (simp add: has_rule_def contents(1) str_trim_strip_cr)
qed

lemma has_rule_append: "last a = NL \<or> a = [] \<Longrightarrow> has_rule (a @ b) rule = (has_rule a rule \<or> has_rule b rule)"
  by (simp add: has_rule_def str_lines_split)

lemma rules_plain: "list_all (\<lambda>rule. NL \<notin> set rule \<and> str_trim rule = rule) GENERATED_GITIGNORE_RULES"
proof -
  have "list_all (\<lambda>rule. NL \<notin> set rule \<and> rule \<noteq> []
      \<and> list_all (\<lambda>w. w \<noteq> [] \<and> hd w \<noteq> hd rule \<and> last w \<noteq> last rule) utf8_spaces) GENERATED_GITIGNORE_RULES"
    by code_simp
  then show ?thesis using trimmed_ends by (auto simp: list_all_iff)
qed

lemma has_rule_lines:
  "list_all (\<lambda>rule. NL \<notin> set rule \<and> str_trim rule = rule) rules \<Longrightarrow>
     rule \<in> set rules \<Longrightarrow> has_rule (concat (map (\<lambda>rule. rule @ [NL]) rules)) rule"
  by (induction rules) (auto simp: has_rule_def str_lines_Cons str_trim_strip_cr)

text \<open>
  After a workspace is prepared its ignore file holds every generated rule on a line of its own, whatever it
  held before and however its last line ended; nothing of it is lost, and preparing it again changes nothing.
\<close>

theorem generated_gitignore_rules:
  "list_all (has_rule (generated_gitignore contents)) GENERATED_GITIGNORE_RULES
   \<and> (\<exists>added. generated_gitignore contents = contents @ added)
   \<and> generated_gitignore (generated_gitignore contents) = generated_gitignore contents"
proof -
  let ?missing = "filter (\<lambda>rule. \<not> has_rule contents rule) GENERATED_GITIGNORE_RULES"
  define base where "base = (if contents \<noteq> [] \<and> last contents \<noteq> NL then contents @ [NL] else contents)"
  define new where "new = concat (map (\<lambda>rule. rule @ [NL]) ?missing)"
  have base: "has_rule base rule = has_rule contents rule" "last base = NL \<or> base = []" for rule
    using has_rule_newline [of contents rule] by (auto simp: base_def)
  have rules: "list_all (has_rule (generated_gitignore contents)) GENERATED_GITIGNORE_RULES"
  proof (cases "?missing = []")
    case True
    then show ?thesis by (simp add: generated_gitignore_def list_all_iff filter_empty_conv)
  next
    case False
    then have ignored: "generated_gitignore contents = base @ new"
      by (simp add: generated_gitignore_def base_def new_def)
    have "has_rule (base @ new) rule" if "rule \<in> set GENERATED_GITIGNORE_RULES" for rule
    proof (cases "has_rule contents rule")
      case True
      then show ?thesis by (simp add: has_rule_append [OF base(2)] base(1))
    next
      case False
      then have "rule \<in> set ?missing" using that by simp
      moreover have "list_all (\<lambda>rule. NL \<notin> set rule \<and> str_trim rule = rule) ?missing"
        using rules_plain by (auto simp: list_all_iff)
      ultimately have "has_rule new rule" unfolding new_def by (rule has_rule_lines [rotated])
      then show ?thesis by (simp add: has_rule_append [OF base(2)])
    qed
    then show ?thesis by (simp add: ignored list_all_iff)
  qed
  have "generated_gitignore c = c" if "list_all (has_rule c) GENERATED_GITIGNORE_RULES" for c
  proof -
    have "filter (\<lambda>rule. \<not> has_rule c rule) GENERATED_GITIGNORE_RULES = []"
      using that by (auto simp: list_all_iff filter_empty_conv)
    then show ?thesis by (simp only: generated_gitignore_def Let_def if_True simp_thms)
  qed
  moreover have "\<exists>added. generated_gitignore contents = contents @ added"
    by (simp add: generated_gitignore_def Let_def)
  ultimately show ?thesis using rules by blast
qed

end
