(* ===== verification/Web_Http.thy ===== *)
theory Web_Http
  imports Rust_Path Json_Value Rust_Decimal
begin

text \<open>
  Requests and responses of the web server with the pure parts of \<open>chudbot-web/src/middleware.rs\<close>,
  \<open>static_files.rs\<close> and \<open>spa.rs\<close>: the client address, blocked crawlers, static paths and content types, the page
  with its link-preview metadata. Header names are lower case; a header's first value is the one that is read.
\<close>

section \<open>Requests and responses\<close>

datatype http_method = MethodGet | MethodPost | MethodOther string

record http_request =
  rq_method :: http_method
  rq_path :: string
  rq_query :: "string option"
  rq_headers :: "(string \<times> string) list"
  rq_body :: string
  rq_peer :: "string option"

datatype http_body = BodyEmpty | BodyBytes string | BodyJson json

record http_response =
  rs_status :: nat
  rs_headers :: "(string, string) btree_map"
  rs_body :: http_body

definition status_response :: "nat \<Rightarrow> http_response" where
  "status_response status = \<lparr>rs_status = status, rs_headers = [], rs_body = BodyEmpty\<rparr>"

definition with_header :: "string \<Rightarrow> string \<Rightarrow> http_response \<Rightarrow> http_response" where
  "with_header name value response = response\<lparr>rs_headers := btm_insert name value (rs_headers response)\<rparr>"

text \<open>\<open>HeaderValue::to_str\<close>: visible ASCII and tabs only.\<close>

definition header_char :: "char \<Rightarrow> bool" where
  "header_char c \<longleftrightarrow> (let n = of_char c :: nat in n = 9 \<or> 32 \<le> n \<and> n < 127)"

definition header_str :: "http_request \<Rightarrow> string \<Rightarrow> string option" where
  "header_str request name =
     (case map_of (rq_headers request) name of
        None \<Rightarrow> None
      | Some value \<Rightarrow> if list_all header_char value then Some value else None)"

section \<open>The client address\<close>

definition nonempty_trimmed :: "string \<Rightarrow> string option" where
  "nonempty_trimmed value = (let t = str_trim value in if t = [] then None else Some t)"

definition header_value :: "http_request \<Rightarrow> string \<Rightarrow> string option" where
  "header_value request name = Option.bind (header_str request name) nonempty_trimmed"

definition x_forwarded_for :: "http_request \<Rightarrow> string option" where
  "x_forwarded_for request =
     Option.bind (header_str request ''x-forwarded-for'') (\<lambda>value. nonempty_trimmed (hd (str_split CHR '','' value)))"

definition trim_quotes :: "string \<Rightarrow> string" where
  "trim_quotes s = rev (dropWhile (\<lambda>c. c = CHR 0x22) (rev (dropWhile (\<lambda>c. c = CHR 0x22) s)))"

definition forwarded_field :: "string \<Rightarrow> string option" where
  "forwarded_field field =
     (case split_once CHR ''='' field of
        None \<Rightarrow> None
      | Some (name, value) \<Rightarrow>
          (if to_ascii_lowercase (str_trim name) \<noteq> ''for'' then None
           else nonempty_trimmed (trim_quotes (str_trim value))))"

fun first_some :: "('a \<Rightarrow> 'b option) \<Rightarrow> 'a list \<Rightarrow> 'b option" where
  "first_some f [] = None"
| "first_some f (x # xs) = (case f x of None \<Rightarrow> first_some f xs | Some y \<Rightarrow> Some y)"

definition forwarded_for :: "http_request \<Rightarrow> string option" where
  "forwarded_for request =
     Option.bind (header_str request ''forwarded'')
       (\<lambda>forwarded. first_some forwarded_field (str_split CHR '';'' (hd (str_split CHR '','' forwarded))))"

definition forwarded_client_ip :: "http_request \<Rightarrow> string option" where
  "forwarded_client_ip request =
     or_else (header_value request ''cf-connecting-ip'')
       (or_else (header_value request ''true-client-ip'') (or_else (x_forwarded_for request) (forwarded_for request)))"

definition client_ip :: "http_request \<Rightarrow> bool \<Rightarrow> string" where
  "client_ip request trust_forwarded_for =
     (case (if trust_forwarded_for then forwarded_client_ip request else None) of
        Some ip \<Rightarrow> ip
      | None \<Rightarrow> unwrap_or (rq_peer request) ''-'')"

section \<open>Crawlers\<close>

definition X_ROBOTS_TAG :: string where
  "X_ROBOTS_TAG = ''noindex, nofollow, noarchive, nosnippet''"

definition CRAWLER_UA_TOKENS :: "string list" where
  "CRAWLER_UA_TOKENS =
     [''googlebot'', ''google-inspectiontool'', ''storebot-google'', ''bingbot'', ''bingpreview'', ''msnbot'', ''slurp'',
      ''duckduckbot'', ''duckassistbot'', ''baiduspider'', ''yandex'', ''sogou'', ''exabot'', ''seznambot'', ''petalbot'',
      ''applebot'', ''ia_archiver'', ''archive.org_bot'', ''gptbot'', ''oai-searchbot'', ''chatgpt-user'', ''ccbot'',
      ''claudebot'', ''claude-web'', ''anthropic-ai'', ''perplexitybot'', ''perplexity-user'', ''amazonbot'', ''bytespider'',
      ''meta-externalagent'', ''cohere-ai'', ''diffbot'', ''google-extended'', ''semrushbot'', ''ahrefsbot'', ''mj12bot'',
      ''dotbot'', ''dataforseobot'', ''blexbot'']"

definition is_blocked_crawler :: "string \<Rightarrow> bool" where
  "is_blocked_crawler user_agent = list_ex (str_contains (to_ascii_lowercase user_agent)) CRAWLER_UA_TOKENS"

definition crawler_response :: http_response where
  "crawler_response =
     with_header ''x-robots-tag'' X_ROBOTS_TAG
       \<lparr>rs_status = 403, rs_headers = [],
        rs_body = BodyBytes (''crawling and indexing of this host are not permitted'' @ [NL])\<rparr>"

definition block_crawlers :: "(http_request \<Rightarrow> http_response) \<Rightarrow> http_request \<Rightarrow> http_response" where
  "block_crawlers next_layer request =
     (if rq_path request \<noteq> ''/robots.txt''
         \<and> (case header_str request ''user-agent'' of None \<Rightarrow> False | Some ua \<Rightarrow> is_blocked_crawler ua)
      then crawler_response
      else next_layer request)"

section \<open>Escaping\<close>

definition replace_char :: "char \<Rightarrow> string \<Rightarrow> string \<Rightarrow> string" where
  "replace_char c replacement s = concat (map (\<lambda>x. if x = c then replacement else [x]) s)"

definition escape_html :: "string \<Rightarrow> string" where
  "escape_html value =
     replace_char CHR 0x27 ''&#39;'' (replace_char CHR 0x22 ''&quot;'' (replace_char CHR ''>'' ''&gt;''
       (replace_char CHR ''<'' ''&lt;'' (replace_char CHR ''&'' ''&amp;'' value))))"

definition escape_char :: "char \<Rightarrow> string" where
  "escape_char ch =
     (if ch = CHR ''&'' then ''&amp;'' else if ch = CHR ''<'' then ''&lt;'' else if ch = CHR ''>'' then ''&gt;''
      else if ch = CHR 0x22 then ''&quot;'' else if ch = CHR 0x27 then ''&#39;'' else [ch])"

definition escape_attr :: "string \<Rightarrow> string" where
  "escape_attr value = concat (map escape_char value)"

lemma replace_char_simps [simp]:
  "replace_char c r [] = []"
  "replace_char c r (x # s) = (if x = c then r else [x]) @ replace_char c r s"
  "replace_char c r (s @ t) = replace_char c r s @ replace_char c r t"
  by (simp_all add: replace_char_def)

lemma escape_html_attr: "escape_html s = escape_attr s"
proof (induction s)
  case (Cons x s)
  have "escape_html (x # s) = escape_html [x] @ escape_html s" by (simp add: escape_html_def)
  moreover have "escape_html [x] = escape_char x" by (simp add: escape_html_def escape_char_def)
  ultimately show ?case using Cons by (simp add: escape_attr_def)
qed (simp add: escape_html_def escape_attr_def)

text \<open>What an HTML parser reads back from the entities.\<close>

fun unescape :: "string \<Rightarrow> string" where
  "unescape [] = []"
| "unescape (c # s) =
     (if c \<noteq> CHR ''&'' then c # unescape s
      else if starts_with s ''amp;'' then CHR ''&'' # unescape (drop 4 s)
      else if starts_with s ''lt;'' then CHR ''<'' # unescape (drop 3 s)
      else if starts_with s ''gt;'' then CHR ''>'' # unescape (drop 3 s)
      else if starts_with s ''quot;'' then CHR 0x22 # unescape (drop 5 s)
      else if starts_with s ''#39;'' then CHR 0x27 # unescape (drop 4 s)
      else c # unescape s)"

definition markup_char :: "char \<Rightarrow> bool" where
  "markup_char c \<longleftrightarrow> c = CHR ''<'' \<or> c = CHR ''>'' \<or> c = CHR 0x22 \<or> c = CHR 0x27"

lemma unescape_char: "unescape (escape_char c @ s) = c # unescape s"
  by (auto simp: escape_char_def starts_with_def)

lemma escape_char_markup: "list_all (\<lambda>c. \<not> markup_char c) (escape_char c)"
  by (simp add: escape_char_def markup_char_def)

section \<open>Static files\<close>

definition static_relative_path :: "string \<Rightarrow> string option" where
  "static_relative_path path =
     (if path = [] \<or> CHR 0x5C \<in> set path then None
      else case push_normal [] (path_components path) of
        None \<Rightarrow> None
      | Some p \<Rightarrow> if p = [] then None else Some p)"

text \<open>The guess of the MIME type from a path is a library's: a parameter.\<close>

definition static_file_response :: "(string \<Rightarrow> string option) \<Rightarrow> string \<Rightarrow> string \<Rightarrow> string \<Rightarrow> http_response" where
  "static_file_response mime path bytes cache_control =
     with_header ''cache-control'' cache_control
       (with_header ''content-type'' (unwrap_or (mime path) ''application/octet-stream'')
         \<lparr>rs_status = 200, rs_headers = [], rs_body = BodyBytes bytes\<rparr>)"

definition CACHE_IMMUTABLE :: string where "CACHE_IMMUTABLE = ''public, max-age=31536000, immutable''"
definition CACHE_NO_CACHE :: string where "CACHE_NO_CACHE = ''no-cache, must-revalidate''"
definition CACHE_NO_STORE :: string where "CACHE_NO_STORE = ''no-store''"

text \<open>\<open>files\<close> is what the cache or the disk gives for a path.\<close>

definition serve_cached_static_file ::
  "(string \<Rightarrow> string option) \<Rightarrow> (string \<Rightarrow> string option) \<Rightarrow> string \<Rightarrow> string \<Rightarrow> http_response" where
  "serve_cached_static_file mime files path cache_control =
     (case files path of
        None \<Rightarrow> status_response 404
      | Some bytes \<Rightarrow> static_file_response mime path bytes cache_control)"

definition get_frontend_asset ::
  "(string \<Rightarrow> string option) \<Rightarrow> (string \<Rightarrow> string option) \<Rightarrow> string \<Rightarrow> string \<Rightarrow> http_response" where
  "get_frontend_asset mime files frontend_dir path =
     (case static_relative_path path of
        None \<Rightarrow> status_response 404
      | Some relative \<Rightarrow>
          serve_cached_static_file mime files (path_join (path_join frontend_dir ''assets'') relative) CACHE_IMMUTABLE)"

definition image_type_of_extension :: "string option \<Rightarrow> string" where
  "image_type_of_extension ext =
     (if ext = Some ''png'' then ''image/png'' else if ext = Some ''svg'' then ''image/svg+xml''
      else if ext = Some ''gif'' then ''image/gif'' else if ext = Some ''jpg'' \<or> ext = Some ''jpeg'' then ''image/jpeg''
      else if ext = Some ''webp'' then ''image/webp'' else ''image/x-icon'')"

definition serve_configured_image :: "(string \<Rightarrow> string option) \<Rightarrow> string option \<Rightarrow> string \<Rightarrow> http_response" where
  "serve_configured_image read path what =
     (case path of
        None \<Rightarrow> \<lparr>rs_status = 404, rs_headers = [], rs_body = BodyBytes (''no '' @ what @ '' configured'')\<rparr>
      | Some path \<Rightarrow>
          (case read path of
             None \<Rightarrow> \<lparr>rs_status = 404, rs_headers = [], rs_body = BodyBytes (what @ '' not found'')\<rparr>
           | Some bytes \<Rightarrow>
               with_header ''cache-control'' CACHE_NO_CACHE
                 (with_header ''content-type'' (image_type_of_extension (path_extension path))
                   \<lparr>rs_status = 200, rs_headers = [], rs_body = BodyBytes bytes\<rparr>)))"

section \<open>The page\<close>

fun find_bytes :: "string \<Rightarrow> string \<Rightarrow> nat option" where
  "find_bytes [] needle = (if needle = [] then Some 0 else None)"
| "find_bytes (c # s) needle = (if starts_with (c # s) needle then Some 0 else map_option Suc (find_bytes s needle))"

definition inject_head_meta :: "string \<Rightarrow> string \<Rightarrow> string" where
  "inject_head_meta index meta =
     (case find_bytes index ''</head>'' of
        Some pos \<Rightarrow> take pos index @ meta @ drop pos index
      | None \<Rightarrow> index)"

definition trim_end_matches :: "string list \<Rightarrow> string \<Rightarrow> string" where
  "trim_end_matches ws s = rev (trim_with (map rev ws) (rev s))"

definition conversation_path_id :: "(string \<Rightarrow> 'id option) \<Rightarrow> string \<Rightarrow> 'id option" where
  "conversation_path_id parse_uuid path =
     Option.bind (strip_prefix ''/c/'' path) (\<lambda>id. parse_uuid (trim_end_matches [''/''] id))"

text \<open>The separators after a title prefix: hyphen, bar, colon, middle dot, em dash and en dash.\<close>

definition title_separators :: "string list" where
  "title_separators =
     [''-'', ''|'', '':'', map byte [0xC2, 0xB7], map byte [0xE2, 0x80, 0x94], map byte [0xE2, 0x80, 0x93]]"

definition site_name :: "string \<Rightarrow> string" where
  "site_name title_prefix =
     (let name = trim_end (trim_end_matches title_separators (str_trim title_prefix))
      in if name = [] then ''Chudbot'' else name)"

record web_config =
  wc_title_prefix :: string
  wc_version :: string
  wc_frontend_dir :: string
  wc_favicon_path :: "string option"
  wc_public_base_url :: "string option"
  wc_og_image_path :: "string option"
  wc_trust_forwarded_for :: bool

definition trimmed_public_base_url :: "web_config \<Rightarrow> string option" where
  "trimmed_public_base_url config =
     Option.bind (wc_public_base_url config) (\<lambda>base.
       let base = trim_end_matches [''/''] (str_trim base) in if base = [] then None else Some base)"

definition meta_tag :: "string \<times> string \<times> string \<Rightarrow> string" where
  "meta_tag e =
     (case e of (key_attr, key, content) \<Rightarrow>
        ''<meta '' @ key_attr @ ''='' @ [CHR 0x22] @ key @ [CHR 0x22] @ '' content='' @ [CHR 0x22]
        @ escape_attr content @ [CHR 0x22] @ ''>'' @ [NL])"

definition EMBED_THEME_COLOR :: string where "EMBED_THEME_COLOR = ''#5b6cff''"

text \<open>The middle dot between the number of turns and the date is U+00B7.\<close>

definition preview_description :: "nat \<Rightarrow> string \<Rightarrow> string" where
  "preview_description turns date =
     dec_digits turns @ '' '' @ (if turns = 1 then ''turn'' else ''turns'') @ '' '' @ map byte [0xC2, 0xB7]
     @ '' started '' @ date"

definition preview_meta :: "web_config \<Rightarrow> string \<Rightarrow> string option \<Rightarrow> string \<Rightarrow> nat \<Rightarrow> (string \<times> string \<times> string) list" where
  "preview_meta config conversation_id title date turns =
     [(''property'', ''og:site_name'', site_name (wc_title_prefix config)),
      (''property'', ''og:type'', ''website''),
      (''property'', ''og:title'', unwrap_or title ''Untitled conversation''),
      (''property'', ''og:description'', preview_description turns date)]
     @ (case trimmed_public_base_url config of
          None \<Rightarrow> []
        | Some base \<Rightarrow>
            [(''property'', ''og:url'', base @ ''/c/'' @ conversation_id)]
            @ (if wc_og_image_path config \<noteq> None then [(''property'', ''og:image'', base @ ''/og-image'')] else []))
     @ [(''name'', ''theme-color'', EMBED_THEME_COLOR)]"

definition preview_meta_html :: "web_config \<Rightarrow> string \<Rightarrow> string option \<Rightarrow> string \<Rightarrow> nat \<Rightarrow> string" where
  "preview_meta_html config conversation_id title date turns =
     [NL] @ concat (map meta_tag (preview_meta config conversation_id title date turns))"

definition render_spa ::
  "(string \<Rightarrow> string option) \<Rightarrow> (string \<Rightarrow> string option) \<Rightarrow> string \<Rightarrow> string \<Rightarrow> string option \<Rightarrow> http_response" where
  "render_spa mime files frontend_dir request_path head_meta =
     (let index_path = path_join frontend_dir ''index.html'' in
      if CHR ''.'' \<in> set (last (str_split CHR ''/'' request_path))
      then \<lparr>rs_status = 404, rs_headers = [], rs_body = BodyBytes ''not found''\<rparr>
      else case files index_path of
        None \<Rightarrow> \<lparr>rs_status = 404, rs_headers = [], rs_body = BodyBytes ''frontend not built (index.html missing)''\<rparr>
      | Some bytes \<Rightarrow>
          with_header ''content-type'' ''text/html; charset=utf-8''
            (static_file_response mime index_path
              (case head_meta of None \<Rightarrow> bytes | Some meta \<Rightarrow> inject_head_meta bytes meta) CACHE_NO_CACHE))"

text \<open>
  Text of a conversation or a member cannot leave the attribute or element it is put into: both escape
  functions agree, their output holds no angle bracket and no quote, and a parser reads back the text itself.
\<close>

theorem escaped_text_is_inert:
  "escape_html s = escape_attr s \<and> list_all (\<lambda>c. \<not> markup_char c) (escape_attr s) \<and> unescape (escape_attr s) = s"
proof -
  have "list_all (\<lambda>c. \<not> markup_char c) (escape_attr s)"
    using escape_char_markup by (induction s) (simp_all add: escape_attr_def)
  moreover have "unescape (escape_attr s) = s"
    by (induction s) (simp_all add: escape_attr_def unescape_char)
  ultimately show ?thesis by (simp add: escape_html_attr)
qed

end
