(* ===== verification/Web_Vibe.thy ===== *)
theory Web_Vibe
  imports Web_Http Vibe_Access Web_Collections
begin

text \<open>
  The Vibe part of the web server: \<open>chudbot-web/src/vibe.rs\<close>. This theory holds the pure parts: which host a
  request is for, origins, cookies and return URLs, the pages, and the validation of collection requests. URL
  parsing and percent coding are library code: parameters.
\<close>

section \<open>Hosts\<close>

datatype vibe_host = HostApex | HostSource | HostSite string | HostReserved | HostNotVibe | HostInvalid

definition rsplit_once :: "char \<Rightarrow> string \<Rightarrow> (string \<times> string) option" where
  "rsplit_once c s = map_option (\<lambda>(after, before). (rev before, rev after)) (split_once c (rev s))"

definition parse_u16 :: "string \<Rightarrow> u16 option" where
  "parse_u16 s =
     (case parse_digits (case strip_prefix ''+'' s of None \<Rightarrow> s | Some r \<Rightarrow> r) of
        None \<Rightarrow> None
      | Some n \<Rightarrow> if n < 2 ^ 16 then Some (of_nat n) else None)"

definition strip_port :: "string \<Rightarrow> string option" where
  "strip_port host =
     (case rsplit_once CHR '':'' host of
        None \<Rightarrow> Some host
      | Some (name, port) \<Rightarrow>
          (if name \<noteq> [] \<and> CHR '':'' \<notin> set name \<and> (case parse_u16 port of None \<Rightarrow> False | Some p \<Rightarrow> 0 < p)
           then Some name else None))"

definition has_whitespace :: "string \<Rightarrow> bool" where
  "has_whitespace s = list_ex (str_contains s) utf8_spaces"

definition classify_host :: "string option \<Rightarrow> string \<Rightarrow> string list \<Rightarrow> vibe_host" where
  "classify_host host base_domain reserved =
     (case host of
        None \<Rightarrow> HostNotVibe
      | Some host \<Rightarrow>
          (if host = [] \<or> last host = CHR ''.'' \<or> CHR ''/'' \<in> set host \<or> has_whitespace host then HostInvalid
           else if starts_with host ''['' then HostNotVibe
           else case strip_port host of
             None \<Rightarrow> HostInvalid
           | Some host \<Rightarrow>
               (let host = to_ascii_lowercase host; base = to_ascii_lowercase base_domain in
                if host = base then HostApex
                else case strip_suffix (CHR ''.'' # base) host of
                  None \<Rightarrow> HostNotVibe
                | Some label \<Rightarrow>
                    (if label = [] \<or> CHR ''.'' \<in> set label then HostInvalid
                     else if label = ''src'' then HostSource
                     else case validate_name (vibe_names_new reserved) label of
                       Inl _ \<Rightarrow> HostReserved
                     | Inr _ \<Rightarrow> HostSite label))))"

section \<open>URLs\<close>

record parsed_url =
  ur_scheme :: string
  ur_username :: string
  ur_password :: "string option"
  ur_port :: "u16 option"
  ur_path :: string
  ur_query :: "string option"
  ur_fragment :: "string option"
  ur_host :: "string option"

type_synonym url_parser = "string \<Rightarrow> parsed_url option"

definition eq_ignore_ascii_case :: "string \<Rightarrow> string \<Rightarrow> bool" where
  "eq_ignore_ascii_case a b \<longleftrightarrow> to_ascii_lowercase a = to_ascii_lowercase b"

definition site_origin_matches :: "url_parser \<Rightarrow> http_request \<Rightarrow> string \<Rightarrow> string \<Rightarrow> bool" where
  "site_origin_matches parse_url request site base_domain =
     (case Option.bind (header_str request ''origin'') parse_url of
        None \<Rightarrow> False
      | Some origin \<Rightarrow>
          ur_scheme origin = ''https'' \<and> ur_username origin = [] \<and> ur_password origin = None \<and> ur_port origin = None
          \<and> ur_path origin = ''/'' \<and> ur_query origin = None \<and> ur_fragment origin = None
          \<and> (case ur_host origin of
               None \<Rightarrow> False
             | Some host \<Rightarrow> eq_ignore_ascii_case host (site @ CHR ''.'' # base_domain)))"

definition valid_return_url :: "url_parser \<Rightarrow> string \<Rightarrow> string \<Rightarrow> bool" where
  "valid_return_url parse_url v base =
     (case parse_url v of
        None \<Rightarrow> False
      | Some url \<Rightarrow>
          (if ur_scheme url \<noteq> ''https'' \<or> ur_username url \<noteq> [] \<or> ur_password url \<noteq> None \<or> ur_port url \<noteq> None then False
           else case ur_host url of
             None \<Rightarrow> False
           | Some host \<Rightarrow>
               host = base
               \<or> (case strip_suffix (CHR ''.'' # base) host of
                    None \<Rightarrow> False
                  | Some label \<Rightarrow> label \<noteq> [] \<and> CHR ''.'' \<notin> set label)))"

text \<open>\<open>decode\<close>: percent decoding, \<open>None\<close> when the result is not UTF-8.\<close>

definition safe_url_path :: "(string \<Rightarrow> string option) \<Rightarrow> string \<Rightarrow> string option" where
  "safe_url_path decode path =
     (case decode (dropWhile (\<lambda>c. c = CHR ''/'') path) of
        None \<Rightarrow> None
      | Some decoded \<Rightarrow> if CHR 0x5C \<in> set decoded then None else push_normal [] (path_components decoded))"

section \<open>Cookies\<close>

definition SESSION_COOKIE :: string where "SESSION_COOKIE = ''vibe_session''"

definition cookie_part :: "string \<Rightarrow> string \<Rightarrow> string option" where
  "cookie_part name part =
     (case split_once CHR ''='' (str_trim part) of
        None \<Rightarrow> None
      | Some (key, v) \<Rightarrow> if key = name \<and> v \<noteq> [] \<and> length v \<le> 128 then Some v else None)"

definition cookie_value :: "http_request \<Rightarrow> string \<Rightarrow> string option" where
  "cookie_value request name =
     Option.bind (header_str request ''cookie'') (\<lambda>cookies. first_some (cookie_part name) (str_split CHR '';'' cookies))"

definition session_cookie :: "string \<Rightarrow> string \<Rightarrow> u16 \<Rightarrow> string" where
  "session_cookie base token days =
     SESSION_COOKIE @ ''='' @ token @ ''; Domain=.'' @ base
     @ ''; Secure; HttpOnly; SameSite=Lax; Path=/; Max-Age='' @ dec_digits (unat days * 86400)"

definition clear_session_cookie :: "string \<Rightarrow> string" where
  "clear_session_cookie base =
     SESSION_COOKIE @ ''=; Domain=.'' @ base @ ''; Secure; HttpOnly; SameSite=Lax; Path=/; Max-Age=0''"

section \<open>Responses\<close>

definition SITE_CACHE_CONTROL :: string where "SITE_CACHE_CONTROL = ''private, no-store''"

definition secured :: "http_response \<Rightarrow> http_response" where
  "secured response =
     with_header ''x-frame-options'' ''DENY''
       (with_header ''referrer-policy'' ''no-referrer''
         (with_header ''x-content-type-options'' ''nosniff''
           (with_header ''cache-control'' SITE_CACHE_CONTROL response)))"

definition json_response :: "nat \<Rightarrow> json \<Rightarrow> http_response" where
  "json_response status body =
     with_header ''content-type'' ''application/json'' \<lparr>rs_status = status, rs_headers = [], rs_body = BodyJson body\<rparr>"

definition json_error :: "nat \<Rightarrow> string \<Rightarrow> string \<Rightarrow> http_response" where
  "json_error status code message =
     json_response status
       (json_object [(''error'', json_object [(''code'', JString code), (''message'', JString message)])])"

definition html_page :: "nat \<Rightarrow> string \<Rightarrow> http_response" where
  "html_page status body =
     with_header ''cache-control'' SITE_CACHE_CONTROL (with_header ''content-type'' ''text/html; charset=utf-8''
       \<lparr>rs_status = status, rs_headers = [],
        rs_body = BodyBytes (''<!doctype html><html><meta name=viewport content='' @ [CHR 0x22] @ ''width=device-width''
          @ [CHR 0x22] @ ''><title>Vibe</title><body>'' @ body @ ''</body></html>'')\<rparr>)"

definition error_page :: "nat \<Rightarrow> string \<Rightarrow> http_response" where
  "error_page status message = html_page status (''<main><h1>Vibe</h1><p>'' @ escape_html message @ ''</p></main>'')"

definition direct_login_success_body :: "string option \<Rightarrow> string" where
  "direct_login_success_body display_name =
     ''<main><h1>'' @ (case display_name of Some name \<Rightarrow> ''Logged in, '' @ escape_html name @ ''!'' | None \<Rightarrow> ''Logged in!'')
     @ ''</h1><p>You can close this tab and return to Vibe.</p></main>''"

text \<open>A header value may hold no control byte but the tab.\<close>

definition valid_header_value :: "string \<Rightarrow> bool" where
  "valid_header_value v \<longleftrightarrow> list_all (\<lambda>c. let n = of_char c :: nat in n = 9 \<or> 32 \<le> n \<and> n \<noteq> 127) v"

definition redirect :: "string \<Rightarrow> http_response" where
  "redirect location =
     secured (if valid_header_value location then with_header ''location'' location (status_response 303)
              else error_page 400 ''invalid redirect'')"

definition file_response :: "(string \<Rightarrow> string) \<Rightarrow> string \<Rightarrow> string \<Rightarrow> http_response" where
  "file_response mime path bytes =
     with_header ''content-type'' (mime path) \<lparr>rs_status = 200, rs_headers = [], rs_body = BodyBytes bytes\<rparr>"

definition is_document :: "http_request \<Rightarrow> bool" where
  "is_document request \<longleftrightarrow>
     header_str request ''sec-fetch-dest'' = Some ''document''
     \<or> (case header_str request ''accept'' of
          None \<Rightarrow> False
        | Some v \<Rightarrow> list_ex (\<lambda>part. starts_with (str_trim part) ''text/html'') (str_split CHR '','' v))"

definition unauthenticated :: "(string \<Rightarrow> string) \<Rightarrow> http_request \<Rightarrow> string \<Rightarrow> http_response" where
  "unauthenticated percent_encode request base =
     (if is_document request
      then (let host = unwrap_or (header_str request ''host'') base;
                uri = rq_path request @ (case rq_query request of None \<Rightarrow> [] | Some q \<Rightarrow> CHR ''?'' # q)
            in redirect (''https://'' @ base @ ''/login?return='' @ percent_encode (''https://'' @ host @ uri)))
      else json_error 401 ''not_authenticated'' ''Sign in with Discord to continue.'')"

section \<open>Guilds\<close>

definition guild_is_allowed :: "vibe_allowed_guild list \<Rightarrow> string \<Rightarrow> string \<Rightarrow> bool" where
  "guild_is_allowed allowed_guilds platform guild \<longleftrightarrow>
     allowed_guilds = [] \<or> list_ex (\<lambda>a. vg_platform a = platform \<and> vg_guild_id a = guild) allowed_guilds"

definition shared_site_guilds :: "vibe_allowed_guild list \<Rightarrow> vibe_site \<Rightarrow> string list \<Rightarrow> string list" where
  "shared_site_guilds allowed_guilds site shared_guilds =
     filter (\<lambda>guild. guild \<noteq> vs_guild_id site \<and> guild_is_allowed allowed_guilds (vs_platform site) guild) shared_guilds"

section \<open>Collection requests\<close>

definition MAX_COLLECTION_REQUEST_BYTES :: nat where "MAX_COLLECTION_REQUEST_BYTES = 1024 * 1024"
definition MAX_COLLECTION_FILTERS :: nat where "MAX_COLLECTION_FILTERS = 64"
definition MAX_COLLECTION_ORDERS :: nat where "MAX_COLLECTION_ORDERS = 16"
definition MAX_COLLECTION_COLUMNS :: nat where "MAX_COLLECTION_COLUMNS = 128"

datatype write_mode = WritePut | WriteInsert | WriteUpdate

datatype order_direction = OrderAsc | OrderDesc

record collection_order =
  or_column :: string
  or_direction :: order_direction

record collection_query =
  cq_filters :: "(string, json) btree_map"
  cq_limit :: "u64 option"
  cq_offset :: u64
  cq_order_by :: "collection_order list"
  cq_select :: "string list option"
  cq_distinct :: bool

datatype 'id vibe_collection_operation =
    CollectionWrite write_mode "'id option" "(string, json) btree_map"
  | CollectionFind collection_query
  | CollectionDelete collection_query bool
  | CollectionCount collection_query

datatype collection_request =
    RequestPut json
  | RequestInsert json
  | RequestUpdate json
  | RequestFind collection_query
  | RequestDelete collection_query
  | RequestDeleteOne collection_query
  | RequestCount collection_query

datatype collection_outcome =
    OutcomeDocuments "json list" "collection_change list"
  | OutcomeCount u64
  | OutcomeMissingDocument
  | OutcomeTooManyDocuments
  | OutcomeUnavailable

type_synonym validation_error = "string \<times> string"

definition valid_collection_column :: "string \<Rightarrow> bool" where
  "valid_collection_column column \<longleftrightarrow> column \<noteq> [] \<and> length column \<le> 128 \<and> \<not> has_control_char column"

definition valid_collection_name :: "string \<Rightarrow> bool" where
  "valid_collection_name name \<longleftrightarrow>
     name \<noteq> [] \<and> length name \<le> 64 \<and> list_all (\<lambda>c. is_ascii_alphanumeric c \<or> c = CHR ''_'' \<or> c = CHR ''-'') name"

definition validate_collection_query :: "collection_query \<Rightarrow> validation_error + unit" where
  "validate_collection_query query =
     (if MAX_COLLECTION_FILTERS < length (cq_filters query)
         \<or> MAX_COLLECTION_ORDERS < length (cq_order_by query)
         \<or> list_ex (\<lambda>e. \<not> valid_filter (snd e)) (cq_filters query)
         \<or> list_ex (\<lambda>e. \<not> valid_collection_column (fst e)) (cq_filters query)
         \<or> list_ex (\<lambda>order. \<not> valid_collection_column (or_column order)) (cq_order_by query)
         \<or> (case cq_select query of
              None \<Rightarrow> False
            | Some columns \<Rightarrow>
                MAX_COLLECTION_COLUMNS < length columns \<or> list_ex (\<lambda>column. \<not> valid_collection_column column) columns)
      then Inl (''invalid_query'', ''The collection query is invalid.'')
      else Inr ())"

definition btm_without :: "string list \<Rightarrow> (string, 'v) btree_map \<Rightarrow> (string, 'v) btree_map" where
  "btm_without keys m = filter (\<lambda>e. fst e \<notin> set keys) m"

definition document_id :: "(string \<Rightarrow> 'id option) \<Rightarrow> (string, json) btree_map \<Rightarrow> validation_error + 'id option" where
  "document_id parse_uuid members =
     (let parsed = (\<lambda>v. case Option.bind (json_as_str v) parse_uuid of
            None \<Rightarrow> Inl (''invalid_document_id'', ''The collection document id must be a UUID.'')
          | Some i \<Rightarrow> Inr (Some i))
      in case (btm_get members ''id'', btm_get members ''_id'') of
           (Some _, Some _) \<Rightarrow> Inl (''invalid_document'', ''Supply either id or _id, not both.'')
         | (Some v, None) \<Rightarrow> parsed v
         | (None, Some v) \<Rightarrow> parsed v
         | (None, None) \<Rightarrow> Inr None)"

definition collection_write_document ::
  "(string \<Rightarrow> 'id option) \<Rightarrow> write_mode \<Rightarrow> json \<Rightarrow> validation_error + 'id option \<times> (string, json) btree_map" where
  "collection_write_document parse_uuid mode document =
     (case document of
        JObject members \<Rightarrow>
          (case document_id parse_uuid members of
             Inl e \<Rightarrow> Inl e
           | Inr key \<Rightarrow>
               (let members = btm_without [''id'', ''_id'', ''inserted_by'', ''inserted_at'', ''updated_by'', ''updated_at''] members in
                if mode = WriteInsert \<and> key \<noteq> None
                then Inl (''invalid_document_id'', ''insert generates its own document id.'')
                else if mode = WriteUpdate \<and> key = None
                then Inl (''missing_document_id'', ''update requires an existing document id.'')
                else Inr (key, members)))
      | _ \<Rightarrow> Inl (''invalid_document'', ''A collection document must be a JSON object.''))"

text \<open>The operation, and whether it answers with a single document.\<close>

definition collection_storage_operation ::
  "(string \<Rightarrow> 'id option) \<Rightarrow> collection_request \<Rightarrow> validation_error + 'id vibe_collection_operation \<times> bool" where
  "collection_storage_operation parse_uuid request =
     (let write = (\<lambda>mode document.
            map_sum id (\<lambda>(i, members). (CollectionWrite mode i members, True)) (collection_write_document parse_uuid mode document));
          checked = (\<lambda>query operation. map_sum id (\<lambda>_. (operation, False)) (validate_collection_query query))
      in case request of
           RequestPut document \<Rightarrow> write WritePut document
         | RequestInsert document \<Rightarrow> write WriteInsert document
         | RequestUpdate document \<Rightarrow> write WriteUpdate document
         | RequestFind query \<Rightarrow> checked query (CollectionFind query)
         | RequestDelete query \<Rightarrow> checked query (CollectionDelete query False)
         | RequestDeleteOne query \<Rightarrow> checked query (CollectionDelete query True)
         | RequestCount query \<Rightarrow> checked query (CollectionCount query))"

definition collections_prefix :: string where
  "collections_prefix = ''/__vibe/api/v1/collections/''"

definition one_segment :: "string \<Rightarrow> string option" where
  "one_segment name = (if name = [] \<or> CHR ''/'' \<in> set name then None else Some name)"

definition collection_operation_path :: "string \<Rightarrow> string option" where
  "collection_operation_path path = Option.bind (strip_prefix collections_prefix path) one_segment"

definition collection_watch_path :: "string \<Rightarrow> string option" where
  "collection_watch_path path =
     Option.bind (Option.bind (strip_prefix collections_prefix path) (strip_suffix ''/watch'')) one_segment"

end
