(* ===== verification/Web_Vibe_Auth.thy ===== *)
theory Web_Vibe_Auth
  imports Web_Vibe
begin

text \<open>
  Authorization of the Vibe web server: the session cache, the membership caches and \<open>authorize\<close> of
  \<open>chudbot-web/src/vibe.rs\<close>. Storage and Discord are parameters: what they answer to a call made at a given
  instant. The caches are bounded maps of other crates; here they hold the last value put under a key, and an
  entry may be dropped at any moment between two requests, which is what their eviction may do.
\<close>

section \<open>The environment\<close>

record vibe_session =
  se_token_hash :: string
  se_platform :: string
  se_user_id :: string
  se_expires_at :: int

record membership_key =
  mk_platform :: string
  mk_guild_id :: string
  mk_user_id :: string

text \<open>The instant of a call: the wall clock, and the monotonic clock of the process.\<close>

record call_time =
  in_wall :: int
  in_mono :: duration

record vibe_env =
  en_find_session :: "call_time \<Rightarrow> string \<Rightarrow> string + vibe_session option"
  en_membership :: "call_time \<Rightarrow> membership_key \<Rightarrow> string + vibe_membership option"
  en_site_guilds :: "call_time \<Rightarrow> string \<Rightarrow> string \<Rightarrow> string + string list"
  en_find_site :: "call_time \<Rightarrow> string \<Rightarrow> string + vibe_site option"
  en_revoke_session :: "call_time \<Rightarrow> string \<Rightarrow> string + unit"
  en_token_hash :: "string \<Rightarrow> string"
  en_percent_encode :: "string \<Rightarrow> string"
  en_base_domain :: string
  en_allowed_guilds :: "vibe_allowed_guild list"

section \<open>Caches\<close>

record vibe_caches =
  vc_sessions :: "string \<rightharpoonup> vibe_session \<times> duration"
  vc_members :: "membership_key \<rightharpoonup> vibe_membership \<times> duration"
  vc_nonmembers :: "membership_key \<rightharpoonup> duration"

definition SESSION_CACHE_TTL :: duration where "SESSION_CACHE_TTL = duration_from_secs 30"
definition MEMBER_CACHE_TTL :: duration where "MEMBER_CACHE_TTL = duration_from_secs (5 * 60)"
definition NONMEMBER_CACHE_TTL :: duration where "NONMEMBER_CACHE_TTL = duration_from_secs 30"

definition empty_caches :: vibe_caches where
  "empty_caches = \<lparr>vc_sessions = Map.empty, vc_members = Map.empty, vc_nonmembers = Map.empty\<rparr>"

definition session_get :: "string \<Rightarrow> call_time \<Rightarrow> vibe_caches \<Rightarrow> vibe_session option \<times> vibe_caches" where
  "session_get hash now st =
     (case vc_sessions st hash of
        None \<Rightarrow> (None, st)
      | Some (session, cached_at) \<Rightarrow>
          (if in_mono now - cached_at < SESSION_CACHE_TTL \<and> in_wall now < se_expires_at session
           then (Some session, st)
           else (None, st\<lparr>vc_sessions := (vc_sessions st)(hash := None)\<rparr>)))"

definition session_insert :: "vibe_session \<Rightarrow> call_time \<Rightarrow> vibe_caches \<Rightarrow> vibe_caches" where
  "session_insert session now st =
     st\<lparr>vc_sessions := (vc_sessions st)(se_token_hash session \<mapsto> (session, in_mono now))\<rparr>"

definition session_invalidate :: "string \<Rightarrow> vibe_caches \<Rightarrow> vibe_caches" where
  "session_invalidate hash st = st\<lparr>vc_sessions := (vc_sessions st)(hash := None)\<rparr>"

definition fresh :: "duration \<Rightarrow> call_time \<Rightarrow> duration \<Rightarrow> bool" where
  "fresh ttl now inserted_at \<longleftrightarrow> in_mono now - inserted_at < ttl"

definition member_get :: "membership_key \<Rightarrow> call_time \<Rightarrow> vibe_caches \<Rightarrow> vibe_membership option" where
  "member_get key now st =
     (case vc_members st key of
        None \<Rightarrow> None
      | Some (mem, inserted_at) \<Rightarrow> if fresh MEMBER_CACHE_TTL now inserted_at then Some mem else None)"

definition nonmember_contains :: "membership_key \<Rightarrow> call_time \<Rightarrow> vibe_caches \<Rightarrow> bool" where
  "nonmember_contains key now st =
     (case vc_nonmembers st key of None \<Rightarrow> False | Some inserted_at \<Rightarrow> fresh NONMEMBER_CACHE_TTL now inserted_at)"

section \<open>Membership\<close>

definition current_membership ::
  "vibe_env \<Rightarrow> membership_key \<Rightarrow> call_time \<Rightarrow> vibe_caches \<Rightarrow> (string + vibe_membership option) \<times> vibe_caches" where
  "current_membership env key now st =
     (case member_get key now st of
        Some mem \<Rightarrow> (Inr (Some mem), st)
      | None \<Rightarrow>
          (if nonmember_contains key now st then (Inr None, st)
           else case en_membership env now key of
             Inl e \<Rightarrow> (Inl e, st)
           | Inr (Some mem) \<Rightarrow>
               (Inr (Some mem),
                st\<lparr>vc_nonmembers := (vc_nonmembers st)(key := None),
                   vc_members := (vc_members st)(key \<mapsto> (mem, in_mono now))\<rparr>)
           | Inr None \<Rightarrow> (Inr None, st\<lparr>vc_nonmembers := (vc_nonmembers st)(key \<mapsto> in_mono now)\<rparr>)))"

text \<open>The shared guilds in order; the flag records that some check failed.\<close>

fun shared_membership ::
  "vibe_env \<Rightarrow> string \<Rightarrow> string \<Rightarrow> call_time \<Rightarrow> string list \<Rightarrow> bool \<Rightarrow> vibe_caches \<Rightarrow> vibe_membership option \<times> bool \<times> vibe_caches" where
  "shared_membership env platform user_id now [] failed st = (None, failed, st)"
| "shared_membership env platform user_id now (guild # guilds) failed st =
     (case current_membership env \<lparr>mk_platform = platform, mk_guild_id = guild, mk_user_id = user_id\<rparr> now st of
        (Inr (Some mem), st) \<Rightarrow> (Some mem, failed, st)
      | (Inr None, st) \<Rightarrow> shared_membership env platform user_id now guilds failed st
      | (Inl e, st) \<Rightarrow> shared_membership env platform user_id now guilds True st)"

section \<open>authorize\<close>

definition authorization_unavailable :: http_response where
  "authorization_unavailable = error_page 503 ''authorization unavailable''"

definition find_request_session ::
  "vibe_env \<Rightarrow> http_request \<Rightarrow> call_time \<Rightarrow> vibe_caches \<Rightarrow> (http_response + vibe_session) \<times> vibe_caches" where
  "find_request_session env request now st =
     (let rejected = unauthenticated (en_percent_encode env) request (en_base_domain env) in
      case cookie_value request SESSION_COOKIE of
        None \<Rightarrow> (Inl rejected, st)
      | Some token \<Rightarrow>
          (let hash = en_token_hash env token in
           case session_get hash now st of
             (Some session, st) \<Rightarrow> (Inr session, st)
           | (None, st) \<Rightarrow>
               (case en_find_session env now hash of
                  Inr (Some session) \<Rightarrow> (Inr session, session_insert session now st)
                | Inr None \<Rightarrow> (Inl rejected, st)
                | Inl e \<Rightarrow> (Inl authorization_unavailable, st))))"

definition authorize ::
  "vibe_env \<Rightarrow> vibe_site \<Rightarrow> http_request \<Rightarrow> call_time \<Rightarrow> vibe_caches
     \<Rightarrow> (http_response + vibe_session \<times> vibe_membership) \<times> vibe_caches" where
  "authorize env site request now st =
     (case find_request_session env request now st of
        (Inl response, st) \<Rightarrow> (Inl response, st)
      | (Inr session, st) \<Rightarrow>
          (if se_platform session \<noteq> vs_platform site then (Inl (status_response 404), st)
           else case current_membership env
                  \<lparr>mk_platform = vs_platform site, mk_guild_id = vs_guild_id site, mk_user_id = se_user_id session\<rparr> now st of
             (Inr (Some mem), st) \<Rightarrow> (Inr (session, mem), st)
           | (owner, st) \<Rightarrow>
               (case en_site_guilds env now (vs_id site) (vs_platform site) of
                  Inl e \<Rightarrow> (Inl authorization_unavailable, st)
                | Inr guilds \<Rightarrow>
                    (case shared_membership env (vs_platform site) (se_user_id session) now
                            (shared_site_guilds (en_allowed_guilds env) site guilds)
                            (case owner of Inl _ \<Rightarrow> True | Inr _ \<Rightarrow> False) st of
                       (Some mem, _, st) \<Rightarrow> (Inr (session, mem), st)
                     | (None, failed, st) \<Rightarrow>
                         (Inl (if failed then error_page 503 ''Discord membership could not be checked''
                               else status_response 404), st)))))"

definition logout ::
  "vibe_env \<Rightarrow> http_request \<Rightarrow> call_time \<Rightarrow> vibe_caches \<Rightarrow> http_response \<times> vibe_caches" where
  "logout env request now st =
     (let response = with_header ''set-cookie'' (clear_session_cookie (en_base_domain env))
            (redirect (''https://'' @ en_base_domain env @ ''/''))
      in case cookie_value request SESSION_COOKIE of
           None \<Rightarrow> (response, st)
         | Some token \<Rightarrow>
             (let hash = en_token_hash env token in
              case en_revoke_session env now hash of
                Inr _ \<Rightarrow> (response, session_invalidate hash st)
              | Inl e \<Rightarrow> (response, st)))"

section \<open>A server\<close>

text \<open>
  The requests of a server one after the other: authorizations and logouts, each at an instant of its own, with cache
  entries dropped in between. A successful authorization is recorded as an event.
\<close>

datatype auth_event =
    Authorized call_time string vibe_site vibe_session vibe_membership
  | LoggedOut call_time string

definition later :: "call_time \<Rightarrow> call_time \<Rightarrow> bool" where
  "later a b \<longleftrightarrow> in_wall a \<le> in_wall b \<and> in_mono a \<le> in_mono b"

definition after :: "call_time \<Rightarrow> call_time \<Rightarrow> bool" where
  "after a b \<longleftrightarrow> in_wall a \<le> in_wall b \<and> in_mono a < in_mono b"

definition request_hash :: "vibe_env \<Rightarrow> http_request \<Rightarrow> string" where
  "request_hash env request = en_token_hash env (unwrap_or (cookie_value request SESSION_COOKIE) [])"

inductive auth_step ::
  "vibe_env \<Rightarrow> call_time \<times> vibe_caches \<Rightarrow> auth_event option \<Rightarrow> call_time \<times> vibe_caches \<Rightarrow> bool" for env where
  step_authorize: "after t now \<Longrightarrow> authorize env site request now st = (Inr (session, mem), st') \<Longrightarrow>
     auth_step env (t, st) (Some (Authorized now (request_hash env request) site session mem)) (now, st')"
| step_reject: "after t now \<Longrightarrow> authorize env site request now st = (Inl response, st') \<Longrightarrow> auth_step env (t, st) None (now, st')"
| step_logout: "after t now \<Longrightarrow> cookie_value request SESSION_COOKIE = Some token \<Longrightarrow>
     en_revoke_session env now (en_token_hash env token) = Inr () \<Longrightarrow> logout env request now st = (response, st') \<Longrightarrow>
     auth_step env (t, st) (Some (LoggedOut now (en_token_hash env token))) (now, st')"
| step_drop: "vc_sessions st' \<subseteq>\<^sub>m vc_sessions st \<Longrightarrow> vc_members st' \<subseteq>\<^sub>m vc_members st \<Longrightarrow>
     vc_nonmembers st' \<subseteq>\<^sub>m vc_nonmembers st \<Longrightarrow> auth_step env (t, st) None (t, st')"

inductive auth_run ::
  "vibe_env \<Rightarrow> call_time \<times> vibe_caches \<Rightarrow> auth_event list \<Rightarrow> call_time \<times> vibe_caches \<Rightarrow> bool" for env where
  run_start: "auth_run env s [] s"
| run_step: "auth_run env s events s1 \<Longrightarrow> auth_step env s1 (Some e) s2 \<Longrightarrow> auth_run env s (events @ [e]) s2"
| run_silent: "auth_run env s events s1 \<Longrightarrow> auth_step env s1 None s2 \<Longrightarrow> auth_run env s events s2"

end
