(* ===== verification/Web_Vibe_Auth_Props.thy ===== *)
theory Web_Vibe_Auth_Props
  imports Web_Vibe_Auth
begin

text \<open>
  What stands behind an authorization: an answer of the storage and one of Discord, neither older than the time
  its cache keeps it. The caches are trusted only as far as their invariant says.
\<close>

section \<open>The caches hold answers\<close>

text \<open>A session of the cache is what the storage answered when it was cached, after every logout of its hash.\<close>

definition session_backed :: "vibe_env \<Rightarrow> call_time \<Rightarrow> (string \<times> call_time) set \<Rightarrow> string \<Rightarrow> vibe_session \<times> duration \<Rightarrow> bool" where
  "session_backed env t revoked hash e \<longleftrightarrow>
     (\<exists>t0. later t0 t \<and> in_mono t0 = snd e \<and> en_find_session env t0 hash = Inr (Some (fst e))
        \<and> (\<forall>r. (hash, r) \<in> revoked \<longrightarrow> after r t0))"

definition member_backed :: "vibe_env \<Rightarrow> call_time \<Rightarrow> membership_key \<Rightarrow> vibe_membership \<times> duration \<Rightarrow> bool" where
  "member_backed env t key e \<longleftrightarrow>
     (\<exists>t0. later t0 t \<and> in_mono t0 = snd e \<and> en_membership env t0 key = Inr (Some (fst e)))"

definition caches_ok :: "vibe_env \<Rightarrow> call_time \<Rightarrow> (string \<times> call_time) set \<Rightarrow> vibe_caches \<Rightarrow> bool" where
  "caches_ok env t revoked st \<longleftrightarrow>
     (\<forall>hash e. vc_sessions st hash = Some e \<longrightarrow> session_backed env t revoked hash e)
     \<and> (\<forall>key e. vc_members st key = Some e \<longrightarrow> member_backed env t key e)"

text \<open>
  The storage answers with the row of the hash it is asked for, as long as it has not expired; once it has
  revoked a session it never answers with it again.
\<close>

definition storage_contract :: "vibe_env \<Rightarrow> bool" where
  "storage_contract env \<longleftrightarrow>
     (\<forall>t hash session. en_find_session env t hash = Inr (Some session) \<longrightarrow>
        se_token_hash session = hash \<and> in_wall t < se_expires_at session)
     \<and> (\<forall>r t hash session. en_revoke_session env r hash = Inr () \<and> after r t \<longrightarrow>
        en_find_session env t hash \<noteq> Inr (Some session))"

lemma later_refl [simp]: "later t t"
  by (simp add: later_def)

lemma later_trans: "later a b \<Longrightarrow> later b c \<Longrightarrow> later a c"
  by (simp add: later_def)

lemma caches_okD:
  assumes "caches_ok env t revoked st"
  shows "vc_sessions st hash = Some e \<Longrightarrow> session_backed env t revoked hash e"
    and "vc_members st key = Some e' \<Longrightarrow> member_backed env t key e'"
  using assms unfolding caches_ok_def by blast+

lemma backed_later:
  "later t now \<Longrightarrow> session_backed env t revoked hash e \<Longrightarrow> session_backed env now revoked hash e"
  "later t now \<Longrightarrow> member_backed env t key e' \<Longrightarrow> member_backed env now key e'"
  using later_trans unfolding session_backed_def member_backed_def by blast+

lemma caches_ok_later: "later t now \<Longrightarrow> caches_ok env t revoked st \<Longrightarrow> caches_ok env now revoked st"
  using backed_later unfolding caches_ok_def by metis

lemma caches_ok_fewer:
  assumes "caches_ok env t revoked st" and "vc_sessions st' \<subseteq>\<^sub>m vc_sessions st" and "vc_members st' \<subseteq>\<^sub>m vc_members st"
  shows "caches_ok env t revoked st'"
proof -
  have "vc_sessions st hash = Some e" if "vc_sessions st' hash = Some e" for hash e
    using assms(2) that by (metis domI map_le_def)
  moreover have "vc_members st key = Some e" if "vc_members st' key = Some e" for key e
    using assms(3) that by (metis domI map_le_def)
  ultimately show ?thesis using assms(1) by (auto simp: caches_ok_def)
qed

section \<open>One authorization\<close>

text \<open>The evidence for a session and a membership at an instant.\<close>

definition session_evidence :: "vibe_env \<Rightarrow> call_time \<Rightarrow> (string \<times> call_time) set \<Rightarrow> string \<Rightarrow> vibe_session \<Rightarrow> bool" where
  "session_evidence env now revoked hash session \<longleftrightarrow>
     (\<exists>t0. later t0 now \<and> in_mono now - in_mono t0 < SESSION_CACHE_TTL
        \<and> en_find_session env t0 hash = Inr (Some session)
        \<and> in_wall now < se_expires_at session
        \<and> (\<forall>r. (hash, r) \<in> revoked \<longrightarrow> after r t0))"

definition member_evidence :: "vibe_env \<Rightarrow> call_time \<Rightarrow> membership_key \<Rightarrow> vibe_membership \<Rightarrow> bool" where
  "member_evidence env now key mem \<longleftrightarrow>
     (\<exists>t0. later t0 now \<and> in_mono now - in_mono t0 < MEMBER_CACHE_TTL \<and> en_membership env t0 key = Inr (Some mem))"

lemma ttl_pos: "0 < SESSION_CACHE_TTL" "0 < MEMBER_CACHE_TTL"
  by (simp_all add: SESSION_CACHE_TTL_def MEMBER_CACHE_TTL_def duration_from_secs_def)

definition not_revoked_later :: "(string \<times> call_time) set \<Rightarrow> call_time \<Rightarrow> bool" where
  "not_revoked_later revoked now \<longleftrightarrow> (\<forall>hash r. (hash, r) \<in> revoked \<longrightarrow> after r now)"

lemma find_request_session_ok:
  assumes ok: "caches_ok env now revoked st" and hash: "storage_contract env" and past: "not_revoked_later revoked now"
    and run: "find_request_session env request now st = (r, st')"
  shows "caches_ok env now revoked st'
    \<and> (case r of Inl _ \<Rightarrow> True | Inr session \<Rightarrow> session_evidence env now revoked (request_hash env request) session)"
proof (cases "cookie_value request SESSION_COOKIE")
  case None
  then show ?thesis using ok run by (auto simp: find_request_session_def Let_def)
next
  case (Some token)
  let ?hash = "en_token_hash env token"
  have h: "request_hash env request = ?hash" by (simp add: request_hash_def Some)
  obtain found st1 where get: "session_get ?hash now st = (found, st1)" by (cases "session_get ?hash now st")
  have st1: "caches_ok env now revoked st1"
    using get ok by (auto simp: session_get_def caches_ok_def split: option.splits if_splits)
  have now_backed: "session_backed env now revoked ?hash (session, in_mono now)"
    and now_evidence: "session_evidence env now revoked ?hash session"
    if "en_find_session env now ?hash = Inr (Some session)" for session
    using that past hash ttl_pos unfolding session_backed_def session_evidence_def not_revoked_later_def storage_contract_def
    by (auto intro!: exI [of _ now])
  show ?thesis
  proof (cases found)
    case found: (Some session)
    have entry: "\<exists>at. vc_sessions st ?hash = Some (session, at) \<and> in_mono now - at < SESSION_CACHE_TTL
        \<and> in_wall now < se_expires_at session"
      using get found by (auto simp: session_get_def split: option.splits if_splits)
    then have "session_evidence env now revoked ?hash session"
      using caches_okD(1) [OF ok] unfolding session_backed_def session_evidence_def by fastforce
    then show ?thesis using run st1 h by (auto simp: find_request_session_def Let_def Some get found)
  next
    case None
    show ?thesis
    proof (cases "en_find_session env now ?hash")
      case (Inl e)
      then show ?thesis using run st1 by (auto simp: find_request_session_def Let_def Some get None)
    next
      case answer: (Inr stored)
      show ?thesis
      proof (cases stored)
        case None
        then show ?thesis using run st1 answer \<open>found = None\<close> by (auto simp: find_request_session_def Let_def Some get)
      next
        case stored: (Some session)
        then have "se_token_hash session = ?hash" using hash answer by (auto simp: storage_contract_def)
        then have "caches_ok env now revoked (session_insert session now st1)"
          using st1 now_backed answer stored by (auto simp: session_insert_def caches_ok_def)
        then show ?thesis
          using run now_evidence answer stored h \<open>found = None\<close> by (auto simp: find_request_session_def Let_def Some get)
      qed
    qed
  qed
qed

lemma current_membership_ok:
  assumes ok: "caches_ok env now revoked st" and run: "current_membership env key now st = (r, st')"
  shows "caches_ok env now revoked st'
    \<and> (case r of Inr (Some mem) \<Rightarrow> member_evidence env now key mem | _ \<Rightarrow> True)"
proof (cases "member_get key now st")
  case (Some mem)
  then have "\<exists>at. vc_members st key = Some (mem, at) \<and> in_mono now - at < MEMBER_CACHE_TTL"
    by (auto simp: member_get_def fresh_def split: option.splits if_splits)
  then have "member_evidence env now key mem"
    using caches_okD(2) [OF ok] unfolding member_backed_def member_evidence_def by fastforce
  then show ?thesis using run ok Some by (auto simp: current_membership_def)
next
  case None
  have now: "member_backed env now key (mem, in_mono now) \<and> member_evidence env now key mem"
    if "en_membership env now key = Inr (Some mem)" for mem
    using that ttl_pos unfolding member_backed_def member_evidence_def by (auto intro!: exI [of _ now])
  show ?thesis
  proof (cases "nonmember_contains key now st")
    case True
    then show ?thesis using run ok None by (auto simp: current_membership_def)
  next
    case False
    then show ?thesis
      using run ok None now
      by (auto simp: current_membership_def caches_ok_def split: sum.splits option.splits if_splits)
  qed
qed

lemma shared_membership_ok:
  "caches_ok env now revoked st \<Longrightarrow> shared_membership env platform user now guilds failed st = (found, failed', st') \<Longrightarrow>
     caches_ok env now revoked st'
     \<and> (case found of None \<Rightarrow> True
        | Some mem \<Rightarrow> \<exists>guild \<in> set guilds.
            member_evidence env now \<lparr>mk_platform = platform, mk_guild_id = guild, mk_user_id = user\<rparr> mem)"
proof (induction guilds arbitrary: failed st)
  case (Cons guild guilds)
  let ?key = "\<lparr>mk_platform = platform, mk_guild_id = guild, mk_user_id = user\<rparr>"
  obtain r st1 where first: "current_membership env ?key now st = (r, st1)" by (cases "current_membership env ?key now st")
  note one = current_membership_ok [OF Cons.prems(1) first]
  show ?case
  proof (cases r)
    case (Inl e)
    then show ?thesis
      using Cons.IH [of st1 True] Cons.prems(2) one first by (auto split: option.splits)
  next
    case (Inr answer)
    show ?thesis
    proof (cases answer)
      case None
      then show ?thesis
        using Cons.IH [of st1 failed] Cons.prems(2) one first Inr by (auto split: option.splits)
    next
      case (Some mem)
      then show ?thesis using Cons.prems(2) one first Inr by auto
    qed
  qed
qed simp

text \<open>The guilds whose members may see a site: its own, and those it is shared with that the rollout allows.\<close>

definition site_guild :: "vibe_env \<Rightarrow> call_time \<Rightarrow> vibe_site \<Rightarrow> string \<Rightarrow> bool" where
  "site_guild env now site guild \<longleftrightarrow>
     guild = vs_guild_id site
     \<or> (\<exists>guilds. en_site_guilds env now (vs_id site) (vs_platform site) = Inr guilds \<and> guild \<in> set guilds
          \<and> guild_is_allowed (en_allowed_guilds env) (vs_platform site) guild)"

definition authorization_evidence ::
  "vibe_env \<Rightarrow> call_time \<Rightarrow> (string \<times> call_time) set \<Rightarrow> string \<Rightarrow> vibe_site \<Rightarrow> vibe_session \<Rightarrow> vibe_membership \<Rightarrow> bool" where
  "authorization_evidence env now revoked hash site session mem \<longleftrightarrow>
     session_evidence env now revoked hash session \<and> se_platform session = vs_platform site
     \<and> (\<exists>guild. site_guild env now site guild
          \<and> member_evidence env now
              \<lparr>mk_platform = vs_platform site, mk_guild_id = guild, mk_user_id = se_user_id session\<rparr> mem)"

lemma authorize_ok:
  assumes ok: "caches_ok env now revoked st" and hash: "storage_contract env" and past: "not_revoked_later revoked now"
    and run: "authorize env site request now st = (r, st')"
  shows "caches_ok env now revoked st'
    \<and> (case r of Inl _ \<Rightarrow> True
       | Inr (session, mem) \<Rightarrow> authorization_evidence env now revoked (request_hash env request) site session mem)"
proof -
  obtain found st1 where first: "find_request_session env request now st = (found, st1)"
    by (cases "find_request_session env request now st")
  note session = find_request_session_ok [OF ok hash past first]
  show ?thesis
  proof (cases found)
    case (Inl response)
    then show ?thesis using run session by (auto simp: authorize_def first)
  next
    case found: (Inr session')
    show ?thesis
    proof (cases "se_platform session' = vs_platform site")
      case False
      then show ?thesis using run session found by (auto simp: authorize_def first)
    next
      case platform: True
      let ?key = "\<lparr>mk_platform = vs_platform site, mk_guild_id = vs_guild_id site, mk_user_id = se_user_id session'\<rparr>"
      obtain owner st2 where own: "current_membership env ?key now st1 = (owner, st2)"
        by (cases "current_membership env ?key now st1")
      have own_ok: "caches_ok env now revoked st2
          \<and> (case owner of Inr (Some mem) \<Rightarrow> member_evidence env now ?key mem | _ \<Rightarrow> True)"
        using current_membership_ok [OF _ own] session by blast
      show ?thesis
      proof (cases "\<exists>mem. owner = Inr (Some mem)")
        case True
        then obtain mem where owner: "owner = Inr (Some mem)" by blast
        then have "r = Inr (session', mem)" "st' = st2"
          using run platform by (auto simp: authorize_def first found own)
        then show ?thesis
          using own_ok session found platform owner
          by (auto simp: authorization_evidence_def site_guild_def)
      next
        case False
        have step: "authorize env site request now st =
            (case en_site_guilds env now (vs_id site) (vs_platform site) of
               Inl e \<Rightarrow> (Inl authorization_unavailable, st2)
             | Inr guilds \<Rightarrow>
                 (case shared_membership env (vs_platform site) (se_user_id session') now
                         (shared_site_guilds (en_allowed_guilds env) site guilds)
                         (case owner of Inl _ \<Rightarrow> True | Inr _ \<Rightarrow> False) st2 of
                    (Some mem, _, st) \<Rightarrow> (Inr (session', mem), st)
                  | (None, failed, st) \<Rightarrow>
                      (Inl (if failed then error_page 503 ''Discord membership could not be checked''
                            else status_response 404), st)))"
          using False platform by (auto simp: authorize_def first found own split: sum.split option.split)
        show ?thesis
        proof (cases "en_site_guilds env now (vs_id site) (vs_platform site)")
          case (Inl e)
          then show ?thesis using run own_ok by (auto simp: step)
        next
          case guilds: (Inr guilds)
          obtain shared failed st3 where walk: "shared_membership env (vs_platform site) (se_user_id session') now
              (shared_site_guilds (en_allowed_guilds env) site guilds) (case owner of Inl _ \<Rightarrow> True | Inr _ \<Rightarrow> False) st2
              = (shared, failed, st3)"
            by (cases "shared_membership env (vs_platform site) (se_user_id session') now
              (shared_site_guilds (en_allowed_guilds env) site guilds) (case owner of Inl _ \<Rightarrow> True | Inr _ \<Rightarrow> False) st2")
          note walked = shared_membership_ok [OF conjunct1 [OF own_ok] walk]
          show ?thesis
          proof (cases shared)
            case None
            then show ?thesis using run walked by (auto simp: step guilds walk)
          next
            case (Some mem)
            then obtain guild where guild: "guild \<in> set (shared_site_guilds (en_allowed_guilds env) site guilds)"
              "member_evidence env now \<lparr>mk_platform = vs_platform site, mk_guild_id = guild, mk_user_id = se_user_id session'\<rparr> mem"
              using walked by auto
            then have "site_guild env now site guild"
              using guilds by (auto simp: site_guild_def shared_site_guilds_def)
            then show ?thesis
              using run walked session found platform guild Some
              by (auto simp: step guilds walk authorization_evidence_def)
          qed
        qed
      qed
    qed
  qed
qed

section \<open>A run\<close>

definition revocations :: "auth_event list \<Rightarrow> (string \<times> call_time) set" where
  "revocations events = {(hash, r). LoggedOut r hash \<in> set events}"

lemma revocations_snoc [simp]:
  "revocations [] = {}"
  "revocations (events @ [Authorized t hash site session mem]) = revocations events"
  "revocations (events @ [LoggedOut t hash]) = insert (hash, t) (revocations events)"
  by (auto simp: revocations_def)

definition run_ok :: "vibe_env \<Rightarrow> auth_event list \<Rightarrow> call_time \<times> vibe_caches \<Rightarrow> bool" where
  "run_ok env events s \<longleftrightarrow>
     caches_ok env (fst s) (revocations events) (snd s)
     \<and> (\<forall>hash r. (hash, r) \<in> revocations events \<longrightarrow> later r (fst s) \<and> en_revoke_session env r hash = Inr ())"

definition event_ok :: "vibe_env \<Rightarrow> auth_event list \<Rightarrow> auth_event \<Rightarrow> bool" where
  "event_ok env events e \<longleftrightarrow>
     (case e of
        Authorized now hash site session mem \<Rightarrow> authorization_evidence env now (revocations events) hash site session mem
      | LoggedOut _ _ \<Rightarrow> True)"

lemma later_after: "later a b \<Longrightarrow> after b c \<Longrightarrow> after a c"
  by (simp add: later_def after_def)

lemma after_later: "after a b \<Longrightarrow> later a b"
  by (simp add: later_def after_def)

lemma authorize_step_ok:
  assumes "run_ok env events (t, st)" and "storage_contract env" and "after t now"
    and "authorize env site request now st = (r, st')"
  shows "run_ok env events (now, st')
    \<and> (case r of Inl _ \<Rightarrow> True
       | Inr (session, mem) \<Rightarrow> authorization_evidence env now (revocations events) (request_hash env request) site session mem)"
proof -
  have "caches_ok env now (revocations events) st"
    using assms(1) caches_ok_later [OF after_later [OF assms(3)]] by (simp add: run_ok_def)
  moreover have "not_revoked_later (revocations events) now"
    using assms(1) later_after [OF _ assms(3)] by (auto simp: run_ok_def not_revoked_later_def)
  ultimately show ?thesis
    using authorize_ok [OF _ assms(2) _ assms(4)] assms(1) later_trans [OF _ after_later [OF assms(3)]]
    by (auto simp: run_ok_def split: sum.splits)
qed

lemma logout_step_ok:
  assumes ok: "run_ok env events (t, st)" and "after t now" and cookie: "cookie_value request SESSION_COOKIE = Some token"
    and revoke: "en_revoke_session env now (en_token_hash env token) = Inr ()"
    and run: "logout env request now st = (response, st')"
  shows "run_ok env (events @ [LoggedOut now (en_token_hash env token)]) (now, st')"
proof -
  let ?hash = "en_token_hash env token"
  have st': "st' = session_invalidate ?hash st"
    using run cookie revoke by (auto simp: logout_def Let_def)
  have "caches_ok env now (revocations events) st"
    using ok caches_ok_later [OF after_later [OF assms(2)]] by (simp add: run_ok_def)
  then have "caches_ok env now (insert (?hash, now) (revocations events)) st'"
    by (auto simp: st' session_invalidate_def caches_ok_def session_backed_def split: if_splits)
  then show ?thesis
    using ok revoke after_later [OF assms(2)] later_trans [OF _ after_later [OF assms(2)]] by (auto simp: run_ok_def)
qed

lemma step_ok:
  assumes "auth_step env s e s'" and "run_ok env events s" and "storage_contract env"
  shows "case e of None \<Rightarrow> run_ok env events s' | Some e \<Rightarrow> event_ok env events e \<and> run_ok env (events @ [e]) s'"
  using assms
proof cases
  case (step_authorize t now site request st session mem st')
  then show ?thesis using authorize_step_ok [of env events t st now site request] assms by (auto simp: event_ok_def run_ok_def)
next
  case (step_reject t now site request st response st')
  then show ?thesis using authorize_step_ok [of env events t st now site request] assms by auto
next
  case (step_logout t now request token st response st')
  then show ?thesis using logout_step_ok [of env events t st now request token response st'] assms by (auto simp: event_ok_def)
next
  case (step_drop st' st t)
  then show ?thesis using assms(2) caches_ok_fewer by (auto simp: run_ok_def)
qed

lemma run_events_ok:
  "auth_run env s events s' \<Longrightarrow> s = (t0, empty_caches) \<Longrightarrow> storage_contract env \<Longrightarrow>
     run_ok env events s' \<and> (\<forall>before e rest. events = before @ e # rest \<longrightarrow> event_ok env before e)"
proof (induction rule: auth_run.induct)
  case (run_start s)
  then show ?case by (simp add: run_ok_def caches_ok_def empty_caches_def)
next
  case (run_step s events s1 e s2)
  then have ok: "event_ok env events e \<and> run_ok env (events @ [e]) s2" using step_ok by fastforce
  have "event_ok env before e'" if "events @ [e] = before @ e' # rest" for before e' rest
    using that run_step ok by (cases rest rule: rev_cases) auto
  then show ?case using ok by blast
next
  case (run_silent s events s1 s2)
  then show ?case using step_ok by fastforce
qed


text \<open>An example: a member of the site's guild with a session under the cookie value \<open>k\<close>.\<close>

definition sample_session :: vibe_session where
  "sample_session = \<lparr>se_token_hash = ''k'', se_platform = ''d'', se_user_id = ''u'', se_expires_at = 100\<rparr>"

definition sample_member :: vibe_membership where
  "sample_member =
     \<lparr>vm_user_id = ''u'', vm_username = ''n'', vm_display_name = ''N'', vm_avatar_url = None, vm_guild_id = ''g'',
      vm_guild_display_name = ''G''\<rparr>"

definition sample_env :: vibe_env where
  "sample_env =
     \<lparr>en_find_session = (\<lambda>t h. if h = ''k'' \<and> in_wall t < 100 then Inr (Some sample_session) else Inr None),
      en_membership = (\<lambda>t key. Inr (if mk_guild_id key = ''g'' then Some sample_member else None)),
      en_site_guilds = (\<lambda>t s p. Inr []), en_find_site = (\<lambda>t n. Inr None),
      en_revoke_session = (\<lambda>t h. if h = ''k'' then Inl ''down'' else Inr ()),
      en_token_hash = (\<lambda>t. t), en_percent_encode = (\<lambda>s. s), en_base_domain = ''v.x'', en_allowed_guilds = []\<rparr>"

definition sample_protected :: vibe_site where
  "sample_protected =
     \<lparr>vs_id = ''s'', vs_name = ''site'', vs_platform = ''d'', vs_guild_id = ''g'', vs_owner_user_id = ''o'', vs_description = [],
      vs_status = SiteActive, vs_access = SiteProtected, vs_active_revision_id = Some ''r'', vs_running_job_id = None\<rparr>"

definition sample_visit :: http_request where
  "sample_visit =
     \<lparr>rq_method = MethodGet, rq_path = ''/'', rq_query = None, rq_headers = [(''cookie'', ''vibe_session=k'')], rq_body = [],
      rq_peer = None\<rparr>"

definition at_second :: "nat \<Rightarrow> call_time" where
  "at_second n = \<lparr>in_wall = int n, in_mono = duration_from_secs n\<rparr>"

lemma sample_contract: "storage_contract sample_env"
  by (auto simp: storage_contract_def sample_env_def sample_session_def)

lemma sample_cookie: "cookie_value sample_visit SESSION_COOKIE = Some ''k''"
proof -
  have "str_trim ''vibe_session=k'' = ''vibe_session=k''"
    by (rule trimmed_ends) code_simp+
  moreover have "header_str sample_visit ''cookie'' = Some ''vibe_session=k''" by code_simp
  moreover have "str_split CHR '';'' ''vibe_session=k'' = [''vibe_session=k'']" by simp
  moreover have "split_once CHR ''='' ''vibe_session=k'' = Some (''vibe_session'', ''k'')" by (simp add: split_once_def)
  ultimately show ?thesis by (simp add: cookie_value_def cookie_part_def SESSION_COOKIE_def)
qed

lemma sample_authorized:
  "\<exists>st. authorize sample_env sample_protected sample_visit (at_second 1) empty_caches
     = (Inr (sample_session, sample_member), st)"
  by (simp add: authorize_def find_request_session_def sample_cookie Let_def session_get_def empty_caches_def
      sample_env_def session_insert_def sample_session_def sample_protected_def current_membership_def member_get_def
      nonmember_contains_def at_second_def)


end
