(* ===== verification/Web_Vibe_Requests.thy ===== *)
theory Web_Vibe_Requests
  imports Web_Vibe_Auth Vibe_Git
begin

text \<open>
  The request handlers of \<open>chudbot-web/src/vibe.rs\<close>: sites, their API, the source browser and sign-in. A reply
  carries the response with what else the request starts: a socket to serve, or collection changes to publish.
\<close>

section \<open>Replies and the environment\<close>

datatype socket_task = ServeRoom vibe_site "vibe_membership option" | ServeWatch vibe_site string

record web_reply =
  wr_response :: http_response
  wr_socket :: "socket_task option"
  wr_published :: "(string \<times> string \<times> collection_change list) option"

definition just :: "http_response \<Rightarrow> web_reply" where
  "just response = \<lparr>wr_response = response, wr_socket = None, wr_published = None\<rparr>"

definition secured_reply :: "web_reply \<Rightarrow> web_reply" where
  "secured_reply reply = reply\<lparr>wr_response := secured (wr_response reply)\<rparr>"

text \<open>An upgrade is refused with a response (\<open>Inl\<close>) or accepted with one (\<open>Inr\<close>).\<close>

record 'id site_env = vibe_env +
  si_read_file :: "string \<Rightarrow> string option"
  si_disk :: vibe_disk_store
  si_git :: git
  si_frontend_dir :: string
  si_mime :: "string \<Rightarrow> string"
  si_decode :: "string \<Rightarrow> string option"
  si_parse_url :: url_parser
  si_parse_uuid :: "string \<Rightarrow> 'id option"
  si_parse_request :: "string \<Rightarrow> collection_request option"
  si_query_pairs :: "string \<Rightarrow> (string \<times> string) list"
  si_upgrade :: "http_request \<Rightarrow> http_response + http_response"
  si_execute :: "call_time \<Rightarrow> string \<Rightarrow> string \<Rightarrow> string \<Rightarrow> 'id vibe_collection_operation \<Rightarrow> string + collection_outcome"
  si_revisions :: "string \<Rightarrow> string + vibe_revision list"
  si_sdk_javascript :: string
  si_sdk_typescript :: string

section \<open>Files of a site\<close>

definition serve_site_file :: "'id site_env \<Rightarrow> vibe_site \<Rightarrow> string \<Rightarrow> bool \<Rightarrow> http_response" where
  "serve_site_file env site path document =
     (case vs_active_revision_id site of
        None \<Rightarrow> error_page 503 ''site artifact missing''
      | Some revision \<Rightarrow>
          (let root = artifact_path (si_disk env) (vs_id site) revision in
           case safe_url_path (si_decode env) path of
             None \<Rightarrow> status_response 404
           | Some requested \<Rightarrow>
               (let exact = (if requested = [] then path_join root ''index.html'' else path_join root requested) in
                case si_read_file env exact of
                  Some bytes \<Rightarrow> file_response (si_mime env) exact bytes
                | None \<Rightarrow>
                    (case (if document then si_read_file env (path_join root ''index.html'') else None) of
                       Some bytes \<Rightarrow> file_response (si_mime env) (path_join root ''index.html'') bytes
                     | None \<Rightarrow> status_response 404))))"

section \<open>The API of a site\<close>

definition static_vibe_api :: "'id site_env \<Rightarrow> string \<Rightarrow> http_response option" where
  "static_vibe_api env path =
     (if path = ''/__vibe/sdk/v1/vibe.js''
      then Some (with_header ''content-type'' ''text/javascript; charset=utf-8''
        \<lparr>rs_status = 200, rs_headers = [], rs_body = BodyBytes (si_sdk_javascript env)\<rparr>)
      else if path = ''/__vibe/sdk/v1/vibe.d.ts''
      then Some (with_header ''content-type'' ''text/plain; charset=utf-8''
        \<lparr>rs_status = 200, rs_headers = [], rs_body = BodyBytes (si_sdk_typescript env)\<rparr>)
      else None)"

definition identity_json :: "vibe_site \<Rightarrow> vibe_membership \<Rightarrow> json" where
  "identity_json site mem =
     json_object
       [(''id'', JString (vm_user_id mem)), (''username'', JString (vm_username mem)),
        (''displayName'', JString (vm_display_name mem)),
        (''avatarUrl'', case vm_avatar_url mem of None \<Rightarrow> JNull | Some u \<Rightarrow> JString u),
        (''guild'', json_object [(''id'', JString (vm_guild_id mem)), (''displayName'', JString (vm_guild_display_name mem))]),
        (''site'', json_object [(''name'', JString (vs_name site))])]"

definition identity_response :: "vibe_site \<Rightarrow> vibe_membership option \<Rightarrow> http_response" where
  "identity_response site membership =
     json_response 200
       (case (if vs_access site = SiteProtected then membership else None) of
          None \<Rightarrow> JNull
        | Some mem \<Rightarrow> identity_json site mem)"

definition collections_unavailable :: http_response where
  "collections_unavailable =
     json_error 403 ''collections_unavailable'' ''Vibe collections require a protected site with Discord sign-in.''"

definition collection_reply :: "vibe_site \<Rightarrow> string \<Rightarrow> bool \<Rightarrow> collection_outcome \<Rightarrow> web_reply" where
  "collection_reply site collection single outcome =
     (case outcome of
        OutcomeDocuments values changes \<Rightarrow>
          \<lparr>wr_response = json_response 200
             (if single then (if values = [] then JNull else last values) else JArray values),
           wr_socket = None, wr_published = Some (vs_id site, collection, changes)\<rparr>
      | OutcomeCount n \<Rightarrow> just (json_response 200 (json_object [(''count'', json_u64 n)]))
      | OutcomeMissingDocument \<Rightarrow>
          just (json_error 404 ''document_not_found'' ''The collection document does not exist.'')
      | OutcomeTooManyDocuments \<Rightarrow>
          just (json_error 409 ''multiple_documents'' ''deleteOne matched more than one document.'')
      | OutcomeUnavailable \<Rightarrow> just collections_unavailable)"

definition collection_operation ::
  "'id site_env \<Rightarrow> http_request \<Rightarrow> vibe_site \<Rightarrow> vibe_membership option \<Rightarrow> string \<Rightarrow> call_time \<Rightarrow> web_reply" where
  "collection_operation env request site membership collection now =
     (case (if vs_access site = SiteProtected then membership else None) of
        None \<Rightarrow> just collections_unavailable
      | Some mem \<Rightarrow>
          (if \<not> site_origin_matches (si_parse_url env) request (vs_name site) (en_base_domain env)
           then just (json_error 403 ''invalid_origin'' ''The request origin does not match this Vibe site.'')
           else if \<not> valid_collection_name collection
           then just (json_error 400 ''invalid_collection''
             ''Collection names must be 1-64 ASCII letters, digits, underscores, or hyphens.'')
           else if MAX_COLLECTION_REQUEST_BYTES < length (rq_body request)
           then just (json_error 413 ''request_too_large'' ''The collection request is too large.'')
           else case si_parse_request env (rq_body request) of
             None \<Rightarrow> just (json_error 400 ''invalid_request'' ''The collection request is invalid.'')
           | Some parsed \<Rightarrow>
               (case collection_storage_operation (si_parse_uuid env) parsed of
                  Inl (code, message) \<Rightarrow> just (json_error 400 code message)
                | Inr (operation, single) \<Rightarrow>
                    (case si_execute env now (vs_id site) collection (vm_user_id mem) operation of
                       Inl e \<Rightarrow> just (json_error 503 ''collection_unavailable'' ''The collection is temporarily unavailable.'')
                     | Inr outcome \<Rightarrow> collection_reply site collection single outcome))))"

definition upgrade_reply :: "'id site_env \<Rightarrow> http_request \<Rightarrow> socket_task \<Rightarrow> web_reply" where
  "upgrade_reply env request task =
     (case si_upgrade env request of
        Inl rejection \<Rightarrow> just rejection
      | Inr accepted \<Rightarrow> \<lparr>wr_response = accepted, wr_socket = Some task, wr_published = None\<rparr>)"

definition collection_watch_upgrade ::
  "'id site_env \<Rightarrow> http_request \<Rightarrow> vibe_site \<Rightarrow> vibe_membership option \<Rightarrow> string \<Rightarrow> web_reply" where
  "collection_watch_upgrade env request site membership collection =
     (if vs_access site \<noteq> SiteProtected \<or> membership = None then just collections_unavailable
      else if \<not> valid_collection_name collection
      then just (json_error 400 ''invalid_collection'' ''The collection name is invalid.'')
      else if \<not> site_origin_matches (si_parse_url env) request (vs_name site) (en_base_domain env)
      then just (json_error 403 ''invalid_origin'' ''The WebSocket origin does not match this Vibe site.'')
      else upgrade_reply env request (ServeWatch site collection))"

definition room_upgrade :: "'id site_env \<Rightarrow> http_request \<Rightarrow> vibe_site \<Rightarrow> vibe_membership option \<Rightarrow> web_reply" where
  "room_upgrade env request site membership =
     (if \<not> site_origin_matches (si_parse_url env) request (vs_name site) (en_base_domain env)
      then just (json_error 403 ''invalid_origin'' ''The WebSocket origin does not match this Vibe site.'')
      else upgrade_reply env request (ServeRoom site membership))"

definition vibe_api ::
  "'id site_env \<Rightarrow> http_request \<Rightarrow> vibe_site \<Rightarrow> vibe_membership option \<Rightarrow> call_time \<Rightarrow> web_reply" where
  "vibe_api env request site membership now =
     (let path = rq_path request; is_get = rq_method request = MethodGet; is_post = rq_method request = MethodPost in
      case (if is_get then static_vibe_api env path else None) of
        Some response \<Rightarrow> just response
      | None \<Rightarrow>
          (case (if is_get then collection_watch_path path else None) of
             Some collection \<Rightarrow> collection_watch_upgrade env request site membership collection
           | None \<Rightarrow>
               (case (if is_post then collection_operation_path path else None) of
                  Some collection \<Rightarrow> collection_operation env request site membership collection now
                | None \<Rightarrow>
                    (if is_get \<and> path = ''/__vibe/api/v1/identity'' then just (identity_response site membership)
                     else if is_get \<and> path = ''/__vibe/api/v1/rooms'' then room_upgrade env request site membership
                     else just (status_response 404)))))"

section \<open>Requests for a site\<close>

text \<open>The response to a visitor who is not let through to a protected site.\<close>

definition refused_visit :: "vibe_site \<Rightarrow> http_response \<Rightarrow> http_response" where
  "refused_visit site response =
     secured (if vs_status site = SiteArchived \<and> rs_status response \<noteq> 503 then status_response 404 else response)"

definition serve_site ::
  "'id site_env \<Rightarrow> http_request \<Rightarrow> vibe_site \<Rightarrow> vibe_membership option \<Rightarrow> call_time \<Rightarrow> web_reply" where
  "serve_site env request site membership now =
     (if vs_status site \<noteq> SiteActive then just (secured (error_page 410 ''This site is not available.''))
      else secured_reply
        (if starts_with (rq_path request) ''/__vibe/'' then vibe_api env request site membership now
         else just (serve_site_file env site (rq_path request) (is_document request))))"

definition site_request ::
  "'id site_env \<Rightarrow> string \<Rightarrow> http_request \<Rightarrow> call_time \<Rightarrow> vibe_caches \<Rightarrow> web_reply \<times> vibe_caches" where
  "site_request env name request now st =
     (case en_find_site env now name of
        Inl e \<Rightarrow> (just (secured (error_page 503 ''site unavailable'')), st)
      | Inr None \<Rightarrow> (just (status_response 404), st)
      | Inr (Some site) \<Rightarrow>
          (if \<not> guild_is_allowed (en_allowed_guilds env) (vs_platform site) (vs_guild_id site)
           then (just (status_response 404), st)
           else case vs_access site of
             SitePublic \<Rightarrow> (serve_site env request site None now, st)
           | SiteProtected \<Rightarrow>
               (case authorize (vibe_env.truncate env) site request now st of
                  (Inl response, st) \<Rightarrow> (just (refused_visit site response), st)
                | (Inr (_, mem), st) \<Rightarrow> (serve_site env request site (Some mem) now, st))))"

section \<open>The source browser\<close>

definition query_map :: "'id site_env \<Rightarrow> http_request \<Rightarrow> (string, string) btree_map" where
  "query_map env request = btm_of_list (si_query_pairs env (unwrap_or (rq_query request) []))"

definition revision_json :: "vibe_revision \<Rightarrow> json" where
  "revision_json r =
     json_object
       [(''ordinal'', JNumber (dec_int (rv_ordinal r))), (''message'', JString (rv_message r)),
        (''authorId'', JString (rv_actor_user_id r)), (''createdAt'', rv_created_at r)]"

definition source_view :: "'id site_env \<Rightarrow> vibe_site \<Rightarrow> vibe_revision list \<Rightarrow> json \<Rightarrow> http_response" where
  "source_view env site revisions view =
     secured (json_response 200 (json_object
       [(''site'', json_object [(''name'', JString (vs_name site)),
           (''url'', JString (''https://'' @ vs_name site @ CHR ''.'' # en_base_domain env))]),
        (''revisions'', JArray (map revision_json revisions)), (''view'', view)]))"

definition by_ordinal :: "vibe_revision list \<Rightarrow> string option \<Rightarrow> vibe_revision option" where
  "by_ordinal revisions ordinal =
     Option.bind (Option.bind ordinal parse_i32) (\<lambda>n. List.find (\<lambda>r. rv_ordinal r = n) revisions)"

definition view_diff :: "'id site_env \<Rightarrow> vibe_site \<Rightarrow> vibe_revision list \<Rightarrow> vibe_revision \<Rightarrow> vibe_revision \<Rightarrow> http_response" where
  "view_diff env site revisions a b =
     (case fst (diff_commits (si_git env) (si_disk env) (vs_id site) (rv_commit_oid a) (rv_commit_oid b) []) of
        Inl e \<Rightarrow> status_response 404
      | Inr body \<Rightarrow> source_view env site revisions (json_object
          [(''kind'', JString ''diff''), (''from'', JNumber (dec_int (rv_ordinal a))), (''to'', JNumber (dec_int (rv_ordinal b))),
           (''text'', JString body)]))"

definition view_revision :: "'id site_env \<Rightarrow> vibe_site \<Rightarrow> vibe_revision list \<Rightarrow> string option \<Rightarrow> vibe_revision \<Rightarrow> http_response" where
  "view_revision env site revisions path selected =
     (case path of
        Some path \<Rightarrow>
          (case fst (read_source_file (si_git env) (si_disk env) (vs_id site) (rv_commit_oid selected) path []) of
             Inl e \<Rightarrow> status_response 404
           | Inr content \<Rightarrow> source_view env site revisions (json_object
               [(''kind'', JString ''file''), (''revision'', JNumber (dec_int (rv_ordinal selected))), (''path'', JString path),
                (''text'', JString content)]))
      | None \<Rightarrow>
          source_view env site revisions (json_object
            [(''kind'', JString ''tree''), (''revision'', JNumber (dec_int (rv_ordinal selected))),
             (''files'', JArray (map JString
               (case fst (list_files (si_git env) (si_disk env) (vs_id site) (rv_commit_oid selected) []) of
                  Inl e \<Rightarrow> [] | Inr files \<Rightarrow> files)))]))"

definition source_api :: "'id site_env \<Rightarrow> vibe_site \<Rightarrow> http_request \<Rightarrow> http_response" where
  "source_api env site request =
     (case si_revisions env (vs_id site) of
        Inl e \<Rightarrow> error_page 503 ''source unavailable''
      | Inr revisions \<Rightarrow>
          (let query = query_map env request in
           case (by_ordinal revisions (btm_get query ''from''), by_ordinal revisions (btm_get query ''to'')) of
             (Some a, Some b) \<Rightarrow> view_diff env site revisions a b
           | _ \<Rightarrow>
               (case or_else (by_ordinal revisions (btm_get query ''revision''))
                       (case revisions of [] \<Rightarrow> None | r # _ \<Rightarrow> Some r) of
                  None \<Rightarrow> error_page 503 ''source history is empty''
                | Some selected \<Rightarrow> view_revision env site revisions (btm_get query ''path'') selected)))"

definition source_page :: "'id site_env \<Rightarrow> http_response" where
  "source_page env =
     (let index = path_join (si_frontend_dir env) ''index.html'' in
      case si_read_file env index of
        Some bytes \<Rightarrow> secured (file_response (si_mime env) index bytes)
      | None \<Rightarrow> error_page 503 ''source browser unavailable'')"

definition source_asset :: "'id site_env \<Rightarrow> string \<Rightarrow> http_response" where
  "source_asset env asset =
     (case safe_url_path (si_decode env) asset of
        None \<Rightarrow> status_response 404
      | Some relative \<Rightarrow>
          (let file = path_join (path_join (si_frontend_dir env) ''assets'') relative in
           case si_read_file env file of
             None \<Rightarrow> status_response 404
           | Some bytes \<Rightarrow> secured (file_response (si_mime env) file bytes)))"

definition source_site_request ::
  "'id site_env \<Rightarrow> bool \<Rightarrow> string \<Rightarrow> http_request \<Rightarrow> call_time \<Rightarrow> vibe_caches \<Rightarrow> http_response \<times> vibe_caches" where
  "source_site_request env is_api name request now st =
     (case en_find_site env now name of
        Inr (Some site) \<Rightarrow>
          (if \<not> guild_is_allowed (en_allowed_guilds env) (vs_platform site) (vs_guild_id site) then (status_response 404, st)
           else case authorize (vibe_env.truncate env) site request now st of
             (Inl response, st) \<Rightarrow> (response, st)
           | (Inr _, st) \<Rightarrow>
               (if vs_status site \<noteq> SiteActive then error_page 410 ''This site is not available.''
                else if is_api then source_api env site request else source_page env, st))
      | _ \<Rightarrow> (status_response 404, st))"

definition source_request ::
  "'id site_env \<Rightarrow> http_request \<Rightarrow> call_time \<Rightarrow> vibe_caches \<Rightarrow> http_response \<times> vibe_caches" where
  "source_request env request now st =
     (if rq_method request \<noteq> MethodGet then (status_response 405, st)
      else case strip_prefix ''/assets/'' (rq_path request) of
        Some asset \<Rightarrow> (source_asset env asset, st)
      | None \<Rightarrow>
          (let api = strip_prefix ''/api/vibe/source/'' (rq_path request);
               page = strip_prefix ''/sites/'' (rq_path request)
           in case Option.bind (or_else api page) one_segment of
                None \<Rightarrow> (html_page 200 ''<main><h1>Vibe source</h1><p>Open a source link shared in Discord.</p></main>'', st)
              | Some name \<Rightarrow> source_site_request env (api \<noteq> None) name request now st))"

end
