(* ===== verification/Store_Collections.thy ===== *)
theory Store_Collections
  imports Web_Vibe
begin

text \<open>
  Vibe collections in the database: \<open>execute_collection_operation\<close> of \<open>chudbot-storage-sqlx/src/vibe.rs\<close> with its
  filters, ordering, paging and projection. The statements are read as operations on the rows of
  \<open>vibe_collection_documents\<close>, whose primary key is site, collection and document id. A statement that fails makes the
  transaction roll back. How ids, instants and numbers print or convert is library code: a parameter.
\<close>

section \<open>Documents\<close>

record 'id collection_document =
  cd_id :: 'id
  cd_fields :: "(string, json) btree_map"
  cd_inserted_by :: string
  cd_inserted_at :: int
  cd_updated_by :: string
  cd_updated_at :: int

text \<open>\<open>cl_as_f64\<close>: the number of a literal, in the order of the finite floats.\<close>

record ('id, 'f) collection_library =
  cl_print_id :: "'id \<Rightarrow> string"
  cl_print_time :: "int \<Rightarrow> string"
  cl_as_f64 :: "string \<Rightarrow> 'f option"

definition system_columns :: "string list" where
  "system_columns = [''id'', ''inserted_by'', ''inserted_at'', ''updated_by'', ''updated_at'']"

definition collection_document_column ::
  "('id, 'f) collection_library \<Rightarrow> 'id collection_document \<Rightarrow> string \<Rightarrow> json option" where
  "collection_document_column lib document column =
     (if column = ''id'' then Some (JString (cl_print_id lib (cd_id document)))
      else if column = ''inserted_by'' then Some (JString (cd_inserted_by document))
      else if column = ''inserted_at'' then Some (JString (cl_print_time lib (cd_inserted_at document)))
      else if column = ''updated_by'' then Some (JString (cd_updated_by document))
      else if column = ''updated_at'' then Some (JString (cl_print_time lib (cd_updated_at document)))
      else btm_get (cd_fields document) column)"

text \<open>The members in the order they are serialised; a later one replaces an earlier one of the same name.\<close>

definition document_members :: "('id, 'f) collection_library \<Rightarrow> 'id collection_document \<Rightarrow> (string, json) btree_map" where
  "document_members lib document =
     btm_of_list ((''id'', JString (cl_print_id lib (cd_id document))) # cd_fields document @
       [(''inserted_by'', JString (cd_inserted_by document)),
        (''inserted_at'', JString (cl_print_time lib (cd_inserted_at document))),
        (''updated_by'', JString (cd_updated_by document)),
        (''updated_at'', JString (cl_print_time lib (cd_updated_at document)))])"

definition document_value ::
  "('id, 'f) collection_library \<Rightarrow> 'id collection_document \<Rightarrow> string list option \<Rightarrow> json" where
  "document_value lib document select =
     (let all = document_members lib document in
      case select of
        None \<Rightarrow> JObject all
      | Some columns \<Rightarrow>
          JObject (btm_of_list (List.map_filter (\<lambda>column. map_option (Pair column) (btm_get all column)) columns)))"

section \<open>Queries\<close>

definition collection_document_matches ::
  "('id, 'f) collection_library \<Rightarrow> 'id collection_document \<Rightarrow> (string, json) btree_map \<Rightarrow> bool" where
  "collection_document_matches lib document filters =
     list_all (\<lambda>(column, expected).
       case collection_document_column lib document column of
         None \<Rightarrow> False
       | Some actual \<Rightarrow>
           is_json_scalar actual
           \<and> (case expected of
                JArray values \<Rightarrow> list_ex (\<lambda>v. is_json_scalar v \<and> v = actual) values
              | v \<Rightarrow> is_json_scalar v \<and> v = actual)) filters"

datatype ordering = Less | Equal | Greater

definition compare_values :: "'a :: linorder \<Rightarrow> 'a \<Rightarrow> ordering" where
  "compare_values a b = (if a < b then Less else if a = b then Equal else Greater)"

definition directed_order :: "ordering \<Rightarrow> order_direction \<Rightarrow> ordering" where
  "directed_order ord direction =
     (case direction of
        OrderAsc \<Rightarrow> ord
      | OrderDesc \<Rightarrow> (case ord of Less \<Rightarrow> Greater | Equal \<Rightarrow> Equal | Greater \<Rightarrow> Less))"

datatype 'f sortable = SortNumber 'f | SortText string

definition sortable_collection_value :: "('id, 'f) collection_library \<Rightarrow> json option \<Rightarrow> 'f sortable option" where
  "sortable_collection_value lib value =
     (case value of
        Some (JNumber n) \<Rightarrow> map_option SortNumber (cl_as_f64 lib n)
      | Some (JString t) \<Rightarrow> Some (SortText t)
      | _ \<Rightarrow> None)"

fun compare_sortable :: "'f :: linorder sortable option \<Rightarrow> 'f sortable option \<Rightarrow> order_direction \<Rightarrow> ordering" where
  "compare_sortable (Some (SortNumber a)) (Some (SortNumber b)) direction = directed_order (compare_values a b) direction"
| "compare_sortable (Some (SortText a)) (Some (SortText b)) direction = directed_order (compare_values a b) direction"
| "compare_sortable (Some (SortNumber _)) (Some (SortText _)) direction = directed_order Less direction"
| "compare_sortable (Some (SortText _)) (Some (SortNumber _)) direction = directed_order Greater direction"
| "compare_sortable (Some _) None direction = Less"
| "compare_sortable None (Some _) direction = Greater"
| "compare_sortable None None direction = Equal"

definition compare_collection_values ::
  "('id, 'f :: linorder) collection_library \<Rightarrow> json option \<Rightarrow> json option \<Rightarrow> order_direction \<Rightarrow> ordering" where
  "compare_collection_values lib left right direction =
     compare_sortable (sortable_collection_value lib left) (sortable_collection_value lib right) direction"

fun compare_collection_documents ::
  "('id, 'f :: linorder) collection_library \<Rightarrow> collection_order list
     \<Rightarrow> 'id collection_document \<Rightarrow> 'id collection_document \<Rightarrow> ordering" where
  "compare_collection_documents lib [] left right = Equal"
| "compare_collection_documents lib (item # order) left right =
     (let ord = compare_collection_values lib (collection_document_column lib left (or_column item))
            (collection_document_column lib right (or_column item)) (or_direction item)
      in if ord \<noteq> Equal then ord else compare_collection_documents lib order left right)"

text \<open>\<open>slice::sort_by\<close>, the stable sort: an element stays before the later ones it equals.\<close>

fun insert_by :: "('a \<Rightarrow> 'a \<Rightarrow> ordering) \<Rightarrow> 'a \<Rightarrow> 'a list \<Rightarrow> 'a list" where
  "insert_by cmp x [] = [x]"
| "insert_by cmp x (y # ys) = (if cmp x y = Greater then y # insert_by cmp x ys else x # y # ys)"

fun stable_sort_by :: "('a \<Rightarrow> 'a \<Rightarrow> ordering) \<Rightarrow> 'a list \<Rightarrow> 'a list" where
  "stable_sort_by cmp [] = []"
| "stable_sort_by cmp (x # xs) = insert_by cmp x (stable_sort_by cmp xs)"

definition ordered_documents ::
  "('id, 'f :: linorder) collection_library \<Rightarrow> collection_query \<Rightarrow> 'id collection_document list \<Rightarrow> 'id collection_document list" where
  "ordered_documents lib query documents =
     (if cq_order_by query = [] then documents
      else stable_sort_by (compare_collection_documents lib (cq_order_by query)) documents)"

definition select_collection_documents ::
  "('id, 'f :: linorder) collection_library \<Rightarrow> 'id collection_document list \<Rightarrow> collection_query \<Rightarrow> 'id collection_document list" where
  "select_collection_documents lib documents query =
     (let documents = filter (\<lambda>document. collection_document_matches lib document (cq_filters query)) documents;
          offset = unat (cq_offset query);
          limit = (case cq_limit query of None \<Rightarrow> 2 ^ 64 - 1 | Some n \<Rightarrow> unat n)
      in take limit (drop offset (ordered_documents lib query documents)))"

definition push_projected ::
  "('id, 'f) collection_library \<Rightarrow> collection_query \<Rightarrow> 'id collection_document \<Rightarrow> json list \<Rightarrow> json list" where
  "push_projected lib query document values =
     (let value = document_value lib document (cq_select query) in
      if \<not> cq_distinct query \<or> value \<notin> set values then values @ [value] else values)"

definition project_collection_documents ::
  "('id, 'f) collection_library \<Rightarrow> 'id collection_document list \<Rightarrow> collection_query \<Rightarrow> json list" where
  "project_collection_documents lib documents query = fold (push_projected lib query) documents []"

section \<open>The table\<close>

record 'id collection_row =
  cr_site :: string
  cr_collection :: string
  cr_document :: "'id collection_document"

record 'id collection_store =
  ct_access :: "string \<rightharpoonup> vibe_site_access"
  ct_rows :: "'id collection_row list"

definition in_collection :: "string \<Rightarrow> string \<Rightarrow> 'id collection_row \<Rightarrow> bool" where
  "in_collection site collection row \<longleftrightarrow> cr_site row = site \<and> cr_collection row = collection"

definition has_key :: "string \<Rightarrow> string \<Rightarrow> 'id \<Rightarrow> 'id collection_row \<Rightarrow> bool" where
  "has_key site collection i row \<longleftrightarrow> in_collection site collection row \<and> cd_id (cr_document row) = i"

definition load_collection_documents ::
  "'id :: linorder collection_store \<Rightarrow> string \<Rightarrow> string \<Rightarrow> 'id collection_document list" where
  "load_collection_documents store site collection =
     sort_key cd_id (map cr_document (filter (in_collection site collection) (ct_rows store)))"

text \<open>What a call finds: the instant, the next random id, and whether some statement fails.\<close>

record 'id collection_call =
  kc_now :: int
  kc_new_id :: 'id
  kc_fault :: "string option"

definition change_of ::
  "('id, 'f) collection_library \<Rightarrow> change_kind \<Rightarrow> 'id collection_document option \<Rightarrow> 'id collection_document option
     \<Rightarrow> collection_change" where
  "change_of lib kind before after =
     \<lparr>cc_kind = kind, cc_before = map_option (\<lambda>d. document_value lib d None) before,
      cc_after = map_option (\<lambda>d. document_value lib d None) after\<rparr>"

definition written :: "('id, 'f) collection_library \<Rightarrow> collection_change \<Rightarrow> 'id collection_document \<Rightarrow> collection_outcome" where
  "written lib change after = OutcomeDocuments [document_value lib after None] [change]"

definition insert_document ::
  "('id, 'f) collection_library \<Rightarrow> 'id collection_call \<Rightarrow> string \<Rightarrow> string \<Rightarrow> string \<Rightarrow> (string, json) btree_map
     \<Rightarrow> 'id collection_store \<Rightarrow> (string + collection_outcome) \<times> 'id collection_store" where
  "insert_document lib call site collection actor members store =
     (if list_ex (has_key site collection (kc_new_id call)) (ct_rows store) then (Inl ''duplicate key'', store)
      else
        (let document = \<lparr>cd_id = kc_new_id call, cd_fields = members, cd_inserted_by = actor, cd_inserted_at = kc_now call,
               cd_updated_by = actor, cd_updated_at = kc_now call\<rparr>
         in (Inr (written lib (change_of lib ChangeInsert None (Some document)) document),
             store\<lparr>ct_rows := ct_rows store @
               [\<lparr>cr_site = site, cr_collection = collection, cr_document = document\<rparr>]\<rparr>)))"

definition update_document ::
  "('id, 'f) collection_library \<Rightarrow> 'id collection_call \<Rightarrow> string \<Rightarrow> string \<Rightarrow> string \<Rightarrow> 'id \<Rightarrow> (string, json) btree_map
     \<Rightarrow> 'id collection_store \<Rightarrow> (string + collection_outcome) \<times> 'id collection_store" where
  "update_document lib call site collection actor i members store =
     (case List.find (has_key site collection i) (ct_rows store) of
        None \<Rightarrow> (Inr OutcomeMissingDocument, store)
      | Some row \<Rightarrow>
          (let before = cr_document row;
               after = before\<lparr>cd_fields := members, cd_updated_by := actor, cd_updated_at := kc_now call\<rparr>
           in (Inr (written lib (change_of lib ChangeUpdate (Some before) (Some after)) after),
               store\<lparr>ct_rows := map (\<lambda>r. if has_key site collection i r then r\<lparr>cr_document := after\<rparr> else r)
                 (ct_rows store)\<rparr>)))"

definition write_document ::
  "('id, 'f) collection_library \<Rightarrow> 'id collection_call \<Rightarrow> string \<Rightarrow> string \<Rightarrow> string \<Rightarrow> write_mode \<Rightarrow> 'id option
     \<Rightarrow> (string, json) btree_map \<Rightarrow> 'id collection_store \<Rightarrow> (string + collection_outcome) \<times> 'id collection_store" where
  "write_document lib call site collection actor mode i members store =
     (case (mode, i) of
        (WritePut, None) \<Rightarrow> insert_document lib call site collection actor members store
      | (WriteInsert, None) \<Rightarrow> insert_document lib call site collection actor members store
      | (WritePut, Some i) \<Rightarrow> update_document lib call site collection actor i members store
      | (WriteUpdate, Some i) \<Rightarrow> update_document lib call site collection actor i members store
      | _ \<Rightarrow> (Inr OutcomeMissingDocument, store))"

definition delete_documents ::
  "('id :: linorder, 'f :: linorder) collection_library \<Rightarrow> string \<Rightarrow> string \<Rightarrow> collection_query \<Rightarrow> bool
     \<Rightarrow> 'id collection_store \<Rightarrow> collection_outcome \<times> 'id collection_store" where
  "delete_documents lib site collection query one store =
     (let selected = select_collection_documents lib (load_collection_documents store site collection) query in
      if one \<and> 1 < length selected then (OutcomeTooManyDocuments, store)
      else (OutcomeDocuments (project_collection_documents lib selected query)
              (map (\<lambda>document. change_of lib ChangeDelete (Some document) None) selected),
            store\<lparr>ct_rows := filter (\<lambda>r. \<not> (in_collection site collection r \<and> cd_id (cr_document r) \<in> set (map cd_id selected)))
              (ct_rows store)\<rparr>))"

definition run_collection_operation ::
  "('id :: linorder, 'f :: linorder) collection_library \<Rightarrow> 'id collection_call \<Rightarrow> string \<Rightarrow> string \<Rightarrow> string
     \<Rightarrow> 'id vibe_collection_operation \<Rightarrow> 'id collection_store
     \<Rightarrow> (string + collection_outcome) \<times> 'id collection_store" where
  "run_collection_operation lib call site collection actor operation store =
     (let documents = load_collection_documents store site collection in
      case operation of
        CollectionWrite mode i members \<Rightarrow> write_document lib call site collection actor mode i members store
      | CollectionFind query \<Rightarrow>
          (Inr (OutcomeDocuments
             (project_collection_documents lib (select_collection_documents lib documents query) query) []), store)
      | CollectionCount query \<Rightarrow>
          (Inr (OutcomeCount
             (of_nat (length (project_collection_documents lib (select_collection_documents lib documents query) query)))),
           store)
      | CollectionDelete query one \<Rightarrow> map_prod Inr id (delete_documents lib site collection query one store))"

text \<open>A failed statement drops the transaction, which rolls it back.\<close>

definition execute_collection_operation ::
  "('id :: linorder, 'f :: linorder) collection_library \<Rightarrow> 'id collection_call \<Rightarrow> string \<Rightarrow> string \<Rightarrow> string
     \<Rightarrow> 'id vibe_collection_operation \<Rightarrow> 'id collection_store
     \<Rightarrow> (string + collection_outcome) \<times> 'id collection_store" where
  "execute_collection_operation lib call site collection actor operation store =
     (case kc_fault call of
        Some message \<Rightarrow> (Inl message, store)
      | None \<Rightarrow>
          (if ct_access store site \<noteq> Some SiteProtected then (Inr OutcomeUnavailable, store)
           else run_collection_operation lib call site collection actor operation store))"

end
