(* ===== verification/Store_Collections_Props.thy ===== *)
theory Store_Collections_Props
  imports Store_Collections "HOL-Library.Multiset"
begin

text \<open>
  What the collections of a Vibe site promise: queries are exact and ordered, writes are attributed to their
  author, and the changes an operation publishes keep every live copy of a query current.
\<close>

section \<open>The stable sort\<close>

text \<open>What a comparison function owes \<open>sort_by\<close>: a total preorder.\<close>

locale stable_order =
  fixes cmp :: "'a \<Rightarrow> 'a \<Rightarrow> ordering"
  assumes reflexive: "cmp x x = Equal"
    and converse: "cmp x y = Greater \<longleftrightarrow> cmp y x = Less"
    and transitive: "cmp x y \<noteq> Greater \<Longrightarrow> cmp y z \<noteq> Greater \<Longrightarrow> cmp x z \<noteq> Greater"
begin

lemma equal_iff: "cmp x y = Equal \<longleftrightarrow> cmp x y \<noteq> Greater \<and> cmp y x \<noteq> Greater"
  using converse [of x y] converse [of y x] by (cases "cmp x y") auto

lemma equal_trans: "cmp z x = Equal \<Longrightarrow> cmp z y = Equal \<Longrightarrow> cmp x y = Equal"
  using equal_iff transitive by metis

lemma total: "cmp x y = Greater \<Longrightarrow> cmp y x \<noteq> Greater"
  using converse by simp

lemma insert_mset: "mset (insert_by cmp x ys) = add_mset x (mset ys)"
  by (induction ys) simp_all

lemma insert_set: "set (insert_by cmp x ys) = insert x (set ys)"
  by (induction ys) auto

lemma insert_sorted:
  "sorted_wrt (\<lambda>a b. cmp a b \<noteq> Greater) ys \<Longrightarrow> sorted_wrt (\<lambda>a b. cmp a b \<noteq> Greater) (insert_by cmp x ys)"
proof (induction ys)
  case (Cons y ys)
  show ?case
  proof (cases "cmp x y = Greater")
    case True
    then show ?thesis using Cons total by (auto simp: insert_set)
  next
    case False
    then show ?thesis using Cons.prems transitive [of x y] by auto
  qed
qed simp

lemma insert_stable: "filter (\<lambda>y. cmp z y = Equal) (insert_by cmp x ys) = filter (\<lambda>y. cmp z y = Equal) (x # ys)"
proof (induction ys)
  case (Cons y ys)
  have "\<not> (cmp z x = Equal \<and> cmp z y = Equal)" if "cmp x y = Greater"
    using that equal_trans [of z x y] by auto
  then show ?case using Cons by auto
qed simp

lemma sort_mset: "mset (stable_sort_by cmp xs) = mset xs"
  by (induction xs) (simp_all add: insert_mset)

lemma sort_sorted: "sorted_wrt (\<lambda>a b. cmp a b \<noteq> Greater) (stable_sort_by cmp xs)"
  by (induction xs) (simp_all add: insert_sorted)

lemma sort_stable: "filter (\<lambda>y. cmp z y = Equal) (stable_sort_by cmp xs) = filter (\<lambda>y. cmp z y = Equal) xs"
  by (induction xs) (simp_all add: insert_stable)

end

lemma directed_order_laws:
  "directed_order (compare_values a a) direction = Equal"
  "directed_order (compare_values a b) direction = Greater \<longleftrightarrow> directed_order (compare_values b a) direction = Less"
  "directed_order (compare_values a b) direction \<noteq> Greater \<longleftrightarrow> (case direction of OrderAsc \<Rightarrow> a \<le> b | OrderDesc \<Rightarrow> b \<le> a)"
  by (auto simp: directed_order_def compare_values_def split: order_direction.split)

lemma compare_sortable_refl: "compare_sortable a a direction = Equal"
  by (cases a; cases "the a") (auto simp: directed_order_laws)

lemma compare_sortable_converse:
  "compare_sortable a b direction = Greater \<longleftrightarrow> compare_sortable b a direction = Less"
  by (cases a; cases b; cases "the a"; cases "the b"; cases direction)
    (auto simp: directed_order_laws(2) directed_order_def compare_values_def)

lemma compare_sortable_trans:
  assumes "compare_sortable a b direction \<noteq> Greater" and "compare_sortable b c direction \<noteq> Greater"
  shows "compare_sortable a c direction \<noteq> Greater"
  using assms
  by (cases a; cases b; cases c; cases "the a"; cases "the b"; cases "the c"; cases direction)
    (auto simp: directed_order_def compare_values_def split: if_splits)

interpretation sortable_order: stable_order "\<lambda>a b. compare_sortable a b direction"
  by unfold_locales (simp add: compare_sortable_refl, rule compare_sortable_converse, rule compare_sortable_trans)

text \<open>Comparing by one key after the other keeps the laws.\<close>

definition sort_value :: "('id, 'f) collection_library \<Rightarrow> collection_order \<Rightarrow> 'id collection_document \<Rightarrow> 'f sortable option" where
  "sort_value lib item d = sortable_collection_value lib (collection_document_column lib d (or_column item))"

lemma compare_documents_step:
  "compare_collection_documents lib (item # order) a b =
     (if compare_sortable (sort_value lib item a) (sort_value lib item b) (or_direction item) \<noteq> Equal
      then compare_sortable (sort_value lib item a) (sort_value lib item b) (or_direction item)
      else compare_collection_documents lib order a b)"
  by (simp add: sort_value_def compare_collection_values_def)

lemma compare_documents_refl: "compare_collection_documents lib order x x = Equal"
  by (induction order) (simp_all add: compare_documents_step compare_sortable_refl del: compare_collection_documents.simps(2))

lemma compare_documents_converse:
  "compare_collection_documents lib order x y = Greater \<longleftrightarrow> compare_collection_documents lib order y x = Less"
proof (induction order)
  case (Cons item order)
  let ?c = "\<lambda>a b. compare_sortable (sort_value lib item a) (sort_value lib item b) (or_direction item)"
  have "?c x y = Equal \<longleftrightarrow> ?c y x = Equal" by (simp add: sortable_order.equal_iff conj_commute)
  moreover have "?c x y = Greater \<longleftrightarrow> ?c y x = Less" by (rule compare_sortable_converse)
  ultimately show ?case using Cons by (simp add: compare_documents_step del: compare_collection_documents.simps(2))
qed simp

lemma compare_documents_trans:
  assumes "compare_collection_documents lib order x y \<noteq> Greater"
    and "compare_collection_documents lib order y z \<noteq> Greater"
  shows "compare_collection_documents lib order x z \<noteq> Greater"
  using assms
proof (induction order)
  case (Cons item order)
  let ?c = "\<lambda>a b. compare_sortable (sort_value lib item a) (sort_value lib item b) (or_direction item)"
  have not_greater: "?c x y \<noteq> Greater" "?c y z \<noteq> Greater"
    using Cons.prems by (auto simp: compare_documents_step simp del: compare_collection_documents.simps(2) split: if_splits)
  then have "?c x z \<noteq> Greater" by (rule compare_sortable_trans)
  moreover have "?c x y = Equal \<and> ?c y z = Equal" if "?c x z = Equal"
    using that not_greater sortable_order.equal_iff compare_sortable_trans by blast
  ultimately show ?case
    using Cons by (auto simp: compare_documents_step simp del: compare_collection_documents.simps(2) split: if_splits)
qed simp

interpretation collection_order: stable_order "compare_collection_documents lib order"
  by unfold_locales (simp add: compare_documents_refl, rule compare_documents_converse, rule compare_documents_trans)

section \<open>Documents and their filters\<close>

text \<open>A stored document: its members are a map, and none of them is a system column.\<close>

definition document_ok :: "'id collection_document \<Rightarrow> bool" where
  "document_ok d \<longleftrightarrow> btm_invar (cd_fields d) \<and> fst ` set (cd_fields d) \<inter> set system_columns = {}"

lemma map_of_rev_distinct: "distinct (map fst xs) \<Longrightarrow> map_of (rev xs) = map_of xs"
proof
  fix k
  assume "distinct (map fst xs)"
  then have "map_of (rev xs) k = Some y \<longleftrightarrow> map_of xs k = Some y" for y
    by (simp add: map_of_eq_Some_iff rev_map [symmetric])
  then show "map_of (rev xs) k = map_of xs k" by (cases "map_of xs k") auto
qed

lemma document_members_get:
  assumes "document_ok d"
  shows "btm_get (document_members lib d) column = collection_document_column lib d column"
proof -
  have "map_of (rev (cd_fields d)) = map_of (cd_fields d)"
    using assms by (simp add: document_ok_def btm_invar_def strict_sorted_iff map_of_rev_distinct)
  then have members: "btm_get (document_members lib d) column =
      (map_of [(''id'', JString (cl_print_id lib (cd_id d)))] ++ map_of (cd_fields d) ++ map_of
        [(''updated_at'', JString (cl_print_time lib (cd_updated_at d))), (''updated_by'', JString (cd_updated_by d)),
         (''inserted_at'', JString (cl_print_time lib (cd_inserted_at d))), (''inserted_by'', JString (cd_inserted_by d))]) column"
    by (simp add: document_members_def btm_of_list_get)
  show ?thesis
  proof (cases "column \<in> set system_columns")
    case True
    then have "map_of (cd_fields d) column = None"
      using assms by (auto simp: document_ok_def map_of_eq_None_iff)
    moreover have "column = ''id'' \<or> column = ''inserted_by'' \<or> column = ''inserted_at'' \<or> column = ''updated_by''
        \<or> column = ''updated_at''"
      using True by (simp add: system_columns_def)
    ultimately show ?thesis
      unfolding members collection_document_column_def by (elim disjE) (simp_all add: map_add_def)
  next
    case False
    then show ?thesis
      unfolding members collection_document_column_def
      by (simp add: system_columns_def map_add_def btm_get_def split: option.split)
  qed
qed

definition accepted :: "json option \<Rightarrow> json \<Rightarrow> bool" where
  "accepted column expected =
     (case column of None \<Rightarrow> False | Some actual \<Rightarrow> is_json_scalar actual \<and> filter_accepts expected actual)"

lemma accepted_iff:
  "accepted column expected \<longleftrightarrow>
     (case column of
        None \<Rightarrow> False
      | Some actual \<Rightarrow>
          is_json_scalar actual
          \<and> (case expected of
               JArray values \<Rightarrow> list_ex (\<lambda>v. is_json_scalar v \<and> v = actual) values
             | v \<Rightarrow> is_json_scalar v \<and> v = actual))"
  by (cases column; cases expected) (auto simp: accepted_def filter_accepts_def list_ex_iff)

text \<open>A watch accepts a document exactly when the query of the database does.\<close>

lemma watch_filter_agrees:
  assumes "document_ok d"
  shows "document_matches (Some (document_value lib d None)) filters \<longleftrightarrow> collection_document_matches lib d filters"
proof -
  have "document_matches (Some (document_value lib d None)) filters
      \<longleftrightarrow> list_all (\<lambda>(column, expected). accepted (collection_document_column lib d column) expected) filters"
    by (simp add: document_matches_def document_value_def document_members_get [OF assms] accepted_def)
  then show ?thesis by (simp add: collection_document_matches_def accepted_iff)
qed

section \<open>Queries\<close>

lemma ordered_documents_sort:
  "mset (ordered_documents lib query documents) = mset documents"
  "sorted_wrt (\<lambda>a b. compare_collection_documents lib (cq_order_by query) a b \<noteq> Greater) (ordered_documents lib query documents)"
  "filter (\<lambda>e. compare_collection_documents lib (cq_order_by query) d e = Equal) (ordered_documents lib query documents)
     = filter (\<lambda>e. compare_collection_documents lib (cq_order_by query) d e = Equal) documents"
proof -
  have unordered: "sorted_wrt (\<lambda>a b. compare_collection_documents lib [] a b \<noteq> Greater) xs" for xs
    by (induction xs) simp_all
  show "mset (ordered_documents lib query documents) = mset documents"
    by (simp add: ordered_documents_def collection_order.sort_mset)
  show "sorted_wrt (\<lambda>a b. compare_collection_documents lib (cq_order_by query) a b \<noteq> Greater) (ordered_documents lib query documents)"
  proof (cases "cq_order_by query = []")
    case True
    then show ?thesis using unordered by (simp add: ordered_documents_def)
  next
    case False
    then show ?thesis unfolding ordered_documents_def by (simp only: if_False) (rule collection_order.sort_sorted)
  qed
  show "filter (\<lambda>e. compare_collection_documents lib (cq_order_by query) d e = Equal) (ordered_documents lib query documents)
     = filter (\<lambda>e. compare_collection_documents lib (cq_order_by query) d e = Equal) documents"
    by (simp add: ordered_documents_def collection_order.sort_stable)
qed

lemma project_values:
  "project_collection_documents lib documents query =
     (let values = map (\<lambda>d. document_value lib d (cq_select query)) documents in
      if cq_distinct query then rev (remdups (rev values)) else values)"
proof -
  have all: "fold (push_projected lib query) documents acc = acc @ map (\<lambda>d. document_value lib d (cq_select query)) documents"
    if "\<not> cq_distinct query" for acc
    using that by (induction documents arbitrary: acc) (simp_all add: push_projected_def)
  have once: "fold (push_projected lib query) documents (rev (remdups (rev acc)))
      = rev (remdups (rev (acc @ map (\<lambda>d. document_value lib d (cq_select query)) documents)))"
    if "cq_distinct query" for acc
    using that
  proof (induction documents arbitrary: acc)
    case (Cons d documents)
    have "push_projected lib query d (rev (remdups (rev acc)))
        = rev (remdups (rev (acc @ [document_value lib d (cq_select query)])))"
      using Cons.prems by (simp add: push_projected_def)
    then show ?case using Cons.IH [OF Cons.prems, of "acc @ [document_value lib d (cq_select query)]"] by simp
  qed simp
  show ?thesis
    using all [of "[]"] once [of "[]"] by (simp add: project_collection_documents_def Let_def)
qed


section \<open>Live copies\<close>

text \<open>A table of sound documents under distinct keys.\<close>

definition row_key :: "'id collection_row \<Rightarrow> string \<times> string \<times> 'id" where
  "row_key row = (cr_site row, cr_collection row, cd_id (cr_document row))"

definition table_ok :: "'id collection_store \<Rightarrow> bool" where
  "table_ok store \<longleftrightarrow>
     list_all (\<lambda>row. document_ok (cr_document row)) (ct_rows store) \<and> distinct (map row_key (ct_rows store))"

text \<open>The members of a document are those a request may write.\<close>

definition members_ok :: "(string, json) btree_map \<Rightarrow> bool" where
  "members_ok members \<longleftrightarrow> btm_invar members \<and> fst ` set members \<inter> set system_columns = {}"

fun operation_ok :: "'id vibe_collection_operation \<Rightarrow> bool" where
  "operation_ok (CollectionWrite mode i members) = members_ok members"
| "operation_ok _ = True"

text \<open>The documents a watch with these filters is about.\<close>

definition live_documents ::
  "('id, 'f) collection_library \<Rightarrow> string \<Rightarrow> string \<Rightarrow> (string, json) btree_map \<Rightarrow> 'id collection_store \<Rightarrow> json set" where
  "live_documents lib site collection filters store =
     {document_value lib (cr_document row) None | row.
        row \<in> set (ct_rows store) \<and> in_collection site collection row
        \<and> collection_document_matches lib (cr_document row) filters}"

text \<open>What a watcher does with a change it is told of.\<close>

definition apply_change :: "(string, json) btree_map \<Rightarrow> collection_change \<Rightarrow> json set \<Rightarrow> json set" where
  "apply_change filters change copy =
     (copy - set_option (cc_before change)) \<union> {v. cc_after change = Some v \<and> document_matches (Some v) filters}"

definition concerns :: "(string, json) btree_map \<Rightarrow> collection_change \<Rightarrow> bool" where
  "concerns filters change \<longleftrightarrow> document_matches (cc_before change) filters \<or> document_matches (cc_after change) filters"

definition published_changes :: "string + collection_outcome \<Rightarrow> collection_change list" where
  "published_changes result = (case result of Inr (OutcomeDocuments values changes) \<Rightarrow> changes | _ \<Rightarrow> [])"

lemma unconcerned_change:
  assumes "\<not> concerns filters change" and "\<forall>v \<in> copy. document_matches (Some v) filters"
  shows "apply_change filters change copy = copy"
  using assms by (cases "cc_before change"; cases "cc_after change") (auto simp: apply_change_def concerns_def)

lemma apply_change_matching:
  "\<forall>v \<in> copy. document_matches (Some v) filters \<Longrightarrow> \<forall>v \<in> apply_change filters change copy. document_matches (Some v) filters"
  by (auto simp: apply_change_def)

lemma concerned_changes:
  assumes "\<forall>v \<in> copy. document_matches (Some v) filters"
  shows "fold (apply_change filters) (filter (concerns filters) changes) copy = fold (apply_change filters) changes copy"
  using assms
proof (induction changes arbitrary: copy)
  case (Cons change changes)
  show ?case
    using Cons.IH [of "apply_change filters change copy"] Cons.IH [of copy] Cons.prems
      apply_change_matching unconcerned_change by auto
qed simp

lemma live_documents_match:
  assumes "table_ok store" and "v \<in> live_documents lib site collection filters store"
  shows "document_matches (Some v) filters"
  using assms watch_filter_agrees by (fastforce simp: live_documents_def table_ok_def list_all_iff)

lemma document_value_id:
  assumes "document_value lib d None = document_value lib d' None" and "document_ok d" "document_ok d'"
    and "inj (cl_print_id lib)"
  shows "cd_id d = cd_id d'"
proof -
  have "document_members lib d = document_members lib d'" using assms(1) by (simp add: document_value_def)
  then have "collection_document_column lib d ''id'' = collection_document_column lib d' ''id''"
    using document_members_get assms(2,3) by metis
  then show ?thesis using assms(4) by (simp add: collection_document_column_def inj_eq)
qed

lemma row_of_key:
  assumes "table_ok store" and "row \<in> set (ct_rows store)" "row' \<in> set (ct_rows store)" "row_key row = row_key row'"
  shows "row = row'"
  using assms by (auto simp: table_ok_def distinct_map inj_on_def)

lemma live_documents_image:
  "live_documents lib site collection filters store =
     (\<lambda>row. document_value lib (cr_document row) None)
       ` set (filter (\<lambda>row. in_collection site collection row \<and> collection_document_matches lib (cr_document row) filters)
           (ct_rows store))"
  by (auto simp: live_documents_def)

lemma live_insert:
  assumes "table_ok store" and "members_ok members"
    and "insert_document lib call site collection actor members store = (result, store')"
  shows "table_ok store'
    \<and> live_documents lib site collection filters store'
        = fold (apply_change filters) (published_changes result) (live_documents lib site collection filters store)"
proof (cases "list_ex (has_key site collection (kc_new_id call)) (ct_rows store)")
  case True
  then show ?thesis using assms by (auto simp: insert_document_def published_changes_def)
next
  case False
  define d where "d = \<lparr>cd_id = kc_new_id call, cd_fields = members, cd_inserted_by = actor, cd_inserted_at = kc_now call,
    cd_updated_by = actor, cd_updated_at = kc_now call\<rparr>"
  define row where "row = \<lparr>cr_site = site, cr_collection = collection, cr_document = d\<rparr>"
  have store': "store' = store\<lparr>ct_rows := ct_rows store @ [row]\<rparr>"
    and result: "result = Inr (written lib (change_of lib ChangeInsert None (Some d)) d)"
    using assms(3) False by (auto simp: insert_document_def d_def row_def Let_def)
  have ok: "document_ok d" using assms(2) by (simp add: document_ok_def members_ok_def d_def)
  have new: "row_key row \<notin> row_key ` set (ct_rows store)"
    using False by (auto simp: row_key_def row_def d_def list_ex_iff has_key_def in_collection_def)
  have "table_ok store'" using assms(1) ok new by (simp add: store' table_ok_def row_def)
  moreover have "live_documents lib site collection filters store' = live_documents lib site collection filters store
      \<union> {v. v = document_value lib d None \<and> collection_document_matches lib d filters}"
    by (simp add: live_documents_image store' row_def in_collection_def)
  ultimately show ?thesis
    using watch_filter_agrees [OF ok]
    by (auto simp: result published_changes_def written_def change_of_def apply_change_def)
qed

lemma live_update:
  assumes "table_ok store" and "members_ok members" and "inj (cl_print_id lib)"
    and "update_document lib call site collection actor i members store = (result, store')"
  shows "table_ok store'
    \<and> live_documents lib site collection filters store'
        = fold (apply_change filters) (published_changes result) (live_documents lib site collection filters store)"
proof (cases "List.find (has_key site collection i) (ct_rows store)")
  case None
  then show ?thesis using assms by (auto simp: update_document_def published_changes_def)
next
  case (Some row)
  have row: "row \<in> set (ct_rows store)" "has_key site collection i row"
    using Some by (auto simp: find_Some_iff)
  define old where "old = cr_document row"
  define new where "new = old\<lparr>cd_fields := members, cd_updated_by := actor, cd_updated_at := kc_now call\<rparr>"
  define change where "change r = (if has_key site collection i r then r\<lparr>cr_document := new\<rparr> else r)" for r
  have store': "store' = store\<lparr>ct_rows := map change (ct_rows store)\<rparr>"
    and result: "result = Inr (written lib (change_of lib ChangeUpdate (Some old) (Some new)) new)"
    using assms(4) Some by (auto simp: update_document_def old_def new_def change_def Let_def)
  have ok: "document_ok old" "document_ok new"
    using assms(1,2) row(1) by (auto simp: table_ok_def list_all_iff old_def new_def document_ok_def members_ok_def)
  have keys: "row_key (change r) = row_key r" for r
    using row(2) by (auto simp: change_def row_key_def has_key_def new_def old_def)
  have only: "r = row" if "r \<in> set (ct_rows store)" "has_key site collection i r" for r
    using row_of_key [OF assms(1) that(1) row(1)] that(2) row(2) by (auto simp: row_key_def has_key_def in_collection_def)
  have others: "document_value lib (cr_document r) None \<noteq> document_value lib old None"
    if "r \<in> set (ct_rows store)" "in_collection site collection r" "\<not> has_key site collection i r" for r
  proof
    assume "document_value lib (cr_document r) None = document_value lib old None"
    moreover have "document_ok (cr_document r)" using assms(1) that(1) by (simp add: table_ok_def list_all_iff)
    ultimately have "cd_id (cr_document r) = cd_id old" using document_value_id ok(1) assms(3) by metis
    then show False using that row(2) by (simp add: has_key_def old_def)
  qed
  have "table_ok store'"
    using assms(1) ok by (auto simp: store' table_ok_def list_all_iff change_def comp_def keys [unfolded change_def])
  moreover have "live_documents lib site collection filters store'
      = (live_documents lib site collection filters store - {document_value lib old None})
        \<union> {v. v = document_value lib new None \<and> collection_document_matches lib new filters}" (is "?l = ?r")
  proof (intro set_eqI iffI)
    fix v assume "v \<in> ?l"
    then obtain r where r: "r \<in> set (ct_rows store)" "in_collection site collection (change r)"
      "collection_document_matches lib (cr_document (change r)) filters" "v = document_value lib (cr_document (change r)) None"
      by (auto simp: live_documents_def store')
    then show "v \<in> ?r"
      using others [of r] by (cases "has_key site collection i r") (auto simp: change_def live_documents_def)
  next
    fix v assume "v \<in> ?r"
    then consider r where "r \<in> set (ct_rows store)" "in_collection site collection r"
        "collection_document_matches lib (cr_document r) filters" "v = document_value lib (cr_document r) None"
        "v \<noteq> document_value lib old None"
      | "v = document_value lib new None" "collection_document_matches lib new filters"
      by (auto simp: live_documents_def)
    then show "v \<in> ?l"
    proof cases
      case 1
      then have "\<not> has_key site collection i r" using only [of r] by (auto simp: old_def)
      then show ?thesis using 1 by (auto simp: live_documents_def store' change_def intro!: exI [of _ r])
    next
      case 2
      then show ?thesis using row
        by (auto simp: live_documents_def store' change_def has_key_def in_collection_def intro!: exI [of _ "change row"])
    qed
  qed
  moreover have "{v. v = document_value lib new None \<and> collection_document_matches lib new filters}
      = {v. Some (document_value lib new None) = Some v \<and> document_matches (Some v) filters}"
    using watch_filter_agrees [OF ok(2), of lib filters] by fastforce
  ultimately show ?thesis
    by (simp add: result published_changes_def written_def change_of_def apply_change_def)
qed

lemma selected_documents:
  "set (select_collection_documents lib (load_collection_documents store site collection) query)
     \<subseteq> cr_document ` {row \<in> set (ct_rows store). in_collection site collection row}"
proof
  fix d assume "d \<in> set (select_collection_documents lib (load_collection_documents store site collection) query)"
  then have "d \<in> set (ordered_documents lib query
      (filter (\<lambda>document. collection_document_matches lib document (cq_filters query))
        (load_collection_documents store site collection)))"
    unfolding select_collection_documents_def Let_def by (meson in_set_dropD in_set_takeD)
  then have "d \<in># mset (ordered_documents lib query
      (filter (\<lambda>document. collection_document_matches lib document (cq_filters query))
        (load_collection_documents store site collection)))"
    by simp
  then show "d \<in> cr_document ` {row \<in> set (ct_rows store). in_collection site collection row}"
    unfolding ordered_documents_sort(1) by (auto simp: load_collection_documents_def)
qed

lemma fold_deletions:
  "fold (apply_change filters) (map (\<lambda>d. change_of lib ChangeDelete (Some d) None) ds) copy
     = copy - (\<lambda>d. document_value lib d None) ` set ds"
  by (induction ds arbitrary: copy) (auto simp: apply_change_def change_of_def)

lemma live_delete:
  assumes "table_ok store" and "inj (cl_print_id lib)"
    and "delete_documents lib site collection query one store = (outcome, store')"
  shows "table_ok store'
    \<and> live_documents lib site collection filters store'
        = fold (apply_change filters) (published_changes (Inr outcome)) (live_documents lib site collection filters store)"
proof -
  define selected where "selected = select_collection_documents lib (load_collection_documents store site collection) query"
  show ?thesis
  proof (cases "one \<and> 1 < length selected")
    case True
    then show ?thesis using assms by (auto simp: delete_documents_def selected_def published_changes_def Let_def)
  next
    case False
    let ?gone = "\<lambda>row. in_collection site collection row \<and> cd_id (cr_document row) \<in> set (map cd_id selected)"
    have store': "store' = store\<lparr>ct_rows := filter (\<lambda>row. \<not> ?gone row) (ct_rows store)\<rparr>"
      and outcome: "outcome = OutcomeDocuments (project_collection_documents lib selected query)
        (map (\<lambda>d. change_of lib ChangeDelete (Some d) None) selected)"
      using assms(3) False by (auto simp: delete_documents_def selected_def Let_def split: if_splits)
    have gone: "?gone row \<longleftrightarrow> document_value lib (cr_document row) None \<in> (\<lambda>d. document_value lib d None) ` set selected"
      if row: "row \<in> set (ct_rows store)" "in_collection site collection row" for row
    proof
      assume "?gone row"
      then obtain d where d: "d \<in> set selected" "cd_id (cr_document row) = cd_id d" by auto
      then obtain row' where row': "row' \<in> set (ct_rows store)" "in_collection site collection row'" "d = cr_document row'"
        using selected_documents unfolding selected_def by blast
      have "row = row'"
        using row_of_key [OF assms(1) row(1) row'(1)] row(2) row'(2,3) d(2) by (simp add: row_key_def in_collection_def)
      then show "document_value lib (cr_document row) None \<in> (\<lambda>d. document_value lib d None) ` set selected"
        using d(1) row'(3) by blast
    next
      assume "document_value lib (cr_document row) None \<in> (\<lambda>d. document_value lib d None) ` set selected"
      then obtain d where d: "d \<in> set selected" "document_value lib (cr_document row) None = document_value lib d None"
        by auto
      then obtain row' where row': "row' \<in> set (ct_rows store)" "d = cr_document row'"
        using selected_documents unfolding selected_def by blast
      have "document_ok (cr_document row)" "document_ok d"
        using assms(1) row(1) row' by (auto simp: table_ok_def list_all_iff)
      then have "cd_id (cr_document row) = cd_id d" using document_value_id d(2) assms(2) by metis
      then show "?gone row" using d(1) row(2) by auto
    qed
    have "table_ok store'" using assms(1)
      by (auto simp: store' table_ok_def list_all_iff distinct_map inj_on_def)
    moreover have "live_documents lib site collection filters store'
        = live_documents lib site collection filters store - (\<lambda>d. document_value lib d None) ` set selected"
    proof (intro set_eqI iffI)
      fix v assume "v \<in> live_documents lib site collection filters store'"
      then show "v \<in> live_documents lib site collection filters store - (\<lambda>d. document_value lib d None) ` set selected"
        using gone unfolding live_documents_def store' by fastforce
    next
      fix v assume "v \<in> live_documents lib site collection filters store - (\<lambda>d. document_value lib d None) ` set selected"
      then show "v \<in> live_documents lib site collection filters store'"
        using gone unfolding live_documents_def store' by fastforce
    qed
    ultimately show ?thesis by (simp add: outcome published_changes_def fold_deletions)
  qed
qed

fun request_document :: "collection_request \<Rightarrow> json option" where
  "request_document (RequestPut document) = Some document"
| "request_document (RequestInsert document) = Some document"
| "request_document (RequestUpdate document) = Some document"
| "request_document _ = None"

text \<open>A parsed request: the objects in its document are maps.\<close>

definition request_ok :: "collection_request \<Rightarrow> bool" where
  "request_ok request \<longleftrightarrow> (\<forall>document. request_document request = Some document \<longrightarrow> json_invar document)"

lemma btm_without_ok:
  assumes "btm_invar members"
  shows "members_ok (btm_without [''id'', ''_id'', ''inserted_by'', ''inserted_at'', ''updated_by'', ''updated_at''] members)"
  unfolding members_ok_def btm_without_def using assms
  by (auto intro: btm_filter_invar simp: system_columns_def)

lemma collection_write_members:
  assumes "collection_write_document parse_uuid mode document = Inr (i, members)" and "json_invar document"
  shows "members_ok members"
  using assms btm_without_ok
  by (cases document) (auto simp: collection_write_document_def Let_def split: sum.splits if_splits)

lemma map_sum_Inr: "map_sum id f r = Inr y \<longleftrightarrow> (\<exists>x. r = Inr x \<and> y = f x)"
  by (cases r) auto

lemma storage_operation_ok:
  assumes "collection_storage_operation parse_uuid request = Inr (operation, single)" and "request_ok request"
  shows "operation_ok operation"
  using assms collection_write_members
  by (cases request) (auto simp: collection_storage_operation_def request_ok_def map_sum_Inr Let_def)

lemma execute_live:
  assumes "table_ok store" and "operation_ok operation" and "inj (cl_print_id lib)"
    and "execute_collection_operation lib call site collection actor operation store = (result, store')"
  shows "table_ok store'
    \<and> live_documents lib site collection filters store'
        = fold (apply_change filters) (published_changes result) (live_documents lib site collection filters store)"
proof (cases "kc_fault call = None \<and> ct_access store site = Some SiteProtected")
  case False
  then show ?thesis using assms by (auto simp: execute_collection_operation_def published_changes_def split: option.splits if_splits)
next
  case True
  then have run: "run_collection_operation lib call site collection actor operation store = (result, store')"
    using assms(4) by (simp add: execute_collection_operation_def)
  show ?thesis
  proof (cases operation)
    case (CollectionWrite mode i members)
    then have written: "write_document lib call site collection actor mode i members store = (result, store')"
      and "members_ok members"
      using run assms(2) by (simp_all add: run_collection_operation_def)
    consider "insert_document lib call site collection actor members store = (result, store')"
      | key where "update_document lib call site collection actor key members store = (result, store')"
      | "result = Inr OutcomeMissingDocument" "store' = store"
      using written by (cases mode; cases i) (auto simp: write_document_def)
    then show ?thesis
    proof cases
      case 1
      then show ?thesis using live_insert [OF assms(1) \<open>members_ok members\<close>] by blast
    next
      case 2
      then show ?thesis using live_update [OF assms(1) \<open>members_ok members\<close> assms(3)] by blast
    next
      case 3
      then show ?thesis using assms(1) by (simp add: published_changes_def)
    qed
  next
    case (CollectionDelete query one)
    then obtain outcome where "delete_documents lib site collection query one store = (outcome, store')" "result = Inr outcome"
      using run by (cases "delete_documents lib site collection query one store") (auto simp: run_collection_operation_def)
    then show ?thesis using live_delete [OF assms(1,3)] by simp
  qed (use run assms(1) in \<open>auto simp: run_collection_operation_def published_changes_def Let_def\<close>)
qed

text \<open>An example: one note, and a request that inserts another.\<close>

definition sample_library :: "(nat, int) collection_library" where
  "sample_library = \<lparr>cl_print_id = (\<lambda>n. replicate n CHR ''i''), cl_print_time = (\<lambda>_. ''now''), cl_as_f64 = (\<lambda>_. None)\<rparr>"

definition sample_note :: "nat collection_document" where
  "sample_note = \<lparr>cd_id = 1, cd_fields = [(''open'', JBool True)], cd_inserted_by = ''ada'', cd_inserted_at = 1,
     cd_updated_by = ''ada'', cd_updated_at = 1\<rparr>"

definition sample_store :: "nat collection_store" where
  "sample_store = \<lparr>ct_access = [''s'' \<mapsto> SiteProtected],
     ct_rows = [\<lparr>cr_site = ''s'', cr_collection = ''notes'', cr_document = sample_note\<rparr>]\<rparr>"

definition sample_call :: "nat collection_call" where
  "sample_call = \<lparr>kc_now = 5, kc_new_id = 2, kc_fault = None\<rparr>"

definition sample_insert :: collection_request where
  "sample_insert = RequestInsert (JObject [(''inserted_by'', JString ''ada''), (''open'', JBool False)])"

lemma sample_store_ok: "table_ok sample_store"
  by (simp add: table_ok_def sample_store_def sample_note_def document_ok_def btm_invar_def system_columns_def)

lemma sample_print_inj: "inj (cl_print_id sample_library)"
  by (auto simp: inj_def sample_library_def)

lemma sample_insert_ok: "request_ok sample_insert"
  by (simp add: request_ok_def sample_insert_def btm_invar_def less_list_code less_char_def)


lemma sample_operation:
  "collection_storage_operation (\<lambda>_. Some (0 :: nat)) sample_insert
     = Inr (CollectionWrite WriteInsert None [(''open'', JBool False)], True)"
  by (simp add: collection_storage_operation_def sample_insert_def collection_write_document_def document_id_def
      btm_get_def btm_without_def)


section \<open>Authorship\<close>

text \<open>The rows an operation of an actor may leave: an old row, a new one of the actor, or an old one the actor changed.\<close>

definition row_attributed ::
  "'id collection_call \<Rightarrow> string \<Rightarrow> string \<Rightarrow> string \<Rightarrow> 'id collection_row list \<Rightarrow> 'id collection_row \<Rightarrow> bool" where
  "row_attributed call site collection actor old row \<longleftrightarrow>
     row \<in> set old
     \<or> in_collection site collection row \<and> document_ok (cr_document row)
        \<and> cd_updated_by (cr_document row) = actor \<and> cd_updated_at (cr_document row) = kc_now call
        \<and> (cd_id (cr_document row) = kc_new_id call \<and> cd_inserted_by (cr_document row) = actor
             \<and> cd_inserted_at (cr_document row) = kc_now call
           \<or> (\<exists>before \<in> set old. row_key before = row_key row
                \<and> cd_inserted_by (cr_document before) = cd_inserted_by (cr_document row)
                \<and> cd_inserted_at (cr_document before) = cd_inserted_at (cr_document row)))"

lemma document_ok_members: "document_ok d = members_ok (cd_fields d)"
  by (simp add: document_ok_def members_ok_def)

lemma insert_attributed:
  assumes "members_ok members"
    and "insert_document lib call site collection actor members store = (result, store')" and "row \<in> set (ct_rows store')"
  shows "row_attributed call site collection actor (ct_rows store) row"
  using assms
  by (auto simp: insert_document_def row_attributed_def Let_def in_collection_def document_ok_members split: if_splits)

lemma update_attributed:
  assumes "members_ok members" and "table_ok store"
    and "update_document lib call site collection actor i members store = (result, store')" and "row \<in> set (ct_rows store')"
  shows "row_attributed call site collection actor (ct_rows store) row"
proof (cases "List.find (has_key site collection i) (ct_rows store)")
  case None
  then show ?thesis using assms by (auto simp: update_document_def row_attributed_def)
next
  case (Some found)
  have found: "found \<in> set (ct_rows store)" "has_key site collection i found"
    using Some by (auto simp: find_Some_iff)
  define new where "new = (cr_document found)\<lparr>cd_fields := members, cd_updated_by := actor, cd_updated_at := kc_now call\<rparr>"
  have "ct_rows store' = map (\<lambda>r. if has_key site collection i r then r\<lparr>cr_document := new\<rparr> else r) (ct_rows store)"
    using assms(3) Some by (auto simp: update_document_def new_def Let_def)
  then obtain r where r: "r \<in> set (ct_rows store)"
    "row = (if has_key site collection i r then r\<lparr>cr_document := new\<rparr> else r)"
    using assms(4) by auto
  show ?thesis
  proof (cases "has_key site collection i r")
    case True
    have "row_key found = row_key row" "in_collection site collection row"
      using r(2) True found(2) by (simp_all add: row_key_def has_key_def in_collection_def new_def)
    moreover have "document_ok new" using assms(1) by (simp add: document_ok_def members_ok_def new_def)
    ultimately show ?thesis
      using r(2) True found(1) unfolding row_attributed_def
      by (intro disjI2 conjI bexI [of _ found]) (simp_all add: new_def)
  next
    case False
    then show ?thesis using r by (simp add: row_attributed_def)
  qed
qed

lemma other_rows_kept:
  assumes "run_collection_operation lib call site collection actor operation store = (result, store')"
  shows "ct_access store' = ct_access store
    \<and> filter (\<lambda>row. \<not> in_collection site collection row) (ct_rows store')
        = filter (\<lambda>row. \<not> in_collection site collection row) (ct_rows store)"
proof -
  have mapped: "filter (\<lambda>row. \<not> in_collection site collection row)
      (map (\<lambda>r. if has_key site collection i r then r\<lparr>cr_document := d\<rparr> else r) rows)
      = filter (\<lambda>row. \<not> in_collection site collection row) rows" for i d and rows :: "'a collection_row list"
    by (induction rows) (auto simp: has_key_def in_collection_def)
  have inserted: "in_collection site collection \<lparr>cr_site = site, cr_collection = collection, cr_document = d\<rparr>" for d
    by (simp add: in_collection_def)
  show ?thesis
  proof (cases operation)
    case (CollectionWrite mode i members)
    then show ?thesis using assms
      by (cases mode; cases i)
        (auto simp: run_collection_operation_def write_document_def insert_document_def update_document_def Let_def
          inserted mapped split: if_splits option.splits)
  next
    case (CollectionDelete query one)
    then show ?thesis using assms
      by (auto simp: run_collection_operation_def delete_documents_def Let_def split: if_splits intro: filter_cong)
  qed (use assms in \<open>auto simp: run_collection_operation_def\<close>)
qed

lemma run_attributed:
  assumes "table_ok store" and "operation_ok operation"
    and "run_collection_operation lib call site collection actor operation store = (result, store')"
    and "row \<in> set (ct_rows store')"
  shows "row_attributed call site collection actor (ct_rows store) row"
proof (cases operation)
  case (CollectionWrite mode i members)
  then have "write_document lib call site collection actor mode i members store = (result, store')" and ok: "members_ok members"
    using assms(2,3) by (simp_all add: run_collection_operation_def)
  then consider "insert_document lib call site collection actor members store = (result, store')"
    | key where "update_document lib call site collection actor key members store = (result, store')"
    | "store' = store"
    by (cases mode; cases i) (auto simp: write_document_def)
  then show ?thesis
  proof cases
    case 1
    then show ?thesis by (rule insert_attributed [OF ok _ assms(4)])
  next
    case 2
    then show ?thesis by (rule update_attributed [OF ok assms(1) _ assms(4)])
  next
    case 3
    then show ?thesis using assms(4) by (simp add: row_attributed_def)
  qed
next
  case (CollectionDelete query one)
  then have "set (ct_rows store') \<subseteq> set (ct_rows store)"
    using assms(3) by (auto simp: run_collection_operation_def delete_documents_def Let_def split: if_splits)
  then show ?thesis using assms(4) by (auto simp: row_attributed_def)
qed (use assms(3,4) in \<open>auto simp: run_collection_operation_def row_attributed_def\<close>)

text \<open>
  C40: Nobody writes in another's name: after a request of a visitor, whatever its document claims, every row is an old one,
  a new one of the visitor, or an old one of this collection with its author kept and the visitor as last editor. Other
  collections and sites keep their rows, and a site that is not protected keeps everything.
\<close>

theorem collection_writes_attributed:
  assumes "table_ok store" and "request_ok request"
    and "collection_storage_operation parse_uuid request = Inr (operation, single)"
    and "execute_collection_operation lib call site collection actor operation store = (result, store')"
  shows "list_all (row_attributed call site collection actor (ct_rows store)) (ct_rows store')
    \<and> filter (\<lambda>row. \<not> in_collection site collection row) (ct_rows store')
        = filter (\<lambda>row. \<not> in_collection site collection row) (ct_rows store)
    \<and> ct_access store' = ct_access store
    \<and> (store' = store \<or> ct_access store site = Some SiteProtected)"
proof (cases "kc_fault call = None \<and> ct_access store site = Some SiteProtected")
  case True
  then have run: "run_collection_operation lib call site collection actor operation store = (result, store')"
    using assms(4) by (simp add: execute_collection_operation_def)
  then show ?thesis
    using True run_attributed [OF assms(1) storage_operation_ok [OF assms(3,2)] run] other_rows_kept [OF run]
    by (simp add: list_all_iff)
next
  case False
  then have "store' = store"
    using assms(4) by (auto simp: execute_collection_operation_def split: option.splits if_splits)
  then show ?thesis by (simp add: list_all_iff row_attributed_def)
qed

theorem collection_writes_attributed_witness:
  "list_all (row_attributed sample_call ''s'' ''notes'' ''eve'' (ct_rows sample_store))
     (ct_rows (snd (execute_collection_operation sample_library sample_call ''s'' ''notes'' ''eve''
       (CollectionWrite WriteInsert None [(''open'', JBool False)]) sample_store)))"
  using collection_writes_attributed [OF sample_store_ok sample_insert_ok sample_operation prod.collapse [symmetric]]
  by blast

end
