(* ===== verification/Store_Vibe.thy ===== *)
theory Store_Vibe
  imports Vibe_Access
begin

text \<open>
  The sites, coding jobs and revisions of Vibe in the database: \<open>VibeStorage for SqlxStorage\<close> of
  \<open>chudbot-storage-sqlx/src/vibe.rs\<close>. Each operation is one transaction; its statements are read as operations on the
  tables, with the keys and foreign keys the migrations declare. A statement that fails, or a precondition that does not
  hold, rolls the transaction back. Timestamps are left out.
\<close>

section \<open>Tables\<close>

record site_editor =
  sd_site_id :: string
  sd_platform :: string
  sd_user_id :: string

record site_guild_share =
  sg_site_id :: string
  sg_platform :: string
  sg_guild_id :: string

record vibe_tables =
  vt_sites :: "vibe_site list"
  vt_jobs :: "vibe_job list"
  vt_revisions :: "vibe_revision list"
  vt_editors :: "site_editor list"
  vt_guilds :: "site_guild_share list"

datatype store_error =
    StoreSqlx string
  | StoreInvalidReference string
  | StoreVibeConflict string

type_synonym 'a store_step = "(store_error + 'a) \<times> vibe_tables"

fun running_state :: "vibe_job_state \<Rightarrow> bool" where
  "running_state JobQueued = True"
| "running_state JobCoding = True"
| "running_state JobBuilding = True"
| "running_state JobRepair = True"
| "running_state JobCommitting = True"
| "running_state _ = False"

definition terminal_state :: "vibe_job_state \<Rightarrow> bool" where
  "terminal_state state \<longleftrightarrow>
     state = JobDone \<or> state = JobNoChanges \<or> state = JobFailed \<or> state = JobCancelled \<or> state = JobTimedOut"

definition site_where :: "(vibe_site \<Rightarrow> bool) \<Rightarrow> vibe_tables \<Rightarrow> vibe_site option" where
  "site_where P db = List.find P (vt_sites db)"

definition find_site_by_name :: "string \<Rightarrow> vibe_tables \<Rightarrow> vibe_site option" where
  "find_site_by_name name = site_where (\<lambda>site. vs_name site = name)"

definition find_site :: "string \<Rightarrow> vibe_tables \<Rightarrow> vibe_site option" where
  "find_site i = site_where (\<lambda>site. vs_id site = i)"

definition find_job_by_tool_use :: "string \<Rightarrow> vibe_tables \<Rightarrow> vibe_job option" where
  "find_job_by_tool_use tool_use db = List.find (\<lambda>job. vj_tool_use_id job = tool_use) (vt_jobs db)"

definition job_runs_in :: "string \<Rightarrow> string \<Rightarrow> vibe_job \<Rightarrow> bool" where
  "job_runs_in platform guild job \<longleftrightarrow> vj_platform job = platform \<and> vj_guild_id job = guild \<and> running_state (vj_state job)"

definition count_running_jobs :: "string \<Rightarrow> string \<Rightarrow> vibe_tables \<Rightarrow> nat" where
  "count_running_jobs platform guild db = length (filter (job_runs_in platform guild) (vt_jobs db))"

definition update_sites :: "(vibe_site \<Rightarrow> bool) \<Rightarrow> (vibe_site \<Rightarrow> vibe_site) \<Rightarrow> vibe_tables \<Rightarrow> vibe_tables" where
  "update_sites P f db = db\<lparr>vt_sites := map (\<lambda>site. if P site then f site else site) (vt_sites db)\<rparr>"

definition update_jobs :: "(vibe_job \<Rightarrow> bool) \<Rightarrow> (vibe_job \<Rightarrow> vibe_job) \<Rightarrow> vibe_tables \<Rightarrow> vibe_tables" where
  "update_jobs P f db = db\<lparr>vt_jobs := map (\<lambda>job. if P job then f job else job) (vt_jobs db)\<rparr>"

text \<open>
  Deleting sites deletes what refers to them. Only sites without revisions are deleted here, so the keys that
  restrict a deletion are not met (\<open>creating_sites_unbuilt\<close> in \<open>Store_Vibe_Props\<close>).
\<close>

definition delete_sites :: "(vibe_site \<Rightarrow> bool) \<Rightarrow> vibe_tables \<Rightarrow> vibe_tables" where
  "delete_sites P db =
     (let gone = (\<lambda>i. i \<in> vs_id ` {site \<in> set (vt_sites db). P site}) in
      \<lparr>vt_sites = filter (\<lambda>site. \<not> P site) (vt_sites db),
       vt_jobs = filter (\<lambda>job. case vj_site_id job of None \<Rightarrow> True | Some i \<Rightarrow> \<not> gone i) (vt_jobs db),
       vt_revisions = filter (\<lambda>r. \<not> gone (rv_site_id r)) (vt_revisions db),
       vt_editors = filter (\<lambda>e. \<not> gone (sd_site_id e)) (vt_editors db),
       vt_guilds = filter (\<lambda>g. \<not> gone (sg_site_id g)) (vt_guilds db)\<rparr>)"

section \<open>Editors and shared guilds\<close>

definition is_editor :: "string \<Rightarrow> string \<Rightarrow> string \<Rightarrow> vibe_tables \<Rightarrow> bool" where
  "is_editor site platform user db \<longleftrightarrow>
     \<lparr>sd_site_id = site, sd_platform = platform, sd_user_id = user\<rparr> \<in> set (vt_editors db)"

definition add_editor :: "string \<Rightarrow> string \<Rightarrow> string \<Rightarrow> vibe_tables \<Rightarrow> unit store_step" where
  "add_editor site platform user db =
     (if is_editor site platform user db then (Inr (), db)
      else if find_site site db = None then (Inl (StoreSqlx ''foreign key''), db)
      else (Inr (), db\<lparr>vt_editors := vt_editors db @ [\<lparr>sd_site_id = site, sd_platform = platform, sd_user_id = user\<rparr>]\<rparr>))"

definition remove_editor :: "string \<Rightarrow> string \<Rightarrow> string \<Rightarrow> vibe_tables \<Rightarrow> bool store_step" where
  "remove_editor site platform user db =
     (Inr (is_editor site platform user db),
      db\<lparr>vt_editors := filter (\<lambda>e. e \<noteq> \<lparr>sd_site_id = site, sd_platform = platform, sd_user_id = user\<rparr>) (vt_editors db)\<rparr>)"

definition list_site_guilds :: "string \<Rightarrow> string \<Rightarrow> vibe_tables \<Rightarrow> string list" where
  "list_site_guilds site platform db =
     map sg_guild_id (filter (\<lambda>g. sg_site_id g = site \<and> sg_platform g = platform) (vt_guilds db))"

definition add_site_guild :: "string \<Rightarrow> string \<Rightarrow> string \<Rightarrow> vibe_tables \<Rightarrow> bool store_step" where
  "add_site_guild site platform guild db =
     (let share = \<lparr>sg_site_id = site, sg_platform = platform, sg_guild_id = guild\<rparr> in
      if share \<in> set (vt_guilds db) then (Inr False, db)
      else if find_site site db = None then (Inl (StoreSqlx ''foreign key''), db)
      else (Inr True, db\<lparr>vt_guilds := vt_guilds db @ [share]\<rparr>))"

section \<open>Jobs\<close>

record create_vibe_job =
  cj_id :: string
  cj_site_id :: string
  cj_site_name :: string
  cj_description :: string
  cj_action :: vibe_action
  cj_actor :: vibe_actor
  cj_tool_use_id :: string
  cj_max_running_jobs_per_guild :: u16

text \<open>The \<open>CASE\<close> of the claim of an edit.\<close>

datatype claim_state = ClaimUnauthorized | ClaimBusy | ClaimReady

definition edit_claim_state :: "vibe_actor \<Rightarrow> string \<Rightarrow> vibe_site \<Rightarrow> vibe_tables \<Rightarrow> claim_state" where
  "edit_claim_state actor guild site db =
     (if vs_platform site \<noteq> va_platform actor \<or> vs_guild_id site \<noteq> guild
         \<or> \<not> (va_is_admin actor \<or> vs_owner_user_id site = va_user_id actor
               \<or> is_editor (vs_id site) (va_platform actor) (va_user_id actor) db)
      then ClaimUnauthorized
      else if vs_running_job_id site \<noteq> None then ClaimBusy else ClaimReady)"

definition insert_site :: "vibe_site \<Rightarrow> vibe_tables \<Rightarrow> unit store_step" where
  "insert_site site db =
     (if list_ex (\<lambda>s. vs_id s = vs_id site \<or> vs_name s = vs_name site) (vt_sites db)
      then (Inl (StoreSqlx ''duplicate key''), db)
      else (Inr (), db\<lparr>vt_sites := vt_sites db @ [site]\<rparr>))"

definition insert_job :: "vibe_job \<Rightarrow> vibe_tables \<Rightarrow> vibe_job store_step" where
  "insert_job job db =
     (if list_ex (\<lambda>j. vj_id j = vj_id job \<or> vj_tool_use_id j = vj_tool_use_id job) (vt_jobs db)
      then (Inl (StoreSqlx ''duplicate key''), db)
      else (Inr job, db\<lparr>vt_jobs := vt_jobs db @ [job]\<rparr>))"

definition claimed_site :: "create_vibe_job \<Rightarrow> string \<Rightarrow> vibe_site" where
  "claimed_site input guild =
     \<lparr>vs_id = cj_site_id input, vs_name = cj_site_name input, vs_platform = va_platform (cj_actor input),
      vs_guild_id = guild, vs_owner_user_id = va_user_id (cj_actor input), vs_description = cj_description input,
      vs_status = SiteCreating, vs_access = SiteProtected, vs_active_revision_id = None, vs_running_job_id = None\<rparr>"

definition claimed_job :: "create_vibe_job \<Rightarrow> string \<Rightarrow> vibe_job" where
  "claimed_job input guild =
     \<lparr>vj_id = cj_id input, vj_site_id = Some (cj_site_id input), vj_site_name = cj_site_name input,
      vj_action = cj_action input, vj_actor_user_id = va_user_id (cj_actor input),
      vj_platform = va_platform (cj_actor input), vj_guild_id = guild,
      vj_conversation_id = va_conversation_id (cj_actor input), vj_turn_id = va_turn_id (cj_actor input),
      vj_tool_use_id = cj_tool_use_id input, vj_state = JobQueued, vj_error = None\<rparr>"

definition claim_site :: "create_vibe_job \<Rightarrow> string \<Rightarrow> vibe_tables \<Rightarrow> unit store_step" where
  "claim_site input guild db =
     (case cj_action input of
        ActionCreate \<Rightarrow> insert_site (claimed_site input guild) db
      | ActionEdit \<Rightarrow>
          (case map_option (\<lambda>site. edit_claim_state (cj_actor input) guild site db) (find_site (cj_site_id input) db) of
             Some ClaimReady \<Rightarrow> (Inr (), db)
           | Some ClaimUnauthorized \<Rightarrow> (Inl (StoreVibeConflict ''site edit not authorized''), db)
           | _ \<Rightarrow> (Inl (StoreVibeConflict ''site is missing or busy''), db)))"

definition create_job :: "create_vibe_job \<Rightarrow> vibe_tables \<Rightarrow> vibe_job store_step" where
  "create_job input db =
     (case find_job_by_tool_use (cj_tool_use_id input) db of
        Some job \<Rightarrow> (Inr job, db)
      | None \<Rightarrow>
          (case va_guild_id (cj_actor input) of
             None \<Rightarrow> (Inl (StoreInvalidReference ''Vibe actor has no guild''), db)
           | Some guild \<Rightarrow>
               (if unat (cj_max_running_jobs_per_guild input) \<le> count_running_jobs (va_platform (cj_actor input)) guild db
                then (Inl (StoreVibeConflict ''guild job limit reached''), db)
                else case claim_site input guild db of
                  (Inl e, _) \<Rightarrow> (Inl e, db)
                | (Inr _, claimed) \<Rightarrow>
                    (case insert_job (claimed_job input guild) claimed of
                       (Inl e, _) \<Rightarrow> (Inl e, db)
                     | (Inr job, inserted) \<Rightarrow>
                         (Inr job, update_sites (\<lambda>site. vs_id site = cj_site_id input)
                            (\<lambda>site. site\<lparr>vs_running_job_id := Some (cj_id input)\<rparr>) inserted)))))"

text \<open>\<open>message\<close>: the error, cut to its first 8192 characters.\<close>

definition release_job_site :: "string \<Rightarrow> vibe_tables \<Rightarrow> vibe_tables" where
  "release_job_site job db =
     update_sites (\<lambda>site. vs_running_job_id site = Some job) (\<lambda>site. site\<lparr>vs_running_job_id := None\<rparr>) db"

definition drop_unbuilt_site :: "string \<Rightarrow> vibe_tables \<Rightarrow> vibe_tables" where
  "drop_unbuilt_site job db =
     (case List.find (\<lambda>j. vj_id j = job) (vt_jobs db) of
        None \<Rightarrow> db
      | Some j \<Rightarrow> delete_sites (\<lambda>site. vs_status site = SiteCreating \<and> vj_site_id j = Some (vs_id site)) db)"

definition update_job_state :: "string \<Rightarrow> vibe_job_state \<Rightarrow> string option \<Rightarrow> vibe_tables \<Rightarrow> vibe_tables" where
  "update_job_state job state error db =
     (let db = update_jobs (\<lambda>j. vj_id j = job)
            (\<lambda>j. j\<lparr>vj_state := state, vj_error := map_option (take_chars 8192) error\<rparr>) db in
      if \<not> terminal_state state then db
      else (let db = release_job_site job db in if state \<noteq> JobDone then drop_unbuilt_site job db else db))"

section \<open>Revisions\<close>

definition insert_revision :: "vibe_revision \<Rightarrow> vibe_tables \<Rightarrow> unit store_step" where
  "insert_revision r db =
     (if list_ex (\<lambda>q. rv_id q = rv_id r \<or> rv_job_id q = rv_job_id r
            \<or> rv_site_id q = rv_site_id r \<and> rv_ordinal q = rv_ordinal r) (vt_revisions db)
         \<or> rv_ordinal r \<le> 0
         \<or> \<not> list_ex (\<lambda>j. vj_id j = rv_job_id r) (vt_jobs db)
         \<or> (case rv_parent_revision_id r of None \<Rightarrow> False | Some p \<Rightarrow> \<not> list_ex (\<lambda>q. rv_id q = p) (vt_revisions db))
      then (Inl (StoreSqlx ''constraint''), db)
      else (Inr (), db\<lparr>vt_revisions := vt_revisions db @ [r\<lparr>rv_build_log := take_chars 32768 (rv_build_log r)\<rparr>]\<rparr>))"

definition complete_revision :: "vibe_revision \<Rightarrow> string \<Rightarrow> vibe_tables \<Rightarrow> unit store_step" where
  "complete_revision r expected_job db =
     (if Option.bind (find_site (rv_site_id r) db) vs_running_job_id \<noteq> Some expected_job
      then (Inl (StoreVibeConflict ''site job lock changed''), db)
      else case insert_revision r db of
        (Inl e, _) \<Rightarrow> (Inl e, db)
      | (Inr _, db) \<Rightarrow>
          (Inr (), update_jobs (\<lambda>j. vj_id j = expected_job) (\<lambda>j. j\<lparr>vj_state := JobDone, vj_error := None\<rparr>)
             (update_sites (\<lambda>site. vs_id site = rv_site_id r)
               (\<lambda>site. site\<lparr>vs_active_revision_id := Some (rv_id r), vs_running_job_id := None, vs_status := SiteActive\<rparr>)
               db)))"

definition active_revision :: "string \<Rightarrow> vibe_tables \<Rightarrow> vibe_revision option" where
  "active_revision site db =
     Option.bind (Option.bind (find_site site db) vs_active_revision_id)
       (\<lambda>r. List.find (\<lambda>q. rv_id q = r) (vt_revisions db))"

definition list_revisions :: "string \<Rightarrow> vibe_tables \<Rightarrow> vibe_revision list" where
  "list_revisions site db = rev (sort_key rv_ordinal (filter (\<lambda>r. rv_site_id r = site) (vt_revisions db)))"

definition activate_existing_revision :: "string \<Rightarrow> string \<Rightarrow> vibe_tables \<Rightarrow> unit store_step" where
  "activate_existing_revision site revision db =
     (if find_site site db = None
         \<or> \<not> list_ex (\<lambda>r. rv_id r = revision \<and> rv_site_id r = site) (vt_revisions db)
      then (Inl (StoreVibeConflict ''revision does not belong to site''), db)
      else (Inr (), update_sites (\<lambda>s. vs_id s = site)
              (\<lambda>s. s\<lparr>vs_active_revision_id := Some revision, vs_status := SiteActive\<rparr>) db))"

definition set_site_status :: "string \<Rightarrow> vibe_site_status \<Rightarrow> vibe_tables \<Rightarrow> vibe_tables" where
  "set_site_status site status = update_sites (\<lambda>s. vs_id s = site) (\<lambda>s. s\<lparr>vs_status := status\<rparr>)"

definition set_site_access :: "string \<Rightarrow> vibe_site_access \<Rightarrow> vibe_tables \<Rightarrow> vibe_tables" where
  "set_site_access site access = update_sites (\<lambda>s. vs_id s = site) (\<lambda>s. s\<lparr>vs_access := access\<rparr>)"

text \<open>After a restart: nothing runs any more. The result is the sites that have something to serve.\<close>

definition recover_interrupted_jobs :: "vibe_tables \<Rightarrow> vibe_site list \<times> vibe_tables" where
  "recover_interrupted_jobs db =
     (let db = update_jobs (\<lambda>j. running_state (vj_state j))
            (\<lambda>j. j\<lparr>vj_state := JobFailed, vj_error := Some ''interrupted by process restart''\<rparr>) db;
          db = update_sites (\<lambda>s. vs_running_job_id s \<noteq> None) (\<lambda>s. s\<lparr>vs_running_job_id := None\<rparr>) db;
          db = delete_sites (\<lambda>s. vs_status s = SiteCreating) db
      in (filter (\<lambda>s. vs_active_revision_id s \<noteq> None) (vt_sites db), db))"

section \<open>Names of states\<close>

fun action_text :: "vibe_action \<Rightarrow> string" where
  "action_text ActionCreate = ''create''"
| "action_text ActionEdit = ''edit''"

fun site_status_text :: "vibe_site_status \<Rightarrow> string" where
  "site_status_text SiteCreating = ''creating''"
| "site_status_text SiteActive = ''active''"
| "site_status_text SiteArchived = ''archived''"

fun job_state_text :: "vibe_job_state \<Rightarrow> string" where
  "job_state_text JobQueued = ''queued''"
| "job_state_text JobCoding = ''coding''"
| "job_state_text JobBuilding = ''building''"
| "job_state_text JobRepair = ''repair''"
| "job_state_text JobCommitting = ''committing''"
| "job_state_text JobDone = ''done''"
| "job_state_text JobNoChanges = ''no_changes''"
| "job_state_text JobFailed = ''failed''"
| "job_state_text JobCancelled = ''cancelled''"
| "job_state_text JobTimedOut = ''timed_out''"

definition parse_action :: "string \<Rightarrow> vibe_action option" where
  "parse_action v = (if v = ''create'' then Some ActionCreate else if v = ''edit'' then Some ActionEdit else None)"

definition parse_site_status :: "string \<Rightarrow> vibe_site_status option" where
  "parse_site_status v =
     (if v = ''creating'' then Some SiteCreating else if v = ''active'' then Some SiteActive
      else if v = ''archived'' then Some SiteArchived else None)"

definition parse_site_access :: "string \<Rightarrow> vibe_site_access option" where
  "parse_site_access v =
     (if v = ''protected'' then Some SiteProtected else if v = ''public'' then Some SitePublic else None)"

definition parse_job_state :: "string \<Rightarrow> vibe_job_state option" where
  "parse_job_state v =
     (if v = ''queued'' then Some JobQueued else if v = ''coding'' then Some JobCoding
      else if v = ''building'' then Some JobBuilding else if v = ''repair'' then Some JobRepair
      else if v = ''committing'' then Some JobCommitting else if v = ''done'' then Some JobDone
      else if v = ''no_changes'' then Some JobNoChanges else if v = ''failed'' then Some JobFailed
      else if v = ''cancelled'' then Some JobCancelled else if v = ''timed_out'' then Some JobTimedOut else None)"

lemma parse_action_text: "parse_action (action_text a) = Some a"
  by (cases a) (simp_all add: parse_action_def)

lemma parse_site_status_text: "parse_site_status (site_status_text status) = Some status"
  by (cases status) (simp_all add: parse_site_status_def)

lemma parse_site_access_text: "parse_site_access (vibe_site_access_str access) = Some access"
  by (cases access) (simp_all add: parse_site_access_def)

lemma parse_job_state_text: "parse_job_state (job_state_text state) = Some state"
  by (cases state) (simp_all add: parse_job_state_def)

end
