(* ===== verification/Store_Vibe_Props.thy ===== *)
theory Store_Vibe_Props
  imports Store_Vibe
begin

text \<open>
  The coding jobs of a deployment as a state machine over the tables: jobs are claimed, make progress, complete, fail, are
  dropped and cleaned up, and the process restarts, in every order the code allows. The invariant says which job may hold
  which site.
\<close>

section \<open>Steps\<close>

text \<open>
  The futures of a process, by job: those at work, those that have ended their job and are about to return, those that
  were dropped and whose cleanup task is still to run, and those whose last update of the state failed.
\<close>

record vibe_system =
  sy_db :: vibe_tables
  sy_working :: "string set"
  sy_finishing :: "string set"
  sy_dropped :: "string set"
  sy_lost :: "string set"

definition known_jobs :: "vibe_system \<Rightarrow> string set" where
  "known_jobs s = sy_working s \<union> sy_finishing s \<union> sy_dropped s \<union> sy_lost s"

definition empty_tables :: vibe_tables where
  "empty_tables = \<lparr>vt_sites = [], vt_jobs = [], vt_revisions = [], vt_editors = [], vt_guilds = []\<rparr>"

definition idle_system :: "vibe_tables \<Rightarrow> vibe_system" where
  "idle_system db = \<lparr>sy_db = db, sy_working = {}, sy_finishing = {}, sy_dropped = {}, sy_lost = {}\<rparr>"

definition in_progress :: "vibe_job_state \<Rightarrow> bool" where
  "in_progress state \<longleftrightarrow> state = JobCoding \<or> state = JobBuilding \<or> state = JobRepair \<or> state = JobCommitting"

text \<open>
  A claim finds no job for its tool use, and the id of its job is new. Management reads a site without a running job, so
  the site it changes later is not one that is still being created. A restart drops every future.
\<close>

inductive vibe_step :: "u16 \<Rightarrow> vibe_system \<Rightarrow> vibe_system \<Rightarrow> bool" for limit where
  step_claim: "create_job input (sy_db s) = (Inr job, db) \<Longrightarrow> find_job_by_tool_use (cj_tool_use_id input) (sy_db s) = None \<Longrightarrow>
     cj_max_running_jobs_per_guild input = limit \<Longrightarrow> cj_id input \<notin> known_jobs s \<Longrightarrow>
     vibe_step limit s (s\<lparr>sy_db := db, sy_working := insert (cj_id input) (sy_working s)\<rparr>)"
| step_progress: "job \<in> sy_working s \<Longrightarrow> in_progress state \<Longrightarrow>
     vibe_step limit s (s\<lparr>sy_db := update_job_state job state error (sy_db s)\<rparr>)"
| step_complete: "job \<in> sy_working s \<Longrightarrow> complete_revision r job (sy_db s) = (Inr (), db) \<Longrightarrow>
     vibe_step limit s (s\<lparr>sy_db := db, sy_working := sy_working s - {job}, sy_finishing := insert job (sy_finishing s)\<rparr>)"
| step_end: "job \<in> sy_working s \<Longrightarrow> state = JobNoChanges \<or> state = JobFailed \<Longrightarrow>
     vibe_step limit s (s\<lparr>sy_db := update_job_state job state error (sy_db s), sy_working := sy_working s - {job},
       sy_finishing := insert job (sy_finishing s)\<rparr>)"
| step_return: "job \<in> sy_finishing s \<Longrightarrow> vibe_step limit s (s\<lparr>sy_finishing := sy_finishing s - {job}\<rparr>)"
| step_lose: "job \<in> sy_working s \<union> sy_dropped s \<Longrightarrow>
     vibe_step limit s (s\<lparr>sy_working := sy_working s - {job}, sy_dropped := sy_dropped s - {job}, sy_lost := insert job (sy_lost s)\<rparr>)"
| step_drop: "job \<in> sy_working s \<union> sy_finishing s \<Longrightarrow>
     vibe_step limit s (s\<lparr>sy_working := sy_working s - {job}, sy_finishing := sy_finishing s - {job},
       sy_dropped := insert job (sy_dropped s)\<rparr>)"
| step_cleanup: "job \<in> sy_dropped s \<Longrightarrow> state = JobTimedOut \<or> state = JobCancelled \<Longrightarrow>
     vibe_step limit s (s\<lparr>sy_db := update_job_state job state error (sy_db s), sy_dropped := sy_dropped s - {job}\<rparr>)"
| step_restart: "vibe_step limit s (idle_system (snd (recover_interrupted_jobs (sy_db s))))"
| step_rollback: "activate_existing_revision site revision (sy_db s) = (Inr (), db) \<Longrightarrow> vibe_step limit s (s\<lparr>sy_db := db\<rparr>)"
| step_archive: "find_site i (sy_db s) = Some site \<Longrightarrow> vs_status site \<noteq> SiteCreating \<Longrightarrow>
     state = SiteActive \<or> state = SiteArchived \<Longrightarrow> vibe_step limit s (s\<lparr>sy_db := set_site_status i state (sy_db s)\<rparr>)"
| step_access: "vibe_step limit s (s\<lparr>sy_db := set_site_access i access (sy_db s)\<rparr>)"
| step_add_editor: "add_editor i platform user (sy_db s) = (result, db) \<Longrightarrow> vibe_step limit s (s\<lparr>sy_db := db\<rparr>)"
| step_remove_editor: "remove_editor i platform user (sy_db s) = (result', db) \<Longrightarrow> vibe_step limit s (s\<lparr>sy_db := db\<rparr>)"
| step_add_guild: "add_site_guild i platform guild (sy_db s) = (result', db) \<Longrightarrow> vibe_step limit s (s\<lparr>sy_db := db\<rparr>)"

inductive vibe_reach :: "u16 \<Rightarrow> vibe_system \<Rightarrow> bool" for limit where
  reach_start: "vibe_reach limit (idle_system empty_tables)"
| reach_step: "vibe_reach limit s \<Longrightarrow> vibe_step limit s s' \<Longrightarrow> vibe_reach limit s'"

section \<open>The invariant\<close>

definition running_ids :: "vibe_tables \<Rightarrow> string set" where
  "running_ids db = vj_id ` {job \<in> set (vt_jobs db). running_state (vj_state job)}"

text \<open>What a site says of the job that holds it, and a running job of the site it holds.\<close>

definition site_held :: "vibe_tables \<Rightarrow> vibe_site \<Rightarrow> bool" where
  "site_held db site \<longleftrightarrow>
     (\<forall>j. vs_running_job_id site = Some j \<longrightarrow>
        (\<exists>job \<in> set (vt_jobs db). vj_id job = j \<and> vj_site_id job = Some (vs_id site) \<and> running_state (vj_state job)))"

definition job_holds :: "vibe_tables \<Rightarrow> vibe_job \<Rightarrow> bool" where
  "job_holds db job \<longleftrightarrow>
     (running_state (vj_state job) \<longrightarrow>
        (\<exists>site \<in> set (vt_sites db). vj_site_id job = Some (vs_id site) \<and> vs_running_job_id site = Some (vj_id job)))"

definition site_built :: "vibe_tables \<Rightarrow> vibe_site \<Rightarrow> bool" where
  "site_built db site \<longleftrightarrow>
     (if vs_status site = SiteCreating
      then vs_running_job_id site \<noteq> None \<and> vs_active_revision_id site = None
           \<and> (\<forall>r \<in> set (vt_revisions db). rv_site_id r \<noteq> vs_id site)
           \<and> (\<forall>job \<in> set (vt_jobs db). vj_site_id job = Some (vs_id site) \<longrightarrow> vs_running_job_id site = Some (vj_id job))
      else (\<exists>r \<in> set (vt_revisions db). rv_site_id r = vs_id site \<and> vs_active_revision_id site = Some (rv_id r)))"

definition keys_ok :: "vibe_tables \<Rightarrow> bool" where
  "keys_ok db \<longleftrightarrow>
     distinct (map vs_id (vt_sites db)) \<and> distinct (map vs_name (vt_sites db))
     \<and> distinct (map vj_id (vt_jobs db)) \<and> distinct (map vj_tool_use_id (vt_jobs db))
     \<and> distinct (map rv_id (vt_revisions db))
     \<and> (\<forall>job \<in> set (vt_jobs db). \<forall>i. vj_site_id job = Some i \<longrightarrow> i \<in> vs_id ` set (vt_sites db))
     \<and> (\<forall>r \<in> set (vt_revisions db). rv_site_id r \<in> vs_id ` set (vt_sites db))"

definition db_ok :: "u16 \<Rightarrow> vibe_tables \<Rightarrow> bool" where
  "db_ok limit db \<longleftrightarrow>
     keys_ok db
     \<and> (\<forall>site \<in> set (vt_sites db). site_held db site \<and> site_built db site)
     \<and> (\<forall>job \<in> set (vt_jobs db). job_holds db job)
     \<and> (\<forall>platform guild. count_running_jobs platform guild db \<le> unat limit)"

definition system_ok :: "u16 \<Rightarrow> vibe_system \<Rightarrow> bool" where
  "system_ok limit s \<longleftrightarrow>
     db_ok limit (sy_db s)
     \<and> sy_working s \<subseteq> running_ids (sy_db s)
     \<and> running_ids (sy_db s) \<subseteq> sy_working s \<union> sy_dropped s \<union> sy_lost s
     \<and> sy_working s \<inter> (sy_dropped s \<union> sy_lost s) = {}"

lemma same_site:
  assumes "keys_ok db" and "site \<in> set (vt_sites db)" "site' \<in> set (vt_sites db)" "vs_id site = vs_id site'"
  shows "site = site'"
  using assms by (auto simp: keys_ok_def distinct_map inj_on_def)

lemma same_job:
  assumes "keys_ok db" and "job \<in> set (vt_jobs db)" "job' \<in> set (vt_jobs db)" "vj_id job = vj_id job'"
  shows "job = job'"
  using assms by (auto simp: keys_ok_def distinct_map inj_on_def)

lemma find_found: "List.find P xs = Some x \<Longrightarrow> x \<in> set xs \<and> P x"
  by (induction xs) (auto split: if_splits)

lemma find_site_Some:
  assumes "keys_ok db"
  shows "find_site i db = Some site \<longleftrightarrow> site \<in> set (vt_sites db) \<and> vs_id site = i"
proof
  assume "find_site i db = Some site"
  then show "site \<in> set (vt_sites db) \<and> vs_id site = i"
    using find_found [of "\<lambda>s. vs_id s = i"] by (auto simp: find_site_def site_where_def)
next
  assume site: "site \<in> set (vt_sites db) \<and> vs_id site = i"
  then obtain site' where "find_site i db = Some site'"
    by (cases "find_site i db") (auto simp: find_site_def site_where_def find_None_iff)
  moreover from this have "site' \<in> set (vt_sites db)" "vs_id site' = i"
    using find_found [of "\<lambda>s. vs_id s = i"] by (auto simp: find_site_def site_where_def)
  ultimately show "find_site i db = Some site" using same_site [OF assms] site by metis
qed

lemma find_site_None: "find_site i db = None \<longleftrightarrow> i \<notin> vs_id ` set (vt_sites db)"
  by (auto simp: find_site_def site_where_def find_None_iff)

lemma update_jobs_ok:
  assumes ok: "db_ok limit db"
    and f: "\<And>job. job \<in> set (vt_jobs db) \<Longrightarrow> P job \<Longrightarrow>
      vj_id (f job) = vj_id job \<and> vj_site_id (f job) = vj_site_id job \<and> vj_tool_use_id (f job) = vj_tool_use_id job
      \<and> vj_platform (f job) = vj_platform job \<and> vj_guild_id (f job) = vj_guild_id job
      \<and> running_state (vj_state (f job)) = running_state (vj_state job)"
  shows "db_ok limit (update_jobs P f db)" "running_ids (update_jobs P f db) = running_ids db"
proof -
  define g where "g job = (if P job then f job else job)" for job
  have g: "vj_id (g job) = vj_id job" "vj_site_id (g job) = vj_site_id job" "vj_tool_use_id (g job) = vj_tool_use_id job"
    "vj_platform (g job) = vj_platform job" "vj_guild_id (g job) = vj_guild_id job"
    "running_state (vj_state (g job)) = running_state (vj_state job)" if "job \<in> set (vt_jobs db)" for job
    using f [OF that] by (auto simp: g_def)
  have jobs: "vt_jobs (update_jobs P f db) = map g (vt_jobs db)"
    by (simp add: update_jobs_def g_def)
  have same: "vt_sites (update_jobs P f db) = vt_sites db" "vt_revisions (update_jobs P f db) = vt_revisions db"
    by (simp_all add: update_jobs_def)
  have lists: "map vj_id (map g (vt_jobs db)) = map vj_id (vt_jobs db)"
    "map vj_tool_use_id (map g (vt_jobs db)) = map vj_tool_use_id (vt_jobs db)"
    using g by simp_all
  have keys: "keys_ok (update_jobs P f db)"
    using ok g(2) unfolding keys_ok_def db_ok_def jobs same lists by simp
  have held: "site_held (update_jobs P f db) site" if old: "site_held db site" for site
    unfolding site_held_def jobs set_map
  proof (intro allI impI)
    fix j assume "vs_running_job_id site = Some j"
    then obtain job where "job \<in> set (vt_jobs db)" "vj_id job = j" "vj_site_id job = Some (vs_id site)"
      "running_state (vj_state job)"
      using old by (auto simp: site_held_def)
    then show "\<exists>job \<in> g ` set (vt_jobs db). vj_id job = j \<and> vj_site_id job = Some (vs_id site) \<and> running_state (vj_state job)"
      using g(1,2,6) by (intro bexI [of _ "g job"]) auto
  qed
  have built: "site_built (update_jobs P f db) site" if "site_built db site" for site
    using that g(1,2) unfolding site_built_def jobs same by (simp cong: ball_cong)
  have holds: "job_holds (update_jobs P f db) (g job)" if "job \<in> set (vt_jobs db)" "job_holds db job" for job
    using that(2) unfolding job_holds_def same g [OF that(1)] .
  have counts: "count_running_jobs platform guild (update_jobs P f db) = count_running_jobs platform guild db" for platform guild
    unfolding count_running_jobs_def jobs filter_map length_map
    using g by (intro arg_cong [of _ _ length] filter_cong) (auto simp: job_runs_in_def)
  show "db_ok limit (update_jobs P f db)"
    using ok keys held built holds counts unfolding db_ok_def jobs same by simp
  show "running_ids (update_jobs P f db) = running_ids db"
  proof -
    have "{job \<in> set (map g (vt_jobs db)). running_state (vj_state job)} = g ` {job \<in> set (vt_jobs db). running_state (vj_state job)}"
      using g(6) by auto
    then show ?thesis using g(1) unfolding running_ids_def jobs by (simp add: image_image)
  qed
qed

lemma running_job:
  assumes "j \<in> running_ids db"
  obtains job where "job \<in> set (vt_jobs db)" "vj_id job = j" "running_state (vj_state job)"
  using assms by (auto simp: running_ids_def)

lemma progress_ok:
  assumes "db_ok limit db" and "j \<in> running_ids db" and "in_progress state"
  shows "db_ok limit (update_job_state j state error db)" "running_ids (update_job_state j state error db) = running_ids db"
proof -
  have runs: "running_state state" "\<not> terminal_state state"
    using assms(3) by (auto simp: in_progress_def terminal_state_def)
  have all: "running_state (vj_state job)" if "job \<in> set (vt_jobs db)" "vj_id job = j" for job
    using assms(1,2) that same_job by (auto simp: db_ok_def elim!: running_job)
  have "update_job_state j state error db
      = update_jobs (\<lambda>job. vj_id job = j) (\<lambda>job. job\<lparr>vj_state := state, vj_error := map_option (take_chars 8192) error\<rparr>) db"
    using runs by (simp add: update_job_state_def)
  then show "db_ok limit (update_job_state j state error db)" "running_ids (update_job_state j state error db) = running_ids db"
    using update_jobs_ok [OF assms(1)] all runs by simp_all
qed

section \<open>Ending jobs\<close>

text \<open>Between the two halves of a transaction: a site that is being created may have lost its job.\<close>

definition site_unbuilt :: "vibe_tables \<Rightarrow> vibe_site \<Rightarrow> bool" where
  "site_unbuilt db site \<longleftrightarrow>
     vs_status site = SiteCreating \<and> vs_running_job_id site = None \<and> (\<forall>r \<in> set (vt_revisions db). rv_site_id r \<noteq> vs_id site)"

definition db_weak :: "u16 \<Rightarrow> vibe_tables \<Rightarrow> bool" where
  "db_weak limit db \<longleftrightarrow>
     keys_ok db
     \<and> (\<forall>site \<in> set (vt_sites db). site_held db site \<and> (site_built db site \<or> site_unbuilt db site))
     \<and> (\<forall>job \<in> set (vt_jobs db). job_holds db job)
     \<and> (\<forall>platform guild. count_running_jobs platform guild db \<le> unat limit)"

lemma distinct_map_filter_fst: "distinct (map f xs) \<Longrightarrow> distinct (map f (filter P xs))"
  by (simp add: distinct_map_filter)

lemma delete_unbuilt:
  assumes weak: "db_weak limit db" and P: "\<And>site. site \<in> set (vt_sites db) \<Longrightarrow> P site \<longleftrightarrow> site_unbuilt db site"
  shows "db_ok limit (delete_sites P db)" "running_ids (delete_sites P db) = running_ids db"
proof -
  let ?db = "delete_sites P db"
  define gone where "gone i \<longleftrightarrow> i \<in> vs_id ` {site \<in> set (vt_sites db). P site}" for i
  define kept :: "vibe_job \<Rightarrow> bool" where "kept job \<longleftrightarrow> (case vj_site_id job of None \<Rightarrow> True | Some i \<Rightarrow> \<not> gone i)" for job
  have tables: "vt_sites ?db = filter (\<lambda>s. \<not> P s) (vt_sites db)" "vt_jobs ?db = filter kept (vt_jobs db)"
    "vt_revisions ?db = filter (\<lambda>r. \<not> gone (rv_site_id r)) (vt_revisions db)"
    by (simp_all add: delete_sites_def Let_def gone_def kept_def [abs_def] cong: option.case_cong)
  have keys: "keys_ok db" using weak by (simp add: db_weak_def)
  have gone_site: "gone (vs_id site) \<longleftrightarrow> P site" if "site \<in> set (vt_sites db)" for site
    using that same_site [OF keys] by (auto simp: gone_def)
  have runs_kept: "kept job" if runs: "job \<in> set (vt_jobs db)" "running_state (vj_state job)" for job
  proof -
    obtain site where "site \<in> set (vt_sites db)" "vj_site_id job = Some (vs_id site)" "vs_running_job_id site = Some (vj_id job)"
      using weak runs unfolding db_weak_def job_holds_def by blast
    then show ?thesis using P gone_site by (auto simp: kept_def site_unbuilt_def)
  qed
  have revisions: "rv_site_id r \<in> vs_id ` set (vt_sites ?db)" if "r \<in> set (vt_revisions ?db)" for r
    using that keys gone_site unfolding tables by (force simp: keys_ok_def)
  have job_sites: "i \<in> vs_id ` set (vt_sites ?db)" if "job \<in> set (vt_jobs ?db)" "vj_site_id job = Some i" for job i
    using that keys gone_site unfolding tables by (force simp: keys_ok_def kept_def)
  have "keys_ok ?db"
    using keys revisions job_sites unfolding keys_ok_def
    by (simp add: tables(1) tables(2) tables(3) distinct_map_filter_fst)
  moreover have "site_held ?db site \<and> site_built ?db site" if site: "site \<in> set (vt_sites ?db)" for site
  proof
    have old: "site \<in> set (vt_sites db)" "\<not> P site" using site by (auto simp: tables)
    show "site_held ?db site"
      using weak old(1) runs_kept by (fastforce simp: db_weak_def site_held_def tables)
    have "site_built db site" using weak old P by (auto simp: db_weak_def)
    moreover have "\<not> gone (vs_id site)" using old gone_site by simp
    ultimately show "site_built ?db site"
      unfolding site_built_def tables by (auto split: if_splits)
  qed
  moreover have "job_holds ?db job" if job: "job \<in> set (vt_jobs ?db)" for job
    unfolding job_holds_def
  proof
    assume "running_state (vj_state job)"
    then obtain site where site: "site \<in> set (vt_sites db)" "vj_site_id job = Some (vs_id site)"
      "vs_running_job_id site = Some (vj_id job)"
      using weak job by (auto simp: db_weak_def job_holds_def tables)
    moreover have "\<not> P site" using P [OF site(1)] site(3) by (simp add: site_unbuilt_def)
    ultimately show "\<exists>site \<in> set (vt_sites ?db). vj_site_id job = Some (vs_id site) \<and> vs_running_job_id site = Some (vj_id job)"
      by (auto simp: tables)
  qed
  moreover have "count_running_jobs platform guild ?db \<le> unat limit" for platform guild
  proof -
    have "filter (job_runs_in platform guild) (vt_jobs ?db) = filter (job_runs_in platform guild) (vt_jobs db)"
      unfolding tables filter_filter using runs_kept by (intro filter_cong) (auto simp: job_runs_in_def)
    then show ?thesis using weak by (simp add: db_weak_def count_running_jobs_def)
  qed
  ultimately show "db_ok limit ?db" unfolding db_ok_def by blast
  show "running_ids ?db = running_ids db"
    unfolding running_ids_def tables using runs_kept by (intro arg_cong [of _ _ "image vj_id"]) auto
qed

lemma length_filter_mono:
  assumes "\<And>x. x \<in> set xs \<Longrightarrow> P x \<Longrightarrow> Q x"
  shows "length (filter P xs) \<le> length (filter Q xs)"
  using assms by (induction xs) auto

text \<open>
  Ending the jobs \<open>P\<close> and releasing the sites they hold. A site of an ended job that was still being created is left
  without revision and without job.
\<close>

definition ended_ids :: "(vibe_job \<Rightarrow> bool) \<Rightarrow> vibe_tables \<Rightarrow> string set" where
  "ended_ids P db = vj_id ` {job \<in> set (vt_jobs db). P job}"

lemma end_jobs:
  assumes ok: "db_ok limit db"
    and f: "\<And>job. job \<in> set (vt_jobs db) \<Longrightarrow> P job \<Longrightarrow>
      vj_id (f job) = vj_id job \<and> vj_site_id (f job) = vj_site_id job \<and> vj_tool_use_id (f job) = vj_tool_use_id job
      \<and> \<not> running_state (vj_state (f job))"
    and Q: "\<And>site. site \<in> set (vt_sites db) \<Longrightarrow> Q site \<longleftrightarrow> vs_running_job_id site \<in> Some ` ended_ids P db"
  defines "db' \<equiv> update_sites Q (\<lambda>site. site\<lparr>vs_running_job_id := None\<rparr>) (update_jobs P f db)"
  shows "db_weak limit db'" and "running_ids db' = running_ids db - ended_ids P db"
    and "\<And>site. site \<in> set (vt_sites db') \<Longrightarrow>
      site_unbuilt db' site \<longleftrightarrow>
        vs_status site = SiteCreating \<and> (\<exists>job \<in> set (vt_jobs db). P job \<and> vj_site_id job = Some (vs_id site))"
proof -
  define g where "g job = (if P job then f job else job)" for job
  define h where "h site = (if Q site then site\<lparr>vs_running_job_id := None\<rparr> else site)" for site
  have keys: "keys_ok db" using ok by (simp add: db_ok_def)
  have g: "vj_id (g job) = vj_id job" "vj_site_id (g job) = vj_site_id job" "vj_tool_use_id (g job) = vj_tool_use_id job"
    "running_state (vj_state (g job)) \<longleftrightarrow> running_state (vj_state job) \<and> \<not> P job" if "job \<in> set (vt_jobs db)" for job
    using f [OF that] by (auto simp: g_def)
  have h: "vs_id (h site) = vs_id site" "vs_name (h site) = vs_name site" "vs_status (h site) = vs_status site"
    "vs_active_revision_id (h site) = vs_active_revision_id site"
    "vs_running_job_id (h site) = (if Q site then None else vs_running_job_id site)" for site
    by (simp_all add: h_def)
  have tables: "vt_jobs db' = map g (vt_jobs db)" "vt_sites db' = map h (vt_sites db)" "vt_revisions db' = vt_revisions db"
    by (simp_all add: db'_def update_jobs_def update_sites_def g_def h_def)
  have lists: "map vj_id (map g (vt_jobs db)) = map vj_id (vt_jobs db)"
    "map vj_tool_use_id (map g (vt_jobs db)) = map vj_tool_use_id (vt_jobs db)"
    "map vs_id (map h (vt_sites db)) = map vs_id (vt_sites db)" "map vs_name (map h (vt_sites db)) = map vs_name (vt_sites db)"
    using g h by simp_all
  have ids: "vs_id ` set (map h (vt_sites db)) = vs_id ` set (vt_sites db)"
    using h(1) by (simp add: image_image)
  have keys': "keys_ok db'"
    using keys g(2) unfolding keys_ok_def tables lists ids by simp
  have ended: "P job" if "job \<in> set (vt_jobs db)" "vj_id job \<in> ended_ids P db" for job
    using that same_job [OF keys] by (auto simp: ended_ids_def)
  have held: "site_held db' (h site)" if site: "site \<in> set (vt_sites db)" for site
    unfolding site_held_def
  proof (intro allI impI)
    fix j assume "vs_running_job_id (h site) = Some j"
    then have not: "\<not> Q site" and "vs_running_job_id site = Some j" by (auto simp: h split: if_splits)
    then obtain job where job: "job \<in> set (vt_jobs db)" "vj_id job = j" "vj_site_id job = Some (vs_id site)"
      "running_state (vj_state job)"
      using ok site unfolding db_ok_def site_held_def by blast
    moreover have "\<not> P job"
      using not Q [OF site] \<open>vs_running_job_id site = Some j\<close> job(1,2) by (auto simp: ended_ids_def)
    ultimately show "\<exists>job \<in> set (vt_jobs db'). vj_id job = j \<and> vj_site_id job = Some (vs_id (h site)) \<and> running_state (vj_state job)"
      using g [OF job(1)] by (auto simp: tables h intro!: bexI [of _ job])
  qed
  have built: "site_built db site" if "site \<in> set (vt_sites db)" for site
    using ok that by (simp add: db_ok_def)
  have kept: "site_built db' (h site)" if "site \<in> set (vt_sites db)" "\<not> (vs_status site = SiteCreating \<and> Q site)" for site
    using built [OF that(1)] that(2) g(1,2) unfolding site_built_def tables by (auto simp: h split: if_splits)
  have unbuilt: "site_unbuilt db' (h site) \<longleftrightarrow> vs_status site = SiteCreating \<and> Q site" if "site \<in> set (vt_sites db)" for site
    using built [OF that] unfolding site_built_def site_unbuilt_def tables by (auto simp: h split: if_splits)
  have holds: "job_holds db' (g job)" if job: "job \<in> set (vt_jobs db)" for job
    unfolding job_holds_def
  proof
    assume "running_state (vj_state (g job))"
    then have runs: "running_state (vj_state job)" "\<not> P job" using g(4) [OF job] by auto
    then obtain site where site: "site \<in> set (vt_sites db)" "vj_site_id job = Some (vs_id site)"
      "vs_running_job_id site = Some (vj_id job)"
      using ok job unfolding db_ok_def job_holds_def by blast
    then have "\<not> Q site" using Q ended [OF job] runs(2) by auto
    then show "\<exists>site \<in> set (vt_sites db'). vj_site_id (g job) = Some (vs_id site) \<and> vs_running_job_id site = Some (vj_id (g job))"
      using site g [OF job] by (auto simp: tables h intro!: bexI [of _ site])
  qed
  have counts: "count_running_jobs platform guild db' \<le> unat limit" for platform guild
  proof -
    have "count_running_jobs platform guild db' \<le> count_running_jobs platform guild db"
      unfolding count_running_jobs_def tables filter_map length_map comp_def using g(4)
      by (intro length_filter_mono) (auto simp: g_def job_runs_in_def)
    then show ?thesis using ok by (auto simp: db_ok_def intro: order_trans)
  qed
  show "db_weak limit db'"
    unfolding db_weak_def using keys' held kept unbuilt holds counts by (auto simp: tables)
  show "running_ids db' = running_ids db - ended_ids P db"
  proof -
    have "{job \<in> set (vt_jobs db'). running_state (vj_state job)} = g ` {job \<in> set (vt_jobs db). running_state (vj_state job) \<and> \<not> P job}"
      unfolding tables using g(4) by auto
    then have "running_ids db' = vj_id ` {job \<in> set (vt_jobs db). running_state (vj_state job) \<and> \<not> P job}"
      unfolding running_ids_def using g(1) by (simp add: image_image)
    then show ?thesis using ended by (auto simp: running_ids_def ended_ids_def)
  qed
  show "site_unbuilt db' site \<longleftrightarrow>
        vs_status site = SiteCreating \<and> (\<exists>job \<in> set (vt_jobs db). P job \<and> vj_site_id job = Some (vs_id site))"
    if new: "site \<in> set (vt_sites db')" for site
  proof -
    obtain s0 where s0: "s0 \<in> set (vt_sites db)" "site = h s0" using new by (auto simp: tables)
    have "vs_status s0 = SiteCreating \<Longrightarrow>
      Q s0 \<longleftrightarrow> (\<exists>job \<in> set (vt_jobs db). P job \<and> vj_site_id job = Some (vs_id s0))"
    proof
      assume "Q s0"
      then obtain j where j: "vs_running_job_id s0 = Some j" "j \<in> ended_ids P db" using Q [OF s0(1)] by auto
      then obtain job where job: "job \<in> set (vt_jobs db)" "vj_id job = j" "vj_site_id job = Some (vs_id s0)"
        using ok s0(1) unfolding db_ok_def site_held_def by blast
      then show "\<exists>job \<in> set (vt_jobs db). P job \<and> vj_site_id job = Some (vs_id s0)" using ended j(2) by blast
    next
      assume creating: "vs_status s0 = SiteCreating"
      assume "\<exists>job \<in> set (vt_jobs db). P job \<and> vj_site_id job = Some (vs_id s0)"
      then obtain job where job: "job \<in> set (vt_jobs db)" "P job" "vj_site_id job = Some (vs_id s0)" by blast
      then have "vs_running_job_id s0 = Some (vj_id job)"
        using built [OF s0(1)] creating by (auto simp: site_built_def)
      then show "Q s0" using Q [OF s0(1)] job by (auto simp: ended_ids_def)
    qed
    then show ?thesis using unbuilt [OF s0(1)] s0(2) h by auto
  qed
qed

lemma end_job_ok:
  assumes ok: "db_ok limit db" and state: "terminal_state state" "state \<noteq> JobDone"
  shows "db_ok limit (update_job_state j state error db)" "running_ids (update_job_state j state error db) = running_ids db - {j}"
proof -
  let ?P = "\<lambda>job. vj_id job = j" and ?Q = "\<lambda>site. vs_running_job_id site = Some j"
  let ?f = "\<lambda>job. job\<lparr>vj_state := state, vj_error := map_option (take_chars 8192) error\<rparr>"
  define db' where "db' = update_sites ?Q (\<lambda>site. site\<lparr>vs_running_job_id := None\<rparr>) (update_jobs ?P ?f db)"
  have keys: "keys_ok db" using ok by (simp add: db_ok_def)
  have stops: "\<not> running_state state" using state(1) by (auto simp: terminal_state_def)
  have step: "update_job_state j state error db = drop_unbuilt_site j db'"
    using state by (simp add: update_job_state_def release_job_site_def db'_def)
  have Q: "?Q site \<longleftrightarrow> vs_running_job_id site \<in> Some ` ended_ids ?P db" if "site \<in> set (vt_sites db)" for site
    using ok that unfolding db_ok_def site_held_def ended_ids_def by fastforce
  have ends: "db_weak limit db'" "running_ids db' = running_ids db - ended_ids ?P db"
    "\<And>site. site \<in> set (vt_sites db') \<Longrightarrow> site_unbuilt db' site \<longleftrightarrow>
      vs_status site = SiteCreating \<and> (\<exists>job \<in> set (vt_jobs db). ?P job \<and> vj_site_id job = Some (vs_id site))"
    using end_jobs [OF ok, of ?P ?f ?Q] Q stops by (simp_all add: db'_def)
  have minus: "running_ids db - ended_ids ?P db = running_ids db - {j}"
    by (auto simp: running_ids_def ended_ids_def)
  have jobs: "vt_jobs db' = map (\<lambda>job. if ?P job then ?f job else job) (vt_jobs db)"
    by (simp add: db'_def update_sites_def update_jobs_def)
  have "db_ok limit (drop_unbuilt_site j db') \<and> running_ids (drop_unbuilt_site j db') = running_ids db'"
  proof (cases "List.find ?P (vt_jobs db')")
    case None
    then have "\<forall>job \<in> set (vt_jobs db). \<not> ?P job"
      by (auto simp: find_None_iff jobs image_def split: if_splits)
    then have "\<And>site. site \<in> set (vt_sites db') \<Longrightarrow> \<not> site_unbuilt db' site" using ends(3) by blast
    then have "db_ok limit db'" using ends(1) by (auto simp: db_weak_def db_ok_def)
    then show ?thesis using None by (simp add: drop_unbuilt_site_def)
  next
    case (Some k)
    then have k: "k \<in> set (vt_jobs db')" "?P k" using find_found [OF Some] by simp_all
    obtain job where old: "job \<in> set (vt_jobs db)" "k = (if ?P job then ?f job else job)"
      using k(1) unfolding jobs set_map by (elim imageE) blast
    then have job: "job \<in> set (vt_jobs db)" "?P job" "vj_site_id k = vj_site_id job"
      using k(2) by (simp_all split: if_splits)
    have unique: "job' = job" if "job' \<in> set (vt_jobs db)" "?P job'" for job'
      using same_job [OF keys that(1) job(1)] that(2) job(2) by simp
    have "(vs_status site = SiteCreating \<and> vj_site_id k = Some (vs_id site)) \<longleftrightarrow> site_unbuilt db' site"
      if "site \<in> set (vt_sites db')" for site
      unfolding ends(3) [OF that] job(3) using job(1,2) unique by blast
    then show ?thesis using delete_unbuilt [OF ends(1)] Some by (simp add: drop_unbuilt_site_def)
  qed
  then show "db_ok limit (update_job_state j state error db)"
    "running_ids (update_job_state j state error db) = running_ids db - {j}"
    using ends(2) minus step by simp_all
qed

lemma recover_ok:
  assumes ok: "db_ok limit db"
  shows "db_ok limit (snd (recover_interrupted_jobs db))" "running_ids (snd (recover_interrupted_jobs db)) = {}"
proof -
  let ?P = "\<lambda>job. running_state (vj_state job)" and ?Q = "\<lambda>site. vs_running_job_id site \<noteq> None"
  let ?f = "\<lambda>job. job\<lparr>vj_state := JobFailed, vj_error := Some ''interrupted by process restart''\<rparr>"
  define db' where "db' = update_sites ?Q (\<lambda>site. site\<lparr>vs_running_job_id := None\<rparr>) (update_jobs ?P ?f db)"
  have Q: "?Q site \<longleftrightarrow> vs_running_job_id site \<in> Some ` ended_ids ?P db" if "site \<in> set (vt_sites db)" for site
    using ok that unfolding db_ok_def site_held_def ended_ids_def by fastforce
  have ends: "db_weak limit db'" "running_ids db' = running_ids db - ended_ids ?P db"
    "\<And>site. site \<in> set (vt_sites db') \<Longrightarrow> site_unbuilt db' site \<longleftrightarrow>
      vs_status site = SiteCreating \<and> (\<exists>job \<in> set (vt_jobs db). ?P job \<and> vj_site_id job = Some (vs_id site))"
    using end_jobs [OF ok, of ?P ?f ?Q] Q by (simp_all add: db'_def)
  have all: "vs_status site = SiteCreating \<longleftrightarrow> site_unbuilt db' site" if new: "site \<in> set (vt_sites db')" for site
  proof -
    obtain s0 where s0: "s0 \<in> set (vt_sites db)" "vs_id site = vs_id s0" "vs_status site = vs_status s0"
      using new by (auto simp: db'_def update_sites_def update_jobs_def)
    have "vs_status s0 = SiteCreating \<Longrightarrow> \<exists>job \<in> set (vt_jobs db). ?P job \<and> vj_site_id job = Some (vs_id s0)"
      using ok s0(1) unfolding db_ok_def site_built_def site_held_def by fastforce
    then show ?thesis unfolding ends(3) [OF new] s0(2,3) by blast
  qed
  have step: "snd (recover_interrupted_jobs db) = delete_sites (\<lambda>site. vs_status site = SiteCreating) db'"
    by (simp add: recover_interrupted_jobs_def db'_def Let_def)
  show "db_ok limit (snd (recover_interrupted_jobs db))" "running_ids (snd (recover_interrupted_jobs db)) = {}"
    unfolding step using delete_unbuilt [OF ends(1) all] ends(2) by (auto simp: running_ids_def ended_ids_def)
qed

section \<open>Starting and completing jobs\<close>

lemma lock_site:
  assumes weak: "db_weak limit db"
    and site: "site \<in> set (vt_sites db)" "vs_running_job_id site = None"
    and new: "vs_status site = SiteCreating \<Longrightarrow>
      vs_active_revision_id site = None \<and> (\<forall>j \<in> set (vt_jobs db). vj_site_id j \<noteq> Some (vs_id site))"
    and others: "\<And>s. s \<in> set (vt_sites db) \<Longrightarrow> s \<noteq> site \<Longrightarrow> site_built db s"
    and fresh: "vj_id job \<notin> vj_id ` set (vt_jobs db)" "vj_tool_use_id job \<notin> vj_tool_use_id ` set (vt_jobs db)"
    and job: "vj_site_id job = Some (vs_id site)" "running_state (vj_state job)"
    and room: "count_running_jobs (vj_platform job) (vj_guild_id job) db < unat limit"
  defines "db' \<equiv> update_sites (\<lambda>s. vs_id s = vs_id site) (\<lambda>s. s\<lparr>vs_running_job_id := Some (vj_id job)\<rparr>)
    (db\<lparr>vt_jobs := vt_jobs db @ [job]\<rparr>)"
  shows "db_ok limit db'" and "running_ids db' = insert (vj_id job) (running_ids db)"
proof -
  define h where "h s = (if vs_id s = vs_id site then s\<lparr>vs_running_job_id := Some (vj_id job)\<rparr> else s)" for s :: vibe_site
  have keys: "keys_ok db" using weak by (simp add: db_weak_def)
  have h: "vs_id (h s) = vs_id s" "vs_name (h s) = vs_name s" "vs_status (h s) = vs_status s"
    "vs_active_revision_id (h s) = vs_active_revision_id s" for s
    by (simp_all add: h_def)
  have run: "vs_running_job_id (h s) = (if s = site then Some (vj_id job) else vs_running_job_id s)"
    if "s \<in> set (vt_sites db)" for s
    using same_site [OF keys that site(1)] by (auto simp: h_def)
  have tables: "vt_jobs db' = vt_jobs db @ [job]" "vt_sites db' = map h (vt_sites db)" "vt_revisions db' = vt_revisions db"
    by (simp_all add: db'_def update_sites_def h_def)
  have lists: "map vs_id (map h (vt_sites db)) = map vs_id (vt_sites db)"
    "map vs_name (map h (vt_sites db)) = map vs_name (vt_sites db)"
    using h by simp_all
  have images: "vs_id ` set (map h (vt_sites db)) = vs_id ` set (vt_sites db)"
    using h(1) by (simp add: image_image)
  have keys': "keys_ok db'"
    using keys fresh job(1) site(1) unfolding keys_ok_def tables lists images by auto
  have held: "site_held db' (h s)" if old: "s \<in> set (vt_sites db)" for s
  proof (cases "s = site")
    case True
    then show ?thesis using run [OF old] job by (simp add: site_held_def tables h)
  next
    case False
    then show ?thesis using run [OF old] weak old unfolding db_weak_def site_held_def tables h by auto
  qed
  have built: "site_built db' (h s)" if old: "s \<in> set (vt_sites db)" for s
  proof (cases "s = site")
    case True
    have "site_built db site \<or> site_unbuilt db site" using weak site(1) by (simp add: db_weak_def)
    then show ?thesis
      using True run [OF old] new site(2) job(1) unfolding site_built_def site_unbuilt_def tables h
      by (auto split: if_splits)
  next
    case False
    then have "vs_id s \<noteq> vs_id site" using same_site [OF keys old site(1)] by blast
    then show ?thesis
      using others [OF old False] run [OF old] False job(1) unfolding site_built_def tables h by (auto split: if_splits)
  qed
  have holds: "job_holds db' j" if "j \<in> set (vt_jobs db')" for j
    unfolding job_holds_def
  proof
    assume runs: "running_state (vj_state j)"
    show "\<exists>s \<in> set (vt_sites db'). vj_site_id j = Some (vs_id s) \<and> vs_running_job_id s = Some (vj_id j)"
    proof (cases "j = job")
      case True
      then show ?thesis using site(1) job(1) run [OF site(1)] by (auto simp: tables h intro!: bexI [of _ site])
    next
      case False
      then have "j \<in> set (vt_jobs db)" using that by (auto simp: tables)
      then obtain s where s: "s \<in> set (vt_sites db)" "vj_site_id j = Some (vs_id s)" "vs_running_job_id s = Some (vj_id j)"
        using weak runs unfolding db_weak_def job_holds_def by blast
      then show ?thesis using run [OF s(1)] site(2) by (auto simp: tables h intro!: bexI [of _ s])
    qed
  qed
  have counts: "count_running_jobs platform guild db' \<le> unat limit" for platform guild
    using weak room job(2) by (auto simp: db_weak_def count_running_jobs_def tables job_runs_in_def)
  show "db_ok limit db'"
    unfolding db_ok_def using keys' held built holds counts by (auto simp: tables)
  show "running_ids db' = insert (vj_id job) (running_ids db)"
    using job(2) by (auto simp: running_ids_def tables)
qed

lemma db_ok_weak: "db_ok limit db \<Longrightarrow> db_weak limit db"
  by (auto simp: db_ok_def db_weak_def)

lemma find_job_None: "find_job_by_tool_use t db = None \<longleftrightarrow> t \<notin> vj_tool_use_id ` set (vt_jobs db)"
  by (auto simp: find_job_by_tool_use_def find_None_iff)

lemma insert_site_weak:
  assumes ok: "db_ok limit db" and insert: "insert_site site db = (Inr (), db')"
    and new: "vs_status site = SiteCreating" "vs_running_job_id site = None"
  shows "db_weak limit db'" and "site \<in> set (vt_sites db')"
    and "\<And>s. s \<in> set (vt_sites db') \<Longrightarrow> s \<noteq> site \<Longrightarrow> site_built db' s"
    and "\<forall>j \<in> set (vt_jobs db'). vj_site_id j \<noteq> Some (vs_id site)"
    and "vt_jobs db' = vt_jobs db"
proof -
  have fresh: "vs_id site \<notin> vs_id ` set (vt_sites db)" "vs_name site \<notin> vs_name ` set (vt_sites db)"
    and tables: "db' = db\<lparr>vt_sites := vt_sites db @ [site]\<rparr>"
    using insert by (auto simp: insert_site_def list_ex_iff split: if_splits)
  have keys: "keys_ok db" using ok by (simp add: db_ok_def)
  then have keys': "keys_ok db'" using fresh by (auto simp: keys_ok_def tables)
  have none: "\<forall>j \<in> set (vt_jobs db). vj_site_id j \<noteq> Some (vs_id site)" "\<forall>r \<in> set (vt_revisions db). rv_site_id r \<noteq> vs_id site"
    using keys fresh(1) unfolding keys_ok_def by (blast, metis)
  have old: "site_held db' s \<and> site_built db' s" if "s \<in> set (vt_sites db)" for s
    using ok that by (auto simp: db_ok_def site_held_def site_built_def tables)
  have "site_held db' site" "site_unbuilt db' site"
    using new none by (auto simp: site_held_def site_unbuilt_def tables)
  moreover have "job_holds db' job" if "job \<in> set (vt_jobs db)" for job
    using ok that unfolding db_ok_def job_holds_def tables by auto
  moreover have "count_running_jobs platform guild db' \<le> unat limit" for platform guild
    using ok by (simp add: db_ok_def count_running_jobs_def tables)
  ultimately show "db_weak limit db'"
    using keys' old unfolding db_weak_def by (auto simp: tables)
  show "site \<in> set (vt_sites db')" "vt_jobs db' = vt_jobs db" by (simp_all add: tables)
  show "\<forall>j \<in> set (vt_jobs db'). vj_site_id j \<noteq> Some (vs_id site)" using none by (simp add: tables)
  show "site_built db' s" if "s \<in> set (vt_sites db')" "s \<noteq> site" for s
    using old that by (auto simp: tables)
qed

lemma insert_job_lock:
  assumes weak: "db_weak limit db"
    and site: "site \<in> set (vt_sites db)" "vs_running_job_id site = None"
    and new: "vs_status site = SiteCreating \<Longrightarrow>
      vs_active_revision_id site = None \<and> (\<forall>j \<in> set (vt_jobs db). vj_site_id j \<noteq> Some (vs_id site))"
    and others: "\<And>s. s \<in> set (vt_sites db) \<Longrightarrow> s \<noteq> site \<Longrightarrow> site_built db s"
    and insert: "insert_job job db = (Inr j, inserted)"
    and job: "vj_site_id job = Some (vs_id site)" "running_state (vj_state job)" "vj_id job = i"
    and room: "count_running_jobs (vj_platform job) (vj_guild_id job) db < unat limit"
  shows "db_ok limit (update_sites (\<lambda>s. vs_id s = vs_id site) (\<lambda>s. s\<lparr>vs_running_job_id := Some i\<rparr>) inserted)"
    and "running_ids (update_sites (\<lambda>s. vs_id s = vs_id site) (\<lambda>s. s\<lparr>vs_running_job_id := Some i\<rparr>) inserted)
      = insert i (running_ids db)"
proof -
  have fresh: "vj_id job \<notin> vj_id ` set (vt_jobs db)" "vj_tool_use_id job \<notin> vj_tool_use_id ` set (vt_jobs db)"
    and inserted: "inserted = db\<lparr>vt_jobs := vt_jobs db @ [job]\<rparr>"
    using insert by (auto simp: insert_job_def list_ex_iff split: if_splits)
  show "db_ok limit (update_sites (\<lambda>s. vs_id s = vs_id site) (\<lambda>s. s\<lparr>vs_running_job_id := Some i\<rparr>) inserted)"
    "running_ids (update_sites (\<lambda>s. vs_id s = vs_id site) (\<lambda>s. s\<lparr>vs_running_job_id := Some i\<rparr>) inserted)
      = insert i (running_ids db)"
    using lock_site [OF weak site new others fresh job(1,2) room] job(3) by (simp_all add: inserted)
qed

lemma create_job_ok:
  assumes ok: "db_ok limit db" and create: "create_job input db = (Inr job, db')"
    and none: "find_job_by_tool_use (cj_tool_use_id input) db = None" and limit: "cj_max_running_jobs_per_guild input = limit"
  shows "db_ok limit db' \<and> running_ids db' = insert (cj_id input) (running_ids db)"
proof -
  obtain guild claimed inserted where guild: "va_guild_id (cj_actor input) = Some guild"
    and room: "count_running_jobs (va_platform (cj_actor input)) guild db < unat limit"
    and claim: "claim_site input guild db = (Inr (), claimed)"
    and insert: "insert_job (claimed_job input guild) claimed = (Inr job, inserted)"
    and db': "db' = update_sites (\<lambda>site. vs_id site = cj_site_id input) (\<lambda>site. site\<lparr>vs_running_job_id := Some (cj_id input)\<rparr>) inserted"
    using create none limit
    by (auto simp: create_job_def not_le split: option.splits if_splits prod.splits sum.splits)
  have job: "vj_site_id (claimed_job input guild) = Some (cj_site_id input)" "running_state (vj_state (claimed_job input guild))"
    "vj_id (claimed_job input guild) = cj_id input" "vj_platform (claimed_job input guild) = va_platform (cj_actor input)"
    "vj_guild_id (claimed_job input guild) = guild"
    by (simp_all add: claimed_job_def)
  show ?thesis
  proof (cases "cj_action input")
    case ActionCreate
    let ?site = "claimed_site input guild"
    have site: "vs_status ?site = SiteCreating" "vs_running_job_id ?site = None" "vs_active_revision_id ?site = None"
      "vs_id ?site = cj_site_id input"
      by (simp_all add: claimed_site_def)
    have claimed: "insert_site ?site db = (Inr (), claimed)" using claim ActionCreate by (simp add: claim_site_def)
    note facts = insert_site_weak [OF ok claimed site(1,2)]
    have room': "count_running_jobs (vj_platform (claimed_job input guild)) (vj_guild_id (claimed_job input guild)) claimed < unat limit"
      using room facts(5) by (simp add: job count_running_jobs_def)
    have ids: "running_ids claimed = running_ids db" by (simp add: running_ids_def facts(5))
    have new: "vs_active_revision_id ?site = None \<and> (\<forall>j \<in> set (vt_jobs claimed). vj_site_id j \<noteq> Some (vs_id ?site))"
      using site(3) facts(4) by simp
    have here: "vj_site_id (claimed_job input guild) = Some (vs_id ?site)" using job(1) site(4) by simp
    show ?thesis
      using insert_job_lock [OF facts(1,2) site(2) new facts(3) insert here job(2,3) room'] ids
      by (simp add: db' site(4))
  next
    case ActionEdit
    then obtain site where found: "find_site (cj_site_id input) db = Some site"
      and ready: "edit_claim_state (cj_actor input) guild site db = ClaimReady" and same: "claimed = db"
      using claim by (auto simp: claim_site_def split: option.splits claim_state.splits)
    have keys: "keys_ok db" using ok by (simp add: db_ok_def)
    have site: "site \<in> set (vt_sites db)" "vs_id site = cj_site_id input"
      using found find_site_Some [OF keys] by auto
    have free: "vs_running_job_id site = None"
      using ready by (auto simp: edit_claim_state_def split: if_splits)
    have built: "\<And>s. s \<in> set (vt_sites db) \<Longrightarrow> site_built db s" using ok by (simp add: db_ok_def)
    then have active: "vs_status site \<noteq> SiteCreating" using site(1) free by (auto simp: site_built_def)
    have room': "count_running_jobs (vj_platform (claimed_job input guild)) (vj_guild_id (claimed_job input guild)) db < unat limit"
      using room by (simp add: job)
    have here: "vj_site_id (claimed_job input guild) = Some (vs_id site)" using job(1) site(2) by simp
    have locked: "insert_job (claimed_job input guild) db = (Inr job, inserted)" using insert same by simp
    have new: "vs_status site = SiteCreating \<Longrightarrow>
      vs_active_revision_id site = None \<and> (\<forall>j \<in> set (vt_jobs db). vj_site_id j \<noteq> Some (vs_id site))"
      using active by simp
    show ?thesis
      using insert_job_lock [OF db_ok_weak [OF ok] site(1) free new built locked here job(2,3) room'] by (simp add: db' site(2))
  qed
qed

lemma complete_ok:
  assumes ok: "db_ok limit db" and complete: "complete_revision r j db = (Inr (), db')"
  shows "db_ok limit db' \<and> running_ids db' = running_ids db - {j}"
proof -
  have keys: "keys_ok db" using ok by (simp add: db_ok_def)
  define q where "q = r\<lparr>rv_build_log := take_chars 32768 (rv_build_log r)\<rparr>"
  define g where "g job = (if vj_id job = j then job\<lparr>vj_state := JobDone, vj_error := None\<rparr> else job)" for job :: vibe_job
  define h where "h s = (if vs_id s = rv_site_id r
      then s\<lparr>vs_active_revision_id := Some (rv_id r), vs_running_job_id := None, vs_status := SiteActive\<rparr> else s)" for s :: vibe_site
  obtain site where found: "find_site (rv_site_id r) db = Some site" and lock: "vs_running_job_id site = Some j"
    using complete by (auto simp: complete_revision_def Option.bind_eq_Some_conv split: if_splits)
  have site: "site \<in> set (vt_sites db)" "vs_id site = rv_site_id r" using found find_site_Some [OF keys] by auto
  have fresh: "rv_id r \<notin> rv_id ` set (vt_revisions db)"
    and tables: "vt_sites db' = map h (vt_sites db)" "vt_jobs db' = map g (vt_jobs db)" "vt_revisions db' = vt_revisions db @ [q]"
    using complete found lock
    by (auto simp: complete_revision_def insert_revision_def list_ex_iff update_jobs_def update_sites_def g_def h_def q_def
        split: if_splits)
  have q: "rv_id q = rv_id r" "rv_site_id q = rv_site_id r" by (simp_all add: q_def)
  have g: "vj_id (g job) = vj_id job" "vj_site_id (g job) = vj_site_id job" "vj_tool_use_id (g job) = vj_tool_use_id job"
    "running_state (vj_state (g job)) \<longleftrightarrow> running_state (vj_state job) \<and> vj_id job \<noteq> j" for job
    by (auto simp: g_def)
  have h: "vs_id (h s) = vs_id s" "vs_name (h s) = vs_name s" for s by (simp_all add: h_def)
  have other: "h s = s" "vs_running_job_id s \<noteq> Some j" "vs_id s \<noteq> rv_site_id r" if s: "s \<in> set (vt_sites db)" "s \<noteq> site" for s
  proof -
    show "vs_id s \<noteq> rv_site_id r" using same_site [OF keys s(1) site(1)] s(2) site(2) by auto
    then show "h s = s" by (simp add: h_def)
    show "vs_running_job_id s \<noteq> Some j"
    proof
      assume "vs_running_job_id s = Some j"
      then obtain job where job: "job \<in> set (vt_jobs db)" "vj_id job = j" "vj_site_id job = Some (vs_id s)"
        using ok s(1) unfolding db_ok_def site_held_def by blast
      obtain job' where job': "job' \<in> set (vt_jobs db)" "vj_id job' = j" "vj_site_id job' = Some (vs_id site)"
        using ok site(1) lock unfolding db_ok_def site_held_def by blast
      show False using same_job [OF keys job(1) job'(1)] job(2,3) job'(2,3) \<open>vs_id s \<noteq> rv_site_id r\<close> site(2) by auto
    qed
  qed
  have lists: "map vj_id (map g (vt_jobs db)) = map vj_id (vt_jobs db)"
    "map vj_tool_use_id (map g (vt_jobs db)) = map vj_tool_use_id (vt_jobs db)"
    "map vs_id (map h (vt_sites db)) = map vs_id (vt_sites db)" "map vs_name (map h (vt_sites db)) = map vs_name (vt_sites db)"
    "vs_id ` set (map h (vt_sites db)) = vs_id ` set (vt_sites db)"
    using g h by (simp_all add: image_image)
  have here: "rv_site_id r \<in> vs_id ` set (vt_sites db)" using site by force
  have keys': "keys_ok db'"
    using keys fresh here g(2) unfolding keys_ok_def tables lists by (auto simp: q)
  have sites: "site_held db' (h s) \<and> site_built db' (h s)" if s: "s \<in> set (vt_sites db)" for s
  proof (cases "s = site")
    case True
    then show ?thesis using site(2) by (auto simp: site_held_def site_built_def tables h_def q)
  next
    case False
    note o = other [OF s False]
    have old: "site_held db s" "site_built db s" using ok s by (auto simp: db_ok_def)
    have "site_held db' s"
      unfolding site_held_def
    proof (intro allI impI)
      fix k assume k: "vs_running_job_id s = Some k"
      then obtain job where "job \<in> set (vt_jobs db)" "vj_id job = k" "vj_site_id job = Some (vs_id s)" "running_state (vj_state job)"
        using old(1) unfolding site_held_def by blast
      then show "\<exists>job \<in> set (vt_jobs db'). vj_id job = k \<and> vj_site_id job = Some (vs_id s) \<and> running_state (vj_state job)"
        using k o(2) by (intro bexI [of _ "g job"]) (auto simp: tables g)
    qed
    moreover have "site_built db' s"
      using old(2) o(3) unfolding site_built_def tables by (auto simp: q g split: if_splits)
    ultimately show ?thesis using o(1) by simp
  qed
  have holds: "job_holds db' (g job)" if job: "job \<in> set (vt_jobs db)" for job
    unfolding job_holds_def
  proof
    assume "running_state (vj_state (g job))"
    then have runs: "running_state (vj_state job)" "vj_id job \<noteq> j" using g(4) by auto
    then obtain s where s: "s \<in> set (vt_sites db)" "vj_site_id job = Some (vs_id s)" "vs_running_job_id s = Some (vj_id job)"
      using ok job unfolding db_ok_def job_holds_def by blast
    then have "s \<noteq> site" using lock runs(2) by auto
    then have "s \<in> set (vt_sites db')"
      unfolding tables set_map using s(1) other(1) [OF s(1)] by (metis image_eqI)
    then show "\<exists>s \<in> set (vt_sites db'). vj_site_id (g job) = Some (vs_id s) \<and> vs_running_job_id s = Some (vj_id (g job))"
      using s(2,3) by (auto simp: g)
  qed
  have counts: "count_running_jobs platform guild db' \<le> unat limit" for platform guild
  proof -
    have "count_running_jobs platform guild db' \<le> count_running_jobs platform guild db"
      unfolding count_running_jobs_def tables filter_map length_map comp_def using g(4)
      by (intro length_filter_mono) (auto simp: g_def job_runs_in_def)
    then show ?thesis using ok by (auto simp: db_ok_def intro: order_trans)
  qed
  have "running_ids db' = running_ids db - {j}"
  proof -
    have "{job \<in> set (vt_jobs db'). running_state (vj_state job)} = g ` {job \<in> set (vt_jobs db). running_state (vj_state job) \<and> vj_id job \<noteq> j}"
      unfolding tables using g(4) by auto
    then show ?thesis unfolding running_ids_def using g(1) by (auto simp: image_image)
  qed
  then show ?thesis
    unfolding db_ok_def using keys' sites holds counts by (auto simp: tables)
qed

section \<open>Changes that leave the locks alone\<close>

lemma db_ok_cong:
  assumes "vt_sites db' = vt_sites db" "vt_jobs db' = vt_jobs db" "vt_revisions db' = vt_revisions db"
  shows "db_ok limit db' \<longleftrightarrow> db_ok limit db" "running_ids db' = running_ids db"
  using assms
  by (simp_all add: db_ok_def keys_ok_def site_held_def site_built_def job_holds_def count_running_jobs_def running_ids_def)

lemma update_sites_ok:
  assumes ok: "db_ok limit db"
    and f: "\<And>s. s \<in> set (vt_sites db) \<Longrightarrow> P s \<Longrightarrow>
      vs_id (f s) = vs_id s \<and> vs_name (f s) = vs_name s \<and> vs_running_job_id (f s) = vs_running_job_id s \<and> site_built db (f s)"
  shows "db_ok limit (update_sites P f db)" "running_ids (update_sites P f db) = running_ids db"
proof -
  define h where "h s = (if P s then f s else s)" for s
  have h: "vs_id (h s) = vs_id s" "vs_name (h s) = vs_name s" "vs_running_job_id (h s) = vs_running_job_id s" "site_built db (h s)"
    if "s \<in> set (vt_sites db)" for s
    using f [OF that] ok that by (auto simp: h_def db_ok_def)
  have tables: "vt_sites (update_sites P f db) = map h (vt_sites db)" "vt_jobs (update_sites P f db) = vt_jobs db"
    "vt_revisions (update_sites P f db) = vt_revisions db"
    by (simp_all add: update_sites_def h_def)
  have lists: "map vs_id (map h (vt_sites db)) = map vs_id (vt_sites db)" "map vs_name (map h (vt_sites db)) = map vs_name (vt_sites db)"
    using h by simp_all
  have images: "vs_id ` set (map h (vt_sites db)) = vs_id ` set (vt_sites db)"
    using h(1) by (simp add: image_image)
  have "keys_ok (update_sites P f db)"
    using ok unfolding db_ok_def keys_ok_def tables lists images by simp
  moreover have "site_held (update_sites P f db) (h s) \<and> site_built (update_sites P f db) (h s)" if s: "s \<in> set (vt_sites db)" for s
    using ok s h [OF s] unfolding db_ok_def site_held_def site_built_def tables by auto
  moreover have "job_holds (update_sites P f db) job" if job: "job \<in> set (vt_jobs db)" for job
    using ok job h(1,3) unfolding db_ok_def job_holds_def tables by fastforce
  moreover have "count_running_jobs platform guild (update_sites P f db) \<le> unat limit" for platform guild
    using ok by (simp add: db_ok_def count_running_jobs_def tables)
  ultimately show "db_ok limit (update_sites P f db)"
    unfolding db_ok_def by (auto simp: tables)
  show "running_ids (update_sites P f db) = running_ids db" by (simp add: running_ids_def tables)
qed

lemma activate_ok:
  assumes ok: "db_ok limit db" and activate: "activate_existing_revision i revision db = (Inr (), db')"
  shows "db_ok limit db' \<and> running_ids db' = running_ids db"
proof -
  let ?P = "\<lambda>s. vs_id s = i" and ?f = "\<lambda>s. s\<lparr>vs_active_revision_id := Some revision, vs_status := SiteActive\<rparr>"
  obtain r where r: "r \<in> set (vt_revisions db)" "rv_id r = revision" "rv_site_id r = i"
    and db': "db' = update_sites ?P ?f db"
    using activate by (auto simp: activate_existing_revision_def list_ex_iff split: if_splits)
  have "site_built db (?f s)" if "?P s" for s :: vibe_site
    using r that by (auto simp: site_built_def)
  then show ?thesis using update_sites_ok [OF ok, of ?P ?f] by (simp add: db')
qed

lemma archive_ok:
  assumes ok: "db_ok limit db" and site: "find_site i db = Some site" "vs_status site \<noteq> SiteCreating"
    and status: "status = SiteActive \<or> status = SiteArchived"
  shows "db_ok limit (set_site_status i status db) \<and> running_ids (set_site_status i status db) = running_ids db"
proof -
  let ?P = "\<lambda>s. vs_id s = i" and ?f = "\<lambda>s. s\<lparr>vs_status := status\<rparr>"
  have keys: "keys_ok db" using ok by (simp add: db_ok_def)
  have "site_built db (?f s)" if s: "s \<in> set (vt_sites db)" "?P s" for s
  proof -
    have "s = site" using same_site [OF keys s(1)] find_site_Some [OF keys] site(1) s(2) by auto
    moreover have "site_built db s" using ok s(1) by (simp add: db_ok_def)
    ultimately show ?thesis using site(2) status by (auto simp: site_built_def)
  qed
  then show ?thesis using update_sites_ok [OF ok, of ?P ?f] by (simp add: set_site_status_def)
qed

lemma access_ok:
  assumes ok: "db_ok limit db"
  shows "db_ok limit (set_site_access i access db) \<and> running_ids (set_site_access i access db) = running_ids db"
proof -
  let ?f = "\<lambda>s. s\<lparr>vs_access := access\<rparr>"
  have "site_built db (?f s)" if "s \<in> set (vt_sites db)" for s
    using ok that by (auto simp: db_ok_def site_built_def)
  then show ?thesis using update_sites_ok [OF ok, of "\<lambda>s. vs_id s = i" ?f] by (simp add: set_site_access_def)
qed

lemma add_editor_ok:
  assumes "db_ok limit db" and "add_editor i platform user db = (x, db')"
  shows "db_ok limit db' \<and> running_ids db' = running_ids db"
proof -
  have same: "vt_sites db' = vt_sites db" "vt_jobs db' = vt_jobs db" "vt_revisions db' = vt_revisions db"
    using assms(2) by (auto simp: add_editor_def split: if_splits)
  show ?thesis using assms(1) unfolding db_ok_cong [OF same] by simp
qed

lemma remove_editor_ok:
  assumes "db_ok limit db" and "remove_editor i platform user db = (x, db')"
  shows "db_ok limit db' \<and> running_ids db' = running_ids db"
proof -
  have same: "vt_sites db' = vt_sites db" "vt_jobs db' = vt_jobs db" "vt_revisions db' = vt_revisions db"
    using assms(2) by (auto simp: remove_editor_def)
  show ?thesis using assms(1) unfolding db_ok_cong [OF same] by simp
qed

lemma add_site_guild_ok:
  assumes "db_ok limit db" and "add_site_guild i platform user db = (x, db')"
  shows "db_ok limit db' \<and> running_ids db' = running_ids db"
proof -
  have same: "vt_sites db' = vt_sites db" "vt_jobs db' = vt_jobs db" "vt_revisions db' = vt_revisions db"
    using assms(2) by (auto simp: add_site_guild_def Let_def split: if_splits)
  show ?thesis using assms(1) unfolding db_ok_cong [OF same] by simp
qed

section \<open>Every reachable state\<close>

lemma empty_system_ok: "system_ok limit (idle_system empty_tables)"
  by (simp add: system_ok_def idle_system_def empty_tables_def db_ok_def keys_ok_def count_running_jobs_def running_ids_def)

lemma vibe_step_ok:
  assumes "vibe_step limit s s'" and ok: "system_ok limit s"
  shows "system_ok limit s'"
proof -
  have db: "db_ok limit (sy_db s)" using ok by (simp add: system_ok_def)
  show ?thesis
  using assms(1)
  proof cases
    case (step_claim input job db)
    have "db_ok limit db \<and> running_ids db = insert (cj_id input) (running_ids (sy_db s))"
      using create_job_ok [OF db step_claim(2,3,4)] .
    then show ?thesis using ok step_claim(1,5) by (auto simp: system_ok_def known_jobs_def)
  next
    case (step_progress job state error)
    have "job \<in> running_ids (sy_db s)" using ok step_progress(2) by (auto simp: system_ok_def)
    then have "db_ok limit (update_job_state job state error (sy_db s))
        \<and> running_ids (update_job_state job state error (sy_db s)) = running_ids (sy_db s)"
      using progress_ok [OF db _ step_progress(3)] by simp
    then show ?thesis using ok step_progress(1) by (simp add: system_ok_def)
  next
    case (step_complete job r db)
    have "db_ok limit db \<and> running_ids db = running_ids (sy_db s) - {job}"
      using complete_ok [OF db step_complete(3)] .
    then show ?thesis using ok step_complete(1) by (auto simp: system_ok_def)
  next
    case (step_end job state error)
    have "terminal_state state" "state \<noteq> JobDone" using step_end(3) by (auto simp: terminal_state_def)
    then show ?thesis using ok end_job_ok [OF db] step_end(1) by (auto simp: system_ok_def)
  next
    case (step_return job)
    then show ?thesis using ok by (simp add: system_ok_def)
  next
    case (step_lose job)
    then show ?thesis using ok by (auto simp: system_ok_def)
  next
    case (step_drop job)
    then show ?thesis using ok by (auto simp: system_ok_def)
  next
    case (step_cleanup job state error)
    have "terminal_state state" "state \<noteq> JobDone" using step_cleanup(3) by (auto simp: terminal_state_def)
    moreover have "job \<notin> sy_working s" using ok step_cleanup(2) by (auto simp: system_ok_def)
    ultimately show ?thesis using ok end_job_ok [OF db] step_cleanup(1) by (auto simp: system_ok_def)
  next
    case step_restart
    then show ?thesis using recover_ok [OF db] by (simp add: system_ok_def idle_system_def)
  next
    case (step_rollback site revision db)
    have "db_ok limit db \<and> running_ids db = running_ids (sy_db s)"
      using activate_ok [OF db step_rollback(2)] .
    then show ?thesis using ok step_rollback(1) by (simp add: system_ok_def)
  next
    case (step_archive i site state)
    have "db_ok limit (set_site_status i state (sy_db s)) \<and> running_ids (set_site_status i state (sy_db s)) = running_ids (sy_db s)"
      using archive_ok [OF db step_archive(2,3,4)] .
    then show ?thesis using ok step_archive(1) by (simp add: system_ok_def)
  next
    case (step_access i access)
    then show ?thesis using ok access_ok [OF db, of i access] by (simp add: system_ok_def)
  next
    case (step_add_editor i platform user result db)
    then show ?thesis using ok add_editor_ok [OF db step_add_editor(2)] by (simp add: system_ok_def)
  next
    case (step_remove_editor i platform user result' db)
    then show ?thesis using ok remove_editor_ok [OF db step_remove_editor(2)] by (simp add: system_ok_def)
  next
    case (step_add_guild i platform guild result' db)
    then show ?thesis using ok add_site_guild_ok [OF db step_add_guild(2)] by (simp add: system_ok_def)
  qed
qed

lemma vibe_reach_ok: "vibe_reach limit s \<Longrightarrow> system_ok limit s"
  by (induction rule: vibe_reach.induct) (auto intro: empty_system_ok vibe_step_ok)

lemma creating_sites_unbuilt:
  assumes "vibe_reach limit s" and "site \<in> set (vt_sites (sy_db s))" and "vs_status site = SiteCreating"
  shows "\<forall>r \<in> set (vt_revisions (sy_db s)). rv_site_id r \<noteq> vs_id site"
  using vibe_reach_ok [OF assms(1)] assms(2,3) by (auto simp: system_ok_def db_ok_def site_built_def)

section \<open>The site lock\<close>


definition first_claim :: create_vibe_job where
  "first_claim = \<lparr>cj_id = ''job'', cj_site_id = ''site'', cj_site_name = ''blog'', cj_description = ''a blog'', cj_action = ActionCreate,
     cj_actor = \<lparr>va_platform = ''discord'', va_guild_id = Some ''7'', va_user_id = ''42'', va_conversation_id = ''c'',
       va_turn_id = ''t'', va_is_admin = False\<rparr>,
     cj_tool_use_id = ''tool'', cj_max_running_jobs_per_guild = 1\<rparr>"

definition first_system :: vibe_system where
  "first_system = (idle_system empty_tables)\<lparr>sy_db := snd (create_job first_claim empty_tables), sy_working := {''job''}\<rparr>"

lemma first_claim_result:
  "create_job first_claim empty_tables =
     (Inr (claimed_job first_claim ''7''),
      empty_tables\<lparr>vt_sites := [(claimed_site first_claim ''7'')\<lparr>vs_running_job_id := Some ''job''\<rparr>],
        vt_jobs := [claimed_job first_claim ''7'']\<rparr>)"
  by (simp add: create_job_def first_claim_def empty_tables_def find_job_by_tool_use_def count_running_jobs_def claim_site_def
      insert_site_def insert_job_def claimed_site_def claimed_job_def update_sites_def)

lemma first_reach: "vibe_reach 1 first_system"
proof -
  let ?idle = "idle_system empty_tables"
  have db: "sy_db ?idle = empty_tables" by (simp add: idle_system_def)
  have created: "create_job first_claim (sy_db ?idle) = (Inr (claimed_job first_claim ''7''), snd (create_job first_claim empty_tables))"
    unfolding db by (simp add: first_claim_result)
  have none: "find_job_by_tool_use (cj_tool_use_id first_claim) (sy_db ?idle) = None"
    unfolding db by (simp add: find_job_by_tool_use_def empty_tables_def)
  have limit: "cj_max_running_jobs_per_guild first_claim = 1" by (simp add: first_claim_def)
  have fresh: "cj_id first_claim \<notin> known_jobs ?idle" by (simp add: known_jobs_def idle_system_def)
  have "first_system = ?idle\<lparr>sy_db := snd (create_job first_claim empty_tables),
      sy_working := insert (cj_id first_claim) (sy_working ?idle)\<rparr>"
    by (simp add: first_system_def idle_system_def first_claim_def)
  then show ?thesis
    using reach_step [OF reach_start step_claim [OF created none limit fresh]] by simp
qed


end
