(* ===== verification/Bot_Await.thy ===== *)
theory Bot_Await
  imports Main
begin

text \<open>
  Asynchronous handlers of the bot: a step changes a world and gives a result, or none when its future is dropped at one of
  its awaits. What the handlers of a world await is defined with that world. Weakest preconditions carry the proofs about
  them; a postcondition is also asked of the world a dropped future leaves behind.
\<close>

section \<open>Steps\<close>

type_synonym ('w, 'a) await_step = "'w \<Rightarrow> 'a option \<times> 'w"

definition step_return :: "'a \<Rightarrow> ('w, 'a) await_step" where
  "step_return a w = (Some a, w)"

definition step_then :: "('w, 'a) await_step \<Rightarrow> ('a \<Rightarrow> ('w, 'b) await_step) \<Rightarrow> ('w, 'b) await_step" where
  "step_then m k w = (case m w of (None, w') \<Rightarrow> (None, w') | (Some a, w') \<Rightarrow> k a w')"

text \<open>The question mark of the code: an error ends the handler with it.\<close>

definition try_step :: "('w, 'e + 'a) await_step \<Rightarrow> ('a \<Rightarrow> ('w, 'e + 'b) await_step) \<Rightarrow> ('w, 'e + 'b) await_step" where
  "try_step m k = step_then m (\<lambda>answer. case answer of Inl e \<Rightarrow> step_return (Inl e) | Inr a \<Rightarrow> k a)"

section \<open>Weakest preconditions\<close>

definition wp :: "('w, 'a) await_step \<Rightarrow> ('a option \<Rightarrow> 'w \<Rightarrow> bool) \<Rightarrow> 'w \<Rightarrow> bool" where
  "wp m Q w \<longleftrightarrow> (case m w of (r, w') \<Rightarrow> Q r w')"

lemma wp_return [simp]: "wp (step_return a) Q w \<longleftrightarrow> Q (Some a) w"
  by (simp add: wp_def step_return_def)

lemma wp_then [simp]:
  "wp (step_then m k) Q w \<longleftrightarrow> wp m (\<lambda>r w'. case r of None \<Rightarrow> Q None w' | Some a \<Rightarrow> wp (k a) Q w') w"
  by (simp add: wp_def step_then_def split: prod.split option.split)

lemma wp_mono: "wp m Q w \<Longrightarrow> (\<And>r w'. Q r w' \<Longrightarrow> R r w') \<Longrightarrow> wp m R w"
  by (auto simp: wp_def split: prod.splits)

lemma wp_seq:
  assumes "wp m (\<lambda>_. I) w" and "\<And>w'. I w' \<Longrightarrow> Q None w'" and "\<And>a w'. I w' \<Longrightarrow> wp (k a) Q w'"
  shows "wp (step_then m k) Q w"
  unfolding wp_then by (rule wp_mono [OF assms(1)]) (use assms(2,3) in \<open>simp split: option.split\<close>)

lemma wp_try:
  assumes "wp m (\<lambda>_. I) w" and "\<And>w'. I w' \<Longrightarrow> Q None w'" and "\<And>e w'. I w' \<Longrightarrow> Q (Some (Inl e)) w'"
    and "\<And>a w'. I w' \<Longrightarrow> wp (k a) Q w'"
  shows "wp (try_step m k) Q w"
  unfolding try_step_def by (rule wp_seq [OF assms(1)]) (use assms(2-4) in \<open>simp_all split: sum.split\<close>)

end
