(* ===== verification/Bot_Vibe.thy ===== *)
theory Bot_Vibe
  imports Store_Vibe Vibe_Coding Api_Agent_Run Bot_Await
begin

text \<open>
  The Vibe tools of an agent: names, listing and management of sites, and the pieces that jobs share
  (\<open>chudbot-bot/src/tools/vibe.rs\<close>). Every await of a tool is counted; the environment says what is answered at that
  moment, and at which await the future is dropped, if it is. Storage is the tables of \<open>Store_Vibe\<close>.
\<close>

section \<open>Awaiting\<close>

text \<open>
  What the tools find in their context and configuration, and what the services answer: at each await the membership that
  Discord reports of a user, the fault of a storage call, and what the SQL of \<open>list_sites\<close> selects.
\<close>

record vibe_tool_env =
  te_access :: vibe_access
  te_reserved_names :: "string list"
  te_base_domain :: string
  te_max_running_jobs :: u16
  te_actor :: vibe_actor
  te_membership :: "nat \<Rightarrow> string \<Rightarrow> string \<Rightarrow> string \<Rightarrow> string + bool"
  te_fault :: "nat \<Rightarrow> string option"
  te_listed :: "vibe_tables \<Rightarrow> vibe_actor \<Rightarrow> string option \<Rightarrow> (vibe_site \<times> vibe_role) list"
  te_last_changed :: "vibe_site \<Rightarrow> json"
  te_dropped :: "nat option"

record tool_world =
  tw_db :: vibe_tables
  tw_awaits :: nat

type_synonym 'a tool_step = "(tool_world, 'a) await_step"

definition await :: "'x vibe_tool_env_scheme \<Rightarrow> (nat \<Rightarrow> 'a) \<Rightarrow> 'a tool_step" where
  "await env answer w =
     (if te_dropped env = Some (tw_awaits w) then (None, w)
      else (Some (answer (tw_awaits w)), w\<lparr>tw_awaits := Suc (tw_awaits w)\<rparr>))"

text \<open>A storage call that fails changes nothing.\<close>

definition stored :: "'x vibe_tool_env_scheme \<Rightarrow> (vibe_tables \<Rightarrow> 'a store_step) \<Rightarrow> (store_error + 'a) tool_step" where
  "stored env operation w =
     (if te_dropped env = Some (tw_awaits w) then (None, w)
      else (let w' = w\<lparr>tw_awaits := Suc (tw_awaits w)\<rparr> in
        case te_fault env (tw_awaits w) of
          Some e \<Rightarrow> (Some (Inl (StoreSqlx e)), w')
        | None \<Rightarrow> (Some (fst (operation (tw_db w))), w'\<lparr>tw_db := snd (operation (tw_db w))\<rparr>)))"

definition reading :: "(vibe_tables \<Rightarrow> 'a) \<Rightarrow> vibe_tables \<Rightarrow> 'a store_step" where
  "reading f db = (Inr (f db), db)"

definition changing :: "(vibe_tables \<Rightarrow> vibe_tables) \<Rightarrow> vibe_tables \<Rightarrow> unit store_step" where
  "changing f db = (Inr (), f db)"

text \<open>A call of a user's membership; the error is only logged.\<close>

definition membership :: "'x vibe_tool_env_scheme \<Rightarrow> string \<Rightarrow> string \<Rightarrow> string \<Rightarrow> (string + bool) tool_step" where
  "membership env platform guild user = await env (\<lambda>n. te_membership env n platform guild user)"

section \<open>Messages and results\<close>

fun store_error_message :: "store_error \<Rightarrow> string" where
  "store_error_message (StoreSqlx e) = ''sqlx: '' @ e"
| "store_error_message (StoreInvalidReference e) = ''invalid platform reference: '' @ e"
| "store_error_message (StoreVibeConflict e) = ''Vibe conflict: '' @ e"

fun vibe_access_error_message :: "vibe_access_error \<Rightarrow> string" where
  "vibe_access_error_message VibeDisabled = ''Vibe is disabled''"
| "vibe_access_error_message VibeDirectMessage = ''Vibe sites can only be created from a server channel''"
| "vibe_access_error_message VibeGuildNotAllowed = ''this server is not enabled for Vibe''"
| "vibe_access_error_message VibeNotMember = ''you must still be a member of this server''"
| "vibe_access_error_message VibeWrongGuild = ''this site belongs to another server''"
| "vibe_access_error_message VibeForbidden = ''you do not have permission to perform this action''"

fun name_error_message :: "name_error \<Rightarrow> string" where
  "name_error_message NameLength = ''name must contain 3 to 63 characters''"
| "name_error_message NameNotLowercaseAscii = ''name must be lowercase ASCII''"
| "name_error_message NameInternationalized = ''internationalized DNS labels are reserved''"
| "name_error_message NameReserved = ''name is reserved''"
| "name_error_message NameEdge = ''name must start and end with a letter or digit''"
| "name_error_message NameCharacters = ''name may contain only lowercase letters, digits, and hyphens''"

text \<open>The padlock is U+1F512.\<close>

fun vibe_site_access_label :: "vibe_site_access \<Rightarrow> string" where
  "vibe_site_access_label SiteProtected = map byte [240, 159, 148, 146] @ '' protected''"
| "vibe_site_access_label SitePublic = ''public''"

definition json_output :: "json \<Rightarrow> bool \<Rightarrow> usage_record list \<Rightarrow> client_tool_output" where
  "json_output value failed usage =
     \<lparr>cto_result = ResultJson value, cto_media = [], cto_is_error = failed, cto_trace_response = value, cto_usage = usage\<rparr>"

definition vibe_tool_error :: "string \<Rightarrow> string \<Rightarrow> client_tool_output" where
  "vibe_tool_error code message =
     json_output (json_object [(''error'', json_object [(''code'', JString code), (''message'', JString message)]),
       (''siteModified'', JBool False)]) True []"

definition vibe_edit_access_denied :: "string \<Rightarrow> client_tool_output" where
  "vibe_edit_access_denied message =
     vibe_tool_error ''access_denied''
       (message @ ''. The site was not modified. Its owner or a Chudbot admin must authorize you as an editor before you can edit it'')"

definition site_url :: "string \<Rightarrow> string \<Rightarrow> string" where
  "site_url name base = ''https://'' @ name @ ''.'' @ base @ ''/''"

definition source_url :: "string \<Rightarrow> string \<Rightarrow> string" where
  "source_url name base = ''https://src.'' @ base @ ''/sites/'' @ name"

text \<open>\<open>serialized run\<close>: the summary, the tool trace and the model steps of a coding run, as \<open>serde\<close> writes them.\<close>

definition vibe_success ::
  "(agent_run \<Rightarrow> json \<times> json \<times> json) \<Rightarrow> string \<Rightarrow> string \<Rightarrow> string \<Rightarrow> string \<Rightarrow> agent_run list \<Rightarrow> client_tool_output" where
  "vibe_success serialized name state summary base runs =
     json_output (json_object
       [(''state'', JString state), (''siteName'', JString name), (''summary'', JString summary),
        (''siteUrl'', JString (site_url name base)), (''sourceUrl'', JString (source_url name base)),
        (''codingRuns'', JArray (map (\<lambda>run. case serialized run of (brief, trace, steps) \<Rightarrow>
            json_object [(''summary'', brief), (''toolTrace'', trace), (''modelSteps'', steps)]) runs))])
       False (concat (map all_usage runs))"

fun job_state :: "vibe_job_state \<Rightarrow> string" where
  "job_state JobDone = ''done''"
| "job_state JobNoChanges = ''no_changes''"
| "job_state JobFailed = ''failed''"
| "job_state JobCancelled = ''cancelled''"
| "job_state JobTimedOut = ''timed_out''"
| "job_state _ = ''running''"

definition site_description :: "string \<Rightarrow> string" where
  "site_description task = take_chars 240 (case str_lines task of [] \<Rightarrow> [] | line # _ \<Rightarrow> line)"

definition commit_message :: "vibe_action \<Rightarrow> string \<Rightarrow> string \<Rightarrow> string \<Rightarrow> string" where
  "commit_message action name task summary =
     (if action = ActionCreate then ''Create'' else ''Update'') @ '' '' @ name @ [byte 10, byte 10] @
     take_chars 4000 task @ [byte 10, byte 10] @ take_chars 2000 summary"

definition numeric_guild_id :: "string \<Rightarrow> string option" where
  "numeric_guild_id input =
     (case parse_u64 (str_trim input) of
        None \<Rightarrow> None
      | Some n \<Rightarrow> if n = 0 then None else Some (dec_digits (unat n)))"

section \<open>Roles\<close>

text \<open>An editor lookup that fails counts as no editor.\<close>

definition editor_of :: "store_error + bool \<Rightarrow> bool" where
  "editor_of answer = (case answer of Inl _ \<Rightarrow> False | Inr editor \<Rightarrow> editor)"

definition role_of_actor :: "'x vibe_tool_env_scheme \<Rightarrow> vibe_site \<Rightarrow> vibe_role tool_step" where
  "role_of_actor env site =
     (let actor = te_actor env in
      if va_is_admin actor then step_return RoleAdmin
      else if vs_owner_user_id site = va_user_id actor then step_return RoleOwner
      else step_then (stored env (reading (is_editor (vs_id site) (va_platform actor) (va_user_id actor))))
        (\<lambda>answer. step_return (if editor_of answer then RoleEditor else RoleMember)))"

fun role_debug :: "vibe_role \<Rightarrow> string" where
  "role_debug RoleMember = ''member''"
| "role_debug RoleEditor = ''editor''"
| "role_debug RoleOwner = ''owner''"
| "role_debug RoleAdmin = ''admin''"

section \<open>Specifications\<close>

definition choice_schema :: "string list \<Rightarrow> tool_input_value_schema" where
  "choice_schema values =
     ToolInputValueSchema (Typed StringType None) None values None None None None None None None None"

definition described_string :: "string \<Rightarrow> tool_input_value_schema" where
  "described_string description =
     ToolInputValueSchema (Typed StringType None) (Some description) [] None None None None None None None None"

definition vibe_tool_spec :: "string \<Rightarrow> client_tool_spec" where
  "vibe_tool_spec description =
     \<lparr>cts_description = description,
      cts_input_schema = schema_object
        [required_field ''action'' (choice_schema [''create'', ''edit'']), required_field ''siteName'' string_schema,
         required_field ''task'' string_schema]\<rparr>"

definition vibe_check_names_spec :: client_tool_spec where
  "vibe_check_names_spec =
     \<lparr>cts_description = ''Check up to eight Vibe site name candidates without reserving them.'',
      cts_input_schema = schema_object
        [required_field ''names''
          (ToolInputValueSchema (Typed ArrayType (Some string_schema)) None [] None None None None None None (Some 1) (Some 8))]\<rparr>"

definition vibe_list_sites_spec :: client_tool_spec where
  "vibe_list_sites_spec =
     \<lparr>cts_description = ''List active Vibe sites in the current server, ordered for resolving references such as '' @ [CHR 0x27] @
        ''that site'' @ [CHR 0x27] @ ''.'',
      cts_input_schema = schema_object [optional_field ''filter'' string_schema]\<rparr>"

text \<open>The description says the sites are protected with the padlock U+1F512.\<close>

definition vibe_manage_spec :: client_tool_spec where
  "vibe_manage_spec =
     \<lparr>cts_description = ''Roll back, authorize or revoke editors, share a protected site with another server, change viewer access, archive, or restore a Vibe site when the current actor has permission. Only the owner or a Chudbot admin can manage access. Sites are '' @
        vibe_site_access_label SiteProtected @ '' by default.'',
      cts_input_schema = schema_object
        [required_field ''action''
           (choice_schema [''rollback'', ''add_editor'', ''remove_editor'', ''add_guild'', ''set_access'', ''archive'', ''restore'']),
         required_field ''siteName'' string_schema, optional_field ''revision'' line_schema,
         optional_field ''userId'' (described_string ''Numeric platform user id required by add_editor and remove_editor; copy it from trusted message context, never infer it from a username.''),
         optional_field ''accessLevel'' (choice_schema [''protected'', ''public'']),
         optional_field ''guildId'' (described_string ''Numeric platform guild id required by add_guild. Members of that guild will be able to view the protected site after signing in.'')]\<rparr>"

section \<open>Checking names\<close>

type_synonym tool_reply = "string client_tool_executor_error + client_tool_output"

definition reply :: "client_tool_output \<Rightarrow> tool_reply tool_step" where
  "reply output = step_return (Inr output)"

text \<open>The checks before the names and the sites of a guild are told.\<close>

definition seen_by_member :: "'x vibe_tool_env_scheme \<Rightarrow> tool_reply tool_step \<Rightarrow> tool_reply tool_step" where
  "seen_by_member env k =
     (let actor = te_actor env in
      if check_rollout (te_access env) actor OpView \<noteq> Inr ()
      then reply (vibe_tool_error ''access_denied'' ''Vibe is unavailable in this server'')
      else case va_guild_id actor of
        None \<Rightarrow> reply (vibe_tool_error ''dm_not_allowed'' ''Vibe sites belong to servers'')
      | Some guild \<Rightarrow>
          step_then (membership env (va_platform actor) guild (va_user_id actor)) (\<lambda>answer.
            case answer of
              Inl _ \<Rightarrow> reply (vibe_tool_error ''discord_unavailable'' ''Discord membership could not be checked'')
            | Inr False \<Rightarrow> reply (vibe_tool_error ''not_a_member'' ''you must be a current member'')
            | Inr True \<Rightarrow> k))"

definition name_status :: "string \<Rightarrow> string \<Rightarrow> json" where
  "name_status name status = json_object [(''name'', JString name), (''status'', JString status)]"

fun check_candidates :: "'x vibe_tool_env_scheme \<Rightarrow> json list \<Rightarrow> json list \<Rightarrow> tool_reply tool_step" where
  "check_candidates env results [] =
     reply (json_output (json_object [(''names'', JArray results)]) False [])"
| "check_candidates env results (JString name # candidates) =
     (if validate_name (vibe_names_new (te_reserved_names env)) name \<noteq> Inr ()
      then check_candidates env (results @ [name_status name ''invalid'']) candidates
      else step_then (stored env (reading (find_site_by_name name))) (\<lambda>answer.
        case answer of
          Inl _ \<Rightarrow> reply (vibe_tool_error ''storage_unavailable'' ''Vibe storage is temporarily unavailable'')
        | Inr (Some _) \<Rightarrow> check_candidates env (results @ [name_status name ''unavailable'']) candidates
        | Inr None \<Rightarrow> check_candidates env (results @ [name_status name ''available'']) candidates))"
| "check_candidates env results (_ # candidates) = reply (vibe_tool_error ''invalid_input'' ''every name must be a string'')"

definition vibe_check_names :: "'x vibe_tool_env_scheme option \<Rightarrow> client_tool_call \<Rightarrow> tool_reply tool_step" where
  "vibe_check_names runtime call =
     (case runtime of
        None \<Rightarrow> step_return (Inl (UnknownTool (ctc_name call)))
      | Some env \<Rightarrow> seen_by_member env
          (case Option.bind (json_get (ctc_input call) ''names'') json_as_array of
             None \<Rightarrow> reply (vibe_tool_error ''invalid_input'' ''names must be an array'')
           | Some names \<Rightarrow>
               (if names = [] \<or> 8 < length names
                then reply (vibe_tool_error ''invalid_input'' ''provide between one and eight names'')
                else check_candidates env [] names)))"

section \<open>Listing sites\<close>

definition listed_site :: "'x vibe_tool_env_scheme \<Rightarrow> vibe_site \<times> vibe_role \<Rightarrow> json" where
  "listed_site env entry =
     (case entry of (site, role) \<Rightarrow> json_object
       [(''name'', JString (vs_name site)), (''description'', JString (vs_description site)), (''role'', JString (role_debug role)),
        (''accessLevel'', JString (vibe_site_access_str (vs_access site))),
        (''accessLabel'', JString (vibe_site_access_label (vs_access site))),
        (''siteUrl'', JString (''https://'' @ vs_name site @ ''.'' @ te_base_domain env)),
        (''sourceUrl'', JString (source_url (vs_name site) (te_base_domain env))), (''lastChanged'', te_last_changed env site)])"

definition vibe_list_sites :: "'x vibe_tool_env_scheme option \<Rightarrow> client_tool_call \<Rightarrow> tool_reply tool_step" where
  "vibe_list_sites runtime call =
     (case runtime of
        None \<Rightarrow> step_return (Inl (UnknownTool (ctc_name call)))
      | Some env \<Rightarrow> seen_by_member env
          (step_then (stored env (reading (\<lambda>db. te_listed env db (te_actor env)
               (Option.bind (json_get (ctc_input call) ''filter'') json_as_str)))) (\<lambda>answer.
             case answer of
               Inl _ \<Rightarrow> step_return (Inl (Execution ''Vibe storage is temporarily unavailable''))
             | Inr sites \<Rightarrow>
                 reply (json_output (json_object [(''sites'', JArray (map (listed_site env) sites))]) False []))))"

section \<open>Managing sites\<close>

text \<open>An action either answers the call at once or gives its part of the result.\<close>

type_synonym manage_step = "(tool_reply + json) tool_step"

definition refuse :: "string \<Rightarrow> string \<Rightarrow> manage_step" where
  "refuse code message = step_return (Inl (Inr (vibe_tool_error code message)))"

definition or_execution :: "(store_error + 'a) tool_step \<Rightarrow> ('a \<Rightarrow> manage_step) \<Rightarrow> manage_step" where
  "or_execution m k =
     step_then m (\<lambda>answer. case answer of
       Inl e \<Rightarrow> step_return (Inl (Inl (Execution (store_error_message e))))
     | Inr a \<Rightarrow> k a)"

fun json_as_i32 :: "json \<Rightarrow> int option" where
  "json_as_i32 (JNumber n) = parse_i32 n"
| "json_as_i32 _ = None"

definition wanted_ordinal :: "json \<Rightarrow> vibe_revision option \<Rightarrow> int option" where
  "wanted_ordinal input active =
     (case Option.bind (json_get input ''revision'') json_as_i32 of
        Some ordinal \<Rightarrow> Some ordinal
      | None \<Rightarrow> map_option (\<lambda>r. rv_ordinal r - 1) active)"

definition manage_rollback :: "'x vibe_tool_env_scheme \<Rightarrow> json \<Rightarrow> vibe_site \<Rightarrow> manage_step" where
  "manage_rollback env input site =
     or_execution (stored env (reading (list_revisions (vs_id site)))) (\<lambda>revisions.
     or_execution (stored env (reading (active_revision (vs_id site)))) (\<lambda>active.
       case Option.bind (wanted_ordinal input active) (\<lambda>ordinal. List.find (\<lambda>r. rv_ordinal r = ordinal) revisions) of
         None \<Rightarrow> refuse ''revision_not_found'' ''the requested rollback revision does not exist''
       | Some revision \<Rightarrow>
           or_execution (stored env (activate_existing_revision (vs_id site) (rv_id revision))) (\<lambda>_.
           step_then (await env (\<lambda>_. ())) (\<lambda>_.
             step_return (Inr (json_object
               [(''action'', JString ''rollback''), (''revision'', JNumber (dec_int (rv_ordinal revision)))]))))))"

definition manage_add_editor :: "'x vibe_tool_env_scheme \<Rightarrow> json \<Rightarrow> string \<Rightarrow> vibe_site \<Rightarrow> manage_step" where
  "manage_add_editor env input guild site =
     (case Option.bind (json_get input ''userId'') json_as_str of
        None \<Rightarrow> refuse ''invalid_input'' ''userId is required''
      | Some user \<Rightarrow>
          step_then (membership env (va_platform (te_actor env)) guild user) (\<lambda>answer.
            case answer of
              Inl _ \<Rightarrow> refuse ''discord_unavailable'' ''Discord membership could not be checked''
            | Inr False \<Rightarrow> refuse ''not_a_member'' ''the editor must be a current server member''
            | Inr True \<Rightarrow>
                or_execution (stored env (add_editor (vs_id site) (va_platform (te_actor env)) user)) (\<lambda>_.
                  step_return (Inr (json_object [(''action'', JString ''add_editor''), (''userId'', JString user)])))))"

definition manage_remove_editor :: "'x vibe_tool_env_scheme \<Rightarrow> json \<Rightarrow> vibe_site \<Rightarrow> manage_step" where
  "manage_remove_editor env input site =
     (case Option.bind (json_get input ''userId'') json_as_str of
        None \<Rightarrow> refuse ''invalid_input'' ''userId is required''
      | Some user \<Rightarrow>
          or_execution (stored env (remove_editor (vs_id site) (va_platform (te_actor env)) user)) (\<lambda>removed.
            step_return (Inr (json_object
              [(''action'', JString ''remove_editor''), (''userId'', JString user), (''removed'', JBool removed)]))))"

definition manage_add_guild :: "'x vibe_tool_env_scheme \<Rightarrow> json \<Rightarrow> vibe_site \<Rightarrow> manage_step" where
  "manage_add_guild env input site =
     (if vs_access site \<noteq> SiteProtected then refuse ''site_is_public'' ''guild sharing only applies to protected sites''
      else case Option.bind (Option.bind (json_get input ''guildId'') json_as_str) numeric_guild_id of
        None \<Rightarrow> refuse ''invalid_input'' ''guildId must be a nonzero numeric platform guild id''
      | Some target \<Rightarrow>
          (if target = vs_guild_id site then refuse ''guild_already_allowed'' ''the owning server already has access''
           else case check_rollout (te_access env) ((te_actor env)\<lparr>va_guild_id := Some target\<rparr>) OpView of
             Inl e \<Rightarrow> refuse ''guild_not_allowed'' (vibe_access_error_message e)
           | Inr _ \<Rightarrow>
               or_execution (stored env (add_site_guild (vs_id site) (vs_platform site) target)) (\<lambda>added.
                 step_return (Inr (json_object
                   [(''action'', JString ''add_guild''), (''guildId'', JString target), (''added'', JBool added)])))))"

definition manage_set_access :: "'x vibe_tool_env_scheme \<Rightarrow> json \<Rightarrow> vibe_site \<Rightarrow> manage_step" where
  "manage_set_access env input site =
     (case Option.bind (Option.bind (json_get input ''accessLevel'') json_as_str) parse_site_access of
        None \<Rightarrow> refuse ''invalid_input'' ''accessLevel must be protected or public''
      | Some access \<Rightarrow>
          or_execution (stored env (changing (set_site_access (vs_id site) access))) (\<lambda>_.
            step_return (Inr (json_object
              [(''action'', JString ''set_access''), (''accessLevel'', JString (vibe_site_access_str access)),
               (''accessLabel'', JString (vibe_site_access_label access))]))))"

definition manage_status :: "'x vibe_tool_env_scheme \<Rightarrow> string \<Rightarrow> vibe_site_status \<Rightarrow> vibe_site \<Rightarrow> manage_step" where
  "manage_status env action status site =
     or_execution (stored env (changing (set_site_status (vs_id site) status))) (\<lambda>_.
       step_return (Inr (json_object [(''action'', JString action)])))"

definition manage_action :: "'x vibe_tool_env_scheme \<Rightarrow> json \<Rightarrow> string \<Rightarrow> string \<Rightarrow> vibe_site \<Rightarrow> manage_step" where
  "manage_action env input guild action site =
     (if action = ''rollback'' then manage_rollback env input site
      else if action = ''add_editor'' then manage_add_editor env input guild site
      else if action = ''remove_editor'' then manage_remove_editor env input site
      else if action = ''add_guild'' then manage_add_guild env input site
      else if action = ''set_access'' then manage_set_access env input site
      else if action = ''archive'' then manage_status env action SiteArchived site
      else if action = ''restore'' then
        (if vs_active_revision_id site = None
         then refuse ''no_revision'' ''a site without a successful revision cannot be restored''
         else manage_status env action SiteActive site)
      else refuse ''invalid_action'' ''unknown Vibe management action'')"

definition managed :: "'x vibe_tool_env_scheme \<Rightarrow> string \<Rightarrow> tool_reply + json \<Rightarrow> tool_reply tool_step" where
  "managed env name outcome =
     (case outcome of
        Inl answer \<Rightarrow> step_return answer
      | Inr result \<Rightarrow>
          reply (json_output (json_object
            [(''ok'', JBool True), (''siteName'', JString name), (''result'', result),
             (''siteUrl'', JString (site_url name (te_base_domain env))),
             (''sourceUrl'', JString (source_url name (te_base_domain env)))]) False []))"

definition manage_site :: "'x vibe_tool_env_scheme \<Rightarrow> json \<Rightarrow> string \<Rightarrow> string \<Rightarrow> string \<Rightarrow> vibe_site \<Rightarrow> tool_reply tool_step" where
  "manage_site env input guild action name site =
     (let actor = te_actor env in
      if vs_running_job_id site \<noteq> None then reply (vibe_tool_error ''site_busy'' ''this site has a coding job in progress'')
      else step_then (membership env (va_platform actor) guild (va_user_id actor)) (\<lambda>answer.
        case answer of
          Inl _ \<Rightarrow> reply (vibe_tool_error ''discord_unavailable'' ''Discord membership could not be checked'')
        | Inr False \<Rightarrow> reply (vibe_tool_error ''not_a_member'' ''you must be a current member'')
        | Inr True \<Rightarrow>
            step_then (role_of_actor env site) (\<lambda>role.
              case check_site (te_access env) actor site role (if action = ''rollback'' then OpEdit else OpManage) True of
                Inl e \<Rightarrow> reply (vibe_tool_error ''access_denied'' (vibe_access_error_message e))
              | Inr _ \<Rightarrow> step_then (manage_action env input guild action site) (managed env name))))"

definition vibe_manage :: "'x vibe_tool_env_scheme option \<Rightarrow> client_tool_call \<Rightarrow> tool_reply tool_step" where
  "vibe_manage runtime call =
     (case runtime of
        None \<Rightarrow> step_return (Inl (UnknownTool (ctc_name call)))
      | Some env \<Rightarrow>
          (case Option.bind (json_get (ctc_input call) ''action'') json_as_str of
             None \<Rightarrow> reply (vibe_tool_error ''invalid_input'' ''action is required'')
           | Some action \<Rightarrow>
          (case Option.bind (json_get (ctc_input call) ''siteName'') json_as_str of
             None \<Rightarrow> reply (vibe_tool_error ''invalid_input'' ''siteName is required'')
           | Some name \<Rightarrow>
          (case va_guild_id (te_actor env) of
             None \<Rightarrow> reply (vibe_tool_error ''dm_not_allowed'' ''Vibe management requires a server'')
           | Some guild \<Rightarrow>
               step_then (stored env (reading (find_site_by_name name))) (\<lambda>answer.
                 case answer of
                   Inl _ \<Rightarrow> reply (vibe_tool_error ''storage_unavailable'' ''Vibe storage is temporarily unavailable'')
                 | Inr None \<Rightarrow> reply (vibe_tool_error ''site_not_found'' ''that site does not exist'')
                 | Inr (Some site) \<Rightarrow> manage_site env (ctc_input call) guild action name site)))))"

end
