(* ===== verification/Bot_Vibe_Job.thy ===== *)
theory Bot_Vibe_Job
  imports Bot_Vibe
begin

text \<open>
  The coding job behind the Vibe tool: \<open>VibeSubagent\<close> of \<open>chudbot-bot/src/tools/vibe.rs\<close>, from the checks of a call
  through the claim, the rounds of coding and building, and the commit, to the cleanup of a future that is dropped.
  The coding agent, the disk, git and the sandbox are modelled elsewhere; here they answer each await.
\<close>

section \<open>Environment\<close>

record vibe_tool_input =
  vi_action :: string
  vi_site_name :: string
  vi_task :: string

record vibe_job_env = vibe_tool_env +
  je_site_id :: string
  je_job_id :: string
  je_revision_id :: "nat \<Rightarrow> string"
  je_max_repairs :: nat
  je_create_workspace :: "nat \<Rightarrow> string + unit"
  je_start_coding :: "nat \<Rightarrow> string + unit"
  je_agent_run :: "nat \<Rightarrow> transcript \<Rightarrow> string + agent_run"
  je_install_bindings :: "nat \<Rightarrow> string + unit"
  je_export :: "nat \<Rightarrow> string + unit"
  je_source_tree :: "nat \<Rightarrow> string + string"
  je_commit_tree :: "nat \<Rightarrow> string \<Rightarrow> string + string"
  je_clean_build :: "nat \<Rightarrow> string \<Rightarrow> string + string \<times> string"
  je_commit :: "nat \<Rightarrow> string option \<Rightarrow> string \<Rightarrow> string + string"
  je_workspace_left :: "nat \<Rightarrow> bool"
  je_now :: json
  je_serialized :: "agent_run \<Rightarrow> json \<times> json \<times> json"
  je_input_error :: "json \<Rightarrow> string"
  je_timed_out :: bool
  je_cleanup_fault :: "string option"

section \<open>Fallible steps\<close>

definition try_stored ::
  "'x vibe_tool_env_scheme \<Rightarrow> (vibe_tables \<Rightarrow> 'a store_step) \<Rightarrow> ('a \<Rightarrow> (string + 'b) tool_step) \<Rightarrow> (string + 'b) tool_step" where
  "try_stored env operation k =
     step_then (stored env operation) (\<lambda>answer.
       case answer of Inl e \<Rightarrow> step_return (Inl (store_error_message e)) | Inr a \<Rightarrow> k a)"

definition set_job_state :: "string \<Rightarrow> vibe_job_state \<Rightarrow> string option \<Rightarrow> vibe_tables \<Rightarrow> unit store_step" where
  "set_job_state job state error = changing (update_job_state job state error)"

text \<open>A status message; whether it could be posted does not matter.\<close>

definition post_status :: "'x vibe_tool_env_scheme \<Rightarrow> unit tool_step" where
  "post_status env = await env (\<lambda>_. ())"

section \<open>Coding rounds\<close>

text \<open>How the rounds end: the source is what is live already, or a build succeeded.\<close>

datatype round_end =
    Unchanged string "agent_run list"
  | Built string "string \<times> string" string "agent_run list"

definition run_answer :: "agent_run \<Rightarrow> string + string" where
  "run_answer run =
     (case ar_outcome run of
        Completed answer \<Rightarrow> Inr (aa_text answer)
      | Cancelled reason \<Rightarrow> Inl (''coding agent cancelled: '' @ reason)
      | Failed error _ \<Rightarrow> Inl (''coding agent failed: '' @ agent_error_text error)
      | IterationLimit n \<Rightarrow> Inl (''coding agent reached '' @ dec_digits (unat n) @ '' iterations''))"

definition source_unchanged :: "'x vibe_job_env_scheme \<Rightarrow> vibe_revision option \<Rightarrow> (string + bool) tool_step" where
  "source_unchanged env parent =
     (case parent of
        None \<Rightarrow> step_return (Inr False)
      | Some r \<Rightarrow>
          try_step (await env (je_source_tree env)) (\<lambda>source_tree.
          try_step (await env (\<lambda>n. je_commit_tree env n (rv_commit_oid r))) (\<lambda>old_tree.
            step_return (Inr (source_tree = old_tree)))))"

definition repair_message :: "string \<Rightarrow> string" where
  "repair_message log =
     ''The clean build failed. Fix the source and run the project build before summarizing again. Bounded build log:'' @
     [byte 10, byte 10] @ log"

datatype build_end =
    BuildDone string "string \<times> string"
  | BuildRepair string

definition build_round :: "'x vibe_job_env_scheme \<Rightarrow> string \<Rightarrow> nat \<Rightarrow> (string + build_end) tool_step" where
  "build_round env job left =
     step_then (post_status env) (\<lambda>_.
     try_stored env (set_job_state job JobBuilding None) (\<lambda>_.
     step_then (await env (\<lambda>n. (je_revision_id env n, je_clean_build env n (je_revision_id env n)))) (\<lambda>built.
       case built of
         (revision, Inr out) \<Rightarrow> step_return (Inr (BuildDone revision out))
       | (_, Inl error) \<Rightarrow>
           (if left = 0 then step_return (Inl (''clean build failed after repair budget: '' @ error))
            else
              step_then (post_status env) (\<lambda>_.
              try_stored env (set_job_state job JobRepair (Some (take_chars 16000 error))) (\<lambda>_.
              step_then (await env (\<lambda>_. ())) (\<lambda>_. step_return (Inr (BuildRepair (take_chars 16000 error))))))))))"

text \<open>One round up to the build: the agent codes, and the source is exported and compared with what is live.\<close>

definition code_round ::
  "'x vibe_job_env_scheme \<Rightarrow> vibe_revision option \<Rightarrow> transcript \<Rightarrow> (string + agent_run \<times> string \<times> bool) tool_step" where
  "code_round env parent transcript =
     try_step (await env (\<lambda>n. map_sum (\<lambda>e. ''coding model failed: '' @ e) (\<lambda>r. r) (je_agent_run env n transcript))) (\<lambda>run.
     try_step (step_return (run_answer run)) (\<lambda>summary.
     try_step (await env (je_install_bindings env)) (\<lambda>_.
     try_step (await env (je_export env)) (\<lambda>_.
     try_step (source_unchanged env parent) (\<lambda>same. step_return (Inr (run, summary, same)))))))"

text \<open>The repairs that are left bound the loop (\<open>repairs < max_repair_attempts\<close>).\<close>

fun coding_rounds ::
  "'x vibe_job_env_scheme \<Rightarrow> string \<Rightarrow> vibe_revision option \<Rightarrow> nat \<Rightarrow> transcript \<Rightarrow> agent_run list
     \<Rightarrow> (string + round_end) tool_step" where
  "coding_rounds env job parent left transcript runs =
     try_step (code_round env parent transcript) (\<lambda>(run, summary, same).
       if same then
         step_then (stored env (set_job_state job JobNoChanges None)) (\<lambda>_.
           step_return (Inr (Unchanged summary (runs @ [run]))))
       else
         try_step (build_round env job left) (\<lambda>ending.
           case ending of
             BuildDone revision out \<Rightarrow> step_return (Inr (Built revision out summary (runs @ [run])))
           | BuildRepair log \<Rightarrow>
               (case left of
                  0 \<Rightarrow> step_return (Inl log)
                | Suc left \<Rightarrow>
                    coding_rounds env job parent left
                      (transcript_push (ar_transcript run) (turn_text User (repair_message log))) (runs @ [run]))))"

declare coding_rounds.simps [simp del]

section \<open>A claimed job\<close>

definition job_revision ::
  "'x vibe_job_env_scheme \<Rightarrow> vibe_job \<Rightarrow> string \<Rightarrow> vibe_revision option \<Rightarrow> string \<Rightarrow> string \<times> string \<Rightarrow> string \<Rightarrow> string
     \<Rightarrow> vibe_revision" where
  "job_revision env job site parent revision built message oid =
     \<lparr>rv_id = revision, rv_site_id = site, rv_ordinal = (case parent of None \<Rightarrow> 1 | Some r \<Rightarrow> rv_ordinal r + 1),
      rv_parent_revision_id = map_option rv_id parent, rv_commit_oid = oid, rv_image_id = fst built,
      rv_message = message, rv_build_log = snd built, rv_actor_user_id = va_user_id (te_actor env),
      rv_conversation_id = va_conversation_id (te_actor env), rv_turn_id = va_turn_id (te_actor env),
      rv_job_id = vj_id job, rv_created_at = je_now env\<rparr>"

definition commit_job ::
  "'x vibe_job_env_scheme \<Rightarrow> vibe_job \<Rightarrow> string \<Rightarrow> string \<Rightarrow> vibe_revision option \<Rightarrow> string \<Rightarrow> string \<times> string \<Rightarrow> string
     \<Rightarrow> agent_run list \<Rightarrow> (string + client_tool_output) tool_step" where
  "commit_job env job site task parent revision built summary runs =
     try_stored env (set_job_state (vj_id job) JobCommitting None) (\<lambda>_.
     (let message = commit_message (vj_action job) (vj_site_name job) task summary in
      try_step (await env (\<lambda>n. je_commit env n (map_option rv_commit_oid parent) message)) (\<lambda>oid.
      try_stored env (complete_revision (job_revision env job site parent revision built message oid) (vj_id job)) (\<lambda>_.
      step_then (await env (\<lambda>_. ())) (\<lambda>_.
      step_then (await env (\<lambda>_. ())) (\<lambda>_.
        step_return (Inr (vibe_success (je_serialized env) (vj_site_name job) ''done'' summary (te_base_domain env) runs))))))))"

definition execute_claimed_job :: "'x vibe_job_env_scheme \<Rightarrow> vibe_job \<Rightarrow> string \<Rightarrow> (string + client_tool_output) tool_step" where
  "execute_claimed_job env job task =
     (case vj_site_id job of
        None \<Rightarrow> step_return (Inl ''job has no site'')
      | Some site \<Rightarrow>
          try_stored env (reading (active_revision site)) (\<lambda>parent.
          try_step (await env (je_create_workspace env)) (\<lambda>_.
          step_then (post_status env) (\<lambda>_.
          try_stored env (set_job_state (vj_id job) JobCoding None) (\<lambda>_.
          try_step (await env (je_start_coding env)) (\<lambda>_.
          try_step (coding_rounds env (vj_id job) parent (je_max_repairs env) (from_user_text task) []) (\<lambda>ending.
            case ending of
              Unchanged summary runs \<Rightarrow>
                step_return (Inr (vibe_success (je_serialized env) (vj_site_name job) ''no_changes'' summary (te_base_domain env) runs))
            | Built revision built summary runs \<Rightarrow>
                commit_job env job site task parent revision built summary runs)))))))"

text \<open>\<open>JobCleanup\<close>: while it is armed, dropping the future ends the job from a task of its own.\<close>

definition drop_job :: "'x vibe_job_env_scheme \<Rightarrow> string \<Rightarrow> tool_world \<Rightarrow> tool_world" where
  "drop_job env job w =
     (case je_cleanup_fault env of
        Some _ \<Rightarrow> w
      | None \<Rightarrow>
          w\<lparr>tw_db := (if je_timed_out env then update_job_state job JobTimedOut (Some ''job timed out'') (tw_db w)
                    else update_job_state job JobCancelled (Some ''turn cancelled'') (tw_db w))\<rparr>)"

definition armed :: "'x vibe_job_env_scheme \<Rightarrow> string \<Rightarrow> 'a tool_step \<Rightarrow> 'a tool_step" where
  "armed env job m w = (case m w of (None, w') \<Rightarrow> (None, drop_job env job w') | (Some a, w') \<Rightarrow> (Some a, w'))"

definition cleanup_job_files :: "'x vibe_job_env_scheme \<Rightarrow> unit tool_step" where
  "cleanup_job_files env =
     step_then (await env (\<lambda>_. ())) (\<lambda>_.
     step_then (await env (je_workspace_left env)) (\<lambda>left.
       if left then await env (\<lambda>_. ()) else step_return ()))"

definition run_claimed_job :: "'x vibe_job_env_scheme \<Rightarrow> vibe_job \<Rightarrow> string \<Rightarrow> client_tool_output tool_step" where
  "run_claimed_job env job task =
     step_then (armed env (vj_id job)
        (step_then (execute_claimed_job env job task) (\<lambda>result.
         step_then (cleanup_job_files env) (\<lambda>_. step_return result)))) (\<lambda>result.
       case result of
         Inr out \<Rightarrow> step_return out
       | Inl error \<Rightarrow>
           step_then (stored env (set_job_state (vj_id job) JobFailed (Some error))) (\<lambda>_.
             step_return (vibe_tool_error ''job_failed'' ''the Vibe job failed without changing the live site'')))"

section \<open>Claiming a job\<close>

definition existing_job_output :: "'x vibe_job_env_scheme \<Rightarrow> vibe_job \<Rightarrow> client_tool_output" where
  "existing_job_output env job =
     (case vj_state job of
        JobDone \<Rightarrow> vibe_success (je_serialized env) (vj_site_name job) (job_state (vj_state job))
          ''This retried tool call returned the existing job.'' (te_base_domain env) []
      | JobNoChanges \<Rightarrow> vibe_success (je_serialized env) (vj_site_name job) (job_state (vj_state job))
          ''This retried tool call returned the existing job.'' (te_base_domain env) []
      | JobFailed \<Rightarrow> vibe_tool_error (job_state (vj_state job)) ''the existing job did not complete''
      | JobCancelled \<Rightarrow> vibe_tool_error (job_state (vj_state job)) ''the existing job did not complete''
      | JobTimedOut \<Rightarrow> vibe_tool_error (job_state (vj_state job)) ''the existing job did not complete''
      | _ \<Rightarrow> vibe_tool_error ''job_running'' ''this tool call already has a running Vibe job'')"

text \<open>The site a job is for, or the answer that refuses the call.\<close>

definition job_site ::
  "'x vibe_job_env_scheme \<Rightarrow> vibe_action \<Rightarrow> vibe_site option \<Rightarrow> (client_tool_output + string) tool_step" where
  "job_site env action existing =
     (case (action, existing) of
        (ActionCreate, Some _) \<Rightarrow> step_return (Inl (vibe_tool_error ''name_unavailable'' ''that site name is already taken''))
      | (ActionCreate, None) \<Rightarrow> step_return (Inr (je_site_id env))
      | (ActionEdit, None) \<Rightarrow> step_return (Inl (vibe_tool_error ''site_not_found'' ''that site does not exist''))
      | (ActionEdit, Some site) \<Rightarrow>
          step_then (role_of_actor env site) (\<lambda>role.
            case check_site (te_access env) (te_actor env) site role OpEdit True of
              Inl e \<Rightarrow> step_return (Inl (vibe_edit_access_denied (vibe_access_error_message e)))
            | Inr _ \<Rightarrow> step_return (Inr (vs_id site))))"

definition found_job :: "store_error + vibe_job option \<Rightarrow> vibe_job option" where
  "found_job answer = (case answer of Inl _ \<Rightarrow> None | Inr job \<Rightarrow> job)"

definition claim_failed :: "'x vibe_job_env_scheme \<Rightarrow> vibe_action \<Rightarrow> string \<Rightarrow> string \<Rightarrow> string \<Rightarrow> client_tool_output tool_step" where
  "claim_failed env action name tool_use error =
     (if str_contains error ''guild job limit''
      then step_return (vibe_tool_error ''guild_busy'' ''this server already has the maximum number of Vibe jobs running'')
      else if action = ActionEdit \<and> str_contains error ''site edit not authorized''
      then step_return (vibe_edit_access_denied ''you do not have permission to perform this action'')
      else step_then (stored env (reading (find_job_by_tool_use tool_use))) (\<lambda>answer.
        case found_job answer of
          Some job \<Rightarrow> step_return (existing_job_output env job)
        | None \<Rightarrow>
            step_then (if action = ActionCreate then stored env (reading (find_site_by_name name)) else step_return (Inr None)) (\<lambda>taken.
              if action = ActionCreate \<and> (case taken of Inr (Some _) \<Rightarrow> True | _ \<Rightarrow> False)
              then step_return (vibe_tool_error ''name_unavailable'' ''that site name was claimed by another request'')
              else if action = ActionEdit \<and> str_contains error ''site is missing or busy''
              then step_return (vibe_tool_error ''site_busy'' ''that site is missing or already has a coding job in progress'')
              else step_return (vibe_tool_error ''job_start_failed'' ''the Vibe job could not be started''))))"

definition claim_input :: "'x vibe_job_env_scheme \<Rightarrow> vibe_action \<Rightarrow> string \<Rightarrow> string \<Rightarrow> string \<Rightarrow> string \<Rightarrow> create_vibe_job" where
  "claim_input env action name task tool_use site =
     \<lparr>cj_id = je_job_id env, cj_site_id = site, cj_site_name = name, cj_description = site_description task, cj_action = action,
      cj_actor = te_actor env, cj_tool_use_id = tool_use, cj_max_running_jobs_per_guild = te_max_running_jobs env\<rparr>"

definition start_job ::
  "'x vibe_job_env_scheme \<Rightarrow> vibe_action \<Rightarrow> string \<Rightarrow> string \<Rightarrow> string \<Rightarrow> string \<Rightarrow> client_tool_output tool_step" where
  "start_job env action name task tool_use guild =
     step_then (stored env (reading (count_running_jobs (va_platform (te_actor env)) guild))) (\<lambda>running.
       case running of
         Inl _ \<Rightarrow> step_return (vibe_tool_error ''storage_unavailable'' ''Vibe storage is temporarily unavailable'')
       | Inr running \<Rightarrow>
           (if unat (te_max_running_jobs env) \<le> running
            then step_return (vibe_tool_error ''guild_busy'' ''this server already has the maximum number of Vibe jobs running'')
            else step_then (stored env (reading (find_site_by_name name))) (\<lambda>existing.
              case existing of
                Inl e \<Rightarrow> step_return (vibe_tool_error ''storage_unavailable'' (store_error_message e))
              | Inr existing \<Rightarrow>
                  step_then (job_site env action existing) (\<lambda>target.
                    case target of
                      Inl refusal \<Rightarrow> step_return refusal
                    | Inr site \<Rightarrow>
                        step_then (stored env (create_job (claim_input env action name task tool_use site))) (\<lambda>claimed.
                          case claimed of
                            Inl e \<Rightarrow> claim_failed env action name tool_use (store_error_message e)
                          | Inr job \<Rightarrow> run_claimed_job env job task)))))"

definition run_job :: "'x vibe_job_env_scheme \<Rightarrow> vibe_action \<Rightarrow> string \<Rightarrow> string \<Rightarrow> string \<Rightarrow> client_tool_output tool_step" where
  "run_job env action name task tool_use =
     (let actor = te_actor env in
      case check_rollout (te_access env) actor (if action = ActionCreate then OpCreate else OpEdit) of
        Inl e \<Rightarrow> step_return (vibe_tool_error ''access_denied'' (vibe_access_error_message e))
      | Inr _ \<Rightarrow>
          (case va_guild_id actor of
             None \<Rightarrow> step_return (vibe_tool_error ''dm_not_allowed'' ''Vibe sites can only be created in a server'')
           | Some guild \<Rightarrow>
               (case validate_name (vibe_names_new (te_reserved_names env)) name of
                  Inl e \<Rightarrow> step_return (vibe_tool_error ''invalid_name'' (name_error_message e))
                | Inr _ \<Rightarrow>
                    step_then (membership env (va_platform actor) guild (va_user_id actor)) (\<lambda>answer.
                      case answer of
                        Inl _ \<Rightarrow> step_return (vibe_tool_error ''discord_unavailable'' ''Discord membership could not be checked'')
                      | Inr False \<Rightarrow> step_return (vibe_tool_error ''not_a_member'' ''you must be a current member of this server'')
                      | Inr True \<Rightarrow>
                          step_then (stored env (reading (find_job_by_tool_use tool_use))) (\<lambda>found.
                            case found_job found of
                              Some job \<Rightarrow> step_return (existing_job_output env job)
                            | None \<Rightarrow> start_job env action name task tool_use guild)))))"

section \<open>A call of the tool\<close>

text \<open>\<open>serde\<close> reads a struct from an object, or from an array in the order of the fields.\<close>

fun vibe_tool_input_of :: "json \<Rightarrow> vibe_tool_input option" where
  "vibe_tool_input_of (JObject m) =
     (case (btm_get m ''action'', btm_get m ''siteName'', btm_get m ''task'') of
        (Some (JString action), Some (JString name), Some (JString task)) \<Rightarrow>
          Some \<lparr>vi_action = action, vi_site_name = name, vi_task = task\<rparr>
      | _ \<Rightarrow> None)"
| "vibe_tool_input_of (JArray [JString action, JString name, JString task]) =
     Some \<lparr>vi_action = action, vi_site_name = name, vi_task = task\<rparr>"
| "vibe_tool_input_of _ = None"

definition timed :: "'x vibe_job_env_scheme \<Rightarrow> client_tool_output tool_step \<Rightarrow> client_tool_output tool_step" where
  "timed env m w =
     (case m w of
        (None, w') \<Rightarrow>
          (if je_timed_out env then Some (vibe_tool_error ''timed_out'' ''the Vibe coding job exceeded its time limit'') else None, w')
      | (Some out, w') \<Rightarrow> (Some out, w'))"

definition vibe_call :: "'x vibe_job_env_scheme \<Rightarrow> client_tool_call \<Rightarrow> client_tool_output tool_step" where
  "vibe_call env call =
     (case vibe_tool_input_of (ctc_input call) of
        None \<Rightarrow> step_return (vibe_tool_error ''invalid_input'' (je_input_error env (ctc_input call)))
      | Some input \<Rightarrow>
          (case parse_action (vi_action input) of
             None \<Rightarrow> step_return (vibe_tool_error ''invalid_action'' ''action must be create or edit'')
           | Some action \<Rightarrow> timed env (run_job env action (vi_site_name input) (vi_task input) (ctc_id call))))"

end
