(* ===== verification/Bot_Vibe_Props.thy ===== *)
theory Bot_Vibe_Props
  imports Bot_Vibe Store_Vibe_Props
begin

text \<open>
  What the Vibe tools may change. The steps of a tool are reasoned about by weakest preconditions; the changes they make
  are steps of the coding jobs of \<open>Store_Vibe_Props\<close>.
\<close>

section \<open>Weakest preconditions\<close>

text \<open>Whatever an await answers, the tables stay as they are.\<close>

lemma wp_await:
  assumes "Q None w" and "\<And>n. Q (Some (answer n)) (w\<lparr>tw_awaits := Suc (tw_awaits w)\<rparr>)"
  shows "wp (await env answer) Q w"
  using assms by (simp add: wp_def await_def)

lemma wp_stored:
  assumes "Q None w" and "\<And>e. Q (Some (Inl (StoreSqlx e))) (w\<lparr>tw_awaits := Suc (tw_awaits w)\<rparr>)"
    and "\<And>r db. operation (tw_db w) = (r, db) \<Longrightarrow> Q (Some r) (w\<lparr>tw_awaits := Suc (tw_awaits w), tw_db := db\<rparr>)"
  shows "wp (stored env operation) Q w"
  using assms by (cases "operation (tw_db w)") (auto simp: wp_def stored_def Let_def split: option.split)

lemma wp_reading:
  assumes "Q None w" and "\<And>e. Q (Some (Inl (StoreSqlx e))) (w\<lparr>tw_awaits := Suc (tw_awaits w)\<rparr>)"
    and "Q (Some (Inr (f (tw_db w)))) (w\<lparr>tw_awaits := Suc (tw_awaits w)\<rparr>)"
  shows "wp (stored env (reading f)) Q w"
  using assms by (intro wp_stored) (auto simp: reading_def)

section \<open>Tools that only read\<close>

lemma wp_seen_by_member:
  assumes "\<And>r. Q r w" and "\<And>n. wp k Q (w\<lparr>tw_awaits := n\<rparr>)" and "\<And>r n. Q r (w\<lparr>tw_awaits := n\<rparr>)"
  shows "wp (seen_by_member env k) Q w"
  using assms
  by (auto simp: seen_by_member_def Let_def reply_def membership_def split: option.split sum.split bool.split intro!: wp_await)

lemma candidates_read_only:
  "tw_db w = db \<Longrightarrow> wp (check_candidates env results candidates) (\<lambda>_ w'. tw_db w' = db) w"
proof (induction env results candidates arbitrary: w rule: check_candidates.induct)
  case (2 env results name candidates)
  then show ?case by (auto simp: reply_def split: sum.split option.split intro!: wp_reading)
qed (simp_all add: reply_def)

lemma check_names_read_only: "wp (vibe_check_names runtime call) (\<lambda>_ w'. tw_db w' = tw_db w) w"
  by (auto simp: vibe_check_names_def reply_def split: option.split intro!: wp_seen_by_member candidates_read_only)

lemma list_sites_read_only: "wp (vibe_list_sites runtime call) (\<lambda>_ w'. tw_db w' = tw_db w) w"
  by (auto simp: vibe_list_sites_def reply_def split: option.split sum.split intro!: wp_seen_by_member wp_reading)

section \<open>Management\<close>

text \<open>A change is a step of the deployment, and the tool reports it.\<close>

definition one_step :: "u16 \<Rightarrow> vibe_system \<Rightarrow> vibe_tables \<Rightarrow> bool" where
  "one_step limit s db \<longleftrightarrow> (\<exists>s'. vibe_step limit s s' \<and> sy_db s' = db)"

definition changes_once :: "u16 \<Rightarrow> vibe_system \<Rightarrow> (tool_reply + json) option \<Rightarrow> tool_world \<Rightarrow> bool" where
  "changes_once limit s r w \<longleftrightarrow>
     tw_db w = sy_db s \<or> one_step limit s (tw_db w) \<and> (\<forall>t. r = Some t \<longrightarrow> (\<exists>value. t = Inr value))"

lemma changes_once_same: "tw_db w = sy_db s \<Longrightarrow> changes_once limit s r w"
  by (simp add: changes_once_def)

lemma wp_or_execution:
  assumes db: "tw_db w = sy_db s"
    and op: "\<And>e db. operation (sy_db s) = (Inl e, db) \<Longrightarrow> db = sy_db s"
    and k: "\<And>a db n. operation (sy_db s) = (Inr a, db) \<Longrightarrow> wp (k a) (changes_once limit s) (w\<lparr>tw_awaits := n, tw_db := db\<rparr>)"
  shows "wp (or_execution (stored env operation) k) (changes_once limit s) w"
  unfolding or_execution_def wp_then
proof (rule wp_stored, goal_cases)
  case (3 r db)
  then show ?case using op k db by (cases r) (auto intro!: changes_once_same)
qed (auto intro!: changes_once_same simp: db)

lemma manage_rollback_once:
  assumes "tw_db w = sy_db s"
  shows "wp (manage_rollback env input site) (changes_once limit s) w"
proof -
  have rolled: "one_step limit s db" if "activate_existing_revision (vs_id site) revision (sy_db s) = (Inr (), db)" for revision db
    using step_rollback [OF that] unfolding one_step_def by (intro exI [of _ "s\<lparr>sy_db := db\<rparr>"]) simp
  have same: "db = sy_db s" if "activate_existing_revision (vs_id site) revision (sy_db s) = (Inl e, db)" for revision e db
    using that by (auto simp: activate_existing_revision_def split: if_splits)
  show ?thesis
    unfolding manage_rollback_def
    by (intro wp_or_execution)
      (auto simp: assms reading_def refuse_def rolled same intro: changes_once_same
        split: option.split intro!: wp_or_execution wp_await simp: changes_once_def)
qed

lemma one_stepI: "vibe_step limit s (s\<lparr>sy_db := db\<rparr>) \<Longrightarrow> one_step limit s db"
  unfolding one_step_def by (intro exI [of _ "s\<lparr>sy_db := db\<rparr>"]) simp

lemma manage_add_editor_once:
  assumes "tw_db w = sy_db s"
  shows "wp (manage_add_editor env input guild site) (changes_once limit s) w"
proof -
  have added: "one_step limit s db" if "add_editor (vs_id site) platform user (sy_db s) = (r, db)" for platform user r db
    by (rule one_stepI [OF step_add_editor [OF that]])
  have same: "db = sy_db s" if "add_editor (vs_id site) platform user (sy_db s) = (Inl e, db)" for platform user e db
    using that by (auto simp: add_editor_def split: if_splits)
  show ?thesis
    unfolding manage_add_editor_def membership_def
    by (auto simp: assms refuse_def added same changes_once_def split: option.split sum.split bool.split
        intro!: wp_await wp_or_execution)
qed

lemma manage_remove_editor_once:
  assumes "tw_db w = sy_db s"
  shows "wp (manage_remove_editor env input site) (changes_once limit s) w"
proof -
  have removed: "one_step limit s db" if "remove_editor (vs_id site) platform user (sy_db s) = (r, db)" for platform user r db
    by (rule one_stepI [OF step_remove_editor [OF that]])
  have same: "db = sy_db s" if "remove_editor (vs_id site) platform user (sy_db s) = (Inl e, db)" for platform user e db
    using that by (auto simp: remove_editor_def)
  show ?thesis
    unfolding manage_remove_editor_def
    by (auto simp: assms refuse_def removed same changes_once_def split: option.split intro!: wp_or_execution)
qed

lemma manage_add_guild_once:
  assumes "tw_db w = sy_db s"
  shows "wp (manage_add_guild env input site) (changes_once limit s) w"
proof -
  have added: "one_step limit s db" if "add_site_guild (vs_id site) platform guild (sy_db s) = (r, db)" for platform guild r db
    by (rule one_stepI [OF step_add_guild [OF that]])
  have same: "db = sy_db s" if "add_site_guild (vs_id site) platform guild (sy_db s) = (Inl e, db)" for platform guild e db
    using that by (auto simp: add_site_guild_def Let_def split: if_splits)
  show ?thesis
    unfolding manage_add_guild_def
    by (auto simp: assms refuse_def added same changes_once_def split: option.split sum.split intro!: wp_or_execution)
qed

lemma manage_set_access_once:
  assumes "tw_db w = sy_db s"
  shows "wp (manage_set_access env input site) (changes_once limit s) w"
  unfolding manage_set_access_def
  by (auto simp: assms refuse_def changing_def changes_once_def one_stepI [OF step_access] split: option.split
      intro!: wp_or_execution)

lemma manage_status_once:
  assumes "tw_db w = sy_db s" and "find_site (vs_id site) (sy_db s) = Some site" "vs_status site \<noteq> SiteCreating"
    and "status = SiteActive \<or> status = SiteArchived"
  shows "wp (manage_status env action status site) (changes_once limit s) w"
  unfolding manage_status_def
  by (auto simp: assms(1) changing_def changes_once_def one_stepI [OF step_archive [OF assms(2,3,4)]] intro!: wp_or_execution)

lemma manage_action_once:
  assumes "tw_db w = sy_db s" and "find_site (vs_id site) (sy_db s) = Some site" "vs_status site \<noteq> SiteCreating"
  shows "wp (manage_action env input guild action site) (changes_once limit s) w"
proof -
  have refused: "wp (refuse code message) (changes_once limit s) w" for code message
    by (simp add: refuse_def changes_once_same assms(1))
  show ?thesis
    unfolding manage_action_def
    by (simp add: refused manage_rollback_once [OF assms(1)] manage_add_editor_once [OF assms(1)]
        manage_remove_editor_once [OF assms(1)] manage_add_guild_once [OF assms(1)] manage_set_access_once [OF assms(1)]
        manage_status_once [OF assms])
qed

text \<open>Who may do what: the role the tool finds, and the rank the operation asks for.\<close>

definition may_manage :: "'x vibe_tool_env_scheme \<Rightarrow> string \<Rightarrow> vibe_site \<Rightarrow> vibe_tables \<Rightarrow> bool" where
  "may_manage env action site db \<longleftrightarrow>
     va_is_admin (te_actor env) \<or> vs_owner_user_id site = va_user_id (te_actor env)
     \<or> action = ''rollback'' \<and> is_editor (vs_id site) (va_platform (te_actor env)) (va_user_id (te_actor env)) db"

definition role_held :: "'x vibe_tool_env_scheme \<Rightarrow> vibe_site \<Rightarrow> vibe_tables \<Rightarrow> vibe_role \<Rightarrow> bool" where
  "role_held env site db role \<longleftrightarrow>
     (case role of
        RoleAdmin \<Rightarrow> va_is_admin (te_actor env)
      | RoleOwner \<Rightarrow> vs_owner_user_id site = va_user_id (te_actor env)
      | RoleEditor \<Rightarrow> is_editor (vs_id site) (va_platform (te_actor env)) (va_user_id (te_actor env)) db
      | RoleMember \<Rightarrow> True)"

lemma wp_role_of_actor:
  assumes "Q None w" and "\<And>role n. role_held env site (tw_db w) role \<Longrightarrow> Q (Some role) (w\<lparr>tw_awaits := n\<rparr>)"
    and "\<And>role. role_held env site (tw_db w) role \<Longrightarrow> Q (Some role) w"
  shows "wp (role_of_actor env site) Q w"
  unfolding role_of_actor_def Let_def
  by (auto simp: assms(1) editor_of_def role_held_def split: sum.split intro!: wp_reading assms(2,3))

lemma granted_role:
  assumes "check_site access (te_actor env) site role (if action = ''rollback'' then OpEdit else OpManage) True = Inr ()"
    and "role_held env site db role"
  shows "may_manage env action site db \<and> va_platform (te_actor env) = vs_platform site
    \<and> va_guild_id (te_actor env) = Some (vs_guild_id site)"
  using assms by (cases role) (auto simp: check_site_granted required_rank_def role_rank_def role_held_def may_manage_def split: if_splits)

definition managed_rightly ::
  "u16 \<Rightarrow> vibe_system \<Rightarrow> 'x vibe_tool_env_scheme \<Rightarrow> string \<Rightarrow> string \<Rightarrow> tool_reply option \<Rightarrow> tool_world \<Rightarrow> bool" where
  "managed_rightly limit s env action name result w \<longleftrightarrow>
     tw_db w = sy_db s
     \<or> (\<exists>site n. find_site_by_name name (sy_db s) = Some site \<and> vs_running_job_id site = None
          \<and> va_platform (te_actor env) = vs_platform site \<and> va_guild_id (te_actor env) = Some (vs_guild_id site)
          \<and> te_membership env n (vs_platform site) (vs_guild_id site) (va_user_id (te_actor env)) = Inr True
          \<and> may_manage env action site (sy_db s))
       \<and> one_step limit s (tw_db w) \<and> (\<forall>r. result = Some r \<longrightarrow> (\<exists>out. r = Inr out \<and> \<not> cto_is_error out))"

lemma managed_same: "tw_db w = sy_db s \<Longrightarrow> managed_rightly limit s env action name result w"
  by (simp add: managed_rightly_def)

lemma wp_managed:
  assumes "changes_once limit s (Some outcome) w"
    and "one_step limit s (tw_db w) \<Longrightarrow> \<exists>site n. find_site_by_name name (sy_db s) = Some site \<and> vs_running_job_id site = None
          \<and> va_platform (te_actor env) = vs_platform site \<and> va_guild_id (te_actor env) = Some (vs_guild_id site)
          \<and> te_membership env n (vs_platform site) (vs_guild_id site) (va_user_id (te_actor env)) = Inr True
          \<and> may_manage env action site (sy_db s)"
  shows "wp (managed env name outcome) (managed_rightly limit s env action name) w"
  using assms
  by (cases outcome) (auto simp: managed_def changes_once_def managed_rightly_def reply_def json_output_def)

lemma manage_site_rightly:
  assumes db: "tw_db w = sy_db s" and name: "find_site_by_name name (sy_db s) = Some site"
    and found: "find_site (vs_id site) (sy_db s) = Some site" and built: "vs_running_job_id site = None \<Longrightarrow> vs_status site \<noteq> SiteCreating"
    and guild: "va_guild_id (te_actor env) = Some guild"
  shows "wp (manage_site env input guild action name site) (managed_rightly limit s env action name) w"
proof (cases "vs_running_job_id site")
  case None
  let ?actor = "te_actor env"
  define operation where "operation = (if action = ''rollback'' then OpEdit else OpManage)"
  have acted: "wp (manage_action env input guild action site)
      (\<lambda>r w'. case r of None \<Rightarrow> managed_rightly limit s env action name None w'
         | Some outcome \<Rightarrow> wp (managed env name outcome) (managed_rightly limit s env action name) w') w'"
    if w': "tw_db w' = sy_db s" and member: "te_membership env n (va_platform ?actor) guild (va_user_id ?actor) = Inr True"
      and granted: "check_site (te_access env) ?actor site role operation True = Inr ()"
      and held: "role_held env site (sy_db s) role" for w' n role
  proof -
    note role = granted_role [OF granted [unfolded operation_def] held]
    have right: "\<exists>site n. find_site_by_name name (sy_db s) = Some site \<and> vs_running_job_id site = None
          \<and> va_platform ?actor = vs_platform site \<and> va_guild_id ?actor = Some (vs_guild_id site)
          \<and> te_membership env n (vs_platform site) (vs_guild_id site) (va_user_id ?actor) = Inr True
          \<and> may_manage env action site (sy_db s)"
      using role member guild name None by (intro exI [of _ site] exI [of _ n]) auto
    have ends: "case r of None \<Rightarrow> managed_rightly limit s env action name None v
        | Some outcome \<Rightarrow> wp (managed env name outcome) (managed_rightly limit s env action name) v"
      if once: "changes_once limit s r v" for r v
    proof (cases r)
      case None
      then show ?thesis using once right by (auto simp: managed_rightly_def changes_once_def)
    next
      case (Some outcome)
      then show ?thesis using wp_managed [OF _ right] once by simp
    qed
    show ?thesis
      by (rule wp_mono [OF manage_action_once [OF w' found built [OF None], of env input guild action limit]]) (rule ends)
  qed
  show ?thesis
    unfolding manage_site_def Let_def membership_def reply_def operation_def [symmetric]
    using None db by (auto split: sum.split bool.split intro!: wp_await wp_role_of_actor managed_same acted)
next
  case (Some j)
  then show ?thesis by (simp add: manage_site_def Let_def reply_def managed_same db)
qed

section \<open>Management is authorized\<close>


definition first_revision :: vibe_revision where
  "first_revision = \<lparr>rv_id = ''rev'', rv_site_id = ''site'', rv_ordinal = 1, rv_parent_revision_id = None, rv_commit_oid = ''oid'',
     rv_image_id = ''image'', rv_message = '''', rv_build_log = '''', rv_actor_user_id = ''42'', rv_conversation_id = ''c'',
     rv_turn_id = ''t'', rv_job_id = ''job'', rv_created_at = JNull\<rparr>"

definition built_site :: vibe_site where
  "built_site = (claimed_site first_claim ''7'')\<lparr>vs_status := SiteActive, vs_active_revision_id := Some ''rev''\<rparr>"

definition built_tables :: vibe_tables where
  "built_tables = empty_tables\<lparr>vt_sites := [built_site],
     vt_jobs := [(claimed_job first_claim ''7'')\<lparr>vj_state := JobDone\<rparr>],
     vt_revisions := [first_revision\<lparr>rv_build_log := take_chars 32768 ''''\<rparr>]\<rparr>"

definition built_system :: vibe_system where
  "built_system = first_system\<lparr>sy_db := built_tables, sy_working := sy_working first_system - {''job''},
     sy_finishing := insert ''job'' (sy_finishing first_system)\<rparr>"

lemma first_tables:
  "sy_db first_system = empty_tables\<lparr>vt_sites := [(claimed_site first_claim ''7'')\<lparr>vs_running_job_id := Some ''job''\<rparr>],
     vt_jobs := [claimed_job first_claim ''7'']\<rparr>"
  by (simp add: first_system_def first_claim_result)

lemma first_completed: "complete_revision first_revision ''job'' (sy_db first_system) = (Inr (), built_tables)"
  unfolding first_tables
  by (simp add: complete_revision_def find_site_def site_where_def insert_revision_def
      built_tables_def built_site_def empty_tables_def update_jobs_def update_sites_def claimed_site_def claimed_job_def
      first_revision_def first_claim_def)

lemma built_reach: "vibe_reach 1 built_system"
proof -
  have "''job'' \<in> sy_working first_system" by (simp add: first_system_def)
  then show ?thesis
    unfolding built_system_def using reach_step [OF first_reach step_complete [OF _ first_completed]] by simp
qed

definition owner_env :: vibe_tool_env where
  "owner_env = \<lparr>te_access = \<lparr>vx_enabled = True, vx_admins_only = False, vx_allowed_guilds = []\<rparr>, te_reserved_names = [],
     te_base_domain = ''vibe.example'', te_max_running_jobs = 1, te_actor = cj_actor first_claim,
     te_membership = (\<lambda>_ _ _ _. Inr True), te_fault = (\<lambda>_. None), te_listed = (\<lambda>_ _ _. []), te_last_changed = (\<lambda>_. JNull),
     te_dropped = None\<rparr>"

definition archive_call :: client_tool_call where
  "archive_call = \<lparr>ctc_id = ''call'', ctc_name = ''vibe_manage'',
     ctc_input = JObject [(''action'', JString ''archive''), (''siteName'', JString ''blog'')]\<rparr>"

lemma archived_tables:
  "tw_db (snd (vibe_manage (Some owner_env) archive_call \<lparr>tw_db = built_tables, tw_awaits = 0\<rparr>))
     = set_site_status ''site'' SiteArchived built_tables"
  by (simp add: vibe_manage_def archive_call_def btm_get_def owner_env_def first_claim_def step_then_def stored_def reading_def
      find_site_by_name_def site_where_def built_tables_def built_site_def claimed_site_def manage_site_def membership_def
      await_def role_of_actor_def step_return_def check_site_def check_rollout_def manage_action_def manage_status_def
      or_execution_def changing_def managed_def reply_def Let_def)

lemma archived_changes: "set_site_status ''site'' SiteArchived built_tables \<noteq> built_tables"
  by (simp add: set_site_status_def update_sites_def built_tables_def built_site_def claimed_site_def first_claim_def empty_tables_def)


end
