(* ===== verification/Bot_Vibe_Job_Props.thy ===== *)
theory Bot_Vibe_Job_Props
  imports Bot_Vibe_Job Bot_Vibe_Props
begin

text \<open>
  The coding job of the Vibe tool refines the steps of \<open>Store_Vibe_Props\<close>: whatever is answered and wherever it is
  dropped, its calls of the storage are steps of one job from its claim to its end.
\<close>

section \<open>What is served\<close>

definition live :: "vibe_tables \<Rightarrow> string \<Rightarrow> string option" where
  "live db i = Option.bind (find_site i db) vs_active_revision_id"

text \<open>What the sites say of themselves, apart from their locks.\<close>

definition site_views :: "vibe_tables \<Rightarrow> (string \<times> string option \<times> vibe_site_status) set" where
  "site_views db = (\<lambda>s. (vs_id s, vs_active_revision_id s, vs_status s)) ` set (vt_sites db)"

lemma live_iff:
  assumes "keys_ok db"
  shows "live db i = Some r \<longleftrightarrow> (\<exists>status. (i, Some r, status) \<in> site_views db)"
  by (fastforce simp: live_def Option.bind_eq_Some_conv find_site_Some [OF assms] site_views_def image_iff)

lemma live_eq:
  assumes "keys_ok db" "keys_ok db'"
    and "\<And>i r. (\<exists>status. (i, Some r, status) \<in> site_views db') \<longleftrightarrow> (\<exists>status. (i, Some r, status) \<in> site_views db)"
  shows "live db' = live db"
proof
  fix i
  have "live db' i = Some r \<longleftrightarrow> live db i = Some r" for r
    unfolding live_iff [OF assms(1)] live_iff [OF assms(2)] by (rule assms(3))
  then show "live db' i = live db i" by (cases "live db i"; cases "live db' i") auto
qed

lemma views_jobs: "site_views (update_jobs P f db) = site_views db"
  by (simp add: site_views_def update_jobs_def)

lemma views_release: "site_views (release_job_site j db) = site_views db"
  unfolding site_views_def set_map [symmetric] by (rule arg_cong [of _ _ set]) (simp add: release_job_site_def update_sites_def)

lemma views_drop:
  "site_views (drop_unbuilt_site j db) \<subseteq> site_views db"
  "(i, r, status) \<in> site_views db \<Longrightarrow> status \<noteq> SiteCreating \<Longrightarrow> (i, r, status) \<in> site_views (drop_unbuilt_site j db)"
  by (auto simp: site_views_def drop_unbuilt_site_def delete_sites_def Let_def split: option.split)

lemma views_job_state:
  "site_views (update_job_state j state error db) \<subseteq> site_views db"
  "(i, r, status) \<in> site_views db \<Longrightarrow> status \<noteq> SiteCreating \<Longrightarrow> (i, r, status) \<in> site_views (update_job_state j state error db)"
  using views_drop views_release views_jobs by (simp_all add: update_job_state_def Let_def) blast

lemma live_job_state:
  assumes "db_ok limit db" "db_ok limit (update_job_state j state error db)"
  shows "live (update_job_state j state error db) = live db"
proof (rule live_eq)
  show "keys_ok db" "keys_ok (update_job_state j state error db)" using assms by (simp_all add: db_ok_def)
  have built: "status \<noteq> SiteCreating" if "(i, Some r, status) \<in> site_views db" for i r status
    using assms(1) that by (auto simp: db_ok_def site_built_def site_views_def)
  show "(\<exists>status. (i, Some r, status) \<in> site_views (update_job_state j state error db))
      \<longleftrightarrow> (\<exists>status. (i, Some r, status) \<in> site_views db)" for i r
    using views_job_state built by blast
qed

section \<open>Where a job stands\<close>

definition system_with :: "vibe_system \<Rightarrow> vibe_tables \<Rightarrow> string set \<Rightarrow> string set \<Rightarrow> string set \<Rightarrow> vibe_system" where
  "system_with s db w f l =
     \<lparr>sy_db = db, sy_working = w \<union> sy_working s, sy_finishing = f \<union> sy_finishing s, sy_dropped = sy_dropped s,
      sy_lost = l \<union> sy_lost s\<rparr>"

definition at_work :: "u16 \<Rightarrow> vibe_system \<Rightarrow> string \<Rightarrow> tool_world \<Rightarrow> bool" where
  "at_work limit s j w \<longleftrightarrow> vibe_reach limit (system_with s (tw_db w) {j} {} {}) \<and> live (tw_db w) = live (sy_db s)"

definition has_ended :: "u16 \<Rightarrow> vibe_system \<Rightarrow> string \<Rightarrow> tool_world \<Rightarrow> bool" where
  "has_ended limit s j w \<longleftrightarrow> vibe_reach limit (system_with s (tw_db w) {} {j} {})"

text \<open>The job is over: its locks are released, or its last update was lost.\<close>

definition settled :: "u16 \<Rightarrow> vibe_system \<Rightarrow> string \<Rightarrow> tool_world \<Rightarrow> bool" where
  "settled limit s j w \<longleftrightarrow>
     vibe_reach limit (system_with s (tw_db w) {} {} {}) \<or> vibe_reach limit (system_with s (tw_db w) {} {} {j})"

lemma reach_keys: "vibe_reach limit s \<Longrightarrow> db_ok limit (sy_db s)"
  using vibe_reach_ok by (simp add: system_ok_def)

lemma at_work_awaits [simp]: "at_work limit s j (w\<lparr>tw_awaits := n\<rparr>) = at_work limit s j w"
  by (simp add: at_work_def)

lemma has_ended_awaits [simp]: "has_ended limit s j (w\<lparr>tw_awaits := n\<rparr>) = has_ended limit s j w"
  by (simp add: has_ended_def)

lemma settled_awaits [simp]: "settled limit s j (w\<lparr>tw_awaits := n\<rparr>) = settled limit s j w"
  by (simp add: settled_def)

lemma at_work_progress:
  assumes "at_work limit s j w" "in_progress state"
  shows "at_work limit s j (w\<lparr>tw_awaits := n, tw_db := update_job_state j state error (tw_db w)\<rparr>)"
proof -
  have work: "vibe_reach limit (system_with s (tw_db w) {j} {} {})" and same: "live (tw_db w) = live (sy_db s)"
    using assms(1) by (simp_all add: at_work_def)
  have step: "vibe_reach limit (system_with s (update_job_state j state error (tw_db w)) {j} {} {})"
    using reach_step [OF work step_progress [OF _ assms(2), of j]] by (simp add: system_with_def)
  show ?thesis
    using step same live_job_state [of limit "tw_db w" j state error] reach_keys [OF work] reach_keys [OF step]
    by (simp add: at_work_def system_with_def)
qed

lemma at_work_end:
  assumes "at_work limit s j w" "state = JobNoChanges \<or> state = JobFailed" "j \<notin> known_jobs s"
  shows "has_ended limit s j (w\<lparr>tw_awaits := n, tw_db := update_job_state j state error (tw_db w)\<rparr>)
    \<and> live (update_job_state j state error (tw_db w)) = live (sy_db s)"
proof -
  have work: "vibe_reach limit (system_with s (tw_db w) {j} {} {})" and same: "live (tw_db w) = live (sy_db s)"
    using assms(1) by (simp_all add: at_work_def)
  have step: "vibe_reach limit (system_with s (update_job_state j state error (tw_db w)) {} {j} {})"
    using reach_step [OF work step_end [OF _ assms(2), of j]] assms(3) by (simp add: system_with_def known_jobs_def)
  show ?thesis
    using step same live_job_state [of limit "tw_db w" j state error] reach_keys [OF work] reach_keys [OF step]
    by (simp add: has_ended_def system_with_def)
qed

lemma at_work_complete:
  assumes "at_work limit s j w" "complete_revision r j (tw_db w) = (Inr (), db)" "j \<notin> known_jobs s"
  shows "has_ended limit s j (w\<lparr>tw_awaits := n, tw_db := db\<rparr>)"
proof -
  have work: "vibe_reach limit (system_with s (tw_db w) {j} {} {})" using assms(1) by (simp add: at_work_def)
  show ?thesis
    using reach_step [OF work step_complete [of j _ r db]] assms(2,3) by (simp add: has_ended_def system_with_def known_jobs_def)
qed

lemma ended_settled:
  assumes "has_ended limit s j w" "j \<notin> known_jobs s"
  shows "settled limit s j w"
proof -
  have "vibe_reach limit (system_with s (tw_db w) {} {j} {})" using assms(1) by (simp add: has_ended_def)
  from reach_step [OF this step_return [of j]] show ?thesis
    using assms(2) by (simp add: settled_def system_with_def known_jobs_def)
qed

lemma lost_settled:
  assumes "at_work limit s j w" "j \<notin> known_jobs s"
  shows "settled limit s j w"
proof -
  have "vibe_reach limit (system_with s (tw_db w) {j} {} {})" using assms(1) by (simp add: at_work_def)
  from reach_step [OF this step_lose [of j]] show ?thesis
    using assms(2) by (simp add: settled_def system_with_def known_jobs_def)
qed

text \<open>A future that is dropped while its cleanup is armed.\<close>

lemma drop_settled:
  assumes "at_work limit s j w \<or> has_ended limit s j w" "j \<notin> known_jobs s"
  shows "settled limit s j (drop_job env j w)"
proof -
  let ?dropped = "system_with s (tw_db w) {} {} {}\<lparr>sy_dropped := insert j (sy_dropped s)\<rparr>"
  have gone: "vibe_reach limit ?dropped"
    using assms(1)
  proof
    assume "at_work limit s j w"
    then have "vibe_reach limit (system_with s (tw_db w) {j} {} {})" by (simp add: at_work_def)
    from reach_step [OF this step_drop [of j]] show ?thesis using assms(2) by (simp add: system_with_def known_jobs_def)
  next
    assume "has_ended limit s j w"
    then have "vibe_reach limit (system_with s (tw_db w) {} {j} {})" by (simp add: has_ended_def)
    from reach_step [OF this step_drop [of j]] show ?thesis using assms(2) by (simp add: system_with_def known_jobs_def)
  qed
  have cleaned: "vibe_reach limit (system_with s (update_job_state j state error (tw_db w)) {} {} {})"
    if "state = JobTimedOut \<or> state = JobCancelled" for state error
    using reach_step [OF gone step_cleanup [OF _ that, of j]] assms(2) by (simp add: system_with_def known_jobs_def)
  have lost: "vibe_reach limit (system_with s (tw_db w) {} {} {j})"
    using reach_step [OF gone step_lose [of j]] assms(2) by (simp add: system_with_def known_jobs_def)
  show ?thesis
    using cleaned lost by (simp add: drop_job_def settled_def split: option.split)
qed

section \<open>The steps of a job\<close>

lemma wp_try_stored:
  assumes "wp (stored env operation) (\<lambda>_. I) w" and "\<And>w'. I w' \<Longrightarrow> Q None w'" and "\<And>e w'. I w' \<Longrightarrow> Q (Some (Inl e)) w'"
    and "\<And>a w'. I w' \<Longrightarrow> wp (k a) Q w'"
  shows "wp (try_stored env operation k) Q w"
  unfolding try_stored_def by (rule wp_seq [OF assms(1)]) (use assms(2-4) in \<open>simp_all split: sum.split\<close>)

lemma await_at_work: "at_work limit s j w \<Longrightarrow> wp (await env answer) (\<lambda>_. at_work limit s j) w"
  by (rule wp_await) simp_all

lemma reading_at_work: "at_work limit s j w \<Longrightarrow> wp (stored env (reading f)) (\<lambda>_. at_work limit s j) w"
  by (rule wp_reading) simp_all

lemma return_at_work: "at_work limit s j w \<Longrightarrow> wp (step_return a) (\<lambda>_. at_work limit s j) w"
  by simp

lemma state_at_work:
  assumes "at_work limit s j w" "in_progress state"
  shows "wp (stored env (set_job_state j state error)) (\<lambda>_. at_work limit s j) w"
  using assms at_work_progress [OF assms] by (intro wp_stored) (auto simp: set_job_state_def changing_def)

lemmas at_work_steps = await_at_work reading_at_work return_at_work

lemma unchanged_at_work: "at_work limit s j w \<Longrightarrow> wp (source_unchanged env parent) (\<lambda>_. at_work limit s j) w"
  unfolding source_unchanged_def by (auto split: option.split intro!: wp_try [where I = "at_work limit s j"] at_work_steps)

lemma code_round_at_work: "at_work limit s j w \<Longrightarrow> wp (code_round env parent transcript) (\<lambda>_. at_work limit s j) w"
  unfolding code_round_def
  by (intro wp_try [where I = "at_work limit s j"] at_work_steps unchanged_at_work; simp?)

lemma states_in_progress: "in_progress JobCoding" "in_progress JobBuilding" "in_progress JobRepair" "in_progress JobCommitting"
  by (simp_all add: in_progress_def)

lemma build_round_at_work: "at_work limit s j w \<Longrightarrow> wp (build_round env j left) (\<lambda>_. at_work limit s j) w"
  unfolding build_round_def post_status_def
  by (intro wp_seq [where I = "at_work limit s j"] wp_try_stored [where I = "at_work limit s j"] at_work_steps
      state_at_work states_in_progress; auto simp del: wp_then split: sum.split
      intro!: wp_seq [where I = "at_work limit s j"] wp_try_stored [where I = "at_work limit s j"] at_work_steps
      state_at_work states_in_progress)

definition rounds_post :: "u16 \<Rightarrow> vibe_system \<Rightarrow> string \<Rightarrow> (string + round_end) option \<Rightarrow> tool_world \<Rightarrow> bool" where
  "rounds_post limit s j r w \<longleftrightarrow>
     at_work limit s j w
     \<or> has_ended limit s j w \<and> live (tw_db w) = live (sy_db s)
       \<and> (case r of None \<Rightarrow> True | Some (Inr (Unchanged _ _)) \<Rightarrow> True | _ \<Rightarrow> False)"

lemma rounds_at_work: "at_work limit s j w \<Longrightarrow> rounds_post limit s j r w"
  by (simp add: rounds_post_def)

lemma unchanged_end:
  assumes "at_work limit s j w" "j \<notin> known_jobs s"
  shows "wp (step_then (stored env (set_job_state j JobNoChanges None)) (\<lambda>_. step_return (Inr (Unchanged summary runs))))
    (rounds_post limit s j) w"
  unfolding wp_then
  by (rule wp_stored) (use assms at_work_end [OF assms(1) _ assms(2), of JobNoChanges]
    in \<open>auto simp: set_job_state_def changing_def rounds_post_def\<close>)

lemma rounds_body:
  assumes "at_work limit s j w" "j \<notin> known_jobs s"
    and next_round: "\<And>n t r w. left = Suc n \<Longrightarrow> at_work limit s j w \<Longrightarrow> wp (coding_rounds env j parent n t r) (rounds_post limit s j) w"
  shows "wp (coding_rounds env j parent left transcript runs) (rounds_post limit s j) w"
  unfolding coding_rounds.simps [of env j parent left transcript runs]
proof (rule wp_try [OF code_round_at_work [OF assms(1)]], goal_cases)
  case (3 coded w')
  have build: "wp (try_step (build_round env j left) (\<lambda>ending. case ending of
      BuildDone revision out \<Rightarrow> step_return (Inr (Built revision out summary (runs @ [run])))
    | BuildRepair log \<Rightarrow> (case left of 0 \<Rightarrow> step_return (Inl log)
        | Suc left \<Rightarrow> coding_rounds env j parent left
            (transcript_push (ar_transcript run) (turn_text User (repair_message log))) (runs @ [run]))))
    (rounds_post limit s j) w'" for run summary
    by (rule wp_try [OF build_round_at_work [OF 3]])
      (auto intro: rounds_at_work next_round split: build_end.split nat.split)
  show ?case
    using build unchanged_end [OF 3 assms(2), of env] by (simp add: case_prod_beta del: wp_then)
qed (auto intro: rounds_at_work)

lemma rounds_end:
  assumes "at_work limit s j w" "j \<notin> known_jobs s"
  shows "wp (coding_rounds env j parent left transcript runs) (rounds_post limit s j) w"
  using assms(1)
proof (induction left arbitrary: transcript runs w)
  case (Suc n)
  show ?case by (rule rounds_body [OF Suc.prems assms(2)]) (use Suc.IH in simp)
qed (rule rounds_body [OF _ assms(2)], simp_all)

definition reports_done :: "client_tool_output \<Rightarrow> bool" where
  "reports_done out \<longleftrightarrow> json_get (cto_trace_response out) ''state'' = Some (JString ''done'')"

lemma success_no_error [simp]: "\<not> cto_is_error (vibe_success serialized name state summary base runs)"
  by (simp add: vibe_success_def json_output_def)

lemma success_done [simp]: "reports_done (vibe_success serialized name ''done'' summary base runs)"
  by (simp add: reports_done_def vibe_success_def json_output_def json_get_object)

definition job_post :: "u16 \<Rightarrow> vibe_system \<Rightarrow> string \<Rightarrow> (string + client_tool_output) option \<Rightarrow> tool_world \<Rightarrow> bool" where
  "job_post limit s j r w \<longleftrightarrow>
     (at_work limit s j w
      \<or> has_ended limit s j w
        \<and> (case r of None \<Rightarrow> True | Some (Inl _) \<Rightarrow> False | Some (Inr out) \<Rightarrow> live (tw_db w) = live (sy_db s) \<or> reports_done out))
     \<and> (case r of Some (Inr out) \<Rightarrow> \<not> cto_is_error out | _ \<Rightarrow> True)"

lemma commit_end:
  assumes "at_work limit s (vj_id job) w" "vj_id job \<notin> known_jobs s"
  shows "wp (commit_job env job site task parent revision built summary runs) (job_post limit s (vj_id job)) w"
proof -
  have completed: "wp (try_stored env (complete_revision r (vj_id job)) (\<lambda>_.
      step_then (await env (\<lambda>_. ())) (\<lambda>_. step_then (await env (\<lambda>_. ())) (\<lambda>_.
        step_return (Inr (vibe_success (je_serialized env) (vj_site_name job) ''done'' summary (te_base_domain env) runs))))))
    (job_post limit s (vj_id job)) w'" if work: "at_work limit s (vj_id job) w'" for r w'
    unfolding try_stored_def wp_then
  proof (rule wp_stored, goal_cases)
    case (3 r' db)
    show ?case
    proof (cases r')
      case (Inl e)
      then have "db = tw_db w'" using 3 by (auto simp: complete_revision_def split: if_splits prod.splits sum.splits)
      then show ?thesis using Inl work by (simp add: job_post_def at_work_def)
    next
      case (Inr u)
      then have "has_ended limit s (vj_id job) (w'\<lparr>tw_awaits := 0, tw_db := db\<rparr>)"
        using at_work_complete [OF work _ assms(2)] 3 by (cases u) simp
      then have "has_ended limit s (vj_id job) v" if "tw_db v = db" for v using that by (simp add: has_ended_def)
      then show ?thesis using Inr by (auto simp: job_post_def intro!: wp_await)
    qed
  qed (use work in \<open>simp_all add: job_post_def\<close>)
  show ?thesis
    unfolding commit_job_def Let_def
    by (intro wp_try_stored [OF state_at_work [OF assms(1) states_in_progress(4)]] wp_try [OF await_at_work] completed)
      (simp_all add: job_post_def)
qed

lemma execute_end:
  assumes "at_work limit s (vj_id job) w" "vj_id job \<notin> known_jobs s"
  shows "wp (execute_claimed_job env job task) (job_post limit s (vj_id job)) w"
proof -
  have work: "job_post limit s (vj_id job) None v" "job_post limit s (vj_id job) (Some (Inl e)) v"
    if "at_work limit s (vj_id job) v" for v e
    using that by (simp_all add: job_post_def)
  have rounds: "wp (try_step (coding_rounds env (vj_id job) parent (je_max_repairs env) (from_user_text task) [])
      (\<lambda>ending. case ending of
         Unchanged summary runs \<Rightarrow>
           step_return (Inr (vibe_success (je_serialized env) (vj_site_name job) ''no_changes'' summary (te_base_domain env) runs))
       | Built revision built summary runs \<Rightarrow> commit_job env job site task parent revision built summary runs))
    (job_post limit s (vj_id job)) v" if "at_work limit s (vj_id job) v" for v parent site
    unfolding try_step_def wp_then
    by (rule wp_mono [OF rounds_end [OF that assms(2)]])
      (auto simp: rounds_post_def job_post_def intro!: commit_end assms(2) split: option.splits sum.splits round_end.splits)
  show ?thesis
    unfolding execute_claimed_job_def post_status_def
    by (cases "vj_site_id job")
      (auto simp: work assms(1) simp del: wp_then intro!: wp_try_stored [OF reading_at_work] wp_try [OF await_at_work]
        wp_seq [OF await_at_work] wp_try_stored [OF state_at_work [OF _ states_in_progress(1)]] rounds)
qed

section \<open>The whole call\<close>

definition call_post :: "u16 \<Rightarrow> vibe_system \<Rightarrow> string \<Rightarrow> client_tool_output option \<Rightarrow> tool_world \<Rightarrow> bool" where
  "call_post limit s j r w \<longleftrightarrow>
     settled limit s j w
     \<and> (live (tw_db w) = live (sy_db s) \<or> r = None \<or> (\<exists>out. r = Some out \<and> reports_done out \<and> \<not> cto_is_error out))"

lemma wp_armed:
  "wp (armed env j m) Q w \<longleftrightarrow> wp m (\<lambda>r w'. case r of None \<Rightarrow> Q None (drop_job env j w') | Some a \<Rightarrow> Q (Some a) w') w"
  by (simp add: wp_def armed_def split: prod.split option.split)

lemma cleanup_files_keep: "wp (cleanup_job_files env) (\<lambda>_ w'. tw_db w' = tw_db w) w"
  by (auto simp: cleanup_job_files_def intro!: wp_await)

lemma job_post_db: "tw_db w = tw_db w' \<Longrightarrow> job_post limit s j r w = job_post limit s j r w'"
  by (simp add: job_post_def at_work_def has_ended_def cong: option.case_cong sum.case_cong)

lemma job_post_none: "job_post limit s j r w \<Longrightarrow> job_post limit s j None w"
  by (auto simp: job_post_def)

lemma job_post_settled: "job_post limit s j r w \<Longrightarrow> j \<notin> known_jobs s \<Longrightarrow> settled limit s j w"
  by (auto simp: job_post_def intro: lost_settled ended_settled)

lemma failed_end:
  assumes "at_work limit s j w" "j \<notin> known_jobs s"
  shows "wp (step_then (stored env (set_job_state j JobFailed (Some error))) (\<lambda>_. step_return out)) (call_post limit s j) w"
  unfolding wp_then
proof (rule wp_stored, goal_cases)
  case (3 r db)
  then have db: "db = update_job_state j JobFailed (Some error) (tw_db w)" by (simp add: set_job_state_def changing_def)
  have ended: "has_ended limit s j (w\<lparr>tw_awaits := 0, tw_db := db\<rparr>)" "live db = live (sy_db s)"
    using at_work_end [OF assms(1) _ assms(2), where state = JobFailed and n = 0 and error = "Some error"] by (simp_all add: db)
  then have "settled limit s j v" if "tw_db v = db" for v
    using ended_settled [OF ended(1) assms(2)] that by (simp add: settled_def)
  then show ?case using ended(2) by (simp add: call_post_def)
qed (use lost_settled [OF assms] assms(1) in \<open>simp_all add: call_post_def at_work_def\<close>)

lemma claimed_end:
  assumes "at_work limit s (vj_id job) w" "vj_id job \<notin> known_jobs s"
  shows "wp (run_claimed_job env job task) (call_post limit s (vj_id job)) w"
proof -
  let ?j = "vj_id job"
  have inner: "wp (step_then (execute_claimed_job env job task) (\<lambda>result. step_then (cleanup_job_files env) (\<lambda>_. step_return result)))
      (\<lambda>r w'. case r of None \<Rightarrow> job_post limit s ?j None w' | Some result \<Rightarrow> job_post limit s ?j (Some result) w') w"
    unfolding wp_then [of "execute_claimed_job env job task"]
  proof (rule wp_mono [OF execute_end [OF assms]])
    fix r v assume post: "job_post limit s ?j r v"
    have kept: "job_post limit s ?j r v'" "job_post limit s ?j None v'" if "tw_db v' = tw_db v" for v'
      using post job_post_db [OF that] job_post_none by blast+
    have "wp (step_then (cleanup_job_files env) (\<lambda>_. step_return result))
        (\<lambda>r w'. case r of None \<Rightarrow> job_post limit s ?j None w' | Some result \<Rightarrow> job_post limit s ?j (Some result) w') v"
      if "r = Some result" for result
      by (rule wp_seq [OF cleanup_files_keep]) (use kept that in simp_all)
    then show "case r of None \<Rightarrow> (case None of None \<Rightarrow> job_post limit s ?j None v | Some result \<Rightarrow> job_post limit s ?j (Some result) v)
        | Some result \<Rightarrow> wp (step_then (cleanup_job_files env) (\<lambda>_. step_return result))
            (\<lambda>r w'. case r of None \<Rightarrow> job_post limit s ?j None w' | Some result \<Rightarrow> job_post limit s ?j (Some result) w') v"
      using post by (cases r) auto
  qed
  have dropped: "call_post limit s ?j None (drop_job env ?j v)" if "job_post limit s ?j None v" for v
    using drop_settled [OF _ assms(2), of limit v env] that by (simp add: job_post_def call_post_def)
  have returned: "wp (case result of Inr out \<Rightarrow> step_return out
      | Inl error \<Rightarrow> step_then (stored env (set_job_state ?j JobFailed (Some error))) (\<lambda>_.
          step_return (vibe_tool_error ''job_failed'' ''the Vibe job failed without changing the live site'')))
      (call_post limit s ?j) v" if post: "job_post limit s ?j (Some result) v" for result v
  proof (cases result)
    case (Inl error)
    then have "at_work limit s ?j v" using post by (simp add: job_post_def)
    from failed_end [OF this assms(2)] Inl show ?thesis by simp
  next
    case (Inr out)
    then show ?thesis
      using post job_post_settled [OF post assms(2)] by (auto simp: job_post_def call_post_def at_work_def)
  qed
  show ?thesis
    unfolding run_claimed_job_def wp_then [of "armed env ?j m" for m] wp_armed
    by (rule wp_mono [OF inner]) (use dropped returned in \<open>simp split: option.splits\<close>)
qed

lemma idle_settled:
  assumes "vibe_reach limit s" "tw_db w = sy_db s"
  shows "settled limit s j w" "call_post limit s j r w"
proof -
  have "system_with s (sy_db s) {} {} {} = s" by (simp add: system_with_def)
  then show "settled limit s j w" using assms by (simp add: settled_def)
  then show "call_post limit s j r w" using assms(2) by (simp add: call_post_def)
qed

lemma create_job_error: "create_job input db = (Inl e, db') \<Longrightarrow> db' = db"
  by (auto simp: create_job_def split: option.splits if_splits prod.splits sum.splits)

lemma create_job_views:
  assumes "create_job input db = (Inr job, db')" "find_job_by_tool_use (cj_tool_use_id input) db = None"
  shows "vj_id job = cj_id input" and "site_views db \<subseteq> site_views db'"
    and "(i, Some r, status) \<in> site_views db' \<Longrightarrow> (i, Some r, status) \<in> site_views db"
proof -
  obtain guild claimed inserted where claim: "claim_site input guild db = (Inr (), claimed)"
    and insert: "insert_job (claimed_job input guild) claimed = (Inr job, inserted)"
    and db': "db' = update_sites (\<lambda>site. vs_id site = cj_site_id input) (\<lambda>site. site\<lparr>vs_running_job_id := Some (cj_id input)\<rparr>) inserted"
    using assms by (auto simp: create_job_def split: option.splits if_splits prod.splits sum.splits)
  have inserted: "job = claimed_job input guild" "vt_sites inserted = vt_sites claimed"
    using insert by (auto simp: insert_job_def split: if_splits)
  have claimed: "vt_sites claimed = vt_sites db \<or> vt_sites claimed = vt_sites db @ [claimed_site input guild]"
    using claim by (auto simp: claim_site_def insert_site_def split: vibe_action.splits if_splits option.splits claim_state.splits)
  have views: "site_views db' = site_views claimed"
    unfolding site_views_def set_map [symmetric] db'
    by (rule arg_cong [of _ _ set]) (simp add: update_sites_def inserted)
  show "vj_id job = cj_id input" by (simp add: inserted claimed_job_def)
  show "site_views db \<subseteq> site_views db'"
    using claimed unfolding views by (auto simp: site_views_def)
  show "(i, Some r, status) \<in> site_views db" if "(i, Some r, status) \<in> site_views db'"
    using claimed that unfolding views by (auto simp: site_views_def claimed_site_def)
qed

lemma claim_at_work:
  assumes reach: "vibe_reach limit s" and create: "create_job input (sy_db s) = (Inr job, db)"
    and none: "find_job_by_tool_use (cj_tool_use_id input) (sy_db s) = None"
    and limit: "cj_max_running_jobs_per_guild input = limit" and fresh: "cj_id input \<notin> known_jobs s"
    and w: "tw_db w = db"
  shows "at_work limit s (cj_id input) w"
proof -
  have step: "vibe_reach limit (system_with s db {cj_id input} {} {})"
    using reach_step [OF reach step_claim [OF create none limit fresh]] by (cases s) (simp add: system_with_def)
  have "keys_ok (sy_db s)" "keys_ok db"
    using reach_keys [OF reach] reach_keys [OF step] by (simp_all add: db_ok_def system_with_def)
  then have "live db = live (sy_db s)"
    by (rule live_eq) (use create_job_views [OF create none] in blast)
  then show ?thesis using step w by (simp add: at_work_def)
qed

lemma claim_failed_keeps: "wp (claim_failed env action name tool_use error) (\<lambda>_ w'. tw_db w' = tw_db w) w"
  by (auto simp: claim_failed_def split: option.split intro!: wp_reading)

lemma job_site_keeps: "wp (job_site env action existing) (\<lambda>_ w'. tw_db w' = tw_db w) w"
  by (auto simp: job_site_def split: vibe_action.split option.split sum.split intro!: wp_role_of_actor)

lemma start_job_end:
  assumes reach: "vibe_reach limit s" and w: "tw_db w = sy_db s"
    and none: "find_job_by_tool_use tool_use (sy_db s) = None"
    and limit: "te_max_running_jobs env = limit" and fresh: "je_job_id env \<notin> known_jobs s"
  shows "wp (start_job env action name task tool_use guild) (call_post limit s (je_job_id env)) w"
proof -
  let ?Q = "call_post limit s (je_job_id env)"
  have idle: "?Q r v" if "tw_db v = sy_db s" for r v by (rule idle_settled [OF reach that])
  have refused: "wp (claim_failed env action name tool_use error) ?Q v" if "tw_db v = sy_db s" for error v
    by (rule wp_mono [OF claim_failed_keeps]) (use idle that in simp)
  have claimed: "wp (stored env (create_job (claim_input env action name task tool_use site)))
      (\<lambda>r v. case r of None \<Rightarrow> ?Q None v
         | Some (Inl e) \<Rightarrow> wp (claim_failed env action name tool_use (store_error_message e)) ?Q v
         | Some (Inr job) \<Rightarrow> wp (run_claimed_job env job task) ?Q v) v" if v: "tw_db v = sy_db s" for site v
  proof (rule wp_stored, goal_cases)
    case (3 r db)
    then have create: "create_job (claim_input env action name task tool_use site) (sy_db s) = (r, db)" using v by simp
    show ?case
    proof (cases r)
      case (Inl e)
      then show ?thesis using refused create create_job_error by fastforce
    next
      case (Inr job)
      let ?input = "claim_input env action name task tool_use site"
      have input: "cj_id ?input = je_job_id env" "cj_tool_use_id ?input = tool_use" "cj_max_running_jobs_per_guild ?input = limit"
        by (simp_all add: claim_input_def limit)
      have create': "create_job ?input (sy_db s) = (Inr job, db)" and none': "find_job_by_tool_use (cj_tool_use_id ?input) (sy_db s) = None"
        using create Inr none input(2) by simp_all
      have j: "vj_id job = je_job_id env" using create_job_views(1) [OF create' none'] input(1) by simp
      have "at_work limit s (je_job_id env) u" if "tw_db u = db" for u
        using claim_at_work [OF reach create' none' input(3) _ that] fresh input(1) by simp
      then show ?thesis using claimed_end [where limit = limit and s = s and job = job and env = env] fresh j Inr by simp
    qed
  qed (use idle refused v in simp_all)
  have sited: "wp (step_then (job_site env action existing) (\<lambda>target.
      case target of
        Inl refusal \<Rightarrow> step_return refusal
      | Inr site \<Rightarrow>
          step_then (stored env (create_job (claim_input env action name task tool_use site))) (\<lambda>claimed.
            case claimed of
              Inl e \<Rightarrow> claim_failed env action name tool_use (store_error_message e)
            | Inr job \<Rightarrow> run_claimed_job env job task))) ?Q v" if v: "tw_db v = sy_db s" for existing v
  proof (rule wp_seq [OF job_site_keeps])
    fix target and u :: tool_world assume u: "tw_db u = tw_db v"
    have "wp (step_then (stored env (create_job (claim_input env action name task tool_use site))) (\<lambda>claimed.
            case claimed of
              Inl e \<Rightarrow> claim_failed env action name tool_use (store_error_message e)
            | Inr job \<Rightarrow> run_claimed_job env job task)) ?Q u" for site
      unfolding wp_then by (rule wp_mono [OF claimed]) (use u v in \<open>auto split: option.splits sum.splits\<close>)
    then show "wp (case target of
        Inl refusal \<Rightarrow> step_return refusal
      | Inr site \<Rightarrow>
          step_then (stored env (create_job (claim_input env action name task tool_use site))) (\<lambda>claimed.
            case claimed of
              Inl e \<Rightarrow> claim_failed env action name tool_use (store_error_message e)
            | Inr job \<Rightarrow> run_claimed_job env job task)) ?Q u"
      using idle u v by (cases target) simp_all
  qed (use idle v in simp)
  show ?thesis
    unfolding start_job_def
    by (rule wp_seq [where I = "\<lambda>v. tw_db v = sy_db s"])
      (auto simp: w idle simp del: wp_then split: sum.split
        intro!: wp_reading wp_seq [where I = "\<lambda>v. tw_db v = sy_db s" and k = "\<lambda>existing. case existing of Inl e \<Rightarrow> _ e | Inr x \<Rightarrow> _ x"] sited)
qed

text \<open>The lookup of an earlier job of the same call: without a fault it finds the job.\<close>

lemma lookup_end:
  assumes reach: "vibe_reach limit s" and w: "tw_db w = sy_db s"
    and known: "find_job_by_tool_use tool_use (sy_db s) = None \<or> (\<forall>n. te_fault env n = None)"
    and limit: "te_max_running_jobs env = limit" and fresh: "je_job_id env \<notin> known_jobs s"
  shows "wp (step_then (stored env (reading (find_job_by_tool_use tool_use))) (\<lambda>found.
      case found_job found of
        Some job \<Rightarrow> step_return (existing_job_output env job)
      | None \<Rightarrow> start_job env action name task tool_use guild)) (call_post limit s (je_job_id env)) w"
proof -
  let ?Q = "call_post limit s (je_job_id env)"
  have idle: "?Q r v" if "tw_db v = sy_db s" for r v by (rule idle_settled [OF reach that])
  have start: "wp (start_job env action name task tool_use guild) ?Q v"
    if "tw_db v = sy_db s" "find_job_by_tool_use tool_use (sy_db s) = None" for v
    by (rule start_job_end [OF reach that limit fresh])
  show ?thesis
  proof (cases "find_job_by_tool_use tool_use (sy_db s)")
    case None
    then show ?thesis
      unfolding wp_then by (intro wp_reading) (auto simp: found_job_def w idle intro!: start)
  next
    case (Some job)
    then have "te_fault env n = None" for n using known by simp
    then show ?thesis
      using Some idle w by (simp add: wp_def step_then_def stored_def reading_def found_job_def step_return_def)
  qed
qed

lemma run_job_end:
  assumes reach: "vibe_reach limit s" and w: "tw_db w = sy_db s"
    and known: "find_job_by_tool_use tool_use (sy_db s) = None \<or> (\<forall>n. te_fault env n = None)"
    and limit: "te_max_running_jobs env = limit" and fresh: "je_job_id env \<notin> known_jobs s"
  shows "wp (run_job env action name task tool_use) (call_post limit s (je_job_id env)) w"
proof -
  have idle: "call_post limit s (je_job_id env) r v" if "tw_db v = sy_db s" for r v by (rule idle_settled [OF reach that])
  show ?thesis
    unfolding run_job_def Let_def membership_def
    by (auto simp: w idle simp del: wp_then split: sum.split option.split bool.split
        intro!: wp_seq [where I = "\<lambda>v. tw_db v = sy_db s"] wp_await lookup_end [OF reach _ known limit fresh])
qed

definition time_limit_output :: client_tool_output where
  "time_limit_output = vibe_tool_error ''timed_out'' ''the Vibe coding job exceeded its time limit''"


definition finished_run :: agent_run where
  "finished_run = \<lparr>ar_outcome = Completed \<lparr>aa_text = ''built'', aa_blocks = []\<rparr>, ar_transcript = transcript_new, ar_trace = [],
     ar_model_steps = [], ar_last_model_id = None, ar_final_continuation = None, ar_usage = []\<rparr>"

text \<open>A job that succeeds, unless its time limit ends it at the given await.\<close>

definition job_env :: "nat option \<Rightarrow> vibe_job_env" where
  "job_env dropped =
     \<lparr>te_access = \<lparr>vx_enabled = True, vx_admins_only = False, vx_allowed_guilds = []\<rparr>, te_reserved_names = [],
      te_base_domain = ''vibe.example'', te_max_running_jobs = 1, te_actor = cj_actor first_claim,
      te_membership = (\<lambda>_ _ _ _. Inr True), te_fault = (\<lambda>_. None), te_listed = (\<lambda>_ _ _. []), te_last_changed = (\<lambda>_. JNull),
      te_dropped = dropped,
      je_site_id = ''site'', je_job_id = ''job'', je_revision_id = (\<lambda>_. ''rev''), je_max_repairs = 0,
      je_create_workspace = (\<lambda>_. Inr ()), je_start_coding = (\<lambda>_. Inr ()), je_agent_run = (\<lambda>_ _. Inr finished_run),
      je_install_bindings = (\<lambda>_. Inr ()), je_export = (\<lambda>_. Inr ()), je_source_tree = (\<lambda>_. Inr ''tree''),
      je_commit_tree = (\<lambda>_ _. Inr ''old''), je_clean_build = (\<lambda>_ _. Inr (''image'', '''')), je_commit = (\<lambda>_ _ _. Inr ''oid''),
      je_workspace_left = (\<lambda>_. False), je_now = JNull, je_serialized = (\<lambda>_. (JNull, JNull, JNull)), je_input_error = (\<lambda>_. ''''),
      je_timed_out = True, je_cleanup_fault = None\<rparr>"

definition create_call :: client_tool_call where
  "create_call = \<lparr>ctc_id = ''tool'', ctc_name = ''vibe'',
     ctc_input = JArray [JString ''create'', JString ''blog'', JString ''a blog'']\<rparr>"


lemma job_env_answers [simp]:
  "te_access (job_env d) = \<lparr>vx_enabled = True, vx_admins_only = False, vx_allowed_guilds = []\<rparr>"
  "te_reserved_names (job_env d) = []" "te_max_running_jobs (job_env d) = 1" "te_actor (job_env d) = cj_actor first_claim"
  "te_membership (job_env d) n p g u = Inr True" "te_fault (job_env d) n = None" "te_dropped (job_env d) = d"
  "je_site_id (job_env d) = ''site''" "je_job_id (job_env d) = ''job''" "je_revision_id (job_env d) n = ''rev''"
  "je_max_repairs (job_env d) = 0" "je_create_workspace (job_env d) n = Inr ()" "je_start_coding (job_env d) n = Inr ()"
  "je_agent_run (job_env d) n t = Inr finished_run" "je_install_bindings (job_env d) n = Inr ()" "je_export (job_env d) n = Inr ()"
  "je_clean_build (job_env d) n r = Inr (''image'', '''')" "je_commit (job_env d) n q m = Inr ''oid''"
  "je_workspace_left (job_env d) n = False" "je_timed_out (job_env d) = True" "je_cleanup_fault (job_env d) = None"
  by (simp_all add: job_env_def)

lemma blog_is_valid: "validate_name (vibe_names_new []) ''blog'' = Inr ()"
  by code_simp

lemma create_call_input: "vibe_tool_input_of (ctc_input create_call) = Some \<lparr>vi_action = ''create'', vi_site_name = ''blog'', vi_task = ''a blog''\<rparr>"
  by (simp add: create_call_def)

lemma finished_answer [simp]: "run_answer finished_run = Inr ''built''"
  by (simp add: run_answer_def finished_run_def)

lemma late_rounds:
  "coding_rounds (job_env (Some 19)) ''job'' None 0 t [] \<lparr>tw_db = db, tw_awaits = 10\<rparr>
     = (Some (Inr (Built ''rev'' (''image'', '''') ''built'' [finished_run])),
        \<lparr>tw_db = update_job_state ''job'' JobBuilding None db, tw_awaits = 16\<rparr>)"
  by (simp add: coding_rounds.simps code_round_def try_step_def step_then_def await_def step_return_def
      source_unchanged_def build_round_def post_status_def try_stored_def stored_def set_job_state_def changing_def)

lemma late_commit:
  assumes "complete_revision (job_revision (job_env (Some 19)) job ''site'' None ''rev'' (''image'', '''')
      (commit_message (vj_action job) (vj_site_name job) task ''built'') ''oid'') (vj_id job)
      (update_job_state (vj_id job) JobCommitting None db) = (Inr (), db')"
  shows "commit_job (job_env (Some 19)) job ''site'' task None ''rev'' (''image'', '''') ''built'' runs \<lparr>tw_db = db, tw_awaits = 16\<rparr>
     = (None, \<lparr>tw_db = db', tw_awaits = 19\<rparr>)"
  using assms
  by (simp add: commit_job_def try_step_def step_then_def await_def step_return_def try_stored_def stored_def set_job_state_def
      changing_def Let_def)

lemma late_execute:
  assumes "vj_site_id job = Some ''site''" "vj_id job = ''job''" "active_revision ''site'' db = None"
    and "complete_revision (job_revision (job_env (Some 19)) job ''site'' None ''rev'' (''image'', '''')
      (commit_message (vj_action job) (vj_site_name job) task ''built'') ''oid'') ''job''
      (update_job_state ''job'' JobCommitting None (update_job_state ''job'' JobBuilding None
        (update_job_state ''job'' JobCoding None db))) = (Inr (), db')"
  shows "execute_claimed_job (job_env (Some 19)) job task \<lparr>tw_db = db, tw_awaits = 5\<rparr> = (None, \<lparr>tw_db = db', tw_awaits = 19\<rparr>)"
proof -
  have "commit_job (job_env (Some 19)) job ''site'' task None ''rev'' (''image'', '''') ''built'' runs
      \<lparr>tw_db = update_job_state ''job'' JobBuilding None (update_job_state ''job'' JobCoding None db), tw_awaits = 16\<rparr>
    = (None, \<lparr>tw_db = db', tw_awaits = 19\<rparr>)" for runs
    by (rule late_commit) (use assms(2,4) in simp)
  then show ?thesis
    by (simp add: execute_claimed_job_def assms(1,2,3) try_step_def step_then_def await_def step_return_def try_stored_def
        stored_def set_job_state_def changing_def reading_def post_status_def late_rounds)
qed

lemma late_claim:
  "run_job (job_env (Some 19)) ActionCreate ''blog'' ''a blog'' ''tool'' \<lparr>tw_db = empty_tables, tw_awaits = 0\<rparr>
   = run_claimed_job (job_env (Some 19)) (claimed_job first_claim ''7'') ''a blog''
       \<lparr>tw_db = snd (create_job (claim_input (job_env (Some 19)) ActionCreate ''blog'' ''a blog'' ''tool'' ''site'') empty_tables),
        tw_awaits = 5\<rparr>"
  by (simp add: run_job_def check_rollout_def first_claim_def blog_is_valid step_then_def membership_def await_def stored_def
      reading_def found_job_def find_job_by_tool_use_def empty_tables_def start_job_def count_running_jobs_def
      find_site_by_name_def site_where_def job_site_def step_return_def create_job_def claim_input_def claim_site_def
      insert_site_def claimed_site_def insert_job_def claimed_job_def update_sites_def eval_nat_numeral)

lemma built_sites_kept:
  assumes "\<forall>site \<in> set (vt_sites db). vs_status site \<noteq> SiteCreating \<and> vs_running_job_id site \<noteq> Some j"
  shows "vt_sites (update_job_state j state error db) = vt_sites db"
proof -
  have released: "vt_sites (release_job_site j d) = vt_sites db" if "vt_sites d = vt_sites db" for d
    using assms that by (simp add: release_job_site_def update_sites_def map_idI)
  have dropped: "vt_sites (drop_unbuilt_site j d) = vt_sites db" if "vt_sites d = vt_sites db" for d
    using assms that by (auto simp: drop_unbuilt_site_def delete_sites_def Let_def filter_id_conv split: option.split)
  have "vt_sites (update_jobs P f db) = vt_sites db" for P f by (simp add: update_jobs_def)
  then show ?thesis using released dropped by (simp add: update_job_state_def Let_def)
qed

definition late_tables :: vibe_tables where
  "late_tables =
     \<lparr>vt_sites = [(claimed_site first_claim ''7'')\<lparr>vs_description := site_description ''a blog'', vs_status := SiteActive,
        vs_active_revision_id := Some ''rev''\<rparr>],
      vt_jobs = [(claimed_job first_claim ''7'')\<lparr>vj_state := JobDone\<rparr>],
      vt_revisions = [(job_revision (job_env (Some 19)) (claimed_job first_claim ''7'') ''site'' None ''rev'' (''image'', '''')
        (commit_message ActionCreate ''blog'' ''a blog'' ''built'') ''oid'')\<lparr>rv_build_log := take_chars 32768 ''''\<rparr>],
      vt_editors = [], vt_guilds = []\<rparr>"

lemma late_completed:
  "complete_revision (job_revision (job_env (Some 19)) (claimed_job first_claim ''7'') ''site'' None ''rev'' (''image'', '''')
      (commit_message ActionCreate ''blog'' ''a blog'' ''built'') ''oid'') ''job''
      (update_job_state ''job'' JobCommitting None (update_job_state ''job'' JobBuilding None (update_job_state ''job'' JobCoding None
        (snd (create_job (claim_input (job_env (Some 19)) ActionCreate ''blog'' ''a blog'' ''tool'' ''site'') empty_tables)))))
   = (Inr (), late_tables)"
  by (simp add: late_tables_def complete_revision_def update_job_state_def update_jobs_def terminal_state_def create_job_def
      claim_input_def first_claim_def empty_tables_def find_job_by_tool_use_def count_running_jobs_def claim_site_def
      insert_site_def claimed_site_def insert_job_def claimed_job_def update_sites_def find_site_def site_where_def
      insert_revision_def job_revision_def)

text \<open>
  A future that is dropped by its time limit after the revision was completed: the site serves the new revision, while the
  tool answers that the site was not modified.
\<close>

lemma late_drop_reports_unmodified:
  "fst (vibe_call (job_env (Some 19)) create_call \<lparr>tw_db = empty_tables, tw_awaits = 0\<rparr>) = Some time_limit_output
   \<and> live (tw_db (snd (vibe_call (job_env (Some 19)) create_call \<lparr>tw_db = empty_tables, tw_awaits = 0\<rparr>))) ''site'' = Some ''rev''"
proof -
  let ?job = "claimed_job first_claim ''7''"
  let ?db = "snd (create_job (claim_input (job_env (Some 19)) ActionCreate ''blog'' ''a blog'' ''tool'' ''site'') empty_tables)"
  have job: "vj_site_id ?job = Some ''site''" "vj_id ?job = ''job''" "vj_action ?job = ActionCreate" "vj_site_name ?job = ''blog''"
    by (simp_all add: claimed_job_def first_claim_def)
  have none: "active_revision ''site'' ?db = None"
    by (simp add: active_revision_def create_job_def claim_input_def first_claim_def empty_tables_def find_job_by_tool_use_def
        count_running_jobs_def claim_site_def insert_site_def claimed_site_def insert_job_def claimed_job_def update_sites_def
        find_site_def site_where_def)
  have run: "run_job (job_env (Some 19)) ActionCreate ''blog'' ''a blog'' ''tool'' \<lparr>tw_db = empty_tables, tw_awaits = 0\<rparr>
      = (None, drop_job (job_env (Some 19)) ''job'' \<lparr>tw_db = late_tables, tw_awaits = 19\<rparr>)"
    unfolding late_claim run_claimed_job_def
    using late_execute [OF job(1,2) none, of "''a blog''" late_tables] late_completed
    by (simp add: job step_then_def armed_def)
  have call: "vibe_call (job_env (Some 19)) create_call
      = timed (job_env (Some 19)) (run_job (job_env (Some 19)) ActionCreate ''blog'' ''a blog'' ''tool'')"
    by (rule ext) (simp add: vibe_call_def create_call_def parse_action_def)
  have "tw_db (drop_job (job_env (Some 19)) ''job'' \<lparr>tw_db = late_tables, tw_awaits = 19\<rparr>)
      = update_job_state ''job'' JobTimedOut (Some ''job timed out'') late_tables"
    by (simp add: drop_job_def)
  moreover have "live (update_job_state ''job'' JobTimedOut (Some ''job timed out'') late_tables) ''site'' = Some ''rev''"
    unfolding live_def find_site_def site_where_def
    by (subst built_sites_kept) (simp_all add: late_tables_def claimed_site_def first_claim_def)
  ultimately show ?thesis
    unfolding call by (simp add: timed_def run time_limit_output_def)
qed

text \<open>
  After a rollback a site cannot be edited: the revision a job adds takes the ordinal after the active one, which the
  revision that was rolled back has already, so the commit is refused.
\<close>

lemma edit_after_rollback_fails:
  assumes "q \<in> set (vt_revisions db)" "rv_site_id q = site" "rv_ordinal q = rv_ordinal parent + 1"
  shows "\<exists>e. complete_revision (job_revision env job site (Some parent) revision built message oid) j db = (Inl e, db)"
proof -
  let ?r = "job_revision env job site (Some parent) revision built message oid"
  have r: "rv_site_id ?r = site" "rv_ordinal ?r = rv_ordinal parent + 1" by (simp_all add: job_revision_def)
  have "\<exists>q \<in> set (vt_revisions db). rv_id q = rv_id ?r \<or> rv_job_id q = rv_job_id ?r
      \<or> rv_site_id q = rv_site_id ?r \<and> rv_ordinal q = rv_ordinal ?r"
    using assms unfolding r by blast
  then have "insert_revision ?r db = (Inl (StoreSqlx ''constraint''), db)"
    by (simp add: insert_revision_def list_ex_iff)
  then show ?thesis by (simp add: complete_revision_def)
qed

end
