(* ===== verification/Store_Turns.thy ===== *)
theory Store_Turns
  imports Bot_Replay Discord_Send
begin

text \<open>
  Conversations and their turns in the database: the write operations of \<open>chudbot-storage-sqlx/src/bot.rs\<close> and the
  snapshots \<open>snapshots.rs\<close> rebuilds from what they wrote. Each operation is one transaction, read as an operation on the
  tables; a statement that fails rolls it back. Fresh ids and the time of a transaction are arguments. The rows of users,
  channels, messages and media, which no decision here reads, are left out.
\<close>

section \<open>Keys of channels, messages and users\<close>

record user_ref =
  us_platform :: string
  us_guild_id :: "external_id option"
  us_user_id :: external_id

fun split_all :: "char \<Rightarrow> string \<Rightarrow> string list" where
  "split_all c [] = [[]]"
| "split_all c (x # s) =
     (if x = c then [] # split_all c s
      else case split_all c s of [] \<Rightarrow> [[x]] | part # parts \<Rightarrow> (x # part) # parts)"

definition channel_from_message :: "message_ref \<Rightarrow> channel_ref" where
  "channel_from_message message =
     \<lparr>ch_platform = mr_platform message, ch_guild_id = mr_guild_id message, ch_channel_id = mr_channel_id message\<rparr>"

definition guild_scope :: "string \<Rightarrow> string" where
  "guild_scope guild = ''guild:'' @ guild"

definition selection_channel_key :: "string option \<Rightarrow> string \<Rightarrow> string" where
  "selection_channel_key guild channel =
     (case guild of
        Some guild \<Rightarrow> ''guild:'' @ guild @ '':channel:'' @ channel
      | None \<Rightarrow> ''channel:'' @ channel)"

definition channel_key :: "channel_ref \<Rightarrow> string" where
  "channel_key channel =
     (case ch_guild_id channel of
        Some guild \<Rightarrow> ''guild:'' @ guild @ '':channel:'' @ ch_channel_id channel
      | None \<Rightarrow> ''channel:'' @ ch_channel_id channel)"

definition channel_key_from_message :: "message_ref \<Rightarrow> string" where
  "channel_key_from_message message = channel_key (channel_from_message message)"

definition channel_ref_of :: "string \<Rightarrow> string \<Rightarrow> channel_ref" where
  "channel_ref_of provider channel =
     (let parts = split_all CHR '':'' channel in
      if length parts \<ge> 4 \<and> parts ! 0 = ''guild'' \<and> parts ! 2 = ''channel''
      then \<lparr>ch_platform = provider, ch_guild_id = Some (parts ! 1),
            ch_channel_id = (if length parts \<ge> 6 \<and> parts ! 4 = ''thread'' then parts ! 5 else parts ! 3)\<rparr>
      else if length parts = 2 \<and> parts ! 0 = ''channel''
      then \<lparr>ch_platform = provider, ch_guild_id = None, ch_channel_id = parts ! 1\<rparr>
      else \<lparr>ch_platform = provider, ch_guild_id = None, ch_channel_id = channel\<rparr>)"

text \<open>A message is stored under its platform, the key of its channel and its id.\<close>

type_synonym message_key = "string \<times> string \<times> string"

definition message_key_of :: "message_ref \<Rightarrow> message_key" where
  "message_key_of message = (mr_platform message, channel_key_from_message message, mr_message_id message)"

fun message_ref_of :: "message_key \<Rightarrow> message_ref" where
  "message_ref_of (provider, channel, message) =
     (let c = channel_ref_of provider channel in
      \<lparr>mr_platform = ch_platform c, mr_guild_id = ch_guild_id c, mr_channel_id = ch_channel_id c, mr_message_id = message\<rparr>)"

definition user_ref_of :: "string \<Rightarrow> string \<Rightarrow> string \<Rightarrow> user_ref" where
  "user_ref_of provider channel user_key =
     \<lparr>us_platform = provider,
      us_guild_id = map_option (\<lambda>rest. hd (split_all CHR '':'' rest)) (strip_prefix ''guild:'' channel),
      us_user_id = user_key\<rparr>"

section \<open>Tables\<close>

record conversation_row =
  cv_id :: string
  cv_message_provider :: string
  cv_channel :: string
  cv_created_by_user_key :: string
  cv_root_message :: message_key
  cv_agent_name :: string
  cv_llm_provider :: provider_name
  cv_llm_model :: model_id
  cv_title :: "string option"
  cv_stopped_at :: "int option"
  cv_stopped_by :: "(string \<times> string) option"
  cv_next_turn_ordinal :: int
  cv_next_response_ordinal :: int

record turn_row =
  tr_conversation_id :: string
  tr_turn :: stored_turn
  tr_user_message :: message_key
  tr_user_key :: string
  tr_user_message_created_at :: int
  tr_completed_at :: "int option"
  tr_assistant_message :: "message_key option"
  tr_error :: "string option"

text \<open>An attempt is identified by its turn and ordinal; its context, input, traces and steps are kept in their order.\<close>

record attempt_row =
  ap_turn_id :: string
  ap_ordinal :: int
  ap_agent_name :: string
  ap_llm_provider :: provider_name
  ap_llm_model :: model_id
  ap_explicit_retry_user :: "string option"
  ap_status :: turn_status
  ap_context :: "context_item list"
  ap_input :: "transcript_turn list"
  ap_traces :: "(int \<times> tool_trace) list"
  ap_steps :: "model_step_trace list"
  ap_assistant_message :: "message_key option"
  ap_assistant_content :: "string option"
  ap_error :: "string option"

record message_link_row =
  ml_message :: message_key
  ml_conversation_id :: string
  ml_turn_id :: string
  ml_attempt :: "int option"
  ml_role :: string

record channel_link_row =
  cl_message_provider :: string
  cl_channel :: string
  cl_conversation_id :: string
  cl_turn_id :: string
  cl_role :: string

record turn_asset_row =
  sa_turn_id :: string
  sa_uri :: string
  sa_source :: string
  sa_ordinal :: int

record usage_row =
  uw_conversation_id :: string
  uw_turn_id :: string
  uw_attempt :: "int option"
  uw_record :: usage_record

datatype selection_key =
    ConversationKey string
  | UserKey string string string
  | ChannelKey string string
  | ProviderKey string

record bot_tables =
  bt_conversations :: "conversation_row list"
  bt_turns :: "turn_row list"
  bt_attempts :: "attempt_row list"
  bt_message_links :: "message_link_row list"
  bt_channel_links :: "channel_link_row list"
  bt_assets :: "turn_asset_row list"
  bt_usage :: "usage_row list"
  bt_selections :: "selection_key \<Rightarrow> string option"

datatype bot_store_error =
    SqSqlx string
  | SqMissingConversation string
  | SqMissingAttempt string
  | SqInvalidMediaUri string

type_synonym 'a bot_store_step = "(bot_store_error + 'a) \<times> bot_tables"

definition find_conversation :: "string \<Rightarrow> bot_tables \<Rightarrow> conversation_row option" where
  "find_conversation i db = List.find (\<lambda>c. cv_id c = i) (bt_conversations db)"

definition find_turn :: "string \<Rightarrow> bot_tables \<Rightarrow> turn_row option" where
  "find_turn i db = List.find (\<lambda>t. tn_id (tr_turn t) = i) (bt_turns db)"

definition turns_of :: "string \<Rightarrow> bot_tables \<Rightarrow> turn_row list" where
  "turns_of conversation db = filter (\<lambda>t. tr_conversation_id t = conversation) (bt_turns db)"

definition attempts_of :: "string \<Rightarrow> bot_tables \<Rightarrow> attempt_row list" where
  "attempts_of turn db = sort_key ap_ordinal (filter (\<lambda>a. ap_turn_id a = turn) (bt_attempts db))"

definition latest_attempt :: "string \<Rightarrow> bot_tables \<Rightarrow> attempt_row option" where
  "latest_attempt turn db = (case rev (attempts_of turn db) of [] \<Rightarrow> None | a # _ \<Rightarrow> Some a)"

definition update_conversation :: "string \<Rightarrow> (conversation_row \<Rightarrow> conversation_row) \<Rightarrow> bot_tables \<Rightarrow> bot_tables" where
  "update_conversation i f db =
     db\<lparr>bt_conversations := map (\<lambda>c. if cv_id c = i then f c else c) (bt_conversations db)\<rparr>"

definition update_turn :: "string \<Rightarrow> (turn_row \<Rightarrow> turn_row) \<Rightarrow> bot_tables \<Rightarrow> bot_tables" where
  "update_turn i f db = db\<lparr>bt_turns := map (\<lambda>t. if tn_id (tr_turn t) = i then f t else t) (bt_turns db)\<rparr>"

definition update_attempt :: "string \<Rightarrow> int \<Rightarrow> (attempt_row \<Rightarrow> attempt_row) \<Rightarrow> bot_tables \<Rightarrow> bot_tables" where
  "update_attempt turn ordinal f db =
     db\<lparr>bt_attempts := map (\<lambda>a. if ap_turn_id a = turn \<and> ap_ordinal a = ordinal then f a else a) (bt_attempts db)\<rparr>"

section \<open>Opening conversations and beginning turns\<close>

record open_conversation_input =
  oc_channel :: channel_ref
  oc_created_by :: user_ref
  oc_root_message :: message_ref
  oc_initial_model :: model_id
  oc_agent_name :: string
  oc_provider :: provider_name
  oc_title :: "string option"

definition open_conversation :: "string \<Rightarrow> open_conversation_input \<Rightarrow> bot_tables \<Rightarrow> bot_tables" where
  "open_conversation i inp db =
     db\<lparr>bt_conversations := bt_conversations db @
       [\<lparr>cv_id = i, cv_message_provider = ch_platform (oc_channel inp), cv_channel = channel_key (oc_channel inp),
         cv_created_by_user_key = us_user_id (oc_created_by inp), cv_root_message = message_key_of (oc_root_message inp),
         cv_agent_name = oc_agent_name inp, cv_llm_provider = oc_provider inp, cv_llm_model = oc_initial_model inp,
         cv_title = oc_title inp, cv_stopped_at = None, cv_stopped_by = None,
         cv_next_turn_ordinal = 0, cv_next_response_ordinal = 0\<rparr>]\<rparr>"

record begin_turn_input =
  bg_conversation_id :: string
  bg_user_message :: message_ref
  bg_user_message_created_at :: int
  bg_user :: user_ref
  bg_user_display_name :: string
  bg_user_content :: string

text \<open>What a new turn may see: the responses that were completed when its message was sent.\<close>

definition response_visible :: "int \<Rightarrow> turn_row \<Rightarrow> int option" where
  "response_visible created_at t =
     (case (tn_status (tr_turn t), tr_completed_at t) of
        (TurnCompleted, Some completed_at) \<Rightarrow>
          if completed_at \<le> created_at then tn_response_ordinal (tr_turn t) else None
      | _ \<Rightarrow> None)"

definition option_max :: "int list \<Rightarrow> int option" where
  "option_max xs = (case xs of [] \<Rightarrow> None | x # xs \<Rightarrow> Some (fold max xs x))"

definition history_cutoff :: "string \<Rightarrow> int \<Rightarrow> bot_tables \<Rightarrow> int option" where
  "history_cutoff conversation created_at db =
     option_max (List.map_filter (response_visible created_at) (turns_of conversation db))"

definition begin_turn :: "string \<Rightarrow> begin_turn_input \<Rightarrow> bot_tables \<Rightarrow> stored_turn bot_store_step" where
  "begin_turn i inp db =
     (case find_conversation (bg_conversation_id inp) db of
        None \<Rightarrow> (Inl (SqSqlx ''row not found''), db)
      | Some conv \<Rightarrow>
          (let turn = \<lparr>tn_id = i, tn_ordinal = cv_next_turn_ordinal conv,
                 tn_history_cutoff = history_cutoff (bg_conversation_id inp) (bg_user_message_created_at inp) db,
                 tn_response_ordinal = None, tn_user_display_name = bg_user_display_name inp,
                 tn_user_content = bg_user_content inp, tn_assistant_content = None, tn_status = TurnPending\<rparr> in
           if find_turn i db \<noteq> None
             \<or> list_ex (\<lambda>t. tn_ordinal (tr_turn t) = cv_next_turn_ordinal conv) (turns_of (cv_id conv) db)
           then (Inl (SqSqlx ''unique violation''), db)
           else (Inr turn,
             update_conversation (cv_id conv) (\<lambda>c. c\<lparr>cv_next_turn_ordinal := cv_next_turn_ordinal c + 1\<rparr>)
               (db\<lparr>bt_turns := bt_turns db @
                 [\<lparr>tr_conversation_id = cv_id conv, tr_turn = turn,
                   tr_user_message = message_key_of (bg_user_message inp), tr_user_key = us_user_id (bg_user inp),
                   tr_user_message_created_at = bg_user_message_created_at inp, tr_completed_at = None,
                   tr_assistant_message = None, tr_error = None\<rparr>]\<rparr>))))"

section \<open>The input of an attempt\<close>

record turn_input =
  si_turn_id :: string
  si_explicit_retry_user :: "user_ref option"
  si_agent_name :: string
  si_provider :: provider_name
  si_model :: model_id
  si_context :: "context_item list"
  si_transcript :: transcript

definition canonical_media_uri :: "string \<Rightarrow> bot_store_error + string" where
  "canonical_media_uri uri =
     (case canonical_stored_media_uri uri of Inl _ \<Rightarrow> Inl (SqInvalidMediaUri uri) | Inr c \<Rightarrow> Inr c)"

definition insert_turn_asset :: "string \<Rightarrow> string \<Rightarrow> string \<Rightarrow> int \<Rightarrow> bot_tables \<Rightarrow> bot_store_error + bot_tables" where
  "insert_turn_asset turn uri source ordinal db =
     (case canonical_media_uri uri of
        Inl e \<Rightarrow> Inl e
      | Inr u \<Rightarrow>
          (let same = (\<lambda>a. sa_turn_id a = turn \<and> sa_uri a = u \<and> sa_source a = source) in
           Inr (if list_ex same (bt_assets db)
             then db\<lparr>bt_assets := map (\<lambda>a. if same a then a\<lparr>sa_ordinal := ordinal\<rparr> else a) (bt_assets db)\<rparr>
             else db\<lparr>bt_assets := bt_assets db @
               [\<lparr>sa_turn_id = turn, sa_uri = u, sa_source = source, sa_ordinal = ordinal\<rparr>]\<rparr>)))"

text \<open>The position of a context item is its place in the list.\<close>

definition insert_context_item :: "string \<Rightarrow> bot_tables \<Rightarrow> nat \<times> context_item \<Rightarrow> bot_store_error + bot_tables" where
  "insert_context_item turn db e =
     (if is_stored_media_uri (ci_content (snd e))
      then (case canonical_media_uri (ci_content (snd e)) of
              Inl err \<Rightarrow> Inl err
            | Inr u \<Rightarrow> insert_turn_asset turn u (ci_source (snd e)) (int (fst e)) db)
      else Inr db)"

fun insert_input_block :: "content_block \<Rightarrow> bot_store_error + content_block" where
  "insert_input_block (BlockMedia media) = map_sum id (\<lambda>_. BlockMedia media) (canonical_media_uri (mm_uri (media_metadata_of media)))"
| "insert_input_block block = Inr block"

definition insert_transcript :: "transcript_turn list \<Rightarrow> bot_store_error + transcript_turn list" where
  "insert_transcript turns =
     try_map (\<lambda>turn. map_sum id (\<lambda>blocks. turn\<lparr>tt_blocks := blocks\<rparr>) (try_map insert_input_block (tt_blocks turn))) turns"

definition next_attempt_ordinal :: "string \<Rightarrow> bot_tables \<Rightarrow> int" where
  "next_attempt_ordinal turn db = (case latest_attempt turn db of None \<Rightarrow> 0 | Some a \<Rightarrow> ap_ordinal a + 1)"

definition save_turn_input :: "turn_input \<Rightarrow> bot_tables \<Rightarrow> unit bot_store_step" where
  "save_turn_input inp db =
     (case find_turn (si_turn_id inp) db of
        None \<Rightarrow> (Inl (SqSqlx ''row not found''), db)
      | Some t \<Rightarrow>
          (case find_conversation (tr_conversation_id t) db of
             None \<Rightarrow> (Inl (SqSqlx ''row not found''), db)
           | Some _ \<Rightarrow>
          (case try_fold (insert_context_item (si_turn_id inp)) db (List.enumerate 0 (si_context inp)) of
             Inl e \<Rightarrow> (Inl e, db)
           | Inr db' \<Rightarrow>
          (case insert_transcript (t_turns (si_transcript inp)) of
             Inl e \<Rightarrow> (Inl e, db)
           | Inr stored \<Rightarrow>
             (Inr (), db'\<lparr>bt_attempts := bt_attempts db' @
               [\<lparr>ap_turn_id = si_turn_id inp, ap_ordinal = next_attempt_ordinal (si_turn_id inp) db,
                 ap_agent_name = si_agent_name inp, ap_llm_provider = si_provider inp, ap_llm_model = si_model inp,
                 ap_explicit_retry_user = map_option us_user_id (si_explicit_retry_user inp), ap_status = TurnPending,
                 ap_context = si_context inp, ap_input = stored, ap_traces = [], ap_steps = [],
                 ap_assistant_message = None, ap_assistant_content = None, ap_error = None\<rparr>]\<rparr>)))))"

section \<open>Traces\<close>

fun first_found :: "'a option list \<Rightarrow> 'a option" where
  "first_found [] = None"
| "first_found (Some x # xs) = Some x"
| "first_found (None # xs) = first_found xs"

definition media_uri_member :: "json \<Rightarrow> string option" where
  "media_uri_member v =
     (case Option.bind (or_else (or_else (json_get v ''uri'') (json_get v ''image_uri'')) (json_get v ''video_uri'')) json_as_str of
        None \<Rightarrow> None
      | Some uri \<Rightarrow>
          if is_stored_media_uri uri
          then (case canonical_media_uri uri of Inl _ \<Rightarrow> None | Inr u \<Rightarrow> Some u) else None)"

fun media_uri_from_value :: "json \<Rightarrow> string option" where
  "media_uri_from_value (JObject m) =
     (case media_uri_member (JObject m) of
        Some uri \<Rightarrow> Some uri
      | None \<Rightarrow>
          (let found = map (\<lambda>e. (fst e, media_uri_from_value (snd e))) m in
           first_found (map (\<lambda>key. Option.bind (btm_get found key) id) [''value'', ''content'', ''result'', ''trace_response'']
             @ map snd found)))"
| "media_uri_from_value (JArray values) = first_found (map media_uri_from_value values)"
| "media_uri_from_value _ = None"

definition normalized_client_tool_response :: "client_tool_trace \<Rightarrow> json" where
  "normalized_client_tool_response trace =
     (case ctr_content (ctt_result trace) of
        ResultJson value \<Rightarrow> value
      | ResultText t \<Rightarrow>
          if media_uri_from_value (ctt_trace_response trace) \<noteq> None then ctt_trace_response trace
          else json_object [(''text'', JString t)])"

text \<open>The columns of a trace that decide which asset it leaves: its tool name and its response.\<close>

fun tool_trace_fields :: "tool_trace \<Rightarrow> string option \<times> json option" where
  "tool_trace_fields (TraceClient trace) = (Some (ctc_name (ctt_call trace)), Some (normalized_client_tool_response trace))"
| "tool_trace_fields (TraceServer tool) = (Some (stu_name tool), Some (stu_raw tool))"
| "tool_trace_fields (TraceGrounding metadata) = (None, Some (gm_raw metadata))"

definition tool_trace_media_asset :: "string option \<times> json option \<Rightarrow> (string \<times> string) option" where
  "tool_trace_media_asset columns =
     (case Option.bind (snd columns) media_uri_from_value of
        None \<Rightarrow> None
      | Some uri \<Rightarrow> Some (uri, unwrap_or (fst columns) ''tool_trace''))"

definition latest_attempt_required :: "string \<Rightarrow> bot_tables \<Rightarrow> bot_store_error + attempt_row" where
  "latest_attempt_required turn db =
     (case latest_attempt turn db of None \<Rightarrow> Inl (SqMissingAttempt turn) | Some a \<Rightarrow> Inr a)"

definition append_tool_trace :: "string \<Rightarrow> int \<Rightarrow> tool_trace \<Rightarrow> bot_tables \<Rightarrow> unit bot_store_step" where
  "append_tool_trace turn ordinal trace db =
     (case latest_attempt_required turn db of
        Inl e \<Rightarrow> (Inl e, db)
      | Inr a \<Rightarrow>
          if ordinal \<in> fst ` set (ap_traces a) then (Inl (SqSqlx ''unique violation''), db)
          else (let db' = update_attempt turn (ap_ordinal a) (\<lambda>a. a\<lparr>ap_traces := ap_traces a @ [(ordinal, trace)]\<rparr>) db in
            case tool_trace_media_asset (tool_trace_fields trace) of
              None \<Rightarrow> (Inr (), db')
            | Some (uri, source) \<Rightarrow>
                (case insert_turn_asset turn uri source ordinal db' of Inl e \<Rightarrow> (Inl e, db') | Inr db'' \<Rightarrow> (Inr (), db''))))"

definition append_model_step_trace :: "string \<Rightarrow> model_step_trace \<Rightarrow> bot_tables \<Rightarrow> unit bot_store_step" where
  "append_model_step_trace turn trace db =
     (case latest_attempt_required turn db of
        Inl e \<Rightarrow> (Inl e, db)
      | Inr a \<Rightarrow>
          if mst_ordinal trace \<in> mst_ordinal ` set (ap_steps a) then (Inl (SqSqlx ''unique violation''), db)
          else (Inr (), update_attempt turn (ap_ordinal a) (\<lambda>a. a\<lparr>ap_steps := ap_steps a @ [trace]\<rparr>) db))"

section \<open>Links\<close>

record message_link =
  lk_message :: message_ref
  lk_conversation_id :: string
  lk_turn_id :: string
  lk_role :: string

definition upsert_message_link :: "message_link \<Rightarrow> int option \<Rightarrow> bot_tables \<Rightarrow> bot_tables" where
  "upsert_message_link link attempt db =
     (let row = \<lparr>ml_message = message_key_of (lk_message link), ml_conversation_id = lk_conversation_id link,
            ml_turn_id = lk_turn_id link, ml_attempt = attempt, ml_role = lk_role link\<rparr>;
          same = (\<lambda>l. ml_message l = message_key_of (lk_message link)) in
      db\<lparr>bt_message_links :=
        (if list_ex same (bt_message_links db) then map (\<lambda>l. if same l then row else l) (bt_message_links db)
         else bt_message_links db @ [row])\<rparr>)"

definition link_message :: "message_link \<Rightarrow> bot_tables \<Rightarrow> unit bot_store_step" where
  "link_message link db =
     (if find_conversation (lk_conversation_id link) db = None \<or> find_turn (lk_turn_id link) db = None
      then (Inl (SqSqlx ''foreign key''), db)
      else (Inr (), upsert_message_link link (map_option ap_ordinal (latest_attempt (lk_turn_id link) db)) db))"

record channel_link =
  ck_channel :: channel_ref
  ck_conversation_id :: string
  ck_turn_id :: string
  ck_role :: string

definition link_channel :: "channel_link \<Rightarrow> bot_tables \<Rightarrow> unit bot_store_step" where
  "link_channel link db =
     (let key = channel_key (ck_channel link); provider = ch_platform (ck_channel link);
          row = \<lparr>cl_message_provider = provider, cl_channel = key, cl_conversation_id = ck_conversation_id link,
            cl_turn_id = ck_turn_id link, cl_role = ck_role link\<rparr>;
          same = (\<lambda>l. cl_message_provider l = provider \<and> cl_channel l = key \<and> cl_role l = ck_role link) in
      if find_conversation (ck_conversation_id link) db = None \<or> find_turn (ck_turn_id link) db = None
      then (Inl (SqSqlx ''foreign key''), db)
      else (Inr (), db\<lparr>bt_channel_links :=
        (if list_ex same (bt_channel_links db) then map (\<lambda>l. if same l then row else l) (bt_channel_links db)
         else bt_channel_links db @ [row])\<rparr>))"

definition load_message_link :: "message_ref \<Rightarrow> bot_tables \<Rightarrow> message_link option" where
  "load_message_link message db =
     map_option (\<lambda>l. \<lparr>lk_message = message, lk_conversation_id = ml_conversation_id l, lk_turn_id = ml_turn_id l,
         lk_role = ml_role l\<rparr>)
       (List.find (\<lambda>l. ml_message l = message_key_of message) (bt_message_links db))"

text \<open>Links are in the order they were made.\<close>

definition load_message_links_for_turn :: "string \<Rightarrow> bot_tables \<Rightarrow> message_link list" where
  "load_message_links_for_turn turn db =
     map (\<lambda>l. \<lparr>lk_message = message_ref_of (ml_message l), lk_conversation_id = ml_conversation_id l, lk_turn_id = turn,
         lk_role = ml_role l\<rparr>)
       (filter (\<lambda>l. ml_turn_id l = turn) (bt_message_links db))"

definition conversation_id_for_message :: "message_ref \<Rightarrow> bot_tables \<Rightarrow> string option" where
  "conversation_id_for_message message db =
     map_option ml_conversation_id (List.find (\<lambda>l. ml_message l = message_key_of message) (bt_message_links db))"

definition conversation_id_for_channel :: "channel_ref \<Rightarrow> bot_tables \<Rightarrow> string option" where
  "conversation_id_for_channel channel db =
     map_option cl_conversation_id
       (List.find (\<lambda>l. cl_message_provider l = ch_platform channel \<and> cl_channel l = channel_key channel)
         (rev (bt_channel_links db)))"

section \<open>Finishing a turn\<close>

datatype turn_finish =
    FinishCompleted string string message_ref "usage_record list"
  | FinishFailed string string "string option" "message_ref option" "usage_record list"
  | FinishCancelled string string "usage_record list"

text \<open>\<open>None\<close>: the turn has no attempt, and the statement that looks it up fails.\<close>

definition update_latest_attempt ::
  "string \<Rightarrow> turn_status \<Rightarrow> message_ref option \<Rightarrow> string option \<Rightarrow> string option \<Rightarrow> bot_tables \<Rightarrow> bot_tables option" where
  "update_latest_attempt turn status message content err db =
     map_option (\<lambda>a. update_attempt turn (ap_ordinal a)
         (\<lambda>a. a\<lparr>ap_status := status, ap_assistant_message := map_option message_key_of message,
            ap_assistant_content := content, ap_error := err\<rparr>) db)
       (latest_attempt turn db)"

definition insert_usage :: "string \<Rightarrow> string \<Rightarrow> usage_record list \<Rightarrow> bot_tables \<Rightarrow> bot_tables" where
  "insert_usage conversation turn records db =
     db\<lparr>bt_usage := bt_usage db @ map (\<lambda>r. \<lparr>uw_conversation_id = conversation, uw_turn_id = turn,
         uw_attempt = map_option ap_ordinal (latest_attempt turn db), uw_record = r\<rparr>) records\<rparr>"

definition close_attempt ::
  "turn_row \<Rightarrow> turn_status \<Rightarrow> message_ref option \<Rightarrow> string option \<Rightarrow> string option \<Rightarrow> usage_record list
    \<Rightarrow> bot_tables \<Rightarrow> bot_tables \<Rightarrow> unit bot_store_step" where
  "close_attempt t status message content err usage db db' =
     (case update_latest_attempt (tn_id (tr_turn t)) status message content err db' of
        None \<Rightarrow> (Inl (SqSqlx ''row not found''), db)
      | Some db'' \<Rightarrow> (Inr (), insert_usage (tr_conversation_id t) (tn_id (tr_turn t)) usage db''))"

fun finish_turn :: "int \<Rightarrow> turn_finish \<Rightarrow> bot_tables \<Rightarrow> unit bot_store_step" where
  "finish_turn now (FinishCompleted turn content message usage) db =
     (case find_turn turn db of
        None \<Rightarrow> (Inl (SqSqlx ''row not found''), db)
      | Some t \<Rightarrow>
     (case find_conversation (tr_conversation_id t) db of
        None \<Rightarrow> (Inl (SqSqlx ''row not found''), db)
      | Some conv \<Rightarrow>
          (let ordinal = cv_next_response_ordinal conv in
           if list_ex (\<lambda>t'. tn_id (tr_turn t') \<noteq> turn \<and> tn_response_ordinal (tr_turn t') = Some ordinal) (turns_of (cv_id conv) db)
           then (Inl (SqSqlx ''unique violation''), db)
           else close_attempt t TurnCompleted (Some message) (Some content) None usage db
             (update_conversation (cv_id conv) (\<lambda>c. c\<lparr>cv_next_response_ordinal := cv_next_response_ordinal c + 1\<rparr>)
               (update_turn turn (\<lambda>t. t\<lparr>tr_turn := (tr_turn t)\<lparr>tn_status := TurnCompleted, tn_response_ordinal := Some ordinal,
                    tn_assistant_content := Some content\<rparr>,
                  tr_completed_at := Some now, tr_assistant_message := Some (message_key_of message), tr_error := None\<rparr>) db)))))"
| "finish_turn now (FinishFailed turn err content message usage) db =
     (case find_turn turn db of
        None \<Rightarrow> (Inl (SqSqlx ''row not found''), db)
      | Some t \<Rightarrow> close_attempt t TurnFailed message content (Some err) usage db
          (update_turn turn (\<lambda>t. t\<lparr>tr_turn := (tr_turn t)\<lparr>tn_status := TurnFailed, tn_assistant_content := content\<rparr>,
             tr_completed_at := Some now, tr_assistant_message := map_option message_key_of message, tr_error := Some err\<rparr>) db))"
| "finish_turn now (FinishCancelled turn reason usage) db =
     (case find_turn turn db of
        None \<Rightarrow> (Inl (SqSqlx ''row not found''), db)
      | Some t \<Rightarrow> close_attempt t TurnCancelled None None (Some reason) usage db
          (update_turn turn (\<lambda>t. t\<lparr>tr_turn := (tr_turn t)\<lparr>tn_status := TurnCancelled\<rparr>, tr_completed_at := Some now,
             tr_error := Some reason\<rparr>) db))"

section \<open>Retries and stops\<close>

text \<open>Only a failed turn of a conversation that is not stopped is prepared for a retry.\<close>

definition retry_eligible :: "string \<Rightarrow> bot_tables \<Rightarrow> turn_row option" where
  "retry_eligible turn db =
     (case find_turn turn db of
        None \<Rightarrow> None
      | Some t \<Rightarrow>
          if tn_status (tr_turn t) = TurnFailed
            \<and> (case find_conversation (tr_conversation_id t) db of None \<Rightarrow> False | Some c \<Rightarrow> cv_stopped_at c = None)
          then Some t else None)"

definition reset_turn :: "string \<Rightarrow> bot_tables \<Rightarrow> bot_tables" where
  "reset_turn turn = update_turn turn (\<lambda>t. t\<lparr>tr_turn := (tr_turn t)\<lparr>tn_status := TurnPending, tn_assistant_content := None\<rparr>,
     tr_completed_at := None, tr_assistant_message := None, tr_error := None\<rparr>)"

datatype conversation_stop =
    StopConversation string user_ref
  | ResumeConversation string

text \<open>Whether a row was updated.\<close>

fun set_conversation_stop :: "int \<Rightarrow> conversation_stop \<Rightarrow> bot_tables \<Rightarrow> bool bot_store_step" where
  "set_conversation_stop now (StopConversation conversation by) db =
     (Inr (find_conversation conversation db \<noteq> None),
      update_conversation conversation (\<lambda>c. c\<lparr>
        cv_stopped_at := (case cv_stopped_at c of Some at \<Rightarrow> Some at | None \<Rightarrow> Some now),
        cv_stopped_by := Some (us_platform by, us_user_id by)\<rparr>) db)"
| "set_conversation_stop now (ResumeConversation conversation) db =
     (Inr (find_conversation conversation db \<noteq> None),
      update_conversation conversation (\<lambda>c. c\<lparr>cv_stopped_at := None, cv_stopped_by := None\<rparr>) db)"

definition set_conversation_title :: "string \<Rightarrow> string \<Rightarrow> bot_tables \<Rightarrow> bot_tables" where
  "set_conversation_title conversation title =
     update_conversation conversation (\<lambda>c. c\<lparr>cv_title := Some title\<rparr>)"

section \<open>Agent selections\<close>

record resolve_agent_input =
  ra_message_provider :: string
  ra_conversation_id :: "string option"
  ra_guild_key :: "string option"
  ra_channel_key :: string
  ra_user_key :: string

definition selection_order :: "resolve_agent_input \<Rightarrow> selection_key list" where
  "selection_order inp =
     (case ra_conversation_id inp of None \<Rightarrow> [] | Some c \<Rightarrow> [ConversationKey c])
     @ (case ra_guild_key inp of None \<Rightarrow> [] | Some guild \<Rightarrow> [UserKey (ra_message_provider inp) (guild_scope guild) (ra_user_key inp)])
     @ [ChannelKey (ra_message_provider inp) (selection_channel_key (ra_guild_key inp) (ra_channel_key inp))]
     @ (case ra_guild_key inp of
          None \<Rightarrow> []
        | Some guild \<Rightarrow> [ChannelKey (ra_message_provider inp) (selection_channel_key None (ra_channel_key inp)),
            ChannelKey (ra_message_provider inp) (guild_scope guild)])
     @ [ProviderKey (ra_message_provider inp)]"

definition resolve_agent :: "resolve_agent_input \<Rightarrow> bot_tables \<Rightarrow> string option" where
  "resolve_agent inp db = first_found (map (bt_selections db) (selection_order inp))"

datatype agent_selection =
    SelectConversation string
  | SelectUser string string string
  | SelectChannel string "string option" string
  | SelectGuild string string
  | SelectPlatform string

fun selection_key_of :: "agent_selection \<Rightarrow> selection_key" where
  "selection_key_of (SelectConversation c) = ConversationKey c"
| "selection_key_of (SelectUser provider guild user) = UserKey provider (guild_scope guild) user"
| "selection_key_of (SelectChannel provider guild channel) = ChannelKey provider (selection_channel_key guild channel)"
| "selection_key_of (SelectGuild provider guild) = ChannelKey provider (guild_scope guild)"
| "selection_key_of (SelectPlatform provider) = ProviderKey provider"

definition load_agent_selection :: "agent_selection \<Rightarrow> bot_tables \<Rightarrow> string option" where
  "load_agent_selection selection db = bt_selections db (selection_key_of selection)"

definition set_agent_selection :: "agent_selection \<Rightarrow> string \<Rightarrow> bot_tables \<Rightarrow> bot_tables" where
  "set_agent_selection selection agent db =
     db\<lparr>bt_selections := (bt_selections db)(selection_key_of selection \<mapsto> agent)\<rparr>"

text \<open>Whether there was one.\<close>

definition clear_agent_selection :: "agent_selection \<Rightarrow> bot_tables \<Rightarrow> bool bot_store_step" where
  "clear_agent_selection selection db =
     (Inr (bt_selections db (selection_key_of selection) \<noteq> None),
      db\<lparr>bt_selections := (bt_selections db)(selection_key_of selection := None)\<rparr>)"

section \<open>The prompt in effect\<close>

record stored_prompt_marker =
  sp_turn_ordinal :: int
  sp_attempt_ordinal :: int
  sp_part_key :: "string option"
  sp_part_ordinal :: int
  sp_text :: string

record prompt_state_boundary =
  sb_turn_ordinal :: int
  sb_attempt_ordinal :: "int option"

text \<open>An integer literal in the range of \<open>i32\<close>.\<close>

fun marker_ordinal :: "json \<Rightarrow> int option" where
  "marker_ordinal (JNumber n) = parse_i32 n"
| "marker_ordinal _ = None"

fun first_text :: "content_block list \<Rightarrow> string option" where
  "first_text [] = None"
| "first_text (BlockText t # blocks) = Some t"
| "first_text (_ # blocks) = first_text blocks"

definition instruction_message :: "transcript_turn \<Rightarrow> bool" where
  "instruction_message turn \<longleftrightarrow>
     tt_role turn = System
     \<and> json_get (tt_metadata turn) ''agent_instructions'' \<in> {Some (JBool True), Some (JString ''true'')}"

definition prompt_marker :: "int \<Rightarrow> int \<Rightarrow> nat \<times> transcript_turn \<Rightarrow> stored_prompt_marker option" where
  "prompt_marker turn_ordinal attempt_ordinal e =
     (let metadata = tt_metadata (snd e) in
      if \<not> instruction_message (snd e) then None
      else case first_text (tt_blocks (snd e)) of
        None \<Rightarrow> None
      | Some t \<Rightarrow> Some \<lparr>sp_turn_ordinal = turn_ordinal, sp_attempt_ordinal = attempt_ordinal,
          sp_part_key =
            (if Option.bind (json_get metadata ''agent_instruction_part'') json_as_bool = Some True
             then Option.bind (json_get metadata ''agent_instruction_part_key'') json_as_str else None),
          sp_part_ordinal = unwrap_or (Option.bind (json_get metadata ''agent_instruction_part_ordinal'') marker_ordinal) (int (fst e)),
          sp_text = t\<rparr>)"

definition stored_prompt_markers :: "string \<Rightarrow> bot_tables \<Rightarrow> stored_prompt_marker list" where
  "stored_prompt_markers conversation db =
     concat (map (\<lambda>t. concat (map (\<lambda>a.
         List.map_filter (prompt_marker (tn_ordinal (tr_turn t)) (ap_ordinal a)) (List.enumerate 0 (ap_input a)))
         (attempts_of (tn_id (tr_turn t)) db)))
       (sort_key (\<lambda>t. tn_ordinal (tr_turn t)) (turns_of conversation db)))"

definition prompt_marker_is_visible_at_boundary :: "prompt_state_boundary \<Rightarrow> stored_prompt_marker \<Rightarrow> bool" where
  "prompt_marker_is_visible_at_boundary boundary marker \<longleftrightarrow>
     sp_turn_ordinal marker < sb_turn_ordinal boundary
     \<or> sp_turn_ordinal marker = sb_turn_ordinal boundary
       \<and> (case sb_attempt_ordinal boundary of None \<Rightarrow> False | Some n \<Rightarrow> sp_attempt_ordinal marker \<le> n)"

text \<open>The markers are replayed: a legacy text replaces the whole prompt, a labelled part only itself.\<close>

datatype prompt_replay =
    PromptText "string option"
  | PromptParts "(string, instruction_part_snapshot) btree_map"

fun apply_prompt_marker :: "stored_prompt_marker \<Rightarrow> prompt_replay \<Rightarrow> prompt_replay" where
  "apply_prompt_marker marker state =
     (case sp_part_key marker of
        None \<Rightarrow> PromptText (Some (sp_text marker))
      | Some key \<Rightarrow> PromptParts (btm_insert key
          \<lparr>ips_key = key, ips_ordinal = sp_part_ordinal marker, ips_text = sp_text marker\<rparr>
          (case state of PromptParts parts \<Rightarrow> parts | PromptText _ \<Rightarrow> [])))"

fun prompt_snapshot :: "prompt_replay \<Rightarrow> agent_instruction_snapshot option" where
  "prompt_snapshot (PromptText t) = map_option LegacyInstructions t"
| "prompt_snapshot (PromptParts parts) = Some (InstructionParts (sort_key ips_ordinal (map snd parts)))"

definition stored_agent_instruction_state_at_boundary ::
  "stored_prompt_marker list \<Rightarrow> prompt_state_boundary \<Rightarrow> agent_instruction_snapshot option" where
  "stored_agent_instruction_state_at_boundary markers boundary =
     prompt_snapshot (fold apply_prompt_marker (filter (prompt_marker_is_visible_at_boundary boundary) markers) (PromptText None))"

section \<open>Snapshots\<close>

definition turn_boundary :: "turn_row \<Rightarrow> bot_tables \<Rightarrow> prompt_state_boundary" where
  "turn_boundary t db =
     \<lparr>sb_turn_ordinal = tn_ordinal (tr_turn t),
      sb_attempt_ordinal = map_option ap_ordinal (latest_attempt (tn_id (tr_turn t)) db)\<rparr>"

text \<open>The text of the last visible marker, the fallback for a turn without a state.\<close>

definition attempt_agent_instruction_text :: "stored_prompt_marker list \<Rightarrow> prompt_state_boundary \<Rightarrow> string option" where
  "attempt_agent_instruction_text markers boundary =
     (case rev (filter (prompt_marker_is_visible_at_boundary boundary) markers) of [] \<Rightarrow> None | m # _ \<Rightarrow> Some (sp_text m))"

definition load_turn_snapshot :: "stored_prompt_marker list \<Rightarrow> bot_tables \<Rightarrow> turn_row \<Rightarrow> turn_snapshot" where
  "load_turn_snapshot markers db t =
     (let turn = tn_id (tr_turn t); boundary = turn_boundary t db; latest = latest_attempt turn db in
      \<lparr>ts_turn = tr_turn t,
       ts_agent_instructions =
         (case stored_agent_instruction_state_at_boundary markers boundary of
            Some state \<Rightarrow> Some state
          | None \<Rightarrow> map_option LegacyInstructions (attempt_agent_instruction_text markers boundary)),
       ts_context = (case latest of None \<Rightarrow> [] | Some a \<Rightarrow> ap_context a),
       ts_tool_trace = (case latest of None \<Rightarrow> [] | Some a \<Rightarrow> map snd (sort_key fst (ap_traces a))),
       ts_model_steps = (case latest of None \<Rightarrow> [] | Some a \<Rightarrow> sort_key mst_ordinal (ap_steps a)),
       ts_replay_assets = map (\<lambda>a. \<lparr>ta_uri = sa_uri a, ta_source = sa_source a\<rparr>)
         (sort_key sa_ordinal (filter (\<lambda>a. sa_turn_id a = turn) (bt_assets db)))\<rparr>)"

definition load_snapshot :: "string \<Rightarrow> bot_tables \<Rightarrow> (conversation_row \<times> conversation_snapshot) option" where
  "load_snapshot i db =
     map_option (\<lambda>c. (c, \<lparr>cs_conversation_id = i,
         cs_turns = map (load_turn_snapshot (stored_prompt_markers i db) db)
           (sort_key (\<lambda>t. tn_ordinal (tr_turn t)) (turns_of i db))\<rparr>))
       (find_conversation i db)"

datatype conversation_lookup =
    LookupId string
  | LookupMessage message_ref
  | LookupChannel channel_ref

fun lookup_id :: "conversation_lookup \<Rightarrow> bot_tables \<Rightarrow> string option" where
  "lookup_id (LookupId i) db = Some i"
| "lookup_id (LookupMessage message) db = conversation_id_for_message message db"
| "lookup_id (LookupChannel channel) db = conversation_id_for_channel channel db"

definition load_conversation :: "conversation_lookup \<Rightarrow> bot_tables \<Rightarrow> (conversation_row \<times> conversation_snapshot) option" where
  "load_conversation lookup db = Option.bind (lookup_id lookup db) (\<lambda>i. load_snapshot i db)"

text \<open>The retried conversation is read after its turn was reset.\<close>

definition prepare_retry :: "string \<Rightarrow> bot_tables \<Rightarrow> (conversation_row \<times> conversation_snapshot) option bot_store_step" where
  "prepare_retry turn db =
     (case retry_eligible turn db of
        None \<Rightarrow> (Inr None, db)
      | Some t \<Rightarrow> (Inr (load_snapshot (tr_conversation_id t) (reset_turn turn db)), reset_turn turn db))"

end
