(* ===== verification/Bot_Prompt.thy ===== *)
theory Bot_Prompt
  imports Store_Turns
begin

text \<open>
  The prompt of a turn: what the bot writes in front of a turn when the labelled parts of its instructions differ from
  the prompt the conversation has stored (the end of \<open>chudbot-bot/src/turns.rs\<close>, with the parts of
  \<open>agents/conversation.rs\<close>).
\<close>

section \<open>Rendered parts\<close>

record rendered_part =
  rp_key :: string
  rp_ordinal :: int
  rp_text :: string
  rp_update_text :: "string option"

definition rendered_part_new :: "int \<Rightarrow> string \<Rightarrow> string \<Rightarrow> rendered_part" where
  "rendered_part_new ordinal key t = \<lparr>rp_key = key, rp_ordinal = ordinal, rp_text = t, rp_update_text = None\<rparr>"

definition matches_persisted_text :: "rendered_part \<Rightarrow> string \<Rightarrow> bool" where
  "matches_persisted_text part t \<longleftrightarrow> rp_text part = t \<or> rp_update_text part = Some t"

definition join_agent_instruction_parts :: "rendered_part list \<Rightarrow> string" where
  "join_agent_instruction_parts parts = concat (map rp_text parts)"

section \<open>The stored prompt\<close>

datatype stored_instruction_state =
    StoredNone
  | StoredLegacy string
  | StoredParts "instruction_part_snapshot list"

definition stored_agent_instruction_state_from_turn :: "turn_snapshot \<Rightarrow> stored_instruction_state option" where
  "stored_agent_instruction_state_from_turn snap =
     (case ts_agent_instructions snap of
        None \<Rightarrow> None
      | Some (InstructionParts parts) \<Rightarrow> Some (StoredParts parts)
      | Some (LegacyInstructions t) \<Rightarrow> Some (StoredLegacy t))"

definition stored_agent_instruction_state_before_turn ::
  "conversation_snapshot \<Rightarrow> string \<Rightarrow> stored_instruction_state" where
  "stored_agent_instruction_state_before_turn snapshot turn_id =
     (case List.find (\<lambda>snap. tn_id (ts_turn snap) = turn_id) (cs_turns snapshot) of
        None \<Rightarrow> StoredNone
      | Some current \<Rightarrow>
          unwrap_or (first_found (map stored_agent_instruction_state_from_turn
            (filter (\<lambda>snap. tn_ordinal (ts_turn snap) < tn_ordinal (ts_turn current)) (rev (cs_turns snapshot))))) StoredNone)"

fun legacy_text :: "stored_instruction_state \<Rightarrow> string option" where
  "legacy_text (StoredLegacy t) = Some t"
| "legacy_text _ = None"

fun labeled_part :: "stored_instruction_state \<Rightarrow> string \<Rightarrow> instruction_part_snapshot option" where
  "labeled_part (StoredParts parts) key = List.find (\<lambda>part. ips_key part = key) parts"
| "labeled_part _ key = None"

section \<open>Changed parts\<close>

definition part_differs :: "(string, instruction_part_snapshot) btree_map \<Rightarrow> rendered_part \<Rightarrow> bool" where
  "part_differs previous part \<longleftrightarrow>
     (case btm_get previous (rp_key part) of
        None \<Rightarrow> True
      | Some p \<Rightarrow> ips_ordinal p \<noteq> rp_ordinal part \<or> \<not> matches_persisted_text part (ips_text p))"

fun changed_agent_instruction_parts :: "rendered_part list \<Rightarrow> stored_instruction_state \<Rightarrow> rendered_part list" where
  "changed_agent_instruction_parts current (StoredParts previous) =
     filter (part_differs (btm_of_list (map (\<lambda>p. (ips_key p, p)) previous))) current"
| "changed_agent_instruction_parts current (StoredLegacy previous) =
     (if previous = join_agent_instruction_parts current then [] else filter (\<lambda>part. rp_text part \<noteq> []) current)"
| "changed_agent_instruction_parts current StoredNone = filter (\<lambda>part. rp_text part \<noteq> []) current"

definition agent_instruction_part_marker_text :: "stored_instruction_state \<Rightarrow> rendered_part \<Rightarrow> string" where
  "agent_instruction_part_marker_text previous part =
     (case labeled_part previous (rp_key part) of
        None \<Rightarrow> rp_text part
      | Some p \<Rightarrow>
          if matches_persisted_text part (ips_text p) then rp_text part else unwrap_or (rp_update_text part) (rp_text part))"

section \<open>Where the current turn starts\<close>

fun back_over_system :: "transcript_turn list \<Rightarrow> nat \<Rightarrow> nat" where
  "back_over_system turns 0 = 0"
| "back_over_system turns (Suc i) =
     (if i < length turns \<and> tt_role (turns ! i) = System then back_over_system turns i else Suc i)"

fun position :: "('a \<Rightarrow> bool) \<Rightarrow> 'a list \<Rightarrow> nat option" where
  "position P [] = None"
| "position P (x # xs) = (if P x then Some 0 else map_option Suc (position P xs))"

definition rposition :: "('a \<Rightarrow> bool) \<Rightarrow> 'a list \<Rightarrow> nat option" where
  "rposition P xs = map_option (\<lambda>i. length xs - 1 - i) (position P (rev xs))"

definition current_context_start_index_without_metadata :: "transcript_turn list \<Rightarrow> nat option" where
  "current_context_start_index_without_metadata turns =
     map_option (back_over_system turns) (rposition (\<lambda>turn. tt_role turn = User) turns)"

definition metadata_id :: "transcript_turn \<Rightarrow> string option" where
  "metadata_id turn = Option.bind (json_get (tt_metadata turn) ''id'') json_as_str"

definition current_turn_context_start_index :: "transcript_turn list \<Rightarrow> string \<Rightarrow> nat" where
  "current_turn_context_start_index turns turn_id =
     (let at = (\<lambda>turn. metadata_id turn \<in> {Some (turn_transcript_message_id turn_id ''system''),
                                              Some (turn_transcript_message_id turn_id ''user'')}) in
      unwrap_or (or_else (position at turns) (current_context_start_index_without_metadata turns)) (length turns))"

definition insert_prompt_turns_before_current_turn ::
  "transcript \<Rightarrow> string \<Rightarrow> transcript_turn list \<Rightarrow> transcript" where
  "insert_prompt_turns_before_current_turn t turn_id prompts =
     (if prompts = [] then t
      else (let i = current_turn_context_start_index (t_turns t) turn_id in
        t\<lparr>t_turns := take i (t_turns t) @ prompts @ drop i (t_turns t)\<rparr>))"

section \<open>Changes in front of the current turn\<close>

definition agent_instruction_change_turn ::
  "string option \<Rightarrow> stored_instruction_state \<Rightarrow> string \<Rightarrow> rendered_part \<Rightarrow> transcript_turn" where
  "agent_instruction_change_turn transcript_id previous turn_id part =
     (let prompt_turn = agent_instruction_part_turn transcript_id (rp_key part) (rp_ordinal part)
            (agent_instruction_part_marker_text previous part) in
      if previous \<noteq> StoredNone
      then set_transcript_message_id prompt_turn (turn_agent_instruction_message_id turn_id (Some (rp_key part)))
      else prompt_turn)"

definition insert_agent_instruction_part_changes_before_current_turn ::
  "transcript \<Rightarrow> rendered_part list \<Rightarrow> stored_instruction_state \<Rightarrow> string \<Rightarrow> transcript \<times> nat" where
  "insert_agent_instruction_part_changes_before_current_turn t current previous turn_id =
     (let parts = changed_agent_instruction_parts current previous in
      (insert_prompt_turns_before_current_turn t turn_id
         (map (agent_instruction_change_turn (t_id t) previous turn_id) (sort_key rp_ordinal parts)),
       length parts))"

definition insert_legacy_agent_instruction_change_before_current_turn ::
  "transcript \<Rightarrow> string \<Rightarrow> string option \<Rightarrow> string \<Rightarrow> transcript \<times> bool" where
  "insert_legacy_agent_instruction_change_before_current_turn t current previous turn_id =
     (let changed = (case previous of Some p \<Rightarrow> p \<noteq> current | None \<Rightarrow> current \<noteq> []);
          prompt_turn = agent_instructions_turn (t_id t) current in
      if \<not> changed then (t, False)
      else (insert_prompt_turns_before_current_turn t turn_id
         [if previous \<noteq> None then set_transcript_message_id prompt_turn (turn_agent_instruction_message_id turn_id None)
          else prompt_turn], True))"

definition agent_instruction_part_from_snapshot :: "instruction_part_snapshot \<Rightarrow> rendered_part" where
  "agent_instruction_part_from_snapshot part = rendered_part_new (ips_ordinal part) (ips_key part) (ips_text part)"

definition effective_agent_instruction_parts_from_snapshot ::
  "turn_snapshot \<Rightarrow> rendered_part list \<Rightarrow> rendered_part list" where
  "effective_agent_instruction_parts_from_snapshot snap fallback =
     (case ts_agent_instructions snap of
        Some (InstructionParts parts) \<Rightarrow> map agent_instruction_part_from_snapshot parts
      | Some (LegacyInstructions t) \<Rightarrow> [rendered_part_new 0 ''legacy'' t]
      | None \<Rightarrow> fallback)"

end
