(* ===== verification/Store_Turns_Props.thy ===== *)
theory Store_Turns_Props
  imports Store_Turns
begin

text \<open>
  The conversations of a deployment as a state machine over the tables: turns begin, record their input and traces, end
  in any of three ways and are retried, in every order. The invariant says how turns and responses are numbered.
\<close>

section \<open>Steps\<close>

definition no_bot_tables :: bot_tables where
  "no_bot_tables = \<lparr>bt_conversations = [], bt_turns = [], bt_attempts = [], bt_message_links = [], bt_channel_links = [],
     bt_assets = [], bt_usage = [], bt_selections = (\<lambda>_. None)\<rparr>"

text \<open>What leaves conversations and turns alone.\<close>

definition same_turns :: "bot_tables \<Rightarrow> bot_tables \<Rightarrow> bool" where
  "same_turns db db' \<longleftrightarrow> bt_conversations db' = bt_conversations db \<and> bt_turns db' = bt_turns db"

inductive bot_step :: "bot_tables \<Rightarrow> bot_tables \<Rightarrow> bool" where
  step_open: "find_conversation i db = None \<Longrightarrow> bot_step db (open_conversation i inp db)"
| step_begin: "begin_turn i inp db = (began, db') \<Longrightarrow> bot_step db db'"
| step_save: "save_turn_input saved db = (r, db') \<Longrightarrow> bot_step db db'"
| step_trace: "append_tool_trace turn_id ordinal trace db = (r, db') \<Longrightarrow> bot_step db db'"
| step_model: "append_model_step_trace turn_id model_step db = (r, db') \<Longrightarrow> bot_step db db'"
| step_link: "link_message link db = (r, db') \<Longrightarrow> bot_step db db'"
| step_channel: "link_channel clink db = (r, db') \<Longrightarrow> bot_step db db'"
| step_finish: "finish_turn now ending db = (r, db') \<Longrightarrow> bot_step db db'"
| step_retry: "prepare_retry turn_id db = (retried, db') \<Longrightarrow> bot_step db db'"
| step_stop: "set_conversation_stop now stop db = (stopped, db') \<Longrightarrow> bot_step db db'"
| step_title: "bot_step db (set_conversation_title conversation title db)"
| step_select: "bot_step db (set_agent_selection selection agent db)"
| step_clear: "clear_agent_selection selection db = (cleared, db') \<Longrightarrow> bot_step db db'"

inductive bot_reach :: "bot_tables \<Rightarrow> bool" where
  reach_none: "bot_reach no_bot_tables"
| reach_step: "bot_reach db \<Longrightarrow> bot_step db db' \<Longrightarrow> bot_reach db'"

inductive bot_steps :: "bot_tables \<Rightarrow> bot_tables \<Rightarrow> bool" where
  steps_none: "bot_steps db db"
| steps_step: "bot_steps db db' \<Longrightarrow> bot_step db' db'' \<Longrightarrow> bot_steps db db''"

section \<open>What the operations change\<close>

lemma same_turns_refl [simp]: "same_turns db db"
  by (simp add: same_turns_def)

lemma same_turns_trans: "same_turns a b \<Longrightarrow> same_turns b c \<Longrightarrow> same_turns a c"
  by (simp add: same_turns_def)

lemma insert_turn_asset_same: "insert_turn_asset turn uri source ordinal db = Inr db' \<Longrightarrow> same_turns db db'"
  by (auto simp: insert_turn_asset_def same_turns_def Let_def split: sum.splits if_splits)

lemma insert_context_item_same: "insert_context_item turn db e = Inr db' \<Longrightarrow> same_turns db db'"
  by (auto simp: insert_context_item_def dest: insert_turn_asset_same split: sum.splits if_splits)

lemma context_items_same: "try_fold (insert_context_item turn) db es = Inr db' \<Longrightarrow> same_turns db db'"
  by (induction es arbitrary: db)
    (auto intro: same_turns_trans dest: insert_context_item_same split: sum.splits)

lemma update_attempt_same [simp]: "same_turns db (update_attempt turn n f db)"
  by (simp add: same_turns_def update_attempt_def)

lemma save_turn_input_same: "save_turn_input inp db = (r, db') \<Longrightarrow> same_turns db db'"
  by (auto simp: save_turn_input_def same_turns_def dest!: context_items_same split: option.splits sum.splits)

lemma append_tool_trace_same: "append_tool_trace turn n trace db = (r, db') \<Longrightarrow> same_turns db db'"
  by (auto simp: append_tool_trace_def Let_def dest!: insert_turn_asset_same intro: same_turns_trans [OF update_attempt_same]
      split: sum.splits option.splits if_splits prod.splits)

lemma append_model_step_trace_same: "append_model_step_trace turn trace db = (r, db') \<Longrightarrow> same_turns db db'"
  by (auto simp: append_model_step_trace_def split: sum.splits if_splits)

lemma link_message_same: "link_message link db = (r, db') \<Longrightarrow> same_turns db db'"
  by (auto simp: link_message_def upsert_message_link_def same_turns_def Let_def split: if_splits)

lemma link_channel_same: "link_channel link db = (r, db') \<Longrightarrow> same_turns db db'"
  by (auto simp: link_channel_def same_turns_def Let_def split: if_splits)

lemma selections_same:
  "same_turns db (set_agent_selection selection agent db)"
  "clear_agent_selection selection db = (r, db') \<Longrightarrow> same_turns db db'"
  by (auto simp: set_agent_selection_def clear_agent_selection_def same_turns_def)

lemma close_attempt_turns:
  assumes "close_attempt t status message content err usage db db' = (r, db'')"
  shows "db'' = db \<or> same_turns db' db''"
  using assms
  by (auto simp: close_attempt_def update_latest_attempt_def insert_usage_def same_turns_def update_attempt_def
      split: option.splits)

section \<open>Numbering\<close>

definition turn_response :: "turn_row \<Rightarrow> int option" where
  "turn_response t = tn_response_ordinal (tr_turn t)"

text \<open>
  The turns of a conversation are numbered in the order they began, its responses without gaps being reused: every
  number given out lies below the next one, and no two turns share one.
\<close>

definition sees_earlier :: "turn_row list \<Rightarrow> bool" where
  "sees_earlier turns \<longleftrightarrow>
     (\<forall>t \<in> set turns. \<forall>s \<in> set turns. \<forall>m n. tn_history_cutoff (tr_turn t) = Some m \<longrightarrow> turn_response s = Some n \<longrightarrow> n \<le> m
        \<longrightarrow> tn_ordinal (tr_turn s) < tn_ordinal (tr_turn t))"

definition conversation_numbered :: "conversation_row \<Rightarrow> turn_row list \<Rightarrow> bool" where
  "conversation_numbered c turns \<longleftrightarrow>
     map (\<lambda>t. tn_ordinal (tr_turn t)) turns = map int [0..<length turns]
     \<and> cv_next_turn_ordinal c = int (length turns)
     \<and> (\<forall>t \<in> set turns. \<forall>n. turn_response t = Some n \<longrightarrow> 0 \<le> n \<and> n < cv_next_response_ordinal c)
     \<and> distinct (List.map_filter turn_response turns)
     \<and> (\<forall>t \<in> set turns. \<forall>n. tn_history_cutoff (tr_turn t) = Some n \<longrightarrow> n < cv_next_response_ordinal c)
     \<and> sees_earlier turns
     \<and> (\<forall>t \<in> set turns. tn_status (tr_turn t) = TurnCompleted
          \<longrightarrow> turn_response t \<noteq> None \<and> tr_completed_at t \<noteq> None \<and> tn_assistant_content (tr_turn t) \<noteq> None)
     \<and> 0 \<le> cv_next_response_ordinal c"

definition bot_numbered :: "bot_tables \<Rightarrow> bool" where
  "bot_numbered db \<longleftrightarrow>
     distinct (map cv_id (bt_conversations db))
     \<and> distinct (map (\<lambda>t. tn_id (tr_turn t)) (bt_turns db))
     \<and> (\<forall>t \<in> set (bt_turns db). tr_conversation_id t \<in> cv_id ` set (bt_conversations db))
     \<and> (\<forall>c \<in> set (bt_conversations db). conversation_numbered c (turns_of (cv_id c) db))"

lemma numbered_same: "bot_numbered db \<Longrightarrow> same_turns db db' \<Longrightarrow> bot_numbered db'"
  by (simp add: bot_numbered_def same_turns_def turns_of_def)

lemma numbered_none: "bot_numbered no_bot_tables"
  by (simp add: bot_numbered_def no_bot_tables_def)

lemma find_Some: "List.find P xs = Some x \<Longrightarrow> P x \<and> x \<in> set xs"
  by (induction xs) (auto split: if_splits)

lemma find_None: "List.find P xs = None \<longleftrightarrow> (\<forall>x \<in> set xs. \<not> P x)"
  by (induction xs) auto

lemma find_turn_Some: "find_turn i db = Some t \<Longrightarrow> t \<in> set (bt_turns db) \<and> tn_id (tr_turn t) = i"
  by (auto simp: find_turn_def dest: find_Some)

lemma find_conversation_Some: "find_conversation i db = Some c \<Longrightarrow> c \<in> set (bt_conversations db) \<and> cv_id c = i"
  by (auto simp: find_conversation_def dest: find_Some)

lemma turns_of_update_turn:
  assumes "\<And>t. tr_conversation_id (g t) = tr_conversation_id t"
  shows "turns_of c (update_turn i g db) = map (\<lambda>t. if tn_id (tr_turn t) = i then g t else t) (turns_of c db)"
proof -
  have "filter (\<lambda>t. tr_conversation_id t = c) (map (\<lambda>t. if tn_id (tr_turn t) = i then g t else t) ts)
      = map (\<lambda>t. if tn_id (tr_turn t) = i then g t else t) (filter (\<lambda>t. tr_conversation_id t = c) ts)" for ts
    by (induction ts) (simp_all add: assms)
  then show ?thesis by (simp add: turns_of_def update_turn_def)
qed

lemma turns_of_update_conversation [simp]: "turns_of c (update_conversation i f db) = turns_of c db"
  by (simp add: turns_of_def update_conversation_def)

lemma update_turn_tables [simp]:
  "bt_conversations (update_turn i g db) = bt_conversations db"
  "bt_turns (update_conversation i f db) = bt_turns db"
  by (simp_all add: update_turn_def update_conversation_def)

lemma update_ids:
  assumes "\<And>c. cv_id (f c) = cv_id c"
  shows "map cv_id (bt_conversations (update_conversation i f db)) = map cv_id (bt_conversations db)"
    and "cv_id ` set (bt_conversations (update_conversation i f db)) = cv_id ` set (bt_conversations db)"
proof -
  show *: "map cv_id (bt_conversations (update_conversation i f db)) = map cv_id (bt_conversations db)"
    using assms by (simp add: update_conversation_def comp_def if_distrib cong: if_cong)
  show "cv_id ` set (bt_conversations (update_conversation i f db)) = cv_id ` set (bt_conversations db)"
    using arg_cong [OF *, of set] by simp
qed

lemma update_conversation_set:
  "set (bt_conversations (update_conversation i f db)) = (\<lambda>c. if cv_id c = i then f c else c) ` set (bt_conversations db)"
  by (simp add: update_conversation_def)

lemma sees_earlier_map:
  assumes "sees_earlier ts" and "\<And>t. tn_history_cutoff (tr_turn (h t)) = tn_history_cutoff (tr_turn t)"
    and "\<And>t. tn_ordinal (tr_turn (h t)) = tn_ordinal (tr_turn t)"
    and "\<And>s n. s \<in> set ts \<Longrightarrow> turn_response (h s) = Some n
      \<Longrightarrow> turn_response s = Some n \<or> (\<forall>t \<in> set ts. \<forall>m. tn_history_cutoff (tr_turn t) = Some m \<longrightarrow> m < n)"
  shows "sees_earlier (map h ts)"
proof -
  have "tn_ordinal (tr_turn s) < tn_ordinal (tr_turn t)"
    if "t \<in> set ts" "s \<in> set ts" "tn_history_cutoff (tr_turn t) = Some m" "turn_response (h s) = Some n" "n \<le> m" for s t m n
    using assms(1) assms(4) [OF that(2, 4)] that unfolding sees_earlier_def by force
  then show ?thesis by (simp add: sees_earlier_def assms(2, 3))
qed

text \<open>Numbering is kept by what only ends or reopens a turn.\<close>

definition keeps_numbers :: "(turn_row \<Rightarrow> turn_row) \<Rightarrow> bool" where
  "keeps_numbers g \<longleftrightarrow> (\<forall>t. tr_conversation_id (g t) = tr_conversation_id t \<and> tn_id (tr_turn (g t)) = tn_id (tr_turn t)
     \<and> tn_ordinal (tr_turn (g t)) = tn_ordinal (tr_turn t) \<and> turn_response (g t) = turn_response t
     \<and> tn_history_cutoff (tr_turn (g t)) = tn_history_cutoff (tr_turn t) \<and> tn_status (tr_turn (g t)) \<noteq> TurnCompleted)"

lemma map_filter_cong_map: "(\<And>t. f (g t) = f t) \<Longrightarrow> List.map_filter f (map g ts) = List.map_filter f ts"
  by (induction ts) (simp_all add: List.map_filter_simps split: option.split)

lemma numbered_update_turn:
  assumes num: "bot_numbered db" and g: "keeps_numbers g"
  shows "bot_numbered (update_turn i g db)"
proof -
  let ?g = "\<lambda>t. if tn_id (tr_turn t) = i then g t else t"
  have turns: "turns_of c (update_turn i g db) = map ?g (turns_of c db)" for c
    using g by (intro turns_of_update_turn) (simp add: keeps_numbers_def)
  have resp: "turn_response (?g t) = turn_response t" and ord: "tn_ordinal (tr_turn (?g t)) = tn_ordinal (tr_turn t)" for t
    using g by (simp_all add: keeps_numbers_def)
  have sees: "sees_earlier (map ?g ts)" if "sees_earlier ts" for ts
    using that g resp ord by (intro sees_earlier_map) (auto simp: keeps_numbers_def)
  have "conversation_numbered c (map ?g ts)" if "conversation_numbered c ts" for c ts
    using that g resp ord sees unfolding conversation_numbered_def
    by (auto simp: keeps_numbers_def comp_def map_filter_cong_map [of turn_response ?g, OF resp])
  then show ?thesis
    using num g unfolding bot_numbered_def turns
    by (auto simp: update_turn_def keeps_numbers_def comp_def if_distrib cong: if_cong)
qed

lemma numbered_update_conversation:
  assumes num: "bot_numbered db"
    and f: "\<And>c. cv_id (f c) = cv_id c" "\<And>c. cv_next_turn_ordinal (f c) = cv_next_turn_ordinal c"
      "\<And>c. cv_next_response_ordinal (f c) = cv_next_response_ordinal c"
  shows "bot_numbered (update_conversation i f db)"
proof -
  have "conversation_numbered (f c) ts" if "conversation_numbered c ts" for c ts
    using that by (simp add: conversation_numbered_def f)
  then have "conversation_numbered c' (turns_of (cv_id c') db)"
    if "c' \<in> set (bt_conversations (update_conversation i f db))" for c'
    using num that f(1) by (auto simp: update_conversation_set bot_numbered_def)
  with num show ?thesis
    by (simp add: bot_numbered_def update_ids [OF f(1)])
qed

lemma numbered_finish_other:
  assumes num: "bot_numbered db" and g: "keeps_numbers g"
    and closed: "close_attempt t status message content err usage db (update_turn i g db) = (r, db')"
  shows "bot_numbered db'"
  using close_attempt_turns [OF closed] numbered_update_turn [OF num g, of i] num by (auto dest: numbered_same)

section \<open>Completing and beginning turns\<close>

lemma set_map_filter: "set (List.map_filter r ts) = {n. \<exists>t \<in> set ts. r t = Some n}"
  by (induction ts) (auto simp: List.map_filter_simps split: option.split)

lemma distinct_map_filter_update:
  assumes "distinct (map key ts)" "distinct (List.map_filter r ts)" "\<And>t. t \<in> set ts \<Longrightarrow> r t \<noteq> Some n" "\<And>t. r (g t) = Some n"
  shows "distinct (List.map_filter r (map (\<lambda>t. if key t = i then g t else t) ts))"
  using assms
proof (induction ts)
  case (Cons t ts)
  let ?h = "\<lambda>t. if key t = i then g t else t"
  from Cons have IH: "distinct (List.map_filter r (map ?h ts))"
    by (auto simp: List.map_filter_simps split: option.splits)
  show ?case
  proof (cases "key t = i")
    case True
    then have "\<forall>x \<in> set ts. key x \<noteq> i" using Cons.prems(1) by (auto simp: image_iff)
    then have "map ?h ts = ts" by (simp add: map_idI)
    with True Cons.prems show ?thesis by (auto simp: List.map_filter_simps set_map_filter split: option.splits)
  next
    case False
    have "m \<notin> set (List.map_filter r (map ?h ts))" if "r t = Some m" for m
    proof -
      have "m \<noteq> n" using Cons.prems(3) [of t] that by auto
      moreover have "m \<notin> set (List.map_filter r ts)" using Cons.prems(2) that by (simp add: List.map_filter_simps)
      ultimately show ?thesis using Cons.prems(4) by (auto simp: set_map_filter split: if_splits)
    qed
    with False IH show ?thesis by (simp add: List.map_filter_simps split: option.split)
  qed
qed (simp add: List.map_filter_simps)

lemma distinct_map_eq: "distinct (map f xs) \<Longrightarrow> x \<in> set xs \<Longrightarrow> y \<in> set xs \<Longrightarrow> f x = f y \<Longrightarrow> x = y"
  by (auto simp: distinct_map inj_on_def)

lemma distinct_turns_of: "distinct (map f (bt_turns db)) \<Longrightarrow> distinct (map f (turns_of c db))"
  by (simp add: turns_of_def distinct_map_filter)

lemma conversation_numbered_complete:
  assumes num: "conversation_numbered c ts" and ids: "distinct (map (\<lambda>t. tn_id (tr_turn t)) ts)"
    and g: "\<And>t. tn_ordinal (tr_turn (g t)) = tn_ordinal (tr_turn t)"
      "\<And>t. tn_history_cutoff (tr_turn (g t)) = tn_history_cutoff (tr_turn t)"
      "\<And>t. turn_response (g t) = Some (cv_next_response_ordinal c)"
      "\<And>t. tr_completed_at (g t) \<noteq> None" "\<And>t. tn_assistant_content (tr_turn (g t)) \<noteq> None"
  shows "conversation_numbered (c\<lparr>cv_next_response_ordinal := cv_next_response_ordinal c + 1\<rparr>)
    (map (\<lambda>t. if tn_id (tr_turn t) = i then g t else t) ts)"
proof -
  have "distinct (List.map_filter turn_response (map (\<lambda>t. if tn_id (tr_turn t) = i then g t else t) ts))"
    using num ids g(3) by (intro distinct_map_filter_update) (auto simp: conversation_numbered_def)
  moreover have "map (\<lambda>t. tn_ordinal (tr_turn t)) (map (\<lambda>t. if tn_id (tr_turn t) = i then g t else t) ts)
      = map (\<lambda>t. tn_ordinal (tr_turn t)) ts"
    by (simp add: g(1))
  moreover have "sees_earlier (map (\<lambda>t. if tn_id (tr_turn t) = i then g t else t) ts)"
    by (rule sees_earlier_map) (use num g in \<open>auto simp: conversation_numbered_def split: if_splits\<close>)
  ultimately show ?thesis
    using num g(2-5) unfolding conversation_numbered_def by (auto split: if_splits)
qed

lemma numbered_complete:
  fixes g :: "turn_row \<Rightarrow> turn_row"
  assumes num: "bot_numbered db" and t: "find_turn i db = Some t" and c: "find_conversation (tr_conversation_id t) db = Some c"
    and g: "\<And>t. tr_conversation_id (g t) = tr_conversation_id t" "\<And>t. tn_id (tr_turn (g t)) = tn_id (tr_turn t)"
      "\<And>t. tn_ordinal (tr_turn (g t)) = tn_ordinal (tr_turn t)"
      "\<And>t. tn_history_cutoff (tr_turn (g t)) = tn_history_cutoff (tr_turn t)"
      "\<And>t. turn_response (g t) = Some (cv_next_response_ordinal c)"
      "\<And>t. tr_completed_at (g t) \<noteq> None" "\<And>t. tn_assistant_content (tr_turn (g t)) \<noteq> None"
  shows "bot_numbered (update_conversation (cv_id c) (\<lambda>c. c\<lparr>cv_next_response_ordinal := cv_next_response_ordinal c + 1\<rparr>)
    (update_turn i g db))" (is "bot_numbered (update_conversation _ ?f ?db)")
proof -
  have ids: "distinct (map cv_id (bt_conversations db))" "distinct (map (\<lambda>t. tn_id (tr_turn t)) (bt_turns db))"
    using num by (simp_all add: bot_numbered_def)
  have "conversation_numbered c' (turns_of (cv_id c') ?db)"
    if changed: "c' \<in> set (bt_conversations (update_conversation (cv_id c) ?f ?db))" for c'
  proof -
    obtain d where d: "d \<in> set (bt_conversations db)" "c' = (if cv_id d = cv_id c then ?f d else d)"
      using changed by (auto simp: update_conversation_set)
    have numd: "conversation_numbered d (turns_of (cv_id d) db)" using num d(1) by (simp add: bot_numbered_def)
    show ?thesis
    proof (cases "cv_id d = cv_id c")
      case True
      then have "d = c" using distinct_map_eq [OF ids(1)] d(1) find_conversation_Some [OF c] by blast
      with d(2) numd show ?thesis
        using conversation_numbered_complete [OF numd distinct_turns_of [OF ids(2)], of g i] g
        by (simp add: turns_of_update_turn)
    next
      case False
      have "tn_id (tr_turn s) \<noteq> i" if "s \<in> set (turns_of (cv_id d) db)" for s
      proof
        assume "tn_id (tr_turn s) = i"
        then have "s = t" using that find_turn_Some [OF t] distinct_map_eq [OF ids(2), of s t] by (auto simp: turns_of_def)
        then show False using that False find_conversation_Some [OF c] by (simp add: turns_of_def)
      qed
      then have "turns_of (cv_id d) ?db = turns_of (cv_id d) db"
        using g(1) by (simp add: turns_of_update_turn map_idI)
      with False d(2) numd show ?thesis by simp
    qed
  qed
  moreover have "distinct (map (\<lambda>t. tn_id (tr_turn t)) (bt_turns ?db))"
    and "\<forall>s \<in> set (bt_turns ?db). tr_conversation_id s \<in> cv_id ` set (bt_conversations db)"
    using num g(1, 2) by (auto simp: bot_numbered_def update_turn_def comp_def if_distrib cong: if_cong)
  ultimately show ?thesis
    using ids(1) by (simp add: bot_numbered_def update_ids [where f = ?f])
qed

lemma numbered_closed:
  "close_attempt t status message content err usage db db' = (r, db'') \<Longrightarrow> bot_numbered db \<Longrightarrow> bot_numbered db' \<Longrightarrow> bot_numbered db''"
  by (auto dest: close_attempt_turns numbered_same)

lemma numbered_finish: "bot_numbered db \<Longrightarrow> finish_turn now ending db = (r, db') \<Longrightarrow> bot_numbered db'"
proof (induction now ending db rule: finish_turn.induct)
  case (1 now turn content message usage db)
  show ?case
  proof (cases "find_turn turn db")
    case (Some t)
    show ?thesis
    proof (cases "find_conversation (tr_conversation_id t) db")
      case c: (Some c)
      have "bot_numbered (update_conversation (cv_id c) (\<lambda>c. c\<lparr>cv_next_response_ordinal := cv_next_response_ordinal c + 1\<rparr>)
          (update_turn turn (\<lambda>t. t\<lparr>tr_turn := (tr_turn t)\<lparr>tn_status := TurnCompleted,
              tn_response_ordinal := Some (cv_next_response_ordinal c), tn_assistant_content := Some content\<rparr>,
            tr_completed_at := Some now, tr_assistant_message := Some (message_key_of message), tr_error := None\<rparr>) db))"
        by (rule numbered_complete [OF "1.prems"(1) Some c]) (simp_all add: turn_response_def)
      with "1.prems" Some c show ?thesis
        by (auto simp: Let_def split: if_splits elim: numbered_closed)
    qed (use "1.prems" Some in auto)
  qed (use "1.prems" in auto)
next
  case (2 now turn err content message usage db)
  then show ?case
    by (auto split: option.splits elim!: numbered_finish_other [rotated 2] simp: keeps_numbers_def turn_response_def)
next
  case (3 now turn reason usage db)
  then show ?case
    by (auto split: option.splits elim!: numbered_finish_other [rotated 2] simp: keeps_numbers_def turn_response_def)
qed

lemma option_max_in: "option_max xs = Some m \<Longrightarrow> m \<in> set xs"
proof -
  have "fold max xs x \<in> set (x # xs)" for x :: int and xs
  proof (induction xs arbitrary: x)
    case (Cons y xs)
    from Cons [of "max y x"] show ?case by (auto simp: max_def split: if_splits)
  qed simp
  then show "option_max xs = Some m \<Longrightarrow> m \<in> set xs" by (cases xs) (auto simp: option_max_def)
qed

lemma response_visible_Some:
  "response_visible at t = Some n \<Longrightarrow> turn_response t = Some n \<and> tn_status (tr_turn t) = TurnCompleted"
  by (auto simp: response_visible_def turn_response_def split: turn_status.splits option.splits if_splits)

lemma history_cutoff_given: "history_cutoff c at db = Some n \<Longrightarrow> \<exists>t \<in> set (turns_of c db). turn_response t = Some n"
  unfolding history_cutoff_def by (drule option_max_in) (auto simp: set_map_filter dest: response_visible_Some)

lemma conversation_numbered_begin:
  assumes num: "conversation_numbered c ts"
    and t: "tn_ordinal (tr_turn t) = cv_next_turn_ordinal c" "turn_response t = None" "tn_status (tr_turn t) = TurnPending"
      "\<And>n. tn_history_cutoff (tr_turn t) = Some n \<Longrightarrow> n < cv_next_response_ordinal c"
  shows "conversation_numbered (c\<lparr>cv_next_turn_ordinal := cv_next_turn_ordinal c + 1\<rparr>) (ts @ [t])"
proof -
  have "List.map_filter turn_response (ts @ [t]) = List.map_filter turn_response ts"
    using t(2) by (simp add: List.map_filter_def)
  moreover have "tn_ordinal (tr_turn s) < tn_ordinal (tr_turn t)" if "s \<in> set ts" for s
  proof -
    have "tn_ordinal (tr_turn s) \<in> set (map int [0..<length ts])"
      using num that unfolding conversation_numbered_def by (metis image_eqI list.set_map)
    then show ?thesis using num t(1) by (auto simp: conversation_numbered_def)
  qed
  then have "sees_earlier (ts @ [t])" using num t(2) by (auto simp: conversation_numbered_def sees_earlier_def)
  ultimately show ?thesis using assms by (auto simp: conversation_numbered_def)
qed

lemma begin_turn_Inr:
  assumes "begin_turn i inp db = (Inr turn, db')"
  obtains c t where "find_conversation (bg_conversation_id inp) db = Some c" "find_turn i db = None"
    "tr_turn t = turn" "tr_conversation_id t = cv_id c" "tn_id turn = i" "tn_ordinal turn = cv_next_turn_ordinal c"
    "tn_history_cutoff turn = history_cutoff (cv_id c) (bg_user_message_created_at inp) db" "turn_response t = None" "tn_status turn = TurnPending"
    "db' = update_conversation (cv_id c) (\<lambda>c. c\<lparr>cv_next_turn_ordinal := cv_next_turn_ordinal c + 1\<rparr>) (db\<lparr>bt_turns := bt_turns db @ [t]\<rparr>)"
proof (cases "find_conversation (bg_conversation_id inp) db")
  case (Some c)
  with assms show ?thesis
    by (auto simp: begin_turn_def Let_def turn_response_def dest: find_conversation_Some split: if_splits intro!: that)
qed (use assms in \<open>simp add: begin_turn_def\<close>)

lemma numbered_begin:
  assumes num: "bot_numbered db" and "begin_turn i inp db = (Inr turn, db')"
  shows "bot_numbered db'"
  using assms(2)
proof (cases rule: begin_turn_Inr)
  case (1 c t)
  let ?f = "\<lambda>c. c\<lparr>cv_next_turn_ordinal := cv_next_turn_ordinal c + 1\<rparr>" and ?db = "db\<lparr>bt_turns := bt_turns db @ [t]\<rparr>"
  have c: "c \<in> set (bt_conversations db)" using find_conversation_Some [OF 1(1)] by simp
  have numc: "conversation_numbered c (turns_of (cv_id c) db)" using num c by (simp add: bot_numbered_def)
  have cutoff: "n < cv_next_response_ordinal c" if "tn_history_cutoff (tr_turn t) = Some n" for n
    using that 1 numc history_cutoff_given [of "cv_id c" "bg_user_message_created_at inp" db n]
    by (auto simp: conversation_numbered_def)
  have began: "conversation_numbered (?f c) (turns_of (cv_id c) db @ [t])"
    by (rule conversation_numbered_begin [OF numc]) (use 1 cutoff in auto)
  have "conversation_numbered c' (turns_of (cv_id c') db')" if changed: "c' \<in> set (bt_conversations db')" for c'
  proof -
    obtain d where d: "d \<in> set (bt_conversations db)" "c' = (if cv_id d = cv_id c then ?f d else d)"
      using changed 1(10) by (auto simp: update_conversation_set)
    have numd: "conversation_numbered d (turns_of (cv_id d) db)" using num d(1) by (simp add: bot_numbered_def)
    show ?thesis
    proof (cases "cv_id d = cv_id c")
      case True
      then have "d = c" using num c d(1) distinct_map_eq [of cv_id "bt_conversations db" d c] by (simp add: bot_numbered_def)
      moreover have "turns_of (cv_id c) db' = turns_of (cv_id c) db @ [t]" using 1 by (simp add: turns_of_def)
      ultimately show ?thesis using d(2) began by simp
    next
      case False
      with 1 d(2) numd show ?thesis by (simp add: turns_of_def)
    qed
  qed
  moreover have "map cv_id (bt_conversations db') = map cv_id (bt_conversations db)"
    and "cv_id ` set (bt_conversations db') = cv_id ` set (bt_conversations db)"
    using 1(10) by (simp_all add: update_ids [where f = ?f])
  moreover have "bt_turns db' = bt_turns db @ [t]" using 1(10) by simp
  moreover have "tn_id (tr_turn t) \<notin> (\<lambda>t. tn_id (tr_turn t)) ` set (bt_turns db)"
    using 1 by (auto simp: find_turn_def find_None)
  ultimately show ?thesis
    using num 1 c by (auto simp: bot_numbered_def)
qed

lemma begin_turn_same: "begin_turn i inp db = (Inl e, db') \<Longrightarrow> same_turns db db'"
  by (auto simp: begin_turn_def Let_def split: option.splits if_splits)

lemma numbered_begin_any: "bot_numbered db \<Longrightarrow> begin_turn i inp db = (r, db') \<Longrightarrow> bot_numbered db'"
  by (cases r) (auto intro: numbered_begin numbered_same dest: begin_turn_same)

lemma numbered_open:
  assumes num: "bot_numbered db" and fresh: "find_conversation i db = None"
  shows "bot_numbered (open_conversation i inp db)"
proof -
  have new: "i \<notin> cv_id ` set (bt_conversations db)" using fresh by (auto simp: find_conversation_def find_None)
  then have "turns_of i db = []" using num by (auto simp: bot_numbered_def turns_of_def filter_empty_conv)
  with num new show ?thesis
    by (auto simp: bot_numbered_def open_conversation_def turns_of_def conversation_numbered_def sees_earlier_def List.map_filter_simps)
qed

lemma numbered_stop: "bot_numbered db \<Longrightarrow> set_conversation_stop now stop db = (r, db') \<Longrightarrow> bot_numbered db'"
  by (induction now stop db rule: set_conversation_stop.induct) (auto intro!: numbered_update_conversation)

lemma numbered_retry: "bot_numbered db \<Longrightarrow> prepare_retry turn db = (r, db') \<Longrightarrow> bot_numbered db'"
  by (auto simp: prepare_retry_def reset_turn_def keeps_numbers_def turn_response_def intro!: numbered_update_turn
      split: option.splits)

lemma numbered_title: "bot_numbered db \<Longrightarrow> bot_numbered (set_conversation_title conversation title db)"
  by (simp add: set_conversation_title_def numbered_update_conversation)

lemma numbered_step: "bot_step db db' \<Longrightarrow> bot_numbered db \<Longrightarrow> bot_numbered db'"
  by (induction rule: bot_step.induct)
    (auto intro: numbered_open numbered_begin_any numbered_finish numbered_retry numbered_stop numbered_title numbered_same
      dest: save_turn_input_same append_tool_trace_same append_model_step_trace_same link_message_same link_channel_same
        selections_same(2) intro!: selections_same(1))

lemma reach_numbered: "bot_reach db \<Longrightarrow> bot_numbered db"
  by (induction rule: bot_reach.induct) (auto intro: numbered_none numbered_step)

section \<open>The history of a turn\<close>

text \<open>One step gives a conversation no completed turn but with its next response number.\<close>

definition completes_next :: "bot_tables \<Rightarrow> bot_tables \<Rightarrow> bool" where
  "completes_next db db' \<longleftrightarrow>
     (\<forall>t' \<in> set (bt_turns db'). \<forall>n. tn_status (tr_turn t') = TurnCompleted \<longrightarrow> turn_response t' = Some n
        \<longrightarrow> (\<exists>t \<in> set (bt_turns db). t = t')
          \<or> (\<exists>c \<in> set (bt_conversations db). cv_id c = tr_conversation_id t' \<and> n = cv_next_response_ordinal c))
     \<and> (\<forall>c \<in> set (bt_conversations db). \<exists>c' \<in> set (bt_conversations db').
          cv_id c' = cv_id c \<and> cv_next_response_ordinal c \<le> cv_next_response_ordinal c')
     \<and> (\<forall>i t. find_turn i db = Some t \<longrightarrow> (\<exists>t'. find_turn i db' = Some t' \<and> tr_conversation_id t' = tr_conversation_id t
          \<and> tn_history_cutoff (tr_turn t') = tn_history_cutoff (tr_turn t)))"

lemma completes_next_same: "same_turns db db' \<Longrightarrow> completes_next db db'"
  by (force simp: completes_next_def same_turns_def find_turn_def)

lemma completes_next_then_same: "completes_next db db' \<Longrightarrow> same_turns db' db'' \<Longrightarrow> completes_next db db''"
  by (simp add: completes_next_def same_turns_def find_turn_def)

lemma find_update_turn:
  assumes "\<And>t. tn_id (tr_turn (g t)) = tn_id (tr_turn t)"
  shows "find_turn j (update_turn i g db) = map_option (\<lambda>t. if tn_id (tr_turn t) = i then g t else t) (find_turn j db)"
proof -
  have "List.find (\<lambda>t. tn_id (tr_turn t) = j) (map (\<lambda>t. if tn_id (tr_turn t) = i then g t else t) ts)
      = map_option (\<lambda>t. if tn_id (tr_turn t) = i then g t else t) (List.find (\<lambda>t. tn_id (tr_turn t) = j) ts)" for ts
    by (induction ts) (simp_all add: assms)
  then show ?thesis by (simp add: find_turn_def update_turn_def)
qed

lemma find_turn_update_conversation [simp]: "find_turn i (update_conversation c f db) = find_turn i db"
  by (simp add: find_turn_def)

lemma completes_next_update_turn:
  assumes g: "\<And>t. tn_id (tr_turn (g t)) = tn_id (tr_turn t)" "\<And>t. tr_conversation_id (g t) = tr_conversation_id t"
      "\<And>t. tn_history_cutoff (tr_turn (g t)) = tn_history_cutoff (tr_turn t)"
    and new: "\<And>t n. t \<in> set (bt_turns db) \<Longrightarrow> tn_id (tr_turn t) = i \<Longrightarrow> tn_status (tr_turn (g t)) = TurnCompleted \<Longrightarrow> turn_response (g t) = Some n
      \<Longrightarrow> \<exists>c \<in> set (bt_conversations db). cv_id c = tr_conversation_id t \<and> n = cv_next_response_ordinal c"
  shows "completes_next db (update_turn i g db)"
  unfolding completes_next_def
proof (intro conjI ballI allI impI)
  fix t' n
  assume t': "t' \<in> set (bt_turns (update_turn i g db))" "tn_status (tr_turn t') = TurnCompleted" "turn_response t' = Some n"
  then obtain t where "t \<in> set (bt_turns db)" "t' = (if tn_id (tr_turn t) = i then g t else t)"
    by (auto simp: update_turn_def)
  with t' new [of t n] show "(\<exists>t \<in> set (bt_turns db). t = t')
      \<or> (\<exists>c \<in> set (bt_conversations db). cv_id c = tr_conversation_id t' \<and> n = cv_next_response_ordinal c)"
    using g(2) by (auto split: if_splits)
qed (auto simp: find_update_turn g)

lemma completes_next_conversation:
  assumes "completes_next db db'" and "\<And>c. cv_id (f c) = cv_id c" "\<And>c. cv_next_response_ordinal c \<le> cv_next_response_ordinal (f c)"
  shows "completes_next db (update_conversation i f db')"
proof -
  have "\<exists>c' \<in> set (bt_conversations (update_conversation i f db')).
      cv_id c' = cv_id c \<and> cv_next_response_ordinal c \<le> cv_next_response_ordinal c'" if c: "c \<in> set (bt_conversations db)" for c
  proof -
    obtain d where d: "d \<in> set (bt_conversations db')" "cv_id d = cv_id c" "cv_next_response_ordinal c \<le> cv_next_response_ordinal d"
      using assms(1) c unfolding completes_next_def by blast
    then show ?thesis
      using assms(2, 3) [of d] by (intro bexI [of _ "if cv_id d = i then f d else d"]) (auto simp: update_conversation_set)
  qed
  with assms(1) show ?thesis by (simp add: completes_next_def)
qed

lemma completes_next_closed:
  "close_attempt t status message content err usage db db' = (r, db'') \<Longrightarrow> completes_next db db' \<Longrightarrow> completes_next db db''"
  by (auto dest!: close_attempt_turns intro: completes_next_then_same completes_next_same)

lemma completes_next_finish:
  assumes num: "bot_numbered db"
  shows "finish_turn now ending db = (r, db') \<Longrightarrow> completes_next db db'"
  using num
proof (induction now ending db rule: finish_turn.induct)
  case (1 now turn content message usage db)
  have ids: "distinct (map (\<lambda>t. tn_id (tr_turn t)) (bt_turns db))" using "1.prems" by (simp add: bot_numbered_def)
  show ?case
  proof (cases "find_turn turn db")
    case (Some t)
    show ?thesis
    proof (cases "find_conversation (tr_conversation_id t) db")
      case c: (Some c)
      have "completes_next db (update_conversation (cv_id c) (\<lambda>c. c\<lparr>cv_next_response_ordinal := cv_next_response_ordinal c + 1\<rparr>)
          (update_turn turn (\<lambda>t. t\<lparr>tr_turn := (tr_turn t)\<lparr>tn_status := TurnCompleted,
              tn_response_ordinal := Some (cv_next_response_ordinal c), tn_assistant_content := Some content\<rparr>,
            tr_completed_at := Some now, tr_assistant_message := Some (message_key_of message), tr_error := None\<rparr>) db))"
        using find_conversation_Some [OF c] find_turn_Some [OF Some] distinct_map_eq [OF ids]
        by (intro completes_next_conversation completes_next_update_turn) (auto simp: turn_response_def)
      with "1.prems" Some c show ?thesis
        by (auto simp: Let_def split: if_splits elim: completes_next_closed intro: completes_next_same)
    qed (use "1.prems" Some in \<open>auto intro: completes_next_same\<close>)
  qed (use "1.prems" in \<open>auto intro: completes_next_same\<close>)
next
  case (2 now turn err content message usage db)
  then show ?case
    by (auto split: option.splits intro: completes_next_same elim!: completes_next_closed intro!: completes_next_update_turn)
next
  case (3 now turn reason usage db)
  then show ?case
    by (auto split: option.splits intro: completes_next_same elim!: completes_next_closed intro!: completes_next_update_turn)
qed

lemma completes_next_begin:
  assumes "begin_turn i inp db = (Inr turn, db')"
  shows "completes_next db db'"
  using assms
proof (cases rule: begin_turn_Inr)
  case (1 c t)
  have "find_turn j (db\<lparr>bt_turns := bt_turns db @ [t]\<rparr>) = Some s" if found: "find_turn j db = Some s" for j s
  proof -
    have "List.find P (xs @ ys) = Some x" if "List.find P xs = Some x" for P and xs ys :: "turn_row list" and x
      using that by (induction xs) (auto split: if_splits)
    with found show ?thesis by (simp add: find_turn_def)
  qed
  then have "completes_next db (db\<lparr>bt_turns := bt_turns db @ [t]\<rparr>)" using 1 by (auto simp: completes_next_def)
  then show ?thesis unfolding 1(10) by (rule completes_next_conversation) simp_all
qed

lemma completes_next_begin_any: "begin_turn i inp db = (r, db') \<Longrightarrow> completes_next db db'"
  by (cases r) (auto intro: completes_next_begin completes_next_same dest: begin_turn_same)

lemma completes_next_step: "bot_step db db' \<Longrightarrow> bot_numbered db \<Longrightarrow> completes_next db db'"
proof (induction rule: bot_step.induct)
  case (step_open i db inp)
  then show ?case by (auto simp: completes_next_def open_conversation_def find_turn_def)
next
  case (step_retry turn_id db retried db')
  then show ?case
    by (auto simp: prepare_retry_def reset_turn_def intro: completes_next_same intro!: completes_next_update_turn split: option.splits)
next
  case (step_stop now stop db stopped db')
  then show ?case
    by (induction now stop db rule: set_conversation_stop.induct)
      (auto intro!: completes_next_conversation [OF completes_next_same [OF same_turns_refl]])
next
  case (step_title conversation title db)
  then show ?case by (auto simp: set_conversation_title_def intro!: completes_next_conversation [OF completes_next_same [OF same_turns_refl]])
qed (auto intro: completes_next_begin_any completes_next_finish completes_next_same
      dest: save_turn_input_same append_tool_trace_same append_model_step_trace_same link_message_same link_channel_same
        selections_same(2) intro!: selections_same(1))

text \<open>What a turn may see of the completed turns of its conversation, by response number.\<close>

definition completed_below :: "int \<Rightarrow> string \<Rightarrow> bot_tables \<Rightarrow> stored_turn set" where
  "completed_below bound conversation db =
     {tr_turn t |t n. t \<in> set (turns_of conversation db) \<and> tn_status (tr_turn t) = TurnCompleted
        \<and> turn_response t = Some n \<and> n < bound}"

lemma completed_below_step:
  assumes "completes_next db db'" and "c \<in> set (bt_conversations db)" "bound \<le> cv_next_response_ordinal c"
    and "distinct (map cv_id (bt_conversations db))"
  shows "completed_below bound (cv_id c) db' \<subseteq> completed_below bound (cv_id c) db"
proof
  fix x
  assume "x \<in> completed_below bound (cv_id c) db'"
  then obtain t n where t: "x = tr_turn t" "t \<in> set (bt_turns db')" "tr_conversation_id t = cv_id c"
      "tn_status (tr_turn t) = TurnCompleted" "turn_response t = Some n" "n < bound"
    by (auto simp: completed_below_def turns_of_def)
  from assms(1) t(2, 4, 5) consider "t \<in> set (bt_turns db)"
    | d where "d \<in> set (bt_conversations db)" "cv_id d = tr_conversation_id t" "n = cv_next_response_ordinal d"
    unfolding completes_next_def by blast
  then show "x \<in> completed_below bound (cv_id c) db"
  proof cases
    case 1
    with t show ?thesis by (auto simp: completed_below_def turns_of_def)
  next
    case 2
    then have "d = c" using distinct_map_eq [OF assms(4) 2(1) assms(2)] t(3) by simp
    with 2 t(6) assms(3) show ?thesis by simp
  qed
qed

lemma reach_steps: "bot_steps db db' \<Longrightarrow> bot_reach db \<Longrightarrow> bot_reach db'"
  by (induction rule: bot_steps.induct) (auto intro: reach_step)

lemma history_steps:
  assumes "bot_steps db db'" and "bot_reach db"
  shows "find_turn i db = Some t \<Longrightarrow> \<exists>t'. find_turn i db' = Some t' \<and> tr_conversation_id t' = tr_conversation_id t
      \<and> tn_history_cutoff (tr_turn t') = tn_history_cutoff (tr_turn t)"
    and "c \<in> set (bt_conversations db) \<Longrightarrow> (\<exists>c' \<in> set (bt_conversations db').
        cv_id c' = cv_id c \<and> cv_next_response_ordinal c \<le> cv_next_response_ordinal c')
      \<and> completed_below (cv_next_response_ordinal c) (cv_id c) db' \<subseteq> completed_below (cv_next_response_ordinal c) (cv_id c) db"
  using assms
proof (induction rule: bot_steps.induct)
  case (steps_step db db' db'')
  have numbered: "bot_reach db \<Longrightarrow> bot_numbered db'" using reach_numbered [OF reach_steps [OF steps_step.hyps(1)]] .
  have nexts: "bot_reach db \<Longrightarrow> completes_next db' db''" using completes_next_step [OF steps_step.hyps(2) numbered] .
  {
    case 1
    with steps_step.IH(1) obtain t' where t': "find_turn i db' = Some t'"
        "tr_conversation_id t' = tr_conversation_id t" "tn_history_cutoff (tr_turn t') = tn_history_cutoff (tr_turn t)"
      by blast
    with nexts [OF 1(2)] show ?case unfolding completes_next_def by metis
  next
    case 2
    note num = numbered [OF 2(2)] and step = nexts [OF 2(2)]
    from steps_step.IH(2) [OF 2] obtain c' where c': "c' \<in> set (bt_conversations db')" "cv_id c' = cv_id c"
        "cv_next_response_ordinal c \<le> cv_next_response_ordinal c'"
        "completed_below (cv_next_response_ordinal c) (cv_id c) db' \<subseteq> completed_below (cv_next_response_ordinal c) (cv_id c) db"
      by blast
    from step c'(1) obtain c'' where "c'' \<in> set (bt_conversations db'')" "cv_id c'' = cv_id c'"
        "cv_next_response_ordinal c' \<le> cv_next_response_ordinal c''"
      unfolding completes_next_def by blast
    moreover have "completed_below (cv_next_response_ordinal c) (cv_id c) db'' \<subseteq> completed_below (cv_next_response_ordinal c) (cv_id c) db'"
      using completed_below_step [OF step c'(1) c'(3)] num c'(2) by (simp add: bot_numbered_def)
    ultimately show ?case using c' by (auto intro: order_trans)
  }
qed (auto intro: bexI)

lemma load_snapshot_Some:
  assumes "load_snapshot i db = Some (conv, snapshot)"
  shows "find_conversation i db = Some conv" "ts_turn ` set (cs_turns snapshot) = tr_turn ` set (turns_of i db)"
    "cs_turns snapshot = map (load_turn_snapshot (stored_prompt_markers i db) db)
       (sort_key (\<lambda>t. tn_ordinal (tr_turn t)) (turns_of i db))" "cs_conversation_id snapshot = i"
  using assms by (auto simp: load_snapshot_def load_turn_snapshot_def Let_def image_image)

lemma replayed_turns:
  assumes "load_snapshot i db = Some (conv, snapshot)"
  shows "ts_turn ` set (replay_order snapshot (Some m)) = completed_below (m + 1) i db"
proof -
  have "ts_turn ` set (replay_order snapshot (Some m))
      = {turn \<in> tr_turn ` set (turns_of i db). tn_status turn = TurnCompleted \<and> (\<exists>n. tn_response_ordinal turn = Some n \<and> n \<le> m)}"
    unfolding load_snapshot_Some(2) [OF assms, symmetric]
    by (auto simp: replay_order_def replayable_def split: option.splits)
  also have "\<dots> = completed_below (m + 1) i db"
    by (auto simp: completed_below_def turn_response_def)
  finally show ?thesis .
qed

lemma replayed_none: "replay_order snapshot None = []"
  by (simp add: replay_order_def replayable_def)

lemma completed_below_mono:
  assumes "completed_below b c db' \<subseteq> completed_below b c db" and "a \<le> b"
  shows "completed_below a c db' \<subseteq> completed_below a c db"
proof
  fix x assume "x \<in> completed_below a c db'"
  then obtain n where n: "tn_response_ordinal x = Some n" "n < a" and "x \<in> completed_below b c db'"
    using assms(2) by (force simp: completed_below_def turn_response_def)
  with assms(1) have "x \<in> completed_below b c db" by blast
  with n show "x \<in> completed_below a c db" by (auto simp: completed_below_def turn_response_def)
qed


text \<open>A conversation with an answered turn and one that fails and is retried.\<close>

definition example_message :: "string \<Rightarrow> message_ref" where
  "example_message m = \<lparr>mr_platform = ''p'', mr_guild_id = None, mr_channel_id = ''1'', mr_message_id = m\<rparr>"

definition example_opened :: bot_tables where
  "example_opened = open_conversation ''c'' \<lparr>oc_channel = channel_from_message (example_message ''1''),
     oc_created_by = \<lparr>us_platform = ''p'', us_guild_id = None, us_user_id = ''u''\<rparr>, oc_root_message = example_message ''1'',
     oc_initial_model = ''m'', oc_agent_name = ''a'', oc_provider = ''x'', oc_title = None\<rparr> no_bot_tables"

definition example_begin :: "string \<Rightarrow> int \<Rightarrow> bot_tables \<Rightarrow> bot_tables" where
  "example_begin i at db = snd (begin_turn i \<lparr>bg_conversation_id = ''c'', bg_user_message = example_message i,
     bg_user_message_created_at = at, bg_user = \<lparr>us_platform = ''p'', us_guild_id = None, us_user_id = ''u''\<rparr>,
     bg_user_display_name = ''U'', bg_user_content = ''hi''\<rparr> db)"

definition example_save :: "string \<Rightarrow> transcript_turn list \<Rightarrow> bot_tables \<Rightarrow> bot_tables" where
  "example_save i turns db = snd (save_turn_input \<lparr>si_turn_id = i, si_explicit_retry_user = None, si_agent_name = ''a'',
     si_provider = ''x'', si_model = ''m'', si_context = [], si_transcript = \<lparr>t_id = Some ''c'', t_turns = turns\<rparr>\<rparr> db)"

definition example_answer :: "string \<Rightarrow> int \<Rightarrow> bot_tables \<Rightarrow> bot_tables" where
  "example_answer i at db = snd (finish_turn at (FinishCompleted i ''yes'' (example_message (i @ ''r'')) []) db)"

definition example_failure :: "string \<Rightarrow> int \<Rightarrow> bot_tables \<Rightarrow> bot_tables" where
  "example_failure i at db = snd (finish_turn at (FinishFailed i ''no'' None None []) db)"

definition example_asked :: bot_tables where
  "example_asked = example_begin ''t'' 20 (example_answer ''s'' 10 (example_save ''s'' [] (example_begin ''s'' 5 example_opened)))"

definition example_retried :: bot_tables where
  "example_retried = snd (prepare_retry ''t'' (example_failure ''t'' 30 (example_save ''t'' [] example_asked)))"

lemma example_steps:
  "bot_step db (example_begin i at db)" "bot_step db (example_save i turns db)" "bot_step db (example_answer i at db)"
  "bot_step db (example_failure i at db)" "bot_step db (snd (prepare_retry i db))"
  unfolding example_begin_def example_save_def example_answer_def example_failure_def
  by (rule step_begin [OF prod.collapse [symmetric]] step_save [OF prod.collapse [symmetric]]
      step_finish [OF prod.collapse [symmetric]] step_retry [OF prod.collapse [symmetric]])+

lemma example_reach: "bot_reach example_opened" "bot_reach example_asked"
proof -
  show "bot_reach example_opened"
    unfolding example_opened_def
    by (intro reach_step [OF reach_none] step_open) (simp add: no_bot_tables_def find_conversation_def)
  then show "bot_reach example_asked"
    unfolding example_asked_def by (intro reach_step [OF _ example_steps(1)] reach_step [OF _ example_steps(2)] reach_step [OF _ example_steps(3)])
qed


end
