(* ===== verification/Bot_Prompt_Props.thy ===== *)
theory Bot_Prompt_Props
  imports Bot_Prompt Store_Turns_Props
begin

text \<open>
  The prompt a model reads: the markers in the transcript of a turn, replayed ones and those written in front of the
  turn, show every part of the current instructions, as long as the turn follows an answered one.
\<close>

section \<open>What a transcript shows\<close>

text \<open>A marker names a part, or replaces the whole prompt; the last marker of a part counts.\<close>

definition read_marker :: "transcript_turn \<Rightarrow> (string option \<times> string) option" where
  "read_marker turn = map_option (\<lambda>m. (sp_part_key m, sp_text m)) (prompt_marker 0 0 (0, turn))"

definition show_turn :: "transcript_turn \<Rightarrow> (string \<Rightarrow> string option) \<Rightarrow> string \<Rightarrow> string option" where
  "show_turn turn shown =
     (case read_marker turn of
        None \<Rightarrow> shown
      | Some (None, t) \<Rightarrow> (\<lambda>_. None)
      | Some (Some key, t) \<Rightarrow> shown(key \<mapsto> t))"

definition prompt_shown :: "transcript_turn list \<Rightarrow> string \<Rightarrow> string option" where
  "prompt_shown turns = fold show_turn turns (\<lambda>_. None)"

definition marks_part :: "string \<Rightarrow> string \<Rightarrow> transcript_turn \<Rightarrow> bool" where
  "marks_part key t turn \<longleftrightarrow> read_marker turn = Some (Some key, t)"

lemma show_marked: "marks_part key t turn \<Longrightarrow> show_turn turn shown = shown(key \<mapsto> t)"
  by (simp add: show_turn_def marks_part_def)

lemma show_plain: "\<not> instruction_message turn \<Longrightarrow> show_turn turn shown = shown"
  by (simp add: show_turn_def read_marker_def prompt_marker_def Let_def)

lemma show_plain_turns: "\<forall>turn \<in> set turns. \<not> instruction_message turn \<Longrightarrow> fold show_turn turns shown = shown"
  by (induction turns) (simp_all add: show_plain)

lemma instruction_part_marks: "marks_part key t (agent_instruction_part_turn tid key n t)"
  by (auto simp: marks_part_def read_marker_def prompt_marker_def agent_instruction_part_turn_def instruction_message_def
      json_get_object Let_def split: option.split)

lemma set_message_id_get:
  assumes "tt_metadata turn = JObject m" and "btm_invar m"
  shows "json_get (tt_metadata (set_transcript_message_id turn x)) k = (if k = ''id'' then Some (JString x) else json_get (tt_metadata turn) k)"
  using assms by (simp add: set_transcript_message_id_def btm_get_insert)

lemma instruction_part_metadata:
  obtains m where "tt_metadata (agent_instruction_part_turn tid key n t) = JObject m" "btm_invar m"
  using that by (simp add: agent_instruction_part_turn_def json_object_def btm_of_list_invar)

lemma read_marker_cong:
  "tt_role a = tt_role b \<Longrightarrow> tt_blocks a = tt_blocks b
    \<Longrightarrow> (\<And>k. k \<noteq> ''id'' \<Longrightarrow> json_get (tt_metadata a) k = json_get (tt_metadata b) k) \<Longrightarrow> read_marker a = read_marker b"
  by (simp add: read_marker_def prompt_marker_def instruction_message_def Let_def split: option.split)

lemma set_message_id_marks: "marks_part key t (set_transcript_message_id (agent_instruction_part_turn tid key n t) x)"
proof -
  let ?turn = "agent_instruction_part_turn tid key n t"
  obtain m where m: "tt_metadata ?turn = JObject m" "btm_invar m" by (rule instruction_part_metadata)
  have "tt_role (set_transcript_message_id ?turn x) = tt_role ?turn" "tt_blocks (set_transcript_message_id ?turn x) = tt_blocks ?turn"
    using m by (simp_all add: set_transcript_message_id_def)
  then have "read_marker (set_transcript_message_id ?turn x) = read_marker ?turn"
    by (rule read_marker_cong) (simp add: set_message_id_get [OF m])
  then show ?thesis using instruction_part_marks [of key t tid n] by (simp add: marks_part_def)
qed

lemma fold_show_marked:
  assumes "\<And>p. marks_part (key p) (body p) (mark p)"
  shows "fold show_turn (map mark ps) shown = shown ++ map_of (rev (map (\<lambda>p. (key p, body p)) ps))"
  by (induction ps arbitrary: shown) (simp_all add: show_marked [OF assms])

section \<open>Turns that show nothing\<close>

lemma instruction_message_cases:
  "tt_metadata turn = JNull \<Longrightarrow> \<not> instruction_message turn"
  "tt_metadata turn = transcript_message_metadata x \<Longrightarrow> \<not> instruction_message turn"
  by (simp_all add: instruction_message_def transcript_message_metadata_def json_get_object)

lemma context_turns_plain:
  assumes "transcript_turns_from_context store i items = (systems, user_turn)" and "turn \<in> set (systems @ [user_turn])"
  shows "\<exists>role. tt_metadata turn = transcript_message_metadata (turn_transcript_message_id i role)"
  using assms by (auto simp: transcript_turns_from_context_def Let_def split: if_splits)

lemma replay_steps_plain: "turn \<in> set (replay_steps results content steps consumed) \<Longrightarrow> tt_metadata turn = JNull"
  by (induction results content steps consumed rule: replay_steps.induct) (auto simp: plain_turn_def split: prod.splits if_splits)

lemma answer_turns_plain:
  assumes "turn \<in> set (case model_step_replay steps traces content of
      Some turns \<Rightarrow> turns
    | None \<Rightarrow> client_tool_replay traces
        @ (case content of None \<Rightarrow> [] | Some answer \<Rightarrow> [\<lparr>tt_role = Assistant, tt_blocks = [BlockText answer],
             tt_metadata = transcript_message_metadata (turn_transcript_message_id i ''assistant'')\<rparr>]))"
  shows "tt_metadata turn = JNull \<or> (\<exists>role. tt_metadata turn = transcript_message_metadata (turn_transcript_message_id i role))"
proof (cases "model_step_replay steps traces content")
  case None
  with assms show ?thesis by (auto simp: client_tool_replay_def Let_def split: option.splits if_splits)
next
  case (Some turns)
  with assms show ?thesis by (auto simp: model_step_replay_def dest: replay_steps_plain split: if_splits)
qed

lemma replay_turn_others:
  obtains others where "replay_turn store tid snap replayed =
      (fst (instruction_changes tid snap replayed) @ others, snd (instruction_changes tid snap replayed))"
    "\<And>turn. turn \<in> set others \<Longrightarrow> tt_metadata turn = JNull
       \<or> (\<exists>role. tt_metadata turn = transcript_message_metadata (turn_transcript_message_id (tn_id (ts_turn snap)) role))"
proof -
  let ?i = "tn_id (ts_turn snap)"
  obtain systems user_turn where ctx: "(if ts_context snap = [] then ([], display_turn (ts_turn snap))
      else transcript_turns_from_context store ?i (ts_context snap)) = (systems, user_turn)" by fastforce
  have meta: "\<exists>role. tt_metadata turn = transcript_message_metadata (turn_transcript_message_id ?i role)"
    if "turn \<in> set (systems @ [user_turn])" for turn
    using that ctx context_turns_plain [of store ?i "ts_context snap" systems user_turn turn]
    by (cases "ts_context snap = []") (auto simp: display_turn_def)
  have media: "tt_metadata turn = transcript_message_metadata (turn_transcript_message_id ?i ''assistant_media'')"
    if "turn \<in> set (generated_media_replay ?i refs blocks)" for turn refs blocks
    using that by (auto simp: generated_media_replay_def split: if_splits)
  show ?thesis
  proof (rule that)
    show "replay_turn store tid snap replayed = (fst (instruction_changes tid snap replayed) @ drop (length
        (fst (instruction_changes tid snap replayed))) (fst (replay_turn store tid snap replayed)), snd (instruction_changes tid snap replayed))"
      unfolding replay_turn_def Let_def ctx by (simp add: split_beta)
    fix turn
    assume "turn \<in> set (drop (length (fst (instruction_changes tid snap replayed))) (fst (replay_turn store tid snap replayed)))"
    then show "tt_metadata turn = JNull \<or> (\<exists>role. tt_metadata turn = transcript_message_metadata (turn_transcript_message_id ?i role))"
      unfolding replay_turn_def Let_def ctx
      by (simp add: split_beta) (use meta media answer_turns_plain in \<open>fastforce\<close>)
  qed
qed

section \<open>What a replay shows\<close>

text \<open>Stored states that consist of labelled parts, each key once.\<close>

definition parts_based :: "turn_snapshot \<Rightarrow> bool" where
  "parts_based snap \<longleftrightarrow>
     ts_agent_instructions snap = None
     \<or> (\<exists>parts. ts_agent_instructions snap = Some (InstructionParts parts) \<and> distinct (map ips_key parts))"

definition part_map :: "instruction_part_snapshot list \<Rightarrow> (string, instruction_part_snapshot) btree_map" where
  "part_map parts = btm_of_list (map (\<lambda>p. (ips_key p, p)) parts)"

lemma part_map_get:
  assumes "distinct (map ips_key parts)"
  shows "btm_get (part_map parts) key = List.find (\<lambda>p. ips_key p = key) parts"
proof -
  have "map_of (rev (map (\<lambda>p. (ips_key p, p)) parts)) = map_of (map (\<lambda>p. (ips_key p, p)) parts)"
    using assms by (intro map_of_inject_set [THEN iffD2]) (simp_all add: rev_map [symmetric] comp_def)
  moreover have "map_of (map (\<lambda>p. (ips_key p, p)) ps) key = List.find (\<lambda>p. ips_key p = key) ps" for ps
    by (induction ps) simp_all
  ultimately show ?thesis by (simp add: part_map_def btm_of_list_get)
qed

text \<open>What is shown agrees with what was replayed; an absent part counts as empty.\<close>

fun agrees :: "(string \<Rightarrow> string option) \<Rightarrow> replayed_instructions \<Rightarrow> bool" where
  "agrees shown ReplayedNone \<longleftrightarrow> shown = (\<lambda>_. None)"
| "agrees shown (ReplayedParts parts) \<longleftrightarrow> (\<forall>key p. btm_get parts key = Some p \<longrightarrow> unwrap_or (shown key) [] = ips_text p)"
| "agrees shown (ReplayedLegacy t) \<longleftrightarrow> False"

lemma map_of_distinct_rev: "distinct (map fst kvs) \<Longrightarrow> map_of (rev kvs) = map_of kvs"
  by (intro map_of_inject_set [THEN iffD2]) (simp_all add: rev_map [symmetric])

lemma shown_after_changes:
  assumes marks: "\<And>p. marks_part (key p) (body p) (mark p)" and dist: "distinct (map key ps)"
  shows "fold show_turn (map mark (sort_key n ps)) shown k
    = (case List.find (\<lambda>p. key p = k) ps of None \<Rightarrow> shown k | Some p \<Rightarrow> Some (body p))"
proof -
  have dist': "distinct (map key (sort_key n ps))"
    using dist by (metis distinct_map distinct_sort set_sort)
  have "map_of (rev (map (\<lambda>p. (key p, body p)) (sort_key n ps))) = map_of (map (\<lambda>p. (key p, body p)) ps)"
    using dist dist' by (intro map_of_inject_set [THEN iffD2]) (simp_all add: rev_map [symmetric] comp_def)
  moreover have "map_of (map (\<lambda>p. (key p, body p)) ps) k = map_option body (List.find (\<lambda>p. key p = k) ps)"
    by (induction ps) simp_all
  ultimately show ?thesis
    by (simp add: fold_show_marked [OF marks] map_add_def split: option.split)
qed

lemma find_filter: "distinct (map key ps) \<Longrightarrow> List.find (\<lambda>p. key p = k) (filter P ps) =
   (case List.find (\<lambda>p. key p = k) ps of None \<Rightarrow> None | Some p \<Rightarrow> if P p then Some p else None)"
  by (induction ps) (auto simp: find_None image_iff split: option.split dest!: find_Some)

lemma find_key: "List.find (\<lambda>p. key p = k) ps = Some p \<Longrightarrow> key p = k \<and> p \<in> set ps"
  by (auto dest: find_Some)

lemma find_in: "distinct (map key ps) \<Longrightarrow> p \<in> set ps \<Longrightarrow> List.find (\<lambda>q. key q = key p) ps = Some p"
  by (induction ps) (auto simp: image_iff)

lemma agrees_after_changes:
  assumes agree: "agrees shown replayed" and dist: "distinct (map ips_key parts)"
  shows "agrees (fold show_turn (instruction_part_changes tid i parts replayed) shown) (ReplayedParts (part_map parts))"
proof -
  let ?mark = "\<lambda>part. let prompt_turn = agent_instruction_part_turn tid (ips_key part) (ips_ordinal part) (ips_text part) in
    if replayed \<noteq> ReplayedNone then set_transcript_message_id prompt_turn (turn_agent_instruction_message_id i (Some (ips_key part)))
    else prompt_turn"
  have marks: "marks_part (ips_key p) (ips_text p) (?mark p)" for p
    by (simp add: Let_def instruction_part_marks set_message_id_marks)
  have dist': "distinct (map ips_key (filter (part_changed replayed parts) parts))"
    using dist by (simp add: distinct_map_filter)
  have "unwrap_or (fold show_turn (instruction_part_changes tid i parts replayed) shown key) [] = ips_text p"
    if p: "btm_get (part_map parts) key = Some p" for key p
  proof -
    have found: "List.find (\<lambda>p. ips_key p = key) parts = Some p" using p part_map_get [OF dist] by simp
    then have key: "ips_key p = key" by (rule find_key [THEN conjunct1])
    show ?thesis
    proof (cases "part_changed replayed parts p")
      case True
      with found show ?thesis
        unfolding instruction_part_changes_def by (simp add: shown_after_changes [OF marks dist'] find_filter [OF dist])
    next
      case False
      with found have "fold show_turn (instruction_part_changes tid i parts replayed) shown key = shown key"
        unfolding instruction_part_changes_def by (simp add: shown_after_changes [OF marks dist'] find_filter [OF dist])
      moreover have "unwrap_or (shown key) [] = ips_text p"
        using agree False key by (cases replayed) auto
      ultimately show ?thesis by simp
    qed
  qed
  then show ?thesis by simp
qed

definition next_replayed :: "turn_snapshot \<Rightarrow> replayed_instructions \<Rightarrow> replayed_instructions" where
  "next_replayed snap replayed =
     (case ts_agent_instructions snap of
        Some (InstructionParts parts) \<Rightarrow> ReplayedParts (part_map parts)
      | Some (LegacyInstructions t) \<Rightarrow> ReplayedLegacy t
      | None \<Rightarrow> replayed)"

lemma replay_turn_agrees:
  assumes agree: "agrees shown replayed" and based: "parts_based snap"
  shows "agrees (fold show_turn (fst (replay_turn store tid snap replayed)) shown) (next_replayed snap replayed)"
    and "snd (replay_turn store tid snap replayed) = next_replayed snap replayed"
proof -
  obtain others where others: "replay_turn store tid snap replayed =
      (fst (instruction_changes tid snap replayed) @ others, snd (instruction_changes tid snap replayed))"
    and plain: "\<And>turn. turn \<in> set others \<Longrightarrow> tt_metadata turn = JNull
      \<or> (\<exists>role. tt_metadata turn = transcript_message_metadata (turn_transcript_message_id (tn_id (ts_turn snap)) role))"
    by (rule replay_turn_others [of store tid snap replayed]) blast
  from plain have "\<forall>turn \<in> set others. \<not> instruction_message turn" by (blast dest: instruction_message_cases)
  then have same: "fold show_turn others f = f" for f by (rule show_plain_turns)
  show "snd (replay_turn store tid snap replayed) = next_replayed snap replayed"
    by (simp add: others instruction_changes_def next_replayed_def part_map_def Let_def split: option.split agent_instruction_snapshot.split)
  show "agrees (fold show_turn (fst (replay_turn store tid snap replayed)) shown) (next_replayed snap replayed)"
    using based agree
    by (auto simp: others same instruction_changes_def next_replayed_def parts_based_def intro: agrees_after_changes
        simp del: agrees.simps)
qed

lemma replay_all_agrees:
  "agrees shown replayed \<Longrightarrow> \<forall>snap \<in> set snaps. parts_based snap
    \<Longrightarrow> agrees (fold show_turn (replay_all store tid snaps replayed) shown) (fold next_replayed snaps replayed)"
proof (induction snaps arbitrary: shown replayed)
  case (Cons snap snaps)
  obtain turns r' where r: "replay_turn store tid snap replayed = (turns, r')" by fastforce
  have "agrees (fold show_turn turns shown) r'" and "r' = next_replayed snap replayed"
    using replay_turn_agrees [OF Cons.prems(1), of snap store tid] Cons.prems(2) r by simp_all
  with Cons.IH [of "fold show_turn turns shown" r'] Cons.prems(2) r show ?case by simp
qed simp

section \<open>Where the markers go\<close>

text \<open>Ids of turns hold no underscore, so message ids of different turns differ.\<close>

definition current_message :: "string \<Rightarrow> transcript_turn \<Rightarrow> bool" where
  "current_message i turn \<longleftrightarrow>
     metadata_id turn \<in> {Some (turn_transcript_message_id i ''system''), Some (turn_transcript_message_id i ''user'')}"

lemma message_id_turn:
  assumes "turn_transcript_message_id i role = ''chudbot_turn_'' @ j @ CHR ''_'' # s" and "CHR ''_'' \<notin> set i" "CHR ''_'' \<notin> set j"
  shows "i = j"
proof -
  have "takeWhile (\<lambda>c. c \<noteq> CHR ''_'') (x @ CHR ''_'' # t) = x" if "CHR ''_'' \<notin> set x" for x t
    using that by (simp add: takeWhile_append takeWhile_eq_all_conv)
  moreover have "i @ CHR ''_'' # role = j @ CHR ''_'' # s" using assms(1) by (simp add: turn_transcript_message_id_def)
  ultimately show ?thesis using assms(2, 3) by metis
qed

lemma replayed_not_current:
  assumes "parts_based snap" and ids: "CHR ''_'' \<notin> set i" "CHR ''_'' \<notin> set (tn_id (ts_turn snap))" "tn_id (ts_turn snap) \<noteq> i"
    and turn: "turn \<in> set (fst (replay_turn store tid snap replayed))"
  shows "\<not> current_message i turn"
proof -
  let ?j = "tn_id (ts_turn snap)"
  obtain others where others: "replay_turn store tid snap replayed =
      (fst (instruction_changes tid snap replayed) @ others, snd (instruction_changes tid snap replayed))"
    and plain: "\<And>turn. turn \<in> set others \<Longrightarrow> tt_metadata turn = JNull
      \<or> (\<exists>role. tt_metadata turn = transcript_message_metadata (turn_transcript_message_id ?j role))"
    by (rule replay_turn_others [of store tid snap replayed]) blast
  have own: "turn_transcript_message_id i role \<noteq> ''chudbot_turn_'' @ ?j @ CHR ''_'' # s" for role s
    using message_id_turn [of i role ?j s] ids by blast
  have not_own: "turn_transcript_message_id ?j role' \<noteq> turn_transcript_message_id i role" for role role'
    using own [of role role'] by (simp add: turn_transcript_message_id_def)
  consider "turn \<in> set others" | "turn \<in> set (fst (instruction_changes tid snap replayed))" using turn others by auto
  then show ?thesis
  proof cases
    case 1
    from plain [OF this] not_own not_own [symmetric] show ?thesis
      by (auto simp: current_message_def metadata_id_def transcript_message_metadata_def json_get_object)
  next
    case 2
    let ?plain = "\<lambda>part :: instruction_part_snapshot. agent_instruction_part_turn tid (ips_key part) (ips_ordinal part) (ips_text part)"
    let ?scoped = "\<lambda>part :: instruction_part_snapshot. set_transcript_message_id (?plain part) (turn_agent_instruction_message_id ?j (Some (ips_key part)))"
    from 2 assms(1) obtain parts where "turn \<in> set (instruction_part_changes tid ?j parts replayed)"
      by (auto simp: parts_based_def instruction_changes_def)
    then obtain part where "turn = (if replayed \<noteq> ReplayedNone then ?scoped part else ?plain part)"
      unfolding instruction_part_changes_def Let_def set_map by blast
    then have turn: "turn \<in> {?plain part, ?scoped part}" by simp
    obtain m where m: "tt_metadata (agent_instruction_part_turn tid (ips_key part) (ips_ordinal part) (ips_text part)) = JObject m"
        "btm_invar m" by (rule instruction_part_metadata)
    have fresh: "metadata_id (set_transcript_message_id (agent_instruction_part_turn tid (ips_key part) (ips_ordinal part) (ips_text part)) x) = Some x" for x
      by (simp add: metadata_id_def set_message_id_get [OF m])
    have plain: "metadata_id (agent_instruction_part_turn tid key n t) \<noteq> Some (turn_transcript_message_id i role)" for key n t role
      by (auto simp: metadata_id_def agent_instruction_part_turn_def json_get_object turn_transcript_message_id_def
          split: option.split)
    show ?thesis
      using turn own [symmetric, of "''system_'' @ ips_key part" for role] fresh plain
      by (auto simp: current_message_def turn_agent_instruction_message_id_def)
  qed
qed

lemma replay_all_not_current:
  assumes "\<forall>snap \<in> set snaps. parts_based snap \<and> CHR ''_'' \<notin> set (tn_id (ts_turn snap)) \<and> tn_id (ts_turn snap) \<noteq> i"
    and "CHR ''_'' \<notin> set i" and "turn \<in> set (replay_all store tid snaps replayed)"
  shows "\<not> current_message i turn"
  using assms(1, 3)
proof (induction snaps arbitrary: replayed)
  case (Cons snap snaps)
  then show ?case
    using replayed_not_current [of snap i turn store tid replayed] assms(2) by (auto simp: split_beta)
qed simp

lemma position_append: "\<forall>x \<in> set xs. \<not> P x \<Longrightarrow> P y \<Longrightarrow> position P (xs @ y # ys) = Some (length xs)"
  by (induction xs) simp_all

lemma inserted_before_current:
  assumes "\<forall>turn \<in> set replayed. \<not> current_message i turn"
    and ctx: "transcript_turns_from_context store i items = (systems, user_turn)"
  shows "insert_prompt_turns_before_current_turn \<lparr>t_id = tid, t_turns = replayed @ systems @ [user_turn]\<rparr> i prompts
    = \<lparr>t_id = tid, t_turns = replayed @ prompts @ systems @ [user_turn]\<rparr>"
proof -
  have first: "\<exists>y ys. systems @ [user_turn] = y # ys \<and> current_message i y"
    using ctx by (auto simp: transcript_turns_from_context_def Let_def current_message_def metadata_id_def
        transcript_message_metadata_def json_get_object split: if_splits)
  then obtain y ys where y: "systems @ [user_turn] = y # ys" "current_message i y" by blast
  then have "position (current_message i) (replayed @ systems @ [user_turn]) = Some (length replayed)"
    using assms(1) position_append [of replayed "current_message i" y ys] by simp
  then have "current_turn_context_start_index (replayed @ systems @ [user_turn]) i = length replayed"
    by (simp add: current_turn_context_start_index_def current_message_def [abs_def])
  then show ?thesis by (simp add: insert_prompt_turns_before_current_turn_def Let_def)
qed

section \<open>The states of the snapshots of a conversation\<close>

fun parts_state :: "prompt_replay \<Rightarrow> bool" where
  "parts_state (PromptText t) \<longleftrightarrow> t = None"
| "parts_state (PromptParts m) \<longleftrightarrow> btm_invar m \<and> (\<forall>e \<in> set m. ips_key (snd e) = fst e)"

lemma btm_insert_set: "set (btm_insert k v m) \<subseteq> insert (k, v) (set m)"
  by (induction k v m rule: btm_insert.induct) (auto split: if_splits)

lemma apply_labelled_marker:
  assumes "sp_part_key m \<noteq> None" "parts_state state"
  shows "\<exists>parts. apply_prompt_marker m state = PromptParts parts \<and> parts_state (PromptParts parts)"
proof -
  obtain key where key: "sp_part_key m = Some key" using assms(1) by blast
  let ?old = "case state of PromptParts parts \<Rightarrow> parts | PromptText _ \<Rightarrow> []"
  have "parts_state (PromptParts ?old)" using assms(2) by (cases state) simp_all
  then have "parts_state (PromptParts (btm_insert key \<lparr>ips_key = key, ips_ordinal = sp_part_ordinal m, ips_text = sp_text m\<rparr> ?old))"
    using btm_insert_set [of key "\<lparr>ips_key = key, ips_ordinal = sp_part_ordinal m, ips_text = sp_text m\<rparr>" ?old]
    by (auto simp: btm_insert_invar)
  then show ?thesis by (simp add: key)
qed

lemma labelled_markers_state:
  assumes "\<forall>m \<in> set ms. sp_part_key m \<noteq> None" "parts_state state"
  shows "parts_state (fold apply_prompt_marker ms state)"
    and "ms \<noteq> [] \<Longrightarrow> \<exists>parts. fold apply_prompt_marker ms state = PromptParts parts"
proof -
  have "parts_state (fold apply_prompt_marker ms state)
      \<and> (ms \<noteq> [] \<or> (\<exists>parts. state = PromptParts parts) \<longrightarrow> (\<exists>parts. fold apply_prompt_marker ms state = PromptParts parts))"
    using assms
  proof (induction ms arbitrary: state)
    case (Cons m ms)
    then obtain parts where "apply_prompt_marker m state = PromptParts parts" "parts_state (PromptParts parts)"
      using apply_labelled_marker [of m state] by auto
    with Cons.IH [of "PromptParts parts"] Cons.prems show ?case by (simp del: apply_prompt_marker.simps parts_state.simps)
  qed simp
  then show "parts_state (fold apply_prompt_marker ms state)"
    and "ms \<noteq> [] \<Longrightarrow> \<exists>parts. fold apply_prompt_marker ms state = PromptParts parts" by blast+
qed

lemma distinct_part_keys:
  assumes "parts_state (PromptParts m)"
  shows "distinct (map ips_key (sort_key ips_ordinal (map snd m)))"
proof -
  have "map ips_key (map snd m) = map fst m" using assms by simp
  moreover have "distinct (map fst m)" using assms by (simp add: btm_invar_def strict_sorted_iff)
  ultimately show ?thesis by (metis distinct_map distinct_sort set_sort)
qed

definition visible_markers :: "string \<Rightarrow> bot_tables \<Rightarrow> turn_row \<Rightarrow> stored_prompt_marker list" where
  "visible_markers c db t = filter (prompt_marker_is_visible_at_boundary (turn_boundary t db)) (stored_prompt_markers c db)"

lemma snapshot_instructions:
  assumes "\<forall>m \<in> set (stored_prompt_markers c db). sp_part_key m \<noteq> None"
  shows "parts_based (load_turn_snapshot (stored_prompt_markers c db) db t)"
    and "ts_agent_instructions (load_turn_snapshot (stored_prompt_markers c db) db t) = None \<longleftrightarrow> visible_markers c db t = []"
proof -
  let ?ms = "visible_markers c db t" and ?snap = "load_turn_snapshot (stored_prompt_markers c db) db t"
  have ms: "\<forall>m \<in> set ?ms. sp_part_key m \<noteq> None" using assms by (simp add: visible_markers_def)
  have state: "stored_agent_instruction_state_at_boundary (stored_prompt_markers c db) (turn_boundary t db)
      = prompt_snapshot (fold apply_prompt_marker ?ms (PromptText None))"
    by (simp add: stored_agent_instruction_state_at_boundary_def visible_markers_def)
  have "ts_agent_instructions ?snap = None \<and> ?ms = [] \<or> ?ms \<noteq> []
      \<and> (\<exists>parts. ts_agent_instructions ?snap = Some (InstructionParts parts) \<and> distinct (map ips_key parts))"
  proof (cases "?ms = []")
    case True
    then show ?thesis
      by (simp add: load_turn_snapshot_def Let_def state) (simp add: attempt_agent_instruction_text_def visible_markers_def)
  next
    case False
    then obtain parts where parts: "fold apply_prompt_marker ?ms (PromptText None) = PromptParts parts"
      using labelled_markers_state(2) [OF ms, of "PromptText None"] by auto
    moreover have "parts_state (PromptParts parts)"
      using labelled_markers_state(1) [OF ms, of "PromptText None"] parts by simp
    ultimately show ?thesis
      using False distinct_part_keys by (simp add: load_turn_snapshot_def Let_def state)
  qed
  then show "parts_based ?snap" and "ts_agent_instructions ?snap = None \<longleftrightarrow> ?ms = []"
    by (auto simp: parts_based_def)
qed

lemma visible_markers_mono:
  assumes "visible_markers c db l = []" and "tn_ordinal (tr_turn s) < tn_ordinal (tr_turn l)"
  shows "visible_markers c db s = []"
  using assms
  by (force simp: visible_markers_def filter_empty_conv prompt_marker_is_visible_at_boundary_def turn_boundary_def
      split: option.splits)

section \<open>Turns in their order\<close>

lemma sorted_turns_of:
  assumes "conversation_numbered c ts"
  shows "sort_key (\<lambda>t. tn_ordinal (tr_turn t)) ts = ts"
    and "n \<le> length ts \<Longrightarrow> filter (\<lambda>t. tn_ordinal (tr_turn t) < int n) ts = take n ts"
    and "n < length ts \<Longrightarrow> tn_ordinal (tr_turn (ts ! n)) = int n"
proof -
  let ?ord = "\<lambda>t. tn_ordinal (tr_turn t)"
  have ords: "map ?ord ts = map int [0..<length ts]" using assms by (simp add: conversation_numbered_def)
  show nth: "?ord (ts ! n) = int n" if "n < length ts" for n
    using arg_cong [OF ords, of "\<lambda>xs. xs ! n"] that by simp
  have "sorted (map ?ord ts)" unfolding ords by (simp add: sorted_map)
  then show "sort_key ?ord ts = ts" by (rule sort_key_id_if_sorted)
  show "filter (\<lambda>t. ?ord t < int n) ts = take n ts" if n: "n \<le> length ts" for n
  proof -
    have "filter (\<lambda>t. ?ord t < int n) (take n ts) = take n ts"
      using nth n by (auto simp: filter_id_conv in_set_conv_nth)
    moreover have "filter (\<lambda>t. ?ord t < int n) (drop n ts) = []"
      using nth n by (auto simp: filter_empty_conv in_set_conv_nth)
    ultimately show ?thesis using filter_append [of "\<lambda>t. ?ord t < int n" "take n ts" "drop n ts"] by simp
  qed
qed

lemma last_sort_key:
  assumes "x \<in> set xs" and "\<And>y. y \<in> set xs \<Longrightarrow> y \<noteq> x \<Longrightarrow> f y < f x"
  shows "\<exists>ys. sort_key f xs = ys @ [x]"
proof -
  let ?xs = "sort_key f xs"
  have ne: "?xs \<noteq> []" using assms(1) by (metis empty_iff list.set(1) set_sort)
  have "f x \<le> f (last ?xs)"
  proof -
    have "sorted (map f ?xs)" by simp
    moreover obtain i where "i < length ?xs" "?xs ! i = x" using assms(1) by (metis in_set_conv_nth set_sort)
    ultimately show ?thesis
      using ne sorted_nth_mono [of "map f ?xs" i "length ?xs - 1"] by (simp add: last_conv_nth)
  qed
  moreover have "last ?xs \<in> set xs" using ne by (metis last_in_set set_sort)
  ultimately have "last ?xs = x" using assms(2) [of "last ?xs"] by fastforce
  with ne show ?thesis by (metis append_butlast_last_id)
qed

section \<open>The prompt in effect\<close>

lemma marker_text_matches: "matches_persisted_text part (agent_instruction_part_marker_text previous part)"
  by (cases "rp_update_text part") (auto simp: agent_instruction_part_marker_text_def matches_persisted_text_def split: option.split)

lemma change_turn_marks:
  "marks_part (rp_key part) (agent_instruction_part_marker_text previous part) (agent_instruction_change_turn tid previous i part)"
  by (simp add: agent_instruction_change_turn_def Let_def instruction_part_marks set_message_id_marks)

lemma marks_instruction_message: "marks_part key t turn \<Longrightarrow> instruction_message turn"
  by (auto simp: marks_part_def read_marker_def prompt_marker_def Let_def split: if_splits)

text \<open>The stored state the changes are computed from is the one the replay ended with.\<close>

fun same_state :: "stored_instruction_state \<Rightarrow> replayed_instructions \<Rightarrow> bool" where
  "same_state StoredNone replayed \<longleftrightarrow> replayed = ReplayedNone"
| "same_state (StoredParts parts) replayed \<longleftrightarrow> replayed = ReplayedParts (part_map parts)"
| "same_state (StoredLegacy t) replayed \<longleftrightarrow> False"

lemma changes_show_current:
  assumes agree: "agrees shown replayed" and same: "same_state previous replayed"
    and dist: "distinct (map rp_key current)" and part: "part \<in> set current"
  shows "matches_persisted_text part (unwrap_or (fold show_turn (map (agent_instruction_change_turn tid previous i)
    (sort_key rp_ordinal (changed_agent_instruction_parts current previous))) shown (rp_key part)) [])"
proof -
  obtain Q where Q: "changed_agent_instruction_parts current previous = filter Q current"
    and unchanged: "\<not> Q part \<Longrightarrow> matches_persisted_text part (unwrap_or (shown (rp_key part)) [])"
  proof (cases previous)
    case StoredNone
    with agree same that [of "\<lambda>part. rp_text part \<noteq> []"] show ?thesis by (simp add: matches_persisted_text_def)
  next
    case (StoredParts parts)
    have "matches_persisted_text part (unwrap_or (shown (rp_key part)) [])" if "\<not> part_differs (part_map parts) part"
      using that agree same StoredParts by (auto simp: part_differs_def split: option.splits)
    with StoredParts that [of "part_differs (part_map parts)"] show ?thesis by (simp add: part_map_def)
  qed (use same in simp)
  have "distinct (map rp_key (filter Q current))" using dist by (simp add: distinct_map_filter)
  note shown = shown_after_changes [OF change_turn_marks this, where n = rp_ordinal]
  show ?thesis
    unfolding Q shown find_filter [OF dist] find_in [OF dist part]
    using unchanged marker_text_matches by (cases "Q part") simp_all
qed

text \<open>The first turn of a conversation, or one that was sent after the turn before it had been answered last.\<close>

definition follows_answer :: "bot_tables \<Rightarrow> turn_row \<Rightarrow> bool" where
  "follows_answer db t \<longleftrightarrow>
     tn_ordinal (tr_turn t) = 0 \<and> tn_history_cutoff (tr_turn t) = None
     \<or> (\<exists>l \<in> set (turns_of (tr_conversation_id t) db). tn_ordinal (tr_turn l) + 1 = tn_ordinal (tr_turn t)
          \<and> tn_status (tr_turn l) = TurnCompleted \<and> turn_response l \<noteq> None
          \<and> turn_response l = tn_history_cutoff (tr_turn t))"

text \<open>A turn of a conversation with labelled prompts, and the snapshot it is prepared from.\<close>

definition prompt_history :: "bot_tables \<Rightarrow> turn_row \<Rightarrow> conversation_row \<Rightarrow> conversation_snapshot \<Rightarrow> bool" where
  "prompt_history db t conv snapshot \<longleftrightarrow>
     bot_reach db \<and> find_turn (tn_id (tr_turn t)) db = Some t
     \<and> (\<forall>m \<in> set (stored_prompt_markers (tr_conversation_id t) db). sp_part_key m \<noteq> None)
     \<and> (\<forall>s \<in> set (turns_of (tr_conversation_id t) db). CHR ''_'' \<notin> set (tn_id (tr_turn s)))
     \<and> load_snapshot (tr_conversation_id t) db = Some (conv, snapshot)"

abbreviation snap_of :: "bot_tables \<Rightarrow> turn_row \<Rightarrow> turn_row \<Rightarrow> turn_snapshot" where
  "snap_of db t \<equiv> load_turn_snapshot (stored_prompt_markers (tr_conversation_id t) db) db"

lemma snap_turn [simp]: "ts_turn (load_turn_snapshot markers db s) = tr_turn s"
  by (simp add: load_turn_snapshot_def Let_def)

lemma history_rows:
  assumes h: "prompt_history db t conv snapshot"
  shows "conversation_numbered conv (turns_of (tr_conversation_id t) db)"
    and "cs_turns snapshot = map (snap_of db t) (turns_of (tr_conversation_id t) db)"
    and "cs_conversation_id snapshot = tr_conversation_id t"
    and "t \<in> set (turns_of (tr_conversation_id t) db)"
    and "distinct (map (\<lambda>s. tn_id (tr_turn s)) (turns_of (tr_conversation_id t) db))"
    and "parts_based (snap_of db t s)"
    and "ts_agent_instructions (snap_of db t s) = None \<longleftrightarrow> visible_markers (tr_conversation_id t) db s = []"
proof -
  have loaded: "load_snapshot (tr_conversation_id t) db = Some (conv, snapshot)" and reach: "bot_reach db"
    using h by (simp_all add: prompt_history_def)
  have "conv \<in> set (bt_conversations db)" "cv_id conv = tr_conversation_id t"
    using find_conversation_Some [OF load_snapshot_Some(1) [OF loaded]] by simp_all
  then show numbered: "conversation_numbered conv (turns_of (tr_conversation_id t) db)"
    using reach_numbered [OF reach] unfolding bot_numbered_def by metis
  show "cs_turns snapshot = map (snap_of db t) (turns_of (tr_conversation_id t) db)"
    and "cs_conversation_id snapshot = tr_conversation_id t"
    using load_snapshot_Some(3, 4) [OF loaded] sorted_turns_of(1) [OF numbered] by simp_all
  show "t \<in> set (turns_of (tr_conversation_id t) db)"
    using h by (auto simp: prompt_history_def turns_of_def dest: find_turn_Some)
  show "distinct (map (\<lambda>s. tn_id (tr_turn s)) (turns_of (tr_conversation_id t) db))"
    using reach_numbered [OF reach] by (simp add: bot_numbered_def distinct_turns_of)
  show "parts_based (snap_of db t s)"
    and "ts_agent_instructions (snap_of db t s) = None \<longleftrightarrow> visible_markers (tr_conversation_id t) db s = []"
    using h by (simp_all add: prompt_history_def snapshot_instructions)
qed

lemma find_snap: "List.find (\<lambda>s. tn_id (ts_turn s) = i) (map (load_turn_snapshot markers db) ts)
    = map_option (load_turn_snapshot markers db) (List.find (\<lambda>s. tn_id (tr_turn s) = i) ts)"
  by (induction ts) simp_all

lemma previous_state:
  assumes h: "prompt_history db t conv snapshot"
  shows "stored_agent_instruction_state_before_turn snapshot (tn_id (tr_turn t))
   = unwrap_or (first_found (map (\<lambda>s. stored_agent_instruction_state_from_turn (snap_of db t s))
       (rev (filter (\<lambda>s. tn_ordinal (tr_turn s) < tn_ordinal (tr_turn t)) (turns_of (tr_conversation_id t) db))))) StoredNone"
  using find_in [OF history_rows(5) [OF h] history_rows(4) [OF h]]
  by (simp add: stored_agent_instruction_state_before_turn_def history_rows(2) [OF h] find_snap filter_map rev_map [symmetric]
      comp_def rev_filter [symmetric])

lemma replayed_rows:
  assumes h: "prompt_history db t conv snapshot"
    and "s' \<in> set (replay_order snapshot (tn_history_cutoff (tr_turn t)))"
  obtains s m n where "s \<in> set (turns_of (tr_conversation_id t) db)" "s' = snap_of db t s" "turn_response s = Some n"
    "tn_history_cutoff (tr_turn t) = Some m" "n \<le> m" "tn_ordinal (tr_turn s) < tn_ordinal (tr_turn t)"
proof -
  from assms(2) obtain s m n where s: "s \<in> set (turns_of (tr_conversation_id t) db)" "s' = snap_of db t s"
      "tn_history_cutoff (tr_turn t) = Some m" "turn_response s = Some n" "n \<le> m"
    by (auto simp: replay_order_def replayable_def history_rows(2) [OF h] turn_response_def split: option.splits)
  moreover have "tn_ordinal (tr_turn s) < tn_ordinal (tr_turn t)"
    using history_rows(1, 4) [OF h] s unfolding conversation_numbered_def sees_earlier_def by blast
  ultimately show ?thesis by (intro that) auto
qed

lemma history_not_current:
  assumes h: "prompt_history db t conv snapshot"
    and "turn \<in> set (replay_all store tid (replay_order snapshot (tn_history_cutoff (tr_turn t))) replayed)"
  shows "\<not> current_message (tn_id (tr_turn t)) turn"
proof (rule replay_all_not_current [OF _ _ assms(2)])
  show "CHR ''_'' \<notin> set (tn_id (tr_turn t))" using h history_rows(4) [OF h] by (simp add: prompt_history_def)
  show "\<forall>s' \<in> set (replay_order snapshot (tn_history_cutoff (tr_turn t))).
      parts_based s' \<and> CHR ''_'' \<notin> set (tn_id (ts_turn s')) \<and> tn_id (ts_turn s') \<noteq> tn_id (tr_turn t)"
  proof
    fix s' assume "s' \<in> set (replay_order snapshot (tn_history_cutoff (tr_turn t)))"
    then obtain s where s: "s \<in> set (turns_of (tr_conversation_id t) db)" "s' = snap_of db t s"
        "tn_ordinal (tr_turn s) < tn_ordinal (tr_turn t)"
      by (rule replayed_rows [OF h])
    then have "s \<noteq> t" by auto
    then have "tn_id (tr_turn s) \<noteq> tn_id (tr_turn t)"
      using distinct_map_eq [OF history_rows(5) [OF h] s(1) history_rows(4) [OF h]] by blast
    with s h history_rows(6) [OF h] show
      "parts_based s' \<and> CHR ''_'' \<notin> set (tn_id (ts_turn s')) \<and> tn_id (ts_turn s') \<noteq> tn_id (tr_turn t)"
      by (simp add: prompt_history_def)
  qed
qed

lemma distinct_map_filter_eq:
  "distinct (List.map_filter r ts) \<Longrightarrow> x \<in> set ts \<Longrightarrow> y \<in> set ts \<Longrightarrow> r x = Some n \<Longrightarrow> r y = Some n \<Longrightarrow> x = y"
  by (induction ts) (force simp: List.map_filter_simps set_map_filter split: option.splits)+

lemma first_found_None: "\<forall>x \<in> set xs. x = None \<Longrightarrow> first_found xs = None"
  by (induction xs) auto

lemma next_replayed_none: "\<forall>s \<in> set snaps. ts_agent_instructions s = None \<Longrightarrow> fold next_replayed snaps replayed = replayed"
  by (induction snaps) (simp_all add: next_replayed_def)

lemma answer_replayed_last:
  assumes h: "prompt_history db t conv snapshot"
    and l: "l \<in> set (turns_of (tr_conversation_id t) db)" "tn_status (tr_turn l) = TurnCompleted"
      "turn_response l = Some m" "tn_history_cutoff (tr_turn t) = Some m"
  shows "\<exists>snaps. replay_order snapshot (tn_history_cutoff (tr_turn t)) = snaps @ [snap_of db t l]"
  unfolding replay_order_def
proof (rule last_sort_key)
  show "snap_of db t l \<in> set (filter (replayable (tn_history_cutoff (tr_turn t))) (cs_turns snapshot))"
    using l by (auto simp: history_rows(2) [OF h] replayable_def turn_response_def)
next
  fix y assume y: "y \<in> set (filter (replayable (tn_history_cutoff (tr_turn t))) (cs_turns snapshot))" "y \<noteq> snap_of db t l"
  then have "y \<in> set (replay_order snapshot (tn_history_cutoff (tr_turn t)))" by (simp add: replay_order_def)
  then obtain s n where s: "s \<in> set (turns_of (tr_conversation_id t) db)" "y = snap_of db t s" "turn_response s = Some n" "n \<le> m"
    by (rule replayed_rows [OF h]) (use l(4) in simp)
  have "n \<noteq> m"
    using s l y distinct_map_filter_eq [of turn_response "turns_of (tr_conversation_id t) db" s l m] history_rows(1) [OF h]
    by (auto simp: conversation_numbered_def)
  then show "response_order y < response_order (snap_of db t l)"
    using s l(3) by (simp add: response_order_def turn_response_def)
qed

lemma follows_same_state:
  assumes h: "prompt_history db t conv snapshot" and follows: "follows_answer db t"
  shows "same_state (stored_agent_instruction_state_before_turn snapshot (tn_id (tr_turn t)))
    (fold next_replayed (replay_order snapshot (tn_history_cutoff (tr_turn t))) ReplayedNone)"
proof -
  let ?rows = "turns_of (tr_conversation_id t) db" and ?snap = "snap_of db t"
  note numbered = history_rows(1) [OF h]
  from follows consider "tn_ordinal (tr_turn t) = 0" "tn_history_cutoff (tr_turn t) = None"
    | l m where "l \<in> set ?rows" "tn_ordinal (tr_turn l) + 1 = tn_ordinal (tr_turn t)" "tn_status (tr_turn l) = TurnCompleted"
        "turn_response l = Some m" "tn_history_cutoff (tr_turn t) = Some m"
    unfolding follows_answer_def by (metis not_None_eq)
  then show ?thesis
  proof cases
    case 1
    then have "filter (\<lambda>s. tn_ordinal (tr_turn s) < tn_ordinal (tr_turn t)) ?rows = []"
      using sorted_turns_of(2) [OF numbered, of 0] by simp
    then have "stored_agent_instruction_state_before_turn snapshot (tn_id (tr_turn t)) = StoredNone"
      unfolding previous_state [OF h] by simp
    with 1 show ?thesis by (simp add: replayed_none)
  next
    case 2
    obtain k where k: "k < length ?rows" "?rows ! k = l" using 2(1) by (auto simp: in_set_conv_nth)
    then have ord: "tn_ordinal (tr_turn l) = int k" "tn_ordinal (tr_turn t) = int (Suc k)"
      using sorted_turns_of(3) [OF numbered, of k] 2(2) by simp_all
    have "filter (\<lambda>s. tn_ordinal (tr_turn s) < tn_ordinal (tr_turn t)) ?rows = take k ?rows @ [l]"
      using sorted_turns_of(2) [OF numbered, of "Suc k"] k ord(2) by (simp add: take_Suc_conv_app_nth)
    then have previous: "stored_agent_instruction_state_before_turn snapshot (tn_id (tr_turn t))
        = unwrap_or (first_found (map (\<lambda>s. stored_agent_instruction_state_from_turn (?snap s)) (l # rev (take k ?rows)))) StoredNone"
      unfolding previous_state [OF h] by simp
    obtain snaps where last: "replay_order snapshot (tn_history_cutoff (tr_turn t)) = snaps @ [?snap l]"
      using answer_replayed_last [OF h 2(1, 3-5)] by blast
    show ?thesis
    proof (cases "ts_agent_instructions (?snap l)")
      case None
      then have none: "ts_agent_instructions (?snap s) = None" if le: "tn_ordinal (tr_turn s) \<le> tn_ordinal (tr_turn l)" and row: "s \<in> set ?rows" for s
      proof (cases "s = l")
        case False
        obtain j where j: "j < length ?rows" "?rows ! j = s" using row by (auto simp: in_set_conv_nth)
        then have "tn_ordinal (tr_turn s) = int j" using sorted_turns_of(3) [OF numbered, of j] by simp
        moreover have "j \<noteq> k" using False j k by auto
        ultimately have "tn_ordinal (tr_turn s) < tn_ordinal (tr_turn l)" using le ord(1) by simp
        with None show ?thesis
          using visible_markers_mono history_rows(7) [OF h] by metis
      qed simp
      have earlier: "tn_ordinal (tr_turn s) \<le> tn_ordinal (tr_turn l) \<and> s \<in> set ?rows" if "s \<in> set (l # rev (take k ?rows))" for s
        using that sorted_turns_of(2) [OF numbered, of k] k(1) 2(1) ord(1) set_filter [of "\<lambda>s. tn_ordinal (tr_turn s) < int k" ?rows] by auto
      then have "first_found (map (\<lambda>s. stored_agent_instruction_state_from_turn (?snap s)) (l # rev (take k ?rows))) = None"
        by (intro first_found_None) (use none in \<open>force simp: stored_agent_instruction_state_from_turn_def\<close>)
      moreover have "fold next_replayed (replay_order snapshot (tn_history_cutoff (tr_turn t))) ReplayedNone = ReplayedNone"
      proof (rule next_replayed_none, rule ballI)
        fix s' assume "s' \<in> set (replay_order snapshot (tn_history_cutoff (tr_turn t)))"
        then obtain s where "s \<in> set ?rows" "s' = ?snap s" "tn_ordinal (tr_turn s) < tn_ordinal (tr_turn t)"
          by (rule replayed_rows [OF h])
        with none ord show "ts_agent_instructions s' = None" by simp
      qed
      ultimately show ?thesis unfolding previous by simp
    next
      case (Some state)
      then obtain parts where "ts_agent_instructions (?snap l) = Some (InstructionParts parts)"
        using history_rows(6) [OF h, of l] by (auto simp: parts_based_def)
      then show ?thesis
        unfolding previous last by (simp add: stored_agent_instruction_state_from_turn_def next_replayed_def)
    qed
  qed
qed


section \<open>Examples\<close>

definition example_part :: "string \<Rightarrow> rendered_part" where
  "example_part t = rendered_part_new 0 ''k'' t"

text \<open>The transcript of turn \<open>i\<close> under a prompt of one part, and the conversation after its input was saved.\<close>

definition example_transcript :: "string \<Rightarrow> string \<Rightarrow> bot_tables \<Rightarrow> transcript" where
  "example_transcript i t db =
     (let snapshot = snd (the (load_snapshot ''c'' db)) in
      fst (insert_agent_instruction_part_changes_before_current_turn
        (transcript_for_turn (\<lambda>_. Inl []) snapshot (tr_turn (the (find_turn i db))) []) [example_part t]
        (stored_agent_instruction_state_before_turn snapshot i) i))"

definition example_prepared :: "string \<Rightarrow> int \<Rightarrow> string \<Rightarrow> bot_tables \<Rightarrow> bot_tables" where
  "example_prepared i at t db =
     (let db' = example_begin i at db in example_save i (t_turns (example_transcript i t db')) db')"

definition example_updated :: bot_tables where
  "example_updated = example_begin ''t'' 20 (example_answer ''s'' 10 (example_prepared ''s'' 5 ''old'' example_opened))"


text \<open>
  A turn that fails has written its change of the prompt, but is not replayed: the turn after it finds nothing to change
  and its model reads the old prompt.
\<close>

definition example_failed :: bot_tables where
  "example_failed = example_begin ''t'' 30 (example_failure ''f'' 25 (example_prepared ''f'' 20 ''new''
     (example_answer ''s'' 10 (example_prepared ''s'' 5 ''old'' example_opened))))"

lemma failed_turn_hides_change:
  "prompt_shown (t_turns (example_transcript ''f'' ''new'' (example_begin ''f'' 20 (example_answer ''s'' 10 (example_prepared ''s'' 5 ''old'' example_opened))))) ''k'' = Some ''new''"
  "prompt_shown (t_turns (example_transcript ''t'' ''new'' example_failed)) ''k'' = Some ''old''"
  by code_simp+

end
