(* ===== verification/Bot_Message.thy ===== *)
theory Bot_Message
  imports Bot_Prompt Web_Vibe
begin

text \<open>
  Messages on their way in and out of a turn: who wrote them and whom they mention, their audio, and the text of a reply
  (\<open>chudbot-bot/src/platform.rs\<close>, \<open>media.rs\<close>, the end of \<open>transcript.rs\<close>, and the checks of \<open>agents/tos.rs\<close> and
  \<open>agents/title.rs\<close>).
\<close>

section \<open>Strings\<close>

text \<open>\<open>str::replace\<close> and \<open>str::find\<close> of a pattern that is not empty.\<close>

fun str_find :: "string \<Rightarrow> string \<Rightarrow> nat option" where
  "str_find pat [] = (if pat = [] then Some 0 else None)"
| "str_find pat (c # s) = (if starts_with (c # s) pat then Some 0 else map_option Suc (str_find pat s))"

function str_replace :: "string \<Rightarrow> string \<Rightarrow> string \<Rightarrow> string" where
  "str_replace pat new [] = []"
| "str_replace pat new (c # s) =
     (if starts_with (c # s) pat then new @ str_replace pat new (drop (length pat - 1) s)
      else c # str_replace pat new s)"
  by pat_completeness auto
termination by (relation "measure (\<lambda>(_, _, s). length s)") auto

definition to_ascii_upper :: "char \<Rightarrow> char" where
  "to_ascii_upper c = (if is_ascii_lowercase c then char_of (of_char c - (32 :: nat)) else c)"

definition to_ascii_uppercase :: "string \<Rightarrow> string" where
  "to_ascii_uppercase = map to_ascii_upper"

text \<open>The words of a text: \<open>word\<close> is what of the current one was read.\<close>

function words_from :: "string \<Rightarrow> string \<Rightarrow> string list" where
  "words_from word [] = (if word = [] then [] else [word])"
| "words_from word (c # s) =
     (if leading_space utf8_spaces (c # s) > 0
      then (if word = [] then [] else [word]) @ words_from [] (drop (leading_space utf8_spaces (c # s)) (c # s))
      else words_from (word @ [c]) s)"
  by pat_completeness auto
termination by (relation "measure (\<lambda>(_, s). length s)") auto

definition split_whitespace :: "string \<Rightarrow> string list" where
  "split_whitespace = words_from []"

definition trim_end_matches :: "char \<Rightarrow> string \<Rightarrow> string" where
  "trim_end_matches c s = rev (dropWhile (\<lambda>x. x = c) (rev s))"

section \<open>Messages of a platform\<close>

record user_profile =
  up_id :: user_ref
  up_username :: string
  up_name :: "string option"
  up_display_name :: "string option"
  up_is_bot :: bool

record attachment_ref =
  af_url :: string
  af_filename :: string
  af_content_type :: "string option"
  af_size_bytes :: "u64 option"
  af_is_voice_message :: bool

datatype platform_message = PlatformMessage
    (pl_id: message_ref)
    (pl_author: user_profile)
    (pl_content: string)
    (pl_mentions: "user_ref list")
    (pl_mention_profiles: "user_profile list")
    (pl_reference: platform_message_reference)
    (pl_attachments: "attachment_ref list")
    (pl_created_at: int)
and platform_message_reference =
    NoReference
  | ReferenceId message_ref
  | ReferenceHydrated platform_message

fun reference_message_id :: "platform_message_reference \<Rightarrow> message_ref option" where
  "reference_message_id NoReference = None"
| "reference_message_id (ReferenceId message) = Some message"
| "reference_message_id (ReferenceHydrated message) = Some (pl_id message)"

fun hydrated_message :: "platform_message_reference \<Rightarrow> platform_message option" where
  "hydrated_message (ReferenceHydrated message) = Some message"
| "hydrated_message _ = None"

definition display_name_for_profile :: "user_profile \<Rightarrow> string" where
  "display_name_for_profile profile = unwrap_or (or_else (up_display_name profile) (up_name profile)) (up_username profile)"

definition display_name :: "platform_message \<Rightarrow> string" where
  "display_name message = display_name_for_profile (pl_author message)"

definition same_platform_user :: "user_ref \<Rightarrow> user_ref \<Rightarrow> bool" where
  "same_platform_user left right \<longleftrightarrow> us_platform left = us_platform right \<and> us_user_id left = us_user_id right"

definition is_configured_admin :: "user_ref \<Rightarrow> user_ref list \<Rightarrow> bool" where
  "is_configured_admin user admins \<longleftrightarrow>
     list_ex (\<lambda>admin. us_platform admin = us_platform user \<and> us_user_id admin = us_user_id user
       \<and> (case us_guild_id admin of None \<Rightarrow> True | Some guild \<Rightarrow> us_guild_id user = Some guild)) admins"

definition may_explicitly_retry_turn :: "user_ref \<Rightarrow> user_ref \<Rightarrow> user_ref list \<Rightarrow> bool" where
  "may_explicitly_retry_turn requester turn_user admins \<longleftrightarrow>
     same_platform_user requester turn_user \<or> is_configured_admin requester admins"

definition message_link_replays_as_assistant :: "message_link \<Rightarrow> string \<Rightarrow> bool" where
  "message_link_replays_as_assistant link conversation \<longleftrightarrow>
     lk_conversation_id link = conversation \<and> lk_role link = ''assistant''"

section \<open>Mentions\<close>

definition strip_user_mention :: "string \<Rightarrow> user_ref \<Rightarrow> string" where
  "strip_user_mention content user =
     str_replace (''<@!'' @ us_user_id user @ ''>'') [] (str_replace (''<@'' @ us_user_id user @ ''>'') [] content)"

definition expand_mention :: "user_ref \<Rightarrow> user_profile list \<Rightarrow> user_ref \<Rightarrow> string \<Rightarrow> string" where
  "expand_mention bot_user profiles mention out =
     (if same_platform_user mention bot_user then out
      else (let label = (case List.find (\<lambda>profile. same_platform_user (up_id profile) mention) profiles of
                Some profile \<Rightarrow> display_name_for_profile profile
              | None \<Rightarrow> us_user_id mention);
              replacement = label @ '' (<@'' @ us_user_id mention @ ''>)'' in
        str_replace (''<@!'' @ us_user_id mention @ ''>'') replacement
          (str_replace (''<@'' @ us_user_id mention @ ''>'') replacement out)))"

definition normalize_mention_content :: "string \<Rightarrow> user_ref \<Rightarrow> user_ref list \<Rightarrow> user_profile list \<Rightarrow> string" where
  "normalize_mention_content content bot_user mentions profiles =
     fold (expand_mention bot_user profiles) mentions (str_trim (strip_user_mention content bot_user))"

text \<open>\<open>out\<close> is what was written, which tells whether a mention is wrapped already.\<close>

function fix_mentions_from :: "string \<Rightarrow> string \<Rightarrow> string" where
  "fix_mentions_from out [] = out"
| "fix_mentions_from out (c # s) =
     (if c \<noteq> CHR ''@'' then fix_mentions_from (out @ [c]) s
      else (let digits = takeWhile is_ascii_digit s in
        fix_mentions_from
          (if 17 \<le> length digits \<and> length digits \<le> 20 \<and> \<not> (out \<noteq> [] \<and> last out = CHR ''<'')
           then out @ ''<@'' @ digits @ ''>'' else out @ ''@'' @ digits)
          (dropWhile is_ascii_digit s)))"
  by pat_completeness auto
termination by (relation "measure (\<lambda>(_, s). length s)") (auto simp: le_imp_less_Suc length_dropWhile_le)

definition fix_bare_mentions :: "string \<Rightarrow> string" where
  "fix_bare_mentions = fix_mentions_from []"

section \<open>Replies\<close>

definition THREAD_REPLY_WRAP_WIDTH :: nat where
  "THREAD_REPLY_WRAP_WIDTH = 80"

definition rendered_line_count :: "string \<Rightarrow> nat" where
  "rendered_line_count content =
     sum_list (map (\<lambda>line. if char_count line = 0 then 1
         else (char_count line + THREAD_REPLY_WRAP_WIDTH - 1) div THREAD_REPLY_WRAP_WIDTH)
       (split_all (byte 10) content))"

definition should_thread :: "bool \<Rightarrow> string \<Rightarrow> nat \<Rightarrow> nat \<Rightarrow> bool" where
  "should_thread is_new content char_threshold line_threshold \<longleftrightarrow>
     is_new \<and> (char_count content > char_threshold \<or> rendered_line_count content > line_threshold)"

definition full_trace_url :: "string \<Rightarrow> string \<Rightarrow> string" where
  "full_trace_url web_base_url conversation = trim_end_matches CHR ''/'' web_base_url @ ''/c/'' @ conversation"

text \<open>The magnifying glass is U+1F50E.\<close>

definition full_trace_link_markdown_for_url :: "string \<Rightarrow> string" where
  "full_trace_link_markdown_for_url url = ''-# '' @ map byte [240, 159, 148, 142] @ '' [full trace]('' @ url @ '')''"

definition format_reply_content :: "string \<Rightarrow> bool \<Rightarrow> string \<Rightarrow> string \<Rightarrow> string" where
  "format_reply_content t is_new conversation web_base_url =
     (let t = fix_bare_mentions t; url = full_trace_url web_base_url conversation in
      if \<not> is_new \<or> str_contains t url then t
      else t @ [byte 10, byte 10] @ full_trace_link_markdown_for_url url)"

definition thread_title :: "string \<Rightarrow> string \<Rightarrow> string" where
  "thread_title user_content agent_name =
     take_chars 80 (let title = str_join '' '' (take 8 (split_whitespace user_content)) in
       if title = [] then agent_name else title)"

definition TITLE_MAX_CHARS :: nat where
  "TITLE_MAX_CHARS = 80"

definition unquoted :: "char \<Rightarrow> string \<Rightarrow> string option" where
  "unquoted c s = Option.bind (strip_prefix [c] s) (strip_suffix [c])"

definition clean_title :: "string \<Rightarrow> string" where
  "clean_title raw =
     (let t = str_trim raw;
          t = str_trim (unwrap_or (or_else (strip_prefix ''Title:'' t)
                (or_else (strip_prefix ''title:'' t) (strip_prefix ''Conversation:'' t))) t);
          t = str_trim (unwrap_or (or_else (unquoted (byte 34) t) (unquoted (byte 39) t)) t)
      in take_chars TITLE_MAX_CHARS t)"

section \<open>References to generated media\<close>

definition push_unique_string :: "string \<Rightarrow> string list \<Rightarrow> string list" where
  "push_unique_string value out = (if value = [] \<or> value \<in> set out then out else out @ [value])"

definition collect_generated_media_reply_refs :: "json \<Rightarrow> string list \<Rightarrow> string list" where
  "collect_generated_media_reply_refs value =
     fold (\<lambda>key out. case Option.bind (json_get value key) json_as_str of
         None \<Rightarrow> out | Some reference \<Rightarrow> push_unique_string reference out)
       [''public_url'', ''uri'', ''image_uri'', ''video_uri'']"

definition tool_trace_delivers_reply_media :: "string \<Rightarrow> bool" where
  "tool_trace_delivers_reply_media name \<longleftrightarrow> name \<in> {''generate_image'', ''generate_video'', ''attach''}"

text \<open>The successful calls of the tools that deliver media.\<close>

definition delivering_traces :: "tool_trace list \<Rightarrow> client_tool_trace list" where
  "delivering_traces traces =
     filter (\<lambda>t. \<not> ctr_is_error (ctt_result t) \<and> tool_trace_delivers_reply_media (ctc_name (ctt_call t)))
       (List.map_filter client_trace_of traces)"

fun result_json :: "client_tool_result_content \<Rightarrow> json option" where
  "result_json (ResultJson value) = Some value"
| "result_json (ResultText _) = None"

definition generated_media_reply_refs :: "tool_trace list \<Rightarrow> string list" where
  "generated_media_reply_refs traces =
     fold (\<lambda>t out.
         (case result_json (ctr_content (ctt_result t)) of
            None \<Rightarrow> \<lambda>out. out | Some value \<Rightarrow> collect_generated_media_reply_refs value)
           (collect_generated_media_reply_refs (ctt_trace_response t) out))
       (delivering_traces traces) []"

definition media_uris_from_tool_traces :: "tool_trace list \<Rightarrow> string list" where
  "media_uris_from_tool_traces traces =
     fold (\<lambda>t out.
         let response = ctt_trace_response t in
         case Option.bind (or_else (json_get response ''uri'')
                (or_else (json_get response ''image_uri'') (json_get response ''video_uri''))) json_as_str of
           None \<Rightarrow> out
         | Some uri \<Rightarrow> (case canonical_stored_media_uri uri of
               Inl _ \<Rightarrow> out | Inr uri \<Rightarrow> if uri \<in> set out then out else out @ [uri]))
       (delivering_traces traces) []"

text \<open>\<open>public_url\<close> is what the media of the transcript answer.\<close>

fun media_block_refs :: "(media_ref \<Rightarrow> string option) \<Rightarrow> content_block \<Rightarrow> string list \<Rightarrow> string list" where
  "media_block_refs public_url (BlockMedia media) out =
     (let uri = mm_uri (media_metadata_of media);
          out = (case canonical_stored_media_uri uri of Inl _ \<Rightarrow> out | Inr canonical \<Rightarrow> push_unique_string canonical out);
          out = (if canonical_stored_media_uri uri = Inr uri then out else push_unique_string uri out) in
      case public_url media of None \<Rightarrow> out | Some url \<Rightarrow> push_unique_string url out)"
| "media_block_refs public_url (BlockClientToolResult result) out =
     (case result_json (ctr_content result) of None \<Rightarrow> out | Some value \<Rightarrow> collect_generated_media_reply_refs value out)"
| "media_block_refs public_url _ out = out"

definition media_reply_refs_from_transcript :: "(media_ref \<Rightarrow> string option) \<Rightarrow> transcript \<Rightarrow> string list" where
  "media_reply_refs_from_transcript public_url t =
     fold (media_block_refs public_url) (concat (map tt_blocks (t_turns t))) []"

section \<open>Taking references out of a reply\<close>

definition rfind :: "char \<Rightarrow> string \<Rightarrow> nat option" where
  "rfind c = rposition (\<lambda>x. x = c)"

text \<open>The link or image whose target is the \<open>len\<close> bytes at \<open>start\<close>.\<close>

definition markdown_link_bounds :: "string \<Rightarrow> nat \<Rightarrow> nat \<Rightarrow> (nat \<times> nat) option" where
  "markdown_link_bounds t start len =
     (if start < 2 \<or> t ! (start - 1) \<noteq> CHR ''('' \<or> start + len \<ge> length t \<or> t ! (start + len) \<noteq> CHR '')''
        \<or> t ! (start - 2) \<noteq> CHR '']''
      then None
      else map_option (\<lambda>open_bracket.
          (if open_bracket > 0 \<and> t ! (open_bracket - 1) = CHR ''!'' then open_bracket - 1 else open_bracket, start + len + 1))
        (rfind CHR ''['' (take (start - 2) t)))"

definition cut_reference :: "string \<Rightarrow> nat \<Rightarrow> nat \<Rightarrow> string" where
  "cut_reference t start len =
     (case markdown_link_bounds t start len of
        Some (a, b) \<Rightarrow> take a t @ drop b t
      | None \<Rightarrow> take start t @ drop (start + len) t)"

lemma str_find_bound: "str_find pat s = Some i \<Longrightarrow> i + length pat \<le> length s"
  by (induction pat s arbitrary: i rule: str_find.induct) (auto simp: starts_with_def split: if_splits dest: arg_cong [of _ _ length])

lemma rfind_bound: "rfind c s = Some i \<Longrightarrow> i < length s"
proof -
  have "position P xs = Some i \<Longrightarrow> i < length xs" for P :: "char \<Rightarrow> bool" and xs i
    by (induction xs arbitrary: i) (auto split: if_splits)
  then show "rfind c s = Some i \<Longrightarrow> i < length s" by (force simp: rfind_def rposition_def)
qed

lemma cut_shorter:
  assumes "str_find reference t = Some i" and "reference \<noteq> []"
  shows "length (cut_reference t i (length reference)) < length t"
proof (cases "markdown_link_bounds t i (length reference)")
  case None
  then show ?thesis using str_find_bound [OF assms(1)] assms(2) by (cases reference) (auto simp: cut_reference_def)
next
  case (Some bounds)
  then obtain a b where ab: "bounds = (a, b)" "a < b" "b \<le> length t"
    by (auto simp: markdown_link_bounds_def split: if_splits dest!: rfind_bound)
  with Some show ?thesis by (simp add: cut_reference_def)
qed

text \<open>The loop ends, as each round makes the text shorter.\<close>

function strip_reference :: "string \<Rightarrow> string \<Rightarrow> string" where
  "strip_reference reference t =
     (if reference = [] then t
      else case str_find reference t of
        None \<Rightarrow> t
      | Some i \<Rightarrow> strip_reference reference (cut_reference t i (length reference)))"
  by pat_completeness auto
termination by (relation "measure (\<lambda>(_, t). length t)") (auto intro: cut_shorter)

declare strip_reference.simps [simp del]

text \<open>Blank lines are merged and dropped at both ends; \<open>blank\<close> says whether the line before was one.\<close>

fun normalize_lines :: "bool \<Rightarrow> string list \<Rightarrow> string list" where
  "normalize_lines blank [] = []"
| "normalize_lines blank (line # lines) =
     (let line = trim_end line in
      if str_trim line = [] then (if blank then [] else [[]]) @ normalize_lines True lines
      else line # normalize_lines False lines)"

definition normalize_stripped_reply :: "string \<Rightarrow> string" where
  "normalize_stripped_reply t =
     str_join [byte 10] (rev (dropWhile (\<lambda>line. line = []) (rev (normalize_lines True (str_lines t)))))"

definition strip_generated_media_refs :: "string \<Rightarrow> string list \<Rightarrow> string" where
  "strip_generated_media_refs t refs =
     (if refs = [] then t else normalize_stripped_reply (fold strip_reference refs t))"

text \<open>Lines under a heading, or the only one behind its singular.\<close>

definition append_listed :: "string \<Rightarrow> string \<Rightarrow> string list \<Rightarrow> string \<Rightarrow> string" where
  "append_listed one many items t =
     (let t = trim_end t; t = (if t = [] then [] else t @ [byte 10, byte 10]) in
      if length items = 1 then t @ one @ items ! 0
      else trim_end (t @ many @ [byte 10] @ concat (map (\<lambda>item. ''- '' @ item @ [byte 10]) items)))"

definition append_generated_media_public_urls :: "string \<Rightarrow> string list \<Rightarrow> string" where
  "append_generated_media_public_urls t public_urls =
     (if public_urls = [] then t else append_listed ''Attached media: '' ''Attached media:'' public_urls t)"

definition append_generated_media_delivery_failures :: "string \<Rightarrow> string list \<Rightarrow> string" where
  "append_generated_media_delivery_failures t failures =
     (if failures = [] then t else append_listed ''Media delivery issue: '' ''Media delivery issues:'' failures t)"

section \<open>Refusals\<close>

definition error_indicates_safety_refusal :: "string \<Rightarrow> bool" where
  "error_indicates_safety_refusal error \<longleftrightarrow>
     (let lower = to_ascii_lowercase error in
      str_contains lower ''safety_check'' \<or> str_contains lower ''violates usage guidelines'')"

fun tool_error_text :: "client_tool_result_content \<Rightarrow> string" where
  "tool_error_text (ResultText t) = t"
| "tool_error_text (ResultJson value) =
     unwrap_or (or_else (Option.bind (json_get value ''error'') json_as_str) (json_as_str value)) []"

definition safety_refusal_in_tool_trace :: "tool_trace list \<Rightarrow> bool" where
  "safety_refusal_in_tool_trace traces \<longleftrightarrow>
     list_ex (\<lambda>t. ctr_is_error (ctt_result t) \<and> error_indicates_safety_refusal (tool_error_text (ctr_content (ctt_result t))))
       (List.map_filter client_trace_of traces)"

definition moderation_verdict :: "string \<Rightarrow> bool" where
  "moderation_verdict answer \<longleftrightarrow>
     (let verdict = to_ascii_uppercase (str_trim answer) in
      \<not> starts_with verdict ''REFUSE'' \<and> \<not> str_contains verdict '' REFUSE'' \<and> verdict \<noteq> ''REFUSE'')"

fun moderation_outcome :: "agent_outcome \<Rightarrow> bool" where
  "moderation_outcome (Completed answer) = moderation_verdict (aa_text answer)"
| "moderation_outcome (IterationLimit _) = True"
| "moderation_outcome (Failed error _) = (\<not> error_indicates_safety_refusal (agent_error_text error))"
| "moderation_outcome (Cancelled _) = True"

end
