(* ===== verification/Spec2Isabelle.thy ===== *)
theory Spec2Isabelle
  imports Api_Agent_Props Api_Retry Api_Media Web_Rooms_Concurrent Web_Rooms_Props Web_Collections
    Provider_Anthropic_Message Provider_Anthropic_Request Provider_Responses_Request Provider_Gemini_Request
    Provider_Props Discord_Send Bot_Replay_Props
    Vibe_Sandbox_Props Vibe_Export_Props Vibe_Coding_Props Vibe_Git Web_Http Web_Vibe_Auth_Props Web_Vibe_Requests
    Store_Collections_Props Store_Vibe_Props Bot_Vibe_Job_Props Bot_Prompt_Props Bot_Message
begin

text \<open>
  \<^bold>\<open>What is modelled.\<close> chudbot is a chat bot that runs agents over several model providers. A message on
  Discord starts a turn: \<open>chudbot-bot\<close> rebuilds the transcript of the conversation from storage, runs an
  agent of \<open>chudbot-api\<close>, which asks a provider adapter for model steps and executes the tools the model
  calls, and posts the answer through \<open>chudbot-discord\<close>. One of the tools, Vibe, is a site builder of its own:
  it claims a site in the database, lets a coding agent work in a Docker container, commits the sources to a git
  store, builds and publishes an artifact; \<open>chudbot-web\<close> serves the sites to members of the Discord server,
  with chat rooms and shared collections of documents. The theories follow these parts; every definition is
  translated from the source named in its theory, in the order of the source, and is executable.

  \<^bold>\<open>Common ground.\<close> \<open>Rust_Prelude\<close>, \<open>Rust_Trim\<close>, \<open>Rust_Utf8\<close>, \<open>Rust_Decimal\<close> and \<open>Rust_Path\<close> hold what the
  program uses of Rust's standard library (strings are their UTF-8 bytes; \<open>char\<close>s are decoded where the code
  works on characters; integers keep their width where they can overflow, sums of \<open>u64\<close> wrap as in release
  builds, the target is 64-bit), \<open>Json_Value\<close> the values of \<open>serde_json\<close>.

  \<^bold>\<open>The agent, \<open>chudbot-api/src\<close>.\<close>
  \<^item> \<open>Api_Tool\<close>, \<open>Api_Tool_Schema\<close> (\<open>tool.rs\<close>, \<open>usage.rs\<close>), \<open>Api_Transcript\<close> (\<open>transcript.rs\<close>), \<open>Api_Llm\<close>
    (\<open>llm.rs\<close>), \<open>Api_Media\<close> (\<open>media/reference.rs\<close>), \<open>Api_Reasoning\<close> (\<open>reasoning.rs\<close>): the data of a run, with the
    operations the code has on it. Media URIs round-trip.
  \<^item> \<open>Api_Collector\<close> (\<open>collector.rs\<close>): the reducer that folds streamed events into a model step, shown to refine a
    grouping specification that never mentions its slots and indices; \<open>Api_Collector_Typing\<close>: a type discipline
    for streams under which the reducer cannot fail.
  \<^item> \<open>Api_Agent\<close>, \<open>Api_Agent_Run\<close>, \<open>Api_Agent_Props\<close> (\<open>agent.rs\<close>): \<open>Agent::run\<close> as the list of events it yields and
    the way it ends, over an arbitrary backend, executor and clock: shape of the stream, outcome, growth and audit
    of the transcript, bounds, the step deadline, resumption. The loop is bounded by the iteration limit of the spec,
    so no fuel is involved.
  \<^item> \<open>Api_Retry\<close> (\<open>retry.rs\<close>): backoff in saturating arithmetic and the retry loop, which is bounded by the
    attempts of its policy; sleeping is the list of delays.
  \<^item> \<open>Api_Sse\<close> (\<open>sse.rs\<close>): the event decoder over its byte buffer, independent of how the transport cuts the bytes.

  \<^bold>\<open>The provider adapters.\<close>
  \<^item> \<open>Provider_Common\<close>, \<open>Provider_Stream\<close>, \<open>Provider_Contract\<close>, \<open>Provider_Props\<close>: what \<open>chudbot-anthropic\<close>,
    \<open>chudbot-openai\<close>, \<open>chudbot-gemini\<close> and \<open>chudbot-xai\<close> share (\<open>lib.rs\<close> and the \<open>step\<close> function of each \<open>llm.rs\<close>):
    errors, retries before the first event, the streaming loop. What the loop needs of a provider is a locale,
    interpreted on each of the four.
  \<^item> \<open>Provider_Anthropic\<close>, \<open>Provider_Responses\<close>, \<open>Provider_Xai\<close>, \<open>Provider_Gemini\<close>: the stream state machine of
    each adapter; \<open>Provider_Anthropic_Message\<close>: a whole message survives any fragmentation.
  \<^item> \<open>Provider_Request\<close>, \<open>Provider_Anthropic_Request\<close>, \<open>Provider_Responses_Request\<close>, \<open>Provider_Gemini_Request\<close>,
    \<open>Provider_Compat\<close>: requests, and the whole non-streaming adapter of \<open>chudbot-openai-compat\<close>.

  \<^bold>\<open>Discord and the bot.\<close>
  \<^item> \<open>Discord_Split\<close>, \<open>Discord_Send\<close> (\<open>chudbot-discord/src/lib.rs\<close>): splitting of long answers, whose loops are
    partial functions proved to return, and sending with attachments.
  \<^item> \<open>Bot_Replay\<close>, \<open>Bot_Replay_Props\<close> (\<open>chudbot-bot/src/transcript.rs\<close>): the transcript a model sees, rebuilt from
    stored turns; it only grows, and shows no tool result twice.
  \<^item> \<open>Bot_Prompt\<close>, \<open>Bot_Prompt_Props\<close> (end of \<open>chudbot-bot/src/turns.rs\<close>): the prompt stored with a conversation, the
    parts of it that changed, and the markers written in front of a turn; what a model reads as its prompt.
  \<^item> \<open>Bot_Message\<close> (\<open>chudbot-bot/src/platform.rs\<close>, \<open>media.rs\<close>, \<open>transcript.rs\<close>, \<open>agents/tos.rs\<close>, \<open>agents/title.rs\<close>): the
    texts around a turn, from the mentions of a message to the final form of a reply. Taking references out of a reply
    is a loop that is shown to end.
  \<^item> \<open>Bot_Vibe\<close>, \<open>Bot_Vibe_Props\<close>, \<open>Bot_Vibe_Job\<close>, \<open>Bot_Vibe_Job_Props\<close> (\<open>chudbot-bot/src/tools/vibe.rs\<close>): the tools
    of Vibe. Handlers are the steps of \<open>Bot_Await\<close>: every await is counted; the environment says what is answered there and whether the call is dropped
    there, so a call is a deterministic function of its environment. Weakest preconditions carry the proofs; the job
    refines the step relation of \<open>Store_Vibe_Props\<close>. The rounds of a job are bounded by the repair attempts of its
    configuration.

  \<^bold>\<open>The storage of conversations.\<close>
  \<^item> \<open>Store_Turns\<close>, \<open>Store_Turns_Props\<close> (\<open>chudbot-storage-sqlx/src/bot.rs\<close>, \<open>snapshots.rs\<close>): conversations, turns,
    attempts, links and prompt markers as tables with the operations on them and the snapshots read back, and a
    deployment as a step relation with the numbering of turns and responses as its invariant.

  \<^bold>\<open>The Vibe workspace and its storage.\<close>
  \<^item> \<open>Vibe_Access\<close> (\<open>chudbot-vibe/src/access.rs\<close>, \<open>names.rs\<close>), \<open>Vibe_Git\<close> (\<open>git.rs\<close>), \<open>Vibe_Export\<close>,
    \<open>Vibe_Export_Props\<close> (\<open>export.rs\<close>), \<open>Vibe_Sandbox\<close>, \<open>Vibe_Sandbox_Props\<close> (\<open>sandbox.rs\<close>), \<open>Vibe_Coding\<close>,
    \<open>Vibe_Coding_Props\<close> (\<open>coding.rs\<close>): rules for sites and names, the git store, tree walks over a directory tree with
    I/O faults, containers, and the tools of the coding agent, which stay in their workspace.
  \<^item> \<open>Store_Vibe\<close>, \<open>Store_Vibe_Props\<close> (\<open>chudbot-storage-sqlx/src/vibe.rs\<close>): sites, jobs and revisions as tables with
    the operations on them, and the jobs of a deployment as a step relation with its invariant by rule induction.
  \<^item> \<open>Store_Collections\<close>, \<open>Store_Collections_Props\<close> (same file): queries and writes of collections, their published
    changes, and a simulation between the table and the copies of its watchers.

  \<^bold>\<open>The web server, \<open>chudbot-web/src\<close>.\<close>
  \<^item> \<open>Web_Capacity\<close>, \<open>Web_Rooms\<close>, \<open>Web_Rooms_Concurrent\<close>, \<open>Web_Rooms_Props\<close> (\<open>vibe_rooms.rs\<close>): the room hub over an
    explicit store of shared objects; connections interleave at the granularity of the sections the locks protect.
  \<^item> \<open>Web_Collections\<close> (\<open>vibe_collections.rs\<close>): watches of collections, their queues and limits.
  \<^item> \<open>Web_Http\<close> (\<open>middleware.rs\<close>, \<open>static_files.rs\<close>, \<open>spa.rs\<close>), \<open>Web_Vibe\<close>, \<open>Web_Vibe_Auth\<close>, \<open>Web_Vibe_Auth_Props\<close>,
    \<open>Web_Vibe_Requests\<close> (\<open>vibe.rs\<close>): requests, hosts and cookies, the authorization caches over the runs of a server,
    and the handlers of sites.

  \<^bold>\<open>Parameters.\<close> Code that is not in the repository is an argument of the definitions that use it: parsing and
  printing of JSON by serde, the HTTP and REST clients (what each attempt answers), git and docker (what the
  n-th command answers), the file system (a directory tree in which any access may fail), sockets, clocks, fresh
  UUIDs, the media store, URL, percent and MIME libraries, Discord and the database of other processes (what is
  answered at an instant or at an await), cost estimates and number readings in \<open>f64\<close>. SQL statements are read as
  the operations on tables they denote; timestamps of rows are left out where no decision reads them. Hash maps are
  kept in key order, and caches are maps whose entries may be evicted at any time. Logging and tracing are left out.

  \<^bold>\<open>Not modelled.\<close> The media endpoints of the providers and the asset stores are I/O with provider wire
  formats; the orchestration of turns over storage and platform (the rest of \<open>chudbot-bot/src/turns.rs\<close>,
  \<open>runtime.rs\<close>, \<open>commands.rs\<close>), the conversation API, event stream and sign-in pages of the web server, profiles,
  media rows, video jobs and usage reports in \<open>chudbot-storage-sqlx/src/bot.rs\<close>, all of its \<open>memory.rs\<close>, listing and
  purging of sites, and the binary with its configuration and diagnostics are left out, as are the browser interface
  and the container files, which are not Rust.
\<close>

end
